(* ===== verification/Prelude.thy ===== *)
theory Prelude
  imports Main "HOL-Library.Word" "HOL-Library.Monad_Syntax"
begin

text \<open>
  Shared vocabulary of the development: the machine integer types, the byte views of
  them that the C code takes through unions (\<open>u8_u16_t\<close>, \<open>u8_u32_t\<close>,
  \<open>u8_i16_t\<close> of \<open>xxf_types_helper.h\<close>, the CC26xx being little endian),
  memories, the two loop combinators the code needs (a counted \<open>for\<close> over a list
  of indices and the \<open>while(f())\<close> retry loop), and the lemmas about them.
  A computation over the device state \<open>'d\<close> that may fail to return has the
  type \<open>'d \<Rightarrow> ('a \<times> 'd) option\<close>, with \<open>None\<close> for "does not return".
\<close>

unbundle bit_operations_syntax

type_synonym u8 = "8 word"
type_synonym u16 = "16 word"
type_synonym u32 = "32 word"
type_synonym u64 = "64 word"
type_synonym bytes = "u8 list"
type_synonym mem = "nat \<Rightarrow> u8"

named_theorems bytes_simps "reading multi-byte integers back from their bytes"
named_theorems loop_simps "loops whose body succeeds"
named_theorems mem_simps "reading memories after an update"

section \<open>Byte views of integers\<close>

definition byte_of :: "'a::len word \<Rightarrow> nat \<Rightarrow> u8" where
  "byte_of w i = ucast (drop_bit (8 * i) w)"

definition u16_of_bytes :: "u8 \<Rightarrow> u8 \<Rightarrow> u16" where
  "u16_of_bytes b0 b1 = ucast b0 OR push_bit 8 (ucast b1)"

definition u32_of_bytes :: "u8 \<Rightarrow> u8 \<Rightarrow> u8 \<Rightarrow> u8 \<Rightarrow> u32" where
  "u32_of_bytes b0 b1 b2 b3 =
     ucast b0 OR push_bit 8 (ucast b1) OR push_bit 16 (ucast b2) OR push_bit 24 (ucast b3)"

lemma u16_of_bytes_byte_of [bytes_simps]: "u16_of_bytes (byte_of w 0) (byte_of w 1) = w"
  by (rule bit_word_eqI)
    (auto simp: u16_of_bytes_def byte_of_def bit_simps not_less dest: bit_imp_le_length)

lemma byte_of_u16_of_bytes [bytes_simps]:
  "byte_of (u16_of_bytes b0 b1) 0 = b0" "byte_of (u16_of_bytes b0 b1) 1 = b1"
  by (rule bit_word_eqI; auto simp: u16_of_bytes_def byte_of_def bit_simps dest: bit_imp_le_length)+

lemma u32_of_bytes_byte_of [bytes_simps]:
  fixes w :: u32
  shows "u32_of_bytes (byte_of w 0) (byte_of w 1) (byte_of w 2) (byte_of w 3) = w"
proof (rule bit_word_eqI)
  fix n
  assume "n < LENGTH(32)"
  then consider "n < 8" | "8 \<le> n" "n < 16" | "16 \<le> n" "n < 24" | "24 \<le> n" "n < 32"
    by fastforce
  then show "bit (u32_of_bytes (byte_of w 0) (byte_of w 1) (byte_of w 2) (byte_of w 3)) n = bit w n"
    by cases (auto simp: u32_of_bytes_def byte_of_def bit_simps)
qed

lemma byte_of_u32_of_bytes [bytes_simps]:
  "byte_of (u32_of_bytes b0 b1 b2 b3) 0 = b0"
  "byte_of (u32_of_bytes b0 b1 b2 b3) 1 = b1"
  "byte_of (u32_of_bytes b0 b1 b2 b3) 2 = b2"
  "byte_of (u32_of_bytes b0 b1 b2 b3) 3 = b3"
  by (rule bit_word_eqI; auto simp: u32_of_bytes_def byte_of_def bit_simps dest: bit_imp_le_length)+

lemmas byte_views_Suc [bytes_simps] = u16_of_bytes_byte_of [unfolded One_nat_def]
  byte_of_u16_of_bytes [unfolded One_nat_def] u32_of_bytes_byte_of [unfolded One_nat_def]
  byte_of_u32_of_bytes [unfolded One_nat_def]

text \<open>The simplifier turns \<open>w << 1\<close> into \<open>w * 2\<close>; its bits are those of \<open>w\<close> moved up.\<close>

lemma bit_times_2 [simp]:
  "bit (w * 2 :: 'a::len word) n \<longleftrightarrow> n < LENGTH('a) \<and> 0 < n \<and> bit w (n - 1)"
  by (simp add: mult.commute [of w 2] bit_double_iff)

lemma ucast_u8_u32 [simp]: "(ucast (ucast (x :: u8) :: u32) :: u8) = x"
  by (rule bit_word_eqI) (auto simp: bit_simps)

lemma unat_of_nat_u32: "n < 4294967296 \<Longrightarrow> unat (word_of_nat n :: u32) = n"
  by (simp add: unat_of_nat take_bit_eq_mod)

lemma unat_lt_u32: "unat (w :: u32) < 4294967296"
  using unsigned_less [of w] by simp

text \<open>Rounding up to a multiple, as C code writes it.\<close>

lemma div_round_up:
  fixes d n :: nat
  assumes "0 < n"
  shows "(d + (n - 1)) div n = d div n + (if d mod n = 0 then 0 else 1)"
proof -
  have "d + (n - 1) = d mod n + (n - 1) + n * (d div n)" by simp
  then have "(d + (n - 1)) div n = (d mod n + (n - 1)) div n + d div n"
    using assms by (simp only: div_mult_self2)
  moreover have "(d mod n + (n - 1)) div n = (if d mod n = 0 then 0 else 1)"
    using assms mod_less_divisor [OF assms, of d] by (auto intro!: div_nat_eqI)
  ultimately show ?thesis by simp
qed

section \<open>Memories\<close>

text \<open>
  A flash array is a map from byte addresses to bytes. Programming can only clear bits
  (the result is the AND of the old byte and the datum); erasing sets bytes to 0xFF.
\<close>

definition read_mem :: "mem \<Rightarrow> nat \<Rightarrow> nat \<Rightarrow> bytes" where
  "read_mem m a n = map m [a..<a + n]"

definition and_bytes :: "nat \<Rightarrow> bytes \<Rightarrow> mem \<Rightarrow> mem" where
  "and_bytes a bs m = (\<lambda>x. if a \<le> x \<and> x < a + length bs then m x AND bs ! (x - a) else m x)"

definition fill_ff :: "nat \<Rightarrow> nat \<Rightarrow> mem \<Rightarrow> mem" where
  "fill_ff a n m = (\<lambda>x. if a \<le> x \<and> x < a + n then 0xFF else m x)"

definition erased :: "nat \<Rightarrow> nat \<Rightarrow> mem \<Rightarrow> bool" where
  "erased a n m \<longleftrightarrow> (\<forall>x. a \<le> x \<and> x < a + n \<longrightarrow> m x = 0xFF)"

lemma length_read_mem [simp]: "length (read_mem m a n) = n"
  by (simp add: read_mem_def)

lemma nth_read_mem [simp]: "i < n \<Longrightarrow> read_mem m a n ! i = m (a + i)"
  by (simp add: read_mem_def)

lemma read_mem_0 [simp]: "read_mem m a 0 = []"
  by (simp add: read_mem_def)

lemma read_mem_Suc: "read_mem m a (Suc n) = m a # read_mem m (Suc a) n"
  by (simp add: read_mem_def upt_conv_Cons del: upt_Suc)

lemma read_mem_append: "read_mem m a (n + k) = read_mem m a n @ read_mem m (a + n) k"
proof -
  have "[a..<a + (n + k)] = [a..<a + n] @ [a + n..<a + n + k]"
    using upt_add_eq_append [of a "a + n" k] by (simp add: add.assoc)
  then show ?thesis by (simp add: read_mem_def)
qed

lemma read_mem_cong:
  "(\<And>x. a \<le> x \<Longrightarrow> x < a + n \<Longrightarrow> m x = m' x) \<Longrightarrow> read_mem m a n = read_mem m' a n"
  by (simp add: read_mem_def)

lemma and_bytes_Nil [simp]: "and_bytes a [] m = m"
  by (auto simp: and_bytes_def fun_eq_iff)

lemma and_bytes_outside [mem_simps]:
  "x < a \<or> a + length bs \<le> x \<Longrightarrow> and_bytes a bs m x = m x"
  by (auto simp: and_bytes_def)

lemma and_bytes_append:
  "and_bytes a (xs @ ys) m = and_bytes (a + length xs) ys (and_bytes a xs m)"
  by (auto simp: and_bytes_def fun_eq_iff nth_append)

lemma ff_and [simp]: "(0xFF :: u8) AND w = w"
proof -
  have "(0xFF :: u8) = - 1" by simp
  then show ?thesis by (simp only: and.left_neutral)
qed

lemma and_bytes_erased:
  assumes "erased a (length bs) m"
  shows "read_mem (and_bytes a bs m) a (length bs) = bs"
proof (rule nth_equalityI)
  fix i
  assume i: "i < length (read_mem (and_bytes a bs m) a (length bs))"
  with assms have "m (a + i) = 0xFF" by (simp add: erased_def)
  then show "read_mem (and_bytes a bs m) a (length bs) ! i = bs ! i"
    using i by (simp add: and_bytes_def)
qed simp

lemma fill_ff_outside [mem_simps]: "x < a \<or> a + n \<le> x \<Longrightarrow> fill_ff a n m x = m x"
  by (auto simp: fill_ff_def)

lemma erased_fill_ff [mem_simps]: "erased a n (fill_ff a n m)"
  by (simp add: erased_def fill_ff_def)

lemma erased_subrange: "erased a n m \<Longrightarrow> a \<le> b \<Longrightarrow> b + k \<le> a + n \<Longrightarrow> erased b k m"
  by (auto simp: erased_def)

section \<open>Loops\<close>

text \<open>\<open>for (i = 0; i < n; i++) body\<close> is \<open>for_each body [0..<n]\<close>.\<close>

fun for_each :: "('i \<Rightarrow> 's \<Rightarrow> 's option) \<Rightarrow> 'i list \<Rightarrow> 's \<Rightarrow> 's option" where
  "for_each body [] s = Some s"
| "for_each body (i # is) s = do { s' \<leftarrow> body i s; for_each body is s' }"

lemma for_each_append:
  "for_each body (is @ js) s = do { s' \<leftarrow> for_each body is s; for_each body js s' }"
  by (induction "is" arbitrary: s) (auto split: bind_splits)

text \<open>
  The rule for a counted loop: an invariant indexed by the number of iterations done,
  established at 0 and carried by each iteration, holds at the end; the loop returns.
\<close>

lemma for_each_upt:
  assumes "I 0 s"
    and "\<And>i s. i < n \<Longrightarrow> I i s \<Longrightarrow> \<exists>s'. body i s = Some s' \<and> I (Suc i) s'"
  shows "\<exists>s'. for_each body [0..<n] s = Some s' \<and> I n s'"
  using assms
proof (induction n)
  case (Suc n)
  then obtain s' where "for_each body [0..<n] s = Some s'" and "I n s'"
    by (metis less_SucI)
  with Suc.prems(2) [of n s'] show ?case
    by (auto simp: for_each_append)
qed simp

text \<open>
  \<open>while (f(x)) ;\<close>: call \<open>f\<close> again until it returns 0. Each call returns its
  status and a value; \<open>None\<close> when no call ever returns 0.
\<close>

partial_function (option) retry ::
  "('s \<Rightarrow> ((int \<times> 'a) \<times> 's) option) \<Rightarrow> 's \<Rightarrow> ('a \<times> 's) option" where
  "retry f s = do {
     ((r, x), s') \<leftarrow> f s;
     if r = 0 then Some (x, s') else retry f s' }"

lemma retry_ok [loop_simps]: "f s = Some ((0, x), s') \<Longrightarrow> retry f s = Some (x, s')"
  by (subst retry.simps) simp

lemma retry_again [loop_simps]:
  "f s = Some ((r, x), s') \<Longrightarrow> r \<noteq> 0 \<Longrightarrow> retry f s = retry f s'"
  by (subst retry.simps) simp

text \<open>A call that keeps failing is retried for ever.\<close>

lemma retry_diverges:
  assumes "I s" and "\<And>s. I s \<Longrightarrow> \<exists>r x s'. f s = Some ((r, x), s') \<and> r \<noteq> 0 \<and> I s'"
  shows "retry f s = None"
proof (rule ccontr)
  assume "retry f s \<noteq> None"
  then obtain y where ret: "retry f s = Some y" by blast
  let ?fails = "\<lambda>f. \<forall>s. I s \<longrightarrow> (\<exists>r x s'. f s = Some ((r, x), s') \<and> r \<noteq> 0 \<and> I s')"
  have "?fails f \<longrightarrow> \<not> I s"
  proof (rule retry.raw_induct [where P = "\<lambda>f s y. ?fails f \<longrightarrow> \<not> I s", OF _ ret], intro impI notI)
    fix g f s and y :: "'b \<times> 'a"
    assume IH: "\<And>f s y. g f s = Some y \<Longrightarrow> ?fails f \<longrightarrow> \<not> I s"
      and eq: "do { ((r, x), s') \<leftarrow> f s; if r = 0 then Some (x, s') else g f s' } = Some y"
      and step: "?fails f" and "I s"
    then obtain r x s' where "f s = Some ((r, x), s')" "r \<noteq> 0" "I s'" by blast
    with eq have "g f s' = Some y" by simp
    from IH [OF this] step \<open>I s'\<close> show False by blast
  qed
  with assms(2) have "\<not> I s" by blast
  with \<open>I s\<close> show False by blast
qed

end
