(* ===== verification/Board_Spi.thy ===== *)
theory Board_Spi
  imports Prelude
begin

text \<open>
  The boundary to the hardware, and the SPI driver on it. The TI driver library and ROM
  (\<open>ti_lib_...\<close>, \<open>HWREG\<close>) is not code of the repository's own: it is the parameter
  \<open>ti\<close>, a function that answers each call (a \<open>ti_call\<close>) in a hardware state
  of type \<open>'d\<close> with the call's result and the next state, or \<open>None\<close> when a
  blocking call never returns; a \<open>void\<close> call answers 0. The functions of
  \<open>platform/unwired/common/board-spi.c\<close> are translated over it.
\<close>

section \<open>Calls into the driver library\<close>

datatype prcm_domain = PRCM_DOMAIN_SERIAL | PRCM_DOMAIN_PERIPH

datatype prcm_periph = PRCM_PERIPH_SSI0 | PRCM_PERIPH_GPIO | PRCM_PERIPH_UART0 | PRCM_PERIPH_CRYPTO

datatype ioid =
    BOARD_IOID_FLASH_CS | BOARD_IOID_SPI_MISO | BOARD_IOID_SPI_MOSI | BOARD_IOID_SPI_CLK_FLASH
  | IOID_UNUSED | IOID u8

datatype ti_call =
    PRCMPowerDomainOn prcm_domain
  | PRCMPowerDomainStatus prcm_domain
  | PRCMPeripheralRunEnable prcm_periph
  | PRCMPeripheralRunDisable prcm_periph
  | PRCMLoadSet
  | PRCMLoadGet
  | HWREG_SSICLKGR                    \<comment> \<open>\<open>HWREG(PRCM_BASE + PRCM_O_SSICLKGR)\<close>\<close>
  | SysCtrlClockGet
  | SSIIntDisable
  | SSIIntClear
  | SSIConfigSetExpClk u32 u32        \<comment> \<open>clock, bit rate (Motorola mode 3, master, 8 bit)\<close>
  | SSIEnable
  | SSIDataPut u8
  | SSIDataPutNonBlocking u8
  | SSIDataGet
  | SSIDataGetNonBlocking             \<comment> \<open>answers the number of items read\<close>
  | IOCPinTypeSsiMaster ioid ioid ioid ioid
  | IOCPinTypeGpioOutput ioid
  | IOCPinTypeGpioInput ioid
  | IOCIOPortPullDown ioid
  | GPIOClearDio ioid
  | GPIOSetDio ioid
  | MemByte u32                       \<comment> \<open>a byte of memory-mapped internal flash\<close>
  | FlashSectorErase u32
  | FlashProgram bytes u32
  | VIMSModeGet
  | VIMSModeSet u32
  | UARTCharPut u8
  | WatchdogReload
  | IntMasterDisable                  \<comment> \<open>answers whether interrupts were disabled already\<close>
  | IntMasterEnable
  | UARTSetup                         \<comment> \<open>the calls and register writes that configure UART0\<close>

type_synonym 'd ti = "ti_call \<Rightarrow> 'd \<Rightarrow> (u32 \<times> 'd) option"

definition PRCM_DOMAIN_POWER_ON :: u32 where "PRCM_DOMAIN_POWER_ON = 0x00000001"
definition PRCM_SSICLKGR_CLK_EN_SSI0 :: u32 where "PRCM_SSICLKGR_CLK_EN_SSI0 = 0x00000001"

definition ti_do :: "'d ti \<Rightarrow> ti_call \<Rightarrow> 'd \<Rightarrow> 'd option" where
  "ti_do ti c d = map_option snd (ti c d)"

text \<open>\<open>while (call() != wanted) ;\<close>: repeat the call until its result is accepted.\<close>

partial_function (option) ti_wait :: "'d ti \<Rightarrow> ti_call \<Rightarrow> (u32 \<Rightarrow> bool) \<Rightarrow> 'd \<Rightarrow> 'd option" where
  "ti_wait ti c accept d = do {
     (r, d) \<leftarrow> ti c d;
     if accept r then Some d else ti_wait ti c accept d }"

lemma ti_wait_ok [loop_simps]: "ti c d = Some (r, d') \<Longrightarrow> accept r \<Longrightarrow> ti_wait ti c accept d = Some d'"
  by (subst ti_wait.simps) simp

section \<open>board-spi.c\<close>

definition accessible :: "'d ti \<Rightarrow> 'd \<Rightarrow> (bool \<times> 'd) option" where
  "accessible ti d = do {
     (st, d) \<leftarrow> ti (PRCMPowerDomainStatus PRCM_DOMAIN_SERIAL) d;
     if st \<noteq> PRCM_DOMAIN_POWER_ON then Some (False, d)
     else do {
       (clk, d) \<leftarrow> ti HWREG_SSICLKGR d;
       if clk AND PRCM_SSICLKGR_CLK_EN_SSI0 = 0 then Some (False, d)
       else Some (True, d) } }"

text \<open>The \<open>while(len > 0)\<close> loop of \<open>board_spi_write\<close>: every byte sent also clocks one in.\<close>

fun spi_write_loop :: "'d ti \<Rightarrow> bytes \<Rightarrow> 'd \<Rightarrow> 'd option" where
  "spi_write_loop ti [] d = Some d"
| "spi_write_loop ti (b # buf) d = do {
     d \<leftarrow> ti_do ti (SSIDataPut b) d;
     (ul, d) \<leftarrow> ti SSIDataGet d;
     spi_write_loop ti buf d }"

definition board_spi_write :: "'d ti \<Rightarrow> bytes \<Rightarrow> 'd \<Rightarrow> (bool \<times> 'd) option" where
  "board_spi_write ti buf d = do {
     (acc, d) \<leftarrow> accessible ti d;
     if acc = False then Some (False, d)
     else do {
       d \<leftarrow> spi_write_loop ti buf d;
       Some (True, d) } }"

text \<open>
  The loop of \<open>board_spi_read\<close>. The result is the status and the bytes stored in the
  caller's buffer, fewer than asked for when the read fails on the way.
\<close>

fun spi_read_loop :: "'d ti \<Rightarrow> nat \<Rightarrow> 'd \<Rightarrow> ((bool \<times> bytes) \<times> 'd) option" where
  "spi_read_loop ti 0 d = Some ((True, []), d)"
| "spi_read_loop ti (Suc len) d = do {
     (r, d) \<leftarrow> ti (SSIDataPutNonBlocking 0) d;
     if r = 0 then Some ((False, []), d)
     else do {
       (ul, d) \<leftarrow> ti SSIDataGet d;
       ((ok, buf), d) \<leftarrow> spi_read_loop ti len d;
       Some ((ok, ucast ul # buf), d) } }"

definition board_spi_read :: "'d ti \<Rightarrow> nat \<Rightarrow> 'd \<Rightarrow> ((bool \<times> bytes) \<times> 'd) option" where
  "board_spi_read ti len d = do {
     (acc, d) \<leftarrow> accessible ti d;
     if acc = False then Some ((False, []), d)
     else spi_read_loop ti len d }"

definition board_spi_flush :: "'d ti \<Rightarrow> 'd \<Rightarrow> 'd option" where
  "board_spi_flush ti d = do {
     (acc, d) \<leftarrow> accessible ti d;
     if acc = False then Some d
     else ti_wait ti SSIDataGetNonBlocking (\<lambda>r. r = 0) d }"

definition board_spi_open :: "'d ti \<Rightarrow> u32 \<Rightarrow> ioid \<Rightarrow> 'd \<Rightarrow> 'd option" where
  "board_spi_open ti bit_rate clk_pin d = do {
     d \<leftarrow> ti_do ti (PRCMPowerDomainOn PRCM_DOMAIN_SERIAL) d;
     d \<leftarrow> ti_wait ti (PRCMPowerDomainStatus PRCM_DOMAIN_SERIAL) (\<lambda>r. r = PRCM_DOMAIN_POWER_ON) d;
     d \<leftarrow> ti_do ti (PRCMPeripheralRunEnable PRCM_PERIPH_SSI0) d;
     d \<leftarrow> ti_do ti PRCMLoadSet d;
     d \<leftarrow> ti_wait ti PRCMLoadGet (\<lambda>r. r \<noteq> 0) d;
     d \<leftarrow> ti_do ti SSIIntDisable d;
     d \<leftarrow> ti_do ti SSIIntClear d;
     (clk, d) \<leftarrow> ti SysCtrlClockGet d;
     d \<leftarrow> ti_do ti (SSIConfigSetExpClk clk bit_rate) d;
     d \<leftarrow> ti_do ti (IOCPinTypeSsiMaster BOARD_IOID_SPI_MISO BOARD_IOID_SPI_MOSI IOID_UNUSED clk_pin) d;
     d \<leftarrow> ti_do ti SSIEnable d;
     ti_wait ti SSIDataGetNonBlocking (\<lambda>r. r = 0) d }"

definition board_spi_close :: "'d ti \<Rightarrow> 'd \<Rightarrow> 'd option" where
  "board_spi_close ti d = do {
     d \<leftarrow> ti_do ti (PRCMPeripheralRunDisable PRCM_PERIPH_SSI0) d;
     d \<leftarrow> ti_do ti PRCMLoadSet d;
     d \<leftarrow> ti_wait ti PRCMLoadGet (\<lambda>r. r \<noteq> 0) d;
     d \<leftarrow> ti_do ti (IOCPinTypeGpioInput BOARD_IOID_SPI_MISO) d;
     d \<leftarrow> ti_do ti (IOCIOPortPullDown BOARD_IOID_SPI_MISO) d;
     d \<leftarrow> ti_do ti (IOCPinTypeGpioInput BOARD_IOID_SPI_MOSI) d;
     d \<leftarrow> ti_do ti (IOCIOPortPullDown BOARD_IOID_SPI_MOSI) d;
     d \<leftarrow> ti_do ti (IOCPinTypeGpioInput BOARD_IOID_SPI_CLK_FLASH) d;
     ti_do ti (IOCIOPortPullDown BOARD_IOID_SPI_CLK_FLASH) d }"

end
