(* ===== verification/Ext_Flash.thy ===== *)
theory Ext_Flash
  imports Board_Spi
begin

text \<open>
  The driver of the external SPI flash. The repository has it twice: for the node firmware
  (\<open>platform/unwired/common/ext-flash.c\<close>) and for the bootloader
  (\<open>unwired/bootloader/ota-common/ext-flash.c\<close>). The two differ in \<open>wait_ready\<close>
  (endless poll against 500000 polls), in the bytes a read buffer starts with and in the
  probe functions; every other function is the same text compiled against its own
  \<open>wait_ready\<close>, so those are translated once, over \<open>wr\<close> (the \<open>wait_ready\<close> they
  are linked with), and the two builds are their instances.
\<close>

section \<open>Instruction codes\<close>

definition BLS_CODE_WRITE_ENABLE :: u8 where "BLS_CODE_WRITE_ENABLE = 0x06"
definition BLS_CODE_MDID :: u8 where "BLS_CODE_MDID = 0x9F"
definition BLS_CODE_READ_STATUS :: u8 where "BLS_CODE_READ_STATUS = 0x05"
definition BLS_CODE_READ :: u8 where "BLS_CODE_READ = 0x03"
definition BLS_CODE_PROGRAM :: u8 where "BLS_CODE_PROGRAM = 0x02"
definition BLS_CODE_SECTOR_ERASE :: u8 where "BLS_CODE_SECTOR_ERASE = 0xD8"
definition BLS_CODE_POWERDOWN :: u8 where "BLS_CODE_POWERDOWN = 0xB9"
definition BLS_CODE_RPD :: u8 where "BLS_CODE_RPD = 0xAB"
definition BLS_STATUS_BIT_BUSY :: u8 where "BLS_STATUS_BIT_BUSY = 0x01"
definition BLS_NUMONYX_MID :: u8 where "BLS_NUMONYX_MID = 0x20"
definition BLS_DEVICE_ID_NU_MP25P40 :: u8 where "BLS_DEVICE_ID_NU_MP25P40 = 0x20"
definition BLS_NU_4MBIT :: u8 where "BLS_NU_4MBIT = 0x13"
definition BLS_PROGRAM_PAGE_SIZE :: u32 where "BLS_PROGRAM_PAGE_SIZE = 256"
definition BLS_ERASE_SECTOR_SIZE :: u32 where "BLS_ERASE_SECTOR_SIZE = 4096"
definition VERIFY_PART_ERROR :: u8 where "VERIFY_PART_ERROR = 255"
definition VERIFY_PART_POWERED_DOWN :: u8 where "VERIFY_PART_POWERED_DOWN = 0"
definition VERIFY_PART_OK :: u8 where "VERIFY_PART_OK = 1"

text \<open>The 4 Mbit part that \<open>verify_part\<close> insists on has 512 KB.\<close>

definition ext_flash_size :: nat where "ext_flash_size = 524288"

lemmas bls_defs = BLS_CODE_WRITE_ENABLE_def BLS_CODE_MDID_def BLS_CODE_READ_STATUS_def
  BLS_CODE_READ_def BLS_CODE_PROGRAM_def BLS_CODE_SECTOR_ERASE_def BLS_CODE_POWERDOWN_def
  BLS_CODE_RPD_def BLS_STATUS_BIT_BUSY_def BLS_NUMONYX_MID_def BLS_DEVICE_ID_NU_MP25P40_def
  BLS_NU_4MBIT_def BLS_PROGRAM_PAGE_SIZE_def BLS_ERASE_SECTOR_SIZE_def VERIFY_PART_ERROR_def
  VERIFY_PART_POWERED_DOWN_def VERIFY_PART_OK_def

section \<open>Chip select and polling\<close>

definition select_on_bus :: "'d ti \<Rightarrow> 'd \<Rightarrow> 'd option" where
  "select_on_bus ti d = ti_do ti (GPIOClearDio BOARD_IOID_FLASH_CS) d"

definition deselect :: "'d ti \<Rightarrow> 'd \<Rightarrow> 'd option" where
  "deselect ti d = ti_do ti (GPIOSetDio BOARD_IOID_FLASH_CS) d"

text \<open>The node firmware polls the status register for ever: \<open>for(;;)\<close>.\<close>

partial_function (option) wait_ready_poll :: "'d ti \<Rightarrow> 'd \<Rightarrow> (bool \<times> 'd) option" where
  "wait_ready_poll ti d = do {
     ((ret, buf), d) \<leftarrow> board_spi_read ti 1 d;
     if ret = False then do { d \<leftarrow> deselect ti d; Some (False, d) }
     else if hd buf AND BLS_STATUS_BIT_BUSY = 0 then do {
       d \<leftarrow> deselect ti d;
       Some (True, d) }
     else wait_ready_poll ti d }"

definition wait_ready :: "'d ti \<Rightarrow> 'd \<Rightarrow> (bool \<times> 'd) option" where
  "wait_ready ti d = do {
     d \<leftarrow> select_on_bus ti d;
     d \<leftarrow> board_spi_flush ti d;
     (ret, d) \<leftarrow> board_spi_write ti [BLS_CODE_READ_STATUS] d;
     if ret = False then do { d \<leftarrow> deselect ti d; Some (False, d) }
     else wait_ready_poll ti d }"

text \<open>
  The bootloader polls at most 500000 times, lights off the LED on pin 22 and answers
  \<open>true\<close>, whether the chip became ready or not.
\<close>

function bl_wait_ready_poll :: "'d ti \<Rightarrow> nat \<Rightarrow> 'd \<Rightarrow> (bool \<times> 'd) option" where
  "bl_wait_ready_poll ti i d =
     (if i < 500000 then do {
        ((ret, buf), d) \<leftarrow> board_spi_read ti 1 d;
        if ret = False then do { d \<leftarrow> deselect ti d; Some (False, d) }
        else if hd buf AND BLS_STATUS_BIT_BUSY = 0 then do {
          d \<leftarrow> ti_do ti (GPIOClearDio (IOID 22)) d;
          d \<leftarrow> deselect ti d;
          Some (True, d) }
        else bl_wait_ready_poll ti (i + 1) d }
      else do {
        d \<leftarrow> ti_do ti (GPIOClearDio (IOID 22)) d;
        d \<leftarrow> deselect ti d;
        Some (True, d) })"
  by pat_completeness auto
termination
  by (relation "measure (\<lambda>(ti, i, d). 500000 - i)") auto

declare bl_wait_ready_poll.simps [simp del]

definition bl_wait_ready :: "'d ti \<Rightarrow> 'd \<Rightarrow> (bool \<times> 'd) option" where
  "bl_wait_ready ti d = do {
     d \<leftarrow> select_on_bus ti d;
     d \<leftarrow> board_spi_flush ti d;
     (ret, d) \<leftarrow> board_spi_write ti [BLS_CODE_READ_STATUS] d;
     if ret = False then do { d \<leftarrow> deselect ti d; Some (False, d) }
     else bl_wait_ready_poll ti 0 d }"

section \<open>Part identification and power modes\<close>

text \<open>
  \<open>init\<close> is what \<open>rbuf\<close> is initialised with; a read that fails on the way leaves the
  rest of it in place.
\<close>

definition verify_part_with :: "bytes \<Rightarrow> 'd ti \<Rightarrow> 'd \<Rightarrow> (u8 \<times> 'd) option" where
  "verify_part_with init ti d = do {
     d \<leftarrow> select_on_bus ti d;
     (ret, d) \<leftarrow> board_spi_write ti [BLS_CODE_MDID] d;
     if ret = False then do { d \<leftarrow> deselect ti d; Some (VERIFY_PART_ERROR, d) }
     else do {
       ((ret, got), d) \<leftarrow> board_spi_read ti 3 d;
       d \<leftarrow> deselect ti d;
       if ret = False then Some (VERIFY_PART_ERROR, d)
       else let rbuf = got @ drop (length got) init in
         if rbuf ! 0 \<noteq> BLS_NUMONYX_MID \<or> rbuf ! 1 \<noteq> BLS_DEVICE_ID_NU_MP25P40 \<or> rbuf ! 2 \<noteq> BLS_NU_4MBIT
         then Some (VERIFY_PART_POWERED_DOWN, d)
         else Some (VERIFY_PART_OK, d) } }"

definition verify_part :: "'d ti \<Rightarrow> 'd \<Rightarrow> (u8 \<times> 'd) option" where
  "verify_part ti d = verify_part_with [0x42, 0x42, 0x42] ti d"

definition bl_verify_part :: "'d ti \<Rightarrow> 'd \<Rightarrow> (u8 \<times> 'd) option" where
  "bl_verify_part ti d = verify_part_with [0, 0, 0] ti d"

text \<open>
  The functions shared by the two builds take \<open>(wr, vp)\<close>, the \<open>wait_ready\<close> and the
  \<open>verify_part\<close> of the build.
\<close>

record 'd ef_build =
  eb_wait_ready :: "'d ti \<Rightarrow> 'd \<Rightarrow> (bool \<times> 'd) option"
  eb_verify_part :: "'d ti \<Rightarrow> 'd \<Rightarrow> (u8 \<times> 'd) option"

definition node_build :: "'d ef_build" where
  "node_build = \<lparr>eb_wait_ready = wait_ready, eb_verify_part = verify_part\<rparr>"

definition boot_build :: "'d ef_build" where
  "boot_build = \<lparr>eb_wait_ready = bl_wait_ready, eb_verify_part = bl_verify_part\<rparr>"

text \<open>The loop \<open>while(i < 10)\<close> at the end of \<open>power_down\<close>.\<close>

function power_down_check :: "'d ef_build \<Rightarrow> 'd ti \<Rightarrow> nat \<Rightarrow> 'd \<Rightarrow> 'd option" where
  "power_down_check B ti i d =
     (if i < 10 then do {
        (v, d) \<leftarrow> eb_verify_part B ti d;
        if v = VERIFY_PART_POWERED_DOWN then Some d
        else power_down_check B ti (i + 1) d }
      else deselect ti d)"
  by pat_completeness auto
termination
  by (relation "measure (\<lambda>(B, ti, i, d). 10 - i)") auto

declare power_down_check.simps [simp del]

definition power_down :: "'d ef_build \<Rightarrow> 'd ti \<Rightarrow> 'd \<Rightarrow> 'd option" where
  "power_down B ti d = do {
     (ready, d) \<leftarrow> eb_wait_ready B ti d;
     if ready = False then Some d
     else do {
       d \<leftarrow> select_on_bus ti d;
       (_, d) \<leftarrow> board_spi_write ti [BLS_CODE_POWERDOWN] d;
       d \<leftarrow> deselect ti d;
       power_down_check B ti 0 d } }"

definition power_standby :: "'d ef_build \<Rightarrow> 'd ti \<Rightarrow> 'd \<Rightarrow> (bool \<times> 'd) option" where
  "power_standby B ti d = do {
     d \<leftarrow> select_on_bus ti d;
     (success, d) \<leftarrow> board_spi_write ti [BLS_CODE_RPD] d;
     (success, d) \<leftarrow> (if success then eb_wait_ready B ti d else Some (success, d));
     d \<leftarrow> deselect ti d;
     Some (success, d) }"

definition write_enable :: "'d ti \<Rightarrow> 'd \<Rightarrow> (bool \<times> 'd) option" where
  "write_enable ti d = do {
     d \<leftarrow> select_on_bus ti d;
     (ret, d) \<leftarrow> board_spi_write ti [BLS_CODE_WRITE_ENABLE] d;
     d \<leftarrow> deselect ti d;
     if ret = False then Some (False, d) else Some (True, d) }"

section \<open>The interface of ext-flash.h\<close>

definition ext_flash_open :: "'d ef_build \<Rightarrow> 'd ti \<Rightarrow> 'd \<Rightarrow> (bool \<times> 'd) option" where
  "ext_flash_open B ti d = do {
     d \<leftarrow> board_spi_open ti 4000000 BOARD_IOID_SPI_CLK_FLASH d;
     d \<leftarrow> ti_do ti (IOCPinTypeGpioOutput BOARD_IOID_FLASH_CS) d;
     d \<leftarrow> deselect ti d;
     (_, d) \<leftarrow> power_standby B ti d;
     (v, d) \<leftarrow> eb_verify_part B ti d;
     Some (v = VERIFY_PART_OK, d) }"

definition ext_flash_close :: "'d ef_build \<Rightarrow> 'd ti \<Rightarrow> 'd \<Rightarrow> 'd option" where
  "ext_flash_close B ti d = do {
     d \<leftarrow> power_down B ti d;
     board_spi_close ti d }"

definition spi_flash_close :: "'d ti \<Rightarrow> 'd \<Rightarrow> 'd option" where
  "spi_flash_close ti d = board_spi_close ti d"

definition flash_cmd :: "u8 \<Rightarrow> u32 \<Rightarrow> bytes" where
  "flash_cmd code offset =
     [code, ucast (drop_bit 16 offset AND 0xff), ucast (drop_bit 8 offset AND 0xff), ucast (offset AND 0xff)]"

definition ext_flash_read :: "'d ti \<Rightarrow> u32 \<Rightarrow> nat \<Rightarrow> 'd \<Rightarrow> ((bool \<times> bytes) \<times> 'd) option" where
  "ext_flash_read ti offset len d = do {
     d \<leftarrow> select_on_bus ti d;
     (ret, d) \<leftarrow> board_spi_write ti (flash_cmd BLS_CODE_READ offset) d;
     if ret = False then do { d \<leftarrow> deselect ti d; Some ((False, []), d) }
     else do {
       ((ret, buf), d) \<leftarrow> board_spi_read ti len d;
       d \<leftarrow> deselect ti d;
       Some ((ret, buf), d) } }"

text \<open>The bytes one program instruction takes: up to the end of the 256-byte page.\<close>

definition write_ilen :: "u32 \<Rightarrow> nat \<Rightarrow> nat" where
  "write_ilen offset len =
     (let ilen = unat (BLS_PROGRAM_PAGE_SIZE - (offset mod BLS_PROGRAM_PAGE_SIZE))
      in if len < ilen then len else ilen)"

lemma write_ilen_pos: "0 < len \<Longrightarrow> 0 < write_ilen offset len"
proof -
  have lt: "offset mod BLS_PROGRAM_PAGE_SIZE < BLS_PROGRAM_PAGE_SIZE"
    by (simp add: BLS_PROGRAM_PAGE_SIZE_def word_mod_less_divisor)
  then have "unat (BLS_PROGRAM_PAGE_SIZE - (offset mod BLS_PROGRAM_PAGE_SIZE))
      = unat BLS_PROGRAM_PAGE_SIZE - unat (offset mod BLS_PROGRAM_PAGE_SIZE)"
    by (intro unat_sub) (rule order_less_imp_le)
  with lt have "0 < unat (BLS_PROGRAM_PAGE_SIZE - (offset mod BLS_PROGRAM_PAGE_SIZE))"
    by (simp add: word_less_nat_alt)
  then show "0 < len \<Longrightarrow> 0 < write_ilen offset len" by (simp add: write_ilen_def Let_def)
qed

function ext_flash_write :: "'d ef_build \<Rightarrow> 'd ti \<Rightarrow> u32 \<Rightarrow> bytes \<Rightarrow> 'd \<Rightarrow> (bool \<times> 'd) option" where
  "ext_flash_write B ti offset buf d =
     (if 0 < length buf then do {
        (ret, d) \<leftarrow> eb_wait_ready B ti d;
        if ret = False then Some (False, d)
        else do {
          (ret, d) \<leftarrow> write_enable ti d;
          if ret = False then Some (False, d)
          else do {
            let ilen = write_ilen offset (length buf);
            d \<leftarrow> select_on_bus ti d;
            (ret, d) \<leftarrow> board_spi_write ti (flash_cmd BLS_CODE_PROGRAM offset) d;
            if ret = False then do { d \<leftarrow> deselect ti d; Some (False, d) }
            else do {
              (ret, d) \<leftarrow> board_spi_write ti (take ilen buf) d;
              if ret = False then do { d \<leftarrow> deselect ti d; Some (False, d) }
              else do {
                d \<leftarrow> deselect ti d;
                ext_flash_write B ti (offset + of_nat ilen) (drop ilen buf) d } } } } }
      else Some (True, d))"
  by pat_completeness auto
termination
  by (relation "measure (\<lambda>(B, ti, offset, buf, d). length buf)") (auto simp: write_ilen_pos)

declare ext_flash_write.simps [simp del]

text \<open>The number of sectors \<open>ext_flash_erase\<close> erases, all in \<open>size_t\<close> arithmetic.\<close>

definition erase_base :: "u32 \<Rightarrow> u32" where
  "erase_base offset = (offset div BLS_ERASE_SECTOR_SIZE) * BLS_ERASE_SECTOR_SIZE"

definition erase_numsectors :: "u32 \<Rightarrow> u32 \<Rightarrow> u32" where
  "erase_numsectors offset len =
     (let endoffset = offset + len - 1
      in (endoffset - erase_base offset + BLS_ERASE_SECTOR_SIZE - 1) div BLS_ERASE_SECTOR_SIZE)"

fun erase_loop :: "'d ef_build \<Rightarrow> 'd ti \<Rightarrow> nat \<Rightarrow> u32 \<Rightarrow> 'd \<Rightarrow> (bool \<times> 'd) option" where
  "erase_loop B ti 0 offset d = Some (True, d)"
| "erase_loop B ti (Suc n) offset d = do {
     (ret, d) \<leftarrow> eb_wait_ready B ti d;
     if ret = False then Some (False, d)
     else do {
       (ret, d) \<leftarrow> write_enable ti d;
       if ret = False then Some (False, d)
       else do {
         d \<leftarrow> select_on_bus ti d;
         (ret, d) \<leftarrow> board_spi_write ti (flash_cmd BLS_CODE_SECTOR_ERASE offset) d;
         if ret = False then do { d \<leftarrow> deselect ti d; Some (False, d) }
         else do {
           d \<leftarrow> deselect ti d;
           erase_loop B ti n (offset + BLS_ERASE_SECTOR_SIZE) d } } } }"

definition ext_flash_erase :: "'d ef_build \<Rightarrow> 'd ti \<Rightarrow> u32 \<Rightarrow> u32 \<Rightarrow> 'd \<Rightarrow> (bool \<times> 'd) option" where
  "ext_flash_erase B ti offset len d =
     erase_loop B ti (unat (erase_numsectors offset len)) (erase_base offset) d"

definition ext_flash_test :: "'d ef_build \<Rightarrow> 'd ti \<Rightarrow> 'd \<Rightarrow> (bool \<times> 'd) option" where
  "ext_flash_test B ti d = do {
     (ret, d) \<leftarrow> ext_flash_open B ti d;
     d \<leftarrow> ext_flash_close B ti d;
     Some (ret, d) }"

definition ext_flash_init :: "'d ti \<Rightarrow> 'd \<Rightarrow> 'd option" where
  "ext_flash_init ti d = do {
     (_, d) \<leftarrow> ext_flash_open node_build ti d;
     ext_flash_close node_build ti d }"

definition bl_ext_flash_init :: "'d ti \<Rightarrow> 'd \<Rightarrow> (bool \<times> 'd) option" where
  "bl_ext_flash_init ti d = do {
     (status, d) \<leftarrow> ext_flash_open boot_build ti d;
     d \<leftarrow> (if status = True then ext_flash_close boot_build ti d else spi_flash_close ti d);
     Some (status, d) }"

text \<open>The development aid \<open>ext_flash_probe\<close>; the result is what it prints.\<close>

definition ext_flash_probe :: "'d ti \<Rightarrow> 'd \<Rightarrow> ((bytes option \<times> bool) \<times> 'd) option" where
  "ext_flash_probe ti d = do {
     (_, d) \<leftarrow> ext_flash_open node_build ti d;
     ((eeprom_access, flash_data), d) \<leftarrow> ext_flash_read ti 0 4 d;
     (flash_read, d) \<leftarrow> ext_flash_write node_build ti 0 [0x42, 0x42, 0x42, 0x42] d;
     d \<leftarrow> ext_flash_close node_build ti d;
     Some ((if eeprom_access then Some flash_data else None, flash_read), d) }"

section \<open>The bootloader's build\<close>

text \<open>Its copies of functions whose text is the node's, \<open>board-spi.c\<close> included.\<close>

definition bl_accessible :: "'d ti \<Rightarrow> 'd \<Rightarrow> (bool \<times> 'd) option" where
  "bl_accessible = accessible"

definition bl_board_spi_write :: "'d ti \<Rightarrow> bytes \<Rightarrow> 'd \<Rightarrow> (bool \<times> 'd) option" where
  "bl_board_spi_write = board_spi_write"

definition bl_board_spi_read :: "'d ti \<Rightarrow> nat \<Rightarrow> 'd \<Rightarrow> ((bool \<times> bytes) \<times> 'd) option" where
  "bl_board_spi_read = board_spi_read"

definition bl_board_spi_flush :: "'d ti \<Rightarrow> 'd \<Rightarrow> 'd option" where
  "bl_board_spi_flush = board_spi_flush"

definition bl_board_spi_open :: "'d ti \<Rightarrow> u32 \<Rightarrow> ioid \<Rightarrow> 'd \<Rightarrow> 'd option" where
  "bl_board_spi_open = board_spi_open"

definition bl_board_spi_close :: "'d ti \<Rightarrow> 'd \<Rightarrow> 'd option" where
  "bl_board_spi_close = board_spi_close"

definition bl_select_on_bus :: "'d ti \<Rightarrow> 'd \<Rightarrow> 'd option" where
  "bl_select_on_bus = select_on_bus"

definition bl_deselect :: "'d ti \<Rightarrow> 'd \<Rightarrow> 'd option" where
  "bl_deselect = deselect"

definition bl_power_down :: "'d ti \<Rightarrow> 'd \<Rightarrow> 'd option" where
  "bl_power_down = power_down boot_build"

definition bl_power_standby :: "'d ti \<Rightarrow> 'd \<Rightarrow> (bool \<times> 'd) option" where
  "bl_power_standby = power_standby boot_build"

definition bl_write_enable :: "'d ti \<Rightarrow> 'd \<Rightarrow> (bool \<times> 'd) option" where
  "bl_write_enable = write_enable"

definition bl_ext_flash_open :: "'d ti \<Rightarrow> 'd \<Rightarrow> (bool \<times> 'd) option" where
  "bl_ext_flash_open = ext_flash_open boot_build"

definition bl_ext_flash_close :: "'d ti \<Rightarrow> 'd \<Rightarrow> 'd option" where
  "bl_ext_flash_close = ext_flash_close boot_build"

definition bl_ext_flash_read :: "'d ti \<Rightarrow> u32 \<Rightarrow> nat \<Rightarrow> 'd \<Rightarrow> ((bool \<times> bytes) \<times> 'd) option" where
  "bl_ext_flash_read = ext_flash_read"

definition bl_ext_flash_write :: "'d ti \<Rightarrow> u32 \<Rightarrow> bytes \<Rightarrow> 'd \<Rightarrow> (bool \<times> 'd) option" where
  "bl_ext_flash_write = ext_flash_write boot_build"

definition bl_ext_flash_erase :: "'d ti \<Rightarrow> u32 \<Rightarrow> u32 \<Rightarrow> 'd \<Rightarrow> (bool \<times> 'd) option" where
  "bl_ext_flash_erase = ext_flash_erase boot_build"

definition bl_ext_flash_test :: "'d ti \<Rightarrow> 'd \<Rightarrow> (bool \<times> 'd) option" where
  "bl_ext_flash_test = ext_flash_test boot_build"

end
