(* ===== verification/Int_Flash.thy ===== *)
theory Int_Flash
  imports Board_Spi
begin

text \<open>
  The internal flash of the CC26xx as the firmware uses it: byte reads through the memory
  map, sector erase and program through the driver library, and on top of them the
  100-byte user flash of \<open>int-flash-common.c\<close> and the firmware status flag of
  \<open>ota-common.c\<close>. The bootloader has its own copy of both files in
  \<open>bootloader/ota-common/ota-common.c\<close> (the \<open>bl_\<close> definitions). The interface
  \<open>int_flash\<close> states what the driver library promises; \<open>byte_store\<close> is what the user flash
  offers to its clients, and every \<open>int_flash\<close> gives one.
\<close>

section \<open>int-flash-common.c\<close>

definition USER_FLASH_LENGTH :: nat where "USER_FLASH_LENGTH = 100"
definition START_USER_FLASH :: u32 where "START_USER_FLASH = 0x1C000"
definition VIMS_MODE_DISABLED :: u32 where "VIMS_MODE_DISABLED = 0"
definition OTA_STATUS_FLAG :: u8 where "OTA_STATUS_FLAG = 0x05"
text \<open>The CC2650F128 has 128 KB of flash; an access past it is a bus fault.\<close>

definition int_flash_size :: nat where "int_flash_size = 131072"
definition BLANK_FLASH_VALUE :: u8 where "BLANK_FLASH_VALUE = 0xFF"

text \<open>\<open>while (ui32Count--) *dst++ = *src++;\<close>\<close>

fun mem_copy_loop :: "'d ti \<Rightarrow> u32 \<Rightarrow> nat \<Rightarrow> 'd \<Rightarrow> (bytes \<times> 'd) option" where
  "mem_copy_loop ti addr 0 d = Some ([], d)"
| "mem_copy_loop ti addr (Suc n) d = do {
     (x, d) \<leftarrow> ti (MemByte addr) d;
     (xs, d) \<leftarrow> mem_copy_loop ti (addr + 1) n d;
     Some (ucast x # xs, d) }"

definition flash_read :: "'d ti \<Rightarrow> u32 \<Rightarrow> nat \<Rightarrow> 'd \<Rightarrow> (bytes \<times> 'd) option" where
  "flash_read ti addr count d = do {
     (old_vims_state, d) \<leftarrow> ti VIMSModeGet d;
     d \<leftarrow> ti_do ti (VIMSModeSet VIMS_MODE_DISABLED) d;
     (buf, d) \<leftarrow> mem_copy_loop ti addr count d;
     d \<leftarrow> ti_do ti (VIMSModeSet old_vims_state) d;
     Some (buf, d) }"

definition flash_write :: "'d ti \<Rightarrow> bytes \<Rightarrow> u32 \<Rightarrow> 'd \<Rightarrow> (u32 \<times> 'd) option" where
  "flash_write ti buf addr d = ti (FlashProgram buf addr) d"

text \<open>
  An \<open>offset\<close> past the 100-byte buffer is an out-of-bounds store on the stack: undefined, so
  no result.
\<close>

definition user_flash_update_byte :: "'d ti \<Rightarrow> u8 \<Rightarrow> u8 \<Rightarrow> 'd \<Rightarrow> 'd option" where
  "user_flash_update_byte ti offset x d = do {
     (old_vims_state, d) \<leftarrow> ti VIMSModeGet d;
     d \<leftarrow> ti_do ti (VIMSModeSet VIMS_MODE_DISABLED) d;
     (buffer, d) \<leftarrow> flash_read ti START_USER_FLASH USER_FLASH_LENGTH d;
     buffer \<leftarrow> (if unat offset < USER_FLASH_LENGTH then Some (buffer[unat offset := x]) else None);
     d \<leftarrow> ti_do ti (VIMSModeSet old_vims_state) d;
     d \<leftarrow> ti_do ti (FlashSectorErase START_USER_FLASH) d;
     ti_do ti (FlashProgram buffer START_USER_FLASH) d }"

definition user_flash_read_byte :: "'d ti \<Rightarrow> u8 \<Rightarrow> 'd \<Rightarrow> (u8 \<times> 'd) option" where
  "user_flash_read_byte ti offset d = do {
     (old_vims_state, d) \<leftarrow> ti VIMSModeGet d;
     d \<leftarrow> ti_do ti (VIMSModeSet VIMS_MODE_DISABLED) d;
     (x, d) \<leftarrow> ti (MemByte (ucast offset + START_USER_FLASH)) d;
     d \<leftarrow> ti_do ti (VIMSModeSet old_vims_state) d;
     Some (ucast x, d) }"

section \<open>The firmware flag of ota-common.c\<close>

definition FW_FLAG_NON_UPDATE :: u8 where "FW_FLAG_NON_UPDATE = 0x30"
definition FW_FLAG_NEW_IMG_EXT :: u8 where "FW_FLAG_NEW_IMG_EXT = 0x31"
definition FW_FLAG_NEW_IMG_INT_RST :: u8 where "FW_FLAG_NEW_IMG_INT_RST = 0x32"
definition FW_FLAG_NEW_IMG_INT :: u8 where "FW_FLAG_NEW_IMG_INT = 0x33"
definition FW_FLAG_PING_OK :: u8 where "FW_FLAG_PING_OK = 0x34"
definition FW_FLAG_ERROR_GI_LOAD :: u8 where "FW_FLAG_ERROR_GI_LOAD = 0x35"
definition FLAG_OK_WRITE :: u8 where "FLAG_OK_WRITE = 1"
definition FLAG_ERROR_WRITE :: u8 where "FLAG_ERROR_WRITE = 0"

lemmas fw_flag_defs = FW_FLAG_NON_UPDATE_def FW_FLAG_NEW_IMG_EXT_def FW_FLAG_NEW_IMG_INT_RST_def
  FW_FLAG_NEW_IMG_INT_def FW_FLAG_PING_OK_def FW_FLAG_ERROR_GI_LOAD_def

definition fw_flag_valid :: "u8 \<Rightarrow> bool" where
  "fw_flag_valid v \<longleftrightarrow>
     v \<in> {FW_FLAG_NON_UPDATE, FW_FLAG_NEW_IMG_EXT, FW_FLAG_NEW_IMG_INT, FW_FLAG_ERROR_GI_LOAD,
          FW_FLAG_NEW_IMG_INT_RST, FW_FLAG_PING_OK}"

definition write_fw_flag :: "'d ti \<Rightarrow> u8 \<Rightarrow> 'd \<Rightarrow> (u8 \<times> 'd) option" where
  "write_fw_flag ti v d =
     (if v \<noteq> FW_FLAG_NON_UPDATE \<and> v \<noteq> FW_FLAG_NEW_IMG_EXT \<and> v \<noteq> FW_FLAG_NEW_IMG_INT \<and>
         v \<noteq> FW_FLAG_ERROR_GI_LOAD \<and> v \<noteq> FW_FLAG_NEW_IMG_INT_RST \<and> v \<noteq> FW_FLAG_PING_OK
      then Some (FLAG_ERROR_WRITE, d)
      else do {
        d \<leftarrow> user_flash_update_byte ti OTA_STATUS_FLAG v d;
        (new_value, d) \<leftarrow> user_flash_read_byte ti OTA_STATUS_FLAG d;
        if new_value = v then Some (FLAG_OK_WRITE, d) else Some (FLAG_ERROR_WRITE, d) })"

definition read_fw_flag :: "'d ti \<Rightarrow> 'd \<Rightarrow> (u8 \<times> 'd) option" where
  "read_fw_flag ti d = do {
     (v, d) \<leftarrow> user_flash_read_byte ti OTA_STATUS_FLAG d;
     if v \<noteq> FW_FLAG_NON_UPDATE \<and> v \<noteq> FW_FLAG_NEW_IMG_EXT \<and> v \<noteq> FW_FLAG_NEW_IMG_INT \<and>
        v \<noteq> FW_FLAG_ERROR_GI_LOAD \<and> v \<noteq> FW_FLAG_NEW_IMG_INT_RST \<and> v \<noteq> FW_FLAG_PING_OK
     then do {
       (_, d) \<leftarrow> write_fw_flag ti FW_FLAG_NON_UPDATE d;
       Some (FW_FLAG_NON_UPDATE, d) }
     else Some (v, d) }"

section \<open>The bootloader's copy\<close>

definition bl_int_flash_read :: "'d ti \<Rightarrow> u32 \<Rightarrow> nat \<Rightarrow> 'd \<Rightarrow> (bytes \<times> 'd) option" where
  "bl_int_flash_read ti addr count d = do {
     (old_vims_state, d) \<leftarrow> ti VIMSModeGet d;
     d \<leftarrow> ti_do ti (VIMSModeSet VIMS_MODE_DISABLED) d;
     (buf, d) \<leftarrow> mem_copy_loop ti addr count d;
     d \<leftarrow> ti_do ti (VIMSModeSet old_vims_state) d;
     Some (buf, d) }"

definition bl_int_flash_write :: "'d ti \<Rightarrow> bytes \<Rightarrow> u32 \<Rightarrow> 'd \<Rightarrow> (u32 \<times> 'd) option" where
  "bl_int_flash_write ti buf addr d = ti (FlashProgram buf addr) d"

definition bl_user_flash_update_byte :: "'d ti \<Rightarrow> u8 \<Rightarrow> u8 \<Rightarrow> 'd \<Rightarrow> 'd option" where
  "bl_user_flash_update_byte ti offset x d = do {
     (old_vims_state, d) \<leftarrow> ti VIMSModeGet d;
     d \<leftarrow> ti_do ti (VIMSModeSet VIMS_MODE_DISABLED) d;
     (buffer, d) \<leftarrow> bl_int_flash_read ti START_USER_FLASH USER_FLASH_LENGTH d;
     buffer \<leftarrow> (if unat offset < USER_FLASH_LENGTH then Some (buffer[unat offset := x]) else None);
     d \<leftarrow> ti_do ti (VIMSModeSet old_vims_state) d;
     d \<leftarrow> ti_do ti (FlashSectorErase START_USER_FLASH) d;
     ti_do ti (FlashProgram buffer START_USER_FLASH) d }"

definition bl_user_flash_read_byte :: "'d ti \<Rightarrow> u8 \<Rightarrow> 'd \<Rightarrow> (u8 \<times> 'd) option" where
  "bl_user_flash_read_byte ti offset d = do {
     (old_vims_state, d) \<leftarrow> ti VIMSModeGet d;
     d \<leftarrow> ti_do ti (VIMSModeSet VIMS_MODE_DISABLED) d;
     (x, d) \<leftarrow> ti (MemByte (ucast offset + START_USER_FLASH)) d;
     d \<leftarrow> ti_do ti (VIMSModeSet old_vims_state) d;
     Some (ucast x, d) }"

definition FW_FLAG_ERROR_GI_LOADED :: u8 where "FW_FLAG_ERROR_GI_LOADED = 0x35"

definition bl_write_fw_flag :: "'d ti \<Rightarrow> u8 \<Rightarrow> 'd \<Rightarrow> (u8 \<times> 'd) option" where
  "bl_write_fw_flag ti v d =
     (if v \<noteq> FW_FLAG_NON_UPDATE \<and> v \<noteq> FW_FLAG_NEW_IMG_EXT \<and> v \<noteq> FW_FLAG_NEW_IMG_INT \<and>
         v \<noteq> FW_FLAG_ERROR_GI_LOADED \<and> v \<noteq> FW_FLAG_NEW_IMG_INT_RST \<and> v \<noteq> FW_FLAG_PING_OK
      then Some (FLAG_ERROR_WRITE, d)
      else do {
        d \<leftarrow> bl_user_flash_update_byte ti OTA_STATUS_FLAG v d;
        (new_value, d) \<leftarrow> bl_user_flash_read_byte ti OTA_STATUS_FLAG d;
        if new_value = v then Some (FLAG_OK_WRITE, d) else Some (FLAG_ERROR_WRITE, d) })"

definition bl_read_fw_flag :: "'d ti \<Rightarrow> 'd \<Rightarrow> (u8 \<times> 'd) option" where
  "bl_read_fw_flag ti d = do {
     (v, d) \<leftarrow> bl_user_flash_read_byte ti OTA_STATUS_FLAG d;
     if v \<noteq> FW_FLAG_NON_UPDATE \<and> v \<noteq> FW_FLAG_NEW_IMG_EXT \<and> v \<noteq> FW_FLAG_NEW_IMG_INT \<and>
        v \<noteq> FW_FLAG_ERROR_GI_LOADED \<and> v \<noteq> FW_FLAG_NEW_IMG_INT_RST \<and> v \<noteq> FW_FLAG_PING_OK
     then do {
       (_, d) \<leftarrow> bl_write_fw_flag ti FW_FLAG_NON_UPDATE d;
       Some (FW_FLAG_NON_UPDATE, d) }
     else Some (v, d) }"

lemma bl_user_flash_copies:
  "bl_int_flash_read = flash_read" "bl_user_flash_update_byte = user_flash_update_byte"
  "bl_user_flash_read_byte = user_flash_read_byte"
  by (simp_all add: fun_eq_iff bl_int_flash_read_def flash_read_def bl_user_flash_update_byte_def
      user_flash_update_byte_def bl_user_flash_read_byte_def user_flash_read_byte_def)

text \<open>The two copies of the flag functions agree.\<close>

lemma gi_flag_copies: "FW_FLAG_ERROR_GI_LOADED = FW_FLAG_ERROR_GI_LOAD"
  by (simp add: FW_FLAG_ERROR_GI_LOADED_def FW_FLAG_ERROR_GI_LOAD_def)

lemma bl_write_fw_flag_copy: "bl_write_fw_flag = write_fw_flag"
  by (simp add: fun_eq_iff bl_write_fw_flag_def write_fw_flag_def bl_user_flash_copies gi_flag_copies)

lemma bl_read_fw_flag_copy: "bl_read_fw_flag = read_fw_flag"
  by (simp add: fun_eq_iff bl_read_fw_flag_def read_fw_flag_def bl_user_flash_copies
      bl_write_fw_flag_copy gi_flag_copies cong: if_cong)

section \<open>The interface of the internal flash\<close>

text \<open>
  \<open>fine\<close> are the states in which the laws hold, \<open>imem\<close> is the internal flash and
  \<open>other\<close> any part of the state the internal flash does not share.
\<close>

locale int_flash =
  fixes ti :: "'d ti" and fine :: "'d \<Rightarrow> bool" and imem :: "'d \<Rightarrow> mem" and other :: "'d \<Rightarrow> 'x"
  assumes mem_byte: "fine d \<Longrightarrow> unat a < int_flash_size \<Longrightarrow> \<exists>d'. ti (MemByte a) d = Some (ucast (imem d (unat a)), d') \<and>
      fine d' \<and> imem d' = imem d \<and> other d' = other d"
    and sector_erase: "fine d \<Longrightarrow> unat a < int_flash_size \<Longrightarrow> \<exists>d'. ti (FlashSectorErase a) d = Some (0, d') \<and>
      fine d' \<and> imem d' = fill_ff (unat a div 4096 * 4096) 4096 (imem d) \<and> other d' = other d"
    and program: "fine d \<Longrightarrow> unat a + length bs \<le> int_flash_size \<Longrightarrow> \<exists>d'. ti (FlashProgram bs a) d = Some (0, d') \<and>
      fine d' \<and> imem d' = and_bytes (unat a) bs (imem d) \<and> other d' = other d"
    and vims_get: "fine d \<Longrightarrow> \<exists>v d'. ti VIMSModeGet d = Some (v, d') \<and>
      fine d' \<and> imem d' = imem d \<and> other d' = other d"
    and vims_set: "fine d \<Longrightarrow> \<exists>v d'. ti (VIMSModeSet m) d = Some (v, d') \<and>
      fine d' \<and> imem d' = imem d \<and> other d' = other d"

text \<open>The user flash as its clients see it: 100 bytes, read and written one at a time.\<close>

locale byte_store =
  fixes get :: "u8 \<Rightarrow> 'd \<Rightarrow> (u8 \<times> 'd) option" and put :: "u8 \<Rightarrow> u8 \<Rightarrow> 'd \<Rightarrow> 'd option"
    and fine :: "'d \<Rightarrow> bool" and store :: "'d \<Rightarrow> bytes" and other :: "'d \<Rightarrow> 'x"
  assumes get_ok: "fine d \<Longrightarrow> unat a < USER_FLASH_LENGTH \<Longrightarrow>
      \<exists>d'. get a d = Some (store d ! unat a, d') \<and> fine d' \<and> store d' = store d \<and> other d' = other d"
    and put_ok: "fine d \<Longrightarrow> unat a < USER_FLASH_LENGTH \<Longrightarrow>
      \<exists>d'. put a v d = Some d' \<and> fine d' \<and> store d' = (store d)[unat a := v] \<and> other d' = other d"
    and length_store: "length (store d) = USER_FLASH_LENGTH"
begin

lemma put_get:
  assumes "fine d" "unat a < USER_FLASH_LENGTH" "unat b < USER_FLASH_LENGTH"
  shows "\<exists>d1 d2. put a v d = Some d1 \<and>
    get b d1 = Some (if a = b then v else store d ! unat b, d2) \<and> fine d2 \<and> store d2 = store d1 \<and>
    store d1 = (store d)[unat a := v] \<and> other d2 = other d"
proof -
  obtain d1 where d1: "put a v d = Some d1" "fine d1" "store d1 = (store d)[unat a := v]" "other d1 = other d"
    using put_ok [OF assms(1,2)] by blast
  moreover obtain d2 where "get b d1 = Some (store d1 ! unat b, d2)" "fine d2" "store d2 = store d1"
    "other d2 = other d1"
    using get_ok [OF d1(2) assms(3)] by blast
  moreover have "store d1 ! unat b = (if a = b then v else store d ! unat b)"
    using assms(2) d1(3) length_store by (simp add: nth_list_update word_unat_eq_iff)
  ultimately show ?thesis by auto
qed

end

text \<open>The 100 bytes of user flash, and the flash without the sector they are in.\<close>

definition user_bytes :: "mem \<Rightarrow> bytes" where
  "user_bytes m = read_mem m (unat START_USER_FLASH) USER_FLASH_LENGTH"

definition outside_user :: "mem \<Rightarrow> mem" where
  "outside_user m =
     (\<lambda>x. if unat START_USER_FLASH \<le> x \<and> x < unat START_USER_FLASH + 4096 then 0 else m x)"

lemma user_bytes_update:
  fixes m :: mem
  assumes "length bs = USER_FLASH_LENGTH"
  defines "m' \<equiv> and_bytes (unat START_USER_FLASH) bs
     (fill_ff (unat START_USER_FLASH div 4096 * 4096) 4096 m)"
  shows "user_bytes m' = bs" "outside_user m' = outside_user m"
proof -
  let ?e = "fill_ff (unat START_USER_FLASH div 4096 * 4096) 4096 m"
  have "erased (unat START_USER_FLASH div 4096 * 4096) 4096 ?e" by (rule erased_fill_ff)
  then have "erased (unat START_USER_FLASH) (length bs) ?e"
    by (rule erased_subrange) (simp_all add: START_USER_FLASH_def USER_FLASH_LENGTH_def assms(1))
  from and_bytes_erased [OF this] show "user_bytes m' = bs"
    by (simp only: user_bytes_def m'_def assms(1))
  show "outside_user m' = outside_user m"
    by (auto simp: outside_user_def m'_def and_bytes_def fill_ff_def START_USER_FLASH_def
        USER_FLASH_LENGTH_def assms(1) fun_eq_iff)
qed

context int_flash begin

lemma mem_copy_ok:
  assumes "fine d" "unat a + n \<le> int_flash_size"
  shows "\<exists>d'. mem_copy_loop ti a n d = Some (read_mem (imem d) (unat a) n, d') \<and>
    fine d' \<and> imem d' = imem d \<and> other d' = other d"
  using assms
proof (induction n arbitrary: a d)
  case (Suc n)
  obtain d1 where d1: "ti (MemByte a) d = Some (ucast (imem d (unat a)), d1)" "fine d1"
    "imem d1 = imem d" "other d1 = other d"
    using mem_byte [OF Suc.prems(1), of a] Suc.prems(2) by auto
  have a: "unat (a + 1) = Suc (unat a)"
    using Suc.prems(2) by (simp add: unat_word_ariths int_flash_size_def)
  obtain d2 where "mem_copy_loop ti (a + 1) n d1 = Some (read_mem (imem d1) (Suc (unat a)) n, d2)"
    "fine d2" "imem d2 = imem d1" "other d2 = other d1"
    using Suc.IH [OF d1(2), of "a + 1"] Suc.prems(2) by (auto simp: a)
  then show ?case by (simp add: d1 read_mem_Suc)
qed simp

lemma flash_read_ok:
  assumes "fine d" "unat a + n \<le> int_flash_size"
  shows "\<exists>d'. flash_read ti a n d = Some (read_mem (imem d) (unat a) n, d') \<and>
    fine d' \<and> imem d' = imem d \<and> other d' = other d"
proof -
  obtain v d1 where d1: "ti VIMSModeGet d = Some (v, d1)" "fine d1" "imem d1 = imem d" "other d1 = other d"
    using vims_get [OF assms(1)] by blast
  obtain r2 d2 where d2: "ti (VIMSModeSet VIMS_MODE_DISABLED) d1 = Some (r2, d2)" "fine d2"
    "imem d2 = imem d" "other d2 = other d"
    using vims_set [OF d1(2)] d1 by metis
  obtain d3 where d3: "mem_copy_loop ti a n d2 = Some (read_mem (imem d) (unat a) n, d3)" "fine d3"
    "imem d3 = imem d" "other d3 = other d"
    using mem_copy_ok [OF d2(2) assms(2)] d2 by metis
  obtain r4 d4 where "ti (VIMSModeSet v) d3 = Some (r4, d4)" "fine d4" "imem d4 = imem d" "other d4 = other d"
    using vims_set [OF d3(2)] d3 by metis
  then show ?thesis by (simp add: flash_read_def ti_do_def d1 d2 d3)
qed

lemma user_read_ok:
  assumes "fine d" "unat a < USER_FLASH_LENGTH"
  shows "\<exists>d'. user_flash_read_byte ti a d = Some (user_bytes (imem d) ! unat a, d') \<and>
    fine d' \<and> imem d' = imem d \<and> other d' = other d"
proof -
  let ?a = "ucast a + START_USER_FLASH :: u32"
  have a: "unat ?a = unat START_USER_FLASH + unat a"
    using assms(2) by (simp add: START_USER_FLASH_def USER_FLASH_LENGTH_def unat_word_ariths unsigned_ucast_eq
        take_bit_eq_mod)
  obtain v d1 where d1: "ti VIMSModeGet d = Some (v, d1)" "fine d1" "imem d1 = imem d" "other d1 = other d"
    using vims_get [OF assms(1)] by blast
  obtain r2 d2 where d2: "ti (VIMSModeSet VIMS_MODE_DISABLED) d1 = Some (r2, d2)" "fine d2"
    "imem d2 = imem d" "other d2 = other d"
    using vims_set [OF d1(2)] d1 by metis
  obtain d3 where d3: "ti (MemByte ?a) d2 = Some (ucast (imem d (unat ?a)), d3)" "fine d3"
    "imem d3 = imem d" "other d3 = other d"
    using mem_byte [OF d2(2), of ?a] d2 a assms(2)
    by (auto simp: START_USER_FLASH_def USER_FLASH_LENGTH_def int_flash_size_def)
  obtain r4 d4 where "ti (VIMSModeSet v) d3 = Some (r4, d4)" "fine d4" "imem d4 = imem d" "other d4 = other d"
    using vims_set [OF d3(2)] d3 by metis
  then show ?thesis
    using assms(2) a by (simp add: user_flash_read_byte_def ti_do_def d1 d2 d3 user_bytes_def)
qed

lemma user_update_ok:
  assumes "fine d" "unat a < USER_FLASH_LENGTH"
  shows "\<exists>d'. user_flash_update_byte ti a v d = Some d' \<and> fine d' \<and>
    user_bytes (imem d') = (user_bytes (imem d))[unat a := v] \<and>
    outside_user (imem d') = outside_user (imem d) \<and> other d' = other d"
proof -
  let ?bs = "(user_bytes (imem d))[unat a := v]"
  have len: "length ?bs = USER_FLASH_LENGTH" by (simp add: user_bytes_def)
  obtain w d1 where d1: "ti VIMSModeGet d = Some (w, d1)" "fine d1" "imem d1 = imem d" "other d1 = other d"
    using vims_get [OF assms(1)] by blast
  obtain r2 d2 where d2: "ti (VIMSModeSet VIMS_MODE_DISABLED) d1 = Some (r2, d2)" "fine d2"
    "imem d2 = imem d" "other d2 = other d"
    using vims_set [OF d1(2)] d1 by metis
  obtain d3 where d3: "flash_read ti START_USER_FLASH USER_FLASH_LENGTH d2 = Some (user_bytes (imem d), d3)"
    "fine d3" "imem d3 = imem d" "other d3 = other d"
    using flash_read_ok [OF d2(2), of START_USER_FLASH USER_FLASH_LENGTH] d2
    by (auto simp: user_bytes_def START_USER_FLASH_def USER_FLASH_LENGTH_def int_flash_size_def)
  obtain r4 d4 where d4: "ti (VIMSModeSet w) d3 = Some (r4, d4)" "fine d4" "imem d4 = imem d" "other d4 = other d"
    using vims_set [OF d3(2)] d3 by metis
  obtain d5 where d5: "ti (FlashSectorErase START_USER_FLASH) d4 = Some (0, d5)" "fine d5"
    "imem d5 = fill_ff (unat START_USER_FLASH div 4096 * 4096) 4096 (imem d)" "other d5 = other d"
    using sector_erase [OF d4(2), of START_USER_FLASH] d4 by (auto simp: START_USER_FLASH_def int_flash_size_def)
  obtain d6 where "ti (FlashProgram ?bs START_USER_FLASH) d5 = Some (0, d6)" "fine d6"
    "imem d6 = and_bytes (unat START_USER_FLASH) ?bs (imem d5)" "other d6 = other d"
    using program [OF d5(2), of START_USER_FLASH ?bs] d5 len
    by (auto simp: START_USER_FLASH_def USER_FLASH_LENGTH_def int_flash_size_def)
  then show ?thesis
    using user_bytes_update [of ?bs "imem d"] len assms(2)
    by (simp add: user_flash_update_byte_def ti_do_def d1 d2 d3 d4 d5)
qed

end

sublocale int_flash \<subseteq> user: byte_store "user_flash_read_byte ti" "user_flash_update_byte ti"
    fine "\<lambda>d. user_bytes (imem d)" "\<lambda>d. (outside_user (imem d), other d)"
proof
  fix d and a :: u8 and v
  assume d: "fine d" "unat a < USER_FLASH_LENGTH"
  show "\<exists>d'. user_flash_read_byte ti a d = Some (user_bytes (imem d) ! unat a, d') \<and> fine d' \<and>
      user_bytes (imem d') = user_bytes (imem d) \<and>
      (outside_user (imem d'), other d') = (outside_user (imem d), other d)"
    using user_read_ok [OF d] by auto
  show "\<exists>d'. user_flash_update_byte ti a v d = Some d' \<and> fine d' \<and>
      user_bytes (imem d') = (user_bytes (imem d))[unat a := v] \<and>
      (outside_user (imem d'), other d') = (outside_user (imem d), other d)"
    using user_update_ok [OF d] by auto
next
  show "length (user_bytes (imem d)) = USER_FLASH_LENGTH" for d by (simp add: user_bytes_def)
qed

section \<open>The flag\<close>

definition stored_flag :: "mem \<Rightarrow> u8" where
  "stored_flag m = user_bytes m ! unat OTA_STATUS_FLAG"

lemma flag_offset: "unat OTA_STATUS_FLAG < USER_FLASH_LENGTH"
  by (simp add: OTA_STATUS_FLAG_def USER_FLASH_LENGTH_def)

context int_flash begin

lemma write_flag_ok:
  assumes "fine d" "fw_flag_valid v"
  shows "\<exists>d'. write_fw_flag ti v d = Some (FLAG_OK_WRITE, d') \<and> fine d' \<and>
    user_bytes (imem d') = (user_bytes (imem d))[unat OTA_STATUS_FLAG := v] \<and> stored_flag (imem d') = v \<and>
    outside_user (imem d') = outside_user (imem d) \<and> other d' = other d"
proof -
  obtain d1 d2 where "user_flash_update_byte ti OTA_STATUS_FLAG v d = Some d1"
    "user_flash_read_byte ti OTA_STATUS_FLAG d1 = Some (v, d2)" "fine d2"
    "user_bytes (imem d2) = (user_bytes (imem d))[unat OTA_STATUS_FLAG := v]"
    "outside_user (imem d2) = outside_user (imem d)" "other d2 = other d"
    using user.put_get [OF assms(1) flag_offset flag_offset, of v] by auto
  moreover from this(4) have "stored_flag (imem d2) = v"
    using flag_offset by (simp add: stored_flag_def user.length_store)
  ultimately show ?thesis
    using assms(2) by (auto simp: write_fw_flag_def fw_flag_valid_def)
qed

lemma write_flag_invalid:
  "\<not> fw_flag_valid v \<Longrightarrow> write_fw_flag ti v d = Some (FLAG_ERROR_WRITE, d)"
  by (simp add: write_fw_flag_def fw_flag_valid_def)

lemma read_flag_ok:
  assumes "fine d"
  shows "\<exists>d'. read_fw_flag ti d =
      Some (if fw_flag_valid (stored_flag (imem d)) then stored_flag (imem d) else FW_FLAG_NON_UPDATE, d') \<and> fine d' \<and>
    stored_flag (imem d') = (if fw_flag_valid (stored_flag (imem d)) then stored_flag (imem d) else FW_FLAG_NON_UPDATE) \<and>
    outside_user (imem d') = outside_user (imem d) \<and> other d' = other d"
proof -
  obtain d1 where d1: "user_flash_read_byte ti OTA_STATUS_FLAG d = Some (stored_flag (imem d), d1)"
    "fine d1" "imem d1 = imem d" "other d1 = other d"
    using user_read_ok [OF assms flag_offset] by (auto simp: stored_flag_def)
  have "fw_flag_valid FW_FLAG_NON_UPDATE" by (simp add: fw_flag_valid_def)
  from write_flag_ok [OF d1(2) this] obtain d2 where
    "write_fw_flag ti FW_FLAG_NON_UPDATE d1 = Some (FLAG_OK_WRITE, d2)" "fine d2"
    "stored_flag (imem d2) = FW_FLAG_NON_UPDATE" "outside_user (imem d2) = outside_user (imem d)"
    "other d2 = other d"
    using d1 by auto
  then show ?thesis
    using d1 by (auto simp: read_fw_flag_def fw_flag_valid_def)
qed

end

end
