(* ===== verification/Ext_Flash_Spec.thy ===== *)
theory Ext_Flash_Spec
  imports Ext_Flash Int_Flash
begin

text \<open>
  The interface of \<open>ext-flash.h\<close>: the five functions the OTA code calls, as a record, and
  the contract between the driver and its clients, as the locale \<open>ext_flash\<close>. The
  contract has the three states of the device that matter to a client: \<open>closed\<close>, \<open>opened\<close>
  and \<open>idle\<close> (opened with no program or erase cycle running; \<open>ext_flash_read\<close> does not wait
  for one, so reads need it).
\<close>

record 'd ext_flash_h =
  ef_open :: "'d \<Rightarrow> (bool \<times> 'd) option"
  ef_close :: "'d \<Rightarrow> 'd option"
  ef_read :: "u32 \<Rightarrow> nat \<Rightarrow> 'd \<Rightarrow> ((bool \<times> bytes) \<times> 'd) option"
  ef_write :: "u32 \<Rightarrow> bytes \<Rightarrow> 'd \<Rightarrow> (bool \<times> 'd) option"
  ef_erase :: "u32 \<Rightarrow> u32 \<Rightarrow> 'd \<Rightarrow> (bool \<times> 'd) option"

definition node_flash :: "'d ti \<Rightarrow> 'd ext_flash_h" where
  "node_flash ti =
     \<lparr>ef_open = ext_flash_open node_build ti, ef_close = ext_flash_close node_build ti,
      ef_read = ext_flash_read ti, ef_write = ext_flash_write node_build ti,
      ef_erase = ext_flash_erase node_build ti\<rparr>"

definition boot_flash :: "'d ti \<Rightarrow> 'd ext_flash_h" where
  "boot_flash ti =
     \<lparr>ef_open = bl_ext_flash_open ti, ef_close = bl_ext_flash_close ti,
      ef_read = bl_ext_flash_read ti, ef_write = bl_ext_flash_write ti,
      ef_erase = bl_ext_flash_erase ti\<rparr>"

text \<open>
  The effect of erasing \<open>n\<close> consecutive 4096-byte units on a chip whose sector-erase
  instruction clears the aligned block of \<open>s\<close> bytes around its address.
\<close>

fun erase_sectors :: "nat \<Rightarrow> nat \<Rightarrow> nat \<Rightarrow> mem \<Rightarrow> mem" where
  "erase_sectors s off 0 m = m"
| "erase_sectors s off (Suc n) m = erase_sectors s (off + 4096) n (fill_ff (off div s * s) s m)"

lemma erase_sectors_4096: "erase_sectors 4096 (4096 * p) n m = fill_ff (4096 * p) (4096 * n) m"
proof (induction n arbitrary: p m)
  case (Suc n)
  have "erase_sectors 4096 (4096 * p) (Suc n) m = erase_sectors 4096 (4096 * Suc p) n (fill_ff (4096 * p) 4096 m)"
    by (simp add: add.commute mult.commute)
  then show ?case unfolding Suc by (auto simp: fill_ff_def fun_eq_iff)
qed (auto simp: fill_ff_def fun_eq_iff)

locale ext_flash =
  fixes F :: "'d ext_flash_h" and sector :: nat
    and closed opened idle :: "'d \<Rightarrow> bool" and xmem imem :: "'d \<Rightarrow> mem"
  assumes idle_opened: "idle d \<Longrightarrow> opened d"
    and open_ok: "closed d \<Longrightarrow> \<exists>d'. ef_open F d = Some (True, d') \<and> idle d' \<and>
      xmem d' = xmem d \<and> imem d' = imem d"
    and close_ok: "opened d \<Longrightarrow> \<exists>d'. ef_close F d = Some d' \<and> closed d' \<and>
      xmem d' = xmem d \<and> imem d' = imem d"
    and read_ok: "idle d \<Longrightarrow> unat a < ext_flash_size \<Longrightarrow> unat a + n \<le> ext_flash_size \<Longrightarrow>
      \<exists>d'. ef_read F a n d = Some ((True, read_mem (xmem d) (unat a) n), d') \<and> idle d' \<and>
      xmem d' = xmem d \<and> imem d' = imem d"
    and read_any: "idle d \<Longrightarrow> \<exists>bs d'. ef_read F a n d = Some ((True, bs), d') \<and> length bs = n \<and>
      idle d' \<and> xmem d' = xmem d \<and> imem d' = imem d"
    and write_ok: "opened d \<Longrightarrow> unat a + length bs \<le> ext_flash_size \<Longrightarrow>
      \<exists>d'. ef_write F a bs d = Some (True, d') \<and> opened d' \<and>
      xmem d' = and_bytes (unat a) bs (xmem d) \<and> imem d' = imem d"
    and erase_ok: "opened d \<Longrightarrow> unat a mod 4096 = 0 \<Longrightarrow> unat len = 4096 * n \<Longrightarrow>
      unat a + unat len \<le> ext_flash_size \<Longrightarrow>
      \<exists>d'. ef_erase F a len d = Some (True, d') \<and> opened d' \<and>
      xmem d' = erase_sectors sector (unat a) n (xmem d) \<and> imem d' = imem d"

text \<open>Calls that touch neither flash.\<close>

definition quiet_call :: "ti_call \<Rightarrow> bool" where
  "quiet_call c \<longleftrightarrow>
     (case c of
        PRCMPeripheralRunEnable p \<Rightarrow> p = PRCM_PERIPH_GPIO \<or> p = PRCM_PERIPH_UART0
      | PRCMLoadSet \<Rightarrow> True | IntMasterEnable \<Rightarrow> True | IntMasterDisable \<Rightarrow> True | UARTSetup \<Rightarrow> True
      | UARTCharPut _ \<Rightarrow> True | WatchdogReload \<Rightarrow> True
      | IOCPinTypeGpioOutput pin \<Rightarrow> pin = IOID 22
      | GPIOSetDio pin \<Rightarrow> pin = IOID 22 | GPIOClearDio pin \<Rightarrow> pin = IOID 22
      | _ \<Rightarrow> False)"

text \<open>A board: the external flash driver and the internal flash of the same device.\<close>

locale flash_board = ext_flash F sector closed opened idle xmem imem + int_flash ti closed imem xmem
  for F :: "'d ext_flash_h" and sector and closed opened idle :: "'d \<Rightarrow> bool"
    and xmem imem :: "'d \<Rightarrow> mem" and ti :: "'d ti" +
  assumes quiet: "quiet_call c \<Longrightarrow> closed d \<Longrightarrow> \<exists>v d'. ti c d = Some (v, d') \<and> closed d' \<and>
      xmem d' = xmem d \<and> imem d' = imem d"
    and watchdog_opened: "opened d \<Longrightarrow> \<exists>v d'. ti WatchdogReload d = Some (v, d') \<and> opened d' \<and>
      xmem d' = xmem d \<and> imem d' = imem d"
    and powered: "closed d \<Longrightarrow> \<exists>v d1 d2. ti (PRCMPowerDomainOn pd) d = Some (v, d1) \<and>
      ti (PRCMPowerDomainStatus pd) d1 = Some (PRCM_DOMAIN_POWER_ON, d2) \<and> closed d2 \<and>
      xmem d2 = xmem d \<and> imem d2 = imem d"
    and loaded: "closed d \<Longrightarrow> \<exists>v d'. ti PRCMLoadGet d = Some (v, d') \<and> v \<noteq> 0 \<and> closed d' \<and>
      xmem d' = xmem d \<and> imem d' = imem d"

end
