(* ===== verification/Nor_Board.thy ===== *)
theory Nor_Board
  imports Ext_Flash_Spec
begin

text \<open>
  A reference board: an SSI port with its receive FIFO, a serial NOR flash chip with the
  command set of the part the driver identifies (Numonyx M25P40: page program that wraps
  inside a 256-byte page, sector erase, write enable latch, busy time, deep power-down,
  commands executed when chip select rises) and the on-chip flash. It instantiates the
  parameter \<open>ti\<close>, and the driver of \<open>Ext_Flash\<close> is proved correct on it. The erase
  granularity \<open>nc_sector\<close> and the busy times are fields of the chip.
\<close>

section \<open>The chip\<close>

record nor_chip =
  nc_mem :: mem
  nc_cs :: bool            \<comment> \<open>selected (chip select low)\<close>
  nc_cmd :: bytes          \<comment> \<open>bytes received since selection\<close>
  nc_rej :: bool           \<comment> \<open>the instruction came while busy and is ignored\<close>
  nc_wel :: bool           \<comment> \<open>write enable latch\<close>
  nc_busy :: nat           \<comment> \<open>byte times until the current cycle ends\<close>
  nc_down :: bool          \<comment> \<open>deep power-down\<close>
  nc_sector :: nat
  nc_tprog :: nat
  nc_terase :: nat


definition cmd_addr :: "bytes \<Rightarrow> nat" where
  "cmd_addr args = (65536 * unat (args ! 0) + 256 * unat (args ! 1) + unat (args ! 2)) mod ext_flash_size"

definition chip_status :: "nor_chip \<Rightarrow> u8" where
  "chip_status c = (if 0 < nc_busy c then 1 else 0) OR (if nc_wel c then 2 else 0)"

text \<open>What the chip drives on its output while the next byte is shifted in.\<close>

definition chip_out :: "nor_chip \<Rightarrow> u8" where
  "chip_out c =
     (case nc_cmd c of
        [] \<Rightarrow> 0xFF
      | op # args \<Rightarrow>
          if op = 0xAB then (if 3 \<le> length args \<and> \<not> nc_rej c then 0x12 else 0xFF)
          else if nc_down c then 0xFF
          else if op = 0x05 then chip_status c
          else if nc_rej c then 0xFF
          else if op = 0x9F then (if length args < 3 then [0x20, 0x20, 0x13] ! length args else 0)
          else if op = 0x03 \<and> 3 \<le> length args
            then nc_mem c ((cmd_addr args + (length args - 3)) mod ext_flash_size)
          else 0xFF)"

definition chip_shift :: "u8 \<Rightarrow> nor_chip \<Rightarrow> nor_chip" where
  "chip_shift x c =
     (if nc_cs c
      then c\<lparr>nc_cmd := nc_cmd c @ [x],
             nc_rej := (if nc_cmd c = [] then 0 < nc_busy c else nc_rej c),
             nc_busy := nc_busy c - 1\<rparr>
      else c\<lparr>nc_busy := nc_busy c - 1\<rparr>)"

text \<open>Page program: the address counter wraps inside the 256-byte page.\<close>

fun prog_page :: "nat \<Rightarrow> nat \<Rightarrow> bytes \<Rightarrow> mem \<Rightarrow> mem" where
  "prog_page page i [] m = m"
| "prog_page page i (x # xs) m =
     prog_page page (i + 1) xs (m(page + i mod 256 := m (page + i mod 256) AND x))"

text \<open>The instruction in \<open>nc_cmd\<close> is executed when the chip is deselected.\<close>

definition chip_exec :: "nor_chip \<Rightarrow> nor_chip" where
  "chip_exec c =
     (case nc_cmd c of
        [] \<Rightarrow> c
      | op # args \<Rightarrow>
          if nc_rej c then c
          else if op = 0xAB then c\<lparr>nc_down := False\<rparr>
          else if nc_down c then c
          else if op = 0x06 \<and> args = [] then c\<lparr>nc_wel := True\<rparr>
          else if op = 0xB9 \<and> args = [] then c\<lparr>nc_down := True\<rparr>
          else if op = 0x02 \<and> 3 < length args \<and> nc_wel c then
            c\<lparr>nc_mem := prog_page (cmd_addr args - cmd_addr args mod 256) (cmd_addr args mod 256)
                          (drop 3 args) (nc_mem c),
              nc_wel := False, nc_busy := nc_tprog c\<rparr>
          else if op = 0xD8 \<and> length args = 3 \<and> nc_wel c then
            c\<lparr>nc_mem := fill_ff (cmd_addr args div nc_sector c * nc_sector c) (nc_sector c) (nc_mem c),
              nc_wel := False, nc_busy := nc_terase c\<rparr>
          else c)"

definition chip_select :: "nor_chip \<Rightarrow> nor_chip" where
  "chip_select c = (if nc_cs c then c else c\<lparr>nc_cs := True, nc_cmd := [], nc_rej := False\<rparr>)"

definition chip_deselect :: "nor_chip \<Rightarrow> nor_chip" where
  "chip_deselect c =
     (if nc_cs c then (chip_exec c)\<lparr>nc_cs := False, nc_cmd := [], nc_rej := False\<rparr> else c)"

section \<open>The board\<close>

record board =
  bd_power :: bool         \<comment> \<open>serial power domain on\<close>
  bd_clk :: bool           \<comment> \<open>SSI0 clock gate open\<close>
  bd_rx :: "u32 list"      \<comment> \<open>receive FIFO of SSI0\<close>
  bd_chip :: nor_chip
  bd_iflash :: mem         \<comment> \<open>internal flash\<close>
  bd_vims :: u32

definition ssi_put :: "u8 \<Rightarrow> board \<Rightarrow> board" where
  "ssi_put x b = b\<lparr>bd_rx := bd_rx b @ [ucast (chip_out (bd_chip b))], bd_chip := chip_shift x (bd_chip b)\<rparr>"

definition on_chip :: "(nor_chip \<Rightarrow> nor_chip) \<Rightarrow> ioid \<Rightarrow> board \<Rightarrow> board" where
  "on_chip f pin b = (if pin = BOARD_IOID_FLASH_CS then b\<lparr>bd_chip := f (bd_chip b)\<rparr> else b)"

definition board_ti :: "board ti" where
  "board_ti c b =
     (case c of
        PRCMPowerDomainOn pd \<Rightarrow> Some (0, if pd = PRCM_DOMAIN_SERIAL then b\<lparr>bd_power := True\<rparr> else b)
      | PRCMPowerDomainStatus pd \<Rightarrow> Some (if pd = PRCM_DOMAIN_SERIAL \<and> \<not> bd_power b then 2 else 1, b)
      | PRCMPeripheralRunEnable p \<Rightarrow> Some (0, if p = PRCM_PERIPH_SSI0 then b\<lparr>bd_clk := True\<rparr> else b)
      | PRCMPeripheralRunDisable p \<Rightarrow> Some (0, if p = PRCM_PERIPH_SSI0 then b\<lparr>bd_clk := False\<rparr> else b)
      | PRCMLoadGet \<Rightarrow> Some (1, b)
      | HWREG_SSICLKGR \<Rightarrow> Some (if bd_clk b then 1 else 0, b)
      | SSIDataPut x \<Rightarrow> Some (0, ssi_put x b)
      | SSIDataPutNonBlocking x \<Rightarrow> Some (1, ssi_put x b)
      | SSIDataGet \<Rightarrow> (case bd_rx b of [] \<Rightarrow> None | r # rs \<Rightarrow> Some (r, b\<lparr>bd_rx := rs\<rparr>))
      | SSIDataGetNonBlocking \<Rightarrow> (case bd_rx b of [] \<Rightarrow> Some (0, b) | r # rs \<Rightarrow> Some (1, b\<lparr>bd_rx := rs\<rparr>))
      | GPIOClearDio pin \<Rightarrow> Some (0, on_chip chip_select pin b)
      | GPIOSetDio pin \<Rightarrow> Some (0, on_chip chip_deselect pin b)
      | MemByte a \<Rightarrow> if unat a < int_flash_size then Some (ucast (bd_iflash b (unat a)), b) else None
      | FlashSectorErase a \<Rightarrow> Some (0, b\<lparr>bd_iflash := fill_ff (unat a div 4096 * 4096) 4096 (bd_iflash b)\<rparr>)
      | FlashProgram bs a \<Rightarrow> Some (0, b\<lparr>bd_iflash := and_bytes (unat a) bs (bd_iflash b)\<rparr>)
      | VIMSModeGet \<Rightarrow> Some (bd_vims b, b)
      | VIMSModeSet m \<Rightarrow> Some (0, b\<lparr>bd_vims := m\<rparr>)
      | _ \<Rightarrow> Some (0, b))"

lemma board_ti_simps [simp]:
  "board_ti (PRCMPowerDomainOn pd) b = Some (0, if pd = PRCM_DOMAIN_SERIAL then b\<lparr>bd_power := True\<rparr> else b)"
  "board_ti (PRCMPowerDomainStatus pd) b = Some (if pd = PRCM_DOMAIN_SERIAL \<and> \<not> bd_power b then 2 else 1, b)"
  "board_ti (PRCMPeripheralRunEnable p) b = Some (0, if p = PRCM_PERIPH_SSI0 then b\<lparr>bd_clk := True\<rparr> else b)"
  "board_ti (PRCMPeripheralRunDisable PRCM_PERIPH_SSI0) b = Some (0, b\<lparr>bd_clk := False\<rparr>)"
  "board_ti PRCMLoadGet b = Some (1, b)"
  "board_ti PRCMLoadSet b = Some (0, b)"
  "board_ti HWREG_SSICLKGR b = Some (if bd_clk b then 1 else 0, b)"
  "board_ti SysCtrlClockGet b = Some (0, b)"
  "board_ti SSIIntDisable b = Some (0, b)"
  "board_ti SSIIntClear b = Some (0, b)"
  "board_ti (SSIConfigSetExpClk u v) b = Some (0, b)"
  "board_ti SSIEnable b = Some (0, b)"
  "board_ti (IOCPinTypeSsiMaster p1 p2 p3 p4) b = Some (0, b)"
  "board_ti (IOCPinTypeGpioOutput pin) b = Some (0, b)"
  "board_ti (IOCPinTypeGpioInput pin) b = Some (0, b)"
  "board_ti (IOCIOPortPullDown pin) b = Some (0, b)"
  "board_ti (SSIDataPut x) b = Some (0, ssi_put x b)"
  "board_ti (SSIDataPutNonBlocking x) b = Some (1, ssi_put x b)"
  "board_ti (GPIOClearDio pin) b = Some (0, on_chip chip_select pin b)"
  "board_ti (GPIOSetDio pin) b = Some (0, on_chip chip_deselect pin b)"
  "board_ti (MemByte a) b = (if unat a < int_flash_size then Some (ucast (bd_iflash b (unat a)), b) else None)"
  "board_ti (FlashSectorErase a) b = Some (0, b\<lparr>bd_iflash := fill_ff (unat a div 4096 * 4096) 4096 (bd_iflash b)\<rparr>)"
  "board_ti (FlashProgram bs a) b = Some (0, b\<lparr>bd_iflash := and_bytes (unat a) bs (bd_iflash b)\<rparr>)"
  "board_ti VIMSModeGet b = Some (bd_vims b, b)"
  "board_ti (VIMSModeSet m) b = Some (0, b\<lparr>bd_vims := m\<rparr>)"
  "board_ti (UARTCharPut x) b = Some (0, b)"
  "board_ti WatchdogReload b = Some (0, b)"
  "board_ti IntMasterDisable b = Some (0, b)"
  "board_ti IntMasterEnable b = Some (0, b)"
  "board_ti UARTSetup b = Some (0, b)"
  by (simp_all add: board_ti_def)

lemma board_ti_get [simp]:
  "board_ti SSIDataGet b = (case bd_rx b of [] \<Rightarrow> None | r # rs \<Rightarrow> Some (r, b\<lparr>bd_rx := rs\<rparr>))"
  "board_ti SSIDataGetNonBlocking b =
     (case bd_rx b of [] \<Rightarrow> Some (0, b) | r # rs \<Rightarrow> Some (1, b\<lparr>bd_rx := rs\<rparr>))"
  by (simp_all add: board_ti_def)

section \<open>board-spi.c on the board\<close>

definition bus_ready :: "board \<Rightarrow> bool" where
  "bus_ready b \<longleftrightarrow> bd_power b \<and> bd_clk b \<and> bd_rx b = []"

fun chip_shifts :: "bytes \<Rightarrow> nor_chip \<Rightarrow> nor_chip" where
  "chip_shifts [] c = c"
| "chip_shifts (x # xs) c = chip_shifts xs (chip_shift x c)"

fun chip_outs :: "nat \<Rightarrow> nor_chip \<Rightarrow> bytes" where
  "chip_outs 0 c = []"
| "chip_outs (Suc n) c = chip_out c # chip_outs n (chip_shift 0 c)"

lemma bus_ready_chip [simp]: "bus_ready (b\<lparr>bd_chip := c\<rparr>) = bus_ready b"
  by (simp add: bus_ready_def)

lemma accessible_ok: "bus_ready b \<Longrightarrow> accessible board_ti b = Some (True, b)"
  by (simp add: accessible_def bus_ready_def PRCM_DOMAIN_POWER_ON_def PRCM_SSICLKGR_CLK_EN_SSI0_def)

lemma board_rx_nil: "bd_rx b = [] \<Longrightarrow> b\<lparr>bd_chip := c, bd_rx := []\<rparr> = b\<lparr>bd_chip := c\<rparr>"
  by (cases b) simp

lemma spi_write_loop_ok:
  "bus_ready b \<Longrightarrow> spi_write_loop board_ti bs b = Some (b\<lparr>bd_chip := chip_shifts bs (bd_chip b)\<rparr>)"
proof (induction bs arbitrary: b)
  case Nil
  then show ?case by simp
next
  case (Cons x bs)
  have "bd_rx b = []" using Cons.prems by (simp add: bus_ready_def)
  then show ?case
    using Cons.IH [of "b\<lparr>bd_chip := chip_shift x (bd_chip b)\<rparr>"] Cons.prems
    by (simp add: ti_do_def ssi_put_def board_rx_nil)
qed

lemma spi_read_loop_ok:
  "bus_ready b \<Longrightarrow> spi_read_loop board_ti n b =
     Some ((True, chip_outs n (bd_chip b)), b\<lparr>bd_chip := chip_shifts (replicate n 0) (bd_chip b)\<rparr>)"
proof (induction n arbitrary: b)
  case 0
  then show ?case by simp
next
  case (Suc n)
  have "bd_rx b = []" using Suc.prems by (simp add: bus_ready_def)
  then show ?case
    using Suc.IH [of "b\<lparr>bd_chip := chip_shift 0 (bd_chip b)\<rparr>"] Suc.prems
    by (simp add: ssi_put_def board_rx_nil)
qed

named_theorems bus_simps "driver primitives on a board whose bus is up"

lemma board_spi_write_ok [bus_simps]:
  "bus_ready b \<Longrightarrow>
     board_spi_write board_ti bs b = Some (True, b\<lparr>bd_chip := chip_shifts bs (bd_chip b)\<rparr>)"
  by (simp add: board_spi_write_def accessible_ok spi_write_loop_ok)

lemma board_spi_read_ok [bus_simps]:
  "bus_ready b \<Longrightarrow> board_spi_read board_ti n b =
     Some ((True, chip_outs n (bd_chip b)), b\<lparr>bd_chip := chip_shifts (replicate n 0) (bd_chip b)\<rparr>)"
  by (simp add: board_spi_read_def accessible_ok spi_read_loop_ok)

lemma board_spi_flush_ok [bus_simps]: "bus_ready b \<Longrightarrow> board_spi_flush board_ti b = Some b"
  by (simp add: board_spi_flush_def accessible_ok ti_wait_ok bus_ready_def)

lemma select_ok [bus_simps]:
  "select_on_bus board_ti b = Some (b\<lparr>bd_chip := chip_select (bd_chip b)\<rparr>)"
  by (simp add: select_on_bus_def ti_do_def on_chip_def)

lemma deselect_ok [bus_simps]:
  "deselect board_ti b = Some (b\<lparr>bd_chip := chip_deselect (bd_chip b)\<rparr>)"
  by (simp add: deselect_def ti_do_def on_chip_def)

lemma drain_rx_ok: "ti_wait board_ti SSIDataGetNonBlocking (\<lambda>r. r = 0) b = Some (b\<lparr>bd_rx := []\<rparr>)"
proof (induction "bd_rx b" arbitrary: b)
  case Nil
  then show ?case by (subst ti_wait.simps) simp
next
  case (Cons r rs)
  from Cons.hyps(1) [of "b\<lparr>bd_rx := rs\<rparr>"] Cons.hyps(2) show ?case
    by (subst ti_wait.simps) (simp flip: Cons.hyps(2))
qed

lemma board_spi_open_ok [bus_simps]:
  "board_spi_open board_ti rate pin b = Some (b\<lparr>bd_power := True, bd_clk := True, bd_rx := []\<rparr>)"
  by (simp add: board_spi_open_def ti_do_def ti_wait_ok PRCM_DOMAIN_POWER_ON_def drain_rx_ok)

lemma board_spi_close_ok [bus_simps]: "board_spi_close board_ti b = Some (b\<lparr>bd_clk := False\<rparr>)"
  by (simp add: board_spi_close_def ti_do_def ti_wait_ok)

section \<open>Polling the status register\<close>

definition parked :: "nor_chip \<Rightarrow> bool" where
  "parked c \<longleftrightarrow> \<not> nc_cs c \<and> nc_cmd c = [] \<and> \<not> nc_rej c"

definition awake :: "nor_chip \<Rightarrow> bool" where
  "awake c \<longleftrightarrow> parked c \<and> \<not> nc_down c"

definition chip_idle :: "nor_chip \<Rightarrow> nor_chip" where
  "chip_idle c = c\<lparr>nc_cs := False, nc_cmd := [], nc_rej := False, nc_busy := 0\<rparr>"

lemma status_bit [simp]: "chip_status c AND BLS_STATUS_BIT_BUSY = 0 \<longleftrightarrow> nc_busy c = 0"
  by (simp add: chip_status_def BLS_STATUS_BIT_BUSY_def)

lemma chip_out_status:
  "nc_cmd c = 0x05 # args \<Longrightarrow> \<not> nc_down c \<Longrightarrow> chip_out c = chip_status c"
  by (simp add: chip_out_def)

lemma chip_deselect_status:
  "nc_cs c \<Longrightarrow> nc_cmd c = 0x05 # args \<Longrightarrow> \<not> nc_down c \<Longrightarrow>
     chip_deselect c = c\<lparr>nc_cs := False, nc_cmd := [], nc_rej := False\<rparr>"
  by (simp add: chip_deselect_def chip_exec_def)

lemma wait_ready_poll_ok:
  assumes "bus_ready b" "nc_cs (bd_chip b)" "nc_cmd (bd_chip b) = 0x05 # args" "\<not> nc_down (bd_chip b)"
  shows "wait_ready_poll board_ti b = Some (True, b\<lparr>bd_chip := chip_idle (bd_chip b)\<rparr>)"
  using assms
proof (induction "nc_busy (bd_chip b)" arbitrary: b args)
  case 0
  let ?c = "chip_shift 0 (bd_chip b)"
  have c: "nc_cmd ?c = 0x05 # (args @ [0])" "nc_cs ?c" "\<not> nc_down ?c" "nc_busy ?c = 0"
    using 0 by (simp_all add: chip_shift_def)
  have "chip_deselect ?c = chip_idle (bd_chip b)"
    unfolding chip_deselect_status [OF c(2,1,3)] using 0 by (simp add: chip_shift_def chip_idle_def)
  with 0 show ?case
    by (subst wait_ready_poll.simps) (simp add: bus_simps chip_out_status)
next
  case (Suc n)
  let ?b = "b\<lparr>bd_chip := chip_shift 0 (bd_chip b)\<rparr>"
  have "wait_ready_poll board_ti ?b = Some (True, ?b\<lparr>bd_chip := chip_idle (bd_chip ?b)\<rparr>)"
    using Suc.prems Suc.hyps(2) by (intro Suc.hyps(1)) (auto simp: chip_shift_def)
  moreover have "chip_idle (bd_chip ?b) = chip_idle (bd_chip b)"
    using Suc.prems by (simp add: chip_shift_def chip_idle_def)
  ultimately show ?case
    using Suc.prems Suc.hyps(2)
    by (subst wait_ready_poll.simps) (simp add: bus_simps chip_out_status)
qed

lemma bl_wait_ready_poll_ok:
  assumes "bus_ready b" "nc_cs (bd_chip b)" "nc_cmd (bd_chip b) = 0x05 # args" "\<not> nc_down (bd_chip b)"
    and "i + nc_busy (bd_chip b) < 500000"
  shows "bl_wait_ready_poll board_ti i b = Some (True, b\<lparr>bd_chip := chip_idle (bd_chip b)\<rparr>)"
  using assms
proof (induction "nc_busy (bd_chip b)" arbitrary: b args i)
  case 0
  let ?c = "chip_shift 0 (bd_chip b)"
  have c: "nc_cmd ?c = 0x05 # (args @ [0])" "nc_cs ?c" "\<not> nc_down ?c" "nc_busy ?c = 0"
    using 0 by (simp_all add: chip_shift_def)
  have "chip_deselect ?c = chip_idle (bd_chip b)"
    unfolding chip_deselect_status [OF c(2,1,3)] using 0 by (simp add: chip_shift_def chip_idle_def)
  with 0 show ?case
    by (subst bl_wait_ready_poll.simps) (simp add: bus_simps chip_out_status ti_do_def on_chip_def)
next
  case (Suc n)
  let ?b = "b\<lparr>bd_chip := chip_shift 0 (bd_chip b)\<rparr>"
  have "bl_wait_ready_poll board_ti (i + 1) ?b = Some (True, ?b\<lparr>bd_chip := chip_idle (bd_chip ?b)\<rparr>)"
    using Suc.prems Suc.hyps(2) by (intro Suc.hyps(1)) (auto simp: chip_shift_def)
  moreover have "chip_idle (bd_chip ?b) = chip_idle (bd_chip b)"
    using Suc.prems by (simp add: chip_shift_def chip_idle_def)
  ultimately show ?case
    using Suc.prems Suc.hyps(2)
    by (subst bl_wait_ready_poll.simps) (simp add: bus_simps chip_out_status)
qed

text \<open>
  After the release instruction the driver polls without raising chip select: it reads the
  dummy bytes and then the electronic signature, whose bit 0 is clear.
\<close>

lemma chip_out_release:
  "nc_cmd c = 0xAB # args \<Longrightarrow> \<not> nc_rej c \<Longrightarrow> chip_out c = (if 3 \<le> length args then 0x12 else 0xFF)"
  by (simp add: chip_out_def)

definition chip_released :: "nor_chip \<Rightarrow> nor_chip" where
  "chip_released c = c\<lparr>nc_cs := False, nc_cmd := [], nc_rej := False, nc_busy := 0, nc_down := False\<rparr>"

lemma release_poll_step:
  assumes "bus_ready b" "nc_cmd (bd_chip b) = 0xAB # args" "nc_cs (bd_chip b)" "\<not> nc_rej (bd_chip b)"
    and "length args < 3"
  shows "wait_ready_poll board_ti b = wait_ready_poll board_ti (b\<lparr>bd_chip := chip_shift 0 (bd_chip b)\<rparr>)"
    and "i < 500000 \<Longrightarrow> bl_wait_ready_poll board_ti i b =
           bl_wait_ready_poll board_ti (i + 1) (b\<lparr>bd_chip := chip_shift 0 (bd_chip b)\<rparr>)"
  using assms
  by (subst wait_ready_poll.simps bl_wait_ready_poll.simps,
      simp add: bus_simps chip_out_release BLS_STATUS_BIT_BUSY_def)+

lemma release_poll_last:
  assumes "bus_ready b" "nc_cmd (bd_chip b) = 0xAB # args" "nc_cs (bd_chip b)" "\<not> nc_rej (bd_chip b)"
    and "3 \<le> length args" and "nc_busy (bd_chip b) = 0"
  shows "wait_ready_poll board_ti b = Some (True, b\<lparr>bd_chip := chip_released (bd_chip b)\<rparr>)"
    and "i < 500000 \<Longrightarrow> bl_wait_ready_poll board_ti i b = Some (True, b\<lparr>bd_chip := chip_released (bd_chip b)\<rparr>)"
  using assms
  by (subst wait_ready_poll.simps bl_wait_ready_poll.simps,
      simp add: bus_simps chip_out_release BLS_STATUS_BIT_BUSY_def chip_deselect_def chip_exec_def
        chip_shift_def chip_released_def ti_do_def on_chip_def)+

lemma chip_released_shift [simp]: "chip_released (chip_shift x c) = chip_released (c\<lparr>nc_busy := 0\<rparr>)"
  by (simp add: chip_released_def chip_shift_def)

lemma chip_released_busy [simp]: "chip_released (c\<lparr>nc_busy := n\<rparr>) = chip_released c"
  by (simp add: chip_released_def)

lemma release_poll_ok:
  assumes "bus_ready b" "nc_cmd (bd_chip b) = [0xAB, x]" "nc_cs (bd_chip b)" "\<not> nc_rej (bd_chip b)"
    and "nc_busy (bd_chip b) = 0"
  shows "wait_ready_poll board_ti b = Some (True, b\<lparr>bd_chip := chip_released (bd_chip b)\<rparr>)"
    and "bl_wait_ready_poll board_ti 0 b = Some (True, b\<lparr>bd_chip := chip_released (bd_chip b)\<rparr>)"
proof -
  let ?b1 = "b\<lparr>bd_chip := chip_shift 0 (bd_chip b)\<rparr>"
  let ?b2 = "?b1\<lparr>bd_chip := chip_shift 0 (bd_chip ?b1)\<rparr>"
  have c1: "nc_cmd (bd_chip ?b1) = 0xAB # [x, 0]" "nc_cs (bd_chip ?b1)" "\<not> nc_rej (bd_chip ?b1)"
    "nc_busy (bd_chip ?b1) = 0" "bus_ready ?b1"
    using assms by (simp_all add: chip_shift_def)
  then have c2: "nc_cmd (bd_chip ?b2) = 0xAB # [x, 0, 0]" "nc_cs (bd_chip ?b2)"
    "\<not> nc_rej (bd_chip ?b2)" "nc_busy (bd_chip ?b2) = 0" "bus_ready ?b2"
    by (simp_all add: chip_shift_def)
  show "wait_ready_poll board_ti b = Some (True, b\<lparr>bd_chip := chip_released (bd_chip b)\<rparr>)"
    using release_poll_step(1) [OF assms(1) assms(2) assms(3,4)]
      release_poll_step(1) [OF c1(5,1,2,3)] release_poll_last(1) [OF c2(5,1,2,3) _ c2(4)] by simp
  show "bl_wait_ready_poll board_ti 0 b = Some (True, b\<lparr>bd_chip := chip_released (bd_chip b)\<rparr>)"
    using release_poll_step(2) [OF assms(1) assms(2) assms(3,4), of 0]
      release_poll_step(2) [OF c1(5,1,2,3), of 1] release_poll_last(2) [OF c2(5,1,2,3) _ c2(4), of 2]
    by (simp add: numeral_2_eq_2)
qed

section \<open>The driver over any polling build\<close>

text \<open>
  What the shared driver functions rely on of the build they are linked with: its
  \<open>wait_ready\<close> ends with the chip idle, both for a running cycle shorter than 500000
  byte times and while the chip is being released from power-down, and its
  \<open>verify_part\<close> is the common one over some initial buffer.
\<close>

locale nor_driver =
  fixes B :: "board ef_build" and init :: bytes
  assumes wr_status: "bus_ready b \<Longrightarrow> awake (bd_chip b) \<Longrightarrow> nc_busy (bd_chip b) < 500000 \<Longrightarrow>
      eb_wait_ready B board_ti b = Some (True, b\<lparr>bd_chip := chip_idle (bd_chip b)\<rparr>)"
    and wr_release: "bus_ready b \<Longrightarrow> nc_cs (bd_chip b) \<Longrightarrow> nc_cmd (bd_chip b) = [0xAB] \<Longrightarrow>
      \<not> nc_rej (bd_chip b) \<Longrightarrow> nc_busy (bd_chip b) = 0 \<Longrightarrow>
      eb_wait_ready B board_ti b = Some (True, b\<lparr>bd_chip := chip_released (bd_chip b)\<rparr>)"
    and vp: "eb_verify_part B = verify_part_with init"

interpretation node_driver: nor_driver node_build "[0x42, 0x42, 0x42]"
proof
  fix b
  assume bus: "bus_ready b"
  show "eb_wait_ready node_build board_ti b = Some (True, b\<lparr>bd_chip := chip_idle (bd_chip b)\<rparr>)"
    if "awake (bd_chip b)" "nc_busy (bd_chip b) < 500000"
    using bus that wait_ready_poll_ok [of "b\<lparr>bd_chip := chip_shift 0x05 (chip_select (bd_chip b))\<rparr>" "[]"]
    by (simp add: node_build_def wait_ready_def bus_simps awake_def parked_def chip_select_def
        chip_shift_def chip_idle_def BLS_CODE_READ_STATUS_def)
  show "eb_wait_ready node_build board_ti b = Some (True, b\<lparr>bd_chip := chip_released (bd_chip b)\<rparr>)"
    if "nc_cs (bd_chip b)" "nc_cmd (bd_chip b) = [0xAB]" "\<not> nc_rej (bd_chip b)" "nc_busy (bd_chip b) = 0"
    using bus that release_poll_ok(1) [of "b\<lparr>bd_chip := chip_shift 0x05 (bd_chip b)\<rparr>" "0x05"]
    by (simp add: node_build_def wait_ready_def bus_simps chip_select_def BLS_CODE_READ_STATUS_def)
      (simp add: chip_shift_def)
qed (simp_all add: node_build_def verify_part_def fun_eq_iff)

interpretation boot_driver: nor_driver boot_build "[0, 0, 0]"
proof
  fix b
  assume bus: "bus_ready b"
  show "eb_wait_ready boot_build board_ti b = Some (True, b\<lparr>bd_chip := chip_idle (bd_chip b)\<rparr>)"
    if "awake (bd_chip b)" "nc_busy (bd_chip b) < 500000"
    using bus that bl_wait_ready_poll_ok [of "b\<lparr>bd_chip := chip_shift 0x05 (chip_select (bd_chip b))\<rparr>" "[]" 0]
    by (simp add: boot_build_def bl_wait_ready_def bus_simps awake_def parked_def chip_select_def
        chip_shift_def chip_idle_def BLS_CODE_READ_STATUS_def)
  show "eb_wait_ready boot_build board_ti b = Some (True, b\<lparr>bd_chip := chip_released (bd_chip b)\<rparr>)"
    if "nc_cs (bd_chip b)" "nc_cmd (bd_chip b) = [0xAB]" "\<not> nc_rej (bd_chip b)" "nc_busy (bd_chip b) = 0"
    using bus that release_poll_ok(2) [of "b\<lparr>bd_chip := chip_shift 0x05 (bd_chip b)\<rparr>" "0x05"]
    by (simp add: boot_build_def bl_wait_ready_def bus_simps chip_select_def BLS_CODE_READ_STATUS_def)
      (simp add: chip_shift_def)
qed (simp_all add: boot_build_def bl_verify_part_def fun_eq_iff)

section \<open>Single transactions\<close>

lemma awake_simps:
  "awake c \<Longrightarrow> nc_cs c = False" "awake c \<Longrightarrow> nc_cmd c = []" "awake c \<Longrightarrow> nc_rej c = False"
  "awake c \<Longrightarrow> nc_down c = False" "awake c \<Longrightarrow> parked c"
  by (simp_all add: awake_def parked_def)

lemma parked_simps:
  "parked c \<Longrightarrow> nc_cs c = False" "parked c \<Longrightarrow> nc_cmd c = []" "parked c \<Longrightarrow> nc_rej c = False"
  by (simp_all add: parked_def)

lemma parked_eq:
  "parked c \<Longrightarrow> c\<lparr>nc_cs := False, nc_cmd := [], nc_rej := False\<rparr> = c"
  "parked c \<Longrightarrow> nc_busy c = 0 \<Longrightarrow> c\<lparr>nc_cs := False, nc_cmd := [], nc_rej := False, nc_busy := 0\<rparr> = c"
  by (cases c; simp add: parked_def)+

text \<open>The bytes shifted into a freshly selected, idle chip become its instruction.\<close>

lemma chip_shifts_selected:
  assumes "nc_cs c" "nc_busy c = 0" "\<not> nc_rej c"
  shows "chip_shifts xs c = c\<lparr>nc_cmd := nc_cmd c @ xs\<rparr>"
  using assms
proof (induction xs arbitrary: c)
  case (Cons x xs)
  have "chip_shift x c = c\<lparr>nc_cmd := nc_cmd c @ [x]\<rparr>"
    using Cons.prems by (cases c) (simp add: chip_shift_def)
  with Cons.IH [of "chip_shift x c"] Cons.prems show ?case by simp
qed simp

lemma chip_shifts_fresh:
  "parked c \<Longrightarrow> nc_busy c = 0 \<Longrightarrow> chip_shifts xs (chip_select c) = c\<lparr>nc_cs := True, nc_cmd := xs, nc_rej := False\<rparr>"
  by (simp add: chip_shifts_selected chip_select_def parked_def)

text \<open>Select, send an instruction, deselect.\<close>

definition chip_instr :: "bytes \<Rightarrow> nor_chip \<Rightarrow> nor_chip" where
  "chip_instr xs c = chip_deselect (chip_shifts xs (chip_select c))"

lemma chip_instr_wren:
  assumes "awake c" "nc_busy c = 0"
  shows "chip_instr [0x06] c = c\<lparr>nc_wel := True\<rparr>"
  using assms unfolding chip_instr_def chip_shifts_fresh [OF awake_simps(5) [OF assms(1)] assms(2)]
  by (cases c) (simp add: chip_deselect_def chip_exec_def awake_def parked_def)

lemma chip_instr_down:
  assumes "awake c" "nc_busy c = 0"
  shows "chip_instr [0xB9] c = c\<lparr>nc_down := True\<rparr>"
  using assms unfolding chip_instr_def chip_shifts_fresh [OF awake_simps(5) [OF assms(1)] assms(2)]
  by (cases c) (simp add: chip_deselect_def chip_exec_def awake_def parked_def)

lemma chip_instr_erase:
  assumes "awake c" "nc_busy c = 0" "nc_wel c"
  shows "chip_instr [0xD8, b1, b2, b3] c =
    c\<lparr>nc_mem := fill_ff (cmd_addr [b1, b2, b3] div nc_sector c * nc_sector c) (nc_sector c) (nc_mem c),
      nc_wel := False, nc_busy := nc_terase c\<rparr>"
  using assms unfolding chip_instr_def chip_shifts_fresh [OF awake_simps(5) [OF assms(1)] assms(2)]
  by (cases c) (simp add: chip_deselect_def chip_exec_def awake_def parked_def)

lemma chip_instr_program:
  assumes "awake c" "nc_busy c = 0" "nc_wel c" "xs \<noteq> []"
  shows "chip_instr ([0x02, b1, b2, b3] @ xs) c =
    c\<lparr>nc_mem := prog_page (cmd_addr [b1, b2, b3] - cmd_addr [b1, b2, b3] mod 256)
                  (cmd_addr [b1, b2, b3] mod 256) xs (nc_mem c),
      nc_wel := False, nc_busy := nc_tprog c\<rparr>"
proof -
  have "cmd_addr (b1 # b2 # b3 # xs) = cmd_addr [b1, b2, b3]" by (simp add: cmd_addr_def)
  then show ?thesis
    using assms unfolding chip_instr_def chip_shifts_fresh [OF awake_simps(5) [OF assms(1)] assms(2)]
    by (cases c) (auto simp: chip_deselect_def chip_exec_def awake_def parked_def)
qed

lemma unat_ucast_ff: "unat (ucast (w AND 0xff :: u32) :: u8) = unat w mod 256"
proof -
  have "(0xff :: u32) = mask 8" by (simp add: mask_eq_exp_minus_1)
  then have "(ucast (w AND 0xff) :: u8) = ucast w"
    by (simp only: take_bit_eq_mask [symmetric]) (auto intro!: bit_word_eqI simp: bit_simps)
  then show ?thesis by (simp add: unsigned_ucast_eq take_bit_eq_mod)
qed

lemma cmd_addr_flash_cmd:
  "cmd_addr (tl (flash_cmd code off)) = (unat off mod 2 ^ 24) mod ext_flash_size"
proof -
  have "65536 * (n div 65536 mod 256) + 256 * (n div 256 mod 256) + n mod 256 = n mod 2 ^ 24" for n :: nat
  proof -
    have "n mod (256 * 65536) = 256 * (n div 256 mod 65536) + n mod 256" by (rule mod_mult2_eq)
    moreover have "n div 256 mod (256 * 256) = 256 * (n div 256 div 256 mod 256) + n div 256 mod 256"
      by (rule mod_mult2_eq)
    moreover have "n div 256 div 256 = n div 65536" by (simp add: div_mult2_eq [symmetric])
    ultimately show ?thesis by simp
  qed
  then show ?thesis
    by (simp add: cmd_addr_def flash_cmd_def unat_ucast_ff unat_drop_bit_eq drop_bit_eq_div unat_div)
qed

lemma prog_page_inside:
  "i + length xs \<le> 256 \<Longrightarrow> prog_page page i xs m = and_bytes (page + i) xs m"
proof (induction xs arbitrary: i m)
  case (Cons x xs)
  let ?m = "m(page + i := m (page + i) AND x)"
  have m: "and_bytes (page + i) [x] m = ?m" by (auto simp: and_bytes_def fun_eq_iff)
  have "and_bytes (page + i) (x # xs) m = and_bytes (page + (i + 1)) xs ?m"
    using and_bytes_append [of "page + i" "[x]" xs m] by (simp add: m)
  with Cons show ?case by (simp add: fun_upd_def)
qed simp

lemma chip_outs_3:
  "chip_outs 3 c = [chip_out c, chip_out (chip_shift 0 c), chip_out (chip_shift 0 (chip_shift 0 c))]"
  by (simp add: numeral_3_eq_3)

context nor_driver begin

lemma verify_awake:
  assumes "bus_ready b" "awake (bd_chip b)" "nc_busy (bd_chip b) = 0"
  shows "eb_verify_part B board_ti b = Some (VERIFY_PART_OK, b)"
proof -
  let ?c = "chip_shift 0x9F (chip_select (bd_chip b))"
  have "chip_outs 3 ?c = [0x20, 0x20, 0x13]"
    using assms by (simp add: chip_outs_3 chip_shift_def chip_select_def awake_simps chip_out_def)
  moreover have "chip_deselect (chip_shifts (replicate 3 0) ?c) = bd_chip b"
    using assms chip_shifts_fresh [of "bd_chip b" "0x9F # replicate 3 0"]
    by (simp add: awake_simps chip_deselect_def chip_exec_def parked_eq)
  ultimately show ?thesis
    using assms
    by (simp add: vp verify_part_with_def bus_simps bls_defs)
qed

lemma verify_down:
  assumes "bus_ready b" "parked (bd_chip b)" "nc_down (bd_chip b)" "nc_busy (bd_chip b) = 0"
  shows "eb_verify_part B board_ti b = Some (VERIFY_PART_POWERED_DOWN, b)"
proof -
  let ?c = "chip_shift 0x9F (chip_select (bd_chip b))"
  have "chip_outs 3 ?c = [0xFF, 0xFF, 0xFF]"
    using assms by (simp add: chip_outs_3 chip_shift_def chip_select_def parked_simps chip_out_def)
  moreover have "chip_deselect (chip_shifts (replicate 3 0) ?c) = bd_chip b"
    using assms chip_shifts_fresh [of "bd_chip b" "0x9F # replicate 3 0"]
    by (simp add: parked_simps chip_deselect_def chip_exec_def parked_eq)
  ultimately show ?thesis
    using assms
    by (simp add: vp verify_part_with_def bus_simps bls_defs)
qed

lemma power_down_ok:
  assumes "bus_ready b" "awake (bd_chip b)" "nc_busy (bd_chip b) < 500000"
  shows "power_down B board_ti b = Some (b\<lparr>bd_chip := (bd_chip b)\<lparr>nc_busy := 0, nc_down := True\<rparr>\<rparr>)"
proof -
  let ?c = "(bd_chip b)\<lparr>nc_busy := 0\<rparr>"
  have idle: "chip_idle (bd_chip b) = ?c"
    using assms(2) by (cases "bd_chip b") (simp add: chip_idle_def awake_def parked_def)
  have c: "awake ?c" "nc_busy ?c = 0" using assms(2) by (simp_all add: awake_def parked_def)
  then have "parked (?c\<lparr>nc_down := True\<rparr>)" by (simp add: awake_def parked_def)
  then show ?thesis
    using assms chip_instr_down [OF c] verify_down [of "b\<lparr>bd_chip := ?c\<lparr>nc_down := True\<rparr>\<rparr>"]
    by (simp add: power_down_def wr_status idle bus_simps chip_instr_def BLS_CODE_POWERDOWN_def)
      (subst power_down_check.simps, simp)
qed

lemma power_standby_ok:
  assumes "bus_ready b" "parked (bd_chip b)" "nc_busy (bd_chip b) = 0"
  shows "power_standby B board_ti b = Some (True, b\<lparr>bd_chip := (bd_chip b)\<lparr>nc_down := False\<rparr>\<rparr>)"
proof -
  let ?c = "chip_shift 0xAB (chip_select (bd_chip b))"
  have c: "?c = (bd_chip b)\<lparr>nc_cs := True, nc_cmd := [0xAB], nc_rej := False\<rparr>"
    using chip_shifts_fresh [OF assms(2,3), of "[0xAB]"] by simp
  have "chip_released ?c = (bd_chip b)\<lparr>nc_down := False\<rparr>"
    using assms(2,3) unfolding c by (cases "bd_chip b") (simp add: chip_released_def parked_def)
  moreover have "eb_wait_ready B board_ti (b\<lparr>bd_chip := ?c\<rparr>) =
      Some (True, b\<lparr>bd_chip := chip_released ?c\<rparr>)"
    using wr_release [of "b\<lparr>bd_chip := ?c\<rparr>"] assms(1,3) by (simp add: c)
  moreover have "chip_deselect ((bd_chip b)\<lparr>nc_down := False\<rparr>) = (bd_chip b)\<lparr>nc_down := False\<rparr>"
    using assms(2) by (simp add: chip_deselect_def parked_def)
  ultimately show ?thesis
    using assms(1) by (simp add: power_standby_def bus_simps BLS_CODE_RPD_def)
qed

lemma write_enable_ok:
  assumes "bus_ready b" "awake (bd_chip b)" "nc_busy (bd_chip b) = 0"
  shows "write_enable board_ti b = Some (True, b\<lparr>bd_chip := (bd_chip b)\<lparr>nc_wel := True\<rparr>\<rparr>)"
  using assms chip_instr_wren [OF assms(2,3)]
  by (simp add: write_enable_def bus_simps chip_instr_def BLS_CODE_WRITE_ENABLE_def)

text \<open>The functions of \<open>ext-flash.h\<close>, from a closed or an open device.\<close>

lemma open_ok:
  assumes "parked (bd_chip b)" "nc_busy (bd_chip b) = 0"
  shows "ext_flash_open B board_ti b = Some (True,
    b\<lparr>bd_power := True, bd_clk := True, bd_rx := [], bd_chip := (bd_chip b)\<lparr>nc_down := False\<rparr>\<rparr>)"
proof -
  let ?b = "b\<lparr>bd_power := True, bd_clk := True, bd_rx := []\<rparr>"
  have b: "bus_ready ?b" "parked (bd_chip ?b)" "nc_busy (bd_chip ?b) = 0" "\<not> nc_cs (bd_chip ?b)"
    using assms by (simp_all add: bus_ready_def parked_def)
  have "deselect board_ti ?b = Some ?b" using b(4) by (simp add: deselect_ok chip_deselect_def)
  moreover have "eb_verify_part B board_ti (?b\<lparr>bd_chip := (bd_chip b)\<lparr>nc_down := False\<rparr>\<rparr>)
      = Some (VERIFY_PART_OK, ?b\<lparr>bd_chip := (bd_chip b)\<lparr>nc_down := False\<rparr>\<rparr>)"
    using assms b(1) by (intro verify_awake) (simp_all add: awake_def parked_def)
  ultimately show ?thesis
    using power_standby_ok [OF b(1,2,3)]
    by (simp add: ext_flash_open_def bus_simps ti_do_def)
qed

lemma close_ok:
  assumes "bus_ready b" "awake (bd_chip b)" "nc_busy (bd_chip b) < 500000"
  shows "ext_flash_close B board_ti b =
    Some (b\<lparr>bd_chip := (bd_chip b)\<lparr>nc_busy := 0, nc_down := True\<rparr>, bd_clk := False\<rparr>)"
  using power_down_ok [OF assms] by (simp add: ext_flash_close_def bus_simps)

end

text \<open>Reading: the driver does not wait, so the chip has to be idle.\<close>

lemma chip_outs_read:
  assumes "nc_cmd c = 0x03 # args" "3 \<le> length args" "\<not> nc_down c" "\<not> nc_rej c" "nc_cs c"
    and "cmd_addr args + (length args - 3) + n \<le> ext_flash_size"
  shows "chip_outs n c = read_mem (nc_mem c) (cmd_addr args + (length args - 3)) n"
  using assms
proof (induction n arbitrary: c args)
  case (Suc n)
  have "cmd_addr (args @ [0]) = cmd_addr args"
    using Suc.prems(2) by (cases args) (auto simp: cmd_addr_def nth_append)
  moreover have next_pos: "length args - 2 = Suc (length args - 3)" using Suc.prems(2) by simp
  moreover have "chip_out c = nc_mem c (cmd_addr args + (length args - 3))"
    using Suc.prems by (simp add: chip_out_def)
  ultimately show ?case
    using Suc.prems Suc.IH [of "chip_shift 0 c" "args @ [0]"]
    by (simp add: read_mem_Suc chip_shift_def next_pos flip: add_diff_assoc)
qed simp

lemma flash_cmd_shape: "\<exists>b1 b2 b3. flash_cmd code off = [code, b1, b2, b3]"
  by (simp add: flash_cmd_def)

lemma cmd_addr_in_range:
  "unat off < ext_flash_size \<Longrightarrow> cmd_addr (tl (flash_cmd code off)) = unat off"
  by (simp add: cmd_addr_flash_cmd ext_flash_size_def)

lemma length_chip_outs [simp]: "length (chip_outs n c) = n"
  by (induction n arbitrary: c) auto

lemma read_any:
  assumes "bus_ready b" "awake (bd_chip b)" "nc_busy (bd_chip b) = 0"
  shows "\<exists>bs. ext_flash_read board_ti off n b = Some ((True, bs), b) \<and> length bs = n"
proof -
  obtain b1 b2 b3 where cmd: "flash_cmd BLS_CODE_READ off = [0x03, b1, b2, b3]"
    using flash_cmd_shape unfolding BLS_CODE_READ_def by blast
  let ?c = "(bd_chip b)\<lparr>nc_cs := True, nc_cmd := [0x03, b1, b2, b3], nc_rej := False\<rparr>"
  have fresh: "chip_shifts [0x03, b1, b2, b3] (chip_select (bd_chip b)) = ?c"
    using chip_shifts_fresh [OF awake_simps(5) [OF assms(2)] assms(3)] .
  have "chip_shifts (replicate n 0) ?c = ?c\<lparr>nc_cmd := [0x03, b1, b2, b3] @ replicate n 0\<rparr>"
    using chip_shifts_selected [of ?c "replicate n 0"] assms by simp
  then have "chip_deselect (chip_shifts (replicate n 0) ?c) = bd_chip b"
    using assms by (simp add: chip_deselect_def chip_exec_def awake_simps parked_eq)
  then show ?thesis
    using assms fresh by (simp add: ext_flash_read_def cmd bus_simps)
qed

lemma read_ok:
  assumes "bus_ready b" "awake (bd_chip b)" "nc_busy (bd_chip b) = 0"
    and range: "unat off < ext_flash_size" "unat off + n \<le> ext_flash_size"
  shows "ext_flash_read board_ti off n b = Some ((True, read_mem (nc_mem (bd_chip b)) (unat off) n), b)"
proof -
  obtain b1 b2 b3 where cmd: "flash_cmd BLS_CODE_READ off = [0x03, b1, b2, b3]"
    using flash_cmd_shape unfolding BLS_CODE_READ_def by blast
  let ?c = "(bd_chip b)\<lparr>nc_cs := True, nc_cmd := [0x03, b1, b2, b3], nc_rej := False\<rparr>"
  have fresh: "chip_shifts [0x03, b1, b2, b3] (chip_select (bd_chip b)) = ?c"
    using chip_shifts_fresh [OF awake_simps(5) [OF assms(2)] assms(3)] .
  have "cmd_addr [b1, b2, b3] = unat off"
    using cmd_addr_in_range [OF range(1), of BLS_CODE_READ] by (simp add: cmd)
  then have outs: "chip_outs n ?c = read_mem (nc_mem (bd_chip b)) (unat off) n"
    using chip_outs_read [of ?c "[b1, b2, b3]" n] assms range by (simp add: awake_simps)
  have "chip_shifts (replicate n 0) ?c = ?c\<lparr>nc_cmd := [0x03, b1, b2, b3] @ replicate n 0\<rparr>"
    using chip_shifts_selected [of ?c "replicate n 0"] assms by simp
  then have "chip_deselect (chip_shifts (replicate n 0) ?c) = bd_chip b"
    using assms by (simp add: chip_deselect_def chip_exec_def awake_simps parked_eq)
  with outs show ?thesis
    using assms fresh by (simp add: ext_flash_read_def cmd bus_simps)
qed

section \<open>Programs and erases\<close>

text \<open>
  The states between calls of an open device, with erase granularity \<open>s\<close>, and those of
  a closed one; what the client sees of them.
\<close>

definition nor_open :: "nat \<Rightarrow> board \<Rightarrow> bool" where
  "nor_open s b \<longleftrightarrow> bus_ready b \<and> awake (bd_chip b) \<and> nc_busy (bd_chip b) < 500000 \<and>
     nc_sector (bd_chip b) = s \<and> nc_tprog (bd_chip b) < 500000 \<and> nc_terase (bd_chip b) < 500000"

definition nor_idle :: "nat \<Rightarrow> board \<Rightarrow> bool" where
  "nor_idle s b \<longleftrightarrow> nor_open s b \<and> nc_busy (bd_chip b) = 0"

definition nor_closed :: "nat \<Rightarrow> board \<Rightarrow> bool" where
  "nor_closed s b \<longleftrightarrow> parked (bd_chip b) \<and> nc_busy (bd_chip b) = 0 \<and>
     nc_sector (bd_chip b) = s \<and> nc_tprog (bd_chip b) < 500000 \<and> nc_terase (bd_chip b) < 500000"

definition nor_xmem :: "board \<Rightarrow> mem" where "nor_xmem b = nc_mem (bd_chip b)"

definition nor_rest :: "board \<Rightarrow> mem \<times> u32" where "nor_rest b = (bd_iflash b, bd_vims b)"

lemmas nor_state_defs = nor_open_def nor_idle_def nor_closed_def nor_xmem_def nor_rest_def

lemma chip_shifts_append: "chip_shifts (xs @ ys) c = chip_shifts ys (chip_shifts xs c)"
  by (induction xs arbitrary: c) auto

lemma chip_idle_awake: "awake c \<Longrightarrow> chip_idle c = c\<lparr>nc_busy := 0\<rparr>"
  by (cases c) (simp add: chip_idle_def awake_def parked_def)

lemma awake_upd [simp]:
  "awake (c\<lparr>nc_busy := n\<rparr>) = awake c" "awake (c\<lparr>nc_wel := w\<rparr>) = awake c"
  "awake (c\<lparr>nc_mem := m\<rparr>) = awake c"
  by (simp_all add: awake_def parked_def)

lemma write_ilen_bounds:
  "write_ilen off n \<le> n" "unat off mod 256 + write_ilen off n \<le> 256"
proof -
  have m: "unat (off mod BLS_PROGRAM_PAGE_SIZE) = unat off mod 256"
    by (simp add: BLS_PROGRAM_PAGE_SIZE_def unat_mod)
  have "unat (BLS_PROGRAM_PAGE_SIZE - (off mod BLS_PROGRAM_PAGE_SIZE)) = 256 - unat off mod 256"
    using m by (subst unat_sub) (simp_all add: word_le_nat_alt BLS_PROGRAM_PAGE_SIZE_def)
  moreover have "unat off mod 256 < 256" by simp
  ultimately show "write_ilen off n \<le> n" "unat off mod 256 + write_ilen off n \<le> 256"
    by (auto simp: write_ilen_def Let_def simp del: mod_less_divisor)
qed

lemma unat_off_add:
  "unat off + n \<le> ext_flash_size \<Longrightarrow> unat (off + of_nat n :: u32) = unat off + n"
  by (simp add: unat_word_ariths unat_of_nat ext_flash_size_def take_bit_eq_mod)

context nor_driver begin

lemma write_step:
  assumes "bus_ready b" "awake (bd_chip b)" "nc_busy (bd_chip b) < 500000" "buf \<noteq> []"
    and range: "unat off + length buf \<le> ext_flash_size"
  defines "n \<equiv> write_ilen off (length buf)"
  shows "ext_flash_write B board_ti off buf b =
    ext_flash_write B board_ti (off + of_nat n) (drop n buf)
      (b\<lparr>bd_chip := (bd_chip b)\<lparr>nc_busy := nc_tprog (bd_chip b), nc_wel := False,
          nc_mem := and_bytes (unat off) (take n buf) (nc_mem (bd_chip b))\<rparr>\<rparr>)"
proof -
  let ?c0 = "(bd_chip b)\<lparr>nc_busy := 0\<rparr>" and ?c1 = "(bd_chip b)\<lparr>nc_busy := 0, nc_wel := True\<rparr>"
  have lt: "unat off < ext_flash_size" using range assms(4) by (cases buf) simp_all
  obtain b1 b2 b3 where cmd: "flash_cmd BLS_CODE_PROGRAM off = [0x02, b1, b2, b3]"
    using flash_cmd_shape unfolding BLS_CODE_PROGRAM_def by blast
  have addr: "cmd_addr [b1, b2, b3] = unat off"
    using cmd_addr_in_range [OF lt, of BLS_CODE_PROGRAM] by (simp add: cmd)
  have n: "n \<le> length buf" "unat off mod 256 + length (take n buf) \<le> 256" "take n buf \<noteq> []"
    using write_ilen_bounds [of off "length buf"] write_ilen_pos [of "length buf" off] assms(4)
    by (simp_all add: n_def)
  have "prog_page (unat off - unat off mod 256) (unat off mod 256) (take n buf) (nc_mem (bd_chip b))
      = and_bytes (unat off) (take n buf) (nc_mem (bd_chip b))"
    using prog_page_inside [OF n(2)] by simp
  then have "chip_instr ([0x02, b1, b2, b3] @ take n buf) ?c1 =
      (bd_chip b)\<lparr>nc_busy := nc_tprog (bd_chip b), nc_wel := False,
          nc_mem := and_bytes (unat off) (take n buf) (nc_mem (bd_chip b))\<rparr>"
    using chip_instr_program [of ?c1 "take n buf" b1 b2 b3] assms(2) n(3) by (simp add: addr)
  then show ?thesis
    using assms(1-4) write_enable_ok [of "b\<lparr>bd_chip := ?c0\<rparr>"]
    by (subst ext_flash_write.simps)
      (simp add: wr_status chip_idle_awake bus_simps cmd chip_instr_def chip_shifts_append flip: n_def)
qed

lemma write_ok:
  assumes "nor_open s b" "unat off + length buf \<le> ext_flash_size"
  shows "\<exists>b'. ext_flash_write B board_ti off buf b = Some (True, b') \<and> nor_open s b' \<and>
    nor_xmem b' = and_bytes (unat off) buf (nor_xmem b) \<and> nor_rest b' = nor_rest b"
  using assms
proof (induction "length buf" arbitrary: off buf b rule: less_induct)
  case less
  show ?case
  proof (cases "buf = []")
    case True
    then show ?thesis using less.prems(1) by (subst ext_flash_write.simps) simp
  next
    case False
    define n where "n = write_ilen off (length buf)"
    define b1 where "b1 = b\<lparr>bd_chip := (bd_chip b)\<lparr>nc_busy := nc_tprog (bd_chip b), nc_wel := False,
          nc_mem := and_bytes (unat off) (take n buf) (nc_mem (bd_chip b))\<rparr>\<rparr>"
    have step: "ext_flash_write B board_ti off buf b =
        ext_flash_write B board_ti (off + of_nat n) (drop n buf) b1"
      unfolding b1_def n_def using less.prems False by (intro write_step) (simp_all add: nor_open_def)
    have n: "0 < n" "n \<le> length buf"
      using write_ilen_pos [of "length buf" off] write_ilen_bounds [of off "length buf"] False
      by (simp_all add: n_def)
    have off: "unat (off + of_nat n) = unat off + n"
      using less.prems(2) n by (intro unat_off_add) simp
    have b1: "nor_open s b1" "nor_xmem b1 = and_bytes (unat off) (take n buf) (nor_xmem b)"
      "nor_rest b1 = nor_rest b"
      using less.prems(1) by (simp_all add: b1_def nor_state_defs)
    have "and_bytes (unat off + n) (drop n buf) (nor_xmem b1) = and_bytes (unat off) buf (nor_xmem b)"
      using and_bytes_append [of "unat off" "take n buf" "drop n buf" "nor_xmem b"] n by (simp add: b1(2))
    then show ?thesis
      using less.hyps [of "drop n buf" b1 "off + of_nat n"] n less.prems(2) b1(1,3)
      by (auto simp: step off)
  qed
qed

lemma erase_step:
  assumes "bus_ready b" "awake (bd_chip b)" "nc_busy (bd_chip b) < 500000" "unat off < ext_flash_size"
  shows "erase_loop B board_ti (Suc n) off b =
    erase_loop B board_ti n (off + BLS_ERASE_SECTOR_SIZE)
      (b\<lparr>bd_chip := (bd_chip b)\<lparr>nc_busy := nc_terase (bd_chip b), nc_wel := False,
          nc_mem := fill_ff (unat off div nc_sector (bd_chip b) * nc_sector (bd_chip b))
                      (nc_sector (bd_chip b)) (nc_mem (bd_chip b))\<rparr>\<rparr>)"
proof -
  let ?c0 = "(bd_chip b)\<lparr>nc_busy := 0\<rparr>" and ?c1 = "(bd_chip b)\<lparr>nc_busy := 0, nc_wel := True\<rparr>"
  obtain b1 b2 b3 where cmd: "flash_cmd BLS_CODE_SECTOR_ERASE off = [0xD8, b1, b2, b3]"
    using flash_cmd_shape unfolding BLS_CODE_SECTOR_ERASE_def by blast
  have addr: "cmd_addr [b1, b2, b3] = unat off"
    using cmd_addr_in_range [OF assms(4), of BLS_CODE_SECTOR_ERASE] by (simp add: cmd)
  have "chip_instr [0xD8, b1, b2, b3] ?c1 =
      (bd_chip b)\<lparr>nc_busy := nc_terase (bd_chip b), nc_wel := False,
          nc_mem := fill_ff (unat off div nc_sector (bd_chip b) * nc_sector (bd_chip b))
                      (nc_sector (bd_chip b)) (nc_mem (bd_chip b))\<rparr>"
    using chip_instr_erase [of ?c1 b1 b2 b3] assms(2) by (simp add: addr)
  then show ?thesis
    using assms(1-3) write_enable_ok [of "b\<lparr>bd_chip := ?c0\<rparr>"]
    by (simp add: wr_status chip_idle_awake bus_simps cmd chip_instr_def)
qed

end

text \<open>
  The sectors the erase loop visits. The count the driver computes is that of the pages
  \<open>offset\<close> to \<open>offset + len - 1\<close>, except that the last page is left out when it is entered
  by its first byte only.
\<close>

lemma unat_erase_base: "unat (erase_base off) = unat off div 4096 * 4096"
proof -
  have "unat off div 4096 * 4096 < 4294967296"
    using order_le_less_trans [OF div_times_less_eq_dividend unat_lt_u32, of off 4096] .
  then have "unat (word_of_nat (unat off div 4096 * 4096) :: u32) = unat off div 4096 * 4096"
    by (rule unat_of_nat_u32)
  moreover have "erase_base off = word_of_nat (unat off div 4096 * 4096)"
    by (simp add: erase_base_def BLS_ERASE_SECTOR_SIZE_def unat_div word_unat_eq_iff unat_of_nat
        unat_word_ariths take_bit_eq_mod mod_simps)
  ultimately show ?thesis by (simp only:)
qed

lemma unat_numsectors:
  assumes "0 < len" "unat off + unat len \<le> ext_flash_size"
  shows "unat (erase_numsectors off len) =
    (unat off + unat len - 1) div 4096 - unat off div 4096
      + (if (unat off + unat len - 1) mod 4096 = 0 then 0 else 1)"
proof -
  define e where "e = unat off + unat len - 1"
  have pos: "0 < unat len" using assms(1) by (simp add: word_less_nat_alt)
  have base: "unat off div 4096 * 4096 \<le> unat off" by simp
  have e: "e < ext_flash_size" "unat off \<le> e" using assms(2) pos by (simp_all add: e_def)
  have "off + len - 1 = word_of_nat e"
    using pos by (simp add: e_def of_nat_diff)
  then have end_unat: "unat (off + len - 1) = e"
    using e(1) by (simp add: unat_of_nat take_bit_eq_mod ext_flash_size_def)
  have "off + len - 1 - erase_base off = word_of_nat (e - unat off div 4096 * 4096)"
  proof -
    have "erase_base off = word_of_nat (unat off div 4096 * 4096)"
      by (simp only: unat_erase_base [symmetric]) simp
    moreover have "off + len - 1 = word_of_nat e" by (simp only: end_unat [symmetric]) simp
    ultimately show ?thesis
      using base e(2) by (simp only: of_nat_diff [OF order_trans [OF base e(2)]])
  qed
  then have "off + len - 1 - erase_base off + 4096 - 1 = word_of_nat (e - unat off div 4096 * 4096 + 4095)"
    by (simp add: algebra_simps)
  then have "erase_numsectors off len = word_of_nat (e - unat off div 4096 * 4096 + 4095) div 4096"
    by (simp only: erase_numsectors_def BLS_ERASE_SECTOR_SIZE_def Let_def)
  moreover have "unat (word_of_nat (e - unat off div 4096 * 4096 + 4095) :: u32)
      = e - unat off div 4096 * 4096 + 4095"
    using e(1) by (simp only: unat_of_nat take_bit_eq_mod) (simp add: ext_flash_size_def)
  ultimately have "unat (erase_numsectors off len) = (e - unat off div 4096 * 4096 + 4095) div 4096"
    by (simp only: unat_div) simp
  moreover have "(e - unat off div 4096 * 4096 + 4095) div 4096 =
      e div 4096 - unat off div 4096 + (if e mod 4096 = 0 then 0 else 1)"
  proof -
    define q where "q = unat off div 4096"
    have q: "q * 4096 \<le> e" using base e(2) by (simp add: q_def)
    define d where "d = e - q * 4096"
    then have "e = d + q * 4096" using q by simp
    then have "e div 4096 - q = d div 4096" "e mod 4096 = d mod 4096" by simp_all
    then show ?thesis
      using div_round_up [of 4096 d] by (simp only: q_def [symmetric] d_def [symmetric]) simp
  qed
  ultimately show ?thesis by (simp add: e_def)
qed

context nor_driver begin

lemma erase_loop_ok:
  assumes "nor_open s b" "unat off + 4096 * n \<le> ext_flash_size"
  shows "\<exists>b'. erase_loop B board_ti n off b = Some (True, b') \<and> nor_open s b' \<and>
    nor_xmem b' = erase_sectors s (unat off) n (nor_xmem b) \<and> nor_rest b' = nor_rest b"
  using assms
proof (induction n arbitrary: off b)
  case (Suc n)
  define b1 where "b1 = b\<lparr>bd_chip := (bd_chip b)\<lparr>nc_busy := nc_terase (bd_chip b), nc_wel := False,
          nc_mem := fill_ff (unat off div s * s) s (nc_mem (bd_chip b))\<rparr>\<rparr>"
  have step: "erase_loop B board_ti (Suc n) off b = erase_loop B board_ti n (off + BLS_ERASE_SECTOR_SIZE) b1"
    using erase_step [of b off n] Suc.prems by (simp add: b1_def nor_open_def)
  have off: "unat (off + BLS_ERASE_SECTOR_SIZE) = unat off + 4096"
    using unat_off_add [of off 4096] Suc.prems(2) by (simp add: BLS_ERASE_SECTOR_SIZE_def)
  have b1: "nor_open s b1" "nor_xmem b1 = fill_ff (unat off div s * s) s (nor_xmem b)"
      "nor_rest b1 = nor_rest b"
    using Suc.prems(1) by (simp_all add: b1_def nor_state_defs)
  from Suc.IH [of b1 "off + BLS_ERASE_SECTOR_SIZE"] b1 Suc.prems(2) show ?case
    unfolding step by (simp add: off)
qed simp

lemma erase_ok:
  assumes "nor_open s b" "unat off mod 4096 = 0" "unat len = 4096 * n" "unat off + unat len \<le> ext_flash_size"
  shows "\<exists>b'. ext_flash_erase B board_ti off len b = Some (True, b') \<and> nor_open s b' \<and>
    nor_xmem b' = erase_sectors s (unat off) n (nor_xmem b) \<and> nor_rest b' = nor_rest b"
proof -
  obtain p where p: "unat off = p * 4096" using assms(2) by (metis mod_0_imp_dvd dvd_div_mult_self)
  then have base: "erase_base off = off"
    by (simp add: word_unat_eq_iff unat_erase_base)
  show ?thesis
  proof (cases "n = 0")
    case True
    then have "len = 0" using assms(3) by (simp add: unat_eq_zero)
    have "erase_numsectors off 0 = 0"
    proof -
      have "off - 1 - off + 4096 - 1 = (4094 :: u32)" by (simp add: algebra_simps)
      then show ?thesis
        by (simp add: erase_numsectors_def base BLS_ERASE_SECTOR_SIZE_def Let_def)
    qed
    with \<open>len = 0\<close> assms(1) True show ?thesis by (simp add: ext_flash_erase_def)
  next
    case False
    then have "0 < len" using assms(3) by (simp add: word_less_nat_alt)
    moreover obtain m where n: "n = Suc m" using False by (cases n) auto
    then have "p * 4096 + 4096 * n - 1 = 4095 + (p + m) * 4096" by simp
    then have "(p * 4096 + 4096 * n - 1) div 4096 = p + m" "(p * 4096 + 4096 * n - 1) mod 4096 = 4095"
      by (simp_all only: div_mult_self1 mod_mult_self1) simp_all
    ultimately have "unat (erase_numsectors off len) = n"
      using unat_numsectors [of len off] assms(3,4) by (simp add: p n)
    then show ?thesis
      using erase_loop_ok [OF assms(1), of off n] assms(3,4) by (simp add: ext_flash_erase_def base)
  qed
qed

end

section \<open>The contracts hold\<close>

interpretation node_chip: ext_flash "node_flash board_ti" s "nor_closed s" "nor_open s" "nor_idle s"
    nor_xmem bd_iflash for s
proof
  fix d and a len :: u32 and n and bs
  show "nor_idle s d \<Longrightarrow> nor_open s d" by (simp add: nor_idle_def)
  show "nor_closed s d \<Longrightarrow> \<exists>d'. ef_open (node_flash board_ti) d = Some (True, d') \<and> nor_idle s d' \<and>
      nor_xmem d' = nor_xmem d \<and> bd_iflash d' = bd_iflash d"
    using node_driver.open_ok [of d]
    by (simp add: node_flash_def nor_state_defs bus_ready_def awake_def parked_def)
  show "nor_open s d \<Longrightarrow> \<exists>d'. ef_close (node_flash board_ti) d = Some d' \<and> nor_closed s d' \<and>
      nor_xmem d' = nor_xmem d \<and> bd_iflash d' = bd_iflash d"
    using node_driver.close_ok [of d]
    by (simp add: node_flash_def nor_state_defs awake_def parked_def)
  show "\<exists>d'. ef_read (node_flash board_ti) a n d = Some ((True, read_mem (nor_xmem d) (unat a) n), d') \<and>
      nor_idle s d' \<and> nor_xmem d' = nor_xmem d \<and> bd_iflash d' = bd_iflash d"
    if "nor_idle s d" "unat a < ext_flash_size" "unat a + n \<le> ext_flash_size"
    using that read_ok [of d a n] by (simp add: node_flash_def nor_state_defs)
  show "nor_idle s d \<Longrightarrow> \<exists>bs d'. ef_read (node_flash board_ti) a n d = Some ((True, bs), d') \<and> length bs = n \<and>
      nor_idle s d' \<and> nor_xmem d' = nor_xmem d \<and> bd_iflash d' = bd_iflash d"
    using read_any [of d a n] by (auto simp: node_flash_def nor_state_defs)
  show "\<exists>d'. ef_write (node_flash board_ti) a bs d = Some (True, d') \<and> nor_open s d' \<and>
      nor_xmem d' = and_bytes (unat a) bs (nor_xmem d) \<and> bd_iflash d' = bd_iflash d"
    if "nor_open s d" "unat a + length bs \<le> ext_flash_size"
    using node_driver.write_ok [OF that] by (auto simp: node_flash_def nor_rest_def)
  show "\<exists>d'. ef_erase (node_flash board_ti) a len d = Some (True, d') \<and> nor_open s d' \<and>
      nor_xmem d' = erase_sectors s (unat a) n (nor_xmem d) \<and> bd_iflash d' = bd_iflash d"
    if "nor_open s d" "unat a mod 4096 = 0" "unat len = 4096 * n" "unat a + unat len \<le> ext_flash_size"
    using node_driver.erase_ok [OF that] by (auto simp: node_flash_def nor_rest_def)
qed

lemmas boot_flash_defs = boot_flash_def bl_ext_flash_open_def bl_ext_flash_close_def
  bl_ext_flash_read_def bl_ext_flash_write_def bl_ext_flash_erase_def

interpretation boot_chip: ext_flash "boot_flash board_ti" s "nor_closed s" "nor_open s" "nor_idle s"
    nor_xmem bd_iflash for s
proof
  fix d and a len :: u32 and n and bs
  show "nor_idle s d \<Longrightarrow> nor_open s d" by (simp add: nor_idle_def)
  show "nor_closed s d \<Longrightarrow> \<exists>d'. ef_open (boot_flash board_ti) d = Some (True, d') \<and> nor_idle s d' \<and>
      nor_xmem d' = nor_xmem d \<and> bd_iflash d' = bd_iflash d"
    using boot_driver.open_ok [of d]
    by (simp add: boot_flash_defs nor_state_defs bus_ready_def awake_def parked_def)
  show "nor_open s d \<Longrightarrow> \<exists>d'. ef_close (boot_flash board_ti) d = Some d' \<and> nor_closed s d' \<and>
      nor_xmem d' = nor_xmem d \<and> bd_iflash d' = bd_iflash d"
    using boot_driver.close_ok [of d]
    by (simp add: boot_flash_defs nor_state_defs awake_def parked_def)
  show "\<exists>d'. ef_read (boot_flash board_ti) a n d = Some ((True, read_mem (nor_xmem d) (unat a) n), d') \<and>
      nor_idle s d' \<and> nor_xmem d' = nor_xmem d \<and> bd_iflash d' = bd_iflash d"
    if "nor_idle s d" "unat a < ext_flash_size" "unat a + n \<le> ext_flash_size"
    using that read_ok [of d a n] by (simp add: boot_flash_defs nor_state_defs)
  show "nor_idle s d \<Longrightarrow> \<exists>bs d'. ef_read (boot_flash board_ti) a n d = Some ((True, bs), d') \<and> length bs = n \<and>
      nor_idle s d' \<and> nor_xmem d' = nor_xmem d \<and> bd_iflash d' = bd_iflash d"
    using read_any [of d a n] by (auto simp: boot_flash_defs nor_state_defs)
  show "\<exists>d'. ef_write (boot_flash board_ti) a bs d = Some (True, d') \<and> nor_open s d' \<and>
      nor_xmem d' = and_bytes (unat a) bs (nor_xmem d) \<and> bd_iflash d' = bd_iflash d"
    if "nor_open s d" "unat a + length bs \<le> ext_flash_size"
    using boot_driver.write_ok [OF that] by (auto simp: boot_flash_defs nor_rest_def)
  show "\<exists>d'. ef_erase (boot_flash board_ti) a len d = Some (True, d') \<and> nor_open s d' \<and>
      nor_xmem d' = erase_sectors s (unat a) n (nor_xmem d) \<and> bd_iflash d' = bd_iflash d"
    if "nor_open s d" "unat a mod 4096 = 0" "unat len = 4096 * n" "unat a + unat len \<le> ext_flash_size"
    using boot_driver.erase_ok [OF that] by (auto simp: boot_flash_defs nor_rest_def)
qed

interpretation board_iflash: int_flash board_ti "nor_closed s" bd_iflash nor_xmem for s
  by unfold_locales (simp_all add: nor_closed_def nor_xmem_def)

end
