(* ===== verification/Crc16.thy ===== *)
theory Crc16
  imports Prelude
begin

text \<open>
  The CRC that guards a firmware image. The repository holds three copies of
  \<open>crc16()\<close>: in the node firmware (\<open>ota-main.c\<close>), in the bootloader
  (\<open>ota-bootloader.c\<close>) and in the host tool that makes the image metadata
  (\<open>generate-metadata.c\<close>). Each is translated on its own; the lemmas show that the
  three agree, that the step is linear over XOR and injective, that an image CRC is the
  CRC-16/XMODEM of the image, and what changes of an image it is bound to detect.
\<close>

section \<open>The three copies\<close>

text \<open>One turn of the \<open>for (cnt = 0; cnt < 8; cnt++, val <<= 1)\<close> loop.\<close>

definition crc16_step :: "u16 \<Rightarrow> u8 \<Rightarrow> u16" where
  "crc16_step crc val =
     (let poly = 0x1021;
          msb = (crc AND 0x8000 \<noteq> 0);
          crc = push_bit 1 crc;
          crc = (if val AND 0x80 \<noteq> 0 then crc OR 0x0001 else crc)
      in if msb then crc XOR poly else crc)"

primrec crc16_loop :: "nat \<Rightarrow> u16 \<Rightarrow> u8 \<Rightarrow> u16" where
  "crc16_loop 0 crc val = crc"
| "crc16_loop (Suc n) crc val = crc16_loop n (crc16_step crc val) (push_bit 1 val)"

definition crc16 :: "u16 \<Rightarrow> u8 \<Rightarrow> u16" where
  "crc16 crc val = crc16_loop 8 crc val"

text \<open>The bootloader's copy.\<close>

primrec bl_crc16_loop :: "nat \<Rightarrow> u16 \<Rightarrow> u8 \<Rightarrow> u16" where
  "bl_crc16_loop 0 crc val = crc"
| "bl_crc16_loop (Suc n) crc val =
     (let poly = 0x1021;
          msb = (crc AND 0x8000 \<noteq> 0);
          crc = push_bit 1 crc;
          crc = (if val AND 0x80 \<noteq> 0 then crc OR 0x0001 else crc);
          crc = (if msb then crc XOR poly else crc)
      in bl_crc16_loop n crc (push_bit 1 val))"

definition bl_crc16 :: "u16 \<Rightarrow> u8 \<Rightarrow> u16" where
  "bl_crc16 crc val = bl_crc16_loop 8 crc val"

text \<open>The copy of the metadata tool.\<close>

primrec gm_crc16_loop :: "nat \<Rightarrow> u16 \<Rightarrow> u8 \<Rightarrow> u16" where
  "gm_crc16_loop 0 crc val = crc"
| "gm_crc16_loop (Suc n) crc val =
     (let poly = 0x1021;
          msb = (crc AND 0x8000 \<noteq> 0);
          crc = push_bit 1 crc;
          crc = (if val AND 0x80 \<noteq> 0 then crc OR 0x0001 else crc);
          crc = (if msb then crc XOR poly else crc)
      in gm_crc16_loop n crc (push_bit 1 val))"

definition gm_crc16 :: "u16 \<Rightarrow> u8 \<Rightarrow> u16" where
  "gm_crc16 crc val = gm_crc16_loop 8 crc val"

lemma bl_crc16_loop_eq: "bl_crc16_loop n crc val = crc16_loop n crc val"
  by (induction n arbitrary: crc val) (simp_all add: crc16_step_def Let_def)

lemma gm_crc16_loop_eq: "gm_crc16_loop n crc val = crc16_loop n crc val"
  by (induction n arbitrary: crc val) (simp_all add: crc16_step_def Let_def)

lemma crc16_copies: "bl_crc16 = crc16" "gm_crc16 = crc16"
  by (simp_all add: fun_eq_iff bl_crc16_def gm_crc16_def crc16_def bl_crc16_loop_eq gm_crc16_loop_eq)

section \<open>Linearity and injectivity\<close>

lemma xor_zero_eq: "a XOR b = 0 \<Longrightarrow> a = (b :: 'a::len word)"
proof -
  assume "a XOR b = 0"
  then have "(a XOR b) XOR b = b" by simp
  then show ?thesis by (simp add: xor.assoc)
qed

lemma and_0x8000: "(crc AND 0x8000 \<noteq> 0) = bit (crc :: u16) 15"
proof -
  have "(0x8000 :: u16) = push_bit 15 1" by simp
  then show ?thesis by (simp only: and_exp_eq_0_iff_not_bit push_bit_of_1 not_not)
qed

lemma and_0x80: "(val AND 0x80 \<noteq> 0) = bit (val :: u8) 7"
proof -
  have "(0x80 :: u8) = push_bit 7 1" by simp
  then show ?thesis by (simp only: and_exp_eq_0_iff_not_bit push_bit_of_1 not_not)
qed

lemma crc16_step_xor:
  "crc16_step crc val =
     push_bit 1 crc XOR (if bit val 7 then 1 else 0) XOR (if bit crc 15 then 0x1021 else 0)"
proof -
  have "push_bit 1 crc OR 1 = push_bit 1 crc XOR (1 :: u16)"
    by (rule bit_word_eqI) (auto simp: bit_simps)
  then show ?thesis
    unfolding crc16_step_def Let_def and_0x8000 and_0x80 by (simp add: xor.assoc)
qed

lemma crc16_step_linear:
  "crc16_step (c XOR c') (v XOR v') = crc16_step c v XOR crc16_step c' v'"
  by (auto simp: crc16_step_xor bit_xor_iff push_bit_xor xor.assoc xor.left_commute)

lemma crc16_loop_linear:
  "crc16_loop n (c XOR c') (v XOR v') = crc16_loop n c v XOR crc16_loop n c' v'"
  by (induction n arbitrary: c c' v v') (simp_all add: crc16_step_linear push_bit_xor)

lemma crc16_linear: "crc16 (c XOR c') (v XOR v') = crc16 c v XOR crc16 c' v'"
  by (simp add: crc16_def crc16_loop_linear)

lemma crc16_step_inject: "crc16_step c v = crc16_step c' v \<Longrightarrow> c = c'"
proof -
  assume "crc16_step c v = crc16_step c' v"
  then have "crc16_step (c XOR c') (v XOR v) = 0"
    unfolding crc16_step_linear by simp
  then have eq: "push_bit 1 (c XOR c') XOR (if bit (c XOR c') 15 then 0x1021 else 0) = 0"
    by (simp add: crc16_step_xor)
  have "\<not> bit (c XOR c') 15"
  proof
    assume "bit (c XOR c') 15"
    with eq have "bit (push_bit 1 (c XOR c') XOR 0x1021 :: u16) 0 = bit (0 :: u16) 0" by simp
    then show False by (simp add: bit_simps)
  qed
  with eq have "push_bit 1 (c XOR c') = 0" by simp
  have "c XOR c' = 0"
  proof (rule bit_word_eqI)
    fix n
    assume "n < LENGTH(16)"
    show "bit (c XOR c') n = bit (0 :: u16) n"
    proof (cases "n = 15")
      case True
      with \<open>\<not> bit (c XOR c') 15\<close> show ?thesis by simp
    next
      case False
      with \<open>n < LENGTH(16)\<close> have "bit (push_bit 1 (c XOR c')) (Suc n) = bit (c XOR c') n"
        by (simp only: bit_push_bit_iff possible_bit_word) simp
      with \<open>push_bit 1 (c XOR c') = 0\<close> show ?thesis by simp
    qed
  qed
  then show "c = c'" by (rule xor_zero_eq)
qed

lemma crc16_loop_inject: "crc16_loop n c v = crc16_loop n c' v \<Longrightarrow> c = c'"
  by (induction n arbitrary: c c' v) (auto dest: crc16_step_inject)

lemma crc16_inject: "crc16 c v = crc16 c' v \<Longrightarrow> c = c'"
  unfolding crc16_def by (rule crc16_loop_inject)

text \<open>Shifting a byte into a register whose upper half is clear only moves bits.\<close>

lemma crc16_step_low:
  assumes "\<not> bit c 15"
  shows "bit (crc16_step c v) i \<longleftrightarrow> i < 16 \<and> (if i = 0 then bit v 7 else bit c (i - 1))"
  using assms
  by (auto simp: crc16_step_xor bit_simps)

lemma crc16_loop_low:
  assumes "\<And>i. 16 - n \<le> i \<Longrightarrow> \<not> bit c i" and "n \<le> 8"
  shows "bit (crc16_loop n c v) i \<longleftrightarrow> i < 16 \<and> (if i < n then bit v (8 - n + i) else bit c (i - n))"
  using assms
proof (induction n arbitrary: c v)
  case 0
  then show ?case using bit_imp_le_length [of c i] by auto
next
  case (Suc n)
  have "\<not> bit c 15" using Suc.prems by simp
  note low = crc16_step_low [OF this, of v]
  have "\<not> bit (crc16_step c v) j" if "16 - n \<le> j" for j
    using Suc.prems that by (auto simp: low)
  then have "bit (crc16_loop (Suc n) c v) i \<longleftrightarrow> i < 16 \<and>
      (if i < n then bit (push_bit 1 v) (8 - n + i) else bit (crc16_step c v) (i - n))"
    using Suc.IH [of "crc16_step c v" "push_bit 1 v"] Suc.prems(2) by simp
  moreover have "7 + i - n = 7" if "\<not> i < n" "i < Suc n" using that by simp
  moreover have "8 - n + i < 8 \<and> 8 - n + i - 1 = 7 + i - n" if "i < n"
    using that Suc.prems(2) by auto
  ultimately show ?case
    using Suc.prems by (auto simp: low Suc_diff_le)
qed

section \<open>The CRC of an image\<close>

text \<open>
  Every verification loop of the code runs \<open>crc16\<close> over the bytes of the image and
  then twice over the byte 0. The reference is CRC-16/XMODEM: polynomial 0x1021, initial
  value 0, each byte XORed into the top of the register before eight shifts.
\<close>

definition crc_bytes :: "u16 \<Rightarrow> bytes \<Rightarrow> u16" where
  "crc_bytes crc bs = foldl crc16 crc bs"

definition image_crc :: "bytes \<Rightarrow> u16" where
  "image_crc bs = crc16 (crc16 (crc_bytes 0 bs) 0) 0"

definition xmodem_shift :: "u16 \<Rightarrow> u16" where
  "xmodem_shift c = push_bit 1 c XOR (if bit c 15 then 0x1021 else 0)"

definition xmodem_byte :: "u16 \<Rightarrow> u8 \<Rightarrow> u16" where
  "xmodem_byte c b = (xmodem_shift ^^ 8) (c XOR push_bit 8 (ucast b))"

lemma crc_bytes_simps [simp]:
  "crc_bytes c [] = c"
  "crc_bytes c (b # bs) = crc_bytes (crc16 c b) bs"
  "crc_bytes c (xs @ ys) = crc_bytes (crc_bytes c xs) ys"
  by (simp_all add: crc_bytes_def)

lemma crc16_0_right: "crc16 c 0 = (xmodem_shift ^^ 8) c"
proof -
  have "crc16_loop n c 0 = (xmodem_shift ^^ n) c" for n
    by (induction n arbitrary: c)
      (simp_all add: crc16_step_xor xmodem_shift_def funpow_swap1 del: funpow.simps(2) add: funpow_Suc_right)
  then show ?thesis by (simp add: crc16_def)
qed

lemma crc16_low:
  assumes "\<And>i. 8 \<le> i \<Longrightarrow> \<not> bit c i"
  shows "crc16 c v = push_bit 8 c XOR ucast v"
proof (rule bit_word_eqI)
  fix n
  assume "n < LENGTH(16)"
  then show "bit (crc16 c v) n = bit (push_bit 8 c XOR ucast v) n"
    using crc16_loop_low [of 8 c v n] assms
    by (auto simp: crc16_def bit_simps dest: bit_imp_le_length)
qed

lemma crc16_0_left: "crc16 0 v = ucast v"
  by (simp add: crc16_low)

lemma crc16_split: "crc16 c v = crc16 c 0 XOR ucast v"
  using crc16_linear [of c 0 0 v] by (simp add: crc16_0_left)

text \<open>Appending two zero bytes to the shifted-in register is the XMODEM register.\<close>

lemma xmodem_byte_step:
  "crc16 (crc16 (crc16 c b) 0) 0 = xmodem_byte (crc16 (crc16 c 0) 0) b"
proof -
  have "\<not> bit (ucast b :: u16) i" if "8 \<le> i" for i
    using that by (auto simp: bit_simps dest: bit_imp_le_length)
  then have b: "crc16 (ucast b) 0 = push_bit 8 (ucast b)"
    by (simp add: crc16_low)
  have "crc16 (crc16 (crc16 c b) 0) 0 = crc16 (crc16 (crc16 c 0 XOR ucast b) 0) 0"
    by (simp only: crc16_split [of c b])
  also have "\<dots> = crc16 (crc16 (crc16 c 0) 0 XOR crc16 (ucast b) 0) 0"
    using crc16_linear [of "crc16 c 0" "ucast b" 0 0] by simp
  also have "\<dots> = xmodem_byte (crc16 (crc16 c 0) 0) b"
    by (simp only: b crc16_0_right [of "_ XOR _"] xmodem_byte_def)
  finally show ?thesis .
qed

lemma crc_bytes_xmodem:
  "crc16 (crc16 (crc_bytes c bs) 0) 0 = foldl xmodem_byte (crc16 (crc16 c 0) 0) bs"
  by (induction bs arbitrary: c) (simp_all add: xmodem_byte_step)

lemma crc16_zero [simp]: "crc16 0 0 = 0"
  by (simp add: crc16_0_left)

section \<open>What the CRC detects\<close>

lemma crc_bytes_inject: "crc_bytes c bs = crc_bytes c' bs \<Longrightarrow> c = c'"
  by (induction bs arbitrary: c c') (auto dest: crc16_inject)

lemma image_crc_suffix:
  assumes "crc_bytes c xs \<noteq> crc_bytes c ys"
  shows "crc16 (crc16 (crc_bytes c (xs @ zs)) 0) 0 \<noteq> crc16 (crc16 (crc_bytes c (ys @ zs)) 0) 0"
  using assms by (auto dest!: crc16_inject crc_bytes_inject)

lemma crc_two_bytes_inject:
  assumes "crc_bytes c [a, b] = crc_bytes c [a', b']"
  shows "a = a' \<and> b = b'"
proof -
  have dec: "crc_bytes c [x, y] = crc16 (crc16 c 0) 0 XOR (push_bit 8 (ucast x) XOR ucast y)" for x y
  proof -
    have "\<not> bit (ucast x :: u16) i" if "8 \<le> i" for i
      using that by (auto simp: bit_simps dest: bit_imp_le_length)
    then have "crc16 (ucast x) y = push_bit 8 (ucast x) XOR ucast y"
      by (rule crc16_low)
    moreover have "crc16 (crc16 c 0 XOR ucast x) (0 XOR y) = crc16 (crc16 c 0) 0 XOR crc16 (ucast x) y"
      by (rule crc16_linear)
    ultimately show ?thesis by (simp add: crc16_split [of c x])
  qed
  have "crc_bytes c [a, b] XOR crc16 (crc16 c 0) 0 = crc_bytes c [a', b'] XOR crc16 (crc16 c 0) 0"
    using assms by simp
  then have eq: "push_bit 8 (ucast a) XOR ucast b = (push_bit 8 (ucast a') XOR ucast b' :: u16)"
    unfolding dec by (simp add: xor.commute [of "crc16 (crc16 c 0) 0"] xor.assoc)
  have "bit a n = bit a' n \<and> bit b n = bit b' n" if "n < 8" for n
  proof -
    have "bit (push_bit 8 (ucast a) XOR ucast b :: u16) i = bit (push_bit 8 (ucast a') XOR ucast b' :: u16) i" for i
      using eq by simp
    from this [of n] this [of "n + 8"] that show ?thesis
      by (auto simp: bit_simps dest: bit_imp_le_length)
  qed
  then show ?thesis by (auto intro!: bit_word_eqI)
qed

end
