(* ===== verification/Ota_Main.thy ===== *)
theory Ota_Main
  imports Ext_Flash_Spec Crc16
begin

text \<open>
  Over-the-air firmware images (\<open>unwired/ota-main.c\<close>): four image slots in the external
  flash (0 the golden image, 1 to 3 downloads), each of 25 pages of 4096 bytes and starting
  with the image metadata, and the running image in the internal flash from page 2. The
  functions take the flash driver \<open>F\<close> (\<open>ext-flash.h\<close>) and the driver library \<open>ti\<close>;
  debug output (\<open>PRINTF\<close>) is left out.
\<close>

section \<open>Metadata\<close>

text \<open>
  \<open>OTAMetadata_t\<close>; the compiler pads the structure to 16 bytes and the code reads, writes
  and compares all of them, so the two tail bytes are a field.
\<close>

record ota_metadata =
  om_crc :: u16
  om_crc_shadow :: u16
  om_size :: u32
  om_uuid :: u32
  om_version :: u16
  om_pad :: u16

definition OTA_METADATA_LENGTH :: nat where "OTA_METADATA_LENGTH = 16"
definition OTA_METADATA_SPACE :: u32 where "OTA_METADATA_SPACE = 0x100"
definition CURRENT_FIRMWARE :: u32 where "CURRENT_FIRMWARE = 0x2"
definition GOLDEN_IMAGE :: u32 where "GOLDEN_IMAGE = 0x19"
definition FLASH_PAGE_SIZE :: u32 where "FLASH_PAGE_SIZE = 0x1000"
definition ota_images :: "u8 list" where "ota_images = [0x32, 0x4B, 0x64]"

lemmas ota_consts = OTA_METADATA_LENGTH_def OTA_METADATA_SPACE_def CURRENT_FIRMWARE_def
  GOLDEN_IMAGE_def FLASH_PAGE_SIZE_def ota_images_def

definition bytes_of_metadata :: "ota_metadata \<Rightarrow> bytes" where
  "bytes_of_metadata m =
     map (byte_of (om_crc m)) [0, 1] @ map (byte_of (om_crc_shadow m)) [0, 1] @
     map (byte_of (om_size m)) [0, 1, 2, 3] @ map (byte_of (om_uuid m)) [0, 1, 2, 3] @
     map (byte_of (om_version m)) [0, 1] @ map (byte_of (om_pad m)) [0, 1]"

definition metadata_of_bytes :: "bytes \<Rightarrow> ota_metadata" where
  "metadata_of_bytes b =
     \<lparr>om_crc = u16_of_bytes (b ! 0) (b ! 1), om_crc_shadow = u16_of_bytes (b ! 2) (b ! 3),
      om_size = u32_of_bytes (b ! 4) (b ! 5) (b ! 6) (b ! 7),
      om_uuid = u32_of_bytes (b ! 8) (b ! 9) (b ! 10) (b ! 11),
      om_version = u16_of_bytes (b ! 12) (b ! 13), om_pad = u16_of_bytes (b ! 14) (b ! 15)\<rparr>"

lemma length_bytes_of_metadata [simp]: "length (bytes_of_metadata m) = OTA_METADATA_LENGTH"
  by (simp add: bytes_of_metadata_def OTA_METADATA_LENGTH_def)

lemma metadata_of_bytes_of_metadata [simp]: "metadata_of_bytes (bytes_of_metadata m) = m"
  by (simp add: metadata_of_bytes_def bytes_of_metadata_def bytes_simps)

lemma nth_16:
  "length b = 16 \<Longrightarrow>
     b = [b ! 0, b ! 1, b ! 2, b ! 3, b ! 4, b ! 5, b ! 6, b ! 7, b ! 8, b ! 9, b ! 10, b ! 11,
          b ! 12, b ! 13, b ! 14, b ! 15]"
  by (rule nth_equalityI) (auto simp: less_Suc_eq numeral_eq_Suc)

lemma bytes_of_metadata_of_bytes:
  "length b = OTA_METADATA_LENGTH \<Longrightarrow> bytes_of_metadata (metadata_of_bytes b) = b"
  by (simp add: OTA_METADATA_LENGTH_def metadata_of_bytes_def bytes_of_metadata_def bytes_simps)
    (rule nth_16 [symmetric, unfolded One_nat_def], simp)

section \<open>Slots\<close>

text \<open>
  The page of a slot: \<open>ota_images[slot - 1]\<close>, or the golden image for slot 0. A slot above 3
  reads past the table: undefined.
\<close>

definition slot_page :: "u8 \<Rightarrow> u32 option" where
  "slot_page slot =
     (if slot \<noteq> 0 then
        (if unat slot - 1 < length ota_images then Some (ucast (ota_images ! (unat slot - 1))) else None)
      else Some GOLDEN_IMAGE)"

definition FlashRead :: "'d ti \<Rightarrow> u32 \<Rightarrow> nat \<Rightarrow> 'd \<Rightarrow> (bytes \<times> 'd) option" where
  "FlashRead ti addr count d = mem_copy_loop ti addr count d"

definition watchdog_periodic :: "'d ti \<Rightarrow> 'd \<Rightarrow> 'd option" where
  "watchdog_periodic ti d = ti_do ti WatchdogReload d"

text \<open>\<open>while (f()) ;\<close> for a function that returns a status only.\<close>

definition while_nonzero :: "('d \<Rightarrow> (int \<times> 'd) option) \<Rightarrow> 'd \<Rightarrow> 'd option" where
  "while_nonzero f d = map_option snd (retry (\<lambda>d. map_option (\<lambda>(r, d). ((r, ()), d)) (f d)) d)"

definition get_current_metadata :: "'d ti \<Rightarrow> 'd \<Rightarrow> ((int \<times> ota_metadata) \<times> 'd) option" where
  "get_current_metadata ti d = do {
     (b, d) \<leftarrow> FlashRead ti (push_bit 12 CURRENT_FIRMWARE) OTA_METADATA_LENGTH d;
     Some ((0, metadata_of_bytes b), d) }"

text \<open>\<open>old\<close> is what the caller's structure held; a failing read overwrites a prefix of it.\<close>

definition get_ota_slot_metadata ::
  "'d ext_flash_h \<Rightarrow> u8 \<Rightarrow> ota_metadata \<Rightarrow> 'd \<Rightarrow> ((int \<times> ota_metadata) \<times> 'd) option" where
  "get_ota_slot_metadata F slot old d = do {
     page \<leftarrow> slot_page slot;
     let ota_image_address = push_bit 12 page;
     (acc, d) \<leftarrow> ef_open F d;
     if \<not> acc then do { d \<leftarrow> ef_close F d; Some ((- 1, old), d) }
     else do {
       ((acc, b), d) \<leftarrow> ef_read F ota_image_address OTA_METADATA_LENGTH d;
       let m = metadata_of_bytes (b @ drop (length b) (bytes_of_metadata old));
       if \<not> acc then do { d \<leftarrow> ef_close F d; Some ((- 1, m), d) }
       else do { d \<leftarrow> ef_close F d; Some ((0, m), d) } } }"

definition overwrite_ota_slot_metadata ::
  "'d ext_flash_h \<Rightarrow> u8 \<Rightarrow> ota_metadata \<Rightarrow> 'd \<Rightarrow> (int \<times> 'd) option" where
  "overwrite_ota_slot_metadata F slot m d = do {
     page \<leftarrow> slot_page slot;
     let ota_image_address = push_bit 12 page;
     (acc, d) \<leftarrow> ef_open F d;
     if \<not> acc then do { d \<leftarrow> ef_close F d; Some (- 1, d) }
     else do {
       (acc, d) \<leftarrow> ef_erase F ota_image_address FLASH_PAGE_SIZE d;
       if \<not> acc then do { d \<leftarrow> ef_close F d; Some (- 1, d) }
       else do { d \<leftarrow> ef_close F d; Some (0, d) } } }"

section \<open>Storing, erasing and copying images\<close>

definition store_firmware_data ::
  "'d ext_flash_h \<Rightarrow> 'd ti \<Rightarrow> u32 \<Rightarrow> bytes \<Rightarrow> 'd \<Rightarrow> (int \<times> 'd) option" where
  "store_firmware_data F ti ext_address data d = do {
     (acc, d) \<leftarrow> ef_open F d;
     if \<not> acc then do { d \<leftarrow> ef_close F d; Some (- 1, d) }
     else do {
       (acc, d) \<leftarrow> ef_write F ext_address data d;
       d \<leftarrow> watchdog_periodic ti d;
       if \<not> acc then do { d \<leftarrow> ef_close F d; Some (- 1, d) }
       else do { d \<leftarrow> ef_close F d; Some (0, d) } } }"

definition erase_extflash_page :: "'d ext_flash_h \<Rightarrow> u32 \<Rightarrow> 'd \<Rightarrow> (int \<times> 'd) option" where
  "erase_extflash_page F ext_address d = do {
     (acc, d) \<leftarrow> ef_open F d;
     if \<not> acc then do { d \<leftarrow> ef_close F d; Some (- 1, d) }
     else do {
       (acc, d) \<leftarrow> ef_erase F ext_address FLASH_PAGE_SIZE d;
       if \<not> acc then do { d \<leftarrow> ef_close F d; Some (- 1, d) }
       else do { d \<leftarrow> ef_close F d; Some (0, d) } } }"

definition erase_ota_image :: "'d ext_flash_h \<Rightarrow> 'd ti \<Rightarrow> u8 \<Rightarrow> 'd \<Rightarrow> (int \<times> 'd) option" where
  "erase_ota_image F ti slot d = do {
     base \<leftarrow> slot_page slot;
     d \<leftarrow> for_each (\<lambda>page d. do {
            d \<leftarrow> while_nonzero (erase_extflash_page F (push_bit 12 (base + of_nat page))) d;
            watchdog_periodic ti d }) [0..<25] d;
     Some (0, d) }"

definition backup_chunk :: "'d ext_flash_h \<Rightarrow> 'd ti \<Rightarrow> nat \<Rightarrow> nat \<Rightarrow> 'd \<Rightarrow> 'd option" where
  "backup_chunk F ti page chunk d = do {
     let int_flash_address = push_bit 12 (CURRENT_FIRMWARE + of_nat page) + of_nat chunk * 0x100;
     let ext_flash_address = push_bit 12 (GOLDEN_IMAGE + of_nat page) + of_nat chunk * 0x100;
     (firmware_page, d) \<leftarrow> FlashRead ti int_flash_address 0x100 d;
     while_nonzero (store_firmware_data F ti ext_flash_address firmware_page) d }"

text \<open>The \<open>while (chunk < 0x1000)\<close> loop makes 16 steps of 0x100.\<close>

definition backup_page :: "'d ext_flash_h \<Rightarrow> 'd ti \<Rightarrow> nat \<Rightarrow> 'd \<Rightarrow> 'd option" where
  "backup_page F ti page d = do {
     d \<leftarrow> for_each (backup_chunk F ti page) [0..<16] d;
     watchdog_periodic ti d }"

definition backup_golden_image :: "'d ext_flash_h \<Rightarrow> 'd ti \<Rightarrow> 'd \<Rightarrow> (int \<times> 'd) option" where
  "backup_golden_image F ti d = do {
     d \<leftarrow> while_nonzero (erase_ota_image F ti 0) d;
     d \<leftarrow> for_each (backup_page F ti) [0..<25] d;
     Some (0, d) }"

definition update_firmware_page ::
  "'d ext_flash_h \<Rightarrow> 'd ti \<Rightarrow> u32 \<Rightarrow> u32 \<Rightarrow> 'd \<Rightarrow> (int \<times> 'd) option" where
  "update_firmware_page F ti source_page destination_page d = do {
     d \<leftarrow> ti_wait ti (FlashSectorErase destination_page) (\<lambda>r. r = 0) d;
     (acc, d) \<leftarrow> ef_open F d;
     if \<not> acc then do { d \<leftarrow> ef_close F d; Some (- 1, d) }
     else do {
       ((acc, page_data), d) \<leftarrow> ef_read F source_page (unat FLASH_PAGE_SIZE) d;
       if \<not> acc then do { d \<leftarrow> ef_close F d; Some (- 1, d) }
       else do {
         d \<leftarrow> ef_close F d;
         d \<leftarrow> ti_wait ti (FlashProgram page_data destination_page) (\<lambda>r. r = 0) d;
         Some (0, d) } } }"

definition update_firmware :: "'d ext_flash_h \<Rightarrow> 'd ti \<Rightarrow> u8 \<Rightarrow> 'd \<Rightarrow> (int \<times> 'd) option" where
  "update_firmware F ti slot d = do {
     page \<leftarrow> slot_page slot;
     let ota_image_address = push_bit 12 page;
     d \<leftarrow> for_each (\<lambda>sector_num. while_nonzero
            (update_firmware_page F ti (ota_image_address + push_bit 12 (of_nat sector_num))
               (push_bit 12 (of_nat sector_num + CURRENT_FIRMWARE)))) [0..<25] d;
     Some (0, d) }"

section \<open>Verification\<close>

text \<open>
  The CRC loops \<open>while (address < end_address)\<close>, in \<open>uint32_t\<close> arithmetic: an end address
  above 0xFFFFFFFC is never reached. \<open>crcf\<close> is the copy of \<open>crc16\<close> the loop is compiled with.
\<close>

partial_function (option) int_crc_with ::
  "(u16 \<Rightarrow> u8 \<Rightarrow> u16) \<Rightarrow> 'd ti \<Rightarrow> u32 \<Rightarrow> u32 \<Rightarrow> u16 \<Rightarrow> 'd \<Rightarrow> (u16 \<times> 'd) option" where
  "int_crc_with crcf ti addr end_addr crc d =
     (if addr < end_addr then do {
        (w, d) \<leftarrow> FlashRead ti addr 4 d;
        int_crc_with crcf ti (addr + 4) end_addr (foldl crcf crc w) d }
      else Some (crc, d))"

definition int_crc_loop :: "'d ti \<Rightarrow> u32 \<Rightarrow> u32 \<Rightarrow> u16 \<Rightarrow> 'd \<Rightarrow> (u16 \<times> 'd) option" where
  "int_crc_loop = int_crc_with crc16"

definition verify_current_firmware ::
  "'d ti \<Rightarrow> ota_metadata \<Rightarrow> 'd \<Rightarrow> ((int \<times> ota_metadata) \<times> 'd) option" where
  "verify_current_firmware ti m d = do {
     let firmware_address = 0x2000 + OTA_METADATA_SPACE;
     let firmware_end_address = firmware_address + om_size m;
     (imageCRC, d) \<leftarrow> int_crc_loop ti firmware_address firmware_end_address 0 d;
     let imageCRC = crc16 (crc16 imageCRC 0) 0;
     let m = m\<lparr>om_crc_shadow := imageCRC\<rparr>;
     d \<leftarrow> ti_wait ti (FlashProgram (bytes_of_metadata m) (push_bit 12 CURRENT_FIRMWARE)) (\<lambda>r. r = 0) d;
     Some ((0, m), d) }"

definition CORRECT_CRC :: int where "CORRECT_CRC = 0"
definition NON_READ_FLASH :: int where "NON_READ_FLASH = - 1"
definition NON_CORRECT_CRC :: int where "NON_CORRECT_CRC = - 2"
definition VERIFY_SLOT_OK :: int where "VERIFY_SLOT_OK = 0"
definition VERIFY_SLOT_CRC_ERROR :: int where "VERIFY_SLOT_CRC_ERROR = - 2"
definition VERIFY_SLOT_SPI_ERROR :: int where "VERIFY_SLOT_SPI_ERROR = - 1"

text \<open>\<open>None\<close> in the result: a read failed, and the device has been closed.\<close>

partial_function (option) slot_crc_with ::
  "(u16 \<Rightarrow> u8 \<Rightarrow> u16) \<Rightarrow> 'd ext_flash_h \<Rightarrow> u32 \<Rightarrow> u32 \<Rightarrow> u16 \<Rightarrow> 'd \<Rightarrow> (u16 option \<times> 'd) option" where
  "slot_crc_with crcf F addr end_addr crc d =
     (if addr < end_addr then do {
        ((acc, w), d) \<leftarrow> ef_read F addr 4 d;
        if \<not> acc then do { d \<leftarrow> ef_close F d; Some (None, d) }
        else slot_crc_with crcf F (addr + 4) end_addr (foldl crcf crc w) d }
      else Some (Some crc, d))"

definition slot_crc_loop ::
  "'d ext_flash_h \<Rightarrow> u32 \<Rightarrow> u32 \<Rightarrow> u16 \<Rightarrow> 'd \<Rightarrow> (u16 option \<times> 'd) option" where
  "slot_crc_loop = slot_crc_with crc16"

lemma int_crc_loop_simps:
  "int_crc_loop ti addr end_addr crc d =
     (if addr < end_addr then do {
        (w, d) \<leftarrow> FlashRead ti addr 4 d;
        int_crc_loop ti (addr + 4) end_addr (foldl crc16 crc w) d }
      else Some (crc, d))"
  unfolding int_crc_loop_def by (rule int_crc_with.simps)

lemma slot_crc_loop_simps:
  "slot_crc_loop F addr end_addr crc d =
     (if addr < end_addr then do {
        ((acc, w), d) \<leftarrow> ef_read F addr 4 d;
        if \<not> acc then do { d \<leftarrow> ef_close F d; Some (None, d) }
        else slot_crc_loop F (addr + 4) end_addr (foldl crc16 crc w) d }
      else Some (Some crc, d))"
  unfolding slot_crc_loop_def by (rule slot_crc_with.simps)

text \<open>\<open>junk\<close> is the uninitialised \<open>ota_metadata\<close> on the stack.\<close>

definition verify_ota_slot :: "'d ext_flash_h \<Rightarrow> ota_metadata \<Rightarrow> u8 \<Rightarrow> 'd \<Rightarrow> (int \<times> 'd) option" where
  "verify_ota_slot F junk slot d = do {
     page \<leftarrow> slot_page slot;
     let ota_image_address = push_bit 12 page;
     ((_, m), d) \<leftarrow> get_ota_slot_metadata F slot junk d;
     let ota_image_address = ota_image_address + OTA_METADATA_SPACE;
     let ota_image_end_address = ota_image_address + om_size m;
     (acc, d) \<leftarrow> ef_open F d;
     if \<not> acc then do { d \<leftarrow> ef_close F d; Some (VERIFY_SLOT_SPI_ERROR, d) }
     else do {
       (res, d) \<leftarrow> slot_crc_loop F ota_image_address ota_image_end_address 0 d;
       case res of
         None \<Rightarrow> Some (VERIFY_SLOT_SPI_ERROR, d)
       | Some imageCRC \<Rightarrow> do {
           let imageCRC = crc16 (crc16 imageCRC 0) 0;
           d \<leftarrow> ef_close F d;
           if om_crc_shadow m \<noteq> imageCRC then Some (VERIFY_SLOT_CRC_ERROR, d)
           else Some (VERIFY_SLOT_OK, d) } } }"

definition spi_test :: "'d ext_flash_h \<Rightarrow> ota_metadata \<Rightarrow> 'd \<Rightarrow> (u8 \<times> 'd) option" where
  "spi_test F junk d = do {
     (status, d) \<leftarrow> verify_ota_slot F junk 1 d;
     if status = - 1 then Some (0x00, d) else Some (0x01, d) }"

section \<open>Choosing a slot\<close>

definition validate_ota_metadata :: "ota_metadata \<Rightarrow> bool" where
  "validate_ota_metadata m =
     (let erased_slot = list_all (\<lambda>b. b = 0xff) (bytes_of_metadata m)
      in if erased_slot then False else om_crc m = om_crc_shadow m)"

text \<open>\<open>while (get_ota_slot_metadata(slot, &m)) ;\<close>\<close>

definition slot_metadata_retry ::
  "'d ext_flash_h \<Rightarrow> u8 \<Rightarrow> ota_metadata \<Rightarrow> 'd \<Rightarrow> (ota_metadata \<times> 'd) option" where
  "slot_metadata_retry F slot junk d =
     map_option (\<lambda>(m, (_, d)). (m, d))
       (retry (\<lambda>(m, d). map_option (\<lambda>((r, m), d). ((r, m), (m, d))) (get_ota_slot_metadata F slot m d))
          (junk, d))"

fun find_matching_loop ::
  "'d ext_flash_h \<Rightarrow> ota_metadata \<Rightarrow> u16 \<Rightarrow> u8 list \<Rightarrow> 'd \<Rightarrow> (int \<times> 'd) option" where
  "find_matching_loop F junk version [] d = Some (- 1, d)"
| "find_matching_loop F junk version (slot # slots) d = do {
     (m, d) \<leftarrow> slot_metadata_retry F slot junk d;
     if validate_ota_metadata m = False then find_matching_loop F junk version slots d
     else if om_version m = version then Some (uint slot, d)
     else find_matching_loop F junk version slots d }"

definition find_matching_ota_slot ::
  "'d ext_flash_h \<Rightarrow> ota_metadata \<Rightarrow> u16 \<Rightarrow> 'd \<Rightarrow> (int \<times> 'd) option" where
  "find_matching_ota_slot F junk version d = find_matching_loop F junk version [1, 2, 3] d"

text \<open>The accumulator of the next two loops: slot found so far and its version.\<close>

fun find_oldest_loop ::
  "'d ext_flash_h \<Rightarrow> ota_metadata \<Rightarrow> u8 list \<Rightarrow> int \<Rightarrow> u16 \<Rightarrow> 'd \<Rightarrow> (int \<times> 'd) option" where
  "find_oldest_loop F junk [] oldest version d = Some (oldest, d)"
| "find_oldest_loop F junk (slot # slots) oldest version d = do {
     (m, d) \<leftarrow> slot_metadata_retry F slot junk d;
     if validate_ota_metadata m = False then find_oldest_loop F junk slots oldest version d
     else if version \<noteq> 0 then
       (if om_version m < version then find_oldest_loop F junk slots (uint slot) (om_version m) d
        else find_oldest_loop F junk slots oldest version d)
     else find_oldest_loop F junk slots (uint slot) (om_version m) d }"

definition find_oldest_ota_image :: "'d ext_flash_h \<Rightarrow> ota_metadata \<Rightarrow> 'd \<Rightarrow> (int \<times> 'd) option" where
  "find_oldest_ota_image F junk d = find_oldest_loop F junk [1, 2, 3] 0 0 d"

fun find_newest_loop ::
  "'d ext_flash_h \<Rightarrow> ota_metadata \<Rightarrow> u8 list \<Rightarrow> int \<Rightarrow> u16 \<Rightarrow> 'd \<Rightarrow> (int \<times> 'd) option" where
  "find_newest_loop F junk [] newest version d = Some (newest, d)"
| "find_newest_loop F junk (slot # slots) newest version d = do {
     (m, d) \<leftarrow> slot_metadata_retry F slot junk d;
     if validate_ota_metadata m = False then find_newest_loop F junk slots newest version d
     else if om_version m > version then find_newest_loop F junk slots (uint slot) (om_version m) d
     else find_newest_loop F junk slots newest version d }"

definition find_newest_ota_image :: "'d ext_flash_h \<Rightarrow> ota_metadata \<Rightarrow> 'd \<Rightarrow> (int \<times> 'd) option" where
  "find_newest_ota_image F junk d = find_newest_loop F junk [1, 2, 3] 0 0 d"

fun find_empty_loop ::
  "'d ext_flash_h \<Rightarrow> ota_metadata \<Rightarrow> u8 list \<Rightarrow> 'd \<Rightarrow> (int \<times> 'd) option" where
  "find_empty_loop F junk [] d = find_oldest_ota_image F junk d"
| "find_empty_loop F junk (slot # slots) d = do {
     (m, d) \<leftarrow> slot_metadata_retry F slot junk d;
     if validate_ota_metadata m = False then Some (uint slot, d)
     else find_empty_loop F junk slots d }"

definition find_empty_ota_slot :: "'d ext_flash_h \<Rightarrow> ota_metadata \<Rightarrow> 'd \<Rightarrow> (int \<times> 'd) option" where
  "find_empty_ota_slot F junk d = find_empty_loop F junk [1, 2, 3] d"

end
