(* ===== verification/Ota_Laws.thy ===== *)
theory Ota_Laws
  imports Ota_Main
begin

text \<open>
  What the functions of \<open>ota-main.c\<close> do to the two flashes, proved once over the interface
  \<open>flash_board\<close> and hence for every driver and board that implement it.
\<close>

section \<open>Where things are\<close>

definition slot_addr :: "u8 \<Rightarrow> nat" where
  "slot_addr slot = 4096 * (if slot = 0 then 0x19 else unat (ota_images ! (unat slot - 1)))"

definition slot_metadata :: "mem \<Rightarrow> u8 \<Rightarrow> ota_metadata" where
  "slot_metadata x slot = metadata_of_bytes (read_mem x (slot_addr slot) OTA_METADATA_LENGTH)"

definition image_bytes :: nat where "image_bytes = 25 * 4096"

definition put_bytes :: "nat \<Rightarrow> bytes \<Rightarrow> mem \<Rightarrow> mem" where
  "put_bytes a bs m = (\<lambda>x. if a \<le> x \<and> x < a + length bs then bs ! (x - a) else m x)"

lemma slot_cases: "slot \<le> (3 :: u8) \<Longrightarrow> slot = 0 \<or> slot = 1 \<or> slot = 2 \<or> slot = 3"
proof -
  assume "slot \<le> 3"
  then have "unat slot \<le> 3" by (simp add: word_le_nat_alt)
  then have "unat slot = unat (0 :: u8) \<or> unat slot = unat (1 :: u8) \<or> unat slot = unat (2 :: u8)
      \<or> unat slot = unat (3 :: u8)" by auto
  then show ?thesis by (simp only: word_unat_eq_iff)
qed

lemma slot_page_ok:
  assumes "slot \<le> (3 :: u8)"
  obtains p where "slot_page slot = Some p" "unat (push_bit 12 p) = slot_addr slot" "unat p * 4096 = slot_addr slot"
    "slot_addr slot + image_bytes \<le> ext_flash_size" "slot_addr slot mod 4096 = 0"
  using slot_cases [OF assms]
  by (auto simp: slot_page_def slot_addr_def ota_consts ext_flash_size_def image_bytes_def)

lemma put_bytes_append:
  "put_bytes a (xs @ ys) m = put_bytes (a + length xs) ys (put_bytes a xs m)"
  by (auto simp: put_bytes_def fun_eq_iff nth_append)

lemma put_bytes_Nil [simp]: "put_bytes a [] m = m"
  by (auto simp: put_bytes_def fun_eq_iff)

lemma read_put_bytes: "read_mem (put_bytes a bs m) a (length bs) = bs"
  by (rule nth_equalityI) (simp_all add: put_bytes_def)

lemma program_erased_page:
  "p mod 4096 = 0 \<Longrightarrow> length bs = 4096 \<Longrightarrow>
     and_bytes p bs (fill_ff (p div 4096 * 4096) 4096 m) = put_bytes p bs m"
  by (auto simp: and_bytes_def fill_ff_def put_bytes_def fun_eq_iff dvd_eq_mod_eq_0 [symmetric])

lemma erase_sectors_Suc:
  "erase_sectors s off (Suc n) m = fill_ff ((off + 4096 * n) div s * s) s (erase_sectors s off n m)"
proof (induction n arbitrary: off m)
  case (Suc n)
  have "erase_sectors s off (Suc (Suc n)) m = erase_sectors s (off + 4096) (Suc n) (fill_ff (off div s * s) s m)"
    by (rule erase_sectors.simps(2))
  also have "\<dots> = fill_ff ((off + 4096 + 4096 * n) div s * s) s (erase_sectors s off (Suc n) m)"
    by (subst Suc) (simp only: erase_sectors.simps(2) [of s off])
  finally show ?case by (simp del: erase_sectors.simps add: add.assoc)
qed simp

text \<open>The erased range: every block that one of the \<open>n\<close> units starts in.\<close>

lemma erase_sectors_at:
  assumes "0 < s"
  shows "erase_sectors s off n m x =
    (if \<exists>i<n. (off + 4096 * i) div s = x div s then 0xFF else m x)"
proof (induction n)
  case (Suc n)
  have block: "q = x div s \<longleftrightarrow> q * s \<le> x \<and> x < q * s + s" for q
    using assms by (metis div_nat_eqI dividend_less_times_div div_times_less_eq_dividend add.commute
        mult.commute mult_Suc_right)
  have "fill_ff (q * s) s m' x = (if q = x div s then 0xFF else m' x)" for q m'
    by (simp only: block fill_ff_def)
  then show ?case
    by (auto simp: erase_sectors_Suc Suc less_Suc_eq simp del: erase_sectors.simps)
qed simp

text \<open>When the blocks consist of whole units, they cover the units, so the whole range is erased.\<close>

lemma erased_block:
  fixes s off x n :: nat
  assumes "0 < s" "4096 dvd s" "off mod 4096 = 0" "off \<le> x" "x < off + 4096 * n"
  shows "\<exists>i<n. (off + 4096 * i) div s = x div s"
proof -
  obtain k where k: "s = 4096 * k" using assms(2) by auto
  obtain p where p: "off = 4096 * p" using assms(3) by auto
  let ?i = "x div 4096 - p"
  have le: "p \<le> x div 4096" using assms(4) by (simp add: p less_eq_div_iff_mult_less_eq mult.commute)
  then have "off + 4096 * ?i = 4096 * (x div 4096)" by (simp add: p flip: distrib_left)
  then have "(off + 4096 * ?i) div s = x div s" by (simp add: k div_mult2_eq)
  moreover have "x div 4096 < p + n"
    using assms(5) by (simp add: p div_less_iff_less_mult distrib_left algebra_simps)
  then have "?i < n" using le by simp
  ultimately show ?thesis by blast
qed

lemma erase_sectors_range:
  assumes "0 < s" "4096 dvd s" "off mod 4096 = 0" "off \<le> x" "x < off + 4096 * n"
  shows "erase_sectors s off n m x = 0xFF"
  using erased_block [OF assms] by (simp add: erase_sectors_at [OF assms(1)] del: erase_sectors.simps)

lemma and_bytes_put:
  "\<forall>x. a \<le> x \<and> x < a + length bs \<longrightarrow> m x = 0xFF \<Longrightarrow> and_bytes a bs m = put_bytes a bs m"
  by (auto simp: and_bytes_def put_bytes_def fun_eq_iff)

lemma while_nonzero_ok: "f d = Some (0, d') \<Longrightarrow> while_nonzero f d = Some d'"
  by (simp add: while_nonzero_def retry_ok)

lemma shift_12: "n < 1048576 \<Longrightarrow> unat (push_bit 12 (word_of_nat n) :: u32) = 4096 * n"
proof -
  assume "n < 1048576"
  moreover have "(push_bit 12 (word_of_nat n) :: u32) = word_of_nat (4096 * n)"
    by (simp add: push_bit_eq_mult)
  ultimately show ?thesis by (simp only: unat_of_nat_u32)
qed

text \<open>
  The number of words the CRC loops read, and the choice of a slot as functions of the
  metadata in the slots.
\<close>

definition crc_words :: "u32 \<Rightarrow> u32 \<Rightarrow> nat" where
  "crc_words addr len = (if addr < addr + len then (unat (addr + len) - unat addr + 3) div 4 else 0)"

fun newest_from :: "(u8 \<Rightarrow> ota_metadata) \<Rightarrow> u8 list \<Rightarrow> int \<Rightarrow> u16 \<Rightarrow> int" where
  "newest_from M [] r v = r"
| "newest_from M (s # ss) r v =
     (if validate_ota_metadata (M s) \<and> om_version (M s) > v then newest_from M ss (uint s) (om_version (M s))
      else newest_from M ss r v)"

fun oldest_from :: "(u8 \<Rightarrow> ota_metadata) \<Rightarrow> u8 list \<Rightarrow> int \<Rightarrow> u16 \<Rightarrow> int" where
  "oldest_from M [] r v = r"
| "oldest_from M (s # ss) r v =
     (if validate_ota_metadata (M s) \<and> (v = 0 \<or> om_version (M s) < v)
      then oldest_from M ss (uint s) (om_version (M s))
      else oldest_from M ss r v)"

fun matching_from :: "(u8 \<Rightarrow> ota_metadata) \<Rightarrow> u16 \<Rightarrow> u8 list \<Rightarrow> int" where
  "matching_from M v [] = - 1"
| "matching_from M v (s # ss) =
     (if validate_ota_metadata (M s) \<and> om_version (M s) = v then uint s else matching_from M v ss)"

fun empty_from :: "(u8 \<Rightarrow> ota_metadata) \<Rightarrow> u8 list \<Rightarrow> int" where
  "empty_from M [] = oldest_from M [1, 2, 3] 0 0"
| "empty_from M (s # ss) = (if validate_ota_metadata (M s) then empty_from M ss else uint s)"

lemma newest_from_spec:
  "(newest_from M ss r v = r \<and> (\<forall>s\<in>set ss. validate_ota_metadata (M s) \<longrightarrow> om_version (M s) \<le> v)) \<or>
   (\<exists>s\<in>set ss. newest_from M ss r v = uint s \<and> validate_ota_metadata (M s) \<and> v < om_version (M s) \<and>
     (\<forall>t\<in>set ss. validate_ota_metadata (M t) \<longrightarrow> om_version (M t) \<le> om_version (M s)))"
proof (induction ss arbitrary: r v)
  case (Cons s ss)
  show ?case
  proof (cases "validate_ota_metadata (M s) \<and> om_version (M s) > v")
    case True
    then show ?thesis using Cons.IH [of "uint s" "om_version (M s)"] by fastforce
  next
    case False
    then show ?thesis using Cons.IH [of r v] by fastforce
  qed
qed simp

lemma oldest_from_spec:
  assumes "\<forall>s\<in>set (s0 # ss). validate_ota_metadata (M s) \<and> om_version (M s) \<noteq> 0"
  shows "\<exists>s\<in>set (s0 # ss). oldest_from M ss (uint s0) (om_version (M s0)) = uint s \<and>
     (\<forall>t\<in>set (s0 # ss). om_version (M s) \<le> om_version (M t))"
  using assms
proof (induction ss arbitrary: s0)
  case (Cons s1 ss)
  let ?s = "if om_version (M s1) < om_version (M s0) then s1 else s0"
  have "oldest_from M (s1 # ss) (uint s0) (om_version (M s0)) = oldest_from M ss (uint ?s) (om_version (M ?s))"
    using Cons.prems by simp
  moreover obtain s where s: "s \<in> set (?s # ss)" "oldest_from M ss (uint ?s) (om_version (M ?s)) = uint s"
    "\<forall>t\<in>set (?s # ss). om_version (M s) \<le> om_version (M t)"
    using Cons.IH [of ?s] Cons.prems by auto
  moreover have "om_version (M ?s) \<le> om_version (M s0)" "om_version (M ?s) \<le> om_version (M s1)"
    by auto
  ultimately show ?case
    by (intro bexI [of _ s]) (auto dest: order_trans split: if_splits)
qed simp

lemma oldest_from_range:
  "\<exists>s\<in>set (s0 # ss). oldest_from M ss (uint s0) v = uint s"
proof (induction ss arbitrary: s0 v)
  case (Cons s1 ss)
  show ?case
    using Cons.IH [of s0 v] Cons.IH [of s1 "om_version (M s1)"] by auto
qed simp

lemma unat_lt_add: "unat (a :: u32) + n < 4294967296 \<Longrightarrow> unat (a + of_nat n) = unat a + n"
proof -
  assume "unat a + n < 4294967296"
  moreover have "a + of_nat n = word_of_nat (unat a + n)" by simp
  ultimately show ?thesis by (simp only: unat_of_nat_u32)
qed

section \<open>Laws\<close>

context flash_board begin

lemma slot_metadata_ok:
  assumes "closed d" "slot \<le> 3"
  shows "\<exists>d'. get_ota_slot_metadata F slot old d = Some ((0, slot_metadata (xmem d) slot), d') \<and>
    closed d' \<and> xmem d' = xmem d \<and> imem d' = imem d"
proof -
  obtain p where p: "slot_page slot = Some p" "unat (push_bit 12 p) = slot_addr slot"
    "slot_addr slot + image_bytes \<le> ext_flash_size"
    using slot_page_ok [OF assms(2)] .
  obtain d1 where d1: "ef_open F d = Some (True, d1)" "idle d1" "xmem d1 = xmem d" "imem d1 = imem d"
    using open_ok [OF assms(1)] by blast
  obtain d2 where d2: "ef_read F (push_bit 12 p) OTA_METADATA_LENGTH d1 =
      Some ((True, read_mem (xmem d) (slot_addr slot) OTA_METADATA_LENGTH), d2)" "idle d2"
      "xmem d2 = xmem d" "imem d2 = imem d"
    using read_ok [OF d1(2), of "push_bit 12 p" OTA_METADATA_LENGTH] p d1
    by (auto simp: image_bytes_def OTA_METADATA_LENGTH_def)
  obtain d3 where "ef_close F d2 = Some d3" "closed d3" "xmem d3 = xmem d" "imem d3 = imem d"
    using close_ok [OF idle_opened [OF d2(2)]] d2 by auto
  then show ?thesis
    by (simp add: get_ota_slot_metadata_def p d1 d2 slot_metadata_def Let_def)
qed

lemma slot_metadata_retry_ok:
  assumes "closed d" "slot \<le> 3"
  shows "\<exists>d'. slot_metadata_retry F slot junk d = Some (slot_metadata (xmem d) slot, d') \<and>
    closed d' \<and> xmem d' = xmem d \<and> imem d' = imem d"
  using slot_metadata_ok [OF assms, of junk]
  by (auto simp: slot_metadata_retry_def retry_ok)

lemma watchdog_ok:
  "closed d \<Longrightarrow> \<exists>d'. watchdog_periodic ti d = Some d' \<and> closed d' \<and> xmem d' = xmem d \<and> imem d' = imem d"
  using quiet [of WatchdogReload] by (force simp: watchdog_periodic_def ti_do_def quiet_call_def)

lemma watchdog_opened_ok:
  "opened d \<Longrightarrow> \<exists>d'. watchdog_periodic ti d = Some d' \<and> opened d' \<and> xmem d' = xmem d \<and> imem d' = imem d"
  using watchdog_opened by (force simp: watchdog_periodic_def ti_do_def)

lemma store_ok:
  assumes "closed d" "unat a + length bs \<le> ext_flash_size"
  shows "\<exists>d'. store_firmware_data F ti a bs d = Some (0, d') \<and> closed d' \<and>
    xmem d' = and_bytes (unat a) bs (xmem d) \<and> imem d' = imem d"
proof -
  obtain d1 where d1: "ef_open F d = Some (True, d1)" "idle d1" "xmem d1 = xmem d" "imem d1 = imem d"
    using open_ok [OF assms(1)] by blast
  obtain d2 where d2: "ef_write F a bs d1 = Some (True, d2)" "opened d2"
      "xmem d2 = and_bytes (unat a) bs (xmem d)" "imem d2 = imem d"
    using write_ok [OF idle_opened [OF d1(2)] assms(2)] d1 by auto
  obtain d3 where d3: "watchdog_periodic ti d2 = Some d3" "opened d3" "xmem d3 = xmem d2" "imem d3 = imem d2"
    using watchdog_opened_ok [OF d2(2)] by blast
  obtain d4 where "ef_close F d3 = Some d4" "closed d4" "xmem d4 = xmem d3" "imem d4 = imem d3"
    using close_ok [OF d3(2)] by blast
  then show ?thesis by (simp add: store_firmware_data_def d1 d2 d3)
qed

lemma erase_page_ok:
  assumes "closed d" "unat a mod 4096 = 0" "unat a + 4096 \<le> ext_flash_size"
  shows "\<exists>d'. erase_extflash_page F a d = Some (0, d') \<and> closed d' \<and>
    xmem d' = fill_ff (unat a div sector * sector) sector (xmem d) \<and> imem d' = imem d"
proof -
  obtain d1 where d1: "ef_open F d = Some (True, d1)" "idle d1" "xmem d1 = xmem d" "imem d1 = imem d"
    using open_ok [OF assms(1)] by blast
  have "\<exists>d'. ef_erase F a FLASH_PAGE_SIZE d1 = Some (True, d') \<and> opened d' \<and>
      xmem d' = erase_sectors sector (unat a) 1 (xmem d1) \<and> imem d' = imem d1"
    using assms(2,3) by (intro erase_ok [OF idle_opened [OF d1(2)]]) (simp_all add: FLASH_PAGE_SIZE_def)
  then obtain d2 where d2: "ef_erase F a FLASH_PAGE_SIZE d1 = Some (True, d2)" "opened d2"
      "xmem d2 = fill_ff (unat a div sector * sector) sector (xmem d)" "imem d2 = imem d"
    using d1 by auto
  obtain d3 where "ef_close F d2 = Some d3" "closed d3" "xmem d3 = xmem d2" "imem d3 = imem d2"
    using close_ok [OF d2(2)] by blast
  then show ?thesis by (simp add: erase_extflash_page_def d1 d2)
qed

lemma erase_image_ok:
  assumes "closed d" "slot \<le> 3"
  shows "\<exists>d'. erase_ota_image F ti slot d = Some (0, d') \<and> closed d' \<and>
    xmem d' = erase_sectors sector (slot_addr slot) 25 (xmem d) \<and> imem d' = imem d"
proof -
  obtain p where p: "slot_page slot = Some p" "unat p * 4096 = slot_addr slot"
    "slot_addr slot + image_bytes \<le> ext_flash_size"
    using slot_page_ok [OF assms(2)] .
  let ?body = "\<lambda>page d. do {
      d \<leftarrow> while_nonzero (erase_extflash_page F (push_bit 12 (p + of_nat page))) d;
      watchdog_periodic ti d }"
  have "\<exists>d'. for_each ?body [0..<25] d = Some d' \<and>
      (closed d' \<and> xmem d' = erase_sectors sector (slot_addr slot) 25 (xmem d) \<and> imem d' = imem d)"
  proof (rule for_each_upt [where I = "\<lambda>i d'. closed d' \<and>
        xmem d' = erase_sectors sector (slot_addr slot) i (xmem d) \<and> imem d' = imem d"])
    fix i d1
    assume i: "i < 25" and I: "closed d1 \<and> xmem d1 = erase_sectors sector (slot_addr slot) i (xmem d) \<and>
        imem d1 = imem d"
    have pi: "p + of_nat i = word_of_nat (unat p + i)" by simp
    have addr: "unat (push_bit 12 (p + of_nat i)) = slot_addr slot + 4096 * i"
      using p(2,3) i by (simp only: pi shift_12 ext_flash_size_def image_bytes_def) simp
    have "(slot_addr slot + 4096 * i) mod 4096 = 0" unfolding p(2) [symmetric] by simp
    then obtain d2 where d2: "erase_extflash_page F (push_bit 12 (p + of_nat i)) d1 = Some (0, d2)" "closed d2"
      "xmem d2 = fill_ff ((slot_addr slot + 4096 * i) div sector * sector) sector (xmem d1)" "imem d2 = imem d1"
      using erase_page_ok [of d1 "push_bit 12 (p + of_nat i)", unfolded addr] I p(3) i
      unfolding image_bytes_def by auto
    then show "\<exists>d'. ?body i d1 = Some d' \<and> (closed d' \<and>
        xmem d' = erase_sectors sector (slot_addr slot) (Suc i) (xmem d) \<and> imem d' = imem d)"
      using watchdog_ok [OF d2(2)] I by (auto simp: while_nonzero_ok erase_sectors_Suc simp del: erase_sectors.simps)
  qed (use assms in simp)
  then show ?thesis by (auto simp: erase_ota_image_def p(1))
qed

lemma update_page_ok:
  assumes "closed d" "unat src + 4096 \<le> ext_flash_size" "unat dst mod 4096 = 0" "unat dst + 4096 \<le> int_flash_size"
  shows "\<exists>d'. update_firmware_page F ti src dst d = Some (0, d') \<and> closed d' \<and> xmem d' = xmem d \<and>
    imem d' = put_bytes (unat dst) (read_mem (xmem d) (unat src) 4096) (imem d)"
proof -
  let ?bs = "read_mem (xmem d) (unat src) 4096"
  obtain d1 where d1: "ti (FlashSectorErase dst) d = Some (0, d1)" "closed d1"
    "imem d1 = fill_ff (unat dst div 4096 * 4096) 4096 (imem d)" "xmem d1 = xmem d"
    using sector_erase [OF assms(1), of dst] assms(4) by auto
  obtain d2 where d2: "ef_open F d1 = Some (True, d2)" "idle d2" "xmem d2 = xmem d" "imem d2 = imem d1"
    using open_ok [OF d1(2)] d1 by auto
  obtain d3 where d3: "ef_read F src (unat FLASH_PAGE_SIZE) d2 = Some ((True, ?bs), d3)" "idle d3"
      "xmem d3 = xmem d" "imem d3 = imem d1"
    using read_ok [OF d2(2), of src "unat FLASH_PAGE_SIZE"] assms(2) d2 by (auto simp: FLASH_PAGE_SIZE_def)
  obtain d4 where d4: "ef_close F d3 = Some d4" "closed d4" "xmem d4 = xmem d" "imem d4 = imem d1"
    using close_ok [OF idle_opened [OF d3(2)]] d3 by auto
  obtain d5 where d5: "ti (FlashProgram ?bs dst) d4 = Some (0, d5)" "closed d5"
    "imem d5 = and_bytes (unat dst) ?bs (imem d4)" "xmem d5 = xmem d"
    using program [OF d4(2), of dst ?bs] d4 assms(4) by auto
  have "imem d5 = put_bytes (unat dst) ?bs (imem d)"
    unfolding d5(3) d4(4) d1(3) by (rule program_erased_page [OF assms(3)]) simp
  then show ?thesis
    using d5 by (simp add: update_firmware_page_def d1 d2 d3 d4 ti_wait_ok)
qed

text \<open>One step of the copy loop: page \<open>i\<close> of the image, after the first \<open>i\<close>.\<close>

lemma update_step_ok:
  assumes "closed d1" "xmem d1 = xmem d"
    and p: "unat (push_bit 12 p) = slot_addr slot" "slot_addr slot + image_bytes \<le> ext_flash_size"
    and i: "i < 25"
    and upto: "imem d1 = put_bytes 0x2000 (read_mem (xmem d) (slot_addr slot) (4096 * i)) m"
  shows "\<exists>d'. update_firmware_page F ti (push_bit 12 p + push_bit 12 (of_nat i))
      (push_bit 12 (of_nat i + CURRENT_FIRMWARE)) d1 = Some (0, d') \<and> closed d' \<and> xmem d' = xmem d \<and>
    imem d' = put_bytes 0x2000 (read_mem (xmem d) (slot_addr slot) (4096 * Suc i)) m"
proof -
  let ?src = "push_bit 12 p + push_bit 12 (of_nat i)" and ?dst = "push_bit 12 (of_nat i + CURRENT_FIRMWARE)"
  have "unat (push_bit 12 (of_nat i) :: u32) = 4096 * i" using i by (simp only: shift_12)
  then have src: "unat ?src = slot_addr slot + 4096 * i"
    using p i by (simp add: unat_word_ariths ext_flash_size_def image_bytes_def)
  have dst: "unat ?dst = 0x2000 + 4096 * i"
    using i shift_12 [of "i + 2"] by (simp add: CURRENT_FIRMWARE_def add.commute)
  have "\<exists>d'. update_firmware_page F ti ?src ?dst d1 = Some (0, d') \<and> closed d' \<and> xmem d' = xmem d1 \<and>
      imem d' = put_bytes (unat ?dst) (read_mem (xmem d1) (unat ?src) 4096) (imem d1)"
    using assms(1) i p(2)
    by (intro update_page_ok) (simp_all only: src dst, auto simp: image_bytes_def int_flash_size_def)
  moreover have "read_mem (xmem d) (slot_addr slot) (4096 * Suc i) =
      read_mem (xmem d) (slot_addr slot) (4096 * i) @ read_mem (xmem d) (slot_addr slot + 4096 * i) 4096"
    using read_mem_append [of "xmem d" "slot_addr slot" "4096 * i" 4096] by (simp add: add.commute)
  ultimately show ?thesis
    unfolding src dst using assms(2) upto by (auto simp: put_bytes_append)
qed

lemma update_ok:
  assumes "closed d" "slot \<le> 3"
  shows "\<exists>d'. update_firmware F ti slot d = Some (0, d') \<and> closed d' \<and> xmem d' = xmem d \<and>
    imem d' = put_bytes 0x2000 (read_mem (xmem d) (slot_addr slot) image_bytes) (imem d)"
proof -
  obtain p where p: "slot_page slot = Some p" "unat (push_bit 12 p) = slot_addr slot"
    "slot_addr slot + image_bytes \<le> ext_flash_size"
    using slot_page_ok [OF assms(2)] .
  let ?body = "\<lambda>i. while_nonzero (update_firmware_page F ti (push_bit 12 p + push_bit 12 (of_nat i))
      (push_bit 12 (of_nat i + CURRENT_FIRMWARE)))"
  let ?I = "\<lambda>i d'. closed d' \<and> xmem d' = xmem d \<and>
    imem d' = put_bytes 0x2000 (read_mem (xmem d) (slot_addr slot) (4096 * i)) (imem d)"
  have "\<exists>d'. for_each ?body [0..<25] d = Some d' \<and> ?I 25 d'"
  proof (rule for_each_upt)
    fix i d1
    assume i: "i < 25" and I: "?I i d1"
    then show "\<exists>d'. ?body i d1 = Some d' \<and> ?I (Suc i) d'"
      using update_step_ok [where m = "imem d", OF _ _ p(2,3) i, of d1 d] by (auto simp: while_nonzero_ok)
  qed (use assms in simp)
  then show ?thesis by (auto simp: update_firmware_def p(1) image_bytes_def)
qed

lemma flash_read_bytes:
  "closed d \<Longrightarrow> unat a + n \<le> int_flash_size \<Longrightarrow> \<exists>d'. FlashRead ti a n d = Some (read_mem (imem d) (unat a) n, d') \<and>
     closed d' \<and> imem d' = imem d \<and> xmem d' = xmem d"
  unfolding FlashRead_def by (rule mem_copy_ok)

lemma backup_chunk_ok:
  assumes "closed d" "page < 25" "chunk < 16"
  shows "\<exists>d'. backup_chunk F ti page chunk d = Some d' \<and> closed d' \<and> imem d' = imem d \<and>
    xmem d' = and_bytes (0x19000 + (4096 * page + 256 * chunk))
      (read_mem (imem d) (0x2000 + (4096 * page + 256 * chunk)) 256) (xmem d)"
proof -
  let ?i = "push_bit 12 (CURRENT_FIRMWARE + of_nat page) + of_nat chunk * 0x100 :: u32"
  let ?e = "push_bit 12 (GOLDEN_IMAGE + of_nat page) + of_nat chunk * 0x100 :: u32"
  have "?i = word_of_nat (0x2000 + (4096 * page + 256 * chunk))"
    "?e = word_of_nat (0x19000 + (4096 * page + 256 * chunk))"
    by (simp_all add: ota_consts push_bit_eq_mult algebra_simps)
  moreover have "0x2000 + (4096 * page + 256 * chunk) < 4294967296"
    "0x19000 + (4096 * page + 256 * chunk) < 4294967296"
    using assms(2,3) by simp_all
  ultimately have i: "unat ?i = 0x2000 + (4096 * page + 256 * chunk)"
    and e: "unat ?e = 0x19000 + (4096 * page + 256 * chunk)"
    by (simp_all only: unat_of_nat_u32)
  obtain d1 where d1: "FlashRead ti ?i 256 d = Some (read_mem (imem d) (unat ?i) 256, d1)" "closed d1"
    "imem d1 = imem d" "xmem d1 = xmem d"
    using flash_read_bytes [OF assms(1), of ?i 256] assms(2,3) unfolding i by (auto simp: int_flash_size_def)
  obtain d2 where "store_firmware_data F ti ?e (read_mem (imem d) (unat ?i) 256) d1 = Some (0, d2)" "closed d2"
    "xmem d2 = and_bytes (unat ?e) (read_mem (imem d) (unat ?i) 256) (xmem d)" "imem d2 = imem d"
    using store_ok [OF d1(2), of ?e "read_mem (imem d) (unat ?i) 256"] d1 assms(2,3)
    unfolding i e by (auto simp: ext_flash_size_def)
  then show ?thesis
    using d1 unfolding i e by (simp add: backup_chunk_def Let_def while_nonzero_ok)
qed

lemma backup_page_ok:
  assumes "closed d" "page < 25"
  shows "\<exists>d'. backup_page F ti page d = Some d' \<and> closed d' \<and> imem d' = imem d \<and>
    xmem d' = and_bytes (0x19000 + 4096 * page) (read_mem (imem d) (0x2000 + 4096 * page) 4096) (xmem d)"
proof -
  let ?I = "\<lambda>c d'. closed d' \<and> imem d' = imem d \<and>
    xmem d' = and_bytes (0x19000 + 4096 * page) (read_mem (imem d) (0x2000 + 4096 * page) (256 * c)) (xmem d)"
  have "\<exists>d'. for_each (backup_chunk F ti page) [0..<16] d = Some d' \<and> ?I 16 d'"
  proof (rule for_each_upt)
    fix c d1
    assume c: "c < 16" and I: "?I c d1"
    have "read_mem (imem d) (0x2000 + 4096 * page) (256 * Suc c) =
        read_mem (imem d) (0x2000 + 4096 * page) (256 * c) @ read_mem (imem d) (0x2000 + (4096 * page + 256 * c)) 256"
      using read_mem_append [of "imem d" "0x2000 + 4096 * page" "256 * c" 256] by (simp add: algebra_simps)
    then show "\<exists>d'. backup_chunk F ti page c d1 = Some d' \<and> ?I (Suc c) d'"
      using backup_chunk_ok [of d1 page c] I assms(2) c by (auto simp: and_bytes_append add.assoc)
  qed (use assms in simp)
  then obtain d1 where d1: "for_each (backup_chunk F ti page) [0..<16] d = Some d1" "?I 16 d1" by blast
  with watchdog_ok [of d1] show ?thesis by (auto simp: backup_page_def)
qed

text \<open>
  The golden image after a backup: the AND of the running image and what the erase left,
  which is the running image itself when the erase left 0xFF.
\<close>

lemma backup_ok:
  assumes "closed d"
  shows "\<exists>d'. backup_golden_image F ti d = Some (0, d') \<and> closed d' \<and> imem d' = imem d \<and>
    xmem d' = and_bytes 0x19000 (read_mem (imem d) 0x2000 image_bytes)
      (erase_sectors sector 0x19000 25 (xmem d))"
proof -
  have a: "slot_addr 0 = 0x19000" by (simp add: slot_addr_def)
  obtain d1 where d1: "erase_ota_image F ti 0 d = Some (0, d1)" "closed d1"
    "xmem d1 = erase_sectors sector 0x19000 25 (xmem d)" "imem d1 = imem d"
    using erase_image_ok [OF assms, of 0, unfolded a] by auto
  let ?I = "\<lambda>p d'. closed d' \<and> imem d' = imem d \<and>
    xmem d' = and_bytes 0x19000 (read_mem (imem d) 0x2000 (4096 * p)) (xmem d1)"
  have "\<exists>d'. for_each (backup_page F ti) [0..<25] d1 = Some d' \<and> ?I 25 d'"
  proof (rule for_each_upt)
    fix p d2
    assume p: "p < 25" and I: "?I p d2"
    have "read_mem (imem d) 0x2000 (4096 * Suc p) =
        read_mem (imem d) 0x2000 (4096 * p) @ read_mem (imem d) (0x2000 + 4096 * p) 4096"
      using read_mem_append [of "imem d" "0x2000" "4096 * p" 4096] by (simp add: add.commute)
    then show "\<exists>d'. backup_page F ti p d2 = Some d' \<and> ?I (Suc p) d'"
      using backup_page_ok [of d2 p] I p by (auto simp: and_bytes_append)
  qed (use d1 in simp)
  then show ?thesis
    by (auto simp: backup_golden_image_def while_nonzero_ok [where f = "erase_ota_image F ti 0", OF d1(1)]
        image_bytes_def d1(3))
qed

lemma slot_crc_loop_ok:
  assumes "idle d" "unat a + 4 * n \<le> ext_flash_size"
    and "unat e \<le> unat a + 4 * n" "n \<noteq> 0 \<Longrightarrow> unat a + 4 * n < unat e + 4"
  shows "\<exists>d'. slot_crc_loop F a e crc d = Some (Some (crc_bytes crc (read_mem (xmem d) (unat a) (4 * n))), d') \<and>
    idle d' \<and> xmem d' = xmem d \<and> imem d' = imem d"
  using assms
proof (induction n arbitrary: a crc d)
  case 0
  then have "\<not> a < e" by (simp add: word_less_nat_alt)
  with 0 show ?case by (subst slot_crc_loop_simps) simp
next
  case (Suc n)
  then have lt: "a < e" by (simp add: word_less_nat_alt)
  let ?w = "read_mem (xmem d) (unat a) 4"
  obtain d1 where d1: "ef_read F a 4 d = Some ((True, ?w), d1)" "idle d1" "xmem d1 = xmem d" "imem d1 = imem d"
    using read_ok [OF Suc.prems(1), of a 4] Suc.prems(2) by auto
  have a4: "unat (a + 4) = unat a + 4"
    using unat_lt_add [of a 4] Suc.prems(2) by (simp add: ext_flash_size_def)
  have "read_mem (xmem d) (unat a) (4 * Suc n) = ?w @ read_mem (xmem d) (unat a + 4) (4 * n)"
    using read_mem_append [of "xmem d" "unat a" 4 "4 * n"] by simp
  moreover have "\<exists>d'. slot_crc_loop F (a + 4) e (crc_bytes crc ?w) d1 =
      Some (Some (crc_bytes (crc_bytes crc ?w) (read_mem (xmem d1) (unat (a + 4)) (4 * n))), d') \<and>
      idle d' \<and> xmem d' = xmem d1 \<and> imem d' = imem d1"
    using Suc.prems d1 by (intro Suc.IH) (auto simp: a4)
  ultimately show ?case
    using lt d1 by (subst slot_crc_loop_simps) (auto simp: a4 crc_bytes_def)
qed

lemma int_crc_loop_ok:
  assumes "closed d" "unat a + 4 * n \<le> int_flash_size"
    and "unat e \<le> unat a + 4 * n" "n \<noteq> 0 \<Longrightarrow> unat a + 4 * n < unat e + 4"
  shows "\<exists>d'. int_crc_loop ti a e crc d = Some (crc_bytes crc (read_mem (imem d) (unat a) (4 * n)), d') \<and>
    closed d' \<and> xmem d' = xmem d \<and> imem d' = imem d"
  using assms
proof (induction n arbitrary: a crc d)
  case 0
  then have "\<not> a < e" by (simp add: word_less_nat_alt)
  with 0 show ?case by (subst int_crc_loop_simps) simp
next
  case (Suc n)
  then have lt: "a < e" by (simp add: word_less_nat_alt)
  let ?w = "read_mem (imem d) (unat a) 4"
  obtain d1 where d1: "FlashRead ti a 4 d = Some (?w, d1)" "closed d1" "imem d1 = imem d" "xmem d1 = xmem d"
    using flash_read_bytes [OF Suc.prems(1), of a 4] Suc.prems(2) by auto
  have a4: "unat (a + 4) = unat a + 4"
    using unat_lt_add [of a 4] Suc.prems(2) by (simp add: int_flash_size_def)
  have "read_mem (imem d) (unat a) (4 * Suc n) = ?w @ read_mem (imem d) (unat a + 4) (4 * n)"
    using read_mem_append [of "imem d" "unat a" 4 "4 * n"] by simp
  moreover have "\<exists>d'. int_crc_loop ti (a + 4) e (crc_bytes crc ?w) d1 =
      Some (crc_bytes (crc_bytes crc ?w) (read_mem (imem d1) (unat (a + 4)) (4 * n)), d') \<and>
      closed d' \<and> xmem d' = xmem d1 \<and> imem d' = imem d1"
    using Suc.prems d1 by (intro Suc.IH) (auto simp: a4)
  ultimately show ?case
    using lt d1 by (subst int_crc_loop_simps) (auto simp: a4 crc_bytes_def)
qed

lemma crc_words_bounds:
  "unat (a + len) \<le> unat a + 4 * crc_words a len"
  "crc_words a len \<noteq> 0 \<Longrightarrow> unat a + 4 * crc_words a len < unat (a + len) + 4"
  by (auto simp: crc_words_def word_less_nat_alt not_less)

text \<open>The verification of a slot compares the stored shadow CRC with the CRC of the image.\<close>

lemma verify_slot_ok:
  fixes slot :: u8
  assumes "closed d" "slot \<le> 3"
  defines "m \<equiv> slot_metadata (xmem d) slot"
  defines "n \<equiv> crc_words (of_nat (slot_addr slot) + OTA_METADATA_SPACE) (om_size m)"
  assumes fits: "slot_addr slot + 256 + 4 * n \<le> ext_flash_size"
  shows "\<exists>d'. verify_ota_slot F junk slot d =
      Some (if om_crc_shadow m = image_crc (read_mem (xmem d) (slot_addr slot + 256) (4 * n))
            then VERIFY_SLOT_OK else VERIFY_SLOT_CRC_ERROR, d') \<and>
    closed d' \<and> xmem d' = xmem d \<and> imem d' = imem d"
proof -
  obtain p where p: "slot_page slot = Some p" "unat (push_bit 12 p) = slot_addr slot"
    "slot_addr slot + image_bytes \<le> ext_flash_size"
    using slot_page_ok [OF assms(2)] .
  have p12: "push_bit 12 p = word_of_nat (slot_addr slot)" by (simp only: p(2) [symmetric]) simp
  let ?a = "push_bit 12 p + OTA_METADATA_SPACE"
  have a: "unat ?a = slot_addr slot + 256"
    using unat_lt_add [of "push_bit 12 p" 256] p(2,3)
    by (simp add: OTA_METADATA_SPACE_def ext_flash_size_def image_bytes_def)
  have n: "n = crc_words ?a (om_size m)" by (simp only: n_def p12)
  obtain d1 where d1: "get_ota_slot_metadata F slot junk d = Some ((0, m), d1)" "closed d1"
    "xmem d1 = xmem d" "imem d1 = imem d"
    using slot_metadata_ok [OF assms(1,2), of junk] by (auto simp: m_def)
  obtain d2 where d2: "ef_open F d1 = Some (True, d2)" "idle d2" "xmem d2 = xmem d" "imem d2 = imem d"
    using open_ok [OF d1(2)] d1 by auto
  have "\<exists>d'. slot_crc_loop F ?a (?a + om_size m) 0 d2 =
      Some (Some (crc_bytes 0 (read_mem (xmem d2) (unat ?a) (4 * n))), d') \<and>
      idle d' \<and> xmem d' = xmem d2 \<and> imem d' = imem d2"
    using d2(2) fits crc_words_bounds [of ?a "om_size m"]
    by (intro slot_crc_loop_ok) (simp_all only: a n [symmetric] simp_thms)
  then obtain d3 where d3: "slot_crc_loop F ?a (?a + om_size m) 0 d2 =
      Some (Some (crc_bytes 0 (read_mem (xmem d) (slot_addr slot + 256) (4 * n))), d3)"
      "idle d3" "xmem d3 = xmem d" "imem d3 = imem d"
    unfolding a using d2 by auto
  obtain d4 where "ef_close F d3 = Some d4" "closed d4" "xmem d4 = xmem d" "imem d4 = imem d"
    using close_ok [OF idle_opened [OF d3(2)]] d3 by auto
  then show ?thesis
    by (simp add: verify_ota_slot_def p(1) d1 d2 d3 image_crc_def Let_def)
qed

lemma verify_current_ok:
  fixes m :: ota_metadata
  assumes "closed d"
  defines "n \<equiv> crc_words (0x2000 + OTA_METADATA_SPACE) (om_size m)"
  defines "m' \<equiv> m\<lparr>om_crc_shadow := image_crc (read_mem (imem d) 0x2100 (4 * n))\<rparr>"
  assumes fits: "0x2100 + 4 * n \<le> int_flash_size"
  shows "\<exists>d'. verify_current_firmware ti m d = Some ((0, m'), d') \<and> closed d' \<and> xmem d' = xmem d \<and>
    imem d' = and_bytes 0x2000 (bytes_of_metadata m') (imem d)"
proof -
  let ?a = "0x2000 + OTA_METADATA_SPACE"
  have a: "unat ?a = 0x2100" by (simp add: OTA_METADATA_SPACE_def)
  have "\<exists>d'. int_crc_loop ti ?a (?a + om_size m) 0 d =
      Some (crc_bytes 0 (read_mem (imem d) (unat ?a) (4 * n)), d') \<and>
      closed d' \<and> xmem d' = xmem d \<and> imem d' = imem d"
    using assms(1) fits crc_words_bounds [of ?a "om_size m"]
    by (intro int_crc_loop_ok) (simp_all only: a n_def [symmetric] simp_thms)
  then obtain d1 where d1: "int_crc_loop ti ?a (?a + om_size m) 0 d =
      Some (crc_bytes 0 (read_mem (imem d) 0x2100 (4 * n)), d1)"
      "closed d1" "xmem d1 = xmem d" "imem d1 = imem d"
    unfolding a by blast
  have "unat (push_bit 12 CURRENT_FIRMWARE) = 0x2000" by (simp add: CURRENT_FIRMWARE_def)
  then obtain d2 where "ti (FlashProgram (bytes_of_metadata m') (push_bit 12 CURRENT_FIRMWARE)) d1 = Some (0, d2)"
      "closed d2" "imem d2 = and_bytes 0x2000 (bytes_of_metadata m') (imem d)" "xmem d2 = xmem d"
    using program [OF d1(2), of "push_bit 12 CURRENT_FIRMWARE" "bytes_of_metadata m'"] d1
    by (auto simp: OTA_METADATA_LENGTH_def int_flash_size_def)
  then show ?thesis
    using d1 by (auto simp: verify_current_firmware_def Let_def m'_def image_crc_def ti_wait_ok)
qed

lemma find_newest_loop_ok:
  assumes "closed d" "\<forall>s\<in>set ss. s \<le> 3"
  shows "\<exists>d'. find_newest_loop F junk ss r v d = Some (newest_from (slot_metadata (xmem d)) ss r v, d') \<and>
    closed d' \<and> xmem d' = xmem d \<and> imem d' = imem d"
  using assms
proof (induction ss arbitrary: r v d)
  case (Cons s ss)
  obtain d1 where d1: "slot_metadata_retry F s junk d = Some (slot_metadata (xmem d) s, d1)" "closed d1"
    "xmem d1 = xmem d" "imem d1 = imem d"
    using slot_metadata_retry_ok [OF Cons.prems(1), of s junk] Cons.prems(2) by auto
  show ?case using Cons.IH [OF d1(2)] Cons.prems(2) by (auto simp: d1)
qed simp

lemma find_oldest_loop_ok:
  assumes "closed d" "\<forall>s\<in>set ss. s \<le> 3"
  shows "\<exists>d'. find_oldest_loop F junk ss r v d = Some (oldest_from (slot_metadata (xmem d)) ss r v, d') \<and>
    closed d' \<and> xmem d' = xmem d \<and> imem d' = imem d"
  using assms
proof (induction ss arbitrary: r v d)
  case (Cons s ss)
  obtain d1 where d1: "slot_metadata_retry F s junk d = Some (slot_metadata (xmem d) s, d1)" "closed d1"
    "xmem d1 = xmem d" "imem d1 = imem d"
    using slot_metadata_retry_ok [OF Cons.prems(1), of s junk] Cons.prems(2) by auto
  show ?case using Cons.IH [OF d1(2)] Cons.prems(2) by (auto simp: d1)
qed simp

lemma find_matching_loop_ok:
  assumes "closed d" "\<forall>s\<in>set ss. s \<le> 3"
  shows "\<exists>d'. find_matching_loop F junk v ss d = Some (matching_from (slot_metadata (xmem d)) v ss, d') \<and>
    closed d' \<and> xmem d' = xmem d \<and> imem d' = imem d"
  using assms
proof (induction ss arbitrary: d)
  case (Cons s ss)
  obtain d1 where d1: "slot_metadata_retry F s junk d = Some (slot_metadata (xmem d) s, d1)" "closed d1"
    "xmem d1 = xmem d" "imem d1 = imem d"
    using slot_metadata_retry_ok [OF Cons.prems(1), of s junk] Cons.prems(2) by auto
  show ?case using Cons.IH [OF d1(2)] Cons.prems(2) d1 by (auto simp: d1)
qed simp

lemma find_empty_loop_ok:
  assumes "closed d" "\<forall>s\<in>set ss. s \<le> 3"
  shows "\<exists>d'. find_empty_loop F junk ss d = Some (empty_from (slot_metadata (xmem d)) ss, d') \<and>
    closed d' \<and> xmem d' = xmem d \<and> imem d' = imem d"
  using assms
proof (induction ss arbitrary: d)
  case Nil
  have "\<forall>s\<in>set [1, 2, 3 :: u8]. s \<le> 3" by simp
  from find_oldest_loop_ok [OF Nil(1) this] show ?case
    by (simp only: find_empty_loop.simps empty_from.simps find_oldest_ota_image_def)
next
  case (Cons s ss)
  obtain d1 where d1: "slot_metadata_retry F s junk d = Some (slot_metadata (xmem d) s, d1)" "closed d1"
    "xmem d1 = xmem d" "imem d1 = imem d"
    using slot_metadata_retry_ok [OF Cons.prems(1), of s junk] Cons.prems(2) by auto
  show ?case using Cons.IH [OF d1(2)] Cons.prems(2) d1 by (auto simp: d1)
qed

lemma find_ok:
  assumes "closed d"
  shows "\<exists>d'. find_newest_ota_image F junk d = Some (newest_from (slot_metadata (xmem d)) [1, 2, 3] 0 0, d') \<and>
      closed d' \<and> xmem d' = xmem d \<and> imem d' = imem d"
    and "\<exists>d'. find_oldest_ota_image F junk d = Some (oldest_from (slot_metadata (xmem d)) [1, 2, 3] 0 0, d') \<and>
      closed d' \<and> xmem d' = xmem d \<and> imem d' = imem d"
    and "\<exists>d'. find_matching_ota_slot F junk v d = Some (matching_from (slot_metadata (xmem d)) v [1, 2, 3], d') \<and>
      closed d' \<and> xmem d' = xmem d \<and> imem d' = imem d"
    and "\<exists>d'. find_empty_ota_slot F junk d = Some (empty_from (slot_metadata (xmem d)) [1, 2, 3], d') \<and>
      closed d' \<and> xmem d' = xmem d \<and> imem d' = imem d"
proof -
  have r: "\<forall>s\<in>set [1, 2, 3 :: u8]. s \<le> 3" by simp
  show "\<exists>d'. find_newest_ota_image F junk d = Some (newest_from (slot_metadata (xmem d)) [1, 2, 3] 0 0, d') \<and>
      closed d' \<and> xmem d' = xmem d \<and> imem d' = imem d"
    using find_newest_loop_ok [OF assms r] unfolding find_newest_ota_image_def .
  show "\<exists>d'. find_oldest_ota_image F junk d = Some (oldest_from (slot_metadata (xmem d)) [1, 2, 3] 0 0, d') \<and>
      closed d' \<and> xmem d' = xmem d \<and> imem d' = imem d"
    using find_oldest_loop_ok [OF assms r] unfolding find_oldest_ota_image_def .
  show "\<exists>d'. find_matching_ota_slot F junk v d = Some (matching_from (slot_metadata (xmem d)) v [1, 2, 3], d') \<and>
      closed d' \<and> xmem d' = xmem d \<and> imem d' = imem d"
    using find_matching_loop_ok [OF assms r] unfolding find_matching_ota_slot_def .
  show "\<exists>d'. find_empty_ota_slot F junk d = Some (empty_from (slot_metadata (xmem d)) [1, 2, 3], d') \<and>
      closed d' \<and> xmem d' = xmem d \<and> imem d' = imem d"
    using find_empty_loop_ok [OF assms r] unfolding find_empty_ota_slot_def .
qed

end

end
