(* ===== verification/Metadata_Tool.thy ===== *)
theory Metadata_Tool
  imports Ota_Laws
begin

text \<open>
  The host tool that puts the metadata in front of a firmware image
  (\<open>unwired/bootloader/generate-metadata/generate-metadata.c\<close>). Its arguments are taken
  after \<open>sscanf\<close>; \<open>%x\<close> stores 32 bits, so the upper half of the version argument lands in
  the two padding bytes of the structure.
\<close>

definition FLASH_WORD_SIZE :: nat where "FLASH_WORD_SIZE = 4"

text \<open>\<open>crcCalcWord\<close>: the CRC over one word; the caller's \<open>firmware_size\<close> grows by 4.\<close>

definition crcCalcWord :: "bytes \<Rightarrow> u16 \<times> u32 \<Rightarrow> u16 \<times> u32" where
  "crcCalcWord w st = (foldl gm_crc16 (fst st) (take FLASH_WORD_SIZE w), snd st + 4)"

text \<open>
  The \<open>fread\<close> loop: \<open>fread(_word, 4, 1, f)\<close> answers 1 while four bytes are left and 0
  afterwards, so the \<open>if (nret)\<close> after the loop is never taken.
\<close>

fun crc_words_loop :: "bytes \<Rightarrow> u16 \<times> u32 \<Rightarrow> u16 \<times> u32" where
  "crc_words_loop (b0 # b1 # b2 # b3 # rest) st = crc_words_loop rest (crcCalcWord [b0, b1, b2, b3] st)"
| "crc_words_loop rest st = st"

text \<open>The CRC of the file and the final \<open>firmware_size\<close>.\<close>

definition crcCalc :: "bytes \<Rightarrow> u16 \<times> u32" where
  "crcCalc file =
     (let (crc, sz) = crc_words_loop file (0, 0) in (gm_crc16 (gm_crc16 crc 0) 0, sz))"

definition gm_main :: "bytes \<Rightarrow> u32 \<Rightarrow> u32 \<Rightarrow> int \<Rightarrow> bytes" where
  "gm_main file version uuid firmware_verified =
     (let (crc_result, firmware_size) = crcCalc file;
          metadata = \<lparr>om_crc = crc_result,
                      om_crc_shadow = (if firmware_verified \<noteq> 0 then crc_result else 0),
                      om_size = firmware_size, om_uuid = uuid, om_version = ucast version,
                      om_pad = ucast (drop_bit 16 version)\<rparr>
      in bytes_of_metadata metadata @ replicate 240 0xff)"

lemma crc_words_loop_eq:
  "crc_words_loop xs st =
     (crc_bytes (fst st) (take (length xs div 4 * 4) xs), snd st + of_nat (length xs div 4 * 4))"
proof (induction xs st rule: crc_words_loop.induct)
  case (1 b0 b1 b2 b3 rest st)
  have n: "length (b0 # b1 # b2 # b3 # rest) div 4 * 4 = Suc (Suc (Suc (Suc (length rest div 4 * 4))))"
    using div_add_self1 [of 4 "length rest"] by simp
  show ?case
    unfolding n using 1 by (simp add: crcCalcWord_def FLASH_WORD_SIZE_def crc16_copies algebra_simps)
qed simp_all

lemma crcCalc_eq:
  "crcCalc file = (image_crc (take (length file div 4 * 4) file), of_nat (length file div 4 * 4))"
  by (simp add: crcCalc_def crc_words_loop_eq image_crc_def crc16_copies Let_def)

lemma length_gm_main: "length (gm_main file v u k) = 256"
  by (simp add: gm_main_def Let_def crcCalc_eq OTA_METADATA_LENGTH_def)

lemma gm_main_metadata:
  "metadata_of_bytes (take 16 (gm_main file v u k) @ ys) =
     \<lparr>om_crc = image_crc (take (length file div 4 * 4) file),
      om_crc_shadow = (if k \<noteq> 0 then image_crc (take (length file div 4 * 4) file) else 0),
      om_size = of_nat (length file div 4 * 4), om_uuid = u, om_version = ucast v,
      om_pad = ucast (drop_bit 16 v)\<rparr>"
proof -
  have prefix: "metadata_of_bytes (bytes_of_metadata m @ zs) = m" for m zs
    by (simp add: metadata_of_bytes_def bytes_of_metadata_def bytes_simps)
  show ?thesis
    using length_bytes_of_metadata
    by (simp add: gm_main_def crcCalc_eq Let_def OTA_METADATA_LENGTH_def prefix)
qed

text \<open>A slot that holds the tool's header and the image it was made from.\<close>

definition slot_holds :: "mem \<Rightarrow> u8 \<Rightarrow> bytes \<Rightarrow> u32 \<Rightarrow> u32 \<Rightarrow> int \<Rightarrow> bool" where
  "slot_holds x slot img v u k \<longleftrightarrow>
     read_mem x (slot_addr slot) (256 + length img) = gm_main img v u k @ img"

lemma slot_holds_parts:
  assumes "slot_holds x slot img v u k"
  shows "read_mem x (slot_addr slot + 256) (length img) = img"
    and "read_mem x (slot_addr slot) 16 = take 16 (gm_main img v u k)"
proof -
  have "read_mem x (slot_addr slot) 256 @ read_mem x (slot_addr slot + 256) (length img) =
      gm_main img v u k @ img"
    using assms by (simp add: slot_holds_def flip: read_mem_append)
  then have parts: "read_mem x (slot_addr slot) 256 = gm_main img v u k"
      "read_mem x (slot_addr slot + 256) (length img) = img"
    by (simp_all add: append_eq_append_conv length_gm_main)
  then show "read_mem x (slot_addr slot + 256) (length img) = img" by simp
  have "read_mem x (slot_addr slot) 256 = read_mem x (slot_addr slot) 16 @ read_mem x (slot_addr slot + 16) 240"
    using read_mem_append [of x "slot_addr slot" 16 240] by simp
  then show "read_mem x (slot_addr slot) 16 = take 16 (gm_main img v u k)"
    by (simp add: parts(1) [symmetric])
qed

context flash_board begin

text \<open>An image of whole words with the tool's header verifies iff it was marked as verified.\<close>

lemma tool_verify:
  assumes "closed d" "slot \<le> 3" "slot_holds (xmem d) slot img v u k"
    and "length img mod 4 = 0" "256 + length img \<le> image_bytes"
  shows "\<exists>d'. verify_ota_slot F junk slot d =
      Some (if k \<noteq> 0 \<or> image_crc img = 0 then VERIFY_SLOT_OK else VERIFY_SLOT_CRC_ERROR, d') \<and>
    closed d' \<and> xmem d' = xmem d \<and> imem d' = imem d"
proof -
  obtain p where p: "slot_addr slot + image_bytes \<le> ext_flash_size"
    using slot_page_ok [OF assms(2)] .
  have whole: "length img div 4 * 4 = length img" using assms(4) by auto
  have m: "slot_metadata (xmem d) slot =
     \<lparr>om_crc = image_crc img, om_crc_shadow = (if k \<noteq> 0 then image_crc img else 0),
      om_size = of_nat (length img), om_uuid = u, om_version = ucast v, om_pad = ucast (drop_bit 16 v)\<rparr>"
    using slot_holds_parts(2) [OF assms(3)] gm_main_metadata [of img v u k "[]"] whole
    by (simp add: slot_metadata_def OTA_METADATA_LENGTH_def)
  let ?a = "of_nat (slot_addr slot) + OTA_METADATA_SPACE :: u32"
  have "?a = word_of_nat (slot_addr slot + 256)" by (simp add: OTA_METADATA_SPACE_def)
  then have a: "unat ?a = slot_addr slot + 256"
    using p by (simp only: unat_of_nat_u32 image_bytes_def ext_flash_size_def)
  have "unat (?a + of_nat (length img)) = slot_addr slot + 256 + length img"
    using unat_lt_add [of ?a "length img"] a p assms(5) by (simp add: image_bytes_def ext_flash_size_def)
  then have n: "crc_words ?a (of_nat (length img)) = length img div 4"
    using assms(4) a by (auto simp: crc_words_def word_less_nat_alt)
  have n4: "4 * (length img div 4) = length img" using assms(4) by auto
  show ?thesis
    using verify_slot_ok [OF assms(1,2), of junk] slot_holds_parts(1) [OF assms(3)] p assms(5)
    by (cases "k = 0") (auto simp: m n n4)
qed

end

end
