(* ===== verification/Ota_Boot.thy ===== *)
theory Ota_Boot
  imports Ota_Main
begin

text \<open>
  The bootloader: its copy of the OTA functions
  (\<open>unwired/bootloader/ota-common/ota-bootloader.c\<close>) and \<open>main\<close>
  (\<open>unwired/bootloader/bootloader.c\<close>). Functions whose text is that of \<open>ota-main.c\<close> apart
  from debug output are the same functions; the others are translated again.
  A run of \<open>main\<close> ends by branching to an image, by a system reset or, in no case that is
  meant to happen, by returning: \<open>boot_outcome\<close>.
\<close>

section \<open>Console\<close>

text \<open>
  \<open>for (uint8_t i=0; str[i] != '\0'; i++)\<close>: the index wraps at 256, so a longer string is
  printed for ever.
\<close>

partial_function (option) print_uart_from :: "'d ti \<Rightarrow> string \<Rightarrow> u8 \<Rightarrow> 'd \<Rightarrow> 'd option" where
  "print_uart_from ti str i d =
     (if unat i < length str then do {
        d \<leftarrow> ti_do ti (UARTCharPut (of_char (str ! unat i))) d;
        print_uart_from ti str (i + 1) d }
      else Some d)"

definition print_uart :: "'d ti \<Rightarrow> string \<Rightarrow> 'd \<Rightarrow> 'd option" where
  "print_uart ti str d = print_uart_from ti str 0 d"

definition print_uart_bl :: "'d ti \<Rightarrow> string \<Rightarrow> 'd \<Rightarrow> 'd option" where
  "print_uart_bl ti str d = do {
     d \<leftarrow> print_uart ti (''Bootloader:'' @ [CHR 0x09] @ '' '') d;
     print_uart ti str d }"

definition print_uart_byte :: "'d ti \<Rightarrow> u8 \<Rightarrow> 'd \<Rightarrow> 'd option" where
  "print_uart_byte ti b d = ti_do ti (UARTCharPut b) d"

section \<open>ota-bootloader.c\<close>

definition bl_FlashRead :: "'d ti \<Rightarrow> u32 \<Rightarrow> nat \<Rightarrow> 'd \<Rightarrow> (bytes \<times> 'd) option" where
  "bl_FlashRead ti addr count d = mem_copy_loop ti addr count d"

definition bl_get_current_metadata :: "'d ti \<Rightarrow> 'd \<Rightarrow> ((int \<times> ota_metadata) \<times> 'd) option" where
  "bl_get_current_metadata ti d = do {
     (b, d) \<leftarrow> bl_FlashRead ti (push_bit 12 CURRENT_FIRMWARE) OTA_METADATA_LENGTH d;
     Some ((0, metadata_of_bytes b), d) }"

definition bl_get_ota_slot_metadata ::
  "'d ext_flash_h \<Rightarrow> u8 \<Rightarrow> ota_metadata \<Rightarrow> 'd \<Rightarrow> ((int \<times> ota_metadata) \<times> 'd) option" where
  "bl_get_ota_slot_metadata = get_ota_slot_metadata"

definition bl_overwrite_ota_slot_metadata ::
  "'d ext_flash_h \<Rightarrow> u8 \<Rightarrow> ota_metadata \<Rightarrow> 'd \<Rightarrow> (int \<times> 'd) option" where
  "bl_overwrite_ota_slot_metadata = overwrite_ota_slot_metadata"

definition bl_validate_ota_metadata :: "ota_metadata \<Rightarrow> bool" where
  "bl_validate_ota_metadata m =
     (let erased_slot = list_all (\<lambda>b. b = 0xff) (bytes_of_metadata m)
      in if erased_slot then False else om_crc m = om_crc_shadow m)"

definition bl_erase_extflash_page :: "'d ext_flash_h \<Rightarrow> u32 \<Rightarrow> 'd \<Rightarrow> (int \<times> 'd) option" where
  "bl_erase_extflash_page F ext_address d = do {
     (acc, d) \<leftarrow> ef_open F d;
     if \<not> acc then do { d \<leftarrow> ef_close F d; Some (- 1, d) }
     else do {
       (acc, d) \<leftarrow> ef_erase F ext_address FLASH_PAGE_SIZE d;
       if \<not> acc then do { d \<leftarrow> ef_close F d; Some (- 1, d) }
       else do { d \<leftarrow> ef_close F d; Some (0, d) } } }"

definition bl_erase_ota_image :: "'d ext_flash_h \<Rightarrow> u8 \<Rightarrow> 'd \<Rightarrow> (int \<times> 'd) option" where
  "bl_erase_ota_image F slot d = do {
     base \<leftarrow> slot_page slot;
     d \<leftarrow> for_each (\<lambda>page. while_nonzero (bl_erase_extflash_page F (push_bit 12 (base + of_nat page))))
            [0..<25] d;
     Some (0, d) }"

definition bl_store_firmware_data :: "'d ext_flash_h \<Rightarrow> u32 \<Rightarrow> bytes \<Rightarrow> 'd \<Rightarrow> (int \<times> 'd) option" where
  "bl_store_firmware_data F ext_address data d = do {
     (acc, d) \<leftarrow> ef_open F d;
     if \<not> acc then do { d \<leftarrow> ef_close F d; Some (- 1, d) }
     else do {
       (acc, d) \<leftarrow> ef_write F ext_address data d;
       if \<not> acc then do { d \<leftarrow> ef_close F d; Some (- 1, d) }
       else do { d \<leftarrow> ef_close F d; Some (0, d) } } }"


text \<open>The CRC loops, compiled with the bootloader's copy of \<open>crc16\<close>.\<close>

definition bl_int_crc_loop :: "'d ti \<Rightarrow> u32 \<Rightarrow> u32 \<Rightarrow> u16 \<Rightarrow> 'd \<Rightarrow> (u16 \<times> 'd) option" where
  "bl_int_crc_loop = int_crc_with bl_crc16"

definition bl_slot_crc_loop ::
  "'d ext_flash_h \<Rightarrow> u32 \<Rightarrow> u32 \<Rightarrow> u16 \<Rightarrow> 'd \<Rightarrow> (u16 option \<times> 'd) option" where
  "bl_slot_crc_loop = slot_crc_with bl_crc16"

definition bl_verify_current_firmware ::
  "'d ti \<Rightarrow> ota_metadata \<Rightarrow> 'd \<Rightarrow> ((int \<times> ota_metadata) \<times> 'd) option" where
  "bl_verify_current_firmware ti m d = do {
     let firmware_address = 0x2000 + OTA_METADATA_SPACE;
     let firmware_end_address = firmware_address + om_size m;
     (imageCRC, d) \<leftarrow> bl_int_crc_loop ti firmware_address firmware_end_address 0 d;
     let imageCRC = bl_crc16 (bl_crc16 imageCRC 0) 0;
     let m = m\<lparr>om_crc_shadow := imageCRC\<rparr>;
     d \<leftarrow> ti_wait ti (FlashProgram (bytes_of_metadata m) (push_bit 12 CURRENT_FIRMWARE)) (\<lambda>r. r = 0) d;
     if om_crc_shadow m = om_crc m then Some ((CORRECT_CRC, m), d) else Some ((NON_CORRECT_CRC, m), d) }"

text \<open>Unlike the node's, this one repeats the metadata read until it succeeds.\<close>

definition bl_verify_ota_slot :: "'d ext_flash_h \<Rightarrow> ota_metadata \<Rightarrow> u8 \<Rightarrow> 'd \<Rightarrow> (int \<times> 'd) option" where
  "bl_verify_ota_slot F junk slot d = do {
     page \<leftarrow> slot_page slot;
     let ota_image_address = push_bit 12 page;
     (m, d) \<leftarrow> slot_metadata_retry F slot junk d;
     let ota_image_address = ota_image_address + OTA_METADATA_SPACE;
     let ota_image_end_address = ota_image_address + om_size m;
     (acc, d) \<leftarrow> ef_open F d;
     if \<not> acc then do { d \<leftarrow> ef_close F d; Some (NON_READ_FLASH, d) }
     else do {
       (res, d) \<leftarrow> bl_slot_crc_loop F ota_image_address ota_image_end_address 0 d;
       case res of
         None \<Rightarrow> Some (NON_READ_FLASH, d)
       | Some imageCRC \<Rightarrow> do {
           let imageCRC = bl_crc16 (bl_crc16 imageCRC 0) 0;
           d \<leftarrow> ef_close F d;
           if om_crc_shadow m \<noteq> imageCRC then Some (NON_CORRECT_CRC, d)
           else Some (CORRECT_CRC, d) } } }"

definition bl_update_firmware_page ::
  "'d ext_flash_h \<Rightarrow> 'd ti \<Rightarrow> u32 \<Rightarrow> u32 \<Rightarrow> 'd \<Rightarrow> (int \<times> 'd) option" where
  "bl_update_firmware_page = update_firmware_page"

definition bl_update_firmware :: "'d ext_flash_h \<Rightarrow> 'd ti \<Rightarrow> u8 \<Rightarrow> 'd \<Rightarrow> (int \<times> 'd) option" where
  "bl_update_firmware F ti slot d = do {
     page \<leftarrow> slot_page slot;
     let ota_image_address = push_bit 12 page;
     d \<leftarrow> print_uart ti (''Bootloader:'' @ [CHR 0x09] @ '' Flash internal memory: '') d;
     d \<leftarrow> for_each (\<lambda>sector_num d. do {
            d \<leftarrow> while_nonzero
              (bl_update_firmware_page F ti (ota_image_address + push_bit 12 (of_nat sector_num))
                 (push_bit 12 (of_nat sector_num + CURRENT_FIRMWARE))) d;
            print_uart ti ''.'' d }) [0..<25] d;
     d \<leftarrow> print_uart ti [CHR 0x0A] d;
     Some (0, d) }"

section \<open>bootloader.c\<close>

datatype boot_outcome = Jumped u32 | SystemReset | MainReturned

definition OTA_RESET_VECTOR :: u32 where "OTA_RESET_VECTOR = 0x4"

text \<open>\<open>LDR R0, [dest]; ORR R0, #1; BX R0\<close>\<close>

definition jump_to_image :: "'d ti \<Rightarrow> u32 \<Rightarrow> 'd \<Rightarrow> (boot_outcome \<times> 'd) option" where
  "jump_to_image ti destination_address d = do {
     let dest = (if destination_address \<noteq> 0 then destination_address + OTA_METADATA_SPACE
                 else destination_address);
     let dest = dest + OTA_RESET_VECTOR;
     (w, d) \<leftarrow> mem_copy_loop ti dest 4 d;
     Some (Jumped (u32_of_bytes (w ! 0) (w ! 1) (w ! 2) (w ! 3) OR 1), d) }"

definition initialize_peripherals :: "'d ti \<Rightarrow> 'd \<Rightarrow> 'd option" where
  "initialize_peripherals ti d = do {
     (int_disabled, d) \<leftarrow> ti IntMasterDisable d;
     d \<leftarrow> ti_do ti (PRCMPowerDomainOn PRCM_DOMAIN_PERIPH) d;
     d \<leftarrow> ti_wait ti (PRCMPowerDomainStatus PRCM_DOMAIN_PERIPH) (\<lambda>r. r = PRCM_DOMAIN_POWER_ON) d;
     d \<leftarrow> ti_do ti (PRCMPeripheralRunEnable PRCM_PERIPH_GPIO) d;
     d \<leftarrow> ti_do ti PRCMLoadSet d;
     d \<leftarrow> ti_wait ti PRCMLoadGet (\<lambda>r. r \<noteq> 0) d;
     if int_disabled = 0 then ti_do ti IntMasterEnable d else Some d }"

text \<open>\<open>UARTSetup\<close> stands for the calls that configure UART0 (lines 84 to 93).\<close>

definition initialize_uart :: "'d ti \<Rightarrow> 'd \<Rightarrow> 'd option" where
  "initialize_uart ti d = do {
     d \<leftarrow> ti_do ti (PRCMPowerDomainOn PRCM_DOMAIN_SERIAL) d;
     d \<leftarrow> ti_wait ti (PRCMPowerDomainStatus PRCM_DOMAIN_SERIAL) (\<lambda>r. r = PRCM_DOMAIN_POWER_ON) d;
     d \<leftarrow> ti_do ti (PRCMPeripheralRunEnable PRCM_PERIPH_UART0) d;
     d \<leftarrow> ti_do ti PRCMLoadSet d;
     d \<leftarrow> ti_wait ti PRCMLoadGet (\<lambda>r. r \<noteq> 0) d;
     ti_do ti UARTSetup d }"

definition LED_IOID :: ioid where "LED_IOID = IOID 22"

definition print_verify_int :: "'d ti \<Rightarrow> int \<Rightarrow> 'd \<Rightarrow> 'd option" where
  "print_verify_int ti r d = do {
     d \<leftarrow> print_uart_bl ti ''Internal firmware: '' d;
     if r = CORRECT_CRC then print_uart ti (''correct CRC'' @ [CHR 0x0A]) d
     else if r = NON_CORRECT_CRC then print_uart ti (''non-correct CRC'' @ [CHR 0x0A]) d
     else Some d }"

definition print_verify_ota :: "'d ti \<Rightarrow> string \<Rightarrow> int \<Rightarrow> 'd \<Rightarrow> 'd option" where
  "print_verify_ota ti title r d = do {
     d \<leftarrow> print_uart_bl ti title d;
     if r = NON_CORRECT_CRC then print_uart ti (''non-correct CRC'' @ [CHR 0x0A]) d
     else if r = NON_READ_FLASH then print_uart ti (''non-read flash'' @ [CHR 0x0A]) d
     else if r = CORRECT_CRC then print_uart ti (''correct CRC'' @ [CHR 0x0A]) d
     else Some d }"

text \<open>The part of \<open>main\<close> that acts on the flag (lines 150 to 205).\<close>

definition boot_decide :: "'d ext_flash_h \<Rightarrow> 'd ti \<Rightarrow> u8 \<Rightarrow> 'd \<Rightarrow> (boot_outcome \<times> 'd) option" where
  "boot_decide F ti fw_flag d =
     (if fw_flag = FW_FLAG_PING_OK then do {
        d \<leftarrow> print_uart_bl ti (''OTA Update ok(PING_OK), change flag, reboot'' @ [CHR 0x0A]) d;
        (_, d) \<leftarrow> bl_write_fw_flag ti FW_FLAG_NON_UPDATE d;
        Some (SystemReset, d) }
      else if fw_flag = FW_FLAG_NON_UPDATE then do {
        d \<leftarrow> print_uart_bl ti (''Jump to main image(FW_FLAG_NON_UPDATE)'' @ [CHR 0x0A, CHR 0x0A]) d;
        jump_to_image ti (push_bit 12 CURRENT_FIRMWARE) d }
      else if fw_flag = FW_FLAG_ERROR_GI_LOADED then do {
        d \<leftarrow> print_uart_bl ti (''Jump to main image(ERROR_GI_LOADED)'' @ [CHR 0x0A, CHR 0x0A]) d;
        jump_to_image ti (push_bit 12 CURRENT_FIRMWARE) d }
      else if fw_flag = FW_FLAG_NEW_IMG_INT_RST then do {
        (_, d) \<leftarrow> bl_write_fw_flag ti FW_FLAG_NEW_IMG_INT d;
        d \<leftarrow> print_uart_bl ti (''Jump to main image(NEW_IMG_INT)'' @ [CHR 0x0A, CHR 0x0A]) d;
        jump_to_image ti (push_bit 12 CURRENT_FIRMWARE) d }
      else if fw_flag = FW_FLAG_NEW_IMG_INT then do {
        d \<leftarrow> print_uart_bl ti (''Update error(FW_FLAG_NEW_IMG_INT), flash golden image'' @ [CHR 0x0A]) d;
        (_, d) \<leftarrow> bl_update_firmware F ti 0 d;
        d \<leftarrow> print_uart_bl ti (''Set flag to ERROR_GI_LOADED'' @ [CHR 0x0A]) d;
        (_, d) \<leftarrow> bl_write_fw_flag ti FW_FLAG_ERROR_GI_LOADED d;
        Some (SystemReset, d) }
      else if fw_flag = FW_FLAG_NEW_IMG_EXT then do {
        d \<leftarrow> print_uart_bl ti (''Flash OTA image(NEW_IMG_EXT)'' @ [CHR 0x0A]) d;
        (_, d) \<leftarrow> bl_update_firmware F ti 1 d;
        d \<leftarrow> print_uart_bl ti (''Set flag to FW_FLAG_NEW_IMG_INT_RST'' @ [CHR 0x0A]) d;
        (_, d) \<leftarrow> bl_write_fw_flag ti FW_FLAG_NEW_IMG_INT_RST d;
        Some (SystemReset, d) }
      else Some (MainReturned, d))"

text \<open>\<open>main\<close>: lines 99 to 104, the report of lines 122 to 148, and the whole.\<close>

definition boot_start :: "'d ti \<Rightarrow> 'd \<Rightarrow> 'd option" where
  "boot_start ti d = do {
     d \<leftarrow> initialize_peripherals ti d;
     d \<leftarrow> initialize_uart ti d;
     d \<leftarrow> print_uart ti ([CHR 0x0A, CHR 0x0A] @
            ''/-----------------------------------------------------------/'' @ [CHR 0x0A]) d;
     d \<leftarrow> ti_do ti (IOCPinTypeGpioOutput LED_IOID) d;
     ti_do ti (GPIOSetDio LED_IOID) d }"

definition boot_report :: "'d ti \<Rightarrow> u8 \<Rightarrow> int \<Rightarrow> int \<Rightarrow> int \<Rightarrow> 'd \<Rightarrow> 'd option" where
  "boot_report ti flag verify_result_int verify_result_ota_0 verify_result_ota_1 d = do {
     d \<leftarrow> print_uart_bl ti ''FW flag: '' d;
     d \<leftarrow> print_uart_byte ti flag d;
     d \<leftarrow> print_uart ti [CHR 0x0A] d;
     d \<leftarrow> print_verify_int ti verify_result_int d;
     d \<leftarrow> print_verify_ota ti ''OTA slot GI: '' verify_result_ota_0 d;
     d \<leftarrow> print_verify_ota ti ''OTA slot update: '' verify_result_ota_1 d;
     ti_do ti (GPIOClearDio LED_IOID) d }"

definition boot_main :: "'d ti \<Rightarrow> ota_metadata \<Rightarrow> 'd \<Rightarrow> (boot_outcome \<times> 'd) option" where
  "boot_main ti junk d = do {
     d \<leftarrow> boot_start ti d;
     (spi_status, d) \<leftarrow> bl_ext_flash_init ti d;
     if spi_status = False then do {
       d \<leftarrow> print_uart_bl ti (''SPI flash not found, jump to main image'' @ [CHR 0x0A]) d;
       d \<leftarrow> ti_do ti (GPIOClearDio LED_IOID) d;
       jump_to_image ti (push_bit 12 CURRENT_FIRMWARE) d }
     else do {
       (flag, d) \<leftarrow> bl_read_fw_flag ti d;
       ((_, current_firmware), d) \<leftarrow> bl_get_current_metadata ti d;
       ((verify_result_int, current_firmware), d) \<leftarrow> bl_verify_current_firmware ti current_firmware d;
       (verify_result_ota_1, d) \<leftarrow> bl_verify_ota_slot (boot_flash ti) junk 1 d;
       (verify_result_ota_0, d) \<leftarrow> bl_verify_ota_slot (boot_flash ti) junk 0 d;
       d \<leftarrow> boot_report ti flag verify_result_int verify_result_ota_0 verify_result_ota_1 d;
       boot_decide (boot_flash ti) ti flag d } }"

end
