(* ===== verification/Ota_Boot_Laws.thy ===== *)
theory Ota_Boot_Laws
  imports Ota_Boot Ota_Laws
begin

text \<open>
  What a run of the bootloader does, proved over the interface \<open>flash_board\<close> with the
  bootloader's own flash driver (the locale \<open>boot_device\<close>): which flag leads to which
  image, flag and outcome (\<open>boot_plan\<close>), and that a corrupt image size keeps it in its CRC
  loop for ever.
\<close>

section \<open>The copies of the OTA functions\<close>

lemma bl_copies:
  "bl_FlashRead = FlashRead" "bl_get_current_metadata = get_current_metadata"
  "bl_validate_ota_metadata = validate_ota_metadata" "bl_erase_extflash_page = erase_extflash_page"
  by (simp_all add: fun_eq_iff bl_FlashRead_def FlashRead_def bl_get_current_metadata_def
      get_current_metadata_def bl_validate_ota_metadata_def validate_ota_metadata_def
      bl_erase_extflash_page_def erase_extflash_page_def)

lemma bl_int_crc_loop_copy: "bl_int_crc_loop = int_crc_loop"
  by (simp add: bl_int_crc_loop_def int_crc_loop_def crc16_copies)

lemma bl_slot_crc_loop_copy: "bl_slot_crc_loop = slot_crc_loop"
  by (simp add: bl_slot_crc_loop_def slot_crc_loop_def crc16_copies)

section \<open>Computations that leave both flashes alone\<close>

definition keeps :: "('d \<Rightarrow> bool) \<Rightarrow> ('d \<Rightarrow> 'm) \<Rightarrow> ('d \<Rightarrow> 'd option) \<Rightarrow> bool" where
  "keeps ok view f \<longleftrightarrow> (\<forall>d. ok d \<longrightarrow> (\<exists>d'. f d = Some d' \<and> ok d' \<and> view d' = view d))"

lemma keepsD: "keeps ok view f \<Longrightarrow> ok d \<Longrightarrow> \<exists>d'. f d = Some d' \<and> ok d' \<and> view d' = view d"
  by (simp add: keeps_def)

lemma keeps_bind [intro]:
  "keeps ok view f \<Longrightarrow> keeps ok view g \<Longrightarrow> keeps ok view (\<lambda>d. do { d \<leftarrow> f d; g d })"
  unfolding keeps_def by (metis bind.bind_lunit)

lemma keeps_Some [intro]: "keeps ok view Some"
  by (simp add: keeps_def)

lemma keeps_if [intro]:
  "keeps ok view f \<Longrightarrow> keeps ok view g \<Longrightarrow> keeps ok view (\<lambda>d. if c then f d else g d)"
  by (simp add: keeps_def)

lemma keeps_Some_eta [intro]: "keeps ok view (\<lambda>d. Some d)"
  by (simp add: keeps_def)

section \<open>What each flag leads to\<close>

text \<open>The next flag, the slot that is copied over the running image, and whether it is started.\<close>

definition boot_plan :: "u8 \<Rightarrow> u8 \<times> u8 option \<times> bool" where
  "boot_plan f =
     (if f = FW_FLAG_PING_OK then (FW_FLAG_NON_UPDATE, None, False)
      else if f = FW_FLAG_NEW_IMG_INT_RST then (FW_FLAG_NEW_IMG_INT, None, True)
      else if f = FW_FLAG_NEW_IMG_INT then (FW_FLAG_ERROR_GI_LOAD, Some 0, False)
      else if f = FW_FLAG_NEW_IMG_EXT then (FW_FLAG_NEW_IMG_INT_RST, Some 1, False)
      else (f, None, True))"

definition effective_flag :: "mem \<Rightarrow> u8" where
  "effective_flag m = (if fw_flag_valid (stored_flag m) then stored_flag m else FW_FLAG_NON_UPDATE)"

text \<open>The code of the running image: its 25 pages without the metadata area.\<close>

definition running_code :: "mem \<Rightarrow> bytes" where
  "running_code m = read_mem m 0x2100 (image_bytes - 256)"

definition running_size :: "mem \<Rightarrow> u32" where
  "running_size m = om_size (metadata_of_bytes (read_mem m 0x2000 OTA_METADATA_LENGTH))"

definition slot_code :: "mem \<Rightarrow> u8 \<Rightarrow> bytes" where
  "slot_code x slot = read_mem x (slot_addr slot + 256) (image_bytes - 256)"

definition reset_vector :: "mem \<Rightarrow> u32" where
  "reset_vector m = u32_of_bytes (m 0x2104) (m 0x2105) (m 0x2106) (m 0x2107) OR 1"

text \<open>The whole running image, metadata included, and that of a slot.\<close>

definition running_image :: "mem \<Rightarrow> bytes" where
  "running_image m = read_mem m 0x2000 image_bytes"

definition slot_image :: "mem \<Rightarrow> u8 \<Rightarrow> bytes" where
  "slot_image x slot = read_mem x (slot_addr slot) image_bytes"

text \<open>With the unit of 4096 bytes a backup changes nothing but the slot.\<close>

lemma put_image_erased:
  "put_bytes 0x19000 (running_image m) (erase_sectors 4096 0x19000 25 x) = put_bytes 0x19000 (running_image m) x"
  using erase_sectors_4096 [of "0x19" 25 x]
  by (auto simp: put_bytes_def fill_ff_def running_image_def image_bytes_def fun_eq_iff)

context flash_board begin

lemma backup_copies:
  assumes "0 < sector" "4096 dvd sector" "closed d"
  shows "\<exists>d'. backup_golden_image F ti d = Some (0, d') \<and> closed d' \<and> imem d' = imem d \<and>
    xmem d' = put_bytes 0x19000 (running_image (imem d)) (erase_sectors sector 0x19000 25 (xmem d))"
proof -
  have "and_bytes 0x19000 (running_image (imem d)) (erase_sectors sector 0x19000 25 (xmem d)) =
      put_bytes 0x19000 (running_image (imem d)) (erase_sectors sector 0x19000 25 (xmem d))"
    using erase_sectors_range [OF assms(1,2), of "0x19000" _ 25]
    by (intro and_bytes_put) (simp add: running_image_def image_bytes_def del: erase_sectors.simps)
  then show ?thesis
    using backup_ok [OF assms(3)] by (simp add: running_image_def del: erase_sectors.simps)
qed

end

lemma running_image_parts:
  assumes "running_image m = running_image m'"
  shows "running_code m = running_code m'" "reset_vector m = reset_vector m'"
    "read_mem m 0x2000 OTA_METADATA_LENGTH = read_mem m' 0x2000 OTA_METADATA_LENGTH"
proof -
  have same: "m x = m' x" if "0x2000 \<le> x" "x < 0x2000 + image_bytes" for x
  proof -
    have "running_image m ! (x - 0x2000) = running_image m' ! (x - 0x2000)" by (simp add: assms)
    with that show ?thesis by (simp add: running_image_def)
  qed
  show "running_code m = running_code m'"
    unfolding running_code_def by (rule read_mem_cong, rule same) (simp_all add: image_bytes_def)
  show "reset_vector m = reset_vector m'"
    using same [of "0x2104"] same [of "0x2105"] same [of "0x2106"] same [of "0x2107"]
    by (simp add: reset_vector_def image_bytes_def)
  show "read_mem m 0x2000 OTA_METADATA_LENGTH = read_mem m' 0x2000 OTA_METADATA_LENGTH"
    by (rule read_mem_cong, rule same) (simp_all add: image_bytes_def OTA_METADATA_LENGTH_def)
qed

lemma copied_code:
  assumes "running_image m = slot_image x s"
  shows "running_code m = slot_code x s" and "running_size m = om_size (slot_metadata x s)"
proof (rule nth_equalityI)
  show "length (running_code m) = length (slot_code x s)" by (simp add: running_code_def slot_code_def)
  fix i
  assume i: "i < length (running_code m)"
  have "running_image m ! (256 + i) = slot_image x s ! (256 + i)" by (simp add: assms)
  with i show "running_code m ! i = slot_code x s ! i"
    by (simp add: running_code_def slot_code_def running_image_def slot_image_def image_bytes_def add.assoc)
next
  have "read_mem m 0x2000 OTA_METADATA_LENGTH = read_mem x (slot_addr s) OTA_METADATA_LENGTH"
  proof (rule nth_equalityI)
    fix i
    assume i: "i < length (read_mem m 0x2000 OTA_METADATA_LENGTH)"
    have "running_image m ! i = slot_image x s ! i" by (simp add: assms)
    with i show "read_mem m 0x2000 OTA_METADATA_LENGTH ! i = read_mem x (slot_addr s) OTA_METADATA_LENGTH ! i"
      by (simp add: running_image_def slot_image_def image_bytes_def OTA_METADATA_LENGTH_def)
  qed simp
  then show "running_size m = om_size (slot_metadata x s)"
    by (simp add: running_size_def slot_metadata_def)
qed

lemma outside_user_image:
  assumes "outside_user m = outside_user m'"
  shows "running_image m = running_image m'"
  unfolding running_image_def
proof (rule read_mem_cong)
  fix x :: nat
  assume "0x2000 \<le> x" "x < 0x2000 + image_bytes"
  with fun_cong [OF assms, of x] show "m x = m' x"
    by (simp add: outside_user_def START_USER_FLASH_def image_bytes_def)
qed

lemma copied_image:
  assumes "length bs = image_bytes"
  shows "running_image (put_bytes 0x2000 bs m) = bs"
    and "user_bytes (put_bytes 0x2000 bs m) = user_bytes m"
proof -
  show "running_image (put_bytes 0x2000 bs m) = bs"
    using read_put_bytes [of "0x2000" bs m] by (simp only: running_image_def assms)
  show "user_bytes (put_bytes 0x2000 bs m) = user_bytes m"
    unfolding user_bytes_def
    by (rule read_mem_cong) (simp add: put_bytes_def assms image_bytes_def START_USER_FLASH_def)
qed

text \<open>Stamping the shadow CRC into the metadata of the running image changes nothing else.\<close>

definition stamped :: "mem \<Rightarrow> u16 \<Rightarrow> mem" where
  "stamped m c = and_bytes 0x2000
     (bytes_of_metadata ((metadata_of_bytes (read_mem m 0x2000 OTA_METADATA_LENGTH))\<lparr>om_crc_shadow := c\<rparr>)) m"

lemma stamped_keeps:
  "running_code (stamped m c) = running_code m"
  "user_bytes (stamped m c) = user_bytes m"
  "reset_vector (stamped m c) = reset_vector m"
  "running_size (stamped m c) = running_size m"
proof -
  let ?b = "bytes_of_metadata ((metadata_of_bytes (read_mem m 0x2000 OTA_METADATA_LENGTH))\<lparr>om_crc_shadow := c\<rparr>)"
  have "stamped m c (0x2000 + i) = m (0x2000 + i)" if "i \<in> {4, 5, 6, 7}" for i
  proof -
    have "stamped m c (0x2000 + i) = m (0x2000 + i) AND ?b ! i"
      using that by (auto simp: stamped_def and_bytes_def OTA_METADATA_LENGTH_def)
    moreover have "?b ! i = m (0x2000 + i)"
      using that by (auto simp: bytes_of_metadata_def metadata_of_bytes_def bytes_simps OTA_METADATA_LENGTH_def)
    ultimately show ?thesis by simp
  qed
  from this [of 4] this [of 5] this [of 6] this [of 7]
  show "running_size (stamped m c) = running_size m"
    by (simp add: running_size_def metadata_of_bytes_def OTA_METADATA_LENGTH_def)
qed (auto simp: running_code_def user_bytes_def reset_vector_def stamped_def and_bytes_outside
      OTA_METADATA_LENGTH_def START_USER_FLASH_def intro!: read_mem_cong)

text \<open>
  The effect of acting on flag \<open>f\<close> with internal flash \<open>m\<close> and external flash \<open>x\<close>: the flag
  and the image left in the internal flash \<open>m'\<close>, and the outcome.
\<close>

definition boot_result :: "u8 \<Rightarrow> mem \<Rightarrow> mem \<Rightarrow> boot_outcome \<Rightarrow> mem \<Rightarrow> bool" where
  "boot_result f m x outcome m' \<longleftrightarrow>
     stored_flag m' = fst (boot_plan f) \<and>
     running_code m' =
       (case fst (snd (boot_plan f)) of None \<Rightarrow> running_code m | Some s \<Rightarrow> slot_code x s) \<and>
     running_size m' =
       (case fst (snd (boot_plan f)) of None \<Rightarrow> running_size m | Some s \<Rightarrow> om_size (slot_metadata x s)) \<and>
     outcome = (if snd (snd (boot_plan f)) then Jumped (reset_vector m') else SystemReset)"

text \<open>Sizes the CRC loops can cope with.\<close>

definition sizes_ok :: "mem \<Rightarrow> mem \<Rightarrow> bool" where
  "sizes_ok m x \<longleftrightarrow>
     0x2100 + 4 * crc_words 0x2100 (running_size m) \<le> int_flash_size \<and>
     0x32100 + om_size (slot_metadata x 1) \<le> 0xFFFFFFFC \<and>
     0x19100 + om_size (slot_metadata x 0) \<le> 0xFFFFFFFC"

locale boot_device = flash_board "boot_flash ti" sector closed opened idle xmem imem ti
  for sector and closed opened idle :: "'d \<Rightarrow> bool" and xmem imem :: "'d \<Rightarrow> mem" and ti :: "'d ti"
begin

lemma quiet_keeps: "quiet_call c \<Longrightarrow> keeps closed (\<lambda>d. (xmem d, imem d)) (ti_do ti c)"
  using quiet [of c] by (force simp: keeps_def ti_do_def)

lemma print_from_keeps:
  "length s - unat i \<le> n \<Longrightarrow> length s < 256 \<Longrightarrow> keeps closed (\<lambda>d. (xmem d, imem d)) (print_uart_from ti s i)"
proof (induction n arbitrary: i)
  case 0
  then have "print_uart_from ti s i = Some"
    by (intro ext) (subst print_uart_from.simps, simp)
  then show ?case by (simp add: keeps_Some)
next
  case (Suc n)
  show ?case
  proof (cases "unat i < length s")
    case True
    then have "unat (i + 1) = Suc (unat i)"
      using Suc.prems(2) by (simp add: unat_word_ariths)
    then have "keeps closed (\<lambda>d. (xmem d, imem d)) (print_uart_from ti s (i + 1))"
      using Suc.prems by (intro Suc.IH) simp_all
    moreover have "keeps closed (\<lambda>d. (xmem d, imem d)) (ti_do ti (UARTCharPut (of_char (s ! unat i))))"
      by (rule quiet_keeps) (simp add: quiet_call_def)
    moreover have "print_uart_from ti s i =
        (\<lambda>d. do { d \<leftarrow> ti_do ti (UARTCharPut (of_char (s ! unat i))) d; print_uart_from ti s (i + 1) d })"
      using True by (intro ext) (subst print_uart_from.simps, simp)
    ultimately show ?thesis by (simp add: keeps_bind)
  next
    case False
    then have "print_uart_from ti s i = Some"
      by (intro ext) (subst print_uart_from.simps, simp)
    then show ?thesis by (simp add: keeps_Some)
  qed
qed

lemma print_keeps [intro]: "length s < 256 \<Longrightarrow> keeps closed (\<lambda>d. (xmem d, imem d)) (print_uart ti s)"
  using print_from_keeps [of s 0 "length s"] by (simp add: print_uart_def [abs_def])

lemma print_bl_keeps [intro]: "length s < 256 \<Longrightarrow> keeps closed (\<lambda>d. (xmem d, imem d)) (print_uart_bl ti s)"
  unfolding print_uart_bl_def [abs_def] by (intro keeps_bind print_keeps) simp_all

lemma print_byte_keeps: "keeps closed (\<lambda>d. (xmem d, imem d)) (print_uart_byte ti b)"
  unfolding print_uart_byte_def [abs_def] by (rule quiet_keeps) (simp add: quiet_call_def)

lemma print_verify_int_keeps: "keeps closed (\<lambda>d. (xmem d, imem d)) (print_verify_int ti r)"
  unfolding print_verify_int_def [abs_def]
  by (intro keeps_bind print_bl_keeps keeps_if print_keeps keeps_Some_eta) simp_all

lemma print_verify_ota_keeps:
  "length t < 256 \<Longrightarrow> keeps closed (\<lambda>d. (xmem d, imem d)) (print_verify_ota ti t r)"
  unfolding print_verify_ota_def [abs_def]
  by (intro keeps_bind print_bl_keeps keeps_if print_keeps keeps_Some_eta) simp_all

text \<open>Start-up.\<close>

lemma power_keeps:
  "keeps closed (\<lambda>d. (xmem d, imem d)) (\<lambda>d. do {
     d \<leftarrow> ti_do ti (PRCMPowerDomainOn pd) d;
     ti_wait ti (PRCMPowerDomainStatus pd) (\<lambda>r. r = PRCM_DOMAIN_POWER_ON) d })"
  using powered [of _ pd] by (force simp: keeps_def ti_do_def ti_wait_ok)

lemma load_keeps:
  "keeps closed (\<lambda>d. (xmem d, imem d)) (ti_wait ti PRCMLoadGet (\<lambda>r. r \<noteq> 0))"
  using loaded by (force simp: keeps_def ti_wait_ok)

lemma peripherals_keeps: "keeps closed (\<lambda>d. (xmem d, imem d)) (initialize_peripherals ti)"
proof -
  have "keeps closed (\<lambda>d. (xmem d, imem d)) (\<lambda>d. do {
      d \<leftarrow> do { d \<leftarrow> ti_do ti (PRCMPowerDomainOn PRCM_DOMAIN_PERIPH) d;
        ti_wait ti (PRCMPowerDomainStatus PRCM_DOMAIN_PERIPH) (\<lambda>r. r = PRCM_DOMAIN_POWER_ON) d };
      d \<leftarrow> ti_do ti (PRCMPeripheralRunEnable PRCM_PERIPH_GPIO) d;
      d \<leftarrow> ti_do ti PRCMLoadSet d;
      d \<leftarrow> ti_wait ti PRCMLoadGet (\<lambda>r. r \<noteq> 0) d;
      if v = (0 :: u32) then ti_do ti IntMasterEnable d else Some d })" (is "keeps _ _ ?rest") for v
    by (intro keeps_bind [OF power_keeps] keeps_bind keeps_if keeps_Some_eta load_keeps quiet_keeps)
      (simp_all add: quiet_call_def)
  moreover have "\<exists>v d'. ti IntMasterDisable d = Some (v, d') \<and> closed d' \<and> xmem d' = xmem d \<and> imem d' = imem d"
    if "closed d" for d
    by (rule quiet [OF _ that]) (simp add: quiet_call_def)
  ultimately show ?thesis
    unfolding keeps_def initialize_peripherals_def by (fastforce simp: Option.bind_assoc)
qed

lemma uart_keeps: "keeps closed (\<lambda>d. (xmem d, imem d)) (initialize_uart ti)"
proof -
  have "keeps closed (\<lambda>d. (xmem d, imem d)) (\<lambda>d. do {
      d \<leftarrow> do { d \<leftarrow> ti_do ti (PRCMPowerDomainOn PRCM_DOMAIN_SERIAL) d;
        ti_wait ti (PRCMPowerDomainStatus PRCM_DOMAIN_SERIAL) (\<lambda>r. r = PRCM_DOMAIN_POWER_ON) d };
      d \<leftarrow> ti_do ti (PRCMPeripheralRunEnable PRCM_PERIPH_UART0) d;
      d \<leftarrow> ti_do ti PRCMLoadSet d;
      d \<leftarrow> ti_wait ti PRCMLoadGet (\<lambda>r. r \<noteq> 0) d;
      ti_do ti UARTSetup d })"
    by (intro keeps_bind [OF power_keeps] keeps_bind load_keeps quiet_keeps) (simp_all add: quiet_call_def)
  then show ?thesis by (simp add: initialize_uart_def [abs_def] Option.bind_assoc)
qed

lemma flash_init_ok:
  assumes "closed d"
  shows "\<exists>d'. bl_ext_flash_init ti d = Some (True, d') \<and> closed d' \<and> xmem d' = xmem d \<and> imem d' = imem d"
proof -
  obtain d1 where d1: "ef_open (boot_flash ti) d = Some (True, d1)" "idle d1" "xmem d1 = xmem d" "imem d1 = imem d"
    using open_ok [OF assms] by blast
  obtain d2 where "ef_close (boot_flash ti) d1 = Some d2" "closed d2" "xmem d2 = xmem d" "imem d2 = imem d"
    using close_ok [OF idle_opened [OF d1(2)]] d1 by auto
  then show ?thesis
    using d1 by (simp add: bl_ext_flash_init_def boot_flash_def bl_ext_flash_open_def bl_ext_flash_close_def)
qed

lemma jump_ok:
  assumes "closed d"
  shows "\<exists>d'. jump_to_image ti (push_bit 12 CURRENT_FIRMWARE) d = Some (Jumped (reset_vector (imem d)), d') \<and>
    closed d' \<and> imem d' = imem d \<and> xmem d' = xmem d"
proof -
  have a: "unat (push_bit 12 CURRENT_FIRMWARE + OTA_METADATA_SPACE + OTA_RESET_VECTOR) = 0x2104"
    by (simp add: CURRENT_FIRMWARE_def OTA_METADATA_SPACE_def OTA_RESET_VECTOR_def)
  have "push_bit 12 CURRENT_FIRMWARE \<noteq> 0" by (simp add: CURRENT_FIRMWARE_def)
  moreover obtain d1 where "mem_copy_loop ti (push_bit 12 CURRENT_FIRMWARE + OTA_METADATA_SPACE + OTA_RESET_VECTOR) 4 d
      = Some (read_mem (imem d) 0x2104 4, d1)" "closed d1" "imem d1 = imem d" "xmem d1 = xmem d"
    using mem_copy_ok [OF assms, of "push_bit 12 CURRENT_FIRMWARE + OTA_METADATA_SPACE + OTA_RESET_VECTOR" 4]
    unfolding a by (auto simp: int_flash_size_def)
  ultimately show ?thesis
    by (auto simp: jump_to_image_def Let_def reset_vector_def)
qed

text \<open>The CRC loop over a slot ends exactly when its end address is at most 0xFFFFFFFC.\<close>

lemma slot_crc_ends:
  assumes "idle d" "e \<le> 0xFFFFFFFC"
  shows "\<exists>c d'. slot_crc_loop (boot_flash ti) a e crc d = Some (Some c, d') \<and> idle d' \<and>
    xmem d' = xmem d \<and> imem d' = imem d"
  using assms
proof (induction "unat e - unat a" arbitrary: a crc d rule: less_induct)
  case less
  show ?case
  proof (cases "a < e")
    case True
    obtain w d1 where d1: "ef_read (boot_flash ti) a 4 d = Some ((True, w), d1)" "idle d1"
      "xmem d1 = xmem d" "imem d1 = imem d"
      using read_any [OF less.prems(1)] by blast
    have "unat a < unat e" "unat e \<le> 0xFFFFFFFC"
      using True less.prems(2) by (simp_all add: word_less_nat_alt word_le_nat_alt)
    then have "unat (a + 4) = unat a + 4"
      using unat_lt_add [of a 4] by simp
    then have "unat e - unat (a + 4) < unat e - unat a" using \<open>unat a < unat e\<close> by simp
    from less.hyps [OF this d1(2) less.prems(2)] show ?thesis
      using d1 True by (subst slot_crc_loop_simps) auto
  next
    case False
    then show ?thesis using less.prems by (subst slot_crc_loop_simps) auto
  qed
qed

lemma verify_slot_ends:
  assumes "closed d" "slot \<le> 3"
    and "of_nat (slot_addr slot) + 0x100 + om_size (slot_metadata (xmem d) slot) \<le> 0xFFFFFFFC"
  shows "\<exists>r d'. bl_verify_ota_slot (boot_flash ti) junk slot d = Some (r, d') \<and> closed d' \<and>
    xmem d' = xmem d \<and> imem d' = imem d"
proof -
  obtain p where p: "slot_page slot = Some p" "unat (push_bit 12 p) = slot_addr slot"
    using slot_page_ok [OF assms(2)] .
  have p12: "push_bit 12 p = word_of_nat (slot_addr slot)" by (simp only: p(2) [symmetric]) simp
  obtain d1 where d1: "slot_metadata_retry (boot_flash ti) slot junk d = Some (slot_metadata (xmem d) slot, d1)"
    "closed d1" "xmem d1 = xmem d" "imem d1 = imem d"
    using slot_metadata_retry_ok [OF assms(1,2), of junk] by blast
  obtain d2 where d2: "ef_open (boot_flash ti) d1 = Some (True, d2)" "idle d2" "xmem d2 = xmem d" "imem d2 = imem d"
    using open_ok [OF d1(2)] d1 by auto
  obtain c d3 where d3: "slot_crc_loop (boot_flash ti) (push_bit 12 p + OTA_METADATA_SPACE)
      (push_bit 12 p + OTA_METADATA_SPACE + om_size (slot_metadata (xmem d) slot)) 0 d2 = Some (Some c, d3)"
      "idle d3" "xmem d3 = xmem d" "imem d3 = imem d"
    using slot_crc_ends [OF d2(2), of "push_bit 12 p + OTA_METADATA_SPACE + om_size (slot_metadata (xmem d) slot)"
        "push_bit 12 p + OTA_METADATA_SPACE" 0] assms(3) d2
    by (auto simp: p12 OTA_METADATA_SPACE_def)
  obtain d4 where "ef_close (boot_flash ti) d3 = Some d4" "closed d4" "xmem d4 = xmem d" "imem d4 = imem d"
    using close_ok [OF idle_opened [OF d3(2)]] d3 by auto
  then show ?thesis
    by (simp add: bl_verify_ota_slot_def p(1) d1 d2 bl_slot_crc_loop_copy d3 Let_def)
qed

lemma aligned_below:
  assumes "unat (a :: u32) mod 4 = 0" "0xFFFFFFFC < e"
  shows "a < e" "unat (a + 4) mod 4 = 0"
proof -
  have "unat a \<noteq> 0xFFFFFFFD" "unat a \<noteq> 0xFFFFFFFE" "unat a \<noteq> 0xFFFFFFFF" using assms(1) by auto
  then have "unat a \<le> 0xFFFFFFFC" using unat_lt_u32 [of a] by linarith
  then show "a < e" using assms(2) by (simp add: word_less_nat_alt)
  have "unat (a + 4) = (unat a + 4) mod 4294967296" by (simp add: unat_word_ariths)
  moreover have "(unat a + 4) mod 4294967296 mod 4 = (unat a + 4) mod 4"
    by (rule mod_mod_cancel) simp
  ultimately show "unat (a + 4) mod 4 = 0" using assms(1) by simp
qed

lemma slot_crc_diverges:
  assumes "idle d" "unat a mod 4 = 0" "0xFFFFFFFC < e"
  shows "slot_crc_loop (boot_flash ti) a e crc d = None"
proof (rule ccontr)
  assume "slot_crc_loop (boot_flash ti) a e crc d \<noteq> None"
  then obtain y where ret: "slot_crc_with crc16 (boot_flash ti) a e crc d = Some y"
    by (auto simp: slot_crc_loop_def)
  have "boot_flash ti = boot_flash ti \<and> e = e \<longrightarrow> \<not> (idle d \<and> unat a mod 4 = 0)"
  proof (rule slot_crc_with.raw_induct
      [where P = "\<lambda>f F a e' crc d y. F = boot_flash ti \<and> e' = e \<longrightarrow> \<not> (idle d \<and> unat a mod 4 = 0)", OF _ ret],
      intro impI notI, elim conjE)
    fix g :: "(u16 \<Rightarrow> u8 \<Rightarrow> u16) \<Rightarrow> 'd ext_flash_h \<Rightarrow> u32 \<Rightarrow> u32 \<Rightarrow> u16 \<Rightarrow> 'd \<Rightarrow> (u16 option \<times> 'd) option"
    fix f F a e' crc d y
    assume IH: "\<And>f F a e' crc d y. g f F a e' crc d = Some y \<Longrightarrow>
        F = boot_flash ti \<and> e' = e \<longrightarrow> \<not> (idle d \<and> unat a mod 4 = 0)"
      and eq: "(if a < e' then do {
        ((acc, w), d) \<leftarrow> ef_read F a 4 d;
        if \<not> acc then do { d \<leftarrow> ef_close F d; Some (None, d) }
        else g f F (a + 4) e' (foldl f crc w) d }
      else Some (Some crc, d)) = Some y"
      and F: "F = boot_flash ti" "e' = e" and d: "idle d" "unat a mod 4 = 0"
    obtain w d1 where d1: "ef_read (boot_flash ti) a 4 d = Some ((True, w), d1)" "idle d1"
      using read_any [OF d(1)] by blast
    have "g f (boot_flash ti) (a + 4) e (foldl f crc w) d1 = Some y"
      using eq F d1 aligned_below(1) [OF d(2) assms(3)] by simp
    from IH [OF this] aligned_below(2) [OF d(2) assms(3)] d1(2) show False by simp
  qed
  with assms show False by simp
qed

text \<open>Copying an image over the running one.\<close>

lemma bl_update_ok:
  assumes "closed d" "slot \<le> 3"
  shows "\<exists>d'. bl_update_firmware (boot_flash ti) ti slot d = Some (0, d') \<and> closed d' \<and> xmem d' = xmem d \<and>
    imem d' = put_bytes 0x2000 (read_mem (xmem d) (slot_addr slot) image_bytes) (imem d)"
proof -
  obtain p where p: "slot_page slot = Some p" "unat (push_bit 12 p) = slot_addr slot"
    "slot_addr slot + image_bytes \<le> ext_flash_size"
    using slot_page_ok [OF assms(2)] .
  let ?body = "\<lambda>i d. do {
      d \<leftarrow> while_nonzero (update_firmware_page (boot_flash ti) ti (push_bit 12 p + push_bit 12 (of_nat i))
        (push_bit 12 (of_nat i + CURRENT_FIRMWARE))) d;
      print_uart ti ''.'' d }"
  let ?I = "\<lambda>i d'. closed d' \<and> xmem d' = xmem d \<and>
    imem d' = put_bytes 0x2000 (read_mem (xmem d) (slot_addr slot) (4096 * i)) (imem d)"
  obtain d0 where d0: "print_uart ti (''Bootloader:'' @ [CHR 0x09] @ '' Flash internal memory: '') d = Some d0"
    "closed d0" "xmem d0 = xmem d" "imem d0 = imem d"
    using keepsD [OF print_keeps assms(1), of "''Bootloader:'' @ [CHR 0x09] @ '' Flash internal memory: ''"]
    by (auto simp del: append.simps)
  have "\<exists>d'. for_each ?body [0..<25] d0 = Some d' \<and> ?I 25 d'"
  proof (rule for_each_upt)
    fix i d1
    assume i: "i < 25" and I: "?I i d1"
    obtain d2 where d2: "update_firmware_page (boot_flash ti) ti (push_bit 12 p + push_bit 12 (of_nat i))
        (push_bit 12 (of_nat i + CURRENT_FIRMWARE)) d1 = Some (0, d2)" "?I (Suc i) d2"
      using update_step_ok [where m = "imem d", OF _ _ p(2,3) i, of d1 d] I by auto
    then show "\<exists>d'. ?body i d1 = Some d' \<and> ?I (Suc i) d'"
      using keepsD [OF print_keeps, of "''.''" d2] by (auto simp: while_nonzero_ok)
  qed (use d0 in simp)
  then obtain d3 where d3: "for_each ?body [0..<25] d0 = Some d3" "?I 25 d3" by blast
  then show ?thesis
    using keepsD [OF print_keeps, of "[CHR 0x0A]" d3]
    by (auto simp: bl_update_firmware_def p(1) d0 bl_update_firmware_page_def image_bytes_def
        simp del: append.simps)
qed

lemma bl_verify_current_ok:
  assumes "closed d"
  defines "m \<equiv> metadata_of_bytes (read_mem (imem d) 0x2000 OTA_METADATA_LENGTH)"
  defines "n \<equiv> crc_words 0x2100 (om_size m)"
  defines "c \<equiv> image_crc (read_mem (imem d) 0x2100 (4 * n))"
  assumes fits: "0x2100 + 4 * n \<le> int_flash_size"
  shows "\<exists>d'. bl_verify_current_firmware ti m d =
      Some ((if c = om_crc m then CORRECT_CRC else NON_CORRECT_CRC, m\<lparr>om_crc_shadow := c\<rparr>), d') \<and>
    closed d' \<and> xmem d' = xmem d \<and> imem d' = stamped (imem d) c"
proof -
  let ?a = "0x2000 + OTA_METADATA_SPACE"
  have a: "?a = 0x2100" "unat (0x2100 :: u32) = 0x2100" by (simp_all add: OTA_METADATA_SPACE_def)
  have "\<exists>d'. int_crc_loop ti 0x2100 (0x2100 + om_size m) 0 d =
      Some (crc_bytes 0 (read_mem (imem d) (unat (0x2100 :: u32)) (4 * n)), d') \<and>
      closed d' \<and> xmem d' = xmem d \<and> imem d' = imem d"
    using assms(1) fits crc_words_bounds [of "0x2100" "om_size m"]
    by (intro int_crc_loop_ok) (simp_all only: a(2) n_def [symmetric] simp_thms)
  then obtain d1 where d1: "int_crc_loop ti 0x2100 (0x2100 + om_size m) 0 d =
      Some (crc_bytes 0 (read_mem (imem d) 0x2100 (4 * n)), d1)"
      "closed d1" "xmem d1 = xmem d" "imem d1 = imem d"
    unfolding a by blast
  let ?m = "m\<lparr>om_crc_shadow := c\<rparr>"
  have "unat (push_bit 12 CURRENT_FIRMWARE) = 0x2000" by (simp add: CURRENT_FIRMWARE_def)
  then obtain d2 where "ti (FlashProgram (bytes_of_metadata ?m) (push_bit 12 CURRENT_FIRMWARE)) d1 = Some (0, d2)"
      "closed d2" "imem d2 = and_bytes 0x2000 (bytes_of_metadata ?m) (imem d)" "xmem d2 = xmem d"
    using program [OF d1(2), of "push_bit 12 CURRENT_FIRMWARE" "bytes_of_metadata ?m"] d1
    by (auto simp: OTA_METADATA_LENGTH_def int_flash_size_def)
  then show ?thesis
    using d1 by (simp add: bl_verify_current_firmware_def bl_int_crc_loop_copy crc16_copies a(1) c_def
        image_crc_def ti_wait_ok stamped_def m_def Let_def)
qed

text \<open>Acting on the flag.\<close>

lemma flag_written:
  assumes "closed d" "fw_flag_valid f"
  shows "\<exists>r d'. bl_write_fw_flag ti f d = Some (r, d') \<and> closed d' \<and> xmem d' = xmem d \<and>
    stored_flag (imem d') = f \<and> running_image (imem d') = running_image (imem d)"
proof -
  obtain d1 where "write_fw_flag ti f d = Some (FLAG_OK_WRITE, d1)" "closed d1" "stored_flag (imem d1) = f"
    "outside_user (imem d1) = outside_user (imem d)" "xmem d1 = xmem d"
    using write_flag_ok [OF assms] by blast
  then show ?thesis by (auto simp: bl_write_fw_flag_copy dest: outside_user_image)
qed

lemma boot_installs:
  assumes "closed d" "slot \<le> 3" "fw_flag_valid f" "length s < 256" "length t < 256"
  shows "\<exists>d'. do { d \<leftarrow> print_uart_bl ti s d; (_, d) \<leftarrow> bl_update_firmware (boot_flash ti) ti slot d;
        d \<leftarrow> print_uart_bl ti t d; (_, d) \<leftarrow> bl_write_fw_flag ti f d; Some (SystemReset, d) } =
      Some (SystemReset, d') \<and> closed d' \<and> xmem d' = xmem d \<and> stored_flag (imem d') = f \<and>
      running_image (imem d') = slot_image (xmem d) slot"
proof -
  obtain d1 where d1: "print_uart_bl ti s d = Some d1" "closed d1" "xmem d1 = xmem d" "imem d1 = imem d"
    using keepsD [OF print_bl_keeps [OF assms(4)] assms(1)] by auto
  obtain d2 where d2: "bl_update_firmware (boot_flash ti) ti slot d1 = Some (0, d2)" "closed d2" "xmem d2 = xmem d"
    "running_image (imem d2) = slot_image (xmem d) slot"
    using bl_update_ok [OF d1(2) assms(2)] copied_image(1) [of "slot_image (xmem d) slot" "imem d"] d1
    by (auto simp: slot_image_def)
  obtain d3 where d3: "print_uart_bl ti t d2 = Some d3" "closed d3" "xmem d3 = xmem d2" "imem d3 = imem d2"
    using keepsD [OF print_bl_keeps [OF assms(5)] d2(2)] by auto
  obtain r d4 where "bl_write_fw_flag ti f d3 = Some (r, d4)" "closed d4" "xmem d4 = xmem d"
    "stored_flag (imem d4) = f" "running_image (imem d4) = slot_image (xmem d) slot"
    using flag_written [OF d3(2) assms(3)] d2 d3 by auto
  then show ?thesis by (simp add: d1 d2 d3)
qed

lemma boot_jumps:
  assumes "closed d" "length s < 256"
  shows "\<exists>d'. do { d \<leftarrow> print_uart_bl ti s d; jump_to_image ti (push_bit 12 CURRENT_FIRMWARE) d } =
    Some (Jumped (reset_vector (imem d)), d') \<and> closed d' \<and> xmem d' = xmem d \<and> imem d' = imem d"
proof -
  obtain d1 where d1: "print_uart_bl ti s d = Some d1" "closed d1" "xmem d1 = xmem d" "imem d1 = imem d"
    using keepsD [OF print_bl_keeps [OF assms(2)] assms(1)] by auto
  then show ?thesis using jump_ok [OF d1(2)] by auto
qed

lemma boot_decide_ok:
  assumes "closed d" "fw_flag_valid f" "stored_flag (imem d) = f"
  shows "\<exists>outcome d'. boot_decide (boot_flash ti) ti f d = Some (outcome, d') \<and> closed d' \<and> xmem d' = xmem d \<and>
    boot_result f (imem d) (xmem d) outcome (imem d')"
proof -
  have valid: "fw_flag_valid FW_FLAG_NON_UPDATE" "fw_flag_valid FW_FLAG_NEW_IMG_INT"
    "fw_flag_valid FW_FLAG_ERROR_GI_LOADED" "fw_flag_valid FW_FLAG_NEW_IMG_INT_RST"
    by (simp_all add: fw_flag_valid_def gi_flag_copies)
  consider (ping) "f = FW_FLAG_PING_OK" | (non) "f = FW_FLAG_NON_UPDATE" | (gi) "f = FW_FLAG_ERROR_GI_LOADED"
    | (rst) "f = FW_FLAG_NEW_IMG_INT_RST" | (int) "f = FW_FLAG_NEW_IMG_INT" | (ext) "f = FW_FLAG_NEW_IMG_EXT"
    using assms(2) by (auto simp: fw_flag_valid_def gi_flag_copies)
  then show ?thesis
  proof cases
    case ping
    obtain d1 where d1: "print_uart_bl ti (''OTA Update ok(PING_OK), change flag, reboot'' @ [CHR 0x0A]) d = Some d1"
      "closed d1" "xmem d1 = xmem d" "imem d1 = imem d"
      using keepsD [OF print_bl_keeps assms(1), of "''OTA Update ok(PING_OK), change flag, reboot'' @ [CHR 0x0A]"]
      by (auto simp del: append.simps)
    obtain r d2 where "bl_write_fw_flag ti FW_FLAG_NON_UPDATE d1 = Some (r, d2)" "closed d2" "xmem d2 = xmem d"
      "stored_flag (imem d2) = FW_FLAG_NON_UPDATE" "running_image (imem d2) = running_image (imem d)"
      using flag_written [OF d1(2) valid(1)] d1 by auto
    then show ?thesis
      using d1 ping running_image_parts [of "imem d2" "imem d"]
      by (simp add: running_size_def boot_decide_def boot_result_def boot_plan_def del: append.simps)
  next
    case non
    then show ?thesis
      using boot_jumps [OF assms(1), of "''Jump to main image(FW_FLAG_NON_UPDATE)'' @ [CHR 0x0A, CHR 0x0A]"] assms(3)
      by (auto simp: boot_decide_def boot_result_def boot_plan_def fw_flag_defs simp del: append.simps)
  next
    case gi
    then show ?thesis
      using boot_jumps [OF assms(1), of "''Jump to main image(ERROR_GI_LOADED)'' @ [CHR 0x0A, CHR 0x0A]"] assms(3)
      by (auto simp: boot_decide_def boot_result_def boot_plan_def fw_flag_defs FW_FLAG_ERROR_GI_LOADED_def
          simp del: append.simps)
  next
    case rst
    obtain r d1 where d1: "bl_write_fw_flag ti FW_FLAG_NEW_IMG_INT d = Some (r, d1)" "closed d1" "xmem d1 = xmem d"
      "stored_flag (imem d1) = FW_FLAG_NEW_IMG_INT" "running_image (imem d1) = running_image (imem d)"
      using flag_written [OF assms(1) valid(2)] by auto
    show ?thesis
      using d1 rst running_image_parts [OF d1(5)]
        boot_jumps [OF d1(2), of "''Jump to main image(NEW_IMG_INT)'' @ [CHR 0x0A, CHR 0x0A]"]
      by (auto simp: running_size_def boot_decide_def boot_result_def boot_plan_def fw_flag_defs
          FW_FLAG_ERROR_GI_LOADED_def simp del: append.simps)
  next
    case int
    obtain d' where d': "boot_decide (boot_flash ti) ti f d = Some (SystemReset, d')" "closed d'" "xmem d' = xmem d"
      "stored_flag (imem d') = FW_FLAG_ERROR_GI_LOADED" "running_image (imem d') = slot_image (xmem d) 0"
      using boot_installs [OF assms(1) _ valid(3), of 0
          "''Update error(FW_FLAG_NEW_IMG_INT), flash golden image'' @ [CHR 0x0A]"
          "''Set flag to ERROR_GI_LOADED'' @ [CHR 0x0A]"] int
      by (auto simp: boot_decide_def fw_flag_defs FW_FLAG_ERROR_GI_LOADED_def simp del: append.simps)
    then show ?thesis
      using int copied_code [OF d'(5)]
      by (auto simp: boot_result_def boot_plan_def fw_flag_defs FW_FLAG_ERROR_GI_LOADED_def)
  next
    case ext
    obtain d' where d': "boot_decide (boot_flash ti) ti f d = Some (SystemReset, d')" "closed d'" "xmem d' = xmem d"
      "stored_flag (imem d') = FW_FLAG_NEW_IMG_INT_RST" "running_image (imem d') = slot_image (xmem d) 1"
      using boot_installs [OF assms(1) _ valid(4), of 1
          "''Flash OTA image(NEW_IMG_EXT)'' @ [CHR 0x0A]"
          "''Set flag to FW_FLAG_NEW_IMG_INT_RST'' @ [CHR 0x0A]"] ext
      by (auto simp: boot_decide_def fw_flag_defs FW_FLAG_ERROR_GI_LOADED_def simp del: append.simps)
    then show ?thesis
      using ext copied_code [OF d'(5)]
      by (auto simp: boot_result_def boot_plan_def fw_flag_defs)
  qed
qed

lemma verify_both_ok:
  assumes "closed d" "sizes_ok m (xmem d)"
  shows "\<exists>r1 r0 d1 d'. bl_verify_ota_slot (boot_flash ti) junk 1 d = Some (r1, d1) \<and>
    bl_verify_ota_slot (boot_flash ti) junk 0 d1 = Some (r0, d') \<and>
    closed d' \<and> xmem d' = xmem d \<and> imem d' = imem d"
proof -
  have addrs: "slot_addr 1 = 0x32000" "slot_addr 0 = 0x19000"
    by (simp_all add: slot_addr_def ota_images_def)
  obtain r1 d1 where d1: "bl_verify_ota_slot (boot_flash ti) junk 1 d = Some (r1, d1)" "closed d1"
    "xmem d1 = xmem d" "imem d1 = imem d"
    using verify_slot_ends [OF assms(1), of 1 junk] assms(2) by (auto simp: addrs sizes_ok_def)
  obtain r0 d2 where "bl_verify_ota_slot (boot_flash ti) junk 0 d1 = Some (r0, d2)" "closed d2"
    "xmem d2 = xmem d" "imem d2 = imem d"
    using verify_slot_ends [OF d1(2), of 0 junk] assms(2) d1 by (auto simp: addrs sizes_ok_def)
  then show ?thesis using d1 by blast
qed

text \<open>The report on the console before the decision.\<close>

lemma report_keeps: "keeps closed (\<lambda>d. (xmem d, imem d)) (boot_report ti f r r0 r1)"
  unfolding boot_report_def [abs_def]
  by (intro keeps_bind print_bl_keeps print_byte_keeps print_keeps print_verify_int_keeps
      print_verify_ota_keeps quiet_keeps) (simp_all add: quiet_call_def LED_IOID_def)

lemma start_keeps: "keeps closed (\<lambda>d. (xmem d, imem d)) (boot_start ti)"
  unfolding boot_start_def [abs_def]
  by (intro keeps_bind peripherals_keeps uart_keeps print_keeps quiet_keeps)
    (simp_all add: quiet_call_def LED_IOID_def)

lemma boot_main_ok:
  assumes "closed d" "sizes_ok (imem d) (xmem d)"
  shows "\<exists>outcome d'. boot_main ti junk d = Some (outcome, d') \<and> closed d' \<and> xmem d' = xmem d \<and>
    boot_result (effective_flag (imem d)) (imem d) (xmem d) outcome (imem d')"
proof -
  let ?f = "effective_flag (imem d)"
  obtain d1 where d1: "boot_start ti d = Some d1" "closed d1" "xmem d1 = xmem d" "imem d1 = imem d"
    using keepsD [OF start_keeps assms(1)] by auto
  obtain d2 where d2: "bl_ext_flash_init ti d1 = Some (True, d2)" "closed d2" "xmem d2 = xmem d" "imem d2 = imem d"
    using flash_init_ok [OF d1(2)] d1 by auto
  obtain d3 where d3: "bl_read_fw_flag ti d2 = Some (?f, d3)" "closed d3" "stored_flag (imem d3) = ?f"
    "outside_user (imem d3) = outside_user (imem d)" "xmem d3 = xmem d"
    using read_flag_ok [OF d2(2)] d2 by (auto simp: bl_read_fw_flag_copy effective_flag_def)
  have img: "running_image (imem d3) = running_image (imem d)" by (rule outside_user_image [OF d3(4)])
  let ?m = "metadata_of_bytes (read_mem (imem d3) 0x2000 OTA_METADATA_LENGTH)"
  have "read_mem (imem d3) 0x2000 OTA_METADATA_LENGTH = read_mem (imem d) 0x2000 OTA_METADATA_LENGTH"
    by (rule running_image_parts(3) [OF img])
  then have fits: "0x2100 + 4 * crc_words 0x2100 (om_size ?m) \<le> int_flash_size"
    using assms(2) by (simp add: sizes_ok_def running_size_def)
  obtain d4 where d4: "bl_get_current_metadata ti d3 = Some ((0, ?m), d4)" "closed d4" "imem d4 = imem d3" "xmem d4 = xmem d"
    using flash_read_bytes [OF d3(2), of "push_bit 12 CURRENT_FIRMWARE" OTA_METADATA_LENGTH] d3
    by (auto simp: bl_copies get_current_metadata_def CURRENT_FIRMWARE_def int_flash_size_def OTA_METADATA_LENGTH_def)
  obtain r m' c d5 where d5: "bl_verify_current_firmware ti ?m d4 = Some ((r, m'), d5)" "closed d5" "xmem d5 = xmem d"
    "imem d5 = stamped (imem d3) c"
    using bl_verify_current_ok [OF d4(2)] fits d4 by auto
  obtain r1 r0 d5' d6 where d6: "closed d6" "xmem d6 = xmem d" "imem d6 = imem d5"
    "bl_verify_ota_slot (boot_flash ti) junk 1 d5 = Some (r1, d5')"
    "bl_verify_ota_slot (boot_flash ti) junk 0 d5' = Some (r0, d6)"
    using verify_both_ok [OF d5(2), of "imem d" junk] assms(2) unfolding d5(3) by blast
  obtain d7 where d7: "boot_report ti ?f r r0 r1 d6 = Some d7" "closed d7" "xmem d7 = xmem d" "imem d7 = imem d5"
    using keepsD [OF report_keeps d6(1), of ?f r r0 r1] d6 by auto
  have flag: "stored_flag (imem d7) = ?f" "fw_flag_valid ?f"
    using d3(3) d5(4) d7(4) stamped_keeps(2) [of "imem d3" c]
    by (simp_all add: stored_flag_def effective_flag_def fw_flag_valid_def)
  obtain outcome d' where d': "boot_decide (boot_flash ti) ti ?f d7 = Some (outcome, d')" "closed d'" "xmem d' = xmem d"
    "boot_result ?f (imem d7) (xmem d) outcome (imem d')"
    using boot_decide_ok [OF d7(2) flag(2,1)] d7 by auto
  have "running_code (imem d7) = running_code (imem d)"
    using d7(4) d5(4) stamped_keeps(1) running_image_parts(1) [OF img] by simp
  moreover have "running_size (imem d7) = running_size (imem d)"
    using d7(4) d5(4) stamped_keeps(4) running_image_parts(3) [OF img] by (simp add: running_size_def)
  ultimately have "boot_result ?f (imem d) (xmem d) outcome (imem d')"
    using d'(4) by (simp add: boot_result_def split: option.splits)
  moreover have "boot_main ti junk d = Some (outcome, d')"
    unfolding boot_main_def
    by (simp only: d1(1) d2(1) d3(1) d4(1) d5(1) d6(4,5) d7(1) d'(1) bind.bind_lunit prod.case
        simp_thms if_False)
  ultimately show ?thesis using d' by blast
qed

end

section \<open>Resets\<close>

text \<open>
  A system reset starts the bootloader again: the boots from a power-up to the first one
  that does not end in a reset, at most \<open>n\<close> of them.
\<close>

fun boot_run :: "nat \<Rightarrow> 'd ti \<Rightarrow> ota_metadata \<Rightarrow> 'd \<Rightarrow> (boot_outcome \<times> 'd) option" where
  "boot_run 0 ti junk d = None"
| "boot_run (Suc n) ti junk d = do {
     (outcome, d) \<leftarrow> boot_main ti junk d;
     if outcome = SystemReset then boot_run n ti junk d else Some (outcome, d) }"

text \<open>What a power-up leads to in the end: the flag and the slot installed.\<close>

definition settled_plan :: "u8 \<Rightarrow> u8 \<times> u8 option" where
  "settled_plan f =
     (if f = FW_FLAG_PING_OK then (FW_FLAG_NON_UPDATE, None)
      else if f = FW_FLAG_NEW_IMG_INT_RST then (FW_FLAG_NEW_IMG_INT, None)
      else if f = FW_FLAG_NEW_IMG_INT then (FW_FLAG_ERROR_GI_LOAD, Some 0)
      else if f = FW_FLAG_NEW_IMG_EXT then (FW_FLAG_NEW_IMG_INT, Some 1)
      else (f, None))"

text \<open>All images fit the internal flash.\<close>

definition images_fit :: "mem \<Rightarrow> mem \<Rightarrow> bool" where
  "images_fit m x \<longleftrightarrow> sizes_ok m x \<and>
     (\<forall>s\<in>{0, 1}. 0x2100 + 4 * crc_words 0x2100 (om_size (slot_metadata x s)) \<le> int_flash_size)"

lemma boot_plan_valid: "fw_flag_valid f \<Longrightarrow> fw_flag_valid (fst (boot_plan f))"
  by (auto simp: fw_flag_valid_def boot_plan_def fw_flag_defs)

lemma effective_valid: "fw_flag_valid (effective_flag m)"
  by (simp add: effective_flag_def fw_flag_valid_def)

lemma effective_stored: "fw_flag_valid f \<Longrightarrow> stored_flag m = f \<Longrightarrow> effective_flag m = f"
  by (simp add: effective_flag_def)

lemma boot_plan_slot: "fst (snd (boot_plan f)) \<in> {None, Some 0, Some 1}"
  by (simp add: boot_plan_def)

lemma boot_result_fits:
  assumes "images_fit m x" "boot_result f m x outcome m'"
  shows "images_fit m' x"
  using assms boot_plan_slot [of f]
  by (auto simp: images_fit_def sizes_ok_def boot_result_def)

text \<open>After a boot that resets, the next one starts the image.\<close>

lemma plan_settles:
  assumes "fw_flag_valid f" "\<not> snd (snd (boot_plan f))"
  defines "g \<equiv> fst (boot_plan f)"
  shows "snd (snd (boot_plan g))" "fst (snd (boot_plan g)) = None"
    "settled_plan f = (fst (boot_plan g), fst (snd (boot_plan f)))"
  using assms by (auto simp: fw_flag_valid_def boot_plan_def settled_plan_def fw_flag_defs)

lemma plan_jumps:
  "fw_flag_valid f \<Longrightarrow> snd (snd (boot_plan f)) \<Longrightarrow>
     settled_plan f = (fst (boot_plan f), None) \<and> fst (snd (boot_plan f)) = None"
  by (auto simp: fw_flag_valid_def boot_plan_def settled_plan_def fw_flag_defs)

context boot_device begin

lemma boot_run_ok:
  assumes "closed d" "images_fit (imem d) (xmem d)"
  defines "plan \<equiv> settled_plan (effective_flag (imem d))"
  shows "\<exists>d'. boot_run 2 ti junk d = Some (Jumped (reset_vector (imem d')), d') \<and> closed d' \<and> xmem d' = xmem d \<and>
    stored_flag (imem d') = fst plan \<and>
    running_code (imem d') = (case snd plan of None \<Rightarrow> running_code (imem d) | Some s \<Rightarrow> slot_code (xmem d) s)"
proof -
  let ?f = "effective_flag (imem d)"
  obtain o1 d1 where d1: "boot_main ti junk d = Some (o1, d1)" "closed d1" "xmem d1 = xmem d"
    "boot_result ?f (imem d) (xmem d) o1 (imem d1)"
    using boot_main_ok [OF assms(1), of junk] assms(2) by (auto simp: images_fit_def)
  show ?thesis
  proof (cases "snd (snd (boot_plan ?f))")
    case True
    with d1 plan_jumps [OF effective_valid True] show ?thesis
      by (auto simp: numeral_2_eq_2 plan_def boot_result_def)
  next
    case False
    note settles = plan_settles [OF effective_valid False]
    have o1: "o1 = SystemReset" using d1(4) False by (simp add: boot_result_def)
    have f1: "effective_flag (imem d1) = fst (boot_plan ?f)"
      using d1(4) boot_plan_valid [OF effective_valid] by (intro effective_stored) (auto simp: boot_result_def)
    have "sizes_ok (imem d1) (xmem d1)"
      using boot_result_fits [OF assms(2) d1(4)] d1(3) by (simp add: images_fit_def)
    then obtain o2 d2 where d2: "boot_main ti junk d1 = Some (o2, d2)" "closed d2" "xmem d2 = xmem d1"
      "boot_result (effective_flag (imem d1)) (imem d1) (xmem d1) o2 (imem d2)"
      using boot_main_ok [OF d1(2)] by blast
    then show ?thesis
      using d1 settles by (auto simp: numeral_2_eq_2 o1 f1 plan_def boot_result_def)
  qed
qed

text \<open>An image size that puts the end address above 0xFFFFFFFC stops the boot for ever.\<close>

lemma verify_slot_diverges:
  assumes "closed d" "slot \<le> 3"
    and "0xFFFFFFFC < of_nat (slot_addr slot) + 0x100 + om_size (slot_metadata (xmem d) slot)"
  shows "bl_verify_ota_slot (boot_flash ti) junk slot d = None"
proof -
  obtain p where p: "slot_page slot = Some p" "unat (push_bit 12 p) = slot_addr slot"
    "slot_addr slot + image_bytes \<le> ext_flash_size" "slot_addr slot mod 4096 = 0"
    using slot_page_ok [OF assms(2)] .
  have p12: "push_bit 12 p = word_of_nat (slot_addr slot)" by (simp only: p(2) [symmetric]) simp
  let ?a = "push_bit 12 p + OTA_METADATA_SPACE"
  have "unat ?a = slot_addr slot + 256"
    using unat_lt_add [of "push_bit 12 p" 256] p(2,3)
    by (simp add: OTA_METADATA_SPACE_def ext_flash_size_def image_bytes_def)
  moreover have "(slot_addr slot + 256) mod 4 = 0"
    using slot_cases [OF assms(2)] by (auto simp: slot_addr_def ota_images_def)
  ultimately have a: "unat ?a mod 4 = 0" by (simp only:)
  obtain d1 where d1: "slot_metadata_retry (boot_flash ti) slot junk d = Some (slot_metadata (xmem d) slot, d1)"
    "closed d1" "xmem d1 = xmem d"
    using slot_metadata_retry_ok [OF assms(1,2), of junk] by blast
  obtain d2 where d2: "ef_open (boot_flash ti) d1 = Some (True, d2)" "idle d2"
    using open_ok [OF d1(2)] by blast
  have "slot_crc_loop (boot_flash ti) ?a (?a + om_size (slot_metadata (xmem d) slot)) 0 d2 = None"
    using assms(3) by (intro slot_crc_diverges [OF d2(2) a]) (simp add: p12 OTA_METADATA_SPACE_def)
  then show ?thesis
    by (simp add: bl_verify_ota_slot_def p(1) d1(1) d2(1) bl_slot_crc_loop_copy Let_def)
qed

lemma boot_hangs:
  assumes "closed d" "0x2100 + 4 * crc_words 0x2100 (running_size (imem d)) \<le> int_flash_size"
    and "0xFFFFFFFC < 0x32100 + om_size (slot_metadata (xmem d) 1)"
  shows "boot_main ti junk d = None"
proof -
  obtain d1 where d1: "boot_start ti d = Some d1" "closed d1" "xmem d1 = xmem d" "imem d1 = imem d"
    using keepsD [OF start_keeps assms(1)] by auto
  obtain d2 where d2: "bl_ext_flash_init ti d1 = Some (True, d2)" "closed d2" "xmem d2 = xmem d" "imem d2 = imem d"
    using flash_init_ok [OF d1(2)] d1 by auto
  obtain f d3 where d3: "bl_read_fw_flag ti d2 = Some (f, d3)" "closed d3"
    "outside_user (imem d3) = outside_user (imem d)" "xmem d3 = xmem d"
    using read_flag_ok [OF d2(2)] d2 by (auto simp: bl_read_fw_flag_copy)
  let ?m = "metadata_of_bytes (read_mem (imem d3) 0x2000 OTA_METADATA_LENGTH)"
  have "read_mem (imem d3) 0x2000 OTA_METADATA_LENGTH = read_mem (imem d) 0x2000 OTA_METADATA_LENGTH"
    by (rule running_image_parts(3) [OF outside_user_image [OF d3(3)]])
  then have fits: "0x2100 + 4 * crc_words 0x2100 (om_size ?m) \<le> int_flash_size"
    using assms(2) by (simp add: running_size_def)
  obtain d4 where d4: "bl_get_current_metadata ti d3 = Some ((0, ?m), d4)" "closed d4" "imem d4 = imem d3" "xmem d4 = xmem d"
    using flash_read_bytes [OF d3(2), of "push_bit 12 CURRENT_FIRMWARE" OTA_METADATA_LENGTH] d3
    by (auto simp: bl_copies get_current_metadata_def CURRENT_FIRMWARE_def int_flash_size_def OTA_METADATA_LENGTH_def)
  obtain r m' d5 where d5: "bl_verify_current_firmware ti ?m d4 = Some ((r, m'), d5)" "closed d5" "xmem d5 = xmem d"
    using bl_verify_current_ok [OF d4(2)] fits d4 by auto
  have "slot_addr 1 = 0x32000" by (simp add: slot_addr_def ota_images_def)
  then have "bl_verify_ota_slot (boot_flash ti) junk 1 d5 = None"
    using assms(3) d5 by (intro verify_slot_diverges) simp_all
  then show ?thesis
    unfolding boot_main_def
    by (simp only: d1(1) d2(1) d3(1) d4(1) d5(1) bind.simps prod.case simp_thms if_False)
qed

end

end
