(* ===== verification/Boards.thy ===== *)
theory Boards
  imports Nor_Board Metadata_Tool Ota_Boot_Laws
begin

text \<open>
  The interfaces instantiated: both builds of the flash driver over the reference board give
  a \<open>flash_board\<close>, and with the bootloader's driver a \<open>boot_device\<close>. \<open>board0\<close> is a
  concrete board with erased flashes, on which hypotheses are discharged.
\<close>

interpretation node_board: flash_board "node_flash board_ti" s "nor_closed s" "nor_open s" "nor_idle s"
    nor_xmem bd_iflash board_ti for s
  by unfold_locales (auto simp: quiet_call_def nor_state_defs on_chip_def PRCM_DOMAIN_POWER_ON_def split: ti_call.splits)

interpretation boot_board: flash_board "boot_flash board_ti" s "nor_closed s" "nor_open s" "nor_idle s"
    nor_xmem bd_iflash board_ti for s
  by unfold_locales (auto simp: quiet_call_def nor_state_defs on_chip_def PRCM_DOMAIN_POWER_ON_def split: ti_call.splits)

interpretation boot: boot_device s "nor_closed s" "nor_open s" "nor_idle s" nor_xmem bd_iflash board_ti for s
  by unfold_locales

definition board_with :: "nat \<Rightarrow> mem \<Rightarrow> mem \<Rightarrow> board" where
  "board_with s x m =
     \<lparr>bd_power = False, bd_clk = False, bd_rx = [],
      bd_chip = \<lparr>nc_mem = x, nc_cs = False, nc_cmd = [], nc_rej = False, nc_wel = False, nc_busy = 0,
                 nc_down = True, nc_sector = s, nc_tprog = 10, nc_terase = 100\<rparr>,
      bd_iflash = m, bd_vims = 0\<rparr>"

definition board0 :: board where "board0 = board_with 4096 (\<lambda>_. 0xFF) (\<lambda>_. 0xFF)"

lemma board_with_simps [simp]:
  "nor_closed s (board_with s x m)" "nor_xmem (board_with s x m) = x" "bd_iflash (board_with s x m) = m"
  by (simp_all add: board_with_def nor_state_defs parked_def)

lemma board0_simps [simp]:
  "nor_closed 4096 board0" "nor_xmem board0 = (\<lambda>_. 0xFF)" "bd_iflash board0 = (\<lambda>_. 0xFF)"
  by (simp_all add: board0_def)

text \<open>The metadata and images of erased flashes.\<close>

lemma empty_metadata: "slot_metadata (\<lambda>_. 0xFF) s =
  \<lparr>om_crc = 0xFFFF, om_crc_shadow = 0xFFFF, om_size = 0xFFFFFFFF, om_uuid = 0xFFFFFFFF,
   om_version = 0xFFFF, om_pad = 0xFFFF\<rparr>"
  by (simp add: slot_metadata_def metadata_of_bytes_def OTA_METADATA_LENGTH_def u16_of_bytes_def u32_of_bytes_def)

lemma empty_running_size: "running_size (\<lambda>_. 0xFF) = 0xFFFFFFFF"
  by (simp add: running_size_def metadata_of_bytes_def OTA_METADATA_LENGTH_def u32_of_bytes_def)

lemma empty_images_fit: "images_fit (\<lambda>_. 0xFF) (\<lambda>_. 0xFF)"
  by (simp add: images_fit_def sizes_ok_def empty_metadata empty_running_size crc_words_def int_flash_size_def)

end
