(* ===== verification/Flash_Props.thy ===== *)
theory Flash_Props
  imports Boards
begin

text \<open>
  The properties of the flash driver, the OTA functions and the bootloader, and their
  witnesses on the reference board.
\<close>

section \<open>Bootloader\<close>

text \<open>C2. From any flag and any images whose sizes fit, power-up followed by at most one system
  reset ends in a branch to the image then in the internal flash, and the flag and the image
  are those of the update protocol: a new image (flag NEW_IMG_EXT) is installed from slot 1 and
  started once with flag NEW_IMG_INT; if it never confirms itself (the flag is still
  NEW_IMG_INT at the next power-up) the golden image is installed; a confirmed one stays.
  This holds for every device that implements the flash and driver-library contracts.\<close>

theorem boot_settles:
  assumes "boot_device sector closed opened idle xmem imem ti"
    and "closed d" "images_fit (imem d) (xmem d)"
  shows "\<exists>d'. boot_run 2 ti junk d = Some (Jumped (reset_vector (imem d')), d') \<and> closed d' \<and> xmem d' = xmem d \<and>
    stored_flag (imem d') = fst (settled_plan (effective_flag (imem d))) \<and>
    running_code (imem d') = (case snd (settled_plan (effective_flag (imem d))) of
        None \<Rightarrow> running_code (imem d) | Some s \<Rightarrow> slot_code (xmem d) s)"
  using boot_device.boot_run_ok [OF assms] .

theorem boot_settles_witness:
  "\<exists>d'. boot_run 2 board_ti (metadata_of_bytes (replicate 16 0)) board0 =
     Some (Jumped (reset_vector (bd_iflash d')), d') \<and> nor_closed 4096 d' \<and> nor_xmem d' = nor_xmem board0 \<and>
    stored_flag (bd_iflash d') = fst (settled_plan (effective_flag (bd_iflash board0))) \<and>
    running_code (bd_iflash d') = (case snd (settled_plan (effective_flag (bd_iflash board0))) of
        None \<Rightarrow> running_code (bd_iflash board0) | Some s \<Rightarrow> slot_code (nor_xmem board0) s)"
  by (rule boot_settles [OF boot.boot_device_axioms board0_simps(1)]) (simp add: empty_images_fit)

text \<open>C15. One run of the bootloader: it always ends, the outcome, the next flag and the image left
  in the internal flash are those of \<open>boot_plan\<close> for the flag found (an invalid flag counting
  as NON_UPDATE), and the external flash is untouched; the CRC checks of the images have no
  influence on the decision.\<close>

theorem boot_decision:
  assumes "boot_device sector closed opened idle xmem imem ti"
    and "closed d" "sizes_ok (imem d) (xmem d)"
  shows "\<exists>outcome d'. boot_main ti junk d = Some (outcome, d') \<and> closed d' \<and> xmem d' = xmem d \<and>
    boot_result (effective_flag (imem d)) (imem d) (xmem d) outcome (imem d')"
  using boot_device.boot_main_ok [OF assms] .

theorem boot_decision_witness:
  "\<exists>outcome d'. boot_main board_ti (metadata_of_bytes (replicate 16 0)) board0 = Some (outcome, d') \<and>
    nor_closed 4096 d' \<and> nor_xmem d' = nor_xmem board0 \<and>
    boot_result (effective_flag (bd_iflash board0)) (bd_iflash board0) (nor_xmem board0) outcome (bd_iflash d')"
  by (rule boot_decision [OF boot.boot_device_axioms board0_simps(1)])
    (use empty_images_fit in \<open>simp add: images_fit_def\<close>)

text \<open>An update slot whose size field puts the end of the image above 0xFFFFFFFC makes the
  bootloader's CRC loop, and so every boot, run for ever: the device never starts again.\<close>

lemma boot_hangs_on_size:
  assumes "boot_device sector closed opened idle xmem imem ti"
    and "closed d" "0x2100 + 4 * crc_words 0x2100 (running_size (imem d)) \<le> int_flash_size"
    and "0xFFFFFFFC < 0x32100 + om_size (slot_metadata (xmem d) 1)"
  shows "boot_main ti junk d = None"
  using boot_device.boot_hangs [OF assms] .

definition huge_size :: mem where
  "huge_size = (\<lambda>a. if a = 0x32005 then 0xDE else if a = 0x32006 then 0xFC else 0xFF)"

lemma huge_size_slot: "om_size (slot_metadata huge_size 1) = 0xFFFCDEFF"
  by (simp add: slot_metadata_def metadata_of_bytes_def OTA_METADATA_LENGTH_def u32_of_bytes_def
      huge_size_def slot_addr_def ota_images_def)

theorem boot_hangs_on_size_witness:
  "boot_main board_ti (metadata_of_bytes (replicate 16 0)) (board_with 4096 huge_size (\<lambda>_. 0xFF)) = None"
  by (rule boot_hangs_on_size [OF boot.boot_device_axioms board_with_simps(1)])
    (simp_all add: empty_running_size crc_words_def int_flash_size_def huge_size_slot)

section \<open>Images\<close>

text \<open>C16. \<open>update_firmware\<close> always ends with 0 and puts the 25 pages of the slot in place of the
  running image, whatever the internal flash held before (so an interrupted update is repaired
  by running it again), changing nothing else in either flash.\<close>

theorem update_firmware_installs:
  assumes "flash_board F sector closed opened idle xmem imem ti" "closed d" "slot \<le> 3"
  shows "\<exists>d'. update_firmware F ti slot d = Some (0, d') \<and> closed d' \<and> xmem d' = xmem d \<and>
    imem d' = put_bytes 0x2000 (slot_image (xmem d) slot) (imem d)"
  using flash_board.update_ok [OF assms] unfolding slot_image_def .

theorem update_firmware_installs_witness:
  "\<exists>d'. update_firmware (node_flash board_ti) board_ti 1 board0 = Some (0, d') \<and> nor_closed 4096 d' \<and>
    nor_xmem d' = nor_xmem board0 \<and>
    bd_iflash d' = put_bytes 0x2000 (slot_image (nor_xmem board0) 1) (bd_iflash board0)"
  by (rule update_firmware_installs [OF node_board.flash_board_axioms board0_simps(1)]) simp

text \<open>\<open>verify_ota_slot\<close> accepts a slot exactly when the shadow CRC of its metadata is the CRC of
  the words its size field covers, and reports a CRC error otherwise; nothing is written.\<close>

theorem verify_ota_slot_decides:
  assumes "flash_board F sector closed opened idle xmem imem ti" "closed d" "slot \<le> 3"
    and "slot_addr slot + 256 + 4 * crc_words (of_nat (slot_addr slot) + OTA_METADATA_SPACE)
           (om_size (slot_metadata (xmem d) slot)) \<le> ext_flash_size"
  shows "\<exists>d'. verify_ota_slot F junk slot d =
      Some (if om_crc_shadow (slot_metadata (xmem d) slot) =
               image_crc (read_mem (xmem d) (slot_addr slot + 256)
                 (4 * crc_words (of_nat (slot_addr slot) + OTA_METADATA_SPACE) (om_size (slot_metadata (xmem d) slot))))
            then VERIFY_SLOT_OK else VERIFY_SLOT_CRC_ERROR, d') \<and>
    closed d' \<and> xmem d' = xmem d \<and> imem d' = imem d"
  using flash_board.verify_slot_ok [OF assms] .

theorem verify_ota_slot_decides_witness:
  "\<exists>d'. verify_ota_slot (node_flash board_ti) (metadata_of_bytes (replicate 16 0)) 1 board0 =
      Some (VERIFY_SLOT_CRC_ERROR, d') \<and> nor_closed 4096 d'"
proof -
  have z: "crc_words (of_nat (slot_addr 1) + OTA_METADATA_SPACE) (om_size (slot_metadata (nor_xmem board0) 1)) = 0"
    by (simp add: empty_metadata crc_words_def slot_addr_def ota_consts)
  show ?thesis
    using verify_ota_slot_decides [OF node_board.flash_board_axioms board0_simps(1), of 1
        "metadata_of_bytes (replicate 16 0)"]
    unfolding z by (auto simp: slot_addr_def ota_images_def ext_flash_size_def empty_metadata image_crc_def)
qed

text \<open>C37. The metadata tool and the node agree: a slot that holds the tool's header for an image of
  whole words, followed by the image, passes \<open>verify_ota_slot\<close> exactly when the header was
  made with the "verified" argument (or the CRC of the image is 0).\<close>

theorem tool_header_verifies:
  assumes "flash_board F sector closed opened idle xmem imem ti" "closed d" "slot \<le> 3"
    and "slot_holds (xmem d) slot img v u k" "length img mod 4 = 0" "256 + length img \<le> image_bytes"
  shows "\<exists>d'. verify_ota_slot F junk slot d =
      Some (if k \<noteq> 0 \<or> image_crc img = 0 then VERIFY_SLOT_OK else VERIFY_SLOT_CRC_ERROR, d') \<and>
    closed d' \<and> xmem d' = xmem d \<and> imem d' = imem d"
  using flash_board.tool_verify [OF assms] .

definition tiny_image :: mem where
  "tiny_image = put_bytes 0x32000 (gm_main [1, 2, 3, 4] 0x10 0xABCD 1 @ [1, 2, 3, 4]) (\<lambda>_. 0xFF)"

lemma tiny_image_holds: "slot_holds tiny_image 1 [1, 2, 3, 4] 0x10 0xABCD 1"
  using read_put_bytes [of "0x32000" "gm_main [1, 2, 3, 4] 0x10 0xABCD 1 @ [1, 2, 3, 4]" "\<lambda>_. 0xFF"]
  by (simp add: slot_holds_def tiny_image_def slot_addr_def ota_images_def length_gm_main)

theorem tool_header_verifies_witness:
  "\<exists>d'. verify_ota_slot (node_flash board_ti) (metadata_of_bytes (replicate 16 0)) 1
      (board_with 4096 tiny_image (\<lambda>_. 0xFF)) = Some (VERIFY_SLOT_OK, d')"
  using tool_header_verifies [OF node_board.flash_board_axioms board_with_simps(1) [of 4096 tiny_image "\<lambda>_. 0xFF"],
      where slot = 1 and img = "[1, 2, 3, 4]" and v = "0x10" and u = "0xABCD" and k = 1]
  by (auto simp: tiny_image_holds image_bytes_def)

text \<open>On a chip whose erase unit is the 4096 bytes the driver assumes, \<open>backup_golden_image\<close>
  makes slot 0 an exact copy of the 25 pages of the running image and touches nothing else.\<close>

theorem backup_golden_copies:
  assumes "flash_board F 4096 closed opened idle xmem imem ti" "closed d"
  shows "\<exists>d'. backup_golden_image F ti d = Some (0, d') \<and> closed d' \<and> imem d' = imem d \<and>
    xmem d' = put_bytes 0x19000 (running_image (imem d)) (xmem d)"
  using flash_board.backup_copies [OF assms(1) _ _ assms(2)] by (simp add: put_image_erased del: erase_sectors.simps)

theorem backup_golden_copies_witness:
  "\<exists>d'. backup_golden_image (node_flash board_ti) board_ti board0 = Some (0, d') \<and> nor_closed 4096 d' \<and>
    bd_iflash d' = bd_iflash board0 \<and>
    nor_xmem d' = put_bytes 0x19000 (running_image (bd_iflash board0)) (nor_xmem board0)"
  by (rule backup_golden_copies [OF node_board.flash_board_axioms board0_simps(1)])

text \<open>On a chip whose erase unit is 64 KB, as the name of the instruction the driver uses says,
  erasing update slot 1 also erases the last 8 KB of the golden image in slot 0.\<close>

lemma erase_slot_1_hits_golden_64k:
  assumes "flash_board F 65536 closed opened idle xmem imem ti" "closed d"
  shows "\<exists>d'. erase_ota_image F ti 1 d = Some (0, d') \<and> closed d' \<and>
    erased 0x30000 0x2000 (xmem d') \<and> 0x30000 + 0x2000 = slot_addr 0 + image_bytes"
proof -
  have "erased 0x30000 0x2000 (erase_sectors 65536 (slot_addr 1) 25 m)" for m
    unfolding erased_def
  proof (intro allI impI)
    fix x :: nat
    assume x: "0x30000 \<le> x \<and> x < 0x30000 + 0x2000"
    then have "x div 65536 = 3" by (intro div_nat_eqI) simp_all
    then have "\<exists>i<25. (slot_addr 1 + 4096 * i) div 65536 = x div 65536"
      by (intro exI [of _ 0]) (simp add: slot_addr_def ota_images_def)
    then show "erase_sectors 65536 (slot_addr 1) 25 m x = 0xFF"
      by (simp add: erase_sectors_at del: erase_sectors.simps)
  qed
  then show ?thesis
    using flash_board.erase_image_ok [OF assms, of 1] by (auto simp: slot_addr_def image_bytes_def)
qed

theorem erase_slot_1_hits_golden_64k_witness:
  "\<exists>d'. erase_ota_image (node_flash board_ti) board_ti 1 (board_with 65536 (\<lambda>_. 0) (\<lambda>_. 0)) = Some (0, d') \<and>
    nor_closed 65536 d' \<and> erased 0x30000 0x2000 (nor_xmem d') \<and>
    0x30000 + 0x2000 = slot_addr 0 + image_bytes"
  by (rule erase_slot_1_hits_golden_64k [OF node_board.flash_board_axioms board_with_simps(1)])

text \<open>\<open>find_newest_ota_image\<close> always ends; its answer is a valid download slot whose version is at
  least that of every valid one, or 0 when no valid slot has a version above 0.\<close>

lemma find_newest_is_newest:
  assumes "flash_board F sector closed opened idle xmem imem ti" "closed d"
  defines "M \<equiv> slot_metadata (xmem d)"
  shows "\<exists>r d'. find_newest_ota_image F junk d = Some (r, d') \<and> closed d' \<and> xmem d' = xmem d \<and> imem d' = imem d \<and>
    ((r = 0 \<and> (\<forall>s\<in>{1, 2, 3}. validate_ota_metadata (M s) \<longrightarrow> om_version (M s) = 0)) \<or>
     (\<exists>s\<in>{1, 2, 3}. r = uint s \<and> validate_ota_metadata (M s) \<and>
       (\<forall>t\<in>{1, 2, 3}. validate_ota_metadata (M t) \<longrightarrow> om_version (M t) \<le> om_version (M s))))"
proof -
  have "(newest_from M [1, 2, 3] 0 0 = 0 \<and> (\<forall>s\<in>{1, 2, 3}. validate_ota_metadata (M s) \<longrightarrow> om_version (M s) = 0)) \<or>
     (\<exists>s\<in>{1, 2, 3}. newest_from M [1, 2, 3] 0 0 = uint s \<and> validate_ota_metadata (M s) \<and>
       (\<forall>t\<in>{1, 2, 3}. validate_ota_metadata (M t) \<longrightarrow> om_version (M t) \<le> om_version (M s)))"
    using newest_from_spec [of M "[1, 2, 3]" 0 0] by (auto simp del: newest_from.simps)
  then show ?thesis
    using flash_board.find_ok(1) [OF assms(1,2), of junk] unfolding M_def by blast
qed

theorem find_newest_is_newest_witness:
  "\<exists>r d'. find_newest_ota_image (node_flash board_ti) (metadata_of_bytes (replicate 16 0)) board0 = Some (r, d') \<and>
     nor_closed 4096 d'"
  using find_newest_is_newest [OF node_board.flash_board_axioms board0_simps(1)] by blast

text \<open>\<open>find_empty_ota_slot\<close> always ends and never answers the golden image: its answer is the
  first download slot that is not valid, or, when all three are, a slot whose version is the
  smallest (versions above 0, 0 standing for "none yet" in the search).\<close>

lemma find_empty_never_golden:
  assumes "flash_board F sector closed opened idle xmem imem ti" "closed d"
  defines "M \<equiv> slot_metadata (xmem d)"
  shows "\<exists>s d'. find_empty_ota_slot F junk d = Some (uint s, d') \<and> closed d' \<and> xmem d' = xmem d \<and> imem d' = imem d \<and>
    s \<in> {1, 2, 3} \<and>
    (if \<exists>t\<in>{1, 2, 3}. \<not> validate_ota_metadata (M t)
     then \<not> validate_ota_metadata (M s) \<and> (\<forall>t\<in>{1, 2, 3}. t < s \<longrightarrow> validate_ota_metadata (M t))
     else (\<forall>t\<in>{1, 2, 3}. om_version (M t) \<noteq> 0) \<longrightarrow> (\<forall>t\<in>{1, 2, 3}. om_version (M s) \<le> om_version (M t)))"
proof -
  have "\<exists>s. empty_from M [1, 2, 3] = uint s \<and> s \<in> {1, 2, 3 :: u8} \<and>
    (if \<exists>t\<in>{1, 2, 3}. \<not> validate_ota_metadata (M t)
     then \<not> validate_ota_metadata (M s) \<and> (\<forall>t\<in>{1, 2, 3}. t < s \<longrightarrow> validate_ota_metadata (M t))
     else (\<forall>t\<in>{1, 2, 3}. om_version (M t) \<noteq> 0) \<longrightarrow> (\<forall>t\<in>{1, 2, 3}. om_version (M s) \<le> om_version (M t)))"
  proof (cases "validate_ota_metadata (M 1)"; cases "validate_ota_metadata (M 2)"; cases "validate_ota_metadata (M 3)")
    assume v: "validate_ota_metadata (M 1)" "validate_ota_metadata (M 2)" "validate_ota_metadata (M 3)"
    have first: "empty_from M [1, 2, 3] = oldest_from M [2, 3] (uint (1 :: u8)) (om_version (M 1))"
      using v by (simp del: oldest_from.simps(2)) simp
    show ?thesis
    proof (cases "\<forall>t\<in>{1, 2, 3}. om_version (M t) \<noteq> 0")
      case True
      with v have all: "\<forall>s\<in>set [1, 2, 3]. validate_ota_metadata (M s) \<and> om_version (M s) \<noteq> 0" by simp
      obtain s where s: "s \<in> set [1, 2, 3]" "oldest_from M [2, 3] (uint (1 :: u8)) (om_version (M 1)) = uint s"
        "\<forall>t\<in>set [1, 2, 3]. om_version (M s) \<le> om_version (M t)"
        using oldest_from_spec [OF all] by blast
      then show ?thesis using v unfolding first s(2) by (intro exI [of _ s]) simp
    next
      case False
      obtain s :: u8 where s: "s \<in> set [1, 2, 3]" "oldest_from M [2, 3] (uint (1 :: u8)) (om_version (M 1)) = uint s"
        using oldest_from_range [of 1 "[2, 3]" M "om_version (M 1)"] by blast
      then show ?thesis using v False unfolding first s(2) by (intro exI [of _ s]) auto
    qed
  qed (rule exI [of _ "if \<not> validate_ota_metadata (M 1) then 1 else if \<not> validate_ota_metadata (M 2) then 2 else 3"],
      simp)+
  then show ?thesis
    using flash_board.find_ok(4) [OF assms(1,2), of junk] unfolding M_def by metis
qed

theorem find_empty_never_golden_witness:
  "\<exists>(s :: u8) d'. find_empty_ota_slot (node_flash board_ti) (metadata_of_bytes (replicate 16 0)) board0 =
     Some (uint s, d') \<and> s \<in> {1, 2, 3}"
  using find_empty_never_golden [OF node_board.flash_board_axioms board0_simps(1)] by blast

section \<open>The flash driver\<close>

text \<open>C34. What is written to an erased area with the driver is what is read back after closing and
  reopening the device, byte for byte, for any length and alignment inside the chip (page
  boundaries included); this is what every driver with the \<open>ext_flash\<close> contract gives, the
  node's and the bootloader's on the reference chip among them.\<close>

theorem flash_write_read:
  assumes "ext_flash F sector closed opened idle xmem imem" "closed d"
    and "erased (unat a) (length bs) (xmem d)" "unat a < ext_flash_size" "unat a + length bs \<le> ext_flash_size"
  shows "\<exists>d'. do { (_, d) \<leftarrow> ef_open F d; (ok, d) \<leftarrow> ef_write F a bs d; d \<leftarrow> ef_close F d;
      (_, d) \<leftarrow> ef_open F d; ef_read F a (length bs) d } = Some ((True, bs), d') \<and> idle d' \<and> imem d' = imem d"
proof -
  note F = assms(1)
  obtain d1 where d1: "ef_open F d = Some (True, d1)" "idle d1" "xmem d1 = xmem d" "imem d1 = imem d"
    using ext_flash.open_ok [OF F assms(2)] by blast
  obtain d2 where d2: "ef_write F a bs d1 = Some (True, d2)" "opened d2"
    "xmem d2 = and_bytes (unat a) bs (xmem d)" "imem d2 = imem d"
    using ext_flash.write_ok [OF F ext_flash.idle_opened [OF F d1(2)] assms(5)] d1 by auto
  obtain d3 where d3: "ef_close F d2 = Some d3" "closed d3" "xmem d3 = xmem d2" "imem d3 = imem d2"
    using ext_flash.close_ok [OF F d2(2)] by blast
  obtain d4 where d4: "ef_open F d3 = Some (True, d4)" "idle d4" "xmem d4 = xmem d2" "imem d4 = imem d2"
    using ext_flash.open_ok [OF F d3(2)] d3 by auto
  obtain d5 where "ef_read F a (length bs) d4 = Some ((True, read_mem (xmem d4) (unat a) (length bs)), d5)"
    "idle d5" "imem d5 = imem d4"
    using ext_flash.read_ok [OF F d4(2) assms(4,5)] by blast
  then show ?thesis
    using and_bytes_erased [OF assms(3)] by (simp add: d1 d2 d3 d4)
qed

theorem flash_write_read_witness:
  "\<exists>d'. do { (_, d) \<leftarrow> ef_open (boot_flash board_ti) board0; (ok, d) \<leftarrow> ef_write (boot_flash board_ti) 0x1FE [1, 2, 3] d;
      d \<leftarrow> ef_close (boot_flash board_ti) d; (_, d) \<leftarrow> ef_open (boot_flash board_ti) d;
      ef_read (boot_flash board_ti) 0x1FE (length [1, 2, 3 :: u8]) d } = Some ((True, [1, 2, 3]), d') \<and>
    nor_idle 4096 d' \<and> bd_iflash d' = bd_iflash board0"
  by (rule flash_write_read [OF boot_chip.ext_flash_axioms board0_simps(1)])
    (simp_all add: erased_def ext_flash_size_def)

text \<open>C24. Both builds of the driver implement the \<open>ext_flash\<close> contract on the reference chip, with the
  erase granularity of the chip: opening wakes and identifies it, closing powers it down, reads,
  programs and erases do what the contract says, and every call returns.\<close>

theorem drivers_implement_contract:
  "ext_flash (node_flash board_ti) s (nor_closed s) (nor_open s) (nor_idle s) nor_xmem bd_iflash \<and>
   ext_flash (boot_flash board_ti) s (nor_closed s) (nor_open s) (nor_idle s) nor_xmem bd_iflash"
  by (intro conjI node_chip.ext_flash_axioms boot_chip.ext_flash_axioms)

text \<open>A chip that was selected while busy ignores what it is sent.\<close>

lemma rejected_shifts:
  "nc_rej c \<Longrightarrow> nc_cs c \<Longrightarrow> nc_cmd c = 0x03 # args \<Longrightarrow>
     chip_shifts xs c = c\<lparr>nc_cmd := 0x03 # args @ xs, nc_busy := nc_busy c - length xs\<rparr>"
proof (induction xs arbitrary: c args)
  case (Cons x xs)
  then show ?case
    using Cons.IH [of "chip_shift x c" "args @ [x]"] by (simp add: chip_shift_def)
qed (cases c; simp)

lemma rejected_outs:
  "nc_rej c \<Longrightarrow> nc_cs c \<Longrightarrow> nc_cmd c = 0x03 # args \<Longrightarrow> chip_outs n c = replicate n 0xFF"
proof (induction n arbitrary: c args)
  case (Suc n)
  then show ?case
    using Suc.IH [of "chip_shift 0 c" "args @ [0]"] by (simp add: chip_shift_def chip_out_def)
qed simp

text \<open>\<open>ext_flash_read\<close> does not wait for a program or erase cycle: while one runs the chip ignores the
  instruction and the driver reports success with 0xFF in every byte of the buffer.\<close>

lemma read_while_busy:
  assumes "nor_open s b" "0 < nc_busy (bd_chip b)"
  shows "\<exists>b'. ext_flash_read board_ti off n b = Some ((True, replicate n 0xFF), b') \<and> nor_open s b' \<and>
    nor_xmem b' = nor_xmem b"
proof -
  obtain b1 b2 b3 where cmd: "flash_cmd BLS_CODE_READ off = [0x03, b1, b2, b3]"
    using flash_cmd_shape unfolding BLS_CODE_READ_def by blast
  let ?c = "chip_shift 0x03 (chip_select (bd_chip b))"
  let ?c2 = "?c\<lparr>nc_cmd := [0x03, b1, b2, b3], nc_busy := nc_busy ?c - 3\<rparr>"
  let ?c3 = "?c2\<lparr>nc_cmd := [0x03, b1, b2, b3] @ replicate n 0, nc_busy := nc_busy ?c2 - n\<rparr>"
  have c: "nc_rej ?c" "nc_cs ?c" "nc_cmd ?c = [0x03]"
    using assms by (simp_all add: nor_open_def chip_shift_def chip_select_def awake_simps)
  have c2: "chip_shifts [b1, b2, b3] ?c = ?c2"
    using rejected_shifts [OF c, of "[b1, b2, b3]"] by simp
  have c3: "chip_shifts (replicate n 0) ?c2 = ?c3"
    using rejected_shifts [of ?c2 "[b1, b2, b3]" "replicate n 0"] c by simp
  have outs: "chip_outs n ?c2 = replicate n 0xFF"
    using rejected_outs [of ?c2 "[b1, b2, b3]" n] c by simp
  have "chip_deselect ?c3 = (bd_chip b)\<lparr>nc_busy := nc_busy ?c2 - n\<rparr>"
    using c assms(1)
    by (cases "bd_chip b") (simp add: chip_deselect_def chip_exec_def chip_shift_def chip_select_def
        nor_open_def awake_def parked_def)
  moreover have "nc_busy ?c2 - n \<le> nc_busy (bd_chip b)"
    using assms(1) by (simp add: chip_shift_def chip_select_def nor_open_def awake_simps)
  ultimately have "nor_open s (b\<lparr>bd_chip := chip_deselect ?c3\<rparr>)"
    "nor_xmem (b\<lparr>bd_chip := chip_deselect ?c3\<rparr>) = nor_xmem b"
    using assms(1) by (simp_all add: nor_open_def nor_xmem_def)
  moreover have "ext_flash_read board_ti off n b = Some ((True, replicate n 0xFF), b\<lparr>bd_chip := chip_deselect ?c3\<rparr>)"
    using assms(1) outs
    by (simp add: ext_flash_read_def cmd bus_simps nor_open_def c2 [simplified] c3)
  ultimately show ?thesis by blast
qed

theorem read_while_busy_witness:
  "\<exists>b'. ext_flash_read board_ti 0x1000 2
      (board0\<lparr>bd_power := True, bd_clk := True,
        bd_chip := (bd_chip board0)\<lparr>nc_down := False, nc_busy := 50\<rparr>\<rparr>) = Some ((True, replicate 2 0xFF), b') \<and>
    nor_open 4096 b' \<and>
    nor_xmem b' = nor_xmem (board0\<lparr>bd_power := True, bd_clk := True,
        bd_chip := (bd_chip board0)\<lparr>nc_down := False, nc_busy := 50\<rparr>\<rparr>)"
  by (rule read_while_busy)
    (simp_all add: nor_open_def board0_def board_with_def bus_ready_def awake_def parked_def)

lemma bl_poll_timeout:
  assumes "bus_ready b" "nc_cs (bd_chip b)" "nc_cmd (bd_chip b) = 0x05 # args" "\<not> nc_down (bd_chip b)"
    and "500000 - i < nc_busy (bd_chip b)" "i \<le> 500000"
  shows "\<exists>b'. bl_wait_ready_poll board_ti i b = Some (True, b') \<and>
    nc_busy (bd_chip b') = nc_busy (bd_chip b) - (500000 - i)"
  using assms
proof (induction "500000 - i" arbitrary: i b args)
  case 0
  then have i: "i = 500000" by simp
  show ?case
    using 0 by (subst bl_wait_ready_poll.simps)
      (simp add: i bus_simps ti_do_def on_chip_def chip_deselect_status)
next
  case (Suc n)
  let ?b = "b\<lparr>bd_chip := chip_shift 0 (bd_chip b)\<rparr>"
  have busy: "nc_busy (bd_chip ?b) = nc_busy (bd_chip b) - 1"
    using Suc.prems by (simp add: chip_shift_def)
  have "\<exists>b'. bl_wait_ready_poll board_ti (i + 1) ?b = Some (True, b') \<and>
      nc_busy (bd_chip b') = nc_busy (bd_chip ?b) - (500000 - (i + 1))"
    using Suc.prems Suc.hyps(2) busy
    by (intro Suc.hyps(1) [where args = "args @ [0]"]) (auto simp: chip_shift_def)
  moreover have "i < 500000" using Suc.hyps(2) by simp
  moreover have "bl_wait_ready_poll board_ti i b = bl_wait_ready_poll board_ti (i + 1) ?b"
    using Suc.prems \<open>i < 500000\<close>
    by (subst bl_wait_ready_poll.simps) (simp add: bus_simps chip_out_status)
  ultimately show ?case using busy Suc.prems by auto
qed

text \<open>The bootloader's \<open>wait_ready\<close> gives up after 500000 polls and still answers \<open>true\<close>: a cycle longer
  than that is reported as finished while it is running.\<close>

theorem bl_wait_ready_times_out:
  assumes "bus_ready b" "awake (bd_chip b)" "500001 < nc_busy (bd_chip b)"
  shows "\<exists>b'. bl_wait_ready board_ti b = Some (True, b') \<and> 0 < nc_busy (bd_chip b')"
proof -
  let ?b = "b\<lparr>bd_chip := chip_shift 0x05 (chip_select (bd_chip b))\<rparr>"
  have busy: "nc_busy (bd_chip ?b) = nc_busy (bd_chip b) - 1"
    using assms(2) by (simp add: chip_shift_def chip_select_def awake_simps)
  have "\<exists>b'. bl_wait_ready_poll board_ti 0 ?b = Some (True, b') \<and>
      nc_busy (bd_chip b') = nc_busy (bd_chip ?b) - (500000 - 0)"
    using assms busy
    by (intro bl_poll_timeout [where args = "[]"])
      (auto simp: chip_shift_def chip_select_def awake_simps)
  then show ?thesis
    using assms busy by (auto simp: bl_wait_ready_def bus_simps BLS_CODE_READ_STATUS_def)
qed

theorem bl_wait_ready_times_out_witness:
  "\<exists>b'. bl_wait_ready board_ti
      (board0\<lparr>bd_power := True, bd_clk := True,
        bd_chip := (bd_chip board0)\<lparr>nc_down := False, nc_busy := 500002\<rparr>\<rparr>) = Some (True, b') \<and>
    0 < nc_busy (bd_chip b')"
  by (rule bl_wait_ready_times_out)
    (simp_all add: board0_def board_with_def bus_ready_def awake_def parked_def)

text \<open>The number of sectors \<open>ext_flash_erase\<close> erases is that of the 4096-byte pages the range touches,
  except that the last page is left out when only its first byte is in the range (in
  particular a one-byte erase of a page start erases nothing).\<close>

theorem erase_numsectors_count:
  assumes "0 < len" "unat off + unat len \<le> ext_flash_size"
  shows "unat (erase_numsectors off len) =
    (unat off + unat len - 1) div 4096 - unat off div 4096
      + (if (unat off + unat len - 1) mod 4096 = 0 then 0 else 1)"
  using unat_numsectors [OF assms] .

theorem erase_numsectors_count_witness: "unat (erase_numsectors 0x1000 1) = 0"
  using erase_numsectors_count [of 1 "0x1000"] by (simp add: ext_flash_size_def)

section \<open>User flash and flag\<close>

text \<open>Writing a byte of the user flash and reading any byte of it back gives the new value at the
  written offset and the old value everywhere else, although the sector is erased and programmed
  again as a whole; the rest of both flashes keeps its contents.\<close>

theorem user_flash_put_get:
  assumes "int_flash ti fine imem other" "fine d" "unat a < USER_FLASH_LENGTH" "unat b < USER_FLASH_LENGTH"
  shows "\<exists>d1 d2. user_flash_update_byte ti a v d = Some d1 \<and>
    user_flash_read_byte ti b d1 = Some (if a = b then v else user_bytes (imem d) ! unat b, d2) \<and> fine d2 \<and>
    outside_user (imem d2) = outside_user (imem d) \<and> other d2 = other d"
proof -
  note put = int_flash.user_update_ok [OF assms(1) assms(2) assms(3), of v]
  then obtain d1 where d1: "user_flash_update_byte ti a v d = Some d1" "fine d1"
    "user_bytes (imem d1) = (user_bytes (imem d))[unat a := v]"
    "outside_user (imem d1) = outside_user (imem d)" "other d1 = other d" by blast
  moreover have "length (user_bytes (imem d)) = USER_FLASH_LENGTH" by (simp add: user_bytes_def)
  ultimately show ?thesis
    using int_flash.user_read_ok [OF assms(1) d1(2) assms(4)] assms(3)
    by (auto simp: nth_list_update word_unat_eq_iff)
qed

theorem user_flash_put_get_witness:
  "\<exists>d1 d2. user_flash_update_byte board_ti 3 0x55 board0 = Some d1 \<and>
    user_flash_read_byte board_ti 3 d1 = Some (0x55, d2) \<and> nor_closed 4096 d2"
  using user_flash_put_get [OF board_iflash.int_flash_axioms board0_simps(1), of 3 3 "0x55"]
  by (auto simp: USER_FLASH_LENGTH_def)

text \<open>\<open>write_fw_flag\<close> accepts exactly the six states of the update protocol, answers whether it did, and
  \<open>read_fw_flag\<close> gives back what was written; on any other stored byte (a blank flash, say) it
  answers NON_UPDATE and repairs the flash. The bootloader's copies are the same functions.\<close>

theorem fw_flag_write_read:
  assumes "int_flash ti fine imem other" "fine d"
  shows "\<exists>d1 d2. write_fw_flag ti v d = Some (if fw_flag_valid v then FLAG_OK_WRITE else FLAG_ERROR_WRITE, d1) \<and>
      bl_read_fw_flag ti d1 = Some (if fw_flag_valid v then v else effective_flag (imem d), d2) \<and> fine d2 \<and>
      stored_flag (imem d2) = (if fw_flag_valid v then v else effective_flag (imem d)) \<and>
      outside_user (imem d2) = outside_user (imem d) \<and> other d2 = other d"
proof -
  obtain d1 where d1: "write_fw_flag ti v d = Some (if fw_flag_valid v then FLAG_OK_WRITE else FLAG_ERROR_WRITE, d1)"
    "fine d1" "stored_flag (imem d1) = (if fw_flag_valid v then v else stored_flag (imem d))"
    "outside_user (imem d1) = outside_user (imem d)" "other d1 = other d"
  proof (cases "fw_flag_valid v")
    case True
    with int_flash.write_flag_ok [OF assms True] that show ?thesis by auto
  next
    case False
    with int_flash.write_flag_invalid [OF assms(1) False] assms(2) that show ?thesis by auto
  qed
  have e: "(if fw_flag_valid (stored_flag (imem d1)) then stored_flag (imem d1) else FW_FLAG_NON_UPDATE) =
      (if fw_flag_valid v then v else effective_flag (imem d))"
    using d1(3) by (simp add: effective_flag_def)
  show ?thesis
    using int_flash.read_flag_ok [OF assms(1) d1(2), unfolded e] d1 by (auto simp: bl_read_fw_flag_copy)
qed

theorem fw_flag_write_read_witness:
  "\<exists>d1 d2. write_fw_flag board_ti FW_FLAG_PING_OK board0 = Some (FLAG_OK_WRITE, d1) \<and>
      bl_read_fw_flag board_ti d1 = Some (FW_FLAG_PING_OK, d2)"
  using fw_flag_write_read [OF board_iflash.int_flash_axioms board0_simps(1), of FW_FLAG_PING_OK]
  by (auto simp: fw_flag_valid_def)

section \<open>CRC\<close>

text \<open>C39. The CRC of an image (the register run over its bytes and two zero bytes, as node, bootloader and
  tool all compute it, with three copies of \<open>crc16\<close>) is the CRC-16/XMODEM of its bytes.\<close>

theorem image_crc_is_xmodem:
  "image_crc bs = foldl xmodem_byte 0 bs \<and> bl_crc16 = crc16 \<and> gm_crc16 = crc16"
  by (simp add: image_crc_def crc_bytes_xmodem crc16_copies)

text \<open>The image CRC detects every change confined to two adjacent bytes, wherever they are: such images
  have equal CRCs only if they are equal.\<close>

theorem image_crc_detects_two_bytes:
  "image_crc (xs @ [a, b] @ ys) = image_crc (xs @ [a', b'] @ ys) \<longleftrightarrow> a = a' \<and> b = b'"
proof
  assume "image_crc (xs @ [a, b] @ ys) = image_crc (xs @ [a', b'] @ ys)"
  then have "crc_bytes (crc_bytes 0 xs) [a, b] = crc_bytes (crc_bytes 0 xs) [a', b']"
    unfolding image_crc_def crc_bytes_simps(3) by (metis crc16_inject crc_bytes_inject)
  then show "a = a' \<and> b = b'" by (rule crc_two_bytes_inject)
qed simp

end
