(* ===== verification/Protocol.thy ===== *)
theory Protocol
  imports Prelude
begin

text \<open>
  The constants of \<open>unwired/ud_binary_protocol.h\<close> that the root and the nodes use,
  the buffers in which they receive packets, and the UDP layer as an event: a packet
  is handed to \<open>simple_udp_sendto\<close> with its destination. A handler gets a pointer
  into the buffer of the IP stack, so it can read behind the end of the packet: what it
  finds there is whatever the buffer held before (\<open>rx_buffer\<close>).
\<close>

section \<open>Constants of the protocol\<close>

definition PROTOCOL_VERSION_V1 :: u8 where
  "PROTOCOL_VERSION_V1 = 0x01"

definition PROTOCOL_VERSION_V2 :: u8 where
  "PROTOCOL_VERSION_V2 = 0x02"

definition DEVICE_VERSION_V1 :: u8 where
  "DEVICE_VERSION_V1 = 0x01"

definition PROTOCOL_VERSION_V2_16BYTE :: nat where
  "PROTOCOL_VERSION_V2_16BYTE = 16"

definition DATA_TYPE_JOIN :: u8 where
  "DATA_TYPE_JOIN = 0x01"

definition DATA_TYPE_SENSOR_DATA :: u8 where
  "DATA_TYPE_SENSOR_DATA = 0x02"

definition DATA_TYPE_JOIN_CONFIRM :: u8 where
  "DATA_TYPE_JOIN_CONFIRM = 0x03"

definition DATA_TYPE_PONG :: u8 where
  "DATA_TYPE_PONG = 0x04"

definition DATA_TYPE_COMMAND :: u8 where
  "DATA_TYPE_COMMAND = 0x05"

definition DATA_TYPE_STATUS :: u8 where
  "DATA_TYPE_STATUS = 0x06"

definition DATA_TYPE_SETTINGS :: u8 where
  "DATA_TYPE_SETTINGS = 0x08"

definition DATA_TYPE_MESSAGE :: u8 where
  "DATA_TYPE_MESSAGE = 0x09"

definition DATA_TYPE_SET_TIME :: u8 where
  "DATA_TYPE_SET_TIME = 0x0A"

definition DATA_TYPE_SET_SCHEDULE :: u8 where
  "DATA_TYPE_SET_SCHEDULE = 0x0B"

definition DATA_TYPE_FIRMWARE :: u8 where
  "DATA_TYPE_FIRMWARE = 0x0C"

definition DATA_TYPE_UART :: u8 where
  "DATA_TYPE_UART = 0x0D"

definition DATA_TYPE_FIRMWARE_CMD :: u8 where
  "DATA_TYPE_FIRMWARE_CMD = 0x0E"

definition DATA_TYPE_LOCAL_CMD :: u8 where
  "DATA_TYPE_LOCAL_CMD = 0x0F"

definition DATA_RESERVED :: u8 where
  "DATA_RESERVED = 0xFF"

definition DATA_TYPE_FIRMWARE_COMMAND_NEW_FW :: u8 where
  "DATA_TYPE_FIRMWARE_COMMAND_NEW_FW = 0x01"

definition DATA_TYPE_FIRMWARE_COMMAND_CHANK_REQ :: u8 where
  "DATA_TYPE_FIRMWARE_COMMAND_CHANK_REQ = 0x02"

definition DATA_TYPE_FIRMWARE_COMMAND_REBOOT :: u8 where
  "DATA_TYPE_FIRMWARE_COMMAND_REBOOT = 0x03"

definition DATA_TYPE_FIRMWARE_COMMAND_CLEAN_GI :: u8 where
  "DATA_TYPE_FIRMWARE_COMMAND_CLEAN_GI = 0x04"

definition DATA_TYPE_FIRMWARE_COMMAND_FLASH_GI :: u8 where
  "DATA_TYPE_FIRMWARE_COMMAND_FLASH_GI = 0x04"

definition FIRMWARE_PAYLOAD_LENGTH :: nat where
  "FIRMWARE_PAYLOAD_LENGTH = 600"

definition FIRMWARE_PAYLOAD_OFFSET :: nat where
  "FIRMWARE_PAYLOAD_OFFSET = 7"

definition DATA_TYPE_SET_TIME_COMMAND_SYNC :: u8 where
  "DATA_TYPE_SET_TIME_COMMAND_SYNC = 0x01"

definition DATA_TYPE_SET_TIME_REQUEST :: u8 where
  "DATA_TYPE_SET_TIME_REQUEST = 0x03"

definition DATA_TYPE_SET_TIME_RESPONSE :: u8 where
  "DATA_TYPE_SET_TIME_RESPONSE = 0x04"

definition DEVICE_MESSAGE_OTA_SPI_NOTACTIVE :: u8 where
  "DEVICE_MESSAGE_OTA_SPI_NOTACTIVE = 0x07"

definition DEVICE_MESSAGE_OTA_NOT_DELIVERED_CHUNK :: u8 where
  "DEVICE_MESSAGE_OTA_NOT_DELIVERED_CHUNK = 0x08"

definition DEVICE_MESSAGE_OTA_NONCORRECT_CRC :: u8 where
  "DEVICE_MESSAGE_OTA_NONCORRECT_CRC = 0x09"

definition DEVICE_MESSAGE_OTA_BAD_GOLDEN_IMAGE :: u8 where
  "DEVICE_MESSAGE_OTA_BAD_GOLDEN_IMAGE = 0x0A"

definition DEVICE_MESSAGE_OTA_SPI_ERASE_IN_PROGRESS :: u8 where
  "DEVICE_MESSAGE_OTA_SPI_ERASE_IN_PROGRESS = 0x0B"

definition DEVICE_MESSAGE_OTA_UPDATE_SUCCESS :: u8 where
  "DEVICE_MESSAGE_OTA_UPDATE_SUCCESS = 0x0C"

definition DEVICE_MESSAGE_OTA_NONCORRECT_UUID :: u8 where
  "DEVICE_MESSAGE_OTA_NONCORRECT_UUID = 0x0D"

definition DEVICE_MESSAGE_TIMESYNC_STATUS :: u8 where
  "DEVICE_MESSAGE_TIMESYNC_STATUS = 0x0E"

definition UART_PROTOCOL_VERSION_V3 :: u8 where
  "UART_PROTOCOL_VERSION_V3 = 0x03"

definition MAX_UART_DATA_LENGTH :: nat where
  "MAX_UART_DATA_LENGTH = 1500"

definition MAGIC_SEQUENCE_LENGTH :: u8 where
  "MAGIC_SEQUENCE_LENGTH = 6"

definition PACKET_HEADER_LENGTH :: u8 where
  "PACKET_HEADER_LENGTH = 10"

definition LOCAL_ROOT_COMMAND_REBOOT :: u8 where
  "LOCAL_ROOT_COMMAND_REBOOT = 0x00"

definition LOCAL_ROOT_COMMAND_BOOTLOADER_ACTIVATE :: u8 where
  "LOCAL_ROOT_COMMAND_BOOTLOADER_ACTIVATE = 0x01"

definition LOCAL_ROOT_COMMAND_TIME_SET :: u8 where
  "LOCAL_ROOT_COMMAND_TIME_SET = 0x02"

lemmas protocol_consts =
  PROTOCOL_VERSION_V1_def
  PROTOCOL_VERSION_V2_def
  DEVICE_VERSION_V1_def
  PROTOCOL_VERSION_V2_16BYTE_def
  DATA_TYPE_JOIN_def
  DATA_TYPE_SENSOR_DATA_def
  DATA_TYPE_JOIN_CONFIRM_def
  DATA_TYPE_PONG_def
  DATA_TYPE_COMMAND_def
  DATA_TYPE_STATUS_def
  DATA_TYPE_SETTINGS_def
  DATA_TYPE_MESSAGE_def
  DATA_TYPE_SET_TIME_def
  DATA_TYPE_SET_SCHEDULE_def
  DATA_TYPE_FIRMWARE_def
  DATA_TYPE_UART_def
  DATA_TYPE_FIRMWARE_CMD_def
  DATA_TYPE_LOCAL_CMD_def
  DATA_RESERVED_def
  DATA_TYPE_FIRMWARE_COMMAND_NEW_FW_def
  DATA_TYPE_FIRMWARE_COMMAND_CHANK_REQ_def
  DATA_TYPE_FIRMWARE_COMMAND_REBOOT_def
  DATA_TYPE_FIRMWARE_COMMAND_CLEAN_GI_def
  DATA_TYPE_FIRMWARE_COMMAND_FLASH_GI_def
  FIRMWARE_PAYLOAD_LENGTH_def
  FIRMWARE_PAYLOAD_OFFSET_def
  DATA_TYPE_SET_TIME_COMMAND_SYNC_def
  DATA_TYPE_SET_TIME_REQUEST_def
  DATA_TYPE_SET_TIME_RESPONSE_def
  DEVICE_MESSAGE_OTA_SPI_NOTACTIVE_def
  DEVICE_MESSAGE_OTA_NOT_DELIVERED_CHUNK_def
  DEVICE_MESSAGE_OTA_NONCORRECT_CRC_def
  DEVICE_MESSAGE_OTA_BAD_GOLDEN_IMAGE_def
  DEVICE_MESSAGE_OTA_SPI_ERASE_IN_PROGRESS_def
  DEVICE_MESSAGE_OTA_UPDATE_SUCCESS_def
  DEVICE_MESSAGE_OTA_NONCORRECT_UUID_def
  DEVICE_MESSAGE_TIMESYNC_STATUS_def
  UART_PROTOCOL_VERSION_V3_def
  MAX_UART_DATA_LENGTH_def
  MAGIC_SEQUENCE_LENGTH_def
  PACKET_HEADER_LENGTH_def
  LOCAL_ROOT_COMMAND_REBOOT_def
  LOCAL_ROOT_COMMAND_BOOTLOADER_ACTIVATE_def
  LOCAL_ROOT_COMMAND_TIME_SET_def

section \<open>Buffers\<close>

definition rx_buffer :: "bytes \<Rightarrow> mem \<Rightarrow> mem" where
  "rx_buffer packet stale = (\<lambda>i. if i < length packet then packet ! i else stale i)"

lemma rx_buffer_Cons [simp]:
  "rx_buffer (b # bs) stale 0 = b"
  "rx_buffer (b # bs) stale (Suc i) = rx_buffer bs (\<lambda>j. stale (Suc j)) i"
  by (auto simp: rx_buffer_def fun_eq_iff)

lemma rx_buffer_numeral [simp]:
  "rx_buffer (b # bs) stale (numeral k) = rx_buffer bs (\<lambda>j. stale (Suc j)) (pred_numeral k)"
  by (simp add: numeral_eq_Suc)

lemma rx_buffer_nth: "i < length p \<Longrightarrow> rx_buffer p stale i = p ! i"
  by (simp add: rx_buffer_def)

text \<open>\<open>for (i = 0; i < n; i++) dst[i] = src[off + i]\<close>\<close>

definition copy_bytes :: "bytes \<Rightarrow> nat \<Rightarrow> nat \<Rightarrow> bytes \<Rightarrow> bytes" where
  "copy_bytes src off n dst = take n (drop off src) @ drop n dst"

lemma length_copy_bytes [simp]:
  "off + n \<le> length src \<Longrightarrow> n \<le> length dst \<Longrightarrow> length (copy_bytes src off n dst) = length dst"
  by (simp add: copy_bytes_def)

lemma nth_copy_bytes:
  "off + n \<le> length src \<Longrightarrow> i < length dst \<Longrightarrow> n \<le> length dst \<Longrightarrow>
    copy_bytes src off n dst ! i = (if i < n then src ! (off + i) else dst ! i)"
  by (auto simp: copy_bytes_def nth_append)

lemma take_copy_bytes [simp]:
  "off + n \<le> length src \<Longrightarrow> take n (copy_bytes src off n dst) = take n (drop off src)"
  by (simp add: copy_bytes_def)

section \<open>Text\<close>

definition hex_digit :: "string \<Rightarrow> u8 \<Rightarrow> char" where
  "hex_digit digits w = digits ! unat w"

definition hex_byte :: "string \<Rightarrow> u8 \<Rightarrow> string" where
  "hex_byte digits b = [hex_digit digits (drop_bit 4 b), hex_digit digits (b AND 15)]"

definition lower_digits :: string where
  "lower_digits = ''0123456789abcdef''"

definition upper_digits :: string where
  "upper_digits = ''0123456789ABCDEF''"

text \<open>\<open>printf("%02x")\<close> and \<open>printf("%02X")\<close> of each byte.\<close>

definition printf_02x :: "bytes \<Rightarrow> string" where
  "printf_02x bs = concat (map (hex_byte lower_digits) bs)"

definition printf_02X :: "bytes \<Rightarrow> string" where
  "printf_02X bs = concat (map (hex_byte upper_digits) bs)"

text \<open>Reading such text back, as the host does.\<close>

definition hex_value :: "char \<Rightarrow> nat" where
  "hex_value c = (let n = of_char c :: nat
    in if 48 \<le> n \<and> n \<le> 57 then n - 48 else if 97 \<le> n \<and> n \<le> 102 then n - 87
       else if 65 \<le> n \<and> n \<le> 70 then n - 55 else 0)"

fun unhex :: "string \<Rightarrow> bytes" where
  "unhex (a # b # s) = word_of_nat (16 * hex_value a + hex_value b) # unhex s"
| "unhex _ = []"

lemma hex_value_digits:
  assumes "n < 16"
  shows "hex_value (lower_digits ! n) = n" "hex_value (upper_digits ! n) = n"
proof -
  have all: "list_all (\<lambda>n. hex_value (lower_digits ! n) = n \<and> hex_value (upper_digits ! n) = n) [0..<16]"
    by code_simp
  have "n \<in> set [0..<16]" using assms by simp
  with all have "hex_value (lower_digits ! n) = n \<and> hex_value (upper_digits ! n) = n"
    unfolding list_all_iff by (rule bspec)
  then show "hex_value (lower_digits ! n) = n" "hex_value (upper_digits ! n) = n" by simp_all
qed

lemma nibbles: "unat (drop_bit 4 b) = unat b div 16" "unat (b AND 15) = unat b mod 16" for b :: u8
proof -
  show "unat (drop_bit 4 b) = unat b div 16" by (simp add: unat_drop_bit_eq drop_bit_eq_div [where ?'a = nat])
  have "b AND 15 = take_bit 4 b" by (simp add: take_bit_eq_mask mask_eq_exp_minus_1)
  then show "unat (b AND 15) = unat b mod 16"
    by (simp only: unsigned_take_bit_eq take_bit_eq_mod [where ?'a = nat]) simp
qed

lemma unhex_byte:
  assumes "\<forall>n<16. hex_value (D ! n) = n"
  shows "unhex (hex_byte D b @ s) = b # unhex s"
proof -
  have "unat b < 256" using unsigned_less [of b] by simp
  then have "unat b div 16 < 16" "unat b mod 16 < 16" by auto
  then have "16 * hex_value (hex_digit D (drop_bit 4 b)) + hex_value (hex_digit D (b AND 15)) = unat b"
    using assms by (simp add: hex_digit_def nibbles)
  then show ?thesis by (simp add: hex_byte_def)
qed

lemma unhex_printf: "unhex (printf_02x bs) = bs" "unhex (printf_02X bs) = bs"
  using hex_value_digits by (induction bs) (simp_all add: printf_02x_def printf_02X_def unhex_byte)

lemma length_printf: "length (printf_02x bs) = 2 * length bs" "length (printf_02X bs) = 2 * length bs"
  by (induction bs) (simp_all add: printf_02x_def printf_02X_def hex_byte_def)

end
