(* ===== verification/Rtc.thy ===== *)
theory Rtc
  imports Protocol
begin

text \<open>
  The clock of a node: \<open>rtc_s\<close> and \<open>rtc_ms\<close> of \<open>cpu/cc26xx-cc13xx/clock.c\<close>
  and \<open>unwired/rtc-common.c\<close>. The always-on counter of the chip (seconds and a
  fraction of 2^-32 seconds) is an argument, the two offsets are the record
  \<open>epoch\<close>. \<open>time_data_handler\<close> answers the call of \<open>send_message_packet\<close>
  that it ends with, if it gets there. Comparisons that C makes on promoted \<open>int\<close>
  or \<open>int64_t\<close> values are made on integers here.
\<close>

section \<open>The chip's counter\<close>

record rtc =
  rtc_sec :: u32
  rtc_fraction :: u32

definition rtc_s :: "rtc \<Rightarrow> u32" where
  "rtc_s c = rtc_sec c"

definition rtc_ms :: "rtc \<Rightarrow> u16" where
  "rtc_ms c = ucast (rtc_fraction c div 4294967)"

section \<open>The epoch clock\<close>

record time_data_t =
  seconds :: u32
  milliseconds :: u16

record epoch =
  epoch_sec_offset :: u32
  epoch_msec_offset :: u16

definition epoch_init :: epoch where
  "epoch_init = \<lparr>epoch_sec_offset = 0, epoch_msec_offset = 0\<rparr>"

definition set_epoch_time :: "rtc \<Rightarrow> time_data_t \<Rightarrow> epoch \<Rightarrow> epoch" where
  "set_epoch_time c new_time e =
    (let dms = uint (milliseconds new_time) - uint (rtc_ms c);
         ds = seconds new_time - rtc_s c
     in if dms \<ge> 1000
        then e\<lparr>epoch_msec_offset := word_of_int (dms - 1000), epoch_sec_offset := ds + 1\<rparr>
        else if dms < 0
        then e\<lparr>epoch_msec_offset := word_of_int (dms + 1000), epoch_sec_offset := ds - 1\<rparr>
        else e\<lparr>epoch_msec_offset := word_of_int dms, epoch_sec_offset := ds\<rparr>)"

text \<open>The branch for negative milliseconds compares an unsigned field with 0.\<close>

definition get_epoch_time :: "rtc \<Rightarrow> epoch \<Rightarrow> time_data_t" where
  "get_epoch_time c e =
    (let s = rtc_s c + epoch_sec_offset e;
         ms = rtc_ms c + epoch_msec_offset e
     in if ms \<ge> 1000 then \<lparr>seconds = s + 1, milliseconds = ms - 1000\<rparr>
        else if uint ms < 0 then \<lparr>seconds = s - 1, milliseconds = ms + 1000\<rparr>
        else \<lparr>seconds = s, milliseconds = ms\<rparr>)"

definition calculate_diff_time :: "time_data_t \<Rightarrow> time_data_t \<Rightarrow> u16" where
  "calculate_diff_time time_max time_min =
    (let diff_time_s = uint (seconds time_max - seconds time_min);
         diff_time_ms = diff_time_s * 1000
           + (uint (milliseconds time_max) - uint (milliseconds time_min))
     in if diff_time_s > 30 \<or> diff_time_s < -30 \<or> diff_time_ms > 30 * 1000
           \<or> diff_time_ms < -30 * 1000
        then 32767 else word_of_int diff_time_ms)"

definition calculate_transit_time :: "time_data_t \<Rightarrow> time_data_t \<Rightarrow> u16" where
  "calculate_transit_time time_req time_res =
    (let transit_time_s = seconds time_res - seconds time_req;
         transit_time_ms = word_of_int (uint (milliseconds time_res) - uint (milliseconds time_req));
         half_transit_time_ms = (transit_time_s * 1000 + transit_time_ms) div 2 :: u32
     in ucast half_transit_time_ms)"

section \<open>The answer of the root\<close>

text \<open>\<open>while (half_transit_time > 1000)\<close>: whole seconds go to the seconds of the root.\<close>

function split_seconds :: "u16 \<Rightarrow> u32 \<Rightarrow> u16 \<times> u32" where
  "split_seconds half s =
    (if half > 1000 then split_seconds (half - 1000) (s - 1) else (half, s))"
  by auto
termination
  by (relation "measure (\<lambda>(half, s). unat half)")
    (auto simp: word_less_nat_alt unat_sub word_le_nat_alt)

declare split_seconds.simps [simp del]

definition rtc_root_time :: "(nat \<Rightarrow> u8) \<Rightarrow> time_data_t" where
  "rtc_root_time data =
    \<lparr>seconds = u32_of_bytes (data 4) (data 5) (data 6) (data 7),
     milliseconds = u16_of_bytes (data 8) (data 9)\<rparr>"

definition rtc_request_time :: "(nat \<Rightarrow> u8) \<Rightarrow> time_data_t" where
  "rtc_request_time data =
    \<lparr>seconds = u32_of_bytes (data 10) (data 11) (data 12) (data 13),
     milliseconds = u16_of_bytes (data 14) (data 15)\<rparr>"

definition time_data_handler ::
  "rtc \<Rightarrow> (nat \<Rightarrow> u8) \<Rightarrow> epoch \<Rightarrow> (u8 \<times> u8 \<times> u8) option \<times> epoch" where
  "time_data_handler c data e =
    (let root_time = rtc_root_time data;
         local_time_req = rtc_request_time data;
         local_time_res = get_epoch_time c e;
         half = calculate_transit_time local_time_req local_time_res
     in if half > 3000 then (None, e)
        else let (half', s) = split_seconds half (seconds root_time);
                 ms = milliseconds root_time;
                 (s', ms') = (if half' > ms then (s - 1, ms + 1000) else (s, ms));
                 new_time = \<lparr>seconds = s', milliseconds = ms' - half'\<rparr>;
                 e' = set_epoch_time c new_time e;
                 diff = calculate_diff_time new_time local_time_res
             in (Some (DEVICE_MESSAGE_TIMESYNC_STATUS, byte_of diff 0, byte_of diff 1), e'))"

text \<open>
  One round of \<open>time_sync_process\<close>: a request is sent and the timer is set to an hour
  plus \<open>random_rand() % CLOCK_SECOND*2\<close> ticks, \<open>CLOCK_SECOND\<close> being 128.
\<close>

definition time_sync_interval :: "u16 \<Rightarrow> u32" where
  "time_sync_interval random_rand = 60 * 60 * 128 + ucast (random_rand mod 128) * 2"

section \<open>Times as milliseconds\<close>

text \<open>
  The abstract clock: a time is its number of milliseconds modulo the range of the
  32-bit seconds.
\<close>

definition time_modulus :: int where
  "time_modulus = 2 ^ 32 * 1000"

definition time_ms :: "time_data_t \<Rightarrow> int" where
  "time_ms t = uint (seconds t) * 1000 + uint (milliseconds t)"

definition clock_ms :: "rtc \<Rightarrow> int" where
  "clock_ms c = uint (rtc_s c) * 1000 + uint (rtc_ms c)"

definition offset_ms :: "epoch \<Rightarrow> int" where
  "offset_ms e = uint (epoch_sec_offset e) * 1000 + uint (epoch_msec_offset e)"

definition same_ms :: "int \<Rightarrow> int \<Rightarrow> bool" where
  "same_ms x y \<longleftrightarrow> x mod time_modulus = y mod time_modulus"

text \<open>The offset that the code keeps is below 1000 ms: the invariant of the clock.\<close>

definition epoch_ok :: "epoch \<Rightarrow> bool" where
  "epoch_ok e \<longleftrightarrow> epoch_msec_offset e < 1000"

lemma rtc_ms_le: "uint (rtc_ms c) \<le> 1000"
proof -
  have "unat (rtc_fraction c) div 4294967 \<le> 4294967295 div 4294967"
    using unat_lt_u32 [of "rtc_fraction c"] by (intro div_le_mono) simp
  then have "unat (rtc_fraction c div 4294967) \<le> 1000"
    by (simp add: unat_div)
  moreover have "unat (rtc_ms c) \<le> unat (rtc_fraction c div 4294967)"
    by (simp only: rtc_ms_def unsigned_ucast_eq take_bit_nat_less_eq_self)
  ultimately have "unat (rtc_ms c) \<le> 1000" by (rule order_trans [rotated])
  then have "int (unat (rtc_ms c)) \<le> int 1000" by (rule of_nat_mono)
  then show ?thesis by (simp only: uint_nat of_nat_numeral)
qed

lemma uint_seconds_mod:
  fixes w :: u32
  shows "same_ms (uint (word_of_int k :: u32) * 1000 + x) (k * 1000 + x)"
proof -
  have "uint (word_of_int k :: u32) = k mod 2 ^ 32"
    by (simp add: uint_word_of_int)
  then have "uint (word_of_int k :: u32) * 1000 = k * 1000 mod time_modulus"
    by (simp add: time_modulus_def mod_mult_mult2 [symmetric] del: mod_mult_mult2)
  then show ?thesis by (simp add: same_ms_def mod_simps)
qed

lemma same_ms_seconds_add:
  "same_ms (uint (a + b :: u32) * 1000 + x) ((uint a + uint b) * 1000 + x)"
  using uint_seconds_mod [of "uint a + uint b" x] by simp

lemma same_ms_seconds_diff:
  "same_ms (uint (a - b :: u32) * 1000 + x) ((uint a - uint b) * 1000 + x)"
  using uint_seconds_mod [of "uint a - uint b" x] by simp

lemma same_ms_refl [simp]: "same_ms x x"
  by (simp add: same_ms_def)

lemma same_ms_trans: "same_ms x y \<Longrightarrow> same_ms y z \<Longrightarrow> same_ms x z"
  by (simp add: same_ms_def)

lemma same_ms_sym: "same_ms x y \<Longrightarrow> same_ms y x"
  by (simp add: same_ms_def)

lemma same_ms_add: "same_ms x y \<Longrightarrow> same_ms (x + z) (y + z)"
  unfolding same_ms_def by (metis mod_add_left_eq)

lemma set_epoch_offset:
  assumes "milliseconds T < 1000"
  shows "epoch_ok (set_epoch_time c T e)"
    and "same_ms (offset_ms (set_epoch_time c T e)) (time_ms T - clock_ms c)"
proof -
  define d where "d = uint (milliseconds T) - uint (rtc_ms c)"
  have T: "uint (milliseconds T) < 1000" using assms by (simp add: word_less_def)
  have d: "d < 1000" "-1000 \<le> d"
    unfolding d_def
    using T rtc_ms_le [of c] uint_ge_0 [of "milliseconds T"] uint_ge_0 [of "rtc_ms c"]
    by linarith+
  have u: "uint (word_of_int k :: u16) = k" if "0 \<le> k" "k < 1000" for k
    using that by (simp add: uint_word_of_int)
  show "epoch_ok (set_epoch_time c T e)"
    using d u [of d] u [of "d + 1000"]
    by (auto simp: set_epoch_time_def epoch_ok_def Let_def d_def [symmetric] word_less_def)
  have "offset_ms (set_epoch_time c T e) =
    (if d < 0 then uint (seconds T - rtc_s c - 1) * 1000 + (d + 1000)
     else uint (seconds T - rtc_s c) * 1000 + d)"
    using d u [of d] u [of "d + 1000"]
    by (auto simp: set_epoch_time_def offset_ms_def Let_def d_def [symmetric])
  moreover have "same_ms (uint (seconds T - rtc_s c) * 1000 + d) (time_ms T - clock_ms c)"
    using same_ms_seconds_diff [of "seconds T" "rtc_s c" d]
    by (simp add: time_ms_def clock_ms_def d_def algebra_simps)
  moreover have "same_ms (uint (seconds T - rtc_s c - 1) * 1000 + (d + 1000)) (time_ms T - clock_ms c)"
    using uint_seconds_mod [of "uint (seconds T) - uint (rtc_s c) - 1" "d + 1000"]
    by (simp add: time_ms_def clock_ms_def d_def algebra_simps)
  ultimately show "same_ms (offset_ms (set_epoch_time c T e)) (time_ms T - clock_ms c)"
    by simp
qed

lemma get_epoch_offset:
  assumes "epoch_ok e"
  shows "milliseconds (get_epoch_time c e) < 1000"
    and "same_ms (time_ms (get_epoch_time c e)) (clock_ms c + offset_ms e)"
proof -
  define m where "m = rtc_ms c + epoch_msec_offset e"
  define s where "s = rtc_s c + epoch_sec_offset e"
  have o: "uint (epoch_msec_offset e) < 1000" using assms by (simp add: epoch_ok_def word_less_def)
  have m: "uint m = uint (rtc_ms c) + uint (epoch_msec_offset e)"
    using o rtc_ms_le [of c] by (simp add: m_def uint_add_lem [THEN iffD1])
  have m2: "uint m < 2000" using m o rtc_ms_le [of c] by simp
  have k: "uint (m - 1000) = uint m - 1000" if "m \<ge> 1000"
    using that by (simp add: uint_sub_lem [THEN iffD1] word_le_def)
  have get: "get_epoch_time c e =
    (if m \<ge> 1000 then \<lparr>seconds = s + 1, milliseconds = m - 1000\<rparr> else \<lparr>seconds = s, milliseconds = m\<rparr>)"
    by (simp add: get_epoch_time_def Let_def m_def s_def not_less)
  show "milliseconds (get_epoch_time c e) < 1000"
    using m2 k by (auto simp: get word_less_def word_le_def)
  show "same_ms (time_ms (get_epoch_time c e)) (clock_ms c + offset_ms e)"
  proof (cases "m \<ge> 1000")
    case True
    then have "same_ms (time_ms (get_epoch_time c e))
        ((uint (rtc_s c) + uint (epoch_sec_offset e) + 1) * 1000 + (uint m - 1000))"
      using uint_seconds_mod [of "uint (rtc_s c) + uint (epoch_sec_offset e) + 1" "uint m - 1000"] k
      by (simp add: get time_ms_def s_def)
    then show ?thesis by (simp add: clock_ms_def offset_ms_def m algebra_simps)
  next
    case False
    then have "same_ms (time_ms (get_epoch_time c e))
        ((uint (rtc_s c) + uint (epoch_sec_offset e)) * 1000 + uint m)"
      using same_ms_seconds_add [of "rtc_s c" "epoch_sec_offset e" "uint m"]
      by (simp add: get time_ms_def s_def)
    then show ?thesis by (simp add: clock_ms_def offset_ms_def m algebra_simps)
  qed
qed

section \<open>The laws of the synchronisation\<close>

lemma word_of_int_word_sum: "word_of_int (uint (a :: u32) * k + j) = a * word_of_int k + word_of_int j"
  by simp

lemma transit_uint:
  "uint (calculate_transit_time q r) = (time_ms r - time_ms q) mod 2 ^ 32 div 2 mod 2 ^ 16"
proof -
  let ?d = "(seconds r - seconds q) * 1000
    + word_of_int (uint (milliseconds r) - uint (milliseconds q)) :: u32"
  have "?d = word_of_int (time_ms r - time_ms q)"
    by (simp add: time_ms_def algebra_simps)
  then have "uint ?d = (time_ms r - time_ms q) mod 2 ^ 32"
    by (simp only: uint_word_of_int) simp
  then have "uint (?d div 2) = (time_ms r - time_ms q) mod 2 ^ 32 div 2"
    by (simp only: uint_div) simp
  moreover have "uint (calculate_transit_time q r) = uint (?d div 2) mod 2 ^ 16"
    by (simp only: calculate_transit_time_def Let_def unsigned_ucast_eq) (simp add: take_bit_eq_mod)
  ultimately show ?thesis by simp
qed

lemma transit_same_ms:
  assumes "same_ms (time_ms r - time_ms q) d" "0 \<le> d" "d < 131072"
  shows "uint (calculate_transit_time q r) = d div 2"
proof -
  have "(time_ms r - time_ms q) mod time_modulus mod 2 ^ 32 = d mod time_modulus mod 2 ^ 32"
    using assms(1) by (simp add: same_ms_def)
  then have "(time_ms r - time_ms q) mod 2 ^ 32 = d mod 2 ^ 32"
    by (simp add: time_modulus_def mod_mod_cancel)
  then show ?thesis using assms(2,3) by (simp add: transit_uint)
qed

lemma split_seconds_ok:
  "split_seconds half s = (half', s') \<Longrightarrow>
    half' \<le> 1000 \<and> same_ms (uint s' * 1000 - uint half') (uint s * 1000 - uint half)"
proof (induction half s rule: split_seconds.induct)
  case (1 half s)
  show ?case
  proof (cases "half > 1000")
    case True
    then have "split_seconds (half - 1000) (s - 1) = (half', s')"
      using "1.prems" by (simp add: split_seconds.simps [of half])
    from "1.IH" [OF True this] have IH: "half' \<le> 1000"
      "same_ms (uint s' * 1000 - uint half') (uint (s - 1) * 1000 - uint (half - 1000))"
      by auto
    have "uint (half - 1000) = uint half - 1000"
      using True by (simp add: uint_sub_lem [THEN iffD1] word_less_def)
    then have e: "uint (s - 1) * 1000 - uint (half - 1000) = uint (s - 1) * 1000 + (1000 - uint half)"
      by linarith
    have "(uint s - uint (1 :: u32)) * 1000 + (1000 - uint half) = uint s * 1000 - uint half"
      by simp
    then have "same_ms (uint (s - 1) * 1000 - uint (half - 1000)) (uint s * 1000 - uint half)"
      unfolding e using same_ms_seconds_diff [of s 1 "1000 - uint half"] by (simp only:)
    with IH show ?thesis using same_ms_trans by blast
  next
    case False
    then have "half' = half" "s' = s"
      using "1.prems" by (simp_all add: split_seconds.simps [of half])
    then show ?thesis using False by (simp add: not_less)
  qed
qed

lemma corrected_time:
  assumes "half' \<le> 1000" "ms < (1000 :: u16)"
    and "(s', ms') = (if half' > ms then (s - 1, ms + 1000) else (s, ms))"
  shows "ms' - half' < 1000"
    and "same_ms (time_ms \<lparr>seconds = s', milliseconds = ms' - half'\<rparr>)
      (uint s * 1000 - uint half' + uint ms)"
proof -
  have u: "uint half' \<le> 1000" "uint ms < 1000"
    using assms(1,2) by (simp_all add: word_le_def word_less_def)
  have "uint (ms' - half') = uint ms - uint half' + (if half' > ms then 1000 else 0)"
  proof (cases "half' > ms")
    case True
    have "uint (ms + 1000) = uint ms + 1000"
      using u by (simp add: uint_add_lem [THEN iffD1])
    moreover from this have "uint (ms + 1000 - half') = uint (ms + 1000) - uint half'"
      using u uint_ge_0 [of ms] by (intro uint_sub_lem [THEN iffD1]) linarith
    ultimately show ?thesis using True assms(3) by simp
  next
    case False
    then show ?thesis using assms(3) by (simp add: uint_sub_lem [THEN iffD1] word_less_def)
  qed
  note sub = this
  show "ms' - half' < 1000"
  proof -
    have "uint (ms' - half') < 1000"
      using u sub uint_ge_0 [of ms] uint_ge_0 [of half']
      unfolding word_less_def by (cases "uint ms < uint half'"; simp only: if_True if_False; linarith)
    then show ?thesis by (simp add: word_less_def)
  qed
  show "same_ms (time_ms \<lparr>seconds = s', milliseconds = ms' - half'\<rparr>)
      (uint s * 1000 - uint half' + uint ms)"
  proof (cases "half' > ms")
    case True
    then have s': "s' = s - 1" using assms(3) by simp
    show ?thesis unfolding s'
      using same_ms_seconds_diff [of s 1 "uint ms - uint half' + 1000"] True
      by (simp add: time_ms_def sub algebra_simps)
  next
    case False
    then have "uint (ms' - half') = uint ms - uint half'" "s' = s"
      using assms(3) sub by auto
    then have "time_ms \<lparr>seconds = s', milliseconds = ms' - half'\<rparr> =
        uint s * 1000 - uint half' + uint ms"
      by (simp add: time_ms_def)
    then show ?thesis by (simp only: same_ms_refl)
  qed
qed

text \<open>
  The handler drops a response when half of the transit time it computes exceeds 3000;
  otherwise it sets the clock to the root's time minus this half.
\<close>

definition rtc_half :: "rtc \<Rightarrow> (nat \<Rightarrow> u8) \<Rightarrow> epoch \<Rightarrow> u16" where
  "rtc_half c data e = calculate_transit_time (rtc_request_time data) (get_epoch_time c e)"

lemma time_data_handler_late:
  "rtc_half c data e > 3000 \<Longrightarrow> time_data_handler c data e = (None, e)"
  by (simp add: time_data_handler_def rtc_half_def Let_def)

lemma time_data_handler_sets:
  assumes "rtc_half c data e \<le> 3000" "milliseconds (rtc_root_time data) < 1000"
  obtains diff :: u16 and e' where "time_data_handler c data e =
      (Some (DEVICE_MESSAGE_TIMESYNC_STATUS, byte_of diff 0, byte_of diff 1), e')"
    and "epoch_ok e'"
    and "same_ms (offset_ms e')
      (time_ms (rtc_root_time data) - uint (rtc_half c data e) - clock_ms c)"
proof -
  let ?r = "rtc_root_time data"
  obtain half' s where split: "split_seconds (rtc_half c data e) (seconds ?r) = (half', s)"
    by fastforce
  obtain s' ms' where pick: "(s', ms') =
      (if half' > milliseconds ?r then (s - 1, milliseconds ?r + 1000) else (s, milliseconds ?r))"
    by (metis surj_pair)
  define T where "T = \<lparr>seconds = s', milliseconds = ms' - half'\<rparr>"
  define diff where "diff = calculate_diff_time T (get_epoch_time c e)"
  have run: "time_data_handler c data e =
      (Some (DEVICE_MESSAGE_TIMESYNC_STATUS, byte_of diff 0, byte_of diff 1), set_epoch_time c T e)"
    using assms(1) split pick [symmetric]
    by (simp add: time_data_handler_def rtc_half_def Let_def T_def diff_def not_less)
  have half': "half' \<le> 1000"
      "same_ms (uint s * 1000 - uint half') (uint (seconds ?r) * 1000 - uint (rtc_half c data e))"
    using split_seconds_ok [OF split] by auto
  have T: "milliseconds T < 1000"
    and "same_ms (time_ms T) (uint s * 1000 - uint half' + uint (milliseconds ?r))"
    using corrected_time [OF half'(1) assms(2) pick] by (simp_all add: T_def)
  moreover have "same_ms (uint s * 1000 - uint half' + uint (milliseconds ?r))
      (uint (seconds ?r) * 1000 - uint (rtc_half c data e) + uint (milliseconds ?r))"
    using half'(2) by (rule same_ms_add)
  ultimately have "same_ms (time_ms T + - clock_ms c)
      (time_ms ?r - uint (rtc_half c data e) + - clock_ms c)"
    by (intro same_ms_add) (auto intro: same_ms_trans simp: time_ms_def algebra_simps)
  then have "same_ms (offset_ms (set_epoch_time c T e))
      (time_ms ?r - uint (rtc_half c data e) - clock_ms c)"
    using set_epoch_offset(2) [OF T] by (auto intro: same_ms_trans)
  then show ?thesis by (rule that [OF run set_epoch_offset(1) [OF T]])
qed

end
