(* ===== verification/Root_Node.thy ===== *)
theory Root_Node
  imports Rtc
begin

text \<open>
  The border router, \<open>unwired/root-node.c\<close>: frames that the host sends over the UART
  are collected byte by byte in the interrupt handler \<open>uart_data_receiver\<close>, stored by
  \<open>uart_packet_processed\<close> in one of four message slots, and sent as UDP packets by
  \<open>send_command_process\<close>; UDP packets of the nodes are answered and printed for the
  host. What the root does to the outside is a list of events; after a
  \<open>System_Reset\<close> event nothing more happens on the device. An access outside of an
  array is \<open>None\<close>, except for the bytes that \<open>send_uart_packet\<close> prints: nothing depends on
  them, so each byte read behind the array is an unknown byte of the print, and the packet is
  sent all the same. The debug prints that read no array and the LEDs are left out.
\<close>

section \<open>Messages and state\<close>

type_synonym uip_addr = bytes

record command_data =
  cd_destination_address :: uip_addr
  cd_protocol_version :: u8
  cd_device_version :: u8
  cd_ability_target :: u8
  cd_ability_number :: u8
  cd_ability_state :: u8
  cd_ready_to_send :: u8

record firmware_data =
  fd_destination_address :: uip_addr
  fd_protocol_version :: u8
  fd_device_version :: u8
  fd_firmware_payload :: bytes
  fd_chunk_number_b1 :: u8
  fd_chunk_number_b2 :: u8
  fd_reserved_b1 :: u8
  fd_reserved_b2 :: u8
  fd_ready_to_send :: u8
  fd_chunk_size :: u16

record firmware_cmd =
  fc_destination_address :: uip_addr
  fc_protocol_version :: u8
  fc_device_version :: u8
  fc_firmware_command :: u8
  fc_chunk_quantity_b1 :: u8
  fc_chunk_quantity_b2 :: u8
  fc_ready_to_send :: u8

record uart_data =
  ud_destination_address :: uip_addr
  ud_protocol_version :: u8
  ud_device_version :: u8
  ud_data_lenth :: u8
  ud_returned_data_lenth :: u8
  ud_payload :: bytes
  ud_ready_to_send :: u8

datatype root_event =
    Udp_Sendto uip_addr bytes
  | Uart_Print u8 u8 "u8 option list"
  | Raw_Print string
  | Raw_Incompatible u16
  | Sector_Erase u32
  | System_Reset

record uart_fsm =
  uart_header_iterator :: u8
  uart_header_data :: bytes
  uart_data_iterator :: u16
  uart_data_length :: u16
  uart_packet_crc :: u8

record root =
  root_epoch :: epoch
  udp_conn :: bool
  command_message :: command_data
  firmware_message :: firmware_data
  firmware_cmd_message :: firmware_cmd
  uart_message :: uart_data
  uart_buf :: bytes
  fsm :: uart_fsm
  root_events :: "root_event list"

definition emit :: "root_event \<Rightarrow> root \<Rightarrow> root" where
  "emit ev r = r\<lparr>root_events := root_events r @ [ev]\<rparr>"

definition simple_udp_sendto :: "uip_addr \<Rightarrow> bytes \<Rightarrow> root \<Rightarrow> root" where
  "simple_udp_sendto addr packet r = (if udp_conn r then emit (Udp_Sendto addr packet) r else r)"

section \<open>Packets of the root\<close>

text \<open>A destination that is a null pointer is \<open>None\<close>.\<close>

definition send_confirmation_packet :: "uip_addr option \<Rightarrow> root \<Rightarrow> root" where
  "send_confirmation_packet dest_addr r = (case dest_addr of None \<Rightarrow> r
    | Some addr \<Rightarrow> simple_udp_sendto addr
        [PROTOCOL_VERSION_V1, DEVICE_VERSION_V1, DATA_TYPE_JOIN_CONFIRM, DATA_RESERVED, DATA_RESERVED,
         DATA_RESERVED, DATA_RESERVED, DATA_RESERVED, DATA_RESERVED, DATA_RESERVED] r)"

definition send_pong_packet :: "uip_addr option \<Rightarrow> root \<Rightarrow> root" where
  "send_pong_packet dest_addr r = (case dest_addr of None \<Rightarrow> r
    | Some addr \<Rightarrow> simple_udp_sendto addr
        [PROTOCOL_VERSION_V1, DEVICE_VERSION_V1, DATA_TYPE_PONG, DATA_RESERVED, DATA_RESERVED,
         DATA_RESERVED, DATA_RESERVED, DATA_RESERVED, DATA_RESERVED, DATA_RESERVED] r)"

definition time_bytes :: "time_data_t \<Rightarrow> bytes" where
  "time_bytes t = [byte_of (seconds t) 0, byte_of (seconds t) 1, byte_of (seconds t) 2,
     byte_of (seconds t) 3, byte_of (milliseconds t) 0, byte_of (milliseconds t) 1]"

definition send_time_sync_resp_packet ::
  "rtc \<Rightarrow> uip_addr option \<Rightarrow> mem \<Rightarrow> u16 \<Rightarrow> root \<Rightarrow> root" where
  "send_time_sync_resp_packet c dest_addr data len r = (case dest_addr of None \<Rightarrow> r
    | Some addr \<Rightarrow>
        let root_time = get_epoch_time c (root_epoch r)
        in simple_udp_sendto addr
          ([PROTOCOL_VERSION_V1, DEVICE_VERSION_V1, DATA_TYPE_SET_TIME, DATA_TYPE_SET_TIME_RESPONSE]
           @ time_bytes root_time
           @ [data 10, data 11, data 12, data 13, data 14, data 15]) r)"

definition dag_root_raw_print :: "uip_addr option \<Rightarrow> mem option \<Rightarrow> u16 \<Rightarrow> root \<Rightarrow> root" where
  "dag_root_raw_print addr data len r = (case (addr, data) of
      (Some a, Some d) \<Rightarrow>
        if len \<noteq> 10 \<and> len \<noteq> 23 then emit (Raw_Incompatible len) r
        else emit (Raw_Print (''DAGROOTRAW1'' @ printf_02x (take 16 a)
          @ (if len = 10 then printf_02X (map d [0..<10]) @ ''FFFFFFFFFFFFFFFFFFFFFFFFFF'' else [])
          @ (if len = 23 then printf_02X (map d [0..<23]) else [])
          @ ''RAWEND   '' @ [CHR 0x0A])) r
    | _ \<Rightarrow> r)"

section \<open>Packets of the nodes\<close>

definition decrypted_data_processed ::
  "rtc \<Rightarrow> uip_addr option \<Rightarrow> mem \<Rightarrow> u16 \<Rightarrow> root \<Rightarrow> root" where
  "decrypted_data_processed c sender_addr data datalen r =
    (let packet_type = data 2
     in if packet_type = DATA_TYPE_JOIN
        then dag_root_raw_print sender_addr (Some data) datalen
          (send_confirmation_packet sender_addr r)
        else if packet_type = DATA_TYPE_STATUS \<or> packet_type = DATA_TYPE_SENSOR_DATA
        then dag_root_raw_print sender_addr (Some data) datalen (send_pong_packet sender_addr r)
        else if packet_type = DATA_TYPE_SET_TIME \<and> data 3 = DATA_TYPE_SET_TIME_REQUEST
        then send_time_sync_resp_packet c sender_addr data datalen r
        else dag_root_raw_print sender_addr (Some data) datalen r)"

definition encrypted_data_processed :: "uip_addr option \<Rightarrow> mem \<Rightarrow> u16 \<Rightarrow> root \<Rightarrow> root" where
  "encrypted_data_processed sender_addr data datalen r = r"

definition udp_data_receiver :: "rtc \<Rightarrow> uip_addr \<Rightarrow> mem \<Rightarrow> u16 \<Rightarrow> root \<Rightarrow> root" where
  "udp_data_receiver c sender_addr data datalen r =
    (if data 0 = PROTOCOL_VERSION_V1
     then decrypted_data_processed c (Some sender_addr) data datalen r
     else if data 0 = PROTOCOL_VERSION_V2
     then encrypted_data_processed (Some sender_addr) data datalen r
     else r)"

section \<open>Sending the messages of the host\<close>

text \<open>
  The print of a UART message: its two length bytes, and as many bytes of its payload as the
  length byte says, which nobody has compared with the size of the array.
\<close>

definition read_array :: "bytes \<Rightarrow> nat \<Rightarrow> u8 option" where
  "read_array a i = (if i < length a then Some (a ! i) else None)"

definition uart_print :: "uart_data \<Rightarrow> root_event" where
  "uart_print m = Uart_Print (ud_returned_data_lenth m) (ud_data_lenth m)
     (map (read_array (ud_payload m)) [0..<unat (ud_data_lenth m)])"

definition send_uart_packet :: "uart_data \<Rightarrow> root \<Rightarrow> root" where
  "send_uart_packet m r = (if \<not> udp_conn r then r
    else simple_udp_sendto (ud_destination_address m)
      ([ud_protocol_version m, ud_device_version m, DATA_TYPE_UART,
        ud_returned_data_lenth m, ud_data_lenth m] @ take 16 (ud_payload m)
       @ [DATA_RESERVED, DATA_RESERVED]) (emit (uart_print m) r))"

definition send_firmware_cmd_packet :: "firmware_cmd \<Rightarrow> root \<Rightarrow> root" where
  "send_firmware_cmd_packet m r = (if \<not> udp_conn r then r
    else simple_udp_sendto (fc_destination_address m)
      [PROTOCOL_VERSION_V1, DEVICE_VERSION_V1, DATA_TYPE_FIRMWARE_CMD,
       DATA_TYPE_FIRMWARE_COMMAND_NEW_FW, fc_chunk_quantity_b1 m, fc_chunk_quantity_b2 m,
       DATA_RESERVED, DATA_RESERVED, DATA_RESERVED, DATA_RESERVED] r)"

text \<open>
  The packet buffer has \<open>packet_length\<close> bytes, a 16-bit sum; the payload is read from
  an array of 600 bytes.
\<close>

definition send_firmware_packet :: "firmware_data \<Rightarrow> root \<Rightarrow> root option" where
  "send_firmware_packet m r = (if \<not> udp_conn r then Some r
    else if unat (fd_chunk_size m) > length (fd_firmware_payload m) then None
    else Some (simple_udp_sendto (fd_destination_address m)
      ([fd_protocol_version m, fd_device_version m, DATA_TYPE_FIRMWARE, fd_chunk_number_b1 m,
        fd_chunk_number_b2 m, fd_reserved_b1 m, fd_reserved_b2 m]
       @ take (unat (fd_chunk_size m)) (fd_firmware_payload m)) r))"

definition send_command_packet :: "command_data \<Rightarrow> root \<Rightarrow> root" where
  "send_command_packet m r = (if \<not> udp_conn r then r
    else simple_udp_sendto (cd_destination_address m)
      [cd_protocol_version m, cd_device_version m, DATA_TYPE_COMMAND, cd_ability_target m,
       cd_ability_number m, cd_ability_state m,
       DATA_RESERVED, DATA_RESERVED, DATA_RESERVED, DATA_RESERVED] r)"

text \<open>One round of the loop of \<open>send_command_process\<close>, each part with interrupts disabled.\<close>

definition poll_command :: "root \<Rightarrow> root" where
  "poll_command r = (if cd_ready_to_send (command_message r) \<noteq> 0
    then let r' = send_command_packet (command_message r) r
         in r'\<lparr>command_message := (command_message r')\<lparr>cd_ready_to_send := 0\<rparr>\<rparr>
    else r)"

definition poll_firmware :: "root \<Rightarrow> root option" where
  "poll_firmware r = (if fd_ready_to_send (firmware_message r) \<noteq> 0
    then do { r' \<leftarrow> send_firmware_packet (firmware_message r) r;
              Some (r'\<lparr>firmware_message := (firmware_message r')\<lparr>fd_ready_to_send := 0\<rparr>\<rparr>) }
    else Some r)"

definition poll_firmware_cmd :: "root \<Rightarrow> root" where
  "poll_firmware_cmd r = (if fc_ready_to_send (firmware_cmd_message r) \<noteq> 0
    then let r' = send_firmware_cmd_packet (firmware_cmd_message r) r
         in r'\<lparr>firmware_cmd_message := (firmware_cmd_message r')\<lparr>fc_ready_to_send := 0\<rparr>\<rparr>
    else r)"

definition poll_uart :: "root \<Rightarrow> root" where
  "poll_uart r = (if ud_ready_to_send (uart_message r) \<noteq> 0
    then let r' = send_uart_packet (uart_message r) r
         in r'\<lparr>uart_message := (uart_message r')\<lparr>ud_ready_to_send := 0\<rparr>\<rparr>
    else r)"

definition send_command_process :: "root \<Rightarrow> root option" where
  "send_command_process r = do {
     r \<leftarrow> poll_firmware (poll_command r);
     Some (poll_uart (poll_firmware_cmd r)) }"

section \<open>Frames of the host\<close>

definition local_command :: "rtc \<Rightarrow> bytes \<Rightarrow> u16 \<Rightarrow> root \<Rightarrow> root" where
  "local_command c uart_data len r =
    (let command_type = uart_data ! 18; command_subtype = uart_data ! 19
     in if command_type = DATA_TYPE_LOCAL_CMD then
          let r = (if command_subtype = LOCAL_ROOT_COMMAND_TIME_SET
                   then let new_time = \<lparr>seconds = u32_of_bytes (uart_data ! 20) (uart_data ! 21)
                              (uart_data ! 22) (uart_data ! 23), milliseconds = 0\<rparr>
                        in r\<lparr>root_epoch := set_epoch_time c new_time (root_epoch r)\<rparr>
                   else r);
              r = (if command_subtype = LOCAL_ROOT_COMMAND_BOOTLOADER_ACTIVATE
                   then emit (Sector_Erase 0x0001F000) r else r)
          in if command_subtype = LOCAL_ROOT_COMMAND_REBOOT then emit System_Reset r else r
        else r)"

definition uart_command_stored :: "bytes \<Rightarrow> root \<Rightarrow> root" where
  "uart_command_stored uart_data r = r\<lparr>command_message := \<lparr>
     cd_destination_address = take 16 uart_data,
     cd_protocol_version = uart_data ! 16, cd_device_version = uart_data ! 17,
     cd_ability_target = uart_data ! 19, cd_ability_number = uart_data ! 20,
     cd_ability_state = uart_data ! 21, cd_ready_to_send = 1\<rparr>\<rparr>"

text \<open>
  \<open>fw_payload_lenght\<close> is a 16-bit difference; the copy loop stays in
  \<open>uart_data\<close> and in the 600 bytes of the payload, or its effect is undefined.
\<close>

definition uart_firmware_stored :: "bytes \<Rightarrow> u16 \<Rightarrow> root \<Rightarrow> root option" where
  "uart_firmware_stored uart_data len r =
    (let fw_payload_lenght = len - 23; n = unat fw_payload_lenght;
         old = fd_firmware_payload (firmware_message r)
     in if 23 + n > length uart_data \<or> n > length old then None
        else Some (r\<lparr>firmware_message := \<lparr>
          fd_destination_address = take 16 uart_data,
          fd_protocol_version = uart_data ! 16, fd_device_version = uart_data ! 17,
          fd_firmware_payload = copy_bytes uart_data 23 n old,
          fd_chunk_number_b1 = uart_data ! 19, fd_chunk_number_b2 = uart_data ! 20,
          fd_reserved_b1 = uart_data ! 21, fd_reserved_b2 = uart_data ! 22,
          fd_ready_to_send = 1, fd_chunk_size = fw_payload_lenght\<rparr>\<rparr>))"

definition uart_firmware_cmd_stored :: "bytes \<Rightarrow> root \<Rightarrow> root" where
  "uart_firmware_cmd_stored uart_data r = r\<lparr>firmware_cmd_message := \<lparr>
     fc_destination_address = take 16 uart_data,
     fc_protocol_version = uart_data ! 16, fc_device_version = uart_data ! 17,
     fc_firmware_command = uart_data ! 19, fc_chunk_quantity_b1 = uart_data ! 20,
     fc_chunk_quantity_b2 = uart_data ! 21, fc_ready_to_send = 1\<rparr>\<rparr>"

definition uart_uart_stored :: "bytes \<Rightarrow> root \<Rightarrow> root" where
  "uart_uart_stored uart_data r = r\<lparr>uart_message := \<lparr>
     ud_destination_address = take 16 uart_data,
     ud_protocol_version = uart_data ! 16, ud_device_version = uart_data ! 17,
     ud_data_lenth = uart_data ! 19, ud_returned_data_lenth = uart_data ! 20,
     ud_payload = copy_bytes uart_data 21 16 (ud_payload (uart_message r)),
     ud_ready_to_send = 1\<rparr>\<rparr>"

definition uart_packet_processed :: "rtc \<Rightarrow> bytes \<Rightarrow> u16 \<Rightarrow> root \<Rightarrow> root option" where
  "uart_packet_processed c uart_data len r = do {
     let r = (if uart_data ! 18 = DATA_TYPE_LOCAL_CMD
              then local_command c uart_data len r else r);
     let r = (if uart_data ! 18 = DATA_TYPE_COMMAND then uart_command_stored uart_data r else r);
     r \<leftarrow> (if uart_data ! 18 = DATA_TYPE_FIRMWARE
           then uart_firmware_stored uart_data len r else Some r);
     let r = (if uart_data ! 18 = DATA_TYPE_FIRMWARE_CMD
              then uart_firmware_cmd_stored uart_data r else r);
     Some (if uart_data ! 26 = DATA_TYPE_UART then uart_uart_stored uart_data r else r) }"

section \<open>The receiver of the UART\<close>

definition uart_magic_sequence :: bytes where
  "uart_magic_sequence = [0x01, 0x16, 0x16, 0x16, 0x16, 0x10]"

definition fsm_reset :: "uart_fsm \<Rightarrow> uart_fsm" where
  "fsm_reset f = f\<lparr>uart_header_iterator := 0, uart_data_iterator := 0, uart_data_length := 0,
     uart_packet_crc := 0\<rparr>"

definition fsm_init :: uart_fsm where
  "fsm_init = \<lparr>uart_header_iterator = 0, uart_header_data = replicate 4 0,
     uart_data_iterator = 0, uart_data_length = 0, uart_packet_crc = 0\<rparr>"

text \<open>The part after the tenth byte of the header.\<close>

definition uart_header_check :: "uart_fsm \<Rightarrow> uart_fsm" where
  "uart_header_check f =
    (if uart_header_data f ! 0 \<noteq> UART_PROTOCOL_VERSION_V3 then fsm_reset f
     else let n = u16_of_bytes (uart_header_data f ! 1) (uart_header_data f ! 2)
          in if unat n > MAX_UART_DATA_LENGTH then fsm_reset f
             else f\<lparr>uart_data_length := n, uart_packet_crc := uart_header_data f ! 3,
                    uart_header_iterator := uart_header_iterator f + 1\<rparr>)"

definition uart_data_receiver :: "rtc \<Rightarrow> u8 \<Rightarrow> root \<Rightarrow> root option" where
  "uart_data_receiver c uart_char r =
    (let f = fsm r; i = uart_header_iterator f
     in if i < PACKET_HEADER_LENGTH \<and> i < MAGIC_SEQUENCE_LENGTH then
          if uart_char \<noteq> uart_magic_sequence ! unat i then Some (r\<lparr>fsm := fsm_reset f\<rparr>)
          else Some (r\<lparr>fsm := f\<lparr>uart_header_iterator := i + 1\<rparr>\<rparr>)
        else
          let f = (if i < PACKET_HEADER_LENGTH \<and> i \<ge> MAGIC_SEQUENCE_LENGTH
                   then f\<lparr>uart_header_data :=
                            (uart_header_data f)[unat (i - MAGIC_SEQUENCE_LENGTH) := uart_char],
                          uart_header_iterator := i + 1\<rparr>
                   else f)
          in if uart_header_iterator f = PACKET_HEADER_LENGTH
             then Some (r\<lparr>fsm := uart_header_check f\<rparr>)
             else if unat (uart_data_iterator f) \<ge> MAX_UART_DATA_LENGTH
             then Some (r\<lparr>fsm := fsm_reset f\<rparr>)
             else
               let (f, buf) =
                 (if uart_data_length f > 0
                  then (f\<lparr>uart_data_iterator := uart_data_iterator f + 1\<rparr>,
                        (uart_buf r)[unat (uart_data_iterator f) := uart_char])
                  else (f, uart_buf r));
                   r = r\<lparr>fsm := f, uart_buf := buf\<rparr>
               in if uart_data_length f > 0 \<and> uart_data_iterator f = uart_data_length f
                  then do {
                    r \<leftarrow> uart_packet_processed c buf (uart_data_length f) r;
                    Some (r\<lparr>fsm := fsm_reset (fsm r)\<rparr>) }
                  else Some r)"

fun uart_receive :: "rtc \<Rightarrow> bytes \<Rightarrow> root \<Rightarrow> root option" where
  "uart_receive c [] r = Some r"
| "uart_receive c (b # bs) r = do { r \<leftarrow> uart_data_receiver c b r; uart_receive c bs r }"

section \<open>The state at start-up\<close>

definition root_node_initialize :: root where
  "root_node_initialize = \<lparr>root_epoch = epoch_init, udp_conn = True,
     command_message = \<lparr>cd_destination_address = replicate 16 0, cd_protocol_version = 0,
       cd_device_version = 0, cd_ability_target = 0, cd_ability_number = 0, cd_ability_state = 0,
       cd_ready_to_send = 0\<rparr>,
     firmware_message = \<lparr>fd_destination_address = replicate 16 0, fd_protocol_version = 0,
       fd_device_version = 0, fd_firmware_payload = replicate FIRMWARE_PAYLOAD_LENGTH 0,
       fd_chunk_number_b1 = 0, fd_chunk_number_b2 = 0, fd_reserved_b1 = 0, fd_reserved_b2 = 0,
       fd_ready_to_send = 0, fd_chunk_size = 0\<rparr>,
     firmware_cmd_message = \<lparr>fc_destination_address = replicate 16 0, fc_protocol_version = 0,
       fc_device_version = 0, fc_firmware_command = 0, fc_chunk_quantity_b1 = 0,
       fc_chunk_quantity_b2 = 0, fc_ready_to_send = 0\<rparr>,
     uart_message = \<lparr>ud_destination_address = replicate 16 0, ud_protocol_version = 0,
       ud_device_version = 0, ud_data_lenth = 0, ud_returned_data_lenth = 0,
       ud_payload = replicate 16 0, ud_ready_to_send = 0\<rparr>,
     uart_buf = replicate MAX_UART_DATA_LENGTH 0, fsm = fsm_init, root_events = []\<rparr>"

end
