(* ===== verification/Root_Laws.thy ===== *)
theory Root_Laws
  imports Root_Node
begin

text \<open>
  Laws of the border router. The receiver of the UART is compared with a specification
  that keeps the magic bytes, the header and the body received so far as lists
  (\<open>rx\<close>, \<open>rx_step\<close>); \<open>root_ok\<close> is the invariant that keeps its array accesses
  in bounds.
\<close>

section \<open>The invariant\<close>

definition fsm_ok :: "uart_fsm \<Rightarrow> bool" where
  "fsm_ok f \<longleftrightarrow> length (uart_header_data f) = 4 \<and>
    (uart_header_iterator f < PACKET_HEADER_LENGTH \<and> uart_data_iterator f = 0 \<and> uart_data_length f = 0 \<or>
     uart_header_iterator f = PACKET_HEADER_LENGTH + 1 \<and> unat (uart_data_length f) \<le> MAX_UART_DATA_LENGTH \<and>
     (uart_data_length f = 0 \<and> uart_data_iterator f = 0 \<or> uart_data_iterator f < uart_data_length f))"

definition buffers_ok :: "root \<Rightarrow> bool" where
  "buffers_ok r \<longleftrightarrow> length (uart_buf r) = MAX_UART_DATA_LENGTH \<and>
    length (fd_firmware_payload (firmware_message r)) = FIRMWARE_PAYLOAD_LENGTH \<and>
    unat (fd_chunk_size (firmware_message r)) \<le> FIRMWARE_PAYLOAD_LENGTH \<and>
    length (ud_payload (uart_message r)) = 16"

definition root_ok :: "root \<Rightarrow> bool" where
  "root_ok r \<longleftrightarrow> fsm_ok (fsm r) \<and> buffers_ok r"

lemma root_ok_init: "root_ok root_node_initialize"
  by (simp add: root_ok_def buffers_ok_def root_node_initialize_def fsm_ok_def fsm_init_def PACKET_HEADER_LENGTH_def)

lemma fsm_reset_ok: "length (uart_header_data f) = 4 \<Longrightarrow> fsm_ok (fsm_reset f)"
  by (simp add: fsm_ok_def fsm_reset_def PACKET_HEADER_LENGTH_def)

section \<open>The specification of the receiver\<close>

datatype rx = Magic nat | Header bytes | Body nat bytes

fun rx_step :: "rx \<Rightarrow> u8 \<Rightarrow> rx \<times> bytes option" where
  "rx_step (Magic i) b =
     (if b \<noteq> uart_magic_sequence ! i then Magic 0 else if i = 5 then Header [] else Magic (Suc i), None)"
| "rx_step (Header hs) b =
     (if length hs < 3 then Header (hs @ [b])
      else if hs ! 0 \<noteq> UART_PROTOCOL_VERSION_V3 then Magic 0
      else let n = unat (u16_of_bytes (hs ! 1) (hs ! 2))
           in if n > MAX_UART_DATA_LENGTH then Magic 0 else Body n [], None)"
| "rx_step (Body n bs) b =
     (if n = 0 then (Body n bs, None)
      else if Suc (length bs) = n then (Magic 0, Some (bs @ [b]))
      else (Body n (bs @ [b]), None))"

definition rx_of :: "root \<Rightarrow> rx" where
  "rx_of r = (let f = fsm r; i = unat (uart_header_iterator f)
    in if i < 6 then Magic i
       else if i < 10 then Header (take (i - 6) (uart_header_data f))
       else Body (unat (uart_data_length f)) (take (unat (uart_data_iterator f)) (uart_buf r)))"

text \<open>The state in which a complete frame is handed over.\<close>

definition body_done :: "bytes \<Rightarrow> root \<Rightarrow> root" where
  "body_done p r = r\<lparr>fsm := (fsm r)\<lparr>uart_data_iterator := of_nat (length p)\<rparr>,
     uart_buf := p @ drop (length p) (uart_buf r)\<rparr>"

definition frame_done :: "rtc \<Rightarrow> bytes \<Rightarrow> root \<Rightarrow> root option" where
  "frame_done c p r = do {
     r' \<leftarrow> uart_packet_processed c (p @ drop (length p) (uart_buf r)) (of_nat (length p)) (body_done p r);
     Some (r'\<lparr>fsm := fsm_reset (fsm r')\<rparr>) }"

lemma header_iterator_next:
  fixes i :: u8
  assumes "i < 10"
  shows "unat (i + 1) = Suc (unat i)"
  using assms by (simp add: word_less_nat_alt unat_add_lem [THEN iffD1])

lemma take_snoc_update:
  "i < length xs \<Longrightarrow> xs[i := x] = (take i xs @ [x]) @ drop (Suc i) xs"
  by (simp add: upd_conv_take_nth_drop)

lemma list_of_4: "length xs = 4 \<Longrightarrow> \<exists>a b c d. xs = [a, b, c, d]"
  by (auto simp: length_Suc_conv numeral_eq_Suc)

lemma take_Suc_update: "n < length xs \<Longrightarrow> take (Suc n) (xs[n := b]) = take n xs @ [b]"
  by (simp add: take_Suc_conv_app_nth)

lemmas header_words = PACKET_HEADER_LENGTH_def MAGIC_SEQUENCE_LENGTH_def word_less_nat_alt
  word_le_nat_alt word_unat_eq_iff

text \<open>Magic bytes and header.\<close>

lemma receiver_magic:
  assumes ok: "root_ok r" and i: "uart_header_iterator (fsm r) < 6"
  shows "\<exists>f. uart_data_receiver c b r = Some (r\<lparr>fsm := f\<rparr>) \<and> root_ok (r\<lparr>fsm := f\<rparr>)
    \<and> rx_step (rx_of r) b = (rx_of (r\<lparr>fsm := f\<rparr>), None)"
proof -
  let ?i = "uart_header_iterator (fsm r)"
  have k: "unat ?i < 6" using i by (simp add: word_less_nat_alt)
  then have next_i: "unat (?i + 1) = Suc (unat ?i)"
    by (intro header_iterator_next) (simp add: word_less_nat_alt)
  define f where "f = (if b \<noteq> uart_magic_sequence ! unat ?i then fsm_reset (fsm r)
    else (fsm r)\<lparr>uart_header_iterator := ?i + 1\<rparr>)"
  have "uart_data_receiver c b r = Some (r\<lparr>fsm := f\<rparr>)"
    using k by (simp add: uart_data_receiver_def Let_def f_def header_words)
  moreover have "fsm_ok f"
    using ok k next_i
    by (auto simp: f_def root_ok_def buffers_ok_def fsm_ok_def fsm_reset_def header_words)
  moreover have "rx_step (rx_of r) b = (rx_of (r\<lparr>fsm := f\<rparr>), None)"
    using k next_i by (auto simp: rx_of_def Let_def f_def fsm_reset_def)
  ultimately show ?thesis using ok by (auto simp: root_ok_def buffers_ok_def)
qed

lemma receiver_header:
  assumes ok: "root_ok r" and i: "6 \<le> uart_header_iterator (fsm r)" "uart_header_iterator (fsm r) < 10"
  shows "\<exists>f. uart_data_receiver c b r = Some (r\<lparr>fsm := f\<rparr>) \<and> root_ok (r\<lparr>fsm := f\<rparr>)
    \<and> rx_step (rx_of r) b = (rx_of (r\<lparr>fsm := f\<rparr>), None)"
proof -
  let ?i = "uart_header_iterator (fsm r)" and ?h = "uart_header_data (fsm r)"
  have k: "6 \<le> unat ?i" "unat ?i < 10" using i by (simp_all add: word_less_nat_alt word_le_nat_alt)
  have next_i: "unat (?i + 1) = Suc (unat ?i)" using i(2) by (rule header_iterator_next)
  have sub_i: "unat (?i - 6) = unat ?i - 6" using i(1) by (simp add: unat_sub)
  define g where "g = (fsm r)\<lparr>uart_header_data := ?h[unat ?i - 6 := b], uart_header_iterator := ?i + 1\<rparr>"
  have len: "length ?h = 4" and zero: "uart_data_iterator (fsm r) = 0" "uart_data_length (fsm r) = 0"
    using ok k by (auto simp: root_ok_def buffers_ok_def fsm_ok_def header_words)
  have suc: "Suc (unat ?i) - 6 = Suc (unat ?i - 6)" using k by simp
  have "unat ?i - 6 < length ?h" using k len by simp
  then have hs: "take (Suc (unat ?i) - 6) (?h[unat ?i - 6 := b]) = take (unat ?i - 6) ?h @ [b]"
    unfolding suc by (rule take_Suc_update)
  show ?thesis
  proof (cases "unat ?i = 9")
    case False
    then have "uart_data_receiver c b r = Some (r\<lparr>fsm := g\<rparr>)"
      using k zero next_i sub_i
      by (simp add: uart_data_receiver_def Let_def g_def header_words MAX_UART_DATA_LENGTH_def)
    moreover have "fsm_ok g"
      using False k len zero next_i by (simp add: g_def fsm_ok_def header_words)
    moreover have "unat ?i - 6 < 3" using False k by simp
    then have "rx_step (rx_of r) b = (rx_of (r\<lparr>fsm := g\<rparr>), None)"
      using k next_i len hs by (simp add: rx_of_def Let_def g_def)
    ultimately show ?thesis using ok by (auto simp: root_ok_def buffers_ok_def)
  next
    case True
    then have run: "uart_data_receiver c b r = Some (r\<lparr>fsm := uart_header_check g\<rparr>)"
      using k next_i sub_i by (simp add: uart_data_receiver_def Let_def g_def header_words)
    obtain a0 a1 a2 a3 where h: "?h = [a0, a1, a2, a3]" using list_of_4 [OF len] by blast
    have g: "uart_header_data g = [a0, a1, a2, b]" "unat (uart_header_iterator g) = 10"
      and gz: "uart_data_iterator g = 0"
      using True next_i by (simp_all add: g_def h zero)
    have "unat (uart_header_iterator g + 1) = 11" using g(2) by (simp add: unat_add_lem [THEN iffD1])
    then have "uart_header_iterator g + 1 = 11" by (simp add: word_unat_eq_iff)
    then have "fsm_ok (uart_header_check g)"
      using g(1) gz by (auto simp: uart_header_check_def Let_def fsm_ok_def fsm_reset_def
          PACKET_HEADER_LENGTH_def word_gt_0)
    moreover have "rx_step (rx_of r) b = (rx_of (r\<lparr>fsm := uart_header_check g\<rparr>), None)"
      using True g h \<open>unat (uart_header_iterator g + 1) = 11\<close>
      by (simp add: rx_of_def Let_def uart_header_check_def fsm_reset_def) (simp add: g_def zero)
    ultimately show ?thesis using ok run by (auto simp: root_ok_def buffers_ok_def)
  qed
qed

text \<open>The body of a frame.\<close>

lemma body_phase:
  assumes "root_ok r" "\<not> uart_header_iterator (fsm r) < 10"
  shows "unat (uart_header_iterator (fsm r)) = 11"
  using assms by (auto simp: root_ok_def buffers_ok_def fsm_ok_def header_words)

lemma receiver_empty_body:
  assumes "root_ok r" "\<not> uart_header_iterator (fsm r) < 10" "uart_data_length (fsm r) = 0"
  shows "uart_data_receiver c b r = Some r"
  using body_phase [OF assms(1,2)] assms
  by (auto simp: uart_data_receiver_def Let_def header_words MAX_UART_DATA_LENGTH_def
      root_ok_def buffers_ok_def fsm_ok_def)

lemma body_counts:
  assumes "root_ok r" "\<not> uart_header_iterator (fsm r) < 10" "uart_data_length (fsm r) \<noteq> 0"
  shows "unat (uart_data_iterator (fsm r)) < unat (uart_data_length (fsm r))"
    and "unat (uart_data_length (fsm r)) \<le> 1500"
    and "unat (uart_data_iterator (fsm r) + 1) = Suc (unat (uart_data_iterator (fsm r)))"
    and "length (uart_buf r) = 1500"
    and "length (uart_header_data (fsm r)) = 4"
proof -
  show *: "unat (uart_data_iterator (fsm r)) < unat (uart_data_length (fsm r))"
      "unat (uart_data_length (fsm r)) \<le> 1500"
    using body_phase [OF assms(1,2)] assms
    by (auto simp: root_ok_def buffers_ok_def fsm_ok_def header_words MAX_UART_DATA_LENGTH_def)
  then show "unat (uart_data_iterator (fsm r) + 1) = Suc (unat (uart_data_iterator (fsm r)))"
    by (simp add: unat_add_lem [THEN iffD1])
  show "length (uart_buf r) = 1500" "length (uart_header_data (fsm r)) = 4"
    using assms(1) by (auto simp: root_ok_def buffers_ok_def fsm_ok_def MAX_UART_DATA_LENGTH_def)
qed

lemma receiver_in_body:
  assumes "\<not> uart_header_iterator (fsm r) < 10" "unat (uart_header_iterator (fsm r)) = 11"
    and "uart_data_length (fsm r) \<noteq> 0" "unat (uart_data_iterator (fsm r)) < 1500"
  shows "uart_data_receiver c b r =
    (let buf = (uart_buf r)[unat (uart_data_iterator (fsm r)) := b];
         r' = r\<lparr>fsm := (fsm r)\<lparr>uart_data_iterator := uart_data_iterator (fsm r) + 1\<rparr>, uart_buf := buf\<rparr>
     in if uart_data_iterator (fsm r) + 1 = uart_data_length (fsm r)
        then do { r'' \<leftarrow> uart_packet_processed c buf (uart_data_length (fsm r)) r';
                  Some (r''\<lparr>fsm := fsm_reset (fsm r'')\<rparr>) }
        else Some r')"
proof -
  have "uart_header_iterator (fsm r) \<noteq> 10" using assms(2) by auto
  moreover have "0 < uart_data_length (fsm r)" using assms(3) by (simp add: word_gt_0)
  ultimately show ?thesis
    using assms(1,4)
    by (simp add: uart_data_receiver_def Let_def PACKET_HEADER_LENGTH_def MAGIC_SEQUENCE_LENGTH_def
        MAX_UART_DATA_LENGTH_def)
qed

definition body_next :: "u8 \<Rightarrow> root \<Rightarrow> root" where
  "body_next b r = r\<lparr>fsm := (fsm r)\<lparr>uart_data_iterator := uart_data_iterator (fsm r) + 1\<rparr>,
     uart_buf := (uart_buf r)[unat (uart_data_iterator (fsm r)) := b]\<rparr>"

lemma receiver_body:
  assumes "root_ok r" "\<not> uart_header_iterator (fsm r) < 10" "uart_data_length (fsm r) \<noteq> 0"
    and more: "Suc (unat (uart_data_iterator (fsm r))) < unat (uart_data_length (fsm r))"
  shows "uart_data_receiver c b r = Some (body_next b r)" "root_ok (body_next b r)"
    and "rx_step (rx_of r) b = (rx_of (body_next b r), None)"
proof -
  note i = body_phase [OF assms(1,2)] and n = body_counts [OF assms(1,2,3)]
  have "uart_data_iterator (fsm r) + 1 \<noteq> uart_data_length (fsm r)"
    using n(3) more by auto
  then show "uart_data_receiver c b r = Some (body_next b r)"
    using n(1,2) by (simp add: receiver_in_body [OF assms(2) i assms(3)] body_next_def)
  have "uart_header_iterator (fsm r) = 11" using i by (simp add: word_unat_eq_iff)
  moreover have "uart_data_iterator (fsm r) + 1 < uart_data_length (fsm r)"
    using n(3) more by (simp add: word_less_nat_alt)
  ultimately show "root_ok (body_next b r)"
    using n assms(1)
    by (simp add: root_ok_def buffers_ok_def fsm_ok_def body_next_def PACKET_HEADER_LENGTH_def MAX_UART_DATA_LENGTH_def)
  show "rx_step (rx_of r) b = (rx_of (body_next b r), None)"
    using i n more take_Suc_update [of "unat (uart_data_iterator (fsm r))" "uart_buf r" b]
    by (simp add: rx_of_def Let_def body_next_def)
qed

lemma receiver_last:
  fixes b :: u8
  assumes "root_ok r" "\<not> uart_header_iterator (fsm r) < 10" "uart_data_length (fsm r) \<noteq> 0"
    and last: "Suc (unat (uart_data_iterator (fsm r))) = unat (uart_data_length (fsm r))"
  defines "p \<equiv> take (unat (uart_data_iterator (fsm r))) (uart_buf r) @ [b]"
  shows "uart_data_receiver c b r = frame_done c p r"
    and "rx_step (rx_of r) b = (Magic 0, Some p)" and "root_ok (body_done p r\<lparr>fsm := fsm_reset (fsm r)\<rparr>)"
    and "0 < length p" "length p \<le> 1500"
proof -
  note i = body_phase [OF assms(1,2)] and n = body_counts [OF assms(1,2,3)]
  have len: "length p = unat (uart_data_length (fsm r))"
    using n last by (simp add: p_def)
  then have len': "word_of_nat (length p) = uart_data_length (fsm r)" by simp
  have buf: "(uart_buf r)[unat (uart_data_iterator (fsm r)) := b] = p @ drop (length p) (uart_buf r)"
    using n last by (simp add: len take_snoc_update p_def)
  have it: "uart_data_iterator (fsm r) + 1 = uart_data_length (fsm r)"
    using n(3) last by (simp add: word_unat_eq_iff)
  show "uart_data_receiver c b r = frame_done c p r"
    using n(1,2)
    by (simp add: receiver_in_body [OF assms(2) i assms(3)] frame_done_def body_done_def buf it len' Let_def)
  show "rx_step (rx_of r) b = (Magic 0, Some p)"
    using i n last by (simp add: rx_of_def Let_def p_def)
  show "root_ok (body_done p r\<lparr>fsm := fsm_reset (fsm r)\<rparr>)"
    using n len assms(1) by (simp add: root_ok_def buffers_ok_def body_done_def fsm_reset_ok MAX_UART_DATA_LENGTH_def)
  show "0 < length p" "length p \<le> 1500" using n len by auto
qed

section \<open>Storing a frame\<close>

definition oversized :: "bytes \<Rightarrow> nat \<Rightarrow> bool" where
  "oversized buf len \<longleftrightarrow> buf ! 18 = DATA_TYPE_FIRMWARE \<and> (len < 23 \<or> 623 < len)"

lemma firmware_length:
  fixes len :: u16
  assumes "unat len \<le> 1500"
  shows "unat (len - 23) \<le> 600 \<longleftrightarrow> 23 \<le> unat len \<and> unat len \<le> 623"
proof (cases "23 \<le> unat len")
  case True
  then have "unat (len - 23) = unat len - 23"
    by (simp add: unat_sub word_le_nat_alt)
  then show ?thesis using True by auto
next
  case False
  then have "unat (len - 23) = 65536 + unat len - 23"
    by (simp add: unat_sub_if_size word_size)
  then show ?thesis using False by simp
qed

lemma firmware_stored_defined:
  assumes "buffers_ok r" "length buf = 1500" "unat len \<le> 1500"
  shows "uart_firmware_stored buf len r = None \<longleftrightarrow> unat len < 23 \<or> 623 < unat len"
  using firmware_length [OF assms(3)] assms(1,2)
  by (auto simp: uart_firmware_stored_def Let_def buffers_ok_def FIRMWARE_PAYLOAD_LENGTH_def)

lemma local_command_keeps:
  assumes "buffers_ok r"
  shows "buffers_ok (local_command c buf len r)" "fsm (local_command c buf len r) = fsm r"
    "uart_buf (local_command c buf len r) = uart_buf r"
  using assms by (auto simp: local_command_def Let_def emit_def buffers_ok_def)

lemma stored_keeps:
  assumes "buffers_ok r" "length buf = 1500"
  shows "buffers_ok (uart_command_stored buf r)" "buffers_ok (uart_firmware_cmd_stored buf r)"
    "buffers_ok (uart_uart_stored buf r)"
    and "uart_firmware_stored buf len r = Some r' \<Longrightarrow> buffers_ok r' \<and> fsm r' = fsm r \<and> uart_buf r' = uart_buf r"
  using assms
  by (auto simp: uart_command_stored_def uart_firmware_cmd_stored_def uart_uart_stored_def
      uart_firmware_stored_def Let_def buffers_ok_def FIRMWARE_PAYLOAD_LENGTH_def split: if_splits)

lemma stored_fields [simp]:
  "fsm (uart_command_stored buf r) = fsm r" "uart_buf (uart_command_stored buf r) = uart_buf r"
  "fsm (uart_firmware_cmd_stored buf r) = fsm r" "uart_buf (uart_firmware_cmd_stored buf r) = uart_buf r"
  "fsm (uart_uart_stored buf r) = fsm r" "uart_buf (uart_uart_stored buf r) = uart_buf r"
  by (simp_all add: uart_command_stored_def uart_firmware_cmd_stored_def uart_uart_stored_def)

lemmas frame_types = DATA_TYPE_LOCAL_CMD_def DATA_TYPE_COMMAND_def DATA_TYPE_FIRMWARE_def
  DATA_TYPE_FIRMWARE_CMD_def DATA_TYPE_UART_def

lemma processed_defined:
  assumes "buffers_ok r" "length buf = 1500" "unat len \<le> 1500"
  shows "uart_packet_processed c buf len r = None \<longleftrightarrow> oversized buf (unat len)"
  using firmware_stored_defined [OF assms] firmware_stored_defined [OF _ assms(2,3)] assms
  by (auto simp: uart_packet_processed_def oversized_def Let_def frame_types split: bind_splits)

lemma processed_keeps:
  assumes "buffers_ok r" "length buf = 1500" "uart_packet_processed c buf len r = Some r'"
  shows "buffers_ok r' \<and> fsm r' = fsm r \<and> uart_buf r' = uart_buf r"
  using assms stored_keeps [OF assms(1,2)] local_command_keeps [OF assms(1)]
  by (auto simp: uart_packet_processed_def Let_def frame_types local_command_keeps stored_keeps
      split: bind_splits if_splits)

section \<open>The receiver implements its specification\<close>

fun rx_pos :: "rx \<Rightarrow> nat" where
  "rx_pos (Body n bs) = length bs"
| "rx_pos _ = 0"

lemma body_done_collapse:
  "body_done p r\<lparr>fsm := f\<rparr> = r\<lparr>fsm := f, uart_buf := p @ drop (length p) (uart_buf r)\<rparr>"
  by (simp add: body_done_def)

lemma root_ok_fsm: "root_ok r \<Longrightarrow> fsm_ok f \<Longrightarrow> root_ok (r\<lparr>fsm := f\<rparr>)"
  by (simp add: root_ok_def buffers_ok_def)

lemma frame_done_result:
  assumes "root_ok r" "length p \<le> 1500"
  shows "frame_done c p r = None \<longleftrightarrow> oversized (p @ drop (length p) (uart_buf r)) (length p)"
    and "frame_done c p r = Some r' \<Longrightarrow> root_ok r' \<and> rx_of r' = Magic 0"
proof -
  let ?buf = "p @ drop (length p) (uart_buf r)"
  have ok: "buffers_ok (body_done p r)" and len: "length ?buf = 1500"
    using assms by (auto simp: root_ok_def buffers_ok_def body_done_def MAX_UART_DATA_LENGTH_def)
  have n: "unat (word_of_nat (length p) :: u16) = length p"
    using assms(2) by (simp add: unat_of_nat take_bit_eq_mod)
  show "frame_done c p r = None \<longleftrightarrow> oversized ?buf (length p)"
    using processed_defined [OF ok len, of "of_nat (length p)" c] assms(2) n
    by (auto simp: frame_done_def split: bind_splits)
  assume "frame_done c p r = Some r'"
  then obtain q where "uart_packet_processed c ?buf (of_nat (length p)) (body_done p r) = Some q"
    and r': "r' = q\<lparr>fsm := fsm_reset (fsm q)\<rparr>"
    by (auto simp: frame_done_def split: bind_splits)
  from processed_keeps [OF ok len this(1)] have q: "buffers_ok q" "fsm q = fsm (body_done p r)" by auto
  then have "length (uart_header_data (fsm q)) = 4"
    using assms(1) by (simp add: body_done_def root_ok_def fsm_ok_def)
  then have "fsm_ok (fsm_reset (fsm q))" by (rule fsm_reset_ok)
  moreover have "rx_of r' = Magic 0" by (simp add: r' rx_of_def fsm_reset_def)
  ultimately show "root_ok r' \<and> rx_of r' = Magic 0"
    using q by (simp add: r' root_ok_def buffers_ok_def)
qed

text \<open>One byte: either the state of the receiver follows the specification, or a frame is complete.\<close>

lemma receiver_quiet:
  assumes "root_ok r" "rx_step (rx_of r) b = (s, None)"
  obtains f buf where "uart_data_receiver c b r = Some (r\<lparr>fsm := f, uart_buf := buf\<rparr>)"
    and "root_ok (r\<lparr>fsm := f, uart_buf := buf\<rparr>)" and "rx_of (r\<lparr>fsm := f, uart_buf := buf\<rparr>) = s"
    and "\<forall>k\<ge>rx_pos s. drop k buf = drop k (uart_buf r)" and "rx_pos (rx_of r) \<le> rx_pos s"
proof -
  have same: "(r\<lparr>fsm := f\<rparr>) = (r\<lparr>fsm := f, uart_buf := uart_buf r\<rparr>)" for f by simp
  have pos: "rx_pos (rx_of r) = 0" if "uart_header_iterator (fsm r) < 10"
    using that by (simp add: rx_of_def Let_def word_less_nat_alt)
  consider "uart_header_iterator (fsm r) < 6"
    | "6 \<le> uart_header_iterator (fsm r)" "uart_header_iterator (fsm r) < 10"
    | "\<not> uart_header_iterator (fsm r) < 10"
    by fastforce
  then show ?thesis
  proof cases
    case 1
    then have "uart_header_iterator (fsm r) < 10" by (simp add: word_less_nat_alt)
    with receiver_magic [OF assms(1) 1, of c b] assms(2) pos that [where buf = "uart_buf r", folded same]
    show ?thesis by auto
  next
    case 2
    with receiver_header [OF assms(1) 2, of c b] assms(2) pos that [where buf = "uart_buf r", folded same]
    show ?thesis by auto
  next
    case 3
    note i = body_phase [OF assms(1) 3]
    show ?thesis
    proof (cases "uart_data_length (fsm r) = 0")
      case True
      have "s = rx_of r" using assms(2) i True by (auto simp: rx_of_def Let_def)
      then show ?thesis
        using receiver_empty_body [OF assms(1) 3 True, of c b] assms(1)
          that [where f = "fsm r" and buf = "uart_buf r"] by simp
    next
      case False
      note n = body_counts [OF assms(1) 3 False]
      have more: "Suc (unat (uart_data_iterator (fsm r))) < unat (uart_data_length (fsm r))"
        using receiver_last(2) [OF assms(1) 3 False, where b = b] assms(2) n(1) by fastforce
      note next_ok = receiver_body [OF assms(1) 3 False more]
      have s: "s = rx_of (body_next b r)" using next_ok(3) [of b] assms(2) by simp
      then have p: "rx_pos s = Suc (unat (uart_data_iterator (fsm r)))"
          "rx_pos (rx_of r) = unat (uart_data_iterator (fsm r))"
        using i n by (simp_all add: rx_of_def Let_def body_next_def)
      show ?thesis
        using next_ok(1) [of c b] next_ok(2) [of b] s p
        by (intro that [where f = "(fsm r)\<lparr>uart_data_iterator := uart_data_iterator (fsm r) + 1\<rparr>"
              and buf = "(uart_buf r)[unat (uart_data_iterator (fsm r)) := b]", folded body_next_def]) auto
    qed
  qed
qed

lemma receiver_frame:
  assumes "root_ok r" "rx_step (rx_of r) b = (s, Some p)"
  shows "s = Magic 0" "uart_data_receiver c b r = frame_done c p r" "0 < length p" "length p \<le> 1500"
proof -
  have body: "\<not> uart_header_iterator (fsm r) < 10"
    using assms(2) by (auto simp: rx_of_def Let_def word_less_nat_alt split: if_splits)
  note i = body_phase [OF assms(1) body]
  have "uart_data_length (fsm r) \<noteq> 0" using assms(2) i by (auto simp: rx_of_def Let_def)
  note n = body_counts [OF assms(1) body this]
  have last: "Suc (unat (uart_data_iterator (fsm r))) = unat (uart_data_length (fsm r))"
    using assms(2) i n by (auto simp: rx_of_def Let_def split: if_splits)
  note fin = receiver_last [OF assms(1) body \<open>uart_data_length (fsm r) \<noteq> 0\<close> last, where b = b]
  show "s = Magic 0" "uart_data_receiver c b r = frame_done c p r" "0 < length p" "length p \<le> 1500"
    using fin assms(2) by auto
qed

lemma uart_data_receiver_keeps:
  assumes "root_ok r" "uart_data_receiver c b r = Some r'"
  shows "root_ok r'"
proof (cases "rx_step (rx_of r) b")
  case (Pair s out)
  show ?thesis
  proof (cases out)
    case None
    then show ?thesis using assms Pair receiver_quiet [OF assms(1), of b s c] by auto
  next
    case (Some p)
    note f = receiver_frame [OF assms(1) Pair [unfolded Some]]
    then show ?thesis using frame_done_result(2) [OF assms(1) f(4)] assms(2) by auto
  qed
qed

section \<open>Whole frames\<close>

fun rx_run :: "rx \<Rightarrow> bytes \<Rightarrow> rx \<times> bytes list" where
  "rx_run s [] = (s, [])"
| "rx_run s (b # bs) = (let (s', out) = rx_step s b; (s'', ps) = rx_run s' bs
     in (s'', case out of None \<Rightarrow> ps | Some p \<Rightarrow> p # ps))"

lemma rx_run_append:
  "rx_run s (xs @ ys) = (let (s', ps) = rx_run s xs; (s'', qs) = rx_run s' ys in (s'', ps @ qs))"
  by (induction xs arbitrary: s) (auto simp: Let_def split: prod.splits option.splits)

definition frame_head :: "nat \<Rightarrow> u8 \<Rightarrow> bytes" where
  "frame_head n crc = uart_magic_sequence
     @ [UART_PROTOCOL_VERSION_V3, byte_of (word_of_nat n :: u16) 0, byte_of (word_of_nat n :: u16) 1, crc]"

definition uart_frame :: "u8 \<Rightarrow> bytes \<Rightarrow> bytes" where
  "uart_frame crc p = frame_head (length p) crc @ p"

lemma rx_run_header:
  assumes "n \<le> 1500"
  shows "rx_run (Magic 0) (frame_head n crc) = (Body n [], [])"
proof -
  have "unat (word_of_nat n :: u16) = n"
    using assms by (simp add: unat_of_nat take_bit_eq_mod)
  then show ?thesis
    using assms by (simp add: frame_head_def uart_magic_sequence_def bytes_simps MAX_UART_DATA_LENGTH_def)
qed

lemma rx_run_body: "length xs + length bs < n \<Longrightarrow> rx_run (Body n xs) bs = (Body n (xs @ bs), [])"
  by (induction bs arbitrary: xs) auto

lemma rx_run_empty_body: "rx_run (Body 0 []) bs = (Body 0 [], [])"
  by (induction bs) auto

lemma uart_receive_append:
  "uart_receive c (xs @ ys) r = do { r' \<leftarrow> uart_receive c xs r; uart_receive c ys r' }"
  by (induction xs arbitrary: r) (auto split: bind_splits)

lemma uart_receive_one: "uart_receive c [b] r = uart_data_receiver c b r"
  by (cases "uart_data_receiver c b r") simp_all

lemma receive_quiet:
  assumes "root_ok r" "rx_run (rx_of r) bs = (s, [])"
  obtains f buf where "uart_receive c bs r = Some (r\<lparr>fsm := f, uart_buf := buf\<rparr>)"
    and "root_ok (r\<lparr>fsm := f, uart_buf := buf\<rparr>)" and "rx_of (r\<lparr>fsm := f, uart_buf := buf\<rparr>) = s"
    and "\<forall>k\<ge>rx_pos s. drop k buf = drop k (uart_buf r)" and "rx_pos (rx_of r) \<le> rx_pos s"
  using assms
proof (induction bs arbitrary: r thesis)
  case Nil
  then show ?case using Nil.prems(1) [where f = "fsm r" and buf = "uart_buf r"] by simp
next
  case (Cons b bs)
  obtain s' where step: "rx_step (rx_of r) b = (s', None)" and rest: "rx_run s' bs = (s, [])"
    using Cons.prems(3) by (auto simp: Let_def split: prod.splits option.splits)
  obtain f buf where one: "uart_data_receiver c b r = Some (r\<lparr>fsm := f, uart_buf := buf\<rparr>)"
    "root_ok (r\<lparr>fsm := f, uart_buf := buf\<rparr>)" "rx_of (r\<lparr>fsm := f, uart_buf := buf\<rparr>) = s'"
    "\<forall>k\<ge>rx_pos s'. drop k buf = drop k (uart_buf r)" "rx_pos (rx_of r) \<le> rx_pos s'"
    using receiver_quiet [OF Cons.prems(2) step] by blast
  obtain g buf' where more: "uart_receive c bs (r\<lparr>fsm := f, uart_buf := buf\<rparr>) =
      Some (r\<lparr>fsm := g, uart_buf := buf'\<rparr>)"
    "root_ok (r\<lparr>fsm := g, uart_buf := buf'\<rparr>)" "rx_of (r\<lparr>fsm := g, uart_buf := buf'\<rparr>) = s"
    "\<forall>k\<ge>rx_pos s. drop k buf' = drop k buf" "rx_pos s' \<le> rx_pos s"
    using Cons.IH [OF _ one(2), unfolded one(3), OF _ rest] by auto
  show ?case
    using Cons.prems(1) [where f = g and buf = buf'] one more by (auto intro: order_trans)
qed

lemma take_length_prefix: "take k xs = ys \<Longrightarrow> take (length ys) xs = ys"
  by (auto simp: min_def)

text \<open>
  A well-formed frame that finds the receiver idle is handed over with its payload in
  front of the old contents of the buffer, whatever its CRC byte is.
\<close>

lemma frame_received:
  assumes "root_ok r" "rx_of r = Magic 0" "0 < length p" "length p \<le> 1500"
  obtains f where "uart_receive c (uart_frame crc p) r =
      frame_done c p (r\<lparr>fsm := f, uart_buf := butlast p @ drop (length p - 1) (uart_buf r)\<rparr>)"
    and "root_ok (r\<lparr>fsm := f, uart_buf := butlast p @ drop (length p - 1) (uart_buf r)\<rparr>)"
proof -
  define n where "n = length p"
  define head where "head = frame_head n crc @ butlast p"
  have frame: "uart_frame crc p = head @ [last p]"
    using assms(3) by (simp add: uart_frame_def head_def n_def)
  have "rx_run (Magic 0) head = (Body n (butlast p), [])"
    using rx_run_header [of n crc] rx_run_body [of "[]" "butlast p" n] assms(3,4)
    by (simp add: head_def rx_run_append n_def)
  then have quiet: "rx_run (rx_of r) head = (Body n (butlast p), [])" using assms(2) by simp
  have pos: "rx_pos (Body n (butlast p)) = n - 1" by (simp add: n_def)
  obtain f buf
    where run: "uart_receive c head r = Some (r\<lparr>fsm := f, uart_buf := buf\<rparr>)"
      and ok: "root_ok (r\<lparr>fsm := f, uart_buf := buf\<rparr>)"
      and rx: "rx_of (r\<lparr>fsm := f, uart_buf := buf\<rparr>) = Body n (butlast p)"
      and keep: "\<forall>k\<ge>n - 1. drop k buf = drop k (uart_buf r)"
    by (rule receive_quiet [OF assms(1) quiet, of c, unfolded pos])
  have fin: "rx_step (Body n (butlast p)) (last p) = (Magic 0, Some p)"
    using assms(3) by (simp add: n_def)
  note fin2 = receiver_frame [OF ok, unfolded rx, OF fin]
  have "take (unat (uart_data_iterator f)) buf = butlast p"
    using rx by (auto simp: rx_of_def Let_def split: if_splits)
  from take_length_prefix [OF this] have take: "take (n - 1) buf = butlast p" by (simp add: n_def)
  then have "buf = butlast p @ drop (length p - 1) (uart_buf r)"
    using keep append_take_drop_id [of "n - 1" buf] by (simp add: n_def)
  then show ?thesis
    using that [of f] run ok fin2(2) [of c] by (simp add: frame uart_receive_append uart_receive_one del: uart_receive.simps)
qed

text \<open>A frame with an empty payload leaves the receiver in a state that no byte changes.\<close>

lemma empty_frame_locks:
  assumes "root_ok r" "rx_of r = Magic 0"
  obtains f buf where "uart_receive c (uart_frame crc [] @ bs) r = Some (r\<lparr>fsm := f, uart_buf := buf\<rparr>)"
    and "root_ok (r\<lparr>fsm := f, uart_buf := buf\<rparr>)" and "rx_of (r\<lparr>fsm := f, uart_buf := buf\<rparr>) = Body 0 []"
proof -
  have "rx_run (rx_of r) (uart_frame crc [] @ bs) = (Body 0 [], [])"
    using rx_run_header [of 0 crc] assms(2)
    by (simp add: rx_run_append uart_frame_def rx_run_empty_body)
  from receive_quiet [OF assms(1) this, of c] that show ?thesis by blast
qed

section \<open>Every operation keeps the invariant\<close>

lemma sends_keep:
  "root_ok (emit ev r) = root_ok r" "rx_of (emit ev r) = rx_of r"
  "root_ok (simple_udp_sendto a p r) = root_ok r" "rx_of (simple_udp_sendto a p r) = rx_of r"
  by (simp_all add: emit_def simple_udp_sendto_def root_ok_def buffers_ok_def rx_of_def Let_def)

lemma udp_data_receiver_keeps:
  "root_ok r \<Longrightarrow> root_ok (udp_data_receiver c a d n r)"
  by (auto simp: udp_data_receiver_def decrypted_data_processed_def encrypted_data_processed_def
      send_confirmation_packet_def send_pong_packet_def send_time_sync_resp_packet_def
      dag_root_raw_print_def Let_def sends_keep)

lemma slots_keep:
  "root_ok (r\<lparr>command_message := m1\<rparr>) = root_ok r"
  "root_ok (r\<lparr>firmware_cmd_message := m2\<rparr>) = root_ok r"
  "root_ok (r\<lparr>uart_message := (uart_message r)\<lparr>ud_ready_to_send := 0\<rparr>\<rparr>) = root_ok r"
  "root_ok (r\<lparr>firmware_message := (firmware_message r)\<lparr>fd_ready_to_send := 0\<rparr>\<rparr>) = root_ok r"
  by (simp_all add: root_ok_def buffers_ok_def)

lemma poll_parts:
  assumes "root_ok r"
  shows "root_ok (poll_command r)" "root_ok (poll_firmware_cmd r)" "root_ok (poll_uart r)"
    and "\<exists>r'. poll_firmware r = Some r' \<and> root_ok r'"
proof -
  show "root_ok (poll_command r)" "root_ok (poll_firmware_cmd r)" "root_ok (poll_uart r)"
    using assms
    by (auto simp: poll_command_def poll_firmware_cmd_def poll_uart_def send_command_packet_def
        send_firmware_cmd_packet_def send_uart_packet_def Let_def sends_keep slots_keep)
  have "unat (fd_chunk_size (firmware_message r)) \<le> length (fd_firmware_payload (firmware_message r))"
    using assms by (simp add: root_ok_def buffers_ok_def)
  then show "\<exists>r'. poll_firmware r = Some r' \<and> root_ok r'"
    using assms by (simp add: poll_firmware_def send_firmware_packet_def sends_keep slots_keep)
qed

lemma send_command_process_ok:
  assumes "root_ok r"
  shows "\<exists>r'. send_command_process r = Some r' \<and> root_ok r'"
  using poll_parts(4) [OF poll_parts(1) [OF assms]] poll_parts(2,3)
  by (auto simp: send_command_process_def)

text \<open>The states that the interrupt, the process and the packets can reach together.\<close>

inductive root_reach :: "root \<Rightarrow> bool" where
  start: "root_reach root_node_initialize"
| uart_byte: "root_reach r \<Longrightarrow> uart_data_receiver c b r = Some r' \<Longrightarrow> root_reach r'"
| poll: "root_reach r \<Longrightarrow> send_command_process r = Some r' \<Longrightarrow> root_reach r'"
| packet: "root_reach r \<Longrightarrow> root_reach (udp_data_receiver c a d n r)"

lemma root_reach_ok: "root_reach r \<Longrightarrow> root_ok r"
proof (induction rule: root_reach.induct)
  case (poll r r')
  then show ?case using send_command_process_ok by fastforce
qed (auto intro: root_ok_init uart_data_receiver_keeps udp_data_receiver_keeps)

lemma receive_reach: "root_reach r \<Longrightarrow> uart_receive c bs r = Some r' \<Longrightarrow> root_reach r'"
  by (induction bs arbitrary: r) (auto split: bind_splits intro: root_reach.uart_byte)

text \<open>
  What the process reads: a print that reaches behind the payload array shows unknown bytes.
  It happens exactly when a UART message waits whose length byte is above 16.
\<close>

definition past_payload :: "root_event \<Rightarrow> bool" where
  "past_payload ev = (case ev of Uart_Print _ _ bs \<Rightarrow> None \<in> set bs | _ \<Rightarrow> False)"

lemma uart_print_past: "past_payload (uart_print m) \<longleftrightarrow> length (ud_payload m) < unat (ud_data_lenth m)"
  by (auto simp: past_payload_def uart_print_def read_array_def image_iff not_less intro!: bexI [of _ "length (ud_payload m)"])

lemma send_command_process_prints:
  assumes "root_ok r" "udp_conn r"
  shows "\<exists>r' evs. send_command_process r = Some r' \<and> root_events r' = root_events r @ evs \<and>
    ((\<exists>ev\<in>set evs. past_payload ev) \<longleftrightarrow>
      ud_ready_to_send (uart_message r) \<noteq> 0 \<and> 16 < ud_data_lenth (uart_message r))"
proof -
  have plain: "\<not> past_payload (Udp_Sendto a p)" for a p by (simp add: past_payload_def)
  have 1: "\<exists>evs. root_events (poll_command r) = root_events r @ evs \<and> (\<forall>ev\<in>set evs. \<not> past_payload ev)"
    "uart_message (poll_command r) = uart_message r" "udp_conn (poll_command r)"
    "root_ok (poll_command r)"
    using poll_parts(1) [OF assms(1)] assms(2)
    by (auto simp: poll_command_def send_command_packet_def simple_udp_sendto_def emit_def plain Let_def)
  obtain q where q: "poll_firmware (poll_command r) = Some q" "root_ok q"
    using poll_parts(4) [OF 1(4)] by blast
  have 2: "\<exists>evs. root_events q = root_events (poll_command r) @ evs \<and> (\<forall>ev\<in>set evs. \<not> past_payload ev)"
    "uart_message q = uart_message r" "udp_conn q"
    using q(1) 1(2,3)
    by (auto simp: poll_firmware_def send_firmware_packet_def simple_udp_sendto_def emit_def plain split: if_splits)
  let ?p = "poll_firmware_cmd q"
  have 3: "\<exists>evs. root_events ?p = root_events q @ evs \<and> (\<forall>ev\<in>set evs. \<not> past_payload ev)"
    "uart_message ?p = uart_message r" "udp_conn ?p"
    using 2(2,3) by (auto simp: poll_firmware_cmd_def send_firmware_cmd_packet_def simple_udp_sendto_def emit_def plain Let_def)
  have len: "length (ud_payload (uart_message r)) = 16" using assms(1) by (simp add: root_ok_def buffers_ok_def)
  have 4: "\<exists>evs. root_events (poll_uart ?p) = root_events ?p @ evs \<and> ((\<exists>ev\<in>set evs. past_payload ev) \<longleftrightarrow>
      ud_ready_to_send (uart_message r) \<noteq> 0 \<and> 16 < ud_data_lenth (uart_message r))"
    using 3(2,3) len
    by (cases "ud_ready_to_send (uart_message r) = 0")
      (simp_all add: poll_uart_def send_uart_packet_def simple_udp_sendto_def emit_def plain uart_print_past
        word_less_nat_alt Let_def)
  obtain e1 e2 e3 where "root_events (poll_command r) = root_events r @ e1"
    "root_events q = root_events (poll_command r) @ e2" "root_events ?p = root_events q @ e3"
    "\<forall>ev\<in>set e1. \<not> past_payload ev" "\<forall>ev\<in>set e2. \<not> past_payload ev" "\<forall>ev\<in>set e3. \<not> past_payload ev"
    using 1(1) 2(1) 3(1) by blast
  then have quiet: "root_events ?p = root_events r @ e1 @ e2 @ e3" "\<forall>ev\<in>set (e1 @ e2 @ e3). \<not> past_payload ev"
    by auto
  obtain e4 where e4: "root_events (poll_uart ?p) = root_events ?p @ e4"
    "(\<exists>ev\<in>set e4. past_payload ev) \<longleftrightarrow> ud_ready_to_send (uart_message r) \<noteq> 0 \<and> 16 < ud_data_lenth (uart_message r)"
    using 4 by blast
  show ?thesis
    using quiet e4
    by (intro exI [of _ "poll_uart ?p"] exI [of _ "e1 @ e2 @ e3 @ e4"]) (auto simp: send_command_process_def q(1))
qed

section \<open>From the host to the mesh\<close>

lemma receiver_defined:
  assumes "root_ok r"
  shows "uart_data_receiver c b r = None \<longleftrightarrow>
    (\<exists>s p. rx_step (rx_of r) b = (s, Some p) \<and> oversized (p @ drop (length p) (uart_buf r)) (length p))"
proof (cases "rx_step (rx_of r) b")
  case (Pair s out)
  show ?thesis
  proof (cases out)
    case None
    with receiver_quiet [OF assms, of b s c] Pair show ?thesis by fastforce
  next
    case (Some p)
    note f = receiver_frame [OF assms Pair [unfolded Some]]
    show ?thesis
      using f(2) frame_done_result(1) [OF assms f(4), of c] Pair Some by auto
  qed
qed

definition slots_empty :: "root \<Rightarrow> bool" where
  "slots_empty r \<longleftrightarrow> cd_ready_to_send (command_message r) = 0 \<and> fd_ready_to_send (firmware_message r) = 0 \<and>
    fc_ready_to_send (firmware_cmd_message r) = 0 \<and> ud_ready_to_send (uart_message r) = 0"

text \<open>
  The packet made of a UART message and the print before it; the root stores such a message
  whenever byte 26 of its buffer is the UART type, whatever the type of the frame at byte 18.
\<close>

definition uart_packet_of :: "bytes \<Rightarrow> bytes" where
  "uart_packet_of buf = [buf ! 16, buf ! 17, DATA_TYPE_UART, buf ! 20, buf ! 19]
     @ take 16 (drop 21 buf) @ [DATA_RESERVED, DATA_RESERVED]"

definition uart_print_of :: "bytes \<Rightarrow> root_event" where
  "uart_print_of buf = Uart_Print (buf ! 20) (buf ! 19)
     (map (read_array (take 16 (drop 21 buf))) [0..<unat (buf ! 19)])"

definition extra_uart :: "bytes \<Rightarrow> root_event list" where
  "extra_uart buf = (if buf ! 26 = DATA_TYPE_UART
     then [uart_print_of buf, Udp_Sendto (take 16 buf) (uart_packet_of buf)] else [])"

text \<open>What the process sends for a stored frame.\<close>

lemma poll_sends:
  assumes "udp_conn r" "length buf = 1500" "length (ud_payload (uart_message r)) = 16"
    and "ud_ready_to_send (uart_message r) = 0"
  shows "root_events (poll_uart (if buf ! 26 = DATA_TYPE_UART then uart_uart_stored buf r else r)) =
    root_events r @ extra_uart buf"
  using assms
  by (simp add: poll_uart_def send_uart_packet_def simple_udp_sendto_def emit_def uart_uart_stored_def
      extra_uart_def uart_packet_of_def uart_print_def uart_print_of_def copy_bytes_def Let_def)

lemma poll_empty:
  "cd_ready_to_send (command_message r) = 0 \<Longrightarrow> poll_command r = r"
  "fd_ready_to_send (firmware_message r) = 0 \<Longrightarrow> poll_firmware r = Some r"
  "fc_ready_to_send (firmware_cmd_message r) = 0 \<Longrightarrow> poll_firmware_cmd r = r"
  by (simp_all add: poll_command_def poll_firmware_def poll_firmware_cmd_def)

lemma poll_uart_fields:
  "fsm (poll_uart r) = fsm r" "command_message (poll_uart r) = command_message r"
  "firmware_message (poll_uart r) = firmware_message r"
  "firmware_cmd_message (poll_uart r) = firmware_cmd_message r"
  "ud_ready_to_send (uart_message (poll_uart r)) = 0" "root_epoch (poll_uart r) = root_epoch r"
  "udp_conn (poll_uart r) = udp_conn r" "uart_buf (poll_uart r) = uart_buf r"
  by (auto simp: poll_uart_def send_uart_packet_def simple_udp_sendto_def emit_def Let_def)

lemma uart_stored_fields:
  "command_message (uart_uart_stored buf r) = command_message r"
  "firmware_message (uart_uart_stored buf r) = firmware_message r"
  "firmware_cmd_message (uart_uart_stored buf r) = firmware_cmd_message r"
  "udp_conn (uart_uart_stored buf r) = udp_conn r" "root_events (uart_uart_stored buf r) = root_events r"
  "root_epoch (uart_uart_stored buf r) = root_epoch r"
  by (simp_all add: uart_uart_stored_def)

text \<open>The head of a frame of the host: address, versions and type.\<close>

definition host_payload :: "uip_addr \<Rightarrow> u8 \<Rightarrow> u8 \<Rightarrow> u8 \<Rightarrow> bytes \<Rightarrow> bytes" where
  "host_payload addr version device kind rest = addr @ [version, device, kind] @ rest"

lemma host_payload_bytes:
  fixes version device kind :: u8 and rest tail :: bytes
  assumes "length addr = 16"
  defines "buf \<equiv> host_payload addr version device kind rest @ tail"
  shows "take 16 buf = addr" "buf ! 16 = version" "buf ! 17 = device" "buf ! 18 = kind"
    and "i < length rest \<Longrightarrow> buf ! (19 + i) = rest ! i" "drop 19 buf = rest @ tail"
  using assms by (simp_all add: host_payload_def nth_append)

lemma body_done_fields [simp]:
  "command_message (body_done p r) = command_message r" "firmware_message (body_done p r) = firmware_message r"
  "firmware_cmd_message (body_done p r) = firmware_cmd_message r" "uart_message (body_done p r) = uart_message r"
  "udp_conn (body_done p r) = udp_conn r" "root_events (body_done p r) = root_events r"
  "root_epoch (body_done p r) = root_epoch r" "uart_buf (body_done p r) = p @ drop (length p) (uart_buf r)"
  by (simp_all add: body_done_def)

text \<open>A frame that finds the receiver idle is processed in a state that differs in the receiver only.\<close>

lemma frame_handled:
  assumes "root_ok r" "rx_of r = Magic 0" "0 < length p" "length p \<le> 1500"
  defines "buf \<equiv> p @ drop (length p) (uart_buf r)"
  obtains f where "uart_receive c (uart_frame crc p) r = do {
      q \<leftarrow> uart_packet_processed c buf (of_nat (length p)) (r\<lparr>fsm := f, uart_buf := buf\<rparr>);
      Some (q\<lparr>fsm := fsm_reset (fsm q)\<rparr>) }"
    and "length buf = 1500" and "unat (word_of_nat (length p) :: u16) = length p"
proof -
  obtain f where f: "uart_receive c (uart_frame crc p) r =
      frame_done c p (r\<lparr>fsm := f, uart_buf := butlast p @ drop (length p - 1) (uart_buf r)\<rparr>)"
    by (rule frame_received [OF assms(1-4)])
  have len: "length (uart_buf r) = 1500"
    using assms(1) by (simp add: root_ok_def buffers_ok_def MAX_UART_DATA_LENGTH_def)
  have tail: "drop (length p) (butlast p @ drop (length p - 1) (uart_buf r)) = drop (length p) (uart_buf r)"
    using assms(3) by (cases p) simp_all
  note tail' = tail [unfolded One_nat_def]
  show ?thesis
  proof (rule that)
    show "uart_receive c (uart_frame crc p) r = do {
      q \<leftarrow> uart_packet_processed c buf (of_nat (length p))
        (r\<lparr>fsm := f\<lparr>uart_data_iterator := of_nat (length p)\<rparr>, uart_buf := buf\<rparr>);
      Some (q\<lparr>fsm := fsm_reset (fsm q)\<rparr>) }"
      by (simp add: f frame_done_def body_done_def tail' buf_def del: drop_append)
    show "length buf = 1500" using assms(4) by (simp add: buf_def len)
    show "unat (word_of_nat (length p) :: u16) = length p"
      using assms(4) by (simp add: unat_of_nat take_bit_eq_mod)
  qed
qed

lemma copy_all: "length dst = n \<Longrightarrow> copy_bytes src off n dst = take n (drop off src)"
  by (simp add: copy_bytes_def)

definition command_packet_of :: "bytes \<Rightarrow> bytes" where
  "command_packet_of buf = [buf ! 16, buf ! 17, DATA_TYPE_COMMAND, buf ! 19, buf ! 20, buf ! 21,
     DATA_RESERVED, DATA_RESERVED, DATA_RESERVED, DATA_RESERVED]"

definition chunk_packet_of :: "bytes \<Rightarrow> nat \<Rightarrow> bytes" where
  "chunk_packet_of buf n = [buf ! 16, buf ! 17, DATA_TYPE_FIRMWARE, buf ! 19, buf ! 20, buf ! 21, buf ! 22]
     @ take (n - 23) (drop 23 buf)"

lemmas poll_defs = send_command_process_def poll_command_def poll_firmware_def poll_firmware_cmd_def
  poll_uart_def send_command_packet_def send_firmware_packet_def send_firmware_cmd_packet_def
  send_uart_packet_def simple_udp_sendto_def emit_def uart_print_def uart_print_of_def Let_def

text \<open>What one round of the process makes of a stored command or chunk.\<close>

lemma command_sent:
  assumes "udp_conn r" "slots_empty r" "length (ud_payload (uart_message r)) = 16" "buf ! 18 = DATA_TYPE_COMMAND"
  shows "\<exists>q. uart_packet_processed c buf n r = Some q \<and>
    (\<forall>g. \<exists>s. send_command_process (q\<lparr>fsm := g\<rparr>) = Some s \<and>
      root_events s = root_events r @ [Udp_Sendto (take 16 buf) (command_packet_of buf)] @ extra_uart buf \<and>
      slots_empty s \<and> fsm s = g)"
  using assms
  by (cases "buf ! 26 = DATA_TYPE_UART")
    (simp_all add: uart_packet_processed_def frame_types slots_empty_def uart_command_stored_def
      uart_uart_stored_def poll_defs command_packet_of_def extra_uart_def uart_packet_of_def copy_all)

lemma chunk_sent:
  assumes "udp_conn r" "slots_empty r" "length (ud_payload (uart_message r)) = 16"
    and "length (fd_firmware_payload (firmware_message r)) = 600" "length buf = 1500"
    and "buf ! 18 = DATA_TYPE_FIRMWARE" "23 \<le> unat n" "unat n \<le> 623"
  shows "\<exists>q. uart_packet_processed c buf n r = Some q \<and>
    (\<forall>g. \<exists>s. send_command_process (q\<lparr>fsm := g\<rparr>) = Some s \<and>
      root_events s = root_events r @ [Udp_Sendto (take 16 buf) (chunk_packet_of buf (unat n))] @ extra_uart buf \<and>
      slots_empty s \<and> fsm s = g)"
proof -
  have k: "unat (n - 23) = unat n - 23" using assms(7) by (simp add: unat_sub word_le_nat_alt)
  have fit: "unat n - 23 \<le> 600" "23 + (unat n - 23) \<le> 1500" using assms(8) by auto
  have "uart_firmware_stored buf n r \<noteq> None"
    using assms(4,5) fit by (simp add: uart_firmware_stored_def k)
  with assms fit show ?thesis
    by (cases "buf ! 26 = DATA_TYPE_UART")
      (simp_all add: uart_packet_processed_def frame_types slots_empty_def uart_firmware_stored_def k
        uart_uart_stored_def poll_defs chunk_packet_of_def extra_uart_def uart_packet_of_def copy_all)
qed

text \<open>A frame of the host that finds the receiver idle and the slots empty, and one round of the process.\<close>

lemma fsm_reset_magic: "fsm s = fsm_reset f \<Longrightarrow> rx_of s = Magic 0"
  by (simp add: rx_of_def fsm_reset_def)

lemma command_forwarded:
  assumes "root_ok r" "rx_of r = Magic 0" "udp_conn r" "slots_empty r" "0 < length p" "length p \<le> 1500"
  defines "buf \<equiv> p @ drop (length p) (uart_buf r)"
  assumes "buf ! 18 = DATA_TYPE_COMMAND"
  shows "\<exists>r1 r2. uart_receive c (uart_frame crc p) r = Some r1 \<and> send_command_process r1 = Some r2 \<and>
    root_events r2 = root_events r @ [Udp_Sendto (take 16 buf) (command_packet_of buf)] @ extra_uart buf \<and>
    slots_empty r2 \<and> rx_of r2 = Magic 0"
proof -
  obtain f where f: "uart_receive c (uart_frame crc p) r = do {
      q \<leftarrow> uart_packet_processed c buf (of_nat (length p)) (r\<lparr>fsm := f, uart_buf := buf\<rparr>);
      Some (q\<lparr>fsm := fsm_reset (fsm q)\<rparr>) }"
    using frame_handled [OF assms(1,2,5,6), of c crc] unfolding buf_def by blast
  let ?r = "r\<lparr>fsm := f, uart_buf := buf\<rparr>"
  have "length (ud_payload (uart_message ?r)) = 16" using assms(1) by (simp add: root_ok_def buffers_ok_def)
  moreover have "udp_conn ?r" "slots_empty ?r" using assms(3,4) by (simp_all add: slots_empty_def)
  ultimately obtain q where q: "uart_packet_processed c buf (of_nat (length p)) ?r = Some q"
    and s: "\<forall>g. \<exists>s. send_command_process (q\<lparr>fsm := g\<rparr>) = Some s \<and>
      root_events s = root_events ?r @ [Udp_Sendto (take 16 buf) (command_packet_of buf)] @ extra_uart buf \<and>
      slots_empty s \<and> fsm s = g"
    using command_sent [of ?r buf c "of_nat (length p)"] assms(8) by blast
  show ?thesis
    using s [rule_format, of "fsm_reset (fsm q)"] fsm_reset_magic by (auto simp: f q)
qed

lemma chunk_forwarded:
  assumes "root_ok r" "rx_of r = Magic 0" "udp_conn r" "slots_empty r" "23 \<le> length p" "length p \<le> 623"
  defines "buf \<equiv> p @ drop (length p) (uart_buf r)"
  assumes "buf ! 18 = DATA_TYPE_FIRMWARE"
  shows "\<exists>r1 r2. uart_receive c (uart_frame crc p) r = Some r1 \<and> send_command_process r1 = Some r2 \<and>
    root_events r2 = root_events r @ [Udp_Sendto (take 16 buf) (chunk_packet_of buf (length p))] @ extra_uart buf \<and>
    slots_empty r2 \<and> rx_of r2 = Magic 0"
proof -
  have len: "0 < length p" "length p \<le> 1500" using assms(5,6) by linarith+
  obtain f where f: "uart_receive c (uart_frame crc p) r = do {
      q \<leftarrow> uart_packet_processed c buf (of_nat (length p)) (r\<lparr>fsm := f, uart_buf := buf\<rparr>);
      Some (q\<lparr>fsm := fsm_reset (fsm q)\<rparr>) }"
    and buf: "length buf = 1500" and n: "unat (word_of_nat (length p) :: u16) = length p"
    using frame_handled [OF assms(1,2) len, of c crc] unfolding buf_def by blast
  let ?r = "r\<lparr>fsm := f, uart_buf := buf\<rparr>"
  have "length (ud_payload (uart_message ?r)) = 16" "length (fd_firmware_payload (firmware_message ?r)) = 600"
    using assms(1) by (simp_all add: root_ok_def buffers_ok_def FIRMWARE_PAYLOAD_LENGTH_def)
  moreover have "udp_conn ?r" "slots_empty ?r" using assms(3,4) by (simp_all add: slots_empty_def)
  ultimately obtain q where q: "uart_packet_processed c buf (of_nat (length p)) ?r = Some q"
    and s: "\<forall>g. \<exists>s. send_command_process (q\<lparr>fsm := g\<rparr>) = Some s \<and>
      root_events s = root_events ?r @ [Udp_Sendto (take 16 buf) (chunk_packet_of buf (length p))] @ extra_uart buf \<and>
      slots_empty s \<and> fsm s = g"
    using chunk_sent [of ?r buf "of_nat (length p)" c] assms(5,6,8) buf unfolding n by blast
  show ?thesis
    using s [rule_format, of "fsm_reset (fsm q)"] fsm_reset_magic by (auto simp: f q)
qed

lemma slots_empty_init: "slots_empty root_node_initialize"
  by (simp add: slots_empty_def root_node_initialize_def)

lemma udp_conn_keeps:
  "udp_conn (udp_data_receiver c a d n r) = udp_conn r"
  "send_command_process r = Some r' \<Longrightarrow> udp_conn r' = udp_conn r"
  "uart_packet_processed c buf len r = Some r' \<Longrightarrow> udp_conn r' = udp_conn r"
  "uart_data_receiver c b r = Some r' \<Longrightarrow> udp_conn r' = udp_conn r"
proof -
  have emit: "udp_conn (emit ev r) = udp_conn r" "udp_conn (simple_udp_sendto x p r) = udp_conn r" for ev x p r
    by (simp_all add: emit_def simple_udp_sendto_def)
  show "udp_conn (udp_data_receiver c a d n r) = udp_conn r"
    by (auto simp: udp_data_receiver_def decrypted_data_processed_def encrypted_data_processed_def
        send_confirmation_packet_def send_pong_packet_def send_time_sync_resp_packet_def
        dag_root_raw_print_def Let_def emit)
  show "send_command_process r = Some r' \<Longrightarrow> udp_conn r' = udp_conn r"
    by (auto simp: poll_defs split: if_splits bind_splits)
  have processed: "uart_packet_processed c buf len r = Some r' \<Longrightarrow> udp_conn r' = udp_conn r" for buf len r r'
    by (auto simp: uart_packet_processed_def local_command_def uart_command_stored_def uart_firmware_stored_def
        uart_firmware_cmd_stored_def uart_uart_stored_def Let_def emit frame_types split: if_splits bind_splits)
  then show "uart_packet_processed c buf len r = Some r' \<Longrightarrow> udp_conn r' = udp_conn r" .
  show "uart_data_receiver c b r = Some r' \<Longrightarrow> udp_conn r' = udp_conn r"
    by (auto simp: uart_data_receiver_def Let_def split: if_splits bind_splits dest!: processed)
qed

lemma root_reach_conn: "root_reach r \<Longrightarrow> udp_conn r"
  by (induction rule: root_reach.induct) (auto simp: udp_conn_keeps root_node_initialize_def)

section \<open>The line printed for a packet\<close>

definition raw_line :: "bytes \<Rightarrow> bytes \<Rightarrow> string" where
  "raw_line a packet = ''DAGROOTRAW1'' @ printf_02x a @ printf_02X packet
     @ (if length packet = 10 then ''FFFFFFFFFFFFFFFFFFFFFFFFFF'' else []) @ ''RAWEND   '' @ [CHR 0x0A]"

lemma raw_print_line:
  assumes "length packet = 10 \<or> length packet = 23" "map d [0..<length packet] = packet" "length a = 16"
  shows "dag_root_raw_print (Some a) (Some d) (of_nat (length packet)) r = emit (Raw_Print (raw_line a packet)) r"
  using assms by (auto simp: dag_root_raw_print_def raw_line_def printf_02X_def simp del: upt_conv_Cons)

lemma raw_line_reads:
  assumes "length a = 16" "length packet = 10 \<or> length packet = 23"
  shows "length (raw_line a packet) = 99" "take 11 (raw_line a packet) = ''DAGROOTRAW1''"
    and "unhex (take 32 (drop 11 (raw_line a packet))) = a"
    and "unhex (take (2 * length packet) (drop 43 (raw_line a packet))) = packet"
proof -
  define rest where "rest = printf_02X packet
     @ (if length packet = 10 then ''FFFFFFFFFFFFFFFFFFFFFFFFFF'' else []) @ ''RAWEND   '' @ [CHR 0x0A]"
  have line: "raw_line a packet = ''DAGROOTRAW1'' @ printf_02x a @ rest" by (simp add: raw_line_def rest_def)
  have a: "length (printf_02x a) = 32" using assms(1) by (simp add: length_printf)
  have d11: "drop 11 (raw_line a packet) = printf_02x a @ rest" unfolding line by simp
  have d43: "drop 43 (raw_line a packet) = rest"
    using drop_drop [of 32 11 "raw_line a packet"] a by (simp add: d11)
  show "length (raw_line a packet) = 99" using assms by (auto simp: raw_line_def length_printf)
  show "take 11 (raw_line a packet) = ''DAGROOTRAW1''" unfolding line by simp
  show "unhex (take 32 (drop 11 (raw_line a packet))) = a" unfolding d11 using a by (simp add: unhex_printf)
  show "unhex (take (2 * length packet) (drop 43 (raw_line a packet))) = packet"
    unfolding d43 rest_def by (simp add: length_printf unhex_printf)
qed

end
