(* ===== verification/Radio_Power.thy ===== *)
theory Radio_Power
  imports Prelude
begin

text \<open>
  The radio of a battery node (\<open>platform/unwired/common/radio_power.c\<close>): switched on for
  a transmission and off again after a third of a second, unless it is held. What the code
  asks of the network stack is a state: whether the MAC layer is on, the interval of
  \<open>uip_ds_6_interval_set\<close> in clock ticks, and whether \<open>net_off_timer\<close> is running.
\<close>

definition CLASS_B :: u8 where "CLASS_B = 0x0B"
definition CLASS_C :: u8 where "CLASS_C = 0x0C"
definition RADIO_OFF_ON_TIMER :: u8 where "RADIO_OFF_ON_TIMER = 0x01"
definition RADIO_OFF_NOW :: u8 where "RADIO_OFF_NOW = 0x02"
definition RADIO_ON_NORMAL :: u8 where "RADIO_ON_NORMAL = 0x01"
definition RADIO_ON_TIMER_OFF :: u8 where "RADIO_ON_TIMER_OFF = 0x02"
definition RADIO_HOLD :: u8 where "RADIO_HOLD = 0x01"
definition RADIO_FREEDOM :: u8 where "RADIO_FREEDOM = 0x02"
definition CLOCK_SECOND :: nat where "CLOCK_SECOND = 128"

lemmas radio_consts = CLASS_B_def CLASS_C_def RADIO_OFF_ON_TIMER_def RADIO_OFF_NOW_def
  RADIO_ON_NORMAL_def RADIO_ON_TIMER_OFF_def RADIO_HOLD_def RADIO_FREEDOM_def

record radio =
  radio_mode :: u8
  mac_on :: bool
  ds6_interval :: nat
  net_off_timer :: bool

definition net_off :: "u8 \<Rightarrow> u8 \<Rightarrow> radio \<Rightarrow> radio" where
  "net_off CLASS mode r =
    (if CLASS = CLASS_B then
       let r = r\<lparr>ds6_interval := CLOCK_SECOND * 20\<rparr>;
           r = (if mode = RADIO_OFF_ON_TIMER \<and> radio_mode r = RADIO_FREEDOM
                then r\<lparr>net_off_timer := True\<rparr> else r)
       in if mode = RADIO_OFF_NOW \<and> radio_mode r = RADIO_FREEDOM
          then r\<lparr>net_off_timer := False, mac_on := False\<rparr> else r
     else r)"

definition net_on :: "u8 \<Rightarrow> u8 \<Rightarrow> radio \<Rightarrow> radio" where
  "net_on CLASS mode r =
    (if CLASS = CLASS_B then
       let r = (if mode = RADIO_ON_NORMAL \<and> radio_mode r = RADIO_FREEDOM
                then r\<lparr>mac_on := True, ds6_interval := CLOCK_SECOND div 2\<rparr> else r)
       in if mode = RADIO_ON_TIMER_OFF \<and> radio_mode r = RADIO_FREEDOM
          then net_off CLASS RADIO_OFF_ON_TIMER (r\<lparr>mac_on := True, ds6_interval := CLOCK_SECOND div 2\<rparr>)
          else r
     else r)"

text \<open>The callback of the timer; a timer that has fired is no longer running.\<close>

definition net_off_timer_now :: "radio \<Rightarrow> radio" where
  "net_off_timer_now r = r\<lparr>net_off_timer := False, mac_on := False\<rparr>"

definition net_mode :: "u8 \<Rightarrow> u8 \<Rightarrow> radio \<Rightarrow> radio" where
  "net_mode CLASS mode r = (if CLASS = CLASS_B then r\<lparr>radio_mode := mode\<rparr> else r)"

section \<open>Laws\<close>

inductive radio_step :: "u8 \<Rightarrow> radio \<Rightarrow> radio \<Rightarrow> bool" for c where
  on: "radio_step c r (net_on c mode r)"
| off: "radio_step c r (net_off c mode r)"
| expire: "net_off_timer r \<Longrightarrow> radio_step c r (net_off_timer_now r)"

lemma radio_held:
  assumes "radio_mode r = RADIO_HOLD"
  shows "mac_on (net_on c m r) = mac_on r" "net_off_timer (net_on c m r) = net_off_timer r"
    "mac_on (net_off c m r) = mac_on r" "net_off_timer (net_off c m r) = net_off_timer r"
    "radio_mode (net_on c m r) = RADIO_HOLD" "radio_mode (net_off c m r) = RADIO_HOLD"
  using assms by (simp_all add: net_on_def net_off_def Let_def radio_consts)

text \<open>While the radio is held and no timer is left over, nothing switches it.\<close>

lemma held_steps:
  assumes "(radio_step c)\<^sup>*\<^sup>* r r'" "radio_mode r = RADIO_HOLD" "\<not> net_off_timer r"
  shows "mac_on r' = mac_on r \<and> radio_mode r' = RADIO_HOLD \<and> \<not> net_off_timer r'"
  using assms
proof (induction rule: rtranclp_induct)
  case (step r1 r2)
  from step.hyps(2) step.IH step.prems show ?case
    by (cases rule: radio_step.cases) (auto simp: radio_held)
qed simp

lemma transmission_ends_off:
  assumes "c = CLASS_B" "radio_mode r = RADIO_FREEDOM"
  shows "mac_on (net_on c RADIO_ON_TIMER_OFF r)" "net_off_timer (net_on c RADIO_ON_TIMER_OFF r)"
    "\<not> mac_on (net_off_timer_now (net_on c RADIO_ON_TIMER_OFF r))"
  using assms by (simp_all add: net_on_def net_off_def net_off_timer_now_def Let_def radio_consts)

end
