(* ===== verification/Dag_Node.thy ===== *)
theory Dag_Node
  imports Ota_Main Rtc Radio_Power
begin

text \<open>
  A node of the mesh, the packet side of \<open>unwired/dag_node.c\<close>: the packets it builds, the
  handlers that \<open>udp_receiver\<close> dispatches to, and the state they share. The build-time
  constants of a device (\<open>fake_headers.h\<close>, the device headers and the command line of the
  compiler) are \<open>node_config\<close>; the flash driver, the driver library and the
  uninitialised stack are the other parts of \<open>node_env\<close>. Processes that are running are
  a set; packets, posted events, timers set to 0 and reboots are a list of events. A
  reboot does not return: the flag \<open>node_up\<close> guards what the code would do after it.
  Debug prints are left out.
\<close>

section \<open>State\<close>

record node_config =
  cfg_device_version :: u8
  cfg_device_group :: u8
  cfg_sleep_type :: u8
  cfg_ability_1 :: u8
  cfg_ability_2 :: u8
  cfg_ability_3 :: u8
  cfg_ability_4 :: u8
  cfg_big_version :: u8
  cfg_little_version :: u8
  cfg_class :: u8

record 'd node_env =
  ne_flash :: "'d ext_flash_h"
  ne_ti :: "'d ti"
  ne_junk :: ota_metadata
  ne_cfg :: node_config

record node_command =
  msg_data_type :: u8
  msg_protocol_version :: u8
  msg_device_version :: u8
  msg_ability_target :: u8
  msg_ability_number :: u8
  msg_ability_state :: u8
  msg_uart_returned_data_length :: u8
  msg_uart_data_length :: u8
  msg_ready_to_send :: u8
  msg_payload :: bytes

record sensor_packet =
  sp_protocol_version :: u8
  sp_device_version :: u8
  sp_data_type :: u8
  sp_number_ability :: u8
  sp_sensor_number :: u8
  sp_sensor_event :: u8

datatype process =
    dag_node_process | dag_node_button_process | root_find_process | status_send_process
  | maintenance_process | led_process | fw_update_process | time_sync_process | main_process

datatype node_event =
    Node_Udp bytes bytes
  | Post_Continue process
  | Maintenance_Timer_Zero
  | Fw_Timer_Zero
  | Watchdog_Reboot
  | Node_System_Reset

record 'd node =
  dev :: 'd
  node_up :: bool
  node_mode :: u8
  spi_status :: u8
  led_mode :: u8
  led_a :: bool
  non_answered_packet :: u8
  root_addr :: bytes
  message_for_main_process :: node_command
  fw_chunk_quantity :: u16
  fw_error_counter :: u8
  ota_image_current_offset :: u32
  node_epoch :: epoch
  radio :: radio
  running :: "process set"
  node_events :: "node_event list"

definition MODE_NORMAL :: u8 where "MODE_NORMAL = 0x01"
definition MODE_NOTROOT :: u8 where "MODE_NOTROOT = 0x02"
definition MODE_JOIN_PROGRESS :: u8 where "MODE_JOIN_PROGRESS = 0x03"
definition MODE_NEED_REBOOT :: u8 where "MODE_NEED_REBOOT = 0x04"
definition LED_OFF :: u8 where "LED_OFF = 0x00"
definition LED_ON :: u8 where "LED_ON = 0x01"
definition LED_FLASH :: u8 where "LED_FLASH = 0x02"
definition LED_SLOW_BLINK :: u8 where "LED_SLOW_BLINK = 0x03"
definition LED_FAST_BLINK :: u8 where "LED_FAST_BLINK = 0x04"
definition SPI_EXT_FLASH_ACTIVE :: u8 where "SPI_EXT_FLASH_ACTIVE = 0x01"

lemmas node_consts = MODE_NORMAL_def MODE_NOTROOT_def MODE_JOIN_PROGRESS_def MODE_NEED_REBOOT_def
  LED_OFF_def LED_ON_def LED_FLASH_def LED_SLOW_BLINK_def LED_FAST_BLINK_def SPI_EXT_FLASH_ACTIVE_def

definition node_emit :: "node_event \<Rightarrow> 'd node \<Rightarrow> 'd node" where
  "node_emit ev n = n\<lparr>node_events := node_events n @ [ev]\<rparr>"

definition while_up :: "('d node \<Rightarrow> 'd node) \<Rightarrow> 'd node \<Rightarrow> 'd node" where
  "while_up f n = (if node_up n then f n else n)"

definition watchdog_reboot :: "'d node \<Rightarrow> 'd node" where
  "watchdog_reboot n = (node_emit Watchdog_Reboot n)\<lparr>node_up := False\<rparr>"

definition system_reset :: "'d node \<Rightarrow> 'd node" where
  "system_reset n = (node_emit Node_System_Reset n)\<lparr>node_up := False\<rparr>"

text \<open>\<open>process_start\<close> of a running process and \<open>process_exit\<close> of a stopped one do nothing.\<close>

definition process_start :: "process \<Rightarrow> 'd node \<Rightarrow> 'd node" where
  "process_start p n = n\<lparr>running := insert p (running n)\<rparr>"

definition process_exit :: "process \<Rightarrow> 'd node \<Rightarrow> 'd node" where
  "process_exit p n = n\<lparr>running := running n - {p}\<rparr>"

definition node_net_on :: "'d node_env \<Rightarrow> u8 \<Rightarrow> 'd node \<Rightarrow> 'd node" where
  "node_net_on E mode n = n\<lparr>radio := net_on (cfg_class (ne_cfg E)) mode (radio n)\<rparr>"

definition node_net_off :: "'d node_env \<Rightarrow> u8 \<Rightarrow> 'd node \<Rightarrow> 'd node" where
  "node_net_off E mode n = n\<lparr>radio := net_off (cfg_class (ne_cfg E)) mode (radio n)\<rparr>"

definition node_net_mode :: "'d node_env \<Rightarrow> u8 \<Rightarrow> 'd node \<Rightarrow> 'd node" where
  "node_net_mode E mode n = n\<lparr>radio := net_mode (cfg_class (ne_cfg E)) mode (radio n)\<rparr>"

definition led_mode_set :: "u8 \<Rightarrow> 'd node \<Rightarrow> 'd node" where
  "led_mode_set mode n =
    (let n = n\<lparr>led_mode := mode\<rparr>;
         n = (if led_mode n = LED_OFF then n\<lparr>led_a := False\<rparr> else n);
         n = (if led_mode n = LED_ON then n\<lparr>led_a := True\<rparr> else n)
     in if led_mode n = LED_SLOW_BLINK \<or> led_mode n = LED_FAST_BLINK \<or> led_mode n = LED_FLASH
        then process_start led_process n else process_exit led_process n)"

text \<open>A call of the flash functions on the device of the node.\<close>

definition on_dev :: "('d \<Rightarrow> ('a \<times> 'd) option) \<Rightarrow> 'd node \<Rightarrow> ('a \<times> 'd node) option" where
  "on_dev f n = map_option (\<lambda>(x, d). (x, n\<lparr>dev := d\<rparr>)) (f (dev n))"

definition on_dev_do :: "('d \<Rightarrow> 'd option) \<Rightarrow> 'd node \<Rightarrow> 'd node option" where
  "on_dev_do f n = map_option (\<lambda>d. n\<lparr>dev := d\<rparr>) (f (dev n))"

section \<open>Packets of the node\<close>

definition node_sendto :: "bytes \<Rightarrow> bytes \<Rightarrow> 'd node \<Rightarrow> 'd node" where
  "node_sendto addr packet n = node_emit (Node_Udp addr packet) n"

definition time_request :: "time_data_t \<Rightarrow> bytes" where
  "time_request t =
    [PROTOCOL_VERSION_V1, DEVICE_VERSION_V1, DATA_TYPE_SET_TIME, DATA_TYPE_SET_TIME_REQUEST,
     DATA_RESERVED, DATA_RESERVED, DATA_RESERVED, DATA_RESERVED, DATA_RESERVED, DATA_RESERVED,
     byte_of (seconds t) 0, byte_of (seconds t) 1, byte_of (seconds t) 2, byte_of (seconds t) 3,
     byte_of (milliseconds t) 0, byte_of (milliseconds t) 1]"

definition send_time_sync_req_packet :: "'d node_env \<Rightarrow> rtc \<Rightarrow> 'd node \<Rightarrow> 'd node" where
  "send_time_sync_req_packet E c n = (if node_mode n \<noteq> MODE_NORMAL then n
    else let local_time = get_epoch_time c (node_epoch n)
         in node_sendto (root_addr n) (time_request local_time) (node_net_on E RADIO_ON_TIMER_OFF n))"

definition node_send_confirmation_packet :: "'d node_env \<Rightarrow> bytes option \<Rightarrow> 'd node \<Rightarrow> 'd node" where
  "node_send_confirmation_packet E dest_addr n = (if node_mode n \<noteq> MODE_NORMAL then n
    else case dest_addr of None \<Rightarrow> n
      | Some a \<Rightarrow> node_sendto a
          [PROTOCOL_VERSION_V1, DEVICE_VERSION_V1, DATA_TYPE_JOIN_CONFIRM, DATA_RESERVED, DATA_RESERVED,
           DATA_RESERVED, DATA_RESERVED, DATA_RESERVED, DATA_RESERVED, DATA_RESERVED]
          (node_net_on E RADIO_ON_TIMER_OFF n))"

definition send_message_packet :: "'d node_env \<Rightarrow> u8 \<Rightarrow> u8 \<Rightarrow> u8 \<Rightarrow> 'd node \<Rightarrow> 'd node" where
  "send_message_packet E message_type data_1 data_2 n = (if node_mode n \<noteq> MODE_NORMAL then n
    else node_sendto (root_addr n)
      [PROTOCOL_VERSION_V1, DEVICE_VERSION_V1, DATA_TYPE_MESSAGE, message_type, data_1, data_2,
       DATA_RESERVED, DATA_RESERVED, DATA_RESERVED, DATA_RESERVED]
      (node_net_on E RADIO_ON_TIMER_OFF n))"

definition send_sensor_event :: "'d node_env \<Rightarrow> sensor_packet option \<Rightarrow> 'd node \<Rightarrow> 'd node" where
  "send_sensor_event E packet n = (if node_mode n \<noteq> MODE_NORMAL then n
    else case packet of None \<Rightarrow> n
      | Some s \<Rightarrow> led_mode_set LED_FLASH (node_sendto (root_addr n)
          [sp_protocol_version s, sp_device_version s, sp_data_type s, sp_number_ability s,
           DATA_RESERVED, sp_sensor_number s, sp_sensor_event s,
           DATA_RESERVED, DATA_RESERVED, DATA_RESERVED]
          (node_net_on E RADIO_ON_TIMER_OFF n)))"

definition send_uart_data :: "'d node_env \<Rightarrow> node_command option \<Rightarrow> 'd node \<Rightarrow> 'd node" where
  "send_uart_data E packet n = (if node_mode n \<noteq> MODE_NORMAL then n
    else case packet of None \<Rightarrow> n
      | Some m \<Rightarrow> led_mode_set LED_FLASH (node_sendto (root_addr n)
          ([msg_protocol_version m, msg_device_version m, msg_data_type m,
            msg_uart_returned_data_length m, msg_uart_data_length m]
           @ take 16 (msg_payload m) @ [DATA_RESERVED, DATA_RESERVED])
          (node_net_on E RADIO_ON_TIMER_OFF n)))"

definition send_status_packet ::
  "'d node_env \<Rightarrow> bytes option \<Rightarrow> u32 \<Rightarrow> u16 \<Rightarrow> u8 \<Rightarrow> u8 \<Rightarrow> 'd node \<Rightarrow> 'd node" where
  "send_status_packet E parent_addr uptime rssi_parent temp voltage n = (case parent_addr of
      None \<Rightarrow> n
    | Some p \<Rightarrow> led_mode_set LED_FLASH (node_sendto (root_addr n)
        ([PROTOCOL_VERSION_V1, cfg_device_version (ne_cfg E), DATA_TYPE_STATUS]
         @ map (\<lambda>i. p ! i) [8..<16]
         @ [byte_of uptime 0, byte_of uptime 1, byte_of uptime 2, byte_of uptime 3,
            byte_of rssi_parent 0, byte_of rssi_parent 1, temp, voltage,
            cfg_big_version (ne_cfg E), cfg_little_version (ne_cfg E), spi_status n, DATA_RESERVED])
        (node_net_on E RADIO_ON_TIMER_OFF n)))"

definition send_join_packet :: "'d node_env \<Rightarrow> bytes option \<Rightarrow> 'd node \<Rightarrow> 'd node" where
  "send_join_packet E dest_addr n = (case dest_addr of None \<Rightarrow> n
    | Some a \<Rightarrow> node_sendto a
        [PROTOCOL_VERSION_V1, cfg_device_version (ne_cfg E), DATA_TYPE_JOIN,
         cfg_device_group (ne_cfg E), cfg_sleep_type (ne_cfg E), cfg_ability_1 (ne_cfg E),
         cfg_ability_2 (ne_cfg E), cfg_ability_3 (ne_cfg E), cfg_ability_4 (ne_cfg E),
         DATA_RESERVED] n)"

definition send_fw_chunk_req_packet :: "'d node_env \<Rightarrow> u16 \<Rightarrow> 'd node \<Rightarrow> 'd node" where
  "send_fw_chunk_req_packet E chunk_num n = node_sendto (root_addr n)
     [PROTOCOL_VERSION_V1, cfg_device_version (ne_cfg E), DATA_TYPE_FIRMWARE_CMD,
      DATA_TYPE_FIRMWARE_COMMAND_CHANK_REQ, byte_of chunk_num 0, byte_of chunk_num 1,
      DATA_RESERVED, DATA_RESERVED, DATA_RESERVED, DATA_RESERVED] n"

section \<open>Handlers of received packets\<close>

definition join_confirm_handler :: "bytes \<Rightarrow> mem \<Rightarrow> u16 \<Rightarrow> 'd node \<Rightarrow> 'd node" where
  "join_confirm_handler sender_addr data datalen n =
     node_emit Maintenance_Timer_Zero
       (node_emit (Post_Continue dag_node_process) (n\<lparr>root_addr := sender_addr\<rparr>))"

definition command_settings_handler :: "bytes \<Rightarrow> mem \<Rightarrow> u16 \<Rightarrow> 'd node \<Rightarrow> 'd node" where
  "command_settings_handler sender_addr data datalen n =
     node_emit (Post_Continue main_process)
       (n\<lparr>message_for_main_process := (message_for_main_process n)\<lparr>
          msg_data_type := data 2, msg_ability_target := data 3, msg_ability_number := data 4,
          msg_ability_state := data 5\<rparr>\<rparr>)"

definition uart_packet_handler :: "bytes \<Rightarrow> mem \<Rightarrow> u16 \<Rightarrow> 'd node \<Rightarrow> 'd node" where
  "uart_packet_handler sender_addr data datalen n =
     node_emit (Post_Continue main_process)
       (n\<lparr>message_for_main_process := (message_for_main_process n)\<lparr>
          msg_data_type := data 2,
          msg_uart_returned_data_length := (if data 3 > 16 then 16 else data 3),
          msg_uart_data_length := data 4,
          msg_payload := map data [5..<21]\<rparr>\<rparr>)"

definition pong_handler :: "'d node_env \<Rightarrow> bytes \<Rightarrow> mem \<Rightarrow> u16 \<Rightarrow> 'd node \<Rightarrow> 'd node" where
  "pong_handler E sender_addr data datalen n =
     node_net_off E RADIO_OFF_NOW (n\<lparr>non_answered_packet := 0\<rparr>)"

definition ota_slot_1_address :: "u32 \<Rightarrow> u32" where
  "ota_slot_1_address offset = push_bit 12 (ucast (ota_images ! 0)) + offset"

definition firmware_data_handler ::
  "'d node_env \<Rightarrow> bytes \<Rightarrow> mem \<Rightarrow> u16 \<Rightarrow> 'd node \<Rightarrow> 'd node option" where
  "firmware_data_handler E sender_addr data datalen n = do {
     let flash_write_buffer = map (\<lambda>i. data (i + FIRMWARE_PAYLOAD_OFFSET)) [0..<FIRMWARE_PAYLOAD_LENGTH];
     let n = n\<lparr>fw_error_counter := 0\<rparr>;
     n \<leftarrow> on_dev_do (while_nonzero (store_firmware_data (ne_flash E) (ne_ti E)
            (ota_slot_1_address (ota_image_current_offset n)) flash_write_buffer)) n;
     let n = n\<lparr>ota_image_current_offset := ota_image_current_offset n + of_nat FIRMWARE_PAYLOAD_LENGTH\<rparr>;
     Some (node_emit Fw_Timer_Zero n) }"

definition firmware_cmd_new_fw_handler ::
  "'d node_env \<Rightarrow> bytes \<Rightarrow> mem \<Rightarrow> u16 \<Rightarrow> 'd node \<Rightarrow> 'd node" where
  "firmware_cmd_new_fw_handler E sender_addr data datalen n =
    (let n = n\<lparr>fw_chunk_quantity := u16_of_bytes (data 5) (data 4), ota_image_current_offset := 0\<rparr>
     in if spi_status n = SPI_EXT_FLASH_ACTIVE then process_start fw_update_process n
        else send_message_packet E DEVICE_MESSAGE_OTA_SPI_NOTACTIVE DATA_RESERVED DATA_RESERVED n)"

definition shedule_data_handler :: "mem \<Rightarrow> u16 \<Rightarrow> 'd node \<Rightarrow> 'd node" where
  "shedule_data_handler data datalen n = n"

text \<open>\<open>time_data_handler\<close> of the clock, with the call of \<open>send_message_packet\<close> at its end.\<close>

definition node_time_data_handler :: "'d node_env \<Rightarrow> rtc \<Rightarrow> mem \<Rightarrow> u16 \<Rightarrow> 'd node \<Rightarrow> 'd node" where
  "node_time_data_handler E c data datalen n =
    (let (message, e) = time_data_handler c data (node_epoch n);
         n = n\<lparr>node_epoch := e\<rparr>
     in case message of None \<Rightarrow> n
        | Some (message_type, data_1, data_2) \<Rightarrow> send_message_packet E message_type data_1 data_2 n)"

definition firmware_cmd_dispatch ::
  "'d node_env \<Rightarrow> bytes \<Rightarrow> mem \<Rightarrow> u16 \<Rightarrow> 'd node \<Rightarrow> 'd node option" where
  "firmware_cmd_dispatch E sender_addr data datalen n =
    (let packet_subtype = data 3
     in if packet_subtype = DATA_TYPE_FIRMWARE_COMMAND_NEW_FW
        then Some (firmware_cmd_new_fw_handler E sender_addr data datalen n)
        else if packet_subtype = DATA_TYPE_FIRMWARE_COMMAND_REBOOT then Some (watchdog_reboot n)
        else if packet_subtype = DATA_TYPE_FIRMWARE_COMMAND_CLEAN_GI
        then map_option snd (on_dev (erase_ota_image (ne_flash E) (ne_ti E) 0) n)
        else if packet_subtype = DATA_TYPE_FIRMWARE_COMMAND_FLASH_GI
        then map_option (\<lambda>(_, n). watchdog_reboot n) (on_dev (write_fw_flag (ne_ti E) FW_FLAG_NEW_IMG_INT) n)
        else Some n)"

definition packet_dispatch ::
  "'d node_env \<Rightarrow> rtc \<Rightarrow> bytes \<Rightarrow> mem \<Rightarrow> u16 \<Rightarrow> 'd node \<Rightarrow> 'd node option" where
  "packet_dispatch E c sender_addr data datalen n =
    (let packet_type = data 2; packet_subtype = data 3
     in if packet_type = DATA_TYPE_JOIN_CONFIRM then Some (join_confirm_handler sender_addr data datalen n)
        else if packet_type = DATA_TYPE_COMMAND \<or> data 2 = DATA_TYPE_SETTINGS
        then Some (command_settings_handler sender_addr data datalen n)
        else if packet_type = DATA_TYPE_UART then Some (uart_packet_handler sender_addr data datalen n)
        else if packet_type = DATA_TYPE_PONG then Some (pong_handler E sender_addr data datalen n)
        else if packet_type = DATA_TYPE_FIRMWARE then firmware_data_handler E sender_addr data datalen n
        else if packet_type = DATA_TYPE_SET_TIME then
          (if packet_subtype = DATA_TYPE_SET_TIME_RESPONSE
           then Some (node_time_data_handler E c data datalen n)
           else if packet_subtype = DATA_TYPE_SET_TIME_COMMAND_SYNC
           then Some (send_time_sync_req_packet E c n)
           else Some n)
        else if packet_type = DATA_TYPE_SET_SCHEDULE then Some (shedule_data_handler data datalen n)
        else if packet_type = DATA_TYPE_FIRMWARE_CMD
        then firmware_cmd_dispatch E sender_addr data datalen n
        else Some n)"

definition udp_receiver ::
  "'d node_env \<Rightarrow> rtc \<Rightarrow> bytes \<Rightarrow> mem \<Rightarrow> u16 \<Rightarrow> 'd node \<Rightarrow> 'd node option" where
  "udp_receiver E c sender_addr data datalen n = do {
     let protocol_version = data 0;
     let device_version = data 1;
     n \<leftarrow> (if protocol_version = PROTOCOL_VERSION_V1 \<and> device_version = cfg_device_version (ne_cfg E)
           then packet_dispatch E c sender_addr data datalen n else Some n);
     Some (while_up (led_mode_set LED_FLASH) n) }"

section \<open>Maintenance of the flash from the console\<close>

definition flash_erase :: "'d ext_flash_h \<Rightarrow> u32 \<Rightarrow> u32 \<Rightarrow> 'd \<Rightarrow> 'd option" where
  "flash_erase F offset len d = do {
     (_, d) \<leftarrow> ef_open F d;
     (_, d) \<leftarrow> ef_erase F offset len d;
     ef_close F d }"

text \<open>\<open>flash_damp_hex\<close>: what it prints of each block of 0x400 bytes (\<open>None\<close> for a failed read).\<close>

definition flash_damp_page :: "'d ext_flash_h \<Rightarrow> 'd ti \<Rightarrow> u8 \<Rightarrow> 'd \<Rightarrow> (bytes option \<times> 'd) option" where
  "flash_damp_page F ti page d = do {
     d \<leftarrow> watchdog_periodic ti d;
     (_, d) \<leftarrow> ef_open F d;
     ((eeprom_access, b), d) \<leftarrow> ef_read F (push_bit 12 (ucast (ota_images ! 0)) + 0x400 * ucast page) 0x400 d;
     d \<leftarrow> ef_close F d;
     Some (if eeprom_access then Some b else None, d) }"

fun flash_damp_pages :: "'d ext_flash_h \<Rightarrow> 'd ti \<Rightarrow> u8 list \<Rightarrow> 'd \<Rightarrow> (bytes option list \<times> 'd) option" where
  "flash_damp_pages F ti [] d = Some ([], d)"
| "flash_damp_pages F ti (p # ps) d = do {
     (b, d) \<leftarrow> flash_damp_page F ti p d;
     (bs, d) \<leftarrow> flash_damp_pages F ti ps d;
     Some (b # bs, d) }"

definition flash_damp_hex :: "'d ext_flash_h \<Rightarrow> 'd ti \<Rightarrow> 'd \<Rightarrow> (bytes option list \<times> 'd) option" where
  "flash_damp_hex F ti d = flash_damp_pages F ti (map of_nat [0..<100]) d"

definition verify_int_firmware_v ::
  "'d node_env \<Rightarrow> 'd \<Rightarrow> ((ota_metadata \<times> ota_metadata \<times> int) \<times> 'd) option" where
  "verify_int_firmware_v E d = do {
     ((_, current_firmware), d) \<leftarrow> get_current_metadata (ne_ti E) d;
     (_, d) \<leftarrow> verify_current_firmware (ne_ti E) current_firmware d;
     ((_, golden_image), d) \<leftarrow> get_ota_slot_metadata (ne_flash E) 0 (ne_junk E) d;
     (verify_result, d) \<leftarrow> verify_ota_slot (ne_flash E) (ne_junk E) 0 d;
     Some ((current_firmware, golden_image, verify_result), d) }"

definition verify_ext_firmware_e ::
  "'d node_env \<Rightarrow> 'd \<Rightarrow> ((ota_metadata \<times> int) \<times> 'd) option" where
  "verify_ext_firmware_e E d = do {
     ((_, golden_image), d) \<leftarrow> get_ota_slot_metadata (ne_flash E) 1 (ne_junk E) d;
     (verify_result, d) \<leftarrow> verify_ota_slot (ne_flash E) (ne_junk E) 1 d;
     Some ((golden_image, verify_result), d) }"

end
