(* ===== verification/Dag_Process.thy ===== *)
theory Dag_Process
  imports Dag_Node
begin

text \<open>
  The processes of a node (\<open>unwired/dag_node.c\<close>). A Contiki process runs from one
  waiting point to the next; each such run is one step of the model, a function of what the
  code inspects at that moment (expired timers, the routing table, the sensors, the random
  number) that gives the new state, and where it matters the waiting point reached and the
  delay of the timer set. A process that is told to exit is taken out of the set of running
  processes. Left out: the start-up of the shell and of the UDP socket.
\<close>

section \<open>The LED\<close>

datatype led_pc = Led_Wait_On | Led_Wait_Off | Led_Ended

definition led_blinking :: "'d node \<Rightarrow> bool" where
  "led_blinking n \<longleftrightarrow> led_mode n = LED_SLOW_BLINK \<or> led_mode n = LED_FAST_BLINK \<or> led_mode n = LED_FLASH"

text \<open>The head of the loop: the delay before the LED goes on, or the end of the process.\<close>

definition led_loop :: "'d node \<Rightarrow> (led_pc \<times> nat) \<times> 'd node" where
  "led_loop n =
    (if led_blinking n
     then ((Led_Wait_On, if led_mode n = LED_FLASH then 1
                         else if led_mode n = LED_SLOW_BLINK then CLOCK_SECOND div 2
                         else CLOCK_SECOND div 10), n)
     else ((Led_Ended, 0), process_exit led_process n))"

definition led_on_step :: "'d node \<Rightarrow> (led_pc \<times> nat) \<times> 'd node" where
  "led_on_step n =
    ((Led_Wait_Off, if led_mode n = LED_FLASH then CLOCK_SECOND div 16
                    else if led_mode n = LED_SLOW_BLINK \<or> led_mode n = LED_FAST_BLINK
                    then CLOCK_SECOND div 32 else 0), n\<lparr>led_a := True\<rparr>)"

definition led_off_step :: "'d node \<Rightarrow> (led_pc \<times> nat) \<times> 'd node" where
  "led_off_step n =
    (let n = n\<lparr>led_a := False\<rparr>;
         n = (if led_mode n = LED_FLASH then n\<lparr>led_mode := LED_OFF\<rparr> else n)
     in led_loop n)"

section \<open>The button\<close>

definition dag_node_button_step :: "bool \<Rightarrow> 'd node \<Rightarrow> 'd node" where
  "dag_node_button_step long_click_e n =
    (if long_click_e then watchdog_reboot (led_mode_set LED_ON n) else n)"

section \<open>Maintenance\<close>

definition MAX_NON_ANSWERED_PINGS :: u8 where "MAX_NON_ANSWERED_PINGS = 3"

datatype maintenance_pc = Maintenance_Wait | Maintenance_Reboot_Wait

definition stop_running :: "process \<Rightarrow> 'd node \<Rightarrow> 'd node" where
  "stop_running p n = (if p \<in> running n then process_exit p n else n)"

definition start_stopped :: "process \<Rightarrow> 'd node \<Rightarrow> 'd node" where
  "start_stopped p n = (if p \<notin> running n then process_start p n else n)"

definition maintenance_normal :: "'d node \<Rightarrow> 'd node" where
  "maintenance_normal n =
    (if node_mode n = MODE_NORMAL then
       let n = led_mode_set LED_OFF n;
           n = start_stopped status_send_process n;
           n = stop_running root_find_process n
       in if non_answered_packet n > MAX_NON_ANSWERED_PINGS then watchdog_reboot n else n
     else n)"

definition maintenance_notroot :: "'d node_env \<Rightarrow> 'd node \<Rightarrow> 'd node" where
  "maintenance_notroot E n =
    (if node_mode n = MODE_NOTROOT then
       let n = (if cfg_class (ne_cfg E) = CLASS_B then
                  let n = led_mode_set LED_OFF n;
                      n = stop_running dag_node_button_process n;
                      n = stop_running root_find_process n;
                      n = stop_running status_send_process n;
                      n = stop_running maintenance_process n;
                      n = node_net_mode E RADIO_FREEDOM n;
                      n = node_net_off E RADIO_OFF_NOW n
                  in node_net_mode E RADIO_HOLD n
                else n)
       in if cfg_class (ne_cfg E) = CLASS_C then watchdog_reboot (led_mode_set LED_FAST_BLINK n) else n
     else n)"

definition maintenance_join :: "'d node_env \<Rightarrow> 'd node \<Rightarrow> 'd node" where
  "maintenance_join E n =
    (if node_mode n = MODE_JOIN_PROGRESS then
       let n = node_net_on E RADIO_ON_NORMAL n;
           n = node_net_mode E RADIO_HOLD n;
           n = led_mode_set LED_SLOW_BLINK n;
           n = start_stopped root_find_process n
       in stop_running status_send_process n
     else n)"

text \<open>One round, from the head of the loop to the wait; \<open>MODE_NEED_REBOOT\<close> waits 5 s first.\<close>

definition maintenance_round :: "'d node_env \<Rightarrow> 'd node \<Rightarrow> maintenance_pc \<times> 'd node" where
  "maintenance_round E n =
    (if node_mode n = MODE_NEED_REBOOT then (Maintenance_Reboot_Wait, n)
     else (Maintenance_Wait,
       while_up (maintenance_join E) (while_up (maintenance_notroot E) (maintenance_normal n))))"

definition maintenance_step :: "'d node_env \<Rightarrow> maintenance_pc \<Rightarrow> 'd node \<Rightarrow> maintenance_pc \<times> 'd node" where
  "maintenance_step E pc n = (case pc of
      Maintenance_Wait \<Rightarrow> maintenance_round E n
    | Maintenance_Reboot_Wait \<Rightarrow> (Maintenance_Reboot_Wait, watchdog_reboot n))"

section \<open>Status\<close>

text \<open>
  What \<open>rpl_get_any_dag\<close> and its parent give: whether the parent is reachable, its address
  and the signal strength of its link.
\<close>

record rpl_view =
  rv_reachable :: bool
  rv_parent_addr :: "bytes option"
  rv_parent_rssi :: "u16 option"

definition battery_voltage :: "int \<Rightarrow> u8" where
  "battery_voltage v = word_of_int (drop_bit 5 (v * 125) div 16)"

definition status_send_step ::
  "'d node_env \<Rightarrow> rtc \<Rightarrow> rpl_view option \<Rightarrow> u8 \<Rightarrow> int \<Rightarrow> 'd node \<Rightarrow> 'd node" where
  "status_send_step E c dag temp volt n = (case dag of
      None \<Rightarrow> n
    | Some v \<Rightarrow>
        if node_mode n = MODE_NORMAL then
          if \<not> rv_reachable v then watchdog_reboot n
          else
            let n = (case (rv_parent_addr v, rv_parent_rssi v) of
                  (Some a, Some rssi) \<Rightarrow>
                    send_status_packet E (Some a) (rtc_s c) rssi temp (battery_voltage volt) n
                | _ \<Rightarrow> n)
            in n\<lparr>non_answered_packet := non_answered_packet n + 1\<rparr>
        else n)"

definition status_interval :: "'d node_env \<Rightarrow> u16 \<Rightarrow> nat option" where
  "status_interval E random_rand =
    (if cfg_class (ne_cfg E) = CLASS_C
     then Some (10 * 60 * CLOCK_SECOND + unat random_rand mod (10 * 60 * CLOCK_SECOND))
     else if cfg_class (ne_cfg E) = CLASS_B
     then Some (20 * 60 * CLOCK_SECOND + unat random_rand mod (20 * 60 * CLOCK_SECOND))
     else None)"

section \<open>Looking for the root\<close>

text \<open>\<open>dag_id\<close> is the root's address when the node has a preferred address and its DAG is known.\<close>

definition root_find_step :: "'d node_env \<Rightarrow> bool \<Rightarrow> bytes option \<Rightarrow> 'd node \<Rightarrow> 'd node" where
  "root_find_step E limit_expired dag_id n =
    (if node_mode n = MODE_JOIN_PROGRESS then
       if \<not> limit_expired then
         case dag_id of None \<Rightarrow> n
         | Some a \<Rightarrow> send_join_packet E (Some a)
             (if led_mode n \<noteq> LED_FAST_BLINK then led_mode_set LED_FAST_BLINK n else n)
       else process_start maintenance_process
              (process_exit maintenance_process (n\<lparr>node_mode := MODE_NOTROOT\<rparr>))
     else n)"

section \<open>Firmware update\<close>

datatype fw_pc = Fw_Erase_Wait | Fw_Chunk_Wait | Fw_Chunk_Delay | Fw_Ended

record fw_thread =
  fw_pc :: fw_pc
  fw_page :: u32
  fw_chunk_num :: u16

definition FW_MAX_ERROR_COUNTER :: u8 where "FW_MAX_ERROR_COUNTER = 5"

text \<open>Erasing page \<open>fw_page\<close> of slot 1, up to the wait after it.\<close>

definition fw_erase_page :: "'d node_env \<Rightarrow> fw_thread \<Rightarrow> 'd node \<Rightarrow> (fw_thread \<times> 'd node) option" where
  "fw_erase_page E th n = do {
     n \<leftarrow> on_dev_do (while_nonzero (erase_extflash_page (ne_flash E)
            (push_bit 12 (ucast (ota_images ! 0) + fw_page th)))) n;
     Some (th\<lparr>fw_pc := Fw_Erase_Wait\<rparr>,
       send_message_packet E DEVICE_MESSAGE_OTA_SPI_ERASE_IN_PROGRESS (ucast (fw_page th)) DATA_RESERVED n) }"

text \<open>The end of the download: the new image is verified and, if it is for this device, flagged.\<close>

definition fw_verify :: "'d node_env \<Rightarrow> 'd node \<Rightarrow> 'd node option" where
  "fw_verify E n = do {
     (crc_status_ota_slot, n) \<leftarrow> on_dev (verify_ota_slot (ne_flash E) (ne_junk E) 1) n;
     ((_, current_firmware), n) \<leftarrow> on_dev (get_current_metadata (ne_ti E)) n;
     ((_, ota_slot_1_firmware), n) \<leftarrow> on_dev (get_ota_slot_metadata (ne_flash E) 1 (ne_junk E)) n;
     if crc_status_ota_slot = CORRECT_CRC then
       if om_uuid current_firmware = om_uuid ota_slot_1_firmware
       then map_option (\<lambda>(_, n). system_reset n) (on_dev (write_fw_flag (ne_ti E) FW_FLAG_NEW_IMG_EXT) n)
       else Some (send_message_packet E DEVICE_MESSAGE_OTA_NONCORRECT_UUID DATA_RESERVED DATA_RESERVED n)
     else Some (send_message_packet E DEVICE_MESSAGE_OTA_NONCORRECT_CRC DATA_RESERVED DATA_RESERVED n) }"

text \<open>The head of the download loop, up to the wait for a packet or the end.\<close>

definition fw_loop :: "'d node_env \<Rightarrow> fw_thread \<Rightarrow> 'd node \<Rightarrow> (fw_thread \<times> 'd node) option" where
  "fw_loop E th n =
    (if fw_chunk_num th < fw_chunk_quantity n
     then Some (th\<lparr>fw_chunk_num := fw_chunk_num th + 1, fw_pc := Fw_Chunk_Wait\<rparr>,
                send_fw_chunk_req_packet E (fw_chunk_num th) n)
     else do {
       n \<leftarrow> fw_verify E (n\<lparr>fw_error_counter := 0\<rparr>);
       Some (th\<lparr>fw_chunk_num := 0, fw_pc := Fw_Ended\<rparr>, while_up (process_exit fw_update_process) n) })"

text \<open>
  Resumed when \<open>fw_timer\<close> has expired, which a received chunk makes happen at once:
  \<open>deadline\<close> tells whether \<open>fw_timer_deadline\<close> has expired, too.
\<close>

definition fw_chunk_arrived :: "'d node_env \<Rightarrow> bool \<Rightarrow> fw_thread \<Rightarrow> 'd node \<Rightarrow> fw_thread \<times> 'd node" where
  "fw_chunk_arrived E deadline th n =
    (if deadline \<and> fw_chunk_num th < fw_chunk_quantity n then
       if fw_error_counter n > FW_MAX_ERROR_COUNTER
       then (th\<lparr>fw_chunk_num := 0, fw_pc := Fw_Ended\<rparr>,
             (process_exit fw_update_process
               (send_message_packet E DEVICE_MESSAGE_OTA_NOT_DELIVERED_CHUNK DATA_RESERVED DATA_RESERVED n))
             \<lparr>fw_error_counter := 0\<rparr>)
       else (th\<lparr>fw_chunk_num := fw_chunk_num th - 1, fw_pc := Fw_Chunk_Delay\<rparr>,
             n\<lparr>fw_error_counter := fw_error_counter n + 1\<rparr>)
     else (th\<lparr>fw_pc := Fw_Chunk_Delay\<rparr>, n))"

definition fw_start :: "'d node_env \<Rightarrow> fw_thread \<Rightarrow> 'd node \<Rightarrow> (fw_thread \<times> 'd node) option" where
  "fw_start E th n = fw_erase_page E (th\<lparr>fw_page := 0\<rparr>) n"

definition fw_update_step ::
  "'d node_env \<Rightarrow> bool \<Rightarrow> fw_thread \<Rightarrow> 'd node \<Rightarrow> (fw_thread \<times> 'd node) option" where
  "fw_update_step E deadline th n = (case fw_pc th of
      Fw_Erase_Wait \<Rightarrow>
        let th = th\<lparr>fw_page := fw_page th + 1\<rparr>
        in if fw_page th < 25 then fw_erase_page E th n else fw_loop E th n
    | Fw_Chunk_Wait \<Rightarrow> Some (fw_chunk_arrived E deadline th n)
    | Fw_Chunk_Delay \<Rightarrow> fw_loop E th n
    | Fw_Ended \<Rightarrow> Some (th, n))"

section \<open>The main process of the node\<close>

definition dag_node_start :: "'d node_env \<Rightarrow> 'd node \<Rightarrow> 'd node option" where
  "dag_node_start E n = do {
     let n = n\<lparr>node_mode := MODE_JOIN_PROGRESS\<rparr>;
     (status, n) \<leftarrow> on_dev (spi_test (ne_flash E) (ne_junk E)) n;
     let n = n\<lparr>spi_status := status\<rparr>;
     Some (process_start maintenance_process (process_start dag_node_button_process n)) }"

text \<open>A golden image with a wrong CRC is replaced by the running image, and the node reboots.\<close>

definition dag_node_golden :: "'d node_env \<Rightarrow> 'd node \<Rightarrow> 'd node option" where
  "dag_node_golden E n =
    (if spi_status n = SPI_EXT_FLASH_ACTIVE then do {
       (r, n) \<leftarrow> on_dev (verify_ota_slot (ne_flash E) (ne_junk E) 0) n;
       if r = VERIFY_SLOT_CRC_ERROR then do {
         let n = send_message_packet E DEVICE_MESSAGE_OTA_BAD_GOLDEN_IMAGE DATA_RESERVED DATA_RESERVED n;
         (_, n) \<leftarrow> on_dev (backup_golden_image (ne_flash E) (ne_ti E)) n;
         Some (watchdog_reboot n) }
       else Some n }
     else Some n)"

text \<open>A new image that has come this far is confirmed with \<open>FW_FLAG_PING_OK\<close>.\<close>

definition dag_node_confirm :: "'d node_env \<Rightarrow> 'd node \<Rightarrow> 'd node option" where
  "dag_node_confirm E n = do {
     (current_ota_flag_status, n) \<leftarrow> on_dev (read_fw_flag (ne_ti E)) n;
     if current_ota_flag_status = FW_FLAG_NEW_IMG_INT then do {
       (_, n) \<leftarrow> on_dev (write_fw_flag (ne_ti E) FW_FLAG_PING_OK) n;
       let n = send_message_packet E DEVICE_MESSAGE_OTA_UPDATE_SUCCESS DATA_RESERVED DATA_RESERVED n;
       let n = n\<lparr>node_mode := MODE_NEED_REBOOT\<rparr>;
       Some (process_start maintenance_process (process_exit maintenance_process n)) }
     else Some n }"

text \<open>Resumed by \<open>PROCESS_EVENT_CONTINUE\<close>, which the join confirmation posts.\<close>

definition dag_node_joined :: "'d node_env \<Rightarrow> 'd node \<Rightarrow> 'd node option" where
  "dag_node_joined E n = do {
     let n = led_mode_set LED_SLOW_BLINK n;
     let n = n\<lparr>node_mode := MODE_NORMAL\<rparr>;
     let n = node_net_off E RADIO_OFF_NOW (node_net_mode E RADIO_FREEDOM n);
     let n = process_start time_sync_process n;
     n \<leftarrow> dag_node_golden E n;
     if node_up n then dag_node_confirm E n else Some n }"

definition time_sync_round :: "'d node_env \<Rightarrow> rtc \<Rightarrow> u16 \<Rightarrow> 'd node \<Rightarrow> u32 \<times> 'd node" where
  "time_sync_round E c random_rand n =
    (time_sync_interval random_rand, send_time_sync_req_packet E c n)"

end
