(* ===== verification/Time_Sync.thy ===== *)
theory Time_Sync
  imports Root_Laws Dag_Process
begin

text \<open>
  The time synchronisation of a node with the root, end to end: the request of the node
  (\<open>send_time_sync_req_packet\<close>), the response of the root (\<open>udp_data_receiver\<close>) and the
  correction of the node's clock (\<open>udp_receiver\<close>).
\<close>

section \<open>Packets\<close>

definition time_response :: "time_data_t \<Rightarrow> mem \<Rightarrow> bytes" where
  "time_response t request =
    [PROTOCOL_VERSION_V1, DEVICE_VERSION_V1, DATA_TYPE_SET_TIME, DATA_TYPE_SET_TIME_RESPONSE]
    @ time_bytes t @ [request 10, request 11, request 12, request 13, request 14, request 15]"

lemma time_response_fields:
  "rtc_root_time (rx_buffer (time_response t (rx_buffer (time_request q) stale)) stale') = t"
  "rtc_request_time (rx_buffer (time_response t (rx_buffer (time_request q) stale)) stale') = q"
  by (simp_all add: rtc_root_time_def rtc_request_time_def time_response_def time_request_def
      time_bytes_def bytes_simps)

lemma root_answers:
  assumes "udp_conn r"
  shows "udp_data_receiver c a (rx_buffer (time_request q) stale) len r =
    emit (Udp_Sendto a (time_response (get_epoch_time c (root_epoch r)) (rx_buffer (time_request q) stale))) r"
  using assms
  by (simp add: udp_data_receiver_def decrypted_data_processed_def send_time_sync_resp_packet_def
      simple_udp_sendto_def time_response_def time_request_def Let_def protocol_consts)

lemma node_requests:
  assumes "node_mode n = MODE_NORMAL"
  shows "node_events (send_time_sync_req_packet E c n) =
      node_events n @ [Node_Udp (root_addr n) (time_request (get_epoch_time c (node_epoch n)))]"
    and "node_epoch (send_time_sync_req_packet E c n) = node_epoch n"
  using assms
  by (simp_all add: send_time_sync_req_packet_def Let_def node_sendto_def node_emit_def node_net_on_def)

lemma node_accepts:
  assumes "cfg_device_version (ne_cfg E) = DEVICE_VERSION_V1"
  shows "udp_receiver E c a (rx_buffer (time_response t m) stale) len n =
    Some (while_up (led_mode_set LED_FLASH)
      (node_time_data_handler E c (rx_buffer (time_response t m) stale) len n))"
  using assms by (simp add: udp_receiver_def packet_dispatch_def time_response_def Let_def protocol_consts)

lemma led_keeps [simp]:
  "node_epoch (led_mode_set m n) = node_epoch n" "node_epoch (while_up (led_mode_set m) n) = node_epoch n"
  by (simp_all add: led_mode_set_def while_up_def process_start_def process_exit_def Let_def)

lemma node_epoch_handler:
  "node_epoch (node_time_data_handler E c data len n) = snd (time_data_handler c data (node_epoch n))"
  by (simp add: node_time_data_handler_def send_message_packet_def node_sendto_def node_emit_def
      node_net_on_def Let_def split: prod.split option.split)

section \<open>Accuracy\<close>

text \<open>
  The half transit time that the node computes from the times \<open>q\<close> of its request and the
  time now, for a clock that has advanced by \<open>d\<close> ms since the request.
\<close>

lemma transit_of_elapsed:
  assumes "same_ms (time_ms r - time_ms q) d" "0 \<le> d" "d < 2 ^ 32"
  shows "uint (calculate_transit_time q r) = d div 2 mod 65536"
proof -
  have "(time_ms r - time_ms q) mod time_modulus mod 2 ^ 32 = d mod time_modulus mod 2 ^ 32"
    using assms(1) by (simp add: same_ms_def)
  then have "(time_ms r - time_ms q) mod 2 ^ 32 = d mod 2 ^ 32"
    by (simp add: time_modulus_def mod_mod_cancel)
  then show ?thesis using assms(2,3) by (simp add: transit_uint)
qed

lemma same_ms_diff: "same_ms x y \<Longrightarrow> same_ms a b \<Longrightarrow> same_ms (x - a) (y - b)"
  unfolding same_ms_def by (metis mod_diff_cong)

lemma clock_elapsed:
  assumes "epoch_ok e" "same_ms (clock_ms c' - clock_ms c) d"
  shows "same_ms (time_ms (get_epoch_time c' e) - time_ms (get_epoch_time c e)) d"
proof -
  have "same_ms (time_ms (get_epoch_time c' e) - time_ms (get_epoch_time c e))
      (clock_ms c' + offset_ms e - (clock_ms c + offset_ms e))"
    by (intro same_ms_diff get_epoch_offset(2) assms(1))
  then show ?thesis using assms(2) by (auto intro: same_ms_trans)
qed

lemma half_of_response:
  assumes "epoch_ok e" "same_ms (clock_ms c1 - clock_ms c0) d" "0 \<le> d" "d < 2 ^ 32"
    and "rtc_request_time data = get_epoch_time c0 e"
  shows "uint (rtc_half c1 data e) = d div 2 mod 65536"
  unfolding rtc_half_def assms(5)
  using clock_elapsed [OF assms(1,2)] assms(3,4) by (rule transit_of_elapsed)

text \<open>What the node's clock shows after an accepted response, now and later.\<close>

lemma response_sets_clock:
  assumes "epoch_ok e" "same_ms (clock_ms c1 - clock_ms c0) d" "0 \<le> d" "d < 2 ^ 32"
    and "rtc_request_time data = get_epoch_time c0 e" "milliseconds (rtc_root_time data) < 1000"
    and "d div 2 mod 65536 \<le> 3000"
  shows "same_ms (time_ms (get_epoch_time c (snd (time_data_handler c1 data e))))
      (time_ms (rtc_root_time data) - d div 2 mod 65536 + (clock_ms c - clock_ms c1))"
    and "\<exists>diff. fst (time_data_handler c1 data e) =
      Some (DEVICE_MESSAGE_TIMESYNC_STATUS, byte_of (diff :: u16) 0, byte_of diff 1)"
proof -
  note half = half_of_response [OF assms(1-5)]
  have "rtc_half c1 data e \<le> 3000" using half assms(7) by (simp add: word_le_def)
  from time_data_handler_sets [OF this assms(6)] obtain diff :: u16 and e'
    where run: "time_data_handler c1 data e =
        (Some (DEVICE_MESSAGE_TIMESYNC_STATUS, byte_of diff 0, byte_of diff 1), e')"
      and ok: "epoch_ok e'"
      and off: "same_ms (offset_ms e') (time_ms (rtc_root_time data) - d div 2 mod 65536 - clock_ms c1)"
    unfolding half by blast
  have "same_ms (clock_ms c + offset_ms e')
      (clock_ms c + (time_ms (rtc_root_time data) - d div 2 mod 65536 - clock_ms c1))"
    using same_ms_add [OF off, of "clock_ms c"] by (simp add: add.commute)
  then have "same_ms (time_ms (get_epoch_time c e'))
      (clock_ms c + (time_ms (rtc_root_time data) - d div 2 mod 65536 - clock_ms c1))"
    using same_ms_trans [OF get_epoch_offset(2) [OF ok]] by blast
  then show "same_ms (time_ms (get_epoch_time c (snd (time_data_handler c1 data e))))
      (time_ms (rtc_root_time data) - d div 2 mod 65536 + (clock_ms c - clock_ms c1))"
    unfolding run by (simp add: algebra_simps)
  show "\<exists>diff. fst (time_data_handler c1 data e) =
      Some (DEVICE_MESSAGE_TIMESYNC_STATUS, byte_of (diff :: u16) 0, byte_of diff 1)"
    unfolding run by auto
qed

lemma response_dropped:
  assumes "epoch_ok e" "same_ms (clock_ms c1 - clock_ms c0) d" "0 \<le> d" "d < 2 ^ 32"
    and "rtc_request_time data = get_epoch_time c0 e" "3000 < d div 2 mod 65536"
  shows "time_data_handler c1 data e = (None, e)"
  using half_of_response [OF assms(1-5)] assms(6)
  by (intro time_data_handler_late) (simp add: word_less_def)

end
