(* ===== verification/Ota_Download.thy ===== *)
theory Ota_Download
  imports Ota_Boot_Laws Dag_Process
begin

text \<open>
  Laws of the firmware update of a node: the announcement, \<open>fw_update_process\<close> that erases
  slot 1 and requests chunk after chunk, \<open>firmware_data_handler\<close> that stores them, the
  verdict at the end, and the first join of the new image, proved over the interface
  \<open>flash_board\<close>.
\<close>

section \<open>Fields that packets and LEDs leave alone\<close>

lemma node_emit_fields [simp]:
  "dev (node_emit ev n) = dev n" "node_up (node_emit ev n) = node_up n" "node_mode (node_emit ev n) = node_mode n"
  "fw_chunk_quantity (node_emit ev n) = fw_chunk_quantity n" "fw_error_counter (node_emit ev n) = fw_error_counter n"
  "ota_image_current_offset (node_emit ev n) = ota_image_current_offset n" "root_addr (node_emit ev n) = root_addr n"
  "running (node_emit ev n) = running n" "spi_status (node_emit ev n) = spi_status n"
  "node_events (node_emit ev n) = node_events n @ [ev]"
  by (simp_all add: node_emit_def)

lemma led_mode_fields [simp]:
  "dev (led_mode_set m n) = dev n" "node_up (led_mode_set m n) = node_up n"
  "node_mode (led_mode_set m n) = node_mode n" "fw_chunk_quantity (led_mode_set m n) = fw_chunk_quantity n"
  "fw_error_counter (led_mode_set m n) = fw_error_counter n"
  "ota_image_current_offset (led_mode_set m n) = ota_image_current_offset n"
  "root_addr (led_mode_set m n) = root_addr n" "spi_status (led_mode_set m n) = spi_status n"
  "node_events (led_mode_set m n) = node_events n"
  by (simp_all add: led_mode_set_def process_start_def process_exit_def Let_def)

lemma message_fields [simp]:
  "dev (send_message_packet E t a b n) = dev n" "node_up (send_message_packet E t a b n) = node_up n"
  "node_mode (send_message_packet E t a b n) = node_mode n"
  "fw_chunk_quantity (send_message_packet E t a b n) = fw_chunk_quantity n"
  "fw_error_counter (send_message_packet E t a b n) = fw_error_counter n"
  "ota_image_current_offset (send_message_packet E t a b n) = ota_image_current_offset n"
  "root_addr (send_message_packet E t a b n) = root_addr n" "running (send_message_packet E t a b n) = running n"
  by (simp_all add: send_message_packet_def node_sendto_def node_net_on_def)

lemma chunk_req_fields [simp]:
  "dev (send_fw_chunk_req_packet E k n) = dev n" "node_up (send_fw_chunk_req_packet E k n) = node_up n"
  "fw_chunk_quantity (send_fw_chunk_req_packet E k n) = fw_chunk_quantity n"
  "ota_image_current_offset (send_fw_chunk_req_packet E k n) = ota_image_current_offset n"
  by (simp_all add: send_fw_chunk_req_packet_def node_sendto_def)

section \<open>A download as a sequence of steps\<close>

text \<open>
  The packets of the root, the thread resumed by timers (\<open>deadline\<close> tells whether the one of
  two seconds has expired), and a session: the root announces
  the firmware, the thread erases slot 1, and each chunk that it requests arrives.
\<close>

definition new_fw_packet :: "'d node_env \<Rightarrow> u8 \<Rightarrow> u8 \<Rightarrow> bytes" where
  "new_fw_packet E q_high q_low = [PROTOCOL_VERSION_V1, cfg_device_version (ne_cfg E), DATA_TYPE_FIRMWARE_CMD,
     DATA_TYPE_FIRMWARE_COMMAND_NEW_FW, q_high, q_low, DATA_RESERVED, DATA_RESERVED, DATA_RESERVED, DATA_RESERVED]"

definition fw_packet :: "'d node_env \<Rightarrow> bytes \<Rightarrow> bytes \<Rightarrow> bytes" where
  "fw_packet E numbers chunk = [PROTOCOL_VERSION_V1, cfg_device_version (ne_cfg E), DATA_TYPE_FIRMWARE]
     @ numbers @ chunk"

fun fw_timers :: "'d node_env \<Rightarrow> bool \<Rightarrow> nat \<Rightarrow> fw_thread \<Rightarrow> 'd node \<Rightarrow> (fw_thread \<times> 'd node) option" where
  "fw_timers E deadline 0 th n = Some (th, n)"
| "fw_timers E deadline (Suc k) th n =
     do { (th, n) \<leftarrow> fw_update_step E deadline th n; fw_timers E deadline k th n }"

fun fw_chunks ::
  "'d node_env \<Rightarrow> rtc \<Rightarrow> bytes \<Rightarrow> mem \<Rightarrow> bytes list \<Rightarrow> fw_thread \<Rightarrow> 'd node \<Rightarrow> (fw_thread \<times> 'd node) option" where
  "fw_chunks E c a stale [] th n = Some (th, n)"
| "fw_chunks E c a stale (p # ps) th n = do {
     n \<leftarrow> udp_receiver E c a (rx_buffer p stale) (of_nat (length p)) n;
     (th, n) \<leftarrow> fw_timers E False 2 th n;
     fw_chunks E c a stale ps th n }"

definition fw_session ::
  "'d node_env \<Rightarrow> rtc \<Rightarrow> bytes \<Rightarrow> mem \<Rightarrow> bytes \<Rightarrow> bytes list \<Rightarrow> fw_thread \<Rightarrow> 'd node \<Rightarrow> (fw_thread \<times> 'd node) option" where
  "fw_session E c a stale announce packets th n = do {
     n \<leftarrow> udp_receiver E c a (rx_buffer announce stale) (of_nat (length announce)) n;
     (th, n) \<leftarrow> fw_start E th n;
     (th, n) \<leftarrow> fw_timers E False 25 th n;
     fw_chunks E c a stale packets th n }"

lemma fw_timers_add:
  "fw_timers E deadline (k + m) th n = do { (th, n) \<leftarrow> fw_timers E deadline k th n; fw_timers E deadline m th n }"
  by (induction k arbitrary: th n) (auto split: bind_splits prod.splits)

section \<open>The steps\<close>

lemma slot_1_addr: "slot_addr 1 = 0x32000"
  by (simp add: slot_addr_def ota_images_def)

lemma slot_1_page:
  assumes "p < 25"
  shows "unat (push_bit 12 (ucast (ota_images ! 0) + word_of_nat p) :: u32) = 0x32000 + 4096 * p"
proof -
  have "(ucast (ota_images ! 0) + word_of_nat p :: u32) = word_of_nat (0x32 + p)"
    by (simp add: ota_images_def)
  then show ?thesis using assms by (simp only: shift_12) simp
qed

lemma slot_1_offset:
  assumes "unat off \<le> image_bytes"
  shows "unat (ota_slot_1_address off) = 0x32000 + unat off"
  using assms by (simp add: ota_slot_1_address_def ota_images_def image_bytes_def unat_word_ariths)

lemma new_fw_received:
  fixes n :: "'d node"
  assumes "node_up n" "spi_status n = SPI_EXT_FLASH_ACTIVE"
  shows "\<exists>n'. udp_receiver E c a (rx_buffer (new_fw_packet E qh ql) stale) len n = Some n' \<and>
    dev n' = dev n \<and> node_up n' \<and> node_mode n' = node_mode n \<and> fw_chunk_quantity n' = u16_of_bytes ql qh \<and>
    ota_image_current_offset n' = 0"
  using assms
  by (simp add: udp_receiver_def packet_dispatch_def new_fw_packet_def firmware_cmd_dispatch_def Let_def
      firmware_cmd_new_fw_handler_def while_up_def process_start_def protocol_consts)

lemma page_next:
  assumes "p < 25"
  shows "(word_of_nat p :: u32) + 1 = word_of_nat (Suc p)" "(word_of_nat (Suc p) :: u32) < 25 \<longleftrightarrow> Suc p < 25"
proof -
  show "(word_of_nat p :: u32) + 1 = word_of_nat (Suc p)" by (simp add: add.commute)
  show "(word_of_nat (Suc p) :: u32) < 25 \<longleftrightarrow> Suc p < 25"
    using assms by (simp only: word_less_nat_alt unat_of_nat_u32) simp
qed

lemma request_more:
  "fw_chunk_num th < fw_chunk_quantity n \<Longrightarrow> fw_loop E th n =
     Some (th\<lparr>fw_chunk_num := fw_chunk_num th + 1, fw_pc := Fw_Chunk_Wait\<rparr>,
           send_fw_chunk_req_packet E (fw_chunk_num th) n)"
  by (simp add: fw_loop_def)

lemma chunk_round:
  assumes "fw_pc th = Fw_Chunk_Wait" "node_up n"
  shows "fw_timers E False 2 th n = fw_loop E (th\<lparr>fw_pc := Fw_Chunk_Delay\<rparr>) n"
  using assms(1)
  by (cases "fw_loop E (th\<lparr>fw_pc := Fw_Chunk_Delay\<rparr>) n")
    (auto simp: fw_update_step_def fw_chunk_arrived_def numeral_2_eq_2)

text \<open>The end of a download: what the image in slot 1 and the running firmware say decides.\<close>

definition accepted :: "mem \<Rightarrow> mem \<Rightarrow> bool" where
  "accepted x m \<longleftrightarrow>
     om_crc_shadow (slot_metadata x 1) =
       image_crc (read_mem x 0x32100 (4 * crc_words 0x32100 (om_size (slot_metadata x 1)))) \<and>
     om_uuid (metadata_of_bytes (read_mem m 0x2000 OTA_METADATA_LENGTH)) = om_uuid (slot_metadata x 1)"

definition download_end :: "'d node_env \<Rightarrow> fw_thread \<Rightarrow> 'd node \<Rightarrow> (fw_thread \<times> 'd node) option" where
  "download_end E th n = do {
     n \<leftarrow> fw_verify E n;
     Some (th\<lparr>fw_chunk_num := 0, fw_pc := Fw_Ended\<rparr>, while_up (process_exit fw_update_process) n) }"

context flash_board begin

lemma erase_step_ok:
  assumes "closed (dev n)" "ne_flash E = F" "p < 25"
  shows "\<exists>n'. fw_erase_page E (th\<lparr>fw_page := word_of_nat p\<rparr>) n =
      Some (th\<lparr>fw_page := word_of_nat p, fw_pc := Fw_Erase_Wait\<rparr>, n') \<and>
    closed (dev n') \<and>
    xmem (dev n') = fill_ff ((0x32000 + 4096 * p) div sector * sector) sector (xmem (dev n)) \<and>
    imem (dev n') = imem (dev n) \<and> node_up n' = node_up n \<and> fw_chunk_quantity n' = fw_chunk_quantity n \<and>
    ota_image_current_offset n' = ota_image_current_offset n"
proof -
  let ?a = "push_bit 12 (ucast (ota_images ! 0) + word_of_nat p) :: u32"
  note a = slot_1_page [OF assms(3)]
  have "\<exists>d'. erase_extflash_page F ?a (dev n) = Some (0, d') \<and> closed d' \<and>
      xmem d' = fill_ff (unat ?a div sector * sector) sector (xmem (dev n)) \<and> imem d' = imem (dev n)"
    using assms(1,3) by (intro erase_page_ok) (simp_all add: a ext_flash_size_def)
  then obtain d where d: "erase_extflash_page F ?a (dev n) = Some (0, d)" "closed d"
    "xmem d = fill_ff ((0x32000 + 4096 * p) div sector * sector) sector (xmem (dev n))" "imem d = imem (dev n)"
    unfolding a by auto
  then show ?thesis
    by (simp add: fw_erase_page_def assms(2) on_dev_do_def while_nonzero_ok)
qed

lemma erase_steps_ok:
  assumes "closed (dev n)" "ne_flash E = F" "p + k < 25"
    and "xmem (dev n) = erase_sectors sector 0x32000 (Suc p) X"
  shows "\<exists>n'. fw_timers E False k (th\<lparr>fw_page := word_of_nat p, fw_pc := Fw_Erase_Wait\<rparr>) n =
      Some (th\<lparr>fw_page := word_of_nat (p + k), fw_pc := Fw_Erase_Wait\<rparr>, n') \<and>
    closed (dev n') \<and> xmem (dev n') = erase_sectors sector 0x32000 (Suc (p + k)) X \<and>
    imem (dev n') = imem (dev n) \<and> node_up n' = node_up n \<and> fw_chunk_quantity n' = fw_chunk_quantity n \<and>
    ota_image_current_offset n' = ota_image_current_offset n"
  using assms
proof (induction k arbitrary: p n)
  case (Suc k)
  have p: "p < 25" "Suc p < 25" using Suc.prems(3) by auto
  obtain n1 where n1: "fw_erase_page E (th\<lparr>fw_page := word_of_nat (Suc p)\<rparr>) n =
      Some (th\<lparr>fw_page := word_of_nat (Suc p), fw_pc := Fw_Erase_Wait\<rparr>, n1)" "closed (dev n1)"
    "xmem (dev n1) = fill_ff ((0x32000 + 4096 * Suc p) div sector * sector) sector (xmem (dev n))"
    "imem (dev n1) = imem (dev n)"
    "node_up n1 = node_up n" "fw_chunk_quantity n1 = fw_chunk_quantity n"
    "ota_image_current_offset n1 = ota_image_current_offset n"
    using erase_step_ok [OF Suc.prems(1,2) p(2), of th] by blast
  have x1: "xmem (dev n1) = erase_sectors sector 0x32000 (Suc (Suc p)) X"
    unfolding n1(3) Suc.prems(4) by (rule erase_sectors_Suc [symmetric])
  have step: "fw_update_step E False (th\<lparr>fw_page := word_of_nat p, fw_pc := Fw_Erase_Wait\<rparr>) n =
      Some (th\<lparr>fw_page := word_of_nat (Suc p), fw_pc := Fw_Erase_Wait\<rparr>, n1)"
    using n1(1) p(2) page_next [OF p(1)]
    by (simp add: fw_update_step_def fw_erase_page_def del: of_nat_Suc)
  have le: "Suc p + k < 25" using Suc.prems(3) by simp
  note rec = Suc.IH [OF n1(2) Suc.prems(2) le x1]
  have sum: "p + Suc k = Suc p + k" by simp
  show ?case
    unfolding fw_timers.simps(2) step sum using rec n1(4-7) by (simp del: of_nat_Suc of_nat_add fw_timers.simps erase_sectors.simps)
qed simp

text \<open>The thread up to its first request: slot 1 is erased.\<close>

lemma erase_all_ok:
  assumes "closed (dev n)" "ne_flash E = F" "node_up n"
  shows "\<exists>n'. do { (th, n) \<leftarrow> fw_start E th n; fw_timers E False 25 th n } =
      fw_loop E (th\<lparr>fw_page := 25, fw_pc := Fw_Erase_Wait\<rparr>) n' \<and>
    closed (dev n') \<and> xmem (dev n') = erase_sectors sector 0x32000 25 (xmem (dev n)) \<and>
    imem (dev n') = imem (dev n) \<and> node_up n' \<and> fw_chunk_quantity n' = fw_chunk_quantity n \<and>
    ota_image_current_offset n' = ota_image_current_offset n"
proof -
  have zero: "0 < (25 :: nat)" by simp
  obtain n1 where n1: "fw_erase_page E (th\<lparr>fw_page := word_of_nat 0\<rparr>) n =
      Some (th\<lparr>fw_page := word_of_nat 0, fw_pc := Fw_Erase_Wait\<rparr>, n1)" "closed (dev n1)"
    "xmem (dev n1) = fill_ff ((0x32000 + 4096 * 0) div sector * sector) sector (xmem (dev n))"
    "imem (dev n1) = imem (dev n)"
    "node_up n1 = node_up n" "fw_chunk_quantity n1 = fw_chunk_quantity n"
    "ota_image_current_offset n1 = ota_image_current_offset n"
    using erase_step_ok [OF assms(1,2) zero, of th] by blast
  have x1: "xmem (dev n1) = erase_sectors sector 0x32000 (Suc 0) (xmem (dev n))" using n1(3) by simp
  obtain n2 where n2: "fw_timers E False 24 (th\<lparr>fw_page := word_of_nat 0, fw_pc := Fw_Erase_Wait\<rparr>) n1 =
      Some (th\<lparr>fw_page := word_of_nat (0 + 24), fw_pc := Fw_Erase_Wait\<rparr>, n2)"
    "closed (dev n2)" "xmem (dev n2) = erase_sectors sector 0x32000 (Suc (0 + 24)) (xmem (dev n))"
    "imem (dev n2) = imem (dev n1)" "node_up n2 = node_up n1" "fw_chunk_quantity n2 = fw_chunk_quantity n1"
    "ota_image_current_offset n2 = ota_image_current_offset n1"
    using erase_steps_ok [OF n1(2) assms(2) _ x1, of 24 th] by (auto simp del: erase_sectors.simps)
  have swap: "th\<lparr>fw_pc := x, fw_page := y\<rparr> = th\<lparr>fw_page := y, fw_pc := x\<rparr>" for x y by simp
  have "fw_timers E False 25 (th\<lparr>fw_page := 0, fw_pc := Fw_Erase_Wait\<rparr>) n1 =
      fw_timers E False 1 (th\<lparr>fw_page := 24, fw_pc := Fw_Erase_Wait\<rparr>) n2"
    using fw_timers_add [of E False 24 1 "th\<lparr>fw_page := 0, fw_pc := Fw_Erase_Wait\<rparr>" n1] n2(1) by simp
  also have "\<dots> = fw_loop E (th\<lparr>fw_page := 25, fw_pc := Fw_Erase_Wait\<rparr>) n2"
    by (cases "fw_loop E (th\<lparr>fw_page := 25, fw_pc := Fw_Erase_Wait\<rparr>) n2")
      (auto simp: fw_update_step_def swap split: prod.splits)
  finally have "do { (th, n) \<leftarrow> fw_start E th n; fw_timers E False 25 th n } =
      fw_loop E (th\<lparr>fw_page := 25, fw_pc := Fw_Erase_Wait\<rparr>) n2"
    using n1(1) by (simp add: fw_start_def)
  then show ?thesis
    using n1 n2 assms(3) by (intro exI [of _ n2]) (simp del: erase_sectors.simps)
qed

lemma chunk_stored:
  assumes "closed (dev n)" "ne_flash E = F" "ne_ti E = ti" "node_up n" "length numbers = 4" "length chunk = 600"
    and "unat (ota_image_current_offset n) + 600 \<le> image_bytes"
  shows "\<exists>n'. udp_receiver E c a (rx_buffer (fw_packet E numbers chunk) stale) len n = Some n' \<and>
    closed (dev n') \<and>
    xmem (dev n') = and_bytes (0x32000 + unat (ota_image_current_offset n)) chunk (xmem (dev n)) \<and>
    imem (dev n') = imem (dev n) \<and> node_up n' \<and> fw_chunk_quantity n' = fw_chunk_quantity n \<and>
    unat (ota_image_current_offset n') = unat (ota_image_current_offset n) + 600 \<and> fw_error_counter n' = 0 \<and>
    node_mode n' = node_mode n"
proof -
  let ?off = "ota_image_current_offset n"
  let ?data = "rx_buffer (fw_packet E numbers chunk) stale"
  have payload: "map (\<lambda>i. ?data (i + FIRMWARE_PAYLOAD_OFFSET)) [0..<FIRMWARE_PAYLOAD_LENGTH] = chunk"
    using assms(5,6)
    by (intro nth_equalityI)
      (auto simp: FIRMWARE_PAYLOAD_LENGTH_def FIRMWARE_PAYLOAD_OFFSET_def rx_buffer_def fw_packet_def nth_append
        simp del: upt_conv_Cons)
  have a: "unat (ota_slot_1_address ?off) = 0x32000 + unat ?off" using assms(7) by (intro slot_1_offset) simp
  have "\<exists>d'. store_firmware_data F ti (ota_slot_1_address ?off) chunk (dev n) = Some (0, d') \<and> closed d' \<and>
      xmem d' = and_bytes (unat (ota_slot_1_address ?off)) chunk (xmem (dev n)) \<and> imem d' = imem (dev n)"
    using assms(1,6,7) by (intro store_ok) (simp_all add: a ext_flash_size_def image_bytes_def)
  then obtain d where d: "store_firmware_data F ti (ota_slot_1_address ?off) chunk (dev n) = Some (0, d)" "closed d"
    "xmem d = and_bytes (0x32000 + unat ?off) chunk (xmem (dev n))" "imem d = imem (dev n)"
    unfolding a by blast
  have "unat (?off + 600) = unat ?off + 600"
    using assms(7) by (simp add: unat_word_ariths image_bytes_def)
  moreover have "firmware_data_handler E a ?data len n = Some (node_emit Fw_Timer_Zero
      (n\<lparr>fw_error_counter := 0, dev := d, ota_image_current_offset := ?off + 600\<rparr>))"
    using assms(2,3) d(1)
    unfolding firmware_data_handler_def payload
    by (simp add: on_dev_do_def while_nonzero_ok FIRMWARE_PAYLOAD_LENGTH_def)
  moreover have "?data 0 = PROTOCOL_VERSION_V1" "?data (Suc 0) = cfg_device_version (ne_cfg E)"
      "?data 2 = DATA_TYPE_FIRMWARE"
    by (simp_all add: fw_packet_def)
  ultimately show ?thesis
    using assms(4) d(2-4)
    by (simp add: udp_receiver_def packet_dispatch_def protocol_consts while_up_def)
qed

lemma current_metadata_ok:
  assumes "closed d"
  shows "\<exists>d'. get_current_metadata ti d =
      Some ((0, metadata_of_bytes (read_mem (imem d) 0x2000 OTA_METADATA_LENGTH)), d') \<and>
    closed d' \<and> xmem d' = xmem d \<and> imem d' = imem d"
proof -
  have "unat (push_bit 12 CURRENT_FIRMWARE) = 0x2000" by (simp add: CURRENT_FIRMWARE_def)
  then show ?thesis
    using flash_read_bytes [OF assms, of "push_bit 12 CURRENT_FIRMWARE" OTA_METADATA_LENGTH]
    by (auto simp: get_current_metadata_def OTA_METADATA_LENGTH_def int_flash_size_def)
qed

lemma verify_end_ok:
  assumes "closed (dev n)" "ne_flash E = F" "ne_ti E = ti" "node_up n"
    and "0x32100 + 4 * crc_words 0x32100 (om_size (slot_metadata (xmem (dev n)) 1)) \<le> ext_flash_size"
  shows "\<exists>n'. fw_verify E n = Some n' \<and> closed (dev n') \<and> xmem (dev n') = xmem (dev n) \<and>
    outside_user (imem (dev n')) = outside_user (imem (dev n)) \<and>
    (if accepted (xmem (dev n)) (imem (dev n))
     then stored_flag (imem (dev n')) = FW_FLAG_NEW_IMG_EXT \<and> \<not> node_up n' \<and> last (node_events n') = Node_System_Reset
     else imem (dev n') = imem (dev n) \<and> node_up n')"
proof -
  let ?x = "xmem (dev n)" and ?m = "imem (dev n)"
  let ?r = "if om_crc_shadow (slot_metadata ?x 1) =
      image_crc (read_mem ?x 0x32100 (4 * crc_words 0x32100 (om_size (slot_metadata ?x 1))))
    then VERIFY_SLOT_OK else VERIFY_SLOT_CRC_ERROR"
  have addr: "(of_nat (slot_addr 1) + OTA_METADATA_SPACE :: u32) = 0x32100" "slot_addr 1 + 256 = 0x32100"
    by (simp_all add: slot_1_addr OTA_METADATA_SPACE_def)
  obtain d1 where d1: "verify_ota_slot F (ne_junk E) 1 (dev n) = Some (?r, d1)" "closed d1" "xmem d1 = ?x" "imem d1 = ?m"
    using verify_slot_ok [OF assms(1), of 1 "ne_junk E"] assms(5) unfolding addr by auto
  obtain d2 where d2: "get_current_metadata ti d1 =
      Some ((0, metadata_of_bytes (read_mem ?m 0x2000 OTA_METADATA_LENGTH)), d2)" "closed d2" "xmem d2 = ?x" "imem d2 = ?m"
    using current_metadata_ok [OF d1(2)] d1 by auto
  obtain d3 where d3: "get_ota_slot_metadata F 1 (ne_junk E) d2 = Some ((0, slot_metadata ?x 1), d3)" "closed d3"
      "xmem d3 = ?x" "imem d3 = ?m"
    using slot_metadata_ok [OF d2(2), of 1 "ne_junk E"] d2 by auto
  have "fw_flag_valid FW_FLAG_NEW_IMG_EXT" by (simp add: fw_flag_valid_def)
  from write_flag_ok [OF d3(2) this] obtain d4 where d4:
    "write_fw_flag ti FW_FLAG_NEW_IMG_EXT d3 = Some (FLAG_OK_WRITE, d4)" "closed d4"
    "stored_flag (imem d4) = FW_FLAG_NEW_IMG_EXT" "outside_user (imem d4) = outside_user ?m" "xmem d4 = ?x"
    using d3 by auto
  show ?thesis
    using assms(2-4) d1 d2 d3 d4
    by (simp add: fw_verify_def on_dev_def accepted_def VERIFY_SLOT_OK_def VERIFY_SLOT_CRC_ERROR_def CORRECT_CRC_def
        system_reset_def)
qed

lemma put_bytes_extend:
  "length bs = k \<Longrightarrow> put_bytes (a + k) cs (put_bytes a bs m) = put_bytes a (bs @ cs) m"
  by (simp add: put_bytes_append)

text \<open>
  All chunks: each is stored behind the one before, whatever its number bytes are, and after
  the last one the image is verified.
\<close>

lemma chunks_ok:
  assumes "closed (dev n)" "ne_flash E = F" "ne_ti E = ti" "node_up n" "fw_pc th = Fw_Chunk_Wait" "cs \<noteq> []"
    and "\<forall>(numbers, chunk)\<in>set cs. length numbers = 4 \<and> length chunk = 600"
    and "unat (ota_image_current_offset n) + 600 * length cs \<le> image_bytes"
    and "unat (fw_chunk_num th) + length cs = Suc (unat (fw_chunk_quantity n))"
    and "\<forall>x. 0x32000 + unat (ota_image_current_offset n) \<le> x \<and> x < 0x32000 + image_bytes \<longrightarrow> xmem (dev n) x = 0xFF"
  shows "\<exists>th' n'. fw_chunks E c a stale (map (\<lambda>(numbers, chunk). fw_packet E numbers chunk) cs) th n =
      download_end E th' n' \<and> closed (dev n') \<and> node_up n' \<and> imem (dev n') = imem (dev n) \<and>
    xmem (dev n') = put_bytes (0x32000 + unat (ota_image_current_offset n)) (concat (map snd cs)) (xmem (dev n))"
  using assms
proof (induction cs arbitrary: th n)
  case (Cons nc cs)
  obtain numbers chunk where nc: "nc = (numbers, chunk)" by fastforce
  have len: "length numbers = 4" "length chunk = 600" using Cons.prems(7) by (simp_all add: nc)
  let ?a = "0x32000 + unat (ota_image_current_offset n)"
  have fits: "unat (ota_image_current_offset n) + 600 \<le> image_bytes" using Cons.prems(8) by simp
  obtain n1 where n1: "udp_receiver E c a (rx_buffer (fw_packet E numbers chunk) stale)
      (of_nat (length (fw_packet E numbers chunk))) n = Some n1" "closed (dev n1)"
    "xmem (dev n1) = and_bytes ?a chunk (xmem (dev n))" "imem (dev n1) = imem (dev n)" "node_up n1"
    "fw_chunk_quantity n1 = fw_chunk_quantity n"
    "unat (ota_image_current_offset n1) = unat (ota_image_current_offset n) + 600"
    using chunk_stored [OF Cons.prems(1-4) len fits] by blast
  have x1: "xmem (dev n1) = put_bytes ?a chunk (xmem (dev n))"
    unfolding n1(3) using Cons.prems(10) fits len(2) by (intro and_bytes_put) auto
  note round = chunk_round [OF Cons.prems(5) n1(5), of E]
  show ?case
  proof (cases cs)
    case Nil
    then have num: "\<not> fw_chunk_num th < fw_chunk_quantity n1"
      using Cons.prems(9) n1(6) by (simp add: word_less_nat_alt)
    then have "fw_chunks E c a stale (map (\<lambda>(numbers, chunk). fw_packet E numbers chunk) (nc # cs)) th n =
        download_end E (th\<lparr>fw_pc := Fw_Chunk_Delay\<rparr>) (n1\<lparr>fw_error_counter := 0\<rparr>)"
      using n1(1) round by (simp add: nc Nil fw_loop_def download_end_def split: prod.splits bind_splits)
    then show ?thesis using n1(2,4,5) x1
      by (intro exI [of _ "th\<lparr>fw_pc := Fw_Chunk_Delay\<rparr>"] exI [of _ "n1\<lparr>fw_error_counter := 0\<rparr>"])
        (simp add: nc Nil)
  next
    case (Cons nc' cs')
    have num: "fw_chunk_num th < fw_chunk_quantity n1"
      using Cons.prems(9) n1(6) by (simp add: word_less_nat_alt Cons)
    then have num': "unat (fw_chunk_num th + 1) = Suc (unat (fw_chunk_num th))"
      using unsigned_less [of "fw_chunk_quantity n1", where ?'a = nat] by (simp add: word_less_nat_alt unat_add_lem [THEN iffD1])
    define th1 where "th1 = th\<lparr>fw_pc := Fw_Chunk_Wait, fw_chunk_num := fw_chunk_num th + 1\<rparr>"
    define n2 where "n2 = send_fw_chunk_req_packet E (fw_chunk_num th) n1"
    have step: "fw_timers E False 2 th n1 = Some (th1, n2)"
      unfolding round using num by (simp add: request_more th1_def n2_def)
    have "\<exists>th' n'. fw_chunks E c a stale (map (\<lambda>(numbers, chunk). fw_packet E numbers chunk) cs) th1 n2 =
        download_end E th' n' \<and> closed (dev n') \<and> node_up n' \<and> imem (dev n') = imem (dev n2) \<and>
      xmem (dev n') = put_bytes (0x32000 + unat (ota_image_current_offset n2)) (concat (map snd cs)) (xmem (dev n2))"
    proof (rule Cons.IH)
      show "closed (dev n2)" "node_up n2" "fw_pc th1 = Fw_Chunk_Wait" "cs \<noteq> []"
        using n1(2,5) by (simp_all add: n2_def th1_def Cons)
      show "ne_flash E = F" "ne_ti E = ti" by fact+
      show "\<forall>(numbers, chunk)\<in>set cs. length numbers = 4 \<and> length chunk = 600" using Cons.prems(7) by simp
      show "unat (ota_image_current_offset n2) + 600 * length cs \<le> image_bytes"
        using Cons.prems(8) n1(7) by (simp add: n2_def)
      show "unat (fw_chunk_num th1) + length cs = Suc (unat (fw_chunk_quantity n2))"
        using Cons.prems(9) n1(6) num' by (simp add: n2_def th1_def)
      show "\<forall>x. 0x32000 + unat (ota_image_current_offset n2) \<le> x \<and> x < 0x32000 + image_bytes \<longrightarrow> xmem (dev n2) x = 0xFF"
        using Cons.prems(10) n1(7) x1 len(2) by (auto simp: n2_def put_bytes_def)
    qed
    moreover have "0x32000 + unat (ota_image_current_offset n2) = ?a + length chunk"
      using n1(7) len(2) by (simp add: n2_def)
    ultimately show ?thesis
      using n1(1,4) x1 step by (simp add: nc put_bytes_append n2_def add.assoc)
  qed
qed simp

text \<open>A whole session, from the announcement to the verdict.\<close>

lemma session_ok:
  fixes n :: "'d node"
  assumes "closed (dev n)" "ne_flash E = F" "ne_ti E = ti" "0 < sector" "4096 dvd sector" "node_up n"
    and "spi_status n = SPI_EXT_FLASH_ACTIVE" "fw_chunk_num th = 0" "cs \<noteq> []"
    and "\<forall>(numbers, chunk)\<in>set cs. length numbers = 4 \<and> length chunk = 600" "600 * length cs \<le> image_bytes"
    and "length cs = unat (u16_of_bytes ql qh)"
  defines "x \<equiv> put_bytes 0x32000 (concat (map snd cs)) (erase_sectors sector 0x32000 25 (xmem (dev n)))"
  assumes fits: "0x32100 + 4 * crc_words 0x32100 (om_size (slot_metadata x 1)) \<le> ext_flash_size"
  shows "\<exists>th' n'. fw_session E c a stale (new_fw_packet E qh ql)
      (map (\<lambda>(numbers, chunk). fw_packet E numbers chunk) cs) th n = Some (th', n') \<and>
    fw_pc th' = Fw_Ended \<and> closed (dev n') \<and> xmem (dev n') = x \<and>
    outside_user (imem (dev n')) = outside_user (imem (dev n)) \<and>
    (if accepted x (imem (dev n))
     then stored_flag (imem (dev n')) = FW_FLAG_NEW_IMG_EXT \<and> \<not> node_up n' \<and> last (node_events n') = Node_System_Reset
     else imem (dev n') = imem (dev n) \<and> node_up n')"
proof -
  obtain n1 where n1: "udp_receiver E c a (rx_buffer (new_fw_packet E qh ql) stale)
      (of_nat (length (new_fw_packet E qh ql))) n = Some n1"
    "dev n1 = dev n" "node_up n1" "fw_chunk_quantity n1 = u16_of_bytes ql qh" "ota_image_current_offset n1 = 0"
    using new_fw_received [OF assms(6,7)] by blast
  have "closed (dev n1)" using n1(2) assms(1) by simp
  from erase_all_ok [OF this assms(2) n1(3), of th] obtain n2 where
    erase: "do { (th, n) \<leftarrow> fw_start E th n1; fw_timers E False 25 th n } =
      fw_loop E (th\<lparr>fw_page := 25, fw_pc := Fw_Erase_Wait\<rparr>) n2"
    and n2: "closed (dev n2)" "xmem (dev n2) = erase_sectors sector 0x32000 25 (xmem (dev n))"
    "imem (dev n2) = imem (dev n)"
    "node_up n2" "fw_chunk_quantity n2 = u16_of_bytes ql qh" "ota_image_current_offset n2 = 0"
    using n1 by (auto simp del: erase_sectors.simps)
  have blank: "\<forall>x. 0x32000 \<le> x \<and> x < 0x32000 + image_bytes \<longrightarrow> xmem (dev n2) x = 0xFF"
    using erase_sectors_range [OF assms(4,5), of "0x32000" _ 25]
    by (simp add: n2(2) image_bytes_def del: erase_sectors.simps)
  define th1 where "th1 = th\<lparr>fw_page := 25, fw_pc := Fw_Chunk_Wait, fw_chunk_num := 1\<rparr>"
  define n3 where "n3 = send_fw_chunk_req_packet E 0 n2"
  have "0 < u16_of_bytes ql qh" using assms(9,12) by (auto simp: word_gt_0)
  then have request: "fw_loop E (th\<lparr>fw_page := 25, fw_pc := Fw_Erase_Wait\<rparr>) n2 = Some (th1, n3)"
    using n2(5) assms(8) by (simp add: request_more th1_def n3_def)
  have "\<exists>th' n'. fw_chunks E c a stale (map (\<lambda>(numbers, chunk). fw_packet E numbers chunk) cs) th1 n3 =
      download_end E th' n' \<and> closed (dev n') \<and> node_up n' \<and> imem (dev n') = imem (dev n3) \<and>
    xmem (dev n') = put_bytes (0x32000 + unat (ota_image_current_offset n3)) (concat (map snd cs)) (xmem (dev n3))"
    using n2(1,4-6) blank assms(2,3,9-12)
    by (intro chunks_ok) (simp_all add: n3_def th1_def)
  then obtain th2 n4 where chunks: "fw_chunks E c a stale (map (\<lambda>(numbers, chunk). fw_packet E numbers chunk) cs) th1 n3 =
      download_end E th2 n4" and n4: "closed (dev n4)" "node_up n4" "imem (dev n4) = imem (dev n)" "xmem (dev n4) = x"
    using n2 by (auto simp: n3_def x_def simp del: erase_sectors.simps)
  obtain n5 where n5: "fw_verify E n4 = Some n5" "closed (dev n5)" "xmem (dev n5) = x"
    "outside_user (imem (dev n5)) = outside_user (imem (dev n))"
    "if accepted x (imem (dev n))
     then stored_flag (imem (dev n5)) = FW_FLAG_NEW_IMG_EXT \<and> \<not> node_up n5 \<and> last (node_events n5) = Node_System_Reset
     else imem (dev n5) = imem (dev n) \<and> node_up n5"
    using verify_end_ok [OF n4(1) assms(2,3) n4(2)] fits unfolding n4(3,4) by blast
  have "fw_session E c a stale (new_fw_packet E qh ql) (map (\<lambda>(numbers, chunk). fw_packet E numbers chunk) cs) th n =
      download_end E th2 n4"
  proof -
    have "fw_session E c a stale (new_fw_packet E qh ql) (map (\<lambda>(numbers, chunk). fw_packet E numbers chunk) cs) th n =
      do { (th, n) \<leftarrow> do { (th, n) \<leftarrow> fw_start E th n1; fw_timers E False 25 th n };
           fw_chunks E c a stale (map (\<lambda>(numbers, chunk). fw_packet E numbers chunk) cs) th n }"
      by (simp add: fw_session_def n1(1) split: bind_splits prod.splits)
    then show ?thesis by (simp only: erase request bind.bind_lunit prod.case chunks)
  qed
  then show ?thesis
    using n5 by (auto simp: download_end_def while_up_def process_exit_def)
qed

end

section \<open>A silent root\<close>

text \<open>
  The deadline expires with no chunk: the chunk is requested again, six times at most, unless
  it was the last one; then the image is verified without it.
\<close>

definition chunk_request :: "'d node_env \<Rightarrow> u16 \<Rightarrow> bytes" where
  "chunk_request E k = [PROTOCOL_VERSION_V1, cfg_device_version (ne_cfg E), DATA_TYPE_FIRMWARE_CMD,
     DATA_TYPE_FIRMWARE_COMMAND_CHANK_REQ, byte_of k 0, byte_of k 1,
     DATA_RESERVED, DATA_RESERVED, DATA_RESERVED, DATA_RESERVED]"

lemma silent_round:
  assumes "fw_pc th = Fw_Chunk_Wait" "fw_chunk_num th < fw_chunk_quantity n" "fw_error_counter n \<le> 5"
    and "fw_chunk_num th \<noteq> 0"
  shows "fw_timers E True 2 th n =
    Some (th, send_fw_chunk_req_packet E (fw_chunk_num th - 1) (n\<lparr>fw_error_counter := fw_error_counter n + 1\<rparr>))"
proof -
  have "unat (fw_chunk_num th - 1) = unat (fw_chunk_num th) - 1"
    using assms(4) by (intro unat_minus_one)
  then have "fw_chunk_num th - 1 < fw_chunk_quantity n"
    using assms(2) by (simp add: word_less_nat_alt)
  moreover have "th\<lparr>fw_chunk_num := fw_chunk_num th, fw_pc := Fw_Chunk_Wait\<rparr> = th" using assms(1) by simp
  moreover have "\<not> fw_error_counter n > FW_MAX_ERROR_COUNTER"
    using assms(3) by (simp add: FW_MAX_ERROR_COUNTER_def not_less)
  ultimately show ?thesis
    using assms(1,2) by (simp add: numeral_2_eq_2 fw_update_step_def fw_chunk_arrived_def fw_loop_def Let_def)
qed

lemma silent_rounds:
  assumes "fw_pc th = Fw_Chunk_Wait" "fw_chunk_num th < fw_chunk_quantity n" "fw_chunk_num th \<noteq> 0"
    and "unat (fw_error_counter n) + k \<le> 6"
  shows "\<exists>n'. fw_timers E True (2 * k) th n = Some (th, n') \<and> dev n' = dev n \<and> node_up n' = node_up n \<and>
    node_mode n' = node_mode n \<and> root_addr n' = root_addr n \<and> fw_chunk_quantity n' = fw_chunk_quantity n \<and>
    unat (fw_error_counter n') = unat (fw_error_counter n) + k \<and>
    node_events n' = node_events n @ replicate k (Node_Udp (root_addr n) (chunk_request E (fw_chunk_num th - 1)))"
  using assms
proof (induction k arbitrary: n)
  case (Suc k)
  let ?n = "send_fw_chunk_req_packet E (fw_chunk_num th - 1) (n\<lparr>fw_error_counter := fw_error_counter n + 1\<rparr>)"
  have small: "fw_error_counter n \<le> 5" using Suc.prems(4) by (simp add: word_le_nat_alt)
  have inc: "unat (fw_error_counter n + 1) = Suc (unat (fw_error_counter n))"
    using Suc.prems(4) by (simp add: unat_add_lem [THEN iffD1])
  note round = silent_round [OF Suc.prems(1,2) small Suc.prems(3), of E]
  have split: "2 * Suc k = 2 + 2 * k" by simp
  show ?case
    unfolding split fw_timers_add round
    using Suc.IH [of ?n] Suc.prems inc
    by (simp add: send_fw_chunk_req_packet_def node_sendto_def chunk_request_def)
qed simp

lemma silent_end:
  assumes "fw_pc th = Fw_Chunk_Wait" "fw_chunk_num th < fw_chunk_quantity n" "unat (fw_error_counter n) = 6"
  shows "fw_timers E True 1 th n = Some (th\<lparr>fw_chunk_num := 0, fw_pc := Fw_Ended\<rparr>,
    (process_exit fw_update_process
       (send_message_packet E DEVICE_MESSAGE_OTA_NOT_DELIVERED_CHUNK DATA_RESERVED DATA_RESERVED n))
    \<lparr>fw_error_counter := 0\<rparr>)"
  using assms by (simp add: fw_update_step_def fw_chunk_arrived_def FW_MAX_ERROR_COUNTER_def word_less_nat_alt)

lemma last_chunk_round:
  assumes "fw_pc th = Fw_Chunk_Wait" "\<not> fw_chunk_num th < fw_chunk_quantity n"
  shows "fw_timers E True 2 th n = download_end E (th\<lparr>fw_pc := Fw_Chunk_Delay\<rparr>) (n\<lparr>fw_error_counter := 0\<rparr>)"
  using assms
  by (cases "fw_verify E (n\<lparr>fw_error_counter := 0\<rparr>)")
    (simp_all add: numeral_2_eq_2 fw_update_step_def fw_chunk_arrived_def fw_loop_def download_end_def)

section \<open>The image that a download leaves\<close>

definition downloaded :: "(bytes \<times> bytes) list \<Rightarrow> bytes" where
  "downloaded cs = concat (map snd cs) @ replicate (image_bytes - length (concat (map snd cs))) 0xFF"

definition after_download :: "nat \<Rightarrow> (bytes \<times> bytes) list \<Rightarrow> mem \<Rightarrow> mem" where
  "after_download s cs x = put_bytes 0x32000 (concat (map snd cs)) (erase_sectors s 0x32000 25 x)"

lemma after_download_at:
  assumes "0 < s" "4096 dvd s" "0x32000 \<le> a" "a < 0x32000 + image_bytes"
  shows "after_download s cs x a = (if a - 0x32000 < length (concat (map snd cs)) then concat (map snd cs) ! (a - 0x32000) else 0xFF)"
  using erase_sectors_range [OF assms(1,2), of "0x32000" a 25 x] assms(3,4)
  by (simp add: after_download_def put_bytes_def image_bytes_def less_diff_conv2 del: erase_sectors.simps)

text \<open>Outside the blocks that the units of the slot start in, a download changes nothing.\<close>

lemma after_download_outside:
  assumes "0 < s" "4096 dvd s" "length (concat (map snd cs)) \<le> image_bytes"
    and "\<forall>i<25. (0x32000 + 4096 * i) div s \<noteq> a div s"
  shows "after_download s cs x a = x a"
proof -
  have "\<not> (0x32000 \<le> a \<and> a < 0x32000 + image_bytes)"
    using erased_block [OF assms(1,2), of "0x32000" a 25] assms(4) by (auto simp: image_bytes_def)
  then show ?thesis
    using assms(3,4) by (auto simp: after_download_def put_bytes_def erase_sectors_at [OF assms(1)] simp del: erase_sectors.simps)
qed

lemma length_chunks:
  "\<forall>(numbers, chunk)\<in>set cs. length numbers = 4 \<and> length chunk = k \<Longrightarrow>
     length (concat (map snd cs)) = k * length cs"
  by (induction cs) auto

lemma slot_image_downloaded:
  assumes "0 < s" "4096 dvd s" "length (concat (map snd cs)) \<le> image_bytes"
  shows "slot_image (after_download s cs x) 1 = downloaded cs"
  using assms(3)
  by (intro nth_equalityI)
    (auto simp: slot_image_def slot_1_addr downloaded_def after_download_at [OF assms(1,2)] nth_append)

lemma slot_code_image: "slot_code x s = drop 256 (slot_image x s)"
  by (rule nth_equalityI) (simp_all add: slot_code_def slot_image_def add.assoc)

lemma slot_metadata_image: "slot_metadata x s = metadata_of_bytes (take OTA_METADATA_LENGTH (slot_image x s))"
proof -
  have "take OTA_METADATA_LENGTH (slot_image x s) = read_mem x (slot_addr s) OTA_METADATA_LENGTH"
    by (rule nth_equalityI) (simp_all add: slot_image_def OTA_METADATA_LENGTH_def image_bytes_def)
  then show ?thesis by (simp add: slot_metadata_def)
qed

lemma images_fit_outside:
  "outside_user m = outside_user m' \<Longrightarrow> images_fit m x = images_fit m' x"
  using running_image_parts(3) [OF outside_user_image, of m m']
  by (simp add: images_fit_def sizes_ok_def running_size_def)

section \<open>The first join of a new image\<close>

definition golden_bad :: "mem \<Rightarrow> bool" where
  "golden_bad x \<longleftrightarrow> om_crc_shadow (slot_metadata x 0) \<noteq>
     image_crc (read_mem x 0x19100 (4 * crc_words 0x19100 (om_size (slot_metadata x 0))))"

lemma node_radio_fields [simp]:
  "dev (node_net_off E m n) = dev n" "node_up (node_net_off E m n) = node_up n"
  "node_mode (node_net_off E m n) = node_mode n" "spi_status (node_net_off E m n) = spi_status n"
  "dev (node_net_mode E m n) = dev n" "node_up (node_net_mode E m n) = node_up n"
  "node_mode (node_net_mode E m n) = node_mode n" "spi_status (node_net_mode E m n) = spi_status n"
  by (simp_all add: node_net_off_def node_net_mode_def)

context flash_board begin

lemma joined_ok:
  assumes "closed (dev n)" "ne_flash E = F" "ne_ti E = ti" "0 < sector" "4096 dvd sector" "node_up n"
    and "spi_status n = SPI_EXT_FLASH_ACTIVE" "stored_flag (imem (dev n)) = FW_FLAG_NEW_IMG_INT"
    and "0x19100 + 4 * crc_words 0x19100 (om_size (slot_metadata (xmem (dev n)) 0)) \<le> ext_flash_size"
  shows "\<exists>n'. dag_node_joined E n = Some n' \<and> closed (dev n') \<and>
    (if golden_bad (xmem (dev n))
     then \<not> node_up n' \<and> last (node_events n') = Watchdog_Reboot \<and> imem (dev n') = imem (dev n) \<and>
       xmem (dev n') = put_bytes 0x19000 (running_image (imem (dev n))) (erase_sectors sector 0x19000 25 (xmem (dev n)))
     else node_up n' \<and> node_mode n' = MODE_NEED_REBOOT \<and> maintenance_process \<in> running n' \<and>
       xmem (dev n') = xmem (dev n) \<and> outside_user (imem (dev n')) = outside_user (imem (dev n)) \<and>
       stored_flag (imem (dev n')) = FW_FLAG_PING_OK)"
proof -
  let ?x = "xmem (dev n)" and ?m = "imem (dev n)"
  have addr: "(of_nat (slot_addr 0) + OTA_METADATA_SPACE :: u32) = 0x19100" "slot_addr 0 + 256 = 0x19100"
    by (simp_all add: slot_addr_def OTA_METADATA_SPACE_def)
  obtain d1 where d1: "verify_ota_slot F (ne_junk E) 0 (dev n) =
      Some (if golden_bad ?x then VERIFY_SLOT_CRC_ERROR else VERIFY_SLOT_OK, d1)"
    "closed d1" "xmem d1 = ?x" "imem d1 = ?m"
    using verify_slot_ok [OF assms(1), of 0 "ne_junk E"] assms(9) unfolding addr
    by (auto simp: golden_bad_def)
  obtain d2 where d2: "backup_golden_image F ti d1 = Some (0, d2)" "closed d2" "imem d2 = ?m"
    "xmem d2 = put_bytes 0x19000 (running_image ?m) (erase_sectors sector 0x19000 25 ?x)"
    using backup_copies [OF assms(4,5) d1(2)] d1 by (auto simp del: erase_sectors.simps)
  have valid: "fw_flag_valid FW_FLAG_NEW_IMG_INT" "fw_flag_valid FW_FLAG_PING_OK" by (simp_all add: fw_flag_valid_def)
  obtain d3 where d3: "read_fw_flag ti d1 = Some (FW_FLAG_NEW_IMG_INT, d3)" "closed d3"
    "outside_user (imem d3) = outside_user ?m" "xmem d3 = ?x"
    using read_flag_ok [OF d1(2)] d1 assms(8) valid by auto
  obtain d4 where d4: "write_fw_flag ti FW_FLAG_PING_OK d3 = Some (FLAG_OK_WRITE, d4)" "closed d4"
    "stored_flag (imem d4) = FW_FLAG_PING_OK" "outside_user (imem d4) = outside_user ?m" "xmem d4 = ?x"
    using write_flag_ok [OF d3(2) valid(2)] d3 by auto
  show ?thesis
    using assms(2,3,6,7) d1 d2 d3 d4
    by (cases "golden_bad ?x")
      (simp_all del: erase_sectors.simps add: dag_node_joined_def dag_node_golden_def dag_node_confirm_def on_dev_def process_start_def
        process_exit_def watchdog_reboot_def VERIFY_SLOT_OK_def VERIFY_SLOT_CRC_ERROR_def Let_def)
qed

end

lemma slot_0_after_backup:
  "slot_image (put_bytes 0x19000 (running_image m) x) 0 = running_image m"
  by (intro nth_equalityI)
    (auto simp: slot_image_def slot_addr_def running_image_def put_bytes_def)

lemma running_code_image: "running_code m = drop 256 (running_image m)"
  by (rule nth_equalityI) (simp_all add: running_code_def running_image_def image_bytes_def)

end
