(* ===== verification/Node_Laws.thy ===== *)
theory Node_Laws
  imports Ota_Download
begin

text \<open>
  Laws of a whole node: the invariant \<open>node_ok\<close> of its variables under every packet, timer and
  event, and what a received packet can do to the flashes.
\<close>

section \<open>The variables of a node\<close>

definition node_ok :: "'d node \<Rightarrow> bool" where
  "node_ok n \<longleftrightarrow> node_mode n \<le> MODE_NEED_REBOOT \<and> led_mode n \<le> LED_FAST_BLINK \<and>
     fw_error_counter n \<le> FW_MAX_ERROR_COUNTER + 1 \<and>
     length (msg_payload (message_for_main_process n)) = 16 \<and>
     msg_uart_returned_data_length (message_for_main_process n) \<le> 16"

text \<open>The variables at power-up; the board and its radio are as they are.\<close>

definition node_init :: "'d \<Rightarrow> radio \<Rightarrow> 'd node" where
  "node_init d rad = \<lparr>dev = d, node_up = True, node_mode = 0, spi_status = 0,
     led_mode = LED_OFF, led_a = False, non_answered_packet = 0, root_addr = replicate 16 0,
     message_for_main_process = \<lparr>msg_data_type = 0, msg_protocol_version = 0, msg_device_version = 0,
       msg_ability_target = 0, msg_ability_number = 0, msg_ability_state = 0,
       msg_uart_returned_data_length = 0, msg_uart_data_length = 0, msg_ready_to_send = 0,
       msg_payload = replicate 16 0\<rparr>,
     fw_chunk_quantity = 0, fw_error_counter = 0, ota_image_current_offset = 0, node_epoch = epoch_init,
     radio = rad, running = {}, node_events = []\<rparr>"

inductive node_step :: "'d node_env \<Rightarrow> 'd node \<Rightarrow> 'd node \<Rightarrow> bool" for E where
  power_up: "dag_node_start E n = Some n' \<Longrightarrow> node_step E n n'"
| joined: "dag_node_joined E n = Some n' \<Longrightarrow> node_step E n n'"
| packet: "udp_receiver E c a data len n = Some n' \<Longrightarrow> node_step E n n'"
| maintenance: "node_step E n (snd (maintenance_step E pc n))"
| status: "node_step E n (status_send_step E c dag temp volt n)"
| root_find: "node_step E n (root_find_step E expired dag_id n)"
| update_start: "fw_start E th n = Some (th', n') \<Longrightarrow> node_step E n n'"
| update: "fw_update_step E deadline th n = Some (th', n') \<Longrightarrow> node_step E n n'"
| clock: "node_step E n (send_time_sync_req_packet E c n)"
| sensor: "node_step E n (send_sensor_event E packet n)"
| uart: "node_step E n (send_uart_data E m n)"
| button: "node_step E n (dag_node_button_step long n)"
| led_on: "node_step E n (snd (led_on_step n))"
| led_off: "node_step E n (snd (led_off_step n))"

inductive node_reach :: "'d node_env \<Rightarrow> 'd node \<Rightarrow> bool" for E where
  init: "node_reach E (node_init d rad)"
| step: "node_reach E n \<Longrightarrow> node_step E n n' \<Longrightarrow> node_reach E n'"

lemma node_ok_init: "node_ok (node_init d rad)"
  by (simp add: node_ok_def node_init_def node_consts FW_MAX_ERROR_COUNTER_def)

text \<open>Operations that touch none of these variables.\<close>

lemma node_ok_other [simp]:
  "node_ok (node_emit ev n) = node_ok n" "node_ok (process_start p n) = node_ok n"
  "node_ok (process_exit p n) = node_ok n" "node_ok (node_net_on E m n) = node_ok n"
  "node_ok (node_net_off E m n) = node_ok n" "node_ok (node_net_mode E m n) = node_ok n"
  "node_ok (watchdog_reboot n) = node_ok n" "node_ok (system_reset n) = node_ok n"
  "node_ok (n\<lparr>dev := d\<rparr>) = node_ok n" "node_ok (n\<lparr>root_addr := a\<rparr>) = node_ok n"
  "node_ok (n\<lparr>spi_status := s\<rparr>) = node_ok n" "node_ok (n\<lparr>led_a := l\<rparr>) = node_ok n"
  "node_ok (n\<lparr>node_epoch := e\<rparr>) = node_ok n" "node_ok (n\<lparr>non_answered_packet := k\<rparr>) = node_ok n"
  "node_ok (n\<lparr>fw_chunk_quantity := q\<rparr>) = node_ok n" "node_ok (n\<lparr>ota_image_current_offset := off\<rparr>) = node_ok n"
  by (simp_all add: node_ok_def node_emit_def process_start_def process_exit_def node_net_on_def node_net_off_def
      node_net_mode_def watchdog_reboot_def system_reset_def)

lemma node_ok_sendto [simp]:
  "node_ok (node_sendto a p n) = node_ok n" "node_ok (send_message_packet E t x y n) = node_ok n"
  "node_ok (send_join_packet E dest n) = node_ok n" "node_ok (send_fw_chunk_req_packet E k n) = node_ok n"
  "node_ok (send_time_sync_req_packet E c n) = node_ok n"
  by (auto simp: node_sendto_def send_message_packet_def send_join_packet_def send_fw_chunk_req_packet_def
      send_time_sync_req_packet_def Let_def split: option.split)

lemma led_values [simp]:
  "LED_OFF \<le> LED_FAST_BLINK" "LED_ON \<le> LED_FAST_BLINK" "LED_FLASH \<le> LED_FAST_BLINK"
  "LED_SLOW_BLINK \<le> LED_FAST_BLINK" "LED_FAST_BLINK \<le> LED_FAST_BLINK"
  by (simp_all add: node_consts)

lemma node_ok_led: "node_ok n \<Longrightarrow> m \<le> LED_FAST_BLINK \<Longrightarrow> node_ok (led_mode_set m n)"
  by (simp add: led_mode_set_def Let_def node_ok_def process_start_def process_exit_def)

lemma node_ok_mode:
  "node_ok n \<Longrightarrow> m \<le> MODE_NEED_REBOOT \<Longrightarrow> node_ok (n\<lparr>node_mode := m\<rparr>)"
  "node_ok n \<Longrightarrow> k \<le> FW_MAX_ERROR_COUNTER + 1 \<Longrightarrow> node_ok (n\<lparr>fw_error_counter := k\<rparr>)"
  by (simp_all add: node_ok_def)

lemma mode_values [simp]:
  "MODE_NORMAL \<le> MODE_NEED_REBOOT" "MODE_NOTROOT \<le> MODE_NEED_REBOOT" "MODE_JOIN_PROGRESS \<le> MODE_NEED_REBOOT"
  by (simp_all add: node_consts)

lemma node_ok_dev:
  "on_dev f n = Some (x, n') \<Longrightarrow> node_ok n \<Longrightarrow> node_ok n'"
  "on_dev_do g n = Some n' \<Longrightarrow> node_ok n \<Longrightarrow> node_ok n'"
  by (auto simp: on_dev_def on_dev_do_def)

lemma node_ok_while: "node_ok n \<Longrightarrow> (node_ok n \<Longrightarrow> node_ok (f n)) \<Longrightarrow> node_ok (while_up f n)"
  by (simp add: while_up_def)

lemma handlers_keep:
  assumes "node_ok n"
  shows "node_ok (join_confirm_handler a data len n)" "node_ok (command_settings_handler a data len n)"
    "node_ok (uart_packet_handler a data len n)" "node_ok (pong_handler E a data len n)"
    "node_ok (shedule_data_handler data len n)" "node_ok (node_time_data_handler E c data len n)"
    "node_ok (firmware_cmd_new_fw_handler E a data len n)"
    and "firmware_data_handler E a data len n = Some n' \<Longrightarrow> node_ok n'"
    and "firmware_cmd_dispatch E a data len n = Some n' \<Longrightarrow> node_ok n'"
proof -
  show "node_ok (join_confirm_handler a data len n)" "node_ok (pong_handler E a data len n)"
    "node_ok (shedule_data_handler data len n)" using assms
    by (simp_all add: join_confirm_handler_def pong_handler_def shedule_data_handler_def)
  show "node_ok (command_settings_handler a data len n)" "node_ok (uart_packet_handler a data len n)"
    using assms by (auto simp: command_settings_handler_def uart_packet_handler_def node_ok_def node_emit_def not_less)
  show "node_ok (node_time_data_handler E c data len n)"
    using assms by (simp add: node_time_data_handler_def Let_def split: prod.split option.split)
  show new_fw: "node_ok (firmware_cmd_new_fw_handler E a data len n)"
    using assms by (simp add: firmware_cmd_new_fw_handler_def Let_def)
  have small: "0 \<le> FW_MAX_ERROR_COUNTER + 1" by simp
  show "firmware_data_handler E a data len n = Some n' \<Longrightarrow> node_ok n'"
    unfolding firmware_data_handler_def Let_def
    using node_ok_dev(2) node_ok_mode(2) [OF assms small] by (auto split: bind_splits)
  show "firmware_cmd_dispatch E a data len n = Some n' \<Longrightarrow> node_ok n'"
    using assms new_fw
    by (auto simp: firmware_cmd_dispatch_def Let_def split: if_splits dest!: node_ok_dev(1))
qed

lemma packet_keeps:
  assumes "node_ok n" "udp_receiver E c a data len n = Some n'"
  shows "node_ok n'"
proof -
  have "node_ok m" if "packet_dispatch E c a data len n = Some m" for m
    using that handlers_keep [OF assms(1)] assms(1)
    by (auto simp: packet_dispatch_def Let_def split: if_splits)
  then show ?thesis
    using assms by (auto simp: udp_receiver_def split: if_splits bind_splits intro!: node_ok_while node_ok_led)
qed

text \<open>The other steps, one after the other.\<close>

lemma maintenance_parts_keep:
  assumes "node_ok n"
  shows "node_ok (maintenance_normal n)" "node_ok (maintenance_notroot E n)" "node_ok (maintenance_join E n)"
proof -
  have run: "node_ok (stop_running p k) = node_ok k" "node_ok (start_stopped p k) = node_ok k" for p k
    by (simp_all add: stop_running_def start_stopped_def)
  have led: "node_ok (led_mode_set LED_OFF n)" "node_ok (led_mode_set LED_FAST_BLINK n)"
    using assms by (simp_all add: node_ok_led)
  have slow: "node_ok (led_mode_set LED_SLOW_BLINK (node_net_mode E RADIO_HOLD (node_net_on E RADIO_ON_NORMAL n)))"
    using assms by (simp add: node_ok_led)
  show "node_ok (maintenance_normal n)" using assms led by (simp add: maintenance_normal_def Let_def run)
  show "node_ok (maintenance_notroot E n)"
    using assms led by (simp add: maintenance_notroot_def Let_def run node_ok_led)
  show "node_ok (maintenance_join E n)" using assms slow by (simp add: maintenance_join_def Let_def run)
qed

lemma maintenance_keeps: "node_ok n \<Longrightarrow> node_ok (snd (maintenance_step E pc n))"
  by (cases pc) (simp_all add: maintenance_step_def maintenance_round_def maintenance_parts_keep node_ok_while)

lemma status_keeps: "node_ok n \<Longrightarrow> node_ok (status_send_step E c dag temp volt n)"
  by (auto simp: status_send_step_def send_status_packet_def Let_def split: option.split intro!: node_ok_led)

lemma root_find_keeps: "node_ok n \<Longrightarrow> node_ok (root_find_step E expired dag_id n)"
  by (auto simp: root_find_step_def split: option.split intro!: node_ok_led node_ok_mode)

lemma sensor_keeps: "node_ok n \<Longrightarrow> node_ok (send_sensor_event E p n)" "node_ok n \<Longrightarrow> node_ok (send_uart_data E m n)"
  by (auto simp: send_sensor_event_def send_uart_data_def split: option.split intro!: node_ok_led)

lemma led_steps_keep: "node_ok n \<Longrightarrow> node_ok (snd (led_on_step n))" "node_ok n \<Longrightarrow> node_ok (snd (led_off_step n))"
  by (auto simp: led_on_step_def led_off_step_def led_loop_def Let_def node_ok_def process_exit_def)

lemma update_keeps:
  assumes "node_ok n"
  shows "fw_start E th n = Some (th', n') \<Longrightarrow> node_ok n'"
    and "fw_update_step E deadline th n = Some (th', n') \<Longrightarrow> node_ok n'"
proof -
  have erase: "node_ok n'" if "fw_erase_page E th n = Some (th', n')" for th th' n'
    using that assms by (auto simp: fw_erase_page_def split: bind_splits dest!: node_ok_dev)
  then show "fw_start E th n = Some (th', n') \<Longrightarrow> node_ok n'" by (simp add: fw_start_def)
  have zero: "0 \<le> FW_MAX_ERROR_COUNTER + 1" by simp
  have verify: "node_ok n'" if "fw_verify E (n\<lparr>fw_error_counter := 0\<rparr>) = Some n'" for n'
    using that node_ok_mode(2) [OF assms zero]
    by (auto simp: fw_verify_def split: bind_splits prod.splits if_splits dest!: node_ok_dev)
  have loop: "node_ok n'" if "fw_loop E th n = Some (th', n')" for th th' n'
    using that assms verify by (auto simp: fw_loop_def split: if_splits bind_splits intro!: node_ok_while)
  have "fw_error_counter n \<le> 5 \<Longrightarrow> fw_error_counter n + 1 \<le> (6 :: u8)"
    by (simp add: word_le_nat_alt unat_add_lem [THEN iffD1])
  then have chunk: "node_ok (snd (fw_chunk_arrived E deadline th n))"
    using assms by (auto simp: fw_chunk_arrived_def FW_MAX_ERROR_COUNTER_def not_less intro: node_ok_mode)
  show "fw_update_step E deadline th n = Some (th', n') \<Longrightarrow> node_ok n'"
    using assms erase loop chunk
    by (auto simp: fw_update_step_def Let_def split: fw_pc.splits if_splits)
qed

lemma power_up_keeps: "node_ok n \<Longrightarrow> dag_node_start E n = Some n' \<Longrightarrow> node_ok n'"
  by (auto simp: dag_node_start_def Let_def split: bind_splits dest!: node_ok_dev intro: node_ok_mode)

lemma joined_keeps:
  assumes "node_ok n" "dag_node_joined E n = Some n'"
  shows "node_ok n'"
proof -
  have golden: "node_ok b" if "dag_node_golden E a = Some b" "node_ok a" for a b
    using that by (auto simp: dag_node_golden_def Let_def split: if_splits bind_splits prod.splits dest!: node_ok_dev)
  have confirm: "node_ok b" if "dag_node_confirm E a = Some b" "node_ok a" for a b
    using that
    by (auto simp: dag_node_confirm_def Let_def split: if_splits bind_splits prod.splits dest!: node_ok_dev
        intro!: node_ok_mode)
  have "node_ok ((led_mode_set LED_SLOW_BLINK n)\<lparr>node_mode := MODE_NORMAL\<rparr>)"
    using assms(1) by (intro node_ok_mode node_ok_led) simp_all
  then show ?thesis
    using assms(2)
    by (auto simp: dag_node_joined_def Let_def split: if_splits bind_splits dest!: golden dest: confirm)
qed

lemma node_step_keeps: "node_step E n n' \<Longrightarrow> node_ok n \<Longrightarrow> node_ok n'"
proof (induction rule: node_step.induct)
  case (button n long)
  then show ?case by (simp add: dag_node_button_step_def node_ok_led)
next
  case (clock n c)
  then show ?case by simp
qed (rule power_up_keeps joined_keeps packet_keeps maintenance_keeps status_keeps root_find_keeps update_keeps
    sensor_keeps led_steps_keep; assumption)+

lemma node_reach_ok: "node_reach E n \<Longrightarrow> node_ok n"
  by (induction rule: node_reach.induct) (auto intro: node_ok_init node_step_keeps)

section \<open>Packets and the flashes\<close>

lemma handlers_dev [simp]:
  "dev (join_confirm_handler a data len n) = dev n" "dev (command_settings_handler a data len n) = dev n"
  "dev (uart_packet_handler a data len n) = dev n" "dev (pong_handler E a data len n) = dev n"
  "dev (shedule_data_handler data len n) = dev n" "dev (node_time_data_handler E c data len n) = dev n"
  "dev (firmware_cmd_new_fw_handler E a data len n) = dev n" "dev (send_time_sync_req_packet E c n) = dev n"
  "dev (watchdog_reboot n) = dev n" "dev (while_up (led_mode_set m) n) = dev n"
  by (simp_all add: join_confirm_handler_def command_settings_handler_def uart_packet_handler_def pong_handler_def
      shedule_data_handler_def node_time_data_handler_def firmware_cmd_new_fw_handler_def process_start_def
      send_time_sync_req_packet_def node_sendto_def node_net_on_def watchdog_reboot_def while_up_def Let_def
      split: prod.split option.split)

text \<open>\<open>CLEAN_GI\<close> and \<open>FLASH_GI\<close> have the same number, so the second is never executed.\<close>

lemma flash_gi_is_clean_gi: "DATA_TYPE_FIRMWARE_COMMAND_FLASH_GI = DATA_TYPE_FIRMWARE_COMMAND_CLEAN_GI"
  by (simp add: protocol_consts)

context flash_board begin

lemma chunk_written:
  assumes "closed (dev n)" "ne_flash E = F" "ne_ti E = ti"
    and "unat (ota_image_current_offset n) + 0x32000 + 600 \<le> ext_flash_size"
  shows "\<exists>n'. firmware_data_handler E a data len n = Some n' \<and> closed (dev n') \<and> imem (dev n') = imem (dev n)"
proof -
  let ?bs = "map (\<lambda>i. data (i + FIRMWARE_PAYLOAD_OFFSET)) [0..<FIRMWARE_PAYLOAD_LENGTH]"
  have "unat (ota_slot_1_address (ota_image_current_offset n)) = 0x32000 + unat (ota_image_current_offset n)"
    using assms(4) by (simp add: ota_slot_1_address_def ota_images_def ext_flash_size_def unat_word_ariths)
  then obtain d where "store_firmware_data F ti (ota_slot_1_address (ota_image_current_offset n)) ?bs (dev n) = Some (0, d)"
    "closed d" "imem d = imem (dev n)"
    using store_ok [OF assms(1), of "ota_slot_1_address (ota_image_current_offset n)" ?bs] assms(4)
    by (auto simp: FIRMWARE_PAYLOAD_LENGTH_def)
  then show ?thesis
    unfolding firmware_data_handler_def Let_def using assms(2,3) by (simp add: on_dev_do_def while_nonzero_ok)
qed

lemma packet_flash:
  assumes "closed (dev n)" "ne_flash E = F" "ne_ti E = ti"
    and "unat (ota_image_current_offset n) + 0x32000 + 600 \<le> ext_flash_size"
  shows "\<exists>n'. udp_receiver E c a data len n = Some n' \<and> closed (dev n') \<and> imem (dev n') = imem (dev n) \<and>
    (data 0 = PROTOCOL_VERSION_V1 \<and> data 1 = cfg_device_version (ne_cfg E) \<and> data 2 = DATA_TYPE_FIRMWARE_CMD \<and>
     data 3 = DATA_TYPE_FIRMWARE_COMMAND_FLASH_GI \<longrightarrow>
       xmem (dev n') = erase_sectors sector 0x19000 25 (xmem (dev n)))"
proof -
  obtain d where d: "erase_ota_image F ti 0 (dev n) = Some (0, d)" "closed d" "imem d = imem (dev n)"
    "xmem d = erase_sectors sector 0x19000 25 (xmem (dev n))"
    using erase_image_ok [OF assms(1), of 0] by (auto simp: slot_addr_def)
  have cmd: "\<exists>n'. firmware_cmd_dispatch E a data len n = Some n' \<and> closed (dev n') \<and> imem (dev n') = imem (dev n) \<and>
      (data 3 = DATA_TYPE_FIRMWARE_COMMAND_FLASH_GI \<longrightarrow> xmem (dev n') = erase_sectors sector 0x19000 25 (xmem (dev n)))"
    using assms(1-3) d
    by (simp add: firmware_cmd_dispatch_def Let_def on_dev_def flash_gi_is_clean_gi protocol_consts)
  obtain n1 where fw: "firmware_data_handler E a data len n = Some n1" "closed (dev n1)" "imem (dev n1) = imem (dev n)"
    using chunk_written [OF assms] by blast
  have "\<exists>n'. packet_dispatch E c a data len n = Some n' \<and> closed (dev n') \<and> imem (dev n') = imem (dev n) \<and>
      (data 2 = DATA_TYPE_FIRMWARE_CMD \<and> data 3 = DATA_TYPE_FIRMWARE_COMMAND_FLASH_GI \<longrightarrow>
         xmem (dev n') = erase_sectors sector 0x19000 25 (xmem (dev n)))"
  proof (cases "data 2 = DATA_TYPE_FIRMWARE_CMD")
    case True
    then show ?thesis using cmd by (simp add: packet_dispatch_def protocol_consts Let_def)
  next
    case False
    then show ?thesis using fw assms(1) by (simp add: packet_dispatch_def Let_def)
  qed
  then show ?thesis using assms(1) by (auto simp: udp_receiver_def Let_def)
qed

end

section \<open>Unanswered packets\<close>

lemma status_counts:
  assumes "node_up n" "node_mode n = MODE_NORMAL" "rv_reachable view"
  shows "node_up (status_send_step E c (Some view) temp volt n)"
    "node_mode (status_send_step E c (Some view) temp volt n) = MODE_NORMAL"
    "non_answered_packet (status_send_step E c (Some view) temp volt n) = 1 + non_answered_packet n"
  using assms
  by (auto simp: status_send_step_def send_status_packet_def node_sendto_def node_net_on_def node_emit_def
      led_mode_set_def process_start_def process_exit_def Let_def split: option.split)

lemma maintenance_counts:
  assumes "node_up n" "node_mode n = MODE_NORMAL"
  shows "node_up (snd (maintenance_step E Maintenance_Wait n)) \<longleftrightarrow> \<not> non_answered_packet n > MAX_NON_ANSWERED_PINGS"
  using assms
  by (auto simp: maintenance_step_def maintenance_round_def maintenance_normal_def maintenance_notroot_def
      maintenance_join_def while_up_def stop_running_def start_stopped_def watchdog_reboot_def led_mode_set_def
      process_start_def process_exit_def node_consts Let_def)

end
