(* ===== verification/Relay.thy ===== *)
theory Relay
  imports Dag_Node
begin

text \<open>
  The relay device, \<open>unwired/smarthome/relay.c\<close>: two relays on GPIO pins, their last states
  and start settings in the user flash. The driver library is the parameter \<open>ti\<close>; the
  messages come from the node in \<open>message_for_main_process\<close>. A locale states what the
  device relies on: the internal flash and the output pins.
\<close>

section \<open>Constants\<close>

definition BOARD_IOID_RELAY_1 :: u8 where "BOARD_IOID_RELAY_1 = 17"
definition BOARD_IOID_RELAY_2 :: u8 where "BOARD_IOID_RELAY_2 = 16"
definition DEVICE_ABILITY_RELAY :: u8 where "DEVICE_ABILITY_RELAY = 17"
definition DEVICE_ABILITY_RELAY_1 :: u8 where "DEVICE_ABILITY_RELAY_1 = 0x01"
definition DEVICE_ABILITY_RELAY_2 :: u8 where "DEVICE_ABILITY_RELAY_2 = 0x02"
definition DEVICE_ABILITY_RELAY_COMMAND_OFF :: u8 where "DEVICE_ABILITY_RELAY_COMMAND_OFF = 0x00"
definition DEVICE_ABILITY_RELAY_COMMAND_ON :: u8 where "DEVICE_ABILITY_RELAY_COMMAND_ON = 0x01"
definition DEVICE_ABILITY_RELAY_COMMAND_TOGGLE :: u8 where "DEVICE_ABILITY_RELAY_COMMAND_TOGGLE = 0x80"
definition DEVICE_ABILITY_RELAY_1_SETTINGS_START_STATE :: u8 where
  "DEVICE_ABILITY_RELAY_1_SETTINGS_START_STATE = 0x01"
definition DEVICE_ABILITY_RELAY_2_SETTINGS_START_STATE :: u8 where
  "DEVICE_ABILITY_RELAY_2_SETTINGS_START_STATE = 0x02"
definition START_ON_LAST_STATE :: u8 where "START_ON_LAST_STATE = 0x01"
definition START_ON_ON_STATE :: u8 where "START_ON_ON_STATE = 0x02"
definition START_ON_OFF_STATE :: u8 where "START_ON_OFF_STATE = 0x03"
definition POWER_1_CH_LAST_STATE_OFFSET :: u8 where "POWER_1_CH_LAST_STATE_OFFSET = 0x01"
definition POWER_1_CH_START_STATE_OFFSET :: u8 where "POWER_1_CH_START_STATE_OFFSET = 0x02"
definition POWER_2_CH_LAST_STATE_OFFSET :: u8 where "POWER_2_CH_LAST_STATE_OFFSET = 0x03"
definition POWER_2_CH_START_STATE_OFFSET :: u8 where "POWER_2_CH_START_STATE_OFFSET = 0x04"

lemmas relay_consts = BOARD_IOID_RELAY_1_def BOARD_IOID_RELAY_2_def DEVICE_ABILITY_RELAY_def
  DEVICE_ABILITY_RELAY_1_def DEVICE_ABILITY_RELAY_2_def DEVICE_ABILITY_RELAY_COMMAND_OFF_def
  DEVICE_ABILITY_RELAY_COMMAND_ON_def DEVICE_ABILITY_RELAY_COMMAND_TOGGLE_def
  DEVICE_ABILITY_RELAY_1_SETTINGS_START_STATE_def DEVICE_ABILITY_RELAY_2_SETTINGS_START_STATE_def
  START_ON_LAST_STATE_def START_ON_ON_STATE_def START_ON_OFF_STATE_def
  POWER_1_CH_LAST_STATE_OFFSET_def POWER_1_CH_START_STATE_OFFSET_def
  POWER_2_CH_LAST_STATE_OFFSET_def POWER_2_CH_START_STATE_OFFSET_def

record 'd relay =
  relay_dev :: 'd
  relay_1_state :: u8
  relay_2_state :: u8

section \<open>States in the user flash\<close>

definition set_start_state_flash :: "'d ti \<Rightarrow> u8 \<Rightarrow> u8 \<Rightarrow> 'd \<Rightarrow> 'd option" where
  "set_start_state_flash ti dio_number dio_state d = do {
     d \<leftarrow> (if dio_number = BOARD_IOID_RELAY_1
           then user_flash_update_byte ti POWER_1_CH_START_STATE_OFFSET dio_state d else Some d);
     if dio_number = BOARD_IOID_RELAY_2
     then user_flash_update_byte ti POWER_2_CH_START_STATE_OFFSET dio_state d else Some d }"

definition get_start_state_flash :: "'d ti \<Rightarrow> u8 \<Rightarrow> 'd \<Rightarrow> (u8 \<times> 'd) option" where
  "get_start_state_flash ti dio_number d = do {
     (state, d) \<leftarrow> (if dio_number = BOARD_IOID_RELAY_1
                    then user_flash_read_byte ti POWER_1_CH_START_STATE_OFFSET d else Some (0xFF, d));
     (state, d) \<leftarrow> (if dio_number = BOARD_IOID_RELAY_2
                    then user_flash_read_byte ti POWER_2_CH_START_STATE_OFFSET d else Some (state, d));
     Some (if state = 0xFF then START_ON_LAST_STATE else state, d) }"

definition set_last_state_flash :: "'d ti \<Rightarrow> u8 \<Rightarrow> u8 \<Rightarrow> 'd \<Rightarrow> 'd option" where
  "set_last_state_flash ti dio_number dio_state d = do {
     d \<leftarrow> (if dio_number = BOARD_IOID_RELAY_1
           then user_flash_update_byte ti POWER_1_CH_LAST_STATE_OFFSET dio_state d else Some d);
     if dio_number = BOARD_IOID_RELAY_2
     then user_flash_update_byte ti POWER_2_CH_LAST_STATE_OFFSET dio_state d else Some d }"

definition get_last_state_flash :: "'d ti \<Rightarrow> u8 \<Rightarrow> 'd \<Rightarrow> (u8 \<times> 'd) option" where
  "get_last_state_flash ti dio_number d = do {
     (state, d) \<leftarrow> (if dio_number = BOARD_IOID_RELAY_1
                    then user_flash_read_byte ti POWER_1_CH_LAST_STATE_OFFSET d else Some (0xFF, d));
     (state, d) \<leftarrow> (if dio_number = BOARD_IOID_RELAY_2
                    then user_flash_read_byte ti POWER_2_CH_LAST_STATE_OFFSET d else Some (state, d));
     Some (if state = 0xFF then DEVICE_ABILITY_RELAY_COMMAND_OFF else state, d) }"

definition ability_to_dio :: "u8 \<Rightarrow> u8" where
  "ability_to_dio ability = (if ability = DEVICE_ABILITY_RELAY_1 then BOARD_IOID_RELAY_1
     else if ability = DEVICE_ABILITY_RELAY_2 then BOARD_IOID_RELAY_2 else 0xFF)"

definition dio_to_ability :: "u8 \<Rightarrow> u8" where
  "dio_to_ability dio = (if dio = BOARD_IOID_RELAY_1 then DEVICE_ABILITY_RELAY_1
     else if dio = BOARD_IOID_RELAY_2 then DEVICE_ABILITY_RELAY_2 else 0)"

section \<open>Switching\<close>

text \<open>The \<open>switch\<close> on the command, the same text for both relays: pin, old state, new state.\<close>

definition relay_switch :: "'d ti \<Rightarrow> u8 \<Rightarrow> u8 \<Rightarrow> u8 \<Rightarrow> 'd \<Rightarrow> (u8 \<times> 'd) option" where
  "relay_switch ti pin state dio_state d =
    (if dio_state = DEVICE_ABILITY_RELAY_COMMAND_OFF
     then map_option (Pair 0) (ti_do ti (GPIOClearDio (IOID pin)) d)
     else if dio_state = DEVICE_ABILITY_RELAY_COMMAND_ON
     then map_option (Pair 1) (ti_do ti (GPIOSetDio (IOID pin)) d)
     else if dio_state = DEVICE_ABILITY_RELAY_COMMAND_TOGGLE then
       (if state = 1 then map_option (Pair 0) (ti_do ti (GPIOClearDio (IOID pin)) d)
        else map_option (Pair 1) (ti_do ti (GPIOSetDio (IOID pin)) d))
     else Some (state, d))"

definition change_dio_state :: "'d ti \<Rightarrow> u8 \<Rightarrow> u8 \<Rightarrow> 'd relay \<Rightarrow> 'd relay option" where
  "change_dio_state ti ability_number dio_state r = do {
     r \<leftarrow> (if ability_number = DEVICE_ABILITY_RELAY_1 then do {
             (s, d) \<leftarrow> relay_switch ti BOARD_IOID_RELAY_1 (relay_1_state r) dio_state (relay_dev r);
             d \<leftarrow> set_last_state_flash ti BOARD_IOID_RELAY_1 s d;
             Some (r\<lparr>relay_1_state := s, relay_dev := d\<rparr>) }
           else Some r);
     if ability_number = DEVICE_ABILITY_RELAY_2 then do {
       (s, d) \<leftarrow> relay_switch ti BOARD_IOID_RELAY_2 (relay_2_state r) dio_state (relay_dev r);
       d \<leftarrow> set_last_state_flash ti BOARD_IOID_RELAY_2 s d;
       Some (r\<lparr>relay_2_state := s, relay_dev := d\<rparr>) }
     else Some r }"

definition configure_channel :: "'d ti \<Rightarrow> u8 \<Rightarrow> 'd relay \<Rightarrow> 'd relay option" where
  "configure_channel ti channel_dio r = do {
     d \<leftarrow> ti_do ti (IOCPinTypeGpioOutput (IOID channel_dio)) (relay_dev r);
     d \<leftarrow> ti_do ti (GPIOClearDio (IOID channel_dio)) d;
     (start_state, d) \<leftarrow> get_start_state_flash ti channel_dio d;
     let r = r\<lparr>relay_dev := d\<rparr>;
     r \<leftarrow> (if start_state = START_ON_LAST_STATE then do {
             (s, d) \<leftarrow> get_last_state_flash ti channel_dio (relay_dev r);
             change_dio_state ti (dio_to_ability channel_dio) s (r\<lparr>relay_dev := d\<rparr>) }
           else Some r);
     r \<leftarrow> (if start_state = START_ON_ON_STATE
           then change_dio_state ti (dio_to_ability channel_dio) DEVICE_ABILITY_RELAY_COMMAND_ON r
           else Some r);
     if start_state = START_ON_OFF_STATE
     then change_dio_state ti (dio_to_ability channel_dio) DEVICE_ABILITY_RELAY_COMMAND_OFF r
     else Some r }"

definition settings_change :: "'d ti \<Rightarrow> node_command \<Rightarrow> 'd relay \<Rightarrow> 'd relay option" where
  "settings_change ti m r =
    (if msg_ability_number m \<noteq> DEVICE_ABILITY_RELAY_1 \<and> msg_ability_number m \<noteq> DEVICE_ABILITY_RELAY_2
     then Some r
     else do {
       d \<leftarrow> (if msg_ability_target m = DEVICE_ABILITY_RELAY_1_SETTINGS_START_STATE
             then set_start_state_flash ti BOARD_IOID_RELAY_1 (msg_ability_state m) (relay_dev r)
             else Some (relay_dev r));
       d \<leftarrow> (if msg_ability_target m = DEVICE_ABILITY_RELAY_2_SETTINGS_START_STATE
             then set_start_state_flash ti BOARD_IOID_RELAY_2 (msg_ability_state m) d
             else Some d);
       Some (r\<lparr>relay_dev := d\<rparr>) })"

definition exe_relay_command :: "'d ti \<Rightarrow> node_command \<Rightarrow> 'd relay \<Rightarrow> 'd relay option" where
  "exe_relay_command ti m r =
    (if msg_ability_number m \<noteq> DEVICE_ABILITY_RELAY_1 \<and> msg_ability_number m \<noteq> DEVICE_ABILITY_RELAY_2
     then Some r
     else change_dio_state ti (msg_ability_number m) (msg_ability_state m) r)"

text \<open>\<open>main_process\<close>: its start, and its reaction to \<open>PROCESS_EVENT_CONTINUE\<close> with a message.\<close>

definition relay_start :: "'d ti \<Rightarrow> 'd relay \<Rightarrow> 'd relay option" where
  "relay_start ti r = do {
     r \<leftarrow> configure_channel ti BOARD_IOID_RELAY_1 r;
     configure_channel ti BOARD_IOID_RELAY_2 r }"

definition relay_message :: "'d ti \<Rightarrow> node_command option \<Rightarrow> 'd relay \<Rightarrow> 'd relay option" where
  "relay_message ti message_data r = (case message_data of
      None \<Rightarrow> Some r
    | Some m \<Rightarrow>
        if msg_ability_target m = DEVICE_ABILITY_RELAY then do {
          r \<leftarrow> (if msg_data_type m = DATA_TYPE_COMMAND then exe_relay_command ti m r else Some r);
          if msg_data_type m = DATA_TYPE_SETTINGS then settings_change ti m r else Some r }
        else Some r)"

section \<open>What the device relies on\<close>

locale relay_board = int_flash ti fine imem level
  for ti :: "'d ti" and fine :: "'d \<Rightarrow> bool" and imem :: "'d \<Rightarrow> mem" and level :: "'d \<Rightarrow> u8 \<Rightarrow> bool" +
  assumes pin_output: "fine d \<Longrightarrow> \<exists>v d'. ti (IOCPinTypeGpioOutput (IOID p)) d = Some (v, d') \<and> fine d' \<and>
      imem d' = imem d \<and> level d' = level d"
    and pin_set: "fine d \<Longrightarrow> \<exists>v d'. ti (GPIOSetDio (IOID p)) d = Some (v, d') \<and> fine d' \<and>
      imem d' = imem d \<and> level d' = (level d)(p := True)"
    and pin_clear: "fine d \<Longrightarrow> \<exists>v d'. ti (GPIOClearDio (IOID p)) d = Some (v, d') \<and> fine d' \<and>
      imem d' = imem d \<and> level d' = (level d)(p := False)"

text \<open>Per relay: its pin, its number, its bytes in the user flash and its state variable.\<close>

definition relay_pin :: "bool \<Rightarrow> u8" where
  "relay_pin second = (if second then BOARD_IOID_RELAY_2 else BOARD_IOID_RELAY_1)"

definition relay_number :: "bool \<Rightarrow> u8" where
  "relay_number second = (if second then DEVICE_ABILITY_RELAY_2 else DEVICE_ABILITY_RELAY_1)"

definition last_offset :: "bool \<Rightarrow> u8" where
  "last_offset second = (if second then POWER_2_CH_LAST_STATE_OFFSET else POWER_1_CH_LAST_STATE_OFFSET)"

definition start_offset :: "bool \<Rightarrow> u8" where
  "start_offset second = (if second then POWER_2_CH_START_STATE_OFFSET else POWER_1_CH_START_STATE_OFFSET)"

definition relay_state :: "bool \<Rightarrow> 'd relay \<Rightarrow> u8" where
  "relay_state second r = (if second then relay_2_state r else relay_1_state r)"

definition next_state :: "u8 \<Rightarrow> u8 \<Rightarrow> u8" where
  "next_state command s =
    (if command = DEVICE_ABILITY_RELAY_COMMAND_OFF then 0
     else if command = DEVICE_ABILITY_RELAY_COMMAND_ON then 1
     else if command = DEVICE_ABILITY_RELAY_COMMAND_TOGGLE then (if s = 1 then 0 else 1) else s)"

text \<open>
  The invariant of a relay: its pin is high exactly when its state variable is 1, and the
  last state in the user flash is that state.
\<close>

definition channel_ok :: "('d \<Rightarrow> mem) \<Rightarrow> ('d \<Rightarrow> u8 \<Rightarrow> bool) \<Rightarrow> bool \<Rightarrow> 'd relay \<Rightarrow> bool" where
  "channel_ok imem level second r \<longleftrightarrow>
    relay_state second r \<le> 1 \<and> (level (relay_dev r) (relay_pin second) \<longleftrightarrow> relay_state second r = 1) \<and>
    user_bytes (imem (relay_dev r)) ! unat (last_offset second) = relay_state second r"

text \<open>A channel whose start setting is blank or "last state".\<close>

definition starts_on_last :: "('d \<Rightarrow> mem) \<Rightarrow> bool \<Rightarrow> 'd \<Rightarrow> bool" where
  "starts_on_last imem b d \<longleftrightarrow> user_bytes (imem d) ! unat (start_offset b) \<in> {0xFF, START_ON_LAST_STATE}"

text \<open>The messages that switch a relay, and a device that gets one message after the other.\<close>

definition addressed :: "bool \<Rightarrow> node_command \<Rightarrow> bool" where
  "addressed b m \<longleftrightarrow> msg_ability_target m = DEVICE_ABILITY_RELAY \<and> msg_data_type m = DATA_TYPE_COMMAND \<and>
     msg_ability_number m = relay_number b"

definition history_state :: "bool \<Rightarrow> node_command list \<Rightarrow> u8 \<Rightarrow> u8" where
  "history_state b ms s = foldl (\<lambda>s m. if addressed b m then next_state (msg_ability_state m) s else s) s ms"

fun relay_run :: "'d ti \<Rightarrow> node_command list \<Rightarrow> 'd relay \<Rightarrow> 'd relay option" where
  "relay_run ti [] r = Some r"
| "relay_run ti (m # ms) r = do { r \<leftarrow> relay_message ti (Some m) r; relay_run ti ms r }"

lemma ability_dio: "ability_to_dio (relay_number b) = relay_pin b" "dio_to_ability (relay_pin b) = relay_number b"
  by (simp_all add: ability_to_dio_def dio_to_ability_def relay_number_def relay_pin_def relay_consts)

lemma offsets_small: "unat (last_offset b) < USER_FLASH_LENGTH" "unat (start_offset b) < USER_FLASH_LENGTH"
  by (simp_all add: last_offset_def start_offset_def relay_consts USER_FLASH_LENGTH_def)

lemma next_state_le: "s \<le> 1 \<Longrightarrow> next_state c s \<le> 1"
  by (simp add: next_state_def)

context relay_board begin

lemma last_state_ok:
  assumes "fine d"
  shows "\<exists>d'. set_last_state_flash ti (relay_pin b) v d = Some d' \<and> fine d' \<and> level d' = level d \<and>
      user_bytes (imem d') = (user_bytes (imem d))[unat (last_offset b) := v] \<and>
      outside_user (imem d') = outside_user (imem d)"
    and "\<exists>d'. get_last_state_flash ti (relay_pin b) d =
      Some (let x = user_bytes (imem d) ! unat (last_offset b)
            in if x = 0xFF then DEVICE_ABILITY_RELAY_COMMAND_OFF else x, d') \<and>
      fine d' \<and> level d' = level d \<and> imem d' = imem d"
    and "\<exists>d'. get_start_state_flash ti (relay_pin b) d =
      Some (let x = user_bytes (imem d) ! unat (start_offset b)
            in if x = 0xFF then START_ON_LAST_STATE else x, d') \<and>
      fine d' \<and> level d' = level d \<and> imem d' = imem d"
    and "\<exists>d'. set_start_state_flash ti (relay_pin b) v d = Some d' \<and> fine d' \<and> level d' = level d \<and>
      user_bytes (imem d') = (user_bytes (imem d))[unat (start_offset b) := v] \<and>
      outside_user (imem d') = outside_user (imem d)"
  using user.put_ok [OF assms offsets_small(1) [of b], of v] user_read_ok [OF assms offsets_small(1) [of b]]
    user.put_ok [OF assms offsets_small(2) [of b], of v] user_read_ok [OF assms offsets_small(2) [of b]]
  by (cases b; auto simp: set_last_state_flash_def get_last_state_flash_def get_start_state_flash_def
      set_start_state_flash_def relay_pin_def last_offset_def start_offset_def
      BOARD_IOID_RELAY_1_def BOARD_IOID_RELAY_2_def Let_def)+

lemma relay_switch_ok:
  assumes "fine d"
  shows "\<exists>d'. relay_switch ti p s c d = Some (next_state c s, d') \<and> fine d' \<and> imem d' = imem d \<and>
    level d' = (if c \<in> {0, 1, 0x80} then (level d)(p := (next_state c s = 1)) else level d)"
  using pin_set [OF assms, of p] pin_clear [OF assms, of p] assms
  by (auto simp: relay_switch_def ti_do_def next_state_def relay_consts)

lemma change_ok:
  assumes "fine (relay_dev r)"
  shows "\<exists>r'. change_dio_state ti (relay_number b) c r = Some r' \<and> fine (relay_dev r') \<and>
    relay_state b r' = next_state c (relay_state b r) \<and> relay_state (\<not> b) r' = relay_state (\<not> b) r \<and>
    level (relay_dev r') = (if c \<in> {0, 1, 0x80}
      then (level (relay_dev r))(relay_pin b := (next_state c (relay_state b r) = 1)) else level (relay_dev r)) \<and>
    user_bytes (imem (relay_dev r')) =
      (user_bytes (imem (relay_dev r)))[unat (last_offset b) := next_state c (relay_state b r)] \<and>
    outside_user (imem (relay_dev r')) = outside_user (imem (relay_dev r))"
proof -
  let ?s = "relay_state b r"
  obtain d1 where d1: "relay_switch ti (relay_pin b) ?s c (relay_dev r) = Some (next_state c ?s, d1)" "fine d1"
    "imem d1 = imem (relay_dev r)" "level d1 = (if c \<in> {0, 1, 0x80}
      then (level (relay_dev r))(relay_pin b := (next_state c ?s = 1)) else level (relay_dev r))"
    using relay_switch_ok [OF assms, of "relay_pin b" ?s c] by blast
  obtain d2 where d2: "set_last_state_flash ti (relay_pin b) (next_state c ?s) d1 = Some d2" "fine d2"
    "level d2 = level d1" "user_bytes (imem d2) = (user_bytes (imem d1))[unat (last_offset b) := next_state c ?s]"
    "outside_user (imem d2) = outside_user (imem d1)"
    using last_state_ok(1) [OF d1(2)] by blast
  define r' where "r' = (if b then r\<lparr>relay_2_state := next_state c ?s, relay_dev := d2\<rparr>
    else r\<lparr>relay_1_state := next_state c ?s, relay_dev := d2\<rparr>)"
  have "change_dio_state ti (relay_number b) c r = Some r'"
    using d1(1) d2(1)
    by (cases b) (simp_all add: change_dio_state_def relay_number_def relay_pin_def relay_state_def r'_def
        DEVICE_ABILITY_RELAY_1_def DEVICE_ABILITY_RELAY_2_def)
  moreover have "relay_dev r' = d2" "relay_state b r' = next_state c ?s"
      "relay_state (\<not> b) r' = relay_state (\<not> b) r"
    by (simp_all add: r'_def relay_state_def)
  ultimately show ?thesis using d1 d2 by auto
qed


lemma next_state_level:
  "s \<le> 1 \<Longrightarrow> c \<notin> {0, 1, 0x80} \<Longrightarrow> next_state c s = s"
  by (auto simp: next_state_def relay_consts)

lemma change_keeps:
  assumes "fine (relay_dev r)" "relay_state b r \<le> 1" "level (relay_dev r) (relay_pin b) \<longleftrightarrow> relay_state b r = 1"
  shows "\<exists>r'. change_dio_state ti (relay_number b) c r = Some r' \<and> fine (relay_dev r') \<and>
    channel_ok imem level b r' \<and> relay_state b r' = next_state c (relay_state b r) \<and>
    relay_state (\<not> b) r' = relay_state (\<not> b) r \<and>
    level (relay_dev r') (relay_pin (\<not> b)) = level (relay_dev r) (relay_pin (\<not> b)) \<and>
    (\<forall>i < USER_FLASH_LENGTH. i \<noteq> unat (last_offset b) \<longrightarrow>
       user_bytes (imem (relay_dev r')) ! i = user_bytes (imem (relay_dev r)) ! i)"
proof -
  let ?s = "relay_state b r"
  obtain r' where r': "change_dio_state ti (relay_number b) c r = Some r'" "fine (relay_dev r')"
    "relay_state b r' = next_state c ?s" "relay_state (\<not> b) r' = relay_state (\<not> b) r"
    "level (relay_dev r') = (if c \<in> {0, 1, 0x80}
      then (level (relay_dev r))(relay_pin b := (next_state c ?s = 1)) else level (relay_dev r))"
    "user_bytes (imem (relay_dev r')) = (user_bytes (imem (relay_dev r)))[unat (last_offset b) := next_state c ?s]"
    using change_ok [OF assms(1), of b c] by blast
  have "level (relay_dev r') (relay_pin b) \<longleftrightarrow> next_state c ?s = 1"
    using r'(5) assms(3) next_state_level [OF assms(2), of c] by (auto split: if_splits)
  moreover have "relay_pin (\<not> b) \<noteq> relay_pin b" by (simp add: relay_pin_def relay_consts)
  then have "level (relay_dev r') (relay_pin (\<not> b)) = level (relay_dev r) (relay_pin (\<not> b))"
    using r'(5) by auto
  moreover have "user_bytes (imem (relay_dev r')) ! unat (last_offset b) = next_state c ?s"
    using r'(6) offsets_small(1) [of b] user.length_store by simp
  ultimately show ?thesis
    using r' next_state_le [OF assms(2)] by (auto simp: channel_ok_def)
qed

lemma command_ok:
  assumes "fine (relay_dev r)" "channel_ok imem level False r" "channel_ok imem level True r"
    and "msg_ability_target m = DEVICE_ABILITY_RELAY" "msg_data_type m = DATA_TYPE_COMMAND"
    and "msg_ability_number m = relay_number b"
  shows "\<exists>r'. relay_message ti (Some m) r = Some r' \<and> fine (relay_dev r') \<and>
    channel_ok imem level False r' \<and> channel_ok imem level True r' \<and>
    relay_state b r' = next_state (msg_ability_state m) (relay_state b r) \<and>
    relay_state (\<not> b) r' = relay_state (\<not> b) r \<and>
    (\<forall>i < USER_FLASH_LENGTH. i \<noteq> unat (last_offset b) \<longrightarrow>
       user_bytes (imem (relay_dev r')) ! i = user_bytes (imem (relay_dev r)) ! i)"
proof -
  have b: "channel_ok imem level b r" and nb: "channel_ok imem level (\<not> b) r"
    using assms(2,3) by (cases b; simp)+
  obtain r' where r': "change_dio_state ti (relay_number b) (msg_ability_state m) r = Some r'" "fine (relay_dev r')"
    "channel_ok imem level b r'" "relay_state b r' = next_state (msg_ability_state m) (relay_state b r)"
    "relay_state (\<not> b) r' = relay_state (\<not> b) r"
    "level (relay_dev r') (relay_pin (\<not> b)) = level (relay_dev r) (relay_pin (\<not> b))"
    "\<forall>i < USER_FLASH_LENGTH. i \<noteq> unat (last_offset b) \<longrightarrow>
       user_bytes (imem (relay_dev r')) ! i = user_bytes (imem (relay_dev r)) ! i"
    using change_keeps [OF assms(1), of b "msg_ability_state m"] b unfolding channel_ok_def by blast
  have "unat (last_offset (\<not> b)) \<noteq> unat (last_offset b)" by (simp add: last_offset_def relay_consts)
  then have "channel_ok imem level (\<not> b) r'"
    using nb r'(5,6,7) offsets_small(1) [of "\<not> b"] by (simp add: channel_ok_def)
  then have "channel_ok imem level False r'" "channel_ok imem level True r'"
    using r'(3) by (cases b; simp)+
  moreover have "relay_message ti (Some m) r = Some r'"
    using assms(4-6) r'(1)
    by (cases b) (simp_all add: relay_message_def exe_relay_command_def relay_number_def
        DATA_TYPE_COMMAND_def DATA_TYPE_SETTINGS_def)
  ultimately show ?thesis using r' by auto
qed

lemma configure_ok:
  assumes "fine (relay_dev r)" "relay_state b r = 0" "starts_on_last imem b (relay_dev r)"
    and "user_bytes (imem (relay_dev r)) ! unat (last_offset b) = v" "v \<le> 1"
  shows "\<exists>r'. configure_channel ti (relay_pin b) r = Some r' \<and> fine (relay_dev r') \<and>
    channel_ok imem level b r' \<and> relay_state b r' = v \<and>
    relay_state (\<not> b) r' = relay_state (\<not> b) r \<and>
    level (relay_dev r') (relay_pin (\<not> b)) = level (relay_dev r) (relay_pin (\<not> b)) \<and>
    (\<forall>i < USER_FLASH_LENGTH. i \<noteq> unat (last_offset b) \<longrightarrow>
       user_bytes (imem (relay_dev r')) ! i = user_bytes (imem (relay_dev r)) ! i)"
proof -
  let ?d = "relay_dev r" and ?p = "relay_pin b"
  obtain v1 d1 where d1: "ti (IOCPinTypeGpioOutput (IOID ?p)) ?d = Some (v1, d1)" "fine d1"
    "imem d1 = imem ?d" "level d1 = level ?d"
    using pin_output [OF assms(1)] by blast
  obtain v2 d2 where d2: "ti (GPIOClearDio (IOID ?p)) d1 = Some (v2, d2)" "fine d2"
    "imem d2 = imem ?d" "level d2 = (level ?d)(?p := False)"
    using pin_clear [OF d1(2)] d1 by metis
  obtain d3 where d3: "get_start_state_flash ti ?p d2 = Some (START_ON_LAST_STATE, d3)" "fine d3"
    "level d3 = level d2" "imem d3 = imem ?d"
    using last_state_ok(3) [OF d2(2), of b] assms(3) d2 by (auto simp: starts_on_last_def Let_def)
  have "v \<noteq> 0xFF" using assms(5) by (auto simp: word_le_nat_alt)
  then obtain d4 where d4: "get_last_state_flash ti ?p d3 = Some (v, d4)" "fine d4"
    "level d4 = level d3" "imem d4 = imem ?d"
    using last_state_ok(2) [OF d3(2), of b] assms(4) d3 by (auto simp: Let_def)
  let ?r = "r\<lparr>relay_dev := d4\<rparr>"
  have st: "relay_state b ?r = 0" "relay_state (\<not> b) ?r = relay_state (\<not> b) r"
    using assms(2) by (cases b; simp add: relay_state_def)+
  have lev: "level d4 = (level ?d)(?p := False)" using d2 d3 d4 by simp
  have v: "next_state v 0 = v" using assms(5) by (auto simp: next_state_def relay_consts word_le_nat_alt
        word_unat_eq_iff)
  have other: "relay_pin (\<not> b) \<noteq> ?p" by (simp add: relay_pin_def relay_consts)
  obtain r' where "change_dio_state ti (relay_number b) v ?r = Some r'" "fine (relay_dev r')"
    "channel_ok imem level b r'" "relay_state b r' = v" "relay_state (\<not> b) r' = relay_state (\<not> b) r"
    "level (relay_dev r') (relay_pin (\<not> b)) = level ?d (relay_pin (\<not> b))"
    "\<forall>i < USER_FLASH_LENGTH. i \<noteq> unat (last_offset b) \<longrightarrow>
       user_bytes (imem (relay_dev r')) ! i = user_bytes (imem ?d) ! i"
    using change_keeps [of ?r b v] st lev d4 v other by (auto simp: fun_upd_apply)
  then show ?thesis
    by (simp add: configure_channel_def ti_do_def d1 d2 d3 d4 ability_dio START_ON_LAST_STATE_def
        START_ON_ON_STATE_def START_ON_OFF_STATE_def)
qed

text \<open>After a power cycle both relays are again in the state they had.\<close>

lemma start_ok:
  assumes "fine d" "starts_on_last imem False d" "starts_on_last imem True d"
    and "user_bytes (imem d) ! unat (last_offset False) = v1" "v1 \<le> 1"
    and "user_bytes (imem d) ! unat (last_offset True) = v2" "v2 \<le> 1"
  shows "\<exists>r'. relay_start ti \<lparr>relay_dev = d, relay_1_state = 0, relay_2_state = 0\<rparr> = Some r' \<and>
    fine (relay_dev r') \<and> channel_ok imem level False r' \<and> channel_ok imem level True r' \<and>
    relay_state False r' = v1 \<and> relay_state True r' = v2"
proof -
  let ?r = "\<lparr>relay_dev = d, relay_1_state = 0, relay_2_state = 0\<rparr>"
  have st: "relay_state b ?r = 0" for b by (simp add: relay_state_def)
  have off: "unat (last_offset True) \<noteq> unat (last_offset False)" "unat (start_offset True) \<noteq> unat (last_offset False)"
    "unat (last_offset False) \<noteq> unat (last_offset True)"
    by (simp_all add: last_offset_def start_offset_def relay_consts)
  obtain r1 where r1: "configure_channel ti (relay_pin False) ?r = Some r1" "fine (relay_dev r1)"
    "channel_ok imem level False r1" "relay_state False r1 = v1" "relay_state True r1 = 0"
    "\<forall>i < USER_FLASH_LENGTH. i \<noteq> unat (last_offset False) \<longrightarrow>
       user_bytes (imem (relay_dev r1)) ! i = user_bytes (imem d) ! i"
    using configure_ok [of ?r False v1] assms st by auto
  have "starts_on_last imem True (relay_dev r1)" "user_bytes (imem (relay_dev r1)) ! unat (last_offset True) = v2"
    using r1(6) off offsets_small [of True] assms(3,6) by (simp_all add: starts_on_last_def)
  then obtain r2 where r2: "configure_channel ti (relay_pin True) r1 = Some r2" "fine (relay_dev r2)"
    "channel_ok imem level True r2" "relay_state True r2 = v2" "relay_state False r2 = relay_state False r1"
    "level (relay_dev r2) (relay_pin False) = level (relay_dev r1) (relay_pin False)"
    "\<forall>i < USER_FLASH_LENGTH. i \<noteq> unat (last_offset True) \<longrightarrow>
       user_bytes (imem (relay_dev r2)) ! i = user_bytes (imem (relay_dev r1)) ! i"
    using configure_ok [of r1 True v2] r1 assms(7) by auto
  have "channel_ok imem level False r2"
    using r1(3) r2(5-7) off offsets_small(1) [of False] by (simp add: channel_ok_def)
  then show ?thesis
    using r1 r2 by (simp add: relay_start_def relay_pin_def)
qed

text \<open>
  Every message other than a command for a relay leaves the device as it is. This includes
  the settings: \<open>settings_change\<close> asks for a target that \<open>main_process\<close> has ruled out.
\<close>

lemma message_ignored:
  assumes "\<not> addressed False m" "\<not> addressed True m"
  shows "relay_message ti (Some m) r = Some r"
  using assms
  by (auto simp: addressed_def relay_message_def exe_relay_command_def settings_change_def relay_number_def
      relay_consts DATA_TYPE_COMMAND_def DATA_TYPE_SETTINGS_def)

lemma message_ok:
  assumes "fine (relay_dev r)" "\<forall>b. channel_ok imem level b r" "\<forall>b. starts_on_last imem b (relay_dev r)"
  shows "\<exists>r'. relay_message ti (Some m) r = Some r' \<and> fine (relay_dev r') \<and> (\<forall>b. channel_ok imem level b r') \<and>
    (\<forall>b. starts_on_last imem b (relay_dev r')) \<and>
    (\<forall>b. relay_state b r' = (if addressed b m then next_state (msg_ability_state m) (relay_state b r) else relay_state b r))"
proof (cases "\<exists>b. addressed b m")
  case True
  then obtain b where b: "addressed b m" by blast
  then have nb: "\<not> addressed (\<not> b) m" by (auto simp: addressed_def relay_number_def relay_consts)
  obtain r' where r': "relay_message ti (Some m) r = Some r'" "fine (relay_dev r')"
    "channel_ok imem level False r'" "channel_ok imem level True r'"
    "relay_state b r' = next_state (msg_ability_state m) (relay_state b r)"
    "relay_state (\<not> b) r' = relay_state (\<not> b) r"
    "\<forall>i < USER_FLASH_LENGTH. i \<noteq> unat (last_offset b) \<longrightarrow>
       user_bytes (imem (relay_dev r')) ! i = user_bytes (imem (relay_dev r)) ! i"
    using command_ok [OF assms(1), of m b] assms(2) b unfolding addressed_def by blast
  have "unat (start_offset b') \<noteq> unat (last_offset b)" for b'
    by (simp add: start_offset_def last_offset_def relay_consts)
  then have "\<forall>b. starts_on_last imem b (relay_dev r')"
    using r'(7) assms(3) offsets_small(2) by (simp add: starts_on_last_def)
  moreover have "\<forall>b. channel_ok imem level b r'" using r'(3,4) by (metis (full_types))
  moreover have "relay_state b' r' = (if addressed b' m then next_state (msg_ability_state m) (relay_state b' r)
      else relay_state b' r)" for b'
    using r'(5,6) b nb by (cases "b' = b") (auto dest: subst)
  ultimately show ?thesis using r'(1,2) by blast
next
  case False
  then show ?thesis using message_ignored [of m r] assms by auto
qed

lemma history_ok:
  assumes "fine (relay_dev r)" "\<forall>b. channel_ok imem level b r" "\<forall>b. starts_on_last imem b (relay_dev r)"
  shows "\<exists>r'. relay_run ti ms r = Some r' \<and> fine (relay_dev r') \<and> (\<forall>b. channel_ok imem level b r') \<and>
    (\<forall>b. starts_on_last imem b (relay_dev r')) \<and> (\<forall>b. relay_state b r' = history_state b ms (relay_state b r))"
  using assms
proof (induction ms arbitrary: r)
  case (Cons m ms)
  obtain r1 where r1: "relay_message ti (Some m) r = Some r1" "fine (relay_dev r1)" "\<forall>b. channel_ok imem level b r1"
    "\<forall>b. starts_on_last imem b (relay_dev r1)"
    "\<forall>b. relay_state b r1 = (if addressed b m then next_state (msg_ability_state m) (relay_state b r) else relay_state b r)"
    using message_ok [OF Cons.prems, of m] by blast
  have "history_state b (m # ms) s = history_state b ms (if addressed b m then next_state (msg_ability_state m) s else s)"
    for b s by (simp add: history_state_def)
  then show ?case using Cons.IH [OF r1(2-4)] r1(1,5) by simp
qed (simp add: history_state_def)

text \<open>After a power cycle both relays are in the state that the last command left.\<close>

lemma power_cycle_ok:
  assumes "fine (relay_dev r)" "\<forall>b. channel_ok imem level b r" "\<forall>b. starts_on_last imem b (relay_dev r)"
  shows "\<exists>r'. relay_start ti \<lparr>relay_dev = relay_dev r, relay_1_state = 0, relay_2_state = 0\<rparr> = Some r' \<and>
    fine (relay_dev r') \<and> (\<forall>b. channel_ok imem level b r') \<and> (\<forall>b. relay_state b r' = relay_state b r)"
proof -
  have c: "user_bytes (imem (relay_dev r)) ! unat (last_offset b) = relay_state b r" "relay_state b r \<le> 1" for b
    using assms(2) by (auto simp: channel_ok_def)
  obtain r' where r': "relay_start ti \<lparr>relay_dev = relay_dev r, relay_1_state = 0, relay_2_state = 0\<rparr> = Some r'"
    "fine (relay_dev r')" "channel_ok imem level False r'" "channel_ok imem level True r'"
    "relay_state False r' = relay_state False r" "relay_state True r' = relay_state True r"
    using start_ok [OF assms(1) _ _ c(1,2) [of False] c(1,2) [of True]] assms(3) by blast
  then show ?thesis by (metis (full_types))
qed

end

end
