(* ===== verification/Button_Sensor.thy ===== *)
theory Button_Sensor
  imports Prelude
begin

text \<open>
  The button driver, \<open>platform/unwired/udboards/button-sensor.c\<close>: it tells clicks from long
  clicks by the time between the falling and the rising edge and a process that looks at
  the button again after 720 ms. The level of a pin and the clock are arguments; the events
  given to \<open>sensors_changed\<close> are a list. Switching the interrupt of the pin off and on
  around the handler is left out.
\<close>

datatype button_event =
    button_a_sensor_click | button_a_sensor_long_click
  | button_b_sensor_click | button_b_sensor_long_click
  | button_c_sensor_click | button_c_sensor_long_click
  | button_d_sensor_click | button_d_sensor_long_click
  | button_e_sensor_click | button_e_sensor_long_click

definition BOARD_IOID_KEY_A :: u8 where "BOARD_IOID_KEY_A = 4"
definition BOARD_IOID_KEY_B :: u8 where "BOARD_IOID_KEY_B = 5"
definition BOARD_IOID_KEY_C :: u8 where "BOARD_IOID_KEY_C = 6"
definition BOARD_IOID_KEY_D :: u8 where "BOARD_IOID_KEY_D = 7"
definition BOARD_IOID_KEY_E :: u8 where "BOARD_IOID_KEY_E = 1"

lemmas key_consts = BOARD_IOID_KEY_A_def BOARD_IOID_KEY_B_def BOARD_IOID_KEY_C_def BOARD_IOID_KEY_D_def
  BOARD_IOID_KEY_E_def

text \<open>\<open>LONG_INTERVAL_MS*CLOCK_SECOND/1000\<close> and \<open>DEBOUNCE_INTERVAL_MS*CLOCK_SECOND/1000\<close> in ticks.\<close>

definition LONG_INTERVAL :: u32 where "LONG_INTERVAL = 720 * 128 div 1000"
definition DEBOUNCE_INTERVAL :: u32 where "DEBOUNCE_INTERVAL = 60 * 128 div 1000"

record button_sensor =
  button_last_low_time :: "u8 \<Rightarrow> u32"
  button_last_state :: "u8 \<Rightarrow> u32"
  current_button :: u8
  current_button_long :: u8
  long_process_running :: bool
  button_events :: "button_event list"

definition sensors_changed :: "button_event \<Rightarrow> button_sensor \<Rightarrow> button_sensor" where
  "sensors_changed ev s = s\<lparr>button_events := button_events s @ [ev]\<rparr>"

text \<open>\<open>button_sensor_long_process\<close>: its start, and its end with the level of the pin.\<close>

definition long_process_start :: "button_sensor \<Rightarrow> button_sensor" where
  "long_process_start s = s\<lparr>current_button_long := current_button s, long_process_running := True\<rparr>"

definition long_process_expired :: "u32 \<Rightarrow> button_sensor \<Rightarrow> button_sensor" where
  "long_process_expired level s =
    (let b = current_button_long s;
         s = (if level = 0 then
                let s = (if b = BOARD_IOID_KEY_A then sensors_changed button_a_sensor_long_click s else s);
                    s = (if b = BOARD_IOID_KEY_B then sensors_changed button_b_sensor_long_click s else s);
                    s = (if b = BOARD_IOID_KEY_C then sensors_changed button_c_sensor_long_click s else s);
                    s = (if b = BOARD_IOID_KEY_D then sensors_changed button_d_sensor_long_click s else s)
                in if b = BOARD_IOID_KEY_E then sensors_changed button_e_sensor_long_click s else s
              else s)
     in s\<lparr>long_process_running := False\<rparr>)"

definition config_buttons_init :: "u8 \<Rightarrow> button_sensor \<Rightarrow> button_sensor" where
  "config_buttons_init key s =
     s\<lparr>button_last_low_time := (button_last_low_time s)(key := 0),
       button_last_state := (button_last_state s)(key := 1)\<rparr>"

definition click_events :: "u8 \<Rightarrow> button_sensor \<Rightarrow> button_sensor" where
  "click_events b s =
    (let s = (if b = BOARD_IOID_KEY_A then sensors_changed button_a_sensor_click s else s);
         s = (if b = BOARD_IOID_KEY_B then sensors_changed button_b_sensor_click s else s);
         s = (if b = BOARD_IOID_KEY_C then sensors_changed button_c_sensor_click s else s);
         s = (if b = BOARD_IOID_KEY_D then sensors_changed button_d_sensor_click s else s)
     in if b = BOARD_IOID_KEY_E then sensors_changed button_e_sensor_click s else s)"

definition button_press_handler :: "u8 \<Rightarrow> u32 \<Rightarrow> u32 \<Rightarrow> button_sensor \<Rightarrow> button_sensor" where
  "button_press_handler ioid current_button_state current_time s =
    (if button_last_state s ioid \<noteq> current_button_state then
       let s = s\<lparr>button_last_state := (button_last_state s)(ioid := current_button_state)\<rparr>;
           s = (if current_button_state = 0 then
                  let s = s\<lparr>button_last_low_time := (button_last_low_time s)(ioid := current_time)\<rparr>
                  in if \<not> long_process_running s
                     then long_process_start (s\<lparr>current_button := ioid\<rparr>) else s
                else s)
       in if current_button_state = 1 then
            if current_time - button_last_low_time s ioid > DEBOUNCE_INTERVAL \<and>
               current_time - button_last_low_time s ioid < LONG_INTERVAL
            then click_events ioid (s\<lparr>long_process_running := False\<rparr>)
            else s
          else s
     else s)"

section \<open>A press and its release\<close>

text \<open>
  A button goes down at \<open>t\<close> and up after \<open>held\<close> ticks; if the long process is still
  running \<open>LONG_INTERVAL\<close> ticks after the press it looks at the pin then.
\<close>

definition press_release :: "u8 \<Rightarrow> u32 \<Rightarrow> u32 \<Rightarrow> button_sensor \<Rightarrow> button_sensor" where
  "press_release key t held s =
    (let s = button_press_handler key 0 t s
     in if held < LONG_INTERVAL then
          let s = button_press_handler key 1 (t + held) s
          in if long_process_running s then long_process_expired 1 s else s
        else
          let s = (if long_process_running s then long_process_expired 0 s else s)
          in button_press_handler key 1 (t + held) s)"

definition key_events :: "u8 \<Rightarrow> (button_event \<times> button_event) option" where
  "key_events key =
    (if key = BOARD_IOID_KEY_A then Some (button_a_sensor_click, button_a_sensor_long_click)
     else if key = BOARD_IOID_KEY_B then Some (button_b_sensor_click, button_b_sensor_long_click)
     else if key = BOARD_IOID_KEY_C then Some (button_c_sensor_click, button_c_sensor_long_click)
     else if key = BOARD_IOID_KEY_D then Some (button_d_sensor_click, button_d_sensor_long_click)
     else if key = BOARD_IOID_KEY_E then Some (button_e_sensor_click, button_e_sensor_long_click)
     else None)"

lemma click_events_key:
  "key_events key = Some (click, long) \<Longrightarrow> click_events key s = sensors_changed click s"
  by (auto simp: key_events_def click_events_def key_consts Let_def split: if_splits)

lemma long_expired_key:
  assumes "key_events (current_button_long s) = Some (click, long)"
  shows "long_process_expired 0 s = (sensors_changed long s)\<lparr>long_process_running := False\<rparr>"
  using assms by (auto simp: key_events_def long_process_expired_def key_consts Let_def split: if_splits)

lemma press_state:
  fixes t :: u32
  assumes "button_last_state s key = 1" "\<not> long_process_running s"
  defines "s' \<equiv> button_press_handler key 0 t s"
  shows "button_last_state s' key = 0" "long_process_running s'" "current_button_long s' = key"
    "button_last_low_time s' key = t" "button_events s' = button_events s"
  using assms by (simp_all add: s'_def button_press_handler_def long_process_start_def Let_def)

lemma press_release_events:
  fixes t held :: u32
  assumes key: "key_events key = Some (click, long)"
    and idle: "button_last_state s key = 1" "\<not> long_process_running s"
  defines "s' \<equiv> press_release key t held s"
  shows "button_events s' = button_events s @
      (if held \<ge> LONG_INTERVAL then [long] else if held > DEBOUNCE_INTERVAL then [click] else [])"
    and "button_last_state s' key = 1" "\<not> long_process_running s'"
proof -
  note p = press_state [OF idle, of t]
  let ?s = "button_press_handler key 0 t s"
  have l0: "long_process_expired 0 ?s = (sensors_changed long ?s)\<lparr>long_process_running := False\<rparr>"
    using key p(3) by (intro long_expired_key) simp
  have *: "button_events s' = button_events s @
      (if held \<ge> LONG_INTERVAL then [long] else if held > DEBOUNCE_INTERVAL then [click] else []) \<and>
    button_last_state s' key = 1 \<and> \<not> long_process_running s'"
  proof (cases "held < LONG_INTERVAL")
    case True
    then show ?thesis
      using p click_events_key [OF key]
      by (auto simp: s'_def press_release_def button_press_handler_def [of key 1] Let_def sensors_changed_def
          long_process_expired_def not_le)
  next
    case False
    then show ?thesis
      using p l0
      by (auto simp: s'_def press_release_def button_press_handler_def [of key 1] Let_def sensors_changed_def
          not_less)
  qed
  show "button_events s' = button_events s @
      (if held \<ge> LONG_INTERVAL then [long] else if held > DEBOUNCE_INTERVAL then [click] else [])"
    and "button_last_state s' key = 1" "\<not> long_process_running s'"
    using * by blast+
qed

end
