(* ===== verification/Devices.thy ===== *)
theory Devices
  imports Dag_Node Button_Sensor
begin

text \<open>
  The other devices of \<open>unwired/smarthome\<close> and \<open>unwired/asuno-light\<close>: buttons, motion
  sensor, dimmer and the UART bridge of the street light. Sensors send their events through
  \<open>send_sensor_event\<close> of the node; dimmer and light react to the messages of the node. The
  UART and the pin of the motion sensor are arguments or results.
\<close>

definition DEVICE_ABILITY_BUTTON :: u8 where "DEVICE_ABILITY_BUTTON = 1"
definition DEVICE_ABILITY_MOTION_SENSOR :: u8 where "DEVICE_ABILITY_MOTION_SENSOR = 7"
definition DEVICE_ABILITY_DIMMER :: u8 where "DEVICE_ABILITY_DIMMER = 18"
definition DEVICE_ABILITY_DIMMER_1 :: u8 where "DEVICE_ABILITY_DIMMER_1 = 0x01"
definition DEVICE_ABILITY_DIMMER_2 :: u8 where "DEVICE_ABILITY_DIMMER_2 = 0x02"
definition DEVICE_ABILITY_BUTTON_EVENT_CLICK :: u8 where "DEVICE_ABILITY_BUTTON_EVENT_CLICK = 0x01"
definition DEVICE_ABILITY_BUTTON_EVENT_LONG_CLICK :: u8 where "DEVICE_ABILITY_BUTTON_EVENT_LONG_CLICK = 0x02"
definition DEVICE_ABILITY_MOTION_SENSOR_EVENT_MOTION :: u8 where
  "DEVICE_ABILITY_MOTION_SENSOR_EVENT_MOTION = 0x01"
definition DEVICE_ABILITY_MOTION_SENSOR_EVENT_NO_MOTION :: u8 where
  "DEVICE_ABILITY_MOTION_SENSOR_EVENT_NO_MOTION = 0x02"

section \<open>Buttons\<close>

text \<open>\<open>CURRENT_PROTOCOL_VERSION\<close> is 1 for all devices.\<close>

definition send_button_status_packet :: "'d node_env \<Rightarrow> u8 \<Rightarrow> u8 \<Rightarrow> 'd node \<Rightarrow> 'd node" where
  "send_button_status_packet E button_number click_type n =
    (let n = send_sensor_event E (Some \<lparr>sp_protocol_version = PROTOCOL_VERSION_V1,
               sp_device_version = cfg_device_version (ne_cfg E), sp_data_type = DATA_TYPE_SENSOR_DATA,
               sp_number_ability = DEVICE_ABILITY_BUTTON, sp_sensor_number = button_number,
               sp_sensor_event = click_type\<rparr>) n
     in if node_mode n = 2 then watchdog_reboot n else n)"

definition button_main :: "'d node_env \<Rightarrow> button_event \<Rightarrow> 'd node \<Rightarrow> 'd node" where
  "button_main E ev n = (case ev of
      button_a_sensor_click \<Rightarrow> send_button_status_packet E 0x61 DEVICE_ABILITY_BUTTON_EVENT_CLICK n
    | button_a_sensor_long_click \<Rightarrow> send_button_status_packet E 0x61 DEVICE_ABILITY_BUTTON_EVENT_LONG_CLICK n
    | button_b_sensor_click \<Rightarrow> send_button_status_packet E 0x62 DEVICE_ABILITY_BUTTON_EVENT_CLICK n
    | button_b_sensor_long_click \<Rightarrow> send_button_status_packet E 0x62 DEVICE_ABILITY_BUTTON_EVENT_LONG_CLICK n
    | button_c_sensor_click \<Rightarrow> send_button_status_packet E 0x63 DEVICE_ABILITY_BUTTON_EVENT_CLICK n
    | button_c_sensor_long_click \<Rightarrow> send_button_status_packet E 0x63 DEVICE_ABILITY_BUTTON_EVENT_LONG_CLICK n
    | button_d_sensor_click \<Rightarrow> send_button_status_packet E 0x64 DEVICE_ABILITY_BUTTON_EVENT_CLICK n
    | button_d_sensor_long_click \<Rightarrow> send_button_status_packet E 0x64 DEVICE_ABILITY_BUTTON_EVENT_LONG_CLICK n
    | button_e_sensor_click \<Rightarrow> send_button_status_packet E 0x65 DEVICE_ABILITY_BUTTON_EVENT_CLICK n
    | button_e_sensor_long_click \<Rightarrow> n)"

section \<open>Motion sensor\<close>

definition motion_sensor_ioid :: u8 where "motion_sensor_ioid = 30"

definition send_motion_sensor_packet :: "'d node_env \<Rightarrow> u8 \<Rightarrow> 'd node \<Rightarrow> 'd node" where
  "send_motion_sensor_packet E motion_event n =
    send_sensor_event E (Some \<lparr>sp_protocol_version = PROTOCOL_VERSION_V1,
      sp_device_version = cfg_device_version (ne_cfg E), sp_data_type = DATA_TYPE_SENSOR_DATA,
      sp_number_ability = DEVICE_ABILITY_MOTION_SENSOR, sp_sensor_number = 1,
      sp_sensor_event = motion_event\<rparr>) n"

definition gpio_int_handler :: "'d node_env \<Rightarrow> u8 \<Rightarrow> u32 \<Rightarrow> 'd node \<Rightarrow> 'd node" where
  "gpio_int_handler E ioid level n =
    (if motion_sensor_ioid = ioid then
       if level = 0 then send_motion_sensor_packet E DEVICE_ABILITY_MOTION_SENSOR_EVENT_NO_MOTION n
       else send_motion_sensor_packet E DEVICE_ABILITY_MOTION_SENSOR_EVENT_MOTION n
     else n)"

section \<open>Dimmer\<close>

record dimmer =
  dimmer_1_percent :: u8
  dimmer_2_percent :: u8

definition exe_dimmer_command :: "node_command \<Rightarrow> dimmer \<Rightarrow> dimmer" where
  "exe_dimmer_command m s =
    (if msg_ability_number m \<noteq> DEVICE_ABILITY_DIMMER_1 \<and> msg_ability_number m \<noteq> DEVICE_ABILITY_DIMMER_2
     then s else s\<lparr>dimmer_1_percent := msg_ability_state m\<rparr>)"

definition dimmer_message :: "node_command \<Rightarrow> dimmer \<Rightarrow> dimmer" where
  "dimmer_message m s =
    (if msg_ability_target m = DEVICE_ABILITY_DIMMER then exe_dimmer_command m s else s)"

section \<open>Light\<close>

record light =
  lt_data_iterator :: u8
  lt_returned_data_length :: u8
  lt_returned_data_buf :: bytes
  lt_uart_data :: node_command

text \<open>
  A byte of the lamp's answer. Array accesses are checked: \<open>None\<close> when one leaves the
  23 bytes of \<open>uart_returned_data_buf\<close> or the 16 bytes of the payload.
\<close>

definition light_uart_data_receiver :: "u8 \<Rightarrow> light \<Rightarrow> light option" where
  "light_uart_data_receiver uart_char s =
    (if lt_returned_data_length s > 0 then
       if unat (lt_data_iterator s) \<ge> length (lt_returned_data_buf s) then None
       else
         let s = s\<lparr>lt_returned_data_buf := (lt_returned_data_buf s)[unat (lt_data_iterator s) := uart_char]\<rparr>
         in if uint (lt_data_iterator s) < uint (lt_returned_data_length s) - 1
            then Some (s\<lparr>lt_data_iterator := lt_data_iterator s + 1\<rparr>)
            else
              let n = unat (lt_returned_data_length s); payload = msg_payload (lt_uart_data s)
              in if n > length payload \<or> n > length (lt_returned_data_buf s) then None
                 else Some (s\<lparr>lt_uart_data := (lt_uart_data s)\<lparr>
                     msg_data_type := DATA_TYPE_UART, msg_protocol_version := PROTOCOL_VERSION_V1,
                     msg_device_version := DEVICE_VERSION_V1, msg_uart_returned_data_length := 0,
                     msg_payload := copy_bytes (lt_returned_data_buf s) 0 n (replicate 15 0xFF @ drop 15 payload),
                     msg_uart_data_length := lt_returned_data_length s, msg_ready_to_send := 1\<rparr>,
                   lt_returned_data_length := 0, lt_data_iterator := 0\<rparr>)
     else Some s)"

text \<open>The bytes written to the UART of the lamp; \<open>None\<close> when the loop leaves the payload.\<close>

definition send_uart_command :: "node_command \<Rightarrow> light \<Rightarrow> (bytes \<times> light) option" where
  "send_uart_command m s =
    (if unat (msg_uart_data_length m) > length (msg_payload m) then None
     else Some (take (unat (msg_uart_data_length m)) (msg_payload m),
                s\<lparr>lt_returned_data_length := msg_uart_returned_data_length m\<rparr>))"

definition light_message :: "u8 \<Rightarrow> node_command \<Rightarrow> light \<Rightarrow> (bytes \<times> light) option" where
  "light_message mode m s =
    (if msg_data_type m = DATA_TYPE_UART then
       if mode = MODE_NORMAL then send_uart_command m s else Some ([], s)
     else Some ([], s))"

definition send_data_process :: "'d node_env \<Rightarrow> light \<Rightarrow> 'd node \<Rightarrow> light \<times> 'd node" where
  "send_data_process E s n =
    (if msg_ready_to_send (lt_uart_data s) \<noteq> 0
     then (s\<lparr>lt_uart_data := (lt_uart_data s)\<lparr>msg_ready_to_send := 0\<rparr>\<rparr>,
           send_uart_data E (Some (lt_uart_data s)) n)
     else (s, n))"

section \<open>Laws of the light\<close>

text \<open>
  The invariant of the answer buffer: what \<open>uart_packet_handler\<close> allows as the length of
  an answer, 16, and the position below it.
\<close>

definition light_ok :: "light \<Rightarrow> bool" where
  "light_ok s \<longleftrightarrow> length (lt_returned_data_buf s) = 23 \<and> length (msg_payload (lt_uart_data s)) = 16 \<and>
    lt_returned_data_length s \<le> 16 \<and> lt_data_iterator s < 16"

lemma light_receiver_ok:
  assumes "light_ok s"
  shows "\<exists>s'. light_uart_data_receiver b s = Some s' \<and> light_ok s'"
proof (cases "lt_returned_data_length s > 0 \<and> uint (lt_data_iterator s) < uint (lt_returned_data_length s) - 1")
  case True
  let ?i = "lt_data_iterator s"
  have i: "unat ?i < 15" "unat ?i < 23"
    using True assms by (auto simp: light_ok_def word_le_nat_alt uint_nat simp del: of_nat_unat)
  then have "unat (?i + 1) = Suc (unat ?i)" by (simp add: unat_add_lem [THEN iffD1])
  then have "?i + 1 < 16" using i by (simp add: word_less_nat_alt)
  then show ?thesis
    using True assms i by (auto simp: light_uart_data_receiver_def Let_def light_ok_def)
next
  case False
  have n: "unat (lt_returned_data_length s) \<le> 16" "unat (lt_data_iterator s) < 23"
    using assms by (auto simp: light_ok_def word_le_nat_alt word_less_nat_alt)
  show ?thesis
    using False assms n by (auto simp: light_uart_data_receiver_def Let_def light_ok_def)
qed

lemma uart_packet_limits:
  "length (msg_payload (message_for_main_process (uart_packet_handler a data len n))) = 16"
  "msg_uart_returned_data_length (message_for_main_process (uart_packet_handler a data len n)) \<le> 16"
  by (auto simp: uart_packet_handler_def node_emit_def not_less)

end
