(* ===== verification/Net_Boards.thy ===== *)
theory Net_Boards
  imports Boards Time_Sync Node_Laws Relay Devices
begin

text \<open>
  Concrete nodes for the interfaces and the witnesses: a node on the reference board, and a
  relay on the reference board extended by output pins, which interprets \<open>relay_board\<close>.
\<close>

section \<open>A node\<close>

definition clock0 :: rtc where "clock0 = \<lparr>rtc_sec = 0, rtc_fraction = 0\<rparr>"
definition addr0 :: bytes where "addr0 = replicate 16 1"
definition stale0 :: mem where "stale0 = (\<lambda>_. 0)"
definition junk0 :: ota_metadata where "junk0 = metadata_of_bytes (replicate 16 0)"

definition cfg0 :: node_config where
  "cfg0 = \<lparr>cfg_device_version = 1, cfg_device_group = 5, cfg_sleep_type = 1, cfg_ability_1 = 0,
     cfg_ability_2 = 0, cfg_ability_3 = 0x80, cfg_ability_4 = 0, cfg_big_version = 1,
     cfg_little_version = 2, cfg_class = CLASS_C\<rparr>"

definition env0 :: "board node_env" where
  "env0 = \<lparr>ne_flash = node_flash board_ti, ne_ti = board_ti,
     ne_junk = metadata_of_bytes (replicate 16 0), ne_cfg = cfg0\<rparr>"

definition command0 :: node_command where
  "command0 = \<lparr>msg_data_type = 0, msg_protocol_version = 0, msg_device_version = 0,
     msg_ability_target = 0, msg_ability_number = 0, msg_ability_state = 0,
     msg_uart_returned_data_length = 0, msg_uart_data_length = 0, msg_ready_to_send = 0,
     msg_payload = replicate 16 0\<rparr>"

definition node_with :: "board \<Rightarrow> board node" where
  "node_with d = \<lparr>dev = d, node_up = True, node_mode = MODE_NORMAL, spi_status = SPI_EXT_FLASH_ACTIVE,
     led_mode = LED_OFF, led_a = False, non_answered_packet = 0, root_addr = replicate 16 0,
     message_for_main_process = command0, fw_chunk_quantity = 0, fw_error_counter = 0,
     ota_image_current_offset = 0, node_epoch = epoch_init,
     radio = \<lparr>radio_mode = RADIO_FREEDOM, mac_on = True, ds6_interval = 64, net_off_timer = False\<rparr>,
     running = {}, node_events = []\<rparr>"

definition node0 :: "board node" where "node0 = node_with board0"

lemma epoch_init_ok [simp]: "epoch_ok epoch_init"
  by (simp add: epoch_ok_def epoch_init_def)

lemma node0_simps [simp]:
  "node_mode node0 = MODE_NORMAL" "node_epoch node0 = epoch_init" "root_addr node0 = replicate 16 0"
  "dev node0 = board0" "node_up node0"
  "cfg_device_version (ne_cfg env0) = 1" "ne_flash env0 = node_flash board_ti" "ne_ti env0 = board_ti"
  by (simp_all add: node0_def node_with_def env0_def cfg0_def)

lemma root0_simps [simp]:
  "udp_conn root_node_initialize" "root_epoch root_node_initialize = epoch_init"
  "root_events root_node_initialize = []" "rx_of root_node_initialize = Magic 0"
  "uart_buf root_node_initialize = replicate 1500 0"
  by (simp_all add: root_node_initialize_def rx_of_def fsm_init_def MAX_UART_DATA_LENGTH_def)

section \<open>A relay\<close>

type_synonym pin_board = "board \<times> (u8 \<Rightarrow> bool)"

fun pin_ti :: "pin_board ti" where
  "pin_ti (GPIOSetDio (IOID p)) (b, l) = Some (0, (b, l(p := True)))"
| "pin_ti (GPIOClearDio (IOID p)) (b, l) = Some (0, (b, l(p := False)))"
| "pin_ti (IOCPinTypeGpioOutput (IOID p)) (b, l) = Some (0, (b, l))"
| "pin_ti c (b, l) = map_option (\<lambda>(v, b). (v, (b, l))) (board_ti c b)"

definition pin_closed :: "pin_board \<Rightarrow> bool" where "pin_closed d \<longleftrightarrow> nor_closed 4096 (fst d)"
definition pin_flash :: "pin_board \<Rightarrow> mem" where "pin_flash d = bd_iflash (fst d)"
definition pin_level :: "pin_board \<Rightarrow> u8 \<Rightarrow> bool" where "pin_level d = snd d"

interpretation pin_relay: relay_board pin_ti pin_closed pin_flash pin_level
proof unfold_locales
  fix d :: pin_board
  obtain b l where d: "d = (b, l)" by fastforce
  assume fine: "pin_closed d"
  then have b: "nor_closed 4096 b" by (simp add: d pin_closed_def)
  show "\<exists>d'. pin_ti (MemByte a) d = Some (ucast (pin_flash d (unat a)), d') \<and> pin_closed d' \<and>
      pin_flash d' = pin_flash d \<and> pin_level d' = pin_level d" if "unat a < int_flash_size" for a
    using board_iflash.mem_byte [OF b that] that by (auto simp: d pin_closed_def pin_flash_def pin_level_def)
  show "\<exists>d'. pin_ti (FlashSectorErase a) d = Some (0, d') \<and> pin_closed d' \<and>
      pin_flash d' = fill_ff (unat a div 4096 * 4096) 4096 (pin_flash d) \<and> pin_level d' = pin_level d"
    if "unat a < int_flash_size" for a
    using board_iflash.sector_erase [OF b that] that by (auto simp: d pin_closed_def pin_flash_def pin_level_def)
  show "\<exists>d'. pin_ti (FlashProgram bs a) d = Some (0, d') \<and> pin_closed d' \<and>
      pin_flash d' = and_bytes (unat a) bs (pin_flash d) \<and> pin_level d' = pin_level d"
    if "unat a + length bs \<le> int_flash_size" for a bs
    using board_iflash.program [OF b that] that by (auto simp: d pin_closed_def pin_flash_def pin_level_def)
  show "\<exists>v d'. pin_ti VIMSModeGet d = Some (v, d') \<and> pin_closed d' \<and> pin_flash d' = pin_flash d \<and>
      pin_level d' = pin_level d"
    using board_iflash.vims_get [OF b] by (auto simp: d pin_closed_def pin_flash_def pin_level_def)
  show "\<exists>v d'. pin_ti (VIMSModeSet m) d = Some (v, d') \<and> pin_closed d' \<and> pin_flash d' = pin_flash d \<and>
      pin_level d' = pin_level d" for m
    using board_iflash.vims_set [OF b, of m] by (auto simp: d pin_closed_def pin_flash_def pin_level_def)
  show "\<exists>v d'. pin_ti (IOCPinTypeGpioOutput (IOID p)) d = Some (v, d') \<and> pin_closed d' \<and>
      pin_flash d' = pin_flash d \<and> pin_level d' = pin_level d" for p
    using b by (simp add: d pin_closed_def pin_flash_def pin_level_def)
  show "\<exists>v d'. pin_ti (GPIOSetDio (IOID p)) d = Some (v, d') \<and> pin_closed d' \<and>
      pin_flash d' = pin_flash d \<and> pin_level d' = (pin_level d)(p := True)" for p
    using b by (simp add: d pin_closed_def pin_flash_def pin_level_def)
  show "\<exists>v d'. pin_ti (GPIOClearDio (IOID p)) d = Some (v, d') \<and> pin_closed d' \<and>
      pin_flash d' = pin_flash d \<and> pin_level d' = (pin_level d)(p := False)" for p
    using b by (simp add: d pin_closed_def pin_flash_def pin_level_def)
qed

definition off_flash :: mem where
  "off_flash = (\<lambda>x. if x = unat START_USER_FLASH + 1 \<or> x = unat START_USER_FLASH + 3 then 0 else 0xFF)"

definition relay0 :: "pin_board relay" where
  "relay0 = \<lparr>relay_dev = (board_with 4096 (\<lambda>_. 0xFF) off_flash, \<lambda>_. False), relay_1_state = 0, relay_2_state = 0\<rparr>"

lemma relay0_ok:
  "pin_closed (relay_dev relay0)" "channel_ok pin_flash pin_level b relay0"
  "starts_on_last pin_flash b (relay_dev relay0)" "relay_state b relay0 = 0"
  by (cases b; simp add: relay0_def pin_closed_def channel_ok_def starts_on_last_def relay_state_def pin_level_def
      pin_flash_def off_flash_def user_bytes_def last_offset_def start_offset_def relay_consts
      USER_FLASH_LENGTH_def)+

end
