(* ===== verification/Net_Props.thy ===== *)
theory Net_Props
  imports Net_Boards
begin

text \<open>
  The properties of the clocks, the border router, the nodes and their devices, and of the mesh
  from the host to the flash and the pins; their witnesses on concrete roots, nodes and boards.
\<close>

section \<open>Clocks\<close>

text \<open>C26. A clock that is set to \<open>T\<close> at one moment shows at any other moment \<open>T\<close> plus the time
  that the chip's counter has advanced, to the millisecond, modulo the range of its seconds,
  with milliseconds below 1000; this holds across every carry and borrow, and also for the
  value 1000 that \<open>rtc_ms\<close> gives in the last microseconds of a second.\<close>

theorem clock_keeps_time:
  assumes "milliseconds T < 1000"
  shows "same_ms (time_ms (get_epoch_time c' (set_epoch_time c T e))) (time_ms T + (clock_ms c' - clock_ms c)) \<and>
    milliseconds (get_epoch_time c' (set_epoch_time c T e)) < 1000"
proof -
  note set = set_epoch_offset [OF assms, of c e] and get = get_epoch_offset [OF set_epoch_offset(1) [OF assms]]
  have "same_ms (clock_ms c' + offset_ms (set_epoch_time c T e)) (clock_ms c' + (time_ms T - clock_ms c))"
    using same_ms_add [OF set(2), of "clock_ms c'"] by (simp add: add.commute)
  from same_ms_trans [OF get(2) this] get(1) show ?thesis by (simp add: algebra_simps)
qed

theorem clock_keeps_time_witness:
  "time_ms (get_epoch_time \<lparr>rtc_sec = 8, rtc_fraction = 0x80000000\<rparr>
      (set_epoch_time \<lparr>rtc_sec = 7, rtc_fraction = 0xFFFFFFFF\<rparr> \<lparr>seconds = 100, milliseconds = 5\<rparr> epoch_init))
    mod time_modulus = 100505"
  using clock_keeps_time [of "\<lparr>seconds = 100, milliseconds = 5\<rparr>" "\<lparr>rtc_sec = 8, rtc_fraction = 0x80000000\<rparr>"
      "\<lparr>rtc_sec = 7, rtc_fraction = 0xFFFFFFFF\<rparr>" epoch_init]
  by (simp add: same_ms_def time_modulus_def time_ms_def clock_ms_def rtc_s_def rtc_ms_def)

text \<open>C38. A node takes a time response \<open>d\<close> ms after its request (below 2^32 ms) exactly when half of
  \<open>d\<close>, cut to 16 bits, is at most 3000, and then sets its clock to the root's time minus this
  half. So a response that is 131072 ms late passes as a fresh one.\<close>

theorem time_response_accepted:
  assumes "epoch_ok e" "same_ms (clock_ms c1 - clock_ms c0) d" "0 \<le> d" "d < 2 ^ 32"
    and "rtc_request_time data = get_epoch_time c0 e" "milliseconds (rtc_root_time data) < 1000"
  shows "if d div 2 mod 65536 \<le> 3000
    then fst (time_data_handler c1 data e) \<noteq> None \<and>
      same_ms (time_ms (get_epoch_time c1 (snd (time_data_handler c1 data e))))
        (time_ms (rtc_root_time data) - d div 2 mod 65536)
    else time_data_handler c1 data e = (None, e)"
proof (cases "d div 2 mod 65536 \<le> 3000")
  case True
  note r = response_sets_clock [OF assms True]
  show ?thesis using True r(1) [of c1] r(2) by auto
next
  case False
  then show ?thesis using response_dropped [OF assms(1-5)] by simp
qed

definition stale_packet :: bytes where
  "stale_packet = time_response \<lparr>seconds = 5000, milliseconds = 500\<rparr>
     (rx_buffer (time_request \<lparr>seconds = 10, milliseconds = 0\<rparr>) (\<lambda>_. 0))"

text \<open>A response that comes 131 s and 72 ms after the request sets the clock to the root's time at its sending.\<close>

theorem time_response_accepted_witness:
  "same_ms (time_ms (get_epoch_time \<lparr>rtc_sec = 141, rtc_fraction = 0x12722E50\<rparr>
      (snd (time_data_handler \<lparr>rtc_sec = 141, rtc_fraction = 0x12722E50\<rparr> (rx_buffer stale_packet (\<lambda>_. 0)) epoch_init))))
    5000500"
proof -
  let ?c0 = "\<lparr>rtc_sec = 10, rtc_fraction = 0\<rparr>" and ?c1 = "\<lparr>rtc_sec = 141, rtc_fraction = 0x12722E50\<rparr>"
  have c: "same_ms (clock_ms ?c1 - clock_ms ?c0) 131072"
    by (simp add: clock_ms_def rtc_s_def rtc_ms_def)
  have t: "get_epoch_time ?c0 epoch_init = \<lparr>seconds = 10, milliseconds = 0\<rparr>"
    by (simp add: get_epoch_time_def epoch_init_def rtc_s_def rtc_ms_def)
  have q: "rtc_request_time (rx_buffer stale_packet (\<lambda>_. 0)) = get_epoch_time ?c0 epoch_init"
    and r: "rtc_root_time (rx_buffer stale_packet (\<lambda>_. 0)) = \<lparr>seconds = 5000, milliseconds = 500\<rparr>"
    unfolding t stale_packet_def by (rule time_response_fields)+
  show ?thesis
    using time_response_accepted [OF epoch_init_ok c _ _ q]
    by (simp add: r time_ms_def)
qed

text \<open>C25. A whole synchronisation: the node asks, the root answers with its time, the node, \<open>d\<close> ms
  after asking, corrects its clock. When \<open>late\<close> ms have passed since the root took its time,
  the node is \<open>late\<close> plus half of \<open>d\<close> behind the root: the half transit time is subtracted
  where it should be added, so with equal delays the error is the whole transit time.\<close>

theorem time_sync_lags:
  assumes "epoch_ok (node_epoch n)" "epoch_ok (root_epoch r)" "node_mode n = MODE_NORMAL" "udp_conn r"
    and "cfg_device_version (ne_cfg E) = DEVICE_VERSION_V1"
    and "same_ms (clock_ms cn - clock_ms cq) d" "0 \<le> d" "d \<le> 6001"
    and "same_ms (clock_ms cr' - clock_ms cr) late"
  shows "\<exists>request response n'.
    node_events (send_time_sync_req_packet E cq n) = node_events n @ [Node_Udp (root_addr n) request] \<and>
    root_events (udp_data_receiver cr a (rx_buffer request stale) 16 r) = root_events r @ [Udp_Sendto a response] \<and>
    udp_receiver E cn b (rx_buffer response stale') 16 (send_time_sync_req_packet E cq n) = Some n' \<and>
    same_ms (time_ms (get_epoch_time cr' (root_epoch r)) - time_ms (get_epoch_time cn (node_epoch n')))
      (late + d div 2)"
proof -
  let ?q = "get_epoch_time cq (node_epoch n)" and ?t = "get_epoch_time cr (root_epoch r)"
  let ?m = "rx_buffer (time_request ?q) stale"
  let ?data = "rx_buffer (time_response ?t ?m) stale'"
  have small: "d div 2 mod 65536 = d div 2" "d div 2 mod 65536 \<le> 3000" using assms(7,8) by auto
  have "same_ms (time_ms (get_epoch_time cn (snd (time_data_handler cn ?data (node_epoch n)))))
      (time_ms ?t - d div 2 + (clock_ms cn - clock_ms cn))"
    using response_sets_clock(1) [OF assms(1,6,7), of ?data cn] get_epoch_offset(1) [OF assms(2)] assms(8) small
    by (simp add: time_response_fields)
  moreover have "same_ms (time_ms (get_epoch_time cr' (root_epoch r)) - time_ms ?t) late"
    by (rule clock_elapsed [OF assms(2,9)])
  ultimately have "same_ms (time_ms (get_epoch_time cr' (root_epoch r)) - time_ms ?t
      - (time_ms (get_epoch_time cn (snd (time_data_handler cn ?data (node_epoch n)))) - time_ms ?t))
      (late - (- (d div 2)))"
    by (intro same_ms_diff) (auto dest: same_ms_add [where z = "- time_ms ?t"])
  then have "same_ms (time_ms (get_epoch_time cr' (root_epoch r))
      - time_ms (get_epoch_time cn (snd (time_data_handler cn ?data (node_epoch n))))) (late + d div 2)"
    by (simp add: algebra_simps)
  then show ?thesis
    using node_requests [OF assms(3), of E cq] root_answers [OF assms(4)] node_accepts [OF assms(5)]
    by (intro exI [of _ "time_request ?q"] exI [of _ "time_response ?t ?m"]) (simp add: emit_def node_epoch_handler)
qed

theorem time_sync_lags_witness:
  "\<exists>request response n'.
    root_events (udp_data_receiver \<lparr>rtc_sec = 900, rtc_fraction = 0\<rparr> (replicate 16 7) (rx_buffer request (\<lambda>_. 0)) 16
      root_node_initialize) = [Udp_Sendto (replicate 16 7) response] \<and>
    udp_receiver env0 \<lparr>rtc_sec = 12, rtc_fraction = 0\<rparr> (replicate 16 1) (rx_buffer response (\<lambda>_. 0)) 16
      (send_time_sync_req_packet env0 \<lparr>rtc_sec = 10, rtc_fraction = 0\<rparr> node0) = Some n' \<and>
    same_ms (time_ms (get_epoch_time \<lparr>rtc_sec = 901, rtc_fraction = 0\<rparr> epoch_init)
      - time_ms (get_epoch_time \<lparr>rtc_sec = 12, rtc_fraction = 0\<rparr> (node_epoch n'))) 2000"
  using time_sync_lags [where n = node0 and r = root_node_initialize and E = env0
      and cq = "\<lparr>rtc_sec = 10, rtc_fraction = 0\<rparr>" and cn = "\<lparr>rtc_sec = 12, rtc_fraction = 0\<rparr>" and d = 2000
      and cr = "\<lparr>rtc_sec = 900, rtc_fraction = 0\<rparr>" and cr' = "\<lparr>rtc_sec = 901, rtc_fraction = 0\<rparr>" and late = 1000
      and a = "replicate 16 7" and b = "replicate 16 1" and stale = "\<lambda>_. 0" and stale' = "\<lambda>_. 0"]
  by (simp add: DEVICE_VERSION_V1_def clock_ms_def rtc_s_def rtc_ms_def) blast

section \<open>The border router\<close>

text \<open>C5. In every state that bytes, packets and the sending process can reach, one byte of the UART
  takes the receiver to the state that its specification \<open>rx_step\<close> (magic bytes, header, body as
  lists) prescribes; nothing is sent and no message slot changes unless the byte completes a
  frame, and then exactly the frame's payload is processed and the receiver is idle again.\<close>

theorem uart_receiver_refines:
  assumes "root_reach r"
  shows "case rx_step (rx_of r) b of
      (s, None) \<Rightarrow> \<exists>f buf. uart_data_receiver c b r = Some (r\<lparr>fsm := f, uart_buf := buf\<rparr>) \<and>
        rx_of (r\<lparr>fsm := f, uart_buf := buf\<rparr>) = s
    | (s, Some p) \<Rightarrow> s = Magic 0 \<and> uart_data_receiver c b r = frame_done c p r \<and>
        (\<forall>r'. uart_data_receiver c b r = Some r' \<longrightarrow> rx_of r' = s)"
proof (cases "rx_step (rx_of r) b")
  case (Pair s out)
  note ok = root_reach_ok [OF assms]
  show ?thesis
  proof (cases out)
    case None
    obtain f buf where "uart_data_receiver c b r = Some (r\<lparr>fsm := f, uart_buf := buf\<rparr>)"
      "rx_of (r\<lparr>fsm := f, uart_buf := buf\<rparr>) = s"
      using receiver_quiet [OF ok Pair [unfolded None]] by metis
    then show ?thesis unfolding Pair None by auto
  next
    case (Some p)
    note f = receiver_frame [OF ok Pair [unfolded Some]]
    show ?thesis using Pair Some f(1) f(2) [of c] frame_done_result(2) [OF ok f(4)] by simp
  qed
qed

theorem uart_receiver_refines_witness:
  "\<exists>f buf. uart_data_receiver clock0 0x01 root_node_initialize = Some (root_node_initialize\<lparr>fsm := f, uart_buf := buf\<rparr>) \<and>
    rx_of (root_node_initialize\<lparr>fsm := f, uart_buf := buf\<rparr>) = Magic 1"
  using uart_receiver_refines [OF root_reach.start, where b = 1 and c = clock0] by (simp add: uart_magic_sequence_def)

text \<open>C9. In every reachable state of the root the buffers have their sizes and the counters of the
  receiver stay in range. The sending process reads behind an array exactly when a UART message
  waits whose length byte is above the 16 bytes of its payload: the print before the packet then
  shows bytes that are not the message's. A byte of the UART leaves an array exactly when it
  completes a frame of type FIRMWARE whose payload is shorter than its 23 bytes of head or
  longer than these and 600 bytes of firmware.\<close>

theorem root_memory_safe:
  assumes "root_reach r"
  shows "root_ok r \<and>
    (\<exists>r' evs. send_command_process r = Some r' \<and> root_events r' = root_events r @ evs \<and>
      ((\<exists>ev\<in>set evs. past_payload ev) \<longleftrightarrow>
        ud_ready_to_send (uart_message r) \<noteq> 0 \<and> 16 < ud_data_lenth (uart_message r))) \<and>
    (uart_data_receiver c b r = None \<longleftrightarrow>
      (\<exists>s p. rx_step (rx_of r) b = (s, Some p) \<and> oversized (p @ drop (length p) (uart_buf r)) (length p)))"
  using root_reach_ok [OF assms] send_command_process_prints [OF root_reach_ok [OF assms] root_reach_conn [OF assms]]
    receiver_defined by blast

text \<open>One frame of the host, 27 bytes with the length byte 200, makes the root print 184 bytes behind the payload.\<close>

definition long_print :: bytes where
  "long_print = host_payload (replicate 16 9) 1 1 DATA_TYPE_UART [200, 0, 1, 2, 3, 4, 5, DATA_TYPE_UART]"

theorem root_memory_safe_witness:
  "\<exists>r r' evs. uart_receive clock0 (uart_frame 0 long_print) root_node_initialize = Some r \<and>
    send_command_process r = Some r' \<and> root_events r' = root_events r @ evs \<and> (\<exists>ev\<in>set evs. past_payload ev)"
proof -
  let ?r = root_node_initialize
  have p: "0 < length long_print" "length long_print \<le> 1500" by (simp_all add: long_print_def host_payload_def)
  define buf where "buf = long_print @ drop (length long_print) (uart_buf ?r)"
  obtain f where f: "uart_receive clock0 (uart_frame 0 long_print) ?r = do {
      q \<leftarrow> uart_packet_processed clock0 buf (of_nat (length long_print)) (?r\<lparr>fsm := f, uart_buf := buf\<rparr>);
      Some (q\<lparr>fsm := fsm_reset (fsm q)\<rparr>) }"
    using frame_handled [OF root_ok_init root0_simps(4) p] unfolding buf_def by blast
  have b: "buf ! 18 = DATA_TYPE_UART" "buf ! 26 = DATA_TYPE_UART" "buf ! 19 = 200"
    by (simp_all add: buf_def long_print_def host_payload_def nth_append)
  have stored: "uart_packet_processed clock0 buf n q = Some (uart_uart_stored buf q)" for n q
    unfolding uart_packet_processed_def b(1,2) by (simp add: frame_types)
  have slot: "ud_ready_to_send (uart_message (q\<lparr>fsm := g\<rparr>)) \<noteq> 0 \<and> 16 < ud_data_lenth (uart_message (q\<lparr>fsm := g\<rparr>))"
    if "q = uart_uart_stored buf q'" for q q' g
    by (simp add: that uart_uart_stored_def b(3))
  define q where "q = uart_uart_stored buf (?r\<lparr>fsm := f, uart_buf := buf\<rparr>)"
  define r where "r = q\<lparr>fsm := fsm_reset (fsm q)\<rparr>"
  have r: "uart_receive clock0 (uart_frame 0 long_print) ?r = Some r"
    "ud_ready_to_send (uart_message r) \<noteq> 0" "16 < ud_data_lenth (uart_message r)"
    unfolding f stored bind.bind_lunit using slot [OF q_def] by (simp_all only: q_def [symmetric] r_def simp_thms)
  obtain r' evs where "send_command_process r = Some r'" "root_events r' = root_events r @ evs"
    "\<exists>ev\<in>set evs. past_payload ev"
    using root_memory_safe [OF receive_reach [OF root_reach.start r(1)], of clock0 0] r(2,3) by auto
  with r(1) show ?thesis by blast
qed

text \<open>A frame of the host with a command for a node, arriving while the receiver is idle and
  nothing waits to be sent, makes the sending process send the command unchanged to the
  address in the frame, whatever the CRC byte of the frame is; if byte 26 of the receive buffer
  is the type UART, a second packet of that type is sent.\<close>

theorem root_forwards_command:
  assumes "root_reach r" "rx_of r = Magic 0" "slots_empty r" "length addr = 16" "length rest \<le> 1400"
    and "p = host_payload addr version device DATA_TYPE_COMMAND (target # number # state # rest)"
  shows "\<exists>r1 r2. uart_receive c (uart_frame crc p) r = Some r1 \<and> send_command_process r1 = Some r2 \<and>
    root_events r2 = root_events r @
      [Udp_Sendto addr [version, device, DATA_TYPE_COMMAND, target, number, state,
        DATA_RESERVED, DATA_RESERVED, DATA_RESERVED, DATA_RESERVED]] @
      extra_uart (p @ drop (length p) (uart_buf r)) \<and>
    slots_empty r2 \<and> rx_of r2 = Magic 0"
proof -
  let ?buf = "p @ drop (length p) (uart_buf r)"
  have len: "0 < length p" "length p \<le> 1500" using assms(4,5) by (simp_all add: assms(6) host_payload_def)
  note b = host_payload_bytes [OF assms(4), where version = version and device = device and kind = DATA_TYPE_COMMAND
      and rest = "target # number # state # rest" and tail = "drop (length p) (uart_buf r)", folded assms(6)]
  have packet: "command_packet_of ?buf = [version, device, DATA_TYPE_COMMAND, target, number, state,
      DATA_RESERVED, DATA_RESERVED, DATA_RESERVED, DATA_RESERVED]"
    using b(2,3) b(5) [of 0] b(5) [of 1] b(5) [of 2] by (simp add: command_packet_of_def)
  show ?thesis
    using command_forwarded [OF root_reach_ok [OF assms(1)] assms(2) root_reach_conn [OF assms(1)] assms(3) len b(4), of c crc]
    unfolding packet b(1) by blast
qed

theorem root_forwards_command_witness:
  "\<exists>r1 r2. uart_receive clock0 (uart_frame 0 (host_payload (replicate 16 9) 1 1 DATA_TYPE_COMMAND [17, 1, 1]))
      root_node_initialize = Some r1 \<and> send_command_process r1 = Some r2 \<and>
    root_events r2 = [Udp_Sendto (replicate 16 9) [1, 1, DATA_TYPE_COMMAND, 17, 1, 1,
      DATA_RESERVED, DATA_RESERVED, DATA_RESERVED, DATA_RESERVED]]"
  using root_forwards_command [OF root_reach.start root0_simps(4) slots_empty_init,
      of "replicate 16 9" "[]" _ 1 1 17 1 1 clock0 0, OF _ _ refl]
  by (simp add: extra_uart_def host_payload_def nth_append DATA_TYPE_UART_def) blast

text \<open>A frame of the host with up to 600 bytes of firmware makes the sending process send a packet
  with the four bytes after the type and exactly these firmware bytes, followed by a print and a
  packet of type UART when the fourth firmware byte (byte 26 of the receive buffer) is 0x0D: the
  code asks for the type there instead of at byte 18.\<close>

lemma root_forwards_chunk:
  assumes "root_reach r" "rx_of r = Magic 0" "slots_empty r" "length addr = 16" "length chunk \<le> 600"
    and "p = host_payload addr version device DATA_TYPE_FIRMWARE ([n1, n2, r1, r2] @ chunk)"
  shows "\<exists>s t. uart_receive c (uart_frame crc p) r = Some s \<and> send_command_process s = Some t \<and>
    root_events t = root_events r @
      [Udp_Sendto addr ([version, device, DATA_TYPE_FIRMWARE, n1, n2, r1, r2] @ chunk)] @
      (if (chunk @ drop (length p) (uart_buf r)) ! 3 = DATA_TYPE_UART
       then [uart_print_of (p @ drop (length p) (uart_buf r)),
         Udp_Sendto addr (uart_packet_of (p @ drop (length p) (uart_buf r)))] else []) \<and>
    slots_empty t \<and> rx_of t = Magic 0"
proof -
  let ?buf = "p @ drop (length p) (uart_buf r)"
  have len: "23 \<le> length p" "length p \<le> 623" "length p - 23 = length chunk"
    using assms(4,5) by (simp_all add: assms(6) host_payload_def)
  note b = host_payload_bytes [OF assms(4), where version = version and device = device and kind = DATA_TYPE_FIRMWARE
      and rest = "[n1, n2, r1, r2] @ chunk" and tail = "drop (length p) (uart_buf r)", folded assms(6)]
  have "drop 4 (drop 19 ?buf) = chunk @ drop (length p) (uart_buf r)" unfolding b(6) by simp
  then have rest: "drop 23 ?buf = chunk @ drop (length p) (uart_buf r)" by (simp del: drop_append)
  have packet: "chunk_packet_of ?buf (length p) = [version, device, DATA_TYPE_FIRMWARE, n1, n2, r1, r2] @ chunk"
    unfolding chunk_packet_of_def rest using b(2,3) b(5) [of 0] b(5) [of 1] b(5) [of 2] b(5) [of 3] len(3) by simp
  have "?buf ! 26 = drop 23 ?buf ! 3" using len root_reach_ok [OF assms(1)]
    by (subst nth_drop) (auto simp: root_ok_def buffers_ok_def MAX_UART_DATA_LENGTH_def)
  then have extra: "extra_uart ?buf = (if (chunk @ drop (length p) (uart_buf r)) ! 3 = DATA_TYPE_UART
       then [uart_print_of ?buf, Udp_Sendto addr (uart_packet_of ?buf)] else [])"
    by (simp only: extra_uart_def rest b(1))
  show ?thesis
    using chunk_forwarded [OF root_reach_ok [OF assms(1)] assms(2) root_reach_conn [OF assms(1)] assms(3)
        len(1,2) b(4), of c crc]
    unfolding packet b(1) extra .
qed

text \<open>Six firmware bytes, the fourth of them 0x0D: the node gets a UART packet, too.\<close>

theorem root_forwards_chunk_witness:
  "\<exists>s t print packet. uart_receive clock0 (uart_frame 0 (host_payload (replicate 16 9) 1 1 DATA_TYPE_FIRMWARE [2, 0, 0, 0, 1, 2, 3, 13, 5, 6]))
      root_node_initialize = Some s \<and> send_command_process s = Some t \<and>
    root_events t = [Udp_Sendto (replicate 16 9) [1, 1, DATA_TYPE_FIRMWARE, 2, 0, 0, 0, 1, 2, 3, 13, 5, 6],
      print, Udp_Sendto (replicate 16 9) packet]"
  using root_forwards_chunk [OF root_reach.start root0_simps(4) slots_empty_init,
      where addr = "replicate 16 9" and chunk = "[1, 2, 3, 13, 5, 6]" and version = 1 and device = 1
      and ?n1.0 = 2 and ?n2.0 = 0 and ?r1.0 = 0 and ?r2.0 = 0 and c = clock0 and crc = 0, OF _ _ refl]
  by (simp add: DATA_TYPE_UART_def) blast

text \<open>A frame of the host of type UART is dropped unless byte 26 of the receive buffer happens to
  be 0x0D as well: it is received, but the process then has nothing to send.\<close>

theorem uart_frame_dropped:
  assumes "root_reach r" "rx_of r = Magic 0" "slots_empty r" "0 < length p" "length p \<le> 1500"
    and "(p @ drop (length p) (uart_buf r)) ! 18 = DATA_TYPE_UART"
    and "(p @ drop (length p) (uart_buf r)) ! 26 \<noteq> DATA_TYPE_UART"
  shows "\<exists>s. uart_receive c (uart_frame crc p) r = Some s \<and> send_command_process s = Some s \<and>
    root_events s = root_events r \<and> slots_empty s \<and> rx_of s = Magic 0"
proof -
  obtain f where f: "uart_receive c (uart_frame crc p) r = do {
      q \<leftarrow> uart_packet_processed c (p @ drop (length p) (uart_buf r)) (of_nat (length p))
        (r\<lparr>fsm := f, uart_buf := p @ drop (length p) (uart_buf r)\<rparr>);
      Some (q\<lparr>fsm := fsm_reset (fsm q)\<rparr>) }"
    using frame_handled [OF root_reach_ok [OF assms(1)] assms(2,4,5)] by blast
  show ?thesis
    unfolding f using assms(3,6,7)
    by (simp add: uart_packet_processed_def frame_types slots_empty_def send_command_process_def poll_command_def
        poll_firmware_def poll_firmware_cmd_def poll_uart_def fsm_reset_magic)
qed

theorem uart_frame_dropped_witness:
  "\<exists>s. uart_receive clock0 (uart_frame 0 (host_payload (replicate 16 9) 1 1 DATA_TYPE_UART [8, 2, 1, 2, 3, 4, 5, 6, 7, 8]))
      root_node_initialize = Some s \<and> root_events s = []"
  using uart_frame_dropped [OF root_reach.start root0_simps(4) slots_empty_init,
      where p = "host_payload (replicate 16 9) 1 1 DATA_TYPE_UART [8, 2, 1, 2, 3, 4, 5, 6, 7, 8]" and c = clock0 and crc = 0]
  by (simp add: host_payload_def DATA_TYPE_UART_def nth_append) blast

text \<open>A frame whose length field is 0 locks the receiver: whatever bytes follow, no frame is ever
  processed again, nothing is sent for the host, and all slots stay as they were.\<close>

lemma empty_frame_stops_receiver:
  assumes "root_reach r" "rx_of r = Magic 0"
  shows "\<exists>f buf. uart_receive c (uart_frame crc [] @ bs) r = Some (r\<lparr>fsm := f, uart_buf := buf\<rparr>) \<and>
    rx_of (r\<lparr>fsm := f, uart_buf := buf\<rparr>) = Body 0 []"
  using empty_frame_locks [OF root_reach_ok [OF assms(1)] assms(2), of c crc bs] by metis

theorem empty_frame_stops_receiver_witness:
  "\<exists>r. uart_receive clock0 (uart_frame 0 [] @ uart_frame 0 (host_payload (replicate 16 9) 1 1 DATA_TYPE_COMMAND [17, 1, 1]))
      root_node_initialize = Some r \<and> root_events r = [] \<and> slots_empty r"
proof -
  obtain f buf where "uart_receive clock0 (uart_frame 0 [] @ uart_frame 0
      (host_payload (replicate 16 9) 1 1 DATA_TYPE_COMMAND [17, 1, 1])) root_node_initialize =
        Some (root_node_initialize\<lparr>fsm := f, uart_buf := buf\<rparr>)"
    using empty_frame_stops_receiver [OF root_reach.start root0_simps(4)] by blast
  then show ?thesis using slots_empty_init by (simp add: slots_empty_def)
qed

text \<open>C35. A packet of a node of 10 or 23 bytes that joins, reports its status or a sensor event is
  answered (the join with a confirmation) and printed for the host on a line of 99 characters
  from which the address of the node and the whole packet can be read back.\<close>

theorem root_reports_packet:
  assumes "udp_conn r" "length a = 16" "length packet = 10 \<or> length packet = 23"
    and "packet ! 0 = PROTOCOL_VERSION_V1" "packet ! 2 \<in> {DATA_TYPE_JOIN, DATA_TYPE_STATUS, DATA_TYPE_SENSOR_DATA}"
  shows "\<exists>answer line. root_events (udp_data_receiver c a (rx_buffer packet stale) (of_nat (length packet)) r) =
      root_events r @ [Udp_Sendto a answer, Raw_Print line] \<and>
    answer ! 2 = (if packet ! 2 = DATA_TYPE_JOIN then DATA_TYPE_JOIN_CONFIRM else DATA_TYPE_PONG) \<and>
    length line = 99 \<and> take 11 line = ''DAGROOTRAW1'' \<and> unhex (take 32 (drop 11 line)) = a \<and>
    unhex (take (2 * length packet) (drop 43 line)) = packet"
proof -
  let ?d = "rx_buffer packet stale" and ?n = "of_nat (length packet) :: u16"
  have d: "?d 0 = PROTOCOL_VERSION_V1" "?d 2 = packet ! 2" "map ?d [0..<length packet] = packet"
    using assms(3,4) by (auto simp: rx_buffer_nth intro: nth_equalityI)
  let ?line = "raw_line a packet"
  have print: "root_events (dag_root_raw_print (Some a) (Some ?d) ?n q) = root_events q @ [Raw_Print ?line]" for q
    using raw_print_line [OF assms(3) d(3), of a q] assms(2) by (simp add: emit_def)
  define answer where "answer = [PROTOCOL_VERSION_V1, DEVICE_VERSION_V1,
    if packet ! 2 = DATA_TYPE_JOIN then DATA_TYPE_JOIN_CONFIRM else DATA_TYPE_PONG, DATA_RESERVED, DATA_RESERVED,
    DATA_RESERVED, DATA_RESERVED, DATA_RESERVED, DATA_RESERVED, DATA_RESERVED]"
  have "root_events (udp_data_receiver c a ?d ?n r) = root_events r @ [Udp_Sendto a answer, Raw_Print ?line]"
    using assms(1,5) d(1,2)
    by (auto simp: udp_data_receiver_def decrypted_data_processed_def send_confirmation_packet_def
        send_pong_packet_def simple_udp_sendto_def emit_def answer_def print DATA_TYPE_JOIN_def
        DATA_TYPE_STATUS_def DATA_TYPE_SENSOR_DATA_def)
  moreover have "answer ! 2 = (if packet ! 2 = DATA_TYPE_JOIN then DATA_TYPE_JOIN_CONFIRM else DATA_TYPE_PONG)"
    by (simp add: answer_def)
  ultimately show ?thesis using raw_line_reads [OF assms(2,3)] by blast
qed

theorem root_reports_packet_witness:
  "\<exists>answer line. root_events (udp_data_receiver clock0 (replicate 16 9)
      (rx_buffer [1, 1, DATA_TYPE_SENSOR_DATA, 1, 0xFF, 0x61, 1, 0xFF, 0xFF, 0xFF] stale0) 10 root_node_initialize) =
      [Udp_Sendto (replicate 16 9) answer, Raw_Print line] \<and>
    unhex (take 20 (drop 43 line)) = [1, 1, DATA_TYPE_SENSOR_DATA, 1, 0xFF, 0x61, 1, 0xFF, 0xFF, 0xFF]"
  using root_reports_packet [OF root0_simps(1), of "replicate 16 9"
      "[1, 1, DATA_TYPE_SENSOR_DATA, 1, 0xFF, 0x61, 1, 0xFF, 0xFF, 0xFF]" clock0 stale0]
  by (simp add: PROTOCOL_VERSION_V1_def) blast

section \<open>Firmware over the mesh\<close>

text \<open>C1. A whole update: the root announces an image of up to 170 chunks, the node erases slot 1,
  requests the chunks one after the other and gets each of them. The slot then holds the chunks in
  the order of arrival, padded with 0xFF. This holds for every unit \<open>s\<close> that the erase instruction
  0xD8 clears, as long as it consists of whole 4096-byte pages (64 KB on the M25P40, the part that
  the driver looks for), and nothing outside the units that the pages of the slot lie in changes;
  with 64 KB these units reach into the golden image and into slot 2. If the stored CRC is that of the image and the UUID that of the running firmware, the node resets, and the
  bootloader installs and starts exactly this image with the flag NEW_IMG_INT; otherwise the node
  keeps running and its internal flash is untouched.\<close>

theorem firmware_update_installs:
  assumes "flash_board F s closed opened idle xmem imem ti" "boot_device s closed opened' idle' xmem imem ti"
    and "0 < s" "4096 dvd s"
    and "closed (dev n)" "ne_flash E = F" "ne_ti E = ti" "node_up n"
    and "spi_status n = SPI_EXT_FLASH_ACTIVE" "fw_chunk_num th = 0" "cs \<noteq> []"
    and "\<forall>(numbers, chunk)\<in>set cs. length numbers = 4 \<and> length chunk = 600" "600 * length cs \<le> image_bytes"
    and "length cs = unat (u16_of_bytes ql qh)" "x = after_download s cs (xmem (dev n))"
    and "0x32100 + 4 * crc_words 0x32100 (om_size (slot_metadata x 1)) \<le> ext_flash_size"
    and "images_fit (imem (dev n)) x"
  shows "\<exists>th' n'. fw_session E c a stale (new_fw_packet E qh ql)
      (map (\<lambda>(numbers, chunk). fw_packet E numbers chunk) cs) th n = Some (th', n') \<and>
    fw_pc th' = Fw_Ended \<and> xmem (dev n') = x \<and> slot_image x 1 = downloaded cs \<and>
    (\<forall>a. (\<forall>i<25. (slot_addr 1 + 4096 * i) div s \<noteq> a div s) \<longrightarrow> x a = xmem (dev n) a) \<and>
    (if accepted x (imem (dev n))
     then last (node_events n') = Node_System_Reset \<and>
       (\<exists>d. boot_run 2 ti junk (dev n') = Some (Jumped (reset_vector (imem d)), d) \<and>
         running_code (imem d) = drop 256 (downloaded cs) \<and> stored_flag (imem d) = FW_FLAG_NEW_IMG_INT)
     else node_up n' \<and> imem (dev n') = imem (dev n))"
proof -
  note session = flash_board.session_ok [OF assms(1,5-7,3,4,8-14), folded after_download_def, folded assms(15),
      OF assms(16), of c a stale]
  obtain th' n' where n': "fw_session E c a stale (new_fw_packet E qh ql)
      (map (\<lambda>(numbers, chunk). fw_packet E numbers chunk) cs) th n = Some (th', n')"
    "fw_pc th' = Fw_Ended" "closed (dev n')" "xmem (dev n') = x"
    "outside_user (imem (dev n')) = outside_user (imem (dev n))"
    "if accepted x (imem (dev n))
     then stored_flag (imem (dev n')) = FW_FLAG_NEW_IMG_EXT \<and> \<not> node_up n' \<and> last (node_events n') = Node_System_Reset
     else imem (dev n') = imem (dev n) \<and> node_up n'"
    using session by blast
  have len: "length (concat (map snd cs)) \<le> image_bytes" using length_chunks [OF assms(12)] assms(13) by simp
  have image: "slot_image x 1 = downloaded cs"
    unfolding assms(15) by (rule slot_image_downloaded [OF assms(3,4) len])
  have rest: "\<forall>a. (\<forall>i<25. (slot_addr 1 + 4096 * i) div s \<noteq> a div s) \<longrightarrow> x a = xmem (dev n) a"
    unfolding assms(15) slot_1_addr using after_download_outside [OF assms(3,4) len] by blast
  have "images_fit (imem (dev n')) (xmem (dev n'))"
    using assms(17) images_fit_outside [OF n'(5)] n'(4) by simp
  note boot = boot_device.boot_run_ok [OF assms(2) n'(3) this, of junk]
  have "effective_flag (imem (dev n')) = FW_FLAG_NEW_IMG_EXT" if "accepted x (imem (dev n))"
    using n'(6) that by (intro effective_stored) (simp_all add: fw_flag_valid_def)
  then show ?thesis
    using n' image boot by (intro exI [of _ th'] exI [of _ n'] conjI rest) (auto simp: settled_plan_def fw_flag_defs slot_code_image)
qed

definition tiny_chunk :: bytes where
  "tiny_chunk = [0x03, 0x0D, 0x03, 0x0D, 4, 0, 0, 0, 0xFF, 0xFF, 0xFF, 0xFF, 1, 0, 0xFF, 0xFF]
     @ replicate 240 0xFF @ [1, 2, 3, 4] @ replicate 340 0xFF"

definition tiny_slot :: mem where "tiny_slot = after_download 65536 [([0, 0, 0, 0], tiny_chunk)] (\<lambda>_. 0xFF)"

lemma tiny_slot_at:
  "tiny_slot a = (if 0x32000 \<le> a \<and> a < 0x32000 + length tiny_chunk then tiny_chunk ! (a - 0x32000) else 0xFF)"
  by (simp add: tiny_slot_def after_download_def put_bytes_def erase_sectors_at del: erase_sectors.simps)

lemma length_tiny_chunk: "length tiny_chunk = 600"
  by (simp add: tiny_chunk_def)

lemma tiny_metadata:
  "slot_metadata tiny_slot 1 = \<lparr>om_crc = 0x0D03, om_crc_shadow = 0x0D03, om_size = 4, om_uuid = 0xFFFFFFFF,
     om_version = 1, om_pad = 0xFFFF\<rparr>"
proof -
  have "take OTA_METADATA_LENGTH (slot_image tiny_slot 1) = take 16 tiny_chunk"
    unfolding tiny_slot_def
    by (subst slot_image_downloaded)
      (simp_all add: downloaded_def OTA_METADATA_LENGTH_def length_tiny_chunk image_bytes_def)
  also have "\<dots> = [0x03, 0x0D, 0x03, 0x0D, 4, 0, 0, 0, 0xFF, 0xFF, 0xFF, 0xFF, 1, 0, 0xFF, 0xFF]"
    by (simp add: tiny_chunk_def)
  finally show ?thesis
    by (simp add: slot_metadata_image metadata_of_bytes_def u16_of_bytes_def u32_of_bytes_def)
qed

lemma tiny_other: "slot_metadata tiny_slot 0 = slot_metadata (\<lambda>_. 0xFF) 0"
proof -
  have "read_mem tiny_slot 0x19000 16 = read_mem (\<lambda>_. 0xFF) 0x19000 16"
    by (intro nth_equalityI) (simp_all add: tiny_slot_at)
  then show ?thesis by (simp add: slot_metadata_def slot_addr_def OTA_METADATA_LENGTH_def)
qed

lemma tiny_accepted: "accepted tiny_slot (\<lambda>_. 0xFF)"
proof -
  have "read_mem tiny_slot 0x32100 4 = take 4 (drop 256 tiny_chunk)"
    by (intro nth_equalityI) (simp_all add: tiny_slot_at length_tiny_chunk)
  also have "\<dots> = [1, 2, 3, 4]" by (simp add: tiny_chunk_def)
  finally have code: "read_mem tiny_slot 0x32100 4 = [1, 2, 3, 4]" .
  have crc: "image_crc [1, 2, 3, 4] = 0x0D03" by code_simp
  have "crc_words 0x32100 4 = 1" by (simp add: crc_words_def)
  then show ?thesis
    by (simp add: accepted_def tiny_metadata code crc metadata_of_bytes_def OTA_METADATA_LENGTH_def u32_of_bytes_def)
qed

lemma tiny_fits: "images_fit (\<lambda>_. 0xFF) tiny_slot"
  by (simp add: images_fit_def sizes_ok_def empty_running_size tiny_metadata tiny_other empty_metadata
      crc_words_def int_flash_size_def)

lemma tiny_reads: "0x32100 + 4 * crc_words 0x32100 (om_size (slot_metadata tiny_slot 1)) \<le> ext_flash_size"
  by (simp add: tiny_metadata crc_words_def ext_flash_size_def)

text \<open>An image of one chunk is downloaded, installed and started, on a flash that erases 64 KB at once.\<close>

definition node_64k :: "board node" where "node_64k = node_with (board_with 65536 (\<lambda>_. 0xFF) (\<lambda>_. 0xFF))"

lemma node_64k_simps:
  "dev node_64k = board_with 65536 (\<lambda>_. 0xFF) (\<lambda>_. 0xFF)" "node_up node_64k" "spi_status node_64k = SPI_EXT_FLASH_ACTIVE"
  by (simp_all add: node_64k_def node_with_def)

theorem firmware_update_installs_witness:
  "\<exists>th n. fw_session env0 clock0 addr0 stale0 (new_fw_packet env0 0 1) [fw_packet env0 [0, 0, 0, 0] tiny_chunk]
      \<lparr>fw_pc = Fw_Ended, fw_page = 0, fw_chunk_num = 0\<rparr> node_64k = Some (th, n) \<and>
    (\<exists>d. boot_run 2 board_ti junk0 (dev n) = Some (Jumped (reset_vector (bd_iflash d)), d) \<and>
      running_code (bd_iflash d) = drop 256 (downloaded [([0, 0, 0, 0], tiny_chunk)]))"
proof -
  let ?cs = "[([0, 0, 0, 0], tiny_chunk)] :: (bytes \<times> bytes) list"
  let ?th = "\<lparr>fw_pc = Fw_Ended, fw_page = 0, fw_chunk_num = 0\<rparr>"
  have n: "(0 :: nat) < 65536" "4096 dvd (65536 :: nat)" "tiny_slot = after_download 65536 ?cs (nor_xmem (dev node_64k))"
    "length ?cs = unat (u16_of_bytes 1 0)" "\<forall>(numbers, chunk)\<in>set ?cs. length numbers = 4 \<and> length chunk = 600"
    by (simp_all add: node_64k_simps tiny_slot_def u16_of_bytes_def length_tiny_chunk)
  have fit: "images_fit (bd_iflash (dev node_64k)) tiny_slot" "nor_closed 65536 (dev node_64k)"
    "600 * length ?cs \<le> image_bytes" "fw_chunk_num ?th = 0" "?cs \<noteq> []"
    using tiny_fits by (simp_all add: image_bytes_def node_64k_simps)
  show ?thesis
    using firmware_update_installs [OF node_board.flash_board_axioms boot.boot_device_axioms n(1,2) fit(2)
        node0_simps(7,8) node_64k_simps(2,3) fit(4,5) n(5) fit(3) n(4,3) tiny_reads fit(1), of clock0 addr0 stale0 junk0]
      tiny_accepted
    by (simp add: node_64k_simps) blast
qed

text \<open>C22. The update process ends when the root falls silent: a chunk that does not arrive is requested
  seven times in all, then the process stops with the message NOT_DELIVERED_CHUNK and the flash
  as it was. The last chunk of an image is requested only once: when its deadline expires
  the image is verified without it.\<close>

theorem silent_root_ends_update:
  assumes "fw_pc th = Fw_Chunk_Wait" "fw_chunk_num th \<noteq> 0" "fw_error_counter n = 0" "node_mode n = MODE_NORMAL"
  shows "if fw_chunk_num th < fw_chunk_quantity n
    then \<exists>n'. fw_timers E True 13 th n = Some (th\<lparr>fw_chunk_num := 0, fw_pc := Fw_Ended\<rparr>, n') \<and>
      dev n' = dev n \<and> fw_update_process \<notin> running n' \<and>
      node_events n' = node_events n @
        replicate 6 (Node_Udp (root_addr n) (chunk_request E (fw_chunk_num th - 1))) @
        [Node_Udp (root_addr n) [PROTOCOL_VERSION_V1, DEVICE_VERSION_V1, DATA_TYPE_MESSAGE,
          DEVICE_MESSAGE_OTA_NOT_DELIVERED_CHUNK, DATA_RESERVED, DATA_RESERVED,
          DATA_RESERVED, DATA_RESERVED, DATA_RESERVED, DATA_RESERVED]]
    else fw_timers E True 2 th n = download_end E (th\<lparr>fw_pc := Fw_Chunk_Delay\<rparr>) n"
proof (cases "fw_chunk_num th < fw_chunk_quantity n")
  case True
  obtain n' where n': "fw_timers E True (2 * 6) th n = Some (th, n')" "dev n' = dev n"
    "node_mode n' = MODE_NORMAL" "root_addr n' = root_addr n" "fw_chunk_quantity n' = fw_chunk_quantity n"
    "unat (fw_error_counter n') = 6"
    "node_events n' = node_events n @ replicate 6 (Node_Udp (root_addr n) (chunk_request E (fw_chunk_num th - 1)))"
    using silent_rounds [OF assms(1) True assms(2), of 6 E] assms(3,4) by auto
  have "fw_chunk_num th < fw_chunk_quantity n'" using True n'(5) by simp
  note fin = silent_end [OF assms(1) this n'(6), of E]
  have "fw_timers E True (2 * 6 + 1) th n = fw_timers E True 1 th n'"
    unfolding fw_timers_add n'(1) by simp
  then show ?thesis
    using True n' fin
    by (simp add: send_message_packet_def node_sendto_def node_emit_def node_net_on_def process_exit_def)
next
  case False
  moreover have "n\<lparr>fw_error_counter := 0\<rparr> = n" using assms(3) by (cases n) simp
  ultimately show ?thesis using last_chunk_round [OF assms(1) False, of E] by simp
qed

theorem silent_root_ends_update_witness:
  "\<exists>n. fw_timers env0 True 13 \<lparr>fw_pc = Fw_Chunk_Wait, fw_page = 25, fw_chunk_num = 3\<rparr>
      (node0\<lparr>fw_chunk_quantity := 9\<rparr>) = Some (\<lparr>fw_pc = Fw_Ended, fw_page = 25, fw_chunk_num = 0\<rparr>, n) \<and>
    length (node_events n) = 7"
  using silent_root_ends_update [where th = "\<lparr>fw_pc = Fw_Chunk_Wait, fw_page = 25, fw_chunk_num = 3\<rparr>"
      and n = "node0\<lparr>fw_chunk_quantity := 9\<rparr>" and E = env0]
  by (auto simp: node0_def node_with_def)

text \<open>C6. The first join of a new image (flag NEW_IMG_INT). With a good golden image the node writes
  PING_OK and reboots 5 s later, and the bootloader keeps the image for good. With a bad golden
  image the node replaces it by a copy of the new image and reboots at once, unconfirmed: the
  bootloader then takes the new image for a failed one and installs the copy from slot 0, with
  the flag ERROR_GI_LOAD. The erase unit \<open>s\<close> of the flash is any multiple of 4096 bytes, such as the
  64 KB of the M25P40; the copy changes nothing outside slot 0 and the units its pages lie in.\<close>

theorem new_image_joins:
  assumes "flash_board F s closed opened idle xmem imem ti" "boot_device s closed opened' idle' xmem imem ti"
    and "0 < s" "4096 dvd s"
    and "closed (dev n)" "ne_flash E = F" "ne_ti E = ti" "node_up n" "spi_status n = SPI_EXT_FLASH_ACTIVE"
    and "stored_flag (imem (dev n)) = FW_FLAG_NEW_IMG_INT"
    and "0x19100 + 4 * crc_words 0x19100 (om_size (slot_metadata (xmem (dev n)) 0)) \<le> ext_flash_size"
    and "images_fit (imem (dev n)) (xmem (dev n))"
    and "x = put_bytes 0x19000 (running_image (imem (dev n))) (erase_sectors s 0x19000 25 (xmem (dev n)))"
    and "images_fit (imem (dev n)) x"
  shows "\<exists>n'. dag_node_joined E n = Some n' \<and>
    (if golden_bad (xmem (dev n))
     then last (node_events n') = Watchdog_Reboot \<and> slot_image (xmem (dev n')) 0 = running_image (imem (dev n)) \<and>
       xmem (dev n') = x \<and>
       (\<exists>d. boot_run 2 ti junk (dev n') = Some (Jumped (reset_vector (imem d)), d) \<and>
         running_code (imem d) = running_code (imem (dev n)) \<and> stored_flag (imem d) = FW_FLAG_ERROR_GI_LOAD)
     else maintenance_step E Maintenance_Wait n' = (Maintenance_Reboot_Wait, n') \<and>
       last (node_events (snd (maintenance_step E Maintenance_Reboot_Wait n'))) = Watchdog_Reboot \<and>
       (\<exists>d. boot_run 2 ti junk (dev n') = Some (Jumped (reset_vector (imem d)), d) \<and>
         running_code (imem d) = running_code (imem (dev n)) \<and> stored_flag (imem d) = FW_FLAG_NON_UPDATE))"
proof -
  obtain n' where n': "dag_node_joined E n = Some n'" "closed (dev n')"
    "if golden_bad (xmem (dev n))
     then \<not> node_up n' \<and> last (node_events n') = Watchdog_Reboot \<and> imem (dev n') = imem (dev n) \<and>
       xmem (dev n') = x
     else node_up n' \<and> node_mode n' = MODE_NEED_REBOOT \<and> maintenance_process \<in> running n' \<and>
       xmem (dev n') = xmem (dev n) \<and> outside_user (imem (dev n')) = outside_user (imem (dev n)) \<and>
       stored_flag (imem (dev n')) = FW_FLAG_PING_OK"
    using flash_board.joined_ok [OF assms(1,5-7,3,4,8-11), folded assms(13)] by blast
  note boot = boot_device.boot_run_ok [OF assms(2) n'(2), of junk]
  have valid: "fw_flag_valid FW_FLAG_NEW_IMG_INT" "fw_flag_valid FW_FLAG_PING_OK" by (simp_all add: fw_flag_valid_def)
  show ?thesis
  proof (cases "golden_bad (xmem (dev n))")
    case True
    then have "effective_flag (imem (dev n')) = FW_FLAG_NEW_IMG_INT"
      using n'(3) assms(10) valid(1) by (simp add: effective_stored)
    then show ?thesis
      using True n' boot assms(13,14)
      by (auto simp: settled_plan_def fw_flag_defs slot_code_image running_code_image slot_0_after_backup
          simp del: erase_sectors.simps)
  next
    case False
    then have "effective_flag (imem (dev n')) = FW_FLAG_PING_OK"
      using n'(3) valid(2) by (simp add: effective_stored)
    moreover have "running_image (imem (dev n')) = running_image (imem (dev n))"
      using n'(3) False by (intro outside_user_image) simp
    moreover have "images_fit (imem (dev n')) (xmem (dev n'))"
      using n'(3) False assms(12) images_fit_outside [of "imem (dev n')" "imem (dev n)" "xmem (dev n)"] by simp
    ultimately show ?thesis
      using False n' boot
      by (auto simp: settled_plan_def fw_flag_defs running_code_image maintenance_step_def maintenance_round_def
          watchdog_reboot_def)
  qed
qed

definition fresh_flash :: mem where
  "fresh_flash = (\<lambda>_. 0xFF)(unat START_USER_FLASH + unat OTA_STATUS_FLAG := FW_FLAG_NEW_IMG_INT)"

lemma fresh_flash_facts:
  "stored_flag fresh_flash = FW_FLAG_NEW_IMG_INT" "put_bytes 0x19000 (running_image fresh_flash) (erase_sectors 65536 0x19000 25 (\<lambda>_. 0xFF)) = (\<lambda>_. 0xFF)"
  "images_fit fresh_flash (\<lambda>_. 0xFF)"
proof -
  have low: "fresh_flash a = 0xFF" if "a < 0x1C000" for a
    using that by (simp add: fresh_flash_def START_USER_FLASH_def OTA_STATUS_FLAG_def)
  show "stored_flag fresh_flash = FW_FLAG_NEW_IMG_INT"
    by (simp add: stored_flag_def user_bytes_def fresh_flash_def USER_FLASH_LENGTH_def OTA_STATUS_FLAG_def)
  show "put_bytes 0x19000 (running_image fresh_flash) (erase_sectors 65536 0x19000 25 (\<lambda>_. 0xFF)) = (\<lambda>_. 0xFF)"
    by (auto simp: put_bytes_def running_image_def fun_eq_iff low image_bytes_def erase_sectors_at simp del: erase_sectors.simps)
  have "read_mem fresh_flash 0x2000 OTA_METADATA_LENGTH = read_mem (\<lambda>_. 0xFF) 0x2000 OTA_METADATA_LENGTH"
    by (intro nth_equalityI) (simp_all add: low OTA_METADATA_LENGTH_def)
  then show "images_fit fresh_flash (\<lambda>_. 0xFF)"
    using empty_images_fit by (simp add: images_fit_def sizes_ok_def running_size_def)
qed

text \<open>Without a golden image a fresh image is never confirmed, here on a flash that erases 64 KB at once.\<close>

theorem new_image_joins_witness:
  "\<exists>n. dag_node_joined env0 (node_with (board_with 65536 (\<lambda>_. 0xFF) fresh_flash)) = Some n \<and>
    last (node_events n) = Watchdog_Reboot \<and>
    (\<exists>d. boot_run 2 board_ti junk0 (dev n) = Some (Jumped (reset_vector (bd_iflash d)), d) \<and>
      stored_flag (bd_iflash d) = FW_FLAG_ERROR_GI_LOAD)"
proof -
  let ?n = "node_with (board_with 65536 (\<lambda>_. 0xFF) fresh_flash)"
  have n: "dev ?n = board_with 65536 (\<lambda>_. 0xFF) fresh_flash" "node_up ?n" "spi_status ?n = SPI_EXT_FLASH_ACTIVE"
    by (simp_all add: node_with_def)
  have "golden_bad (\<lambda>_. 0xFF)"
    by (simp add: golden_bad_def empty_metadata crc_words_def image_crc_def)
  then show ?thesis
    using new_image_joins [OF node_board.flash_board_axioms boot.boot_device_axioms, of 65536 ?n env0 _ junk0, OF _ _ _ _ _ _ _ _ _ _ refl]
    by (simp add: n fresh_flash_facts empty_metadata crc_words_def ext_flash_size_def del: erase_sectors.simps) blast
qed

section \<open>Nodes\<close>

text \<open>C23. Whatever packet a node receives, the handler ends and leaves the internal flash as it is, as
  long as the chunk at the download offset lies in the external flash. In particular the command
  FLASH_GI never writes its flag: it has the number of CLEAN_GI and erases the golden image
  instead, with every erase unit of the flash (\<open>s\<close> bytes, 64 KB on the M25P40) that its pages lie in.\<close>

theorem packets_keep_internal_flash:
  assumes "flash_board F s closed opened idle xmem imem ti" "0 < s" "4096 dvd s"
    and "closed (dev n)" "ne_flash E = F" "ne_ti E = ti"
    and "unat (ota_image_current_offset n) + 0x32000 + 600 \<le> ext_flash_size"
  shows "\<exists>n'. udp_receiver E c a data len n = Some n' \<and> closed (dev n') \<and> imem (dev n') = imem (dev n) \<and>
    (data 0 = PROTOCOL_VERSION_V1 \<and> data 1 = cfg_device_version (ne_cfg E) \<and> data 2 = DATA_TYPE_FIRMWARE_CMD \<and>
     data 3 = DATA_TYPE_FIRMWARE_COMMAND_FLASH_GI \<longrightarrow>
       erased (slot_addr 0) image_bytes (xmem (dev n')) \<and>
       (\<forall>x. xmem (dev n') x = (if \<exists>i<25. (slot_addr 0 + 4096 * i) div s = x div s then 0xFF else xmem (dev n) x)))"
proof -
  have addr: "slot_addr 0 = 0x19000" by (simp add: slot_addr_def)
  have "erased (slot_addr 0) image_bytes (erase_sectors s 0x19000 25 m)" for m
    using erase_sectors_range [OF assms(2,3), of "0x19000" _ 25 m]
    by (simp add: erased_def addr image_bytes_def del: erase_sectors.simps)
  then show ?thesis
    using flash_board.packet_flash [OF assms(1,4-7), of c a data len] unfolding addr
    by (auto simp: erase_sectors_at [OF assms(2)] simp del: erase_sectors.simps)
qed

text \<open>Three units of 64 KB, from 0x10000 to 0x3FFFF, go with the golden image: the first pages of slot 1, too.\<close>

theorem packets_keep_internal_flash_witness:
  "\<exists>n. udp_receiver env0 clock0 addr0 (rx_buffer [PROTOCOL_VERSION_V1, 1, DATA_TYPE_FIRMWARE_CMD,
      DATA_TYPE_FIRMWARE_COMMAND_FLASH_GI] stale0) 10
      (node_with (board_with 65536 (\<lambda>_. 0x55) (\<lambda>_. 0xFF))) = Some n \<and>
    bd_iflash (dev n) = (\<lambda>_. 0xFF) \<and> nor_xmem (dev n) 0x19000 = 0xFF \<and>
    nor_xmem (dev n) (slot_addr 1) = 0xFF \<and> nor_xmem (dev n) 0x40000 = 0x55"
proof -
  let ?n = "node_with (board_with 65536 (\<lambda>_. 0x55) (\<lambda>_. 0xFF))"
  have n: "dev ?n = board_with 65536 (\<lambda>_. 0x55) (\<lambda>_. 0xFF)" "ota_image_current_offset ?n = 0"
    by (simp_all add: node_with_def)
  have near: "\<exists>i<25. (slot_addr 0 + 4096 * i) div 65536 = slot_addr 1 div 65536"
    by (intro exI [of _ 24]) (simp add: slot_addr_def ota_images_def)
  have first: "\<exists>i<25. (slot_addr 0 + 4096 * i) div 65536 = 0x19000 div 65536"
    by (intro exI [of _ 0]) (simp add: slot_addr_def)
  have far: "(slot_addr 0 + 4096 * i) div 65536 \<noteq> 0x40000 div 65536" if "i < 25" for i
    using that by (simp add: slot_addr_def)
  obtain n' where n': "udp_receiver env0 clock0 addr0 (rx_buffer [PROTOCOL_VERSION_V1, 1, DATA_TYPE_FIRMWARE_CMD,
      DATA_TYPE_FIRMWARE_COMMAND_FLASH_GI] stale0) 10 ?n = Some n'" "bd_iflash (dev n') = (\<lambda>_. 0xFF)"
    "\<forall>x. nor_xmem (dev n') x = (if \<exists>i<25. (slot_addr 0 + 4096 * i) div 65536 = x div 65536 then 0xFF else 0x55)"
    using packets_keep_internal_flash [OF node_board.flash_board_axioms, of 65536 ?n env0 clock0 addr0
        "rx_buffer [PROTOCOL_VERSION_V1, 1, DATA_TYPE_FIRMWARE_CMD, DATA_TYPE_FIRMWARE_COMMAND_FLASH_GI] stale0" 10]
    by (auto simp: n ext_flash_size_def)
  show ?thesis
    using n'(1,2) n'(3) [rule_format, of "0x19000"] n'(3) [rule_format, of "slot_addr 1"]
      n'(3) [rule_format, of "0x40000"] near first far
    by (intro exI [of _ n'] conjI) (simp_all only: if_True if_False, auto)
qed

text \<open>C36. In every state that a node reaches by packets, timers, its processes and its buttons, the
  mode, the LED mode and the error counter are in their ranges, and the message for the main
  process has 16 payload bytes and asks for an answer of at most 16.\<close>

theorem node_variables_in_range:
  assumes "node_reach E n"
  shows "node_mode n \<le> MODE_NEED_REBOOT \<and> led_mode n \<le> LED_FAST_BLINK \<and>
    fw_error_counter n \<le> FW_MAX_ERROR_COUNTER + 1 \<and> length (msg_payload (message_for_main_process n)) = 16 \<and>
    msg_uart_returned_data_length (message_for_main_process n) \<le> 16"
  using node_reach_ok [OF assms] by (simp add: node_ok_def)

theorem node_variables_in_range_witness:
  "led_mode (snd (led_on_step (node_init board0 (radio node0)))) \<le> LED_FAST_BLINK"
  using node_variables_in_range [OF node_reach.step [OF node_reach.init node_step.led_on], of board0 "radio node0"] by blast

text \<open>A node that sends \<open>k\<close> status packets (below 256) to a reachable parent without an answer is
  restarted by its maintenance process exactly when \<open>k\<close> is above 3; an answer of the root starts
  the count again.\<close>

theorem unanswered_status_reboots:
  assumes "node_up n" "node_mode n = MODE_NORMAL" "rv_reachable view" "k < 256"
    and "m = ((\<lambda>n. status_send_step E c (Some view) temp volt n) ^^ k) (pong_handler E a data len n)"
  shows "node_up (snd (maintenance_step E Maintenance_Wait m)) \<longleftrightarrow> k \<le> 3"
proof -
  define p where "p = pong_handler E a data len n"
  have p: "node_up p" "node_mode p = MODE_NORMAL" "non_answered_packet p = 0"
    using assms(1,2) by (simp_all add: p_def pong_handler_def node_net_off_def)
  have "node_up (((\<lambda>n. status_send_step E c (Some view) temp volt n) ^^ j) p) \<and>
      node_mode (((\<lambda>n. status_send_step E c (Some view) temp volt n) ^^ j) p) = MODE_NORMAL \<and>
      non_answered_packet (((\<lambda>n. status_send_step E c (Some view) temp volt n) ^^ j) p) = word_of_nat j" for j
    using assms(3) p by (induction j) (simp_all add: status_counts)
  then have m: "node_up m" "node_mode m = MODE_NORMAL" "non_answered_packet m = word_of_nat k"
    unfolding assms(5) p_def by blast+
  have "unat (word_of_nat k :: u8) = k" using assms(4) by (simp add: unat_of_nat take_bit_eq_mod)
  then have "MAX_NON_ANSWERED_PINGS < word_of_nat k \<longleftrightarrow> 3 < k"
    by (simp add: MAX_NON_ANSWERED_PINGS_def word_less_nat_alt)
  then show ?thesis using maintenance_counts [OF m(1,2), of E] m(3) by auto
qed

theorem unanswered_status_reboots_witness:
  "\<not> node_up (snd (maintenance_step env0 Maintenance_Wait
    (((\<lambda>n. status_send_step env0 clock0 (Some \<lparr>rv_reachable = True, rv_parent_addr = Some (replicate 16 3),
      rv_parent_rssi = Some 0xFFB0\<rparr>) 20 840 n) ^^ 4) (pong_handler env0 addr0 stale0 10 node0))))"
  using unanswered_status_reboots [OF node0_simps(5,1), where k = 4 and E = env0, OF _ _ refl] by simp

section \<open>Devices\<close>

text \<open>C12. The relay device after any sequence of messages: each relay is in the state that the commands
  addressed to it lead to, its pin is high exactly when this is 1, and after a loss of power
  it is in this state again. All other messages, the settings included, change nothing.\<close>

theorem relay_history:
  assumes "relay_board ti fine imem level" "fine (relay_dev r)" "\<forall>b. channel_ok imem level b r"
    and "\<forall>b. starts_on_last imem b (relay_dev r)"
  shows "\<exists>r'. relay_run ti ms r = Some r' \<and>
    (\<forall>b. relay_state b r' = history_state b ms (relay_state b r)) \<and>
    (\<forall>b. level (relay_dev r') (relay_pin b) \<longleftrightarrow> relay_state b r' = 1) \<and>
    (\<exists>r''. relay_start ti \<lparr>relay_dev = relay_dev r', relay_1_state = 0, relay_2_state = 0\<rparr> = Some r'' \<and>
      (\<forall>b. relay_state b r'' = relay_state b r') \<and>
      (\<forall>b. level (relay_dev r'') (relay_pin b) \<longleftrightarrow> relay_state b r'' = 1))"
proof -
  obtain r' where r': "relay_run ti ms r = Some r'" "fine (relay_dev r')" "\<forall>b. channel_ok imem level b r'"
    "\<forall>b. starts_on_last imem b (relay_dev r')" "\<forall>b. relay_state b r' = history_state b ms (relay_state b r)"
    using relay_board.history_ok [OF assms] by blast
  show ?thesis
    using r' relay_board.power_cycle_ok [OF assms(1) r'(2-4)] unfolding channel_ok_def by blast
qed

definition switch_command :: "u8 \<Rightarrow> u8 \<Rightarrow> node_command" where
  "switch_command k s = command0\<lparr>msg_data_type := DATA_TYPE_COMMAND, msg_ability_target := DEVICE_ABILITY_RELAY,
     msg_ability_number := k, msg_ability_state := s\<rparr>"

theorem relay_history_witness:
  "\<exists>r. relay_run pin_ti [switch_command 1 1, switch_command 2 0x80, switch_command 1 0] relay0 = Some r \<and>
    \<not> pin_level (relay_dev r) BOARD_IOID_RELAY_1 \<and> pin_level (relay_dev r) BOARD_IOID_RELAY_2"
proof -
  let ?ms = "[switch_command 1 1, switch_command 2 0x80, switch_command 1 0]"
  have state: "history_state False ?ms 0 = 0" "history_state True ?ms 0 = 1"
    by (simp_all add: history_state_def addressed_def switch_command_def relay_number_def next_state_def relay_consts)
  have pins: "relay_pin False = BOARD_IOID_RELAY_1" "relay_pin True = BOARD_IOID_RELAY_2"
    by (simp_all add: relay_pin_def)
  obtain r where "relay_run pin_ti ?ms relay0 = Some r" "\<forall>b. relay_state b r = history_state b ?ms 0"
    "\<forall>b. pin_level (relay_dev r) (relay_pin b) \<longleftrightarrow> relay_state b r = 1"
    using relay_history [OF pin_relay.relay_board_axioms relay0_ok(1), of ?ms] relay0_ok(2-4) by auto
  then show ?thesis using state pins by (metis one_neq_zero)
qed

text \<open>A click: a key that is pressed while no other press is being watched, and released, gives one
  long click when it was held for 92 ticks (720 ms) or more, one click when it was
  held for more than 7 ticks (60 ms), and no event otherwise; then the key is idle again.\<close>

theorem button_click_kinds:
  assumes "key_events key = Some (click, long)" "button_last_state s key = 1" "\<not> long_process_running s"
  shows "button_events (press_release key t held s) = button_events s @
      (if held \<ge> LONG_INTERVAL then [long] else if held > DEBOUNCE_INTERVAL then [click] else []) \<and>
    button_last_state (press_release key t held s) key = 1 \<and> \<not> long_process_running (press_release key t held s)"
  using press_release_events [OF assms] by blast

theorem button_click_kinds_witness:
  "button_events (press_release BOARD_IOID_KEY_C 0xFFFFFFF0 50
    \<lparr>button_last_low_time = \<lambda>_. 0, button_last_state = \<lambda>_. 1, current_button = 0, current_button_long = 0,
      long_process_running = False, button_events = []\<rparr>) = [button_c_sensor_click]"
  using button_click_kinds [of BOARD_IOID_KEY_C button_c_sensor_click button_c_sensor_long_click
      "\<lparr>button_last_low_time = \<lambda>_. 0, button_last_state = \<lambda>_. 1, current_button = 0, current_button_long = 0,
        long_process_running = False, button_events = []\<rparr>" "0xFFFFFFF0" 50]
  by (simp add: key_events_def key_consts LONG_INTERVAL_def DEBOUNCE_INTERVAL_def)

text \<open>The lamp's UART bridge on any message that a node can hold: the command leaves its 16 payload
  bytes exactly when its length field is above 16 (which \<open>uart_packet_handler\<close> does not check,
  unlike the length of the answer); otherwise the bridge keeps its invariant, and so it
  does for every byte that the lamp answers.\<close>

lemma light_overread:
  assumes "node_reach E n" "light_ok s"
  shows "(light_message (node_mode n) (message_for_main_process n) s = None \<longleftrightarrow>
      msg_data_type (message_for_main_process n) = DATA_TYPE_UART \<and> node_mode n = MODE_NORMAL \<and>
      16 < msg_uart_data_length (message_for_main_process n)) \<and>
    (\<forall>out s'. light_message (node_mode n) (message_for_main_process n) s = Some (out, s') \<longrightarrow> light_ok s' \<and> length out \<le> 16) \<and>
    (\<exists>s'. light_uart_data_receiver b s = Some s' \<and> light_ok s')"
  using node_reach_ok [OF assms(1)] assms(2) light_receiver_ok [OF assms(2), of b]
  by (auto simp: node_ok_def light_message_def send_uart_command_def light_ok_def word_less_nat_alt word_le_nat_alt)

theorem light_overread_witness:
  "\<exists>s. light_uart_data_receiver 0x41 \<lparr>lt_data_iterator = 0, lt_returned_data_length = 2,
      lt_returned_data_buf = replicate 23 0, lt_uart_data = command0\<rparr> = Some s \<and> light_ok s"
proof -
  have "light_ok \<lparr>lt_data_iterator = 0, lt_returned_data_length = 2, lt_returned_data_buf = replicate 23 0,
      lt_uart_data = command0\<rparr>"
    by (simp add: light_ok_def command0_def)
  from light_overread [OF node_reach.init [where d = board0 and rad = "radio node0" and E = env0] this, of "0x41"] show ?thesis by blast
qed

lemma command_received:
  assumes "node_up n" "device = cfg_device_version (ne_cfg E)"
  shows "\<exists>n'. udp_receiver E c a (rx_buffer ([PROTOCOL_VERSION_V1, device, DATA_TYPE_COMMAND, target, number, state] @ rest) stale)
      len n = Some n' \<and> Post_Continue main_process \<in> set (node_events n') \<and>
    msg_data_type (message_for_main_process n') = DATA_TYPE_COMMAND \<and>
    msg_ability_target (message_for_main_process n') = target \<and>
    msg_ability_number (message_for_main_process n') = number \<and>
    msg_ability_state (message_for_main_process n') = state"
  using assms
  by (simp add: udp_receiver_def packet_dispatch_def command_settings_handler_def protocol_consts while_up_def
      node_emit_def led_mode_set_def process_start_def process_exit_def Let_def)

text \<open>C3. From the host to the contact: a frame with the command ON, OFF or TOGGLE for relay 1 or 2 of a
  node goes through the receiver and the sending process of the root, the packet handler of the
  node and the main process of the relay device, and there sets the state of this relay and the
  level of its pin as the command says.\<close>

theorem host_switches_relay:
  assumes "root_reach r" "rx_of r = Magic 0" "slots_empty r" "length addr = 16" "node_up n"
    and "relay_board ti fine imem level" "fine (relay_dev l)" "\<forall>b. channel_ok imem level b l"
    and "\<forall>b. starts_on_last imem b (relay_dev l)"
  shows "\<exists>s t packet n' l'.
    uart_receive c (uart_frame crc (host_payload addr PROTOCOL_VERSION_V1 (cfg_device_version (ne_cfg E))
      DATA_TYPE_COMMAND [DEVICE_ABILITY_RELAY, relay_number b, command])) r = Some s \<and>
    send_command_process s = Some t \<and> Udp_Sendto addr packet \<in> set (root_events t) \<and>
    udp_receiver E c' a (rx_buffer packet stale) (of_nat (length packet)) n = Some n' \<and>
    Post_Continue main_process \<in> set (node_events n') \<and>
    relay_message ti (Some (message_for_main_process n')) l = Some l' \<and>
    relay_state b l' = next_state command (relay_state b l) \<and>
    (level (relay_dev l') (relay_pin b) \<longleftrightarrow> relay_state b l' = 1)"
proof -
  let ?dv = "cfg_device_version (ne_cfg E)"
  let ?p = "host_payload addr PROTOCOL_VERSION_V1 ?dv DATA_TYPE_COMMAND [DEVICE_ABILITY_RELAY, relay_number b, command]"
  let ?buf = "?p @ drop (length ?p) (uart_buf r)"
  let ?packet = "[PROTOCOL_VERSION_V1, ?dv, DATA_TYPE_COMMAND, DEVICE_ABILITY_RELAY, relay_number b, command] @
    [DATA_RESERVED, DATA_RESERVED, DATA_RESERVED, DATA_RESERVED]"
  have len: "0 < length ?p" "length ?p \<le> 1500" using assms(4) by (simp_all add: host_payload_def)
  note h = host_payload_bytes [OF assms(4), where version = PROTOCOL_VERSION_V1 and device = ?dv
      and kind = DATA_TYPE_COMMAND and rest = "[DEVICE_ABILITY_RELAY, relay_number b, command]"
      and tail = "drop (length ?p) (uart_buf r)"]
  have packet: "command_packet_of ?buf = ?packet"
    using h(2,3) h(5) [of 0] h(5) [of 1] h(5) [of 2] by (simp add: command_packet_of_def)
  obtain s t where root: "uart_receive c (uart_frame crc ?p) r = Some s" "send_command_process s = Some t"
    "root_events t = root_events r @ [Udp_Sendto addr ?packet] @ extra_uart ?buf"
    using command_forwarded [OF root_reach_ok [OF assms(1)] assms(2) root_reach_conn [OF assms(1)] assms(3) len h(4), of c crc]
    unfolding packet h(1) by blast
  obtain n' where node: "udp_receiver E c' a (rx_buffer ?packet stale) (of_nat (length ?packet)) n = Some n'"
    "Post_Continue main_process \<in> set (node_events n')"
    "msg_data_type (message_for_main_process n') = DATA_TYPE_COMMAND"
    "msg_ability_target (message_for_main_process n') = DEVICE_ABILITY_RELAY"
    "msg_ability_number (message_for_main_process n') = relay_number b"
    "msg_ability_state (message_for_main_process n') = command"
    using command_received [OF assms(5) refl, of E c' a DEVICE_ABILITY_RELAY "relay_number b" command] by blast
  obtain l' where relay: "relay_message ti (Some (message_for_main_process n')) l = Some l'"
    "\<forall>b. channel_ok imem level b l'"
    "relay_state b l' = next_state command (relay_state b l)"
    using relay_board.message_ok [OF assms(6-9), of "message_for_main_process n'"] node(3-6)
    by (auto simp: addressed_def)
  have "Udp_Sendto addr ?packet \<in> set (root_events t)" using root(3) by simp
  then show ?thesis using root(1,2) node(1,2) relay unfolding channel_ok_def by blast
qed

theorem host_switches_relay_witness:
  "\<exists>s t packet n l.
    uart_receive clock0 (uart_frame 0 (host_payload (replicate 16 9) PROTOCOL_VERSION_V1 1 DATA_TYPE_COMMAND
      [DEVICE_ABILITY_RELAY, 2, 1])) root_node_initialize = Some s \<and>
    send_command_process s = Some t \<and> Udp_Sendto (replicate 16 9) packet \<in> set (root_events t) \<and>
    udp_receiver env0 clock0 (replicate 16 1) (rx_buffer packet (\<lambda>_. 0)) (of_nat (length packet)) node0 = Some n \<and>
    relay_message pin_ti (Some (message_for_main_process n)) relay0 = Some l \<and>
    pin_level (relay_dev l) BOARD_IOID_RELAY_2"
proof -
  have ok: "length (replicate 16 (9 :: u8)) = 16" "\<forall>b. channel_ok pin_flash pin_level b relay0"
    "\<forall>b. starts_on_last pin_flash b (relay_dev relay0)"
    using relay0_ok by simp_all
  have second: "relay_number True = 2" "relay_pin True = BOARD_IOID_RELAY_2" "next_state 1 (relay_state True relay0) = 1"
    using relay0_ok(4) [of True] by (simp_all add: relay_number_def relay_pin_def next_state_def relay_consts)
  show ?thesis
    using host_switches_relay [OF root_reach.start root0_simps(4) slots_empty_init ok(1) node0_simps(5)
        pin_relay.relay_board_axioms relay0_ok(1) ok(2,3), of clock0 0 env0 True 1 clock0 "replicate 16 1" "\<lambda>_. 0"]
    unfolding second node0_simps(6) by blast
qed

end
