(* ===== verification/Ring_Buffer.thy ===== *)
theory Ring_Buffer
  imports Prelude
begin

text \<open>
  The byte queue between an interrupt and a process, \<open>core/lib/ringbuf.c\<close>, and what its
  clients may rely on: the locale \<open>byte_queue\<close> of bounded queues, with the loop that
  empties one, and its interpretation on the ring buffer.
\<close>

section \<open>ringbuf.c\<close>

record ringbuf =
  ring_data :: bytes
  ring_mask :: u8
  put_ptr :: u8
  get_ptr :: u8

definition ringbuf_init :: "bytes \<Rightarrow> u8 \<Rightarrow> ringbuf" where
  "ringbuf_init dataptr n = \<lparr>ring_data = dataptr, ring_mask = n - 1, put_ptr = 0, get_ptr = 0\<rparr>"

definition ringbuf_size :: "ringbuf \<Rightarrow> int" where
  "ringbuf_size r = uint (ring_mask r) + 1"

definition ringbuf_elements :: "ringbuf \<Rightarrow> int" where
  "ringbuf_elements r = (uint (put_ptr r) - uint (get_ptr r)) AND uint (ring_mask r)"

text \<open>The C function returns 1 when the byte was stored and 0 when the buffer is full.\<close>

definition ringbuf_put :: "u8 \<Rightarrow> ringbuf \<Rightarrow> (int \<times> ringbuf) option" where
  "ringbuf_put c r =
    (if (uint (put_ptr r) - uint (get_ptr r)) AND uint (ring_mask r) = uint (ring_mask r)
     then Some (0, r)
     else if unat (put_ptr r) < length (ring_data r)
     then Some (1, r\<lparr>ring_data := (ring_data r)[unat (put_ptr r) := c],
                     put_ptr := (put_ptr r + 1) AND ring_mask r\<rparr>)
     else None)"

definition ringbuf_get :: "ringbuf \<Rightarrow> (int \<times> ringbuf) option" where
  "ringbuf_get r =
    (if (uint (put_ptr r) - uint (get_ptr r)) AND uint (ring_mask r) > 0
     then if unat (get_ptr r) < length (ring_data r)
       then Some (uint (ring_data r ! unat (get_ptr r)), r\<lparr>get_ptr := (get_ptr r + 1) AND ring_mask r\<rparr>)
       else None
     else Some (-1, r))"

section \<open>Bounded queues\<close>

text \<open>\<open>c = get(q); while (c != -1) { body(c); c = get(q); }\<close>\<close>

partial_function (option) drain ::
  "('q \<Rightarrow> (int \<times> 'q) option) \<Rightarrow> (u8 \<Rightarrow> 's \<Rightarrow> 's option) \<Rightarrow> 'q \<Rightarrow> 's \<Rightarrow> ('q \<times> 's) option" where
  "drain get body q s = do {
     (c, q) \<leftarrow> get q;
     if c = -1 then Some (q, s) else do { s \<leftarrow> body (word_of_int c) s; drain get body q s } }"

text \<open>A byte is kept if there is room, and dropped otherwise.\<close>

definition enqueue :: "nat \<Rightarrow> u8 \<Rightarrow> bytes \<Rightarrow> bytes" where
  "enqueue room c cs = (if length cs < room then cs @ [c] else cs)"

locale byte_queue =
  fixes invar :: "'q \<Rightarrow> bool" and list :: "'q \<Rightarrow> bytes" and room :: nat
    and enq :: "u8 \<Rightarrow> 'q \<Rightarrow> (int \<times> 'q) option" and deq :: "'q \<Rightarrow> (int \<times> 'q) option"
  assumes enq_fits: "invar q \<Longrightarrow> length (list q) < room \<Longrightarrow>
      \<exists>q'. enq c q = Some (1, q') \<and> invar q' \<and> list q' = list q @ [c]"
    and enq_full: "invar q \<Longrightarrow> \<not> length (list q) < room \<Longrightarrow> enq c q = Some (0, q)"
    and deq_Nil: "invar q \<Longrightarrow> list q = [] \<Longrightarrow> deq q = Some (-1, q)"
    and deq_Cons: "invar q \<Longrightarrow> list q = c # cs \<Longrightarrow>
      \<exists>q'. deq q = Some (uint c, q') \<and> invar q' \<and> list q' = cs"
begin

lemma enq_bounded:
  "invar q \<Longrightarrow> \<exists>r q'. enq c q = Some (r, q') \<and> invar q' \<and> list q' = enqueue room c (list q)"
  using enq_fits [of q c] enq_full [of q c] unfolding enqueue_def by (cases "length (list q) < room") auto

text \<open>The loop ends, with an empty queue, after one body for each byte in the order of arrival.\<close>

lemma drain_list:
  assumes "invar q" "for_each body (list q) s = Some s'"
  shows "\<exists>q'. drain deq body q s = Some (q', s') \<and> invar q' \<and> list q' = []"
  using assms
proof (induction "list q" arbitrary: q s)
  case Nil
  then have "drain deq body q s = Some (q, s)"
    using deq_Nil [of q] by (subst drain.simps) simp
  with Nil show ?case by simp
next
  case (Cons c cs)
  from deq_Cons [OF Cons.prems(1) Cons.hyps(2) [symmetric]] obtain q1
    where q1: "deq q = Some (uint c, q1)" "invar q1" "list q1 = cs" by blast
  from Cons.prems(2) Cons.hyps(2) [symmetric] obtain s1
    where s1: "body c s = Some s1" "for_each body cs s1 = Some s'" by (auto split: bind_splits)
  have "uint c \<noteq> -1" using uint_ge_0 [of c] by linarith
  with q1(1) s1(1) have "drain deq body q s = drain deq body q1 s1"
    by (subst drain.simps) simp
  moreover from Cons.hyps(1) [of q1 s1] q1 s1 have
    "\<exists>q'. drain deq body q1 s1 = Some (q', s') \<and> invar q' \<and> list q' = []" by simp
  ultimately show ?case by simp
qed

end

section \<open>The ring buffer is one\<close>

definition ring_ok :: "nat \<Rightarrow> ringbuf \<Rightarrow> bool" where
  "ring_ok k r \<longleftrightarrow> k \<le> 8 \<and> ring_mask r = mask k \<and> length (ring_data r) = 2 ^ k
     \<and> unat (put_ptr r) < 2 ^ k \<and> unat (get_ptr r) < 2 ^ k"

definition ring_bytes :: "ringbuf \<Rightarrow> bytes" where
  "ring_bytes r = map (\<lambda>i. ring_data r ! ((unat (get_ptr r) + i) mod length (ring_data r)))
     [0..<nat (ringbuf_elements r)]"

lemma ring_elements:
  assumes "ring_ok k r"
  shows "ringbuf_elements r = (uint (put_ptr r) - uint (get_ptr r)) mod 2 ^ k"
    "uint (ring_mask r) = 2 ^ k - 1"
proof -
  from assms have k: "k \<le> 8" and m: "ring_mask r = mask k" by (simp_all add: ring_ok_def)
  from k have u: "uint (mask k :: u8) = mask k" by (simp add: uint_mask_eq min_def)
  then show "uint (ring_mask r) = 2 ^ k - 1" by (simp add: m mask_eq_exp_minus_1)
  show "ringbuf_elements r = (uint (put_ptr r) - uint (get_ptr r)) mod 2 ^ k"
    by (simp add: ringbuf_elements_def m u flip: take_bit_eq_mask take_bit_eq_mod)
qed

lemma length_ring_bytes:
  assumes "ring_ok k r"
  shows "length (ring_bytes r) < 2 ^ k" "int (length (ring_bytes r)) = ringbuf_elements r"
proof -
  have "0 \<le> ringbuf_elements r" "ringbuf_elements r < 2 ^ k"
    by (simp_all add: ring_elements [OF assms])
  then show "length (ring_bytes r) < 2 ^ k" "int (length (ring_bytes r)) = ringbuf_elements r"
    by (simp_all add: ring_bytes_def nat_less_iff)
qed

lemma nth_ring_bytes:
  assumes "ring_ok k r" "i < length (ring_bytes r)"
  shows "ring_bytes r ! i = ring_data r ! ((unat (get_ptr r) + i) mod 2 ^ k)"
  using assms by (simp add: ring_ok_def ring_bytes_def)

lemmas ringbuf_put_elements = ringbuf_put_def [folded ringbuf_elements_def]
lemmas ringbuf_get_elements = ringbuf_get_def [folded ringbuf_elements_def]

lemma next_ptr:
  assumes "k \<le> 8"
  shows "unat ((p + 1 :: u8) AND mask k) = (unat p + 1) mod 2 ^ k"
proof -
  have "(2 :: nat) ^ k dvd 256" using assms le_imp_power_dvd [of k 8 "2 :: nat"] by simp
  moreover have "unat ((p + 1) AND mask k) = unat (p + 1) mod 2 ^ k"
    by (simp add: unsigned_take_bit_eq flip: take_bit_eq_mask take_bit_eq_mod)
  moreover have "unat (p + 1) = (unat p + 1) mod 256" by (simp add: unat_word_ariths)
  ultimately show ?thesis by (simp add: mod_mod_cancel)
qed

lemma uint_next_ptr: "k \<le> 8 \<Longrightarrow> uint ((p + 1 :: u8) AND mask k) = (uint p + 1) mod 2 ^ k"
  using arg_cong [OF next_ptr [of k p], of int] by (simp add: of_nat_mod add.commute)

text \<open>The put pointer is as many places behind the get pointer as there are bytes.\<close>

lemma put_position:
  assumes "ring_ok k r"
  shows "unat (put_ptr r) = (unat (get_ptr r) + length (ring_bytes r)) mod 2 ^ k"
proof -
  let ?p = "unat (put_ptr r)" and ?g = "unat (get_ptr r)"
  have "int ((?g + length (ring_bytes r)) mod 2 ^ k) = (int ?g + (int ?p - int ?g) mod 2 ^ k) mod 2 ^ k"
    by (simp add: of_nat_mod length_ring_bytes(2) [OF assms] ring_elements(1) [OF assms])
  also have "\<dots> = int ?p mod 2 ^ k" by (simp add: mod_add_right_eq)
  also have "\<dots> = int (?p mod 2 ^ k)" by (simp add: of_nat_mod)
  finally show ?thesis using assms by (simp add: ring_ok_def)
qed

lemma ring_put:
  assumes ok: "ring_ok k r"
  shows "length (ring_bytes r) < 2 ^ k - 1 \<Longrightarrow>
      \<exists>r'. ringbuf_put c r = Some (1, r') \<and> ring_ok k r' \<and> ring_bytes r' = ring_bytes r @ [c]"
    and "\<not> length (ring_bytes r) < 2 ^ k - 1 \<Longrightarrow> ringbuf_put c r = Some (0, r)"
proof -
  let ?n = "length (ring_bytes r)" and ?p = "unat (put_ptr r)" and ?g = "unat (get_ptr r)"
  from ok have k: "k \<le> 8" and len: "length (ring_data r) = 2 ^ k" and p: "?p < 2 ^ k" and g: "?g < 2 ^ k"
    and m: "ring_mask r = mask k"
    by (simp_all add: ring_ok_def)
  note n = length_ring_bytes [OF ok]
  show "ringbuf_put c r = Some (0, r)" if "\<not> ?n < 2 ^ k - 1"
  proof -
    from that n(1) have "?n = 2 ^ k - 1" by linarith
    then have "int ?n = 2 ^ k - 1" by (simp add: of_nat_diff)
    then show ?thesis by (simp add: ringbuf_put_elements n(2) [symmetric] ring_elements(2) [OF ok])
  qed
  assume room: "?n < 2 ^ k - 1"
  let ?r = "r\<lparr>ring_data := (ring_data r)[?p := c], put_ptr := (put_ptr r + 1) AND ring_mask r\<rparr>"
  from room have "?n + 1 < 2 ^ k" by linarith
  then have "int (?n + 1) < int (2 ^ k)" by (simp only: of_nat_less_iff)
  then have below: "int ?n + 1 < 2 ^ k" by simp
  then have "int ?n \<noteq> 2 ^ k - 1" by simp
  then have "ringbuf_put c r = Some (1, ?r)"
    using p len by (simp add: ringbuf_put_elements n(2) [symmetric] ring_elements(2) [OF ok])
  moreover have ok': "ring_ok k ?r"
    using ok next_ptr [OF k, of "put_ptr r"] by (simp add: ring_ok_def m)
  moreover have "ring_bytes ?r = ring_bytes r @ [c]"
  proof -
    have "ringbuf_elements ?r = ((uint (put_ptr r) + 1) mod 2 ^ k - uint (get_ptr r)) mod 2 ^ k"
      using ring_elements(1) [OF ok'] uint_next_ptr [OF k, of "put_ptr r"] by (simp add: m)
    also have "\<dots> = ((uint (put_ptr r) - uint (get_ptr r)) mod 2 ^ k + 1) mod 2 ^ k"
      by (simp add: mod_simps algebra_simps)
    also have "\<dots> = (int ?n + 1) mod 2 ^ k"
      by (simp add: n(2) ring_elements(1) [OF ok])
    also have "\<dots> = int ?n + 1"
      using below by (simp add: mod_pos_pos_trivial)
    finally have e: "length (ring_bytes ?r) = Suc ?n" using length_ring_bytes(2) [OF ok'] by linarith
    have same: "(ring_data r)[?p := c] ! ((?g + i) mod 2 ^ k) = ring_data r ! ((?g + i) mod 2 ^ k)"
      if i: "i < ?n" for i
    proof (rule nth_list_update_neq)
      show "?p \<noteq> (?g + i) mod 2 ^ k"
      proof
        assume "?p = (?g + i) mod 2 ^ k"
        then have "(?g + ?n) mod 2 ^ k = (?g + i) mod 2 ^ k" using put_position [OF ok] by simp
        then have "(?n - i) mod 2 ^ k = 0" using i
          by (metis diff_add_inverse diff_diff_left less_imp_le mod_eq_dvd_iff_nat add_le_cancel_left
              dvd_eq_mod_eq_0 add_diff_cancel_left)
        then show False using i n(1) by simp
      qed
    qed
    show ?thesis
    proof (rule nth_equalityI)
      fix i
      assume "i < length (ring_bytes ?r)"
      then consider "i < ?n" | "i = ?n" using e by linarith
      then show "ring_bytes ?r ! i = (ring_bytes r @ [c]) ! i"
        using nth_ring_bytes [OF ok', of i] nth_ring_bytes [OF ok, of i] put_position [OF ok, symmetric] p len
        by cases (simp_all add: e same nth_append)
    qed (simp add: e)
  qed
  ultimately show "\<exists>r'. ringbuf_put c r = Some (1, r') \<and> ring_ok k r' \<and> ring_bytes r' = ring_bytes r @ [c]"
    by blast
qed

lemma ring_get:
  assumes ok: "ring_ok k r"
  shows "ring_bytes r = [] \<Longrightarrow> ringbuf_get r = Some (-1, r)"
    and "ring_bytes r = c # cs \<Longrightarrow>
      \<exists>r'. ringbuf_get r = Some (uint c, r') \<and> ring_ok k r' \<and> ring_bytes r' = cs"
proof -
  let ?n = "length (ring_bytes r)" and ?p = "unat (put_ptr r)" and ?g = "unat (get_ptr r)"
  note n = length_ring_bytes [OF ok]
  from ok have k: "k \<le> 8" and len: "length (ring_data r) = 2 ^ k" and p: "?p < 2 ^ k" and g: "?g < 2 ^ k"
    and m: "ring_mask r = mask k"
    by (simp_all add: ring_ok_def)
  show "ringbuf_get r = Some (-1, r)" if "ring_bytes r = []"
    using that n(2) by (simp add: ringbuf_get_elements)
  assume cs: "ring_bytes r = c # cs"
  let ?r = "r\<lparr>get_ptr := (get_ptr r + 1) AND ring_mask r\<rparr>"
  have c: "c = ring_data r ! ?g"
    using nth_ring_bytes [OF ok, of 0] g by (simp add: cs)
  then have "ringbuf_get r = Some (uint c, ?r)"
    using cs g len n(2) by (simp add: ringbuf_get_elements)
  moreover have ok': "ring_ok k ?r"
    using ok next_ptr [OF k, of "get_ptr r"] by (simp add: ring_ok_def m)
  moreover have "ring_bytes ?r = cs"
  proof -
    have "ringbuf_elements ?r = (uint (put_ptr r) - (uint (get_ptr r) + 1) mod 2 ^ k) mod 2 ^ k"
      using ring_elements(1) [OF ok'] uint_next_ptr [OF k, of "get_ptr r"] by (simp add: m)
    also have "\<dots> = ((uint (put_ptr r) - uint (get_ptr r)) mod 2 ^ k - 1) mod 2 ^ k"
      by (simp add: mod_simps algebra_simps)
    also have "\<dots> = (int ?n - 1) mod 2 ^ k"
      by (simp add: n(2) ring_elements(1) [OF ok])
    also have "\<dots> = int ?n - 1"
    proof (rule mod_pos_pos_trivial)
      have "int ?n < int (2 ^ k)" using n(1) by (simp only: of_nat_less_iff)
      then have "int ?n < 2 ^ k" by simp
      then show "int ?n - 1 < 2 ^ k" by linarith
    qed (simp add: cs)
    finally have e: "length (ring_bytes ?r) = length cs"
      using length_ring_bytes(2) [OF ok'] cs by simp
    have "ring_bytes ?r = tl (ring_bytes r)"
    proof (rule nth_equalityI)
      show "length (ring_bytes ?r) = length (tl (ring_bytes r))" by (simp add: e cs)
      fix i
      assume "i < length (ring_bytes ?r)"
      then have i: "i < length cs" by (simp add: e)
      then have "tl (ring_bytes r) ! i = ring_bytes r ! Suc i" by (simp add: cs)
      also have "\<dots> = ring_data r ! ((?g + Suc i) mod 2 ^ k)"
        using i cs by (intro nth_ring_bytes [OF ok]) simp
      finally show "ring_bytes ?r ! i = tl (ring_bytes r) ! i"
        using i e nth_ring_bytes [OF ok', of i] next_ptr [OF k, of "get_ptr r"] by (simp add: m mod_simps)
    qed
    then show ?thesis by (simp add: cs)
  qed
  ultimately show "\<exists>r'. ringbuf_get r = Some (uint c, r') \<and> ring_ok k r' \<and> ring_bytes r' = cs" by blast
qed

text \<open>A buffer of \<open>2\<^sup>k\<close> bytes is a queue with room for one byte less.\<close>

interpretation ring: byte_queue "ring_ok k" ring_bytes "2 ^ k - 1" ringbuf_put ringbuf_get
  by unfold_locales (fact ring_put ring_get)+

lemma ring_init:
  assumes "k \<le> 8" "length bs = 2 ^ k"
  shows "ring_ok k (ringbuf_init bs (2 ^ k))" "ring_bytes (ringbuf_init bs (2 ^ k)) = []"
  using assms by (simp_all add: ring_ok_def ring_bytes_def ringbuf_init_def ringbuf_elements_def
      mask_eq_exp_minus_1)

end
