(* ===== verification/Sniffer.thy ===== *)
theory Sniffer
  imports Ring_Buffer
begin

text \<open>
  The sniffer image (\<open>unwired/sensniff\<close>): every radio frame is sent to the host as a message
  on the UART, and the host sets and asks for the channel with commands on the same line. The
  bytes of the host pass a ring buffer between the interrupt and the process. The
  radio driver belongs to the chip: it is the parameter \<open>radio_ops\<close>, its functions over a state
  \<open>'r\<close>. The specification is over messages and lists. What counts as sent is what the code of
  the directory sends, its error text included; the lines that \<open>contiki-main.c\<close> prints on the
  same UART while it starts the system come before it.
\<close>

section \<open>Constants and state\<close>

datatype radio_param = RADIO_PARAM_POWER_MODE | RADIO_PARAM_CHANNEL | RADIO_PARAM_PAN_ID
  | RADIO_PARAM_16BIT_ADDR | RADIO_PARAM_RX_MODE | RADIO_PARAM_TX_MODE | RADIO_PARAM_TXPOWER
  | RADIO_PARAM_CCA_THRESHOLD | RADIO_PARAM_RSSI | RADIO_PARAM_LAST_RSSI
  | RADIO_PARAM_LAST_LINK_QUALITY | RADIO_PARAM_64BIT_ADDR | RADIO_PARAM_LAST_PACKET_TIMESTAMP
  | RADIO_CONST_CHANNEL_MIN | RADIO_CONST_CHANNEL_MAX | RADIO_CONST_TXPOWER_MIN
  | RADIO_CONST_TXPOWER_MAX

datatype radio_result = RADIO_RESULT_OK | RADIO_RESULT_NOT_SUPPORTED
  | RADIO_RESULT_INVALID_VALUE | RADIO_RESULT_ERROR

text \<open>The driver of \<open>NETSTACK_RADIO\<close>: a value is read with the result of the call.\<close>

record 'r radio_ops =
  get_value :: "radio_param \<Rightarrow> 'r \<Rightarrow> radio_result \<times> int \<times> 'r"
  set_value :: "radio_param \<Rightarrow> int \<Rightarrow> 'r \<Rightarrow> radio_result \<times> 'r"
  set_object :: "radio_param \<Rightarrow> bytes \<Rightarrow> 'r \<Rightarrow> radio_result \<times> 'r"
  radio_init :: "'r \<Rightarrow> 'r"
  radio_on :: "'r \<Rightarrow> 'r"

definition STATE_WAITING_FOR_MAGIC :: u8 where "STATE_WAITING_FOR_MAGIC = 0x00"
definition STATE_WAITING_FOR_VERSION :: u8 where "STATE_WAITING_FOR_VERSION = 0x01"
definition STATE_WAITING_FOR_CMD :: u8 where "STATE_WAITING_FOR_CMD = 0x02"
definition STATE_WAITING_FOR_LEN_1 :: u8 where "STATE_WAITING_FOR_LEN_1 = 0x03"
definition STATE_WAITING_FOR_LEN_2 :: u8 where "STATE_WAITING_FOR_LEN_2 = 0x04"
definition STATE_WAITING_FOR_DATA :: u8 where "STATE_WAITING_FOR_DATA = 0x05"
definition CMD_FRAME :: u8 where "CMD_FRAME = 0x00"
definition CMD_CHANNEL :: u8 where "CMD_CHANNEL = 0x01"
definition CMD_CHANNEL_MIN :: u8 where "CMD_CHANNEL_MIN = 0x02"
definition CMD_CHANNEL_MAX :: u8 where "CMD_CHANNEL_MAX = 0x03"
definition CMD_ERR_NOT_SUPPORTED :: u8 where "CMD_ERR_NOT_SUPPORTED = 0x7F"
definition CMD_GET_CHANNEL :: u8 where "CMD_GET_CHANNEL = 0x81"
definition CMD_GET_CHANNEL_MIN :: u8 where "CMD_GET_CHANNEL_MIN = 0x82"
definition CMD_GET_CHANNEL_MAX :: u8 where "CMD_GET_CHANNEL_MAX = 0x83"
definition CMD_SET_CHANNEL :: u8 where "CMD_SET_CHANNEL = 0x84"
definition PROTOCOL_VERSION :: u8 where "PROTOCOL_VERSION = 2"
definition BUFSIZE :: u8 where "BUFSIZE = 32"
definition magic :: bytes where "magic = [0xC1, 0x1F, 0xFE, 0x72]"

lemmas sniffer_states = STATE_WAITING_FOR_MAGIC_def STATE_WAITING_FOR_VERSION_def
  STATE_WAITING_FOR_CMD_def STATE_WAITING_FOR_LEN_1_def STATE_WAITING_FOR_LEN_2_def
  STATE_WAITING_FOR_DATA_def
lemmas sniffer_cmds = CMD_FRAME_def CMD_CHANNEL_def CMD_CHANNEL_MIN_def CMD_CHANNEL_MAX_def
  CMD_ERR_NOT_SUPPORTED_def CMD_GET_CHANNEL_def CMD_GET_CHANNEL_MIN_def CMD_GET_CHANNEL_MAX_def
  CMD_SET_CHANNEL_def

record cmd_in =
  cmd_no :: u8
  cmd_len :: u16
  cmd_data :: u8

text \<open>The variables of the parser, the radio, and the bytes sent so far.\<close>

record 'r sniff =
  sniff_state :: u8
  in_ct :: u8
  command :: cmd_in
  sniff_radio :: 'r
  byte_out :: bytes

section \<open>sensniff.c\<close>

definition reset_state :: "'r sniff \<Rightarrow> 'r sniff" where
  "reset_state s = s\<lparr>sniff_state := STATE_WAITING_FOR_MAGIC, in_ct := 0,
     command := \<lparr>cmd_no = 0, cmd_len = 0, cmd_data = 0\<rparr>\<rparr>"

definition sensniff_io_byte_out :: "u8 \<Rightarrow> 'r sniff \<Rightarrow> 'r sniff" where
  "sensniff_io_byte_out b s = s\<lparr>byte_out := byte_out s @ [b]\<rparr>"

definition send_header :: "u8 \<Rightarrow> u16 \<Rightarrow> 'r sniff \<Rightarrow> 'r sniff" where
  "send_header cmd len s =
    (let s = fold (\<lambda>i. sensniff_io_byte_out (magic ! i)) [0..<4] s;
         s = sensniff_io_byte_out PROTOCOL_VERSION s;
         s = sensniff_io_byte_out cmd s;
         s = sensniff_io_byte_out (ucast (drop_bit 8 len)) s
     in sensniff_io_byte_out (ucast (len AND 0xFF)) s)"

definition send_error :: "'r sniff \<Rightarrow> 'r sniff" where
  "send_error s = send_header CMD_ERR_NOT_SUPPORTED 0 s"

definition send_channel :: "'r radio_ops \<Rightarrow> 'r sniff \<Rightarrow> 'r sniff" where
  "send_channel ops s =
    (case get_value ops RADIO_PARAM_CHANNEL (sniff_radio s) of (res, chan, r) \<Rightarrow>
       let s = s\<lparr>sniff_radio := r\<rparr>
       in if res = RADIO_RESULT_OK
          then sensniff_io_byte_out (word_of_int (chan AND 0xFF)) (send_header CMD_CHANNEL 1 s)
          else send_error s)"

definition set_channel :: "'r radio_ops \<Rightarrow> u8 \<Rightarrow> 'r sniff \<Rightarrow> 'r sniff" where
  "set_channel ops channel s =
    (case set_value ops RADIO_PARAM_CHANNEL (uint channel) (sniff_radio s) of (res, r) \<Rightarrow>
       let s = s\<lparr>sniff_radio := r\<rparr>
       in if res = RADIO_RESULT_OK then send_channel ops s else send_error s)"

definition send_channel_min :: "'r radio_ops \<Rightarrow> 'r sniff \<Rightarrow> 'r sniff" where
  "send_channel_min ops s =
    (case get_value ops RADIO_CONST_CHANNEL_MIN (sniff_radio s) of (res, chan, r) \<Rightarrow>
       let s = s\<lparr>sniff_radio := r\<rparr>
       in if res = RADIO_RESULT_OK
          then sensniff_io_byte_out (word_of_int (chan AND 0xFF)) (send_header CMD_CHANNEL_MIN 1 s)
          else send_error s)"

definition send_channel_max :: "'r radio_ops \<Rightarrow> 'r sniff \<Rightarrow> 'r sniff" where
  "send_channel_max ops s =
    (case get_value ops RADIO_CONST_CHANNEL_MAX (sniff_radio s) of (res, chan, r) \<Rightarrow>
       let s = s\<lparr>sniff_radio := r\<rparr>
       in if res = RADIO_RESULT_OK
          then sensniff_io_byte_out (word_of_int (chan AND 0xFF)) (send_header CMD_CHANNEL_MAX 1 s)
          else send_error s)"

text \<open>
  A received frame is in the packet buffer, its length below 65536; the length is cut to one
  byte. RSSI and link quality are 16-bit attributes of the packet.
\<close>

definition sensniff_output_frame :: "bytes \<Rightarrow> u16 \<Rightarrow> u16 \<Rightarrow> 'r sniff \<Rightarrow> 'r sniff" where
  "sensniff_output_frame packetbuf rssi link_quality s =
    (let len = word_of_int (int (length packetbuf) AND 0xFF) :: u8;
         s = send_header CMD_FRAME (ucast len + 2) s;
         s = fold (\<lambda>i. sensniff_io_byte_out (packetbuf ! i)) [0..<unat len] s;
         s = sensniff_io_byte_out (ucast (rssi AND 0xFF)) s
     in sensniff_io_byte_out (0x80 OR ucast (link_quality AND 0xFF)) s)"

definition execute_command :: "'r radio_ops \<Rightarrow> 'r sniff \<Rightarrow> 'r sniff" where
  "execute_command ops s =
    (if cmd_no (command s) = CMD_GET_CHANNEL then send_channel ops s
     else if cmd_no (command s) = CMD_GET_CHANNEL_MIN then send_channel_min ops s
     else if cmd_no (command s) = CMD_GET_CHANNEL_MAX then send_channel_max ops s
     else if cmd_no (command s) = CMD_SET_CHANNEL then set_channel ops (cmd_data (command s)) s
     else send_error s)"

text \<open>The body of the loop of \<open>process_incoming_data\<close>; \<open>magic[in_ct]\<close> must be in the array.\<close>

definition incoming_byte :: "'r radio_ops \<Rightarrow> u8 \<Rightarrow> 'r sniff \<Rightarrow> 'r sniff option" where
  "incoming_byte ops byte_in s =
    (if sniff_state s = STATE_WAITING_FOR_MAGIC then
       if unat (in_ct s) < length magic then
         if byte_in = magic ! unat (in_ct s) then
           let s = s\<lparr>in_ct := in_ct s + 1\<rparr>
           in Some (if unat (in_ct s) = length magic
                    then s\<lparr>sniff_state := STATE_WAITING_FOR_VERSION, in_ct := 0\<rparr> else s)
         else Some (reset_state s)
       else None
     else if sniff_state s = STATE_WAITING_FOR_VERSION then
       Some (if byte_in = PROTOCOL_VERSION then s\<lparr>sniff_state := STATE_WAITING_FOR_CMD\<rparr>
             else reset_state s)
     else if sniff_state s = STATE_WAITING_FOR_CMD then
       let s = s\<lparr>command := (command s)\<lparr>cmd_no := byte_in\<rparr>\<rparr>
       in Some (if cmd_no (command s) = CMD_GET_CHANNEL \<or> cmd_no (command s) = CMD_GET_CHANNEL_MIN
                   \<or> cmd_no (command s) = CMD_GET_CHANNEL_MAX
                then reset_state (execute_command ops s)
                else s\<lparr>sniff_state := STATE_WAITING_FOR_LEN_1\<rparr>)
     else if sniff_state s = STATE_WAITING_FOR_LEN_1 then
       Some (s\<lparr>command := (command s)\<lparr>cmd_len := push_bit 8 (ucast byte_in)\<rparr>,
               sniff_state := STATE_WAITING_FOR_LEN_2\<rparr>)
     else if sniff_state s = STATE_WAITING_FOR_LEN_2 then
       let s = s\<lparr>command := (command s)\<lparr>cmd_len := cmd_len (command s) OR ucast byte_in\<rparr>\<rparr>
       in Some (if cmd_len (command s) = 1 then s\<lparr>sniff_state := STATE_WAITING_FOR_DATA\<rparr>
                else reset_state s)
     else if sniff_state s = STATE_WAITING_FOR_DATA then
       Some (reset_state (execute_command ops (s\<lparr>command := (command s)\<lparr>cmd_data := byte_in\<rparr>\<rparr>)))
     else Some s)"

definition process_incoming_data ::
  "'r radio_ops \<Rightarrow> ringbuf \<Rightarrow> 'r sniff \<Rightarrow> (ringbuf \<times> 'r sniff) option" where
  "process_incoming_data ops rxbuf s = drain ringbuf_get (incoming_byte ops) rxbuf s"

section \<open>The running image\<close>

text \<open>
  Beside the parser: the ring buffer, whether \<open>ct\<close> runs, whether the process is polled, and whether
  the input callback is registered (after \<open>PROCESS_EXIT\<close> it never is).
\<close>

record 'r sniffer =
  rxbuf :: ringbuf
  parser :: "'r sniff"
  ct_running :: bool
  polled :: bool
  listening :: bool

definition char_in :: "u8 \<Rightarrow> 'r sniffer \<Rightarrow> 'r sniffer option" where
  "char_in c s = do {
     (_, rb) \<leftarrow> ringbuf_put c (rxbuf s);
     Some (s\<lparr>ct_running := True, rxbuf := rb, polled := True\<rparr>) }"

text \<open>\<open>netstack.c\<close> and the driver of \<open>sensniff-rdc.c\<close>, which never switches the radio off.\<close>

definition sensniff_rdc_on :: "'r radio_ops \<Rightarrow> 'r \<Rightarrow> int \<times> 'r" where
  "sensniff_rdc_on ops r = (1, radio_on ops r)"

definition sensniff_rdc_init :: "'r radio_ops \<Rightarrow> 'r \<Rightarrow> 'r" where
  "sensniff_rdc_init ops r = snd (sensniff_rdc_on ops r)"

definition netstack_init :: "'r radio_ops \<Rightarrow> 'r \<Rightarrow> 'r" where
  "netstack_init ops r = sensniff_rdc_init ops (radio_init ops r)"

text \<open>
  \<open>contiki-main.c\<close> then gives the radio its identifiers: the 8 bytes of the IEEE address of the
  chip are a parameter, and so is the channel of the build.
\<close>

definition IEEE802154_PANID :: int where "IEEE802154_PANID = 0xABCD"

definition set_rf_params :: "'r radio_ops \<Rightarrow> int \<Rightarrow> bytes \<Rightarrow> 'r \<Rightarrow> 'r" where
  "set_rf_params ops rf_core_channel ext_addr r =
    (let short_addr = ucast (ext_addr ! 7) OR push_bit 8 (ucast (ext_addr ! 6)) :: u16;
         r = snd (set_value ops RADIO_PARAM_PAN_ID IEEE802154_PANID r);
         r = snd (set_value ops RADIO_PARAM_16BIT_ADDR (uint short_addr) r);
         r = snd (set_value ops RADIO_PARAM_CHANNEL rf_core_channel r);
         r = snd (set_object ops RADIO_PARAM_64BIT_ADDR (take 8 ext_addr) r)
     in snd (snd (get_value ops RADIO_PARAM_CHANNEL r)))"

text \<open>The state of the sniffer before its process starts: all variables 0, the radio switched on.\<close>

definition sniffer_boot :: "'r radio_ops \<Rightarrow> int \<Rightarrow> bytes \<Rightarrow> 'r \<Rightarrow> 'r sniffer" where
  "sniffer_boot ops rf_core_channel ext_addr r =
     \<lparr>rxbuf = \<lparr>ring_data = [], ring_mask = 0, put_ptr = 0, get_ptr = 0\<rparr>,
      parser = \<lparr>sniff_state = 0, in_ct = 0, command = \<lparr>cmd_no = 0, cmd_len = 0, cmd_data = 0\<rparr>,
        sniff_radio = set_rf_params ops rf_core_channel ext_addr (netstack_init ops r), byte_out = []\<rparr>,
      ct_running = False, polled = False, listening = False\<rparr>"

text \<open>
  The process up to its first \<open>PROCESS_YIELD\<close>, or its exit. A radio that refuses the
  promiscuous mode makes it print a line, which \<open>putchar\<close> sends on the UART of the messages.
\<close>

definition rx_mode_error :: bytes where
  "rx_mode_error = map of_char ''sensniff: Error setting RF in promiscuous mode'' @ [0x0A]"

definition sensniff_process_start :: "'r radio_ops \<Rightarrow> 'r sniffer \<Rightarrow> 'r sniffer" where
  "sensniff_process_start ops s =
    (case set_value ops RADIO_PARAM_RX_MODE 0 (sniff_radio (parser s)) of (res, r) \<Rightarrow>
       let s = s\<lparr>parser := (parser s)\<lparr>sniff_radio := r\<rparr>\<rparr>
       in if res \<noteq> RADIO_RESULT_OK
          then s\<lparr>parser := fold sensniff_io_byte_out rx_mode_error (parser s)\<rparr>
          else s\<lparr>rxbuf := ringbuf_init (replicate 32 0) BUFSIZE,
                 parser := set_channel ops 26 (reset_state (parser s)), listening := True\<rparr>)"

text \<open>
  What happens to the running image: a byte of the host, the timer, a turn of the process,
  a frame of the radio.
\<close>

datatype sniffer_event = Char_In u8 | Timeout | Poll | Radio_Frame bytes u16 u16

fun sniffer_step :: "'r radio_ops \<Rightarrow> sniffer_event \<Rightarrow> 'r sniffer \<Rightarrow> 'r sniffer option" where
  "sniffer_step ops (Char_In c) s = (if listening s then char_in c s else Some s)"
| "sniffer_step ops Timeout s =
    Some (if ct_running s then s\<lparr>ct_running := False, parser := reset_state (parser s)\<rparr> else s)"
| "sniffer_step ops Poll s =
    (if polled s then do {
       (rb, p) \<leftarrow> process_incoming_data ops (rxbuf s) (parser s);
       Some (s\<lparr>polled := False, rxbuf := rb, parser := p\<rparr>) }
     else Some s)"
| "sniffer_step ops (Radio_Frame packetbuf rssi lqi) s =
    Some (s\<lparr>parser := sensniff_output_frame packetbuf rssi lqi (parser s)\<rparr>)"

definition sniffer_run ::
  "'r radio_ops \<Rightarrow> int \<Rightarrow> bytes \<Rightarrow> 'r \<Rightarrow> sniffer_event list \<Rightarrow> 'r sniffer option" where
  "sniffer_run ops rf_core_channel ext_addr r evs =
     for_each (sniffer_step ops) evs (sensniff_process_start ops (sniffer_boot ops rf_core_channel ext_addr r))"

end
