(* ===== verification/Sniffer_Laws.thy ===== *)
theory Sniffer_Laws
  imports Sniffer
begin

text \<open>
  What the host sees of the sniffer: a stream of messages. The specification keeps the
  bytes that wait in the queue and the bytes of the command under way as lists and answers a
  whole command at once; the parser with its ring buffer refines it, for every radio driver.
\<close>

section \<open>Messages\<close>

datatype host_msg = Host_Msg u8 bytes

fun encode_msg :: "host_msg \<Rightarrow> bytes" where
  "encode_msg (Host_Msg c p) = magic @ [PROTOCOL_VERSION, c, word_of_nat (length p div 256),
     word_of_nat (length p)] @ p"

function decode_msgs :: "bytes \<Rightarrow> host_msg list option" where
  "decode_msgs bs =
    (if bs = [] then Some []
     else if length bs < 8 \<or> take 5 bs \<noteq> magic @ [PROTOCOL_VERSION] then None
     else let n = 256 * unat (bs ! 6) + unat (bs ! 7); rest = drop 8 bs
       in if length rest < n then None
          else map_option (Cons (Host_Msg (bs ! 5) (take n rest))) (decode_msgs (drop n rest)))"
  by auto
termination by (relation "measure length") auto

declare decode_msgs.simps [simp del]

lemma decode_Nil [simp]: "decode_msgs [] = Some []"
  by (simp add: decode_msgs.simps)

lemma decode_encode:
  assumes "length p < 65536"
  shows "decode_msgs (encode_msg (Host_Msg c p) @ bs)
    = map_option (Cons (Host_Msg c p)) (decode_msgs bs)"
proof -
  have "256 * (length p div 256 mod 256) + length p mod 256 = length p"
    using assms by (simp add: div_mod_decomp)
  then show ?thesis
    by (subst decode_msgs.simps) (simp add: magic_def unat_of_nat take_bit_eq_mod Let_def nth_append)
qed

definition msg_fits :: "host_msg \<Rightarrow> bool" where
  "msg_fits m = (case m of Host_Msg c p \<Rightarrow> length p < 65536)"

lemma decode_stream:
  "\<forall>m \<in> set ms. msg_fits m \<Longrightarrow> decode_msgs (concat (map encode_msg ms)) = Some ms"
  by (induction ms)
    (auto simp: msg_fits_def decode_encode simp del: encode_msg.simps split: host_msg.splits)

section \<open>Specification\<close>

definition is_get :: "u8 \<Rightarrow> bool" where
  "is_get c \<longleftrightarrow> c = CMD_GET_CHANNEL \<or> c = CMD_GET_CHANNEL_MIN \<or> c = CMD_GET_CHANNEL_MAX"

text \<open>What the radio says about a parameter, as a message.\<close>

definition report :: "'r radio_ops \<Rightarrow> radio_param \<Rightarrow> u8 \<Rightarrow> 'r \<Rightarrow> host_msg \<times> 'r" where
  "report ops param c r = (case get_value ops param r of (res, v, r') \<Rightarrow>
     (if res = RADIO_RESULT_OK then Host_Msg c [word_of_int v] else Host_Msg CMD_ERR_NOT_SUPPORTED [], r'))"

definition tune :: "'r radio_ops \<Rightarrow> u8 \<Rightarrow> 'r \<Rightarrow> host_msg \<times> 'r" where
  "tune ops x r = (case set_value ops RADIO_PARAM_CHANNEL (uint x) r of (res, r') \<Rightarrow>
     if res = RADIO_RESULT_OK then report ops RADIO_PARAM_CHANNEL CMD_CHANNEL r'
     else (Host_Msg CMD_ERR_NOT_SUPPORTED [], r'))"

definition answer :: "'r radio_ops \<Rightarrow> u8 \<Rightarrow> u8 \<Rightarrow> 'r \<Rightarrow> host_msg \<times> 'r" where
  "answer ops c x r =
    (if c = CMD_GET_CHANNEL then report ops RADIO_PARAM_CHANNEL CMD_CHANNEL r
     else if c = CMD_GET_CHANNEL_MIN then report ops RADIO_CONST_CHANNEL_MIN CMD_CHANNEL_MIN r
     else if c = CMD_GET_CHANNEL_MAX then report ops RADIO_CONST_CHANNEL_MAX CMD_CHANNEL_MAX r
     else if c = CMD_SET_CHANNEL then tune ops x r
     else (Host_Msg CMD_ERR_NOT_SUPPORTED [], r))"

text \<open>
  A command is the magic, the version and the code of a question, or the code of anything else,
  the length 1 and a byte of data.
\<close>

definition command_complete :: "bytes \<Rightarrow> bool" where
  "command_complete p \<longleftrightarrow> take 5 p = magic @ [PROTOCOL_VERSION]
     \<and> (length p = 6 \<and> is_get (p ! 5) \<or> length p = 9 \<and> \<not> is_get (p ! 5) \<and> p ! 6 = 0 \<and> p ! 7 = 1)"

text \<open>The bytes read so far that are worth waiting for more; the length is judged when it is whole.\<close>

definition command_prefix :: "bytes \<Rightarrow> bool" where
  "command_prefix p \<longleftrightarrow> length p \<le> 4 \<and> p = take (length p) magic
     \<or> take 5 p = magic @ [PROTOCOL_VERSION]
       \<and> (length p = 5 \<or> length p \<in> {6, 7, 8} \<and> \<not> is_get (p ! 5) \<and> (length p = 8 \<longrightarrow> p ! 6 = 0 \<and> p ! 7 = 1))"

record 'r sniff_spec =
  waiting :: bytes
  pending :: bytes
  timer :: bool
  serving :: bool
  tuner :: 'r
  messages :: "host_msg list"

definition spec_byte :: "'r radio_ops \<Rightarrow> u8 \<Rightarrow> 'r sniff_spec \<Rightarrow> 'r sniff_spec" where
  "spec_byte ops b a =
    (let p = pending a @ [b]
     in if command_complete p then
          case answer ops (p ! 5) (if length p = 9 then p ! 8 else 0) (tuner a) of (m, r) \<Rightarrow>
            a\<lparr>pending := [], tuner := r, messages := messages a @ [m]\<rparr>
        else a\<lparr>pending := (if command_prefix p then p else [])\<rparr>)"

text \<open>The queue has room for 31 bytes. A frame is reported with its signal; its length modulo 256.\<close>

fun spec_step :: "'r radio_ops \<Rightarrow> sniffer_event \<Rightarrow> 'r sniff_spec \<Rightarrow> 'r sniff_spec" where
  "spec_step ops (Char_In c) a =
    (if serving a then a\<lparr>waiting := enqueue 31 c (waiting a), timer := True\<rparr> else a)"
| "spec_step ops Timeout a = (if timer a then a\<lparr>pending := [], timer := False\<rparr> else a)"
| "spec_step ops Poll a = (fold (spec_byte ops) (waiting a) a)\<lparr>waiting := []\<rparr>"
| "spec_step ops (Radio_Frame bs rssi lqi) a = a\<lparr>messages := messages a @
     [Host_Msg CMD_FRAME (take (length bs mod 256) bs @ [ucast rssi, 0x80 OR ucast lqi])]\<rparr>"

text \<open>
  The specification starts with a radio that is initialised, switched on and given its identifiers;
  it serves the host only if that radio accepts the promiscuous mode.
\<close>

definition spec_start :: "'r radio_ops \<Rightarrow> 'r \<Rightarrow> 'r sniff_spec" where
  "spec_start ops r =
    (case set_value ops RADIO_PARAM_RX_MODE 0 r of (res, r1) \<Rightarrow>
     let a = \<lparr>waiting = [], pending = [], timer = False, serving = False, tuner = r1, messages = []\<rparr>
     in if res = RADIO_RESULT_OK
        then case tune ops 26 r1 of (m, r2) \<Rightarrow> a\<lparr>serving := True, tuner := r2, messages := [m]\<rparr>
        else a)"

definition host_messages :: "'r radio_ops \<Rightarrow> 'r \<Rightarrow> sniffer_event list \<Rightarrow> host_msg list" where
  "host_messages ops r evs = messages (fold (spec_step ops) evs (spec_start ops r))"

definition started_radio :: "'r radio_ops \<Rightarrow> int \<Rightarrow> bytes \<Rightarrow> 'r \<Rightarrow> 'r" where
  "started_radio ops channel ext_addr r = set_rf_params ops channel ext_addr (radio_on ops (radio_init ops r))"

definition promiscuous :: "'r radio_ops \<Rightarrow> 'r \<Rightarrow> bool" where
  "promiscuous ops r \<longleftrightarrow> fst (set_value ops RADIO_PARAM_RX_MODE 0 r) = RADIO_RESULT_OK"

text \<open>The error line is no message: a stream that begins with it decodes to nothing.\<close>

lemma error_line_undecodable: "decode_msgs (rx_mode_error @ bs) = None"
proof -
  have "hd rx_mode_error = 115" "rx_mode_error \<noteq> []" by (simp_all add: rx_mode_error_def)
  then obtain rest where rest: "rx_mode_error = 115 # rest" by (metis list.collapse)
  have "take 5 (rx_mode_error @ bs) \<noteq> magic @ [PROTOCOL_VERSION]" unfolding rest by (simp add: magic_def)
  then show ?thesis using \<open>rx_mode_error \<noteq> []\<close> by (subst decode_msgs.simps) simp
qed

lemma fold_bytes_out: "fold sensniff_io_byte_out bs s = s\<lparr>byte_out := byte_out s @ bs\<rparr>"
  by (induction bs arbitrary: s) (simp_all add: sensniff_io_byte_out_def)

section \<open>Sending\<close>

definition emit :: "host_msg list \<Rightarrow> 'r sniff \<Rightarrow> 'r sniff" where
  "emit ms s = s\<lparr>byte_out := byte_out s @ concat (map encode_msg ms)\<rparr>"

lemma send_header_out:
  "send_header c len s = s\<lparr>byte_out := byte_out s @ magic @
     [PROTOCOL_VERSION, c, ucast (drop_bit 8 len), ucast len]\<rparr>"
proof -
  have "len AND 0xFF = take_bit 8 len" by (simp add: take_bit_eq_mask mask_eq_exp_minus_1)
  then have low: "(ucast (len AND 0xFF) :: u8) = ucast len"
    by (simp add: bit_word_eqI bit_simps)
  have four: "[0..<4] = [0, 1, 2, 3]" by (simp add: upt_rec)
  show ?thesis
    by (simp add: send_header_def sensniff_io_byte_out_def magic_def four low)
qed

lemma send_error_emit: "send_error s = emit [Host_Msg CMD_ERR_NOT_SUPPORTED []] s"
  by (simp add: send_error_def send_header_out emit_def)

lemma low_byte: "(word_of_int (v AND 0xFF) :: u8) = word_of_int v"
proof -
  have "v AND 0xFF = take_bit 8 v" by (simp add: take_bit_eq_mask mask_eq_exp_minus_1)
  then show ?thesis by (simp add: bit_word_eqI bit_simps)
qed

lemma send_report:
  "send_channel ops s = (case report ops RADIO_PARAM_CHANNEL CMD_CHANNEL (sniff_radio s) of (m, r) \<Rightarrow>
     emit [m] (s\<lparr>sniff_radio := r\<rparr>))"
  "send_channel_min ops s = (case report ops RADIO_CONST_CHANNEL_MIN CMD_CHANNEL_MIN (sniff_radio s) of (m, r) \<Rightarrow>
     emit [m] (s\<lparr>sniff_radio := r\<rparr>))"
  "send_channel_max ops s = (case report ops RADIO_CONST_CHANNEL_MAX CMD_CHANNEL_MAX (sniff_radio s) of (m, r) \<Rightarrow>
     emit [m] (s\<lparr>sniff_radio := r\<rparr>))"
  by (simp_all add: send_channel_def send_channel_min_def send_channel_max_def report_def send_error_emit
      emit_def send_header_out sensniff_io_byte_out_def low_byte split: prod.splits)

lemma set_channel_tune:
  "set_channel ops x s = (case tune ops x (sniff_radio s) of (m, r) \<Rightarrow> emit [m] (s\<lparr>sniff_radio := r\<rparr>))"
  by (simp add: set_channel_def tune_def send_report send_error_emit split: prod.splits)

lemma execute_answer:
  "execute_command ops s = (case answer ops (cmd_no (command s)) (cmd_data (command s)) (sniff_radio s) of (m, r) \<Rightarrow>
     emit [m] (s\<lparr>sniff_radio := r\<rparr>))"
  by (simp add: execute_command_def answer_def send_report set_channel_tune send_error_emit)

lemma fold_byte_out:
  "n \<le> length bs \<Longrightarrow> fold (\<lambda>i. sensniff_io_byte_out (bs ! i)) [0..<n] s = s\<lparr>byte_out := byte_out s @ take n bs\<rparr>"
  by (induction n) (auto simp: sensniff_io_byte_out_def take_Suc_conv_app_nth)

lemma length_bytes:
  assumes "n < 65536"
  shows "(ucast (drop_bit 8 (word_of_nat n :: u16)) :: u8) = word_of_nat (n div 256)"
    "(ucast (word_of_nat n :: u16) :: u8) = word_of_nat n"
proof -
  have "unat (drop_bit 8 (word_of_nat n :: u16)) = n div 256"
    using assms by (simp add: drop_bit_eq_div unat_div_distrib unat_of_nat take_bit_eq_mod)
  then show "(ucast (drop_bit 8 (word_of_nat n :: u16)) :: u8) = word_of_nat (n div 256)"
    using of_nat_unat [of "drop_bit 8 (word_of_nat n :: u16)", where 'a = u8] by simp
  have "unat (word_of_nat n :: u16) = n"
    using assms by (simp add: unat_of_nat take_bit_eq_mod)
  then show "(ucast (word_of_nat n :: u16) :: u8) = word_of_nat n"
    using of_nat_unat [of "word_of_nat n :: u16", where 'a = u8] by simp
qed

lemma output_frame_emit:
  "sensniff_output_frame bs rssi lqi s = emit [Host_Msg CMD_FRAME
     (take (length bs mod 256) bs @ [ucast rssi, 0x80 OR ucast lqi])] s"
proof -
  let ?len = "word_of_int (int (length bs) AND 0xFF) :: u8" and ?n = "length bs mod 256"
  have len: "?len = word_of_nat ?n"
    by (simp add: low_byte) (simp add: word_of_nat_eq_iff take_bit_eq_mod)
  then have unat_len: "unat ?len = ?n" by (simp add: unat_of_nat take_bit_eq_mod)
  have n: "?n + 2 < 65536" by (simp add: less_trans [OF mod_less_divisor])
  have "(ucast ?len + 2 :: u16) = word_of_nat (?n + 2)"
    using of_nat_unat [of ?len, where 'a = u16] by (simp add: unat_len)
  moreover have "ucast (w AND 0xFF) = (ucast w :: u8)" for w :: u16
  proof -
    have "w AND 0xFF = take_bit 8 w" by (simp add: take_bit_eq_mask mask_eq_exp_minus_1)
    then show ?thesis by (simp add: bit_word_eqI bit_simps)
  qed
  moreover have "length (take ?n bs @ [ucast rssi, 0x80 OR ucast lqi]) = ?n + 2" by simp
  ultimately show ?thesis
    by (simp only: sensniff_output_frame_def Let_def send_header_out emit_def unat_len encode_msg.simps
        length_bytes [OF n] fold_byte_out [OF mod_less_eq_dividend] sensniff_io_byte_out_def)
      simp
qed

section \<open>The parser follows the specification\<close>

inductive parses :: "bytes \<Rightarrow> 'r sniff \<Rightarrow> bool" where
  Magic: "sniff_state s = STATE_WAITING_FOR_MAGIC \<Longrightarrow> unat (in_ct s) < 4
    \<Longrightarrow> parses (take (unat (in_ct s)) magic) s"
| Version: "sniff_state s = STATE_WAITING_FOR_VERSION \<Longrightarrow> in_ct s = 0 \<Longrightarrow> parses magic s"
| Cmd: "sniff_state s = STATE_WAITING_FOR_CMD \<Longrightarrow> in_ct s = 0 \<Longrightarrow> parses (magic @ [PROTOCOL_VERSION]) s"
| Len_1: "sniff_state s = STATE_WAITING_FOR_LEN_1 \<Longrightarrow> in_ct s = 0 \<Longrightarrow> \<not> is_get (cmd_no (command s))
    \<Longrightarrow> parses (magic @ [PROTOCOL_VERSION, cmd_no (command s)]) s"
| Len_2: "sniff_state s = STATE_WAITING_FOR_LEN_2 \<Longrightarrow> in_ct s = 0 \<Longrightarrow> \<not> is_get (cmd_no (command s))
    \<Longrightarrow> cmd_len (command s) = push_bit 8 (ucast h)
    \<Longrightarrow> parses (magic @ [PROTOCOL_VERSION, cmd_no (command s), h]) s"
| Data: "sniff_state s = STATE_WAITING_FOR_DATA \<Longrightarrow> in_ct s = 0 \<Longrightarrow> \<not> is_get (cmd_no (command s))
    \<Longrightarrow> parses (magic @ [PROTOCOL_VERSION, cmd_no (command s), 0, 1]) s"

lemma parses_reset: "parses [] (reset_state s)"
  using parses.Magic [of "reset_state s"] by (simp add: reset_state_def sniffer_states)

lemma emit_simps [simp]:
  "sniff_state (emit ms s) = sniff_state s" "in_ct (emit ms s) = in_ct s"
  "command (emit ms s) = command s" "sniff_radio (emit ms s) = sniff_radio s"
  "byte_out (emit ms s) = byte_out s @ concat (map encode_msg ms)"
  by (simp_all add: emit_def)

lemma reset_simps [simp]:
  "sniff_radio (reset_state s) = sniff_radio s" "byte_out (reset_state s) = byte_out s"
  by (simp_all add: reset_state_def)

lemma parses_emit: "parses p s \<Longrightarrow> parses p (emit ms s)"
  by (erule parses.cases) (auto intro: parses.intros[of "emit ms s", simplified])

text \<open>What a further byte makes of each form.\<close>

lemma less_4: "n < 4 \<Longrightarrow> n = 0 \<or> n = 1 \<or> n = 2 \<or> n = (3 :: nat)"
  by linarith

lemma command_forms:
  "n < 4 \<Longrightarrow> \<not> command_complete (take n magic @ [b])"
  "n < 4 \<Longrightarrow> command_prefix (take n magic @ [b]) \<longleftrightarrow> b = magic ! n"
  "\<not> command_complete (magic @ [b])" "command_prefix (magic @ [b]) \<longleftrightarrow> b = PROTOCOL_VERSION"
  "command_complete (magic @ [PROTOCOL_VERSION, c]) \<longleftrightarrow> is_get c"
  "command_prefix (magic @ [PROTOCOL_VERSION, c]) \<longleftrightarrow> \<not> is_get c"
  "\<not> command_complete (magic @ [PROTOCOL_VERSION, c, h])"
  "command_prefix (magic @ [PROTOCOL_VERSION, c, h]) \<longleftrightarrow> \<not> is_get c"
  "\<not> command_complete (magic @ [PROTOCOL_VERSION, c, h, l])"
  "command_prefix (magic @ [PROTOCOL_VERSION, c, h, l]) \<longleftrightarrow> \<not> is_get c \<and> h = 0 \<and> l = 1"
  "command_complete (magic @ [PROTOCOL_VERSION, c, 0, 1, d]) \<longleftrightarrow> \<not> is_get c"
  "(magic @ [PROTOCOL_VERSION, c]) ! 5 = c" "(magic @ [PROTOCOL_VERSION, c, h, l, d]) ! 5 = c"
  "(magic @ [PROTOCOL_VERSION, c, h, l, d]) ! 8 = d" "length magic = 4"
  by (auto simp: command_complete_def command_prefix_def magic_def dest!: less_4)

lemma take_magic: "n < 4 \<Longrightarrow> take n magic @ [magic ! n] = take (Suc n) magic"
  by (simp add: take_Suc_conv_app_nth command_forms)

lemma one_of_bytes:
  fixes h l :: u8
  shows "push_bit 8 (ucast h) OR ucast l = (1 :: u16) \<longleftrightarrow> h = 0 \<and> l = 1"
proof
  assume "push_bit 8 (ucast h) OR ucast l = (1 :: u16)"
  then have "u16_of_bytes l h = u16_of_bytes 1 0" by (simp add: u16_of_bytes_def or.commute)
  then show "h = 0 \<and> l = 1" by (metis byte_of_u16_of_bytes)
qed simp

lemma incoming_unfold:
  "sniff_state s = STATE_WAITING_FOR_VERSION \<Longrightarrow> incoming_byte ops b s =
    Some (if b = PROTOCOL_VERSION then s\<lparr>sniff_state := STATE_WAITING_FOR_CMD\<rparr> else reset_state s)"
  "sniff_state s = STATE_WAITING_FOR_CMD \<Longrightarrow> incoming_byte ops b s =
    Some (let s = s\<lparr>command := (command s)\<lparr>cmd_no := b\<rparr>\<rparr>
      in if is_get b then reset_state (execute_command ops s) else s\<lparr>sniff_state := STATE_WAITING_FOR_LEN_1\<rparr>)"
  "sniff_state s = STATE_WAITING_FOR_LEN_1 \<Longrightarrow> incoming_byte ops b s =
    Some (s\<lparr>command := (command s)\<lparr>cmd_len := push_bit 8 (ucast b)\<rparr>, sniff_state := STATE_WAITING_FOR_LEN_2\<rparr>)"
  "sniff_state s = STATE_WAITING_FOR_LEN_2 \<Longrightarrow> incoming_byte ops b s =
    Some (let s = s\<lparr>command := (command s)\<lparr>cmd_len := cmd_len (command s) OR ucast b\<rparr>\<rparr>
      in if cmd_len (command s) = 1 then s\<lparr>sniff_state := STATE_WAITING_FOR_DATA\<rparr> else reset_state s)"
  "sniff_state s = STATE_WAITING_FOR_DATA \<Longrightarrow> incoming_byte ops b s =
    Some (reset_state (execute_command ops (s\<lparr>command := (command s)\<lparr>cmd_data := b\<rparr>\<rparr>)))"
  by (simp_all add: incoming_byte_def sniffer_states is_get_def Let_def)

lemma answer_get: "is_get c \<Longrightarrow> answer ops c x r = answer ops c 0 r"
  by (auto simp: answer_def is_get_def sniffer_cmds)

lemma parses_byte:
  assumes "parses (pending a) s" "sniff_radio s = tuner a"
  shows "\<exists>s'. incoming_byte ops b s = Some s' \<and> parses (pending (spec_byte ops b a)) s'
    \<and> sniff_radio s' = tuner (spec_byte ops b a)
    \<and> (\<exists>ms. messages (spec_byte ops b a) = messages a @ ms \<and> byte_out s' = byte_out s @ concat (map encode_msg ms))"
  using assms(1)
proof cases
  case Magic
  let ?n = "unat (in_ct s)" and ?s = "s\<lparr>in_ct := in_ct s + 1\<rparr>"
  have n: "unat (in_ct s + 1) = Suc ?n" using Magic(3) by (simp add: unat_word_ariths)
  show ?thesis
  proof (cases "b = magic ! ?n")
    case False
    then have "incoming_byte ops b s = Some (reset_state s)"
      using Magic by (simp add: incoming_byte_def command_forms)
    with False Magic assms(2) show ?thesis
      by (simp add: spec_byte_def command_forms parses_reset)
  next
    case True
    let ?s' = "if Suc ?n = 4 then ?s\<lparr>sniff_state := STATE_WAITING_FOR_VERSION, in_ct := 0\<rparr> else ?s"
    have "incoming_byte ops b s = Some ?s'"
      using Magic True by (simp add: incoming_byte_def command_forms n)
    moreover have "spec_byte ops b a = a\<lparr>pending := take (Suc ?n) magic\<rparr>"
      using Magic True command_forms(1,2) [OF Magic(3), of b] take_magic [OF Magic(3)]
      by (simp add: spec_byte_def)
    moreover have "parses (take (Suc ?n) magic) ?s'"
      using parses.Version [of ?s'] parses.Magic [of ?s'] Magic n
      by (cases "Suc ?n = 4") (simp_all add: command_forms)
    ultimately show ?thesis using assms(2) by auto
  qed
next
  case Version
  with assms(2) show ?thesis
    by (auto simp: incoming_unfold spec_byte_def command_forms parses_reset intro: parses.Cmd)
next
  case Cmd
  with assms(2) show ?thesis
    by (auto simp: incoming_unfold spec_byte_def command_forms parses_reset Let_def execute_answer
        answer_get [of b ops "cmd_data (command s)"] split: prod.split
        intro: parses.Len_1 [of "s\<lparr>command := (command s)\<lparr>cmd_no := b\<rparr>, sniff_state := STATE_WAITING_FOR_LEN_1\<rparr>", simplified])
next
  case Len_1
  with assms(2) show ?thesis
    by (auto simp: incoming_unfold spec_byte_def command_forms parses_reset
        intro: parses.Len_2 [of "s\<lparr>command := (command s)\<lparr>cmd_len := push_bit 8 (ucast b)\<rparr>, sniff_state := STATE_WAITING_FOR_LEN_2\<rparr>" b, simplified])
next
  case (Len_2 h)
  with assms(2) show ?thesis
    by (auto simp: incoming_unfold spec_byte_def command_forms parses_reset Let_def one_of_bytes
        intro: parses.Data [of "s\<lparr>command := (command s)\<lparr>cmd_len := 1\<rparr>, sniff_state := STATE_WAITING_FOR_DATA\<rparr>", simplified])
next
  case Data
  with assms(2) show ?thesis
    by (auto simp: incoming_unfold spec_byte_def command_forms parses_reset execute_answer split: prod.split)
qed

text \<open>A run of bytes, and what it leaves alone.\<close>

lemma parses_bytes:
  assumes "parses (pending a) s" "sniff_radio s = tuner a"
    "byte_out s = t @ concat (map encode_msg (messages a))"
  shows "\<exists>s'. for_each (incoming_byte ops) bs s = Some s' \<and> parses (pending (fold (spec_byte ops) bs a)) s'
    \<and> sniff_radio s' = tuner (fold (spec_byte ops) bs a)
    \<and> byte_out s' = t @ concat (map encode_msg (messages (fold (spec_byte ops) bs a)))"
  using assms
proof (induction bs arbitrary: a s)
  case (Cons b bs)
  from parses_byte [OF Cons.prems(1,2), of ops b] obtain s1 ms
    where s1: "incoming_byte ops b s = Some s1" "parses (pending (spec_byte ops b a)) s1"
      "sniff_radio s1 = tuner (spec_byte ops b a)" "messages (spec_byte ops b a) = messages a @ ms"
      "byte_out s1 = byte_out s @ concat (map encode_msg ms)" by blast
  with Cons.prems(3) Cons.IH [of "spec_byte ops b a" s1] show ?case by simp
qed simp

lemma spec_byte_fields:
  "waiting (spec_byte ops b a) = waiting a" "timer (spec_byte ops b a) = timer a"
  "serving (spec_byte ops b a) = serving a"
  by (simp_all add: spec_byte_def Let_def split: prod.split)

lemma spec_bytes_fields:
  "waiting (fold (spec_byte ops) bs a) = waiting a" "timer (fold (spec_byte ops) bs a) = timer a"
  "serving (fold (spec_byte ops) bs a) = serving a"
  by (induction bs arbitrary: a) (simp_all add: spec_byte_fields)

definition all_fit :: "'r sniff_spec \<Rightarrow> bool" where
  "all_fit a \<longleftrightarrow> (\<forall>m \<in> set (messages a). msg_fits m)"

lemma report_fits: "msg_fits (fst (report ops p c r))" "msg_fits (fst (tune ops x r))"
  "msg_fits (fst (answer ops c x r))"
  by (simp_all add: report_def tune_def answer_def msg_fits_def split: prod.split)

lemma all_fit_bytes: "all_fit a \<Longrightarrow> all_fit (fold (spec_byte ops) bs a)"
proof (induction bs arbitrary: a)
  case (Cons b bs)
  have "all_fit (spec_byte ops b a)"
    using Cons.prems report_fits(3) [of ops]
    by (auto simp: all_fit_def spec_byte_def Let_def split: prod.split) (metis fst_conv)+
  then show ?case using Cons.IH by simp
qed simp

section \<open>The image refines the specification\<close>

text \<open>\<open>t\<close> is the text that was sent before the messages.\<close>

definition refines :: "bytes \<Rightarrow> 'r sniffer \<Rightarrow> 'r sniff_spec \<Rightarrow> bool" where
  "refines t s a \<longleftrightarrow>
    listening s = serving a \<and> ct_running s = timer a
    \<and> (if listening s then ring_ok 5 (rxbuf s) \<and> ring_bytes (rxbuf s) = waiting a
       else waiting a = [] \<and> \<not> polled s)
    \<and> (waiting a \<noteq> [] \<longrightarrow> polled s)
    \<and> parses (pending a) (parser s) \<and> sniff_radio (parser s) = tuner a
    \<and> byte_out (parser s) = t @ concat (map encode_msg (messages a)) \<and> all_fit a"

lemma refines_start:
  fixes ops :: "'r radio_ops" and channel :: int and ext_addr :: bytes and r :: 'r
  defines "q \<equiv> started_radio ops channel ext_addr r"
  shows "refines (if promiscuous ops q then [] else rx_mode_error)
    (sensniff_process_start ops (sniffer_boot ops channel ext_addr r)) (spec_start ops q)"
proof -
  have "ring_ok 5 (ringbuf_init (replicate 32 0) BUFSIZE)" "ring_bytes (ringbuf_init (replicate 32 0) BUFSIZE) = []"
    using ring_init [of 5 "replicate 32 0"] by (simp_all add: BUFSIZE_def)
  moreover have "parses [] \<lparr>sniff_state = 0, in_ct = 0, command = c, sniff_radio = r, byte_out = bs\<rparr>"
    for c bs and r :: 'r
    using parses.Magic [of "\<lparr>sniff_state = 0, in_ct = 0, command = c, sniff_radio = r, byte_out = bs\<rparr>"]
    by (simp add: sniffer_states)
  moreover have "parses [] (emit ms ((reset_state s)\<lparr>sniff_radio := r\<rparr>))" for s :: "'r sniff" and r ms
    using parses.Magic [of "emit ms ((reset_state s)\<lparr>sniff_radio := r\<rparr>)"]
    by (simp add: reset_state_def sniffer_states)
  moreover have "msg_fits m" if "tune ops 26 r = (m, r')" for m r r'
    using report_fits(2) [of ops 26 r] that by simp
  ultimately show ?thesis
    by (auto simp: refines_def sensniff_process_start_def sniffer_boot_def spec_start_def netstack_init_def
        sensniff_rdc_init_def sensniff_rdc_on_def set_channel_tune all_fit_def q_def started_radio_def promiscuous_def
        fold_bytes_out Let_def split: prod.split)
qed

lemma refines_step:
  assumes "refines t s a"
  shows "\<exists>s'. sniffer_step ops ev s = Some s' \<and> refines t s' (spec_step ops ev a)"
proof (cases ev)
  case (Char_In c)
  then show ?thesis
  proof (cases "listening s")
    case True
    with assms have "ring_ok 5 (rxbuf s)" and w: "ring_bytes (rxbuf s) = waiting a"
      by (simp_all add: refines_def)
    from ring.enq_bounded [OF this(1), of c] obtain x rb
      where "ringbuf_put c (rxbuf s) = Some (x, rb)" "ring_ok 5 rb" "ring_bytes rb = enqueue 31 c (waiting a)"
      by (auto simp: w)
    with True assms Char_In show ?thesis by (simp add: refines_def char_in_def all_fit_def)
  qed (use assms in \<open>simp add: refines_def\<close>)
next
  case Timeout
  with assms show ?thesis by (auto simp: refines_def parses_reset all_fit_def)
next
  case Poll
  show ?thesis
  proof (cases "polled s")
    case True
    with assms have l: "listening s" and ok: "ring_ok 5 (rxbuf s)" and w: "ring_bytes (rxbuf s) = waiting a"
      by (auto simp: refines_def split: if_splits)
    from assms parses_bytes [of a "parser s" t ops "waiting a"] obtain p
      where p: "for_each (incoming_byte ops) (ring_bytes (rxbuf s)) (parser s) = Some p"
        "parses (pending (fold (spec_byte ops) (waiting a) a)) p"
        "sniff_radio p = tuner (fold (spec_byte ops) (waiting a) a)"
        "byte_out p = t @ concat (map encode_msg (messages (fold (spec_byte ops) (waiting a) a)))"
      by (auto simp: refines_def w)
    from ring.drain_list [OF ok p(1)] obtain rb
      where "drain ringbuf_get (incoming_byte ops) (rxbuf s) (parser s) = Some (rb, p)"
        "ring_ok 5 rb" "ring_bytes rb = []" by blast
    with True l Poll assms p(2,3,4) all_fit_bytes [of a ops "waiting a"] show ?thesis
      by (simp add: refines_def process_incoming_data_def spec_bytes_fields all_fit_def)
  next
    case False
    with assms have "waiting a = []" by (auto simp: refines_def)
    with False Poll assms show ?thesis by (simp add: refines_def all_fit_def)
  qed
next
  case (Radio_Frame bs rssi lqi)
  have "length bs mod 256 + 2 < 65536" by (simp add: less_trans [OF mod_less_divisor])
  then have "msg_fits (Host_Msg CMD_FRAME (take (length bs mod 256) bs @ [ucast rssi, 0x80 OR ucast lqi]))"
    by (simp add: msg_fits_def)
  with Radio_Frame assms show ?thesis
    by (simp add: refines_def output_frame_emit parses_emit all_fit_def del: encode_msg.simps)
qed

lemma refines_run:
  "refines t s a \<Longrightarrow> \<exists>s'. for_each (sniffer_step ops) evs s = Some s' \<and> refines t s' (fold (spec_step ops) evs a)"
proof (induction evs arbitrary: s a)
  case (Cons ev evs)
  from refines_step [OF Cons.prems, of ops ev] Cons.IH show ?case by fastforce
qed simp

text \<open>A radio that refuses the promiscuous mode leaves only the frames to report.\<close>

fun frame_messages :: "sniffer_event list \<Rightarrow> host_msg list" where
  "frame_messages [] = []"
| "frame_messages (Radio_Frame bs rssi lqi # evs) =
    Host_Msg CMD_FRAME (take (length bs mod 256) bs @ [ucast rssi, 0x80 OR ucast lqi]) # frame_messages evs"
| "frame_messages (_ # evs) = frame_messages evs"

lemma unserved_messages:
  "\<not> serving a \<Longrightarrow> waiting a = [] \<Longrightarrow> messages (fold (spec_step ops) evs a) = messages a @ frame_messages evs"
proof (induction evs arbitrary: a)
  case (Cons ev evs)
  then show ?case by (cases ev) simp_all
qed simp

lemma refused_messages: "\<not> promiscuous ops q \<Longrightarrow> host_messages ops q evs = frame_messages evs"
  by (auto simp: host_messages_def promiscuous_def spec_start_def unserved_messages Let_def split: prod.split)

section \<open>Whole commands\<close>

fun host_command :: "u8 \<Rightarrow> u8 \<Rightarrow> bytes" where
  "host_command c x = magic @ [PROTOCOL_VERSION, c] @ (if is_get c then [] else [0, 1, x])"

text \<open>A command on a quiet line is answered once, whatever came before.\<close>

lemma spec_command:
  assumes "serving a" "waiting a = []" "pending a = []"
  shows "fold (spec_step ops) (map Char_In (host_command c x) @ [Poll]) a =
    (case answer ops c x (tuner a) of (m, r) \<Rightarrow>
      a\<lparr>timer := True, tuner := r, messages := messages a @ [m]\<rparr>)"
proof -
  note forms = spec_byte_def command_complete_def command_prefix_def magic_def
  have room: "length (host_command c x) \<le> 31" "host_command c x \<noteq> []" by (simp_all add: magic_def)
  have queue: "fold (spec_step ops) (map Char_In bs) a' = a'\<lparr>waiting := waiting a' @ bs, timer := timer a' \<or> bs \<noteq> []\<rparr>"
    if "serving a'" "length (waiting a' @ bs) \<le> 31" for bs and a' :: "'a sniff_spec"
    using that by (induction bs arbitrary: a') (simp_all add: enqueue_def)
  have "fold (spec_byte ops) (host_command c x) b = (case answer ops c x (tuner b) of (m, r) \<Rightarrow>
      b\<lparr>pending := [], tuner := r, messages := messages b @ [m]\<rparr>)" if "pending b = []" for b :: "'a sniff_spec"
    using that answer_get [of c ops x "tuner b"] by (auto simp: forms split: prod.split)
  from this [of "a\<lparr>waiting := host_command c x, timer := True\<rparr>"] assms queue [of a "host_command c x"] room
  show ?thesis by (cases a) (simp del: host_command.simps split: prod.split)
qed

text \<open>
  The byte that breaks the magic is dropped even when it starts one: a command behind a stray
  first byte of the magic is lost.
\<close>

lemma stray_magic_byte:
  assumes "serving a" "waiting a = []" "pending a = []" "is_get c"
  shows "fold (spec_step ops) (map Char_In (0xC1 # host_command c x) @ [Poll]) a = a\<lparr>timer := True\<rparr>"
  using assms
  by (cases a) (auto simp: spec_byte_def command_complete_def command_prefix_def magic_def enqueue_def
      PROTOCOL_VERSION_def is_get_def sniffer_cmds)

end
