(* ===== verification/Board_I2c.thy ===== *)
theory Board_I2c
  imports Board_Spi
begin

text \<open>
  The I2C driver \<open>platform/unwired/udboards/board-i2c.c\<close> (its copy for the other board, in \<open>srf06\<close>,
  is the same file). The driver library is the parameter \<open>ti\<close>, as for the other drivers, with
  the calls of this file. The locale \<open>i2c_library\<close> says what the driver relies on: calls return,
  the waiting ends, and answers depend on what was done on the bus before. Its lemmas
  give every transaction as the list of steps it makes on the bus.
\<close>

section \<open>Calls into the driver library\<close>

datatype i2c_cmd = I2C_MASTER_CMD_SINGLE_SEND | I2C_MASTER_CMD_BURST_SEND_START
  | I2C_MASTER_CMD_BURST_SEND_CONT | I2C_MASTER_CMD_BURST_SEND_FINISH
  | I2C_MASTER_CMD_BURST_SEND_ERROR_STOP | I2C_MASTER_CMD_BURST_RECEIVE_START
  | I2C_MASTER_CMD_BURST_RECEIVE_CONT | I2C_MASTER_CMD_BURST_RECEIVE_FINISH

datatype i2c_pin = BOARD_IOID_SDA | BOARD_IOID_SCL | BOARD_IOID_SDA_HP | BOARD_IOID_SCL_HP

datatype i2c_pull = IOC_NO_IOPULL | IOC_IOPULL_UP | IOC_IOPULL_DOWN

datatype i2c_call =
    SerialPowerOn                      \<comment> \<open>\<open>prcm_power_domain_on(PRCM_DOMAIN_SERIAL)\<close>\<close>
  | SerialPowerStatus
  | I2CRunEnable
  | I2CSleepEnable
  | I2CDeepSleepEnable
  | I2CRunDisable
  | LoadSet
  | LoadGet
  | HWREG_I2CCLKGR                     \<comment> \<open>\<open>HWREG(PRCM_BASE + PRCM_O_I2CCLKGR)\<close>\<close>
  | ClockGet
  | I2CMasterInitExpClk u32
  | I2CMasterDisable
  | I2CMasterErr
  | I2CMasterControl i2c_cmd
  | I2CMasterSlaveAddrSet u8 bool      \<comment> \<open>address, receive\<close>
  | I2CMasterDataPut u8
  | I2CMasterDataGet
  | I2CMasterBusy
  | I2CMasterBusBusy
  | PinGpioInput i2c_pin
  | PinPullSet i2c_pin i2c_pull
  | PinTypeI2c i2c_pin i2c_pin

type_synonym 'd i2c_ti = "i2c_call \<Rightarrow> 'd \<Rightarrow> (u32 \<times> 'd) option"

definition i2c_do :: "'d i2c_ti \<Rightarrow> i2c_call \<Rightarrow> 'd \<Rightarrow> 'd option" where
  "i2c_do ti c d = map_option snd (ti c d)"

partial_function (option) i2c_wait :: "'d i2c_ti \<Rightarrow> i2c_call \<Rightarrow> (u32 \<Rightarrow> bool) \<Rightarrow> 'd \<Rightarrow> 'd option" where
  "i2c_wait ti c accept d = do {
     (r, d) \<leftarrow> ti c d;
     if accept r then Some d else i2c_wait ti c accept d }"

definition I2C_MSTAT_DATACK_N_M :: u32 where "I2C_MSTAT_DATACK_N_M = 0x00000008"
definition I2C_MSTAT_ADRACK_N_M :: u32 where "I2C_MSTAT_ADRACK_N_M = 0x00000004"
definition I2C_MASTER_ERR_NONE :: u32 where "I2C_MASTER_ERR_NONE = 0"
definition PRCM_I2CCLKGR_CLK_EN :: u32 where "PRCM_I2CCLKGR_CLK_EN = 0x00000001"
definition BOARD_I2C_INTERFACE_0 :: u8 where "BOARD_I2C_INTERFACE_0 = 0"
definition BOARD_I2C_INTERFACE_1 :: u8 where "BOARD_I2C_INTERFACE_1 = 1"
definition NO_INTERFACE :: u8 where "NO_INTERFACE = 0xFF"

section \<open>board-i2c.c\<close>

text \<open>The static variables of the driver over the hardware.\<close>

record 'd i2c =
  i2c_dev :: 'd
  slave_addr :: u8
  i2c_interface :: u8

definition i2c_boot :: "'d \<Rightarrow> 'd i2c" where
  "i2c_boot d = \<lparr>i2c_dev = d, slave_addr = 0x00, i2c_interface = NO_INTERFACE\<rparr>"

definition i2c_accessible :: "'d i2c_ti \<Rightarrow> 'd \<Rightarrow> (bool \<times> 'd) option" where
  "i2c_accessible ti d = do {
     (st, d) \<leftarrow> ti SerialPowerStatus d;
     if st \<noteq> PRCM_DOMAIN_POWER_ON then Some (False, d)
     else do {
       (clk, d) \<leftarrow> ti HWREG_I2CCLKGR d;
       if clk AND PRCM_I2CCLKGR_CLK_EN = 0 then Some (False, d) else Some (True, d) } }"

definition board_i2c_wakeup :: "'d i2c_ti \<Rightarrow> 'd \<Rightarrow> 'd option" where
  "board_i2c_wakeup ti d = do {
     d \<leftarrow> i2c_do ti SerialPowerOn d;
     d \<leftarrow> i2c_wait ti SerialPowerStatus (\<lambda>r. r = PRCM_DOMAIN_POWER_ON) d;
     d \<leftarrow> i2c_do ti I2CRunEnable d;
     d \<leftarrow> i2c_do ti I2CSleepEnable d;
     d \<leftarrow> i2c_do ti I2CDeepSleepEnable d;
     d \<leftarrow> i2c_do ti LoadSet d;
     d \<leftarrow> i2c_wait ti LoadGet (\<lambda>r. r \<noteq> 0) d;
     (clk, d) \<leftarrow> ti ClockGet d;
     i2c_do ti (I2CMasterInitExpClk clk) d }"

definition i2c_status :: "'d i2c_ti \<Rightarrow> 'd \<Rightarrow> (bool \<times> 'd) option" where
  "i2c_status ti d = do {
     (status, d) \<leftarrow> ti I2CMasterErr d;
     d \<leftarrow> (if status AND (I2C_MSTAT_DATACK_N_M OR I2C_MSTAT_ADRACK_N_M) \<noteq> 0
           then i2c_do ti (I2CMasterControl I2C_MASTER_CMD_BURST_SEND_ERROR_STOP) d else Some d);
     Some (status = I2C_MASTER_ERR_NONE, d) }"

definition board_i2c_shutdown :: "'d i2c_ti \<Rightarrow> 'd i2c \<Rightarrow> 'd i2c option" where
  "board_i2c_shutdown ti b = do {
     let b = b\<lparr>i2c_interface := NO_INTERFACE\<rparr>;
     (acc, d) \<leftarrow> i2c_accessible ti (i2c_dev b);
     d \<leftarrow> (if acc then i2c_do ti I2CMasterDisable d else Some d);
     d \<leftarrow> i2c_do ti I2CRunDisable d;
     d \<leftarrow> i2c_do ti LoadSet d;
     d \<leftarrow> i2c_wait ti LoadGet (\<lambda>r. r \<noteq> 0) d;
     d \<leftarrow> i2c_do ti (PinGpioInput BOARD_IOID_SDA_HP) d;
     d \<leftarrow> i2c_do ti (PinPullSet BOARD_IOID_SDA_HP IOC_IOPULL_DOWN) d;
     d \<leftarrow> i2c_do ti (PinGpioInput BOARD_IOID_SCL_HP) d;
     d \<leftarrow> i2c_do ti (PinPullSet BOARD_IOID_SCL_HP IOC_IOPULL_DOWN) d;
     d \<leftarrow> i2c_do ti (PinGpioInput BOARD_IOID_SDA) d;
     d \<leftarrow> i2c_do ti (PinPullSet BOARD_IOID_SDA IOC_IOPULL_UP) d;
     d \<leftarrow> i2c_do ti (PinGpioInput BOARD_IOID_SCL) d;
     d \<leftarrow> i2c_do ti (PinPullSet BOARD_IOID_SCL IOC_IOPULL_UP) d;
     Some (b\<lparr>i2c_dev := d\<rparr>) }"

text \<open>
  \<open>control(cmd); while(busy()); success = i2c_status();\<close>, and the loop
  \<open>for(i = 1; i < len && success; i++)\<close> over the rest of the data: the last byte is put, not sent.
\<close>

definition i2c_send :: "'d i2c_ti \<Rightarrow> i2c_cmd \<Rightarrow> 'd \<Rightarrow> (bool \<times> 'd) option" where
  "i2c_send ti cmd d = do {
     d \<leftarrow> i2c_do ti (I2CMasterControl cmd) d;
     d \<leftarrow> i2c_wait ti I2CMasterBusy (\<lambda>r. r = 0) d;
     i2c_status ti d }"

fun i2c_send_rest :: "'d i2c_ti \<Rightarrow> bytes \<Rightarrow> 'd \<Rightarrow> (bool \<times> 'd) option" where
  "i2c_send_rest ti [] d = Some (True, d)"
| "i2c_send_rest ti (x # xs) d = do {
     d \<leftarrow> i2c_do ti (I2CMasterDataPut x) d;
     if xs = [] then Some (True, d)
     else do {
       (success, d) \<leftarrow> i2c_send ti I2C_MASTER_CMD_BURST_SEND_CONT d;
       if success then i2c_send_rest ti xs d else Some (False, d) } }"

text \<open>The common first half of \<open>board_i2c_write\<close> and \<open>board_i2c_write_read\<close>; \<open>data[0]\<close> must exist.\<close>

definition i2c_write_data :: "'d i2c_ti \<Rightarrow> u8 \<Rightarrow> bytes \<Rightarrow> 'd \<Rightarrow> (bool \<times> 'd) option" where
  "i2c_write_data ti a xs d = do {
     d \<leftarrow> i2c_do ti (I2CMasterSlaveAddrSet a False) d;
     x \<leftarrow> (case xs of [] \<Rightarrow> None | x # _ \<Rightarrow> Some x);
     d \<leftarrow> i2c_do ti (I2CMasterDataPut x) d;
     d \<leftarrow> i2c_wait ti I2CMasterBusBusy (\<lambda>r. r = 0) d;
     (success, d) \<leftarrow> i2c_send ti I2C_MASTER_CMD_BURST_SEND_START d;
     if success then i2c_send_rest ti (tl xs) d else Some (False, d) }"

definition board_i2c_write :: "'d i2c_ti \<Rightarrow> bytes \<Rightarrow> 'd i2c \<Rightarrow> (bool \<times> 'd i2c) option" where
  "board_i2c_write ti xs b = do {
     (success, d) \<leftarrow> i2c_write_data ti (slave_addr b) xs (i2c_dev b);
     (success, d) \<leftarrow> (if success then do {
         (success, d) \<leftarrow> i2c_send ti I2C_MASTER_CMD_BURST_SEND_FINISH d;
         d \<leftarrow> i2c_wait ti I2CMasterBusBusy (\<lambda>r. r = 0) d;
         Some (success, d) }
       else Some (success, d));
     Some (success, b\<lparr>i2c_dev := d\<rparr>) }"

definition board_i2c_write_single :: "'d i2c_ti \<Rightarrow> u8 \<Rightarrow> 'd i2c \<Rightarrow> (bool \<times> 'd i2c) option" where
  "board_i2c_write_single ti x b = do {
     d \<leftarrow> i2c_do ti (I2CMasterSlaveAddrSet (slave_addr b) False) (i2c_dev b);
     d \<leftarrow> i2c_do ti (I2CMasterDataPut x) d;
     d \<leftarrow> i2c_wait ti I2CMasterBusBusy (\<lambda>r. r = 0) d;
     (success, d) \<leftarrow> i2c_send ti I2C_MASTER_CMD_SINGLE_SEND d;
     Some (success, b\<lparr>i2c_dev := d\<rparr>) }"

text \<open>
  The reading loop: \<open>n\<close> bytes more with \<open>RECEIVE_CONT\<close> behind each. The bytes stored in the buffer of
  the caller are a result; the rest of the buffer keeps what it held.
\<close>

fun i2c_receive :: "'d i2c_ti \<Rightarrow> nat \<Rightarrow> 'd \<Rightarrow> ((bool \<times> bytes) \<times> 'd) option" where
  "i2c_receive ti 0 d = Some ((True, []), d)"
| "i2c_receive ti (Suc n) d = do {
     d \<leftarrow> i2c_wait ti I2CMasterBusy (\<lambda>r. r = 0) d;
     (success, d) \<leftarrow> i2c_status ti d;
     if success then do {
       (x, d) \<leftarrow> ti I2CMasterDataGet d;
       d \<leftarrow> i2c_do ti (I2CMasterControl I2C_MASTER_CMD_BURST_RECEIVE_CONT) d;
       ((success, xs), d) \<leftarrow> i2c_receive ti n d;
       Some ((success, ucast x # xs), d) }
     else Some ((False, []), d) }"

text \<open>
  From \<open>RECEIVE_START\<close> to the end; \<open>len = 0\<close> stores behind the buffer when the bus reports no error, and is
  undefined here.
\<close>

definition i2c_read_data :: "'d i2c_ti \<Rightarrow> nat \<Rightarrow> 'd \<Rightarrow> ((bool \<times> bytes) \<times> 'd) option" where
  "i2c_read_data ti len d = do {
     d \<leftarrow> i2c_do ti (I2CMasterControl I2C_MASTER_CMD_BURST_RECEIVE_START) d;
     ((success, xs), d) \<leftarrow> i2c_receive ti (len - 1) d;
     if success then do {
       d \<leftarrow> i2c_wait ti I2CMasterBusy (\<lambda>r. r = 0) d;
       (success, d) \<leftarrow> i2c_status ti d;
       if success then do {
         (x, d) \<leftarrow> ti I2CMasterDataGet d;
         d \<leftarrow> i2c_do ti (I2CMasterControl I2C_MASTER_CMD_BURST_RECEIVE_FINISH) d;
         d \<leftarrow> i2c_wait ti I2CMasterBusBusy (\<lambda>r. r = 0) d;
         if len = 0 then None else Some ((True, xs @ [ucast x]), d) }
       else Some ((False, xs), d) }
     else Some ((False, xs), d) }"

definition board_i2c_read :: "'d i2c_ti \<Rightarrow> nat \<Rightarrow> 'd i2c \<Rightarrow> ((bool \<times> bytes) \<times> 'd i2c) option" where
  "board_i2c_read ti len b = do {
     d \<leftarrow> i2c_do ti (I2CMasterSlaveAddrSet (slave_addr b) True) (i2c_dev b);
     d \<leftarrow> i2c_wait ti I2CMasterBusBusy (\<lambda>r. r = 0) d;
     (r, d) \<leftarrow> i2c_read_data ti len d;
     Some (r, b\<lparr>i2c_dev := d\<rparr>) }"

definition board_i2c_write_read ::
  "'d i2c_ti \<Rightarrow> bytes \<Rightarrow> nat \<Rightarrow> 'd i2c \<Rightarrow> ((bool \<times> bytes) \<times> 'd i2c) option" where
  "board_i2c_write_read ti wdata rlen b = do {
     (success, d) \<leftarrow> i2c_write_data ti (slave_addr b) wdata (i2c_dev b);
     (r, d) \<leftarrow> (if success then do {
         d \<leftarrow> i2c_do ti (I2CMasterSlaveAddrSet (slave_addr b) True) d;
         i2c_read_data ti rlen d }
       else Some ((False, []), d));
     Some (r, b\<lparr>i2c_dev := d\<rparr>) }"

definition board_i2c_select :: "'d i2c_ti \<Rightarrow> u8 \<Rightarrow> u8 \<Rightarrow> 'd i2c \<Rightarrow> 'd i2c option" where
  "board_i2c_select ti new_interface address b = do {
     let b = b\<lparr>slave_addr := address\<rparr>;
     (acc, d) \<leftarrow> i2c_accessible ti (i2c_dev b);
     d \<leftarrow> (if acc = False then board_i2c_wakeup ti d else Some d);
     if new_interface \<noteq> i2c_interface b then do {
       d \<leftarrow> i2c_do ti I2CMasterDisable d;
       d \<leftarrow> (if new_interface = BOARD_I2C_INTERFACE_0 then do {
               d \<leftarrow> i2c_do ti (PinPullSet BOARD_IOID_SDA IOC_NO_IOPULL) d;
               d \<leftarrow> i2c_do ti (PinPullSet BOARD_IOID_SCL IOC_NO_IOPULL) d;
               i2c_do ti (PinTypeI2c BOARD_IOID_SDA BOARD_IOID_SCL) d }
             else if new_interface = BOARD_I2C_INTERFACE_1 then do {
               d \<leftarrow> i2c_do ti (PinPullSet BOARD_IOID_SDA_HP IOC_NO_IOPULL) d;
               d \<leftarrow> i2c_do ti (PinPullSet BOARD_IOID_SCL_HP IOC_NO_IOPULL) d;
               i2c_do ti (PinTypeI2c BOARD_IOID_SDA_HP BOARD_IOID_SCL_HP) d }
             else Some d);
       (clk, d) \<leftarrow> ti ClockGet d;
       d \<leftarrow> i2c_do ti (I2CMasterInitExpClk clk) d;
       Some (b\<lparr>i2c_interface := new_interface, i2c_dev := d\<rparr>) }
     else Some (b\<lparr>i2c_dev := d\<rparr>) }"

section \<open>What the driver relies on\<close>

fun bus_step :: "i2c_call \<Rightarrow> bool" where
  "bus_step (I2CMasterControl _) = True"
| "bus_step (I2CMasterSlaveAddrSet _ _) = True"
| "bus_step (I2CMasterDataPut _) = True"
| "bus_step _ = False"

locale i2c_library =
  fixes ti :: "'d i2c_ti" and bus :: "'d \<Rightarrow> i2c_call list"
    and mstat :: "i2c_call list \<Rightarrow> u32" and heard :: "i2c_call list \<Rightarrow> u32"
  assumes step: "bus_step c \<Longrightarrow> \<exists>r d'. ti c d = Some (r, d') \<and> bus d' = bus d @ [c]"
    and quiet: "\<not> bus_step c \<Longrightarrow> \<exists>r d'. ti c d = Some (r, d') \<and> bus d' = bus d"
    and err: "ti I2CMasterErr d = Some (r, d') \<Longrightarrow> r = mstat (bus d)"
    and data_get: "ti I2CMasterDataGet d = Some (r, d') \<Longrightarrow> r = heard (bus d)"
    and ready: "c \<in> {I2CMasterBusy, I2CMasterBusBusy} \<Longrightarrow> \<exists>d'. i2c_wait ti c (\<lambda>r. r = 0) d = Some d' \<and> bus d' = bus d"
    and powered: "\<exists>d'. i2c_wait ti SerialPowerStatus (\<lambda>r. r = PRCM_DOMAIN_POWER_ON) d = Some d' \<and> bus d' = bus d"
    and loaded: "\<exists>d'. i2c_wait ti LoadGet (\<lambda>r. r \<noteq> 0) d = Some d' \<and> bus d' = bus d"
begin

lemma do_step: "bus_step c \<Longrightarrow> \<exists>d'. i2c_do ti c d = Some d' \<and> bus d' = bus d @ [c]"
  using step [of c d] by (auto simp: i2c_do_def)

lemma do_quiet: "\<not> bus_step c \<Longrightarrow> \<exists>d'. i2c_do ti c d = Some d' \<and> bus d' = bus d"
  using quiet [of c d] by (auto simp: i2c_do_def)

lemma err_ok: "\<exists>d'. ti I2CMasterErr d = Some (mstat (bus d), d') \<and> bus d' = bus d"
  using quiet [of I2CMasterErr d] err [of d] by auto

lemma data_ok: "\<exists>d'. ti I2CMasterDataGet d = Some (heard (bus d), d') \<and> bus d' = bus d"
  using quiet [of I2CMasterDataGet d] data_get [of d] by auto

end

text \<open>
  A computation that returns, with a result that satisfies \<open>P\<close>; and a state whose bus has seen further
  steps, all of them for the slave \<open>a\<close>.
\<close>

definition returns :: "('x \<Rightarrow> bool) \<Rightarrow> 'x option \<Rightarrow> bool" where
  "returns P m \<longleftrightarrow> (\<exists>x. m = Some x \<and> P x)"

lemma returns_Some: "P x \<Longrightarrow> returns P (Some x)"
  by (simp add: returns_def)

lemma returns_Some_iff [simp]: "returns P (Some x) \<longleftrightarrow> P x"
  by (simp add: returns_def)

lemma returns_bind: "returns P m \<Longrightarrow> (\<And>x. P x \<Longrightarrow> returns Q (f x)) \<Longrightarrow> returns Q (m \<bind> f)"
  by (auto simp: returns_def)

lemma returns_weaken: "returns P m \<Longrightarrow> (\<And>x. P x \<Longrightarrow> Q x) \<Longrightarrow> returns Q m"
  by (auto simp: returns_def)

lemma returns_if: "(c \<Longrightarrow> returns P m) \<Longrightarrow> (\<not> c \<Longrightarrow> returns P m') \<Longrightarrow> returns P (if c then m else m')"
  by simp

definition only_slave :: "u8 \<Rightarrow> i2c_call list \<Rightarrow> bool" where
  "only_slave a l \<longleftrightarrow> (\<forall>b r. I2CMasterSlaveAddrSet b r \<in> set l \<longrightarrow> b = a)"

definition talked :: "('d \<Rightarrow> i2c_call list) \<Rightarrow> u8 \<Rightarrow> 'd \<Rightarrow> 'd \<Rightarrow> bool" where
  "talked bus a d d' \<longleftrightarrow> (\<exists>l. bus d' = bus d @ l \<and> only_slave a l)"

lemma talked_refl: "talked bus a d d"
  by (simp add: talked_def only_slave_def)

lemma talked_same: "talked bus a d d1 \<Longrightarrow> bus d2 = bus d1 \<Longrightarrow> talked bus a d d2"
  by (simp add: talked_def)

lemma talked_step: "talked bus a d d1 \<Longrightarrow> bus d2 = bus d1 @ [c] \<Longrightarrow> only_slave a [c] \<Longrightarrow> talked bus a d d2"
  unfolding talked_def only_slave_def by fastforce

text \<open>The bus after the status is read: an address or byte without acknowledgement ends in a stop.\<close>

definition after_status :: "(i2c_call list \<Rightarrow> u32) \<Rightarrow> i2c_call list \<Rightarrow> i2c_call list" where
  "after_status mstat l = (if mstat l AND (I2C_MSTAT_DATACK_N_M OR I2C_MSTAT_ADRACK_N_M) \<noteq> 0
     then l @ [I2CMasterControl I2C_MASTER_CMD_BURST_SEND_ERROR_STOP] else l)"

lemma after_status_ok [simp]: "mstat l = I2C_MASTER_ERR_NONE \<Longrightarrow> after_status mstat l = l"
  by (simp add: after_status_def I2C_MASTER_ERR_NONE_def)

context i2c_library begin

lemma status_run:
  "\<exists>d'. i2c_status ti d = Some (mstat (bus d) = I2C_MASTER_ERR_NONE, d') \<and> bus d' = after_status mstat (bus d)"
proof -
  obtain d1 where d1: "ti I2CMasterErr d = Some (mstat (bus d), d1)" "bus d1 = bus d" using err_ok by blast
  obtain d2 where "i2c_do ti (I2CMasterControl I2C_MASTER_CMD_BURST_SEND_ERROR_STOP) d1 = Some d2"
    "bus d2 = bus d1 @ [I2CMasterControl I2C_MASTER_CMD_BURST_SEND_ERROR_STOP]"
    using do_step [of "I2CMasterControl I2C_MASTER_CMD_BURST_SEND_ERROR_STOP" d1] by auto
  with d1 show ?thesis by (auto simp: i2c_status_def after_status_def)
qed

lemma send_run:
  fixes cmd d
  defines "l \<equiv> bus d @ [I2CMasterControl cmd]"
  shows "\<exists>d'. i2c_send ti cmd d = Some (mstat l = I2C_MASTER_ERR_NONE, d') \<and> bus d' = after_status mstat l"
proof -
  obtain d1 where d1: "i2c_do ti (I2CMasterControl cmd) d = Some d1" "bus d1 = l"
    unfolding l_def using do_step [of "I2CMasterControl cmd" d] by auto
  obtain d2 where d2: "i2c_wait ti I2CMasterBusy (\<lambda>r. r = 0) d1 = Some d2" "bus d2 = l"
    using ready [of I2CMasterBusy d1] d1(2) by auto
  from d1 d2 status_run [of d2] show ?thesis by (auto simp: i2c_send_def)
qed

lemma write_single_run:
  fixes b x
  defines "l \<equiv> bus (i2c_dev b) @ [I2CMasterSlaveAddrSet (slave_addr b) False, I2CMasterDataPut x,
    I2CMasterControl I2C_MASTER_CMD_SINGLE_SEND]"
  shows "\<exists>d'. board_i2c_write_single ti x b = Some (mstat l = I2C_MASTER_ERR_NONE, b\<lparr>i2c_dev := d'\<rparr>)
    \<and> bus d' = after_status mstat l"
proof -
  let ?a = "I2CMasterSlaveAddrSet (slave_addr b) False"
  obtain d1 where d1: "i2c_do ti ?a (i2c_dev b) = Some d1" "bus d1 = bus (i2c_dev b) @ [?a]"
    using do_step [of ?a "i2c_dev b"] by auto
  obtain d2 where d2: "i2c_do ti (I2CMasterDataPut x) d1 = Some d2" "bus d2 = bus d1 @ [I2CMasterDataPut x]"
    using do_step [of "I2CMasterDataPut x" d1] by auto
  obtain d3 where d3: "i2c_wait ti I2CMasterBusBusy (\<lambda>r. r = 0) d2 = Some d3" "bus d3 = bus d2"
    using ready [of I2CMasterBusBusy d2] by auto
  have "bus d3 @ [I2CMasterControl I2C_MASTER_CMD_SINGLE_SEND] = l" using d1 d2 d3 by (simp add: l_def)
  with d1 d2 d3 send_run [of I2C_MASTER_CMD_SINGLE_SEND d3] show ?thesis
    by (auto simp: board_i2c_write_single_def)
qed

text \<open>Every function of the driver returns, and addresses the selected slave only.\<close>

lemma do_talks:
  "bus_step c \<Longrightarrow> only_slave a [c] \<Longrightarrow> talked bus a d d1 \<Longrightarrow> returns (talked bus a d) (i2c_do ti c d1)"
  using do_step [of c d1] by (auto simp: returns_def intro: talked_step)

lemma do_silent: "\<not> bus_step c \<Longrightarrow> talked bus a d d1 \<Longrightarrow> returns (talked bus a d) (i2c_do ti c d1)"
  using do_quiet [of c d1] by (auto simp: returns_def intro: talked_same)

lemma ti_silent: "\<not> bus_step c \<Longrightarrow> talked bus a d d1 \<Longrightarrow> returns (\<lambda>(_, d'). talked bus a d d') (ti c d1)"
  using quiet [of c d1] by (auto simp: returns_def intro: talked_same)

lemma wait_silent:
  "talked bus a d d1 \<Longrightarrow> returns (talked bus a d) (i2c_wait ti I2CMasterBusy (\<lambda>r. r = 0) d1)"
  "talked bus a d d1 \<Longrightarrow> returns (talked bus a d) (i2c_wait ti I2CMasterBusBusy (\<lambda>r. r = 0) d1)"
  "talked bus a d d1 \<Longrightarrow> returns (talked bus a d) (i2c_wait ti SerialPowerStatus (\<lambda>r. r = PRCM_DOMAIN_POWER_ON) d1)"
  "talked bus a d d1 \<Longrightarrow> returns (talked bus a d) (i2c_wait ti LoadGet (\<lambda>r. r \<noteq> 0) d1)"
  using ready [of I2CMasterBusy d1] ready [of I2CMasterBusBusy d1] powered [of d1] loaded [of d1]
  by (auto simp: returns_def intro: talked_same)

lemmas talk_rules = returns_bind returns_Some returns_if do_talks do_silent ti_silent wait_silent

lemma status_talks: "talked bus a d d1 \<Longrightarrow> returns (\<lambda>(_, d'). talked bus a d d') (i2c_status ti d1)"
  unfolding i2c_status_def
  by (rule returns_bind, rule ti_silent) (auto simp: only_slave_def intro!: talk_rules)

lemma send_talks: "talked bus a d d1 \<Longrightarrow> returns (\<lambda>(_, d'). talked bus a d d') (i2c_send ti cmd d1)"
  unfolding i2c_send_def
  by (rule returns_bind, rule do_talks, simp_all add: only_slave_def)
    (rule returns_bind, erule wait_silent, erule status_talks)

lemma send_rest_talks:
  "talked bus a d d1 \<Longrightarrow> returns (\<lambda>(_, d'). talked bus a d d') (i2c_send_rest ti xs d1)"
proof (induction xs arbitrary: d1)
  case (Cons x xs)
  show ?case unfolding i2c_send_rest.simps
  proof (rule returns_bind, rule do_talks [OF _ _ Cons.prems])
    fix d2
    assume d2: "talked bus a d d2"
    have "returns (\<lambda>(_, d'). talked bus a d d') (do { (success, d) \<leftarrow> i2c_send ti I2C_MASTER_CMD_BURST_SEND_CONT d2;
        if success then i2c_send_rest ti xs d else Some (False, d) })"
      by (rule returns_bind, rule send_talks [OF d2]) (auto intro: Cons.IH returns_Some)
    with d2 show "returns (\<lambda>(_, d'). talked bus a d d') (if xs = [] then Some (True, d2)
        else do { (success, d) \<leftarrow> i2c_send ti I2C_MASTER_CMD_BURST_SEND_CONT d2;
          if success then i2c_send_rest ti xs d else Some (False, d) })"
      by (simp add: returns_Some)
  qed (simp_all add: only_slave_def)
qed (simp add: returns_Some)

lemma write_data_talks:
  assumes "talked bus a d d1" "xs \<noteq> []"
  shows "returns (\<lambda>(_, d'). talked bus a d d') (i2c_write_data ti a xs d1)"
proof -
  from assms(2) obtain x ys where xs: "xs = x # ys" by (cases xs) auto
  show ?thesis unfolding i2c_write_data_def xs
    by (rule returns_bind, rule do_talks [OF _ _ assms(1)], simp_all add: only_slave_def)
      (rule returns_bind, rule do_talks, simp_all add: only_slave_def,
        rule returns_bind, erule wait_silent, rule returns_bind, erule send_talks,
        auto intro: send_rest_talks returns_Some)
qed

lemma receive_talks:
  "talked bus a d d1 \<Longrightarrow> returns (\<lambda>((ok, xs), d'). talked bus a d d' \<and> (ok \<longrightarrow> length xs = n) \<and> length xs \<le> n)
    (i2c_receive ti n d1)"
proof (induction n arbitrary: d1)
  case (Suc n)
  have more: "returns (\<lambda>((ok, xs), d'). talked bus a d d' \<and> (ok \<longrightarrow> length xs = Suc n) \<and> length xs \<le> Suc n)
      (do { (x, d) \<leftarrow> ti I2CMasterDataGet d2;
        d \<leftarrow> i2c_do ti (I2CMasterControl I2C_MASTER_CMD_BURST_RECEIVE_CONT) d;
        ((success, xs), d) \<leftarrow> i2c_receive ti n d;
        Some ((success, ucast x # xs), d) })" if "talked bus a d d2" for d2
    by (rule returns_bind, rule ti_silent [OF _ that], simp, clarify)
      (rule returns_bind, rule do_talks, simp_all add: only_slave_def,
        rule returns_bind, erule Suc.IH, auto intro: returns_Some)
  show ?case unfolding i2c_receive.simps
    by (rule returns_bind, rule wait_silent [OF Suc.prems], rule returns_bind, erule status_talks)
      (clarsimp, rule more, assumption)
qed (simp add: returns_Some)

lemma read_data_talks:
  assumes "talked bus a d d1" "0 < n"
  shows "returns (\<lambda>((ok, xs), d'). talked bus a d d' \<and> (ok \<longrightarrow> length xs = n) \<and> length xs \<le> n) (i2c_read_data ti n d1)"
proof -
  have last: "returns (\<lambda>((ok, xs), d'). talked bus a d d' \<and> (ok \<longrightarrow> length xs = n) \<and> length xs \<le> n)
      (do { (x, d) \<leftarrow> ti I2CMasterDataGet d2;
        d \<leftarrow> i2c_do ti (I2CMasterControl I2C_MASTER_CMD_BURST_RECEIVE_FINISH) d;
        d \<leftarrow> i2c_wait ti I2CMasterBusBusy (\<lambda>r. r = 0) d;
        if n = 0 then None else Some ((True, xs @ [ucast x]), d) })"
    if "talked bus a d d2" "length xs = n - 1" for d2 and xs :: bytes
    by (rule returns_bind, rule ti_silent [OF _ that(1)], simp, clarify)
      (rule returns_bind, rule do_talks, simp_all add: only_slave_def,
        rule returns_bind, erule wait_silent, use assms(2) that(2) in \<open>auto intro: returns_Some\<close>)
  have tail: "returns (\<lambda>((ok, xs), d'). talked bus a d d' \<and> (ok \<longrightarrow> length xs = n) \<and> length xs \<le> n)
      (do { d \<leftarrow> i2c_wait ti I2CMasterBusy (\<lambda>r. r = 0) d2;
        (success, d) \<leftarrow> i2c_status ti d;
        if success then do { (x, d) \<leftarrow> ti I2CMasterDataGet d;
          d \<leftarrow> i2c_do ti (I2CMasterControl I2C_MASTER_CMD_BURST_RECEIVE_FINISH) d;
          d \<leftarrow> i2c_wait ti I2CMasterBusBusy (\<lambda>r. r = 0) d;
          if n = 0 then None else Some ((True, xs @ [ucast x]), d) }
        else Some ((False, xs), d) })"
    if "talked bus a d d2" "length xs = n - 1" for d2 and xs :: bytes
    by (rule returns_bind, rule wait_silent [OF that(1)], rule returns_bind, erule status_talks)
      (clarify, rule returns_if, rule last, assumption, rule that(2), simp add: that(2))
  show ?thesis unfolding i2c_read_data_def
    by (rule returns_bind, rule do_talks [OF _ _ assms(1)], simp_all add: only_slave_def)
      (rule returns_bind, erule receive_talks [where n = "n - Suc 0"],
        clarify, rule returns_if, rule tail, assumption, simp_all)
qed

end

text \<open>What a function of the driver does to the state: nothing but steps for the selected slave.\<close>

definition used :: "('d \<Rightarrow> i2c_call list) \<Rightarrow> 'd i2c \<Rightarrow> 'd i2c \<Rightarrow> bool" where
  "used bus b b' \<longleftrightarrow> slave_addr b' = slave_addr b \<and> i2c_interface b' = i2c_interface b
    \<and> talked bus (slave_addr b) (i2c_dev b) (i2c_dev b')"

lemma used_dev: "talked bus (slave_addr b) (i2c_dev b) d \<Longrightarrow> used bus b (b\<lparr>i2c_dev := d\<rparr>)"
  by (simp add: used_def)

lemma used_refl: "used bus b b"
  by (simp add: used_def talked_refl)

lemma used_trans: "used bus b b1 \<Longrightarrow> used bus b1 b2 \<Longrightarrow> used bus b b2"
  unfolding used_def talked_def only_slave_def by fastforce

context i2c_library begin

lemma write_used: "xs \<noteq> [] \<Longrightarrow> returns (\<lambda>(_, b'). used bus b b') (board_i2c_write ti xs b)"
  unfolding board_i2c_write_def
  by (rule returns_bind, rule write_data_talks [OF talked_refl], assumption, clarify,
      rule returns_bind [where P = "\<lambda>(_, d'). talked bus (slave_addr b) (i2c_dev b) d'"],
      rule returns_if, rule returns_bind, erule send_talks, clarify,
      rule returns_bind, erule wait_silent)
    (auto intro: used_dev)

lemma write_single_used: "returns (\<lambda>(_, b'). used bus b b') (board_i2c_write_single ti x b)"
  unfolding board_i2c_write_single_def
  by (rule returns_bind, rule do_talks [OF _ _ talked_refl, where a = "slave_addr b"], simp_all add: only_slave_def)
    (rule returns_bind, rule do_talks, simp_all add: only_slave_def,
      rule returns_bind, erule wait_silent, rule returns_bind, erule send_talks, auto intro: used_dev)

lemma read_used:
  "0 < n \<Longrightarrow> returns (\<lambda>((ok, xs), b'). used bus b b' \<and> (ok \<longrightarrow> length xs = n) \<and> length xs \<le> n) (board_i2c_read ti n b)"
  unfolding board_i2c_read_def
  by (rule returns_bind, rule do_talks [OF _ _ talked_refl, where a = "slave_addr b"], simp_all add: only_slave_def)
    (rule returns_bind, erule wait_silent, rule returns_bind, erule read_data_talks, assumption,
      auto intro: used_dev)

lemma write_read_used:
  "xs \<noteq> [] \<Longrightarrow> 0 < n \<Longrightarrow> returns (\<lambda>(_, b'). used bus b b') (board_i2c_write_read ti xs n b)"
  unfolding board_i2c_write_read_def
  by (rule returns_bind, rule write_data_talks [OF talked_refl], assumption, clarify,
      rule returns_bind [where P = "\<lambda>(_, d'). talked bus (slave_addr b) (i2c_dev b) d'"],
      rule returns_if, rule returns_bind, rule do_talks)
    (auto simp: only_slave_def intro: used_dev returns_weaken [OF read_data_talks])

lemma wakeup_talks: "talked bus a d d1 \<Longrightarrow> returns (talked bus a d) (board_i2c_wakeup ti d1)"
  unfolding board_i2c_wakeup_def
  by (rule returns_bind, erule do_silent [rotated], simp, rule returns_bind, erule wait_silent,
      rule returns_bind, erule do_silent [rotated], simp, rule returns_bind, erule do_silent [rotated], simp,
      rule returns_bind, erule do_silent [rotated], simp, rule returns_bind, erule do_silent [rotated], simp,
      rule returns_bind, erule wait_silent, rule returns_bind, erule ti_silent [rotated], simp,
      clarify, erule do_silent [rotated], simp)

lemma accessible_talks: "talked bus a d d1 \<Longrightarrow> returns (\<lambda>(_, d'). talked bus a d d') (i2c_accessible ti d1)"
  unfolding i2c_accessible_def
  by (rule returns_bind, erule ti_silent [rotated], simp, clarsimp, rule returns_bind, erule ti_silent [rotated])
    auto

text \<open>Selecting a slave takes its address and is silent on the bus.\<close>

lemma select_talks:
  "returns (\<lambda>b'. slave_addr b' = address \<and> i2c_interface b' = new_interface
      \<and> talked bus a (i2c_dev b) (i2c_dev b')) (board_i2c_select ti new_interface address b)"
proof -
  have pins: "returns (talked bus a d) (do { d \<leftarrow> i2c_do ti (PinPullSet p IOC_NO_IOPULL) d1;
      d \<leftarrow> i2c_do ti (PinPullSet q IOC_NO_IOPULL) d; i2c_do ti (PinTypeI2c p q) d })"
    if "talked bus a d d1" for d d1 p q
    by (rule returns_bind, rule do_silent [OF _ that], simp, rule returns_bind, erule do_silent [rotated], simp,
        erule do_silent [rotated], simp)
  have more: "returns (\<lambda>b'. slave_addr b' = address \<and> i2c_interface b' = new_interface
        \<and> talked bus a (i2c_dev b) (i2c_dev b'))
      (if new_interface \<noteq> i2c_interface b then do {
         d \<leftarrow> i2c_do ti I2CMasterDisable d;
         d \<leftarrow> (if new_interface = BOARD_I2C_INTERFACE_0 then do {
                 d \<leftarrow> i2c_do ti (PinPullSet BOARD_IOID_SDA IOC_NO_IOPULL) d;
                 d \<leftarrow> i2c_do ti (PinPullSet BOARD_IOID_SCL IOC_NO_IOPULL) d;
                 i2c_do ti (PinTypeI2c BOARD_IOID_SDA BOARD_IOID_SCL) d }
               else if new_interface = BOARD_I2C_INTERFACE_1 then do {
                 d \<leftarrow> i2c_do ti (PinPullSet BOARD_IOID_SDA_HP IOC_NO_IOPULL) d;
                 d \<leftarrow> i2c_do ti (PinPullSet BOARD_IOID_SCL_HP IOC_NO_IOPULL) d;
                 i2c_do ti (PinTypeI2c BOARD_IOID_SDA_HP BOARD_IOID_SCL_HP) d }
               else Some d);
         (clk, d) \<leftarrow> ti ClockGet d;
         d \<leftarrow> i2c_do ti (I2CMasterInitExpClk clk) d;
         Some (b\<lparr>slave_addr := address, i2c_interface := new_interface, i2c_dev := d\<rparr>) }
       else Some (b\<lparr>slave_addr := address, i2c_dev := d\<rparr>))" if d: "talked bus a (i2c_dev b) d" for d
    by (rule returns_if, rule returns_bind, rule do_silent [OF _ d], simp,
        rule returns_bind [where P = "talked bus a (i2c_dev b)"], auto intro: pins)
      (rule returns_bind, erule ti_silent [rotated], simp, clarify, rule returns_bind,
        erule do_silent [rotated], simp_all add: d)
  have same: "i2c_dev (b\<lparr>slave_addr := address\<rparr>) = i2c_dev b"
    "i2c_interface (b\<lparr>slave_addr := address\<rparr>) = i2c_interface b" by simp_all
  show ?thesis
    unfolding board_i2c_select_def Let_def same
    by (rule returns_bind, rule accessible_talks [of a "i2c_dev b" "i2c_dev b", OF talked_refl], clarify,
        rule returns_bind [where P = "talked bus a (i2c_dev b)"], simp add: wakeup_talks, rule more, assumption)
qed

lemma shutdown_talks:
  "returns (\<lambda>b'. slave_addr b' = slave_addr b \<and> i2c_interface b' = NO_INTERFACE
      \<and> talked bus a (i2c_dev b) (i2c_dev b')) (board_i2c_shutdown ti b)"
proof -
  have same: "i2c_dev (b\<lparr>i2c_interface := x\<rparr>) = i2c_dev b" for x by simp
  show ?thesis
    unfolding board_i2c_shutdown_def Let_def same
    by (rule returns_bind, rule accessible_talks [of a "i2c_dev b" "i2c_dev b", OF talked_refl], clarify,
        rule returns_bind [where P = "talked bus a (i2c_dev b)"], rule returns_if, erule do_silent [rotated], simp,
        simp, rule returns_bind, erule do_silent [rotated], simp, rule returns_bind, erule do_silent [rotated],
        simp, rule returns_bind, erule wait_silent)
      ((rule returns_bind, erule do_silent [rotated], simp)+, simp)
qed

text \<open>The rest of the data is sent byte by byte while every byte is acknowledged, without the last one.\<close>

definition rest_steps :: "bytes \<Rightarrow> i2c_call list" where
  "rest_steps xs = concat (map (\<lambda>x. [I2CMasterDataPut x, I2CMasterControl I2C_MASTER_CMD_BURST_SEND_CONT]) (butlast xs))
     @ (if xs = [] then [] else [I2CMasterDataPut (last xs)])"

lemma send_rest_run:
  assumes "\<And>l. mstat l = I2C_MASTER_ERR_NONE"
  shows "\<exists>d'. i2c_send_rest ti xs d = Some (True, d') \<and> bus d' = bus d @ rest_steps xs"
proof (induction xs arbitrary: d)
  case (Cons x xs)
  obtain d1 where d1: "i2c_do ti (I2CMasterDataPut x) d = Some d1" "bus d1 = bus d @ [I2CMasterDataPut x]"
    using do_step [of "I2CMasterDataPut x" d] by auto
  obtain d2 where d2: "i2c_send ti I2C_MASTER_CMD_BURST_SEND_CONT d1 = Some (True, d2)"
    "bus d2 = bus d1 @ [I2CMasterControl I2C_MASTER_CMD_BURST_SEND_CONT]"
    using send_run [of I2C_MASTER_CMD_BURST_SEND_CONT d1] assms by auto
  from Cons.IH [of d2] d1 d2 show ?case by (auto simp: rest_steps_def)
qed (simp add: rest_steps_def)

lemma write_data_run:
  assumes "\<And>l. mstat l = I2C_MASTER_ERR_NONE"
  shows "\<exists>d'. i2c_write_data ti a (x # xs) d = Some (True, d') \<and> bus d' = bus d @ [I2CMasterSlaveAddrSet a False,
    I2CMasterDataPut x, I2CMasterControl I2C_MASTER_CMD_BURST_SEND_START] @ rest_steps xs"
proof -
  obtain d1 where d1: "i2c_do ti (I2CMasterSlaveAddrSet a False) d = Some d1"
    "bus d1 = bus d @ [I2CMasterSlaveAddrSet a False]"
    using do_step [of "I2CMasterSlaveAddrSet a False" d] by auto
  obtain d2 where d2: "i2c_do ti (I2CMasterDataPut x) d1 = Some d2" "bus d2 = bus d1 @ [I2CMasterDataPut x]"
    using do_step [of "I2CMasterDataPut x" d1] by auto
  obtain d3 where d3: "i2c_wait ti I2CMasterBusBusy (\<lambda>r. r = 0) d2 = Some d3" "bus d3 = bus d2"
    using ready [of I2CMasterBusBusy d2] by auto
  obtain d4 where d4: "i2c_send ti I2C_MASTER_CMD_BURST_SEND_START d3 = Some (True, d4)"
    "bus d4 = bus d3 @ [I2CMasterControl I2C_MASTER_CMD_BURST_SEND_START]"
    using send_run [of I2C_MASTER_CMD_BURST_SEND_START d3] assms by auto
  from send_rest_run [OF assms, of xs d4] d1 d2 d3 d4 show ?thesis by (auto simp: i2c_write_data_def)
qed

text \<open>\<open>board_i2c_write\<close> sends the last byte with its finish.\<close>

lemma write_run:
  assumes "\<And>l. mstat l = I2C_MASTER_ERR_NONE"
  shows "\<exists>d'. board_i2c_write ti (x # xs) b = Some (True, b\<lparr>i2c_dev := d'\<rparr>)
    \<and> bus d' = bus (i2c_dev b) @ [I2CMasterSlaveAddrSet (slave_addr b) False, I2CMasterDataPut x,
        I2CMasterControl I2C_MASTER_CMD_BURST_SEND_START] @ rest_steps xs
      @ [I2CMasterControl I2C_MASTER_CMD_BURST_SEND_FINISH]"
proof -
  obtain d1 where d1: "i2c_write_data ti (slave_addr b) (x # xs) (i2c_dev b) = Some (True, d1)"
    "bus d1 = bus (i2c_dev b) @ [I2CMasterSlaveAddrSet (slave_addr b) False, I2CMasterDataPut x,
        I2CMasterControl I2C_MASTER_CMD_BURST_SEND_START] @ rest_steps xs"
    using write_data_run [OF assms] by blast
  obtain d2 where d2: "i2c_send ti I2C_MASTER_CMD_BURST_SEND_FINISH d1 = Some (True, d2)"
    "bus d2 = bus d1 @ [I2CMasterControl I2C_MASTER_CMD_BURST_SEND_FINISH]"
    using send_run [of I2C_MASTER_CMD_BURST_SEND_FINISH d1] assms by auto
  obtain d3 where "i2c_wait ti I2CMasterBusBusy (\<lambda>r. r = 0) d2 = Some d3" "bus d3 = bus d2"
    using ready [of I2CMasterBusBusy d2] by auto
  with d1 d2 show ?thesis by (auto simp: board_i2c_write_def)
qed

text \<open>
  \<open>board_i2c_write_read\<close> turns to reading without sending the byte it has put last: of two bytes and
  more the last one never reaches the slave.
\<close>

lemma write_read_drops_last:
  assumes "\<And>l. mstat l = I2C_MASTER_ERR_NONE" "0 < n"
  shows "\<exists>r d' l. board_i2c_write_read ti (x # xs) n b = Some (r, b\<lparr>i2c_dev := d'\<rparr>)
    \<and> bus d' = bus (i2c_dev b) @ [I2CMasterSlaveAddrSet (slave_addr b) False, I2CMasterDataPut x,
        I2CMasterControl I2C_MASTER_CMD_BURST_SEND_START] @ rest_steps xs
      @ I2CMasterSlaveAddrSet (slave_addr b) True # l"
proof -
  obtain d1 where d1: "i2c_write_data ti (slave_addr b) (x # xs) (i2c_dev b) = Some (True, d1)"
    "bus d1 = bus (i2c_dev b) @ [I2CMasterSlaveAddrSet (slave_addr b) False, I2CMasterDataPut x,
        I2CMasterControl I2C_MASTER_CMD_BURST_SEND_START] @ rest_steps xs"
    using write_data_run [OF assms(1)] by blast
  obtain d2 where d2: "i2c_do ti (I2CMasterSlaveAddrSet (slave_addr b) True) d1 = Some d2"
    "bus d2 = bus d1 @ [I2CMasterSlaveAddrSet (slave_addr b) True]"
    using do_step [of "I2CMasterSlaveAddrSet (slave_addr b) True" d1] by auto
  from read_data_talks [OF talked_refl assms(2), of "slave_addr b" d2] obtain r d3 l
    where "i2c_read_data ti n d2 = Some (r, d3)" "bus d3 = bus d2 @ l"
    by (auto simp: returns_def talked_def)
  with d1 d2 show ?thesis by (auto simp: board_i2c_write_read_def)
qed

end

section \<open>A library that meets the contract\<close>

text \<open>
  The reference hardware records the steps on the bus; the slaves are any functions of them: what the
  status register shows and which byte is heard. Waiting ends at the first question.
\<close>

fun i2c_hw :: "(i2c_call list \<Rightarrow> u32) \<Rightarrow> (i2c_call list \<Rightarrow> u32) \<Rightarrow> i2c_call list i2c_ti" where
  "i2c_hw mstat heard SerialPowerStatus l = Some (PRCM_DOMAIN_POWER_ON, l)"
| "i2c_hw mstat heard HWREG_I2CCLKGR l = Some (PRCM_I2CCLKGR_CLK_EN, l)"
| "i2c_hw mstat heard LoadGet l = Some (1, l)"
| "i2c_hw mstat heard I2CMasterErr l = Some (mstat l, l)"
| "i2c_hw mstat heard I2CMasterDataGet l = Some (heard l, l)"
| "i2c_hw mstat heard c l = Some (0, if bus_step c then l @ [c] else l)"

lemma i2c_wait_ok: "ti c d = Some (r, d') \<Longrightarrow> accept r \<Longrightarrow> i2c_wait ti c accept d = Some d'"
  by (subst i2c_wait.simps) simp

lemma i2c_hw_step: "bus_step c \<Longrightarrow> i2c_hw mstat heard c l = Some (0, l @ [c])"
  by (cases c) simp_all

lemma i2c_hw_quiet: "\<not> bus_step c \<Longrightarrow> \<exists>r. i2c_hw mstat heard c l = Some (r, l)"
  by (cases c) simp_all

interpretation hw: i2c_library "i2c_hw mstat heard" "\<lambda>l. l" mstat heard for mstat heard
  by unfold_locales
    (auto simp: i2c_hw_step i2c_hw_quiet intro!: i2c_wait_ok)

end
