(* ===== verification/Sensors.thy ===== *)
theory Sensors
  imports Board_I2c "HOL-Library.Signed_Division"
begin

text \<open>
  The drivers of the environment sensors over the I2C driver: SHT21 (temperature, humidity) and
  LPS331AP (pressure, temperature). A local variable that is passed to a failing read keeps
  what the stack held: this is the argument \<open>stack\<close>. The conversions of \<open>sht21.c\<close> and of
  \<open>lps331ap_read_temp\<close> to floating point are not modelled, only the registers they read.
\<close>

section \<open>sht21.c\<close>

definition SHT21_ADDRESS :: u8 where "SHT21_ADDRESS = 0x40"
definition SHT21_USER_REG_READ :: u8 where "SHT21_USER_REG_READ = 0xE7"
definition SHT21_USER_REG_WRITE :: u8 where "SHT21_USER_REG_WRITE = 0xE6"
definition SHT21_USER_REG_RESERVED_BITS :: u8 where "SHT21_USER_REG_RESERVED_BITS = 0x38"
definition SHT21_TEMPERATURE_HM_CMD :: u8 where "SHT21_TEMPERATURE_HM_CMD = 0xE3"
definition SHT21_HUMIDITY_HM_CMD :: u8 where "SHT21_HUMIDITY_HM_CMD = 0xE5"
definition SHT21_RESET_CMD :: u8 where "SHT21_RESET_CMD = 0xFE"
definition SHT21_STATUS_MASK :: u8 where "SHT21_STATUS_MASK = 0xFC"
definition SHT21_DEFAULT_CONFIG :: u8 where
  "SHT21_DEFAULT_CONFIG = (push_bit 7 0 OR push_bit 0 0) OR push_bit 2 0 OR push_bit 6 0 OR push_bit 1 1"
definition SHT21_USER_CONFIG :: u8 where
  "SHT21_USER_CONFIG = (push_bit 7 0 OR push_bit 0 1) OR push_bit 2 0 OR push_bit 6 0 OR push_bit 1 1"

text \<open>A buffer after a read that stored \<open>xs\<close> from its beginning.\<close>

definition stored :: "bytes \<Rightarrow> bytes \<Rightarrow> bytes" where
  "stored xs buf = xs @ drop (length xs) buf"

definition sht21_init :: "'d i2c_ti \<Rightarrow> 'd i2c \<Rightarrow> 'd i2c option" where
  "sht21_init ti b = do {
     b \<leftarrow> board_i2c_select ti BOARD_I2C_INTERFACE_0 SHT21_ADDRESS b;
     (_, b) \<leftarrow> board_i2c_write_single ti SHT21_USER_REG_READ b;
     ((_, xs), b) \<leftarrow> board_i2c_read ti 1 b;
     let config = stored xs [0] ! 0;
     let config = config AND SHT21_USER_REG_RESERVED_BITS;
     let config = config OR SHT21_USER_CONFIG;
     (_, b) \<leftarrow> board_i2c_write ti [SHT21_USER_REG_WRITE, config] b;
     Some b }"

definition sht21_reset :: "'d i2c_ti \<Rightarrow> 'd i2c \<Rightarrow> 'd i2c option" where
  "sht21_reset ti b = map_option snd (board_i2c_write_single ti SHT21_RESET_CMD b)"

definition sht21_is_present :: "'d i2c_ti \<Rightarrow> u8 \<Rightarrow> 'd i2c \<Rightarrow> (bool \<times> 'd i2c) option" where
  "sht21_is_present ti stack b = do {
     (_, b) \<leftarrow> board_i2c_write_single ti SHT21_USER_REG_READ b;
     ((_, xs), b) \<leftarrow> board_i2c_read ti 1 b;
     let is_present = stored xs [stack] ! 0;
     let is_present = is_present AND NOT SHT21_USER_REG_RESERVED_BITS;
     Some (is_present = SHT21_USER_CONFIG \<or> is_present = SHT21_DEFAULT_CONFIG, b) }"

definition sht21_read_temperature :: "'d i2c_ti \<Rightarrow> bytes \<Rightarrow> 'd i2c \<Rightarrow> (u16 \<times> 'd i2c) option" where
  "sht21_read_temperature ti stack b = do {
     (_, b) \<leftarrow> board_i2c_write_single ti SHT21_TEMPERATURE_HM_CMD b;
     ((_, xs), b) \<leftarrow> board_i2c_read ti 2 b;
     let t = stored xs stack;
     Some (push_bit 8 (ucast (t ! 0)) OR ucast (t ! 1 AND SHT21_STATUS_MASK), b) }"

definition sht21_read_humidity :: "'d i2c_ti \<Rightarrow> bytes \<Rightarrow> 'd i2c \<Rightarrow> (u16 \<times> 'd i2c) option" where
  "sht21_read_humidity ti stack b = do {
     (_, b) \<leftarrow> board_i2c_write_single ti SHT21_HUMIDITY_HM_CMD b;
     ((_, xs), b) \<leftarrow> board_i2c_read ti 2 b;
     let h = stored xs stack;
     Some (push_bit 8 (ucast (h ! 0)) OR ucast (h ! 1 AND SHT21_STATUS_MASK), b) }"

definition sht21_close :: "'d i2c_ti \<Rightarrow> 'd i2c \<Rightarrow> 'd i2c option" where
  "sht21_close ti b = board_i2c_shutdown ti b"

section \<open>lps331ap.c\<close>

definition LPS331AP_SLAVE_ADDR :: u8 where "LPS331AP_SLAVE_ADDR = 0x5D"
definition LPS331AP_REG_CTRL_REG1 :: u8 where "LPS331AP_REG_CTRL_REG1 = 0x20"
definition LPS331AP_REG_PRESS_OUT_XL :: u8 where "LPS331AP_REG_PRESS_OUT_XL = 0x28"
definition LPS331AP_REG_PRESS_OUT_L :: u8 where "LPS331AP_REG_PRESS_OUT_L = 0x29"
definition LPS331AP_REG_PRESS_OUT_H :: u8 where "LPS331AP_REG_PRESS_OUT_H = 0x2A"
definition LPS331AP_REG_TEMP_OUT_L :: u8 where "LPS331AP_REG_TEMP_OUT_L = 0x2B"
definition LPS331AP_REG_TEMP_OUT_H :: u8 where "LPS331AP_REG_TEMP_OUT_H = 0x2C"
definition LPS331AP_CTRL_REG1_PD :: u8 where "LPS331AP_CTRL_REG1_PD = 0x80"
definition LPS331AP_CTRL_REG1_DBDU :: u8 where "LPS331AP_CTRL_REG1_DBDU = 0x04"
definition LPS331AP_CTRL_REG1_ODR_POS :: nat where "LPS331AP_CTRL_REG1_ODR_POS = 4"
definition PRES_DIVIDER :: int where "PRES_DIVIDER = 4096"

definition lps331ap_init :: "'d i2c_ti \<Rightarrow> u8 \<Rightarrow> 'd i2c \<Rightarrow> (int \<times> 'd i2c) option" where
  "lps331ap_init ti rate b = do {
     b \<leftarrow> board_i2c_select ti BOARD_I2C_INTERFACE_0 LPS331AP_SLAVE_ADDR b;
     let ctrl = LPS331AP_CTRL_REG1_DBDU OR LPS331AP_CTRL_REG1_PD OR push_bit LPS331AP_CTRL_REG1_ODR_POS rate;
     (_, b) \<leftarrow> board_i2c_write ti [LPS331AP_REG_CTRL_REG1, ctrl] b;
     Some (0, b) }"

text \<open>\<open>board_i2c_write_single(reg); board_i2c_read(&tmp, 1);\<close>\<close>

definition lps331ap_reg :: "'d i2c_ti \<Rightarrow> u8 \<Rightarrow> u8 \<Rightarrow> 'd i2c \<Rightarrow> (u8 \<times> 'd i2c) option" where
  "lps331ap_reg ti reg tmp b = do {
     (_, b) \<leftarrow> board_i2c_write_single ti reg b;
     ((_, xs), b) \<leftarrow> board_i2c_read ti 1 b;
     Some (stored xs [tmp] ! 0, b) }"

text \<open>\<open>val\<close> of \<open>lps331ap_read_temp\<close>, before it is converted to degrees.\<close>

definition lps331ap_temp_val :: "'d i2c_ti \<Rightarrow> u8 \<Rightarrow> 'd i2c \<Rightarrow> (u16 \<times> 'd i2c) option" where
  "lps331ap_temp_val ti stack b = do {
     (tmp, b) \<leftarrow> lps331ap_reg ti LPS331AP_REG_TEMP_OUT_L stack b;
     let val = (0 OR ucast tmp :: u16);
     (tmp, b) \<leftarrow> lps331ap_reg ti LPS331AP_REG_TEMP_OUT_H tmp b;
     Some (val OR push_bit 8 (ucast tmp), b) }"

text \<open>
  The value has 24 bits, so its conversion to \<open>float\<close> and the division by a power of two are exact; the
  conversion to \<open>int\<close> cuts towards 0.
\<close>

definition lps331ap_read_pres :: "'d i2c_ti \<Rightarrow> u8 \<Rightarrow> 'd i2c \<Rightarrow> (int \<times> 'd i2c) option" where
  "lps331ap_read_pres ti stack b = do {
     (tmp, b) \<leftarrow> lps331ap_reg ti LPS331AP_REG_PRESS_OUT_XL stack b;
     let val = (0 OR ucast tmp :: u32);
     (tmp, b) \<leftarrow> lps331ap_reg ti LPS331AP_REG_PRESS_OUT_L tmp b;
     let val = val OR push_bit 8 (ucast tmp);
     (tmp, b) \<leftarrow> lps331ap_reg ti LPS331AP_REG_PRESS_OUT_H tmp b;
     let val = val OR push_bit 16 (ucast tmp);
     let val = (if tmp AND 0x80 \<noteq> 0 then val OR push_bit 24 0xFF else val);
     Some (sint val sdiv PRES_DIVIDER, b) }"

definition lps331ap_enable :: "'d i2c_ti \<Rightarrow> u8 \<Rightarrow> 'd i2c \<Rightarrow> (int \<times> 'd i2c) option" where
  "lps331ap_enable ti stack b = do {
     (_, b) \<leftarrow> board_i2c_write_single ti LPS331AP_REG_CTRL_REG1 b;
     ((_, xs), b) \<leftarrow> board_i2c_read ti 1 b;
     let tmp = stored xs [stack] ! 0;
     if tmp = 0 then Some (-1, b)
     else do {
       (_, b) \<leftarrow> board_i2c_write ti [LPS331AP_REG_CTRL_REG1, tmp OR LPS331AP_CTRL_REG1_PD] b;
       Some (1, b) } }"

definition lps331ap_disable :: "'d i2c_ti \<Rightarrow> u8 \<Rightarrow> 'd i2c \<Rightarrow> (int \<times> 'd i2c) option" where
  "lps331ap_disable ti stack b = do {
     (_, b) \<leftarrow> board_i2c_write_single ti LPS331AP_REG_CTRL_REG1 b;
     ((ok, xs), b) \<leftarrow> board_i2c_read ti 1 b;
     let tmp = stored xs [stack] ! 0;
     if \<not> ok then Some (-1, b)
     else do {
       (_, b) \<leftarrow> board_i2c_write ti [LPS331AP_REG_CTRL_REG1, tmp AND NOT LPS331AP_CTRL_REG1_PD] b;
       Some (1, b) } }"

section \<open>Laws\<close>

text \<open>The pressure: the signed 24-bit value in 1/4096 mbar, whole mbar towards 0.\<close>

definition signed_24 :: "u8 \<Rightarrow> u8 \<Rightarrow> u8 \<Rightarrow> int" where
  "signed_24 l m h = uint l + 256 * uint m + 65536 * sint h"

lemma signed_24_bits: "signed_24 l m h = uint l OR push_bit 8 (uint m) OR push_bit 16 (sint h)"
proof -
  have mh: "push_bit 8 (uint m) OR push_bit 16 (sint h) = push_bit 8 (uint m) + push_bit 16 (sint h)"
    by (rule disjunctive_add [symmetric]) (auto simp: bit_simps dest: bit_imp_le_length)
  have "uint l OR (push_bit 8 (uint m) OR push_bit 16 (sint h))
      = uint l + (push_bit 8 (uint m) OR push_bit 16 (sint h))"
    by (rule disjunctive_add [symmetric]) (auto simp: bit_simps dest: bit_imp_le_length)
  then have "uint l OR push_bit 8 (uint m) OR push_bit 16 (sint h)
      = uint l + (push_bit 8 (uint m) + push_bit 16 (sint h))"
    by (simp only: mh or.assoc)
  then show ?thesis by (simp add: signed_24_def push_bit_eq_mult)
qed

lemma signed_24_range: "- 8388608 \<le> signed_24 l m h" "signed_24 l m h < 8388608"
proof -
  have "0 \<le> uint l" "uint l < 256" "0 \<le> uint m" "uint m < 256" "- 128 \<le> sint h" "sint h < 128"
    using uint_lt2p [of l] uint_lt2p [of m] sint_ge [of h] sint_lt [of h] by simp_all
  then show "- 8388608 \<le> signed_24 l m h" "signed_24 l m h < 8388608"
    unfolding signed_24_def by linarith+
qed

lemma sign_extend_24:
  fixes l m h :: u8
  shows "sint (let val = ucast l OR push_bit 8 (ucast m) OR push_bit 16 (ucast h) :: u32
     in if h AND 0x80 \<noteq> 0 then val OR push_bit 24 0xFF else val) = signed_24 l m h" (is "sint ?v = _")
proof -
  have top: "h AND 0x80 \<noteq> 0 \<longleftrightarrow> bit h 7"
  proof -
    have "(0x80 :: u8) = push_bit 7 1" by simp
    then show ?thesis by (simp only: bit_iff_and_push_bit_not_eq_0)
  qed
  have ff: "(0xFF :: u32) = mask 8" by (simp add: mask_eq_exp_minus_1)
  have "?v = word_of_int (signed_24 l m h)"
  proof (rule bit_word_eqI)
    fix n
    assume "n < LENGTH(32)"
    then consider "n < 8" | "8 \<le> n" "n < 16" | "16 \<le> n" "n < 24" | "24 \<le> n" "n < 32" by fastforce
    then show "bit ?v n = bit (word_of_int (signed_24 l m h) :: u32) n"
      unfolding top ff signed_24_bits Let_def
      by cases (auto simp: bit_simps dest: bit_imp_le_length)
  qed
  then have "sint ?v = signed_take_bit 31 (signed_24 l m h)" by (simp add: sint_sbintrunc')
  also have "\<dots> = signed_24 l m h"
    using signed_24_range [of l m h] by (intro signed_take_bit_int_eq_self) simp_all
  finally show ?thesis .
qed

context i2c_library begin

lemma reg_used: "returns (\<lambda>(_, b'). used bus b b') (lps331ap_reg ti reg tmp b)"
  unfolding lps331ap_reg_def
  by (rule returns_bind, rule write_single_used, clarify, rule returns_bind, rule read_used, simp)
    (auto intro: used_trans)

text \<open>The pressure of the three registers, between -2048 and 2047 mbar.\<close>

lemma read_pres_used:
  "returns (\<lambda>(p, b'). used bus b b' \<and> (\<exists>l m h. p = signed_24 l m h sdiv 4096) \<and> -2048 \<le> p \<and> p \<le> 2047)
    (lps331ap_read_pres ti stack b)"
proof -
  have range: "-2048 \<le> signed_24 l m h sdiv 4096 \<and> signed_24 l m h sdiv 4096 \<le> 2047" for l m h
    using signed_24_range [of l m h] by (auto simp: signed_divide_int_def sgn_if)
  have pres: "sint (if h AND 0x80 \<noteq> 0
        then (((0 OR ucast l :: u32) OR push_bit 8 (ucast m)) OR push_bit 16 (ucast h)) OR push_bit 24 0xFF
        else ((0 OR ucast l) OR push_bit 8 (ucast m)) OR push_bit 16 (ucast h)) = signed_24 l m h" for l m h :: u8
    using sign_extend_24 [of l m h] by (cases "h AND 0x80 = 0") (simp_all add: Let_def or.assoc)
  show ?thesis
    unfolding lps331ap_read_pres_def Let_def PRES_DIVIDER_def pres
    by (rule returns_bind, rule reg_used, clarify, rule returns_bind, rule reg_used, clarify,
        rule returns_bind, rule reg_used, clarify, simp add: range)
      (blast intro: used_trans)
qed

lemma temperature_used: "returns (\<lambda>(_, b'). used bus b b') (sht21_read_temperature ti stack b)"
  unfolding sht21_read_temperature_def Let_def
  by (rule returns_bind, rule write_single_used, clarify, rule returns_bind, rule read_used, simp)
    (auto intro: used_trans)

lemma sht21_init_runs: "returns (\<lambda>b'. slave_addr b' = SHT21_ADDRESS) (sht21_init ti b)"
  unfolding sht21_init_def Let_def
  by (rule returns_bind, rule select_talks [of SHT21_ADDRESS BOARD_I2C_INTERFACE_0 undefined],
      rule returns_bind, rule write_single_used, clarify, rule returns_bind, rule read_used, simp, clarify,
      rule returns_bind, rule write_used)
    (auto simp: used_def)

lemma lps331ap_init_runs: "returns (\<lambda>(r, b'). r = 0 \<and> slave_addr b' = LPS331AP_SLAVE_ADDR) (lps331ap_init ti rate b)"
  unfolding lps331ap_init_def Let_def
  by (rule returns_bind, rule select_talks [of LPS331AP_SLAVE_ADDR BOARD_I2C_INTERFACE_0 undefined],
      rule returns_bind, rule write_used)
    (auto simp: used_def)

text \<open>Only the initialisation selects a slave: after both, the first sensor is looked for at the second.\<close>

lemma sensors_share_address:
  "\<exists>b1 b2 t b3 l. sht21_init ti b = Some b1 \<and> lps331ap_init ti rate b1 = Some (0, b2)
    \<and> sht21_read_temperature ti stack b2 = Some (t, b3)
    \<and> bus (i2c_dev b3) = bus (i2c_dev b2) @ l \<and> only_slave LPS331AP_SLAVE_ADDR l"
proof -
  obtain b1 where b1: "sht21_init ti b = Some b1" using sht21_init_runs [of b] by (auto simp: returns_def)
  obtain b2 where b2: "lps331ap_init ti rate b1 = Some (0, b2)" "slave_addr b2 = LPS331AP_SLAVE_ADDR"
    using lps331ap_init_runs [of rate b1] by (auto simp: returns_def)
  obtain t b3 where "sht21_read_temperature ti stack b2 = Some (t, b3)" "used bus b2 b3"
    using temperature_used [of b2 stack] by (auto simp: returns_def)
  with b1 b2 show ?thesis by (auto simp: used_def talked_def)
qed

text \<open>
  Nobody looks at the result of a transaction: without an acknowledgement the answer is
  made of what the stack held.
\<close>

lemma absent_sensor:
  assumes "\<And>l. mstat l = I2C_MSTAT_ADRACK_N_M"
  shows "\<exists>b1. sht21_is_present ti x b = Some (x AND NOT SHT21_USER_REG_RESERVED_BITS \<in> {SHT21_USER_CONFIG, SHT21_DEFAULT_CONFIG}, b1)"
    and "\<exists>b2. sht21_read_temperature ti stack b
      = Some (push_bit 8 (ucast (stack ! 0)) OR ucast (stack ! 1 AND SHT21_STATUS_MASK), b2)"
proof -
  have no: "mstat l \<noteq> I2C_MASTER_ERR_NONE" for l
    by (simp add: assms(1) I2C_MSTAT_ADRACK_N_M_def I2C_MASTER_ERR_NONE_def)
  have no_answer: "\<exists>b'. board_i2c_read ti n b = Some ((False, []), b')" for n b
  proof -
    let ?c = "I2CMasterSlaveAddrSet (slave_addr b) True" and ?s = "I2CMasterControl I2C_MASTER_CMD_BURST_RECEIVE_START"
    obtain d1 where d1: "i2c_do ti ?c (i2c_dev b) = Some d1" using do_step [of ?c "i2c_dev b"] by auto
    obtain d2 where d2: "i2c_wait ti I2CMasterBusBusy (\<lambda>r. r = 0) d1 = Some d2"
      using ready [of I2CMasterBusBusy d1] by auto
    obtain d3 where d3: "i2c_do ti ?s d2 = Some d3" using do_step [of ?s d2] by auto
    obtain d4 where d4: "i2c_wait ti I2CMasterBusy (\<lambda>r. r = 0) d3 = Some d4" using ready [of I2CMasterBusy d3] by auto
    obtain d5 where d5: "i2c_status ti d4 = Some (False, d5)" using status_run [of d4] no by auto
    show ?thesis
      using d1 d2 d3 d4 d5 by (cases "n - 1") (simp_all add: board_i2c_read_def i2c_read_data_def)
  qed
  obtain b1 ok where b1: "board_i2c_write_single ti SHT21_USER_REG_READ b = Some (ok, b1)"
    using write_single_used [where x = SHT21_USER_REG_READ and b = b] by (auto simp: returns_def)
  obtain b2 ok' where b2: "board_i2c_write_single ti SHT21_TEMPERATURE_HM_CMD b = Some (ok', b2)"
    using write_single_used [where x = SHT21_TEMPERATURE_HM_CMD and b = b] by (auto simp: returns_def)
  obtain b3 where "board_i2c_read ti (Suc 0) b1 = Some ((False, []), b3)" using no_answer by blast
  with b1 show "\<exists>b1. sht21_is_present ti x b = Some (x AND NOT SHT21_USER_REG_RESERVED_BITS \<in> {SHT21_USER_CONFIG, SHT21_DEFAULT_CONFIG}, b1)"
    by (auto simp: sht21_is_present_def stored_def Let_def)
  obtain b4 where "board_i2c_read ti 2 b2 = Some ((False, []), b4)" using no_answer by blast
  with b2 show "\<exists>b2. sht21_read_temperature ti stack b
      = Some (push_bit 8 (ucast (stack ! 0)) OR ucast (stack ! 1 AND SHT21_STATUS_MASK), b2)"
    by (auto simp: sht21_read_temperature_def stored_def Let_def)
qed

end

end
