(* ===== verification/Periph_Props.thy ===== *)
theory Periph_Props
  imports Sniffer_Laws Sensors
begin

text \<open>The property of the sniffer image, for every radio driver and every order of events.\<close>

text \<open>C40. Whatever the radio driver does, and in whatever order bytes of the host, turns of the process, the
  timer and frames of the radio come, the sniffer never accesses an array out of bounds and every turn of its
  process ends. If the radio accepts the promiscuous mode, the bytes that the sniffer has sent are a sequence of
  whole messages, from which they can be decoded: the channel it starts on, every frame with its signal, its
  length modulo 256, and exactly one answer to each whole command among the bytes that found room in the
  queue of 31 bytes, in the order of events. If the radio refuses, the process exits, and the messages (the
  frames only) stand behind an error line on the same UART, with which the stream as a whole cannot be decoded.\<close>

theorem sniffer_stream_decodes:
  "let q = started_radio ops channel ext_addr r in \<exists>s out. sniffer_run ops channel ext_addr r evs = Some s \<and>
    decode_msgs out = Some (host_messages ops q evs) \<and>
    (if promiscuous ops q then byte_out (parser s) = out
     else byte_out (parser s) = rx_mode_error @ out \<and> decode_msgs (byte_out (parser s)) = None \<and>
       host_messages ops q evs = frame_messages evs)"
proof -
  define q where "q = started_radio ops channel ext_addr r"
  from refines_run [OF refines_start, of ops evs ops channel ext_addr r, folded q_def] obtain s
    where s: "sniffer_run ops channel ext_addr r evs = Some s"
      "refines (if promiscuous ops q then [] else rx_mode_error) s (fold (spec_step ops) evs (spec_start ops q))"
    by (auto simp: sniffer_run_def)
  have "decode_msgs (concat (map encode_msg (host_messages ops q evs))) = Some (host_messages ops q evs)"
    using s(2) by (intro decode_stream) (simp add: refines_def host_messages_def all_fit_def)
  then show ?thesis
    unfolding q_def [symmetric] Let_def
    using s refused_messages [of ops q evs]
    by (intro exI [of _ s] exI [of _ "concat (map encode_msg (host_messages ops q evs))"])
      (auto simp: refines_def host_messages_def error_line_undecodable)
qed

end
