(* ===== verification/Linked_List.thy ===== *)
theory Linked_List
  imports Prelude
begin

text \<open>
  Linked lists as Contiki has them (\<open>core/lib/list.c\<close>): every item begins with a pointer to the next
  one, and a list is a variable that points to its first item. Addresses are numbers with
  \<open>0\<close> for \<open>NULL\<close>; the heap is the map \<open>nxt\<close> from an item to its successor. A loop that follows
  a cyclic list does not end, and an access through \<open>NULL\<close> is undefined: both are \<open>None\<close>. The laws state
  each function on the list of addresses that \<open>chain\<close> finds in the heap.
\<close>

type_synonym ptr = nat
type_synonym heap = "ptr \<Rightarrow> ptr"

section \<open>list.c\<close>

text \<open>The list variable and the heap.\<close>

record lst =
  lst_head :: ptr
  lst_next :: heap

definition list_init :: "lst \<Rightarrow> lst" where
  "list_init l = l\<lparr>lst_head := 0\<rparr>"

definition list_head :: "lst \<Rightarrow> ptr" where
  "list_head l = lst_head l"

definition list_copy :: "lst \<Rightarrow> ptr \<Rightarrow> lst" where
  "list_copy dest src = dest\<lparr>lst_head := src\<rparr>"

text \<open>\<open>for(l = *list; l->next != NULL; l = l->next);\<close>\<close>

partial_function (option) list_tail_loop :: "heap \<Rightarrow> ptr \<Rightarrow> ptr option" where
  "list_tail_loop nxt l = (if nxt l = 0 then Some l else list_tail_loop nxt (nxt l))"

definition list_tail :: "lst \<Rightarrow> ptr option" where
  "list_tail l = (if lst_head l = 0 then Some 0 else list_tail_loop (lst_next l) (lst_head l))"

partial_function (option) list_remove_loop :: "lst \<Rightarrow> ptr \<Rightarrow> ptr \<Rightarrow> ptr \<Rightarrow> lst option" where
  "list_remove_loop s item r l =
    (if l = 0 then Some s
     else if l = item then
       Some (let s = (if r = 0 then s\<lparr>lst_head := lst_next s l\<rparr>
                      else s\<lparr>lst_next := (lst_next s)(r := lst_next s l)\<rparr>)
             in s\<lparr>lst_next := (lst_next s)(l := 0)\<rparr>)
     else list_remove_loop s item l (lst_next s l))"

definition list_remove :: "lst \<Rightarrow> ptr \<Rightarrow> lst option" where
  "list_remove s item = (if lst_head s = 0 then Some s else list_remove_loop s item 0 (lst_head s))"

definition list_add :: "lst \<Rightarrow> ptr \<Rightarrow> lst option" where
  "list_add s item = do {
     s \<leftarrow> list_remove s item;
     s \<leftarrow> (if item = 0 then None else Some (s\<lparr>lst_next := (lst_next s)(item := 0)\<rparr>));
     l \<leftarrow> list_tail s;
     Some (if l = 0 then s\<lparr>lst_head := item\<rparr> else s\<lparr>lst_next := (lst_next s)(l := item)\<rparr>) }"

definition list_push :: "lst \<Rightarrow> ptr \<Rightarrow> lst option" where
  "list_push s item = do {
     s \<leftarrow> list_remove s item;
     s \<leftarrow> (if item = 0 then None else Some (s\<lparr>lst_next := (lst_next s)(item := lst_head s)\<rparr>));
     Some (s\<lparr>lst_head := item\<rparr>) }"

text \<open>\<open>for(l = *list; l->next->next != NULL; l = l->next);\<close>\<close>

partial_function (option) list_chop_loop :: "heap \<Rightarrow> ptr \<Rightarrow> ptr option" where
  "list_chop_loop nxt l =
    (if nxt l = 0 then None else if nxt (nxt l) = 0 then Some l else list_chop_loop nxt (nxt l))"

definition list_chop :: "lst \<Rightarrow> (ptr \<times> lst) option" where
  "list_chop s =
    (if lst_head s = 0 then Some (0, s)
     else if lst_next s (lst_head s) = 0 then Some (lst_head s, s\<lparr>lst_head := 0\<rparr>)
     else do {
       l \<leftarrow> list_chop_loop (lst_next s) (lst_head s);
       Some (lst_next s l, s\<lparr>lst_next := (lst_next s)(l := 0)\<rparr>) })"

definition list_pop :: "lst \<Rightarrow> ptr \<times> lst" where
  "list_pop s = (lst_head s, if lst_head s \<noteq> 0 then s\<lparr>lst_head := lst_next s (lst_head s)\<rparr> else s)"

partial_function (option) list_length_loop :: "heap \<Rightarrow> int \<Rightarrow> ptr \<Rightarrow> int option" where
  "list_length_loop nxt n l = (if l = 0 then Some n else list_length_loop nxt (n + 1) (nxt l))"

definition list_length :: "lst \<Rightarrow> int option" where
  "list_length s = list_length_loop (lst_next s) 0 (lst_head s)"

definition list_insert :: "lst \<Rightarrow> ptr \<Rightarrow> ptr \<Rightarrow> lst option" where
  "list_insert s previtem newitem =
    (if previtem = 0 then list_push s newitem
     else if newitem = 0 then None
     else let s = s\<lparr>lst_next := (lst_next s)(newitem := lst_next s previtem)\<rparr>
       in Some (s\<lparr>lst_next := (lst_next s)(previtem := newitem)\<rparr>))"

definition list_item_next :: "lst \<Rightarrow> ptr \<Rightarrow> ptr" where
  "list_item_next s item = (if item = 0 then 0 else lst_next s item)"

section \<open>Lists in the heap\<close>

fun chain :: "heap \<Rightarrow> ptr \<Rightarrow> ptr list \<Rightarrow> ptr \<Rightarrow> bool" where
  "chain nxt p [] q \<longleftrightarrow> p = q"
| "chain nxt p (x # xs) q \<longleftrightarrow> p = x \<and> x \<noteq> 0 \<and> chain nxt (nxt x) xs q"

text \<open>The addresses of a list that ends.\<close>

abbreviation items :: "heap \<Rightarrow> ptr \<Rightarrow> ptr list \<Rightarrow> bool" where
  "items nxt p xs \<equiv> chain nxt p xs 0"

definition lst_items :: "lst \<Rightarrow> ptr list \<Rightarrow> bool" where
  "lst_items s xs \<longleftrightarrow> items (lst_next s) (lst_head s) xs"

lemma chain_append [simp]:
  "chain nxt p (xs @ ys) q \<longleftrightarrow> (\<exists>r. chain nxt p xs r \<and> chain nxt r ys q)"
  by (induction xs arbitrary: p) auto

lemma chain_update [simp]: "a \<notin> set xs \<Longrightarrow> chain (nxt(a := b)) p xs q = chain nxt p xs q"
  by (induction xs arbitrary: p) auto

lemma items_unique: "items nxt p xs \<Longrightarrow> items nxt p ys \<Longrightarrow> xs = ys"
proof (induction xs arbitrary: p ys)
  case Nil
  then show ?case by (cases ys) auto
next
  case (Cons x xs)
  then show ?case by (cases ys) auto
qed

lemma items_zero: "items nxt p xs \<Longrightarrow> 0 \<notin> set xs"
  by (induction xs arbitrary: p) auto

lemma items_distinct: "items nxt p xs \<Longrightarrow> distinct xs"
proof (induction xs arbitrary: p)
  case (Cons x xs)
  have "x \<notin> set xs"
  proof
    assume "x \<in> set xs"
    then obtain as bs where xs: "xs = as @ x # bs" by (meson split_list)
    with Cons.prems have "items nxt (nxt x) bs" by auto
    moreover from Cons.prems have "items nxt (nxt x) xs" by simp
    ultimately have "bs = xs" using items_unique by blast
    with xs show False by (metis append_is_Nil_conv append_self_conv2 length_append length_Cons
        add_Suc_right less_add_Suc2 nat_neq_iff)
  qed
  with Cons show ?case by auto
qed simp

lemma chain_last: "chain nxt p xs q \<Longrightarrow> xs \<noteq> [] \<Longrightarrow> nxt (last xs) = q"
  by (induction xs arbitrary: p) auto

lemma items_head: "items nxt p xs \<Longrightarrow> p = (case xs of [] \<Rightarrow> 0 | x # _ \<Rightarrow> x)"
  by (cases xs) auto

text \<open>Appending, prepending, and cutting in the heap.\<close>

lemma items_snoc:
  assumes "items nxt p xs" "y \<notin> set xs" "y \<noteq> 0" "xs \<noteq> []"
  shows "items (nxt(y := 0, last xs := y)) p (xs @ [y])"
proof -
  from assms(4) obtain ys x where xs: "xs = ys @ [x]" by (metis append_butlast_last_id)
  with assms items_distinct [OF assms(1)] show ?thesis by auto
qed

lemma items_cut:
  assumes "items nxt p (as @ x # bs)" "as \<noteq> []"
  shows "items (nxt(last as := nxt x, x := 0)) p (as @ bs)"
proof -
  from assms(2) obtain cs c where as: "as = cs @ [c]" by (metis append_butlast_last_id)
  from items_distinct [OF assms(1)] assms show ?thesis unfolding as by auto
qed

section \<open>The functions on lists\<close>

lemma lst_items_cases:
  "lst_items s xs \<Longrightarrow> lst_head s = 0 \<longleftrightarrow> xs = []"
  by (cases xs) (auto simp: lst_items_def)

lemma tail_loop: "items nxt p xs \<Longrightarrow> xs \<noteq> [] \<Longrightarrow> list_tail_loop nxt p = Some (last xs)"
proof (induction xs arbitrary: p)
  case (Cons x xs)
  then show ?case by (subst list_tail_loop.simps) (cases xs; auto)
qed simp

lemma list_tail_ok: "lst_items s xs \<Longrightarrow> list_tail s = Some (if xs = [] then 0 else last xs)"
  using lst_items_cases [of s xs] by (auto simp: list_tail_def lst_items_def intro: tail_loop)

lemma list_head_ok: "lst_items s xs \<Longrightarrow> list_head s = (if xs = [] then 0 else hd xs)"
  by (cases xs) (auto simp: list_head_def lst_items_def)

lemma remove_absent:
  "items (lst_next s) l bs \<Longrightarrow> item \<notin> set bs \<Longrightarrow> list_remove_loop s item r l = Some s"
  by (induction bs arbitrary: l r) (subst list_remove_loop.simps; auto)+

lemma remove_present:
  "items (lst_next s) l (as @ item # bs) \<Longrightarrow> item \<notin> set as \<Longrightarrow>
    list_remove_loop s item r l = list_remove_loop s item (if as = [] then r else last as) item"
proof (induction as arbitrary: l r)
  case (Cons a as)
  have "list_remove_loop s item r l = list_remove_loop s item a (lst_next s a)"
    using Cons.prems by (subst list_remove_loop.simps) auto
  also have "\<dots> = list_remove_loop s item (if as = [] then a else last as) item"
    using Cons by auto
  finally show ?case by simp
qed simp

text \<open>An item that is on the list is taken out and points nowhere; otherwise nothing changes.\<close>

lemma list_remove_ok:
  assumes "lst_items s xs"
  shows "\<exists>s'. list_remove s item = Some s' \<and> lst_items s' (remove1 item xs)
    \<and> (\<forall>a. a \<notin> set xs \<longrightarrow> lst_next s' a = lst_next s a)
    \<and> (item \<notin> set xs \<longrightarrow> s' = s) \<and> (item \<in> set xs \<longrightarrow> lst_next s' item = 0)"
proof (cases "item \<in> set xs")
  case False
  then show ?thesis
    using assms remove_absent [of s "lst_head s" xs item 0]
    by (auto simp: list_remove_def lst_items_def remove1_idem)
next
  case True
  then obtain as bs where xs: "xs = as @ item # bs" "item \<notin> set as" by (meson split_list_first)
  from assms have chain: "items (lst_next s) (lst_head s) (as @ item # bs)" by (simp add: lst_items_def xs)
  from chain have head: "lst_head s \<noteq> 0" "item \<noteq> 0" by (cases as; auto)+
  let ?r = "if as = [] then 0 else last as"
  have r: "?r = 0 \<longleftrightarrow> as = []" using items_zero [OF chain] by (metis Un_iff last_in_set set_append)
  have run: "list_remove s item = list_remove_loop s item ?r item"
    using head remove_present [OF chain xs(2), of 0] by (simp add: list_remove_def)
  note d = items_distinct [OF chain]
  show ?thesis
  proof (cases "as = []")
    case True
    with chain head(2) d run xs(1) show ?thesis
      by (subst (asm) list_remove_loop.simps) (auto simp: lst_items_def)
  next
    case False
    have "list_remove s item = Some (s\<lparr>lst_next := (lst_next s)(last as := lst_next s item, item := 0)\<rparr>)"
      unfolding run using False r head(2) by (subst list_remove_loop.simps) simp
    moreover have "items ((lst_next s)(last as := lst_next s item, item := 0)) (lst_head s) (as @ bs)"
      by (rule items_cut [OF chain False])
    ultimately show ?thesis using False xs by (auto simp: lst_items_def remove1_append)
  qed
qed

text \<open>An item is added at the end, once, wherever it was before.\<close>

lemma list_add_ok:
  assumes "lst_items s xs" "item \<noteq> 0"
  shows "\<exists>s'. list_add s item = Some s' \<and> lst_items s' (remove1 item xs @ [item])
    \<and> (\<forall>a. a \<notin> set xs \<and> a \<noteq> item \<longrightarrow> lst_next s' a = lst_next s a)"
proof -
  let ?ys = "remove1 item xs"
  have d: "distinct xs" using assms(1) by (auto simp: lst_items_def dest: items_distinct)
  then have new: "item \<notin> set ?ys" by simp
  from list_remove_ok [OF assms(1), of item] obtain s1
    where s1: "list_remove s item = Some s1" "lst_items s1 ?ys" "\<forall>a. a \<notin> set xs \<longrightarrow> lst_next s1 a = lst_next s a"
    by blast
  let ?s2 = "s1\<lparr>lst_next := (lst_next s1)(item := 0)\<rparr>"
  have s2: "lst_items ?s2 ?ys" using s1(2) new by (simp add: lst_items_def)
  have sub: "?ys \<noteq> [] \<Longrightarrow> last ?ys \<in> set xs" by (meson last_in_set notin_set_remove1)
  show ?thesis
  proof (cases "?ys = []")
    case True
    with s1 s2 assms(2) list_tail_ok [OF s2] show ?thesis by (auto simp: list_add_def lst_items_def)
  next
    case False
    then have "last ?ys \<noteq> 0" using items_zero s2 unfolding lst_items_def by (metis last_in_set)
    moreover have "items ((lst_next s1)(item := 0, last ?ys := item)) (lst_head s1) (?ys @ [item])"
      using s1(2) new assms(2) False by (intro items_snoc) (auto simp: lst_items_def)
    ultimately show ?thesis
      using s1 assms(2) False list_tail_ok [OF s2] sub by (auto simp: list_add_def lst_items_def)
  qed
qed

lemma list_push_ok:
  assumes "lst_items s xs" "item \<noteq> 0"
  shows "\<exists>s'. list_push s item = Some s' \<and> lst_items s' (item # remove1 item xs)"
proof -
  have d: "distinct xs" using assms(1) by (auto simp: lst_items_def dest: items_distinct)
  from list_remove_ok [OF assms(1), of item] obtain s1
    where "list_remove s item = Some s1" "lst_items s1 (remove1 item xs)" by blast
  with assms(2) d show ?thesis by (auto simp: list_push_def lst_items_def)
qed

lemma list_pop_ok:
  "lst_items s xs \<Longrightarrow> fst (list_pop s) = (if xs = [] then 0 else hd xs) \<and> lst_items (snd (list_pop s)) (tl xs)"
  by (cases xs) (auto simp: list_pop_def lst_items_def)

lemma two_items: "items nxt p xs \<Longrightarrow> 2 \<le> length xs \<Longrightarrow> p \<noteq> 0 \<and> nxt p \<noteq> 0"
  by (cases xs; cases "tl xs") auto

lemma chop_loop:
  "items nxt p (xs @ [y, z]) \<Longrightarrow> list_chop_loop nxt p = Some y"
proof (induction xs arbitrary: p)
  case (Cons x xs)
  then have rest: "items nxt (nxt x) (xs @ [y, z])" "p = x" by simp_all
  with two_items [OF rest(1)] Cons.IH [OF rest(1)] show ?case by (subst list_chop_loop.simps) simp
qed (subst list_chop_loop.simps; auto)

lemma list_chop_ok:
  assumes "lst_items s xs"
  shows "\<exists>s'. list_chop s = Some (if xs = [] then 0 else last xs, s') \<and> lst_items s' (butlast xs)"
proof -
  consider "xs = []" | x where "xs = [x]" | ys y z where "xs = ys @ [y, z]"
    by (metis append_butlast_last_id append_Nil append_assoc append_Cons)
  then show ?thesis
  proof cases
    case (3 ys y z)
    then have c: "items (lst_next s) (lst_head s) (ys @ [y, z])" using assms by (simp add: lst_items_def)
    then have "lst_head s \<noteq> 0 \<and> lst_next s (lst_head s) \<noteq> 0" by (rule two_items) simp
    moreover have "items ((lst_next s)(y := 0)) (lst_head s) (ys @ [y])" "lst_next s y = z"
      using c items_distinct [OF c] by auto
    ultimately show ?thesis
      using chop_loop [OF c] 3 by (simp add: list_chop_def lst_items_def butlast_append)
  qed (use assms in \<open>auto simp: list_chop_def lst_items_def\<close>)
qed

lemma length_loop: "items nxt p xs \<Longrightarrow> list_length_loop nxt n p = Some (n + int (length xs))"
  by (induction xs arbitrary: p n) (subst list_length_loop.simps; auto)+

lemma list_length_ok: "lst_items s xs \<Longrightarrow> list_length s = Some (int (length xs))"
  by (simp add: list_length_def lst_items_def length_loop)

text \<open>A new item goes behind its predecessor; it must not be on the list, which is not looked for here.\<close>

lemma list_insert_ok:
  assumes "lst_items s (as @ p # bs)" "x \<notin> set (as @ p # bs)" "x \<noteq> 0"
  shows "\<exists>s'. list_insert s p x = Some s' \<and> lst_items s' (as @ p # x # bs)"
proof -
  have c: "items (lst_next s) (lst_head s) (as @ p # bs)" using assms(1) by (simp add: lst_items_def)
  then have "p \<noteq> 0" by auto
  with c items_distinct [OF c] assms(2,3) show ?thesis
    by (auto simp: list_insert_def lst_items_def)
qed

text \<open>An item inserted behind itself makes the list endless.\<close>

lemma insert_again:
  assumes "lst_items s (as @ p # bs)"
  shows "\<exists>s'. list_insert s p p = Some s' \<and> lst_next s' p = p"
proof -
  have "p \<noteq> 0" using assms by (auto simp: lst_items_def)
  then show ?thesis by (simp add: list_insert_def)
qed

end
