(* ===== verification/Process_Kernel.thy ===== *)
theory Process_Kernel
  imports Linked_List
begin

text \<open>
  The process kernel of Contiki, \<open>core/sys/process.c\<close>: the list of processes, the queue of
  events, polling, starting and ending processes. The threads of the processes are a parameter:
  a thread is a program (\<open>prog\<close>) over the variables \<open>'u\<close> of everything outside the kernel, which
  calls functions of the kernel and goes on with their results, and ends with its return value. Kernel
  and threads call each other; a number of fuel bounds the depth of these calls and the loops along
  the list of processes.
\<close>

section \<open>Data\<close>

definition PROCESS_CONF_NUMEVENTS :: u8 where "PROCESS_CONF_NUMEVENTS = 32"
definition PROCESS_ERR_OK :: nat where "PROCESS_ERR_OK = 0"
definition PROCESS_ERR_FULL :: nat where "PROCESS_ERR_FULL = 1"
definition PROCESS_EVENT_INIT :: u8 where "PROCESS_EVENT_INIT = 0x81"
definition PROCESS_EVENT_POLL :: u8 where "PROCESS_EVENT_POLL = 0x82"
definition PROCESS_EVENT_EXIT :: u8 where "PROCESS_EVENT_EXIT = 0x83"
definition PROCESS_EVENT_CONTINUE :: u8 where "PROCESS_EVENT_CONTINUE = 0x85"
definition PROCESS_EVENT_EXITED :: u8 where "PROCESS_EVENT_EXITED = 0x87"
definition PROCESS_EVENT_TIMER :: u8 where "PROCESS_EVENT_TIMER = 0x88"
definition PROCESS_EVENT_MAX :: u8 where "PROCESS_EVENT_MAX = 0x8A"
definition PROCESS_BROADCAST :: ptr where "PROCESS_BROADCAST = 0"
definition PROCESS_STATE_NONE :: u8 where "PROCESS_STATE_NONE = 0"
definition PROCESS_STATE_RUNNING :: u8 where "PROCESS_STATE_RUNNING = 1"
definition PROCESS_STATE_CALLED :: u8 where "PROCESS_STATE_CALLED = 2"
definition PT_YIELDED :: nat where "PT_YIELDED = 1"
definition PT_EXITED :: nat where "PT_EXITED = 2"
definition PT_ENDED :: nat where "PT_ENDED = 3"

lemmas process_states = PROCESS_STATE_NONE_def PROCESS_STATE_RUNNING_def PROCESS_STATE_CALLED_def
lemmas process_events = PROCESS_EVENT_INIT_def PROCESS_EVENT_POLL_def PROCESS_EVENT_EXIT_def
  PROCESS_EVENT_CONTINUE_def PROCESS_EVENT_EXITED_def PROCESS_EVENT_TIMER_def PROCESS_EVENT_MAX_def

record event_data =
  ed_ev :: u8
  ed_data :: ptr
  ed_p :: ptr

text \<open>The variables of the file, the fields of the processes by their address, and the rest.\<close>

record 'u kernel =
  process_list :: ptr
  process_current :: ptr
  lastevent :: u8
  nevents :: u8
  fevent :: u8
  events :: "event_data list"
  poll_requested :: bool
  p_next :: heap
  p_state :: "ptr \<Rightarrow> u8"
  p_needspoll :: "ptr \<Rightarrow> bool"
  user :: 'u

datatype kcall =
    Process_Post ptr u8 ptr
  | Process_Poll ptr
  | Process_Start ptr ptr
  | Process_Post_Synch ptr u8 ptr
  | Process_Exit ptr
  | Process_Is_Running ptr
  | Process_Nevents
  | Process_Alloc_Event
  | Process_Current             \<comment> \<open>\<open>PROCESS_CURRENT()\<close>\<close>
  | Set_Current ptr             \<comment> \<open>\<open>PROCESS_CONTEXT_BEGIN\<close>, \<open>PROCESS_CONTEXT_END\<close>\<close>

text \<open>\<open>Stuck\<close> stands for a program that does not come back: an endless loop or an undefined access.\<close>

datatype 'u prog = Ret nat 'u | Call kcall 'u "nat \<Rightarrow> 'u \<Rightarrow> 'u prog" | Stuck

text \<open>Of each process its thread, if it has one, and what \<open>PT_INIT\<close> does to its state.\<close>

record 'u threads =
  p_thread :: "ptr \<Rightarrow> (u8 \<Rightarrow> ptr \<Rightarrow> 'u \<Rightarrow> 'u prog) option"
  pt_init :: "ptr \<Rightarrow> 'u \<Rightarrow> 'u"

section \<open>Functions that call no thread\<close>

text \<open>The variables as they are when the program starts.\<close>

definition kernel_boot :: "'u \<Rightarrow> 'u kernel" where
  "kernel_boot u = \<lparr>process_list = 0, process_current = 0, lastevent = 0, nevents = 0, fevent = 0,
     events = replicate (unat PROCESS_CONF_NUMEVENTS) \<lparr>ed_ev = 0, ed_data = 0, ed_p = 0\<rparr>,
     poll_requested = False, p_next = (\<lambda>_. 0), p_state = (\<lambda>_. PROCESS_STATE_NONE),
     p_needspoll = (\<lambda>_. False), user = u\<rparr>"

definition process_init :: "'u kernel \<Rightarrow> 'u kernel" where
  "process_init k = k\<lparr>lastevent := PROCESS_EVENT_MAX, nevents := 0, fevent := 0,
     process_current := 0, process_list := 0\<rparr>"

definition process_alloc_event :: "'u kernel \<Rightarrow> u8 \<times> 'u kernel" where
  "process_alloc_event k = (lastevent k, k\<lparr>lastevent := lastevent k + 1\<rparr>)"

definition process_is_running :: "ptr \<Rightarrow> 'u kernel \<Rightarrow> bool" where
  "process_is_running p k \<longleftrightarrow> p_state k p \<noteq> PROCESS_STATE_NONE"

definition process_nevents :: "'u kernel \<Rightarrow> nat" where
  "process_nevents k = unat (nevents k) + (if poll_requested k then 1 else 0)"

definition process_post :: "ptr \<Rightarrow> u8 \<Rightarrow> ptr \<Rightarrow> 'u kernel \<Rightarrow> nat \<times> 'u kernel" where
  "process_post p ev d k =
    (if nevents k = PROCESS_CONF_NUMEVENTS then (PROCESS_ERR_FULL, k)
     else let snum = (fevent k + nevents k) mod PROCESS_CONF_NUMEVENTS
       in (PROCESS_ERR_OK, k\<lparr>events := (events k)[unat snum := \<lparr>ed_ev = ev, ed_data = d, ed_p = p\<rparr>],
             nevents := nevents k + 1\<rparr>))"

definition process_poll :: "ptr \<Rightarrow> 'u kernel \<Rightarrow> 'u kernel" where
  "process_poll p k =
    (if p \<noteq> 0 \<and> (p_state k p = PROCESS_STATE_RUNNING \<or> p_state k p = PROCESS_STATE_CALLED)
     then k\<lparr>p_needspoll := (p_needspoll k)(p := True), poll_requested := True\<rparr> else k)"

text \<open>\<open>for(q = process_list; q != p && q != NULL; q = q->next);\<close>\<close>

partial_function (option) find_process :: "heap \<Rightarrow> ptr \<Rightarrow> ptr \<Rightarrow> ptr option" where
  "find_process nxt p q = (if q \<noteq> p \<and> q \<noteq> 0 then find_process nxt p (nxt q) else Some q)"

text \<open>The loop at the end of \<open>exit_process\<close> that takes \<open>p\<close> out of the list.\<close>

partial_function (option) unlink_loop :: "ptr \<Rightarrow> ptr \<Rightarrow> heap \<Rightarrow> heap option" where
  "unlink_loop p q nxt =
    (if q = 0 then Some nxt else if nxt q = p then Some (nxt(q := nxt p)) else unlink_loop p (nxt q) nxt)"

definition unlink :: "ptr \<Rightarrow> 'u kernel \<Rightarrow> 'u kernel option" where
  "unlink p k =
    (if p = process_list k then Some (k\<lparr>process_list := p_next k (process_list k)\<rparr>)
     else map_option (\<lambda>nxt. k\<lparr>p_next := nxt\<rparr>) (unlink_loop p (process_list k) (p_next k)))"

section \<open>Kernel and threads\<close>

text \<open>
  The functions of the kernel that run threads, and through them each other. A call of such a
  function is a value of \<open>kop\<close>, and each function gets as \<open>sub\<close> what runs the calls it makes;
  \<open>kernel_run\<close> ties the knot with one unit of fuel less per call.
\<close>

datatype kop =
    Call_Process ptr u8 ptr
  | Exit_Process ptr ptr
  | Exit_Notify ptr ptr             \<comment> \<open>the loop of \<open>exit_process\<close> over the processes\<close>
  | Start_Process ptr ptr
  | Post_Synch ptr u8 ptr

type_synonym 'u ksub = "kop \<Rightarrow> 'u kernel \<Rightarrow> 'u kernel option"

definition kernel_call :: "'u ksub \<Rightarrow> kcall \<Rightarrow> 'u kernel \<Rightarrow> (nat \<times> 'u kernel) option" where
  "kernel_call sub c k = (case c of
     Process_Post p ev d \<Rightarrow> Some (process_post p ev d k)
   | Process_Poll p \<Rightarrow> Some (0, process_poll p k)
   | Process_Start p d \<Rightarrow> map_option (Pair 0) (sub (Start_Process p d) k)
   | Process_Post_Synch p ev d \<Rightarrow> map_option (Pair 0) (sub (Post_Synch p ev d) k)
   | Process_Exit p \<Rightarrow> map_option (Pair 0) (sub (Exit_Process p (process_current k)) k)
   | Process_Is_Running p \<Rightarrow> Some (if process_is_running p k then 1 else 0, k)
   | Process_Nevents \<Rightarrow> Some (process_nevents k, k)
   | Process_Alloc_Event \<Rightarrow> (case process_alloc_event k of (e, k) \<Rightarrow> Some (unat e, k))
   | Process_Current \<Rightarrow> Some (process_current k, k)
   | Set_Current p \<Rightarrow> Some (0, k\<lparr>process_current := p\<rparr>))"

text \<open>A thread runs to its end, with the calls it makes.\<close>

primrec run_thread :: "'u ksub \<Rightarrow> 'u prog \<Rightarrow> 'u kernel \<Rightarrow> (nat \<times> 'u kernel) option" where
  "run_thread sub (Ret r u) = (\<lambda>k. Some (r, k\<lparr>user := u\<rparr>))"
| "run_thread sub (Call c u f) = (\<lambda>k. do {
     (r, k) \<leftarrow> kernel_call sub c (k\<lparr>user := u\<rparr>);
     run_thread sub (f r (user k)) k })"
| "run_thread sub Stuck = (\<lambda>k. None)"

text \<open>A call with \<open>NULL\<close> reads through it and is undefined.\<close>

definition call_process :: "'u threads \<Rightarrow> 'u ksub \<Rightarrow> ptr \<Rightarrow> u8 \<Rightarrow> ptr \<Rightarrow> 'u kernel \<Rightarrow> 'u kernel option" where
  "call_process T sub p ev d k =
    (if p = 0 then None
     else case p_thread T p of
       None \<Rightarrow> Some k
     | Some thread \<Rightarrow>
         if p_state k p AND PROCESS_STATE_RUNNING = 0 then Some k
         else do {
           let k = k\<lparr>process_current := p, p_state := (p_state k)(p := PROCESS_STATE_CALLED)\<rparr>;
           (ret, k) \<leftarrow> run_thread sub (thread ev d (user k)) k;
           if ret = PT_EXITED \<or> ret = PT_ENDED \<or> ev = PROCESS_EVENT_EXIT then sub (Exit_Process p p) k
           else Some (k\<lparr>p_state := (p_state k)(p := PROCESS_STATE_RUNNING)\<rparr>) })"

definition exit_notify :: "'u threads \<Rightarrow> 'u ksub \<Rightarrow> ptr \<Rightarrow> ptr \<Rightarrow> 'u kernel \<Rightarrow> 'u kernel option" where
  "exit_notify T sub p q k =
    (if q = 0 then Some k
     else do {
       k \<leftarrow> (if p \<noteq> q then sub (Call_Process q PROCESS_EVENT_EXITED p) k else Some k);
       sub (Exit_Notify p (p_next k q)) k })"

definition exit_process :: "'u threads \<Rightarrow> 'u ksub \<Rightarrow> ptr \<Rightarrow> ptr \<Rightarrow> 'u kernel \<Rightarrow> 'u kernel option" where
  "exit_process T sub p fromprocess k = do {
     let old_current = process_current k;
     q \<leftarrow> find_process (p_next k) p (process_list k);
     if q = 0 then Some k
     else do {
       k \<leftarrow> (if process_is_running p k then do {
               let k = k\<lparr>p_state := (p_state k)(p := PROCESS_STATE_NONE)\<rparr>;
               k \<leftarrow> sub (Exit_Notify p (process_list k)) k;
               case p_thread T p of
                 None \<Rightarrow> Some k
               | Some thread \<Rightarrow>
                   if p = fromprocess then Some k
                   else map_option snd (run_thread sub (thread PROCESS_EVENT_EXIT 0 (user k)) (k\<lparr>process_current := p\<rparr>)) }
             else Some k);
       k \<leftarrow> unlink p k;
       Some (k\<lparr>process_current := old_current\<rparr>) } }"

definition process_post_synch :: "'u threads \<Rightarrow> 'u ksub \<Rightarrow> ptr \<Rightarrow> u8 \<Rightarrow> ptr \<Rightarrow> 'u kernel \<Rightarrow> 'u kernel option" where
  "process_post_synch T sub p ev d k = do {
     let caller = process_current k;
     k \<leftarrow> sub (Call_Process p ev d) k;
     Some (k\<lparr>process_current := caller\<rparr>) }"

definition process_start :: "'u threads \<Rightarrow> 'u ksub \<Rightarrow> ptr \<Rightarrow> ptr \<Rightarrow> 'u kernel \<Rightarrow> 'u kernel option" where
  "process_start T sub p d k = do {
     q \<leftarrow> find_process (p_next k) p (process_list k);
     if q = p then Some k
     else sub (Post_Synch p PROCESS_EVENT_INIT d)
       (k\<lparr>p_next := (p_next k)(p := process_list k), process_list := p,
          p_state := (p_state k)(p := PROCESS_STATE_RUNNING), user := pt_init T p (user k)\<rparr>) }"

primrec kernel_run :: "'u threads \<Rightarrow> nat \<Rightarrow> 'u ksub" where
  "kernel_run T 0 = (\<lambda>op k. None)"
| "kernel_run T (Suc n) = (\<lambda>op k. case op of
     Call_Process p ev d \<Rightarrow> call_process T (kernel_run T n) p ev d k
   | Exit_Process p from_p \<Rightarrow> exit_process T (kernel_run T n) p from_p k
   | Exit_Notify p q \<Rightarrow> exit_notify T (kernel_run T n) p q k
   | Start_Process p d \<Rightarrow> process_start T (kernel_run T n) p d k
   | Post_Synch p ev d \<Rightarrow> process_post_synch T (kernel_run T n) p ev d k)"

section \<open>The scheduler\<close>

text \<open>The loop of \<open>do_poll\<close> from the process \<open>p\<close> on.\<close>

fun poll_loop :: "'u threads \<Rightarrow> nat \<Rightarrow> ptr \<Rightarrow> 'u kernel \<Rightarrow> 'u kernel option" where
  "poll_loop T 0 p k = None"
| "poll_loop T (Suc n) p k =
    (if p = 0 then Some k
     else do {
       k \<leftarrow> (if p_needspoll k p
             then kernel_run T n (Call_Process p PROCESS_EVENT_POLL 0)
               (k\<lparr>p_state := (p_state k)(p := PROCESS_STATE_RUNNING), p_needspoll := (p_needspoll k)(p := False)\<rparr>)
             else Some k);
       poll_loop T n (p_next k p) k })"

definition do_poll :: "'u threads \<Rightarrow> nat \<Rightarrow> 'u kernel \<Rightarrow> 'u kernel option" where
  "do_poll T n k = poll_loop T n (process_list k) (k\<lparr>poll_requested := False\<rparr>)"

text \<open>The delivery of a broadcast event from the process \<open>p\<close> on.\<close>

fun broadcast_loop :: "'u threads \<Rightarrow> nat \<Rightarrow> u8 \<Rightarrow> ptr \<Rightarrow> ptr \<Rightarrow> 'u kernel \<Rightarrow> 'u kernel option" where
  "broadcast_loop T 0 ev d p k = None"
| "broadcast_loop T (Suc n) ev d p k =
    (if p = 0 then Some k
     else do {
       k \<leftarrow> (if poll_requested k then do_poll T n k else Some k);
       k \<leftarrow> kernel_run T n (Call_Process p ev d) k;
       broadcast_loop T n ev d (p_next k p) k })"

definition do_event :: "'u threads \<Rightarrow> nat \<Rightarrow> 'u kernel \<Rightarrow> 'u kernel option" where
  "do_event T n k =
    (if nevents k > 0 then
       let e = events k ! unat (fevent k);
           k = k\<lparr>fevent := (fevent k + 1) mod PROCESS_CONF_NUMEVENTS, nevents := nevents k - 1\<rparr>
       in if ed_p e = PROCESS_BROADCAST then broadcast_loop T n (ed_ev e) (ed_data e) (process_list k) k
          else kernel_run T n (Call_Process (ed_p e) (ed_ev e) (ed_data e))
            (if ed_ev e = PROCESS_EVENT_INIT
             then k\<lparr>p_state := (p_state k)(ed_p e := PROCESS_STATE_RUNNING)\<rparr> else k)
     else Some k)"

definition process_run :: "'u threads \<Rightarrow> nat \<Rightarrow> 'u kernel \<Rightarrow> (nat \<times> 'u kernel) option" where
  "process_run T n k = do {
     k \<leftarrow> (if poll_requested k then do_poll T n k else Some k);
     k \<leftarrow> do_event T n k;
     Some (process_nevents k, k) }"

text \<open>The inner loop of \<open>main\<close>: \<open>do { r = process_run(); ... } while(r > 0)\<close>, for at most \<open>m\<close> rounds.\<close>

fun run_until_idle :: "'u threads \<Rightarrow> nat \<Rightarrow> nat \<Rightarrow> 'u kernel \<Rightarrow> 'u kernel option" where
  "run_until_idle T n 0 k = None"
| "run_until_idle T n (Suc m) k = do {
     (r, k) \<leftarrow> process_run T n k;
     if r > 0 then run_until_idle T n m k else Some k }"

end
