(* ===== verification/Kernel_Laws.thy ===== *)
theory Kernel_Laws
  imports Process_Kernel
begin

text \<open>
  Laws of the process kernel that hold for every program the threads may run: the list of processes
  stays a list without repetition, the queue of events keeps its bounds, and events enter it at the
  end and leave it from the front. Then the course of single events: when a program runs, and
  what the kernel makes of its end.
\<close>

section \<open>The invariant and the queue\<close>

definition kernel_ok :: "'u kernel \<Rightarrow> bool" where
  "kernel_ok k \<longleftrightarrow> (\<exists>ps. items (p_next k) (process_list k) ps) \<and> length (events k) = 32
     \<and> unat (nevents k) \<le> 32 \<and> unat (fevent k) < 32"

definition procs :: "'u kernel \<Rightarrow> ptr list" where
  "procs k = (THE ps. items (p_next k) (process_list k) ps)"

definition pending :: "'u kernel \<Rightarrow> event_data list" where
  "pending k = map (\<lambda>i. events k ! ((unat (fevent k) + i) mod 32)) [0..<unat (nevents k)]"

text \<open>The queue of \<open>k'\<close> is that of \<open>k\<close> with further events behind it.\<close>

definition grows :: "'u kernel \<Rightarrow> 'u kernel \<Rightarrow> bool" where
  "grows k k' \<longleftrightarrow> (\<exists>es. pending k' = pending k @ es)"

lemma procs_items: "items (p_next k) (process_list k) ps \<Longrightarrow> procs k = ps"
  unfolding procs_def by (rule the_equality) (auto dest: items_unique)

lemma kernel_ok_procs: "kernel_ok k \<Longrightarrow> items (p_next k) (process_list k) (procs k)"
  by (auto simp: kernel_ok_def procs_items)

lemma kernel_boot_ok: "kernel_ok (kernel_boot u)" "pending (kernel_boot u) = []" "procs (kernel_boot u) = []"
proof -
  have "items (p_next (kernel_boot u)) (process_list (kernel_boot u)) []" by (simp add: kernel_boot_def)
  then show "kernel_ok (kernel_boot u)" "procs (kernel_boot u) = []"
    by (auto simp: procs_items kernel_ok_def kernel_boot_def PROCESS_CONF_NUMEVENTS_def intro: exI [of _ "[]"])
  show "pending (kernel_boot u) = []" by (simp add: pending_def kernel_boot_def)
qed

lemma length_pending: "kernel_ok k \<Longrightarrow> length (pending k) \<le> 32" "length (pending k) = unat (nevents k)"
  by (simp_all add: kernel_ok_def pending_def)

lemma grows_refl: "grows k k"
  by (simp add: grows_def)

lemma grows_trans: "grows k1 k2 \<Longrightarrow> grows k2 k3 \<Longrightarrow> grows k1 k3"
  by (auto simp: grows_def)

lemma grows_same:
  "events k' = events k \<Longrightarrow> nevents k' = nevents k \<Longrightarrow> fevent k' = fevent k \<Longrightarrow> pending k' = pending k"
  by (simp add: pending_def)

lemma pending_fields [simp]:
  "pending (k\<lparr>user := a\<rparr>) = pending k" "pending (k\<lparr>process_current := p\<rparr>) = pending k"
  "pending (k\<lparr>p_state := f\<rparr>) = pending k" "pending (k\<lparr>p_next := g\<rparr>) = pending k"
  "pending (k\<lparr>p_needspoll := h\<rparr>) = pending k" "pending (k\<lparr>poll_requested := b\<rparr>) = pending k"
  "pending (k\<lparr>process_list := q\<rparr>) = pending k" "pending (k\<lparr>lastevent := e\<rparr>) = pending k"
  by (simp_all add: pending_def)

lemma kernel_ok_fields [simp]:
  "kernel_ok (k\<lparr>user := a\<rparr>) = kernel_ok k" "kernel_ok (k\<lparr>process_current := p\<rparr>) = kernel_ok k"
  "kernel_ok (k\<lparr>p_state := f\<rparr>) = kernel_ok k" "kernel_ok (k\<lparr>p_needspoll := h\<rparr>) = kernel_ok k"
  "kernel_ok (k\<lparr>poll_requested := b\<rparr>) = kernel_ok k" "kernel_ok (k\<lparr>lastevent := e\<rparr>) = kernel_ok k"
  by (simp_all add: kernel_ok_def)

text \<open>Posting: at the end when there is room, and otherwise not at all.\<close>

lemma process_post_ok:
  assumes "kernel_ok k"
  shows "if length (pending k) < 32
    then fst (process_post p ev d k) = PROCESS_ERR_OK \<and> kernel_ok (snd (process_post p ev d k))
      \<and> pending (snd (process_post p ev d k)) = pending k @ [\<lparr>ed_ev = ev, ed_data = d, ed_p = p\<rparr>]
    else process_post p ev d k = (PROCESS_ERR_FULL, k)"
proof -
  let ?n = "unat (nevents k)" and ?f = "unat (fevent k)" and ?e = "\<lparr>ed_ev = ev, ed_data = d, ed_p = p\<rparr>"
  from assms have n: "?n \<le> 32" and f: "?f < 32" and len: "length (events k) = 32"
    by (simp_all add: kernel_ok_def)
  have full: "nevents k = PROCESS_CONF_NUMEVENTS \<longleftrightarrow> ?n = 32"
    by (simp add: PROCESS_CONF_NUMEVENTS_def word_unat_eq_iff)
  show ?thesis
  proof (cases "?n = 32")
    case False
    with n have less: "?n < 32" by simp
    have snum: "unat ((fevent k + nevents k) mod PROCESS_CONF_NUMEVENTS) = (?f + ?n) mod 32"
      using f n by (simp add: PROCESS_CONF_NUMEVENTS_def unat_mod unat_word_ariths)
    have suc: "unat (nevents k + 1) = Suc ?n" using less by (simp add: unat_word_ariths)
    let ?k = "k\<lparr>events := (events k)[(?f + ?n) mod 32 := ?e], nevents := nevents k + 1\<rparr>"
    have post: "process_post p ev d k = (PROCESS_ERR_OK, ?k)"
      using False by (simp add: process_post_def full snum Let_def)
    have ok: "kernel_ok ?k" using assms suc less by (auto simp: kernel_ok_def)
    have old: "(events k)[(?f + ?n) mod 32 := ?e] ! ((?f + i) mod 32) = events k ! ((?f + i) mod 32)" if "i < ?n" for i
    proof (rule nth_list_update_neq)
      show "(?f + ?n) mod 32 \<noteq> (?f + i) mod 32"
      proof
        assume "(?f + ?n) mod 32 = (?f + i) mod 32"
        then have "(?n - i) mod 32 = 0" using that
          by (metis add_diff_cancel_left mod_eq_dvd_iff_nat dvd_eq_mod_eq_0 nat_add_left_cancel_le less_imp_le)
        with that less show False by simp
      qed
    qed
    have "pending ?k = pending k @ [?e]"
      using len suc by (simp add: pending_def old cong: map_cong)
    with post ok less show ?thesis by (simp add: length_pending(2))
  qed (simp add: process_post_def full length_pending(2))
qed

lemma process_post_grows: "kernel_ok k \<Longrightarrow> kernel_ok (snd (process_post p ev d k)) \<and> grows k (snd (process_post p ev d k))"
  using process_post_ok [of k p ev d] by (auto simp: grows_def split: if_splits)

lemma process_poll_grows: "kernel_ok k \<Longrightarrow> kernel_ok (process_poll p k) \<and> grows k (process_poll p k)"
  by (simp add: process_poll_def grows_def)

section \<open>The list of processes\<close>

lemma find_process_ok: "items nxt q ps \<Longrightarrow> find_process nxt p q = Some (if p \<in> set ps then p else 0)"
  by (induction ps arbitrary: q) (subst find_process.simps; auto)+

lemma unlink_loop_absent: "items nxt q ps \<Longrightarrow> p \<notin> set (tl ps) \<Longrightarrow> p \<noteq> 0 \<Longrightarrow> unlink_loop p q nxt = Some nxt"
proof (induction ps arbitrary: q)
  case (Cons x xs)
  then show ?case by (subst unlink_loop.simps) (cases xs; auto)
qed (subst unlink_loop.simps; simp)

lemma unlink_loop_present:
  "items nxt q (as @ x # p # bs) \<Longrightarrow> p \<notin> set as \<Longrightarrow> unlink_loop p q nxt = Some (nxt(x := nxt p))"
proof (induction as arbitrary: q)
  case (Cons a as)
  then have "nxt a \<noteq> p" using items_distinct [OF Cons.prems(1)] by (cases as) auto
  with Cons show ?case by (subst unlink_loop.simps) auto
qed (subst unlink_loop.simps; auto)

lemma unlink_ok:
  assumes "items (p_next k) (process_list k) ps" "p \<noteq> 0"
  shows "\<exists>k'. unlink p k = Some k' \<and> items (p_next k') (process_list k') (remove1 p ps)
    \<and> k' = k\<lparr>p_next := p_next k', process_list := process_list k'\<rparr>"
proof -
  consider "p \<notin> set ps" | bs where "ps = p # bs" | as x bs where "ps = as @ x # p # bs" "p \<notin> set (as @ [x])"
  proof -
    assume a: "p \<notin> set ps \<Longrightarrow> thesis" "\<And>bs. ps = p # bs \<Longrightarrow> thesis"
      "\<And>as x bs. ps = as @ x # p # bs \<Longrightarrow> p \<notin> set (as @ [x]) \<Longrightarrow> thesis"
    show thesis
    proof (cases "p \<in> set ps")
      case True
      then obtain cs bs where cs: "ps = cs @ p # bs" "p \<notin> set cs" by (meson split_list_first)
      show thesis
      proof (cases "cs = []")
        case False
        then obtain as x where "cs = as @ [x]" by (metis append_butlast_last_id)
        with cs a(3) show thesis by simp
      qed (use cs a(2) in simp)
    qed (use a(1) in simp)
  qed
  then show ?thesis
  proof cases
    case 1
    then have "p \<noteq> process_list k" using assms by (cases ps) auto
    moreover have "p \<notin> set (tl ps)" using 1 by (cases ps) auto
    ultimately show ?thesis
      using assms 1 unlink_loop_absent [OF assms(1)] by (simp add: unlink_def remove1_idem)
  next
    case (2 bs)
    with assms show ?thesis by (simp add: unlink_def)
  next
    case (3 as x bs)
    from assms(1) have d: "distinct ps" by (rule items_distinct)
    with 3 assms have "p \<noteq> process_list k" by (cases as) auto
    moreover have "unlink_loop p (process_list k) (p_next k) = Some ((p_next k)(x := p_next k p))"
      using unlink_loop_present [of "p_next k" "process_list k" as x p bs] assms(1) 3 by simp
    moreover have "items ((p_next k)(x := p_next k p)) (process_list k) (as @ x # bs)"
      using assms(1) d unfolding 3(1) by auto
    ultimately show ?thesis using 3 by (simp add: unlink_def remove1_append)
  qed
qed

section \<open>What every program keeps\<close>

definition keeps :: "'u kernel \<Rightarrow> 'u kernel \<Rightarrow> bool" where
  "keeps k k' \<longleftrightarrow> kernel_ok k \<longrightarrow> kernel_ok k' \<and> grows k k'"

lemma keeps_refl: "keeps k k"
  by (simp add: keeps_def grows_refl)

lemma keeps_trans: "keeps k1 k2 \<Longrightarrow> keeps k2 k3 \<Longrightarrow> keeps k1 k3"
  using grows_trans unfolding keeps_def by blast

lemma keeps_fields [simp]:
  "keeps k (k'\<lparr>user := a\<rparr>) = keeps k k'" "keeps k (k'\<lparr>process_current := p\<rparr>) = keeps k k'"
  "keeps k (k'\<lparr>p_state := f\<rparr>) = keeps k k'" "keeps k (k'\<lparr>p_needspoll := h\<rparr>) = keeps k k'"
  "keeps k (k'\<lparr>poll_requested := b\<rparr>) = keeps k k'"
  "keeps (k\<lparr>user := a\<rparr>) k' = keeps k k'" "keeps (k\<lparr>process_current := p\<rparr>) k' = keeps k k'"
  "keeps (k\<lparr>p_state := f\<rparr>) k' = keeps k k'" "keeps (k\<lparr>p_needspoll := h\<rparr>) k' = keeps k k'"
  "keeps (k\<lparr>poll_requested := b\<rparr>) k' = keeps k k'"
  by (simp_all add: keeps_def grows_def)

text \<open>An interpreter of calls that keeps the invariant; the functions of the kernel over such a one do.\<close>

definition keeping :: "'u ksub \<Rightarrow> bool" where
  "keeping sub \<longleftrightarrow> (\<forall>op k k'. sub op k = Some k' \<longrightarrow> keeps k k')"

lemma keepingD: "keeping sub \<Longrightarrow> sub op k = Some k' \<Longrightarrow> keeps k k'"
  by (auto simp: keeping_def)

lemma kernel_call_keeps:
  assumes "keeping sub" "kernel_call sub c k = Some (r, k')"
  shows "keeps k k'"
proof (cases c)
  case (Process_Post p ev d)
  with assms(2) process_post_grows [of k p ev d] show ?thesis by (auto simp: kernel_call_def keeps_def)
next
  case (Process_Poll p)
  with assms(2) process_poll_grows [of k p] show ?thesis by (auto simp: kernel_call_def keeps_def)
qed (use assms in \<open>auto simp: kernel_call_def process_alloc_event_def keeps_def grows_def dest: keepingD\<close>)

lemma run_thread_keeps:
  assumes "keeping sub"
  shows "run_thread sub prog k = Some (r, k') \<Longrightarrow> keeps k k'"
proof (induction prog arbitrary: k)
  case (Call c u f)
  then obtain r1 k1 where "kernel_call sub c (k\<lparr>user := u\<rparr>) = Some (r1, k1)"
    "run_thread sub (f r1 (user k1)) k1 = Some (r, k')" by (auto split: bind_splits)
  moreover from this(2) have "keeps k1 k'" by (intro Call.IH [of "f r1"]) auto
  ultimately show ?case using kernel_call_keeps [OF assms, of c "k\<lparr>user := u\<rparr>" r1 k1] keeps_trans [of k k1 k'] by simp
qed (auto simp: keeps_refl)

lemma call_process_keeps:
  assumes "keeping sub" "call_process T sub p ev d k = Some k'"
  shows "keeps k k'"
  using assms(2) run_thread_keeps [OF assms(1)] keepingD [OF assms(1)] keeps_trans
  by (fastforce simp: call_process_def Let_def keeps_refl split: if_splits option.splits bind_splits)

lemma exit_notify_keeps:
  assumes "keeping sub" "exit_notify T sub p q k = Some k'"
  shows "keeps k k'"
  using assms(2) keepingD [OF assms(1)] keeps_trans
  by (fastforce simp: exit_notify_def keeps_refl split: if_splits bind_splits)

lemma unlink_keeps:
  assumes "unlink p k = Some k'" "p \<noteq> 0"
  shows "keeps k k'"
  unfolding keeps_def
proof
  assume ok: "kernel_ok k"
  from unlink_ok [OF kernel_ok_procs [OF ok] assms(2)] assms(1)
  have "items (p_next k') (process_list k') (remove1 p (procs k))"
    and k': "k' = k\<lparr>p_next := p_next k', process_list := process_list k'\<rparr>" by auto
  moreover from k' have "events k' = events k" "nevents k' = nevents k" "fevent k' = fevent k"
    by (metis kernel.select_convs kernel.surjective kernel.update_convs)+
  ultimately show "kernel_ok k' \<and> grows k k'"
    using ok grows_same [of k' k] by (auto simp: kernel_ok_def grows_def)
qed

lemma exit_process_keeps:
  assumes "keeping sub" "exit_process T sub p from_p k = Some k'"
  shows "keeps k k'"
proof -
  obtain q where q: "find_process (p_next k) p (process_list k) = Some q"
    using assms(2) by (auto simp: exit_process_def Let_def split: bind_splits)
  show ?thesis
  proof (cases "q = 0")
    case True
    with q assms(2) show ?thesis by (auto simp: exit_process_def keeps_refl)
  next
    case False
    show ?thesis unfolding keeps_def
    proof
      assume "kernel_ok k"
      from find_process_ok [OF kernel_ok_procs [OF this], of p] q False have p: "p \<noteq> 0" by (auto split: if_splits)
      let ?k = "k\<lparr>p_state := (p_state k)(p := PROCESS_STATE_NONE)\<rparr>"
      have mid: "keeps k k1" if "(if process_is_running p k then do {
          let k = ?k;
          k \<leftarrow> sub (Exit_Notify p (process_list k)) k;
          case p_thread T p of None \<Rightarrow> Some k
          | Some thread \<Rightarrow> if p = from_p then Some k
            else map_option snd (run_thread sub (thread PROCESS_EVENT_EXIT 0 (user k)) (k\<lparr>process_current := p\<rparr>)) }
        else Some k) = Some k1" for k1
      proof (cases "process_is_running p k")
        case True
        with that obtain k2 where k2: "sub (Exit_Notify p (process_list ?k)) ?k = Some k2"
          and k1: "k1 = k2 \<or> (\<exists>prog r. run_thread sub prog (k2\<lparr>process_current := p\<rparr>) = Some (r, k1))"
          by (auto split: bind_splits option.splits if_splits)
        from keepingD [OF assms(1) k2] have "keeps k k2" by simp
        moreover from k1 have "keeps k2 k1"
        proof
          assume "\<exists>prog r. run_thread sub prog (k2\<lparr>process_current := p\<rparr>) = Some (r, k1)"
          then have "keeps (k2\<lparr>process_current := p\<rparr>) k1" using run_thread_keeps [OF assms(1)] by blast
          then show ?thesis by simp
        qed (simp add: keeps_refl)
        ultimately show ?thesis by (rule keeps_trans)
      qed (use that in \<open>simp add: keeps_refl\<close>)
      from assms(2) q False obtain k1 k2 where "keeps k k1" "unlink p k1 = Some k2"
        "k' = k2\<lparr>process_current := process_current k\<rparr>"
        by (auto simp: exit_process_def Let_def split: bind_splits dest!: mid)
      with unlink_keeps [OF _ p] have "keeps k k'" by (auto intro: keeps_trans)
      with \<open>kernel_ok k\<close> show "kernel_ok k' \<and> grows k k'" by (simp add: keeps_def)
    qed
  qed
qed

lemma process_post_synch_keeps:
  "keeping sub \<Longrightarrow> process_post_synch T sub p ev d k = Some k' \<Longrightarrow> keeps k k'"
  by (auto simp: process_post_synch_def Let_def split: bind_splits dest: keepingD)

lemma process_start_keeps:
  assumes "keeping sub" "process_start T sub p d k = Some k'"
  shows "keeps k k'"
  unfolding keeps_def
proof
  assume ok: "kernel_ok k"
  note procs = kernel_ok_procs [OF ok]
  let ?k = "k\<lparr>p_next := (p_next k)(p := process_list k), process_list := p,
          p_state := (p_state k)(p := PROCESS_STATE_RUNNING), user := pt_init T p (user k)\<rparr>"
  show "kernel_ok k' \<and> grows k k'"
  proof (cases "p \<in> set (procs k) \<or> p = 0")
    case True
    with assms(2) find_process_ok [OF procs, of p] ok show ?thesis
      by (auto simp: process_start_def grows_refl split: if_splits)
  next
    case False
    with assms(2) find_process_ok [OF procs, of p] have "sub (Post_Synch p PROCESS_EVENT_INIT d) ?k = Some k'"
      by (simp add: process_start_def)
    from keepingD [OF assms(1) this] have "keeps ?k k'" .
    moreover have "items (p_next ?k) (process_list ?k) (p # procs k)" using procs False by simp
    then have "\<exists>ps. items (p_next ?k) (process_list ?k) ps" by blast
    then have "kernel_ok ?k" using ok by (simp add: kernel_ok_def)
    ultimately show ?thesis by (simp add: keeps_def grows_def)
  qed
qed

lemma kernel_run_keeps: "keeping (kernel_run T n)"
proof (induction n)
  case (Suc n)
  show ?case unfolding keeping_def
  proof (intro allI impI)
    fix op k k'
    assume "kernel_run T (Suc n) op k = Some k'"
    then show "keeps k k'"
      using call_process_keeps [OF Suc] exit_process_keeps [OF Suc] exit_notify_keeps [OF Suc]
        process_start_keeps [OF Suc] process_post_synch_keeps [OF Suc]
      by (cases op) simp_all
  qed
qed (simp add: keeping_def)

lemmas run_keeps = keepingD [OF kernel_run_keeps]

lemma poll_loop_keeps: "poll_loop T n p k = Some k' \<Longrightarrow> keeps k k'"
proof (induction n arbitrary: p k)
  case (Suc n)
  show ?case
  proof (cases "p = 0")
    case False
    with Suc.prems obtain k1 where k1: "(if p_needspoll k p
        then kernel_run T n (Call_Process p PROCESS_EVENT_POLL 0)
          (k\<lparr>p_state := (p_state k)(p := PROCESS_STATE_RUNNING), p_needspoll := (p_needspoll k)(p := False)\<rparr>)
        else Some k) = Some k1" "poll_loop T n (p_next k1 p) k1 = Some k'"
      by (auto split: bind_splits)
    from k1(1) have "keeps k k1" by (auto simp: keeps_refl split: if_splits dest: run_keeps)
    with Suc.IH [OF k1(2)] show ?thesis by (blast intro: keeps_trans)
  qed (use Suc.prems in \<open>simp add: keeps_refl\<close>)
qed simp

lemma do_poll_keeps: "do_poll T n k = Some k' \<Longrightarrow> keeps k k'"
  using poll_loop_keeps [of T n "process_list k" "k\<lparr>poll_requested := False\<rparr>" k'] by (simp add: do_poll_def)

lemma broadcast_keeps: "broadcast_loop T n ev d p k = Some k' \<Longrightarrow> keeps k k'"
proof (induction n arbitrary: p k)
  case (Suc n)
  show ?case
  proof (cases "p = 0")
    case False
    with Suc.prems obtain k1 k2 where k: "(if poll_requested k then do_poll T n k else Some k) = Some k1"
      "kernel_run T n (Call_Process p ev d) k1 = Some k2" "broadcast_loop T n ev d (p_next k2 p) k2 = Some k'"
      by (auto split: bind_splits)
    from k(1) have "keeps k k1" by (auto simp: keeps_refl split: if_splits dest: do_poll_keeps)
    with run_keeps [OF k(2)] Suc.IH [OF k(3)] show ?thesis by (blast intro: keeps_trans)
  qed (use Suc.prems in \<open>simp add: keeps_refl\<close>)
qed simp

text \<open>One event leaves the queue at its front.\<close>

lemma take_event:
  fixes k :: "'u kernel"
  defines "k1 \<equiv> k\<lparr>fevent := (fevent k + 1) mod PROCESS_CONF_NUMEVENTS, nevents := nevents k - 1\<rparr>"
  assumes "kernel_ok k" "pending k = e # es"
  shows "kernel_ok k1" "pending k1 = es" "events k ! unat (fevent k) = e" "nevents k > 0"
proof -
  let ?n = "unat (nevents k)" and ?f = "unat (fevent k)"
  from assms(2) have f: "?f < 32" and n: "?n \<le> 32" by (simp_all add: kernel_ok_def)
  have len: "?n = Suc (length es)" using length_pending(2) [of k] assms(3) by simp
  then show pos: "nevents k > 0" by (auto simp: word_greater_zero_iff)
  have fst: "unat ((fevent k + 1) mod PROCESS_CONF_NUMEVENTS) = (?f + 1) mod 32"
    using f by (simp add: PROCESS_CONF_NUMEVENTS_def unat_mod unat_word_ariths)
  have less: "unat (nevents k - 1) = length es" using pos len by (simp add: unat_minus_one word_greater_zero_iff)
  show "kernel_ok k1" using assms(2) fst less len n by (auto simp: k1_def kernel_ok_def)
  have all: "pending k ! i = events k ! ((?f + i) mod 32)" if "i < ?n" for i
    using that by (simp add: pending_def)
  from all [of 0] assms(3) len f show "events k ! unat (fevent k) = e" by simp
  show "pending k1 = es"
  proof (rule nth_equalityI)
    show "length (pending k1) = length es" by (simp add: pending_def k1_def less)
    fix i
    assume "i < length (pending k1)"
    then have i: "i < length es" by (simp add: pending_def k1_def less)
    then have "pending k1 ! i = events k ! (((?f + 1) mod 32 + i) mod 32)"
      by (simp add: pending_def k1_def less fst)
    also have "\<dots> = pending k ! Suc i" using all [of "Suc i"] i len by (simp add: mod_simps)
    finally show "pending k1 ! i = es ! i" using assms(3) by simp
  qed
qed

lemma no_event: "kernel_ok k \<Longrightarrow> pending k = [] \<Longrightarrow> do_event T n k = Some k"
  using length_pending(2) [of k] by (simp add: do_event_def word_greater_zero_iff unat_gt_0 [symmetric])

lemma do_event_queue:
  assumes "kernel_ok k" "do_event T n k = Some k'"
  shows "kernel_ok k' \<and> (\<exists>es. pending k' = tl (pending k) @ es)"
proof (cases "pending k")
  case Nil
  with no_event [OF assms(1) Nil, of T n] assms show ?thesis by simp
next
  case (Cons e es)
  let ?k = "k\<lparr>fevent := (fevent k + 1) mod PROCESS_CONF_NUMEVENTS, nevents := nevents k - 1\<rparr>"
  note t = take_event [OF assms(1) Cons]
  have "keeps ?k k'"
    using assms(2) t(4) by (auto simp: do_event_def Let_def split: if_splits dest!: broadcast_keeps run_keeps)
  with t(1,2) Cons show ?thesis by (auto simp: keeps_def grows_def)
qed

text \<open>A pass of the scheduler: what the polled processes post comes behind the events that wait, then one event leaves.\<close>

lemma process_run_queue:
  assumes "kernel_ok k" "process_run T n k = Some (r, k')"
  shows "kernel_ok k' \<and> r = process_nevents k' \<and> (\<exists>es es'. pending k' = tl (pending k @ es) @ es')"
proof -
  from assms(2) obtain k1 where k1: "(if poll_requested k then do_poll T n k else Some k) = Some k1"
    and k': "do_event T n k1 = Some k'" "r = process_nevents k'"
    by (auto simp: process_run_def split: bind_splits)
  from k1 have "keeps k k1" by (auto simp: keeps_refl split: if_splits dest: do_poll_keeps)
  with assms(1) obtain es where "kernel_ok k1" "pending k1 = pending k @ es" by (auto simp: keeps_def grows_def)
  with do_event_queue [OF _ k'(1)] k'(2) show ?thesis by metis
qed

section \<open>The course of an event\<close>

text \<open>How a call of a process ends: a thread that has ended is taken out, another one goes on to run.\<close>

definition after_call :: "'u ksub \<Rightarrow> ptr \<Rightarrow> u8 \<Rightarrow> nat \<Rightarrow> 'u kernel \<Rightarrow> 'u kernel option" where
  "after_call sub p ev ret k =
    (if ret = PT_EXITED \<or> ret = PT_ENDED \<or> ev = PROCESS_EVENT_EXIT then sub (Exit_Process p p) k
     else Some (k\<lparr>p_state := (p_state k)(p := PROCESS_STATE_RUNNING)\<rparr>))"

lemma call_running:
  assumes "p \<noteq> 0" "p_state k p = PROCESS_STATE_RUNNING" "p_thread T p = Some th"
  shows "kernel_run T (Suc n) (Call_Process p ev d) k =
    Option.bind (run_thread (kernel_run T n) (th ev d (user k))
      (k\<lparr>process_current := p, p_state := (p_state k)(p := PROCESS_STATE_CALLED)\<rparr>))
      (\<lambda>(ret, k). after_call (kernel_run T n) p ev ret k)"
  using assms by (simp add: call_process_def after_call_def process_states)

text \<open>The event at the front goes to the thread of its receiver, which runs with all before it done.\<close>

lemma do_event_delivers:
  assumes "kernel_ok k" "pending k = \<lparr>ed_ev = ev, ed_data = d, ed_p = p\<rparr> # es"
    "p \<noteq> 0" "p_state k p = PROCESS_STATE_RUNNING" "p_thread T p = Some th"
  shows "\<exists>k1. do_event T (Suc n) k = Option.bind (run_thread (kernel_run T n) (th ev d (user k)) k1)
      (\<lambda>(ret, k). after_call (kernel_run T n) p ev ret k)
    \<and> kernel_ok k1 \<and> pending k1 = es \<and> process_current k1 = p \<and> user k1 = user k
    \<and> process_list k1 = process_list k \<and> p_next k1 = p_next k \<and> p_state k1 = (p_state k)(p := PROCESS_STATE_CALLED)
    \<and> poll_requested k1 = poll_requested k"
proof -
  let ?k = "k\<lparr>fevent := (fevent k + 1) mod PROCESS_CONF_NUMEVENTS, nevents := nevents k - 1\<rparr>"
  note t = take_event [OF assms(1,2)]
  have "(p_state k)(p := PROCESS_STATE_RUNNING) = p_state k" using assms(4) by (simp add: fun_upd_idem)
  moreover have "?k\<lparr>p_state := p_state k\<rparr> = ?k" by (rule kernel.equality) simp_all
  ultimately have "do_event T (Suc n) k = kernel_run T (Suc n) (Call_Process p ev d) ?k"
    using t(3,4) assms(3) by (simp add: do_event_def Let_def PROCESS_BROADCAST_def del: kernel_run.simps)
  also have "\<dots> = Option.bind (run_thread (kernel_run T n) (th ev d (user k))
      (?k\<lparr>process_current := p, p_state := (p_state k)(p := PROCESS_STATE_CALLED)\<rparr>))
      (\<lambda>(ret, k). after_call (kernel_run T n) p ev ret k)"
    using call_running [of p ?k T th n ev d] assms(3-5) by simp
  finally show ?thesis using t(1,2)
    by (intro exI [of _ "?k\<lparr>process_current := p, p_state := (p_state k)(p := PROCESS_STATE_CALLED)\<rparr>"]) simp
qed

text \<open>An event for a process that does not run is dropped.\<close>

lemma do_event_drops:
  assumes "kernel_ok k" "pending k = \<lparr>ed_ev = ev, ed_data = d, ed_p = p\<rparr> # es"
    "p \<noteq> 0" "p_state k p = PROCESS_STATE_NONE" "ev \<noteq> PROCESS_EVENT_INIT"
  shows "\<exists>k'. do_event T (Suc n) k = Some k' \<and> pending k' = es \<and> user k' = user k
    \<and> poll_requested k' = poll_requested k"
  using take_event [OF assms(1,2)] assms(3-5)
  by (auto simp: do_event_def Let_def PROCESS_BROADCAST_def call_process_def process_states split: option.splits)

text \<open>A pass over processes of which only \<open>p\<close> is to be polled runs only that.\<close>

lemma poll_loop_none:
  "items (p_next k) q ps \<Longrightarrow> \<forall>x\<in>set ps. \<not> p_needspoll k x \<Longrightarrow> length ps < n \<Longrightarrow> poll_loop T n q k = Some k"
proof (induction ps arbitrary: q n)
  case (Cons x xs)
  then show ?case by (cases n) auto
qed (auto simp: gr0_conv_Suc)

lemma poll_loop_one:
  assumes "items (p_next k) q (as @ p # bs)" "\<forall>x\<in>set (as @ bs). \<not> p_needspoll k x" "p_needspoll k p"
    "length as + m = n" "length bs < m"
    "kernel_run T m (Call_Process p PROCESS_EVENT_POLL 0)
      (k\<lparr>p_state := (p_state k)(p := PROCESS_STATE_RUNNING), p_needspoll := (p_needspoll k)(p := False)\<rparr>) = Some k'"
    "p_next k' = p_next k" "\<forall>x. x \<noteq> p \<longrightarrow> p_needspoll k' x = p_needspoll k x"
  shows "poll_loop T (Suc n) q k = Some k'"
  using assms(1,2,4)
proof (induction as arbitrary: q n)
  case Nil
  then have "items (p_next k') (p_next k p) bs" "\<forall>x\<in>set bs. \<not> p_needspoll k' x"
    using items_distinct [OF Nil(1)] assms(7,8) by auto
  from poll_loop_none [OF this assms(5)] Nil assms(3,6,7) show ?case by simp
next
  case (Cons a as)
  then have "poll_loop T n (p_next k a) k = Some k'" by (cases n) auto
  with Cons.prems show ?case by simp
qed

end
