(* ===== verification/Event_Timer.thy ===== *)
theory Event_Timer
  imports Kernel_Laws
begin

text \<open>
  The clock and the timers: \<open>clock_time\<close> of \<open>cpu/cc26xx-cc13xx/clock.c\<close> with the real-time clock it
  reads, the passive timers of \<open>core/sys/timer.c\<close> and the event timers of \<open>core/sys/etimer.c\<close>. The
  structures of the timers are maps over their addresses. Functions that call the kernel are programs
  of \<open>Process_Kernel\<close> that go on with a continuation. The results of the calls of \<open>clock_time\<close>, in the
  order of the calls, are a parameter \<open>clk\<close>, so that the clock may move on between two of them.
\<close>

section \<open>clock.c\<close>

text \<open>
  The always-on clock counts in a register of seconds and one of fractions. It is a sequence of
  64-bit values, one for each access to a register. The loop repeats until the seconds stayed as they
  were; it gives the count and the number of the next access.
\<close>

definition rtc_seconds :: "64 word \<Rightarrow> u32" where
  "rtc_seconds c = ucast (drop_bit 32 c)"

definition rtc_subseconds :: "64 word \<Rightarrow> u32" where
  "rtc_subseconds c = ucast c"

definition CLOCK_CONF_SECOND :: u32 where "CLOCK_CONF_SECOND = 128"

partial_function (option) update_clock_variable :: "(nat \<Rightarrow> 64 word) \<Rightarrow> nat \<Rightarrow> (64 word \<times> nat) option" where
  "update_clock_variable aon i =
    (let aon_rtc_secs_now = rtc_seconds (aon i);
         aon_rtc_ticks_now = ucast (drop_bit 16 (rtc_subseconds (aon (i + 1)))) :: u16;
         aon_rtc_secs_now2 = rtc_seconds (aon (i + 2))
     in if aon_rtc_secs_now \<noteq> aon_rtc_secs_now2 then update_clock_variable aon (i + 3)
        else Some (ucast (aon_rtc_secs_now * CLOCK_CONF_SECOND + ucast (drop_bit 9 aon_rtc_ticks_now)), i + 3))"

definition clock_time :: "(nat \<Rightarrow> 64 word) \<Rightarrow> nat \<Rightarrow> (u32 \<times> nat) option" where
  "clock_time aon i = map_option (\<lambda>(count, i). (ucast (count AND 0xFFFFFFFF), i)) (update_clock_variable aon i)"

section \<open>timer.c\<close>

text \<open>The timers, the list of the event timers, and how often the clock was read.\<close>

type_synonym clock = "nat \<Rightarrow> u32"

record timers =
  tm_start :: "ptr \<Rightarrow> u32"
  tm_interval :: "ptr \<Rightarrow> u32"
  et_next :: heap
  et_p :: "ptr \<Rightarrow> ptr"
  timerlist :: ptr
  next_expiration :: u32
  et_started :: bool          \<comment> \<open>whether \<open>etimer_process\<close> has passed its first \<open>PROCESS_YIELD\<close>\<close>
  clock_reads :: nat

definition read_clock :: "clock \<Rightarrow> 'a timers_scheme \<Rightarrow> u32 \<times> 'a timers_scheme" where
  "read_clock clk s = (clk (clock_reads s), s\<lparr>clock_reads := clock_reads s + 1\<rparr>)"

definition timer_set :: "clock \<Rightarrow> ptr \<Rightarrow> u32 \<Rightarrow> 'a timers_scheme \<Rightarrow> 'a timers_scheme" where
  "timer_set clk t interval s =
    (let s = s\<lparr>tm_interval := (tm_interval s)(t := interval)\<rparr>;
         (now, s) = read_clock clk s
     in s\<lparr>tm_start := (tm_start s)(t := now)\<rparr>)"

definition timer_reset :: "ptr \<Rightarrow> 'a timers_scheme \<Rightarrow> 'a timers_scheme" where
  "timer_reset t s = s\<lparr>tm_start := (tm_start s)(t := tm_start s t + tm_interval s t)\<rparr>"

definition timer_restart :: "clock \<Rightarrow> ptr \<Rightarrow> 'a timers_scheme \<Rightarrow> 'a timers_scheme" where
  "timer_restart clk t s = (let (now, s) = read_clock clk s in s\<lparr>tm_start := (tm_start s)(t := now)\<rparr>)"

text \<open>Whether the timer has run out at the time \<open>now\<close>.\<close>

definition expired_at :: "'a timers_scheme \<Rightarrow> ptr \<Rightarrow> u32 \<Rightarrow> bool" where
  "expired_at s t now \<longleftrightarrow> tm_interval s t < now - tm_start s t + 1"

definition timer_expired :: "clock \<Rightarrow> ptr \<Rightarrow> 'a timers_scheme \<Rightarrow> bool \<times> 'a timers_scheme" where
  "timer_expired clk t s = (let (now, s) = read_clock clk s in (expired_at s t now, s))"

definition timer_remaining :: "clock \<Rightarrow> ptr \<Rightarrow> 'a timers_scheme \<Rightarrow> u32 \<times> 'a timers_scheme" where
  "timer_remaining clk t s = (let (now, s) = read_clock clk s in (tm_start s t + tm_interval s t - now, s))"

section \<open>etimer.c\<close>

definition etimer_expiration_time :: "'a timers_scheme \<Rightarrow> ptr \<Rightarrow> u32" where
  "etimer_expiration_time s et = tm_start s et + tm_interval s et"

definition etimer_start_time :: "'a timers_scheme \<Rightarrow> ptr \<Rightarrow> u32" where
  "etimer_start_time s et = tm_start s et"

definition etimer_expired :: "'a timers_scheme \<Rightarrow> ptr \<Rightarrow> bool" where
  "etimer_expired s et \<longleftrightarrow> et_p s et = 0"

definition etimer_pending :: "'a timers_scheme \<Rightarrow> bool" where
  "etimer_pending s \<longleftrightarrow> timerlist s \<noteq> 0"

definition etimer_next_expiration_time :: "'a timers_scheme \<Rightarrow> u32" where
  "etimer_next_expiration_time s = (if etimer_pending s then next_expiration s else 0)"

text \<open>The loop of \<open>update_time\<close> for the smallest distance from \<open>now\<close>.\<close>

partial_function (option) min_distance :: "'a timers_scheme \<Rightarrow> u32 \<Rightarrow> ptr \<Rightarrow> u32 \<Rightarrow> u32 option" where
  "min_distance s now t tdist =
    (if t = 0 then Some tdist
     else min_distance s now (et_next s t)
       (if etimer_expiration_time s t - now < tdist then etimer_expiration_time s t - now else tdist))"

definition update_time :: "clock \<Rightarrow> 'a timers_scheme \<Rightarrow> 'a timers_scheme option" where
  "update_time clk s =
    (if timerlist s = 0 then Some (s\<lparr>next_expiration := 0\<rparr>)
     else do {
       let (now, s) = read_clock clk s;
       let t = timerlist s;
       tdist \<leftarrow> min_distance s now (et_next s t) (etimer_expiration_time s t - now);
       Some (s\<lparr>next_expiration := now + tdist\<rparr>) })"

text \<open>What a program does with a value that a loop of its own may not give.\<close>

definition continue :: "'a option \<Rightarrow> ('a \<Rightarrow> 'u prog) \<Rightarrow> 'u prog" where
  "continue x f = (case x of None \<Rightarrow> Stuck | Some y \<Rightarrow> f y)"

definition etimer_request_poll :: "ptr \<Rightarrow> ('u \<Rightarrow> 'u prog) \<Rightarrow> 'u \<Rightarrow> 'u prog" where
  "etimer_request_poll ep c s = Call (Process_Poll ep) s (\<lambda>_ s. c s)"

text \<open>Whether the timer is on the list from \<open>t\<close> on.\<close>

partial_function (option) on_timerlist :: "heap \<Rightarrow> ptr \<Rightarrow> ptr \<Rightarrow> bool option" where
  "on_timerlist nxt timer t = (if t = 0 then Some False else if t = timer then Some True else on_timerlist nxt timer (nxt t))"

definition add_timer :: "clock \<Rightarrow> ptr \<Rightarrow> ptr \<Rightarrow> ('a timers_scheme \<Rightarrow> 'a timers_scheme prog) \<Rightarrow> 'a timers_scheme \<Rightarrow> 'a timers_scheme prog" where
  "add_timer clk ep timer c = etimer_request_poll ep (\<lambda>s.
     continue (if et_p s timer \<noteq> 0 then on_timerlist (et_next s) timer (timerlist s) else Some False) (\<lambda>found.
     Call Process_Current s (\<lambda>cur s.
       let s = s\<lparr>et_p := (et_p s)(timer := cur)\<rparr>;
           s = (if found then s else s\<lparr>et_next := (et_next s)(timer := timerlist s), timerlist := timer\<rparr>)
       in continue (update_time clk s) c)))"

definition etimer_set :: "clock \<Rightarrow> ptr \<Rightarrow> ptr \<Rightarrow> u32 \<Rightarrow> ('a timers_scheme \<Rightarrow> 'a timers_scheme prog) \<Rightarrow> 'a timers_scheme \<Rightarrow> 'a timers_scheme prog" where
  "etimer_set clk ep et interval c s = add_timer clk ep et c (timer_set clk et interval s)"

definition etimer_reset_with_new_interval :: "clock \<Rightarrow> ptr \<Rightarrow> ptr \<Rightarrow> u32 \<Rightarrow> ('a timers_scheme \<Rightarrow> 'a timers_scheme prog) \<Rightarrow> 'a timers_scheme \<Rightarrow> 'a timers_scheme prog" where
  "etimer_reset_with_new_interval clk ep et interval c s =
    (let s = timer_reset et s;
         s = s\<lparr>tm_interval := (tm_interval s)(et := interval)\<rparr>
     in add_timer clk ep et c s)"

definition etimer_reset :: "clock \<Rightarrow> ptr \<Rightarrow> ptr \<Rightarrow> ('a timers_scheme \<Rightarrow> 'a timers_scheme prog) \<Rightarrow> 'a timers_scheme \<Rightarrow> 'a timers_scheme prog" where
  "etimer_reset clk ep et c s = add_timer clk ep et c (timer_reset et s)"

definition etimer_restart :: "clock \<Rightarrow> ptr \<Rightarrow> ptr \<Rightarrow> ('a timers_scheme \<Rightarrow> 'a timers_scheme prog) \<Rightarrow> 'a timers_scheme \<Rightarrow> 'a timers_scheme prog" where
  "etimer_restart clk ep et c s = add_timer clk ep et c (timer_restart clk et s)"

definition etimer_adjust :: "clock \<Rightarrow> ptr \<Rightarrow> 32 word \<Rightarrow> 'a timers_scheme \<Rightarrow> 'a timers_scheme option" where
  "etimer_adjust clk et timediff s = update_time clk (s\<lparr>tm_start := (tm_start s)(et := tm_start s et + timediff)\<rparr>)"

text \<open>\<open>for(t = timerlist; t != NULL && t->next != et; t = t->next);\<close>\<close>

partial_function (option) find_before :: "heap \<Rightarrow> ptr \<Rightarrow> ptr \<Rightarrow> ptr option" where
  "find_before nxt et t = (if t \<noteq> 0 \<and> nxt t \<noteq> et then find_before nxt et (nxt t) else Some t)"

text \<open>An access through \<open>NULL\<close> is undefined.\<close>

definition etimer_stop :: "clock \<Rightarrow> ptr \<Rightarrow> 'a timers_scheme \<Rightarrow> 'a timers_scheme option" where
  "etimer_stop clk et s =
    (if et = 0 then None
     else do {
       s \<leftarrow> (if et = timerlist s then update_time clk (s\<lparr>timerlist := et_next s (timerlist s)\<rparr>)
             else do {
               t \<leftarrow> find_before (et_next s) et (timerlist s);
               if t \<noteq> 0 then update_time clk (s\<lparr>et_next := (et_next s)(t := et_next s et)\<rparr>) else Some s });
       Some (s\<lparr>et_next := (et_next s)(et := 0), et_p := (et_p s)(et := 0)\<rparr>) })"

text \<open>The timers of a process that has ended are taken from the list: first from its front, then the others.\<close>

partial_function (option) drop_front :: "heap \<Rightarrow> (ptr \<Rightarrow> ptr) \<Rightarrow> ptr \<Rightarrow> ptr \<Rightarrow> ptr option" where
  "drop_front nxt pr p t = (if t \<noteq> 0 \<and> pr t = p then drop_front nxt pr p (nxt t) else Some t)"

partial_function (option) drop_rest :: "heap \<Rightarrow> (ptr \<Rightarrow> ptr) \<Rightarrow> ptr \<Rightarrow> ptr \<Rightarrow> heap option" where
  "drop_rest nxt pr p t =
    (if nxt t = 0 then Some nxt
     else if pr (nxt t) = p then drop_rest (nxt(t := nxt (nxt t))) pr p t
     else drop_rest nxt pr p (nxt t))"

definition drop_process :: "ptr \<Rightarrow> 'a timers_scheme \<Rightarrow> 'a timers_scheme option" where
  "drop_process p s = do {
     l \<leftarrow> drop_front (et_next s) (et_p s) p (timerlist s);
     let s = s\<lparr>timerlist := l\<rparr>;
     if l \<noteq> 0 then map_option (\<lambda>nxt. s\<lparr>et_next := nxt\<rparr>) (drop_rest (et_next s) (et_p s) p l)
     else Some s }"

text \<open>A timer whose event was posted is marked as expired and leaves the list; \<open>u\<close> is the timer before it, if any.\<close>

definition take_timer :: "ptr \<Rightarrow> ptr \<Rightarrow> 'a timers_scheme \<Rightarrow> 'a timers_scheme" where
  "take_timer u t s =
    (let s = s\<lparr>et_p := (et_p s)(t := 0)\<rparr>;
         s = (if u \<noteq> 0 then s\<lparr>et_next := (et_next s)(u := et_next s t)\<rparr> else s\<lparr>timerlist := et_next s t\<rparr>)
     in s\<lparr>et_next := (et_next s)(t := 0)\<rparr>)"

text \<open>
  The loop from \<open>again\<close> on, at the timer \<open>t\<close> with \<open>u\<close> before it. The fuel bounds its rounds.
\<close>

fun etimer_scan :: "clock \<Rightarrow> ptr \<Rightarrow> nat \<Rightarrow> ptr \<Rightarrow> ptr \<Rightarrow> ('a timers_scheme \<Rightarrow> 'a timers_scheme prog) \<Rightarrow> 'a timers_scheme \<Rightarrow> 'a timers_scheme prog" where
  "etimer_scan clk ep 0 u t c s = Stuck"
| "etimer_scan clk ep (Suc n) u t c s =
    (if t = 0 then c s
     else let (expired, s) = timer_expired clk t s
       in if expired
          then Call (Process_Post (et_p s t) PROCESS_EVENT_TIMER t) s (\<lambda>r s.
            if r = PROCESS_ERR_OK
            then continue (update_time clk (take_timer u t s)) (\<lambda>s. etimer_scan clk ep n 0 (timerlist s) c s)
            else etimer_request_poll ep (\<lambda>s. etimer_scan clk ep n t (et_next s t) c s) s)
          else etimer_scan clk ep n t (et_next s t) c s)"

definition etimer_process :: "clock \<Rightarrow> ptr \<Rightarrow> nat \<Rightarrow> u8 \<Rightarrow> ptr \<Rightarrow> 'a timers_scheme \<Rightarrow> 'a timers_scheme prog" where
  "etimer_process clk ep n ev d s =
    (if \<not> et_started s then Ret PT_YIELDED (s\<lparr>timerlist := 0, et_started := True\<rparr>)
     else if ev = PROCESS_EVENT_EXITED then continue (drop_process d s) (Ret PT_YIELDED)
     else if ev \<noteq> PROCESS_EVENT_POLL then Ret PT_YIELDED s
     else etimer_scan clk ep n 0 (timerlist s) (Ret PT_YIELDED) s)"

text \<open>\<open>clock_update\<close> of \<open>clock.c\<close>, called by the interrupt of the clock.\<close>

definition clock_update :: "ptr \<Rightarrow> ('a timers_scheme) kernel \<Rightarrow> 'a timers_scheme kernel" where
  "clock_update ep k = (if etimer_pending (user k) then process_poll ep k else k)"

end
