(* ===== verification/Timer_Laws.thy ===== *)
theory Timer_Laws
  imports Event_Timer
begin

text \<open>
  Laws of the clock and the timers: a reading of the clock is a time the clock had while it was
  read, a passive timer has expired when its interval has passed, and the process of the event
  timers posts each expired timer once, to the process that set it, as long as the queue of the kernel
  has room, and asks to be polled again when it has none.
\<close>

section \<open>Reading the clock\<close>

text \<open>The time in ticks of 1/128 s of a value of the real-time clock.\<close>

definition ticks :: "64 word \<Rightarrow> u32" where
  "ticks c = ucast (drop_bit 25 c)"

lemma unat_rtc:
  "unat (rtc_seconds c) = unat c div 2 ^ 32"
  "unat (drop_bit 9 (ucast (drop_bit 16 (rtc_subseconds c)) :: u16)) = unat c mod 2 ^ 32 div 2 ^ 25"
proof -
  have "unat c div 2 ^ 32 < 2 ^ 32" using unsigned_less [of c] by (simp add: div_less_iff_less_mult)
  then show "unat (rtc_seconds c) = unat c div 2 ^ 32"
    by (simp add: rtc_seconds_def unsigned_ucast_eq unsigned_drop_bit_eq take_bit_eq_mod drop_bit_eq_div [where ?'a = nat])
  have "unat c mod 2 ^ 32 div 2 ^ 16 < 2 ^ 16" by (simp add: div_less_iff_less_mult)
  then show "unat (drop_bit 9 (ucast (drop_bit 16 (rtc_subseconds c)) :: u16)) = unat c mod 2 ^ 32 div 2 ^ 25"
    by (simp add: rtc_subseconds_def unsigned_ucast_eq unsigned_drop_bit_eq take_bit_eq_mod drop_bit_eq_div [where ?'a = nat]
        flip: div_mult2_eq)
qed

lemma rtc_ticks:
  "rtc_seconds c * CLOCK_CONF_SECOND + ucast (drop_bit 9 (ucast (drop_bit 16 (rtc_subseconds c)) :: u16)) = ticks c"
proof -
  let ?n = "unat c" and ?w = "drop_bit 9 (ucast (drop_bit 16 (rtc_subseconds c)) :: u16)"
  have "?n = ?n div 2 ^ 32 * 2 ^ 7 * 2 ^ 25 + ?n mod 2 ^ 32" by simp
  then have "?n div 2 ^ 25 = (?n div 2 ^ 32 * 2 ^ 7 * 2 ^ 25 + ?n mod 2 ^ 32) div 2 ^ 25" by presburger
  also have "\<dots> = ?n div 2 ^ 32 * 2 ^ 7 + ?n mod 2 ^ 32 div 2 ^ 25" by (rule div_mult_self3) simp
  finally have sum: "?n div 2 ^ 32 * 128 + ?n mod 2 ^ 32 div 2 ^ 25 = ?n div 2 ^ 25" by simp
  have "unat (ucast ?w :: u32) = unat ?w" 
    by (simp add: unsigned_ucast_eq take_bit_nat_eq_self order_less_trans [OF unsigned_less])
  then have "unat (ucast ?w :: u32) = ?n mod 2 ^ 32 div 2 ^ 25" by (simp only: unat_rtc(2))
  then have "unat (rtc_seconds c * CLOCK_CONF_SECOND + ucast ?w) = (?n div 2 ^ 32 * 128 + ?n mod 2 ^ 32 div 2 ^ 25) mod 2 ^ 32"
    by (simp add: unat_word_ariths unat_rtc(1) CLOCK_CONF_SECOND_def mod_simps)
  also have "\<dots> = unat (ticks c)" unfolding sum using unsigned_less [of c, where ?'a = nat]
    by (simp add: ticks_def unsigned_ucast_eq unsigned_drop_bit_eq take_bit_eq_mod drop_bit_eq_div [where ?'a = nat])
  finally show ?thesis by (simp add: word_unat_eq_iff)
qed

text \<open>A reading of the clock is made of two accesses, between which the seconds did not change.\<close>

lemma low_word: "ucast (ucast (x :: u32) AND 0xFFFFFFFF :: 64 word) = x"
proof -
  have "(0xFFFFFFFF :: 64 word) = mask 32" by (simp add: mask_numeral)
  show ?thesis unfolding \<open>0xFFFFFFFF = mask 32\<close> by (rule bit_word_eqI) (simp add: bit_simps)
qed

definition sampled :: "(nat \<Rightarrow> 64 word) \<Rightarrow> nat \<Rightarrow> nat \<Rightarrow> 64 word \<Rightarrow> bool" where
  "sampled aon i i' count \<longleftrightarrow> (\<exists>j. i \<le> j \<and> j + 2 < i' \<and> rtc_seconds (aon j) = rtc_seconds (aon (j + 2))
    \<and> count = ucast (rtc_seconds (aon j) * CLOCK_CONF_SECOND + ucast (drop_bit 9 (ucast (drop_bit 16 (rtc_subseconds (aon (j + 1)))) :: u16))))"

lemma sampled_earlier: "sampled aon (i + 3) i' count \<Longrightarrow> sampled aon i i' count"
  unfolding sampled_def by (elim exE conjE, intro exI conjI, erule add_leD1)

lemma update_clock_sampled:
  assumes "update_clock_variable aon i = Some (count, i')"
  shows "sampled aon i i' count"
proof -
  have "case (count, i') of (count, i') \<Rightarrow> sampled aon i i' count"
  proof (rule update_clock_variable.raw_induct [where P = "\<lambda>aon i r. case r of (count, i') \<Rightarrow> sampled aon i i' count", OF _ assms])
    fix f aon i r
    assume IH: "\<And>aon i r. f aon i = Some r \<Longrightarrow> case r of (count, i') \<Rightarrow> sampled aon i i' count"
      and eq: "(let aon_rtc_secs_now = rtc_seconds (aon i);
         aon_rtc_ticks_now = ucast (drop_bit 16 (rtc_subseconds (aon (i + 1)))) :: u16;
         aon_rtc_secs_now2 = rtc_seconds (aon (i + 2))
     in if aon_rtc_secs_now \<noteq> aon_rtc_secs_now2 then f aon (i + 3)
        else Some (ucast (aon_rtc_secs_now * CLOCK_CONF_SECOND + ucast (drop_bit 9 aon_rtc_ticks_now)), i + 3)) = Some r"
    show "case r of (count, i') \<Rightarrow> sampled aon i i' count"
    proof (cases "rtc_seconds (aon i) = rtc_seconds (aon (i + 2))")
      case True
      with eq show ?thesis by (auto simp: sampled_def Let_def)
    next
      case False
      with eq have "f aon (i + 3) = Some r" by (simp add: Let_def)
      from IH [OF this] show ?thesis by (auto intro: sampled_earlier)
    qed
  qed
  then show ?thesis by simp
qed

text \<open>When the clock does not run backwards, the result is its time at one of the accesses.\<close>

lemma clock_time_ok:
  assumes "clock_time aon i = Some (now, i')" "\<And>j. unat (aon j) \<le> unat (aon (j + 1))"
  shows "\<exists>j. i < j \<and> j < i' \<and> now = ticks (aon j)"
proof -
  obtain count where c: "update_clock_variable aon i = Some (count, i')" "now = ucast (count AND 0xFFFFFFFF)"
    using assms(1) by (auto simp: clock_time_def)
  from update_clock_sampled [OF c(1)] obtain j where j: "i \<le> j" "j + 2 < i'"
    and same: "rtc_seconds (aon j) = rtc_seconds (aon (j + 2))"
    and count: "count = ucast (rtc_seconds (aon j) * CLOCK_CONF_SECOND + ucast (drop_bit 9 (ucast (drop_bit 16 (rtc_subseconds (aon (j + 1)))) :: u16)))"
    unfolding sampled_def by blast
  have "unat (aon j) div 2 ^ 32 \<le> unat (aon (j + 1)) div 2 ^ 32" "unat (aon (j + 1)) div 2 ^ 32 \<le> unat (aon (j + 1 + 1)) div 2 ^ 32"
    using assms(2) by (intro div_le_mono; blast)+
  with same have "rtc_seconds (aon j) = rtc_seconds (aon (j + 1))" by (simp add: word_unat_eq_iff unat_rtc(1))
  with count c(2) rtc_ticks [of "aon (j + 1)"] have "now = ticks (aon (j + 1))" by (simp add: low_word)
  with j show ?thesis by (intro exI [of _ "j + 1"]) simp
qed

text \<open>The loop ends as soon as the seconds stay as they are during one of its rounds.\<close>

lemma clock_time_returns:
  assumes "rtc_seconds (aon (i + 3 * m)) = rtc_seconds (aon (i + 3 * m + 2))"
  shows "\<exists>now i'. clock_time aon i = Some (now, i') \<and> i' \<le> i + 3 * m + 3"
proof -
  have "\<exists>count i'. update_clock_variable aon i = Some (count, i') \<and> i' \<le> i + 3 * m + 3" using assms
  proof (induction m arbitrary: i)
    case (Suc m)
    have "i + 3 + 3 * m = i + 3 * Suc m" by simp
    with Suc have "\<exists>count i'. update_clock_variable aon (i + 3) = Some (count, i') \<and> i' \<le> i + 3 + 3 * m + 3" by metis
    then show ?case by (subst update_clock_variable.simps) (auto simp: Let_def)
  qed (subst update_clock_variable.simps; simp add: Let_def)
  then show ?thesis by (auto simp: clock_time_def)
qed

section \<open>Passive timers\<close>

text \<open>
  A timer has expired when its interval has passed since its start, whatever wraps around; one tick
  before the clock has gone round, the sum of \<open>timer_expired\<close> wraps around and no timer has.
\<close>

lemma expired_at_iff:
  "expired_at s t now \<longleftrightarrow> now - tm_start s t \<noteq> - 1 \<and> tm_interval s t \<le> now - tm_start s t"
proof -
  have "(a < d + 1) = (d \<noteq> - 1 \<and> a \<le> d)" for a d :: u32
  proof (cases "d = - 1")
    case False
    then have "1 + d \<noteq> 0" by (metis add.commute eq_neg_iff_add_eq_0)
    then have "unat (d + 1) = Suc (unat d)" by (metis unatSuc add.commute)
    with False show ?thesis by (simp add: word_less_nat_alt word_le_nat_alt less_Suc_eq_le)
  qed simp
  then show ?thesis by (simp add: expired_at_def)
qed

lemma timer_set_expired:
  assumes "fst (timer_expired clk t (timer_set clk t interval s))" "i = clock_reads s"
  shows "interval \<le> clk (i + 1) - clk i"
  using assms by (simp add: timer_expired_def timer_set_def read_clock_def expired_at_iff)

section \<open>The list of the event timers\<close>

abbreviation timers_are :: "'a timers_scheme \<Rightarrow> ptr list \<Rightarrow> bool" where
  "timers_are s xs \<equiv> items (et_next s) (timerlist s) xs"

lemma min_distance_ok:
  "items (et_next s) t xs \<Longrightarrow> \<exists>m. min_distance s now t d = Some m
    \<and> m \<in> insert d ((\<lambda>t. etimer_expiration_time s t - now) ` set xs)
    \<and> m \<le> d \<and> (\<forall>t\<in>set xs. m \<le> etimer_expiration_time s t - now)"
proof (induction xs arbitrary: t d)
  case (Cons x xs)
  let ?d = "etimer_expiration_time s t - now"
  from Cons.prems have "items (et_next s) (et_next s t) xs" by simp
  from Cons.IH [OF this, of "if ?d < d then ?d else d"] Cons.prems show ?case
    by (subst min_distance.simps) (fastforce split: if_splits)
qed (simp add: min_distance.simps)

text \<open>The next time is that of a timer of the list, and none is due earlier, counted from now.\<close>

lemma update_time_ok:
  fixes clk :: clock
  assumes "timers_are s xs"
  defines "now \<equiv> clk (clock_reads s)"
  shows "\<exists>e. update_time clk s = Some (s\<lparr>next_expiration := e, clock_reads := clock_reads s + (if xs = [] then 0 else 1)\<rparr>)
    \<and> (if xs = [] then e = 0 else e \<in> etimer_expiration_time s ` set xs
        \<and> (\<forall>t\<in>set xs. e - now \<le> etimer_expiration_time s t - now))"
proof (cases xs)
  case (Cons x ys)
  let ?s = "s\<lparr>clock_reads := clock_reads s + 1\<rparr>"
  have same: "etimer_expiration_time ?s = etimer_expiration_time s" by (simp add: etimer_expiration_time_def fun_eq_iff)
  from assms(1) Cons have x: "timerlist s = x" "x \<noteq> 0" "items (et_next ?s) (et_next s x) ys" by simp_all
  obtain m where m: "min_distance ?s now (et_next s x) (etimer_expiration_time s x - now) = Some m"
    "m \<in> (\<lambda>t. etimer_expiration_time s t - now) ` set xs" "\<forall>t\<in>set xs. m \<le> etimer_expiration_time s t - now"
    using min_distance_ok [OF x(3), of now "etimer_expiration_time s x - now"] unfolding same Cons by auto
  have "update_time clk s = Some (s\<lparr>next_expiration := now + m, clock_reads := clock_reads s + 1\<rparr>)"
    using x m(1) same by (simp add: update_time_def read_clock_def now_def)
  moreover from m(2) have "now + m \<in> etimer_expiration_time s ` set xs" by auto
  ultimately show ?thesis using m(3) Cons by (intro exI [of _ "now + m"]) simp
qed (use assms in \<open>simp add: update_time_def\<close>)

lemma on_timerlist_ok: "items nxt t xs \<Longrightarrow> on_timerlist nxt timer t = Some (timer \<in> set xs)"
  by (induction xs arbitrary: t) (subst on_timerlist.simps; auto)+

lemma find_before_first: "items nxt t xs \<Longrightarrow> et \<notin> set (tl xs) \<Longrightarrow> et \<noteq> 0 \<Longrightarrow> find_before nxt et t = Some 0"
proof (induction xs arbitrary: t)
  case (Cons x xs)
  then show ?case by (subst find_before.simps) (cases xs; auto)
qed (subst find_before.simps; simp)

lemma find_before_ok:
  "items nxt t (as @ y # et # bs) \<Longrightarrow> et \<notin> set as \<Longrightarrow> et \<noteq> y \<Longrightarrow> find_before nxt et t = Some y"
proof (induction as arbitrary: t)
  case (Cons a as)
  then have "nxt a \<noteq> et" by (cases as) auto
  with Cons show ?case by (subst find_before.simps) auto
qed (subst find_before.simps; simp)

text \<open>A stopped timer is off the list and counts as expired; the others stay as they are.\<close>

lemma etimer_stop_ok:
  assumes "timers_are s xs" "et \<noteq> 0"
  shows "\<exists>s'. etimer_stop clk et s = Some s' \<and> timers_are s' (remove1 et xs) \<and> etimer_expired s' et
    \<and> (\<forall>t. t \<noteq> et \<longrightarrow> et_p s' t = et_p s t) \<and> tm_start s' = tm_start s \<and> tm_interval s' = tm_interval s"
proof -
  consider "et \<notin> set xs" | bs where "xs = et # bs" | as y bs where "xs = as @ y # et # bs"
    by (metis append_Nil append_Cons append_assoc append_butlast_last_id in_set_conv_decomp_first)
  then show ?thesis
  proof cases
    case 1
    moreover from 1 have "et \<noteq> timerlist s" using assms by (cases xs) auto
    moreover from 1 have "et \<notin> set (tl xs)" by (cases xs) auto
    ultimately show ?thesis
      using assms find_before_first [OF assms(1)] by (simp add: etimer_stop_def etimer_expired_def remove1_idem)
  next
    case (2 bs)
    let ?s = "s\<lparr>timerlist := et_next s (timerlist s)\<rparr>"
    have bs: "timers_are ?s bs" "timerlist s = et" "et \<notin> set bs" using assms 2 items_distinct [OF assms(1)] by auto
    from update_time_ok [OF bs(1), of clk] obtain e where "update_time clk ?s
      = Some (?s\<lparr>next_expiration := e, clock_reads := clock_reads ?s + (if bs = [] then 0 else 1)\<rparr>)" by blast
    with bs 2 assms(2) show ?thesis by (simp add: etimer_stop_def etimer_expired_def)
  next
    case (3 as y bs)
    have d: "distinct xs" by (rule items_distinct [OF assms(1)])
    then have "find_before (et_next s) et (timerlist s) = Some y" using assms 3 by (intro find_before_ok) auto
    moreover have "et \<noteq> timerlist s" "y \<noteq> 0" using d assms(1) 3 by (cases as; auto)+
    moreover let ?s = "s\<lparr>et_next := (et_next s)(y := et_next s et)\<rparr>"
    have bs: "timers_are ?s (as @ y # bs)" using assms(1) d 3 by auto
    from update_time_ok [OF this, of clk] obtain e where "update_time clk ?s
      = Some (?s\<lparr>next_expiration := e, clock_reads := clock_reads ?s + (if as @ y # bs = [] then 0 else 1)\<rparr>)" by blast
    moreover have "et \<notin> set (as @ y # bs)" "remove1 et xs = as @ y # bs" using d 3 by (auto simp: remove1_append)
    ultimately show ?thesis
      using bs assms(2) by (simp add: etimer_stop_def etimer_expired_def del: chain_append)
  qed
qed

text \<open>The timers of a process that has ended are taken off the list, the others stay in their order.\<close>

lemma drop_front_ok:
  "items nxt t xs \<Longrightarrow> \<exists>l. drop_front nxt pr p t = Some l \<and> items nxt l (dropWhile (\<lambda>t. pr t = p) xs)"
  by (induction xs arbitrary: t) (subst drop_front.simps; auto)+

lemma drop_rest_ok:
  "items nxt x (x # ys) \<Longrightarrow> \<exists>nxt'. drop_rest nxt pr p x = Some nxt' \<and> items nxt' x (x # filter (\<lambda>t. pr t \<noteq> p) ys)
    \<and> (\<forall>a. a \<notin> set (x # ys) \<longrightarrow> nxt' a = nxt a)"
proof (induction "length ys" arbitrary: x ys nxt rule: less_induct)
  case less
  show ?case
  proof (cases ys)
    case Nil
    with less.prems show ?thesis by (subst drop_rest.simps) simp
  next
    case (Cons y zs)
    note d = items_distinct [OF less.prems]
    from less.prems Cons have nxt: "nxt x = y" "y \<noteq> 0" "x \<noteq> 0" by simp_all
    show ?thesis
    proof (cases "pr y = p")
      case True
      have "items (nxt(x := nxt y)) x (x # zs)" using less.prems Cons d by auto
      from less.hyps [OF _ this] Cons True nxt show ?thesis by (subst drop_rest.simps) force
    next
      case False
      from less.hyps [of zs nxt y] less.prems Cons obtain nxt' where
        n: "drop_rest nxt pr p y = Some nxt'" "items nxt' y (y # filter (\<lambda>t. pr t \<noteq> p) zs)"
          "\<forall>a. a \<notin> set (y # zs) \<longrightarrow> nxt' a = nxt a" by auto
      from n(3) d Cons nxt have "nxt' x = y" by auto
      with n Cons False nxt show ?thesis by (subst drop_rest.simps) auto
    qed
  qed
qed

lemma drop_process_ok:
  assumes "timers_are s xs"
  shows "\<exists>s'. drop_process p s = Some s' \<and> timers_are s' (filter (\<lambda>t. et_p s t \<noteq> p) xs)
    \<and> s' = s\<lparr>timerlist := timerlist s', et_next := et_next s'\<rparr>"
proof -
  let ?ys = "dropWhile (\<lambda>t. et_p s t = p) xs"
  obtain l where l: "drop_front (et_next s) (et_p s) p (timerlist s) = Some l" "items (et_next s) l ?ys"
    using drop_front_ok [OF assms, of "et_p s" p] by blast
  have filter: "filter (\<lambda>t. et_p s t \<noteq> p) xs = filter (\<lambda>t. et_p s t \<noteq> p) ?ys" by (induction xs) auto
  show ?thesis
  proof (cases ?ys)
    case Nil
    with l filter show ?thesis by (auto simp: drop_process_def)
  next
    case (Cons y ys)
    then have "et_p s y \<noteq> p" using hd_dropWhile [of "\<lambda>t. et_p s t = p" xs] by simp
    moreover have "l = y" "y \<noteq> 0" using l(2) Cons by simp_all
    ultimately show ?thesis using l drop_rest_ok [of "et_next s" y ys "et_p s" p] filter Cons
      by (auto simp: drop_process_def)
  qed
qed

section \<open>Running the programs of the timers\<close>

lemma run_post:
  "run_thread sub (Call (Process_Post p ev d) u f) k =
    (case process_post p ev d (k\<lparr>user := u\<rparr>) of (r, k1) \<Rightarrow> run_thread sub (f r u) k1)"
  by (auto simp: kernel_call_def process_post_def Let_def)

lemma run_poll:
  "run_thread sub (etimer_request_poll ep c u) k = run_thread sub (c u) (process_poll ep (k\<lparr>user := u\<rparr>))"
  by (simp add: etimer_request_poll_def kernel_call_def process_poll_def)

lemma run_current:
  "run_thread sub (Call Process_Current u f) k = run_thread sub (f (process_current k) u) (k\<lparr>user := u\<rparr>)"
  by (simp add: kernel_call_def)

lemma expired_same:
  "tm_start s' = tm_start s \<Longrightarrow> tm_interval s' = tm_interval s \<Longrightarrow> expired_at s' t now = expired_at s t now"
  by (simp add: expired_at_def)

text \<open>That \<open>etimer_process\<close>, at \<open>ep\<close>, may be polled, and that it is going to be.\<close>

definition may_poll :: "ptr \<Rightarrow> 'u kernel \<Rightarrow> bool" where
  "may_poll ep k \<longleftrightarrow> ep \<noteq> 0 \<and> (p_state k ep = PROCESS_STATE_RUNNING \<or> p_state k ep = PROCESS_STATE_CALLED)"

definition will_poll :: "ptr \<Rightarrow> 'u kernel \<Rightarrow> bool" where
  "will_poll ep k \<longleftrightarrow> p_needspoll k ep \<and> poll_requested k"

lemma process_poll_will: "may_poll ep k \<Longrightarrow> will_poll ep (process_poll ep k)"
  by (simp add: may_poll_def will_poll_def process_poll_def)

text \<open>The processes are as they were, but for a request to poll \<open>ep\<close>.\<close>

definition same_procs :: "ptr \<Rightarrow> 'u kernel \<Rightarrow> 'u kernel \<Rightarrow> bool" where
  "same_procs ep k k' \<longleftrightarrow> process_list k' = process_list k \<and> p_next k' = p_next k \<and> p_state k' = p_state k
    \<and> (\<forall>q. q \<noteq> ep \<longrightarrow> p_needspoll k' q = p_needspoll k q)"

lemma same_procs_trans: "same_procs ep k1 k2 \<Longrightarrow> same_procs ep k2 k3 \<Longrightarrow> same_procs ep k1 k3"
  by (simp add: same_procs_def)

text \<open>The event that a timer gives its process.\<close>

definition timer_event :: "'a timers_scheme \<Rightarrow> ptr \<Rightarrow> event_data" where
  "timer_event s t = \<lparr>ed_ev = PROCESS_EVENT_TIMER, ed_data = t, ed_p = et_p s t\<rparr>"

text \<open>
  What a pass over the timers \<open>xs\<close> leaves when it has posted the events of \<open>ps\<close>. Every posted timer
  had expired when it was looked at; every other one that was looked at had not, or the queue is
  full and the process is going to be polled again.
\<close>

definition expired_in :: "clock \<Rightarrow> 'a timers_scheme \<Rightarrow> ptr \<Rightarrow> nat \<Rightarrow> bool \<Rightarrow> bool" where
  "expired_in clk s t i' b \<longleftrightarrow> (\<exists>i. clock_reads s \<le> i \<and> i < i' \<and> expired_at s t (clk i) = b)"

definition left_over :: "clock \<Rightarrow> ptr \<Rightarrow> 'a timers_scheme \<Rightarrow> nat \<Rightarrow> 'u kernel \<Rightarrow> ptr \<Rightarrow> bool" where
  "left_over clk ep s i' k' t \<longleftrightarrow> expired_in clk s t i' False \<or> length (pending k') = 32 \<and> will_poll ep k'"

definition scan_post :: "clock \<Rightarrow> ptr \<Rightarrow> ptr list \<Rightarrow> ptr set \<Rightarrow> 'a timers_scheme \<Rightarrow> 'u kernel \<Rightarrow> ptr list \<Rightarrow> 'a timers_scheme \<Rightarrow> 'u kernel \<Rightarrow> bool" where
  "scan_post clk ep xs seen s k ps s' k' \<longleftrightarrow>
    timers_are s' (filter (\<lambda>t. t \<notin> set ps) xs) \<and> kernel_ok k' \<and> pending k' = pending k @ map (timer_event s) ps
    \<and> distinct ps \<and> set ps \<subseteq> set xs \<and> tm_start s' = tm_start s \<and> tm_interval s' = tm_interval s
    \<and> et_p s' = (\<lambda>t. if t \<in> set ps then 0 else et_p s t) \<and> clock_reads s \<le> clock_reads s'
    \<and> (\<forall>t\<in>set ps. expired_in clk s t (clock_reads s') True)
    \<and> (\<forall>t\<in>set xs. t \<in> set ps \<or> t \<in> seen \<or> left_over clk ep s (clock_reads s') k' t)
    \<and> (will_poll ep k \<longrightarrow> will_poll ep k') \<and> same_procs ep k k'"

lemma expired_in_later:
  assumes "expired_in clk s1 t i' b" "tm_start s1 = tm_start s" "tm_interval s1 = tm_interval s"
    "clock_reads s \<le> clock_reads s1"
  shows "expired_in clk s t i' b"
  using assms expired_same [of s1 s] unfolding expired_in_def by (metis order_trans)

lemma scan_skip:
  assumes post: "scan_post clk ep xs (insert t seen) s1 k1 ps s' k'"
    and s1: "tm_start s1 = tm_start s" "tm_interval s1 = tm_interval s" "et_p s1 = et_p s"
      "clock_reads s1 = clock_reads s + 1"
    and k1: "pending k1 = pending k" "will_poll ep k \<longrightarrow> will_poll ep k1" "same_procs ep k k1"
    and t: "\<not> expired_at s t (clk (clock_reads s)) \<or> length (pending k) = 32 \<and> will_poll ep k1"
  shows "scan_post clk ep xs seen s k ps s' k'"
proof -
  have len: "length (pending k') \<le> 32" using post by (auto simp: scan_post_def dest: length_pending(1))
  have lift: "expired_in clk s1 a (clock_reads s') b \<Longrightarrow> expired_in clk s a (clock_reads s') b" for a b
    using s1 by (auto intro: expired_in_later)
  have here: "left_over clk ep s (clock_reads s') k' t" using t
  proof
    assume "\<not> expired_at s t (clk (clock_reads s))"
    moreover have "clock_reads s < clock_reads s'" using post s1 by (simp add: scan_post_def)
    ultimately show ?thesis by (auto simp: left_over_def expired_in_def)
  next
    assume "length (pending k) = 32 \<and> will_poll ep k1"
    with post k1 len show ?thesis by (auto simp: left_over_def scan_post_def)
  qed
  have event: "timer_event s1 = timer_event s" using s1 by (simp add: timer_event_def fun_eq_iff)
  have rest: "\<forall>a\<in>set xs. a \<in> set ps \<or> a \<in> seen \<or> left_over clk ep s (clock_reads s') k' a"
    using post here lift unfolding scan_post_def left_over_def by blast
  have "same_procs ep k k'" using post k1(3) unfolding scan_post_def by (blast intro: same_procs_trans)
  then show ?thesis using post s1(1,2,4) k1(1,2) lift rest event unfolding scan_post_def s1(3) by (simp add: Suc_leD)
qed

lemma scan_one:
  assumes post: "scan_post clk ep xs {} s1 k1 ps s' k'"
    and s1: "tm_start s1 = tm_start s" "tm_interval s1 = tm_interval s" "et_p s1 = (et_p s)(t := 0)"
      "clock_reads s < clock_reads s1"
    and k1: "pending k1 = pending k @ [timer_event s t]" "will_poll ep k \<longrightarrow> will_poll ep k1" "same_procs ep k k1"
    and t: "expired_at s t (clk (clock_reads s))" "t \<in> set ys" "xs = remove1 t ys" "distinct ys"
  shows "scan_post clk ep ys seen s k (t # ps) s' k'"
proof -
  have lift: "expired_in clk s1 a (clock_reads s') b \<Longrightarrow> expired_in clk s a (clock_reads s') b" for a b
    using s1 by (auto intro: expired_in_later)
  from t(2-4) have xs: "set xs = set ys - {t}" "filter (\<lambda>a. a \<notin> set ps) xs = filter (\<lambda>a. a \<notin> set (t # ps)) ys"
    by (auto simp: distinct_remove1_removeAll removeAll_filter_not_eq intro: filter_cong)
  then have new: "t \<notin> set ps" using post by (auto simp: scan_post_def)
  then have events: "map (timer_event s1) ps = map (timer_event s) ps" using s1 by (auto simp: timer_event_def)
  have "clock_reads s < clock_reads s'" using post s1 by (simp add: scan_post_def)
  with t(1) have "expired_in clk s t (clock_reads s') True" by (auto simp: expired_in_def)
  moreover have "\<forall>a\<in>set ys. a \<in> set (t # ps) \<or> a \<in> seen \<or> left_over clk ep s (clock_reads s') k' a"
    using post lift unfolding scan_post_def left_over_def xs(1) by auto
  moreover have "et_p s' = (\<lambda>a. if a \<in> set (t # ps) then 0 else et_p s a)"
    using post s1(3) by (auto simp: scan_post_def fun_eq_iff)
  moreover have "same_procs ep k k'" using post k1(3) unfolding scan_post_def by (blast intro: same_procs_trans)
  ultimately show ?thesis using post s1 k1(1,2) lift events new t(2) \<open>clock_reads s < clock_reads s'\<close> unfolding scan_post_def xs
    by auto
qed

lemma take_timer_ok:
  assumes "timers_are s (as @ t # bs)" "u = (if as = [] then 0 else last as)"
  shows "timers_are (take_timer u t s) (as @ bs)" "et_p (take_timer u t s) = (et_p s)(t := 0)"
    "tm_start (take_timer u t s) = tm_start s" "tm_interval (take_timer u t s) = tm_interval s"
    "clock_reads (take_timer u t s) = clock_reads s"
proof -
  note d = items_distinct [OF assms(1)]
  show "timers_are (take_timer u t s) (as @ bs)"
  proof (cases "as = []")
    case False
    then have "last as \<noteq> 0" using items_zero [OF assms(1)] by (metis Un_iff last_in_set set_append)
    with False assms(2) items_cut [OF assms(1) False] show ?thesis by (simp add: take_timer_def)
  qed (use assms d in \<open>simp add: take_timer_def\<close>)
qed (simp_all add: take_timer_def Let_def)

lemma scan_step:
  assumes "t \<noteq> 0"
  shows "etimer_scan clk ep (Suc n) u t c s =
    (let s1 = s\<lparr>clock_reads := clock_reads s + 1\<rparr>
     in if expired_at s t (clk (clock_reads s))
        then Call (Process_Post (et_p s t) PROCESS_EVENT_TIMER t) s1 (\<lambda>r s.
          if r = PROCESS_ERR_OK then continue (update_time clk (take_timer u t s)) (\<lambda>s. etimer_scan clk ep n 0 (timerlist s) c s)
          else etimer_request_poll ep (\<lambda>s. etimer_scan clk ep n t (et_next s t) c s) s)
        else etimer_scan clk ep n t (et_next s t) c s1)"
  using assms by (simp add: timer_expired_def read_clock_def expired_at_def Let_def)

lemma scan_ok:
  assumes "timers_are s (as @ bs)" "items (et_next s) t bs" "u = (if as = [] then 0 else last as)"
    "kernel_ok k" "may_poll ep k"
    "length bs + 1 + (length as + length bs) * (length as + length bs + 1) \<le> n"
  shows "\<exists>ps s' k'. run_thread sub (etimer_scan clk ep n u t c s) k = run_thread sub (c s') k'
    \<and> scan_post clk ep (as @ bs) (set as) s k ps s' k'"
  using assms
proof (induction n arbitrary: s k as bs u t)
  case (Suc n)
  show ?case
  proof (cases bs)
    case Nil
    with Suc.prems have "t = 0" "scan_post clk ep (as @ bs) (set as) s k [] s k" by (simp_all add: scan_post_def same_procs_def)
    then show ?thesis by (intro exI [of _ "[]"] exI [of _ s] exI [of _ k]) simp
  next
    case (Cons b cs)
    let ?s1 = "s\<lparr>clock_reads := clock_reads s + 1\<rparr>"
    from Suc.prems(2) Cons have b: "t = b" "b \<noteq> 0" "items (et_next s) (et_next s b) cs" by simp_all
    have next_prems: "timers_are ?s1 ((as @ [b]) @ cs)" "items (et_next ?s1) (et_next s b) cs"
      "b = (if as @ [b] = [] then 0 else last (as @ [b]))"
      "length cs + 1 + (length (as @ [b]) + length cs) * (length (as @ [b]) + length cs + 1) \<le> n"
      using Suc.prems(1,6) Cons b by simp_all
    show ?thesis
    proof (cases "expired_at s b (clk (clock_reads s))")
      case False
      from Suc.IH [OF next_prems(1-3) Suc.prems(4,5) next_prems(4)] obtain ps s' k' where
        "run_thread sub (etimer_scan clk ep n b (et_next s b) c ?s1) k = run_thread sub (c s') k'"
        "scan_post clk ep (as @ bs) (insert b (set as)) ?s1 k ps s' k'" using Cons by auto
      moreover from this(2) False have "scan_post clk ep (as @ bs) (set as) s k ps s' k'"
        by (rule_tac scan_skip) (assumption, simp_all add: same_procs_def)
      ultimately show ?thesis using False b by (subst scan_step) (auto simp: Let_def)
    next
      case True
      let ?k1 = "k\<lparr>user := ?s1\<rparr>" and ?e = "timer_event s b"
      have run: "run_thread sub (etimer_scan clk ep (Suc n) u t c s) k =
        (case process_post (et_p s b) PROCESS_EVENT_TIMER b ?k1 of (r, k1) \<Rightarrow> run_thread sub
          (if r = PROCESS_ERR_OK then continue (update_time clk (take_timer u b ?s1)) (\<lambda>s. etimer_scan clk ep n 0 (timerlist s) c s)
           else etimer_request_poll ep (\<lambda>s. etimer_scan clk ep n b (et_next s b) c s) ?s1) k1)"
        unfolding b(1) scan_step [OF b(2)] by (simp only: Let_def True if_True run_post)
      have k1: "kernel_ok ?k1" "pending ?k1 = pending k" using Suc.prems(4) by simp_all
      show ?thesis
      proof (cases "length (pending k) < 32")
        case False
        let ?k2 = "process_poll ep (?k1\<lparr>user := ?s1\<rparr>)"
        have post: "process_post (et_p s b) PROCESS_EVENT_TIMER b ?k1 = (PROCESS_ERR_FULL, ?k1)"
          using process_post_ok [OF k1(1), of "et_p s b" PROCESS_EVENT_TIMER b] False k1(2) by simp
        have k2: "kernel_ok ?k2" "may_poll ep ?k2" "pending ?k2 = pending k" "will_poll ep ?k2" "same_procs ep k ?k2"
          using Suc.prems(4,5) by (auto simp: process_poll_def may_poll_def will_poll_def same_procs_def)
        from Suc.IH [OF next_prems(1-3) k2(1,2) next_prems(4)] obtain ps s' k' where
          ih: "run_thread sub (etimer_scan clk ep n b (et_next s b) c ?s1) ?k2 = run_thread sub (c s') k'"
          "scan_post clk ep (as @ bs) (insert b (set as)) ?s1 ?k2 ps s' k'" using Cons by auto
        from False length_pending(1) [OF Suc.prems(4)] have "length (pending k) = 32" by simp
        with ih(2) k2 have "scan_post clk ep (as @ bs) (set as) s k ps s' k'"
          by (rule_tac scan_skip) (assumption, simp_all)
        with ih(1) show ?thesis unfolding run post by (auto simp: PROCESS_ERR_OK_def PROCESS_ERR_FULL_def run_poll)
      next
        case room: True
        obtain k2 where post: "process_post (et_p s b) PROCESS_EVENT_TIMER b ?k1 = (PROCESS_ERR_OK, k2)"
          and k2: "kernel_ok k2" "pending k2 = pending k @ [?e]"
          using process_post_ok [OF k1(1), of "et_p s b" PROCESS_EVENT_TIMER b] room k1(2)
          by (cases "process_post (et_p s b) PROCESS_EVENT_TIMER b ?k1") (auto simp: timer_event_def)
        have state: "same_procs ep k k2" "will_poll ep k \<longrightarrow> will_poll ep k2"
          using post by (auto simp: process_post_def Let_def will_poll_def same_procs_def split: if_splits)
        with Suc.prems(5) have may: "may_poll ep k2" by (simp add: may_poll_def same_procs_def)
        have "timers_are ?s1 (as @ b # cs)" using Suc.prems(1) Cons by simp
        note taken = take_timer_ok [OF this Suc.prems(3)]
        from update_time_ok [OF taken(1), of clk] obtain e m where
          upd: "update_time clk (take_timer u b ?s1) = Some ((take_timer u b ?s1)\<lparr>next_expiration := e, clock_reads := clock_reads ?s1 + m\<rparr>)"
          unfolding taken(5) by blast
        let ?s2 = "(take_timer u b ?s1)\<lparr>next_expiration := e, clock_reads := clock_reads ?s1 + m\<rparr>"
        have s2: "timers_are ?s2 ([] @ as @ cs)" "items (et_next ?s2) (timerlist ?s2) (as @ cs)"
          "0 = (if [] = [] then 0 else last [])" using taken(1) by simp_all
        have fuel: "length (as @ cs) + 1 + (length [] + length (as @ cs)) * (length [] + length (as @ cs) + 1) \<le> n"
          using Suc.prems(6) Cons by (simp add: algebra_simps)
        from Suc.IH [OF s2 k2(1) may fuel] obtain ps s' k' where
          ih: "run_thread sub (etimer_scan clk ep n 0 (timerlist ?s2) c ?s2) k2 = run_thread sub (c s') k'"
          "scan_post clk ep (as @ cs) {} ?s2 k2 ps s' k'" by auto
        have "distinct (as @ bs)" by (rule items_distinct [OF Suc.prems(1)])
        with ih(2) taken k2(2) state True Cons have "scan_post clk ep (as @ bs) (set as) s k (b # ps) s' k'"
          by (rule_tac scan_one [of clk ep "as @ cs" ?s2 k2]) (simp_all add: remove1_append)
        with ih(1) show ?thesis unfolding run post upd by (auto simp: continue_def)
      qed
    qed
  qed
qed simp

section \<open>The process of the event timers\<close>

text \<open>The invariant: every timer on the list has a process that waits for it.\<close>

definition timers_ok :: "'a timers_scheme \<Rightarrow> ptr list \<Rightarrow> bool" where
  "timers_ok s xs \<longleftrightarrow> timers_are s xs \<and> (\<forall>t\<in>set xs. et_p s t \<noteq> 0)"

lemma timers_ok_are: "timers_ok s xs \<Longrightarrow> timers_are s xs"
  by (simp add: timers_ok_def)

definition poll_fuel :: "ptr list \<Rightarrow> nat" where
  "poll_fuel xs = length xs + 1 + length xs * (length xs + 1)"

lemma etimer_process_poll:
  assumes "timers_are s xs" "et_started s" "kernel_ok k" "may_poll ep k" "poll_fuel xs \<le> n"
  shows "\<exists>ps s' k'. run_thread sub (etimer_process clk ep n PROCESS_EVENT_POLL d s) k = Some (PT_YIELDED, k'\<lparr>user := s'\<rparr>)
    \<and> scan_post clk ep xs {} s k ps s' k'"
  using assms scan_ok [of s "[]" xs "timerlist s" 0 k ep n sub clk "Ret PT_YIELDED"]
  by (auto simp: etimer_process_def poll_fuel_def process_events)

lemma etimer_process_exited:
  assumes "timers_are s xs" "et_started s"
  shows "\<exists>s'. run_thread sub (etimer_process clk ep n PROCESS_EVENT_EXITED p s) k = Some (PT_YIELDED, k\<lparr>user := s'\<rparr>)
    \<and> timers_are s' (filter (\<lambda>t. et_p s t \<noteq> p) xs) \<and> et_p s' = et_p s"
proof -
  obtain s' where s': "drop_process p s = Some s'" "timers_are s' (filter (\<lambda>t. et_p s t \<noteq> p) xs)"
    "s' = s\<lparr>timerlist := timerlist s', et_next := et_next s'\<rparr>"
    using drop_process_ok [OF assms(1), of p] by blast
  from s'(3) have "et_p s' = et_p s" by (metis timers.select_convs(4) timers.surjective timers.update_convs(3,5))
  with s'(1,2) assms(2) show ?thesis by (intro exI [of _ s']) (simp add: etimer_process_def continue_def)
qed

text \<open>
  A poll of the process, as the kernel runs it: the events it posts go to the processes that set
  the timers, behind those that wait; posted timers have expired, and the others have not, or
  the queue is full and another poll is requested.
\<close>

lemma etimer_polled:
  fixes T :: "('a timers_scheme) threads"
  assumes "p_thread T ep = Some (etimer_process clk ep n)" "timers_ok (user k) xs" "et_started (user k)"
    "kernel_ok k" "ep \<noteq> 0" "p_state k ep = PROCESS_STATE_RUNNING" "poll_fuel xs \<le> n"
  shows "\<exists>ps k'. kernel_run T (Suc m) (Call_Process ep PROCESS_EVENT_POLL d) k = Some k'
    \<and> kernel_ok k' \<and> pending k' = pending k @ map (timer_event (user k)) ps \<and> distinct ps
    \<and> timers_ok (user k') (filter (\<lambda>t. t \<notin> set ps) xs) \<and> set ps \<subseteq> set xs
    \<and> (\<forall>t\<in>set ps. expired_in clk (user k) t (clock_reads (user k')) True)
    \<and> (\<forall>t\<in>set xs - set ps. left_over clk ep (user k) (clock_reads (user k')) k' t)
    \<and> same_procs ep k k' \<and> (\<forall>t\<in>set ps. et_p (user k') t = 0)"
proof -
  let ?k = "k\<lparr>process_current := ep, p_state := (p_state k)(ep := PROCESS_STATE_CALLED)\<rparr>"
  have "kernel_ok ?k" "may_poll ep ?k" using assms(4,5) by (simp_all add: may_poll_def)
  from etimer_process_poll [OF timers_ok_are [OF assms(2)] assms(3) this assms(7), of "kernel_run T m" clk d] obtain ps s' k'
    where run: "run_thread (kernel_run T m) (etimer_process clk ep n PROCESS_EVENT_POLL d (user k)) ?k = Some (PT_YIELDED, k'\<lparr>user := s'\<rparr>)"
    and post: "scan_post clk ep xs {} (user k) ?k ps s' k'" by blast
  let ?k' = "k'\<lparr>user := s', p_state := (p_state k')(ep := PROCESS_STATE_RUNNING)\<rparr>"
  have "kernel_run T (Suc m) (Call_Process ep PROCESS_EVENT_POLL d) k = Some ?k'"
    using assms(1,5,6) run by (simp add: call_process_def process_states PT_YIELDED_def PT_EXITED_def PT_ENDED_def process_events)
  moreover have "left_over clk ep (user k) (clock_reads s') ?k' t" if "t \<in> set xs - set ps" for t
    using post that by (auto simp: scan_post_def left_over_def will_poll_def)
  moreover have "timers_ok s' (filter (\<lambda>t. t \<notin> set ps) xs)"
    using post assms(2) by (auto simp: scan_post_def timers_ok_def)
  ultimately show ?thesis using post
    by (intro exI [of _ ps] exI [of _ ?k']) (auto simp: scan_post_def same_procs_def assms(6))
qed

section \<open>Setting timers\<close>

text \<open>
  A timer joins the list once, belongs to the process that runs, and the process of the timers is
  going to be polled.
\<close>

lemma add_timer_ok:
  fixes k :: "('a timers_scheme) kernel"
  assumes "timers_ok s xs" "et \<noteq> 0" "process_current k \<noteq> 0" "kernel_ok k" "may_poll ep k"
  shows "\<exists>s' k'. run_thread sub (add_timer clk ep et c s) k = run_thread sub (c s') k'
    \<and> timers_ok s' (if et \<in> set xs then xs else et # xs) \<and> et_p s' = (et_p s)(et := process_current k)
    \<and> tm_start s' = tm_start s \<and> tm_interval s' = tm_interval s
    \<and> will_poll ep k' \<and> kernel_ok k' \<and> pending k' = pending k \<and> process_current k' = process_current k
    \<and> timers.more s' = timers.more s"
proof -
  let ?k = "process_poll ep (k\<lparr>user := s\<rparr>)" and ?ys = "if et \<in> set xs then xs else et # xs"
  let ?p = "s\<lparr>et_p := (et_p s)(et := process_current k)\<rparr>"
  let ?s = "if et \<in> set xs then ?p else ?p\<lparr>et_next := (et_next s)(et := timerlist s), timerlist := et\<rparr>"
  note xs = timers_ok_are [OF assms(1)]
  have k: "kernel_ok ?k" "will_poll ep ?k" "pending ?k = pending k" "process_current ?k = process_current k"
    using assms(4,5) by (auto simp: process_poll_def may_poll_def will_poll_def)
  have found: "(if et_p s et \<noteq> 0 then on_timerlist (et_next s) et (timerlist s) else Some False) = Some (et \<in> set xs)"
    using on_timerlist_ok [OF xs, of et] assms(1) by (auto simp: timers_ok_def)
  have list: "timers_are ?s ?ys" using xs assms(2) by auto
  from update_time_ok [OF list, of clk] obtain e r where
    upd: "update_time clk ?s = Some (?s\<lparr>next_expiration := e, clock_reads := r\<rparr>)" by blast
  let ?s' = "?s\<lparr>next_expiration := e, clock_reads := r\<rparr>"
  have run: "run_thread sub (add_timer clk ep et c s) k = run_thread sub (c ?s') (?k\<lparr>user := s\<rparr>)"
    using upd unfolding add_timer_def run_poll found
    by (cases "et \<in> set xs") (simp_all add: continue_def run_current k(4) Let_def del: run_thread.simps)
  have "timers_ok ?s' ?ys" using list assms(1,3) by (auto simp: timers_ok_def)
  with run k show ?thesis
    by (intro exI [of _ ?s'] exI [of _ "?k\<lparr>user := s\<rparr>"]) (auto simp: will_poll_def)
qed

text \<open>Without a running process the timer looks expired and is put on the list a second time: an endless list.\<close>

lemma add_timer_cyclic:
  assumes "et_p s et = 0" "timerlist s = et" "et \<noteq> 0"
  shows "run_thread sub (add_timer clk ep et c s) k = None"
proof -
  let ?s = "\<lambda>cur. s\<lparr>et_p := (et_p s)(et := cur), et_next := (et_next s)(et := et), timerlist := et\<rparr>"
  have loop: "min_distance s' now et d = None" if "et_next s' et = et" for s' :: "'a timers_scheme" and now d
  proof (rule ccontr)
    assume "min_distance s' now et d \<noteq> None"
    then obtain m where m: "min_distance s' now et d = Some m" by blast
    have "\<not> (t = et \<and> et_next s' et = et)" if "min_distance s' now t d = Some m" for s' :: "'a timers_scheme" and t d
    proof (rule min_distance.raw_induct [where P = "\<lambda>s now t d m. \<not> (t = et \<and> et_next s et = et)", OF _ that])
      fix f and s' :: "'a timers_scheme" and now t d m
      assume "\<And>s' now t d m. f s' now t d = Some m \<Longrightarrow> \<not> (t = et \<and> et_next s' et = et)"
        "(if t = 0 then Some d else f s' now (et_next s' t)
           (if etimer_expiration_time s' t - now < d then etimer_expiration_time s' t - now else d)) = Some m"
      then show "\<not> (t = et \<and> et_next s' et = et)" using assms(3) by auto
    qed
    with m that show False by blast
  qed
  have "update_time clk (?s cur) = None" for cur
    using assms(3) by (simp add: update_time_def read_clock_def loop)
  then show ?thesis
    using assms by (simp add: add_timer_def run_poll run_current continue_def Let_def del: run_thread.simps) simp
qed

lemma etimer_set_ok:
  fixes k :: "('a timers_scheme) kernel"
  assumes "timers_ok s xs" "et \<noteq> 0" "process_current k \<noteq> 0" "kernel_ok k" "may_poll ep k"
  shows "\<exists>s' k'. run_thread sub (etimer_set clk ep et interval c s) k = run_thread sub (c s') k'
    \<and> timers_ok s' (if et \<in> set xs then xs else et # xs) \<and> et_p s' = (et_p s)(et := process_current k)
    \<and> tm_start s' = (tm_start s)(et := clk (clock_reads s)) \<and> tm_interval s' = (tm_interval s)(et := interval)
    \<and> will_poll ep k' \<and> kernel_ok k' \<and> pending k' = pending k \<and> process_current k' = process_current k
    \<and> timers.more s' = timers.more s"
proof -
  have "timers_ok (timer_set clk et interval s) xs" using assms(1) by (simp add: timers_ok_def timer_set_def read_clock_def)
  from add_timer_ok [OF this assms(2-5), of sub clk c]
  show ?thesis unfolding etimer_set_def by (simp add: timer_set_def read_clock_def)
qed

section \<open>From a timer to its process\<close>

text \<open>
  When the kernel has nothing to do but to poll the process of the timers and a timer has
  expired, one pass of the scheduler runs the thread of a process whose timer has
  expired, with that timer as the data of its event; the events of further timers wait.
\<close>

lemma timer_wakes:
  fixes T :: "('a timers_scheme) threads"
  assumes T: "p_thread T ep = Some (etimer_process clk ep n)"
      "\<forall>t\<in>set xs. p_thread T (et_p (user k) t) = Some (Th t) \<and> p_state k (et_p (user k) t) = PROCESS_STATE_RUNNING"
    and timers: "timers_ok (user k) xs" "et_started (user k)" "poll_fuel xs \<le> n"
    and k: "kernel_ok k" "pending k = []" "will_poll ep k" "ep \<in> set (procs k)" "\<forall>q\<in>set (procs k). q \<noteq> ep \<longrightarrow> \<not> p_needspoll k q"
    and t: "t0 \<in> set xs" "\<forall>i\<ge>clock_reads (user k). expired_at (user k) t0 (clk i)"
    and m: "length (procs k) + 2 \<le> m"
  shows "\<exists>t ts k1. process_run T (Suc m) k = Option.bind (run_thread (kernel_run T m) (Th t PROCESS_EVENT_TIMER t (user k1)) k1)
      (\<lambda>(ret, k2). Option.bind (after_call (kernel_run T m) (et_p (user k) t) PROCESS_EVENT_TIMER ret k2) (\<lambda>k3. Some (process_nevents k3, k3)))
    \<and> t \<in> set xs \<and> expired_in clk (user k) t (clock_reads (user k1)) True \<and> etimer_expired (user k1) t
    \<and> process_current k1 = et_p (user k) t \<and> pending k1 = map (timer_event (user k)) ts
    \<and> timers_ok (user k1) (filter (\<lambda>a. a \<notin> set (t # ts)) xs)"
proof -
  note procs = kernel_ok_procs [OF k(1)]
  from k(4) obtain as bs where split: "procs k = as @ ep # bs" by (meson split_list)
  have d: "distinct (procs k)" by (rule items_distinct [OF procs])
  have ep: "ep \<noteq> 0" using items_zero [OF procs] k(4) by metis
  let ?k = "k\<lparr>poll_requested := False\<rparr>"
  let ?kp = "?k\<lparr>p_state := (p_state ?k)(ep := PROCESS_STATE_RUNNING), p_needspoll := (p_needspoll ?k)(ep := False)\<rparr>"
  define m' where "m' = m - length as - 1"
  have m': "m = length as + Suc m'" "length bs < Suc m'" using m split by (simp_all add: m'_def)
  have "timers_ok (user ?kp) xs" "et_started (user ?kp)" "kernel_ok ?kp" "p_state ?kp ep = PROCESS_STATE_RUNNING"
    using timers k(1) by simp_all
  from etimer_polled [OF T(1) this(1-3) ep this(4) timers(3), of m' 0] obtain ps k0 where
    run: "kernel_run T (Suc m') (Call_Process ep PROCESS_EVENT_POLL 0) ?kp = Some k0"
    and k0: "kernel_ok k0" "pending k0 = map (timer_event (user k)) ps" "timers_ok (user k0) (filter (\<lambda>t. t \<notin> set ps) xs)"
      "set ps \<subseteq> set xs" "\<forall>t\<in>set ps. expired_in clk (user k) t (clock_reads (user k0)) True"
      "\<forall>t\<in>set xs - set ps. left_over clk ep (user k) (clock_reads (user k0)) k0 t" "same_procs ep ?kp k0"
      "\<forall>t\<in>set ps. et_p (user k0) t = 0"
    using k(2) by auto
  have "poll_loop T (Suc m) (process_list ?k) ?k = Some k0"
    using procs d k(3,5) split m' run k0(7)
    by (intro poll_loop_one [where as = as and bs = bs and p = ep and m = "Suc m'"])
      (auto simp: same_procs_def will_poll_def)
  then have poll: "(if poll_requested k then do_poll T (Suc m) k else Some k) = Some k0"
    using k(3) by (simp add: do_poll_def will_poll_def)
  have "ps \<noteq> []"
  proof
    assume "ps = []"
    with k0(6) t(1) have "left_over clk ep (user k) (clock_reads (user k0)) k0 t0" by simp
    with t(2) k0(2) \<open>ps = []\<close> show False by (auto simp: left_over_def expired_in_def)
  qed
  then obtain t ts where ps: "ps = t # ts" by (cases ps) auto
  with k0(4) T(2) have th: "p_thread T (et_p (user k) t) = Some (Th t)" "p_state k (et_p (user k) t) = PROCESS_STATE_RUNNING" by auto
  have owner: "et_p (user k) t \<noteq> 0" using timers(1) k0(4) ps by (auto simp: timers_ok_def)
  from k0(7) th(2) have runs: "p_state k0 (et_p (user k) t) = PROCESS_STATE_RUNNING" by (simp add: same_procs_def)
  have front: "pending k0 = timer_event (user k) t # map (timer_event (user k)) ts" using k0(2) ps by simp
  from do_event_delivers [OF k0(1) front [unfolded timer_event_def [of _ t]] owner runs th(1), of m] obtain k1 where del: "do_event T (Suc m) k0 =
      Option.bind (run_thread (kernel_run T m) (Th t PROCESS_EVENT_TIMER t (user k0)) k1)
      (\<lambda>(ret, k2). after_call (kernel_run T m) (et_p (user k) t) PROCESS_EVENT_TIMER ret k2)"
    and k1: "pending k1 = map (timer_event (user k)) ts" "process_current k1 = et_p (user k) t" "user k1 = user k0"
    by blast
  have "process_run T (Suc m) k = Option.bind (run_thread (kernel_run T m) (Th t PROCESS_EVENT_TIMER t (user k1)) k1)
      (\<lambda>(ret, k2). Option.bind (after_call (kernel_run T m) (et_p (user k) t) PROCESS_EVENT_TIMER ret k2) (\<lambda>k3. Some (process_nevents k3, k3)))"
    unfolding process_run_def poll by (simp add: del k1(3) case_prod_beta')
  with k0 k1 ps show ?thesis
    by (intro exI [of _ t] exI [of _ ts] exI [of _ k1]) (simp add: etimer_expired_def)
qed

end
