(* ===== verification/Callback_Timer.thy ===== *)
theory Callback_Timer
  imports Timer_Laws
begin

text \<open>
  Callback timers, \<open>core/sys/ctimer.c\<close>: a process that owns the event timers of all callback timers,
  keeps the callback timers on a list, and calls the function of a timer in the context of the process
  that set it. The functions that are called are a parameter \<open>cb\<close>: by their address and
  argument a program that goes on with its continuation. \<open>cp\<close> and \<open>ep\<close> are the addresses of
  \<open>ctimer_process\<close> and \<open>etimer_process\<close>.
\<close>

section \<open>Data\<close>

record ctimers = timers +
  ctimer_list :: lst
  ct_p :: "ptr \<Rightarrow> ptr"
  ct_f :: "ptr \<Rightarrow> ptr"
  ct_ptr :: "ptr \<Rightarrow> ptr"
  ct_initialized :: bool
  ct_started :: bool          \<comment> \<open>whether \<open>ctimer_process\<close> has come to its loop\<close>

text \<open>The event timer inside a callback timer comes after its pointer to the next one.\<close>

definition ct_etimer :: "ptr \<Rightarrow> ptr" where
  "ct_etimer c = c + 4"

type_synonym 'u part = "('u \<Rightarrow> 'u prog) \<Rightarrow> 'u \<Rightarrow> 'u prog"
type_synonym 'u callbacks = "ptr \<Rightarrow> ptr \<Rightarrow> 'u part"

section \<open>ctimer.c\<close>

text \<open>\<open>PROCESS_CONTEXT_BEGIN(p)\<close>, \<open>body\<close>, \<open>PROCESS_CONTEXT_END(p)\<close>.\<close>

definition in_context :: "ptr \<Rightarrow> 'u part \<Rightarrow> 'u part" where
  "in_context p body c s = Call Process_Current s (\<lambda>tmp_current s. Call (Set_Current p) s (\<lambda>_.
     body (\<lambda>s. Call (Set_Current tmp_current) s (\<lambda>_. c))))"

definition add_ctimer :: "ptr \<Rightarrow> ('a ctimers_scheme) part" where
  "add_ctimer c cont s = continue (list_add (ctimer_list s) c) (\<lambda>l. cont (s\<lparr>ctimer_list := l\<rparr>))"

definition ctimer_init :: "ptr \<Rightarrow> ('a ctimers_scheme) part" where
  "ctimer_init cp cont s =
    Call (Process_Start cp 0) (s\<lparr>ct_initialized := False, ctimer_list := list_init (ctimer_list s)\<rparr>) (\<lambda>_. cont)"

definition ctimer_set_with_process :: "clock \<Rightarrow> ptr \<Rightarrow> ptr \<Rightarrow> ptr \<Rightarrow> u32 \<Rightarrow> ptr \<Rightarrow> ptr \<Rightarrow> ptr \<Rightarrow> ('a ctimers_scheme) part" where
  "ctimer_set_with_process clk ep cp c t f pt p cont s =
    (let s = s\<lparr>ct_p := (ct_p s)(c := p), ct_f := (ct_f s)(c := f), ct_ptr := (ct_ptr s)(c := pt)\<rparr>
     in if ct_initialized s then in_context cp (etimer_set clk ep (ct_etimer c) t) (add_ctimer c cont) s
        else add_ctimer c cont (s\<lparr>tm_interval := (tm_interval s)(ct_etimer c := t)\<rparr>))"

definition ctimer_set :: "clock \<Rightarrow> ptr \<Rightarrow> ptr \<Rightarrow> ptr \<Rightarrow> u32 \<Rightarrow> ptr \<Rightarrow> ptr \<Rightarrow> ('a ctimers_scheme) part" where
  "ctimer_set clk ep cp c t f pt cont s =
    Call Process_Current s (\<lambda>p. ctimer_set_with_process clk ep cp c t f pt p cont)"

definition ctimer_reset :: "clock \<Rightarrow> ptr \<Rightarrow> ptr \<Rightarrow> ptr \<Rightarrow> ('a ctimers_scheme) part" where
  "ctimer_reset clk ep cp c cont s =
    (if ct_initialized s then in_context cp (etimer_reset clk ep (ct_etimer c)) (add_ctimer c cont) s
     else add_ctimer c cont s)"

definition ctimer_restart :: "clock \<Rightarrow> ptr \<Rightarrow> ptr \<Rightarrow> ptr \<Rightarrow> ('a ctimers_scheme) part" where
  "ctimer_restart clk ep cp c cont s =
    (if ct_initialized s then in_context cp (etimer_restart clk ep (ct_etimer c)) (add_ctimer c cont) s
     else add_ctimer c cont s)"

definition ctimer_stop :: "clock \<Rightarrow> ptr \<Rightarrow> 'a ctimers_scheme \<Rightarrow> 'a ctimers_scheme option" where
  "ctimer_stop clk c s = do {
     s \<leftarrow> (if ct_initialized s then etimer_stop clk (ct_etimer c) s
           else Some (s\<lparr>et_next := (et_next s)(ct_etimer c := 0), et_p := (et_p s)(ct_etimer c := 0)\<rparr>));
     l \<leftarrow> list_remove (ctimer_list s) c;
     Some (s\<lparr>ctimer_list := l\<rparr>) }"

text \<open>Before the process has started, a timer has expired when it is not on the list.\<close>

definition ctimer_expired :: "'a ctimers_scheme \<Rightarrow> ptr \<Rightarrow> bool option" where
  "ctimer_expired s c =
    (if ct_initialized s then Some (etimer_expired s (ct_etimer c))
     else map_option Not (on_timerlist (lst_next (ctimer_list s)) c (list_head (ctimer_list s))))"

text \<open>The timers that were set before the process started, from \<open>c\<close> on.\<close>

fun ctimer_start_all :: "clock \<Rightarrow> ptr \<Rightarrow> nat \<Rightarrow> ptr \<Rightarrow> ('a ctimers_scheme) part" where
  "ctimer_start_all clk ep 0 c cont s = Stuck"
| "ctimer_start_all clk ep (Suc n) c cont s =
    (if c = 0 then cont s
     else etimer_set clk ep (ct_etimer c) (tm_interval s (ct_etimer c))
       (\<lambda>s. ctimer_start_all clk ep n (lst_next (ctimer_list s) c) cont s) s)"

text \<open>The callback timer whose event timer is at \<open>d\<close>, or \<open>NULL\<close>.\<close>

partial_function (option) find_ctimer :: "heap \<Rightarrow> ptr \<Rightarrow> ptr \<Rightarrow> ptr option" where
  "find_ctimer nxt d c = (if c = 0 then Some 0 else if ct_etimer c = d then Some c else find_ctimer nxt d (nxt c))"

definition ctimer_process :: "clock \<Rightarrow> ptr \<Rightarrow> nat \<Rightarrow> ('a ctimers_scheme) callbacks \<Rightarrow> u8 \<Rightarrow> ptr \<Rightarrow> 'a ctimers_scheme \<Rightarrow> 'a ctimers_scheme prog" where
  "ctimer_process clk ep n cb ev d s =
    (if \<not> ct_started s
     then ctimer_start_all clk ep n (list_head (ctimer_list s))
       (\<lambda>s. Ret PT_YIELDED (s\<lparr>ct_initialized := True, ct_started := True\<rparr>)) s
     else if ev \<noteq> PROCESS_EVENT_TIMER then Ret PT_YIELDED s
     else continue (find_ctimer (lst_next (ctimer_list s)) d (list_head (ctimer_list s))) (\<lambda>c.
       if c = 0 then Ret PT_YIELDED s
       else continue (list_remove (ctimer_list s) c) (\<lambda>l.
         let s = s\<lparr>ctimer_list := l\<rparr>
         in in_context (ct_p s c) (if ct_f s c \<noteq> 0 then cb (ct_f s c) (ct_ptr s c) else id) (Ret PT_YIELDED) s)))"

section \<open>Laws\<close>

abbreviation ctimers_are :: "'a ctimers_scheme \<Rightarrow> ptr list \<Rightarrow> bool" where
  "ctimers_are s cs \<equiv> lst_items (ctimer_list s) cs"

lemma run_set_current: "run_thread sub (Call (Set_Current p) u f) k = run_thread sub (f 0 u) (k\<lparr>user := u, process_current := p\<rparr>)"
  by (simp add: kernel_call_def)

lemma run_in_context:
  "run_thread sub (in_context p body c s) k =
    run_thread sub (body (\<lambda>s. Call (Set_Current (process_current k)) s (\<lambda>_. c)) s) (k\<lparr>user := s, process_current := p\<rparr>)"
  unfolding in_context_def run_current run_set_current by simp

lemma find_ctimer_ok:
  "items nxt c cs \<Longrightarrow> find_ctimer nxt d c = Some (if d \<in> ct_etimer ` set cs then d - 4 else 0)"
proof (induction cs arbitrary: c)
  case (Cons x xs)
  then show ?case by (subst find_ctimer.simps) (auto simp: ct_etimer_def)
qed (subst find_ctimer.simps; simp)

text \<open>
  The event of a timer on the list takes it off and calls its function, in the context of the process
  that set it; the event of any other timer does nothing.
\<close>

lemma ctimer_process_fires:
  assumes "ctimers_are s cs" "ct_started s" "c \<in> set cs"
  shows "\<exists>l. run_thread sub (ctimer_process clk ep n cb PROCESS_EVENT_TIMER (ct_etimer c) s) k =
      run_thread sub ((if ct_f s c \<noteq> 0 then cb (ct_f s c) (ct_ptr s c) else id)
        (\<lambda>s. Call (Set_Current (process_current k)) s (\<lambda>_. Ret PT_YIELDED)) (s\<lparr>ctimer_list := l\<rparr>))
        (k\<lparr>user := s\<lparr>ctimer_list := l\<rparr>, process_current := ct_p s c\<rparr>)
    \<and> lst_items l (remove1 c cs)"
proof -
  have "c \<noteq> 0" using assms items_zero unfolding lst_items_def by metis
  moreover have "find_ctimer (lst_next (ctimer_list s)) (ct_etimer c) (list_head (ctimer_list s)) = Some c"
    using find_ctimer_ok [of "lst_next (ctimer_list s)" "lst_head (ctimer_list s)" cs "ct_etimer c"] assms
    by (auto simp: lst_items_def list_head_def ct_etimer_def)
  moreover obtain l where "list_remove (ctimer_list s) c = Some l" "lst_items l (remove1 c cs)"
    using list_remove_ok [OF assms(1), of c] by blast
  ultimately show ?thesis using assms(2)
    by (auto simp: ctimer_process_def continue_def Let_def run_in_context simp del: run_thread.simps)
qed

lemma ctimer_process_ignores:
  assumes "ctimers_are s cs" "ct_started s" "\<forall>c\<in>set cs. d \<noteq> ct_etimer c"
  shows "run_thread sub (ctimer_process clk ep n cb ev d s) k = Some (PT_YIELDED, k\<lparr>user := s\<rparr>)"
proof -
  have "find_ctimer (lst_next (ctimer_list s)) d (list_head (ctimer_list s)) = Some 0"
    using find_ctimer_ok [of "lst_next (ctimer_list s)" "lst_head (ctimer_list s)" cs d] assms
    by (auto simp: lst_items_def list_head_def)
  then show ?thesis using assms(2) by (simp add: ctimer_process_def continue_def)
qed

text \<open>A timer that is stopped is off both lists: its function is not called, even when its event waits already.\<close>

lemma ctimer_stop_ok:
  assumes "ctimers_are s cs" "timers_are s xs" "ct_initialized s"
  shows "\<exists>s'. ctimer_stop clk c s = Some s' \<and> ctimers_are s' (remove1 c cs)
    \<and> timers_are s' (remove1 (ct_etimer c) xs) \<and> etimer_expired s' (ct_etimer c)"
proof -
  obtain s1 where s1: "etimer_stop clk (ct_etimer c) s = Some s1" "timers_are s1 (remove1 (ct_etimer c) xs)"
    "etimer_expired s1 (ct_etimer c)"
    using etimer_stop_ok [OF assms(2), of "ct_etimer c" clk] by (auto simp: ct_etimer_def)
  have "ctimer_list s1 = ctimer_list s" using s1(1)
    by (auto simp: etimer_stop_def update_time_def read_clock_def Let_def split: if_splits bind_splits)
  with list_remove_ok [OF assms(1), of c] s1 assms(3) show ?thesis
    by (auto simp: ctimer_stop_def etimer_expired_def)
qed

text \<open>
  Setting a timer, when the process runs: it is last on the list, to be called for the process that sets
  it, and its event timer belongs to \<open>ctimer_process\<close>. The process that runs stays the same.
\<close>

lemma ctimer_more:
  "timers.more s' = timers.more s \<Longrightarrow> ctimer_list s' = ctimer_list s \<and> ct_p s' = ct_p s \<and> ct_f s' = ct_f s
    \<and> ct_ptr s' = ct_ptr s \<and> ct_initialized s' = ct_initialized s \<and> ct_started s' = ct_started s"
  by (cases s; cases s') simp

lemma ctimer_set_ok:
  fixes k :: "('a ctimers_scheme) kernel"
  assumes "ctimers_are s cs" "timers_ok s xs" "ct_initialized s" "c \<noteq> 0" "cp \<noteq> 0" "kernel_ok k" "may_poll ep k"
  defines "et \<equiv> ct_etimer c"
  shows "\<exists>s' k'. run_thread sub (ctimer_set clk ep cp c t f pt cont s) k = run_thread sub (cont s') k'
    \<and> ctimers_are s' (remove1 c cs @ [c]) \<and> timers_ok s' (if et \<in> set xs then xs else et # xs)
    \<and> ct_p s' = (ct_p s)(c := process_current k) \<and> ct_f s' = (ct_f s)(c := f) \<and> ct_ptr s' = (ct_ptr s)(c := pt)
    \<and> et_p s' et = cp \<and> tm_start s' et = clk (clock_reads s) \<and> tm_interval s' et = t
    \<and> ct_started s' = ct_started s
    \<and> will_poll ep k' \<and> kernel_ok k' \<and> pending k' = pending k \<and> process_current k' = process_current k"
proof -
  let ?s = "s\<lparr>ct_p := (ct_p s)(c := process_current k), ct_f := (ct_f s)(c := f), ct_ptr := (ct_ptr s)(c := pt)\<rparr>"
  let ?k = "k\<lparr>user := ?s, process_current := cp\<rparr>"
  let ?c = "\<lambda>s. Call (Set_Current (process_current k)) s (\<lambda>_. add_ctimer c cont)"
  have run: "run_thread sub (ctimer_set clk ep cp c t f pt cont s) k = run_thread sub (etimer_set clk ep et t ?c ?s) ?k"
    using assms(3) by (simp add: ctimer_set_def ctimer_set_with_process_def run_current run_in_context et_def Let_def del: run_thread.simps)
  have ok: "timers_ok ?s xs" "et \<noteq> 0" "process_current ?k \<noteq> 0" "kernel_ok ?k" "may_poll ep ?k"
    using assms by (simp_all add: timers_ok_def ct_etimer_def may_poll_def)
  from etimer_set_ok [OF this, of sub clk t ?c] obtain s1 k1 where
    step: "run_thread sub (etimer_set clk ep et t ?c ?s) ?k = run_thread sub (?c s1) k1"
    and s1: "timers_ok s1 (if et \<in> set xs then xs else et # xs)" "et_p s1 = (et_p s)(et := cp)"
      "tm_start s1 = (tm_start s)(et := clk (clock_reads s))" "tm_interval s1 = (tm_interval s)(et := t)"
    and more: "timers.more s1 = timers.more ?s"
    and k1: "will_poll ep k1" "kernel_ok k1" "pending k1 = pending k"
    by auto
  from ctimer_more [OF more] have s1': "ctimer_list s1 = ctimer_list s" "ct_p s1 = (ct_p s)(c := process_current k)"
    "ct_f s1 = (ct_f s)(c := f)" "ct_ptr s1 = (ct_ptr s)(c := pt)" "ct_started s1 = ct_started s" by simp_all
  obtain l where l: "list_add (ctimer_list s1) c = Some l" "lst_items l (remove1 c cs @ [c])"
    using list_add_ok [OF assms(1,4)] s1'(1) by auto
  let ?s' = "s1\<lparr>ctimer_list := l\<rparr>" and ?k' = "k1\<lparr>user := s1, process_current := process_current k\<rparr>"
  have "run_thread sub (?c s1) k1 = run_thread sub (cont ?s') ?k'"
    by (simp add: run_set_current add_ctimer_def l(1) continue_def del: run_thread.simps)
  with run step l(2) s1 s1' k1 show ?thesis
    by (intro exI [of _ ?s'] exI [of _ ?k']) (auto simp: timers_ok_def will_poll_def)
qed

section \<open>Timers as their users see them\<close>

text \<open>A stopped timer does not call its function any more, not even for an event that was posted before.\<close>

lemma ctimer_stopped_silent:
  assumes "ctimers_are s cs" "timers_are s xs" "ct_initialized s" "ct_started s"
  shows "\<exists>s'. ctimer_stop clk c s = Some s' \<and> etimer_expired s' (ct_etimer c)
    \<and> run_thread sub (ctimer_process clk ep n cb ev (ct_etimer c) s') k = Some (PT_YIELDED, k\<lparr>user := s'\<rparr>)"
proof -
  obtain s' where s': "ctimer_stop clk c s = Some s'" "ctimers_are s' (remove1 c cs)" "etimer_expired s' (ct_etimer c)"
    using ctimer_stop_ok [OF assms(1-3)] by blast
  have "distinct cs" using assms(1) by (auto simp: lst_items_def dest: items_distinct)
  then have "\<forall>x\<in>set (remove1 c cs). ct_etimer c \<noteq> ct_etimer x" by (auto simp: ct_etimer_def)
  moreover have "ct_started s'" using s'(1) assms(3,4)
    by (auto simp: ctimer_stop_def etimer_stop_def update_time_def read_clock_def Let_def split: if_splits bind_splits)
  ultimately show ?thesis using s' ctimer_process_ignores by blast
qed

text \<open>
  A timer that is set calls its function at its next event, with its argument and in the context of
  the process that set it, and only once. The event need not be that of its new interval: one that
  was posted before, and still waits, calls the function although the event timer has not expired.
\<close>

lemma ctimer_calls_once:
  fixes k :: "('a ctimers_scheme) kernel"
  assumes "ctimers_are s cs" "timers_ok s xs" "ct_initialized s" "ct_started s" "c \<noteq> 0" "cp \<noteq> 0" "f \<noteq> 0"
    "kernel_ok k" "may_poll ep k"
  shows "\<exists>s' k'. run_thread sub (ctimer_set clk ep cp c t f pt cont s) k = run_thread sub (cont s') k'
    \<and> pending k' = pending k \<and> process_current k' = process_current k \<and> \<not> etimer_expired s' (ct_etimer c)
    \<and> (\<exists>l. run_thread sub (ctimer_process clk ep n cb PROCESS_EVENT_TIMER (ct_etimer c) s') k2 =
        run_thread sub (cb f pt (\<lambda>s. Call (Set_Current (process_current k2)) s (\<lambda>_. Ret PT_YIELDED)) (s'\<lparr>ctimer_list := l\<rparr>))
          (k2\<lparr>user := s'\<lparr>ctimer_list := l\<rparr>, process_current := process_current k\<rparr>)
      \<and> run_thread sub (ctimer_process clk ep n cb PROCESS_EVENT_TIMER (ct_etimer c) (s'\<lparr>ctimer_list := l\<rparr>)) k2 =
        Some (PT_YIELDED, k2\<lparr>user := s'\<lparr>ctimer_list := l\<rparr>\<rparr>))"
proof -
  obtain s' k' where run: "run_thread sub (ctimer_set clk ep cp c t f pt cont s) k = run_thread sub (cont s') k'"
    and s': "ctimers_are s' (remove1 c cs @ [c])" "ct_p s' c = process_current k" "ct_f s' c = f" "ct_ptr s' c = pt"
      "et_p s' (ct_etimer c) = cp" "ct_started s'"
    and k': "pending k' = pending k" "process_current k' = process_current k"
    using ctimer_set_ok [OF assms(1-3,5,6,8,9), of sub clk t f pt cont] assms(4) by auto
  from ctimer_process_fires [OF s'(1,6), of c sub clk ep n cb k2] s'(2-4) assms(7) obtain l where
    l: "run_thread sub (ctimer_process clk ep n cb PROCESS_EVENT_TIMER (ct_etimer c) s') k2 =
        run_thread sub (cb f pt (\<lambda>s. Call (Set_Current (process_current k2)) s (\<lambda>_. Ret PT_YIELDED)) (s'\<lparr>ctimer_list := l\<rparr>))
          (k2\<lparr>user := s'\<lparr>ctimer_list := l\<rparr>, process_current := process_current k\<rparr>)"
      "lst_items l (remove1 c (remove1 c cs @ [c]))" by auto
  have "distinct (remove1 c cs @ [c])" using s'(1) unfolding lst_items_def by (rule items_distinct)
  then have "c \<notin> set (remove1 c (remove1 c cs @ [c]))" by (simp add: remove1_append)
  then have "\<forall>x\<in>set (remove1 c (remove1 c cs @ [c])). ct_etimer c \<noteq> ct_etimer x" by (auto simp: ct_etimer_def)
  with l(2) s'(6) have "run_thread sub (ctimer_process clk ep n cb PROCESS_EVENT_TIMER (ct_etimer c) (s'\<lparr>ctimer_list := l\<rparr>)) k2 =
      Some (PT_YIELDED, k2\<lparr>user := s'\<lparr>ctimer_list := l\<rparr>\<rparr>)"
    by (intro ctimer_process_ignores [where cs = "remove1 c (remove1 c cs @ [c])"]) auto
  with run s'(5) k' l(1) assms(6) show ?thesis
    by (intro exI [of _ s'] exI [of _ k']) (auto simp: etimer_expired_def)
qed

end
