(* ===== verification/Relay_Kernel.thy ===== *)
theory Relay_Kernel
  imports Net_Boards Callback_Timer
begin

text \<open>
  The relay device as processes of the kernel. The process of the radio (\<open>rf_core_process\<close> of
  \<open>cpu/cc26xx-cc13xx/rf-core/rf-core.c\<close>) hands all packets it has received to \<open>udp_receiver\<close>, before any
  other process runs; a command is left in the one variable \<open>message_for_main_process\<close> and
  an event is posted to \<open>main_process\<close> of \<open>relay.c\<close>. The laws follow a number of commands that the radio
  has received together through the event queue to the relays.
\<close>

section \<open>Processes\<close>

text \<open>
  The state of the node and of the device, the datagrams that the radio has received, and the
  point at which \<open>main_process\<close> waits: not begun, in \<open>PROCESS_PAUSE\<close>, or in its loop. The node and the
  relay use different parts of the hardware, the external flash and the pins with the user flash, of
  which each has its own state here.
\<close>

record datagram =
  dg_sender :: bytes
  dg_data :: mem
  dg_len :: u16

record ('d, 'r) app =
  app_node :: "'d node"
  app_relay :: "'r relay"
  app_rx :: "datagram list"
  main_lc :: nat

text \<open>Where the processes and the message are: \<open>app_process\<close> for the processes of the node.\<close>

record app_layout =
  app_process :: "process \<Rightarrow> ptr"
  message_address :: ptr

text \<open>\<open>main_process\<close> of \<open>relay.c\<close>.\<close>

definition relay_main :: "'r ti \<Rightarrow> u8 \<Rightarrow> ptr \<Rightarrow> ('d, 'r) app \<Rightarrow> ('d, 'r) app prog" where
  "relay_main ti ev d u =
    (if main_lc u = 0
     then Call Process_Current u (\<lambda>p u. Call (Process_Post p PROCESS_EVENT_CONTINUE 0) u (\<lambda>_ u.
       Ret PT_YIELDED (u\<lparr>main_lc := 1\<rparr>)))
     else if main_lc u = 1 then
       (if ev \<noteq> PROCESS_EVENT_CONTINUE then Ret PT_YIELDED u
        else continue (relay_start ti (app_relay u)) (\<lambda>r. Ret PT_YIELDED (u\<lparr>app_relay := r, main_lc := 2\<rparr>)))
     else if ev = PROCESS_EVENT_CONTINUE
     then continue (relay_message ti (if d = 0 then None else Some (message_for_main_process (app_node u))) (app_relay u))
       (\<lambda>r. Ret PT_YIELDED (u\<lparr>app_relay := r\<rparr>))
     else Ret PT_YIELDED u)"

text \<open>The events that the handlers of the node have posted, as calls of the kernel.\<close>

fun post_all :: "app_layout \<Rightarrow> node_event list \<Rightarrow> (('d, 'r) app) part" where
  "post_all L [] c u = c u"
| "post_all L (e # es) c u = (case e of
     Post_Continue p \<Rightarrow>
       Call (Process_Post (app_process L p) PROCESS_EVENT_CONTINUE (if p = main_process then message_address L else 0)) u
         (\<lambda>_. post_all L es c)
   | _ \<Rightarrow> post_all L es c u)"

text \<open>
  The loop of \<open>rf_core_process\<close>: the stack hands up one datagram after the other, by calls, and what
  \<open>udp_receiver\<close> posts meanwhile enters the queue.
\<close>

fun receive_all :: "app_layout \<Rightarrow> 'd node_env \<Rightarrow> rtc \<Rightarrow> datagram list \<Rightarrow> (('d, 'r) app) part" where
  "receive_all L E t [] c u = c (u\<lparr>app_rx := []\<rparr>)"
| "receive_all L E t (g # gs) c u =
    continue (udp_receiver E t (dg_sender g) (dg_data g) (dg_len g) (app_node u)) (\<lambda>n.
      post_all L (drop (length (node_events (app_node u))) (node_events n)) (receive_all L E t gs c) (u\<lparr>app_node := n\<rparr>))"

definition rf_core_process :: "app_layout \<Rightarrow> 'd node_env \<Rightarrow> rtc \<Rightarrow> u8 \<Rightarrow> ptr \<Rightarrow> ('d, 'r) app \<Rightarrow> ('d, 'r) app prog" where
  "rf_core_process L E t ev d u =
    (if ev \<noteq> PROCESS_EVENT_POLL then Ret PT_YIELDED u else receive_all L E t (app_rx u) (Ret PT_YIELDED) u)"

section \<open>Receiving several commands at once\<close>

text \<open>A datagram with a command for relay \<open>b\<close>.\<close>

definition command_datagram :: "'d node_env \<Rightarrow> bool \<Rightarrow> u8 \<Rightarrow> datagram \<Rightarrow> bool" where
  "command_datagram E b command g \<longleftrightarrow> (\<forall>i < 6. dg_data g i =
     [PROTOCOL_VERSION_V1, cfg_device_version (ne_cfg E), DATA_TYPE_COMMAND, DEVICE_ABILITY_RELAY, relay_number b, command] ! i)"

definition message_event :: "app_layout \<Rightarrow> event_data" where
  "message_event L = \<lparr>ed_ev = PROCESS_EVENT_CONTINUE, ed_data = message_address L, ed_p = app_process L main_process\<rparr>"

lemma command_datagram_received:
  assumes "command_datagram E b command g" "node_up n"
  shows "\<exists>n'. udp_receiver E t (dg_sender g) (dg_data g) (dg_len g) n = Some n'
    \<and> drop (length (node_events n)) (node_events n') = [Post_Continue main_process] \<and> node_up n'
    \<and> addressed b (message_for_main_process n') \<and> msg_ability_state (message_for_main_process n') = command"
proof -
  have "dg_data g 0 = PROTOCOL_VERSION_V1" "dg_data g 1 = cfg_device_version (ne_cfg E)" "dg_data g 2 = DATA_TYPE_COMMAND"
    "dg_data g 3 = DEVICE_ABILITY_RELAY" "dg_data g 4 = relay_number b" "dg_data g 5 = command"
    using assms(1) by (simp_all add: command_datagram_def numeral_nat All_less_Suc2)
  then show ?thesis using assms(2)
    by (simp add: udp_receiver_def packet_dispatch_def command_settings_handler_def protocol_consts while_up_def addressed_def
      node_emit_def led_mode_set_def Dag_Node.process_start_def process_exit_def Let_def)
qed

text \<open>Each command is posted, and the last one is left in the variable.\<close>

lemma receive_commands:
  assumes "list_all2 (command_datagram E b) cs gs" "kernel_ok k" "length (pending k) + length gs \<le> 32" "node_up (app_node u)"
  shows "\<exists>u' k'. run_thread sub (receive_all L E t gs c u) k = run_thread sub (c u') k' \<and> kernel_ok k'
    \<and> pending k' = pending k @ replicate (length gs) (message_event L) \<and> same_procs q k k' \<and> poll_requested k' = poll_requested k
    \<and> process_current k' = process_current k
    \<and> app_relay u' = app_relay u \<and> main_lc u' = main_lc u
    \<and> (if cs = [] then app_node u' = app_node u
       else addressed b (message_for_main_process (app_node u')) \<and> msg_ability_state (message_for_main_process (app_node u')) = last cs)"
  using assms
proof (induction cs gs arbitrary: u k rule: list_all2_induct [consumes 1])
  case Nil
  then show ?case by (intro exI [of _ "u\<lparr>app_rx := []\<rparr>"] exI [of _ k]) (simp add: same_procs_def)
next
  case (Cons x xs g gs)
  from command_datagram_received [OF Cons.hyps(1) Cons.prems(3), of t] obtain n where
    n: "udp_receiver E t (dg_sender g) (dg_data g) (dg_len g) (app_node u) = Some n"
      "drop (length (node_events (app_node u))) (node_events n) = [Post_Continue main_process]" "node_up n"
      "addressed b (message_for_main_process n)" "msg_ability_state (message_for_main_process n) = x" by blast
  let ?u = "u\<lparr>app_node := n\<rparr>"
  let ?k = "k\<lparr>user := ?u\<rparr>"
  have room: "kernel_ok ?k" "length (pending ?k) < 32" using Cons.prems(1,2) by simp_all
  obtain k1 where post: "process_post (app_process L main_process) PROCESS_EVENT_CONTINUE (message_address L) ?k = (PROCESS_ERR_OK, k1)"
    and k1: "kernel_ok k1" "pending k1 = pending k @ [message_event L]"
    using process_post_ok [OF room(1), of "app_process L main_process" PROCESS_EVENT_CONTINUE "message_address L"] room(2)
    by (cases "process_post (app_process L main_process) PROCESS_EVENT_CONTINUE (message_address L) ?k") (auto simp: message_event_def)
  have same: "same_procs q k k1 \<and> poll_requested k1 = poll_requested k \<and> process_current k1 = process_current k"
    using post by (auto simp: process_post_def Let_def same_procs_def split: if_splits)
  have "length (pending k1) + length gs \<le> 32" "node_up (app_node ?u)" using Cons.prems(2) k1(2) n(3) by simp_all
  from Cons.IH [OF k1(1) this] obtain u' k' where
    ih: "run_thread sub (receive_all L E t gs c ?u) k1 = run_thread sub (c u') k'" "kernel_ok k'"
      "pending k' = pending k1 @ replicate (length gs) (message_event L)" "same_procs q k1 k'" "poll_requested k' = poll_requested k1"
      "process_current k' = process_current k1" "app_relay u' = app_relay ?u" "main_lc u' = main_lc ?u"
      "if xs = [] then app_node u' = app_node ?u
       else addressed b (message_for_main_process (app_node u')) \<and> msg_ability_state (message_for_main_process (app_node u')) = last xs"
    by blast
  have "run_thread sub (receive_all L E t (g # gs) c u) k = run_thread sub (c u') k'"
    using n(1,2) ih(1) by (simp add: continue_def run_post post del: run_thread.simps)
  then show ?case using ih k1 same n(4,5)
    by (intro exI [of _ u'] exI [of _ k']) (auto simp: same_procs_def)
qed

section \<open>Executing them\<close>

definition relay_fit :: "('d \<Rightarrow> bool) \<Rightarrow> ('d \<Rightarrow> mem) \<Rightarrow> ('d \<Rightarrow> u8 \<Rightarrow> bool) \<Rightarrow> 'd relay \<Rightarrow> bool" where
  "relay_fit fine imem level r \<longleftrightarrow> fine (relay_dev r) \<and> (\<forall>b. channel_ok imem level b r)
    \<and> (\<forall>b. starts_on_last imem b (relay_dev r))"

text \<open>A kernel whose \<open>main_process\<close> runs its loop, with \<open>n\<close> messages that wait, all in the one variable.\<close>

definition messages_wait :: "app_layout \<Rightarrow> bool \<Rightarrow> u8 \<Rightarrow> nat \<Rightarrow> (('d, 'r) app) kernel \<Rightarrow> bool" where
  "messages_wait L b command n k \<longleftrightarrow> kernel_ok k \<and> pending k = replicate n (message_event L) \<and> \<not> poll_requested k
    \<and> p_state k (app_process L main_process) = PROCESS_STATE_RUNNING \<and> 2 \<le> main_lc (user k)
    \<and> addressed b (message_for_main_process (app_node (user k)))
    \<and> msg_ability_state (message_for_main_process (app_node (user k))) = command"

lemma message_executed:
  assumes "relay_board ti fine imem level" "relay_fit fine imem level (app_relay (user k))"
    "p_thread T (app_process L main_process) = Some (relay_main ti)" "app_process L main_process \<noteq> 0" "message_address L \<noteq> 0"
    "messages_wait L b command (Suc n) k"
  shows "\<exists>k'. process_run T (Suc m) k = Some (n, k') \<and> messages_wait L b command n k'
    \<and> relay_fit fine imem level (app_relay (user k'))
    \<and> relay_state b (app_relay (user k')) = next_state command (relay_state b (app_relay (user k)))"
proof -
  let ?mp = "app_process L main_process" and ?u = "user k"
  let ?m = "message_for_main_process (app_node ?u)"
  from assms(6) have ok: "kernel_ok k" and front: "pending k = \<lparr>ed_ev = PROCESS_EVENT_CONTINUE, ed_data = message_address L, ed_p = ?mp\<rparr> # replicate n (message_event L)"
    and idle: "\<not> poll_requested k" and runs: "p_state k ?mp = PROCESS_STATE_RUNNING" and lc: "2 \<le> main_lc ?u"
    and m: "addressed b ?m" "msg_ability_state ?m = command"
    by (simp_all add: messages_wait_def message_event_def)
  from do_event_delivers [OF ok front assms(4) runs assms(3), of m] obtain k1 where
    del: "do_event T (Suc m) k = Option.bind (run_thread (kernel_run T m) (relay_main ti PROCESS_EVENT_CONTINUE (message_address L) ?u) k1)
      (\<lambda>(ret, k2). after_call (kernel_run T m) ?mp PROCESS_EVENT_CONTINUE ret k2)"
    and k1: "kernel_ok k1" "pending k1 = replicate n (message_event L)" "user k1 = ?u" "\<not> poll_requested k1"
    using idle by blast
  obtain r where r: "relay_message ti (Some ?m) (app_relay ?u) = Some r" "relay_fit fine imem level r"
    "relay_state b r = next_state command (relay_state b (app_relay ?u))"
    using relay_board.message_ok [OF assms(1), of "app_relay ?u" ?m] assms(2) m unfolding relay_fit_def by auto
  let ?k' = "k1\<lparr>user := ?u\<lparr>app_relay := r\<rparr>, p_state := (p_state k1)(?mp := PROCESS_STATE_RUNNING)\<rparr>"
  have "run_thread (kernel_run T m) (relay_main ti PROCESS_EVENT_CONTINUE (message_address L) ?u) k1
      = Some (PT_YIELDED, k1\<lparr>user := ?u\<lparr>app_relay := r\<rparr>\<rparr>)"
    using lc r(1) assms(5) by (simp add: relay_main_def continue_def)
  then have "do_event T (Suc m) k = Some ?k'"
    using del by (simp add: after_call_def PT_YIELDED_def PT_EXITED_def PT_ENDED_def process_events)
  moreover have "process_nevents ?k' = n"
    using length_pending(2) [of k1] k1(2,4) by (simp add: process_nevents_def)
  ultimately have "process_run T (Suc m) k = Some (n, ?k')"
    using idle by (simp add: process_run_def)
  moreover have "messages_wait L b command n ?k'"
    using k1 lc m by (simp add: messages_wait_def)
  ultimately show ?thesis using r(2,3) by (intro exI [of _ ?k']) simp
qed

lemma messages_executed:
  assumes "relay_board ti fine imem level"
    "p_thread T (app_process L main_process) = Some (relay_main ti)" "app_process L main_process \<noteq> 0" "message_address L \<noteq> 0"
    "messages_wait L b command n k" "relay_fit fine imem level (app_relay (user k))"
  shows "\<exists>k'. run_until_idle T (Suc m) (Suc n) k = Some k' \<and> relay_fit fine imem level (app_relay (user k'))
    \<and> relay_state b (app_relay (user k')) = (next_state command ^^ n) (relay_state b (app_relay (user k)))"
  using assms(5,6)
proof (induction n arbitrary: k)
  case 0
  then have "process_run T (Suc m) k = Some (0, k)" using length_pending(2) [of k] no_event [of k T "Suc m"]
    by (simp add: messages_wait_def process_run_def process_nevents_def)
  with 0 show ?case by simp
next
  case (Suc n)
  from message_executed [OF assms(1) Suc.prems(2) assms(2-4) Suc.prems(1), of m] obtain k1 where
    k1: "process_run T (Suc m) k = Some (n, k1)" "messages_wait L b command n k1" "relay_fit fine imem level (app_relay (user k1))"
      "relay_state b (app_relay (user k1)) = next_state command (relay_state b (app_relay (user k)))" by blast
  show ?case
  proof (cases n)
    case 0
    with k1 show ?thesis by simp
  next
    case (Suc j)
    then show ?thesis using Suc.IH [OF k1(2,3)] k1(1,4) by (simp add: funpow_swap1)
  qed
qed

section \<open>From the radio to the relay\<close>

lemma radio_polled:
  assumes "p_thread T rf = Some (rf_core_process L E t)" "rf \<noteq> 0" "p_state k rf = PROCESS_STATE_RUNNING"
    "kernel_ok k" "list_all2 (command_datagram E b) cs (app_rx (user k))" "node_up (app_node (user k))"
    "length (pending k) + length cs \<le> 32" "cs \<noteq> []"
  shows "\<exists>k'. kernel_run T (Suc m) (Call_Process rf PROCESS_EVENT_POLL 0) k = Some k' \<and> kernel_ok k'
    \<and> pending k' = pending k @ replicate (length cs) (message_event L) \<and> same_procs rf k k' \<and> poll_requested k' = poll_requested k
    \<and> app_relay (user k') = app_relay (user k) \<and> main_lc (user k') = main_lc (user k)
    \<and> addressed b (message_for_main_process (app_node (user k')))
    \<and> msg_ability_state (message_for_main_process (app_node (user k'))) = last cs"
proof -
  let ?k = "k\<lparr>process_current := rf, p_state := (p_state k)(rf := PROCESS_STATE_CALLED)\<rparr>"
  have len: "length (app_rx (user k)) = length cs" using assms(5) by (simp add: list_all2_lengthD)
  have "kernel_ok ?k" "length (pending ?k) + length (app_rx (user k)) \<le> 32" using assms(4,7) len by simp_all
  from receive_commands [OF assms(5) this assms(6), where q = rf and sub = "kernel_run T m" and L = L and t = t and c = "Ret PT_YIELDED"] obtain u' k' where
    run: "run_thread (kernel_run T m) (receive_all L E t (app_rx (user k)) (Ret PT_YIELDED) (user k)) ?k = Some (PT_YIELDED, k'\<lparr>user := u'\<rparr>)"
    and k': "kernel_ok k'" "pending k' = pending k @ replicate (length cs) (message_event L)" "same_procs rf ?k k'"
      "poll_requested k' = poll_requested k" "app_relay u' = app_relay (user k)" "main_lc u' = main_lc (user k)"
      "addressed b (message_for_main_process (app_node u'))" "msg_ability_state (message_for_main_process (app_node u')) = last cs"
    using assms(8) len by auto
  let ?k' = "k'\<lparr>user := u', p_state := (p_state k')(rf := PROCESS_STATE_RUNNING)\<rparr>"
  have "kernel_run T (Suc m) (Call_Process rf PROCESS_EVENT_POLL 0) k = Some ?k'"
    using call_running [OF assms(2,3,1), of m PROCESS_EVENT_POLL 0] run
    by (simp add: rf_core_process_def after_call_def PT_YIELDED_def PT_EXITED_def PT_ENDED_def process_events)
  with k' assms(3) show ?thesis
    by (intro exI [of _ ?k']) (auto simp: same_procs_def)
qed

text \<open>
  Commands that the radio hands up together: the last one is executed once for each of them, the
  others never.
\<close>

lemma commands_received:
  fixes T :: "(('d, 'r) app) threads"
  assumes "relay_board ti fine imem level" "relay_fit fine imem level (app_relay (user k))"
    and T: "p_thread T rf = Some (rf_core_process L E t)" "p_thread T (app_process L main_process) = Some (relay_main ti)"
      "app_process L main_process \<noteq> 0" "message_address L \<noteq> 0" "rf \<noteq> app_process L main_process"
    and k: "kernel_ok k" "pending k = []" "will_poll rf k" "rf \<in> set (procs k)" "\<forall>q\<in>set (procs k). q \<noteq> rf \<longrightarrow> \<not> p_needspoll k q"
      "p_state k (app_process L main_process) = PROCESS_STATE_RUNNING" "2 \<le> main_lc (user k)" "node_up (app_node (user k))"
    and gs: "list_all2 (command_datagram E b) cs (app_rx (user k))" "cs \<noteq> []" "length cs \<le> 32"
    and m: "length (procs k) \<le> m"
  shows "\<exists>k'. run_until_idle T (Suc m) (Suc (length cs)) k = Some k'
    \<and> relay_fit fine imem level (app_relay (user k'))
    \<and> relay_state b (app_relay (user k')) = (next_state (last cs) ^^ length cs) (relay_state b (app_relay (user k)))"
proof -
  note procs = kernel_ok_procs [OF k(1)]
  from k(4) obtain as bs where split: "procs k = as @ rf # bs" by (meson split_list)
  have d: "distinct (procs k)" "rf \<noteq> 0" using items_distinct [OF procs] items_zero [OF procs] k(4) by metis+
  let ?k = "k\<lparr>poll_requested := False\<rparr>"
  let ?kp = "?k\<lparr>p_state := (p_state ?k)(rf := PROCESS_STATE_RUNNING), p_needspoll := (p_needspoll ?k)(rf := False)\<rparr>"
  define m' where "m' = m - length as - 1"
  have m': "m = length as + Suc m'" "length bs < Suc m'" using m split by (simp_all add: m'_def)
  have pre: "p_state ?kp rf = PROCESS_STATE_RUNNING" "kernel_ok ?kp" "list_all2 (command_datagram E b) cs (app_rx (user ?kp))"
    "node_up (app_node (user ?kp))" "length (pending ?kp) + length cs \<le> 32"
    using k gs by simp_all
  from radio_polled [OF T(1) d(2) pre gs(2), of m'] obtain k0 where
    run: "kernel_run T (Suc m') (Call_Process rf PROCESS_EVENT_POLL 0) ?kp = Some k0"
    and k0: "kernel_ok k0" "pending k0 = replicate (length cs) (message_event L)" "same_procs rf ?kp k0" "\<not> poll_requested k0"
      "app_relay (user k0) = app_relay (user k)" "main_lc (user k0) = main_lc (user k)"
      "addressed b (message_for_main_process (app_node (user k0)))"
      "msg_ability_state (message_for_main_process (app_node (user k0))) = last cs"
    using k(2) by auto
  have "poll_loop T (Suc m) (process_list ?k) ?k = Some k0"
    using procs d k(3,5) split m' run k0(3)
    by (intro poll_loop_one [where as = as and bs = bs and p = rf and m = "Suc m'"])
      (auto simp: same_procs_def will_poll_def)
  then have poll: "(if poll_requested k then do_poll T (Suc m) k else Some k) = Some k0"
    using k(3) by (simp add: do_poll_def will_poll_def)
  have "process_run T (Suc m) k = process_run T (Suc m) k0"
    unfolding process_run_def poll using k0(4) by simp
  then have first: "run_until_idle T (Suc m) (Suc (length cs)) k = run_until_idle T (Suc m) (Suc (length cs)) k0" by simp
  have "messages_wait L b (last cs) (length cs) k0"
    using k0 k(6,7) T(5) by (simp add: messages_wait_def same_procs_def)
  from messages_executed [OF assms(1) T(2-4) this] assms(2) show ?thesis unfolding first k0(5) by simp
qed

end
