(* ===== verification/Sensors_Process.thy ===== *)
theory Sensors_Process
  imports Callback_Timer
begin

text \<open>
  The process of the sensors, \<open>core/lib/sensors.c\<close>, through which the buttons reach the processes of a
  device: \<open>sensors_changed\<close> marks a sensor and polls the process, which broadcasts an event for each
  marked sensor and waits until the event has come round to it. The sensors of an application
  (the array \<open>sensors\<close> up to its \<open>NULL\<close>) and what their \<open>configure\<close> does are parameters.
\<close>

section \<open>sensors.c\<close>

definition FLAG_CHANGED :: u8 where "FLAG_CHANGED = 0x80"

record sensor_vars =
  sensors_flags :: "u8 list"
  sensors_event :: u8
  num_sensors :: u8
  sp_i :: nat
  sp_events :: nat
  sp_lc :: nat                \<comment> \<open>0: not begun; 1: \<open>PROCESS_WAIT_EVENT\<close>; 2: \<open>PROCESS_WAIT_EVENT_UNTIL\<close>\<close>

text \<open>The first of the known sensors that is \<open>s\<close>, or the number of sensors.\<close>

definition get_sensor_index :: "ptr list \<Rightarrow> ptr \<Rightarrow> 'a sensor_vars_scheme \<Rightarrow> nat" where
  "get_sensor_index sensors s v = length (takeWhile (\<lambda>x. x \<noteq> s) (take (unat (num_sensors v)) sensors))"

definition sensors_first :: "ptr list \<Rightarrow> ptr" where
  "sensors_first sensors = (sensors @ [0]) ! 0"

text \<open>Past the \<open>NULL\<close> at the end of the array an access is undefined.\<close>

definition sensors_next :: "ptr list \<Rightarrow> ptr \<Rightarrow> 'a sensor_vars_scheme \<Rightarrow> ptr option" where
  "sensors_next sensors s v =
    (let i = get_sensor_index sensors s v + 1 in if i \<le> length sensors then Some ((sensors @ [0]) ! i) else None)"

text \<open>The array of flags has an element for the \<open>NULL\<close>, too.\<close>

definition sensors_changed :: "ptr list \<Rightarrow> ptr \<Rightarrow> ptr \<Rightarrow> ('a sensor_vars_scheme) kernel \<Rightarrow> 'a sensor_vars_scheme kernel option" where
  "sensors_changed sensors sp s k =
    (let v = user k; i = get_sensor_index sensors s v
     in if i < length (sensors_flags v)
        then Some (process_poll sp (k\<lparr>user := v\<lparr>sensors_flags := (sensors_flags v)[i := sensors_flags v ! i OR FLAG_CHANGED]\<rparr>\<rparr>))
        else None)"

definition sensors_find :: "(ptr \<Rightarrow> string) \<Rightarrow> ptr list \<Rightarrow> string \<Rightarrow> 'a sensor_vars_scheme \<Rightarrow> ptr" where
  "sensors_find type_of sensors prefix v =
    (case filter (\<lambda>s. take (length prefix) (type_of s) = prefix) (take (unat (num_sensors v)) sensors) of
       [] \<Rightarrow> 0 | s # _ \<Rightarrow> s)"

text \<open>The flag of the sensor \<open>i\<close> is cleared and counted.\<close>

definition clear_changed :: "nat \<Rightarrow> 'a sensor_vars_scheme \<Rightarrow> 'a sensor_vars_scheme" where
  "clear_changed i v = v\<lparr>sensors_flags := (sensors_flags v)[i := sensors_flags v ! i AND NOT FLAG_CHANGED],
     sp_events := sp_events v + 1\<rparr>"

text \<open>
  The loops of the process, at the sensor \<open>sp_i\<close>; fuel bounds their rounds. The program returns where it
  waits for an event.
\<close>

fun sensors_loop :: "ptr list \<Rightarrow> nat \<Rightarrow> 'a sensor_vars_scheme \<Rightarrow> 'a sensor_vars_scheme prog" where
  "sensors_loop sensors 0 v = Stuck"
| "sensors_loop sensors (Suc n) v =
    (if sp_i v < unat (num_sensors v) then
       if sensors_flags v ! sp_i v AND FLAG_CHANGED \<noteq> 0
       then Call (Process_Post PROCESS_BROADCAST (sensors_event v) (sensors ! sp_i v)) v (\<lambda>r v.
         if r = PROCESS_ERR_OK then Ret PT_YIELDED (v\<lparr>sp_lc := 2\<rparr>)
         else sensors_loop sensors n ((clear_changed (sp_i v) v)\<lparr>sp_i := sp_i v + 1\<rparr>))
       else sensors_loop sensors n (v\<lparr>sp_i := sp_i v + 1\<rparr>)
     else if sp_events v \<noteq> 0 then sensors_loop sensors n (v\<lparr>sp_i := 0, sp_events := 0\<rparr>)
     else Ret PT_YIELDED (v\<lparr>sp_lc := 1\<rparr>))"

text \<open>The start: the flags are cleared and the sensors configured one after the other.\<close>

fun configure_sensors :: "(ptr \<Rightarrow> ('a sensor_vars_scheme) part) \<Rightarrow> ptr list \<Rightarrow> ('a sensor_vars_scheme) part" where
  "configure_sensors configure [] c v = c v"
| "configure_sensors configure (s # ss) c v =
    configure s (\<lambda>v. configure_sensors configure ss c (v\<lparr>sp_i := sp_i v + 1\<rparr>)) (v\<lparr>sensors_flags := (sensors_flags v)[sp_i v := 0]\<rparr>)"

definition sensors_process :: "ptr list \<Rightarrow> (ptr \<Rightarrow> ('a sensor_vars_scheme) part) \<Rightarrow> nat \<Rightarrow> u8 \<Rightarrow> ptr \<Rightarrow> 'a sensor_vars_scheme \<Rightarrow> 'a sensor_vars_scheme prog" where
  "sensors_process sensors configure n ev d v =
    (if sp_lc v = 0
     then Call Process_Alloc_Event v (\<lambda>e v. configure_sensors configure sensors
       (\<lambda>v. Ret PT_YIELDED (v\<lparr>num_sensors := of_nat (sp_i v), sp_lc := 1\<rparr>)) (v\<lparr>sensors_event := of_nat e, sp_i := 0\<rparr>))
     else if sp_lc v = 1 then sensors_loop sensors n (v\<lparr>sp_i := 0, sp_events := 0\<rparr>)
     else if ev = sensors_event v
     then sensors_loop sensors n ((clear_changed (sp_i v) v)\<lparr>sp_i := sp_i v + 1\<rparr>)
     else Ret PT_YIELDED v)"

section \<open>Announcing the changes\<close>

definition sensor_changed :: "'a sensor_vars_scheme \<Rightarrow> nat \<Rightarrow> bool" where
  "sensor_changed v i \<longleftrightarrow> sensors_flags v ! i AND FLAG_CHANGED \<noteq> 0"

definition sensors_ok :: "ptr list \<Rightarrow> 'a sensor_vars_scheme \<Rightarrow> bool" where
  "sensors_ok sensors v \<longleftrightarrow> unat (num_sensors v) = length sensors \<and> length (sensors_flags v) = length sensors + 1"

text \<open>The changed sensors in the order in which the loops come to them from \<open>sp_i\<close> on.\<close>

definition changes :: "'a sensor_vars_scheme \<Rightarrow> nat list" where
  "changes v = filter (sensor_changed v) ([sp_i v..<unat (num_sensors v)] @ (if sp_events v \<noteq> 0 then [0..<unat (num_sensors v)] else []))"

definition sensor_event :: "ptr list \<Rightarrow> 'a sensor_vars_scheme \<Rightarrow> nat \<Rightarrow> event_data" where
  "sensor_event sensors v i = \<lparr>ed_ev = sensors_event v, ed_data = sensors ! i, ed_p = PROCESS_BROADCAST\<rparr>"

lemma sensor_changed_fields [simp]:
  "sensor_changed (v\<lparr>sp_i := a\<rparr>) = sensor_changed v" "sensor_changed (v\<lparr>sp_events := b\<rparr>) = sensor_changed v"
  "sensor_changed (v\<lparr>sp_lc := c\<rparr>) = sensor_changed v"
  "sensor_event sensors (v\<lparr>sp_i := a\<rparr>) = sensor_event sensors v"
  "sensor_event sensors (v\<lparr>sp_events := b\<rparr>) = sensor_event sensors v"
  by (simp_all add: sensor_changed_def sensor_event_def fun_eq_iff)

text \<open>With room in the queue the next change is announced, and the process waits for its event.\<close>

lemma loop_announces:
  assumes "kernel_ok k" "length (pending k) < 32"
    "(if sp_events v \<noteq> 0 then unat (num_sensors v) + 1 else 0) + (unat (num_sensors v) - sp_i v) < n"
  shows "\<exists>v' k'. run_thread sub (sensors_loop sensors n v) k = Some (PT_YIELDED, k') \<and> user k' = v' \<and> kernel_ok k'
    \<and> sensors_flags v' = sensors_flags v \<and> sensors_event v' = sensors_event v \<and> num_sensors v' = num_sensors v
    \<and> sensor_vars.more v' = sensor_vars.more v
    \<and> (case changes v of [] \<Rightarrow> sp_lc v' = 1 \<and> pending k' = pending k
       | j # _ \<Rightarrow> sp_lc v' = 2 \<and> sp_i v' = j \<and> pending k' = pending k @ [sensor_event sensors v j])"
  using assms(3)
proof (induction n arbitrary: v)
  case (Suc n)
  let ?num = "unat (num_sensors v)"
  consider "sp_i v < ?num" "sensor_changed v (sp_i v)" | "sp_i v < ?num" "\<not> sensor_changed v (sp_i v)"
    | "\<not> sp_i v < ?num" "sp_events v \<noteq> 0" | "\<not> sp_i v < ?num" "sp_events v = 0" by blast
  then show ?case
  proof cases
    case 1
    let ?k = "k\<lparr>user := v\<rparr>"
    have ok: "kernel_ok ?k" "length (pending ?k) < 32" using assms(1,2) by simp_all
    obtain k1 where post: "process_post PROCESS_BROADCAST (sensors_event v) (sensors ! sp_i v) ?k = (PROCESS_ERR_OK, k1)"
      and k1: "kernel_ok k1" "pending k1 = pending k @ [sensor_event sensors v (sp_i v)]"
      using process_post_ok [OF ok(1), of PROCESS_BROADCAST "sensors_event v" "sensors ! sp_i v"] ok(2)
      by (cases "process_post PROCESS_BROADCAST (sensors_event v) (sensors ! sp_i v) ?k") (auto simp: sensor_event_def)
    have "changes v = sp_i v # filter (sensor_changed v) ([Suc (sp_i v)..<?num] @ (if sp_events v \<noteq> 0 then [0..<?num] else []))"
      using 1 by (simp add: changes_def upt_conv_Cons)
    moreover have "run_thread sub (sensors_loop sensors (Suc n) v) k = Some (PT_YIELDED, k1\<lparr>user := v\<lparr>sp_lc := 2\<rparr>\<rparr>)"
      using 1 post by (simp add: sensor_changed_def run_post del: run_thread.simps(2))
    ultimately show ?thesis using k1 by simp
  next
    case 2
    let ?v = "v\<lparr>sp_i := sp_i v + 1\<rparr>"
    have "changes ?v = changes v" using 2 by (simp add: changes_def upt_conv_Cons)
    moreover have "(if sp_events ?v \<noteq> 0 then unat (num_sensors ?v) + 1 else 0) + (unat (num_sensors ?v) - sp_i ?v) < n"
      using Suc.prems 2 by (simp split: if_splits)
    ultimately show ?thesis using Suc.IH [of ?v] 2 by (cases "changes v") (simp_all add: sensor_changed_def)
  next
    case 3
    let ?v = "v\<lparr>sp_i := 0, sp_events := 0\<rparr>"
    have "changes ?v = changes v" using 3 by (simp add: changes_def)
    moreover have "(if sp_events ?v \<noteq> 0 then unat (num_sensors ?v) + 1 else 0) + (unat (num_sensors ?v) - sp_i ?v) < n"
      using Suc.prems 3 by simp
    ultimately show ?thesis using Suc.IH [of ?v] 3 by (cases "changes v") simp_all
  next
    case 4
    then show ?thesis using assms(1) by (simp add: changes_def)
  qed
qed simp

text \<open>With a full queue the changes are forgotten: no event is posted, and every mark is cleared.\<close>

lemma loop_forgets:
  assumes "kernel_ok k" "length (pending k) = 32" "sensors_ok sensors v"
    "\<forall>i < sp_i v. \<not> sensor_changed v i" "sp_i v \<le> length sensors"
    "(if sp_events v \<noteq> 0 \<or> (\<exists>i<length sensors. sensor_changed v i) then length sensors + 1 else 0) + (length sensors - sp_i v) < n"
  shows "\<exists>k'. run_thread sub (sensors_loop sensors n v) k = Some (PT_YIELDED, k') \<and> kernel_ok k'
    \<and> pending k' = pending k \<and> sp_lc (user k') = 1 \<and> (\<forall>i<length sensors. \<not> sensor_changed (user k') i)"
  using assms
proof (induction n arbitrary: v k)
  case (Suc n)
  let ?num = "length sensors"
  have num: "unat (num_sensors v) = ?num" "length (sensors_flags v) = ?num + 1" using Suc.prems(3) by (simp_all add: sensors_ok_def)
  consider "sp_i v < ?num" "sensor_changed v (sp_i v)" | "sp_i v < ?num" "\<not> sensor_changed v (sp_i v)"
    | "\<not> sp_i v < ?num" "sp_events v \<noteq> 0" | "\<not> sp_i v < ?num" "sp_events v = 0" by blast
  then show ?case
  proof cases
    case 1
    let ?v = "(clear_changed (sp_i v) v)\<lparr>sp_i := sp_i v + 1\<rparr>"
    have cleared: "\<not> sensor_changed ?v (sp_i v)" "i \<noteq> sp_i v \<Longrightarrow> sensor_changed ?v i = sensor_changed v i" for i
      using 1 num by (simp_all add: sensor_changed_def clear_changed_def and.assoc)
    have pre: "sensors_ok sensors ?v" "\<forall>i < sp_i ?v. \<not> sensor_changed ?v i" "sp_i ?v \<le> ?num"
      using Suc.prems(3,4) 1 cleared by (auto simp: sensors_ok_def clear_changed_def less_Suc_eq)
    have ev: "sp_events ?v \<noteq> 0" by (simp add: clear_changed_def)
    have idx: "sp_i ?v = Suc (sp_i v)" by simp
    have fuel: "(if sp_events ?v \<noteq> 0 \<or> (\<exists>i<?num. sensor_changed ?v i) then ?num + 1 else 0) + (?num - sp_i ?v) < n"
      using Suc.prems(6) 1 ev unfolding idx by (auto split: if_splits)
    have post: "process_post PROCESS_BROADCAST (sensors_event v) (sensors ! sp_i v) (k\<lparr>user := v\<rparr>) = (PROCESS_ERR_FULL, k\<lparr>user := v\<rparr>)"
      using process_post_ok [of "k\<lparr>user := v\<rparr>" PROCESS_BROADCAST "sensors_event v" "sensors ! sp_i v"] Suc.prems(1,2) by simp
    have "run_thread sub (sensors_loop sensors (Suc n) v) k = run_thread sub (sensors_loop sensors n ?v) (k\<lparr>user := v\<rparr>)"
      using 1 post num by (simp add: sensor_changed_def run_post PROCESS_ERR_OK_def PROCESS_ERR_FULL_def del: run_thread.simps(2))
    moreover have "kernel_ok (k\<lparr>user := v\<rparr>)" "length (pending (k\<lparr>user := v\<rparr>)) = 32" using Suc.prems(1,2) by simp_all
    ultimately show ?thesis using Suc.IH [OF _ _ pre fuel, of "k\<lparr>user := v\<rparr>"] by simp
  next
    case 2
    let ?v = "v\<lparr>sp_i := sp_i v + 1\<rparr>"
    have same: "sensor_changed ?v = sensor_changed v" by (simp add: sensor_changed_def fun_eq_iff)
    have "sensors_ok sensors ?v" "\<forall>i < sp_i ?v. \<not> sensor_changed ?v i" "sp_i ?v \<le> ?num"
      using Suc.prems(3,4) 2 same by (auto simp: sensors_ok_def less_Suc_eq)
    moreover have "(if sp_events ?v \<noteq> 0 \<or> (\<exists>i<?num. sensor_changed ?v i) then ?num + 1 else 0) + (?num - sp_i ?v) < n"
      using Suc.prems(6) 2 unfolding same by (auto split: if_splits)
    ultimately show ?thesis using Suc.IH [OF Suc.prems(1,2), of ?v] 2 num by (simp add: sensor_changed_def)
  next
    case 3
    let ?v = "v\<lparr>sp_i := 0, sp_events := 0\<rparr>"
    have none: "\<forall>i<?num. \<not> sensor_changed ?v i" using Suc.prems(4,5) 3 by (auto simp: sensor_changed_def)
    have "sensors_ok sensors ?v" "sp_i ?v \<le> ?num" using Suc.prems(3) by (simp_all add: sensors_ok_def)
    moreover have "(if sp_events ?v \<noteq> 0 \<or> (\<exists>i<?num. sensor_changed ?v i) then ?num + 1 else 0) + (?num - sp_i ?v) < n"
      using Suc.prems(6) 3 none by (auto split: if_splits)
    ultimately show ?thesis using Suc.IH [OF Suc.prems(1,2), of ?v] 3 num none by simp
  next
    case 4
    with Suc.prems(4,5) have "\<forall>i<?num. \<not> sensor_changed v i" by auto
    then have "\<forall>i<?num. \<not> sensor_changed (v\<lparr>sp_lc := 1\<rparr>) i" by (simp add: sensor_changed_def)
    then show ?thesis using 4 Suc.prems(1) num by simp
  qed
qed simp

text \<open>
  The process, woken up by any event while it waits: when sensors have changed and the queue has
  room, the first of them is announced to all processes; when it has none, the changes are lost.
\<close>

lemma sensors_announced_or_lost:
  assumes "kernel_ok k" "sensors_ok sensors v" "sp_lc v = 1" "i < length sensors" "sensor_changed v i"
    "2 * length sensors + 1 < n"
  shows "\<exists>k'. run_thread sub (sensors_process sensors configure n ev d v) k = Some (PT_YIELDED, k') \<and> kernel_ok k'
    \<and> (if length (pending k) < 32
       then \<exists>j\<le>i. (\<forall>l<j. \<not> sensor_changed v l) \<and> sensor_changed v j \<and> pending k' = pending k @ [sensor_event sensors v j]
         \<and> sp_lc (user k') = 2 \<and> sp_i (user k') = j \<and> sensors_flags (user k') = sensors_flags v
       else pending k' = pending k \<and> sp_lc (user k') = 1 \<and> (\<forall>l<length sensors. \<not> sensor_changed (user k') l))"
proof -
  let ?v = "v\<lparr>sp_i := 0, sp_events := 0\<rparr>"
  have num: "unat (num_sensors v) = length sensors" and ok: "sensors_ok sensors ?v" using assms(2) by (simp_all add: sensors_ok_def)
  have run: "sensors_process sensors configure n ev d v = sensors_loop sensors n ?v" using assms(3) by (simp add: sensors_process_def)
  show ?thesis
  proof (cases "length (pending k) < 32")
    case True
    let ?js = "filter (sensor_changed v) [0..<length sensors]"
    have changes: "changes ?v = ?js" using num by (simp add: changes_def)
    have "i \<in> set ?js" using assms(4,5) by simp
    then obtain j js where js: "?js = j # js" by (cases ?js) auto
    then have "j \<in> set ?js" "\<forall>l\<in>set js. j < l"
      using sorted_wrt_filter [of "(<)" "[0..<length sensors]" "sensor_changed v"] by (simp_all add: sorted_wrt_upt)
    moreover from this(2) js have "\<forall>l\<in>set ?js. j \<le> l" by auto
    ultimately have j: "sensor_changed v j" "\<forall>l<j. \<not> sensor_changed v l" "j \<le> i"
      using assms(4,5) by (auto, meson leD less_trans)
    have "(if sp_events ?v \<noteq> 0 then unat (num_sensors ?v) + 1 else 0) + (unat (num_sensors ?v) - sp_i ?v) < n"
      using assms(6) num by simp
    from loop_announces [OF assms(1) True this, of sub sensors] j show ?thesis
      unfolding run changes js using True by auto
  next
    case False
    then have full: "length (pending k) = 32" using length_pending(1) [OF assms(1)] by simp
    have "(if sp_events ?v \<noteq> 0 \<or> (\<exists>i<length sensors. sensor_changed ?v i) then length sensors + 1 else 0) + (length sensors - sp_i ?v) < n"
      using assms(6) by simp
    from loop_forgets [OF assms(1) full ok _ _ this, of sub] show ?thesis unfolding run using False by auto
  qed
qed

text \<open>When the event comes back, the mark of its sensor is cleared, and the next change is announced.\<close>

lemma sensors_continue:
  assumes "kernel_ok k" "length (pending k) < 32" "sp_lc v = 2" "2 * unat (num_sensors v) + 1 < n"
  defines "w \<equiv> (clear_changed (sp_i v) v)\<lparr>sp_i := sp_i v + 1\<rparr>"
  shows "\<exists>k'. run_thread sub (sensors_process sensors configure n (sensors_event v) d v) k = Some (PT_YIELDED, k')
    \<and> sensors_flags (user k') = (sensors_flags v)[sp_i v := sensors_flags v ! sp_i v AND NOT FLAG_CHANGED]
    \<and> (case changes w of [] \<Rightarrow> sp_lc (user k') = 1 \<and> pending k' = pending k
       | j # _ \<Rightarrow> sp_lc (user k') = 2 \<and> sp_i (user k') = j \<and> pending k' = pending k @ [sensor_event sensors w j])"
proof -
  have run: "sensors_process sensors configure n (sensors_event v) d v = sensors_loop sensors n w"
    using assms(3) by (simp add: sensors_process_def w_def)
  have "(if sp_events w \<noteq> 0 then unat (num_sensors w) + 1 else 0) + (unat (num_sensors w) - sp_i w) < n"
    using assms(4) by (simp add: w_def clear_changed_def)
  from loop_announces [OF assms(1,2) this, of sub sensors] show ?thesis unfolding run
    by (auto simp: w_def clear_changed_def)
qed

end
