(* ===== verification/Power_Save.thy ===== *)
theory Power_Save
  imports Timer_Laws
begin

text \<open>
  When and for how long the chip sleeps: the decision of \<open>lpm_drop\<close> (\<open>cpu/cc26xx-cc13xx/lpm.c\<close>) between
  staying awake, sleep and deep sleep, from the events of the kernel, the permissions of the registered
  modules, the next \<open>rtimer\<close> and the next event timer; and the channels of the real-time clock that wake
  it up (\<open>cpu/cc26xx-cc13xx/dev/soc-rtc.c\<close>). The registers of the clock are a record, in the unit of
  the compare registers (1/65536 s); what the modules ask for is a parameter. The steps that then switch
  the hardware off and on are not modelled. \<open>CC2650_FAST_RADIO_STARTUP\<close> is 0, as in \<open>contiki-conf.h\<close>.
\<close>

section \<open>The real-time clock\<close>

type_synonym rtimer_clock = "32 word"

definition AON_RTC_CH0 :: u32 where "AON_RTC_CH0 = 1"
definition AON_RTC_CH1 :: u32 where "AON_RTC_CH1 = 2"
definition AON_RTC_CH2 :: u32 where "AON_RTC_CH2 = 4"
definition COMPARE_INCREMENT :: u32 where "COMPARE_INCREMENT = 512"
definition MULTIPLE_512_MASK :: u32 where "MULTIPLE_512_MASK = 0xFFFFFE00"

lemmas rtc_channels = AON_RTC_CH0_def AON_RTC_CH1_def AON_RTC_CH2_def

record aon_rtc =
  rtc_now :: rtimer_clock
  rtc_compare :: "u32 \<Rightarrow> rtimer_clock"
  rtc_enabled :: "u32 \<Rightarrow> bool"
  rtc_event :: "u32 \<Rightarrow> bool"
  last_isr_time :: rtimer_clock

definition rtimer_clock_lt :: "rtimer_clock \<Rightarrow> rtimer_clock \<Rightarrow> bool" where
  "rtimer_clock_lt a b \<longleftrightarrow> sint (a - b) < 0"

definition soc_rtc_schedule_one_shot :: "u32 \<Rightarrow> rtimer_clock \<Rightarrow> aon_rtc \<Rightarrow> aon_rtc" where
  "soc_rtc_schedule_one_shot channel t r =
    (if channel \<noteq> AON_RTC_CH0 \<and> channel \<noteq> AON_RTC_CH1 \<and> channel \<noteq> AON_RTC_CH2 then r
     else r\<lparr>rtc_compare := (rtc_compare r)(channel := t), rtc_enabled := (rtc_enabled r)(channel := True)\<rparr>)"

definition soc_rtc_last_isr_time :: "aon_rtc \<Rightarrow> rtimer_clock" where
  "soc_rtc_last_isr_time r = last_isr_time r"

definition soc_rtc_get_next_trigger :: "aon_rtc \<Rightarrow> rtimer_clock" where
  "soc_rtc_get_next_trigger r =
    (let ch1 = rtc_compare r AON_RTC_CH1
     in if rtc_enabled r AON_RTC_CH0
        then let ch0 = rtc_compare r AON_RTC_CH0 in if rtimer_clock_lt ch0 ch1 then ch0 else ch1
        else ch1)"

text \<open>
  The interrupt handler: \<open>clock_update\<close> polls the process of the timers; the tick goes on at the next multiple
  of 512; and \<open>rtimer_run_next\<close> is a parameter.
\<close>

definition soc_rtc_isr :: "(aon_rtc \<Rightarrow> ('a timers_scheme) kernel \<Rightarrow> aon_rtc \<times> 'a timers_scheme kernel) \<Rightarrow> ptr
    \<Rightarrow> aon_rtc \<Rightarrow> 'a timers_scheme kernel \<Rightarrow> aon_rtc \<times> 'a timers_scheme kernel" where
  "soc_rtc_isr rtimer_run_next ep r k =
    (let r = r\<lparr>last_isr_time := rtc_now r\<rparr>;
         k = clock_update ep k;
         r = (if rtc_event r AON_RTC_CH1
              then r\<lparr>rtc_event := (rtc_event r)(AON_RTC_CH1 := False),
                     rtc_compare := (rtc_compare r)(AON_RTC_CH1 := (rtc_now r + 5 + COMPARE_INCREMENT) AND MULTIPLE_512_MASK)\<rparr>
              else r);
         (r, k) = (if rtc_event r AON_RTC_CH0
              then rtimer_run_next (r\<lparr>rtc_enabled := (rtc_enabled r)(AON_RTC_CH0 := False),
                     rtc_event := (rtc_event r)(AON_RTC_CH0 := False)\<rparr>) k
              else (r, k))
     in (if rtc_event r AON_RTC_CH2
         then r\<lparr>rtc_enabled := (rtc_enabled r)(AON_RTC_CH2 := False), rtc_event := (rtc_event r)(AON_RTC_CH2 := False)\<rparr>
         else r, k))"

section \<open>lpm.c\<close>

definition LPM_MODE_AWAKE :: u8 where "LPM_MODE_AWAKE = 0"
definition LPM_MODE_SLEEP :: u8 where "LPM_MODE_SLEEP = 1"
definition LPM_MODE_DEEP_SLEEP :: u8 where "LPM_MODE_DEEP_SLEEP = 2"
definition LPM_MODE_MAX_SUPPORTED :: u8 where "LPM_MODE_MAX_SUPPORTED = LPM_MODE_DEEP_SLEEP"
definition RTIMER_SECOND :: rtimer_clock where "RTIMER_SECOND = 65536"
definition STANDBY_MIN_DURATION :: rtimer_clock where "STANDBY_MIN_DURATION = RTIMER_SECOND div 100"
definition MAX_SLEEP_TIME :: rtimer_clock where "MAX_SLEEP_TIME = RTIMER_SECOND"
definition MIN_SAFE_SCHEDULE :: rtimer_clock where "MIN_SAFE_SCHEDULE = 8"
definition PRCM_DOMAIN_SERIAL :: u32 where "PRCM_DOMAIN_SERIAL = 2"
definition PRCM_DOMAIN_PERIPH :: u32 where "PRCM_DOMAIN_PERIPH = 4"
definition LOCKABLE_DOMAINS :: u32 where "LOCKABLE_DOMAINS = PRCM_DOMAIN_SERIAL OR PRCM_DOMAIN_PERIPH"

lemmas lpm_modes = LPM_MODE_MAX_SUPPORTED_def LPM_MODE_AWAKE_def LPM_MODE_SLEEP_def LPM_MODE_DEEP_SLEEP_def

text \<open>The registered modules: their list, what each asks for, if it does, and the domains it locks.\<close>

record lpm =
  modules_list :: lst
  request_max_pm :: "ptr \<Rightarrow> u8 option"
  domain_lock :: "ptr \<Rightarrow> u32"

definition lpm_init :: "lpm \<Rightarrow> lpm" where
  "lpm_init l = l\<lparr>modules_list := list_init (modules_list l)\<rparr>"

definition lpm_register_module :: "ptr \<Rightarrow> lpm \<Rightarrow> lpm option" where
  "lpm_register_module m l = map_option (\<lambda>ms. l\<lparr>modules_list := ms\<rparr>) (list_add (modules_list l) m)"

definition lpm_unregister_module :: "ptr \<Rightarrow> lpm \<Rightarrow> lpm option" where
  "lpm_unregister_module m l = map_option (\<lambda>ms. l\<lparr>modules_list := ms\<rparr>) (list_remove (modules_list l) m)"

text \<open>The loops over the modules: the smallest permission, and the domains that no module locks.\<close>

partial_function (option) ask_modules :: "lpm \<Rightarrow> ptr \<Rightarrow> u8 \<Rightarrow> u8 option" where
  "ask_modules l m max_pm =
    (if m = 0 then Some max_pm
     else ask_modules l (lst_next (modules_list l) m)
       (case request_max_pm l m of None \<Rightarrow> max_pm | Some pm \<Rightarrow> if pm < max_pm then pm else max_pm))"

partial_function (option) unlocked_domains :: "lpm \<Rightarrow> ptr \<Rightarrow> u32 \<Rightarrow> u32 option" where
  "unlocked_domains l m domains =
    (if m = 0 then Some (domains AND LOCKABLE_DOMAINS)
     else unlocked_domains l (lst_next (modules_list l) m) (domains AND NOT (domain_lock l m)))"

text \<open>The permission and the time of the next \<open>rtimer\<close>, if there is one.\<close>

definition check_next_rtimer :: "aon_rtc \<Rightarrow> rtimer_clock \<Rightarrow> u8 \<times> rtimer_clock option" where
  "check_next_rtimer r now =
    (if rtc_enabled r AON_RTC_CH0 then
       let next_rtimer = rtc_compare r AON_RTC_CH0
       in (if rtimer_clock_lt next_rtimer (now + 2) then min LPM_MODE_MAX_SUPPORTED LPM_MODE_AWAKE
           else if rtimer_clock_lt next_rtimer (now + STANDBY_MIN_DURATION) then min LPM_MODE_MAX_SUPPORTED LPM_MODE_SLEEP
           else LPM_MODE_MAX_SUPPORTED, Some next_rtimer)
     else (LPM_MODE_MAX_SUPPORTED, None))"

text \<open>The same for the event timers; \<open>clk_now\<close> is what \<open>clock_time\<close> returns.\<close>

definition check_next_etimer :: "aon_rtc \<Rightarrow> 'a timers_scheme \<Rightarrow> u32 \<Rightarrow> rtimer_clock \<Rightarrow> u8 \<times> rtimer_clock option" where
  "check_next_etimer r s clk_now now =
    (if etimer_pending s then
       let until_next_etimer = etimer_next_expiration_time s - clk_now
       in if sint until_next_etimer < 1 then (min LPM_MODE_MAX_SUPPORTED LPM_MODE_AWAKE, None)
          else let next_etimer = soc_rtc_last_isr_time r + until_next_etimer * (RTIMER_SECOND div CLOCK_CONF_SECOND)
            in (if rtimer_clock_lt next_etimer (now + STANDBY_MIN_DURATION) then min LPM_MODE_MAX_SUPPORTED LPM_MODE_SLEEP
                else LPM_MODE_MAX_SUPPORTED, Some next_etimer)
     else (LPM_MODE_MAX_SUPPORTED, None))"

text \<open>\<open>setup_sleep_mode\<close>: the mode, and the clock with the time at which it is to wake up the chip.\<close>

definition setup_sleep_mode :: "lpm \<Rightarrow> ('a timers_scheme) kernel \<Rightarrow> u32 \<Rightarrow> aon_rtc \<Rightarrow> (u8 \<times> aon_rtc) option" where
  "setup_sleep_mode l k clk_now r =
    (if LPM_MODE_MAX_SUPPORTED = LPM_MODE_AWAKE \<or> process_nevents k \<noteq> 0 then Some (LPM_MODE_AWAKE, r)
     else do {
       max_pm \<leftarrow> ask_modules l (list_head (modules_list l)) LPM_MODE_MAX_SUPPORTED;
       let now = rtc_now r;
       let (pm, next_rtimer) = check_next_rtimer r now;
       let max_pm = (if pm < max_pm then pm else max_pm);
       let (pm, next_etimer) = check_next_etimer r (user k) clk_now now;
       let max_pm = (if pm < max_pm then pm else max_pm);
       Some (max_pm,
         if max_pm = LPM_MODE_SLEEP then
           (case next_etimer of
              Some t \<Rightarrow> soc_rtc_schedule_one_shot AON_RTC_CH1
                (if rtimer_clock_lt t (now + MIN_SAFE_SCHEDULE) then now + MIN_SAFE_SCHEDULE
                 else if rtimer_clock_lt (now + MAX_SLEEP_TIME) t then now + MAX_SLEEP_TIME else t) r
            | None \<Rightarrow> soc_rtc_schedule_one_shot AON_RTC_CH1 (now + MAX_SLEEP_TIME) r)
         else if max_pm = LPM_MODE_DEEP_SLEEP then
           (case next_etimer of
              Some t \<Rightarrow> soc_rtc_schedule_one_shot AON_RTC_CH1 t r
            | None \<Rightarrow> soc_rtc_schedule_one_shot AON_RTC_CH1 (now - 1) r)
         else r) })"

text \<open>The domains that \<open>deep_sleep\<close> switches off.\<close>

definition deep_sleep_domains :: "lpm \<Rightarrow> u32 option" where
  "deep_sleep_domains l = unlocked_domains l (list_head (modules_list l)) LOCKABLE_DOMAINS"

section \<open>Laws\<close>

lemma isr_tick:
  assumes "rtc_event r AON_RTC_CH1"
  shows "rtc_compare (fst (soc_rtc_isr (\<lambda>r k. (r, k)) ep r k)) AON_RTC_CH1 = (rtc_now r + 517) AND MULTIPLE_512_MASK"
  using assms by (simp add: soc_rtc_isr_def rtc_channels COMPARE_INCREMENT_def Let_def add.commute split: prod.splits)

lemma mask_512: "MULTIPLE_512_MASK = NOT (mask 9)"
  by (simp add: MULTIPLE_512_MASK_def mask_numeral)

lemma multiple_512: "x AND MULTIPLE_512_MASK = x - x mod 512"
proof -
  have "x - take_bit 9 x = x AND NOT (take_bit 9 x)" by (rule disjunctive_diff) (simp add: bit_simps)
  also have "\<dots> = x AND NOT (mask 9)" by (rule bit_word_eqI) (auto simp: bit_simps)
  finally show ?thesis by (simp add: mask_512 take_bit_eq_mod)
qed

text \<open>The tick stays a multiple of 512 and comes 6 to 517 units after now.\<close>

lemma tick_next:
  fixes now :: rtimer_clock
  defines "t \<equiv> (now + 517) AND MULTIPLE_512_MASK"
  shows "t mod 512 = 0" "6 \<le> t - now" "t - now \<le> 517"
proof -
  let ?m = "(now + 517) mod 512"
  have m: "unat ?m < 512" by (simp add: unat_mod)
  have d: "t - now = 517 - ?m" by (simp add: t_def multiple_512)
  have "?m \<le> 517" using m by (simp add: word_le_nat_alt)
  then have "unat (t - now) = 517 - unat ?m" unfolding d by (simp add: unat_sub)
  with m show "6 \<le> t - now" "t - now \<le> 517" by (simp_all add: word_le_nat_alt)
  have "take_bit 9 t = 0" unfolding t_def mask_512 by (rule bit_word_eqI) (simp add: bit_simps)
  then show "t mod 512 = 0" by (simp add: take_bit_eq_mod)
qed

text \<open>The modules are asked all; none can be overruled.\<close>

lemma ask_modules_ok:
  "items (lst_next (modules_list l)) m ms \<Longrightarrow> \<exists>pm. ask_modules l m max_pm = Some pm \<and> pm \<le> max_pm
    \<and> (\<forall>x\<in>set ms. \<forall>p. request_max_pm l x = Some p \<longrightarrow> pm \<le> p)"
proof (induction ms arbitrary: m max_pm)
  case (Cons x xs)
  let ?max = "case request_max_pm l m of None \<Rightarrow> max_pm | Some pm \<Rightarrow> if pm < max_pm then pm else max_pm"
  from Cons.prems have "items (lst_next (modules_list l)) (lst_next (modules_list l) m) xs" by simp
  from Cons.IH [OF this, of ?max] obtain pm where
    "ask_modules l (lst_next (modules_list l) m) ?max = Some pm" "pm \<le> ?max"
    "\<forall>x\<in>set xs. \<forall>p. request_max_pm l x = Some p \<longrightarrow> pm \<le> p" by blast
  with Cons.prems show ?case
    by (subst ask_modules.simps) (auto split: option.splits if_splits)
qed (simp add: ask_modules.simps)

text \<open>No domain is switched off that a module locks.\<close>

lemma unlocked_domains_ok:
  "items (lst_next (modules_list l)) m ms \<Longrightarrow> \<exists>d. unlocked_domains l m domains = Some d
    \<and> (\<forall>x\<in>set ms. d AND domain_lock l x = 0) \<and> d AND NOT LOCKABLE_DOMAINS = 0 \<and> d AND NOT domains = 0"
proof (induction ms arbitrary: m domains)
  case Nil
  then show ?case by (subst unlocked_domains.simps) (auto intro!: bit_word_eqI simp: bit_simps)
next
  case (Cons x xs)
  let ?d = "domains AND NOT (domain_lock l m)"
  from Cons.prems have "items (lst_next (modules_list l)) (lst_next (modules_list l) m) xs" by simp
  from Cons.IH [OF this, of ?d] obtain d where d:
    "unlocked_domains l (lst_next (modules_list l) m) ?d = Some d" "\<forall>x\<in>set xs. d AND domain_lock l x = 0"
    "d AND NOT LOCKABLE_DOMAINS = 0" "d AND NOT ?d = 0" by blast
  from d(4) have "d AND domain_lock l m = 0" "d AND NOT domains = 0"
    by (auto simp: bit_eq_iff bit_simps)
  with d Cons.prems show ?case by (subst unlocked_domains.simps) auto
qed

lemma sint_negative: "sint (x :: rtimer_clock) < 0 \<longleftrightarrow> 2 ^ 31 \<le> uint x"
proof -
  have half: "odd (y div 2147483648) \<longleftrightarrow> 2147483648 \<le> y" if "0 \<le> y" "y < 4294967296" for y :: int
  proof (cases "y < 2147483648")
    case False
    with that have "y div 2147483648 = 1" by (intro int_div_pos_eq [where r = "y - 2147483648"]) simp_all
    with False show ?thesis by simp
  qed (use that in \<open>simp add: div_pos_pos_trivial\<close>)
  have x: "0 \<le> uint x" "uint x < 4294967296" using uint_lt2p [of x] by simp_all
  have "sint x < 0 \<longleftrightarrow> odd (uint x div 2147483648)"
    by (simp add: sint_uint signed_take_bit_negative_iff bit_iff_odd)
  also have "\<dots> \<longleftrightarrow> 2147483648 \<le> uint x" by (rule half [OF x])
  finally show ?thesis by simp
qed

lemma lt_iff: "rtimer_clock_lt a b \<longleftrightarrow> 2 ^ 31 \<le> uint (a - b)"
  unfolding rtimer_clock_lt_def by (rule sint_negative)

lemma lpm_mins: "min (2 :: u8) 0 = 0" "min (2 :: u8) 1 = 1"
  by (simp_all add: min_def word_le_nat_alt)

lemma sleep_window:
  fixes t now :: rtimer_clock
  defines "w \<equiv> (if rtimer_clock_lt t (now + 8) then now + 8 else if rtimer_clock_lt (now + 65536) t then now + 65536 else t)"
  shows "8 \<le> w - now \<and> w - now \<le> 65536"
proof -
  define a where "a = t - now"
  have d: "t - (now + 8) = a - 8" "now + 65536 - t = 65536 - a" "t - now = a" by (simp_all add: a_def)
  have "8 \<le> a \<and> a \<le> 65536" if "\<not> 2 ^ 31 \<le> uint (a - 8)" "\<not> 2 ^ 31 \<le> uint (65536 - a)"
    using that uint_lt2p [of a] by (auto simp: uint_sub_if' word_le_def split: if_splits)
  then show ?thesis by (simp add: w_def lt_iff d)
qed

lemma check_rtimer_ok:
  "fst (check_next_rtimer r now) \<in> {0, 1, 2}"
  "fst (check_next_rtimer r now) = 2 \<Longrightarrow> rtc_enabled r AON_RTC_CH0 \<Longrightarrow>
    \<not> rtimer_clock_lt (rtc_compare r AON_RTC_CH0) (now + STANDBY_MIN_DURATION)"
  by (auto simp: check_next_rtimer_def lpm_modes lpm_mins Let_def split: if_splits)

lemma check_etimer_ok:
  assumes "check_next_etimer r s clk_now now = (pm, e)"
  shows "pm \<in> {0, 1, 2}"
    and "pm = 2 \<Longrightarrow> etimer_pending s \<Longrightarrow> 1 \<le> sint (next_expiration s - clk_now)
      \<and> e = Some (last_isr_time r + (next_expiration s - clk_now) * 512)
      \<and> \<not> rtimer_clock_lt (last_isr_time r + (next_expiration s - clk_now) * 512) (now + STANDBY_MIN_DURATION)"
    and "\<not> etimer_pending s \<Longrightarrow> e = None"
proof -
  let ?d = "next_expiration s - clk_now"
  let ?t = "last_isr_time r + ?d * 512"
  have mult: "RTIMER_SECOND div CLOCK_CONF_SECOND = 512" by (simp add: RTIMER_SECOND_def CLOCK_CONF_SECOND_def)
  have eq: "(pm, e) = (if etimer_pending s then if sint ?d < 1 then (0, None)
      else (if rtimer_clock_lt ?t (now + STANDBY_MIN_DURATION) then 1 else 2, Some ?t) else (2, None))"
    unfolding assms [symmetric] check_next_etimer_def
    by (simp add: lpm_modes lpm_mins Let_def soc_rtc_last_isr_time_def etimer_next_expiration_time_def mult)
  then show "pm \<in> {0, 1, 2}" by (simp split: if_splits)
  show "1 \<le> sint ?d \<and> e = Some ?t \<and> \<not> rtimer_clock_lt ?t (now + STANDBY_MIN_DURATION)"
    if "pm = 2" "etimer_pending s"
    using eq that by (cases "sint ?d < 1"; cases "rtimer_clock_lt ?t (now + STANDBY_MIN_DURATION)") simp_all
  show "e = None" if "\<not> etimer_pending s" using eq that by simp
qed

lemma word_le_2: "(x :: u8) \<le> 2 \<Longrightarrow> x = 0 \<or> x = 1 \<or> x = 2"
proof -
  assume "x \<le> 2"
  then have "unat x = 0 \<or> unat x = 1 \<or> unat x = 2" by (auto simp: word_le_nat_alt)
  then show ?thesis by (auto simp: word_unat_eq_iff)
qed

text \<open>
  The decision. The chip sleeps only when no event waits and as deep as all modules allow. In deep
  sleep, the next \<open>rtimer\<close> and the next event timer are at least 10 ms away, and the chip wakes up at
  the time of the event timer, if there is one; in sleep, it wakes up within a second.
\<close>

lemma sleep_decision:
  assumes "lst_items (modules_list l) ms"
  shows "\<exists>pm r'. setup_sleep_mode l k clk_now r = Some (pm, r')
    \<and> (pm = LPM_MODE_AWAKE \<or> pm = LPM_MODE_SLEEP \<or> pm = LPM_MODE_DEEP_SLEEP)
    \<and> (pm \<noteq> LPM_MODE_AWAKE \<longrightarrow> process_nevents k = 0 \<and> (\<forall>m\<in>set ms. \<forall>p. request_max_pm l m = Some p \<longrightarrow> pm \<le> p))
    \<and> (pm = LPM_MODE_DEEP_SLEEP \<longrightarrow>
        (rtc_enabled r AON_RTC_CH0 \<longrightarrow> \<not> rtimer_clock_lt (rtc_compare r AON_RTC_CH0) (rtc_now r + STANDBY_MIN_DURATION))
        \<and> (if etimer_pending (user k)
           then 1 \<le> sint (next_expiration (user k) - clk_now)
             \<and> rtc_compare r' AON_RTC_CH1 = last_isr_time r + (next_expiration (user k) - clk_now) * 512
             \<and> \<not> rtimer_clock_lt (rtc_compare r' AON_RTC_CH1) (rtc_now r + STANDBY_MIN_DURATION)
           else rtc_compare r' AON_RTC_CH1 = rtc_now r - 1))
    \<and> (pm = LPM_MODE_SLEEP \<longrightarrow> 8 \<le> rtc_compare r' AON_RTC_CH1 - rtc_now r \<and> rtc_compare r' AON_RTC_CH1 - rtc_now r \<le> 65536)
    \<and> (pm \<noteq> LPM_MODE_AWAKE \<longrightarrow> rtc_enabled r' AON_RTC_CH1)"
proof (cases "process_nevents k = 0")
  case False
  then show ?thesis by (simp add: setup_sleep_mode_def lpm_modes)
next
  case True
  from ask_modules_ok [of l "list_head (modules_list l)" ms LPM_MODE_MAX_SUPPORTED] assms obtain m where
    m: "ask_modules l (list_head (modules_list l)) LPM_MODE_MAX_SUPPORTED = Some m" "m \<le> 2"
      "\<forall>x\<in>set ms. \<forall>p. request_max_pm l x = Some p \<longrightarrow> m \<le> p"
    by (auto simp: lst_items_def list_head_def lpm_modes)
  let ?now = "rtc_now r"
  obtain p1 x1 p2 e where c: "check_next_rtimer r ?now = (p1, x1)" "check_next_etimer r (user k) clk_now ?now = (p2, e)"
    by (metis surj_pair)
  define m1 where "m1 = (if p1 < m then p1 else m)"
  define pm where "pm = (if p2 < m1 then p2 else m1)"
  have p1: "p1 \<in> {0, 1, 2}" "p1 = 2 \<Longrightarrow> rtc_enabled r AON_RTC_CH0 \<Longrightarrow>
      \<not> rtimer_clock_lt (rtc_compare r AON_RTC_CH0) (?now + STANDBY_MIN_DURATION)"
    using check_rtimer_ok [of r ?now] c(1) by simp_all
  note p2 = check_etimer_ok [OF c(2)]
  have pm: "pm \<le> p1" "pm \<le> p2" "pm \<le> m" by (auto simp: pm_def m1_def)
  let ?t = "if pm = LPM_MODE_SLEEP then
      (case e of Some t \<Rightarrow> if rtimer_clock_lt t (?now + 8) then ?now + 8
         else if rtimer_clock_lt (?now + 65536) t then ?now + 65536 else t | None \<Rightarrow> ?now + 65536)
    else (case e of Some t \<Rightarrow> t | None \<Rightarrow> ?now - 1)"
  let ?r = "if pm = LPM_MODE_SLEEP \<or> pm = LPM_MODE_DEEP_SLEEP then soc_rtc_schedule_one_shot AON_RTC_CH1 ?t r else r"
  have run: "setup_sleep_mode l k clk_now r = Some (pm, ?r)"
    using True m(1) by (auto simp: setup_sleep_mode_def c pm_def m1_def Let_def lpm_modes MIN_SAFE_SCHEDULE_def
        MAX_SLEEP_TIME_def RTIMER_SECOND_def split: option.splits)
  have modes: "pm = LPM_MODE_AWAKE \<or> pm = LPM_MODE_SLEEP \<or> pm = LPM_MODE_DEEP_SLEEP"
    using word_le_2 [OF order_trans [OF pm(3) m(2)]] by (simp add: lpm_modes)
  have compare: "rtc_compare ?r AON_RTC_CH1 = ?t \<and> rtc_enabled ?r AON_RTC_CH1" if "pm \<noteq> LPM_MODE_AWAKE"
    using that modes by (auto simp: soc_rtc_schedule_one_shot_def rtc_channels)
  have deep: "p1 = 2" "p2 = 2" if "pm = LPM_MODE_DEEP_SLEEP"
    using that pm p1(1) p2(1) by (auto simp: lpm_modes word_le_nat_alt)
  have asked: "\<forall>x\<in>set ms. \<forall>p. request_max_pm l x = Some p \<longrightarrow> pm \<le> p"
    using m(3) pm(3) by (meson order_trans)
  have sleep: "8 \<le> ?t - ?now \<and> ?t - ?now \<le> 65536" if "pm = LPM_MODE_SLEEP"
    using that sleep_window [of _ ?now] by (auto split: option.split)
  have deep_sleep: "(rtc_enabled r AON_RTC_CH0 \<longrightarrow> \<not> rtimer_clock_lt (rtc_compare r AON_RTC_CH0) (?now + STANDBY_MIN_DURATION))
      \<and> (if etimer_pending (user k) then 1 \<le> sint (next_expiration (user k) - clk_now)
         \<and> ?t = last_isr_time r + (next_expiration (user k) - clk_now) * 512
         \<and> \<not> rtimer_clock_lt ?t (?now + STANDBY_MIN_DURATION)
       else ?t = ?now - 1)" if "pm = LPM_MODE_DEEP_SLEEP"
    using p1(2) [OF deep(1) [OF that]] p2(2) [OF deep(2) [OF that]] p2(3) that by (simp add: lpm_modes)
  show ?thesis
    using True modes asked sleep deep_sleep compare by (intro exI [of _ pm] exI [of _ ?r] conjI run) (auto simp: lpm_modes)
qed

end
