(* ===== verification/Kernel_Props.thy ===== *)
theory Kernel_Props
  imports Relay_Kernel Sensors_Process Power_Save
begin

text \<open>
  The properties of the operating system under the devices: its scheduler, clock and timers, the process of
  the sensors, the sleep of the chip, and the relay device as processes of the kernel; with their witnesses.
\<close>

section \<open>A kernel with two processes\<close>

text \<open>Two running processes at \<open>a\<close> and \<open>b\<close>, of which the first is to be polled.\<close>

definition kernel_with :: "'u \<Rightarrow> ptr \<Rightarrow> ptr \<Rightarrow> 'u kernel" where
  "kernel_with u a b = (kernel_boot u)\<lparr>process_list := a, p_next := (\<lambda>_. 0)(a := b),
     p_state := (\<lambda>_. PROCESS_STATE_RUNNING), p_needspoll := (\<lambda>p. p = a), poll_requested := True\<rparr>"

lemma kernel_with_ok:
  assumes "a \<noteq> 0" "b \<noteq> 0" "a \<noteq> b"
  shows "kernel_ok (kernel_with u a b)" "procs (kernel_with u a b) = [a, b]" "pending (kernel_with u a b) = []"
    "will_poll a (kernel_with u a b)" "p_state (kernel_with u a b) p = PROCESS_STATE_RUNNING"
    "p_needspoll (kernel_with u a b) p \<longleftrightarrow> p = a" "user (kernel_with u a b) = u" "may_poll a (kernel_with u a b)"
    "process_current (kernel_with u a b) = 0"
proof -
  have "items (p_next (kernel_with u a b)) (process_list (kernel_with u a b)) [a, b]"
    using assms by (simp add: kernel_with_def)
  then show "procs (kernel_with u a b) = [a, b]" and "kernel_ok (kernel_with u a b)"
    unfolding kernel_ok_def
    by (rule procs_items, intro conjI exI, assumption) (simp_all add: kernel_with_def kernel_boot_def PROCESS_CONF_NUMEVENTS_def)
qed (use assms kernel_boot_ok(2) [of u] in \<open>simp_all add: kernel_with_def will_poll_def may_poll_def, simp_all add: kernel_boot_def\<close>)

section \<open>The scheduler\<close>

text \<open>C11. Whatever the threads of the processes do: the list of processes stays a list without
  repetition, and the queue of events is a bounded queue. Posting appends an event when there are
  fewer than 32 and otherwise returns PROCESS_ERR_FULL and changes nothing; a pass of the scheduler, if it
  ends, lets events in only at the end and takes at most one out, the oldest, and returns how much is left.\<close>

theorem scheduler_fifo:
  assumes "kernel_ok k"
  shows "(if length (pending k) < 32
      then fst (process_post p ev d k) = PROCESS_ERR_OK \<and> kernel_ok (snd (process_post p ev d k))
        \<and> pending (snd (process_post p ev d k)) = pending k @ [\<lparr>ed_ev = ev, ed_data = d, ed_p = p\<rparr>]
      else process_post p ev d k = (PROCESS_ERR_FULL, k))
    \<and> (\<forall>T n r k'. process_run T n k = Some (r, k') \<longrightarrow>
        kernel_ok k' \<and> r = process_nevents k' \<and> (\<exists>es es'. pending k' = tl (pending k @ es) @ es'))"
  using process_post_ok [OF assms, of p ev d] process_run_queue [OF assms] by blast

theorem scheduler_fifo_witness:
  "\<exists>k k'. process_post 8 PROCESS_EVENT_CONTINUE 5 (kernel_boot (0 :: nat)) = (PROCESS_ERR_OK, k)
    \<and> pending k = [\<lparr>ed_ev = PROCESS_EVENT_CONTINUE, ed_data = 5, ed_p = 8\<rparr>]
    \<and> process_run \<lparr>p_thread = (\<lambda>_. None), pt_init = (\<lambda>_ u. u)\<rparr> 2 k = Some (0, k') \<and> kernel_ok k'"
proof -
  let ?T = "\<lparr>p_thread = (\<lambda>_. None), pt_init = (\<lambda>_ u. u)\<rparr> :: nat threads"
  obtain k where post: "process_post 8 PROCESS_EVENT_CONTINUE 5 (kernel_boot (0 :: nat)) = (PROCESS_ERR_OK, k)"
    and k: "kernel_ok k" "pending k = [\<lparr>ed_ev = PROCESS_EVENT_CONTINUE, ed_data = 5, ed_p = 8\<rparr>]"
    using scheduler_fifo [OF kernel_boot_ok(1) [of "0 :: nat"], of 8 PROCESS_EVENT_CONTINUE 5]
      kernel_boot_ok(2) [of "0 :: nat"]
    by (cases "process_post 8 PROCESS_EVENT_CONTINUE 5 (kernel_boot (0 :: nat))") auto
  have poll: "\<not> poll_requested k" "p_state k 8 = PROCESS_STATE_NONE"
    using post by (auto simp: process_post_def kernel_boot_def Let_def split: if_splits)
  obtain k' where k': "do_event ?T (Suc (Suc 0)) k = Some k'" "pending k' = []" "\<not> poll_requested k'"
    using do_event_drops [OF k, of ?T "Suc 0"] poll by (auto simp: process_events)
  have two: "2 = Suc (Suc 0)" by simp
  have "process_run ?T 2 k = Some (process_nevents k', k')"
    using poll k'(1) unfolding two by (simp add: process_run_def)
  moreover have "kernel_ok k'" using scheduler_fifo [OF k(1)] calculation by blast
  moreover have "process_nevents k' = 0" using k'(2,3) length_pending(2) [of k'] by (simp add: process_nevents_def)
  ultimately show ?thesis using post k(2) by auto
qed

section \<open>Clock and timers\<close>

text \<open>C33. The loop of clock_time ends in the first round in which the seconds stay as they are, and when
  the real-time clock of the chip does not run backwards, the result is a time the clock really had between
  the first and the last of its accesses, in ticks of 1/128 s modulo 2^32, although the
  seconds and their fractions are read from two registers.\<close>

theorem clock_time_is_real:
  assumes "rtc_seconds (aon (i + 3 * m)) = rtc_seconds (aon (i + 3 * m + 2))" "\<And>j. unat (aon j) \<le> unat (aon (j + 1))"
  shows "\<exists>now i' j. clock_time aon i = Some (now, i') \<and> i' \<le> i + 3 * m + 3 \<and> i < j \<and> j < i'
    \<and> now = of_nat (unat (aon j) div 2 ^ 25)"
proof -
  obtain now i' where c: "clock_time aon i = Some (now, i')" "i' \<le> i + 3 * m + 3"
    using clock_time_returns [OF assms(1)] by blast
  from clock_time_ok [OF c(1) assms(2)] obtain j where "i < j" "j < i'" "now = ticks (aon j)" by blast
  moreover have "ticks (aon j) = of_nat (unat (aon j) div 2 ^ 25)"
    using unsigned_less [of "aon j", where ?'a = nat]
    by (simp add: ticks_def word_unat_eq_iff unsigned_ucast_eq unsigned_drop_bit_eq take_bit_eq_mod drop_bit_eq_div [where ?'a = nat] unat_of_nat)
  ultimately show ?thesis using c by auto
qed

theorem clock_time_is_real_witness:
  "\<exists>i'. clock_time (\<lambda>j. if j = 0 then 0x0FFFFFFFF else 0x100000000) 0 = Some (128, i') \<and> i' \<le> 6"
proof -
  let ?aon = "\<lambda>j :: nat. if j = 0 then 0x0FFFFFFFF else 0x100000000 :: 64 word"
  have pre: "rtc_seconds (?aon (0 + 3 * 1)) = rtc_seconds (?aon (0 + 3 * 1 + 2))" "\<And>j. unat (?aon j) \<le> unat (?aon (j + 1))"
    by simp_all
  obtain now i' j where "clock_time ?aon 0 = Some (now, i')" "i' \<le> 0 + 3 * 1 + 3" "0 < j"
    "now = of_nat (unat (?aon j) div 2 ^ 25)"
    using clock_time_is_real [of ?aon 0 1, OF pre] by blast
  then show ?thesis by auto
qed

text \<open>C10. From an expired timer to its process: when nothing waits but a poll of the process of the
  event timers, and a timer of its list has expired at every reading of the clock, one pass of the
  scheduler ends in running, in its own context, the thread of a process whose timer had expired when it was
  looked at, with PROCESS_EVENT_TIMER and that timer; the timer then counts as expired, the events
  of the further timers wait in the queue, and exactly these timers have left the list.\<close>

theorem expired_timer_wakes_process:
  fixes T :: "('a timers_scheme) threads"
  assumes "p_thread T ep = Some (etimer_process clk ep n)"
    "\<forall>t\<in>set xs. p_thread T (et_p (user k) t) = Some (Th t) \<and> p_state k (et_p (user k) t) = PROCESS_STATE_RUNNING"
    "timers_ok (user k) xs" "et_started (user k)" "poll_fuel xs \<le> n"
    "kernel_ok k" "pending k = []" "will_poll ep k" "ep \<in> set (procs k)" "\<forall>q\<in>set (procs k). q \<noteq> ep \<longrightarrow> \<not> p_needspoll k q"
    "t0 \<in> set xs" "\<forall>i\<ge>clock_reads (user k). expired_at (user k) t0 (clk i)" "length (procs k) + 2 \<le> m"
  shows "\<exists>t ts k1. process_run T (Suc m) k = Option.bind (run_thread (kernel_run T m) (Th t PROCESS_EVENT_TIMER t (user k1)) k1)
      (\<lambda>(ret, k2). Option.bind (after_call (kernel_run T m) (et_p (user k) t) PROCESS_EVENT_TIMER ret k2) (\<lambda>k3. Some (process_nevents k3, k3)))
    \<and> t \<in> set xs \<and> expired_in clk (user k) t (clock_reads (user k1)) True \<and> etimer_expired (user k1) t
    \<and> process_current k1 = et_p (user k) t \<and> pending k1 = map (timer_event (user k)) ts
    \<and> timers_ok (user k1) (filter (\<lambda>a. a \<notin> set (t # ts)) xs)"
  by (rule timer_wakes [OF assms])

text \<open>A timer at 100, set by the process at 16 for 3 ticks, and the time 7.\<close>

definition timers0 :: timers where
  "timers0 = \<lparr>tm_start = (\<lambda>_. 0), tm_interval = (\<lambda>_. 3), et_next = (\<lambda>_. 0), et_p = (\<lambda>_. 0)(100 := 16),
     timerlist = 100, next_expiration = 3, et_started = True, clock_reads = 0\<rparr>"

theorem expired_timer_wakes_process_witness:
  "\<exists>r k. process_run \<lparr>p_thread = (\<lambda>p. if p = 8 then Some (etimer_process (\<lambda>_. 7) 8 4) else if p = 16
      then Some (\<lambda>ev d s. Ret PT_YIELDED (s\<lparr>next_expiration := of_nat d\<rparr>)) else None), pt_init = (\<lambda>_ u. u)\<rparr> 5 (kernel_with timers0 8 16)
    = Some (r, k) \<and> next_expiration (user k) = 100"
proof -
  let ?Th = "\<lambda>t :: ptr. \<lambda>(ev :: u8) d (s :: timers). Ret PT_YIELDED (s\<lparr>next_expiration := of_nat d\<rparr>)"
  let ?T = "\<lparr>p_thread = (\<lambda>p. if p = 8 then Some (etimer_process (\<lambda>_. 7) 8 4) else if p = 16
      then Some (?Th 100) else None), pt_init = (\<lambda>_ u. u)\<rparr> :: timers threads"
  let ?k = "kernel_with timers0 8 16"
  have "(8 :: ptr) \<noteq> 0" "(16 :: ptr) \<noteq> 0" "(8 :: ptr) \<noteq> 16" by simp_all
  note k = kernel_with_ok [OF this, of timers0]
  have T: "p_thread ?T 8 = Some (etimer_process (\<lambda>_. 7) 8 4)"
    "\<forall>t\<in>set [100]. p_thread ?T (et_p (user ?k) t) = Some (?Th t) \<and> p_state ?k (et_p (user ?k) t) = PROCESS_STATE_RUNNING"
    using k(5,7) by (simp_all add: timers0_def)
  have s: "timers_ok (user ?k) [100]" "et_started (user ?k)" "poll_fuel [100 :: ptr] \<le> 4"
    "\<forall>i\<ge>clock_reads (user ?k). expired_at (user ?k) 100 ((\<lambda>_. 7) i)"
    using k(7) by (simp_all add: timers_ok_def timers0_def poll_fuel_def expired_at_def)
  have procs: "8 \<in> set (procs ?k)" "\<forall>q\<in>set (procs ?k). q \<noteq> 8 \<longrightarrow> \<not> p_needspoll ?k q" "length (procs ?k) + 2 \<le> 4" "100 \<in> set [100 :: ptr]"
    using k(2,6) by simp_all
  obtain t k1 where run: "process_run ?T (Suc 4) ?k = Option.bind (run_thread (kernel_run ?T 4) (?Th t PROCESS_EVENT_TIMER t (user k1)) k1)
      (\<lambda>(ret, k2). Option.bind (after_call (kernel_run ?T 4) (et_p (user ?k) t) PROCESS_EVENT_TIMER ret k2) (\<lambda>k3. Some (process_nevents k3, k3)))"
    "t \<in> set [100]"
    using expired_timer_wakes_process [OF T s(1-3) k(1,3,4) procs(1,2,4) s(4) procs(3)] by blast
  have five: "5 = Suc (4 :: nat)" by simp
  show ?thesis
    using run unfolding five by (simp add: after_call_def PT_YIELDED_def PT_EXITED_def PT_ENDED_def process_events)
qed

text \<open>C28. A callback timer that is set, from any process and whether it was on the list before or not, calls
  its function at the next event of its event timer, with its argument and in the context of the
  process that set it, and at a second event not any more; setting it posts no event and leaves the running
  process as it is. But the event that calls the function may be one that was posted before the timer was set
  again: the function is called although the event timer has not expired.\<close>

theorem ctimer_calls_function_once:
  fixes k :: "('a ctimers_scheme) kernel"
  assumes "ctimers_are s cs" "timers_ok s xs" "ct_initialized s" "ct_started s" "c \<noteq> 0" "cp \<noteq> 0" "f \<noteq> 0"
    "kernel_ok k" "may_poll ep k"
  shows "\<exists>s' k'. run_thread sub (ctimer_set clk ep cp c t f pt cont s) k = run_thread sub (cont s') k'
    \<and> pending k' = pending k \<and> process_current k' = process_current k \<and> \<not> etimer_expired s' (ct_etimer c)
    \<and> (\<exists>l. run_thread sub (ctimer_process clk ep n cb PROCESS_EVENT_TIMER (ct_etimer c) s') k2 =
        run_thread sub (cb f pt (\<lambda>s. Call (Set_Current (process_current k2)) s (\<lambda>_. Ret PT_YIELDED)) (s'\<lparr>ctimer_list := l\<rparr>))
          (k2\<lparr>user := s'\<lparr>ctimer_list := l\<rparr>, process_current := process_current k\<rparr>)
      \<and> run_thread sub (ctimer_process clk ep n cb PROCESS_EVENT_TIMER (ct_etimer c) (s'\<lparr>ctimer_list := l\<rparr>)) k2 =
        Some (PT_YIELDED, k2\<lparr>user := s'\<lparr>ctimer_list := l\<rparr>\<rparr>))"
  by (rule ctimer_calls_once [OF assms])

definition ctimers0 :: ctimers where
  "ctimers0 = \<lparr>tm_start = (\<lambda>_. 0), tm_interval = (\<lambda>_. 0), et_next = (\<lambda>_. 0), et_p = (\<lambda>_. 0),
     timerlist = 0, next_expiration = 0, et_started = True, clock_reads = 0,
     ctimer_list = \<lparr>lst_head = 0, lst_next = (\<lambda>_. 0)\<rparr>, ct_p = (\<lambda>_. 0), ct_f = (\<lambda>_. 0), ct_ptr = (\<lambda>_. 0),
     ct_initialized = True, ct_started = True\<rparr>"

theorem ctimer_calls_function_once_witness:
  "\<exists>s' k'. run_thread (\<lambda>_ _. None) (ctimer_set (\<lambda>_. 0) 8 24 40 5 77 99 (Ret PT_YIELDED) ctimers0) (kernel_with ctimers0 8 16)
      = Some (PT_YIELDED, k'\<lparr>user := s'\<rparr>) \<and> \<not> etimer_expired s' 44
    \<and> (\<exists>k. run_thread (\<lambda>_ _. None) (ctimer_process (\<lambda>_. 0) 8 1 (\<lambda>f pt c s. c (s\<lparr>next_expiration := of_nat (f + pt)\<rparr>))
        PROCESS_EVENT_TIMER 44 s') (kernel_with ctimers0 8 16) = Some (PT_YIELDED, k) \<and> next_expiration (user k) = 176)"
proof -
  have ne: "(8 :: ptr) \<noteq> 0" "(16 :: ptr) \<noteq> 0" "(8 :: ptr) \<noteq> 16" by simp_all
  note k = kernel_with_ok [OF ne, of ctimers0]
  let ?cb = "\<lambda>f pt c s. c (s\<lparr>next_expiration := of_nat (f + pt)\<rparr>)"
  have pre: "ctimers_are ctimers0 []" "timers_ok ctimers0 []" "ct_initialized ctimers0" "ct_started ctimers0"
    "(40 :: ptr) \<noteq> 0" "(24 :: ptr) \<noteq> 0" "(77 :: ptr) \<noteq> 0"
    by (simp_all add: ctimers0_def lst_items_def timers_ok_def)
  have et: "ct_etimer 40 = 44" by (simp add: ct_etimer_def)
  from ctimer_calls_function_once [OF pre k(1,8), where sub = "\<lambda>_ _. None" and clk = "\<lambda>_. 0" and t = 5 and pt = 99
      and cont = "Ret PT_YIELDED" and n = 1 and cb = ?cb and ?k2.0 = "kernel_with ctimers0 8 16", unfolded et]
  show ?thesis by (fastforce simp: kernel_call_def)
qed

section \<open>Sensors\<close>

text \<open>C27. When the sensor \<open>i\<close> of an application has changed and the process of the sensors gets an event, then with
  room in the queue it announces the first changed sensor, which is \<open>i\<close> or one before it, to all
  processes, and waits for this event with all marks kept; with a full queue it posts nothing and
  yet clears the mark of every sensor: the changes, such as the press of a button, are lost.\<close>

theorem sensor_change_announced_or_lost:
  assumes "kernel_ok k" "sensors_ok sensors v" "sp_lc v = 1" "i < length sensors" "sensor_changed v i"
    "2 * length sensors + 1 < n"
  shows "\<exists>k'. run_thread sub (sensors_process sensors configure n ev d v) k = Some (PT_YIELDED, k') \<and> kernel_ok k'
    \<and> (if length (pending k) < 32
       then \<exists>j\<le>i. (\<forall>l<j. \<not> sensor_changed v l) \<and> sensor_changed v j \<and> pending k' = pending k @ [sensor_event sensors v j]
         \<and> sp_lc (user k') = 2 \<and> sp_i (user k') = j \<and> sensors_flags (user k') = sensors_flags v
       else pending k' = pending k \<and> sp_lc (user k') = 1 \<and> (\<forall>l<length sensors. \<not> sensor_changed (user k') l))"
  by (rule sensors_announced_or_lost [OF assms])

text \<open>Two sensors, of which the second has changed; a queue with room, and a full one.\<close>

definition sensors0 :: sensor_vars where
  "sensors0 = \<lparr>sensors_flags = [0, 0x80, 0], sensors_event = 0x8B, num_sensors = 2, sp_i = 2, sp_events = 0, sp_lc = 1\<rparr>"

theorem sensor_change_announced_or_lost_witness:
  "(\<exists>k. run_thread (\<lambda>_ _. None) (sensors_process [200, 300] (\<lambda>_ c. c) 10 0x82 0 sensors0) (kernel_with sensors0 8 16) = Some (PT_YIELDED, k)
      \<and> pending k = [\<lparr>ed_ev = 0x8B, ed_data = 300, ed_p = PROCESS_BROADCAST\<rparr>])
    \<and> (\<exists>k. run_thread (\<lambda>_ _. None) (sensors_process [200, 300] (\<lambda>_ c. c) 10 0x82 0 sensors0) ((kernel_with sensors0 8 16)\<lparr>nevents := 32\<rparr>)
        = Some (PT_YIELDED, k) \<and> length (pending k) = 32 \<and> \<not> sensor_changed (user k) 1)"
proof -
  have ne: "(8 :: ptr) \<noteq> 0" "(16 :: ptr) \<noteq> 0" "(8 :: ptr) \<noteq> 16" by simp_all
  let ?k = "kernel_with sensors0 8 16" and ?s = "[200, 300] :: ptr list"
  let ?full = "?k\<lparr>nevents := 32\<rparr>"
  note k = kernel_with_ok [OF ne, of sensors0]
  have full: "kernel_ok ?full" "length (pending ?full) = 32" using k(1) length_pending(2) [of ?full] by (simp_all add: kernel_ok_def)
  have pre: "sensors_ok ?s sensors0" "sp_lc sensors0 = 1" "1 < length ?s" "sensor_changed sensors0 1" "2 * length ?s + 1 < 10"
    by (simp_all add: sensors_ok_def sensors0_def sensor_changed_def FLAG_CHANGED_def)
  have "\<not> sensor_changed sensors0 0" by (simp add: sensors0_def sensor_changed_def)
  then have one: "j \<le> 1 \<Longrightarrow> sensor_changed sensors0 j \<Longrightarrow> j = 1" for j by (cases j) auto
  obtain k0 j where "run_thread (\<lambda>_ _. None) (sensors_process ?s (\<lambda>_ c. c) 10 0x82 0 sensors0) ?k = Some (PT_YIELDED, k0)"
      "j \<le> 1" "sensor_changed sensors0 j" "pending k0 = [sensor_event ?s sensors0 j]"
    using sensor_change_announced_or_lost [OF k(1) pre, of "\<lambda>_ _. None" "\<lambda>_ c. c" "0x82" 0] k(3) by auto
  with one [of j] have "\<exists>k. run_thread (\<lambda>_ _. None) (sensors_process ?s (\<lambda>_ c. c) 10 0x82 0 sensors0) ?k = Some (PT_YIELDED, k)
      \<and> pending k = [sensor_event ?s sensors0 1]" by auto
  moreover have "sensor_event ?s sensors0 1 = \<lparr>ed_ev = 0x8B, ed_data = 300, ed_p = PROCESS_BROADCAST\<rparr>"
    by (simp add: sensor_event_def sensors0_def)
  moreover obtain k' where "run_thread (\<lambda>_ _. None) (sensors_process ?s (\<lambda>_ c. c) 10 0x82 0 sensors0) ?full = Some (PT_YIELDED, k')"
      "length (pending k') = 32" "\<not> sensor_changed (user k') 1"
    using sensor_change_announced_or_lost [OF full(1) pre, of "\<lambda>_ _. None" "\<lambda>_ c. c" "0x82" 0] full(2) by auto
  ultimately show ?thesis by auto
qed

section \<open>Sleep\<close>

text \<open>C29. lpm_drop puts the chip to sleep only when no event and no poll waits, and never deeper than each
  registered module permits. Into deep sleep it goes only when the next rtimer, if there is one,
  and the next event timer, if there is one, are at least 10 ms away, and it then wakes up exactly at the
  time of the event timer, counted from the last tick of the clock, or else after a full round of
  the clock; from sleep it wakes up after at least 8 units and at most a second.\<close>

theorem sleep_is_safe:
  assumes "lst_items (modules_list l) ms"
  shows "\<exists>pm r'. setup_sleep_mode l k clk_now r = Some (pm, r')
    \<and> (pm = LPM_MODE_AWAKE \<or> pm = LPM_MODE_SLEEP \<or> pm = LPM_MODE_DEEP_SLEEP)
    \<and> (pm \<noteq> LPM_MODE_AWAKE \<longrightarrow> process_nevents k = 0 \<and> (\<forall>m\<in>set ms. \<forall>p. request_max_pm l m = Some p \<longrightarrow> pm \<le> p))
    \<and> (pm = LPM_MODE_DEEP_SLEEP \<longrightarrow>
        (rtc_enabled r AON_RTC_CH0 \<longrightarrow> \<not> rtimer_clock_lt (rtc_compare r AON_RTC_CH0) (rtc_now r + STANDBY_MIN_DURATION))
        \<and> (if etimer_pending (user k)
           then 1 \<le> sint (next_expiration (user k) - clk_now)
             \<and> rtc_compare r' AON_RTC_CH1 = last_isr_time r + (next_expiration (user k) - clk_now) * 512
             \<and> \<not> rtimer_clock_lt (rtc_compare r' AON_RTC_CH1) (rtc_now r + STANDBY_MIN_DURATION)
           else rtc_compare r' AON_RTC_CH1 = rtc_now r - 1))
    \<and> (pm = LPM_MODE_SLEEP \<longrightarrow> 8 \<le> rtc_compare r' AON_RTC_CH1 - rtc_now r \<and> rtc_compare r' AON_RTC_CH1 - rtc_now r \<le> 65536)
    \<and> (pm \<noteq> LPM_MODE_AWAKE \<longrightarrow> rtc_enabled r' AON_RTC_CH1)"
  by (rule sleep_decision [OF assms])

text \<open>No module, no event, a timer 3 ticks ahead: deep sleep until its time.\<close>

theorem sleep_is_safe_witness:
  "\<exists>r'. setup_sleep_mode \<lparr>modules_list = \<lparr>lst_head = 0, lst_next = (\<lambda>_. 0)\<rparr>, request_max_pm = (\<lambda>_. None), domain_lock = (\<lambda>_. 0)\<rparr>
      (kernel_boot timers0) 0 \<lparr>rtc_now = 5, rtc_compare = (\<lambda>_. 0), rtc_enabled = (\<lambda>_. False), rtc_event = (\<lambda>_. False), last_isr_time = 2\<rparr>
      = Some (LPM_MODE_DEEP_SLEEP, r') \<and> rtc_compare r' AON_RTC_CH1 = 1538"
proof -
  let ?l = "\<lparr>modules_list = \<lparr>lst_head = 0, lst_next = (\<lambda>_. 0)\<rparr>, request_max_pm = (\<lambda>_. None), domain_lock = (\<lambda>_. 0)\<rparr>"
  let ?r = "\<lparr>rtc_now = 5, rtc_compare = (\<lambda>_. 0), rtc_enabled = (\<lambda>_. False), rtc_event = (\<lambda>_. False), last_isr_time = 2\<rparr>"
  let ?k = "kernel_boot timers0"
  have l: "lst_items (modules_list ?l) []" by (simp add: lst_items_def)
  have k: "process_nevents ?k = 0" "user ?k = timers0" by (simp_all add: process_nevents_def kernel_boot_def)
  have s: "etimer_pending timers0" "etimer_next_expiration_time timers0 = 3" "next_expiration timers0 = 3"
    by (simp_all add: timers0_def etimer_pending_def etimer_next_expiration_time_def)
  have far: "\<not> rtimer_clock_lt 1538 (5 + STANDBY_MIN_DURATION)" "RTIMER_SECOND div CLOCK_CONF_SECOND = 512" "\<not> sint (3 :: u32) < 1"
    by (simp_all add: lt_iff STANDBY_MIN_DURATION_def RTIMER_SECOND_def CLOCK_CONF_SECOND_def)
  have etimer: "check_next_etimer ?r timers0 0 5 = (LPM_MODE_DEEP_SLEEP, Some 1538)"
    using far by (simp add: check_next_etimer_def s soc_rtc_last_isr_time_def LPM_MODE_MAX_SUPPORTED_def Let_def)
  have modules: "ask_modules ?l (list_head (modules_list ?l)) LPM_MODE_MAX_SUPPORTED = Some LPM_MODE_DEEP_SLEEP"
    by (simp add: ask_modules.simps list_head_def LPM_MODE_MAX_SUPPORTED_def)
  have rtimer: "check_next_rtimer ?r 5 = (LPM_MODE_DEEP_SLEEP, None)"
    by (simp add: check_next_rtimer_def LPM_MODE_MAX_SUPPORTED_def)
  have "\<exists>r'. setup_sleep_mode ?l ?k 0 ?r = Some (LPM_MODE_DEEP_SLEEP, r')"
    using modules rtimer etimer k by (simp add: setup_sleep_mode_def lpm_modes Let_def)
  moreover from sleep_is_safe [OF l, of ?k 0 ?r] obtain pm r' where
    "setup_sleep_mode ?l ?k 0 ?r = Some (pm, r')"
    "pm = LPM_MODE_DEEP_SLEEP \<longrightarrow> rtc_compare r' AON_RTC_CH1 = last_isr_time ?r + (next_expiration timers0 - 0) * 512"
    unfolding k(2) using s(1) by (elim exE conjE) simp
  ultimately show ?thesis using s(3) by auto
qed

section \<open>The relay device on the kernel\<close>

text \<open>C4. The radio hands up all packets it has received before any other process runs, and every command waits in
  the same variable message_for_main_process. So of several commands for a relay that arrive together, main_process
  executes the last one, once for each of them, and the others never; the relay and its pin are as
  if the host had sent the last command that many times. With a single command this is the
  command itself.\<close>

theorem commands_together_execute_last:
  fixes T :: "(('d, 'r) app) threads"
  assumes "relay_board ti fine imem level" "relay_fit fine imem level (app_relay (user k))"
    "p_thread T rf = Some (rf_core_process L E t)" "p_thread T (app_process L main_process) = Some (relay_main ti)"
    "app_process L main_process \<noteq> 0" "message_address L \<noteq> 0" "rf \<noteq> app_process L main_process"
    "kernel_ok k" "pending k = []" "will_poll rf k" "rf \<in> set (procs k)" "\<forall>q\<in>set (procs k). q \<noteq> rf \<longrightarrow> \<not> p_needspoll k q"
    "p_state k (app_process L main_process) = PROCESS_STATE_RUNNING" "2 \<le> main_lc (user k)" "node_up (app_node (user k))"
    "list_all2 (command_datagram E b) cs (app_rx (user k))" "cs \<noteq> []" "length cs \<le> 32"
    "length (procs k) \<le> m"
  shows "\<exists>k'. run_until_idle T (Suc m) (Suc (length cs)) k = Some k'
    \<and> relay_state b (app_relay (user k')) = (next_state (last cs) ^^ length cs) (relay_state b (app_relay (user k)))
    \<and> (level (relay_dev (app_relay (user k'))) (relay_pin b) \<longleftrightarrow> relay_state b (app_relay (user k')) = 1)"
proof -
  obtain k' where "run_until_idle T (Suc m) (Suc (length cs)) k = Some k'" "relay_fit fine imem level (app_relay (user k'))"
    "relay_state b (app_relay (user k')) = (next_state (last cs) ^^ length cs) (relay_state b (app_relay (user k)))"
    using commands_received [OF assms] by blast
  then show ?thesis by (auto simp: relay_fit_def channel_ok_def)
qed

text \<open>OFF and then TOGGLE for relay 1, which is off: it ends off, although the commands one after the other switch it on.\<close>

definition command0_datagram :: "u8 \<Rightarrow> datagram" where
  "command0_datagram command = \<lparr>dg_sender = [], dg_data = (\<lambda>i. ([PROTOCOL_VERSION_V1, 1, DATA_TYPE_COMMAND,
     DEVICE_ABILITY_RELAY, DEVICE_ABILITY_RELAY_1, command] @ replicate 10 0) ! i), dg_len = 10\<rparr>"

definition app0 :: "(board, pin_board) app" where
  "app0 = \<lparr>app_node = node0, app_relay = relay0, app_rx = [command0_datagram 0, command0_datagram 0x80], main_lc = 2\<rparr>"

definition layout0 :: app_layout where
  "layout0 = \<lparr>app_process = (\<lambda>p. if p = main_process then 16 else 24), message_address = 500\<rparr>"

theorem commands_together_execute_last_witness:
  "\<exists>k. run_until_idle \<lparr>p_thread = (\<lambda>p. if p = 8 then Some (rf_core_process layout0 env0 clock0)
        else if p = 16 then Some (relay_main pin_ti) else None), pt_init = (\<lambda>_ u. u)\<rparr> 3 3 (kernel_with app0 8 16) = Some k
    \<and> relay_1_state (app_relay (user k)) = 0 \<and> next_state 0x80 (next_state 0 0) = 1"
proof -
  have ne: "(8 :: ptr) \<noteq> 0" "(16 :: ptr) \<noteq> 0" "(8 :: ptr) \<noteq> 16" by simp_all
  note k = kernel_with_ok [OF ne, of app0]
  let ?k = "kernel_with app0 8 16" and ?cs = "[0, 0x80] :: u8 list"
  let ?T = "\<lparr>p_thread = (\<lambda>p. if p = 8 then Some (rf_core_process layout0 env0 clock0)
        else if p = 16 then Some (relay_main pin_ti) else None), pt_init = (\<lambda>_ u. u)\<rparr> :: ((board, pin_board) app) threads"
  have L: "app_process layout0 main_process = 16" "message_address layout0 = 500" by (simp_all add: layout0_def)
  have u: "app_relay (user ?k) = relay0" "app_node (user ?k) = node0" "main_lc (user ?k) = 2"
    "app_rx (user ?k) = [command0_datagram 0, command0_datagram 0x80]"
    unfolding k(7) by (simp_all add: app0_def)
  have fit: "relay_fit pin_closed pin_flash pin_level (app_relay (user ?k))"
    unfolding u(1) relay_fit_def using relay0_ok by blast
  have g: "command_datagram env0 False c (command0_datagram c)" for c
    by (simp add: command_datagram_def command0_datagram_def relay_number_def numeral_nat All_less_Suc2)
  have T: "p_thread ?T 8 = Some (rf_core_process layout0 env0 clock0)"
    "p_thread ?T (app_process layout0 main_process) = Some (relay_main pin_ti)"
    "app_process layout0 main_process \<noteq> 0" "message_address layout0 \<noteq> 0" "8 \<noteq> app_process layout0 main_process"
    using L by simp_all
  have pre: "8 \<in> set (procs ?k)" "\<forall>q\<in>set (procs ?k). q \<noteq> 8 \<longrightarrow> \<not> p_needspoll ?k q"
    "2 \<le> main_lc (user ?k)" "node_up (app_node (user ?k))" "list_all2 (command_datagram env0 False) ?cs (app_rx (user ?k))"
    "?cs \<noteq> []" "length ?cs \<le> 32" "length (procs ?k) \<le> 2"
    using k(2,6) u g by simp_all
  have steps: "(next_state (last ?cs) ^^ length ?cs) (relay_state False (app_relay (user ?k))) = 0"
    unfolding u(1) relay0_ok(4) by (simp add: next_state_def relay_consts)
  have three: "Suc 2 = (3 :: nat)" "Suc (length ?cs) = 3" by simp_all
  from commands_together_execute_last [OF pin_relay.relay_board_axioms fit T k(1,3,4) pre(1,2) k(5) pre(3-8)]
  obtain k' where "run_until_idle ?T 3 3 ?k = Some k'" "relay_state False (app_relay (user k')) = 0"
    unfolding steps three by blast
  then show ?thesis by (auto simp: relay_state_def next_state_def relay_consts)
qed

end
