(* ===== verification/Memory_Block.thy ===== *)
theory Memory_Block
  imports Linked_List
begin

text \<open>
  Pools of equal memory blocks, \<open>core/lib/memb.c\<close>: a usage count per block and the blocks one behind
  the other in memory. The locale \<open>block_pool\<close> is what clients of a pool rely on, and
  the functions of the file are its instance.
\<close>

section \<open>memb.c\<close>

text \<open>The arrays that \<open>count\<close> and \<open>mem\<close> point to belong to the pool; \<open>memory\<close> is the memory by address.\<close>

record memb =
  memb_size :: nat
  memb_num :: nat
  memb_count :: "u8 list"
  memb_mem :: ptr
  memory :: mem

definition memb_init :: "memb \<Rightarrow> memb" where
  "memb_init m = m\<lparr>memb_count := replicate (memb_num m) 0 @ drop (memb_num m) (memb_count m),
     memory := (\<lambda>a. if memb_mem m \<le> a \<and> a < memb_mem m + memb_size m * memb_num m then 0 else memory m a)\<rparr>"

text \<open>The loop over \<open>i\<close>, with the number of rounds that are left.\<close>

fun memb_alloc_loop :: "memb \<Rightarrow> nat \<Rightarrow> nat \<Rightarrow> (ptr \<times> memb) option" where
  "memb_alloc_loop m i 0 = Some (0, m)"
| "memb_alloc_loop m i (Suc n) =
    (if length (memb_count m) \<le> i then None
     else if memb_count m ! i = 0
     then Some (memb_mem m + i * memb_size m, m\<lparr>memb_count := (memb_count m)[i := memb_count m ! i + 1]\<rparr>)
     else memb_alloc_loop m (Suc i) n)"

definition memb_alloc :: "memb \<Rightarrow> (ptr \<times> memb) option" where
  "memb_alloc m = memb_alloc_loop m 0 (memb_num m)"

fun memb_free_loop :: "memb \<Rightarrow> ptr \<Rightarrow> ptr \<Rightarrow> nat \<Rightarrow> nat \<Rightarrow> (u8 \<times> memb) option" where
  "memb_free_loop m p ptr2 i 0 = Some (-1, m)"
| "memb_free_loop m p ptr2 i (Suc n) =
    (if ptr2 = p then
       if length (memb_count m) \<le> i then None
       else let m = (if memb_count m ! i > 0
                     then m\<lparr>memb_count := (memb_count m)[i := memb_count m ! i - 1]\<rparr> else m)
         in Some (memb_count m ! i, m)
     else memb_free_loop m p (ptr2 + memb_size m) (Suc i) n)"

definition memb_free :: "memb \<Rightarrow> ptr \<Rightarrow> (u8 \<times> memb) option" where
  "memb_free m p = memb_free_loop m p (memb_mem m) 0 (memb_num m)"

definition memb_inmemb :: "memb \<Rightarrow> ptr \<Rightarrow> bool" where
  "memb_inmemb m p \<longleftrightarrow> memb_mem m \<le> p \<and> p < memb_mem m + memb_num m * memb_size m"

definition memb_numfree :: "memb \<Rightarrow> nat" where
  "memb_numfree m = length (filter (\<lambda>i. memb_count m ! i = 0) [0..<memb_num m])"

section \<open>Pools\<close>

locale block_pool =
  fixes good :: "'m \<Rightarrow> bool" and blocks :: "'m \<Rightarrow> ptr set" and used :: "'m \<Rightarrow> ptr set"
    and alloc :: "'m \<Rightarrow> (ptr \<times> 'm) option" and free :: "'m \<Rightarrow> ptr \<Rightarrow> (u8 \<times> 'm) option"
  assumes used_blocks: "good m \<Longrightarrow> used m \<subseteq> blocks m"
    and no_null: "good m \<Longrightarrow> 0 \<notin> blocks m"
    and finite_blocks: "good m \<Longrightarrow> finite (blocks m)"
    and alloc_new: "good m \<Longrightarrow> used m \<noteq> blocks m \<Longrightarrow> \<exists>p m'. alloc m = Some (p, m') \<and> good m' \<and>
      p \<in> blocks m - used m \<and> blocks m' = blocks m \<and> used m' = insert p (used m)"
    and alloc_full: "good m \<Longrightarrow> used m = blocks m \<Longrightarrow> alloc m = Some (0, m)"
    and free_block: "good m \<Longrightarrow> p \<in> blocks m \<Longrightarrow> \<exists>m'. free m p = Some (0, m') \<and> good m' \<and>
      blocks m' = blocks m \<and> used m' = used m - {p}"
    and free_other: "good m \<Longrightarrow> p \<notin> blocks m \<Longrightarrow> free m p = Some (-1, m)"
begin

text \<open>What was just allocated can be given back, which restores the set of used blocks.\<close>

lemma alloc_free:
  assumes "good m" "alloc m = Some (p, m1)" "p \<noteq> 0"
  shows "\<exists>m2. free m1 p = Some (0, m2) \<and> used m2 = used m"
proof -
  have "used m \<noteq> blocks m" using alloc_full [OF assms(1)] assms(2,3) by auto
  with alloc_new [OF assms(1)] assms(2)
  have "good m1" "p \<in> blocks m1" "p \<notin> used m" "used m1 = insert p (used m)" by auto
  with free_block [of m1 p] show ?thesis by auto
qed

text \<open>The pool runs out exactly after as many allocations as there are free blocks.\<close>

lemma alloc_until_full:
  assumes "good m"
  shows "fst (the (alloc m)) = 0 \<longleftrightarrow> card (used m) = card (blocks m)"
proof (cases "used m = blocks m")
  case False
  then have "card (used m) < card (blocks m)"
    using used_blocks [OF assms] finite_blocks [OF assms] by (simp add: psubset_card_mono psubsetI)
  moreover obtain p m' where "alloc m = Some (p, m')" "p \<in> blocks m"
    using alloc_new [OF assms False] by blast
  ultimately show ?thesis using no_null [OF assms] by (cases p) auto
qed (use alloc_full [OF assms] in simp)

end

section \<open>The functions are a pool\<close>

definition memb_good :: "memb \<Rightarrow> bool" where
  "memb_good m \<longleftrightarrow> 0 < memb_size m \<and> 0 < memb_mem m \<and> length (memb_count m) = memb_num m
     \<and> set (memb_count m) \<subseteq> {0, 1}"

definition memb_block :: "memb \<Rightarrow> nat \<Rightarrow> ptr" where
  "memb_block m i = memb_mem m + i * memb_size m"

definition memb_blocks :: "memb \<Rightarrow> ptr set" where
  "memb_blocks m = memb_block m ` {..<memb_num m}"

definition memb_used :: "memb \<Rightarrow> ptr set" where
  "memb_used m = memb_block m ` {i. i < memb_num m \<and> memb_count m ! i \<noteq> 0}"

lemma memb_block_eq: "memb_good m \<Longrightarrow> memb_block m i = memb_block m j \<longleftrightarrow> i = j"
  by (simp add: memb_good_def memb_block_def)

lemma memb_init_good:
  assumes "0 < memb_size m" "0 < memb_mem m" "length (memb_count m) = memb_num m"
  shows "memb_good (memb_init m)" "memb_used (memb_init m) = {}"
  using assms by (auto simp: memb_good_def memb_init_def memb_used_def)

lemma alloc_loop:
  assumes "memb_good m" "\<forall>j < i. memb_count m ! j \<noteq> 0" "i + n = memb_num m"
  shows "memb_alloc_loop m i n = (if \<forall>j < memb_num m. memb_count m ! j \<noteq> 0 then Some (0, m)
    else let j = LEAST j. memb_count m ! j = 0
      in Some (memb_block m j, m\<lparr>memb_count := (memb_count m)[j := 1]\<rparr>))"
  using assms(2,3)
proof (induction n arbitrary: i)
  case (Suc n)
  have len: "i < length (memb_count m)" "i < memb_num m" using assms(1) Suc.prems(2) by (auto simp: memb_good_def)
  show ?case
  proof (cases "memb_count m ! i = 0")
    case True
    have "(LEAST j. memb_count m ! j = 0) = i"
      by (rule Least_equality) (use True Suc.prems(1) in \<open>auto simp: not_less [symmetric]\<close>)
    with True len show ?thesis by (auto simp: memb_block_def)
  next
    case False
    with Suc.prems have "\<forall>j < Suc i. memb_count m ! j \<noteq> 0" by (auto simp: less_Suc_eq)
    from Suc.IH [OF this] Suc.prems(2) False len show ?thesis by simp
  qed
qed simp

lemma update_used:
  assumes "memb_good m" "j < memb_num m"
  shows "memb_good (m\<lparr>memb_count := (memb_count m)[j := 1]\<rparr>)"
    "memb_used (m\<lparr>memb_count := (memb_count m)[j := 1]\<rparr>) = insert (memb_block m j) (memb_used m)"
    "memb_good (m\<lparr>memb_count := (memb_count m)[j := 0]\<rparr>)"
    "memb_used (m\<lparr>memb_count := (memb_count m)[j := 0]\<rparr>) = memb_used m - {memb_block m j}"
    "memb_blocks (m\<lparr>memb_count := cs\<rparr>) = memb_blocks m"
proof -
  have same: "memb_block (m\<lparr>memb_count := cs\<rparr>) = memb_block m" for cs by (simp add: memb_block_def fun_eq_iff)
  show "memb_good (m\<lparr>memb_count := (memb_count m)[j := 1]\<rparr>)" "memb_good (m\<lparr>memb_count := (memb_count m)[j := 0]\<rparr>)"
    using assms(1) set_update_subset_insert [of "memb_count m" j] by (auto simp: memb_good_def)
  have len: "j < length (memb_count m)" using assms by (simp add: memb_good_def)
  show "memb_used (m\<lparr>memb_count := (memb_count m)[j := 1]\<rparr>) = insert (memb_block m j) (memb_used m)"
    using assms(2) len unfolding memb_used_def same by (auto simp: nth_list_update)
  show "memb_used (m\<lparr>memb_count := (memb_count m)[j := 0]\<rparr>) = memb_used m - {memb_block m j}"
    using assms(2) len unfolding memb_used_def same
    by (auto simp: nth_list_update memb_block_eq [OF assms(1)] split: if_splits)
  show "memb_blocks (m\<lparr>memb_count := cs\<rparr>) = memb_blocks m" by (simp add: memb_blocks_def same)
qed

lemma memb_full:
  assumes "memb_good m"
  shows "memb_used m = memb_blocks m \<longleftrightarrow> (\<forall>j < memb_num m. memb_count m ! j \<noteq> 0)"
proof
  assume eq: "memb_used m = memb_blocks m"
  show "\<forall>j < memb_num m. memb_count m ! j \<noteq> 0"
  proof (intro allI impI)
    fix j
    assume "j < memb_num m"
    then have "memb_block m j \<in> memb_used m" unfolding eq by (simp add: memb_blocks_def)
    then show "memb_count m ! j \<noteq> 0" by (auto simp: memb_used_def memb_block_eq [OF assms])
  qed
qed (auto simp: memb_used_def memb_blocks_def)

lemma memb_alloc_new:
  assumes "memb_good m" "memb_used m \<noteq> memb_blocks m"
  shows "\<exists>p m'. memb_alloc m = Some (p, m') \<and> memb_good m' \<and> p \<in> memb_blocks m - memb_used m
    \<and> memb_blocks m' = memb_blocks m \<and> memb_used m' = insert p (memb_used m)"
proof -
  define j where "j = (LEAST j. memb_count m ! j = 0)"
  from assms obtain i where i: "i < memb_num m" "memb_count m ! i = 0" by (auto simp: memb_full)
  then have j: "memb_count m ! j = 0" "j < memb_num m"
    unfolding j_def using LeastI [of "\<lambda>j. memb_count m ! j = 0" i] Least_le [of "\<lambda>j. memb_count m ! j = 0" i]
    by auto
  have "memb_alloc m = Some (memb_block m j, m\<lparr>memb_count := (memb_count m)[j := 1]\<rparr>)"
    using alloc_loop [OF assms(1), of 0 "memb_num m"] i by (auto simp: memb_alloc_def j_def Let_def)
  moreover have "memb_block m j \<in> memb_blocks m - memb_used m"
    using j by (auto simp: memb_blocks_def memb_used_def memb_block_eq [OF assms(1)])
  ultimately show ?thesis using update_used [OF assms(1) j(2)] by auto
qed

lemma free_loop:
  assumes "memb_good m" "i + n = memb_num m" "\<forall>j < i. p \<noteq> memb_block m j"
  shows "memb_free_loop m p (memb_block m i) i n =
    (if p \<in> memb_blocks m then Some (0, m\<lparr>memb_count := (memb_count m)[(THE j. p = memb_block m j) := 0]\<rparr>)
     else Some (-1, m))"
  using assms(2,3)
proof (induction n arbitrary: i)
  case 0
  then show ?case by (auto simp: memb_blocks_def)
next
  case (Suc n)
  have len: "i < length (memb_count m)" "i < memb_num m" using assms(1) Suc.prems(1) by (auto simp: memb_good_def)
  show ?case
  proof (cases "p = memb_block m i")
    case True
    have "(THE j. p = memb_block m j) = i" unfolding True by (simp add: memb_block_eq [OF assms(1)])
    moreover have "memb_count m ! i \<in> {0, 1}"
      using assms(1) nth_mem [OF len(1)] unfolding memb_good_def by blast
    moreover have "p \<in> memb_blocks m" using True len by (simp add: memb_blocks_def)
    moreover have "memb_count m ! i = 0 \<Longrightarrow> (memb_count m)[i := 0] = memb_count m" by (metis list_update_id)
    ultimately show ?thesis using True len by (auto simp: Let_def)
  next
    case False
    then have "\<forall>j < Suc i. p \<noteq> memb_block m j" using Suc.prems(2) by (auto simp: less_Suc_eq)
    from Suc.IH [OF _ this] Suc.prems(1) False show ?thesis by (auto simp: memb_block_def ac_simps)
  qed
qed

lemma memb_free_ok:
  assumes "memb_good m"
  shows "p \<in> memb_blocks m \<Longrightarrow> \<exists>m'. memb_free m p = Some (0, m') \<and> memb_good m' \<and>
      memb_blocks m' = memb_blocks m \<and> memb_used m' = memb_used m - {p}"
    and "p \<notin> memb_blocks m \<Longrightarrow> memb_free m p = Some (-1, m)"
proof -
  have run: "memb_free m p = memb_free_loop m p (memb_block m 0) 0 (memb_num m)"
    by (simp add: memb_free_def memb_block_def)
  show "p \<notin> memb_blocks m \<Longrightarrow> memb_free m p = Some (-1, m)"
    using free_loop [OF assms, of 0 "memb_num m" p] by (simp add: run)
  assume p: "p \<in> memb_blocks m"
  from p obtain j where j: "j < memb_num m" "p = memb_block m j" by (auto simp: memb_blocks_def)
  have the: "(THE j. p = memb_block m j) = j" unfolding j(2) by (simp add: memb_block_eq [OF assms])
  have "memb_free m p = Some (0, m\<lparr>memb_count := (memb_count m)[j := 0]\<rparr>)"
    using free_loop [OF assms, of 0 "memb_num m" p] p by (simp add: run the)
  then show "\<exists>m'. memb_free m p = Some (0, m') \<and> memb_good m' \<and>
      memb_blocks m' = memb_blocks m \<and> memb_used m' = memb_used m - {p}"
    using update_used [OF assms j(1)] j(2) by simp
qed

interpretation memb: block_pool memb_good memb_blocks memb_used memb_alloc memb_free
proof
  fix m p
  assume good: "memb_good m"
  show "memb_used m \<subseteq> memb_blocks m" "finite (memb_blocks m)" by (auto simp: memb_used_def memb_blocks_def)
  show "0 \<notin> memb_blocks m" using good by (auto simp: memb_blocks_def memb_block_def memb_good_def)
  show "memb_used m = memb_blocks m \<Longrightarrow> memb_alloc m = Some (0, m)"
    using alloc_loop [OF good, of 0 "memb_num m"] by (simp add: memb_full [OF good] memb_alloc_def)
qed (fact memb_alloc_new memb_free_ok)+

lemma memb_numfree_ok: "memb_good m \<Longrightarrow> memb_numfree m = card (memb_blocks m - memb_used m)"
proof -
  assume good: "memb_good m"
  have "memb_blocks m - memb_used m = memb_block m ` {i. i < memb_num m \<and> memb_count m ! i = 0}"
    by (auto simp: memb_blocks_def memb_used_def memb_block_eq [OF good])
  moreover have "inj_on (memb_block m) A" for A by (simp add: inj_on_def memb_block_eq [OF good])
  ultimately show ?thesis
    by (simp add: card_image memb_numfree_def distinct_length_filter lessThan_atLeast0 Int_def conj_commute)
qed

end
