(* ===== verification/Csma.thy ===== *)
theory Csma
  imports Memory_Block Power_Save
begin

text \<open>
  The MAC layer of the nodes: \<open>core/net/mac/csma.c\<close>, which queues packets for each neighbour and sends them
  again after a random delay, \<open>core/net/mac/nullrdc.c\<close>, which hands a frame to the radio and waits for
  the acknowledgement, and the packet copies of \<open>core/net/queuebuf.c\<close>. The queues are lists of
  \<open>list.c\<close> over pools of \<open>memb.c\<close>; each field of a structure is a map from addresses, as the structures of
  different pools do not overlap. The radio and the framer are the parameter \<open>rdc_ops\<close>, functions over a state
  \<open>'r\<close>. The callback timer of a neighbour is the delay it was set to, if it is set (\<open>Callback_Timer\<close>
  has its laws). The calls of \<open>mac_call_sent_callback\<close> are a list. The options are those of
  \<open>contiki-conf.h\<close> for the CC26xx: acknowledgements on, no packet types, no swapping.
\<close>

section \<open>Packets, the radio\<close>

type_synonym linkaddr = bytes

record packetbuf =
  pb_hdr :: bytes
  pb_data :: bytes
  pb_seqno :: u16
  pb_max_transmissions :: u16
  pb_mac_ack :: u16
  pb_frame_type :: u16
  pb_pending :: u16
  pb_sender :: linkaddr
  pb_receiver :: linkaddr

datatype mac_status = MAC_TX_OK | MAC_TX_COLLISION | MAC_TX_NOACK | MAC_TX_DEFERRED | MAC_TX_ERR | MAC_TX_ERR_FATAL

datatype radio_tx = RADIO_TX_OK | RADIO_TX_ERR | RADIO_TX_COLLISION | RADIO_TX_NOACK

record 'r rdc_ops =
  framer_create :: "packetbuf \<Rightarrow> 'r \<Rightarrow> packetbuf option \<times> 'r"
  radio_prepare :: "bytes \<Rightarrow> 'r \<Rightarrow> 'r"
  receiving_packet :: "'r \<Rightarrow> bool \<times> 'r"
  pending_packet :: "'r \<Rightarrow> bool \<times> 'r"
  channel_clear :: "'r \<Rightarrow> bool \<times> 'r"
  radio_transmit :: "nat \<Rightarrow> 'r \<Rightarrow> radio_tx \<times> 'r"
  radio_read :: "nat \<Rightarrow> 'r \<Rightarrow> bytes \<times> 'r"
  rtimer_now :: "'r \<Rightarrow> rtimer_clock \<times> 'r"
  random_rand :: "'r \<Rightarrow> u16 \<times> 'r"
  linkaddr_node_addr :: linkaddr

definition linkaddr_null :: linkaddr where "linkaddr_null = replicate 8 0"
definition CSMA_MIN_BE :: u8 where "CSMA_MIN_BE = 0"
definition CSMA_MAX_BE :: u8 where "CSMA_MAX_BE = 4"
definition CSMA_MAX_BACKOFF :: u8 where "CSMA_MAX_BACKOFF = 5"
definition CSMA_MAX_MAX_FRAME_RETRIES :: u8 where "CSMA_MAX_MAX_FRAME_RETRIES = 7"
definition QUEUEBUF_NUM :: nat where "QUEUEBUF_NUM = 8"
definition CSMA_MAX_PACKET_PER_NEIGHBOR :: nat where "CSMA_MAX_PACKET_PER_NEIGHBOR = QUEUEBUF_NUM"
definition CSMA_MAX_NEIGHBOR_QUEUES :: nat where "CSMA_MAX_NEIGHBOR_QUEUES = 2"
definition ACK_LEN :: nat where "ACK_LEN = 3"
definition ACK_WAIT_TIME :: rtimer_clock where "ACK_WAIT_TIME = RTIMER_SECOND div 2500"
definition AFTER_ACK_DETECTED_WAIT_TIME :: rtimer_clock where "AFTER_ACK_DETECTED_WAIT_TIME = RTIMER_SECOND div 1500"

section \<open>State\<close>

record 'r csma =
  neighbor_list :: lst
  nb_addr :: "ptr \<Rightarrow> linkaddr"
  transmit_timer :: "ptr \<Rightarrow> u32 option"
  transmissions :: "ptr \<Rightarrow> u8"
  collisions :: "ptr \<Rightarrow> u8"
  queued_packet_list :: "ptr \<Rightarrow> ptr"
  rdc_next :: heap
  rdc_buf :: "ptr \<Rightarrow> ptr"
  rdc_ptr :: "ptr \<Rightarrow> ptr"
  md_sent :: "ptr \<Rightarrow> ptr"
  md_cptr :: "ptr \<Rightarrow> ptr"
  md_max_transmissions :: "ptr \<Rightarrow> u8"
  qb_ram :: "ptr \<Rightarrow> ptr"
  qb_data :: "ptr \<Rightarrow> packetbuf"
  neighbor_memb :: memb
  packet_memb :: memb
  metadata_memb :: memb
  bufmem :: memb
  buframmem :: memb
  csma_initialized :: bool
  seqno :: u16
  packetbuf :: packetbuf
  rdc_radio :: 'r
  sent_calls :: "(ptr \<times> ptr \<times> mac_status \<times> nat) list"

text \<open>The list of the packets of a neighbour, read and written.\<close>

definition packet_list :: "ptr \<Rightarrow> 'r csma \<Rightarrow> lst" where
  "packet_list n s = \<lparr>lst_head = queued_packet_list s n, lst_next = rdc_next s\<rparr>"

definition set_packet_list :: "ptr \<Rightarrow> lst \<Rightarrow> 'r csma \<Rightarrow> 'r csma" where
  "set_packet_list n l s = s\<lparr>queued_packet_list := (queued_packet_list s)(n := lst_head l), rdc_next := lst_next l\<rparr>"

definition mac_call_sent_callback :: "ptr \<Rightarrow> ptr \<Rightarrow> mac_status \<Rightarrow> nat \<Rightarrow> 'r csma \<Rightarrow> 'r csma" where
  "mac_call_sent_callback sent p status num s = s\<lparr>sent_calls := sent_calls s @ [(sent, p, status, num)]\<rparr>"

text \<open>Of the calls of \<open>mac_call_sent_callback\<close> in that list, those with a function (\<open>if(sent)\<close>) call it.\<close>

definition callbacks_made :: "'r csma \<Rightarrow> (ptr \<times> ptr \<times> mac_status \<times> nat) list" where
  "callbacks_made s = filter (\<lambda>(sent, _). sent \<noteq> 0) (sent_calls s)"

section \<open>queuebuf.c\<close>

text \<open>A copy has header and data in one piece (\<open>packetbuf_copyto\<close>).\<close>

definition packetbuf_copy :: "packetbuf \<Rightarrow> packetbuf" where
  "packetbuf_copy b = b\<lparr>pb_hdr := [], pb_data := pb_hdr b @ pb_data b\<rparr>"

definition queuebuf_new_from_packetbuf :: "'r csma \<Rightarrow> (ptr \<times> 'r csma) option" where
  "queuebuf_new_from_packetbuf s = do {
     (buf, m) \<leftarrow> memb_alloc (bufmem s);
     let s = s\<lparr>bufmem := m\<rparr>;
     if buf = 0 then Some (0, s)
     else do {
       (ram, m) \<leftarrow> memb_alloc (buframmem s);
       let s = s\<lparr>buframmem := m, qb_ram := (qb_ram s)(buf := ram)\<rparr>;
       if ram = 0 then do { (_, m) \<leftarrow> memb_free (bufmem s) buf; Some (0, s\<lparr>bufmem := m\<rparr>) }
       else Some (buf, s\<lparr>qb_data := (qb_data s)(ram := packetbuf_copy (packetbuf s))\<rparr>) } }"

definition queuebuf_free :: "ptr \<Rightarrow> 'r csma \<Rightarrow> 'r csma option" where
  "queuebuf_free buf s =
    (if memb_inmemb (bufmem s) buf then do {
       (_, m) \<leftarrow> memb_free (buframmem s) (qb_ram s buf);
       let s = s\<lparr>buframmem := m\<rparr>;
       (_, m) \<leftarrow> memb_free (bufmem s) buf;
       Some (s\<lparr>bufmem := m\<rparr>) }
     else Some s)"

definition queuebuf_to_packetbuf :: "ptr \<Rightarrow> 'r csma \<Rightarrow> 'r csma" where
  "queuebuf_to_packetbuf buf s = (if memb_inmemb (bufmem s) buf then s\<lparr>packetbuf := qb_data s (qb_ram s buf)\<rparr> else s)"

text \<open>The attributes and addresses of the packet, not its bytes.\<close>

definition queuebuf_update_attr_from_packetbuf :: "ptr \<Rightarrow> 'r csma \<Rightarrow> 'r csma" where
  "queuebuf_update_attr_from_packetbuf buf s =
    (let ram = qb_ram s buf; old = qb_data s ram
     in s\<lparr>qb_data := (qb_data s)(ram := (packetbuf s)\<lparr>pb_hdr := pb_hdr old, pb_data := pb_data old\<rparr>)\<rparr>)"

definition queuebuf_seqno :: "ptr \<Rightarrow> 'r csma \<Rightarrow> u16" where
  "queuebuf_seqno buf s = pb_seqno (qb_data s (qb_ram s buf))"

section \<open>csma.c\<close>

partial_function (option) find_neighbor :: "'r csma \<Rightarrow> linkaddr \<Rightarrow> ptr \<Rightarrow> ptr option" where
  "find_neighbor s addr n =
    (if n = 0 then Some 0 else if nb_addr s n = addr then Some n
     else find_neighbor s addr (list_item_next (neighbor_list s) n))"

definition neighbor_queue_from_addr :: "'r csma \<Rightarrow> linkaddr \<Rightarrow> ptr option" where
  "neighbor_queue_from_addr s addr = find_neighbor s addr (list_head (neighbor_list s))"

text \<open>\<open>channel_check_interval\<close> of \<open>nullrdc.c\<close> is 0.\<close>

definition nullrdc_channel_check_interval :: u32 where
  "nullrdc_channel_check_interval = 0"

definition backoff_period :: u32 where
  "backoff_period =
    (let time = nullrdc_channel_check_interval in if time = 0 then max (CLOCK_CONF_SECOND div 3125) 1 else time)"

definition schedule_transmission :: "'r rdc_ops \<Rightarrow> ptr \<Rightarrow> 'r csma \<Rightarrow> 'r csma" where
  "schedule_transmission R n s =
    (let backoff_exponent = min (collisions s n) CSMA_MAX_BE;
         delay = (push_bit (unat backoff_exponent) 1 - 1) * backoff_period;
         (delay, s) = (if delay > 0 then let (x, r) = random_rand R (rdc_radio s) in (ucast x mod delay, s\<lparr>rdc_radio := r\<rparr>)
           else (delay, s))
     in s\<lparr>transmit_timer := (transmit_timer s)(n := Some delay)\<rparr>)"

text \<open>The two parts of \<open>free_packet\<close>: the memory of the packet, and that of a neighbour without packets.\<close>

definition release_packet :: "ptr \<Rightarrow> ptr \<Rightarrow> 'r csma \<Rightarrow> 'r csma option" where
  "release_packet n p s = do {
     l \<leftarrow> list_remove (packet_list n s) p;
     let s = set_packet_list n l s;
     s \<leftarrow> queuebuf_free (rdc_buf s p) s;
     (_, m) \<leftarrow> memb_free (metadata_memb s) (rdc_ptr s p);
     let s = s\<lparr>metadata_memb := m\<rparr>;
     (_, m) \<leftarrow> memb_free (packet_memb s) p;
     Some (s\<lparr>packet_memb := m\<rparr>) }"

definition free_neighbor :: "ptr \<Rightarrow> 'r csma \<Rightarrow> 'r csma option" where
  "free_neighbor n s = do {
     ns \<leftarrow> list_remove (neighbor_list s) n;
     (_, m) \<leftarrow> memb_free (neighbor_memb s) n;
     Some (s\<lparr>neighbor_list := ns, neighbor_memb := m\<rparr>) }"

definition free_packet :: "'r rdc_ops \<Rightarrow> ptr \<Rightarrow> ptr \<Rightarrow> 'r csma \<Rightarrow> 'r csma option" where
  "free_packet R n p s =
    (if p = 0 then Some s
     else do {
       s \<leftarrow> release_packet n p s;
       if list_head (packet_list n s) \<noteq> 0
       then Some (schedule_transmission R n (s\<lparr>transmissions := (transmissions s)(n := 0), collisions := (collisions s)(n := CSMA_MIN_BE)\<rparr>))
       else free_neighbor n (s\<lparr>transmit_timer := (transmit_timer s)(n := None)\<rparr>) })"

definition tx_done :: "'r rdc_ops \<Rightarrow> mac_status \<Rightarrow> ptr \<Rightarrow> ptr \<Rightarrow> 'r csma \<Rightarrow> 'r csma option" where
  "tx_done R status q n s = do {
     let sent = md_sent s (rdc_ptr s q);
     let cptr = md_cptr s (rdc_ptr s q);
     s \<leftarrow> free_packet R n q s;
     Some (mac_call_sent_callback sent cptr status (unat (transmissions s n)) s) }"

definition rexmit :: "'r rdc_ops \<Rightarrow> ptr \<Rightarrow> ptr \<Rightarrow> 'r csma \<Rightarrow> 'r csma" where
  "rexmit R q n s = (let s = schedule_transmission R n s in queuebuf_update_attr_from_packetbuf (rdc_buf s q) s)"

definition collision :: "'r rdc_ops \<Rightarrow> ptr \<Rightarrow> ptr \<Rightarrow> u8 \<Rightarrow> 'r csma \<Rightarrow> 'r csma option" where
  "collision R q n num_transmissions s =
    (let s = s\<lparr>collisions := (collisions s)(n := collisions s n + num_transmissions)\<rparr>;
         s = (if collisions s n > CSMA_MAX_BACKOFF
              then s\<lparr>collisions := (collisions s)(n := CSMA_MIN_BE), transmissions := (transmissions s)(n := transmissions s n + 1)\<rparr>
              else s)
     in if transmissions s n \<ge> md_max_transmissions s (rdc_ptr s q) then tx_done R MAC_TX_COLLISION q n s
        else Some (rexmit R q n s))"

definition noack :: "'r rdc_ops \<Rightarrow> ptr \<Rightarrow> ptr \<Rightarrow> u8 \<Rightarrow> 'r csma \<Rightarrow> 'r csma option" where
  "noack R q n num_transmissions s =
    (let s = s\<lparr>collisions := (collisions s)(n := CSMA_MIN_BE), transmissions := (transmissions s)(n := transmissions s n + num_transmissions)\<rparr>
     in if transmissions s n \<ge> md_max_transmissions s (rdc_ptr s q) then tx_done R MAC_TX_NOACK q n s
        else Some (rexmit R q n s))"

definition tx_ok :: "'r rdc_ops \<Rightarrow> ptr \<Rightarrow> ptr \<Rightarrow> u8 \<Rightarrow> 'r csma \<Rightarrow> 'r csma option" where
  "tx_ok R q n num_transmissions s =
    tx_done R MAC_TX_OK q n
      (s\<lparr>collisions := (collisions s)(n := CSMA_MIN_BE), transmissions := (transmissions s)(n := transmissions s n + num_transmissions)\<rparr>)"

text \<open>The packet with the sequence number of \<open>packetbuf\<close>.\<close>

partial_function (option) find_packet :: "'r csma \<Rightarrow> ptr \<Rightarrow> ptr option" where
  "find_packet s q =
    (if q = 0 then Some 0 else if queuebuf_seqno (rdc_buf s q) s = pb_seqno (packetbuf s) then Some q
     else find_packet s (if q = 0 then 0 else rdc_next s q))"

definition packet_sent :: "'r rdc_ops \<Rightarrow> ptr \<Rightarrow> mac_status \<Rightarrow> u8 \<Rightarrow> 'r csma \<Rightarrow> 'r csma option" where
  "packet_sent R n status num_transmissions s =
    (if n = 0 then Some s
     else do {
       q \<leftarrow> find_packet s (list_head (packet_list n s));
       if q = 0 then Some s
       else if rdc_ptr s q = 0 then Some s
       else case status of
           MAC_TX_OK \<Rightarrow> tx_ok R q n num_transmissions s
         | MAC_TX_NOACK \<Rightarrow> noack R q n num_transmissions s
         | MAC_TX_COLLISION \<Rightarrow> collision R q n num_transmissions s
         | MAC_TX_DEFERRED \<Rightarrow> Some s
         | _ \<Rightarrow> tx_done R status q n s })"

section \<open>nullrdc.c\<close>

text \<open>\<open>while(RTIMER_CLOCK_LT(RTIMER_NOW(), t))\<close>\<close>

partial_function (option) wait_until :: "'r rdc_ops \<Rightarrow> rtimer_clock \<Rightarrow> 'r \<Rightarrow> 'r option" where
  "wait_until R t r = (let (now, r) = rtimer_now R r in if rtimer_clock_lt now t then wait_until R t r else Some r)"

definition wait_for :: "'r rdc_ops \<Rightarrow> rtimer_clock \<Rightarrow> 'r \<Rightarrow> 'r option" where
  "wait_for R d r = (let (wt, r) = rtimer_now R r in wait_until R (wt + d) r)"

text \<open>The wait for the acknowledgement of the frame with the number \<open>dsn\<close>; \<open>||\<close> asks the radio as far as needed.\<close>

definition wait_for_ack :: "'r rdc_ops \<Rightarrow> u8 \<Rightarrow> 'r \<Rightarrow> (mac_status \<times> 'r) option" where
  "wait_for_ack R dsn r = do {
     r \<leftarrow> wait_for R ACK_WAIT_TIME r;
     let (detected, r) = (let (b, r) = receiving_packet R r
       in if b then (True, r) else let (b, r) = pending_packet R r
       in if b then (True, r) else let (b, r) = channel_clear R r in (\<not> b, r));
     if detected then do {
       r \<leftarrow> (if AFTER_ACK_DETECTED_WAIT_TIME > 0 then wait_for R AFTER_ACK_DETECTED_WAIT_TIME r else Some r);
       let (b, r) = pending_packet R r;
       if b then let (ackbuf, r) = radio_read R ACK_LEN r
         in Some (if length ackbuf = ACK_LEN \<and> ackbuf ! 2 = dsn then MAC_TX_OK else MAC_TX_COLLISION, r)
       else Some (MAC_TX_NOACK, r) }
     else Some (MAC_TX_NOACK, r) }"

definition transmit_frame :: "'r rdc_ops \<Rightarrow> packetbuf \<Rightarrow> 'r \<Rightarrow> (mac_status \<times> 'r) option" where
  "transmit_frame R b r = do {
     let frame = pb_hdr b @ pb_data b;
     if length frame < 3 then None
     else do {
       let r = radio_prepare R frame r;
       let is_broadcast = (pb_receiver b = linkaddr_null);
       let (busy, r) = (let (x, r) = receiving_packet R r
         in if x then (True, r) else if is_broadcast then (False, r) else pending_packet R r);
       if busy then Some (MAC_TX_COLLISION, r)
       else let (tx, r) = radio_transmit R (length frame) r
         in case tx of
             RADIO_TX_OK \<Rightarrow> if is_broadcast then Some (MAC_TX_OK, r) else wait_for_ack R (frame ! 2) r
           | RADIO_TX_COLLISION \<Rightarrow> Some (MAC_TX_COLLISION, r)
           | _ \<Rightarrow> Some (MAC_TX_ERR, r) } }"

text \<open>The result is \<open>last_sent_ok\<close>.\<close>

definition send_one_packet :: "'r rdc_ops \<Rightarrow> (mac_status \<Rightarrow> u8 \<Rightarrow> 'r csma \<Rightarrow> 'r csma option) \<Rightarrow> 'r csma \<Rightarrow> (bool \<times> 'r csma) option" where
  "send_one_packet R sent s = do {
     let b = (packetbuf s)\<lparr>pb_sender := linkaddr_node_addr R, pb_mac_ack := 1\<rparr>;
     let (created, r) = framer_create R b (rdc_radio s);
     (ret, s) \<leftarrow> (case created of
         None \<Rightarrow> Some (MAC_TX_ERR_FATAL, s\<lparr>packetbuf := b, rdc_radio := r\<rparr>)
       | Some b \<Rightarrow> map_option (\<lambda>(ret, r). (ret, s\<lparr>packetbuf := b, rdc_radio := r\<rparr>)) (transmit_frame R b r));
     s \<leftarrow> sent ret 1 s;
     Some (ret = MAC_TX_OK, s) }"

partial_function (option) send_list :: "'r rdc_ops \<Rightarrow> (mac_status \<Rightarrow> u8 \<Rightarrow> 'r csma \<Rightarrow> 'r csma option) \<Rightarrow> ptr \<Rightarrow> 'r csma \<Rightarrow> 'r csma option" where
  "send_list R sent p s =
    (if p = 0 then Some s
     else do {
       let next = rdc_next s p;
       (last_sent_ok, s) \<leftarrow> send_one_packet R sent (queuebuf_to_packetbuf (rdc_buf s p) s);
       if last_sent_ok then send_list R sent next s else Some s })"

section \<open>The driver\<close>

definition transmit_packet_list :: "'r rdc_ops \<Rightarrow> ptr \<Rightarrow> 'r csma \<Rightarrow> 'r csma option" where
  "transmit_packet_list R n s =
    (if n = 0 then Some s
     else let q = list_head (packet_list n s) in if q \<noteq> 0 then send_list R (packet_sent R n) q s else Some s)"

text \<open>The number for the packet in \<open>packetbuf\<close>, never 0.\<close>

definition next_seqno :: "'r rdc_ops \<Rightarrow> 'r csma \<Rightarrow> 'r csma" where
  "next_seqno R s =
    (let s = (if \<not> csma_initialized s
              then let (x, r) = random_rand R (rdc_radio s) in s\<lparr>csma_initialized := True, seqno := x, rdc_radio := r\<rparr> else s);
         s = (if seqno s = 0 then s\<lparr>seqno := seqno s + 1\<rparr> else s)
     in s\<lparr>packetbuf := (packetbuf s)\<lparr>pb_seqno := seqno s\<rparr>, seqno := seqno s + 1\<rparr>)"

definition find_or_add_neighbor :: "linkaddr \<Rightarrow> 'r csma \<Rightarrow> (ptr \<times> 'r csma) option" where
  "find_or_add_neighbor addr s = do {
     n \<leftarrow> neighbor_queue_from_addr s addr;
     if n \<noteq> 0 then Some (n, s)
     else do {
       (n, m) \<leftarrow> memb_alloc (neighbor_memb s);
       let s = s\<lparr>neighbor_memb := m\<rparr>;
       if n = 0 then Some (0, s)
       else do {
         let s = s\<lparr>nb_addr := (nb_addr s)(n := addr), transmissions := (transmissions s)(n := 0),
           collisions := (collisions s)(n := CSMA_MIN_BE), queued_packet_list := (queued_packet_list s)(n := 0)\<rparr>;
         ns \<leftarrow> list_add (neighbor_list s) n;
         Some (n, s\<lparr>neighbor_list := ns\<rparr>) } } }"

text \<open>The memory for a packet: the address of its list element, or 0 and everything given back.\<close>

definition alloc_packet :: "'r csma \<Rightarrow> (ptr \<times> 'r csma) option" where
  "alloc_packet s = do {
     (q, m) \<leftarrow> memb_alloc (packet_memb s);
     let s = s\<lparr>packet_memb := m\<rparr>;
     if q = 0 then Some (0, s)
     else do {
       (p, m) \<leftarrow> memb_alloc (metadata_memb s);
       let s = s\<lparr>metadata_memb := m, rdc_ptr := (rdc_ptr s)(q := p)\<rparr>;
       (ok, s) \<leftarrow> (if p = 0 then Some (False, s)
         else do {
           (buf, s) \<leftarrow> queuebuf_new_from_packetbuf s;
           let s = s\<lparr>rdc_buf := (rdc_buf s)(q := buf)\<rparr>;
           if buf \<noteq> 0 then Some (True, s)
           else do { (_, m) \<leftarrow> memb_free (metadata_memb s) p; Some (False, s\<lparr>metadata_memb := m\<rparr>) } });
       if ok then Some (q, s)
       else do { (_, m) \<leftarrow> memb_free (packet_memb s) q; Some (0, s\<lparr>packet_memb := m\<rparr>) } } }"

text \<open>The rest of the way of a packet whose memory is there.\<close>

definition enqueue_packet :: "'r rdc_ops \<Rightarrow> ptr \<Rightarrow> ptr \<Rightarrow> ptr \<Rightarrow> ptr \<Rightarrow> 'r csma \<Rightarrow> 'r csma option" where
  "enqueue_packet R sent p n q s = do {
     let metadata = rdc_ptr s q;
     let attr = pb_max_transmissions (packetbuf s);
     let s = s\<lparr>md_max_transmissions := (md_max_transmissions s)(metadata :=
           if attr = 0 then CSMA_MAX_MAX_FRAME_RETRIES + 1 else ucast attr),
         md_sent := (md_sent s)(metadata := sent), md_cptr := (md_cptr s)(metadata := p)\<rparr>;
     l \<leftarrow> list_add (packet_list n s) q;
     let s = set_packet_list n l s;
     Some (if list_head (packet_list n s) = q then schedule_transmission R n s else s) }"

text \<open>The rest of \<open>send_packet\<close> for a neighbour: a packet that cannot be queued is reported at once.\<close>

definition queue_packet :: "'r rdc_ops \<Rightarrow> ptr \<Rightarrow> ptr \<Rightarrow> ptr \<Rightarrow> 'r csma \<Rightarrow> 'r csma option" where
  "queue_packet R sent p n s = do {
     len \<leftarrow> list_length (packet_list n s);
     if len < int CSMA_MAX_PACKET_PER_NEIGHBOR then do {
       (q, s) \<leftarrow> alloc_packet s;
       if q \<noteq> 0 then enqueue_packet R sent p n q s
       else do {
         len \<leftarrow> list_length (packet_list n s);
         s \<leftarrow> (if len = 0 then free_neighbor n s else Some s);
         Some (mac_call_sent_callback sent p MAC_TX_ERR 1 s) } }
     else Some (mac_call_sent_callback sent p MAC_TX_ERR 1 s) }"

definition send_packet :: "'r rdc_ops \<Rightarrow> ptr \<Rightarrow> ptr \<Rightarrow> 'r csma \<Rightarrow> 'r csma option" where
  "send_packet R sent p s = do {
     let s = next_seqno R s;
     (n, s) \<leftarrow> find_or_add_neighbor (pb_receiver (packetbuf s)) s;
     if n = 0 then Some (mac_call_sent_callback sent p MAC_TX_ERR 1 s)
     else queue_packet R sent p n s }"

definition csma_init :: "'r csma \<Rightarrow> 'r csma" where
  "csma_init s = s\<lparr>packet_memb := memb_init (packet_memb s), metadata_memb := memb_init (metadata_memb s),
     neighbor_memb := memb_init (neighbor_memb s)\<rparr>"

end
