(* ===== verification/Csma_Laws.thy ===== *)
theory Csma_Laws
  imports Csma
begin

text \<open>
  The laws of the MAC layer of \<open>Csma\<close>. The invariant says that the queues are lists over blocks of the pools,
  that each packet owns its blocks, that the counters are in their bounds, and that exactly the neighbours have a
  timer. Each operation keeps it; a packet leaves its queue when its callback is called, and each transmission that does
  not end it uses an attempt. The radio and the framer are the locale \<open>rdc_driver\<close>.
\<close>

section \<open>Pools and queues\<close>

definition pool :: "memb \<Rightarrow> nat \<Rightarrow> ptr set \<Rightarrow> bool" where
  "pool m n A \<longleftrightarrow> memb_good m \<and> card (memb_blocks m) = n \<and> memb_used m = A"

lemma pool_alloc:
  assumes "pool m n A"
  shows "card A \<le> n" "finite A" "0 \<notin> A"
    "card A = n \<Longrightarrow> memb_alloc m = Some (0, m)"
    "card A < n \<Longrightarrow> \<exists>p m'. memb_alloc m = Some (p, m') \<and> p \<noteq> 0 \<and> p \<notin> A \<and> pool m' n (insert p A)"
proof -
  from assms have good: "memb_good m" and n: "card (memb_blocks m) = n" and used: "memb_used m = A"
    by (simp_all add: pool_def)
  note sub = memb.used_blocks [OF good] and fin = memb.finite_blocks [OF good] and null = memb.no_null [OF good]
  show "card A \<le> n" "finite A" "0 \<notin> A" using sub fin null card_mono [OF fin sub] unfolding used n
    by (auto intro: finite_subset)
  show "memb_alloc m = Some (0, m)" if "card A = n"
    using card_subset_eq [OF fin sub] that unfolding used n by (intro memb.alloc_full [OF good]) (simp add: used)
  show "\<exists>p m'. memb_alloc m = Some (p, m') \<and> p \<noteq> 0 \<and> p \<notin> A \<and> pool m' n (insert p A)" if "card A < n"
  proof -
    have "memb_used m \<noteq> memb_blocks m" using that n used by auto
    from memb.alloc_new [OF good this] obtain p m' where "memb_alloc m = Some (p, m')" "memb_good m'" "p \<in> memb_blocks m - A"
      "memb_blocks m' = memb_blocks m" "memb_used m' = insert p A" unfolding used by blast
    moreover from this(3) null have "p \<noteq> 0" by (metis DiffD1)
    ultimately show ?thesis using n by (intro exI [of _ p] exI [of _ m']) (auto simp: pool_def)
  qed
qed

lemma pool_free:
  assumes "pool m n A" "p \<in> A"
  shows "\<exists>m'. memb_free m p = Some (0, m') \<and> pool m' n (A - {p})"
proof -
  from assms have good: "memb_good m" and "p \<in> memb_blocks m" using memb.used_blocks [of m] by (auto simp: pool_def)
  from memb.free_block [OF this] assms show ?thesis by (auto simp: pool_def)
qed

lemma pool_inmemb: "pool m n A \<Longrightarrow> p \<in> A \<Longrightarrow> memb_inmemb m p"
  by (auto simp: pool_def memb_used_def memb_block_def memb_inmemb_def memb_good_def)

text \<open>Each packet of \<open>P\<close> has a block of its own in the pool, at \<open>f\<close>, and the other blocks are free.\<close>

definition owned :: "(ptr \<Rightarrow> ptr) \<Rightarrow> memb \<Rightarrow> ptr set \<Rightarrow> bool" where
  "owned f m P \<longleftrightarrow> finite P \<and> inj_on f P \<and> pool m QUEUEBUF_NUM (f ` P)"

lemma owned_free:
  assumes "owned f m (insert p P)" "p \<notin> P"
  shows "\<exists>m'. memb_free m (f p) = Some (0, m') \<and> owned f m' P"
proof -
  from assms obtain m' where "memb_free m (f p) = Some (0, m')" "pool m' QUEUEBUF_NUM (f ` insert p P - {f p})"
    using pool_free [of m QUEUEBUF_NUM "f ` insert p P" "f p"] by (auto simp: owned_def)
  moreover have "f ` insert p P - {f p} = f ` P" using assms by (auto simp: owned_def)
  ultimately show ?thesis using assms by (auto simp: owned_def)
qed

lemma owned_card: "owned f m P \<Longrightarrow> card P \<le> QUEUEBUF_NUM"
  using pool_alloc(1) [of m QUEUEBUF_NUM "f ` P"] by (simp add: owned_def card_image)

lemma owned_full: "owned f m P \<Longrightarrow> card P = QUEUEBUF_NUM \<Longrightarrow> memb_alloc m = Some (0, m)"
  using pool_alloc(4) [of m QUEUEBUF_NUM "f ` P"] by (simp add: owned_def card_image)

lemma owned_alloc:
  assumes "owned f m P" "card P < QUEUEBUF_NUM"
  shows "\<exists>x m'. memb_alloc m = Some (x, m') \<and> x \<noteq> 0 \<and> x \<notin> f ` P \<and> (\<forall>p g. p \<notin> P \<longrightarrow> (\<forall>q\<in>P. g q = f q) \<longrightarrow> g p = x \<longrightarrow> owned g m' (insert p P))"
proof -
  from assms obtain x m' where x: "memb_alloc m = Some (x, m')" "x \<noteq> 0" "x \<notin> f ` P" "pool m' QUEUEBUF_NUM (insert x (f ` P))"
    using pool_alloc(5) [of m QUEUEBUF_NUM "f ` P"] by (auto simp: owned_def card_image)
  have "owned g m' (insert p P)" if "p \<notin> P" "\<forall>q\<in>P. g q = f q" "g p = x" for p g
  proof -
    have "g ` P = f ` P" using that(2) by auto
    moreover have "inj_on g P" using that(2) assms(1) by (auto simp: owned_def inj_on_def)
    ultimately show ?thesis using that x(3,4) assms(1) by (auto simp: owned_def)
  qed
  with x show ?thesis by blast
qed

lemma owned_cong: "owned f m P \<Longrightarrow> (\<And>q. q \<in> P \<Longrightarrow> g q = f q) \<Longrightarrow> owned g m P"
  by (auto simp: owned_def inj_on_def cong: image_cong)

lemma chain_cong: "chain nxt p xs q \<Longrightarrow> (\<And>a. a \<in> set xs \<Longrightarrow> nxt' a = nxt a) \<Longrightarrow> chain nxt' p xs q"
  by (induction xs arbitrary: p) auto

text \<open>The queues: each neighbour with the addresses of its packets.\<close>

type_synonym queues = "(ptr \<times> ptr list) list"

definition packets :: "queues \<Rightarrow> ptr list" where
  "packets Q = concat (map snd Q)"

lemma packets_simps [simp]: "packets [] = []" "packets ((n, qs) # Q) = qs @ packets Q" "packets (Q @ Q') = packets Q @ packets Q'"
  by (simp_all add: packets_def)

lemma in_packets: "(n, qs) \<in> set Q \<Longrightarrow> set qs \<subseteq> set (packets Q)"
  by (force simp: packets_def)

definition ram_of :: "'r csma \<Rightarrow> ptr \<Rightarrow> ptr" where
  "ram_of s q = qb_ram s (rdc_buf s q)"

definition csma_lists :: "queues \<Rightarrow> 'r csma \<Rightarrow> bool" where
  "csma_lists Q s \<longleftrightarrow> lst_items (neighbor_list s) (map fst Q)
    \<and> (\<forall>(n, qs)\<in>set Q. items (rdc_next s) (queued_packet_list s n) qs)
    \<and> distinct (packets Q) \<and> pool (neighbor_memb s) CSMA_MAX_NEIGHBOR_QUEUES (fst ` set Q)"

definition csma_pools :: "ptr set \<Rightarrow> 'r csma \<Rightarrow> bool" where
  "csma_pools P s \<longleftrightarrow> owned id (packet_memb s) P \<and> owned (rdc_ptr s) (metadata_memb s) P
    \<and> owned (rdc_buf s) (bufmem s) P \<and> owned (ram_of s) (buframmem s) P"

definition csma_mem :: "queues \<Rightarrow> 'r csma \<Rightarrow> bool" where
  "csma_mem Q s \<longleftrightarrow> csma_lists Q s \<and> csma_pools (set (packets Q)) s"

lemmas csma_mem_defs = csma_mem_def csma_lists_def csma_pools_def

text \<open>What the queues hold: the addresses of the neighbours and the packets, with their callback and bytes.\<close>

definition packet_of :: "'r csma \<Rightarrow> ptr \<Rightarrow> ptr \<times> ptr \<times> bytes" where
  "packet_of s q = (md_sent s (rdc_ptr s q), md_cptr s (rdc_ptr s q), pb_data (qb_data s (ram_of s q)))"

definition view :: "queues \<Rightarrow> 'r csma \<Rightarrow> (linkaddr \<times> (ptr \<times> ptr \<times> bytes) list) list" where
  "view Q s = map (\<lambda>(n, qs). (nb_addr s n, map (packet_of s) qs)) Q"

lemma queues_simps:
  "items nxt p (q # qs) \<Longrightarrow> p = q" "lst_items l (n # ns) \<Longrightarrow> n \<noteq> 0"
  by (auto simp: lst_items_def)

definition counts_ok :: "'r csma \<Rightarrow> ptr \<Rightarrow> ptr \<Rightarrow> bool" where
  "counts_ok s n q \<longleftrightarrow> collisions s n \<le> CSMA_MAX_BACKOFF
    \<and> (transmissions s n < md_max_transmissions s (rdc_ptr s q) \<or> transmissions s n = 0)"

definition csma_ok :: "queues \<Rightarrow> 'r csma \<Rightarrow> bool" where
  "csma_ok Q s \<longleftrightarrow> csma_mem Q s \<and> distinct (map (\<lambda>(n, qs). nb_addr s n) Q)
    \<and> (\<forall>(n, qs)\<in>set Q. qs \<noteq> [] \<and> counts_ok s n (hd qs))
    \<and> (\<forall>q\<in>set (packets Q). queuebuf_seqno (rdc_buf s q) s \<noteq> 0)"

text \<open>Exactly the neighbours have a timer that is set.\<close>

definition armed :: "queues \<Rightarrow> 'r csma \<Rightarrow> bool" where
  "armed Q s \<longleftrightarrow> (\<forall>n. transmit_timer s n \<noteq> None \<longleftrightarrow> n \<in> fst ` set Q)"

section \<open>Giving memory back\<close>

lemma release_ok:
  assumes "csma_mem (A @ (n, p # qs) # B) s"
  shows "\<exists>s'. release_packet n p s = Some s' \<and> csma_mem (A @ (n, qs) # B) s'
    \<and> s' = s\<lparr>queued_packet_list := queued_packet_list s', rdc_next := rdc_next s', bufmem := bufmem s', buframmem := buframmem s',
        metadata_memb := metadata_memb s', packet_memb := packet_memb s'\<rparr>"
proof -
  let ?Q = "A @ (n, p # qs) # B" and ?Q' = "A @ (n, qs) # B"
  note mem = assms [unfolded csma_mem_defs]
  have P: "set (packets ?Q) = insert p (set (packets ?Q'))" by auto
  have d: "distinct (packets ?Q)" and new: "p \<notin> set (packets ?Q')" using mem by auto
  have "lst_items (packet_list n s) (p # qs)" using mem by (simp add: lst_items_def packet_list_def)
  from list_remove_ok [OF this, of p] obtain l where l: "list_remove (packet_list n s) p = Some l" "lst_items l qs"
    "\<forall>a. a \<notin> set (p # qs) \<longrightarrow> lst_next l a = rdc_next s a" by (auto simp: packet_list_def)
  have "rdc_buf s p \<in> rdc_buf s ` set (packets ?Q)" by simp
  with mem have inm: "memb_inmemb (bufmem s) (rdc_buf s p)" unfolding owned_def using pool_inmemb by blast
  obtain m1 m2 m3 m4 where m: "memb_free (buframmem s) (ram_of s p) = Some (0, m1)" "owned (ram_of s) m1 (set (packets ?Q'))"
    "memb_free (bufmem s) (rdc_buf s p) = Some (0, m2)" "owned (rdc_buf s) m2 (set (packets ?Q'))"
    "memb_free (metadata_memb s) (rdc_ptr s p) = Some (0, m3)" "owned (rdc_ptr s) m3 (set (packets ?Q'))"
    "memb_free (packet_memb s) p = Some (0, m4)" "owned id m4 (set (packets ?Q'))"
    using mem owned_free [OF _ new] unfolding P by (metis id_apply)
  let ?s' = "(set_packet_list n l s)\<lparr>buframmem := m1, bufmem := m2, metadata_memb := m3, packet_memb := m4\<rparr>"
  have run: "release_packet n p s = Some ?s'"
    using l(1) inm m(1,3,5,7) by (simp add: release_packet_def queuebuf_free_def set_packet_list_def ram_of_def)
  have dn: "distinct (map fst ?Q)" using mem items_distinct unfolding lst_items_def by blast
  have others: "items (rdc_next ?s') (queued_packet_list ?s' k) ks" if "(k, ks) \<in> set A \<union> set B" for k ks
  proof -
    have "k \<noteq> n" using that dn by force
    moreover have "items (rdc_next s) (queued_packet_list s k) ks" using that mem by auto
    moreover have "a \<notin> set (p # qs)" if "a \<in> set ks" for a
      using that \<open>(k, ks) \<in> _\<close> d in_packets [of k ks A] in_packets [of k ks B] by auto
    ultimately show ?thesis using l(3) by (auto simp: set_packet_list_def intro: chain_cong)
  qed
  have this_one: "items (rdc_next ?s') (queued_packet_list ?s' n) qs"
    using l(2) by (simp add: lst_items_def set_packet_list_def)
  have "csma_mem ?Q' ?s'"
    unfolding csma_mem_defs conj_assoc
  proof (intro conjI)
    show "\<forall>(k, ks)\<in>set ?Q'. items (rdc_next ?s') (queued_packet_list ?s' k) ks" using others this_one by auto
  qed (use mem m d in \<open>auto simp: set_packet_list_def ram_of_def [abs_def]\<close>)
  with run show ?thesis by (simp add: set_packet_list_def)
qed


lemma free_neighbor_ok:
  assumes "csma_mem (A @ (n, []) # B) s"
  shows "\<exists>s'. free_neighbor n s = Some s' \<and> csma_mem (A @ B) s'
    \<and> s' = s\<lparr>neighbor_list := neighbor_list s', neighbor_memb := neighbor_memb s'\<rparr>"
proof -
  let ?Q = "A @ (n, []) # B"
  note mem = assms [unfolded csma_mem_defs]
  then have l: "lst_items (neighbor_list s) (map fst ?Q)" by blast
  then have dn: "distinct (map fst ?Q)" using items_distinct unfolding lst_items_def by blast
  then have r: "remove1 n (map fst ?Q) = map fst (A @ B)" by (simp add: remove1_append)
  obtain ns where ns: "list_remove (neighbor_list s) n = Some ns" "lst_items ns (map fst (A @ B))"
    using list_remove_ok [OF l, of n] unfolding r by blast
  have "n \<in> fst ` set ?Q" by simp
  with mem obtain m where m: "memb_free (neighbor_memb s) n = Some (0, m)" "pool m CSMA_MAX_NEIGHBOR_QUEUES (fst ` set ?Q - {n})"
    using pool_free by blast
  have "fst ` set ?Q - {n} = fst ` set (A @ B)" using dn by auto
  then have "csma_mem (A @ B) (s\<lparr>neighbor_list := ns, neighbor_memb := m\<rparr>)"
    using mem ns(2) m(2) by (auto simp: csma_mem_defs ram_of_def [abs_def])
  with ns(1) m(1) show ?thesis by (simp add: free_neighbor_def)
qed

lemma backoff_is_1: "backoff_period = 1"
  by (simp add: backoff_period_def nullrdc_channel_check_interval_def CLOCK_CONF_SECOND_def)

lemma schedule_ok:
  "\<exists>d r. schedule_transmission R n s = s\<lparr>rdc_radio := r, transmit_timer := (transmit_timer s)(n := Some d)\<rparr>"
proof -
  let ?d = "(push_bit (unat (min (collisions s n) CSMA_MAX_BE)) 1 - 1 :: u32) * backoff_period"
  obtain x r where x: "random_rand R (rdc_radio s) = (x, r)" by (cases "random_rand R (rdc_radio s)")
  show ?thesis
  proof (cases "?d > 0")
    case True
    then have "schedule_transmission R n s = s\<lparr>rdc_radio := r, transmit_timer := (transmit_timer s)(n := Some (ucast x mod ?d))\<rparr>"
      by (simp add: schedule_transmission_def x Let_def)
    then show ?thesis by blast
  next
    case False
    then have "schedule_transmission R n s = s\<lparr>transmit_timer := (transmit_timer s)(n := Some ?d)\<rparr>"
      by (simp add: schedule_transmission_def Let_def)
    then show ?thesis by (intro exI [of _ ?d] exI [of _ "rdc_radio s"]) simp
  qed
qed

section \<open>What a packet may change\<close>

text \<open>The fields of the neighbours and packets stay; of the copies in the queues, bytes and numbers.\<close>

definition kept :: "'r csma \<Rightarrow> 'r csma \<Rightarrow> bool" where
  "kept s s' \<longleftrightarrow> nb_addr s' = nb_addr s \<and> md_sent s' = md_sent s \<and> md_cptr s' = md_cptr s
    \<and> md_max_transmissions s' = md_max_transmissions s \<and> rdc_ptr s' = rdc_ptr s \<and> rdc_buf s' = rdc_buf s \<and> qb_ram s' = qb_ram s
    \<and> (\<forall>a. pb_data (qb_data s' a) = pb_data (qb_data s a) \<and> pb_seqno (qb_data s' a) = pb_seqno (qb_data s a))
    \<and> csma_initialized s' = csma_initialized s \<and> seqno s' = seqno s"

lemma kept_refl [simp]: "kept s s"
  by (simp add: kept_def)

lemma kept_trans: "kept s s' \<Longrightarrow> kept s' s'' \<Longrightarrow> kept s s''"
  by (simp add: kept_def)

lemma kept_view: "kept s s' \<Longrightarrow> view Q s' = view Q s" "kept s s' \<Longrightarrow> packet_of s' = packet_of s"
  by (auto simp: kept_def view_def packet_of_def ram_of_def fun_eq_iff)

lemma kept_seqno: "kept s s' \<Longrightarrow> queuebuf_seqno (rdc_buf s' q) s' = queuebuf_seqno (rdc_buf s q) s"
  by (simp add: kept_def queuebuf_seqno_def)

text \<open>The timers and counters of the other neighbours stay.\<close>

definition others :: "ptr \<Rightarrow> 'r csma \<Rightarrow> 'r csma \<Rightarrow> bool" where
  "others n s s' \<longleftrightarrow> (\<forall>k. k \<noteq> n \<longrightarrow> transmit_timer s' k = transmit_timer s k \<and> transmissions s' k = transmissions s k
    \<and> collisions s' k = collisions s k)"

text \<open>What is left when the packet at the head of a queue is gone.\<close>

definition without :: "queues \<Rightarrow> ptr \<Rightarrow> ptr list \<Rightarrow> queues \<Rightarrow> queues" where
  "without A n qs B = A @ (if qs = [] then [] else [(n, qs)]) @ B"

lemma free_head_ok:
  assumes mem: "csma_mem (A @ (n, p # qs) # B) s"
  shows "\<exists>s'. free_packet R n p s = Some s' \<and> csma_mem (without A n qs B) s' \<and> kept s s'
    \<and> packetbuf s' = packetbuf s \<and> sent_calls s' = sent_calls s
    \<and> others n s s'
    \<and> (transmit_timer s' n = None \<longleftrightarrow> qs = []) \<and> transmissions s' n = (if qs = [] then transmissions s n else 0)
    \<and> (qs \<noteq> [] \<longrightarrow> collisions s' n = CSMA_MIN_BE)"
proof -
  from release_ok [OF mem] obtain s1 where s1: "release_packet n p s = Some s1" "csma_mem (A @ (n, qs) # B) s1"
    "s1 = s\<lparr>queued_packet_list := queued_packet_list s1, rdc_next := rdc_next s1, bufmem := bufmem s1, buframmem := buframmem s1,
        metadata_memb := metadata_memb s1, packet_memb := packet_memb s1\<rparr>" by blast
  have eq: "kept s s1" "packetbuf s1 = packetbuf s" "sent_calls s1 = sent_calls s" "transmit_timer s1 = transmit_timer s"
    "transmissions s1 = transmissions s" "collisions s1 = collisions s"
    by (subst s1(3), simp add: kept_def)+
  have p: "p \<noteq> 0" using mem by (auto simp: csma_mem_defs)
  have head: "list_head (packet_list n s1) \<noteq> 0 \<longleftrightarrow> qs \<noteq> []"
    using s1(2) by (cases qs) (auto simp: csma_mem_defs packet_list_def list_head_def)
  show ?thesis
  proof (cases "qs = []")
    case True
    let ?s2 = "s1\<lparr>transmit_timer := (transmit_timer s1)(n := None)\<rparr>"
    have "csma_mem (A @ (n, []) # B) ?s2" using s1(2) True by (simp add: csma_mem_defs ram_of_def [abs_def])
    from free_neighbor_ok [OF this] obtain s' where s': "free_neighbor n ?s2 = Some s'" "csma_mem (A @ B) s'"
      "s' = ?s2\<lparr>neighbor_list := neighbor_list s', neighbor_memb := neighbor_memb s'\<rparr>" by blast
    have "kept s1 s'" "packetbuf s' = packetbuf s1" "sent_calls s' = sent_calls s1"
      "transmit_timer s' = (transmit_timer s1)(n := None)" "transmissions s' = transmissions s1" "collisions s' = collisions s1"
      by (subst s'(3), simp add: kept_def)+
    then show ?thesis using True p s1(1) head s'(1,2) eq kept_trans [OF eq(1)]
      by (auto simp: free_packet_def without_def others_def)
  next
    case False
    let ?s2 = "s1\<lparr>transmissions := (transmissions s1)(n := 0), collisions := (collisions s1)(n := CSMA_MIN_BE)\<rparr>"
    from schedule_ok [of R n ?s2] obtain d r where
      sch: "schedule_transmission R n ?s2 = ?s2\<lparr>rdc_radio := r, transmit_timer := (transmit_timer ?s2)(n := Some d)\<rparr>" by blast
    have "csma_mem (A @ (n, qs) # B) (schedule_transmission R n ?s2)"
      using s1(2) unfolding sch by (simp add: csma_mem_defs ram_of_def [abs_def])
    moreover have "kept s1 (schedule_transmission R n ?s2)" unfolding sch by (simp add: kept_def)
    ultimately show ?thesis using False p s1(1) head eq kept_trans [OF eq(1)] sch
      by (auto simp: free_packet_def without_def others_def)
  qed
qed


section \<open>The outcome of a transmission\<close>

text \<open>
  The attempts that a packet has left at most: a collision counts as a sixth of a transmission.
\<close>

definition attempts_left :: "'r csma \<Rightarrow> ptr \<Rightarrow> ptr \<Rightarrow> nat" where
  "attempts_left s n q =
    (unat (md_max_transmissions s (rdc_ptr s q)) - unat (transmissions s n)) * 6 + 5 - unat (collisions s n)"

definition tries :: "'r csma \<Rightarrow> ptr \<Rightarrow> nat" where
  "tries s q = unat (md_max_transmissions s (rdc_ptr s q))"

lemma attempts_tries: "attempts_left s n q \<le> 6 * tries s q + 5"
  by (simp add: attempts_left_def tries_def)

text \<open>The callback of a packet, and the one of a call.\<close>

definition callback :: "'r csma \<Rightarrow> ptr \<Rightarrow> ptr \<times> ptr" where
  "callback s q = (md_sent s (rdc_ptr s q), md_cptr s (rdc_ptr s q))"

definition called :: "ptr \<times> ptr \<times> mac_status \<times> nat \<Rightarrow> ptr \<times> ptr" where
  "called c = (fst c, fst (snd c))"

lemma called_simps [simp]: "called (f, p, st, x) = (f, p)"
  by (simp add: called_def)

lemma kept_callback: "kept s s' \<Longrightarrow> callback s' = callback s"
  by (simp add: callback_def kept_def fun_eq_iff)

lemma callback_packet: "callback s q = (fst (packet_of s q), fst (snd (packet_of s q)))"
  by (simp add: callback_def packet_of_def)

lemma csma_ok_queue:
  assumes "csma_ok (A @ (n, p # qs) # B) s"
  shows "csma_mem (A @ (n, p # qs) # B) s" "n \<noteq> 0" "p \<noteq> 0" "counts_ok s n p" "queuebuf_seqno (rdc_buf s p) s \<noteq> 0"
    "list_head (packet_list n s) = p" "rdc_ptr s p \<noteq> 0" "memb_inmemb (bufmem s) (rdc_buf s p)" "rdc_next s p = (case qs of [] \<Rightarrow> 0 | q # _ \<Rightarrow> q)"
proof -
  from assms show mem: "csma_mem (A @ (n, p # qs) # B) s" and "counts_ok s n p" "queuebuf_seqno (rdc_buf s p) s \<noteq> 0"
    by (simp_all add: csma_ok_def)
  have q: "items (rdc_next s) (queued_packet_list s n) (p # qs)" and n: "lst_items (neighbor_list s) (map fst (A @ (n, p # qs) # B))"
    and own: "owned (rdc_ptr s) (metadata_memb s) (set (packets (A @ (n, p # qs) # B)))" "owned (rdc_buf s) (bufmem s) (set (packets (A @ (n, p # qs) # B)))"
    using mem by (auto simp: csma_mem_defs)
  from n have "n \<noteq> 0" using items_zero [of "lst_next (neighbor_list s)" "lst_head (neighbor_list s)" "map fst (A @ (n, p # qs) # B)"]
    unfolding lst_items_def by (metis in_set_conv_decomp fst_conv list.simps(9) map_append)
  then show "n \<noteq> 0" .
  from q show "p \<noteq> 0" "list_head (packet_list n s) = p" "rdc_next s p = (case qs of [] \<Rightarrow> 0 | q # _ \<Rightarrow> q)"
    by (auto simp: packet_list_def list_head_def split: list.split)
  have "rdc_ptr s p \<in> rdc_ptr s ` set (packets (A @ (n, p # qs) # B))" "rdc_buf s p \<in> rdc_buf s ` set (packets (A @ (n, p # qs) # B))" by simp_all
  with own show "rdc_ptr s p \<noteq> 0" "memb_inmemb (bufmem s) (rdc_buf s p)"
    unfolding owned_def using pool_alloc(3) pool_inmemb by metis+
qed

lemma csma_ok_member: "csma_ok Q s \<Longrightarrow> (k, ks) \<in> set Q \<Longrightarrow> ks \<noteq> [] \<and> counts_ok s k (hd ks)"
  by (auto simp: csma_ok_def)

lemma without_parts:
  "set (packets (without A n qs B)) = set (packets A) \<union> set qs \<union> set (packets B)"
  "(k, ks) \<in> set (without A n qs B) \<longleftrightarrow> (k, ks) \<in> set A \<union> set B \<or> (k = n \<and> ks = qs \<and> qs \<noteq> [])"
  by (auto simp: without_def)

lemma neighbors_distinct:
  assumes "csma_mem (A @ (n, qs) # B) s" "(k, ks) \<in> set A \<union> set B"
  shows "k \<noteq> n"
proof -
  have "distinct (map fst (A @ (n, qs) # B))"
    using assms(1) items_distinct unfolding csma_mem_defs lst_items_def by blast
  with assms(2) show ?thesis by force
qed

text \<open>The packet leaves the queue and its callback is called, with a status and a number.\<close>

lemma tx_done_ok:
  assumes "csma_ok (A @ (n, p # qs) # B) s"
    and s1: "s1 = s\<lparr>transmissions := (transmissions s)(n := x), collisions := (collisions s)(n := y)\<rparr>"
  shows "\<exists>s'. tx_done R status p n s1 = Some s' \<and> csma_ok (without A n qs B) s' \<and> kept s s' \<and> packetbuf s' = packetbuf s
    \<and> others n s s' \<and> (transmit_timer s' n = None \<longleftrightarrow> qs = [])
    \<and> sent_calls s' = sent_calls s @ [(md_sent s (rdc_ptr s p), md_cptr s (rdc_ptr s p), status, if qs = [] then unat x else 0)]"
proof -
  let ?Q = "A @ (n, p # qs) # B" and ?Q' = "without A n qs B"
  note q = csma_ok_queue [OF assms(1)]
  have k1: "kept s s1" unfolding s1 by (simp add: kept_def)
  have "csma_mem ?Q s1" using q(1) unfolding s1 by (simp add: csma_mem_defs ram_of_def [abs_def])
  from free_head_ok [OF this, of R] obtain s2 where s2: "free_packet R n p s1 = Some s2" "csma_mem ?Q' s2" "kept s1 s2"
    "packetbuf s2 = packetbuf s1" "sent_calls s2 = sent_calls s1"
    "others n s1 s2"
    "transmit_timer s2 n = None \<longleftrightarrow> qs = []" "transmissions s2 n = (if qs = [] then transmissions s1 n else 0)"
    "qs \<noteq> [] \<longrightarrow> collisions s2 n = CSMA_MIN_BE"
    by (elim exE conjE) (rule that; assumption)
  have kept: "kept s s2" using kept_trans [OF k1 s2(3)] .
  then have same: "nb_addr s2 = nb_addr s" "md_max_transmissions s2 = md_max_transmissions s" "rdc_ptr s2 = rdc_ptr s"
    by (simp_all add: kept_def)
  let ?s' = "mac_call_sent_callback (md_sent s (rdc_ptr s p)) (md_cptr s (rdc_ptr s p)) status (unat (transmissions s2 n)) s2"
  have run: "tx_done R status p n s1 = Some ?s'"
    using s2(1) by (simp add: tx_done_def s1)
  have "counts_ok s2 k (hd ks)" if "(k, ks) \<in> set ?Q'" for k ks
  proof (cases "k = n \<and> ks = qs \<and> qs \<noteq> []")
    case True
    then show ?thesis using s2(8,9) by (simp add: counts_ok_def CSMA_MIN_BE_def)
  next
    case False
    then have old: "(k, ks) \<in> set A \<union> set B" using that by (auto simp: without_parts)
    then have "counts_ok s k (hd ks)" "k \<noteq> n"
      using csma_ok_member [OF assms(1), of k ks] neighbors_distinct [OF q(1)] by simp_all
    then show ?thesis using s2(6) unfolding counts_ok_def same others_def by (simp add: s1)
  qed
  moreover have "distinct (map (\<lambda>(n, qs). nb_addr s2 n) ?Q')" "\<forall>(k, ks)\<in>set ?Q'. ks \<noteq> []"
    using assms(1) unfolding same by (auto simp: csma_ok_def without_def)
  moreover have "\<forall>q\<in>set (packets ?Q'). queuebuf_seqno (rdc_buf s2 q) s2 \<noteq> 0"
    using assms(1) by (auto simp: csma_ok_def kept_seqno [OF kept] without_parts)
  ultimately have "csma_ok ?Q' s2" using s2(2) unfolding csma_ok_def by fast
  moreover have "csma_ok ?Q' ?s' = csma_ok ?Q' s2"
    by (simp add: csma_ok_def csma_mem_defs counts_ok_def queuebuf_seqno_def ram_of_def [abs_def] mac_call_sent_callback_def)
  moreover have "kept s ?s'" using kept by (simp add: kept_def mac_call_sent_callback_def)
  ultimately show ?thesis using run s2 kept
    by (intro exI [of _ ?s']) (auto simp: mac_call_sent_callback_def s1 others_def)
qed

text \<open>The packet stays at the head of its queue and is tried again after a delay.\<close>

lemma rexmit_ok:
  assumes "csma_ok (A @ (n, p # qs) # B) s" "pb_seqno (packetbuf s) = queuebuf_seqno (rdc_buf s p) s"
    and s1: "s1 = s\<lparr>transmissions := (transmissions s)(n := x), collisions := (collisions s)(n := y)\<rparr>"
    and c: "y \<le> CSMA_MAX_BACKOFF" "x < md_max_transmissions s (rdc_ptr s p)"
  shows "csma_ok (A @ (n, p # qs) # B) (rexmit R p n s1) \<and> kept s (rexmit R p n s1) \<and> packetbuf (rexmit R p n s1) = packetbuf s
    \<and> others n s (rexmit R p n s1) \<and> transmit_timer (rexmit R p n s1) n \<noteq> None
    \<and> sent_calls (rexmit R p n s1) = sent_calls s
    \<and> transmissions (rexmit R p n s1) n = x \<and> collisions (rexmit R p n s1) n = y"
proof -
  let ?Q = "A @ (n, p # qs) # B"
  obtain d r where sch: "schedule_transmission R n s1 = s1\<lparr>rdc_radio := r, transmit_timer := (transmit_timer s1)(n := Some d)\<rparr>"
    using schedule_ok [of R n s1] by blast
  let ?ram = "qb_ram s (rdc_buf s p)"
  let ?s' = "s1\<lparr>rdc_radio := r, transmit_timer := (transmit_timer s1)(n := Some d),
    qb_data := (qb_data s)(?ram := (packetbuf s)\<lparr>pb_hdr := pb_hdr (qb_data s ?ram), pb_data := pb_data (qb_data s ?ram)\<rparr>)\<rparr>"
  have run: "rexmit R p n s1 = ?s'"
    unfolding rexmit_def sch queuebuf_update_attr_from_packetbuf_def Let_def by (simp add: s1)
  have kept: "kept s ?s'" using assms(2) by (auto simp: kept_def s1 queuebuf_seqno_def)
  note q = csma_ok_queue [OF assms(1)]
  have mem: "csma_mem ?Q ?s'" using q(1) by (simp add: csma_mem_defs ram_of_def [abs_def] s1)
  have "counts_ok ?s' k (hd ks)" if "(k, ks) \<in> set ?Q" for k ks
  proof (cases "k = n")
    case True
    then have "ks = p # qs" using that neighbors_distinct [OF q(1)] by auto
    then show ?thesis using True c by (simp add: counts_ok_def s1)
  next
    case False
    then have "(k, ks) \<in> set A \<union> set B" using that by auto
    then have "counts_ok s k (hd ks)" using csma_ok_member [OF assms(1), of k ks] by auto
    then show ?thesis using False by (simp add: counts_ok_def s1)
  qed
  moreover have "distinct (map (\<lambda>(n, qs). nb_addr ?s' n) ?Q)" "\<forall>(k, ks)\<in>set ?Q. ks \<noteq> []"
    using assms(1) by (auto simp: csma_ok_def s1)
  moreover have "\<forall>q\<in>set (packets ?Q). queuebuf_seqno (rdc_buf ?s' q) ?s' \<noteq> 0"
    using assms(1) unfolding kept_seqno [OF kept] by (simp add: csma_ok_def)
  ultimately have "csma_ok ?Q ?s'" using mem unfolding csma_ok_def by fast
  then show ?thesis unfolding run using kept by (simp add: s1 others_def)
qed


text \<open>
  \<open>packet_sent\<close> after a transmission of the packet at the head: it stays with an attempt less, or it
  leaves the queue and its callback is called with the status.
\<close>

definition retried :: "'r csma \<Rightarrow> 'r csma \<Rightarrow> ptr \<Rightarrow> ptr \<Rightarrow> queues \<Rightarrow> bool" where
  "retried s s' n p Q \<longleftrightarrow> csma_ok Q s' \<and> transmit_timer s' n \<noteq> None \<and> sent_calls s' = sent_calls s
    \<and> attempts_left s' n p < attempts_left s n p"

definition finished :: "'r csma \<Rightarrow> 'r csma \<Rightarrow> ptr \<Rightarrow> ptr \<Rightarrow> ptr list \<Rightarrow> mac_status \<Rightarrow> queues \<Rightarrow> bool" where
  "finished s s' n p qs status Q' \<longleftrightarrow> csma_ok Q' s' \<and> (transmit_timer s' n = None \<longleftrightarrow> qs = [])
    \<and> (\<exists>x. sent_calls s' = sent_calls s @ [(md_sent s (rdc_ptr s p), md_cptr s (rdc_ptr s p), status, if qs = [] then unat x else 0)]
      \<and> (x :: u8) \<in> {transmissions s n, transmissions s n + 1})"

definition others_kept :: "'r csma \<Rightarrow> 'r csma \<Rightarrow> ptr \<Rightarrow> bool" where
  "others_kept s s' n \<longleftrightarrow> kept s s' \<and> others n s s'"

lemma u8_less: "(a :: u8) < b \<longleftrightarrow> unat a < unat b" "(a :: u8) \<le> b \<longleftrightarrow> unat a \<le> unat b"
  by (simp_all add: word_less_nat_alt word_le_nat_alt)

lemma u8_inc: "(a :: u8) < b \<Longrightarrow> unat (a + 1) = unat a + 1"
  using unsigned_less [of b, where ?'a = nat] by (simp add: u8_less unat_word_ariths)

lemma counts_swap:
  "s\<lparr>collisions := c, transmissions := t\<rparr> = s\<lparr>transmissions := t, collisions := c\<rparr>"
  by simp

lemma finish_ok:
  assumes ok: "csma_ok (A @ (n, p # qs) # B) s"
    and "s1 = s\<lparr>transmissions := (transmissions s)(n := x), collisions := (collisions s)(n := y)\<rparr>"
      "x \<in> {transmissions s n, transmissions s n + 1}"
  shows "\<exists>s'. tx_done R status p n s1 = Some s' \<and> others_kept s s' n \<and> finished s s' n p qs status (without A n qs B)"
proof -
  from tx_done_ok [OF ok assms(2), of R status] obtain s' where "tx_done R status p n s1 = Some s'"
    "csma_ok (without A n qs B) s'" "kept s s'" "others n s s'"
    "transmit_timer s' n = None \<longleftrightarrow> qs = []"
    "sent_calls s' = sent_calls s @ [(md_sent s (rdc_ptr s p), md_cptr s (rdc_ptr s p), status, if qs = [] then unat x else 0)]"
    by (elim exE conjE) (rule that; assumption)
  with assms(3) show ?thesis unfolding others_kept_def finished_def by (intro exI conjI) assumption+
qed

lemma retry_ok':
  assumes ok: "csma_ok (A @ (n, p # qs) # B) s" and seq: "pb_seqno (packetbuf s) = queuebuf_seqno (rdc_buf s p) s"
    and s1: "s1 = s\<lparr>transmissions := (transmissions s)(n := x), collisions := (collisions s)(n := y)\<rparr>"
    and c: "y \<le> CSMA_MAX_BACKOFF" "x < md_max_transmissions s (rdc_ptr s p)"
    and left: "(unat (md_max_transmissions s (rdc_ptr s p)) - unat x) * 6 + 5 - unat y < attempts_left s n p"
  shows "others_kept s (rexmit R p n s1) n \<and> retried s (rexmit R p n s1) n p (A @ (n, p # qs) # B)"
proof -
  from rexmit_ok [OF ok seq s1 c, of R] have r: "csma_ok (A @ (n, p # qs) # B) (rexmit R p n s1)" "kept s (rexmit R p n s1)"
    "others n s (rexmit R p n s1)" "transmit_timer (rexmit R p n s1) n \<noteq> None"
    "sent_calls (rexmit R p n s1) = sent_calls s" "transmissions (rexmit R p n s1) n = x" "collisions (rexmit R p n s1) n = y"
    by blast+
  have "attempts_left (rexmit R p n s1) n p < attempts_left s n p"
    using left r(2) unfolding attempts_left_def [of "rexmit R p n s1"] r(6,7) by (simp add: kept_def)
  with r show ?thesis unfolding others_kept_def retried_def by blast
qed

lemma noack_ok:
  assumes ok: "csma_ok (A @ (n, p # qs) # B) s" and seq: "pb_seqno (packetbuf s) = queuebuf_seqno (rdc_buf s p) s"
  shows "\<exists>s'. noack R p n 1 s = Some s' \<and> others_kept s s' n
    \<and> (retried s s' n p (A @ (n, p # qs) # B) \<or> finished s s' n p qs MAC_TX_NOACK (without A n qs B))"
proof -
  let ?m = "md_max_transmissions s (rdc_ptr s p)" and ?t = "transmissions s n"
  let ?s1 = "s\<lparr>transmissions := (transmissions s)(n := ?t + 1), collisions := (collisions s)(n := CSMA_MIN_BE)\<rparr>"
  have run: "noack R p n 1 s = (if ?t + 1 \<ge> ?m then tx_done R MAC_TX_NOACK p n ?s1 else Some (rexmit R p n ?s1))"
    by (simp add: noack_def Let_def counts_swap)
  show ?thesis
  proof (cases "?t + 1 \<ge> ?m")
    case True
    then show ?thesis using finish_ok [OF ok refl, where x = "?t + 1" and y = CSMA_MIN_BE and R = R and status = MAC_TX_NOACK] unfolding run by auto
  next
    case False
    then have less: "?t + 1 < ?m" by simp
    have "?t < ?m \<or> ?t = 0" using csma_ok_queue(4) [OF ok] by (simp add: counts_ok_def)
    with less have "?t < ?m" by (metis not_le word_gt_0 word_not_simps(1) le_less_trans word_zero_le)
    then have inc: "unat (?t + 1) = unat ?t + 1" by (rule u8_inc)
    have "(unat ?m - unat (?t + 1)) * 6 + 5 - unat CSMA_MIN_BE < attempts_left s n p"
      using less inc csma_ok_queue(4) [OF ok]
      by (simp add: attempts_left_def counts_ok_def CSMA_MIN_BE_def CSMA_MAX_BACKOFF_def u8_less)
    from retry_ok' [OF ok seq refl _ less this, of R] show ?thesis using False unfolding run
      by (simp add: CSMA_MIN_BE_def)
  qed
qed

lemma collision_ok:
  assumes ok: "csma_ok (A @ (n, p # qs) # B) s" and seq: "pb_seqno (packetbuf s) = queuebuf_seqno (rdc_buf s p) s"
  shows "\<exists>s'. collision R p n 1 s = Some s' \<and> others_kept s s' n
    \<and> (retried s s' n p (A @ (n, p # qs) # B) \<or> finished s s' n p qs MAC_TX_COLLISION (without A n qs B))"
proof -
  let ?m = "md_max_transmissions s (rdc_ptr s p)" and ?t = "transmissions s n" and ?c = "collisions s n"
  define x y where "x = (if ?c + 1 > CSMA_MAX_BACKOFF then ?t + 1 else ?t)"
    and "y = (if ?c + 1 > CSMA_MAX_BACKOFF then CSMA_MIN_BE else ?c + 1)"
  let ?s1 = "s\<lparr>transmissions := (transmissions s)(n := x), collisions := (collisions s)(n := y)\<rparr>"
  have run: "collision R p n 1 s = (if x \<ge> ?m then tx_done R MAC_TX_COLLISION p n ?s1 else Some (rexmit R p n ?s1))"
    by (simp add: collision_def Let_def x_def y_def counts_swap)
  have counts: "?t < ?m \<or> ?t = 0" and c: "?c \<le> 5"
    using csma_ok_queue(4) [OF ok] by (simp_all add: counts_ok_def CSMA_MAX_BACKOFF_def)
  then have inc: "unat (?c + 1) = unat ?c + 1" using u8_inc [of ?c 6] by (simp add: u8_less)
  show ?thesis
  proof (cases "x \<ge> ?m")
    case True
    have "x \<in> {?t, ?t + 1}" by (simp add: x_def)
    from finish_ok [OF ok refl this, where y = y and R = R and status = MAC_TX_COLLISION] True show ?thesis unfolding run by auto
  next
    case False
    then have less: "x < ?m" by simp
    have t: "?t < ?m" using counts less by (metis word_gt_0 word_not_simps(1) le_less_trans word_zero_le not_le)
    have y: "y \<le> CSMA_MAX_BACKOFF" by (simp add: y_def CSMA_MIN_BE_def not_less)
    have "(unat ?m - unat x) * 6 + 5 - unat y < attempts_left s n p"
      using less t c inc u8_inc [OF t]
      by (auto simp: attempts_left_def x_def y_def CSMA_MIN_BE_def CSMA_MAX_BACKOFF_def u8_less split: if_splits)
    from retry_ok' [OF ok seq refl y less this, of R] show ?thesis using False unfolding run by auto
  qed
qed

lemma find_head:
  assumes "csma_ok (A @ (n, p # qs) # B) s" "pb_seqno (packetbuf s) = queuebuf_seqno (rdc_buf s p) s"
  shows "find_packet s (list_head (packet_list n s)) = Some p"
  using csma_ok_queue(3,6) [OF assms(1)] assms(2) by (subst find_packet.simps) simp

lemma packet_sent_ok:
  assumes ok: "csma_ok (A @ (n, p # qs) # B) s" and seq: "pb_seqno (packetbuf s) = queuebuf_seqno (rdc_buf s p) s"
    and st: "status \<noteq> MAC_TX_DEFERRED"
  shows "\<exists>s'. packet_sent R n status 1 s = Some s' \<and> others_kept s s' n
    \<and> (retried s s' n p (A @ (n, p # qs) # B) \<and> status \<noteq> MAC_TX_OK \<or> finished s s' n p qs status (without A n qs B))"
proof -
  note q = csma_ok_queue [OF ok]
  have run: "packet_sent R n status 1 s = (case status of
      MAC_TX_OK \<Rightarrow> tx_ok R p n 1 s | MAC_TX_NOACK \<Rightarrow> noack R p n 1 s | MAC_TX_COLLISION \<Rightarrow> collision R p n 1 s
    | MAC_TX_DEFERRED \<Rightarrow> Some s | _ \<Rightarrow> tx_done R status p n s)"
    using q(2,3,7) find_head [OF ok seq] by (simp add: packet_sent_def)
  have same: "s\<lparr>transmissions := (transmissions s)(n := transmissions s n), collisions := (collisions s)(n := collisions s n)\<rparr> = s"
    by simp
  have gone: "\<exists>s'. tx_done R st p n s = Some s' \<and> others_kept s s' n \<and> finished s s' n p qs st (without A n qs B)" for st
    using finish_ok [OF ok same [symmetric], where R = R and status = st] by simp
  show ?thesis
  proof (cases status)
    case MAC_TX_OK
    then show ?thesis
      using finish_ok [OF ok refl, where x = "transmissions s n + 1" and y = CSMA_MIN_BE and R = R and status = MAC_TX_OK] unfolding run
      by (simp add: tx_ok_def counts_swap)
  next
    case MAC_TX_NOACK
    then show ?thesis using noack_ok [OF ok seq, of R] unfolding run by auto
  next
    case MAC_TX_COLLISION
    then show ?thesis using collision_ok [OF ok seq, of R] unfolding run by auto
  next
    case MAC_TX_ERR
    then show ?thesis using gone [of MAC_TX_ERR] unfolding run by auto
  next
    case MAC_TX_ERR_FATAL
    then show ?thesis using gone [of MAC_TX_ERR_FATAL] unfolding run by auto
  qed (use st in simp)
qed


section \<open>Sending a queue\<close>

text \<open>
  What the layer relies on: the clock runs, so that waiting ends, and a frame that the framer makes has a header,
  with the number the packet already has.
\<close>

locale rdc_driver =
  fixes R :: "'r rdc_ops"
  assumes waits_end: "\<exists>r'. wait_until R t r = Some r'"
    and framer: "pb_seqno b \<noteq> 0 \<Longrightarrow> framer_create R b r = (Some b', r') \<Longrightarrow> pb_seqno b' = pb_seqno b \<and> 3 \<le> length (pb_hdr b')"
begin

lemma wait_for_returns: "\<exists>r'. wait_for R d r = Some r'"
  using waits_end by (auto simp: wait_for_def split: prod.split)

lemma ack_returns: "\<exists>st r'. wait_for_ack R dsn r = Some (st, r') \<and> st \<noteq> MAC_TX_DEFERRED"
proof -
  obtain r1 where r1: "wait_for R ACK_WAIT_TIME r = Some r1" using wait_for_returns by blast
  obtain r2 where "wait_for R AFTER_ACK_DETECTED_WAIT_TIME r' = Some (r2 r')" for r'
    using wait_for_returns [of AFTER_ACK_DETECTED_WAIT_TIME] by metis
  then show ?thesis unfolding wait_for_ack_def r1 by (auto split: prod.split)
qed

lemma transmit_returns:
  "3 \<le> length (pb_hdr b) \<Longrightarrow> \<exists>st r'. transmit_frame R b r = Some (st, r') \<and> st \<noteq> MAC_TX_DEFERRED"
  using ack_returns unfolding transmit_frame_def
  by (auto simp: Let_def split: prod.split radio_tx.split)

lemma send_one_ok:
  assumes ok: "csma_ok (A @ (n, p # qs) # B) s"
  shows "\<exists>b s' st. send_one_packet R (packet_sent R n) (queuebuf_to_packetbuf (rdc_buf s p) s) = Some (b, s') \<and> others_kept s s' n
    \<and> (\<not> b \<and> retried s s' n p (A @ (n, p # qs) # B) \<or> finished s s' n p qs st (without A n qs B) \<and> (b \<longleftrightarrow> st = MAC_TX_OK))"
proof -
  let ?Q = "A @ (n, p # qs) # B"
  note q = csma_ok_queue [OF ok]
  define c where "c = qb_data s (qb_ram s (rdc_buf s p))"
  define b0 where "b0 = c\<lparr>pb_sender := linkaddr_node_addr R, pb_mac_ack := 1\<rparr>"
  have seq: "pb_seqno b0 = queuebuf_seqno (rdc_buf s p) s" "pb_seqno b0 \<noteq> 0"
    using q(5) by (simp_all add: b0_def c_def queuebuf_seqno_def)
  have load: "queuebuf_to_packetbuf (rdc_buf s p) s = s\<lparr>packetbuf := c\<rparr>"
    using q(8) by (simp add: queuebuf_to_packetbuf_def c_def)
  obtain st b1 r1 where tx: "(case framer_create R b0 (rdc_radio s) of (None, r) \<Rightarrow> Some (MAC_TX_ERR_FATAL, b0, r)
      | (Some b, r) \<Rightarrow> map_option (\<lambda>(ret, r). (ret, b, r)) (transmit_frame R b r)) = Some (st, b1, r1)"
    and st: "st \<noteq> MAC_TX_DEFERRED" and b1: "pb_seqno b1 = pb_seqno b0"
  proof (cases "framer_create R b0 (rdc_radio s)")
    case (Pair created r)
    show ?thesis
    proof (cases created)
      case None
      then show ?thesis using Pair that by simp
    next
      case (Some b)
      with framer [OF seq(2)] Pair have b: "pb_seqno b = pb_seqno b0" "3 \<le> length (pb_hdr b)" by simp_all
      obtain st r' where "transmit_frame R b r = Some (st, r')" "st \<noteq> MAC_TX_DEFERRED"
        using transmit_returns [OF b(2)] by blast
      then show ?thesis using Pair Some that b(1) by simp
    qed
  qed
  let ?s1 = "s\<lparr>packetbuf := b1, rdc_radio := r1\<rparr>"
  have ok1: "csma_ok ?Q ?s1"
    using ok by (simp add: csma_ok_def csma_mem_defs counts_ok_def queuebuf_seqno_def ram_of_def [abs_def])
  have "pb_seqno (packetbuf ?s1) = queuebuf_seqno (rdc_buf ?s1 p) ?s1" using b1 seq(1) by (simp add: queuebuf_seqno_def)
  from packet_sent_ok [OF ok1 this st, of R] obtain s' where
    s': "packet_sent R n st 1 ?s1 = Some s'" "others_kept ?s1 s' n"
      "retried ?s1 s' n p ?Q \<and> st \<noteq> MAC_TX_OK \<or> finished ?s1 s' n p qs st (without A n qs B)" by blast
  have run: "send_one_packet R (packet_sent R n) (queuebuf_to_packetbuf (rdc_buf s p) s) = Some (st = MAC_TX_OK, s')"
    using tx s'(1) unfolding send_one_packet_def load Let_def
    by (auto simp: b0_def split: prod.splits option.splits)
  have eq: "others_kept ?s1 s' n = others_kept s s' n" "retried ?s1 s' n p ?Q = retried s s' n p ?Q"
    "finished ?s1 s' n p qs st Q' = finished s s' n p qs st Q'" for Q'
    by (simp_all add: others_kept_def others_def kept_def retried_def finished_def attempts_left_def)
  show ?thesis using run s'(2,3) unfolding eq by blast
qed

text \<open>The packets up to the first that is not sent leave the queue, in order.\<close>

lemma send_list_ok:
  assumes "csma_ok (A @ (n, p # qs) # B) s"
  shows "\<exists>s' k calls. send_list R (packet_sent R n) p s = Some s' \<and> others_kept s s' n
    \<and> csma_ok (without A n (drop k (p # qs)) B) s' \<and> (transmit_timer s' n = None \<longleftrightarrow> drop k (p # qs) = [])
    \<and> sent_calls s' = sent_calls s @ calls
    \<and> map called calls = map (callback s) (take k (p # qs))
    \<and> (\<forall>c\<in>set (butlast calls). fst (snd (snd c)) = MAC_TX_OK)
    \<and> (k = 0 \<longrightarrow> attempts_left s' n p < attempts_left s n p)"
  using assms
proof (induction qs arbitrary: p s)
  case (Nil p s)
  note q = csma_ok_queue [OF Nil]
  from send_one_ok [OF Nil] obtain b s' st where one: "send_one_packet R (packet_sent R n) (queuebuf_to_packetbuf (rdc_buf s p) s) = Some (b, s')"
    "others_kept s s' n" "\<not> b \<and> retried s s' n p (A @ (n, [p]) # B) \<or> finished s s' n p [] st (without A n [] B) \<and> (b \<longleftrightarrow> st = MAC_TX_OK)"
    by blast
  have run: "send_list R (packet_sent R n) p s = Some s'"
    using q(3,9) one(1) by (subst send_list.simps) (simp add: send_list.simps [of R _ 0])
  from one(3) show ?case
  proof (elim disjE conjE)
    assume "retried s s' n p (A @ (n, [p]) # B)"
    with run one(2) show ?thesis
      by (intro exI [of _ s'] exI [of _ 0] exI [of _ "[]"]) (simp add: retried_def without_def)
  next
    assume "finished s s' n p [] st (without A n [] B)"
    then obtain x where "csma_ok (without A n [] B) s'" "transmit_timer s' n = None"
      "sent_calls s' = sent_calls s @ [(md_sent s (rdc_ptr s p), md_cptr s (rdc_ptr s p), st, x)]"
      by (auto simp: finished_def)
    with run one(2) show ?thesis
      by (intro exI [of _ s'] exI [of _ 1] exI [of _ "[(md_sent s (rdc_ptr s p), md_cptr s (rdc_ptr s p), st, x)]"]) (simp add: callback_def)
  qed
next
  case (Cons q qs p s)
  note h = csma_ok_queue [OF Cons.prems]
  from send_one_ok [OF Cons.prems] obtain b s1 st where one: "send_one_packet R (packet_sent R n) (queuebuf_to_packetbuf (rdc_buf s p) s) = Some (b, s1)"
    "others_kept s s1 n" "\<not> b \<and> retried s s1 n p (A @ (n, p # q # qs) # B) \<or> finished s s1 n p (q # qs) st (without A n (q # qs) B) \<and> (b \<longleftrightarrow> st = MAC_TX_OK)"
    by blast
  have run: "send_list R (packet_sent R n) p s = (if b then send_list R (packet_sent R n) q s1 else Some s1)"
    using h(3,9) one(1) by (subst send_list.simps) simp
  from one(3) show ?case
  proof (elim disjE conjE)
    assume "\<not> b" "retried s s1 n p (A @ (n, p # q # qs) # B)"
    with run one(2) show ?thesis
      by (intro exI [of _ s1] exI [of _ 0] exI [of _ "[]"]) (simp add: retried_def without_def)
  next
    assume fin: "finished s s1 n p (q # qs) st (without A n (q # qs) B)" and b: "b \<longleftrightarrow> st = MAC_TX_OK"
    then obtain x where f: "csma_ok (A @ (n, q # qs) # B) s1" "transmit_timer s1 n \<noteq> None"
      "sent_calls s1 = sent_calls s @ [(md_sent s (rdc_ptr s p), md_cptr s (rdc_ptr s p), st, x)]"
      by (auto simp: finished_def without_def)
    show ?thesis
    proof (cases b)
      case False
      with run one(2) f show ?thesis
        by (intro exI [of _ s1] exI [of _ 1] exI [of _ "[(md_sent s (rdc_ptr s p), md_cptr s (rdc_ptr s p), st, x)]"])
          (simp add: without_def callback_def)
    next
      case True
      from Cons.IH [OF f(1)] obtain s' k calls where ih: "send_list R (packet_sent R n) q s1 = Some s'" "others_kept s1 s' n"
        "csma_ok (without A n (drop k (q # qs)) B) s'" "transmit_timer s' n = None \<longleftrightarrow> drop k (q # qs) = []"
        "sent_calls s' = sent_calls s1 @ calls" "map called calls = map (callback s1) (take k (q # qs))"
        "\<forall>c\<in>set (butlast calls). fst (snd (snd c)) = MAC_TX_OK"
        by (elim exE conjE) (rule that; assumption)
      have "others_kept s s' n" using one(2) ih(2) kept_trans by (auto simp: others_kept_def others_def)
      moreover have "callback s1 = callback s" using one(2) kept_callback by (auto simp: others_kept_def)
      moreover have "\<forall>c\<in>set (butlast ((md_sent s (rdc_ptr s p), md_cptr s (rdc_ptr s p), st, x) # calls)). fst (snd (snd c)) = MAC_TX_OK"
        using ih(7) b True by auto
      ultimately show ?thesis using True run ih f
        by (intro exI [of _ s'] exI [of _ "Suc k"] exI [of _ "(md_sent s (rdc_ptr s p), md_cptr s (rdc_ptr s p), st, x) # calls"]) (simp add: callback_def)
    qed
  qed
qed

end


section \<open>Queueing a packet\<close>

lemma next_seqno_ok:
  "\<exists>r x y. next_seqno R s = s\<lparr>csma_initialized := True, seqno := y, rdc_radio := r, packetbuf := (packetbuf s)\<lparr>pb_seqno := x\<rparr>\<rparr> \<and> x \<noteq> 0"
proof -
  obtain x r where x: "random_rand R (rdc_radio s) = (x, r)" by (cases "random_rand R (rdc_radio s)")
  let ?x = "if csma_initialized s then seqno s else x" and ?r = "if csma_initialized s then rdc_radio s else r"
  have "next_seqno R s = s\<lparr>csma_initialized := True, seqno := (if ?x = 0 then 1 else ?x) + 1, rdc_radio := ?r,
      packetbuf := (packetbuf s)\<lparr>pb_seqno := if ?x = 0 then 1 else ?x\<rparr>\<rparr>"
    by (cases "csma_initialized s"; cases "seqno s = 0"; cases "x = 0") (simp_all add: next_seqno_def x)
  then show ?thesis by (intro exI conjI) (assumption, simp)
qed

lemma find_neighbor_ok:
  "lst_items (neighbor_list s) (map fst Q) \<Longrightarrow>
    neighbor_queue_from_addr s addr = Some (case find (\<lambda>n. nb_addr s n = addr) (map fst Q) of None \<Rightarrow> 0 | Some n \<Rightarrow> n)"
proof -
  have loop: "items (lst_next (neighbor_list s)) h ns \<Longrightarrow>
      find_neighbor s addr h = Some (case find (\<lambda>n. nb_addr s n = addr) ns of None \<Rightarrow> 0 | Some n \<Rightarrow> n)" for h ns
    by (induction ns arbitrary: h) (subst find_neighbor.simps; auto simp: list_item_next_def)+
  assume "lst_items (neighbor_list s) (map fst Q)"
  then show ?thesis by (simp add: neighbor_queue_from_addr_def list_head_def lst_items_def loop)
qed

lemma alloc_ok:
  assumes "csma_pools P s"
  shows "card P = QUEUEBUF_NUM \<Longrightarrow> alloc_packet s = Some (0, s)"
    and "card P < QUEUEBUF_NUM \<Longrightarrow> \<exists>q s'. alloc_packet s = Some (q, s') \<and> q \<noteq> 0 \<and> q \<notin> P \<and> csma_pools (insert q P) s'
      \<and> qb_data s' (ram_of s' q) = packetbuf_copy (packetbuf s)
      \<and> (\<forall>p\<in>P. rdc_ptr s' p = rdc_ptr s p \<and> rdc_buf s' p = rdc_buf s p \<and> ram_of s' p = ram_of s p \<and> qb_data s' (ram_of s p) = qb_data s (ram_of s p)
          \<and> rdc_ptr s p \<noteq> rdc_ptr s' q)
      \<and> s' = s\<lparr>packet_memb := packet_memb s', metadata_memb := metadata_memb s', bufmem := bufmem s', buframmem := buframmem s',
          rdc_ptr := rdc_ptr s', rdc_buf := rdc_buf s', qb_ram := qb_ram s', qb_data := qb_data s'\<rparr>"
proof -
  note own = assms [unfolded csma_pools_def]
  show "alloc_packet s = Some (0, s)" if "card P = QUEUEBUF_NUM"
    using owned_full [of id "packet_memb s" P] own that by (simp add: alloc_packet_def)
  assume free: "card P < QUEUEBUF_NUM"
  obtain q m1 where a1: "memb_alloc (packet_memb s) = Some (q, m1)" "q \<noteq> 0" "q \<notin> P" "owned id m1 (insert q P)"
    using owned_alloc [OF conjunct1 [OF own] free] by force
  obtain p m2 where a2: "memb_alloc (metadata_memb s) = Some (p, m2)" "p \<noteq> 0" "p \<notin> rdc_ptr s ` P"
    "owned ((rdc_ptr s)(q := p)) m2 (insert q P)"
    using owned_alloc [of "rdc_ptr s" "metadata_memb s" P] own free a1(3) by force
  obtain b m3 where a3: "memb_alloc (bufmem s) = Some (b, m3)" "b \<noteq> 0" "b \<notin> rdc_buf s ` P"
    "owned ((rdc_buf s)(q := b)) m3 (insert q P)"
    using owned_alloc [of "rdc_buf s" "bufmem s" P] own free a1(3) by force
  let ?ram = "\<lambda>r x. ((qb_ram s)(b := r)) (((rdc_buf s)(q := b)) x)"
  have old: "?ram r x = ram_of s x" if "x \<in> P" for r x
    using a1(3) a3(3) that by (auto simp: ram_of_def)
  obtain r m4 where a4: "memb_alloc (buframmem s) = Some (r, m4)" "r \<noteq> 0" "r \<notin> ram_of s ` P"
    and g: "\<And>x h. x \<notin> P \<Longrightarrow> (\<forall>q\<in>P. h q = ram_of s q) \<Longrightarrow> h x = r \<Longrightarrow> owned h m4 (insert x P)"
    using owned_alloc [of "ram_of s" "buframmem s" P] own free by metis
  have a4': "owned (?ram r) m4 (insert q P)" using g [of q "?ram r"] a1(3) old by simp
  let ?s' = "s\<lparr>packet_memb := m1, metadata_memb := m2, rdc_ptr := (rdc_ptr s)(q := p), bufmem := m3, buframmem := m4,
    qb_ram := (qb_ram s)(b := r), qb_data := (qb_data s)(r := packetbuf_copy (packetbuf s)), rdc_buf := (rdc_buf s)(q := b)\<rparr>"
  have run: "alloc_packet s = Some (q, ?s')"
    using a1(1,2) a2(1,2) a3(1,2) a4(1,2) by (simp add: alloc_packet_def queuebuf_new_from_packetbuf_def)
  have ram: "ram_of ?s' = ?ram r" by (simp add: ram_of_def fun_eq_iff)
  have new: "?ram r q = r" by simp
  have "csma_pools (insert q P) ?s'" unfolding csma_pools_def ram using a1(4) a2(4) a3(4) a4' by simp
  moreover have "qb_data ?s' (ram_of ?s' q) = packetbuf_copy (packetbuf s)" unfolding ram new by simp
  moreover have "\<forall>x\<in>P. rdc_ptr ?s' x = rdc_ptr s x \<and> rdc_buf ?s' x = rdc_buf s x \<and> ram_of ?s' x = ram_of s x
      \<and> qb_data ?s' (ram_of s x) = qb_data s (ram_of s x) \<and> rdc_ptr s x \<noteq> rdc_ptr ?s' q"
  proof
    fix x assume x: "x \<in> P"
    then have "ram_of s x \<noteq> r" "rdc_ptr s x \<noteq> p" "x \<noteq> q" using a4(3) a2(3) a1(3) by auto
    then show "rdc_ptr ?s' x = rdc_ptr s x \<and> rdc_buf ?s' x = rdc_buf s x \<and> ram_of ?s' x = ram_of s x
      \<and> qb_data ?s' (ram_of s x) = qb_data s (ram_of s x) \<and> rdc_ptr s x \<noteq> rdc_ptr ?s' q"
      unfolding ram old [OF x] by simp
  qed
  ultimately show "\<exists>q s'. alloc_packet s = Some (q, s') \<and> q \<noteq> 0 \<and> q \<notin> P \<and> csma_pools (insert q P) s'
      \<and> qb_data s' (ram_of s' q) = packetbuf_copy (packetbuf s)
      \<and> (\<forall>p\<in>P. rdc_ptr s' p = rdc_ptr s p \<and> rdc_buf s' p = rdc_buf s p \<and> ram_of s' p = ram_of s p \<and> qb_data s' (ram_of s p) = qb_data s (ram_of s p)
          \<and> rdc_ptr s p \<noteq> rdc_ptr s' q)
      \<and> s' = s\<lparr>packet_memb := packet_memb s', metadata_memb := metadata_memb s', bufmem := bufmem s', buframmem := buframmem s',
          rdc_ptr := rdc_ptr s', rdc_buf := rdc_buf s', qb_ram := qb_ram s', qb_data := qb_data s'\<rparr>"
    using run a1(2,3) by (intro exI [of _ q] exI [of _ ?s']) simp
qed

text \<open>A packet whose memory is there goes to the end of the queue.\<close>

lemma enqueue_ok:
  assumes lists: "csma_lists (A @ (n, qs) # B) s" and q: "q \<noteq> 0" "q \<notin> set (packets (A @ (n, qs) # B))"
    and pools: "csma_pools (insert q (set (packets (A @ (n, qs) # B)))) s"
  shows "\<exists>s'. enqueue_packet R sent p n q s = Some s' \<and> csma_mem (A @ (n, qs @ [q]) # B) s'
    \<and> s' = s\<lparr>queued_packet_list := queued_packet_list s', rdc_next := rdc_next s', rdc_radio := rdc_radio s', transmit_timer := transmit_timer s',
        md_max_transmissions := md_max_transmissions s', md_sent := (md_sent s)(rdc_ptr s q := sent), md_cptr := (md_cptr s)(rdc_ptr s q := p)\<rparr>
    \<and> (\<forall>m. m \<noteq> rdc_ptr s q \<longrightarrow> md_max_transmissions s' m = md_max_transmissions s m)
    \<and> (\<forall>k. k \<noteq> n \<longrightarrow> transmit_timer s' k = transmit_timer s k)
    \<and> (if qs = [] then transmit_timer s' n \<noteq> None else transmit_timer s' n = transmit_timer s n)"
proof -
  let ?Q = "A @ (n, qs) # B" and ?Q' = "A @ (n, qs @ [q]) # B"
  note l = lists [unfolded csma_lists_def]
  obtain x where x: "x = (if pb_max_transmissions (packetbuf s) = 0 then CSMA_MAX_MAX_FRAME_RETRIES + 1 else ucast (pb_max_transmissions (packetbuf s)))" by simp
  let ?s1 = "s\<lparr>md_max_transmissions := (md_max_transmissions s)(rdc_ptr s q := x),
    md_sent := (md_sent s)(rdc_ptr s q := sent), md_cptr := (md_cptr s)(rdc_ptr s q := p)\<rparr>"
  have qs: "lst_items (packet_list n ?s1) qs" using l by (simp add: lst_items_def packet_list_def)
  have "q \<notin> set qs" using q(2) by simp
  with list_add_ok [OF qs q(1)] obtain pl where pl: "list_add (packet_list n ?s1) q = Some pl" "lst_items pl (qs @ [q])"
    "\<forall>a. a \<notin> set qs \<and> a \<noteq> q \<longrightarrow> lst_next pl a = rdc_next s a" by (auto simp: packet_list_def remove1_idem)
  let ?s2 = "set_packet_list n pl ?s1"
  have head: "list_head (packet_list n ?s2) = q \<longleftrightarrow> qs = []"
    using pl(2) q(1) \<open>q \<notin> set qs\<close> by (cases qs) (auto simp: packet_list_def set_packet_list_def list_head_def lst_items_def)
  obtain d r where sch: "schedule_transmission R n ?s2 = ?s2\<lparr>rdc_radio := r, transmit_timer := (transmit_timer ?s2)(n := Some d)\<rparr>"
    using schedule_ok [of R n ?s2] by blast
  let ?s' = "if qs = [] then ?s2\<lparr>rdc_radio := r, transmit_timer := (transmit_timer ?s2)(n := Some d)\<rparr> else ?s2"
  have run: "enqueue_packet R sent p n q s = Some ?s'"
    using pl(1) head sch by (simp add: enqueue_packet_def Let_def x)
  have dn: "distinct (map fst ?Q)" using l items_distinct unfolding lst_items_def by blast
  have others: "items (rdc_next ?s') (queued_packet_list ?s' k) ks" if "(k, ks) \<in> set A \<union> set B" for k ks
  proof -
    have "k \<noteq> n" using that dn by force
    moreover have "items (rdc_next s) (queued_packet_list s k) ks" using that l by auto
    moreover have "a \<notin> set qs \<and> a \<noteq> q" if "a \<in> set ks" for a
      using that \<open>(k, ks) \<in> _\<close> l q(2) in_packets [of k ks A] in_packets [of k ks B] by auto
    ultimately show ?thesis using pl(3) by (auto simp: set_packet_list_def intro: chain_cong)
  qed
  have "csma_lists ?Q' ?s'"
    unfolding csma_lists_def
  proof (intro conjI)
    show "\<forall>(k, ks)\<in>set ?Q'. items (rdc_next ?s') (queued_packet_list ?s' k) ks"
      using others pl(2) by (auto simp: lst_items_def set_packet_list_def)
  qed (use l q(2) in \<open>auto simp: set_packet_list_def\<close>)
  moreover have "insert q (set (packets ?Q)) = set (packets ?Q')" by auto
  then have "csma_pools (set (packets ?Q')) ?s'"
    using pools by (cases "qs = []") (simp_all add: csma_pools_def set_packet_list_def ram_of_def [abs_def])
  ultimately show ?thesis using run
    by (intro exI [of _ ?s']) (simp add: csma_mem_def set_packet_list_def)
qed


lemma view_simps [simp]: "view (A @ B) s = view A s @ view B s"
  "view ((n, qs) # Q) s = (nb_addr s n, map (packet_of s) qs) # view Q s" "view [] s = []"
  by (simp_all add: view_def)

lemma view_addrs: "fst ` set (view Q s) = nb_addr s ` fst ` set Q"
  by (force simp: view_def)

lemma view_cong: "(\<And>q. q \<in> set (packets Q) \<Longrightarrow> packet_of s' q = packet_of s q) \<Longrightarrow> nb_addr s' = nb_addr s \<Longrightarrow> view Q s' = view Q s"
  by (induction Q) auto

text \<open>The same as \<open>csma_ok\<close> and \<open>armed\<close>, with a neighbour that has no packet yet.\<close>

definition csma_base :: "queues \<Rightarrow> 'r csma \<Rightarrow> bool" where
  "csma_base Q s \<longleftrightarrow> csma_mem Q s \<and> distinct (map (\<lambda>(n, qs). nb_addr s n) Q)
    \<and> (\<forall>(n, qs)\<in>set Q. if qs = [] then transmissions s n = 0 \<and> collisions s n = CSMA_MIN_BE else counts_ok s n (hd qs))
    \<and> (\<forall>q\<in>set (packets Q). queuebuf_seqno (rdc_buf s q) s \<noteq> 0)
    \<and> (\<forall>n. transmit_timer s n \<noteq> None \<longleftrightarrow> (\<exists>qs. qs \<noteq> [] \<and> (n, qs) \<in> set Q))"

lemma csma_base_iff: "csma_ok Q s \<and> armed Q s \<longleftrightarrow> csma_base Q s \<and> (\<forall>(n, qs)\<in>set Q. qs \<noteq> [])"
proof (cases "\<forall>(n, qs)\<in>set Q. qs \<noteq> []")
  case True
  then have "(\<exists>qs. qs \<noteq> [] \<and> (n, qs) \<in> set Q) \<longleftrightarrow> n \<in> fst ` set Q" for n by force
  moreover have "(\<forall>(n, qs)\<in>set Q. if qs = [] then transmissions s n = 0 \<and> collisions s n = CSMA_MIN_BE else counts_ok s n (hd qs))
      \<longleftrightarrow> (\<forall>(n, qs)\<in>set Q. qs \<noteq> [] \<and> counts_ok s n (hd qs))"
    using True by (intro ball_cong) auto
  ultimately show ?thesis using True unfolding csma_ok_def armed_def csma_base_def by (simp only:) blast
next
  case False
  then have "\<not> csma_ok Q s" unfolding csma_ok_def by blast
  with False show ?thesis by blast
qed

lemma seqno_of: "queuebuf_seqno (rdc_buf s q) s = pb_seqno (qb_data s (ram_of s q))"
  by (simp add: queuebuf_seqno_def ram_of_def)

text \<open>The queues have all packets they had, in the same order, as they were.\<close>

definition advances :: "queues \<Rightarrow> 'r csma \<Rightarrow> queues \<Rightarrow> 'r csma \<Rightarrow> bool" where
  "advances Q s Q' s' \<longleftrightarrow> (\<forall>(k, ks)\<in>set Q. (\<exists>zs. (k, ks @ zs) \<in> set Q')
    \<and> (\<forall>x\<in>set ks. attempts_left s' k x = attempts_left s k x \<and> tries s' x = tries s x \<and> packet_of s' x = packet_of s x))"

lemma advances_trans:
  assumes "advances Q s Q' s'" "advances Q' s' Q'' s''"
  shows "advances Q s Q'' s''"
  unfolding advances_def
proof (safe)
  fix k ks assume "(k, ks) \<in> set Q"
  with assms(1) obtain zs where zs: "(k, ks @ zs) \<in> set Q'"
    and x: "\<forall>x\<in>set ks. attempts_left s' k x = attempts_left s k x \<and> tries s' x = tries s x \<and> packet_of s' x = packet_of s x"
    unfolding advances_def by blast
  from assms(2) zs obtain ys where ys: "(k, (ks @ zs) @ ys) \<in> set Q''"
    and y: "\<forall>x\<in>set (ks @ zs). attempts_left s'' k x = attempts_left s' k x \<and> tries s'' x = tries s' x \<and> packet_of s'' x = packet_of s' x"
    unfolding advances_def by blast
  from ys show "\<exists>zs. (k, ks @ zs) \<in> set Q''" by auto
  from x y show "attempts_left s'' k x = attempts_left s k x" "tries s'' x = tries s x" "packet_of s'' x = packet_of s x" if "x \<in> set ks" for x
    using that by auto
qed

lemma advances_same:
  assumes "\<And>k ks x. (k, ks) \<in> set Q \<Longrightarrow> x \<in> set ks \<Longrightarrow> attempts_left s' k x = attempts_left s k x \<and> tries s' x = tries s x \<and> packet_of s' x = packet_of s x"
    and "set Q \<subseteq> set Q'"
  shows "advances Q s Q' s'"
  using assms unfolding advances_def by (force intro: exI [of _ "[]"])

lemma packet_added:
  assumes base: "csma_base (A @ (n, qs) # B) s" and free: "length (packets (A @ (n, qs) # B)) < QUEUEBUF_NUM"
    and seq: "pb_seqno (packetbuf s) \<noteq> 0"
  shows "\<exists>q s1 s'. alloc_packet s = Some (q, s1) \<and> q \<noteq> 0 \<and> enqueue_packet R sent p n q s1 = Some s'
    \<and> csma_base (A @ (n, qs @ [q]) # B) s' \<and> sent_calls s' = sent_calls s
    \<and> view (A @ (n, qs @ [q]) # B) s' = view A s @ (nb_addr s n, map (packet_of s) qs @ [(sent, p, pb_hdr (packetbuf s) @ pb_data (packetbuf s))]) # view B s
    \<and> advances (A @ (n, qs) # B) s (A @ (n, qs @ [q]) # B) s'"
proof -
  let ?Q = "A @ (n, qs) # B"
  note b = base [unfolded csma_base_def]
  have mem: "csma_lists ?Q s" "csma_pools (set (packets ?Q)) s" using b by (simp_all add: csma_mem_def)
  then have "card (set (packets ?Q)) < QUEUEBUF_NUM"
    using free distinct_card [of "packets ?Q"] by (simp add: csma_lists_def)
  from alloc_ok(2) [OF mem(2) this] obtain q s1 where a: "alloc_packet s = Some (q, s1)" "q \<noteq> 0" "q \<notin> set (packets ?Q)"
    "csma_pools (insert q (set (packets ?Q))) s1" "qb_data s1 (ram_of s1 q) = packetbuf_copy (packetbuf s)"
    "\<forall>x\<in>set (packets ?Q). rdc_ptr s1 x = rdc_ptr s x \<and> rdc_buf s1 x = rdc_buf s x \<and> ram_of s1 x = ram_of s x
      \<and> qb_data s1 (ram_of s x) = qb_data s (ram_of s x) \<and> rdc_ptr s x \<noteq> rdc_ptr s1 q"
    "s1 = s\<lparr>packet_memb := packet_memb s1, metadata_memb := metadata_memb s1, bufmem := bufmem s1, buframmem := buframmem s1,
          rdc_ptr := rdc_ptr s1, rdc_buf := rdc_buf s1, qb_ram := qb_ram s1, qb_data := qb_data s1\<rparr>"
    by (elim exE conjE) (rule that; assumption)
  have e1: "nb_addr s1 = nb_addr s" "transmissions s1 = transmissions s" "collisions s1 = collisions s" "sent_calls s1 = sent_calls s"
    "md_sent s1 = md_sent s" "md_cptr s1 = md_cptr s" "md_max_transmissions s1 = md_max_transmissions s" "transmit_timer s1 = transmit_timer s"
    "neighbor_list s1 = neighbor_list s" "rdc_next s1 = rdc_next s" "queued_packet_list s1 = queued_packet_list s" "neighbor_memb s1 = neighbor_memb s"
    by (subst a(7), simp)+
  have "csma_lists ?Q s1" using mem(1) by (simp add: csma_lists_def e1)
  from enqueue_ok [OF this a(2,3,4), of R sent p] obtain s' where s': "enqueue_packet R sent p n q s1 = Some s'"
    "csma_mem (A @ (n, qs @ [q]) # B) s'"
    "s' = s1\<lparr>queued_packet_list := queued_packet_list s', rdc_next := rdc_next s', rdc_radio := rdc_radio s', transmit_timer := transmit_timer s',
        md_max_transmissions := md_max_transmissions s', md_sent := (md_sent s1)(rdc_ptr s1 q := sent), md_cptr := (md_cptr s1)(rdc_ptr s1 q := p)\<rparr>"
    "\<forall>m. m \<noteq> rdc_ptr s1 q \<longrightarrow> md_max_transmissions s' m = md_max_transmissions s1 m"
    "\<forall>k. k \<noteq> n \<longrightarrow> transmit_timer s' k = transmit_timer s1 k"
    "if qs = [] then transmit_timer s' n \<noteq> None else transmit_timer s' n = transmit_timer s1 n"
    by (elim exE conjE) (rule that; assumption)
  have e2: "nb_addr s' = nb_addr s" "transmissions s' = transmissions s" "collisions s' = collisions s" "sent_calls s' = sent_calls s"
    "rdc_ptr s' = rdc_ptr s1" "rdc_buf s' = rdc_buf s1" "qb_ram s' = qb_ram s1" "qb_data s' = qb_data s1"
    "md_sent s' = (md_sent s)(rdc_ptr s1 q := sent)" "md_cptr s' = (md_cptr s)(rdc_ptr s1 q := p)"
    by (subst s'(3), simp add: e1)+
  have ram: "ram_of s' = ram_of s1" by (simp add: ram_of_def fun_eq_iff e2)
  have old: "packet_of s' x = packet_of s x" "queuebuf_seqno (rdc_buf s' x) s' = queuebuf_seqno (rdc_buf s x) s"
    "md_max_transmissions s' (rdc_ptr s' x) = md_max_transmissions s (rdc_ptr s x)" if "x \<in> set (packets ?Q)" for x
  proof -
    from a(6) that have x: "rdc_ptr s1 x = rdc_ptr s x" "ram_of s1 x = ram_of s x" "qb_data s1 (ram_of s x) = qb_data s (ram_of s x)"
      "rdc_ptr s x \<noteq> rdc_ptr s1 q" by blast+
    show "packet_of s' x = packet_of s x" unfolding packet_of_def ram e2 x using x(4) by simp
    show "queuebuf_seqno (rdc_buf s' x) s' = queuebuf_seqno (rdc_buf s x) s" unfolding seqno_of unfolding ram e2 x ..
    show "md_max_transmissions s' (rdc_ptr s' x) = md_max_transmissions s (rdc_ptr s x)"
      unfolding e2 x using s'(4) x(4) e1(7) by simp
  qed
  have new: "packet_of s' q = (sent, p, pb_hdr (packetbuf s) @ pb_data (packetbuf s))" "queuebuf_seqno (rdc_buf s' q) s' = pb_seqno (packetbuf s)"
    unfolding packet_of_def seqno_of unfolding ram e2 a(5) by (simp_all add: packetbuf_copy_def)
  have dn: "k \<noteq> n" if "(k, ks) \<in> set A \<union> set B" for k ks
    using b that neighbors_distinct by blast
  have parts: "set ks \<subseteq> set (packets ?Q)" if "(k, ks) \<in> set ?Q" for k ks using that by (rule in_packets)
  have counts: "if ks = [] then transmissions s' k = 0 \<and> collisions s' k = CSMA_MIN_BE else counts_ok s' k (hd ks)" if "(k, ks) \<in> set ?Q" for k ks
  proof -
    have "if ks = [] then transmissions s k = 0 \<and> collisions s k = CSMA_MIN_BE else counts_ok s k (hd ks)" using b that by blast
    moreover have "hd ks \<in> set (packets ?Q)" if "ks \<noteq> []" using parts [OF \<open>(k, ks) \<in> _\<close>] hd_in_set [OF that] by blast
    ultimately show ?thesis using old(3) by (auto simp: counts_ok_def e2)
  qed
  have "csma_base (A @ (n, qs @ [q]) # B) s'"
    unfolding csma_base_def
  proof (intro conjI)
    show "\<forall>(k, ks)\<in>set (A @ (n, qs @ [q]) # B). if ks = [] then transmissions s' k = 0 \<and> collisions s' k = CSMA_MIN_BE else counts_ok s' k (hd ks)"
    proof (intro ballI, safe)
      fix k ks
      assume "(k, ks) \<in> set (A @ (n, qs @ [q]) # B)"
      then consider "(k, ks) \<in> set ?Q" | "k = n" "ks = qs @ [q]" by auto
      then show "if ks = [] then transmissions s' k = 0 \<and> collisions s' k = CSMA_MIN_BE else counts_ok s' k (hd ks)"
      proof cases
        case 2
        then show ?thesis using counts [of n qs] by (cases qs) (auto simp: counts_ok_def CSMA_MIN_BE_def)
      qed (rule counts)
    qed
    show "\<forall>k. transmit_timer s' k \<noteq> None \<longleftrightarrow> (\<exists>ks. ks \<noteq> [] \<and> (k, ks) \<in> set (A @ (n, qs @ [q]) # B))"
    proof
      fix k
      have "transmit_timer s k \<noteq> None \<longleftrightarrow> (\<exists>ks. ks \<noteq> [] \<and> (k, ks) \<in> set ?Q)" using b by blast
      then show "transmit_timer s' k \<noteq> None \<longleftrightarrow> (\<exists>ks. ks \<noteq> [] \<and> (k, ks) \<in> set (A @ (n, qs @ [q]) # B))"
        using s'(5,6) dn by (cases "k = n") (auto simp: e1(8) split: if_splits)
    qed
    show "\<forall>x\<in>set (packets (A @ (n, qs @ [q]) # B)). queuebuf_seqno (rdc_buf s' x) s' \<noteq> 0"
      using b old(2) new(2) seq by auto
  qed (use s'(2) b e2(1) in simp_all)
  moreover have "view A s' = view A s" "view B s' = view B s" "map (packet_of s') qs = map (packet_of s) qs"
    using old(1) e2(1) by (auto intro: view_cong)
  then have "view (A @ (n, qs @ [q]) # B) s' = view A s @ (nb_addr s n, map (packet_of s) qs @ [(sent, p, pb_hdr (packetbuf s) @ pb_data (packetbuf s))]) # view B s"
    using new(1) e2(1) by simp
  moreover have "advances ?Q s (A @ (n, qs @ [q]) # B) s'"
    unfolding advances_def
  proof (intro ballI, safe)
    fix k ks assume k: "(k, ks) \<in> set ?Q"
    show "\<exists>zs. (k, ks @ zs) \<in> set (A @ (n, qs @ [q]) # B)"
    proof (cases "(k, ks) \<in> set A \<union> set B")
      case True
      then show ?thesis by (intro exI [of _ "[]"]) auto
    next
      case False
      then have "k = n" "ks = qs" using k by auto
      then show ?thesis by auto
    qed
    fix x assume "x \<in> set ks"
    then have "x \<in> set (packets ?Q)" using parts [OF k] by blast
    then show "attempts_left s' k x = attempts_left s k x" "tries s' x = tries s x" "packet_of s' x = packet_of s x"
      using old(1,3) unfolding attempts_left_def tries_def by (simp_all add: e2)
  qed
  ultimately show ?thesis using a(1,2) s'(1) e2(4) by blast
qed


text \<open>A packet for an address, in the view.\<close>

fun enqueued :: "linkaddr \<Rightarrow> 'p \<Rightarrow> (linkaddr \<times> 'p list) list \<Rightarrow> (linkaddr \<times> 'p list) list" where
  "enqueued a x [] = [(a, [x])]"
| "enqueued a x ((b, xs) # V) = (if b = a then (b, xs @ [x]) # V else (b, xs) # enqueued a x V)"

lemma enqueued_there: "a \<notin> fst ` set V \<Longrightarrow> enqueued a x (V @ (a, xs) # W) = V @ (a, xs @ [x]) # W"
  by (induction V) auto

lemma enqueued_new: "a \<notin> fst ` set V \<Longrightarrow> enqueued a x V = V @ [(a, [x])]"
  by (induction V) auto

lemma find_first:
  assumes "find P xs = Some x"
  shows "\<exists>as bs. xs = as @ x # bs \<and> P x \<and> (\<forall>a\<in>set as. \<not> P a)"
  using assms by (induction xs) (auto split: if_splits, metis append_Nil list.set_cases empty_iff empty_set, metis append_Cons set_ConsD)

lemma base_cong:
  assumes "csma_base Q s"
  shows "csma_base Q (s\<lparr>csma_initialized := i, seqno := y, rdc_radio := r, packetbuf := b\<rparr>)"
    and "csma_base Q (mac_call_sent_callback f c st k s)"
proof -
  let ?a = "s\<lparr>csma_initialized := i, seqno := y, rdc_radio := r, packetbuf := b\<rparr>" and ?b = "mac_call_sent_callback f c st k s"
  have eqs: "csma_mem Q ?a = csma_mem Q s" "counts_ok ?a = counts_ok s" "queuebuf_seqno q ?a = queuebuf_seqno q s"
    "csma_mem Q ?b = csma_mem Q s" "counts_ok ?b = counts_ok s" "queuebuf_seqno q ?b = queuebuf_seqno q s"
    "transmissions ?a = transmissions s" "collisions ?a = collisions s" "nb_addr ?a = nb_addr s" "transmit_timer ?a = transmit_timer s" "rdc_buf ?a = rdc_buf s"
    "transmissions ?b = transmissions s" "collisions ?b = collisions s" "nb_addr ?b = nb_addr s" "transmit_timer ?b = transmit_timer s" "rdc_buf ?b = rdc_buf s" for q
    by (simp_all add: fun_eq_iff csma_mem_defs counts_ok_def queuebuf_seqno_def ram_of_def [abs_def] mac_call_sent_callback_def)
  show "csma_base Q ?a" "csma_base Q ?b" using assms unfolding csma_base_def eqs by assumption+
qed


lemma base_stays:
  assumes "csma_base Q s"
  shows "view Q (mac_call_sent_callback f c st k s) = view Q s" "advances Q s Q (mac_call_sent_callback f c st k s)"
    "packetbuf (mac_call_sent_callback f c st k s) = packetbuf s"
  by (simp_all add: view_def packet_of_def [abs_def] ram_of_def mac_call_sent_callback_def advances_same attempts_left_def tries_def)

lemma queue_length:
  assumes "csma_base (A @ (n, qs) # B) s"
  shows "list_length (packet_list n s) = Some (int (length qs))"
  using assms by (intro list_length_ok) (simp add: csma_base_def csma_mem_defs lst_items_def packet_list_def)

lemma packets_card:
  assumes "csma_base Q s"
  shows "card (set (packets Q)) = length (packets Q)" "length (packets Q) \<le> QUEUEBUF_NUM" "card (fst ` set Q) = length Q"
    "csma_pools (set (packets Q)) s" "n \<in> fst ` set Q \<Longrightarrow> n \<noteq> 0"
proof -
  from assms show pools: "csma_pools (set (packets Q)) s" by (simp add: csma_base_def csma_mem_def)
  have lists: "csma_lists Q s" using assms by (simp add: csma_base_def csma_mem_def)
  then show card: "card (set (packets Q)) = length (packets Q)" by (simp add: csma_lists_def distinct_card)
  then show "length (packets Q) \<le> QUEUEBUF_NUM"
    using pools owned_card [of id "packet_memb s" "set (packets Q)"] by (simp add: csma_pools_def)
  have "distinct (map fst Q)" using lists items_distinct unfolding csma_lists_def lst_items_def by blast
  then show "card (fst ` set Q) = length Q" using distinct_card [of "map fst Q"] by simp
  show "n \<noteq> 0" if "n \<in> fst ` set Q"
    using that lists items_zero unfolding csma_lists_def lst_items_def by (metis list.set_map)
qed

text \<open>A neighbour with room: the packet is the last of its queue.\<close>

lemma queue_packet_ok:
  assumes base: "csma_base (A @ (n, qs) # B) s" and free: "length (packets (A @ (n, qs) # B)) < QUEUEBUF_NUM"
    and seq: "pb_seqno (packetbuf s) \<noteq> 0" and others: "\<forall>(k, ks)\<in>set (A @ B). ks \<noteq> []"
  shows "\<exists>q s'. queue_packet R sent p n s = Some s' \<and> csma_ok (A @ (n, qs @ [q]) # B) s' \<and> armed (A @ (n, qs @ [q]) # B) s'
    \<and> sent_calls s' = sent_calls s \<and> advances (A @ (n, qs) # B) s (A @ (n, qs @ [q]) # B) s'
    \<and> view (A @ (n, qs @ [q]) # B) s' = view A s @ (nb_addr s n, map (packet_of s) qs @ [(sent, p, pb_hdr (packetbuf s) @ pb_data (packetbuf s))]) # view B s"
proof -
  from packet_added [OF base free seq, of R sent p] obtain q s1 s' where a: "alloc_packet s = Some (q, s1)" "q \<noteq> 0"
    "enqueue_packet R sent p n q s1 = Some s'" "csma_base (A @ (n, qs @ [q]) # B) s'" "sent_calls s' = sent_calls s"
    "view (A @ (n, qs @ [q]) # B) s' = view A s @ (nb_addr s n, map (packet_of s) qs @ [(sent, p, pb_hdr (packetbuf s) @ pb_data (packetbuf s))]) # view B s"
    "advances (A @ (n, qs) # B) s (A @ (n, qs @ [q]) # B) s'"
    by (elim exE conjE) (rule that; assumption)
  have "length qs < CSMA_MAX_PACKET_PER_NEIGHBOR" using free by (simp add: CSMA_MAX_PACKET_PER_NEIGHBOR_def)
  then have "queue_packet R sent p n s = Some s'"
    using a(1-3) queue_length [OF base] by (simp add: queue_packet_def)
  moreover have "\<forall>(k, ks)\<in>set (A @ (n, qs @ [q]) # B). ks \<noteq> []" using others by auto
  then have "csma_ok (A @ (n, qs @ [q]) # B) s' \<and> armed (A @ (n, qs @ [q]) # B) s'"
    using a(4) csma_base_iff by blast
  ultimately show ?thesis using a(5-7) by blast
qed

text \<open>Without room the packet is reported, and a neighbour without packets is given back.\<close>

lemma queue_packet_full:
  assumes base: "csma_base (A @ (n, qs) # B) s" and full: "\<not> length (packets (A @ (n, qs) # B)) < QUEUEBUF_NUM"
    and others: "\<forall>(k, ks)\<in>set (A @ B). ks \<noteq> []"
  shows "\<exists>s'. queue_packet R sent p n s = Some s' \<and> csma_ok (without A n qs B) s' \<and> armed (without A n qs B) s'
    \<and> sent_calls s' = sent_calls s @ [(sent, p, MAC_TX_ERR, 1)] \<and> advances (without A n qs B) s (without A n qs B) s'
    \<and> view (without A n qs B) s' = view (without A n qs B) s"
proof -
  let ?Q = "without A n qs B"
  note c = packets_card [OF base]
  have none: "alloc_packet s = Some (0, s)" using alloc_ok(1) [OF c(4)] c(1,2) full by simp
  have "\<exists>s1. (if qs = [] then free_neighbor n s else Some s) = Some s1 \<and> csma_base ?Q s1 \<and> advances ?Q s ?Q s1
    \<and> sent_calls s1 = sent_calls s \<and> view ?Q s1 = view ?Q s"
  proof (cases "qs = []")
    case False
    then show ?thesis using base by (simp add: without_def advances_same)
  next
    case True
    then have Q: "?Q = A @ B" by (simp add: without_def)
    have "csma_mem (A @ (n, []) # B) s" using base True by (simp add: csma_base_def)
    from free_neighbor_ok [OF this] obtain s1 where s1: "free_neighbor n s = Some s1" "csma_mem (A @ B) s1"
      "s1 = s\<lparr>neighbor_list := neighbor_list s1, neighbor_memb := neighbor_memb s1\<rparr>" by auto
    have e: "nb_addr s1 = nb_addr s" "transmissions s1 = transmissions s" "collisions s1 = collisions s" "transmit_timer s1 = transmit_timer s"
      "packet_of s1 = packet_of s" "sent_calls s1 = sent_calls s" "queuebuf_seqno (rdc_buf s1 q) s1 = queuebuf_seqno (rdc_buf s q) s"
      "counts_ok s1 k q = counts_ok s k q" "attempts_left s1 = attempts_left s" "tries s1 = tries s" for q k
      by (subst s1(3), simp add: packet_of_def ram_of_def fun_eq_iff queuebuf_seqno_def counts_ok_def attempts_left_def tries_def)+
    have "csma_base (A @ B) s1" using base True s1(2) unfolding csma_base_def e by auto
    then show ?thesis using True s1(1) e(6) unfolding Q by (simp add: view_def e advances_same)
  qed
  then obtain s1 where s1: "(if qs = [] then free_neighbor n s else Some s) = Some s1" "csma_base ?Q s1" "advances ?Q s ?Q s1"
    "sent_calls s1 = sent_calls s" "view ?Q s1 = view ?Q s" by blast
  let ?s' = "mac_call_sent_callback sent p MAC_TX_ERR 1 s1"
  have "queue_packet R sent p n s = Some ?s'"
  proof (cases "length qs < CSMA_MAX_PACKET_PER_NEIGHBOR")
    case True
    then show ?thesis using queue_length [OF base] none s1(1) by (auto simp: queue_packet_def split: if_splits)
  next
    case False
    then have "qs \<noteq> []" by (auto simp: CSMA_MAX_PACKET_PER_NEIGHBOR_def QUEUEBUF_NUM_def)
    then show ?thesis using False queue_length [OF base] s1(1) by (simp add: queue_packet_def)
  qed
  moreover have "\<forall>(k, ks)\<in>set ?Q. ks \<noteq> []" using others by (auto simp: without_def)
  then have "csma_ok ?Q ?s' \<and> armed ?Q ?s'" using base_cong(2) [OF s1(2)] csma_base_iff by blast
  moreover note base_stays [OF s1(2)]
  ultimately show ?thesis using s1(4,5) advances_trans [OF s1(3)]
    by (intro exI [of _ ?s']) (simp add: mac_call_sent_callback_def)
qed

text \<open>The neighbour of an address: it is there, is new, or there is no memory for it.\<close>

lemma old_neighbor:
  assumes base: "csma_base Q s" and there: "addr \<in> fst ` set (view Q s)"
  shows "\<exists>A n qs B. Q = A @ (n, qs) # B \<and> find_or_add_neighbor addr s = Some (n, s) \<and> n \<noteq> 0 \<and> nb_addr s n = addr
    \<and> addr \<notin> fst ` set (view A s)"
proof -
  have lists: "lst_items (neighbor_list s) (map fst Q)" using base by (simp add: csma_base_def csma_mem_defs)
  from there have "find (\<lambda>n. nb_addr s n = addr) (map fst Q) \<noteq> None"
  proof -
    from there obtain k where "k \<in> set (map fst Q)" "nb_addr s k = addr" unfolding view_addrs by auto
    then show ?thesis unfolding find_None_iff by blast
  qed
  then obtain n where n: "find (\<lambda>n. nb_addr s n = addr) (map fst Q) = Some n" by blast
  from find_first [OF n] obtain ns ms where f: "map fst Q = ns @ n # ms" "nb_addr s n = addr" "\<forall>k\<in>set ns. nb_addr s k \<noteq> addr" by blast
  then obtain A z B where "Q = A @ z # B" "map fst A = ns" "fst z = n" by (auto simp: map_eq_append_conv map_eq_Cons_conv)
  then obtain qs where Q: "Q = A @ (n, qs) # B" and A: "fst ` set A = set ns" by (metis list.set_map prod.collapse)
  have "n \<noteq> 0" using packets_card(5) [OF base, of n] unfolding Q by simp
  moreover have "addr \<notin> fst ` set (view A s)" using f(3) unfolding view_addrs A by auto
  moreover have "find_or_add_neighbor addr s = Some (n, s)"
    using find_neighbor_ok [OF lists, of addr] n \<open>n \<noteq> 0\<close> by (simp add: find_or_add_neighbor_def)
  ultimately show ?thesis using Q f(2) by blast
qed

lemma new_neighbor:
  assumes base: "csma_base Q s" and absent: "addr \<notin> fst ` set (view Q s)"
  shows "length Q < CSMA_MAX_NEIGHBOR_QUEUES \<Longrightarrow> \<exists>n s'. find_or_add_neighbor addr s = Some (n, s') \<and> n \<noteq> 0 \<and> nb_addr s' n = addr
      \<and> csma_base (Q @ [(n, [])]) s' \<and> view Q s' = view Q s \<and> packetbuf s' = packetbuf s \<and> sent_calls s' = sent_calls s \<and> advances Q s Q s'"
    and "\<not> length Q < CSMA_MAX_NEIGHBOR_QUEUES \<Longrightarrow> find_or_add_neighbor addr s = Some (0, s)"
proof -
  have l: "lst_items (neighbor_list s) (map fst Q)" and pool: "pool (neighbor_memb s) CSMA_MAX_NEIGHBOR_QUEUES (fst ` set Q)"
    using base by (simp_all add: csma_base_def csma_mem_defs)
  have "find (\<lambda>n. nb_addr s n = addr) (map fst Q) = None" using absent unfolding view_addrs by (auto simp: find_None_iff)
  then have found: "neighbor_queue_from_addr s addr = Some 0" using find_neighbor_ok [OF l, of addr] by simp
  note cardQ = packets_card(3) [OF base]
  show "find_or_add_neighbor addr s = Some (0, s)" if "\<not> length Q < CSMA_MAX_NEIGHBOR_QUEUES"
    using pool_alloc(4) [OF pool] pool_alloc(1) [OF pool] cardQ found that by (simp add: find_or_add_neighbor_def)
  assume "length Q < CSMA_MAX_NEIGHBOR_QUEUES"
  then obtain n m where n: "memb_alloc (neighbor_memb s) = Some (n, m)" "n \<noteq> 0" "n \<notin> fst ` set Q"
    "pool m CSMA_MAX_NEIGHBOR_QUEUES (insert n (fst ` set Q))" using pool_alloc(5) [OF pool] cardQ by auto
  from list_add_ok [OF l n(2)] n(3) obtain ns where ns: "list_add (neighbor_list s) n = Some ns" "lst_items ns (map fst Q @ [n])"
    by (auto simp: remove1_idem)
  define s' where "s' = s\<lparr>neighbor_memb := m, nb_addr := (nb_addr s)(n := addr), transmissions := (transmissions s)(n := 0),
       collisions := (collisions s)(n := CSMA_MIN_BE), queued_packet_list := (queued_packet_list s)(n := 0), neighbor_list := ns\<rparr>"
  have run: "find_or_add_neighbor addr s = Some (n, s')"
    using found n(1,2) ns(1) by (simp add: find_or_add_neighbor_def s'_def)
  have other: "k \<noteq> n" if "(k, ks) \<in> set Q" for k ks using n(3) that by force
  have at_k: "counts_ok s' k q = counts_ok s k q" "transmissions s' k = transmissions s k" "collisions s' k = collisions s k"
    "nb_addr s' k = nb_addr s k" "queued_packet_list s' k = queued_packet_list s k" "attempts_left s' k q = attempts_left s k q" if "k \<noteq> n" for k q
    using that by (simp_all add: counts_ok_def attempts_left_def s'_def)
  have same: "packet_of s' = packet_of s" "nb_addr s' n = addr" "packetbuf s' = packetbuf s" "sent_calls s' = sent_calls s"
    "rdc_next s' = rdc_next s" "queuebuf_seqno (rdc_buf s' q) s' = queuebuf_seqno (rdc_buf s q) s" "transmit_timer s' = transmit_timer s" "tries s' = tries s" for q
    by (simp_all add: s'_def packet_of_def ram_of_def fun_eq_iff queuebuf_seqno_def tries_def)
  have addrs: "map (\<lambda>(k, ks). nb_addr s' k) Q = map (\<lambda>(k, ks). nb_addr s k) Q" using other at_k(4) by auto
  have mem: "csma_lists Q s" "csma_pools (set (packets Q)) s" using base by (simp_all add: csma_base_def csma_mem_def)
  have "\<forall>(k, ks)\<in>set (Q @ [(n, [])]). items (rdc_next s') (queued_packet_list s' k) ks"
    using mem(1) other at_k(5) by (fastforce simp: csma_lists_def s'_def)
  then have "csma_lists (Q @ [(n, [])]) s'"
    using mem(1) ns(2) n(4) by (simp add: csma_lists_def s'_def)
  moreover have "csma_pools (set (packets (Q @ [(n, [])]))) s'"
    using mem(2) by (simp add: csma_pools_def s'_def ram_of_def [abs_def])
  moreover have "addr \<notin> set (map (\<lambda>(k, ks). nb_addr s k) Q)" using absent unfolding view_addrs by (simp add: image_image split_beta)
  then have "distinct (map (\<lambda>(n, qs). nb_addr s' n) (Q @ [(n, [])]))"
    using base unfolding map_append addrs by (simp add: csma_base_def same)
  moreover have "\<forall>(k, ks)\<in>set (Q @ [(n, [])]). if ks = [] then transmissions s' k = 0 \<and> collisions s' k = CSMA_MIN_BE else counts_ok s' k (hd ks)"
  proof (intro ballI, safe)
    fix k ks assume k: "(k, ks) \<in> set (Q @ [(n, [])])"
    consider "(k, ks) \<in> set Q" "k \<noteq> n" | "k = n" "ks = []" using k other by auto
    then show "if ks = [] then transmissions s' k = 0 \<and> collisions s' k = CSMA_MIN_BE else counts_ok s' k (hd ks)"
    proof cases
      case 1
      then show ?thesis using base at_k unfolding csma_base_def by auto
    qed (simp add: s'_def)
  qed
  moreover have "\<forall>q\<in>set (packets (Q @ [(n, [])])). queuebuf_seqno (rdc_buf s' q) s' \<noteq> 0"
    using base by (simp add: csma_base_def same)
  moreover have "\<forall>k. transmit_timer s' k \<noteq> None \<longleftrightarrow> (\<exists>qs. qs \<noteq> [] \<and> (k, qs) \<in> set (Q @ [(n, [])]))"
    using base by (auto simp: csma_base_def same)
  ultimately have "csma_base (Q @ [(n, [])]) s'"
    unfolding csma_base_def csma_mem_def by (intro conjI)
  moreover have "view Q s' = view Q s" using addrs by (auto simp: view_def same)
  moreover have "advances Q s Q s'" using other at_k(6) by (auto intro: advances_same simp: same)
  ultimately show "\<exists>n s'. find_or_add_neighbor addr s = Some (n, s') \<and> n \<noteq> 0 \<and> nb_addr s' n = addr
      \<and> csma_base (Q @ [(n, [])]) s' \<and> view Q s' = view Q s \<and> packetbuf s' = packetbuf s \<and> sent_calls s' = sent_calls s \<and> advances Q s Q s'"
    using run n(2) same by blast
qed


definition accepts :: "queues \<Rightarrow> linkaddr \<Rightarrow> 'r csma \<Rightarrow> bool" where
  "accepts Q addr s \<longleftrightarrow> length (packets Q) < QUEUEBUF_NUM
    \<and> (addr \<in> fst ` set (view Q s) \<or> length Q < CSMA_MAX_NEIGHBOR_QUEUES)"

text \<open>\<open>send_packet\<close> queues the packet at the end of the queue of its receiver, or, without memory, reports it.\<close>

definition queued_or_reported :: "queues \<Rightarrow> 'r csma \<Rightarrow> ptr \<Rightarrow> ptr \<Rightarrow> queues \<Rightarrow> 'r csma \<Rightarrow> bool" where
  "queued_or_reported Q s sent p Q' s' \<longleftrightarrow>
    (if accepts Q (pb_receiver (packetbuf s)) s
     then view Q' s' = enqueued (pb_receiver (packetbuf s)) (sent, p, pb_hdr (packetbuf s) @ pb_data (packetbuf s)) (view Q s)
       \<and> sent_calls s' = sent_calls s
     else view Q' s' = view Q s \<and> sent_calls s' = sent_calls s @ [(sent, p, MAC_TX_ERR, 1)])"


lemma send_packet_ok:
  assumes ok: "csma_ok Q s" "armed Q s"
  shows "\<exists>Q' s'. send_packet R sent p s = Some s' \<and> csma_ok Q' s' \<and> armed Q' s' \<and> queued_or_reported Q s sent p Q' s' \<and> advances Q s Q' s'"
proof -
  let ?addr = "pb_receiver (packetbuf s)" and ?x = "(sent, p, pb_hdr (packetbuf s) @ pb_data (packetbuf s))"
  obtain r n0 y where s1: "next_seqno R s = s\<lparr>csma_initialized := True, seqno := y, rdc_radio := r, packetbuf := (packetbuf s)\<lparr>pb_seqno := n0\<rparr>\<rparr>" "n0 \<noteq> 0"
    using next_seqno_ok [of R s] by blast
  define s1 where "s1 = next_seqno R s"
  have e1: "packet_of s1 = packet_of s" "nb_addr s1 = nb_addr s" "sent_calls s1 = sent_calls s" "pb_receiver (packetbuf s1) = ?addr"
    "pb_hdr (packetbuf s1) = pb_hdr (packetbuf s)" "pb_data (packetbuf s1) = pb_data (packetbuf s)" "pb_seqno (packetbuf s1) \<noteq> 0"
    "attempts_left s1 = attempts_left s" "tries s1 = tries s"
    using s1(2) by (simp_all add: s1_def s1(1) packet_of_def ram_of_def attempts_left_def tries_def fun_eq_iff)
  have v1: "view Z s1 = view Z s" for Z by (simp add: view_def e1)
  have base: "csma_base Q s" and nonempty: "\<forall>(n, qs)\<in>set Q. qs \<noteq> []" using ok csma_base_iff by blast+
  have base1: "csma_base Q s1" unfolding s1_def s1(1) by (rule base_cong(1) [OF base])
  have g1: "advances Q s Q s1" by (rule advances_same) (simp_all add: e1)
  have run: "send_packet R sent p s = do {
     (n, s) \<leftarrow> find_or_add_neighbor ?addr s1;
     if n = 0 then Some (mac_call_sent_callback sent p MAC_TX_ERR 1 s) else queue_packet R sent p n s }"
    unfolding send_packet_def Let_def s1_def [symmetric] e1 ..
  show ?thesis
  proof (cases "?addr \<in> fst ` set (view Q s1)")
    case True
    from old_neighbor [OF base1 True] obtain A n qs B where Q: "Q = A @ (n, qs) # B" and f: "find_or_add_neighbor ?addr s1 = Some (n, s1)"
      and n: "n \<noteq> 0" "nb_addr s1 n = ?addr" "?addr \<notin> fst ` set (view A s1)" by blast
    have others: "\<forall>(k, ks)\<in>set (A @ B). ks \<noteq> []" and qs: "qs \<noteq> []" using nonempty unfolding Q by auto
    have acc: "accepts Q ?addr s \<longleftrightarrow> length (packets Q) < QUEUEBUF_NUM" using True by (simp add: accepts_def v1)
    show ?thesis
    proof (cases "length (packets Q) < QUEUEBUF_NUM")
      case room: True
      from queue_packet_ok [OF base1 [unfolded Q] room [unfolded Q] e1(7) others, of R sent p, folded Q] obtain q s' where s':
        "queue_packet R sent p n s1 = Some s'" "csma_ok (A @ (n, qs @ [q]) # B) s'" "armed (A @ (n, qs @ [q]) # B) s'"
        "sent_calls s' = sent_calls s" "advances Q s1 (A @ (n, qs @ [q]) # B) s'"
        "view (A @ (n, qs @ [q]) # B) s' = view A s @ (?addr, map (packet_of s) qs @ [?x]) # view B s"
        unfolding e1 n(2) [unfolded e1] v1 by blast
      have "view (A @ (n, qs @ [q]) # B) s' = enqueued ?addr ?x (view Q s)"
        using n(2,3) unfolding s'(6) v1 e1 by (simp add: Q enqueued_there)
      then show ?thesis using s'(1-4) advances_trans [OF g1 s'(5)] f n(1) acc room unfolding run queued_or_reported_def by auto
    next
      case full: False
      have w: "without A n qs B = Q" using qs by (simp add: without_def Q)
      from queue_packet_full [OF base1 [unfolded Q] full [unfolded Q] others, of R sent p, unfolded w] obtain s' where s':
        "queue_packet R sent p n s1 = Some s'" "csma_ok Q s'" "armed Q s'"
        "sent_calls s' = sent_calls s @ [(sent, p, MAC_TX_ERR, 1)]" "advances Q s1 Q s'" "view Q s' = view Q s"
        unfolding e1 v1 by blast
      then show ?thesis using advances_trans [OF g1 s'(5)] f n(1) acc full unfolding run queued_or_reported_def by auto
    qed
  next
    case absent: False
    then have acc: "accepts Q ?addr s \<longleftrightarrow> length (packets Q) < QUEUEBUF_NUM \<and> length Q < CSMA_MAX_NEIGHBOR_QUEUES"
      by (simp add: accepts_def v1)
    show ?thesis
    proof (cases "length Q < CSMA_MAX_NEIGHBOR_QUEUES")
      case False
      let ?s' = "mac_call_sent_callback sent p MAC_TX_ERR 1 s1"
      have "send_packet R sent p s = Some ?s'" using new_neighbor(2) [OF base1 absent False] unfolding run by simp
      moreover have "csma_ok Q ?s' \<and> armed Q ?s'" using base_cong(2) [OF base1] nonempty csma_base_iff by blast
      ultimately show ?thesis using acc False base_stays [OF base1] advances_trans [OF g1] e1(3)
        unfolding queued_or_reported_def by (intro exI [of _ Q] exI [of _ ?s']) (simp add: v1 mac_call_sent_callback_def)
    next
      case True
      from new_neighbor(1) [OF base1 absent True] obtain n s2 where s2: "find_or_add_neighbor ?addr s1 = Some (n, s2)" "n \<noteq> 0"
        "nb_addr s2 n = ?addr" "csma_base (Q @ [(n, [])]) s2" "view Q s2 = view Q s" "packetbuf s2 = packetbuf s1" "sent_calls s2 = sent_calls s"
        "advances Q s1 Q s2" unfolding v1 e1 by (elim exE conjE) (rule that; assumption)
      have others: "\<forall>(k, ks)\<in>set (Q @ []). ks \<noteq> []" using nonempty by simp
      have g2: "advances Q s (Q @ [(n, [])]) s2" using advances_trans [OF g1 s2(8)] unfolding advances_def by fastforce
      have p2: "packets (Q @ [(n, [])]) = packets Q" by simp
      show ?thesis
      proof (cases "length (packets Q) < QUEUEBUF_NUM")
        case room: True
        from queue_packet_ok [OF s2(4) _ _ others, of R sent p, unfolded p2] room e1(7) obtain q s' where s':
          "queue_packet R sent p n s2 = Some s'" "csma_ok (Q @ [(n, [q])]) s'" "armed (Q @ [(n, [q])]) s'" "sent_calls s' = sent_calls s"
          "advances (Q @ [(n, [])]) s2 (Q @ [(n, [q])]) s'" "view (Q @ [(n, [q])]) s' = view Q s @ [(?addr, [?x])]"
          unfolding s2 by (auto simp: e1)
        have "view (Q @ [(n, [q])]) s' = enqueued ?addr ?x (view Q s)"
          using absent unfolding s'(6) v1 by (simp add: enqueued_new)
        then show ?thesis using s'(1-4) advances_trans [OF g2 s'(5)] s2(1,2) acc room True unfolding run queued_or_reported_def by auto
      next
        case full: False
        have w: "without Q n [] [] = Q" by (simp add: without_def)
        from queue_packet_full [OF s2(4) _ others, of R sent p, unfolded p2 w] full obtain s' where s':
          "queue_packet R sent p n s2 = Some s'" "csma_ok Q s'" "armed Q s'"
          "sent_calls s' = sent_calls s @ [(sent, p, MAC_TX_ERR, 1)]" "advances Q s2 Q s'" "view Q s' = view Q s"
          unfolding s2 by blast
        have "advances Q s Q s2" using advances_trans [OF g1 s2(8)] .
        then show ?thesis using s' advances_trans [OF _ s'(5)] s2(1,2) acc full unfolding run queued_or_reported_def by auto
      qed
    qed
  qed
qed

end
