(* ===== verification/Mac_Layer.thy ===== *)
theory Mac_Layer
  imports Csma_Laws "HOL-Library.Multiset"
begin

text \<open>
  The MAC layer as a whole: its runs over events, an abstract specification of queues for receivers that the
  code of \<open>Csma\<close> refines, the conservation of packets in it, and the progress of each queue.
\<close>

section \<open>Events\<close>

text \<open>
  What happens to the layer: the network layer sends the packet that it has put into \<open>packetbuf\<close>, or the
  callback timer of a neighbour calls \<open>transmit_packet_list\<close>; a timer that is not set calls nothing.
\<close>

datatype mac_event = Send ptr ptr packetbuf | Timer ptr

fun mac_step :: "'r rdc_ops \<Rightarrow> mac_event \<Rightarrow> 'r csma \<Rightarrow> 'r csma option" where
  "mac_step R (Send sent p b) s = send_packet R sent p (s\<lparr>packetbuf := b\<rparr>)"
| "mac_step R (Timer n) s =
    (if transmit_timer s n = None then Some s
     else transmit_packet_list R n (s\<lparr>transmit_timer := (transmit_timer s)(n := None)\<rparr>))"

fun mac_run :: "'r rdc_ops \<Rightarrow> mac_event list \<Rightarrow> 'r csma \<Rightarrow> 'r csma option" where
  "mac_run R [] s = Some s"
| "mac_run R (e # es) s = do { s \<leftarrow> mac_step R e s; mac_run R es s }"

lemma mac_run_append: "mac_run R (es @ fs) s = do { s \<leftarrow> mac_run R es s; mac_run R fs s }"
proof (induction es arbitrary: s)
  case (Cons e es)
  then show ?case by (cases "mac_step R e s") simp_all
qed simp

section \<open>What the layer promises\<close>

text \<open>
  Seen from outside, each receiver has a queue of packets. A packet goes to the end of the queue of its receiver, or
  is reported at once when there is no room. A timer takes packets from the front of a queue, and reports each of
  them; all but the last of these were acknowledged.
\<close>

type_synonym mac_queues = "(linkaddr \<times> (ptr \<times> ptr \<times> bytes) list) list"

definition mac_room :: "linkaddr \<Rightarrow> mac_queues \<Rightarrow> bool" where
  "mac_room a V \<longleftrightarrow> length (concat (map snd V)) < QUEUEBUF_NUM \<and> (a \<in> fst ` set V \<or> length V < CSMA_MAX_NEIGHBOR_QUEUES)"

definition shortened :: "mac_queues \<Rightarrow> linkaddr \<Rightarrow> (ptr \<times> ptr \<times> bytes) list \<Rightarrow> mac_queues \<Rightarrow> mac_queues" where
  "shortened V a xs W = V @ (if xs = [] then W else (a, xs) # W)"

definition call_of :: "ptr \<times> ptr \<times> bytes \<Rightarrow> ptr \<times> ptr" where
  "call_of x = (fst x, fst (snd x))"

inductive mac_spec :: "mac_queues \<Rightarrow> mac_event \<Rightarrow> (ptr \<times> ptr \<times> mac_status \<times> nat) list \<Rightarrow> mac_queues \<Rightarrow> bool" where
  queued: "mac_room (pb_receiver b) V \<Longrightarrow>
    mac_spec V (Send sent p b) [] (enqueued (pb_receiver b) (sent, p, pb_hdr b @ pb_data b) V)"
| refused: "\<not> mac_room (pb_receiver b) V \<Longrightarrow> mac_spec V (Send sent p b) [(sent, p, MAC_TX_ERR, 1)] V"
| no_timer: "mac_spec V (Timer n) [] V"
| taken: "map called calls = map call_of (take k xs) \<Longrightarrow> \<forall>c\<in>set (butlast calls). fst (snd (snd c)) = MAC_TX_OK \<Longrightarrow> xs \<noteq> [] \<Longrightarrow>
    mac_spec (V @ (a, xs) # W) (Timer n) calls (shortened V a (drop k xs) W)"

inductive mac_specs :: "mac_queues \<Rightarrow> mac_event list \<Rightarrow> (ptr \<times> ptr \<times> mac_status \<times> nat) list \<Rightarrow> mac_queues \<Rightarrow> bool" where
  no_events: "mac_specs V [] [] V"
| event: "mac_spec V e calls V' \<Longrightarrow> mac_specs V' es calls' V'' \<Longrightarrow> mac_specs V (e # es) (calls @ calls') V''"

inductive_cases mac_specs_cases: "mac_specs V (e # es) calls V'"
inductive_simps mac_specs_nil [simp]: "mac_specs V [] calls V'"

text \<open>The callbacks of the packets in the queues and in a sequence of events.\<close>

definition waiting :: "mac_queues \<Rightarrow> (ptr \<times> ptr) multiset" where
  "waiting V = mset (map call_of (concat (map snd V)))"

lemma waiting_simps [simp]: "waiting [] = {#}" "waiting ((a, xs) # V) = mset (map call_of xs) + waiting V"
  "waiting (V @ W) = waiting V + waiting W"
  by (simp_all add: waiting_def)

fun sends :: "mac_event list \<Rightarrow> (ptr \<times> ptr) list" where
  "sends [] = []"
| "sends (Send sent p b # es) = (sent, p) # sends es"
| "sends (Timer n # es) = sends es"

lemma sends_append [simp]: "sends (es @ fs) = sends es @ sends fs"
  by (induction es rule: sends.induct) simp_all

lemma waiting_enqueued: "waiting (enqueued a x V) = add_mset (call_of x) (waiting V)"
  by (induction a x V rule: enqueued.induct) auto

text \<open>No packet is lost and none is reported twice.\<close>

lemma spec_conserves:
  "mac_spec V e calls V' \<Longrightarrow> mset (map called calls) + waiting V' = waiting V + mset (sends [e])"
proof (induction rule: mac_spec.induct)
  case (taken calls k xs V a W n)
  have "mset (map called calls) + mset (map call_of (drop k xs)) = mset (map call_of (take k xs @ drop k xs))"
    unfolding taken(1) by (simp only: map_append mset_append)
  moreover have "waiting (shortened V a (drop k xs) W) = waiting V + mset (map call_of (drop k xs)) + waiting W"
    by (simp add: shortened_def)
  ultimately show ?case by (simp add: ac_simps)
qed (simp_all add: waiting_enqueued call_of_def)

lemma specs_conserve:
  "mac_specs V es calls V' \<Longrightarrow> mset (map called calls) + waiting V' = waiting V + mset (sends es)"
proof (induction rule: mac_specs.induct)
  case (event V e calls V' es calls' V'')
  from spec_conserves [OF event(1)] event(3) have "mset (map called (calls @ calls')) + waiting V'' = waiting V + (mset (sends [e]) + mset (sends es))"
    by (simp add: ac_simps) (metis (no_types, lifting) add.assoc add.commute)
  moreover have "mset (sends (e # es)) = mset (sends [e]) + mset (sends es)" by (cases e) simp_all
  ultimately show ?case by simp
qed simp

section \<open>The code refines it\<close>

lemma callback_call: "callback s = call_of \<circ> packet_of s"
  by (simp add: fun_eq_iff call_of_def callback_packet)

lemma view_packets: "map call_of (concat (map snd (view Q s))) = map (callback s) (packets Q)"
  by (induction Q) (auto simp: view_def packets_def call_of_def callback_packet)

lemma room_accepts: "accepts Q a s \<longleftrightarrow> mac_room a (view Q s)"
proof -
  have "length (concat (map snd (view Q s))) = length (packets Q)" "length (view Q s) = length Q"
    by (induction Q) (auto simp: view_def packets_def)
  then show ?thesis by (simp add: accepts_def mac_room_def)
qed

lemma view_without: "view (without A n qs B) s = shortened (view A s) (nb_addr s n) (map (packet_of s) qs) (view B s)"
  by (simp add: without_def shortened_def)

lemma send_refines:
  assumes "csma_ok Q s" "armed Q s"
  shows "\<exists>s' Q' calls. mac_step R (Send sent p b) s = Some s' \<and> csma_ok Q' s' \<and> armed Q' s' \<and> sent_calls s' = sent_calls s @ calls
    \<and> mac_spec (view Q s) (Send sent p b) calls (view Q' s') \<and> advances Q s Q' s'"
proof -
  let ?s = "s\<lparr>packetbuf := b\<rparr>"
  have e: "csma_ok Q ?s = csma_ok Q s" "armed Q ?s = armed Q s" "view Q ?s = view Q s" "accepts Q a ?s = accepts Q a s"
    "advances Q ?s Q' s' = advances Q s Q' s'" for a Q' s'
    by (simp_all add: csma_ok_def csma_mem_defs counts_ok_def queuebuf_seqno_def ram_of_def [abs_def] armed_def view_def packet_of_def [abs_def]
      accepts_def advances_def attempts_left_def tries_def)
  from assms send_packet_ok [of Q ?s R sent p, unfolded e] obtain Q' s' where s': "send_packet R sent p ?s = Some s'" "csma_ok Q' s'" "armed Q' s'"
    "queued_or_reported Q ?s sent p Q' s'" "advances Q s Q' s'" by blast
  show ?thesis
  proof (cases "accepts Q (pb_receiver b) s")
    case True
    then show ?thesis using s' mac_spec.queued [of b "view Q s" sent p] unfolding queued_or_reported_def e
      by (intro exI [of _ s'] exI [of _ Q'] exI [of _ "[]"]) (simp add: room_accepts)
  next
    case False
    then show ?thesis using s' mac_spec.refused [of b "view Q s" sent p] unfolding queued_or_reported_def e
      by (intro exI [of _ s'] exI [of _ Q'] exI [of _ "[(sent, p, MAC_TX_ERR, 1)]"]) (simp add: room_accepts)
  qed
qed

lemma armed_without:
  assumes "armed (A @ (n, qs) # B) s" "others n s s'" "transmit_timer s' n = None \<longleftrightarrow> qs' = []" "n \<notin> fst ` set A \<union> fst ` set B"
  shows "armed (without A n qs' B) s'"
  unfolding armed_def
proof
  fix k
  show "transmit_timer s' k \<noteq> None \<longleftrightarrow> k \<in> fst ` set (without A n qs' B)"
  proof (cases "k = n")
    case True
    then show ?thesis using assms(3,4) by (auto simp: without_def)
  next
    case False
    then show ?thesis using assms(1,2) by (auto simp: armed_def others_def without_def)
  qed
qed

context rdc_driver
begin

lemma timer_refines:
  assumes ok: "csma_ok (A @ (n, p # qs) # B) s" and armed: "armed (A @ (n, p # qs) # B) s"
  shows "\<exists>s' k calls. mac_step R (Timer n) s = Some s' \<and> csma_ok (without A n (drop k (p # qs)) B) s' \<and> armed (without A n (drop k (p # qs)) B) s'
    \<and> others_kept s s' n \<and> sent_calls s' = sent_calls s @ calls \<and> map called calls = map (callback s) (take k (p # qs))
    \<and> (\<forall>c\<in>set (butlast calls). fst (snd (snd c)) = MAC_TX_OK) \<and> (k = 0 \<longrightarrow> attempts_left s' n p < attempts_left s n p)"
proof -
  let ?Q = "A @ (n, p # qs) # B" and ?s = "s\<lparr>transmit_timer := (transmit_timer s)(n := None)\<rparr>"
  note q = csma_ok_queue [OF ok]
  have set: "transmit_timer s n \<noteq> None" using armed by (simp add: armed_def)
  have ok1: "csma_ok ?Q ?s" using ok by (simp add: csma_ok_def csma_mem_defs counts_ok_def queuebuf_seqno_def ram_of_def [abs_def])
  have head: "list_head (packet_list n ?s) = p" using q(6) by (simp add: packet_list_def)
  from send_list_ok [OF ok1] obtain s' k calls where s': "send_list R (packet_sent R n) p ?s = Some s'" "others_kept ?s s' n"
    "csma_ok (without A n (drop k (p # qs)) B) s'" "transmit_timer s' n = None \<longleftrightarrow> drop k (p # qs) = []"
    "sent_calls s' = sent_calls ?s @ calls" "map called calls = map (callback ?s) (take k (p # qs))"
    "\<forall>c\<in>set (butlast calls). fst (snd (snd c)) = MAC_TX_OK" "k = 0 \<longrightarrow> attempts_left s' n p < attempts_left ?s n p"
    by (elim exE conjE) (rule that; assumption)
  have e: "others_kept ?s s' n = others_kept s s' n" "callback ?s = callback s" "attempts_left ?s = attempts_left s" "sent_calls ?s = sent_calls s"
    by (auto simp: others_kept_def others_def kept_def callback_def fun_eq_iff attempts_left_def)
  have "mac_step R (Timer n) s = Some s'" using set head q(2,3) s'(1) by (auto simp: transmit_packet_list_def)
  moreover have "n \<notin> fst ` set A \<union> fst ` set B" using neighbors_distinct [OF q(1)] by force
  then have "armed (without A n (drop k (p # qs)) B) s'"
    using armed_without [OF armed] s'(2,4) unfolding e by (simp add: others_kept_def)
  ultimately show ?thesis using s'(2,3,5-8) unfolding e by blast
qed

theorem step_refines:
  assumes "csma_ok Q s" "armed Q s"
  shows "\<exists>s' Q' calls. mac_step R e s = Some s' \<and> csma_ok Q' s' \<and> armed Q' s' \<and> sent_calls s' = sent_calls s @ calls
    \<and> mac_spec (view Q s) e calls (view Q' s')"
proof (cases e)
  case (Send sent p b)
  then show ?thesis using send_refines [OF assms, of R sent p b] by blast
next
  case (Timer n)
  show ?thesis
  proof (cases "n \<in> fst ` set Q")
    case False
    then show ?thesis using assms Timer by (intro exI [of _ s] exI [of _ Q] exI [of _ "[]"]) (auto simp: armed_def no_timer)
  next
    case True
    then obtain ks where "(n, ks) \<in> set Q" by auto
    moreover from this obtain p qs where "ks = p # qs" using csma_ok_member [OF assms(1)] by (metis list.exhaust)
    ultimately obtain A B where Q: "Q = A @ (n, p # qs) # B" by (metis split_list)
    from timer_refines [OF assms [unfolded Q]] obtain s' k calls where s': "mac_step R (Timer n) s = Some s'"
      "csma_ok (without A n (drop k (p # qs)) B) s'" "armed (without A n (drop k (p # qs)) B) s'"
      "others_kept s s' n" "sent_calls s' = sent_calls s @ calls" "map called calls = map (callback s) (take k (p # qs))"
      "\<forall>c\<in>set (butlast calls). fst (snd (snd c)) = MAC_TX_OK" by blast
    have kept: "kept s s'" using s'(4) by (simp add: others_kept_def)
    have calls: "map called calls = map call_of (take k (map (packet_of s) (p # qs)))"
      unfolding s'(6) callback_call take_map map_map ..
    have "view (without A n (drop k (p # qs)) B) s' = shortened (view A s) (nb_addr s n) (drop k (map (packet_of s) (p # qs))) (view B s)"
      unfolding view_without kept_view [OF kept] drop_map using kept by (simp add: kept_def)
    moreover have "view Q s = view A s @ (nb_addr s n, map (packet_of s) (p # qs)) # view B s" by (simp add: Q)
    ultimately have "mac_spec (view Q s) (Timer n) calls (view (without A n (drop k (p # qs)) B) s')"
      using mac_spec.taken [OF calls s'(7)] by simp
    with Timer s' show ?thesis by blast
  qed
qed

theorem run_refines:
  assumes "csma_ok Q s" "armed Q s"
  shows "\<exists>s' Q' calls. mac_run R es s = Some s' \<and> csma_ok Q' s' \<and> armed Q' s' \<and> sent_calls s' = sent_calls s @ calls
    \<and> mac_specs (view Q s) es calls (view Q' s')"
  using assms
proof (induction es arbitrary: Q s)
  case Nil
  then show ?case by auto
next
  case (Cons e es)
  from step_refines [OF Cons.prems, of e] obtain s1 Q1 c1 where 1: "mac_step R e s = Some s1" "csma_ok Q1 s1" "armed Q1 s1"
    "sent_calls s1 = sent_calls s @ c1" "mac_spec (view Q s) e c1 (view Q1 s1)" by blast
  from Cons.IH [OF 1(2,3)] obtain s2 Q2 c2 where 2: "mac_run R es s1 = Some s2" "csma_ok Q2 s2" "armed Q2 s2"
    "sent_calls s2 = sent_calls s1 @ c2" "mac_specs (view Q1 s1) es c2 (view Q2 s2)" by blast
  from 1 2 mac_specs.event [OF 1(5) 2(5)] show ?case
    by (intro exI [of _ s2] exI [of _ Q2] exI [of _ "c1 @ c2"]) simp
qed

end
section \<open>Every packet is reported in the end\<close>

text \<open>The firings of its timer that the first packets \<open>ps\<close> of a neighbour take at most, now and from the start.\<close>

definition patience :: "'r csma \<Rightarrow> ptr list \<Rightarrow> nat" where
  "patience s ps = sum_list (map (\<lambda>q. 6 * tries s q + 6) ps)"

definition left :: "'r csma \<Rightarrow> ptr \<Rightarrow> ptr list \<Rightarrow> nat" where
  "left s n ps = (case ps of [] \<Rightarrow> 0 | q # qs \<Rightarrow> attempts_left s n q + 1 + patience s qs)"

lemma left_patience: "left s n ps \<le> patience s ps"
proof (cases ps)
  case (Cons q qs)
  then show ?thesis using attempts_tries [of s n q] by (simp add: left_def patience_def)
qed (simp add: left_def)

lemma patience_drop: "patience s (drop k ps) \<le> patience s ps"
  unfolding patience_def by (metis append_take_drop_id le_add2 map_append sum_list_append)

lemma left_less:
  assumes "k < length ps" "tries s' = tries s" "k = 0 \<Longrightarrow> attempts_left s' n (hd ps) < attempts_left s n (hd ps)"
  shows "left s' n (drop k ps) < left s n ps"
proof (cases k)
  case 0
  then show ?thesis using assms by (cases ps) (auto simp: left_def patience_def)
next
  case (Suc j)
  then obtain q qs where ps: "ps = q # qs" using assms(1) by (cases ps) auto
  have "left s' n (drop k ps) \<le> patience s (drop j qs)"
    using left_patience [of s' n "drop k ps"] Suc assms(2) by (simp add: ps patience_def)
  also have "\<dots> \<le> patience s qs" by (rule patience_drop)
  finally show ?thesis by (simp add: ps left_def)
qed

lemma left_same:
  assumes "\<And>q. q \<in> set ps \<Longrightarrow> attempts_left s' n q = attempts_left s n q \<and> tries s' q = tries s q"
  shows "left s' n ps = left s n ps"
proof (cases ps)
  case (Cons q qs)
  then have "patience s' qs = patience s qs" using assms by (simp add: patience_def cong: map_cong)
  then show ?thesis using assms Cons by (simp add: left_def)
qed (simp add: left_def)

lemma kept_tries: "kept s s' \<Longrightarrow> tries s' = tries s"
  by (simp add: kept_def tries_def fun_eq_iff)

context rdc_driver
begin

text \<open>One event: of the packets \<open>ps\<close> at the front, those that stay in the queue need less when the timer has fired.\<close>

lemma step_progress:
  assumes ok: "csma_ok Q s" "armed Q s" and q: "(n, ps @ qs) \<in> set Q" and ps: "ps \<noteq> []"
  shows "\<exists>s' Q' calls k. mac_step R e s = Some s' \<and> csma_ok Q' s' \<and> armed Q' s' \<and> sent_calls s' = sent_calls s @ calls
    \<and> mset (map (callback s) (take k ps)) \<subseteq># mset (map called calls)
    \<and> (drop k ps \<noteq> [] \<longrightarrow> (\<exists>zs. (n, drop k ps @ zs) \<in> set Q') \<and> map (callback s') (drop k ps) = map (callback s) (drop k ps)
      \<and> left s' n (drop k ps) + (if e = Timer n then 1 else 0) \<le> left s n ps)"
proof (cases e)
  case (Send sent p b)
  from send_refines [OF ok, of R sent p b] obtain s' Q' calls where s': "mac_step R e s = Some s'" "csma_ok Q' s'" "armed Q' s'"
    "sent_calls s' = sent_calls s @ calls" "advances Q s Q' s'" unfolding Send by blast
  from s'(5) q obtain zs where zs: "(n, (ps @ qs) @ zs) \<in> set Q'"
    and same: "\<And>x. x \<in> set ps \<Longrightarrow> attempts_left s' n x = attempts_left s n x \<and> tries s' x = tries s x \<and> packet_of s' x = packet_of s x"
    unfolding advances_def by fastforce
  have "map (callback s') ps = map (callback s) ps" using same by (simp add: callback_packet)
  moreover have "left s' n ps = left s n ps" using same by (intro left_same) blast
  ultimately show ?thesis using s' zs Send
    by (intro exI [of _ s'] exI [of _ Q'] exI [of _ calls] exI [of _ 0]) auto
next
  case (Timer m)
  show ?thesis
  proof (cases "m \<in> fst ` set Q")
    case False
    then have "m \<noteq> n" using q by force
    then show ?thesis using ok False q Timer
      by (intro exI [of _ s] exI [of _ Q] exI [of _ "[]"] exI [of _ 0]) (auto simp: armed_def)
  next
    case True
    then obtain ks where "(m, ks) \<in> set Q" by auto
    moreover from this obtain x xs where "ks = x # xs" using csma_ok_member [OF ok(1)] by (metis list.exhaust)
    ultimately obtain A B where Q: "Q = A @ (m, x # xs) # B" by (metis split_list)
    from timer_refines [OF ok [unfolded Q]] obtain s' k calls where s': "mac_step R (Timer m) s = Some s'"
      "csma_ok (without A m (drop k (x # xs)) B) s'" "armed (without A m (drop k (x # xs)) B) s'"
      "others_kept s s' m" "sent_calls s' = sent_calls s @ calls" "map called calls = map (callback s) (take k (x # xs))"
      "k = 0 \<longrightarrow> attempts_left s' m x < attempts_left s m x" by blast
    have kept: "kept s s'" and others: "others m s s'" using s'(4) by (simp_all add: others_kept_def)
    show ?thesis
    proof (cases "m = n")
      case False
      then have "(n, ps @ qs) \<in> set A \<union> set B" using q Q by auto
      then have "(n, ps @ qs) \<in> set (without A m (drop k (x # xs)) B)" by (auto simp: without_parts)
      moreover have "left s' n ps = left s n ps"
        using False others kept by (intro left_same) (simp add: attempts_left_def others_def kept_def tries_def)
      moreover have "0 \<le> left s n ps" by simp
      ultimately show ?thesis using s'(1-3,5) False Timer kept_callback [OF kept]
        by (intro exI [of _ s'] exI [of _ "without A m (drop k (x # xs)) B"] exI [of _ calls] exI [of _ 0]) auto
    next
      case True
      have list: "x # xs = ps @ qs"
        using q neighbors_distinct [OF csma_ok_queue(1) [OF ok(1) [unfolded Q]]] unfolding Q True by auto
      then have x: "x = hd ps" using ps by (cases ps) auto
      have "mset (map (callback s) (take k ps)) \<subseteq># mset (map called calls)"
        unfolding s'(6) list by simp
      moreover have "(n, drop k ps @ drop (k - length ps) qs) \<in> set (without A m (drop k (x # xs)) B) \<and> left s' n (drop k ps) + 1 \<le> left s n ps"
        if d: "drop k ps \<noteq> []"
      proof
        show "(n, drop k ps @ drop (k - length ps) qs) \<in> set (without A m (drop k (x # xs)) B)"
          using d True unfolding without_parts list by simp
        have "left s' n (drop k ps) < left s n ps"
          using d s'(7) kept_tries [OF kept] True x by (intro left_less) auto
        then show "left s' n (drop k ps) + 1 \<le> left s n ps" by simp
      qed
      ultimately show ?thesis using s'(1-3,5) Timer True kept_callback [OF kept]
        by (intro exI [of _ s'] exI [of _ "without A m (drop k (x # xs)) B"] exI [of _ calls] exI [of _ k]) auto
    qed
  qed
qed

theorem run_progress:
  assumes "csma_ok Q s" "armed Q s" "(n, ps @ qs) \<in> set Q" "ps \<noteq> []" "left s n ps \<le> length (filter ((=) (Timer n)) es)"
  shows "\<exists>s' calls. mac_run R es s = Some s' \<and> sent_calls s' = sent_calls s @ calls \<and> mset (map (callback s) ps) \<subseteq># mset (map called calls)"
  using assms
proof (induction es arbitrary: Q s ps qs)
  case Nil
  then show ?case by (cases ps) (simp_all add: left_def)
next
  case (Cons e es)
  from step_progress [OF Cons.prems(1-4), of e] obtain s1 Q1 c1 k where 1: "mac_step R e s = Some s1" "csma_ok Q1 s1" "armed Q1 s1"
    "sent_calls s1 = sent_calls s @ c1" "mset (map (callback s) (take k ps)) \<subseteq># mset (map called c1)"
    "drop k ps \<noteq> [] \<longrightarrow> (\<exists>zs. (n, drop k ps @ zs) \<in> set Q1) \<and> map (callback s1) (drop k ps) = map (callback s) (drop k ps)
      \<and> left s1 n (drop k ps) + (if e = Timer n then 1 else 0) \<le> left s n ps"
    by (elim exE conjE) (rule that; assumption)
  have "\<exists>s2 c2. mac_run R es s1 = Some s2 \<and> sent_calls s2 = sent_calls s1 @ c2 \<and> mset (map (callback s) (drop k ps)) \<subseteq># mset (map called c2)"
  proof (cases "drop k ps = []")
    case True
    then show ?thesis using run_refines [OF 1(2,3), of es] by auto
  next
    case False
    with 1(6) obtain zs where z: "(n, drop k ps @ zs) \<in> set Q1" "map (callback s1) (drop k ps) = map (callback s) (drop k ps)"
      "left s1 n (drop k ps) + (if e = Timer n then 1 else 0) \<le> left s n ps" by blast
    have "left s1 n (drop k ps) \<le> length (filter ((=) (Timer n)) es)"
      using z(3) Cons.prems(5) by (auto split: if_splits)
    from Cons.IH [OF 1(2,3) z(1) False this] show ?thesis unfolding z(2) .
  qed
  then obtain s2 c2 where 2: "mac_run R es s1 = Some s2" "sent_calls s2 = sent_calls s1 @ c2"
    "mset (map (callback s) (drop k ps)) \<subseteq># mset (map called c2)" by blast
  have "mset (map (callback s) ps) = mset (map (callback s) (take k ps)) + mset (map (callback s) (drop k ps))"
    by (metis append_take_drop_id map_append mset_append)
  also have "\<dots> \<subseteq># mset (map called (c1 @ c2))" using subset_mset.add_mono [OF 1(5) 2(3)] by simp
  finally show ?case using 1(1,4) 2(1,2) by (intro exI [of _ s2] exI [of _ "c1 @ c2"]) simp
qed

end

end
