(* ===== verification/Frame802154.thy ===== *)
theory Frame802154
  imports Csma
begin

text \<open>
  The frames of the radio: \<open>core/net/mac/frame802154.c\<close>, which writes and reads the header of an IEEE 802.15.4
  frame, and \<open>core/net/mac/framer-802154.c\<close>, which fills it from the attributes of \<open>packetbuf\<close> and back.
  Link-layer security is off (\<open>LLSEC802154_ENABLED\<close> is 0 in these images), so there is no auxiliary header.
  Reading takes the memory behind a pointer as a function, as the code reads the header before it compares its length
  with that of the frame; the structure it fills is a local variable that starts with whatever is on the stack.
\<close>

section \<open>frame802154.c\<close>

record fcf =
  frame_type :: u8
  security_enabled :: u8
  frame_pending :: u8
  ack_required :: u8
  panid_compression :: u8
  sequence_number_suppression :: u8
  ie_list_present :: u8
  dest_addr_mode :: u8
  frame_version :: u8
  src_addr_mode :: u8

record frame802154 =
  dest_addr :: bytes
  src_addr :: bytes
  fr_fcf :: fcf
  fr_seq :: u8
  dest_pid :: u16
  src_pid :: u16
  payload :: nat
  payload_len :: int

record field_length =
  seqno_len :: u8
  dest_pid_len :: u8
  dest_addr_len :: u8
  src_pid_len :: u8
  src_addr_len :: u8

definition FRAME802154_DATAFRAME :: u8 where "FRAME802154_DATAFRAME = 1"
definition FRAME802154_ACKFRAME :: u8 where "FRAME802154_ACKFRAME = 2"
definition FRAME802154_SHORTADDRMODE :: u8 where "FRAME802154_SHORTADDRMODE = 2"
definition FRAME802154_LONGADDRMODE :: u8 where "FRAME802154_LONGADDRMODE = 3"
definition FRAME802154_BROADCASTPANDID :: u16 where "FRAME802154_BROADCASTPANDID = 0xFFFF"
definition FRAME802154_IEEE802154_2006 :: u8 where "FRAME802154_IEEE802154_2006 = 1"
definition FRAME802154_IEEE802154E_2012 :: u8 where "FRAME802154_IEEE802154E_2012 = 2"
definition FRAME802154_VERSION :: u8 where "FRAME802154_VERSION = FRAME802154_IEEE802154_2006"
definition FRAME802154_SUPPR_SEQNO :: u8 where "FRAME802154_SUPPR_SEQNO = 0"
definition LINKADDR_SIZE :: nat where "LINKADDR_SIZE = 8"
definition PACKETBUF_SIZE :: nat where "PACKETBUF_SIZE = 128"

definition addr_len :: "u8 \<Rightarrow> u8" where
  "addr_len mode = (if mode = FRAME802154_SHORTADDRMODE then 2 else if mode = FRAME802154_LONGADDRMODE then 8 else 0)"

text \<open>Whether there is a source PAN identifier, and a destination PAN identifier.\<close>

definition frame802154_has_panid :: "fcf \<Rightarrow> bool \<times> bool" where
  "frame802154_has_panid f =
    (if frame_version f = FRAME802154_IEEE802154E_2012
     then if panid_compression f = 0
       then if dest_addr_mode f \<noteq> 0 then (False, True) else (src_addr_mode f \<noteq> 0, False)
       else (False, dest_addr_mode f = 0 \<and> src_addr_mode f = 0)
     else if frame_type f \<noteq> FRAME802154_ACKFRAME
       then (panid_compression f = 0 \<and> src_addr_mode f AND 3 \<noteq> 0, dest_addr_mode f AND 3 \<noteq> 0)
       else (False, False))"

definition frame802154_check_dest_panid :: "u16 \<Rightarrow> frame802154 \<Rightarrow> bool" where
  "frame802154_check_dest_panid mac_pan_id frame =
    (let (_, has_dest_panid) = frame802154_has_panid (fr_fcf frame)
     in \<not> (has_dest_panid \<and> dest_pid frame \<noteq> mac_pan_id \<and> dest_pid frame \<noteq> FRAME802154_BROADCASTPANDID))"

text \<open>The loop over \<open>addr[i - 1], ..., addr[0]\<close>.\<close>

fun all_ff :: "nat \<Rightarrow> bytes \<Rightarrow> bool" where
  "all_ff 0 a = True"
| "all_ff (Suc i) a = (if a ! i \<noteq> 0xff then False else all_ff i a)"

definition frame802154_is_broadcast_addr :: "u8 \<Rightarrow> bytes \<Rightarrow> bool" where
  "frame802154_is_broadcast_addr mode a = all_ff (if mode = FRAME802154_SHORTADDRMODE then 2 else 8) a"

text \<open>One address of \<open>frame802154_extract_linkaddr\<close>; \<open>None\<close> is a size that it cannot handle.\<close>

definition extract_addr :: "u8 \<Rightarrow> bytes \<Rightarrow> linkaddr option" where
  "extract_addr mode a =
    (let l = (if mode \<noteq> 0 then if mode = FRAME802154_SHORTADDRMODE then 2 else 8 else 0)
     in if l = 0 \<or> frame802154_is_broadcast_addr mode a then Some linkaddr_null
        else if l \<noteq> LINKADDR_SIZE then None else Some a)"

definition frame802154_extract_linkaddr :: "frame802154 \<Rightarrow> (linkaddr \<times> linkaddr) option" where
  "frame802154_extract_linkaddr frame = do {
     source \<leftarrow> extract_addr (src_addr_mode (fr_fcf frame)) (src_addr frame);
     dest \<leftarrow> extract_addr (dest_addr_mode (fr_fcf frame)) (dest_addr frame);
     Some (source, dest) }"

definition field_len :: "frame802154 \<Rightarrow> frame802154 \<times> field_length" where
  "field_len p =
    (let f = fr_fcf p;
         f = (if frame_version f < FRAME802154_IEEE802154E_2012
           then f\<lparr>panid_compression := if dest_addr_mode f AND 3 \<noteq> 0 \<and> src_addr_mode f AND 3 \<noteq> 0 \<and> src_pid p = dest_pid p then 1 else 0\<rparr>
           else f);
         (has_src_panid, has_dest_panid) = frame802154_has_panid f
     in (p\<lparr>fr_fcf := f\<rparr>,
         \<lparr>seqno_len = (if sequence_number_suppression f AND 1 = 0 then 1 else 0),
          dest_pid_len = (if has_dest_panid then 2 else 0),
          dest_addr_len = addr_len (dest_addr_mode f AND 3),
          src_pid_len = (if has_src_panid then 2 else 0),
          src_addr_len = addr_len (src_addr_mode f AND 3)\<rparr>))"

definition frame802154_hdrlen :: "frame802154 \<Rightarrow> frame802154 \<times> int" where
  "frame802154_hdrlen p =
    (let (p, flen) = field_len p
     in (p, 2 + uint (seqno_len flen) + uint (dest_pid_len flen) + uint (dest_addr_len flen)
       + uint (src_pid_len flen) + uint (src_addr_len flen)))"

text \<open>\<open>for(c = len; c > 0; c--) buf[pos++] = addr[c - 1];\<close>\<close>

fun put_addr :: "nat \<Rightarrow> bytes \<Rightarrow> bytes" where
  "put_addr 0 a = []"
| "put_addr (Suc c) a = a ! c # put_addr c a"

definition put_pid :: "u8 \<Rightarrow> u16 \<Rightarrow> bytes" where
  "put_pid len pid = (if len = 2 then [ucast (pid AND 0xff), ucast (drop_bit 8 pid AND 0xff)] else [])"

text \<open>The bytes that are written to the buffer, as many as the result of the C function.\<close>

definition frame802154_create :: "frame802154 \<Rightarrow> bytes" where
  "frame802154_create p =
    (let (p, flen) = field_len p; f = fr_fcf p
     in [(frame_type f AND 7) OR push_bit 3 (security_enabled f AND 1) OR push_bit 4 (frame_pending f AND 1)
           OR push_bit 5 (ack_required f AND 1) OR push_bit 6 (panid_compression f AND 1),
         (sequence_number_suppression f AND 1) OR push_bit 1 (ie_list_present f AND 1) OR push_bit 2 (dest_addr_mode f AND 3)
           OR push_bit 4 (frame_version f AND 3) OR push_bit 6 (src_addr_mode f AND 3)]
        @ (if seqno_len flen = 1 then [fr_seq p] else [])
        @ put_pid (dest_pid_len flen) (dest_pid p)
        @ put_addr (unat (dest_addr_len flen)) (dest_addr p)
        @ put_pid (src_pid_len flen) (src_pid p)
        @ put_addr (unat (src_addr_len flen)) (src_addr p))"

section \<open>Reading a header\<close>

definition parse_fcf :: "mem \<Rightarrow> fcf" where
  "parse_fcf p =
    \<lparr>frame_type = p 0 AND 7, security_enabled = drop_bit 3 (p 0) AND 1, frame_pending = drop_bit 4 (p 0) AND 1,
     ack_required = drop_bit 5 (p 0) AND 1, panid_compression = drop_bit 6 (p 0) AND 1,
     sequence_number_suppression = p 1 AND 1, ie_list_present = drop_bit 1 (p 1) AND 1,
     dest_addr_mode = drop_bit 2 (p 1) AND 3, frame_version = drop_bit 4 (p 1) AND 3, src_addr_mode = drop_bit 6 (p 1) AND 3\<rparr>"

definition get_pid :: "mem \<Rightarrow> nat \<Rightarrow> u16" where
  "get_pid p c = ucast (p c) + push_bit 8 (ucast (p (c + 1)))"

text \<open>
  An address at \<open>p + c\<close> into the array \<open>old\<close>: the address and the position after it. A short address is in the first
  two bytes; the reserved mode 1 leaves the array as it is.
\<close>

definition get_addr :: "mem \<Rightarrow> u8 \<Rightarrow> nat \<Rightarrow> bytes \<Rightarrow> bytes \<times> nat" where
  "get_addr p mode c old =
    (if mode = FRAME802154_SHORTADDRMODE then (linkaddr_null[0 := p (c + 1), 1 := p c], c + 2)
     else if mode = FRAME802154_LONGADDRMODE then (map (\<lambda>i. p (c + 7 - i)) [0..<8], c + 8)
     else (old, c))"

definition parse_dest :: "mem \<Rightarrow> bool \<Rightarrow> nat \<times> frame802154 \<Rightarrow> nat \<times> frame802154" where
  "parse_dest p has_dest_panid = (\<lambda>(c, pf).
    if dest_addr_mode (fr_fcf pf) \<noteq> 0 then
      let (c, pf) = (if has_dest_panid then (c + 2, pf\<lparr>dest_pid := get_pid p c\<rparr>) else (c, pf\<lparr>dest_pid := 0\<rparr>));
          (a, c) = get_addr p (dest_addr_mode (fr_fcf pf)) c (dest_addr pf)
      in (c, pf\<lparr>dest_addr := a\<rparr>)
    else (c, pf\<lparr>dest_addr := linkaddr_null, dest_pid := 0\<rparr>))"

definition parse_src :: "mem \<Rightarrow> bool \<Rightarrow> bool \<Rightarrow> nat \<times> frame802154 \<Rightarrow> nat \<times> frame802154" where
  "parse_src p has_src_panid has_dest_panid = (\<lambda>(c, pf).
    if src_addr_mode (fr_fcf pf) \<noteq> 0 then
      let (c, pf) = (if has_src_panid
            then let pf = pf\<lparr>src_pid := get_pid p c\<rparr>
              in (c + 2, if \<not> has_dest_panid then pf\<lparr>dest_pid := src_pid pf\<rparr> else pf)
            else (c, pf\<lparr>src_pid := dest_pid pf\<rparr>));
          (a, c) = get_addr p (src_addr_mode (fr_fcf pf)) c (src_addr pf)
      in (c, pf\<lparr>src_addr := a\<rparr>)
    else (c, pf\<lparr>src_addr := linkaddr_null, src_pid := 0\<rparr>))"

text \<open>The result is the length of the header, or 0, and the structure.\<close>

definition frame802154_parse :: "mem \<Rightarrow> nat \<Rightarrow> frame802154 \<Rightarrow> nat \<times> frame802154" where
  "frame802154_parse p len pf =
    (if len < 2 then (0, pf)
     else let fcf = parse_fcf p;
              pf = pf\<lparr>fr_fcf := fcf\<rparr>;
              (c, pf) = (if sequence_number_suppression fcf = 0 then (3, pf\<lparr>fr_seq := p 2\<rparr>) else (2, pf));
              (has_src_panid, has_dest_panid) = frame802154_has_panid fcf;
              (c, pf) = parse_dest p has_dest_panid (c, pf);
              (c, pf) = parse_src p has_src_panid has_dest_panid (c, pf);
              pf = pf\<lparr>payload := c, payload_len := int len - int c\<rparr>
          in (if c > len then 0 else c, pf))"

section \<open>framer-802154.c\<close>

record framer =
  mac_pan_id :: u16
  mac_dsn :: u8
  framer_initialized :: bool

definition FRAMER_FAILED :: int where "FRAMER_FAILED = -1"

definition packetbuf_totlen :: "packetbuf \<Rightarrow> nat" where
  "packetbuf_totlen b = length (pb_hdr b) + length (pb_data b)"

definition packetbuf_holds_broadcast :: "packetbuf \<Rightarrow> bool" where
  "packetbuf_holds_broadcast b \<longleftrightarrow> pb_receiver b = linkaddr_null"

definition null_frame :: frame802154 where
  "null_frame = \<lparr>dest_addr = replicate 8 0, src_addr = replicate 8 0,
     fr_fcf = \<lparr>frame_type = 0, security_enabled = 0, frame_pending = 0, ack_required = 0, panid_compression = 0,
       sequence_number_suppression = 0, ie_list_present = 0, dest_addr_mode = 0, frame_version = 0, src_addr_mode = 0\<rparr>,
     fr_seq = 0, dest_pid = 0, src_pid = 0, payload = 0, payload_len = 0\<rparr>"

text \<open>The frame control field and the addresses, from the attributes.\<close>

definition frame_params :: "framer \<Rightarrow> linkaddr \<Rightarrow> packetbuf \<Rightarrow> frame802154" where
  "frame_params fr node_addr b =
    (let bc = packetbuf_holds_broadcast b
     in null_frame\<lparr>fr_fcf := (fr_fcf null_frame)\<lparr>frame_type := ucast (pb_frame_type b), frame_pending := ucast (pb_pending b),
            ack_required := (if bc then 0 else ucast (pb_mac_ack b)),
            sequence_number_suppression :=
              (if bc then if FRAME802154_VERSION \<ge> FRAME802154_IEEE802154E_2012 then 1 else 0 else FRAME802154_SUPPR_SEQNO),
            panid_compression := 0, frame_version := FRAME802154_VERSION,
            src_addr_mode := (if LINKADDR_SIZE = 2 then FRAME802154_SHORTADDRMODE else FRAME802154_LONGADDRMODE),
            dest_addr_mode := (if bc \<or> LINKADDR_SIZE = 2 then FRAME802154_SHORTADDRMODE else FRAME802154_LONGADDRMODE)\<rparr>,
          dest_pid := mac_pan_id fr,
          dest_addr := (if bc then (dest_addr null_frame)[0 := 0xFF, 1 := 0xFF] else pb_receiver b),
          src_pid := mac_pan_id fr,
          src_addr := node_addr\<rparr>)"

text \<open>The first use draws a number from \<open>random_rand\<close>, here the argument \<open>rand\<close>.\<close>

definition create_frame :: "linkaddr \<Rightarrow> u16 \<Rightarrow> bool \<Rightarrow> packetbuf \<Rightarrow> framer \<Rightarrow> int \<times> packetbuf \<times> framer" where
  "create_frame node_addr rand do_create b fr =
    (if mac_pan_id fr = 0xffff then (-1, b, fr)
     else let fr = (if \<not> framer_initialized fr then fr\<lparr>framer_initialized := True, mac_dsn := ucast (rand AND 0xff)\<rparr> else fr);
              params = frame_params fr node_addr b;
              (params, b, fr) =
                (if \<not> do_create then (params, b, fr)
                 else if pb_seqno b \<noteq> 0 then (params\<lparr>fr_seq := ucast (pb_seqno b)\<rparr>, b, fr)
                 else let fr = (if mac_dsn fr = 0 then fr\<lparr>mac_dsn := mac_dsn fr + 1\<rparr> else fr)
                   in (params\<lparr>fr_seq := mac_dsn fr\<rparr>, b\<lparr>pb_seqno := ucast (mac_dsn fr)\<rparr>, fr\<lparr>mac_dsn := mac_dsn fr + 1\<rparr>));
              (params, hdr_len) = frame802154_hdrlen params
          in if \<not> do_create then (hdr_len, b, fr)
             else if nat hdr_len + packetbuf_totlen b > PACKETBUF_SIZE then (FRAMER_FAILED, b, fr)
             else (hdr_len, b\<lparr>pb_hdr := frame802154_create params @ pb_hdr b\<rparr>, fr))"

text \<open>
  \<open>parse\<close>: \<open>packetbuf_hdrreduce\<close> takes the header off the data. \<open>mem\<close> is the memory at \<open>packetbuf_dataptr()\<close>, and
  \<open>frame\<close> what is on the stack.
\<close>

definition framer_parse :: "framer \<Rightarrow> mem \<Rightarrow> frame802154 \<Rightarrow> packetbuf \<Rightarrow> int \<times> packetbuf" where
  "framer_parse fr mem frame b =
    (let (hdr_len, frame) = frame802154_parse mem (length (pb_data b)) frame
     in if hdr_len \<noteq> 0 \<and> hdr_len \<le> length (pb_data b) then
          let b = b\<lparr>pb_data := drop hdr_len (pb_data b), pb_frame_type := ucast (frame_type (fr_fcf frame))\<rparr>;
              has_dest = dest_addr_mode (fr_fcf frame) \<noteq> 0
          in if has_dest \<and> dest_pid frame \<noteq> mac_pan_id fr \<and> dest_pid frame \<noteq> FRAME802154_BROADCASTPANDID
             then (FRAMER_FAILED, b)
             else
               let b = (if has_dest \<and> \<not> frame802154_is_broadcast_addr (dest_addr_mode (fr_fcf frame)) (dest_addr frame)
                     then b\<lparr>pb_receiver := dest_addr frame\<rparr> else b);
                   b = b\<lparr>pb_sender := src_addr frame, pb_pending := ucast (frame_pending (fr_fcf frame)),
                     pb_seqno := (if sequence_number_suppression (fr_fcf frame) = 0 then ucast (fr_seq frame) else 0xffff)\<rparr>
               in (int hdr_len, b)
        else (FRAMER_FAILED, b))"

end
