(* ===== verification/Mac_Receive.thy ===== *)
theory Mac_Receive
  imports Frame802154
begin

text \<open>
  Receiving: the table of the numbers last heard from each sender of \<open>core/net/mac/mac-sequence.c\<close>, and
  \<open>packet_input\<close> of \<open>core/net/mac/nullrdc.c\<close>, which drops acknowledgements, frames for others and repetitions, and
  gives the rest to the network layer (\<open>input_packet\<close> of \<open>csma.c\<close> and \<open>input\<close> of \<open>nullsec.c\<close> only hand it on). The
  times are those that \<open>clock_time\<close> returns (\<open>Event_Timer\<close>).
\<close>

section \<open>mac-sequence.c\<close>

record seqno_entry =
  sq_sender :: linkaddr
  sq_timestamp :: u32
  sq_seqno :: u8

definition MAX_SEQNOS :: nat where "MAX_SEQNOS = 16"
definition SEQNO_MAX_AGE :: u32 where "SEQNO_MAX_AGE = 20 * CLOCK_CONF_SECOND"

definition received_seqnos_init :: "seqno_entry list" where
  "received_seqnos_init = replicate MAX_SEQNOS \<lparr>sq_sender = linkaddr_null, sq_timestamp = 0, sq_seqno = 0\<rparr>"

fun is_duplicate_loop :: "linkaddr \<Rightarrow> u16 \<Rightarrow> u32 \<Rightarrow> seqno_entry list \<Rightarrow> bool" where
  "is_duplicate_loop sender num now [] = False"
| "is_duplicate_loop sender num now (e # es) =
    (if sender = sq_sender e
     then num = ucast (sq_seqno e) \<and> now - sq_timestamp e \<le> SEQNO_MAX_AGE
     else is_duplicate_loop sender num now es)"

definition mac_sequence_is_duplicate :: "u32 \<Rightarrow> packetbuf \<Rightarrow> seqno_entry list \<Rightarrow> bool" where
  "mac_sequence_is_duplicate now b t = is_duplicate_loop (pb_sender b) (pb_seqno b) now t"

text \<open>The index \<open>i\<close> after the first loop: behind the entry of the sender, or at the end.\<close>

fun locate_sender :: "linkaddr \<Rightarrow> seqno_entry list \<Rightarrow> nat \<Rightarrow> nat" where
  "locate_sender sender [] i = i"
| "locate_sender sender (e # es) i = (if sender = sq_sender e then i + 1 else locate_sender sender es (i + 1))"

text \<open>\<open>for(j = i - 1; j > 0; --j)\<close> copies entry \<open>j - 1\<close> to entry \<open>j\<close>.\<close>

fun shift_entries :: "nat \<Rightarrow> seqno_entry list \<Rightarrow> seqno_entry list" where
  "shift_entries 0 t = t"
| "shift_entries (Suc j) t = shift_entries j (t[Suc j := t ! j])"

definition mac_sequence_register_seqno :: "u32 \<Rightarrow> packetbuf \<Rightarrow> seqno_entry list \<Rightarrow> seqno_entry list" where
  "mac_sequence_register_seqno now b t =
    (let i = locate_sender (pb_sender b) t 0; t = shift_entries (i - 1) t
     in t[0 := \<lparr>sq_sender = pb_sender b, sq_timestamp = now, sq_seqno = ucast (pb_seqno b)\<rparr>])"

section \<open>nullrdc.c\<close>

record receiver =
  rx_framer :: framer
  received_seqnos :: "seqno_entry list"
  rx_packetbuf :: packetbuf
  radio_sent :: "bytes list"
  network_input :: "packetbuf list"

text \<open>
  With \<open>NULLRDC_SEND_802154_ACK\<close> the acknowledgement is sent here, else by the radio. The structures \<open>frame\<close> and
  \<open>info154\<close> are on the stack; \<open>mem\<close> is the memory at \<open>packetbuf_dataptr()\<close>.
\<close>

definition send_154_ack :: "linkaddr \<Rightarrow> mem \<Rightarrow> nat \<Rightarrow> frame802154 \<Rightarrow> receiver \<Rightarrow> receiver" where
  "send_154_ack node_addr mem len info154 s =
    (let (_, info154) = frame802154_parse mem len info154
     in if frame_type (fr_fcf info154) = FRAME802154_DATAFRAME \<and> ack_required (fr_fcf info154) \<noteq> 0 \<and> dest_addr info154 = node_addr
        then s\<lparr>radio_sent := radio_sent s @ [[FRAME802154_ACKFRAME, 0, fr_seq info154]]\<rparr>
        else s)"

definition packet_input :: "bool \<Rightarrow> linkaddr \<Rightarrow> u32 \<Rightarrow> u32 \<Rightarrow> mem \<Rightarrow> frame802154 \<Rightarrow> frame802154 \<Rightarrow> receiver \<Rightarrow> receiver" where
  "packet_input NULLRDC_SEND_802154_ACK node_addr now now' mem frame info154 s =
    (let len = length (pb_data (rx_packetbuf s))
     in if len = ACK_LEN then s
        else let (r, b) = framer_parse (rx_framer s) mem frame (rx_packetbuf s); s = s\<lparr>rx_packetbuf := b\<rparr>
          in if r < 0 then s
             else if pb_receiver b \<noteq> node_addr \<and> \<not> packetbuf_holds_broadcast b then s
             else let duplicate = mac_sequence_is_duplicate now b (received_seqnos s);
                      s = (if duplicate then s else s\<lparr>received_seqnos := mac_sequence_register_seqno now' b (received_seqnos s)\<rparr>);
                      s = (if NULLRDC_SEND_802154_ACK then send_154_ack node_addr mem len info154 s else s)
               in if duplicate then s else s\<lparr>network_input := network_input s @ [b]\<rparr>)"

text \<open>
  A frame from the radio: \<open>packetbuf\<close> is cleared and filled (\<open>rf_core_process\<close>), the memory behind the frame holds
  what was there before.
\<close>

definition packetbuf_with :: "bytes \<Rightarrow> packetbuf" where
  "packetbuf_with d = \<lparr>pb_hdr = [], pb_data = d, pb_seqno = 0, pb_max_transmissions = 0, pb_mac_ack = 0, pb_frame_type = 0,
     pb_pending = 0, pb_sender = linkaddr_null, pb_receiver = linkaddr_null\<rparr>"

definition frame_received :: "bool \<Rightarrow> linkaddr \<Rightarrow> u32 \<Rightarrow> u32 \<Rightarrow> mem \<Rightarrow> frame802154 \<Rightarrow> frame802154 \<Rightarrow> bytes \<Rightarrow> receiver \<Rightarrow> receiver" where
  "frame_received send_ack node_addr now now' stale frame info154 d s =
    packet_input send_ack node_addr now now' (\<lambda>i. if i < length d then d ! i else stale i) frame info154
      (s\<lparr>rx_packetbuf := packetbuf_with d\<rparr>)"

end
