(* ===== verification/Frame_Laws.thy ===== *)
theory Frame_Laws
  imports Frame802154
begin

text \<open>
  The laws of the frames of \<open>Frame802154\<close>: a header that was written is read back, whatever is behind it in memory and
  whatever the structure held before; the frame that the framer makes of a packet; what reading a header depends on.
\<close>

section \<open>Bytes in memory\<close>

definition at_mem :: "mem \<Rightarrow> nat \<Rightarrow> bytes \<Rightarrow> bool" where
  "at_mem p c xs \<longleftrightarrow> (\<forall>i<length xs. p (c + i) = xs ! i)"

lemma at_mem_simps [simp]:
  "at_mem p c []" "at_mem p c (x # xs) \<longleftrightarrow> p c = x \<and> at_mem p (Suc c) xs"
  "at_mem p c (xs @ ys) \<longleftrightarrow> at_mem p c xs \<and> at_mem p (c + length xs) ys"
proof -
  show nil: "at_mem p c []" for c by (simp add: at_mem_def)
  show cons: "at_mem p c (x # xs) \<longleftrightarrow> p c = x \<and> at_mem p (Suc c) xs" for c x xs
    by (auto simp: at_mem_def less_Suc_eq_0_disj nth_Cons')
  show "at_mem p c (xs @ ys) \<longleftrightarrow> at_mem p c xs \<and> at_mem p (c + length xs) ys"
    by (induction xs arbitrary: c) (auto simp: nil cons)
qed

lemma at_mem_nth: "at_mem (\<lambda>i. (xs @ ys) ! i) 0 xs"
  by (simp add: at_mem_def nth_append)

section \<open>The fields\<close>

text \<open>The fields of a frame control field have their widths.\<close>

definition fcf_ok :: "fcf \<Rightarrow> bool" where
  "fcf_ok f \<longleftrightarrow> frame_type f AND 7 = frame_type f \<and> security_enabled f AND 1 = security_enabled f \<and> frame_pending f AND 1 = frame_pending f
    \<and> ack_required f AND 1 = ack_required f \<and> panid_compression f AND 1 = panid_compression f
    \<and> sequence_number_suppression f AND 1 = sequence_number_suppression f \<and> ie_list_present f AND 1 = ie_list_present f
    \<and> dest_addr_mode f AND 3 = dest_addr_mode f \<and> frame_version f AND 3 = frame_version f \<and> src_addr_mode f AND 3 = src_addr_mode f"

lemma small_bits:
  "bit (7 :: u8) n \<longleftrightarrow> n < 3" "bit (3 :: u8) n \<longleftrightarrow> n < 2" "bit (1 :: u8) n \<longleftrightarrow> n = 0"
proof -
  have m: "(7 :: u8) = mask 3" "(3 :: u8) = mask 2" by (simp_all add: mask_eq_exp_minus_1)
  show "bit (7 :: u8) n \<longleftrightarrow> n < 3" unfolding m(1) bit_mask_iff by auto
  show "bit (3 :: u8) n \<longleftrightarrow> n < 2" unfolding m(2) bit_mask_iff by auto
qed (simp add: bit_simps)

lemma u8_eqI:
  fixes x y :: u8
  assumes "bit x 0 = bit y 0" "bit x 1 = bit y 1" "bit x 2 = bit y 2" "bit x 3 = bit y 3"
    "bit x 4 = bit y 4" "bit x 5 = bit y 5" "bit x 6 = bit y 6" "bit x 7 = bit y 7"
  shows "x = y"
proof (rule bit_word_eqI)
  fix n assume "n < LENGTH(8)"
  then have "n \<in> {0, 1, 2, 3, 4, 5, 6, 7}" by auto
  then show "bit x n = bit y n" using assms by auto
qed

lemma field_bits:
  fixes a b c d e :: u8
  shows "((a AND 7) OR push_bit 3 (b AND 1) OR push_bit 4 (c AND 1) OR push_bit 5 (d AND 1) OR push_bit 6 (e AND 1)) AND 7 = a AND 7"
    "drop_bit 3 ((a AND 7) OR push_bit 3 (b AND 1) OR push_bit 4 (c AND 1) OR push_bit 5 (d AND 1) OR push_bit 6 (e AND 1)) AND 1 = b AND 1"
    "drop_bit 4 ((a AND 7) OR push_bit 3 (b AND 1) OR push_bit 4 (c AND 1) OR push_bit 5 (d AND 1) OR push_bit 6 (e AND 1)) AND 1 = c AND 1"
    "drop_bit 5 ((a AND 7) OR push_bit 3 (b AND 1) OR push_bit 4 (c AND 1) OR push_bit 5 (d AND 1) OR push_bit 6 (e AND 1)) AND 1 = d AND 1"
    "drop_bit 6 ((a AND 7) OR push_bit 3 (b AND 1) OR push_bit 4 (c AND 1) OR push_bit 5 (d AND 1) OR push_bit 6 (e AND 1)) AND 1 = e AND 1"
    "((a AND 1) OR push_bit 1 (b AND 1) OR push_bit 2 (c AND 3) OR push_bit 4 (d AND 3) OR push_bit 6 (e AND 3)) AND 1 = a AND 1"
    "drop_bit 1 ((a AND 1) OR push_bit 1 (b AND 1) OR push_bit 2 (c AND 3) OR push_bit 4 (d AND 3) OR push_bit 6 (e AND 3)) AND 1 = b AND 1"
    "drop_bit 2 ((a AND 1) OR push_bit 1 (b AND 1) OR push_bit 2 (c AND 3) OR push_bit 4 (d AND 3) OR push_bit 6 (e AND 3)) AND 3 = c AND 3"
    "drop_bit 4 ((a AND 1) OR push_bit 1 (b AND 1) OR push_bit 2 (c AND 3) OR push_bit 4 (d AND 3) OR push_bit 6 (e AND 3)) AND 3 = d AND 3"
    "drop_bit 6 ((a AND 1) OR push_bit 1 (b AND 1) OR push_bit 2 (c AND 3) OR push_bit 4 (d AND 3) OR push_bit 6 (e AND 3)) AND 3 = e AND 3"
  by (rule u8_eqI; simp add: bit_and_iff bit_or_iff bit_push_bit_iff bit_drop_bit_eq small_bits del: push_bit_and bit_0)+

lemma get_pid_ok: "at_mem p c (put_pid 2 pid) \<Longrightarrow> get_pid p c = pid"
proof -
  have disj: "(ucast x :: u16) AND push_bit 8 (ucast y) = 0" for x y :: u8
    by (rule bit_word_eqI) (auto simp: bit_simps dest: bit_imp_le_length)
  have "ucast x + push_bit 8 (ucast y) = u16_of_bytes x y" for x y :: u8
    unfolding u16_of_bytes_def using disj by (simp add: disjunctive_add_eq_or)
  moreover have "ucast (pid AND 0xff) = byte_of pid 0" "ucast (drop_bit 8 pid AND 0xff) = byte_of pid 1"
  proof -
    have m: "(0xff :: u16) = mask 8" by (simp add: mask_eq_exp_minus_1)
    show "ucast (pid AND 0xff) = byte_of pid 0" "ucast (drop_bit 8 pid AND 0xff) = byte_of pid 1"
      unfolding m by (auto simp: byte_of_def bit_simps intro!: bit_word_eqI)
  qed
  moreover assume "at_mem p c (put_pid 2 pid)"
  ultimately show ?thesis by (simp add: get_pid_def put_pid_def bytes_simps)
qed

lemma put_pid_length [simp]: "length (put_pid l pid) = (if l = 2 then 2 else 0)"
  by (simp add: put_pid_def)

lemma put_addr_rev: "c \<le> length a \<Longrightarrow> put_addr c a = rev (take c a)"
  by (induction c) (auto simp: take_Suc_conv_app_nth)

text \<open>What a reader gets of an address: all of a long one, two bytes of a short one.\<close>

definition shown :: "u8 \<Rightarrow> bytes \<Rightarrow> bytes" where
  "shown mode a = (if mode = FRAME802154_SHORTADDRMODE then linkaddr_null[0 := a ! 0, 1 := a ! 1]
     else if mode = FRAME802154_LONGADDRMODE then a else linkaddr_null)"

lemma get_addr_ok:
  assumes "at_mem p c (put_addr (unat (addr_len m)) a)" "length a = 8" "m = 2 \<or> m = 3"
  shows "get_addr p m c old = (shown m a, c + unat (addr_len m))"
  using assms(3)
proof
  assume m: "m = 2"
  have "put_addr 2 a = [a ! 1, a ! 0]" by (simp add: numeral_2_eq_2)
  then have "p c = a ! 1" "p (c + 1) = a ! 0"
    using assms(1) m by (simp_all add: addr_len_def FRAME802154_SHORTADDRMODE_def)
  then show ?thesis using m by (simp add: get_addr_def shown_def addr_len_def FRAME802154_SHORTADDRMODE_def)
next
  assume m: "m = 3"
  have "p (c + 7 - i) = a ! i" if "i < 8" for i
  proof -
    have "put_addr 8 a = rev a" using assms(2) by (simp add: put_addr_rev)
    with assms(1) m have "at_mem p c (rev a)" by (simp add: addr_len_def FRAME802154_SHORTADDRMODE_def FRAME802154_LONGADDRMODE_def)
    then have "p (c + (7 - i)) = rev a ! (7 - i)" using assms(2) unfolding at_mem_def by simp
    moreover have "rev a ! (7 - i) = a ! i" using assms(2) that by (simp add: rev_nth)
    moreover have "c + (7 - i) = c + 7 - i" using that by linarith
    ultimately show ?thesis by metis
  qed
  note byte = this
  have "map (\<lambda>i. p (c + 7 - i)) [0..<8] = a"
  proof (rule nth_equalityI)
    fix i assume "i < length (map (\<lambda>i. p (c + 7 - i)) [0..<8])"
    then show "map (\<lambda>i. p (c + 7 - i)) [0..<8] ! i = a ! i" using byte [of i] by (simp add: nth_append)
  qed (simp add: assms(2))
  then show ?thesis using m by (simp add: get_addr_def shown_def addr_len_def FRAME802154_SHORTADDRMODE_def FRAME802154_LONGADDRMODE_def)
qed
section \<open>A header that was written is read\<close>

lemma parse_fcf_ok:
  assumes "fcf_ok f"
    and "at_mem p 0 [(frame_type f AND 7) OR push_bit 3 (security_enabled f AND 1) OR push_bit 4 (frame_pending f AND 1)
           OR push_bit 5 (ack_required f AND 1) OR push_bit 6 (panid_compression f AND 1),
         (sequence_number_suppression f AND 1) OR push_bit 1 (ie_list_present f AND 1) OR push_bit 2 (dest_addr_mode f AND 3)
           OR push_bit 4 (frame_version f AND 3) OR push_bit 6 (src_addr_mode f AND 3)]"
  shows "parse_fcf p = f"
proof -
  from assms(2) have p: "p 0 = (frame_type f AND 7) OR push_bit 3 (security_enabled f AND 1) OR push_bit 4 (frame_pending f AND 1)
           OR push_bit 5 (ack_required f AND 1) OR push_bit 6 (panid_compression f AND 1)"
    "p 1 = (sequence_number_suppression f AND 1) OR push_bit 1 (ie_list_present f AND 1) OR push_bit 2 (dest_addr_mode f AND 3)
           OR push_bit 4 (frame_version f AND 3) OR push_bit 6 (src_addr_mode f AND 3)" by simp_all
  show ?thesis
    using assms(1) unfolding parse_fcf_def p field_bits fcf_ok_def by simp
qed

definition mode_ok :: "u8 \<Rightarrow> bool" where
  "mode_ok m \<longleftrightarrow> m = 0 \<or> m = FRAME802154_SHORTADDRMODE \<or> m = FRAME802154_LONGADDRMODE"

lemmas mode_defs = mode_ok_def FRAME802154_SHORTADDRMODE_def FRAME802154_LONGADDRMODE_def

lemma addr_lens: "unat (addr_len m) = (if m = 2 then 2 else if m = 3 then 8 else 0)" "uint (addr_len m) = (if m = 2 then 2 else if m = 3 then 8 else 0)"
  by (simp_all add: addr_len_def FRAME802154_SHORTADDRMODE_def FRAME802154_LONGADDRMODE_def)

lemma put_addr_length [simp]: "length (put_addr c a) = c"
  by (induction c) simp_all

lemma parse_dest_ok:
  assumes "at_mem p c (put_pid (if m \<noteq> 0 then 2 else 0) pid @ put_addr (unat (addr_len m)) a)"
    and m: "m = dest_addr_mode (fr_fcf pf)" "mode_ok m" "length a = 8"
  shows "parse_dest p (m \<noteq> 0) (c, pf) = (c + (if m \<noteq> 0 then 2 else 0) + unat (addr_len m),
    pf\<lparr>dest_pid := if m \<noteq> 0 then pid else 0, dest_addr := shown m a\<rparr>)"
proof (cases "m = 0")
  case True
  then show ?thesis using m(1) by (simp add: parse_dest_def shown_def mode_defs addr_lens)
next
  case False
  then have "get_pid p c = pid" "get_addr p m (c + 2) (dest_addr pf) = (shown m a, c + 2 + unat (addr_len m))"
    using assms(1) m(2,3) get_pid_ok [of p c pid] get_addr_ok [of p "c + 2" m a "dest_addr pf"] by (simp_all add: mode_defs)
  then show ?thesis using False m(1) by (simp add: parse_dest_def)
qed

lemma parse_src_ok:
  assumes "at_mem p c (put_pid (if has then 2 else 0) pid @ put_addr (unat (addr_len m)) a)"
    and m: "m = src_addr_mode (fr_fcf pf)" "mode_ok m" "length a = 8" "has \<longrightarrow> m \<noteq> 0"
  shows "parse_src p has has_dest (c, pf) = (c + (if has then 2 else 0) + unat (addr_len m),
    pf\<lparr>src_pid := if m = 0 then 0 else if has then pid else dest_pid pf,
       dest_pid := if has \<and> \<not> has_dest then pid else dest_pid pf, src_addr := shown m a\<rparr>)"
proof (cases "m = 0")
  case True
  then show ?thesis using m(1,4) by (simp add: parse_src_def shown_def mode_defs addr_lens)
next
  case False
  note m0 = this
  show ?thesis
  proof (cases has)
    case True
    then have "get_pid p c = pid" "get_addr p m (c + 2) old = (shown m a, c + 2 + unat (addr_len m))" for old
      using assms(1) m(2,3) m0 get_pid_ok [of p c pid] get_addr_ok [of p "c + 2" m a old] by (simp_all add: mode_defs)
    then show ?thesis using True m0 m(1) by (simp add: parse_src_def)
  next
    case False
    then have "get_addr p m c old = (shown m a, c + unat (addr_len m))" for old
      using assms(1) m(2,3) m0 get_addr_ok [of p c m a old] by (simp_all add: mode_defs put_pid_def)
    then show ?thesis using False m0 m(1) by (simp add: parse_src_def)
  qed
qed

text \<open>Frames of the versions before 802.15.4e that are not acknowledgements.\<close>

definition plain_frame :: "frame802154 \<Rightarrow> bool" where
  "plain_frame p \<longleftrightarrow> fcf_ok (fr_fcf p) \<and> frame_version (fr_fcf p) < FRAME802154_IEEE802154E_2012 \<and> frame_type (fr_fcf p) \<noteq> FRAME802154_ACKFRAME
    \<and> mode_ok (dest_addr_mode (fr_fcf p)) \<and> mode_ok (src_addr_mode (fr_fcf p)) \<and> length (dest_addr p) = 8 \<and> length (src_addr p) = 8"

text \<open>What the receiver of a frame has in its structure, which was \<open>pf\<close>.\<close>

definition read_frame :: "frame802154 \<Rightarrow> nat \<Rightarrow> frame802154 \<Rightarrow> frame802154" where
  "read_frame p len pf =
    (let d = dest_addr_mode (fr_fcf p); s = src_addr_mode (fr_fcf p); n = length (frame802154_create p)
     in \<lparr>dest_addr = shown d (dest_addr p), src_addr = shown s (src_addr p),
         fr_fcf = (fr_fcf p)\<lparr>panid_compression := if d \<noteq> 0 \<and> s \<noteq> 0 \<and> src_pid p = dest_pid p then 1 else 0\<rparr>,
         fr_seq = (if sequence_number_suppression (fr_fcf p) = 0 then fr_seq p else fr_seq pf),
         dest_pid = (if d \<noteq> 0 then dest_pid p else if s \<noteq> 0 then src_pid p else 0),
         src_pid = (if s \<noteq> 0 then src_pid p else 0), payload = n, payload_len = int len - int n\<rparr>)"

lemma create_plain:
  assumes "plain_frame p"
  defines "f \<equiv> (fr_fcf p)\<lparr>panid_compression := if dest_addr_mode (fr_fcf p) \<noteq> 0 \<and> src_addr_mode (fr_fcf p) \<noteq> 0 \<and> src_pid p = dest_pid p then 1 else 0\<rparr>"
  shows "field_len p = (p\<lparr>fr_fcf := f\<rparr>, \<lparr>seqno_len = (if sequence_number_suppression f = 0 then 1 else 0),
      dest_pid_len = (if dest_addr_mode f \<noteq> 0 then 2 else 0), dest_addr_len = addr_len (dest_addr_mode f),
      src_pid_len = (if panid_compression f = 0 \<and> src_addr_mode f \<noteq> 0 then 2 else 0), src_addr_len = addr_len (src_addr_mode f)\<rparr>)"
    and "fcf_ok f" and "frame802154_has_panid f = (panid_compression f = 0 \<and> src_addr_mode f \<noteq> 0, dest_addr_mode f \<noteq> 0)"
proof -
  from assms(1) have ok: "fcf_ok (fr_fcf p)" and v: "frame_version (fr_fcf p) < FRAME802154_IEEE802154E_2012"
    "frame_type (fr_fcf p) \<noteq> FRAME802154_ACKFRAME" by (simp_all add: plain_frame_def)
  show fok: "fcf_ok f" using ok by (simp add: fcf_ok_def f_def)
  have masks: "dest_addr_mode f AND 3 = dest_addr_mode f" "src_addr_mode f AND 3 = src_addr_mode f"
    "sequence_number_suppression f AND 1 = sequence_number_suppression f" using fok by (simp_all add: fcf_ok_def)
  have v': "frame_version f < FRAME802154_IEEE802154E_2012" "frame_type f \<noteq> FRAME802154_ACKFRAME"
    "dest_addr_mode f = dest_addr_mode (fr_fcf p)" "src_addr_mode f = src_addr_mode (fr_fcf p)" using v by (simp_all add: f_def)
  show has: "frame802154_has_panid f = (panid_compression f = 0 \<and> src_addr_mode f \<noteq> 0, dest_addr_mode f \<noteq> 0)"
    using v' masks by (auto simp: frame802154_has_panid_def)
  have "(if frame_version (fr_fcf p) < FRAME802154_IEEE802154E_2012
           then (fr_fcf p)\<lparr>panid_compression := if dest_addr_mode (fr_fcf p) AND 3 \<noteq> 0 \<and> src_addr_mode (fr_fcf p) AND 3 \<noteq> 0 \<and> src_pid p = dest_pid p then 1 else 0\<rparr>
           else fr_fcf p) = f" using v masks unfolding v' by (simp add: f_def)
  then show "field_len p = (p\<lparr>fr_fcf := f\<rparr>, \<lparr>seqno_len = (if sequence_number_suppression f = 0 then 1 else 0),
      dest_pid_len = (if dest_addr_mode f \<noteq> 0 then 2 else 0), dest_addr_len = addr_len (dest_addr_mode f),
      src_pid_len = (if panid_compression f = 0 \<and> src_addr_mode f \<noteq> 0 then 2 else 0), src_addr_len = addr_len (src_addr_mode f)\<rparr>)"
    unfolding field_len_def Let_def using has masks by simp
qed

text \<open>The length that \<open>frame802154_hdrlen\<close> announces is that of the header.\<close>

lemma hdrlen_create: "snd (frame802154_hdrlen p) = int (length (frame802154_create p))"
proof -
  obtain q l where q: "field_len p = (q, l)" by (cases "field_len p")
  then have "l = snd (field_len p)" by simp
  then have "seqno_len l = 0 \<or> seqno_len l = 1" "dest_pid_len l = 0 \<or> dest_pid_len l = 2" "src_pid_len l = 0 \<or> src_pid_len l = 2"
    by (simp_all add: field_len_def Let_def split_beta)
  then show ?thesis unfolding frame802154_hdrlen_def frame802154_create_def q Let_def prod.case
    by (elim disjE) simp_all
qed

theorem frame_read_back:
  assumes p: "plain_frame p" and mem: "at_mem mem 0 (frame802154_create p)" and len: "length (frame802154_create p) \<le> len"
  shows "frame802154_parse mem len pf = (length (frame802154_create p), read_frame p len pf)"
proof -
  define f where "f = (fr_fcf p)\<lparr>panid_compression := if dest_addr_mode (fr_fcf p) \<noteq> 0 \<and> src_addr_mode (fr_fcf p) \<noteq> 0 \<and> src_pid p = dest_pid p then 1 else 0\<rparr>"
  let ?d = "dest_addr_mode f" and ?s = "src_addr_mode f"
  let ?has = "panid_compression f = 0 \<and> ?s \<noteq> 0" and ?q = "if sequence_number_suppression f = 0 then [fr_seq p] else []"
  note c = create_plain [OF p, folded f_def]
  have ms: "mode_ok ?d" "mode_ok ?s" "length (dest_addr p) = 8" "length (src_addr p) = 8"
    "?d = dest_addr_mode (fr_fcf p)" "?s = src_addr_mode (fr_fcf p)" "sequence_number_suppression f = sequence_number_suppression (fr_fcf p)"
    using p by (simp_all add: plain_frame_def f_def)
  let ?D = "put_pid (if ?d \<noteq> 0 then 2 else 0) (dest_pid p) @ put_addr (unat (addr_len ?d)) (dest_addr p)"
  let ?S = "put_pid (if ?has then 2 else 0) (src_pid p) @ put_addr (unat (addr_len ?s)) (src_addr p)"
  let ?B = "[(frame_type f AND 7) OR push_bit 3 (security_enabled f AND 1) OR push_bit 4 (frame_pending f AND 1)
           OR push_bit 5 (ack_required f AND 1) OR push_bit 6 (panid_compression f AND 1),
         (sequence_number_suppression f AND 1) OR push_bit 1 (ie_list_present f AND 1) OR push_bit 2 (dest_addr_mode f AND 3)
           OR push_bit 4 (frame_version f AND 3) OR push_bit 6 (src_addr_mode f AND 3)]"
  have create: "frame802154_create p = ?B @ ?q @ ?D @ ?S" unfolding frame802154_create_def c(1) by simp
  let ?c1 = "2 + length ?q"
  let ?c2 = "?c1 + (if ?d \<noteq> 0 then 2 else 0) + unat (addr_len ?d)"
  have parts: "at_mem mem 0 ?B" "at_mem mem 2 ?q" "at_mem mem ?c1 ?D" "at_mem mem ?c2 ?S"
  proof -
    have at: "at_mem mem 0 (as @ bs @ cs @ ds) \<Longrightarrow> at_mem mem 0 as \<and> at_mem mem (length as) bs \<and> at_mem mem (length as + length bs) cs
      \<and> at_mem mem (length as + length bs + length cs) ds" for as bs cs ds by (simp add: add.assoc)
    have l: "length ?B = 2" "length ?D = (if ?d \<noteq> 0 then 2 else 0) + unat (addr_len ?d)" by simp_all
    from at [OF mem [unfolded create], unfolded l] show "at_mem mem 0 ?B" "at_mem mem 2 ?q" "at_mem mem ?c1 ?D" "at_mem mem ?c2 ?S"
      unfolding add.assoc by blast+
  qed
  have fcf: "parse_fcf mem = f" by (rule parse_fcf_ok [OF c(2) parts(1)])
  let ?pf1 = "pf\<lparr>fr_fcf := f, fr_seq := if sequence_number_suppression f = 0 then fr_seq p else fr_seq pf\<rparr>"
  have seq: "(if sequence_number_suppression f = 0 then (3, pf\<lparr>fr_fcf := f, fr_seq := mem 2\<rparr>) else (2, pf\<lparr>fr_fcf := f\<rparr>)) = (?c1, ?pf1)"
    using parts(2) by (cases "sequence_number_suppression f = 0") simp_all
  let ?pf2 = "?pf1\<lparr>dest_pid := if ?d \<noteq> 0 then dest_pid p else 0, dest_addr := shown ?d (dest_addr p)\<rparr>"
  have dest: "parse_dest mem (?d \<noteq> 0) (?c1, ?pf1) = (?c2, ?pf2)"
    using parse_dest_ok [OF parts(3) _ ms(1,3), of ?pf1] by simp
  have src: "parse_src mem ?has (?d \<noteq> 0) (?c2, ?pf2) = (?c2 + (if ?has then 2 else 0) + unat (addr_len ?s),
    ?pf2\<lparr>src_pid := if ?s = 0 then 0 else if ?has then src_pid p else dest_pid ?pf2,
       dest_pid := if ?has \<and> \<not> ?d \<noteq> 0 then src_pid p else dest_pid ?pf2, src_addr := shown ?s (src_addr p)\<rparr>)"
    using parse_src_ok [OF parts(4) _ ms(2,4), of ?pf2 "?d \<noteq> 0"] by simp
  have n: "?c2 + (if ?has then 2 else 0) + unat (addr_len ?s) = length (frame802154_create p)" unfolding create by simp
  have two: "\<not> len < 2" using len unfolding create by simp
  have "?s \<noteq> 0 \<Longrightarrow> \<not> ?has \<Longrightarrow> ?d \<noteq> 0 \<and> dest_pid p = src_pid p" by (simp add: f_def split: if_splits)
  then show ?thesis
    using len two unfolding frame802154_parse_def Let_def fcf seq c(3) prod.case dest src n read_frame_def ms(5,6) [symmetric] f_def [symmetric]
    by (auto simp: ms(7) f_def)
qed
section \<open>The framer\<close>

lemma all_ff_iff: "all_ff n a \<longleftrightarrow> (\<forall>i<n. a ! i = 0xff)"
  by (induction n) (auto simp: less_Suc_eq)

definition broadcast_addr :: linkaddr where
  "broadcast_addr = replicate 8 0xff"

lemma all_ff_long: "length a = 8 \<Longrightarrow> all_ff 8 a \<longleftrightarrow> a = broadcast_addr"
  by (auto simp: all_ff_iff broadcast_addr_def list_eq_iff_nth_eq)

text \<open>The attributes of a packet that can be sent, and the frame of it.\<close>

definition attrs_ok :: "packetbuf \<Rightarrow> bool" where
  "attrs_ok b \<longleftrightarrow> pb_seqno b \<noteq> 0 \<and> (ucast (pb_frame_type b) :: u8) AND 7 = ucast (pb_frame_type b) \<and> (ucast (pb_frame_type b) :: u8) \<noteq> FRAME802154_ACKFRAME
    \<and> (ucast (pb_pending b) :: u8) AND 1 = ucast (pb_pending b) \<and> (ucast (pb_mac_ack b) :: u8) AND 1 = ucast (pb_mac_ack b)
    \<and> length (pb_receiver b) = 8 \<and> pb_receiver b \<noteq> broadcast_addr"

definition frame_of :: "framer \<Rightarrow> linkaddr \<Rightarrow> packetbuf \<Rightarrow> frame802154" where
  "frame_of fr node_addr b = (frame_params fr node_addr b)\<lparr>fr_seq := ucast (pb_seqno b)\<rparr>"

lemmas frame_of_defs = frame_of_def frame_params_def null_frame_def Let_def packetbuf_holds_broadcast_def LINKADDR_SIZE_def
  FRAME802154_VERSION_def FRAME802154_IEEE802154_2006_def FRAME802154_IEEE802154E_2012_def FRAME802154_SUPPR_SEQNO_def

lemma frame_of_plain:
  assumes "attrs_ok b" "length node_addr = 8"
  shows "plain_frame (frame_of fr node_addr b)"
proof -
  have "(3 :: u8) AND 3 = 3" "(1 :: u8) AND 3 = 1" "(2 :: u8) AND 3 = 2" by simp_all
  then show ?thesis
    using assms by (auto simp: plain_frame_def attrs_ok_def fcf_ok_def frame_of_defs mode_defs word_le_nat_alt word_less_nat_alt)
qed

lemma frame_of_length:
  assumes "attrs_ok b" "length node_addr = 8"
  shows "length (frame802154_create (frame_of fr node_addr b)) = (if packetbuf_holds_broadcast b then 15 else 21)"
proof -
  let ?p = "frame_of fr node_addr b"
  have "int (length (frame802154_create ?p)) = (if packetbuf_holds_broadcast b then 15 else 21)"
    unfolding hdrlen_create [symmetric] frame802154_hdrlen_def create_plain(1) [OF frame_of_plain [OF assms]] prod.case snd_conv
    by (simp add: frame_of_defs FRAME802154_SHORTADDRMODE_def FRAME802154_LONGADDRMODE_def addr_lens word_le_nat_alt)
  then show ?thesis by (auto split: if_splits)
qed

lemma field_len_again: "field_len (fst (field_len q)) = field_len q"
proof (cases "frame_version (fr_fcf q) < FRAME802154_IEEE802154E_2012")
  case True
  then show ?thesis unfolding field_len_def Let_def by (simp add: split_beta)
next
  case False
  then show ?thesis unfolding field_len_def Let_def by (simp add: split_beta)
qed

lemma create_frame_ok:
  assumes "attrs_ok b" "length node_addr = 8" "mac_pan_id fr \<noteq> 0xffff"
  shows "\<exists>fr'. mac_pan_id fr' = mac_pan_id fr \<and> create_frame node_addr rand True b fr =
    (if (if packetbuf_holds_broadcast b then 15 else 21) + packetbuf_totlen b > PACKETBUF_SIZE then (FRAMER_FAILED, b, fr')
     else (if packetbuf_holds_broadcast b then 15 else 21, b\<lparr>pb_hdr := frame802154_create (frame_of fr node_addr b) @ pb_hdr b\<rparr>, fr'))"
proof -
  let ?fr = "if \<not> framer_initialized fr then fr\<lparr>framer_initialized := True, mac_dsn := ucast (rand AND 0xff)\<rparr> else fr"
  have seq: "pb_seqno b \<noteq> 0" using assms(1) by (simp add: attrs_ok_def)
  have params: "(frame_params ?fr node_addr b)\<lparr>fr_seq := ucast (pb_seqno b)\<rparr> = frame_of fr node_addr b"
    by (simp add: frame_of_def frame_params_def)
  obtain p n where hdr: "frame802154_hdrlen (frame_of fr node_addr b) = (p, n)" by (cases "frame802154_hdrlen (frame_of fr node_addr b)")
  have n: "n = (if packetbuf_holds_broadcast b then 15 else 21)"
    using hdrlen_create [of "frame_of fr node_addr b"] frame_of_length [OF assms(1,2), of fr] unfolding hdr by simp
  have fields: "p = fst (field_len (frame_of fr node_addr b))" using hdr by (simp add: frame802154_hdrlen_def split_beta)
  have again: "frame802154_create (fst (field_len q)) = frame802154_create q" for q
    unfolding frame802154_create_def field_len_again ..
  have "create_frame node_addr rand True b fr =
    (if (if packetbuf_holds_broadcast b then 15 else 21) + packetbuf_totlen b > PACKETBUF_SIZE then (FRAMER_FAILED, b, ?fr)
     else (if packetbuf_holds_broadcast b then 15 else 21, b\<lparr>pb_hdr := frame802154_create (frame_of fr node_addr b) @ pb_hdr b\<rparr>, ?fr))"
    using assms(3) seq unfolding create_frame_def Let_def
    by (simp add: params hdr n fields again)
  then show ?thesis by (intro exI [of _ ?fr]) simp
qed
section \<open>What reading depends on\<close>

text \<open>The length of a header, from its frame control field.\<close>

definition header_len :: "fcf \<Rightarrow> nat" where
  "header_len f =
    (let (has_src, has_dest) = frame802154_has_panid f; len = (\<lambda>m. if m = 2 then 2 else if m = 3 then 8 else 0)
     in (if sequence_number_suppression f = 0 then 3 else 2)
       + (if dest_addr_mode f \<noteq> 0 then (if has_dest then 2 else 0) + len (dest_addr_mode f) else 0)
       + (if src_addr_mode f \<noteq> 0 then (if has_src then 2 else 0) + len (src_addr_mode f) else 0))"

lemma get_addr_next: "snd (get_addr p m c old) = c + (if m = 2 then 2 else if m = 3 then 8 else 0)"
  by (simp add: get_addr_def FRAME802154_SHORTADDRMODE_def FRAME802154_LONGADDRMODE_def)

lemma parse_length:
  "fst (frame802154_parse p len pf) = (if len < 2 \<or> header_len (parse_fcf p) > len then 0 else header_len (parse_fcf p))"
proof (cases "len < 2")
  case True
  then show ?thesis by (simp add: frame802154_parse_def)
next
  case False
  have dest: "fst (parse_dest p d (c, q)) = c + (if dest_addr_mode (fr_fcf q) \<noteq> 0 then (if d then 2 else 0)
      + (if dest_addr_mode (fr_fcf q) = 2 then 2 else if dest_addr_mode (fr_fcf q) = 3 then 8 else 0) else 0)"
    "fr_fcf (snd (parse_dest p d (c, q))) = fr_fcf q" for c q d
    by (simp_all add: parse_dest_def get_addr_next Let_def split_beta)
  have src: "fst (parse_src p s d (c, q)) = c + (if src_addr_mode (fr_fcf q) \<noteq> 0 then (if s then 2 else 0)
      + (if src_addr_mode (fr_fcf q) = 2 then 2 else if src_addr_mode (fr_fcf q) = 3 then 8 else 0) else 0)" for c q s d
    by (simp add: parse_src_def get_addr_next Let_def split_beta)
  obtain c0 :: nat and q0 where q0: "(if sequence_number_suppression (parse_fcf p) = 0 then (3, pf\<lparr>fr_fcf := parse_fcf p, fr_seq := p 2\<rparr>)
      else (2, pf\<lparr>fr_fcf := parse_fcf p\<rparr>)) = (c0, q0)" by (meson surj_pair)
  then have f0: "c0 = (if sequence_number_suppression (parse_fcf p) = 0 then 3 else 2)" "fr_fcf q0 = parse_fcf p" by (auto split: if_splits)
  obtain s d where h: "frame802154_has_panid (parse_fcf p) = (s, d)" by (cases "frame802154_has_panid (parse_fcf p)")
  obtain c1 q1 where 1: "parse_dest p d (c0, q0) = (c1, q1)" by (cases "parse_dest p d (c0, q0)")
  obtain c2 q2 where 2: "parse_src p s d (c1, q1) = (c2, q2)" by (cases "parse_src p s d (c1, q1)")
  have "c2 = header_len (parse_fcf p)"
  proof -
    have "fr_fcf q1 = parse_fcf p" using dest(2) [of d c0 q0] by (simp add: 1 f0(2))
    then have "c2 = c1 + (if src_addr_mode (parse_fcf p) \<noteq> 0 then (if s then 2 else 0)
      + (if src_addr_mode (parse_fcf p) = 2 then 2 else if src_addr_mode (parse_fcf p) = 3 then 8 else 0) else 0)"
      using src [of s d c1 q1] by (simp add: 2)
    moreover have "c1 = c0 + (if dest_addr_mode (parse_fcf p) \<noteq> 0 then (if d then 2 else 0)
      + (if dest_addr_mode (parse_fcf p) = 2 then 2 else if dest_addr_mode (parse_fcf p) = 3 then 8 else 0) else 0)"
      using dest(1) [of d c0 q0] by (simp add: 1 f0(2))
    ultimately show ?thesis unfolding header_len_def h Let_def prod.case f0(1) [symmetric] by simp
  qed
  then show ?thesis using False unfolding frame802154_parse_def Let_def q0 prod.case h 1 2 by simp
qed

lemma get_addr_cong:
  assumes "mode_ok m" "m \<noteq> 0" "\<And>i. i < c + (if m = 2 then 2 else 8) \<Longrightarrow> p i = p' i"
  shows "get_addr p m c old = get_addr p' m c old'"
proof -
  have "map (\<lambda>i. p (c + 7 - i)) [0..<8] = map (\<lambda>i. p' (c + 7 - i)) [0..<8]" if "m = 3" using assms(3) that by auto
  with assms show ?thesis by (auto simp: get_addr_def mode_defs)
qed

lemma get_pid_cong: "(\<And>i. i < c + 2 \<Longrightarrow> p i = p' i) \<Longrightarrow> get_pid p c = get_pid p' c"
  by (simp add: get_pid_def)

text \<open>
  An accepted header is read from the frame alone: the memory behind it and the old content of the structure do not
  matter, except for the number when it is suppressed, and for addresses of the reserved mode.
\<close>

lemma parse_cong:
  assumes mem: "\<And>i. i < len \<Longrightarrow> p i = p' i" and modes: "2 \<le> len \<Longrightarrow> mode_ok (dest_addr_mode (parse_fcf p)) \<and> mode_ok (src_addr_mode (parse_fcf p))"
    and ok: "fst (frame802154_parse p len pf) \<noteq> 0"
  shows "frame802154_parse p' len pf' =
    (let (c, q) = frame802154_parse p len pf in (c, if sequence_number_suppression (fr_fcf q) = 0 then q else q\<lparr>fr_seq := fr_seq pf'\<rparr>))"
proof -
  define f where "f = parse_fcf p"
  have two: "\<not> len < 2" and len: "header_len f \<le> len" using ok by (auto simp: parse_length f_def split: if_splits)
  have f': "parse_fcf p' = f" using mem two by (simp add: f_def parse_fcf_def)
  obtain s d where h: "frame802154_has_panid f = (s, d)" by (cases "frame802154_has_panid f")
  have m: "mode_ok (dest_addr_mode f)" "mode_ok (src_addr_mode f)" using modes two by (simp_all add: f_def)
  have upt: "[0..<8] = [0, 1, 2, 3, 4, 5, 6, 7 :: nat]" by (simp add: upt_rec)
  have fm: "dest_addr_mode (parse_fcf p) = dest_addr_mode f" "src_addr_mode (parse_fcf p) = src_addr_mode f" by (simp_all add: f_def)
  show ?thesis
    using m len two unfolding frame802154_parse_def Let_def f' f_def [symmetric] h prod.case mode_defs header_len_def
    by (elim disjE; cases s; cases d; cases "sequence_number_suppression f = 0")
      (simp_all add: parse_dest_def parse_src_def get_addr_def get_pid_def upt mem FRAME802154_SHORTADDRMODE_def FRAME802154_LONGADDRMODE_def)
qed

lemma framer_parse_cong:
  assumes mem: "\<And>i. i < length (pb_data b) \<Longrightarrow> p i = p' i"
    and modes: "2 \<le> length (pb_data b) \<Longrightarrow> mode_ok (dest_addr_mode (parse_fcf p)) \<and> mode_ok (src_addr_mode (parse_fcf p))"
  shows "framer_parse fr p' frame' b = framer_parse fr p frame b"
proof (cases "fst (frame802154_parse p (length (pb_data b)) frame) = 0")
  case True
  have "parse_fcf p' = parse_fcf p" if "\<not> length (pb_data b) < 2"
  proof -
    have "p 0 = p' 0" "p 1 = p' 1" by (rule mem, use that in linarith)+
    then show ?thesis by (simp add: parse_fcf_def)
  qed
  then have "fst (frame802154_parse p' (length (pb_data b)) frame') = 0" using True unfolding parse_length by (auto split: if_splits)
  with True show ?thesis by (simp add: framer_parse_def split_beta)
next
  case False
  obtain c q where q: "frame802154_parse p (length (pb_data b)) frame = (c, q)" by (cases "frame802154_parse p (length (pb_data b)) frame")
  have "frame802154_parse p' (length (pb_data b)) frame' = (c, if sequence_number_suppression (fr_fcf q) = 0 then q else q\<lparr>fr_seq := fr_seq frame'\<rparr>)"
    using parse_cong [OF mem modes False] unfolding q by simp
  then show ?thesis by (simp add: framer_parse_def q Let_def)
qed

lemma truncated_header:
  assumes p: "plain_frame p" and mem: "at_mem mem 0 (frame802154_create p)" and len: "len < length (frame802154_create p)"
  shows "fst (frame802154_parse mem len pf) = 0"
proof -
  have "fst (frame802154_parse mem (length (frame802154_create p)) pf) = length (frame802154_create p)"
    using frame_read_back [OF p mem order.refl] by simp
  then have "header_len (parse_fcf mem) = length (frame802154_create p)"
    using len by (auto simp: parse_length split: if_splits)
  then show ?thesis using len by (simp add: parse_length)
qed

end
