(* ===== verification/Receive_Laws.thy ===== *)
theory Receive_Laws
  imports Mac_Receive Frame_Laws
begin

text \<open>
  The laws of receiving: the table of \<open>mac-sequence.c\<close> is the history of the senders cut to the 16 heard last, and what
  the receiver makes of a frame that another node has sent.
\<close>

section \<open>The table of the senders\<close>

text \<open>The entries of the senders, the sender heard last first.\<close>

fun latest :: "seqno_entry list \<Rightarrow> seqno_entry list" where
  "latest [] = []"
| "latest (e # h) = e # filter (\<lambda>x. sq_sender x \<noteq> sq_sender e) (latest h)"

definition table_of :: "seqno_entry list \<Rightarrow> seqno_entry list" where
  "table_of h = take MAX_SEQNOS (latest h @ received_seqnos_init)"

lemma table_length: "length (table_of h) = MAX_SEQNOS"
  by (simp add: table_of_def received_seqnos_init_def)

lemma shift_length [simp]: "length (shift_entries j t) = length t"
  by (induction j t rule: shift_entries.induct) simp_all

lemma shift_entries_nth:
  "j < length t \<Longrightarrow> k < length t \<Longrightarrow> shift_entries j t ! k = (if 0 < k \<and> k \<le> j then t ! (k - 1) else t ! k)"
proof (induction j t rule: shift_entries.induct)
  case (2 j t)
  then show ?case by (auto simp: nth_list_update le_Suc_eq)
qed auto

lemma register_list:
  assumes "j < length t"
  shows "(shift_entries j t)[0 := e] = e # take j t @ drop (Suc j) t"
proof (rule nth_equalityI)
  show "length ((shift_entries j t)[0 := e]) = length (e # take j t @ drop (Suc j) t)" using assms by simp
  fix k assume "k < length ((shift_entries j t)[0 := e])"
  then show "(shift_entries j t)[0 := e] ! k = (e # take j t @ drop (Suc j) t) ! k"
    using assms by (auto simp: nth_list_update shift_entries_nth nth_Cons nth_append split: nat.split)
qed

fun forget :: "linkaddr \<Rightarrow> seqno_entry list \<Rightarrow> seqno_entry list" where
  "forget a [] = []"
| "forget a (e # t) = (if sq_sender e = a then t else e # forget a t)"

lemma forget_take: "n < length t \<Longrightarrow> take n (forget a (take (Suc n) t)) = take n (forget a t)"
  by (induction a t arbitrary: n rule: forget.induct) (auto simp: take_Cons split: nat.split)

lemma forget_append: "forget a (s @ t) = (if a \<in> sq_sender ` set s then forget a s @ t else s @ forget a t)"
  by (induction s) auto

lemma forget_filter: "distinct (map sq_sender t) \<Longrightarrow> filter (\<lambda>x. sq_sender x \<noteq> a) t = forget a t"
proof (induction a t rule: forget.induct)
  case (2 a e t)
  then show ?case by (auto simp: filter_id_conv image_iff)
qed simp

lemma forget_absent: "a \<notin> sq_sender ` set t \<Longrightarrow> forget a t = t"
  by (induction a t rule: forget.induct) auto

lemma locate_forget:
  assumes "t \<noteq> []"
  shows "\<exists>j. locate_sender a t i = i + j + 1 \<and> j < length t \<and> take j t @ drop (Suc j) t = take (length t - 1) (forget a t)"
  using assms
proof (induction a t i rule: locate_sender.induct)
  case (2 a e t i)
  show ?case
  proof (cases "a = sq_sender e \<or> t = []")
    case True
    then show ?thesis by (intro exI [of _ 0]) auto
  next
    case False
    with 2 obtain j where j: "locate_sender a t (i + 1) = i + 1 + j + 1" "j < length t" "take j t @ drop (Suc j) t = take (length t - 1) (forget a t)"
      by auto
    then have "take (length t) (e # forget a t) = e # take j t @ drop (Suc j) t" using False by (cases t) auto
    with False j show ?thesis by (intro exI [of _ "Suc j"]) auto
  qed
qed simp

lemma register_forget:
  assumes "t \<noteq> []"
  shows "mac_sequence_register_seqno now b t =
    \<lparr>sq_sender = pb_sender b, sq_timestamp = now, sq_seqno = ucast (pb_seqno b)\<rparr> # take (length t - 1) (forget (pb_sender b) t)"
proof -
  from locate_forget [OF assms, of "pb_sender b" 0] obtain j where j: "locate_sender (pb_sender b) t 0 = j + 1" "j < length t"
    "take j t @ drop (Suc j) t = take (length t - 1) (forget (pb_sender b) t)" by auto
  then show ?thesis unfolding mac_sequence_register_seqno_def Let_def by (simp add: register_list)
qed

lemma latest_distinct: "distinct (map sq_sender (latest h))"
  by (induction h rule: latest.induct) (auto simp: distinct_map_filter)

text \<open>Registering a number is one more entry of the history.\<close>

lemma register_table:
  "mac_sequence_register_seqno now b (table_of h) = table_of (\<lparr>sq_sender = pb_sender b, sq_timestamp = now, sq_seqno = ucast (pb_seqno b)\<rparr> # h)"
proof -
  let ?a = "pb_sender b" and ?z = received_seqnos_init
  have z: "length ?z = 16" "take 15 (forget ?a ?z) = take 15 ?z" by (simp_all add: received_seqnos_init_def MAX_SEQNOS_def numeral_eq_Suc)
  have "table_of h \<noteq> []" using table_length [of h] by (auto simp: MAX_SEQNOS_def)
  then have "mac_sequence_register_seqno now b (table_of h) =
      \<lparr>sq_sender = ?a, sq_timestamp = now, sq_seqno = ucast (pb_seqno b)\<rparr> # take 15 (forget ?a (table_of h))"
    by (simp add: register_forget table_length MAX_SEQNOS_def)
  also have "take 15 (forget ?a (table_of h)) = take 15 (forget ?a (latest h @ ?z))"
    using forget_take [of 15 "latest h @ ?z" ?a] z(1) by (simp add: table_of_def MAX_SEQNOS_def)
  also have "\<dots> = take 15 (filter (\<lambda>x. sq_sender x \<noteq> ?a) (latest h) @ ?z)"
  proof (cases "?a \<in> sq_sender ` set (latest h)")
    case True
    then show ?thesis by (simp add: forget_append forget_filter [OF latest_distinct])
  next
    case False
    have "take n (forget ?a ?z) = take n ?z" if "n \<le> 15" for n using arg_cong [OF z(2), of "take n"] that by simp
    then show ?thesis using False by (simp add: forget_append forget_filter [OF latest_distinct] forget_absent)
  qed
  finally show ?thesis by (simp add: table_of_def MAX_SEQNOS_def)
qed

text \<open>What the table knows of a sender: the entry heard last, if fewer than 16 others were heard since.\<close>

definition heard :: "linkaddr \<Rightarrow> seqno_entry list \<Rightarrow> seqno_entry option" where
  "heard a h = find (\<lambda>e. sq_sender e = a) (take MAX_SEQNOS (latest h))"

lemma duplicate_find:
  "is_duplicate_loop a num now t \<longleftrightarrow> (case find (\<lambda>e. sq_sender e = a) t of None \<Rightarrow> False
    | Some e \<Rightarrow> num = ucast (sq_seqno e) \<and> now - sq_timestamp e \<le> SEQNO_MAX_AGE)"
  by (induction a num now t rule: is_duplicate_loop.induct) auto

lemma find_append: "find P (xs @ ys) = (case find P xs of None \<Rightarrow> find P ys | Some x \<Rightarrow> Some x)"
  by (induction xs) auto

lemma duplicate_heard:
  assumes "pb_sender b \<noteq> linkaddr_null"
  shows "mac_sequence_is_duplicate now b (table_of h) \<longleftrightarrow>
    (case heard (pb_sender b) h of None \<Rightarrow> False | Some e \<Rightarrow> pb_seqno b = ucast (sq_seqno e) \<and> now - sq_timestamp e \<le> SEQNO_MAX_AGE)"
proof -
  have "find (\<lambda>e. sq_sender e = pb_sender b) (take n received_seqnos_init) = None" for n
    using assms by (auto simp: find_None_iff received_seqnos_init_def dest: in_set_takeD)
  then have "find (\<lambda>e. sq_sender e = pb_sender b) (table_of h) = heard (pb_sender b) h"
    by (simp add: table_of_def heard_def find_append split: option.split)
  then show ?thesis by (simp add: mac_sequence_is_duplicate_def duplicate_find)
qed
section \<open>A frame on its way\<close>

text \<open>The packet as the receiver has it in \<open>packetbuf\<close>.\<close>

definition arrived :: "linkaddr \<Rightarrow> packetbuf \<Rightarrow> packetbuf" where
  "arrived a b = (packetbuf_with (pb_hdr b @ pb_data b))\<lparr>pb_frame_type := pb_frame_type b AND 0xff, pb_receiver := pb_receiver b,
     pb_sender := a, pb_pending := pb_pending b AND 0xff, pb_seqno := pb_seqno b AND 0xff\<rparr>"

lemma byte_twice: "ucast (ucast (x :: u16) :: u8) = x AND 0xff"
proof -
  have m: "(0xff :: u16) = mask 8" by (simp add: mask_eq_exp_minus_1)
  show ?thesis unfolding m by (rule bit_word_eqI) (auto simp: bit_simps)
qed

lemma u8_in_u16: "(ucast (x :: u8) :: u16) = ucast y \<longleftrightarrow> x = y"
proof
  assume eq: "(ucast x :: u16) = ucast y"
  show "x = y"
  proof (rule bit_word_eqI)
    fix n assume n: "n < LENGTH(8)"
    have "bit (ucast x :: u16) n = bit (ucast y :: u16) n" by (simp only: eq)
    with n show "bit x n = bit y n" by (simp add: bit_simps)
  qed
qed simp

lemma frame_of_fields:
  "frame_type (fr_fcf (frame_of fr a b)) = ucast (pb_frame_type b)" "frame_pending (fr_fcf (frame_of fr a b)) = ucast (pb_pending b)"
  "ack_required (fr_fcf (frame_of fr a b)) = (if packetbuf_holds_broadcast b then 0 else ucast (pb_mac_ack b))"
  "sequence_number_suppression (fr_fcf (frame_of fr a b)) = 0" "fr_seq (frame_of fr a b) = ucast (pb_seqno b)"
  "dest_pid (frame_of fr a b) = mac_pan_id fr" "src_addr (frame_of fr a b) = a"
  "src_addr_mode (fr_fcf (frame_of fr a b)) = FRAME802154_LONGADDRMODE"
  "dest_addr_mode (fr_fcf (frame_of fr a b)) = (if packetbuf_holds_broadcast b then FRAME802154_SHORTADDRMODE else FRAME802154_LONGADDRMODE)"
  "dest_addr (frame_of fr a b) = (if packetbuf_holds_broadcast b then (replicate 8 0)[0 := 0xff, 1 := 0xff] else pb_receiver b)"
  by (simp_all add: frame_of_defs word_le_nat_alt)

lemma read_frame_fields:
  fixes pf :: frame802154 and len :: nat and fr :: framer
  assumes "attrs_ok b" "length a = 8"
  defines "f \<equiv> read_frame (frame_of fr a b) len pf"
  shows "frame_type (fr_fcf f) = ucast (pb_frame_type b)" "frame_pending (fr_fcf f) = ucast (pb_pending b)"
    "ack_required (fr_fcf f) = (if packetbuf_holds_broadcast b then 0 else ucast (pb_mac_ack b))"
    "sequence_number_suppression (fr_fcf f) = 0" "fr_seq f = ucast (pb_seqno b)" "dest_pid f = mac_pan_id fr" "src_addr f = a"
    "dest_addr_mode (fr_fcf f) \<noteq> 0" "frame802154_is_broadcast_addr (dest_addr_mode (fr_fcf f)) (dest_addr f) \<longleftrightarrow> packetbuf_holds_broadcast b"
    "\<not> packetbuf_holds_broadcast b \<Longrightarrow> dest_addr f = pb_receiver b"
proof -
  have "all_ff 2 (linkaddr_null[0 := 0xff, Suc 0 := 0xff])" by (simp add: numeral_2_eq_2 linkaddr_null_def)
  moreover have "\<not> all_ff 8 (pb_receiver b)" using assms(1) all_ff_long by (simp add: attrs_ok_def)
  ultimately show "frame802154_is_broadcast_addr (dest_addr_mode (fr_fcf f)) (dest_addr f) \<longleftrightarrow> packetbuf_holds_broadcast b"
    by (auto simp: f_def read_frame_def Let_def frame_of_fields shown_def frame802154_is_broadcast_addr_def FRAME802154_SHORTADDRMODE_def FRAME802154_LONGADDRMODE_def)
qed (simp_all add: f_def read_frame_def Let_def frame_of_fields shown_def FRAME802154_SHORTADDRMODE_def FRAME802154_LONGADDRMODE_def)

lemma parse_sent:
  assumes b: "attrs_ok b" "length a = 8" and pan: "mac_pan_id fr' = mac_pan_id fr"
    and mem: "\<And>i. i < length d \<Longrightarrow> mem i = d ! i" and d: "d = frame802154_create (frame_of fr a b) @ pb_hdr b @ pb_data b"
  shows "frame802154_parse mem (length d) pf = (length (frame802154_create (frame_of fr a b)), read_frame (frame_of fr a b) (length d) pf)"
    and "framer_parse fr' mem frame (packetbuf_with d) = (int (length (frame802154_create (frame_of fr a b))), arrived a b)"
proof -
  let ?p = "frame_of fr a b" and ?n = "length (frame802154_create (frame_of fr a b))"
  have "at_mem mem 0 (frame802154_create ?p)" unfolding at_mem_def using mem unfolding d by (simp add: nth_append)
  then have parse: "frame802154_parse mem (length d) pf = (?n, read_frame ?p (length d) pf)" for pf
    using frame_read_back [OF frame_of_plain [OF b]] by (simp add: d)
  then show "frame802154_parse mem (length d) pf = (?n, read_frame ?p (length d) pf)" .
  have "?n \<noteq> 0" "?n \<le> length d" unfolding frame_of_length [OF b] by (simp_all add: d frame_of_length [OF b])
  moreover have "drop ?n d = pb_hdr b @ pb_data b" by (simp add: d)
  ultimately show "framer_parse fr' mem frame (packetbuf_with d) = (int ?n, arrived a b)"
    using parse [of frame] pan read_frame_fields [OF b, of fr "length d" frame]
    by (cases "packetbuf_holds_broadcast b")
      (simp_all add: framer_parse_def packetbuf_with_def arrived_def byte_twice packetbuf_holds_broadcast_def Let_def)
qed

text \<open>
  What the receiver does with a frame: it drops one for another node; a repetition is acknowledged and dropped;
  any other is acknowledged, noted and given to the network layer. \<open>ack\<close> is \<open>NULLRDC_SEND_802154_ACK\<close>.
\<close>

definition rx_spec :: "bool \<Rightarrow> linkaddr \<Rightarrow> linkaddr \<Rightarrow> u32 \<Rightarrow> u32 \<Rightarrow> packetbuf \<Rightarrow> receiver \<Rightarrow> receiver" where
  "rx_spec ack node_addr a now now' b s =
    (let p = arrived a b; s = s\<lparr>rx_packetbuf := p\<rparr>
     in if pb_receiver b \<noteq> node_addr \<and> \<not> packetbuf_holds_broadcast b then s
        else let dup = mac_sequence_is_duplicate now p (received_seqnos s);
                 s = (if dup then s else s\<lparr>received_seqnos := mac_sequence_register_seqno now' p (received_seqnos s)\<rparr>);
                 s = (if ack \<and> pb_frame_type b AND 0xff = ucast FRAME802154_DATAFRAME \<and> pb_mac_ack b AND 0xff \<noteq> 0 \<and> \<not> packetbuf_holds_broadcast b
                   then s\<lparr>radio_sent := radio_sent s @ [[FRAME802154_ACKFRAME, 0, ucast (pb_seqno b)]]\<rparr> else s)
             in if dup then s else s\<lparr>network_input := network_input s @ [p]\<rparr>)"

theorem sent_is_received:
  assumes b: "attrs_ok b" "length a = 8" and node: "node_addr \<noteq> linkaddr_null"
    and pan: "mac_pan_id (rx_framer s) = mac_pan_id fr"
  shows "frame_received ack node_addr now now' stale frame info154
      (frame802154_create (frame_of fr a b) @ pb_hdr b @ pb_data b) s = rx_spec ack node_addr a now now' b s"
proof -
  define d where "d = frame802154_create (frame_of fr a b) @ pb_hdr b @ pb_data b"
  define mem where "mem = (\<lambda>i. if i < length d then d ! i else stale i)"
  let ?s = "s\<lparr>rx_packetbuf := arrived a b\<rparr>"
  have len: "15 \<le> length d" using frame_of_length [OF b, of fr] by (simp add: d_def)
  have parse: "framer_parse (rx_framer s) mem frame (packetbuf_with d) = (int (length (frame802154_create (frame_of fr a b))), arrived a b)"
    "frame802154_parse mem (length d) info154 = (length (frame802154_create (frame_of fr a b)), read_frame (frame_of fr a b) (length d) info154)"
    by (rule parse_sent [OF b]; use pan in \<open>simp add: d_def mem_def\<close>)+
  have r: "pb_receiver (arrived a b) = pb_receiver b" "packetbuf_holds_broadcast (arrived a b) \<longleftrightarrow> packetbuf_holds_broadcast b"
    by (simp_all add: arrived_def packetbuf_holds_broadcast_def)
  have data: "length (pb_data (packetbuf_with d)) = length d" by (simp add: packetbuf_with_def)
  have small: "(ucast x :: u8) = ucast FRAME802154_DATAFRAME \<longleftrightarrow> x AND 0xff = ucast FRAME802154_DATAFRAME" "(ucast x :: u8) \<noteq> 0 \<longleftrightarrow> x AND 0xff \<noteq> 0" for x :: u16
    using u8_in_u16 [of "ucast x" FRAME802154_DATAFRAME] u8_in_u16 [of "ucast x" 0] unfolding byte_twice by simp_all
  have "frame_received ack node_addr now now' stale frame info154 d s = rx_spec ack node_addr a now now' b s"
  proof (cases "pb_receiver b \<noteq> node_addr \<and> \<not> packetbuf_holds_broadcast b")
    case True
    then show ?thesis using len
      by (simp add: frame_received_def mem_def [symmetric] packet_input_def rx_spec_def Let_def data parse(1) ACK_LEN_def r)
  next
    case False
    let ?dup = "mac_sequence_is_duplicate now (arrived a b) (received_seqnos s)"
    have us: "(pb_receiver b \<noteq> node_addr \<and> \<not> packetbuf_holds_broadcast b) = False" using False by blast
    have ack: "send_154_ack node_addr mem (length d) info154 z =
        (if pb_frame_type b AND 0xff = ucast FRAME802154_DATAFRAME \<and> pb_mac_ack b AND 0xff \<noteq> 0 \<and> \<not> packetbuf_holds_broadcast b
         then z\<lparr>radio_sent := radio_sent z @ [[FRAME802154_ACKFRAME, 0, ucast (pb_seqno b)]]\<rparr> else z)" for z
      unfolding send_154_ack_def parse(2) Let_def prod.case using False read_frame_fields [OF b, of fr "length d" info154] small
      by (cases "packetbuf_holds_broadcast b") simp_all
    have short: "length d \<noteq> ACK_LEN" using len by (simp add: ACK_LEN_def)
    have input: "packet_input ack node_addr now now' mem frame info154 (s\<lparr>rx_packetbuf := packetbuf_with d\<rparr>) =
      (let dup = ?dup; s = (if dup then ?s else ?s\<lparr>received_seqnos := mac_sequence_register_seqno now' (arrived a b) (received_seqnos s)\<rparr>);
           s = (if ack then send_154_ack node_addr mem (length d) info154 s else s)
       in if dup then s else s\<lparr>network_input := network_input s @ [arrived a b]\<rparr>)"
      unfolding packet_input_def Let_def by (simp add: data parse(1) r us short)
    show ?thesis unfolding frame_received_def mem_def [symmetric] input rx_spec_def Let_def ack us if_False
      by (cases ack) (simp_all add: if_bool_eq_conj)
  qed
  then show ?thesis unfolding d_def .
qed

end
