(* ===== verification/Mac_Radio.thy ===== *)
theory Mac_Radio
  imports Mac_Layer Receive_Laws
begin

text \<open>
  The MAC layer put together: the state after the start, the framer in front of a radio, and a reference radio on which
  the layer runs. The locale \<open>radio_clock\<close> says that the clock of the radio timer runs, and gives \<open>rdc_driver\<close> for
  the framer of the code.
\<close>

section \<open>Memory after the start\<close>

definition queuebuf_init :: "'r csma \<Rightarrow> 'r csma" where
  "queuebuf_init s = s\<lparr>buframmem := memb_init (buframmem s), bufmem := memb_init (bufmem s)\<rparr>"

text \<open>The static variables: pools of the configured sizes, an empty list, no timer.\<close>

definition static_pool :: "nat \<Rightarrow> memb \<Rightarrow> bool" where
  "static_pool n m \<longleftrightarrow> 0 < memb_size m \<and> 0 < memb_mem m \<and> memb_num m = n \<and> length (memb_count m) = n"

definition csma_static :: "'r csma \<Rightarrow> bool" where
  "csma_static s \<longleftrightarrow> static_pool CSMA_MAX_NEIGHBOR_QUEUES (neighbor_memb s) \<and> static_pool QUEUEBUF_NUM (packet_memb s)
    \<and> static_pool QUEUEBUF_NUM (metadata_memb s) \<and> static_pool QUEUEBUF_NUM (bufmem s) \<and> static_pool QUEUEBUF_NUM (buframmem s)
    \<and> lst_head (neighbor_list s) = 0 \<and> (\<forall>n. transmit_timer s n = None) \<and> sent_calls s = []"

lemma pool_start: "static_pool n m \<Longrightarrow> pool (memb_init m) n {}"
proof -
  assume s: "static_pool n m"
  have good: "memb_good (memb_init m)" "memb_used (memb_init m) = {}"
    using s by (intro memb_init_good; simp add: static_pool_def)+
  have "card (memb_blocks (memb_init m)) = n"
    using s memb_block_eq [OF good(1)] by (simp add: memb_blocks_def memb_init_def static_pool_def card_image inj_on_def)
  then show ?thesis using good by (simp add: pool_def)
qed

lemma csma_starts:
  assumes "csma_static s"
  shows "csma_ok [] (queuebuf_init (csma_init s))" "armed [] (queuebuf_init (csma_init s))" "sent_calls (queuebuf_init (csma_init s)) = []"
  using assms pool_start
  by (auto simp: csma_ok_def csma_mem_defs armed_def csma_static_def queuebuf_init_def csma_init_def owned_def lst_items_def)

section \<open>The framer in front of a radio\<close>

definition behind :: "('x \<Rightarrow> 'a \<times> 'x) \<Rightarrow> framer \<times> 'x \<Rightarrow> 'a \<times> (framer \<times> 'x)" where
  "behind f = (\<lambda>(fr, x). let (a, x) = f x in (a, (fr, x)))"

text \<open>\<open>random_rand\<close> is drawn at the first frame.\<close>

definition framer_802154_create :: "'x rdc_ops \<Rightarrow> packetbuf \<Rightarrow> framer \<times> 'x \<Rightarrow> packetbuf option \<times> (framer \<times> 'x)" where
  "framer_802154_create R b = (\<lambda>(fr, x).
     let (rand, x) = (if framer_initialized fr \<or> mac_pan_id fr = 0xffff then (0, x) else random_rand R x);
         (n, b, fr) = create_frame (linkaddr_node_addr R) rand True b fr
     in (if n < 0 then None else Some b, (fr, x)))"

definition framed :: "'x rdc_ops \<Rightarrow> (framer \<times> 'x) rdc_ops" where
  "framed R = \<lparr>framer_create = framer_802154_create R,
     radio_prepare = (\<lambda>f (fr, x). (fr, radio_prepare R f x)),
     receiving_packet = behind (receiving_packet R), pending_packet = behind (pending_packet R), channel_clear = behind (channel_clear R),
     radio_transmit = (\<lambda>n. behind (radio_transmit R n)), radio_read = (\<lambda>n. behind (radio_read R n)),
     rtimer_now = behind (rtimer_now R), random_rand = behind (random_rand R), linkaddr_node_addr = linkaddr_node_addr R\<rparr>"

text \<open>The time that \<open>RTIMER_NOW()\<close> returns after \<open>n\<close> readings.\<close>

fun reading :: "'x rdc_ops \<Rightarrow> nat \<Rightarrow> 'x \<Rightarrow> rtimer_clock" where
  "reading R 0 x = fst (rtimer_now R x)"
| "reading R (Suc n) x = reading R n (snd (rtimer_now R x))"

text \<open>The clock of the radio timer runs: it passes each time, read often enough.\<close>

locale radio_clock =
  fixes R :: "'x rdc_ops"
  assumes clock_runs: "\<exists>n. \<not> rtimer_clock_lt (reading R n x) t"
begin

lemma framed_waits: "\<exists>r'. wait_until (framed R) t r = Some r'"
proof -
  have "\<not> rtimer_clock_lt (reading R n x) t \<Longrightarrow> \<exists>r'. wait_until (framed R) t (fr, x) = Some r'" for n fr x
  proof (induction n arbitrary: x)
    case 0
    then show ?case by (subst wait_until.simps) (simp add: framed_def behind_def split_beta)
  next
    case (Suc n)
    from Suc.IH [of "snd (rtimer_now R x)"] Suc.prems show ?case
      by (subst wait_until.simps) (simp add: framed_def behind_def split_beta)
  qed
  then show ?thesis using clock_runs by (cases r) blast
qed

lemma framed_frames:
  assumes "pb_seqno b \<noteq> 0" "framer_create (framed R) b r = (Some b', r')"
  shows "pb_seqno b' = pb_seqno b \<and> 3 \<le> length (pb_hdr b')"
proof -
  obtain fr x where r: "r = (fr, x)" by (cases r)
  obtain rand x1 where d: "(if framer_initialized fr \<or> mac_pan_id fr = 0xffff then (0, x) else random_rand R x) = (rand, x1)"
    by (meson surj_pair)
  obtain n b1 fr' where c: "create_frame (linkaddr_node_addr R) rand True b fr = (n, b1, fr')"
    by (meson prod_cases3)
  then have c: "create_frame (linkaddr_node_addr R) rand True b fr = (n, b', fr')" "\<not> n < 0"
    using assms(2) by (auto simp: framed_def framer_802154_create_def r d split: if_splits)
  then obtain fr1 where "pb_seqno b' = pb_seqno b"
    "pb_hdr b' = frame802154_create (fst (frame802154_hdrlen ((frame_params fr1 (linkaddr_node_addr R) b)\<lparr>fr_seq := ucast (pb_seqno b)\<rparr>))) @ pb_hdr b"
    using assms(1) by (auto simp: create_frame_def Let_def FRAMER_FAILED_def split_beta split: if_splits)
  moreover have "3 \<le> length (frame802154_create p)" if "sequence_number_suppression (fr_fcf p) = 0" for p
    using that by (simp add: frame802154_create_def field_len_def Let_def split_beta)
  moreover have "sequence_number_suppression (fr_fcf (fst (frame802154_hdrlen p))) = sequence_number_suppression (fr_fcf p)" for p
    by (simp add: frame802154_hdrlen_def field_len_def Let_def split_beta)
  moreover have "sequence_number_suppression (fr_fcf (frame_params fr1 a b)) = 0" for a
    by (simp add: frame_of_defs word_le_nat_alt)
  ultimately show ?thesis by (simp add: trans_le_add1)
qed

lemma driver: "rdc_driver (framed R)"
  by unfold_locales (rule framed_waits, rule framed_frames)

end

sublocale radio_clock \<subseteq> mac: rdc_driver "framed R"
  by (rule driver)
section \<open>A reference radio\<close>

text \<open>
  A channel on which the neighbour acknowledges the \<open>k\<close>-th frame if the \<open>k\<close>-th element of a script says so; the clock
  goes on with each reading. It shows that the laws of the radio can hold, and runs the layer in the examples.
\<close>

record air =
  air_clock :: u32
  air_script :: "bool list"
  air_frame :: bytes
  air_ack :: "bytes option"
  air_log :: "bytes list"

definition air_transmit :: "nat \<Rightarrow> air \<Rightarrow> radio_tx \<times> air" where
  "air_transmit n x = (RADIO_TX_OK, x\<lparr>air_log := air_log x @ [air_frame x], air_script := tl (air_script x),
     air_ack := (if air_script x \<noteq> [] \<and> hd (air_script x) then Some [FRAME802154_ACKFRAME, 0, air_frame x ! 2] else None)\<rparr>)"

definition air_read :: "nat \<Rightarrow> air \<Rightarrow> bytes \<times> air" where
  "air_read n x = ((case air_ack x of None \<Rightarrow> [] | Some a \<Rightarrow> take n a), x\<lparr>air_ack := None\<rparr>)"

definition air_ops :: "linkaddr \<Rightarrow> air rdc_ops" where
  "air_ops a = \<lparr>framer_create = (\<lambda>b x. (Some b, x)), radio_prepare = (\<lambda>f x. x\<lparr>air_frame := f\<rparr>),
     receiving_packet = (\<lambda>x. (False, x)), pending_packet = (\<lambda>x. (air_ack x \<noteq> None, x)), channel_clear = (\<lambda>x. (True, x)),
     radio_transmit = air_transmit, radio_read = air_read,
     rtimer_now = (\<lambda>x. (air_clock x, x\<lparr>air_clock := air_clock x + 50\<rparr>)), random_rand = (\<lambda>x. (1, x)), linkaddr_node_addr = a\<rparr>"

definition air_start :: "bool list \<Rightarrow> air" where
  "air_start script = \<lparr>air_clock = 0, air_script = script, air_frame = [], air_ack = None, air_log = []\<rparr>"

lemma air_reading: "reading (air_ops a) n x = air_clock x + 50 * of_nat n"
  by (induction n arbitrary: x) (simp_all add: air_ops_def algebra_simps)

text \<open>
  A counter that is read every 50 ticks is at most 50 ticks behind any time when it first passes it.
\<close>

interpretation air: radio_clock "air_ops a" for a
proof
  fix x :: air and t :: u32
  define d where "d = unat (t - air_clock x)"
  define n where "n = (d + 49) div 50"
  have le: "d \<le> 50 * n" "50 * n < d + 50" unfolding n_def by presburger+
  have "reading (air_ops a) n x - t = of_nat (50 * n - d)"
    using le(1) by (simp add: air_reading of_nat_diff d_def)
  moreover have "50 * n - d < 50" using le by simp
  then have "sint (of_nat (50 * n - d) :: u32) \<ge> 0"
    by (simp add: signed_of_nat signed_take_bit_int_eq_self)
  ultimately show "\<exists>n. \<not> rtimer_clock_lt (reading (air_ops a) n x) t" unfolding rtimer_clock_lt_def by (metis not_less)
qed

definition zero_memb :: "nat \<Rightarrow> memb" where
  "zero_memb n = \<lparr>memb_size = 4, memb_num = n, memb_count = replicate n 0, memb_mem = 16, memory = (\<lambda>_. 0)\<rparr>"

definition csma_zero :: "'r \<Rightarrow> 'r csma" where
  "csma_zero r = \<lparr>neighbor_list = \<lparr>lst_head = 0, lst_next = (\<lambda>_. 0)\<rparr>, nb_addr = (\<lambda>_. linkaddr_null), transmit_timer = (\<lambda>_. None),
     transmissions = (\<lambda>_. 0), collisions = (\<lambda>_. 0), queued_packet_list = (\<lambda>_. 0), rdc_next = (\<lambda>_. 0), rdc_buf = (\<lambda>_. 0), rdc_ptr = (\<lambda>_. 0),
     md_sent = (\<lambda>_. 0), md_cptr = (\<lambda>_. 0), md_max_transmissions = (\<lambda>_. 0), qb_ram = (\<lambda>_. 0), qb_data = (\<lambda>_. packetbuf_with []),
     neighbor_memb = zero_memb CSMA_MAX_NEIGHBOR_QUEUES, packet_memb = zero_memb QUEUEBUF_NUM, metadata_memb = zero_memb QUEUEBUF_NUM,
     bufmem = zero_memb QUEUEBUF_NUM, buframmem = zero_memb QUEUEBUF_NUM, csma_initialized = False, seqno = 0, packetbuf = packetbuf_with [],
     rdc_radio = r, sent_calls = []\<rparr>"

lemma csma_zero_static: "csma_static (csma_zero r)"
  by (simp add: csma_static_def csma_zero_def static_pool_def zero_memb_def)

end
