(* ===== verification/Mac_Props.thy ===== *)
theory Mac_Props
  imports Mac_Radio
begin

text \<open>
  The properties of the MAC layer: the queues of \<open>csma.c\<close> over any radio whose clock runs, the frames of
  \<open>frame802154.c\<close>, and the way of a packet from the sender's framer to the receiver's network layer.
\<close>

section \<open>Concrete data\<close>

definition ex_a :: linkaddr where "ex_a = [1, 0, 0, 0, 0, 0, 0, 1]"
definition ex_b :: linkaddr where "ex_b = [2, 0, 0, 0, 0, 0, 0, 2]"

definition ex_packet :: "linkaddr \<Rightarrow> u8 \<Rightarrow> packetbuf" where
  "ex_packet a x = (packetbuf_with [x])\<lparr>pb_frame_type := 1, pb_receiver := a\<rparr>"

definition ex_sent :: "linkaddr \<Rightarrow> u8 \<Rightarrow> u16 \<Rightarrow> packetbuf" where
  "ex_sent a x n = (packetbuf_with [x])\<lparr>pb_frame_type := 1, pb_receiver := a, pb_seqno := n\<rparr>"

definition ex_framer :: framer where
  "ex_framer = \<lparr>mac_pan_id = 0xAABB, mac_dsn = 0, framer_initialized = False\<rparr>"

definition ex_static :: "bool list \<Rightarrow> (framer \<times> air) csma" where
  "ex_static script = csma_zero (ex_framer, air_start script)"

definition ex_receiver :: receiver where
  "ex_receiver = \<lparr>rx_framer = ex_framer, received_seqnos = received_seqnos_init, rx_packetbuf = packetbuf_with [], radio_sent = [], network_input = []\<rparr>"

lemma ex_static_ok: "csma_static (ex_static script)"
  by (simp add: ex_static_def csma_zero_static)

lemma ex_a_length: "length ex_a = 8"
  by (simp add: ex_a_def)

lemma ex_addrs: "ex_a \<noteq> linkaddr_null" "ex_b \<noteq> linkaddr_null"
  by code_simp+

lemma ex_sent_ok: "attrs_ok (ex_sent ex_b 7 1)" "attrs_ok (ex_sent linkaddr_null 8 2)"
  by code_simp+

section \<open>Sending\<close>

text \<open>C7. The queues of csma.c, linked lists over pools of memory with counters and timers, implement for each receiver a
  queue of packets. After the start, under every sequence of packets from the network layer and firings of the timers,
  no operation gets stuck, and the packets in the queues and the callbacks that were called are those of the abstract
  specification mac_spec: first in, first out for each receiver, a callback for each packet that leaves a queue, and an
  immediate MAC_TX_ERR exactly when the eight packet buffers or the two neighbours are used up. The radio is any radio
  whose clock runs.
\<close>

theorem mac_refines_queues:
  assumes "radio_clock R" "csma_static s"
  shows "\<exists>s' Q. mac_run (framed R) es (queuebuf_init (csma_init s)) = Some s' \<and> csma_ok Q s' \<and> armed Q s'
    \<and> mac_specs [] es (sent_calls s') (view Q s')"
  using rdc_driver.run_refines [OF radio_clock.driver [OF assms(1)] csma_starts(1,2) [OF assms(2)], of es] csma_starts(3) [OF assms(2)]
  by auto

lemma mac_refines_queues_witness:
  "\<exists>s' Q. mac_run (framed (air_ops ex_a)) [Send 1 2 (ex_packet ex_b 7), Timer 16] (queuebuf_init (csma_init (ex_static [False]))) = Some s'
    \<and> csma_ok Q s' \<and> armed Q s' \<and> mac_specs [] [Send 1 2 (ex_packet ex_b 7), Timer 16] (sent_calls s') (view Q s')"
  by (rule mac_refines_queues [OF air.radio_clock_axioms ex_static_ok])

text \<open>C17. No packet is lost and none is reported twice: at each time the callbacks that were called, together with those of
  the packets that wait in the queues, are exactly the callbacks that were given to send_packet.
\<close>

theorem packets_reported_once:
  assumes "radio_clock R" "csma_static s"
  shows "\<exists>s' Q. mac_run (framed R) es (queuebuf_init (csma_init s)) = Some s' \<and> csma_ok Q s'
    \<and> mset (map called (sent_calls s')) + mset (map (callback s') (packets Q)) = mset (sends es)"
proof -
  from rdc_driver.run_refines [OF radio_clock.driver [OF assms(1)] csma_starts(1,2) [OF assms(2)], of es]
  obtain s' Q where s': "mac_run (framed R) es (queuebuf_init (csma_init s)) = Some s'" "csma_ok Q s'"
    "mac_specs [] es (sent_calls s') (view Q s')" using csma_starts(3) [OF assms(2)] by auto
  with specs_conserve [OF s'(3)] show ?thesis by (auto simp: waiting_def view_packets)
qed

lemma packets_reported_once_witness:
  "\<exists>s' Q. mac_run (framed (air_ops ex_a)) [Send 1 2 (ex_packet ex_b 7), Timer 16] (queuebuf_init (csma_init (ex_static [False]))) = Some s'
    \<and> csma_ok Q s' \<and> mset (map called (sent_calls s')) + mset (map (callback s') (packets Q)) = {#(1, 2)#}"
  using packets_reported_once [OF air.radio_clock_axioms ex_static_ok, of ex_a "[Send 1 2 (ex_packet ex_b 7), Timer 16]" "[False]"] by simp

text \<open>C19. Every packet is reported in the end: of a neighbour's queue, the packets up to any position have had their
  callbacks called when its timer has fired six times for each transmission they are allowed and six times more for each
  packet, whatever else happens meanwhile and whatever the radio answers.
\<close>

theorem packets_reported_in_time:
  assumes "radio_clock R" "csma_ok Q s" "armed Q s" "(n, ps @ qs) \<in> set Q"
    and "sum_list (map (\<lambda>q. 6 * tries s q + 6) ps) \<le> length (filter ((=) (Timer n)) es)"
  shows "\<exists>s' calls. mac_run (framed R) es s = Some s' \<and> sent_calls s' = sent_calls s @ calls
    \<and> mset (map (callback s) ps) \<subseteq># mset (map called calls)"
proof (cases "ps = []")
  case True
  then show ?thesis using rdc_driver.run_refines [OF radio_clock.driver [OF assms(1)] assms(2,3), of es] by auto
next
  case False
  then show ?thesis
    using rdc_driver.run_progress [OF radio_clock.driver [OF assms(1)] assms(2-4), of es] assms(5) left_patience [of s n ps]
    by (auto simp: patience_def)
qed

lemma packets_reported_in_time_witness:
  "\<exists>s n q m. (\<exists>s' calls. mac_run (framed (air_ops ex_a)) (replicate m (Timer n)) s = Some s' \<and> sent_calls s' = sent_calls s @ calls
    \<and> mset (map (callback s) [q]) \<subseteq># mset (map called calls)) \<and> callback s q = (1, 2)"
proof -
  let ?s = "queuebuf_init (csma_init (ex_static []))"
  note start = csma_starts [OF ex_static_ok, of "[]"]
  from send_refines [OF start(1,2), of "framed (air_ops ex_a)" 1 2 "ex_packet ex_b 7", unfolded view_simps]
  obtain s :: "(framer \<times> air) csma" and Q calls where s: "csma_ok Q s" "armed Q s" "mac_spec [] (Send 1 2 (ex_packet ex_b 7)) calls (view Q s)" by blast
  from s(3) have "view Q s = [(ex_b, [(1, 2, [7])])]"
    by (cases rule: mac_spec.cases)
      (simp_all add: mac_room_def QUEUEBUF_NUM_def CSMA_MAX_NEIGHBOR_QUEUES_def ex_packet_def packetbuf_with_def)
  then obtain n q where q: "Q = [(n, [q])]" "packet_of s q = (1, 2, [7])" by (auto simp: view_def)
  then have "callback s q = (1, 2)" by (simp add: callback_packet)
  then show ?thesis
    using packets_reported_in_time [OF air.radio_clock_axioms s(1,2), of n "[q]" "[]" "replicate (6 * tries s q + 6) (Timer n)" ex_a] q
    by (intro exI [of _ s] exI [of _ n] exI [of _ q] exI [of _ "6 * tries s q + 6"]) simp
qed

section \<open>Frames\<close>

text \<open>C31. What frame802154_create writes for a frame of the versions before 802.15.4e, frame802154_parse reads: the addresses,
  identifiers, number and control field, whatever lies behind the frame in memory and whatever the structure held. A
  frame that is cut within its header is refused.
\<close>

theorem header_round_trip:
  assumes "plain_frame p"
  defines "h \<equiv> frame802154_create p"
  shows "let mem = (\<lambda>i. if i < length h then h ! i else rest i)
    in snd (frame802154_hdrlen p) = int (length h)
      \<and> (if length h \<le> len then frame802154_parse mem len pf = (length h, read_frame p len pf) else fst (frame802154_parse mem len pf) = 0)"
proof -
  have "at_mem (\<lambda>i. if i < length h then h ! i else rest i) 0 h" by (simp add: at_mem_def)
  then show ?thesis
    using frame_read_back [OF assms(1)] truncated_header [OF assms(1)] hdrlen_create [of p] unfolding h_def Let_def by auto
qed

lemma header_round_trip_witness:
  "let p = frame_of ex_framer ex_a (ex_sent ex_b 7 1); h = frame802154_create p; mem = (\<lambda>i. if i < length h then h ! i else 0)
    in snd (frame802154_hdrlen p) = int (length h)
      \<and> (if length h \<le> 22 then frame802154_parse mem 22 null_frame = (length h, read_frame p 22 null_frame) else fst (frame802154_parse mem 22 null_frame) = 0)"
  using header_round_trip [OF frame_of_plain [OF ex_sent_ok(1) ex_a_length], where rest = "\<lambda>_. 0" and len = 22 and pf = null_frame]
  unfolding Let_def by blast

text \<open>C32. The result of the framer for a received frame depends on the bytes of the frame alone, not on the memory behind
  it and not on the stack, although it reads the header before it compares lengths; the two address fields must not
  have the reserved mode 1.
\<close>

theorem parse_reads_the_frame:
  assumes "2 \<le> length (pb_data b) \<Longrightarrow> drop_bit 2 (pb_data b ! 1) AND 3 \<noteq> 1 \<and> drop_bit 6 (pb_data b ! 1) AND 3 \<noteq> 1"
  shows "framer_parse fr (\<lambda>i. if i < length (pb_data b) then pb_data b ! i else rest i) frame b =
    framer_parse fr (\<lambda>i. if i < length (pb_data b) then pb_data b ! i else rest' i) frame' b"
proof (rule framer_parse_cong)
  assume two: "2 \<le> length (pb_data b)"
  have mode: "mode_ok (x AND 3)" if "x AND 3 \<noteq> 1" for x :: u8
  proof -
    have "unat (x AND 3) < 4" using word_and_le1 [of x 3] by (simp add: word_le_nat_alt)
    then have "unat (x AND 3) \<in> {0, 1, 2, 3}" by auto
    moreover have "x AND 3 = of_nat (unat (x AND 3))" by simp
    ultimately obtain k where "x AND 3 = of_nat k" "k \<in> {0, 1, 2, 3 :: nat}" by blast
    then show ?thesis using that by (auto simp: mode_defs)
  qed
  show "mode_ok (dest_addr_mode (parse_fcf (\<lambda>i. if i < length (pb_data b) then pb_data b ! i else rest' i)))
      \<and> mode_ok (src_addr_mode (parse_fcf (\<lambda>i. if i < length (pb_data b) then pb_data b ! i else rest' i)))"
    using assms two mode by (auto simp: parse_fcf_def)
qed simp

lemma parse_reads_the_frame_witness:
  "framer_parse ex_framer (\<lambda>i. if i < 2 then [0x41, 0xd8] ! i else 0) null_frame (packetbuf_with [0x41, 0xd8]) =
    framer_parse ex_framer (\<lambda>i. if i < 2 then [0x41, 0xd8] ! i else 1) (null_frame\<lparr>fr_seq := 9\<rparr>) (packetbuf_with [0x41, 0xd8])"
proof -
  have d: "pb_data (packetbuf_with [0x41, 0xd8]) = [0x41, 0xd8]" "length [0x41, 0xd8 :: u8] = 2" by (simp_all add: packetbuf_with_def)
  show ?thesis
    by (rule parse_reads_the_frame [of "packetbuf_with [0x41, 0xd8]" ex_framer "\<lambda>_. 0" null_frame "\<lambda>_. 1" "null_frame\<lparr>fr_seq := 9\<rparr>", unfolded d]) simp
qed

section \<open>Receiving\<close>

text \<open>C18. A packet that a node sends as a data frame is what its receiver gets: with the framer of the sender, the radio
  transports the frame, and packet_input gives the network layer the same bytes with the sender's address and the low
  byte of the number, if the frame is for this node or for all and is no repetition; a frame for another node is
  dropped. A repetition is acknowledged again, but not delivered.
\<close>

theorem sent_frame_is_received:
  assumes "attrs_ok b" "length a = 8" "node_addr \<noteq> linkaddr_null" "mac_pan_id fr \<noteq> 0xffff" "mac_pan_id (rx_framer s) = mac_pan_id fr"
    and room: "21 + packetbuf_totlen b \<le> PACKETBUF_SIZE"
  shows "\<exists>n b' fr'. create_frame a rand True b fr = (n, b', fr') \<and> 0 < n
    \<and> frame_received ack node_addr now now' stale frame info154 (pb_hdr b' @ pb_data b') s = rx_spec ack node_addr a now now' b s"
proof -
  from create_frame_ok [OF assms(1,2,4), of rand] obtain fr' where
    "create_frame a rand True b fr = (if packetbuf_holds_broadcast b then 15 else 21, b\<lparr>pb_hdr := frame802154_create (frame_of fr a b) @ pb_hdr b\<rparr>, fr')"
    using room by (auto split: if_splits)
  then show ?thesis using sent_is_received [OF assms(1,2,3,5)] by simp
qed

lemma sent_frame_is_received_witness:
  "\<exists>n b' fr'. create_frame ex_a 5 True (ex_sent ex_b 7 1) ex_framer = (n, b', fr') \<and> 0 < n
    \<and> frame_received True ex_b 0 0 (\<lambda>_. 0) null_frame null_frame (pb_hdr b' @ pb_data b') ex_receiver = rx_spec True ex_b ex_a 0 0 (ex_sent ex_b 7 1) ex_receiver"
  by (rule sent_frame_is_received [OF ex_sent_ok(1) ex_a_length])
    (simp_all add: ex_addrs ex_framer_def ex_receiver_def packetbuf_totlen_def ex_sent_def packetbuf_with_def PACKETBUF_SIZE_def)

text \<open>The entries for frames and their times.\<close>

definition registered :: "(u32 \<times> packetbuf) list \<Rightarrow> seqno_entry list" where
  "registered h = map (\<lambda>(t, b). \<lparr>sq_sender = pb_sender b, sq_timestamp = t, sq_seqno = ucast (pb_seqno b)\<rparr>) h"

text \<open>C30. The table of 16 entries that is shifted in place is the history of the registered numbers: a frame counts as a
  repetition exactly when the frame registered last from its sender has the same number and is at most 20 s old, and
  fewer than 16 other senders were registered since.
\<close>

theorem duplicates_by_history:
  assumes "pb_sender b \<noteq> linkaddr_null"
  shows "mac_sequence_is_duplicate now b (foldr (\<lambda>(t, x). mac_sequence_register_seqno t x) h received_seqnos_init) \<longleftrightarrow>
    (case heard (pb_sender b) (registered h) of None \<Rightarrow> False
     | Some e \<Rightarrow> pb_seqno b = ucast (sq_seqno e) \<and> now - sq_timestamp e \<le> SEQNO_MAX_AGE)"
proof -
  have "foldr (\<lambda>(t, x). mac_sequence_register_seqno t x) h received_seqnos_init = table_of (registered h)"
  proof (induction h)
    case Nil
    show ?case by (simp add: registered_def table_of_def received_seqnos_init_def)
  next
    case (Cons x h)
    then show ?case by (simp add: registered_def register_table split: prod.split)
  qed
  then show ?thesis using duplicate_heard [OF assms] by simp
qed

lemma duplicates_by_history_witness:
  "mac_sequence_is_duplicate 5 (arrived ex_a (ex_sent ex_b 7 1))
      (foldr (\<lambda>(t, x). mac_sequence_register_seqno t x) [(3, arrived ex_b (ex_sent ex_a 8 4)), (2, arrived ex_a (ex_sent ex_b 7 1))] received_seqnos_init)"
proof -
  have "pb_sender (arrived ex_a (ex_sent ex_b 7 1)) \<noteq> linkaddr_null" by (simp add: arrived_def ex_addrs)
  from duplicates_by_history [OF this, of 5 "[(3, arrived ex_b (ex_sent ex_a 8 4)), (2, arrived ex_a (ex_sent ex_b 7 1))]"] show ?thesis
    by (simp add: registered_def heard_def arrived_def ex_a_def ex_b_def ex_sent_def packetbuf_with_def MAX_SEQNOS_def SEQNO_MAX_AGE_def CLOCK_CONF_SECOND_def)
qed

text \<open>The frame of a packet, received at a time.\<close>

definition receive_at :: "bool \<Rightarrow> framer \<Rightarrow> linkaddr \<Rightarrow> linkaddr \<Rightarrow> u32 \<times> packetbuf \<Rightarrow> receiver \<Rightarrow> receiver" where
  "receive_at ack fr a node_addr = (\<lambda>(t, b). frame_received ack node_addr t t (\<lambda>_. 0) null_frame null_frame
     (frame802154_create (frame_of fr a b) @ pb_hdr b @ pb_data b))"

lemma duplicate_front:
  assumes "t \<noteq> []"
  shows "mac_sequence_is_duplicate now b (mac_sequence_register_seqno t0 c t) \<longleftrightarrow>
    (if pb_sender b = pb_sender c then pb_seqno b = ucast (ucast (pb_seqno c) :: u8) \<and> now - t0 \<le> SEQNO_MAX_AGE
     else mac_sequence_is_duplicate now b (take (length t - 1) (forget (pb_sender c) t)))"
  unfolding register_forget [OF assms] by (simp add: mac_sequence_is_duplicate_def)

lemma receive_at_ok:
  fixes t :: u32 and ack :: bool
  assumes "attrs_ok b" "length a = 8" "node_addr \<noteq> linkaddr_null" "mac_pan_id (rx_framer s) = mac_pan_id fr"
    and "pb_receiver b = node_addr \<or> pb_receiver b = linkaddr_null"
  defines "s' \<equiv> receive_at ack fr a node_addr (t, b) s"
  shows "rx_framer s' = rx_framer s"
    and "received_seqnos s' = (if mac_sequence_is_duplicate t (arrived a b) (received_seqnos s) then received_seqnos s
      else mac_sequence_register_seqno t (arrived a b) (received_seqnos s))"
    and "network_input s' = network_input s @ (if mac_sequence_is_duplicate t (arrived a b) (received_seqnos s) then [] else [arrived a b])"
  using assms(5) unfolding s'_def receive_at_def prod.case sent_is_received [OF assms(1-4)] rx_spec_def Let_def
  by (auto simp: packetbuf_holds_broadcast_def)

text \<open>C21. The table keeps one number for each sender, so a repetition is recognised only when it follows the first copy
  directly. If a packet comes again within 20 s, because its acknowledgement was lost, it is dropped; but if the sender
  has transmitted a broadcast in between, as csma.c does when the timer of that queue fires first, the same packet is
  delivered twice.
\<close>

theorem repetition_after_broadcast_delivered:
  assumes b: "attrs_ok b" "pb_receiver b = node_addr" and c: "attrs_ok c" "pb_receiver c = linkaddr_null"
    and a: "length a = 8" "node_addr \<noteq> linkaddr_null" "mac_pan_id (rx_framer s) = mac_pan_id fr"
    and new: "\<not> mac_sequence_is_duplicate t (arrived a b) (received_seqnos s)" "received_seqnos s \<noteq> []"
    and other: "pb_seqno b AND 0xff \<noteq> pb_seqno c AND 0xff"
  shows "network_input (fold (receive_at ack fr a node_addr) [(t, b), (t + 1, b)] s) = network_input s @ [arrived a b]
    \<and> network_input (fold (receive_at ack fr a node_addr) [(t, b), (t + 1, c), (t + 2, b)] s)
      = network_input s @ [arrived a b, arrived a c, arrived a b]"
proof -
  let ?rx = "\<lambda>t b. receive_at ack fr a node_addr (t, b)"
  have masked: "ucast (ucast (x AND 0xff) :: u8) = (x AND 0xff :: u16)" for x by (simp add: byte_twice and.assoc)
  have again: "mac_sequence_is_duplicate now (arrived a x) (mac_sequence_register_seqno t0 (arrived a y) tab)
      \<longleftrightarrow> pb_seqno x AND 0xff = pb_seqno y AND 0xff \<and> now - t0 \<le> SEQNO_MAX_AGE" if "tab \<noteq> []" for now t0 x y tab
    using duplicate_front [OF that] by (simp add: arrived_def masked)
  have filled: "mac_sequence_register_seqno t0 x tab \<noteq> []" if "tab \<noteq> []" for t0 x tab
    using register_forget [OF that] by simp
  note rb = receive_at_ok [OF b(1) a(1,2)] and rc = receive_at_ok [OF c(1) a(1,2)]
  let ?s1 = "?rx t b s"
  have s1: "mac_pan_id (rx_framer ?s1) = mac_pan_id fr" "received_seqnos ?s1 = mac_sequence_register_seqno t (arrived a b) (received_seqnos s)"
    "network_input ?s1 = network_input s @ [arrived a b]"
    using rb [OF a(3), of ack t] b(2) new(1) a(3) by simp_all
  have "1 \<le> SEQNO_MAX_AGE" by (simp add: SEQNO_MAX_AGE_def CLOCK_CONF_SECOND_def)
  then have "mac_sequence_is_duplicate (t + 1) (arrived a b) (received_seqnos ?s1)" unfolding s1(2) by (simp add: again [OF new(2)])
  then have "network_input (?rx (t + 1) b ?s1) = network_input s @ [arrived a b]"
    using rb [OF s1(1), of ack "t + 1"] b(2) s1(3) by simp
  moreover
  let ?s2 = "?rx (t + 1) c ?s1"
  have "\<not> mac_sequence_is_duplicate (t + 1) (arrived a c) (received_seqnos ?s1)"
    unfolding s1(2) using other by (simp add: again [OF new(2)])
  then have s2: "mac_pan_id (rx_framer ?s2) = mac_pan_id fr" "received_seqnos ?s2 = mac_sequence_register_seqno (t + 1) (arrived a c) (received_seqnos ?s1)"
    "network_input ?s2 = network_input s @ [arrived a b, arrived a c]"
    using rc [OF s1(1), of ack "t + 1"] c(2) s1 by simp_all
  have "\<not> mac_sequence_is_duplicate (t + 2) (arrived a b) (received_seqnos ?s2)"
    unfolding s2(2) s1(2) using other by (simp add: again [OF filled [OF new(2)]])
  then have "network_input (?rx (t + 2) b ?s2) = network_input s @ [arrived a b, arrived a c, arrived a b]"
    using rb [OF s2(1), of ack "t + 2"] b(2) s2(3) by simp
  ultimately show ?thesis by simp
qed

lemma repetition_after_broadcast_delivered_witness:
  "network_input (fold (receive_at False ex_framer ex_a ex_b) [(5, ex_sent ex_b 7 1), (5 + 1, ex_sent ex_b 7 1)] ex_receiver) = [arrived ex_a (ex_sent ex_b 7 1)]
   \<and> network_input (fold (receive_at False ex_framer ex_a ex_b) [(5, ex_sent ex_b 7 1), (5 + 1, ex_sent linkaddr_null 8 2), (5 + 2, ex_sent ex_b 7 1)] ex_receiver)
      = [arrived ex_a (ex_sent ex_b 7 1), arrived ex_a (ex_sent linkaddr_null 8 2), arrived ex_a (ex_sent ex_b 7 1)]"
proof -
  have new: "\<not> mac_sequence_is_duplicate 5 (arrived ex_a (ex_sent ex_b 7 1)) (received_seqnos ex_receiver)" by code_simp
  have "received_seqnos ex_receiver \<noteq> []" "network_input ex_receiver = []" "mac_pan_id (rx_framer ex_receiver) = mac_pan_id ex_framer"
    "ex_b \<noteq> linkaddr_null" "pb_seqno (ex_sent ex_b 7 1) AND 0xff \<noteq> pb_seqno (ex_sent linkaddr_null 8 2) AND 0xff"
    "pb_receiver (ex_sent ex_b 7 1) = ex_b" "pb_receiver (ex_sent linkaddr_null 8 2) = linkaddr_null"
    by (simp_all add: ex_receiver_def received_seqnos_init_def MAX_SEQNOS_def ex_addrs ex_sent_def)
  then show ?thesis
    using repetition_after_broadcast_delivered [OF ex_sent_ok(1) _ ex_sent_ok(2) _ ex_a_length _ _ new, where fr = ex_framer and ack = False] by simp
qed

section \<open>Other observations\<close>

text \<open>A frame whose destination has the reserved mode 1 is taken or dropped by what is on the stack.\<close>

lemma reserved_mode_reads_stack:
  "length (network_input (frame_received False ex_b 0 0 (\<lambda>_. 0) (null_frame\<lparr>dest_addr := ex_b\<rparr>) null_frame
      [0x41, 0xd4, 1, 0xBB, 0xAA, 1, 0, 0, 0, 0, 0, 0, 1, 7] ex_receiver)) = 1"
  "network_input (frame_received False ex_b 0 0 (\<lambda>_. 0) (null_frame\<lparr>dest_addr := ex_a\<rparr>) null_frame
      [0x41, 0xd4, 1, 0xBB, 0xAA, 1, 0, 0, 0, 0, 0, 0, 1, 7] ex_receiver) = []"
  by code_simp+

text \<open>The identifier of an 802.15.4e frame without addresses is written, but not read.\<close>

lemma identifier_not_read:
  "let p = null_frame\<lparr>fr_fcf := (fr_fcf null_frame)\<lparr>frame_type := 1, frame_version := 2, panid_compression := 1\<rparr>, dest_pid := 0xAABB\<rparr>;
       h = frame802154_create p
   in length h = 5 \<and> fst (frame802154_parse (\<lambda>i. if i < 5 then h ! i else 0) 5 null_frame) = 3"
  by code_simp

end
