(* ===== verification/Sicslowpan.thy ===== *)
theory Sicslowpan
  imports Mac_Receive
begin

text \<open>
  The adaptation layer between IPv6 and the frames of the radio, \<open>core/net/ipv6/sicslowpan.c\<close>: headers are
  compressed (IPHC of RFC 6282, with compressed UDP headers), and datagrams that do not fit a frame are sent in
  fragments and put together again. The options are those of \<open>contiki-conf.h\<close> and \<open>project-conf.h\<close>: compression HC06
  from 63 bytes, one address context, fragmentation, a buffer of 900 bytes. The IPv6 datagram is the list of bytes in
  \<open>uip_buf\<close>; the numbers in its headers are in network order. The memory at \<open>packetbuf_ptr\<close> is a function
  \<open>pb\<close>, as headers are read before their length is compared with that of the frame; all headers together are
  shorter than what is left of the packet buffer there. \<open>None\<close> is an access out of bounds. Statistics, the signal
  strength and the sniffer callback, which nothing sets, are left out.
\<close>

section \<open>Constants\<close>

definition SICSLOWPAN_DISPATCH_IPV6 :: u8 where "SICSLOWPAN_DISPATCH_IPV6 = 0x41"
definition SICSLOWPAN_DISPATCH_IPHC :: u8 where "SICSLOWPAN_DISPATCH_IPHC = 0x60"
definition SICSLOWPAN_DISPATCH_FRAG1 :: u8 where "SICSLOWPAN_DISPATCH_FRAG1 = 0xc0"
definition SICSLOWPAN_DISPATCH_FRAGN :: u8 where "SICSLOWPAN_DISPATCH_FRAGN = 0xe0"
definition SICSLOWPAN_IPHC_FL_C :: u8 where "SICSLOWPAN_IPHC_FL_C = 0x10"
definition SICSLOWPAN_IPHC_TC_C :: u8 where "SICSLOWPAN_IPHC_TC_C = 0x08"
definition SICSLOWPAN_IPHC_NH_C :: u8 where "SICSLOWPAN_IPHC_NH_C = 0x04"
definition SICSLOWPAN_IPHC_CID :: u8 where "SICSLOWPAN_IPHC_CID = 0x80"
definition SICSLOWPAN_IPHC_SAC :: u8 where "SICSLOWPAN_IPHC_SAC = 0x40"
definition SICSLOWPAN_IPHC_SAM_BIT :: nat where "SICSLOWPAN_IPHC_SAM_BIT = 4"
definition SICSLOWPAN_IPHC_M :: u8 where "SICSLOWPAN_IPHC_M = 0x08"
definition SICSLOWPAN_IPHC_DAC :: u8 where "SICSLOWPAN_IPHC_DAC = 0x04"
definition SICSLOWPAN_IPHC_DAM_BIT :: nat where "SICSLOWPAN_IPHC_DAM_BIT = 0"
definition SICSLOWPAN_NHC_UDP_MASK :: u8 where "SICSLOWPAN_NHC_UDP_MASK = 0xF8"
definition SICSLOWPAN_NHC_UDP_ID :: u8 where "SICSLOWPAN_NHC_UDP_ID = 0xF0"
definition SICSLOWPAN_NHC_UDP_CHECKSUMC :: u8 where "SICSLOWPAN_NHC_UDP_CHECKSUMC = 0x04"
definition SICSLOWPAN_NHC_UDP_CS_P_00 :: u8 where "SICSLOWPAN_NHC_UDP_CS_P_00 = 0xF0"
definition SICSLOWPAN_NHC_UDP_CS_P_01 :: u8 where "SICSLOWPAN_NHC_UDP_CS_P_01 = 0xF1"
definition SICSLOWPAN_NHC_UDP_CS_P_10 :: u8 where "SICSLOWPAN_NHC_UDP_CS_P_10 = 0xF2"
definition SICSLOWPAN_NHC_UDP_CS_P_11 :: u8 where "SICSLOWPAN_NHC_UDP_CS_P_11 = 0xF3"
definition SICSLOWPAN_UDP_4_BIT_PORT_MIN :: u16 where "SICSLOWPAN_UDP_4_BIT_PORT_MIN = 0xF0B0"
definition SICSLOWPAN_UDP_8_BIT_PORT_MIN :: u16 where "SICSLOWPAN_UDP_8_BIT_PORT_MIN = 0xF000"
definition SICSLOWPAN_IPV6_HDR_LEN :: nat where "SICSLOWPAN_IPV6_HDR_LEN = 1"
definition SICSLOWPAN_FRAG1_HDR_LEN :: nat where "SICSLOWPAN_FRAG1_HDR_LEN = 4"
definition SICSLOWPAN_FRAGN_HDR_LEN :: nat where "SICSLOWPAN_FRAGN_HDR_LEN = 5"
definition SICSLOWPAN_FIXED_HDRLEN :: int where "SICSLOWPAN_FIXED_HDRLEN = 21"
definition COMPRESSION_THRESHOLD :: u16 where "COMPRESSION_THRESHOLD = 63"
definition MAC_MAX_PAYLOAD :: int where "MAC_MAX_PAYLOAD = 125"
definition SICSLOWPAN_FRAGMENT_BUFFERS :: nat where "SICSLOWPAN_FRAGMENT_BUFFERS = 12"
definition SICSLOWPAN_REASS_CONTEXTS :: nat where "SICSLOWPAN_REASS_CONTEXTS = 2"
definition SICSLOWPAN_FRAGMENT_SIZE :: nat where "SICSLOWPAN_FRAGMENT_SIZE = 110"
definition SICSLOWPAN_FIRST_FRAGMENT_SIZE :: nat where "SICSLOWPAN_FIRST_FRAGMENT_SIZE = SICSLOWPAN_FRAGMENT_SIZE + 38"
definition SICSLOWPAN_REASS_MAXAGE :: u32 where "SICSLOWPAN_REASS_MAXAGE = 8"
definition UIP_BUFSIZE :: nat where "UIP_BUFSIZE = 900"
definition UIP_IPH_LEN :: nat where "UIP_IPH_LEN = 40"
definition UIP_UDPH_LEN :: nat where "UIP_UDPH_LEN = 8"
definition UIP_PROTO_UDP :: u8 where "UIP_PROTO_UDP = 17"

definition unc_llconf :: bytes where "unc_llconf = [0x0f, 0x28, 0x22, 0x20]"
definition unc_ctxconf :: bytes where "unc_ctxconf = [0x00, 0x88, 0x82, 0x80]"
definition unc_mxconf :: bytes where "unc_mxconf = [0x0f, 0x25, 0x23, 0x21]"
definition llprefix :: bytes where "llprefix = [0xfe, 0x80]"
definition ttl_values :: bytes where "ttl_values = [0, 1, 64, 255]"

section \<open>State\<close>

record addr_context =
  ac_used :: u8
  ac_number :: u8
  ac_prefix :: bytes

record frag_info =
  fi_sender :: linkaddr
  fi_tag :: u16
  fi_len :: u16
  fi_reassembled_len :: u16
  fi_first_frag_len :: u16
  fi_first_frag :: bytes

record frag_buf =
  fb_index :: u8
  fb_offset :: u8
  fb_len :: u8
  fb_data :: bytes

text \<open>
  The timer of context \<open>i\<close> is at address \<open>i\<close> of \<open>reass_timers\<close>. Each call of \<open>tcpip_input\<close> is recorded with
  \<open>uip_len\<close> and the contents of \<open>uip_buf\<close>.
\<close>

record lowpan =
  uip_buf :: bytes
  uip_len :: u16
  frag_infos :: "frag_info list"
  frag_bufs :: "frag_buf list"
  reass_timers :: timers
  addr_contexts :: "addr_context list"
  my_tag :: u16
  last_tx_status :: mac_status
  tcpip_inputs :: "(u16 \<times> bytes) list"

text \<open>\<open>memcpy\<close> into a buffer.\<close>

definition write_at :: "nat \<Rightarrow> bytes \<Rightarrow> bytes \<Rightarrow> bytes" where
  "write_at p xs buf = take p buf @ xs @ drop (p + length xs) buf"

text \<open>A number in network order.\<close>

definition get16 :: "mem \<Rightarrow> nat \<Rightarrow> u16" where
  "get16 p i = push_bit 8 (ucast (p i)) OR ucast (p (i + 1))"

definition set16 :: "u16 \<Rightarrow> bytes" where
  "set16 v = [ucast (drop_bit 8 v AND 0xff), ucast (v AND 0xff)]"

section \<open>Addresses\<close>

definition ip_src :: "bytes \<Rightarrow> bytes" where "ip_src buf = take 16 (drop 8 buf)"
definition ip_dest :: "bytes \<Rightarrow> bytes" where "ip_dest buf = take 16 (drop 24 buf)"

text \<open>\<open>u16[i] == 0\<close>\<close>

definition zero16 :: "bytes \<Rightarrow> nat \<Rightarrow> bool" where
  "zero16 a i \<longleftrightarrow> a ! (2 * i) = 0 \<and> a ! (2 * i + 1) = 0"

definition uip_is_addr_unspecified :: "bytes \<Rightarrow> bool" where
  "uip_is_addr_unspecified a \<longleftrightarrow> zero16 a 0 \<and> zero16 a 1 \<and> zero16 a 2 \<and> zero16 a 3 \<and> zero16 a 4 \<and> zero16 a 5 \<and> zero16 a 6 \<and> zero16 a 7"

definition uip_is_addr_linklocal :: "bytes \<Rightarrow> bool" where
  "uip_is_addr_linklocal a \<longleftrightarrow> a ! 0 = 0xfe \<and> a ! 1 = 0x80"

definition uip_is_addr_mcast :: "bytes \<Rightarrow> bool" where
  "uip_is_addr_mcast a \<longleftrightarrow> a ! 0 = 0xFF"

definition uip_is_addr_mac_addr_based :: "bytes \<Rightarrow> linkaddr \<Rightarrow> bool" where
  "uip_is_addr_mac_addr_based a m \<longleftrightarrow> a ! 8 = m ! 0 XOR 0x02 \<and> a ! 9 = m ! 1 \<and> a ! 10 = m ! 2 \<and> a ! 11 = m ! 3
     \<and> a ! 12 = m ! 4 \<and> a ! 13 = m ! 5 \<and> a ! 14 = m ! 6 \<and> a ! 15 = m ! 7"

definition sicslowpan_is_iid_16_bit_compressable :: "bytes \<Rightarrow> bool" where
  "sicslowpan_is_iid_16_bit_compressable a \<longleftrightarrow> zero16 a 4 \<and> a ! 10 = 0 \<and> a ! 11 = 0xff \<and> a ! 12 = 0xfe \<and> a ! 13 = 0"

definition sicslowpan_is_mcast_addr_compressable48 :: "bytes \<Rightarrow> bool" where
  "sicslowpan_is_mcast_addr_compressable48 a \<longleftrightarrow> zero16 a 1 \<and> zero16 a 2 \<and> zero16 a 3 \<and> zero16 a 4 \<and> a ! 10 = 0"

definition sicslowpan_is_mcast_addr_compressable32 :: "bytes \<Rightarrow> bool" where
  "sicslowpan_is_mcast_addr_compressable32 a \<longleftrightarrow> zero16 a 1 \<and> zero16 a 2 \<and> zero16 a 3 \<and> zero16 a 4 \<and> zero16 a 5 \<and> a ! 12 = 0"

definition sicslowpan_is_mcast_addr_compressable8 :: "bytes \<Rightarrow> bool" where
  "sicslowpan_is_mcast_addr_compressable8 a \<longleftrightarrow> a ! 1 = 2 \<and> zero16 a 1 \<and> zero16 a 2 \<and> zero16 a 3 \<and> zero16 a 4 \<and> zero16 a 5
     \<and> zero16 a 6 \<and> a ! 14 = 0"

text \<open>The interface identifier of a link-layer address (\<open>uip-ds6.c\<close>).\<close>

definition uip_ds6_set_addr_iid :: "bytes \<Rightarrow> linkaddr \<Rightarrow> bytes" where
  "uip_ds6_set_addr_iid a lladdr = (take 8 a @ lladdr)[8 := lladdr ! 0 XOR 0x02]"

definition addr_context_lookup_by_prefix :: "addr_context list \<Rightarrow> bytes \<Rightarrow> addr_context option" where
  "addr_context_lookup_by_prefix ctxs a = find (\<lambda>c. ac_used c = 1 \<and> ac_prefix c = take 8 a) ctxs"

definition addr_context_lookup_by_number :: "addr_context list \<Rightarrow> u8 \<Rightarrow> addr_context option" where
  "addr_context_lookup_by_number ctxs n = find (\<lambda>c. ac_used c = 1 \<and> ac_number c = n) ctxs"

section \<open>Compression\<close>

text \<open>The mode bits, and the bytes in the packet.\<close>

definition compress_addr_64 :: "nat \<Rightarrow> bytes \<Rightarrow> linkaddr \<Rightarrow> u8 \<times> bytes" where
  "compress_addr_64 bitpos a lladdr =
    (if uip_is_addr_mac_addr_based a lladdr then (push_bit bitpos 3, [])
     else if sicslowpan_is_iid_16_bit_compressable a then (push_bit bitpos 2, take 2 (drop 14 a))
     else (push_bit bitpos 1, take 8 (drop 8 a)))"

definition compress_tcfl :: "bytes \<Rightarrow> u8 \<times> bytes" where
  "compress_tcfl ip =
    (let vtc = ip ! 0; tcflow = ip ! 1;
         tmp = push_bit 4 vtc OR drop_bit 4 tcflow;
         tmp = push_bit 6 (tmp AND 0x03) OR drop_bit 2 tmp;
         no_tc = (vtc AND 0x0F = 0 \<and> tcflow AND 0xF0 = 0)
     in if tcflow AND 0x0F = 0 \<and> zero16 ip 1
        then if no_tc then (SICSLOWPAN_IPHC_FL_C OR SICSLOWPAN_IPHC_TC_C, []) else (SICSLOWPAN_IPHC_FL_C, [tmp])
        else if no_tc then (SICSLOWPAN_IPHC_TC_C, ((tmp AND 0xc0) OR (tcflow AND 0x0F)) # take 2 (drop 2 ip))
        else (0, tmp # take 3 (drop 1 ip)))"

definition compress_ttl :: "bytes \<Rightarrow> u8 \<times> bytes" where
  "compress_ttl ip =
    (let ttl = ip ! 7 in if ttl = 1 then (1, []) else if ttl = 64 then (2, []) else if ttl = 255 then (3, []) else (0, [ttl]))"

text \<open>The bits in the second byte, those in the byte of the contexts, and the bytes in the packet.\<close>

definition compress_src :: "addr_context list \<Rightarrow> linkaddr \<Rightarrow> bytes \<Rightarrow> u8 \<times> u8 \<times> bytes" where
  "compress_src ctxs uip_lladdr ip =
    (let a = ip_src ip; d = ip_dest ip
     in if uip_is_addr_unspecified a then (SICSLOWPAN_IPHC_SAC, 0, [])
        else case addr_context_lookup_by_prefix ctxs a of
            Some c \<Rightarrow> let (m, xs) = compress_addr_64 SICSLOWPAN_IPHC_SAM_BIT a uip_lladdr
              in (SICSLOWPAN_IPHC_CID OR SICSLOWPAN_IPHC_SAC OR m, push_bit 4 (ac_number c), xs)
          | None \<Rightarrow> if uip_is_addr_linklocal a \<and> zero16 d 1 \<and> zero16 d 2 \<and> zero16 d 3
              then let (m, xs) = compress_addr_64 SICSLOWPAN_IPHC_SAM_BIT a uip_lladdr in (m, 0, xs)
              else (0, 0, a))"

definition compress_dest :: "addr_context list \<Rightarrow> linkaddr \<Rightarrow> bytes \<Rightarrow> u8 \<times> u8 \<times> bytes" where
  "compress_dest ctxs link_destaddr ip =
    (let d = ip_dest ip
     in if uip_is_addr_mcast d
        then if sicslowpan_is_mcast_addr_compressable8 d then (SICSLOWPAN_IPHC_M OR 3, 0, [d ! 15])
             else if sicslowpan_is_mcast_addr_compressable32 d then (SICSLOWPAN_IPHC_M OR 2, 0, d ! 1 # drop 13 d)
             else if sicslowpan_is_mcast_addr_compressable48 d then (SICSLOWPAN_IPHC_M OR 1, 0, d ! 1 # drop 11 d)
             else (SICSLOWPAN_IPHC_M, 0, d)
        else case addr_context_lookup_by_prefix ctxs d of
            Some c \<Rightarrow> let (m, xs) = compress_addr_64 SICSLOWPAN_IPHC_DAM_BIT d link_destaddr
              in (SICSLOWPAN_IPHC_DAC OR m, ac_number c, xs)
          | None \<Rightarrow> if uip_is_addr_linklocal d \<and> zero16 d 1 \<and> zero16 d 2 \<and> zero16 d 3
              then let (m, xs) = compress_addr_64 SICSLOWPAN_IPHC_DAM_BIT d link_destaddr in (m, 0, xs)
              else (0, 0, d))"

definition compress_udp :: "bytes \<Rightarrow> bytes" where
  "compress_udp ip =
    (let srcport = get16 (\<lambda>i. ip ! i) 40; destport = get16 (\<lambda>i. ip ! i) 42
     in (if srcport AND 0xfff0 = SICSLOWPAN_UDP_4_BIT_PORT_MIN \<and> destport AND 0xfff0 = SICSLOWPAN_UDP_4_BIT_PORT_MIN
         then [SICSLOWPAN_NHC_UDP_CS_P_11,
           ucast (push_bit 4 (srcport - SICSLOWPAN_UDP_4_BIT_PORT_MIN)) + ucast (destport - SICSLOWPAN_UDP_4_BIT_PORT_MIN)]
         else if destport AND 0xff00 = SICSLOWPAN_UDP_8_BIT_PORT_MIN
         then SICSLOWPAN_NHC_UDP_CS_P_01 # take 2 (drop 40 ip) @ [ucast (destport - SICSLOWPAN_UDP_8_BIT_PORT_MIN)]
         else if srcport AND 0xff00 = SICSLOWPAN_UDP_8_BIT_PORT_MIN
         then [SICSLOWPAN_NHC_UDP_CS_P_10, ucast (srcport - SICSLOWPAN_UDP_8_BIT_PORT_MIN)] @ take 2 (drop 42 ip)
         else SICSLOWPAN_NHC_UDP_CS_P_00 # take 4 (drop 40 ip))
        @ take 2 (drop 46 ip))"

text \<open>The bytes from \<open>packetbuf_ptr\<close> on, \<open>packetbuf_hdr_len\<close> of them, and \<open>uncomp_hdr_len\<close>.\<close>

definition compress_hdr_iphc :: "addr_context list \<Rightarrow> linkaddr \<Rightarrow> linkaddr \<Rightarrow> bytes \<Rightarrow> bytes \<times> nat" where
  "compress_hdr_iphc ctxs uip_lladdr link_destaddr ip =
    (let cid = (addr_context_lookup_by_prefix ctxs (ip_dest ip) \<noteq> None \<or> addr_context_lookup_by_prefix ctxs (ip_src ip) \<noteq> None);
         udp = (ip ! 6 = UIP_PROTO_UDP);
         (f, tcfl) = compress_tcfl ip;
         (t, ttl) = compress_ttl ip;
         (s, sci, src) = compress_src ctxs uip_lladdr ip;
         (d, dci, dest) = compress_dest ctxs link_destaddr ip
     in ([SICSLOWPAN_DISPATCH_IPHC OR f OR (if udp then SICSLOWPAN_IPHC_NH_C else 0) OR t,
          (if cid then SICSLOWPAN_IPHC_CID else 0) OR s OR d]
         @ (if cid then [sci OR dci] else []) @ tcfl @ (if udp then [] else [ip ! 6]) @ ttl @ src @ dest
         @ (if udp then compress_udp ip else []),
         UIP_IPH_LEN + (if udp then UIP_UDPH_LEN else 0)))"

definition compress_hdr_ipv6 :: "bytes \<Rightarrow> bytes \<times> nat" where
  "compress_hdr_ipv6 ip = (SICSLOWPAN_DISPATCH_IPV6 # take UIP_IPH_LEN ip, UIP_IPH_LEN)"

section \<open>Decompression\<close>

text \<open>The address and \<open>hc06_ptr\<close>, as an index behind \<open>packetbuf_ptr\<close>.\<close>

definition uncompress_addr :: "bytes \<Rightarrow> u8 \<Rightarrow> linkaddr \<Rightarrow> mem \<Rightarrow> nat \<Rightarrow> bytes \<times> nat" where
  "uncompress_addr prefix pref_post_count lladdr pb hc =
    (let prefcount = unat (drop_bit 4 pref_post_count); postcount = unat (pref_post_count AND 0x0f);
         prefcount = (if prefcount = 15 then 16 else prefcount); postcount = (if postcount = 15 then 16 else postcount);
         a = take prefcount prefix @ replicate (16 - (prefcount + postcount)) 0 @ map (\<lambda>i. pb (hc + i)) [0..<postcount]
     in if postcount > 0
        then (if postcount = 2 \<and> prefcount < 11 then a[11 := 0xff, 12 := 0xfe] else a, hc + postcount)
        else (if prefcount > 0 then uip_ds6_set_addr_iid a lladdr else a, hc))"

definition uncompress_tcfl :: "mem \<Rightarrow> u8 \<Rightarrow> nat \<Rightarrow> bytes \<Rightarrow> nat \<times> bytes" where
  "uncompress_tcfl pb iphc0 hc buf =
    (if iphc0 AND SICSLOWPAN_IPHC_FL_C = 0
     then if iphc0 AND SICSLOWPAN_IPHC_TC_C = 0
       then let tmp = pb hc
         in (hc + 4, write_at 0 [0x60 OR (drop_bit 2 tmp AND 0x0f),
               (drop_bit 2 tmp AND 0x30) OR push_bit 6 tmp OR (pb (hc + 1) AND 0x0f), pb (hc + 2), pb (hc + 3)] buf)
       else (hc + 3, write_at 0 [0x60, (pb hc AND 0x0F) OR (drop_bit 2 (pb hc) AND 0x30), pb (hc + 1), pb (hc + 2)] buf)
     else if iphc0 AND SICSLOWPAN_IPHC_TC_C = 0
       then (hc + 1, write_at 0 [0x60 OR (drop_bit 2 (pb hc) AND 0x0f),
               (push_bit 6 (pb hc) AND 0xC0) OR (drop_bit 2 (pb hc) AND 0x30), 0, 0] buf)
       else (hc, write_at 0 [0x60, 0, 0, 0] buf))"

definition uncompress_nh :: "mem \<Rightarrow> u8 \<Rightarrow> nat \<Rightarrow> bytes \<Rightarrow> nat \<times> bytes" where
  "uncompress_nh pb iphc0 hc buf = (if iphc0 AND SICSLOWPAN_IPHC_NH_C = 0 then (hc + 1, write_at 6 [pb hc] buf) else (hc, buf))"

definition uncompress_ttl :: "mem \<Rightarrow> u8 \<Rightarrow> nat \<Rightarrow> bytes \<Rightarrow> nat \<times> bytes" where
  "uncompress_ttl pb iphc0 hc buf =
    (if iphc0 AND 0x03 \<noteq> 0 then (hc, write_at 7 [ttl_values ! unat (iphc0 AND 0x03)] buf) else (hc + 1, write_at 7 [pb hc] buf))"

text \<open>The result is \<open>None\<close> if the context is not found.\<close>

definition uncompress_src :: "addr_context list \<Rightarrow> linkaddr \<Rightarrow> mem \<Rightarrow> nat \<Rightarrow> u8 \<Rightarrow> nat \<Rightarrow> (bytes \<times> nat) option" where
  "uncompress_src ctxs sender pb hdr iphc1 hc =
    (let tmp = drop_bit SICSLOWPAN_IPHC_SAM_BIT (iphc1 AND 0x30) AND 0x03
     in if iphc1 AND SICSLOWPAN_IPHC_SAC \<noteq> 0
        then let sci = (if iphc1 AND SICSLOWPAN_IPHC_CID \<noteq> 0 then drop_bit 4 (pb (hdr + 2)) else 0)
          in if tmp \<noteq> 0
             then map_option (\<lambda>c. uncompress_addr (ac_prefix c) (unc_ctxconf ! unat tmp) sender pb hc) (addr_context_lookup_by_number ctxs sci)
             else Some (uncompress_addr [] (unc_ctxconf ! 0) sender pb hc)
        else Some (uncompress_addr llprefix (unc_llconf ! unat tmp) sender pb hc))"

text \<open>
  A multicast address with a context is not implemented: the address in the buffer stays, which is the inner \<open>None\<close>.
\<close>

definition uncompress_dest :: "addr_context list \<Rightarrow> linkaddr \<Rightarrow> mem \<Rightarrow> nat \<Rightarrow> u8 \<Rightarrow> nat \<Rightarrow> (bytes option \<times> nat) option" where
  "uncompress_dest ctxs receiver pb hdr iphc1 hc =
    (let tmp = drop_bit SICSLOWPAN_IPHC_DAM_BIT (iphc1 AND 0x03) AND 0x03
     in if iphc1 AND SICSLOWPAN_IPHC_M \<noteq> 0
        then if iphc1 AND SICSLOWPAN_IPHC_DAC \<noteq> 0 then Some (None, hc)
          else let (prefix, hc) = (if tmp > 0 \<and> tmp < 3 then ([0xff, pb hc], hc + 1) else ([0xff, 0x02], hc));
                   (a, hc) = uncompress_addr prefix (unc_mxconf ! unat tmp) [] pb hc
            in Some (Some a, hc)
        else if iphc1 AND SICSLOWPAN_IPHC_DAC \<noteq> 0
        then let dci = (if iphc1 AND SICSLOWPAN_IPHC_CID \<noteq> 0 then pb (hdr + 2) AND 0x0f else 0)
          in map_option (\<lambda>c. let (a, hc) = uncompress_addr (ac_prefix c) (unc_ctxconf ! unat tmp) receiver pb hc in (Some a, hc))
               (addr_context_lookup_by_number ctxs dci)
        else let (a, hc) = uncompress_addr llprefix (unc_llconf ! unat tmp) receiver pb hc in Some (Some a, hc))"

definition uncompress_ports :: "mem \<Rightarrow> nat \<Rightarrow> nat \<times> bytes" where
  "uncompress_ports pb hc =
    (let nhc = pb hc AND SICSLOWPAN_NHC_UDP_CS_P_11
     in if nhc = SICSLOWPAN_NHC_UDP_CS_P_00 then (hc + 5, [pb (hc + 1), pb (hc + 2), pb (hc + 3), pb (hc + 4)])
        else if nhc = SICSLOWPAN_NHC_UDP_CS_P_01
        then (hc + 4, [pb (hc + 1), pb (hc + 2)] @ set16 (SICSLOWPAN_UDP_8_BIT_PORT_MIN + ucast (pb (hc + 3))))
        else if nhc = SICSLOWPAN_NHC_UDP_CS_P_10
        then (hc + 4, set16 (SICSLOWPAN_UDP_8_BIT_PORT_MIN + ucast (pb (hc + 1))) @ [pb (hc + 2), pb (hc + 3)])
        else (hc + 2, set16 (SICSLOWPAN_UDP_4_BIT_PORT_MIN + ucast (drop_bit 4 (pb (hc + 1))))
               @ set16 (SICSLOWPAN_UDP_4_BIT_PORT_MIN + ucast (pb (hc + 1) AND 0x0F))))"

text \<open>\<open>hc06_ptr\<close>, the length of the header before compression, and the buffer.\<close>

definition uncompress_udp :: "mem \<Rightarrow> u8 \<Rightarrow> nat \<Rightarrow> bytes \<Rightarrow> nat \<times> nat \<times> bytes" where
  "uncompress_udp pb iphc0 hc buf =
    (if iphc0 AND SICSLOWPAN_IPHC_NH_C \<noteq> 0 \<and> pb hc AND SICSLOWPAN_NHC_UDP_MASK = SICSLOWPAN_NHC_UDP_ID
     then let checksum_compressed = pb hc AND SICSLOWPAN_NHC_UDP_CHECKSUMC;
              (hc, ports) = uncompress_ports pb hc;
              buf = write_at 40 ports (write_at 6 [UIP_PROTO_UDP] buf);
              (hc, buf) = (if checksum_compressed = 0 then (hc + 2, write_at 46 [pb hc, pb (hc + 1)] buf) else (hc, buf))
       in (hc, UIP_IPH_LEN + UIP_UDPH_LEN, buf)
     else (hc, UIP_IPH_LEN, buf))"

text \<open>The fields of the length, of a whole datagram or of the one whose first fragment this is.\<close>

definition uncompress_len :: "nat \<Rightarrow> u16 \<Rightarrow> nat \<Rightarrow> nat \<Rightarrow> bytes \<Rightarrow> bytes" where
  "uncompress_len datalen ip_len hdr uncomp buf =
    (let len = (if ip_len = 0 then int datalen - int hdr + int uncomp - int UIP_IPH_LEN else uint ip_len - int UIP_IPH_LEN);
         buf = write_at 4 [word_of_int (len div 256), word_of_int len] buf
     in if buf ! 6 = UIP_PROTO_UDP then write_at 44 (take 2 (drop 4 buf)) buf else buf)"

text \<open>The buffer, \<open>packetbuf_hdr_len\<close> and \<open>uncomp_hdr_len\<close>. Without a context the rest of the function is skipped.\<close>

definition uncompress_hdr_iphc :: "addr_context list \<Rightarrow> packetbuf \<Rightarrow> mem \<Rightarrow> nat \<Rightarrow> u16 \<Rightarrow> bytes \<Rightarrow> bytes \<times> nat \<times> nat" where
  "uncompress_hdr_iphc ctxs b pb hdr ip_len buf =
    (let iphc0 = pb hdr; iphc1 = pb (hdr + 1);
         hc = hdr + 2 + (if iphc1 AND SICSLOWPAN_IPHC_CID \<noteq> 0 then 1 else 0);
         (hc, buf) = uncompress_tcfl pb iphc0 hc buf;
         (hc, buf) = uncompress_nh pb iphc0 hc buf;
         (hc, buf) = uncompress_ttl pb iphc0 hc buf
     in case uncompress_src ctxs (pb_sender b) pb hdr iphc1 hc of
         None \<Rightarrow> (buf, hdr, 0)
       | Some (a, hc) \<Rightarrow> let buf = write_at 8 a buf
           in case uncompress_dest ctxs (pb_receiver b) pb hdr iphc1 hc of
               None \<Rightarrow> (buf, hdr, 0)
             | Some (d, hc) \<Rightarrow>
                 let buf = (case d of None \<Rightarrow> buf | Some d \<Rightarrow> write_at 24 d buf);
                     (hc, uncomp, buf) = uncompress_udp pb iphc0 hc buf
                 in (uncompress_len (length (pb_data b)) ip_len hc uncomp buf, hc, uncomp))"

section \<open>Fragments\<close>

text \<open>The number of buffers that became free, and the state.\<close>

definition clear_fragments :: "nat \<Rightarrow> lowpan \<Rightarrow> nat \<times> lowpan" where
  "clear_fragments i s =
    (let hit = (\<lambda>f. fb_len f > 0 \<and> unat (fb_index f) = i)
     in (length (filter hit (frag_bufs s)),
         s\<lparr>frag_infos := (frag_infos s)[i := (frag_infos s ! i)\<lparr>fi_len := 0\<rparr>],
           frag_bufs := map (\<lambda>f. if hit f then f\<lparr>fb_len := 0\<rparr> else f) (frag_bufs s)\<rparr>))"

text \<open>The timer of a context is only asked if the context is used.\<close>

definition reass_expired :: "clock \<Rightarrow> nat \<Rightarrow> lowpan \<Rightarrow> bool \<times> lowpan" where
  "reass_expired clk i s =
    (if fi_len (frag_infos s ! i) > 0
     then let (e, t) = timer_expired clk i (reass_timers s) in (e, s\<lparr>reass_timers := t\<rparr>)
     else (False, s))"

fun timeout_loop :: "clock \<Rightarrow> nat \<Rightarrow> nat list \<Rightarrow> nat \<Rightarrow> lowpan \<Rightarrow> nat \<times> lowpan" where
  "timeout_loop clk not_context [] count s = (count, s)"
| "timeout_loop clk not_context (i # is) count s =
    (let (e, s) = (if i \<noteq> not_context then reass_expired clk i s else (False, s))
     in if e then let (n, s) = clear_fragments i s in timeout_loop clk not_context is (count + n) s
        else timeout_loop clk not_context is count s)"

definition timeout_fragments :: "clock \<Rightarrow> nat \<Rightarrow> lowpan \<Rightarrow> nat \<times> lowpan" where
  "timeout_fragments clk not_context s = timeout_loop clk not_context [0..<SICSLOWPAN_REASS_CONTEXTS] 0 s"

text \<open>The length that was stored, or \<open>-1\<close>.\<close>

definition store_fragment :: "mem \<Rightarrow> nat \<Rightarrow> nat \<Rightarrow> nat \<Rightarrow> u8 \<Rightarrow> lowpan \<Rightarrow> (int \<times> lowpan) option" where
  "store_fragment pb datalen hdr index offset s =
    (case find (\<lambda>i. fb_len (frag_bufs s ! i) = 0) [0..<length (frag_bufs s)] of
       None \<Rightarrow> Some (-1, s)
     | Some i \<Rightarrow>
         if datalen < hdr \<or> SICSLOWPAN_FRAGMENT_SIZE < datalen - hdr then None
         else Some (int (datalen - hdr), s\<lparr>frag_bufs := (frag_bufs s)[i :=
           \<lparr>fb_index = of_nat index, fb_offset = offset, fb_len = of_nat (datalen - hdr),
            fb_data = write_at 0 (map pb [hdr..<datalen]) (fb_data (frag_bufs s ! i))\<rparr>]\<rparr>))"

text \<open>The loop of a first fragment: contexts that are too old are freed, the first free one is remembered.\<close>

fun claim_loop :: "clock \<Rightarrow> nat list \<Rightarrow> nat option \<Rightarrow> lowpan \<Rightarrow> nat option \<times> lowpan" where
  "claim_loop clk [] found s = (found, s)"
| "claim_loop clk (i # is) found s =
    (let (e, s) = reass_expired clk i s; s = (if e then snd (clear_fragments i s) else s)
     in claim_loop clk is (if found = None \<and> fi_len (frag_infos s ! i) = 0 then Some i else found) s)"

definition add_first_fragment :: "clock \<Rightarrow> packetbuf \<Rightarrow> u16 \<Rightarrow> u16 \<Rightarrow> lowpan \<Rightarrow> nat option \<times> lowpan" where
  "add_first_fragment clk b tag frag_size s =
    (let (found, s) = claim_loop clk [0..<SICSLOWPAN_REASS_CONTEXTS] None s
     in case found of None \<Rightarrow> (None, s)
        | Some i \<Rightarrow> (Some i, s\<lparr>frag_infos := (frag_infos s)[i := (frag_infos s ! i)\<lparr>fi_len := frag_size, fi_tag := tag, fi_sender := pb_sender b\<rparr>],
            reass_timers := timer_set clk i (SICSLOWPAN_REASS_MAXAGE * CLOCK_CONF_SECOND div 16) (reass_timers s)\<rparr>))"

definition add_next_fragment :: "clock \<Rightarrow> packetbuf \<Rightarrow> mem \<Rightarrow> nat \<Rightarrow> u16 \<Rightarrow> u8 \<Rightarrow> lowpan \<Rightarrow> (nat option \<times> lowpan) option" where
  "add_next_fragment clk b pb hdr tag offset s =
    (case find (\<lambda>i. fi_tag (frag_infos s ! i) = tag \<and> fi_len (frag_infos s ! i) > 0 \<and> fi_sender (frag_infos s ! i) = pb_sender b)
         [0..<SICSLOWPAN_REASS_CONTEXTS] of
       None \<Rightarrow> Some (None, s)
     | Some i \<Rightarrow> do {
         (len, s) \<leftarrow> store_fragment pb (length (pb_data b)) hdr i offset s;
         (len, s) \<leftarrow> (if len < 0 then let (n, s) = timeout_fragments clk i s
            in if n > 0 then store_fragment pb (length (pb_data b)) hdr i offset s else Some (len, s)
          else Some (len, s));
         if len > 0
         then Some (Some i, s\<lparr>frag_infos := (frag_infos s)[i := (frag_infos s ! i)\<lparr>fi_reassembled_len :=
                fi_reassembled_len (frag_infos s ! i) + word_of_int len\<rparr>]\<rparr>)
         else Some (None, s) })"

definition add_fragment :: "clock \<Rightarrow> packetbuf \<Rightarrow> mem \<Rightarrow> nat \<Rightarrow> u16 \<Rightarrow> u16 \<Rightarrow> u8 \<Rightarrow> lowpan \<Rightarrow> (nat option \<times> lowpan) option" where
  "add_fragment clk b pb hdr tag frag_size offset s =
    (if offset = 0 then Some (add_first_fragment clk b tag frag_size s) else add_next_fragment clk b pb hdr tag offset s)"

text \<open>The copies into \<open>uip_buf\<close> of the buffers of a context.\<close>

fun copy_bufs :: "nat \<Rightarrow> frag_buf list \<Rightarrow> bytes \<Rightarrow> bytes option" where
  "copy_bufs i [] buf = Some buf"
| "copy_bufs i (f # fs) buf =
    (if fb_len f > 0 \<and> unat (fb_index f) = i
     then let p = unat (push_bit 3 (ucast (fb_offset f)) :: u16); n = unat (fb_len f)
       in if length buf < p + n then None else copy_bufs i fs (write_at p (take n (fb_data f)) buf)
     else copy_bufs i fs buf)"

definition copy_frags2uip :: "nat \<Rightarrow> lowpan \<Rightarrow> lowpan option" where
  "copy_frags2uip i s =
    (let n = unat (fi_first_frag_len (frag_infos s ! i)); first = fi_first_frag (frag_infos s ! i)
     in if length (uip_buf s) < n \<or> length first < n then None
        else do {
          buf \<leftarrow> copy_bufs i (frag_bufs s) (write_at 0 (take n first) (uip_buf s));
          Some (snd (clear_fragments i (s\<lparr>uip_buf := buf\<rparr>))) })"

section \<open>Input\<close>

definition tcpip_input :: "u16 \<Rightarrow> lowpan \<Rightarrow> lowpan" where
  "tcpip_input len s = s\<lparr>uip_len := len, tcpip_inputs := tcpip_inputs s @ [(len, uip_buf s)]\<rparr>"

text \<open>
  The part behind the label \<open>copypayload\<close>: of a whole datagram (no context), a first fragment or a next one, which is
  stored already; \<open>first\<close> tells them apart.
\<close>

definition too_long :: "nat \<Rightarrow> nat \<Rightarrow> u8 \<Rightarrow> nat \<Rightarrow> bool" where
  "too_long datalen hdr offset uncomp \<longleftrightarrow>
    datalen < hdr \<or> UIP_BUFSIZE < uncomp + unat (push_bit 3 (ucast offset) :: u16) + (datalen - hdr)"

definition whole_received :: "packetbuf \<Rightarrow> mem \<Rightarrow> nat \<Rightarrow> nat \<Rightarrow> bytes \<Rightarrow> lowpan \<Rightarrow> lowpan option" where
  "whole_received b pb hdr uncomp buffer s =
    (let datalen = length (pb_data b); s = s\<lparr>uip_buf := buffer\<rparr>
     in if too_long datalen hdr 0 uncomp then Some s
        else if length buffer < uncomp + (datalen - hdr) then None
        else Some (tcpip_input (of_nat (datalen - hdr + uncomp)) (s\<lparr>uip_buf := write_at uncomp (map pb [hdr..<datalen]) buffer\<rparr>)))"

definition first_received :: "nat \<Rightarrow> u16 \<Rightarrow> packetbuf \<Rightarrow> mem \<Rightarrow> nat \<Rightarrow> nat \<Rightarrow> bytes \<Rightarrow> lowpan \<Rightarrow> lowpan option" where
  "first_received i frag_size b pb hdr uncomp buffer s =
    (let datalen = length (pb_data b); s = s\<lparr>frag_infos := (frag_infos s)[i := (frag_infos s ! i)\<lparr>fi_first_frag := buffer\<rparr>]\<rparr>
     in if too_long datalen hdr 0 uncomp then Some s
        else if length buffer < uncomp + (datalen - hdr) then None
        else let buffer = write_at uncomp (map pb [hdr..<datalen]) buffer; n = of_nat (uncomp + (datalen - hdr));
                 c = (frag_infos s ! i)\<lparr>fi_first_frag := buffer\<rparr>;
                 c = (if frag_size > 0 then c\<lparr>fi_reassembled_len := n, fi_first_frag_len := n\<rparr> else c)
          in Some (s\<lparr>frag_infos := (frag_infos s)[i := c]\<rparr>))"

definition next_received :: "nat \<Rightarrow> u16 \<Rightarrow> u8 \<Rightarrow> packetbuf \<Rightarrow> lowpan \<Rightarrow> lowpan option" where
  "next_received i frag_size offset b s =
    (let datalen = length (pb_data b); last = (fi_reassembled_len (frag_infos s ! i) \<ge> frag_size)
     in if too_long datalen SICSLOWPAN_FRAGN_HDR_LEN offset 0 then Some s
        else if \<not> last then Some s
        else do {
          s \<leftarrow> (if frag_size > 0
            then copy_frags2uip i (s\<lparr>frag_infos := (frag_infos s)[i := (frag_infos s ! i)\<lparr>fi_reassembled_len := frag_size\<rparr>]\<rparr>)
            else Some s);
          Some (tcpip_input frag_size s) })"

text \<open>The header behind a fragmentation header into the buffer, or \<open>None\<close> for an unknown one.\<close>

definition read_header :: "packetbuf \<Rightarrow> mem \<Rightarrow> nat \<Rightarrow> u16 \<Rightarrow> bytes \<Rightarrow> lowpan \<Rightarrow> (bytes \<times> nat \<times> nat) option" where
  "read_header b pb hdr frag_size buffer s =
    (if pb hdr AND 0xe0 = SICSLOWPAN_DISPATCH_IPHC then Some (uncompress_hdr_iphc (addr_contexts s) b pb hdr frag_size buffer)
     else if pb hdr = SICSLOWPAN_DISPATCH_IPV6
     then let hdr = hdr + SICSLOWPAN_IPV6_HDR_LEN
       in Some (write_at 0 (map (\<lambda>i. pb (hdr + i)) [0..<UIP_IPH_LEN]) buffer, hdr + UIP_IPH_LEN, UIP_IPH_LEN)
     else None)"

definition sicslowpan_input :: "clock \<Rightarrow> packetbuf \<Rightarrow> mem \<Rightarrow> lowpan \<Rightarrow> lowpan option" where
  "sicslowpan_input clk b pb s =
    (let dispatch = ucast (drop_bit 8 (get16 pb 0 AND 0xf800)) :: u8; frag_size = get16 pb 0 AND 0x07ff; frag_tag = get16 pb 2
     in if dispatch = SICSLOWPAN_DISPATCH_FRAG1 then do {
          (c, s) \<leftarrow> add_fragment clk b pb SICSLOWPAN_FRAG1_HDR_LEN frag_tag frag_size 0 s;
          case c of None \<Rightarrow> Some s
          | Some i \<Rightarrow> (case read_header b pb SICSLOWPAN_FRAG1_HDR_LEN frag_size (fi_first_frag (frag_infos s ! i)) s of
                None \<Rightarrow> Some s
              | Some (buffer, hdr, uncomp) \<Rightarrow> first_received i frag_size b pb hdr uncomp buffer s) }
        else if dispatch = SICSLOWPAN_DISPATCH_FRAGN then do {
          let frag_offset = pb 4;
          (c, s) \<leftarrow> add_fragment clk b pb SICSLOWPAN_FRAGN_HDR_LEN frag_tag frag_size frag_offset s;
          case c of None \<Rightarrow> Some s
          | Some i \<Rightarrow> next_received i frag_size frag_offset b s }
        else case read_header b pb 0 0 (uip_buf s) s of
            None \<Rightarrow> Some s
          | Some (buffer, hdr, uncomp) \<Rightarrow> whole_received b pb hdr uncomp buffer s)"

definition sicslowpan_init :: "lowpan \<Rightarrow> lowpan" where
  "sicslowpan_init s = s\<lparr>addr_contexts := (addr_contexts s)[0 := \<lparr>ac_used = 1, ac_number = 0,
     ac_prefix = (ac_prefix (addr_contexts s ! 0))[0 := 0xfd, 1 := 0x00]\<rparr>]\<rparr>"

section \<open>Output\<close>

text \<open>The callback for the MAC layer, of those calls that a function made.\<close>

definition sicslowpan_packet_sent :: "ptr \<Rightarrow> (ptr \<times> ptr \<times> mac_status \<times> nat) list \<Rightarrow> lowpan \<Rightarrow> lowpan" where
  "sicslowpan_packet_sent f calls s =
    foldl (\<lambda>s (g, _, status, _). if g = f then s\<lparr>last_tx_status := status\<rparr> else s) s calls"

text \<open>\<open>NETSTACK_LLSEC\<close> is \<open>nullsec.c\<close>, which sets the type of the frame, \<open>NETSTACK_MAC\<close> is \<open>csma.c\<close>.\<close>

definition nullsec_send :: "'r rdc_ops \<Rightarrow> ptr \<Rightarrow> ptr \<Rightarrow> 'r csma \<Rightarrow> 'r csma option" where
  "nullsec_send R sent p m = send_packet R sent p (m\<lparr>packetbuf := (packetbuf m)\<lparr>pb_frame_type := ucast FRAME802154_DATAFRAME\<rparr>\<rparr>)"

definition sicslowpan_send_packet :: "'r rdc_ops \<Rightarrow> ptr \<Rightarrow> linkaddr \<Rightarrow> lowpan \<times> 'r csma \<Rightarrow> (lowpan \<times> 'r csma) option" where
  "sicslowpan_send_packet R sent dest = (\<lambda>(s, m). do {
     m' \<leftarrow> nullsec_send R sent 0 (m\<lparr>packetbuf := (packetbuf m)\<lparr>pb_receiver := dest\<rparr>\<rparr>);
     Some (sicslowpan_packet_sent sent (drop (length (sent_calls m)) (sent_calls m')) s, m') })"

definition queuebuf_numfree :: "'r csma \<Rightarrow> int" where
  "queuebuf_numfree m = int (memb_numfree (bufmem m))"

text \<open>
  One fragment: the copy in a queuebuf brings the packet back after it was sent. The result says whether the
  fragments go on.
\<close>

definition send_fragment :: "'r rdc_ops \<Rightarrow> ptr \<Rightarrow> linkaddr \<Rightarrow> lowpan \<times> 'r csma \<Rightarrow> (bool \<times> lowpan \<times> 'r csma) option" where
  "send_fragment R sent dest = (\<lambda>(s, m). do {
     (q, m) \<leftarrow> queuebuf_new_from_packetbuf m;
     if q = 0 then Some (False, s, m)
     else do {
       (s, m) \<leftarrow> sicslowpan_send_packet R sent dest (s, m);
       m \<leftarrow> queuebuf_free q (queuebuf_to_packetbuf q m);
       Some (last_tx_status s \<notin> {MAC_TX_COLLISION, MAC_TX_ERR, MAC_TX_ERR_FATAL}, s, m) } })"

text \<open>\<open>n\<close> bytes of \<open>uip_buf\<close> from \<open>p\<close> on\<close>

definition uip_bytes :: "lowpan \<Rightarrow> nat \<Rightarrow> int \<Rightarrow> bytes option" where
  "uip_bytes s p n = (if n < 0 \<or> int (length (uip_buf s)) < int p + n then None else Some (take (nat n) (drop p (uip_buf s))))"

definition set_packet :: "bytes \<Rightarrow> 'r csma \<Rightarrow> 'r csma" where
  "set_packet d m = m\<lparr>packetbuf := (packetbuf m)\<lparr>pb_data := d\<rparr>\<rparr>"

text \<open>The loop of the next fragments. The tag is still in the packet.\<close>

partial_function (option) next_fragments :: "'r rdc_ops \<Rightarrow> ptr \<Rightarrow> linkaddr \<Rightarrow> int \<Rightarrow> u16 \<Rightarrow> lowpan \<times> 'r csma \<Rightarrow> (bool \<times> lowpan \<times> 'r csma) option" where
  "next_fragments R sent dest plen processed sm =
    (if processed < uip_len (fst sm) then do {
       let n = (if uint (uip_len (fst sm)) - uint processed < plen then uint (uip_len (fst sm)) - uint processed else plen);
       d \<leftarrow> uip_bytes (fst sm) (unat processed) n;
       let hdr = set16 (push_bit 8 (ucast SICSLOWPAN_DISPATCH_FRAGN) OR uip_len (fst sm)) @ take 2 (drop 2 (pb_data (packetbuf (snd sm))))
         @ [ucast (drop_bit 3 processed)];
       (ok, sm) \<leftarrow> send_fragment R sent dest (fst sm, set_packet (hdr @ d) (snd sm));
       if ok then next_fragments R sent dest n (processed + word_of_int n) sm else Some (False, sm) }
     else Some (True, sm))"

definition send_fragments :: "'r rdc_ops \<Rightarrow> ptr \<Rightarrow> linkaddr \<Rightarrow> int \<Rightarrow> bytes \<Rightarrow> nat \<Rightarrow> lowpan \<times> 'r csma \<Rightarrow> (bool \<times> lowpan \<times> 'r csma) option" where
  "send_fragments R sent dest max_payload hdr uncomp = (\<lambda>(s, m).
     (let estimated_fragments = uint (uip_len s) div (max_payload - int SICSLOWPAN_FRAGN_HDR_LEN) + 1;
          freebuf = queuebuf_numfree m - 1
      in if freebuf < estimated_fragments then Some (False, s, m)
         else do {
           let frag_tag = my_tag s;
           let s = s\<lparr>last_tx_status := MAC_TX_OK, my_tag := frag_tag + 1\<rparr>;
           let hdr = set16 (push_bit 8 (ucast SICSLOWPAN_DISPATCH_FRAG1) OR uip_len s) @ set16 frag_tag @ hdr;
           let plen = (max_payload - int (length hdr)) div 8 * 8;
           d \<leftarrow> uip_bytes s uncomp plen;
           (ok, sm) \<leftarrow> send_fragment R sent dest (s, set_packet (hdr @ d) m);
           if ok then next_fragments R sent dest ((max_payload - int SICSLOWPAN_FRAGN_HDR_LEN) div 8 * 8) (word_of_int plen + of_nat uncomp) sm
           else Some (False, sm) }))"

text \<open>
  \<open>framer_length\<close> is \<open>NETSTACK_FRAMER.length()\<close>, \<open>sent\<close> the address of the callback. The destination \<open>None\<close> is a
  broadcast. The result of the C function is 1 for \<open>True\<close>.
\<close>

definition sicslowpan_output :: "'r rdc_ops \<Rightarrow> ('r csma \<Rightarrow> int \<times> 'r csma) \<Rightarrow> ptr \<Rightarrow> linkaddr \<Rightarrow> linkaddr option
    \<Rightarrow> lowpan \<times> 'r csma \<Rightarrow> (bool \<times> lowpan \<times> 'r csma) option" where
  "sicslowpan_output R framer_length sent uip_lladdr localdest = (\<lambda>(s, m).
     (let dest = (case localdest of None \<Rightarrow> linkaddr_null | Some a \<Rightarrow> a);
          (hdr, uncomp) = (if uip_len s \<ge> COMPRESSION_THRESHOLD then compress_hdr_iphc (addr_contexts s) uip_lladdr dest (uip_buf s)
            else compress_hdr_ipv6 (uip_buf s));
          (framer_hdrlen, m) = framer_length (m\<lparr>packetbuf := (packetbuf_with [])\<lparr>pb_receiver := dest\<rparr>\<rparr>);
          max_payload = MAC_MAX_PAYLOAD - (if framer_hdrlen < 0 then SICSLOWPAN_FIXED_HDRLEN else framer_hdrlen)
      in if uint (uip_len s) - int uncomp > max_payload - int (length hdr)
         then send_fragments R sent dest max_payload hdr uncomp (s, m)
         else do {
           d \<leftarrow> uip_bytes s uncomp (uint (uip_len s) - int uncomp);
           sm \<leftarrow> sicslowpan_send_packet R sent dest (s, set_packet (hdr @ d) m);
           Some (True, sm) }))"

end
