(* ===== verification/Iphc_Laws.thy ===== *)
theory Iphc_Laws
  imports Sicslowpan Frame_Laws
begin

text \<open>
  The laws of header compression: what the functions of \<open>Sicslowpan\<close> that read the fields of a compressed header make
  of what those that write them have written, field by field, and the result for the whole header
  (\<open>header_read_back\<close>).
\<close>

section \<open>Buffers\<close>

lemma length_write_at [simp]: "p + length xs \<le> length buf \<Longrightarrow> length (write_at p xs buf) = length buf"
  by (simp add: write_at_def)

lemma nth_write_at:
  assumes "p + length xs \<le> length buf" "i < length buf"
  shows "write_at p xs buf ! i = (if p \<le> i \<and> i < p + length xs then xs ! (i - p) else buf ! i)"
  using assms by (auto simp: write_at_def nth_append min_def not_less)

lemma nth_at_mem: "at_mem pb c xs \<Longrightarrow> i < length xs \<Longrightarrow> pb (c + i) = xs ! i"
  by (simp add: at_mem_def)

lemma map_at_mem: "at_mem pb c xs \<Longrightarrow> length xs = n \<Longrightarrow> map (\<lambda>i. pb (c + i)) [0..<n] = xs"
  by (auto simp: at_mem_def intro: nth_equalityI)

lemma list_of_16: "length a = 16 \<Longrightarrow> a = [a ! 0, a ! 1, a ! 2, a ! 3, a ! 4, a ! 5, a ! 6, a ! 7,
    a ! 8, a ! 9, a ! 10, a ! 11, a ! 12, a ! 13, a ! 14, a ! 15]"
  by (simp add: list_eq_iff_nth_eq less_Suc_eq numeral_eq_Suc nth_Cons split: nat.split)

lemma list_of_8: "length a = 8 \<Longrightarrow> a = [a ! 0, a ! 1, a ! 2, a ! 3, a ! 4, a ! 5, a ! 6, a ! 7]"
  by (simp add: list_eq_iff_nth_eq less_Suc_eq numeral_eq_Suc nth_Cons split: nat.split)

section \<open>Addresses\<close>

lemma unc_counts:
  "unat (drop_bit 4 (0x0f :: u8)) = 0" "unat ((0x0f :: u8) AND 0x0f) = 15" "unat (drop_bit 4 (0x28 :: u8)) = 2" "unat ((0x28 :: u8) AND 0x0f) = 8"
  "unat (drop_bit 4 (0x22 :: u8)) = 2" "unat ((0x22 :: u8) AND 0x0f) = 2" "unat (drop_bit 4 (0x20 :: u8)) = 2" "unat ((0x20 :: u8) AND 0x0f) = 0"
  "unat (drop_bit 4 (0 :: u8)) = 0" "unat ((0 :: u8) AND 0x0f) = 0" "unat (drop_bit 4 (0x88 :: u8)) = 8" "unat ((0x88 :: u8) AND 0x0f) = 8"
  "unat (drop_bit 4 (0x82 :: u8)) = 8" "unat ((0x82 :: u8) AND 0x0f) = 2" "unat (drop_bit 4 (0x80 :: u8)) = 8" "unat ((0x80 :: u8) AND 0x0f) = 0"
  "unat (drop_bit 4 (0x25 :: u8)) = 2" "unat ((0x25 :: u8) AND 0x0f) = 5" "unat (drop_bit 4 (0x23 :: u8)) = 2" "unat ((0x23 :: u8) AND 0x0f) = 3"
  "unat (drop_bit 4 (0x21 :: u8)) = 2" "unat ((0x21 :: u8) AND 0x0f) = 1"
  by simp_all

lemma uncompress_addr_modes:
  "uncompress_addr p 0x0f l pb hc = (map (\<lambda>i. pb (hc + i)) [0..<16], hc + 16)"
  "length p = 2 \<Longrightarrow> uncompress_addr p 0x28 l pb hc = (p @ replicate 6 0 @ map (\<lambda>i. pb (hc + i)) [0..<8], hc + 8)"
  "length p = 2 \<Longrightarrow> uncompress_addr p 0x22 l pb hc = (p @ [0, 0, 0, 0, 0, 0, 0, 0, 0, 0xff, 0xfe, 0, pb hc, pb (hc + 1)], hc + 2)"
  "length p = 2 \<Longrightarrow> uncompress_addr p 0x20 l pb hc = (uip_ds6_set_addr_iid (p @ replicate 14 0) l, hc)"
  "uncompress_addr p 0 l pb hc = (replicate 16 0, hc)"
  "length p = 8 \<Longrightarrow> uncompress_addr p 0x88 l pb hc = (p @ map (\<lambda>i. pb (hc + i)) [0..<8], hc + 8)"
  "length p = 8 \<Longrightarrow> uncompress_addr p 0x82 l pb hc = (p @ [0, 0, 0, 0xff, 0xfe, 0, pb hc, pb (hc + 1)], hc + 2)"
  "length p = 8 \<Longrightarrow> uncompress_addr p 0x80 l pb hc = (uip_ds6_set_addr_iid (p @ replicate 8 0) l, hc)"
  "length p = 2 \<Longrightarrow> uncompress_addr p 0x25 l pb hc = (p @ replicate 9 0 @ map (\<lambda>i. pb (hc + i)) [0..<5], hc + 5)"
  "length p = 2 \<Longrightarrow> uncompress_addr p 0x23 l pb hc = (p @ replicate 11 0 @ map (\<lambda>i. pb (hc + i)) [0..<3], hc + 3)"
  "length p = 2 \<Longrightarrow> uncompress_addr p 0x21 l pb hc = (p @ replicate 13 0 @ [pb hc], hc + 1)"
  unfolding uncompress_addr_def Let_def unc_counts
  by (simp_all add: eval_nat_numeral list_update_append)


text \<open>The mode of the identifier, and what is read back with it.\<close>

definition addr_mode :: "bytes \<Rightarrow> linkaddr \<Rightarrow> nat" where
  "addr_mode a lladdr = (if uip_is_addr_mac_addr_based a lladdr then 3 else if sicslowpan_is_iid_16_bit_compressable a then 2 else 1)"

lemma addr_64_mode: "fst (compress_addr_64 n a l) = push_bit n (of_nat (addr_mode a l))" "addr_mode a l \<in> {1, 2, 3}"
  by (auto simp: compress_addr_64_def addr_mode_def)

lemma mac_based_iid:
  assumes "length a = 16" "length l = 8" "length p = 16" "take 8 p = take 8 a" "uip_is_addr_mac_addr_based a l"
  shows "uip_ds6_set_addr_iid p l = a"
proof -
  note a = list_of_16 [OF assms(1)] and l = list_of_8 [OF assms(2)]
  have "uip_ds6_set_addr_iid p l = (take 8 a @ l)[8 := l ! 0 XOR 2]" by (simp add: uip_ds6_set_addr_iid_def assms(4))
  also have "\<dots> = a"
    using assms(5) by (subst (2) a, subst l, subst a) (simp add: uip_is_addr_mac_addr_based_def list_update_append eval_nat_numeral)
  finally show ?thesis .
qed

lemma iid_read_back:
  assumes a: "length a = 16" "length l = 8" and x: "compress_addr_64 n a l = (m, xs)" "at_mem pb hc xs"
  shows "take 8 a = p \<Longrightarrow> uncompress_addr p (unc_ctxconf ! addr_mode a l) l pb hc = (a, hc + length xs)"
    and "take 8 a = [0xfe, 0x80, 0, 0, 0, 0, 0, 0] \<Longrightarrow> uncompress_addr llprefix (unc_llconf ! addr_mode a l) l pb hc = (a, hc + length xs)"
proof -
  note l16 = list_of_16 [OF a(1)]
  have tails: "take 8 a @ drop 8 a = a" "length (drop 8 a) = 8" using a(1) by simp_all
  have parts: "take 2 (drop 14 a) = [a ! 14, a ! 15]" "take 8 (drop 8 a) = drop 8 a"
    using a(1) by (simp_all add: list_eq_iff_nth_eq less_Suc_eq eval_nat_numeral)
  consider (mac) "uip_is_addr_mac_addr_based a l" "addr_mode a l = 3" "xs = []"
    | (short) "sicslowpan_is_iid_16_bit_compressable a" "addr_mode a l = 2" "xs = [a ! 14, a ! 15]"
    | (long) "addr_mode a l = 1" "xs = drop 8 a"
    using x(1) parts by (auto simp: compress_addr_64_def addr_mode_def split: if_splits)
  note c = this
  show "uncompress_addr p (unc_ctxconf ! addr_mode a l) l pb hc = (a, hc + length xs)" if p: "take 8 a = p"
  proof -
    have "length p = 8" using p a(1) by auto
    from c show ?thesis
    proof cases
      case mac
      then show ?thesis using uncompress_addr_modes(8) [of p] mac_based_iid [OF a] p \<open>length p = 8\<close> by (simp add: unc_ctxconf_def)
    next
      case short
      have "drop 8 a = [0, 0, 0, 0xff, 0xfe, 0, a ! 14, a ! 15]"
        using short(1) by (subst l16) (simp add: sicslowpan_is_iid_16_bit_compressable_def zero16_def)
      then show ?thesis using short x(2) uncompress_addr_modes(7) [of p] \<open>length p = 8\<close> tails(1) p by (simp add: unc_ctxconf_def)
    next
      case long
      then show ?thesis using x(2) uncompress_addr_modes(6) [of p] \<open>length p = 8\<close> tails p map_at_mem by (simp add: unc_ctxconf_def)
    qed
  qed
  show "uncompress_addr llprefix (unc_llconf ! addr_mode a l) l pb hc = (a, hc + length xs)" if p: "take 8 a = [0xfe, 0x80, 0, 0, 0, 0, 0, 0]"
  proof -
    have ll: "length llprefix = 2" by (simp add: llprefix_def)
    show ?thesis using c
    proof cases
      case mac
      then show ?thesis using uncompress_addr_modes(4) [OF ll] mac_based_iid [OF a, of "llprefix @ replicate 14 0"] p
        by (simp add: unc_llconf_def) (simp add: llprefix_def eval_nat_numeral)
    next
      case short
      have "drop 8 a = [0, 0, 0, 0xff, 0xfe, 0, a ! 14, a ! 15]"
        using short(1) by (subst l16) (simp add: sicslowpan_is_iid_16_bit_compressable_def zero16_def)
      then show ?thesis using short x(2) uncompress_addr_modes(3) [OF ll] tails(1) p by (simp add: unc_llconf_def) (simp add: llprefix_def)
    next
      case long
      then show ?thesis using x(2) uncompress_addr_modes(2) [OF ll] tails p map_at_mem [of pb hc "drop 8 a" 8]
        by (simp add: unc_llconf_def) (simp add: llprefix_def eval_nat_numeral)
    qed
  qed
qed


section \<open>Traffic class and flow label\<close>

lemma u8_top: "\<not> bit (x :: u8) 8" "\<not> bit (x :: u8) 9" "\<not> bit (x :: u8) 10" "\<not> bit (x :: u8) 11" "\<not> bit (x :: u8) 12" "\<not> bit (x :: u8) 13"
  by (auto dest: bit_imp_le_length)

lemmas u8_bits = bit_and_iff bit_or_iff bit_push_bit_iff bit_drop_bit_eq small_bits u8_top

lemma nibble_bits:
  fixes y :: u8
  shows "y AND 0x0f = 0 \<Longrightarrow> \<not> bit y 0" "y AND 0x0f = 0 \<Longrightarrow> \<not> bit y (Suc 0)" "y AND 0x0f = 0 \<Longrightarrow> \<not> bit y 2" "y AND 0x0f = 0 \<Longrightarrow> \<not> bit y 3"
    "y AND 0xf0 = 0 \<Longrightarrow> \<not> bit y 4" "y AND 0xf0 = 0 \<Longrightarrow> \<not> bit y 5" "y AND 0xf0 = 0 \<Longrightarrow> \<not> bit y 6" "y AND 0xf0 = 0 \<Longrightarrow> \<not> bit y 7"
  by (drule arg_cong [of _ _ "\<lambda>z. bit z 0"], simp add: bit_and_iff del: bit_0)
    (drule arg_cong [of _ _ "\<lambda>z. bit z (Suc 0)"], simp add: bit_and_iff, drule arg_cong [of _ _ "\<lambda>z. bit z 2"], simp add: bit_and_iff,
     drule arg_cong [of _ _ "\<lambda>z. bit z 3"], simp add: bit_and_iff, drule arg_cong [of _ _ "\<lambda>z. bit z 4"], simp add: bit_and_iff,
     drule arg_cong [of _ _ "\<lambda>z. bit z 5"], simp add: bit_and_iff, drule arg_cong [of _ _ "\<lambda>z. bit z 6"], simp add: bit_and_iff,
     drule arg_cong [of _ _ "\<lambda>z. bit z 7"], simp add: bit_and_iff)

lemma no_nibbles: "(y :: u8) AND 0x0f = 0 \<Longrightarrow> y AND 0xf0 = 0 \<Longrightarrow> y = 0"
  using nibble_bits [of y] by (intro u8_eqI) simp_all

text \<open>The bits of the traffic class as they are sent, and from there back in the header.\<close>

lemma tc_bits:
  fixes v t :: u8
  defines "x \<equiv> push_bit 6 ((push_bit 4 v OR drop_bit 4 t) AND 3) OR drop_bit 2 (push_bit 4 v OR drop_bit 4 t)"
  assumes v: "drop_bit 4 v = 6"
  shows "0x60 OR (drop_bit 2 x AND 0x0f) = v"
    "(drop_bit 2 x AND 0x30) OR push_bit 6 x OR (t AND 0x0f) = t"
    "t AND 0x0f = 0 \<Longrightarrow> (push_bit 6 x AND 0xC0) OR (drop_bit 2 x AND 0x30) = t"
    "v AND 0x0f = 0 \<Longrightarrow> v = 0x60"
    "v AND 0x0f = 0 \<Longrightarrow> t AND 0xf0 = 0 \<Longrightarrow> (((x AND 0xc0) OR (t AND 0x0f)) AND 0x0F) OR (drop_bit 2 ((x AND 0xc0) OR (t AND 0x0f)) AND 0x30) = t"
proof -
  have vb: "bit v 4 = False" "bit v 5 = True" "bit v 6 = True" "bit v 7 = False"
    using arg_cong [OF v, of "\<lambda>z. bit z 0"] arg_cong [OF v, of "\<lambda>z. bit z 1"] arg_cong [OF v, of "\<lambda>z. bit z 2"] arg_cong [OF v, of "\<lambda>z. bit z 3"]
    by (simp_all add: bit_drop_bit_eq)
  have xb: "bit x 0 = bit t 6" "bit x 1 = bit t 7" "bit x 2 = bit v 0" "bit x 3 = bit v 1" "bit x 4 = bit v 2" "bit x 5 = bit v 3"
    "bit x 6 = bit t 4" "bit x 7 = bit t 5"
    unfolding x_def by (simp_all add: u8_bits del: push_bit_and bit_0 push_bit_or drop_bit_or)
  note low = nibble_bits(1-4) and high = nibble_bits(5-8)
  note bits = u8_bits vb xb xb(2) [unfolded One_nat_def]
  show "0x60 OR (drop_bit 2 x AND 0x0f) = v" 
    by (rule u8_eqI; simp add: bits del: bit_0)
  show "(drop_bit 2 x AND 0x30) OR push_bit 6 x OR (t AND 0x0f) = t" 
    by (rule u8_eqI; simp add: bits del: bit_0)
  show "(push_bit 6 x AND 0xC0) OR (drop_bit 2 x AND 0x30) = t" if "t AND 0x0f = 0"
    using low [OF that] by (intro u8_eqI; simp add: bits del: bit_0)
  show "v = 0x60" if "v AND 0x0f = 0"
    using low [OF that] by (intro u8_eqI; simp add: bits del: bit_0)
  show "(((x AND 0xc0) OR (t AND 0x0f)) AND 0x0F) OR (drop_bit 2 ((x AND 0xc0) OR (t AND 0x0f)) AND 0x30) = t" if "v AND 0x0f = 0" "t AND 0xf0 = 0"
    using low [OF that(1)] high [OF that(2)] by (intro u8_eqI; simp add: bits del: bit_0)
qed

lemma at_mem_34:
  "at_mem pb hc [a, b, c] \<longleftrightarrow> pb hc = a \<and> pb (hc + 1) = b \<and> pb (hc + 2) = c"
  "at_mem pb hc [a, b, c, d] \<longleftrightarrow> pb hc = a \<and> pb (hc + 1) = b \<and> pb (hc + 2) = c \<and> pb (hc + 3) = d"
  by (simp_all add: eval_nat_numeral)

lemma tcfl_read_back:
  assumes ip: "40 \<le> length ip" "drop_bit 4 (ip ! 0) = 6" and x: "compress_tcfl ip = (f, xs)" "at_mem pb hc xs"
    and bits: "iphc0 AND SICSLOWPAN_IPHC_FL_C = f AND SICSLOWPAN_IPHC_FL_C" "iphc0 AND SICSLOWPAN_IPHC_TC_C = f AND SICSLOWPAN_IPHC_TC_C"
  shows "uncompress_tcfl pb iphc0 hc buf = (hc + length xs, write_at 0 (take 4 ip) buf)"
proof -
  have ip4: "take 4 ip = [ip ! 0, ip ! 1, ip ! 2, ip ! 3]" "take 2 (drop 2 ip) = [ip ! 2, ip ! 3]" "take 3 (drop (Suc 0) ip) = [ip ! 1, ip ! 2, ip ! 3]"
    using ip(1) by (simp_all add: list_eq_iff_nth_eq less_Suc_eq eval_nat_numeral)
  note tc = tc_bits(1,2,3,5) [OF ip(2), of "ip ! 1"] and tc4 = tc_bits(4) [OF ip(2)]
  define x where "x = push_bit 6 ((push_bit 4 (ip ! 0) OR drop_bit 4 (ip ! 1)) AND 3) OR drop_bit 2 (push_bit 4 (ip ! 0) OR drop_bit 4 (ip ! 1))"
  note tc = tc [folded x_def]
  have flow: "zero16 ip (Suc 0) \<longleftrightarrow> ip ! 2 = 0 \<and> ip ! 3 = 0" by (simp add: zero16_def eval_nat_numeral)
  show ?thesis
  proof (cases "(ip ! 1) AND 0x0F = 0 \<and> zero16 ip 1")
    case fl: True
    show ?thesis
    proof (cases "ip ! 0 AND 0x0F = 0 \<and> ip ! 1 AND 0xF0 = 0")
      case True
      then have "f = SICSLOWPAN_IPHC_FL_C OR SICSLOWPAN_IPHC_TC_C" "xs = []" using x(1) fl by (auto simp: compress_tcfl_def Let_def)
      moreover from True fl have "ip ! 1 = 0" using no_nibbles by blast
      ultimately show ?thesis using bits tc4 True fl by (simp add: uncompress_tcfl_def SICSLOWPAN_IPHC_FL_C_def SICSLOWPAN_IPHC_TC_C_def ip4 flow)
    next
      case False
      then have "f = SICSLOWPAN_IPHC_FL_C" "xs = [x]" using x(1) fl by (auto simp: compress_tcfl_def Let_def x_def)
      then show ?thesis using bits tc(1,3) fl x(2) by (simp add: uncompress_tcfl_def SICSLOWPAN_IPHC_FL_C_def SICSLOWPAN_IPHC_TC_C_def ip4 flow)
    qed
  next
    case fl: False
    show ?thesis
    proof (cases "ip ! 0 AND 0x0F = 0 \<and> ip ! 1 AND 0xF0 = 0")
      case True
      then have "f = SICSLOWPAN_IPHC_TC_C" "xs = [(x AND 0xc0) OR (ip ! 1 AND 0x0F), ip ! 2, ip ! 3]" using x(1) fl by (auto simp: compress_tcfl_def Let_def x_def ip4)
      then show ?thesis using bits tc4 tc(4) True fl x(2) [unfolded \<open>xs = _\<close> at_mem_34]
        by (simp add: uncompress_tcfl_def SICSLOWPAN_IPHC_FL_C_def SICSLOWPAN_IPHC_TC_C_def ip4 flow)
    next
      case False
      then have "f = 0" "xs = [x, ip ! 1, ip ! 2, ip ! 3]" using x(1) fl by (auto simp: compress_tcfl_def Let_def x_def ip4)
      then show ?thesis using bits tc(1,2) fl x(2) [unfolded \<open>xs = _\<close> at_mem_34] by (simp add: uncompress_tcfl_def Let_def ip4 flow)
    qed
  qed
qed


section \<open>Next header, hop limit\<close>

lemma ttl_read_back:
  assumes x: "compress_ttl ip = (t, xs)" "at_mem pb hc xs" and bits: "iphc0 AND 3 = t"
  shows "uncompress_ttl pb iphc0 hc buf = (hc + length xs, write_at 7 [ip ! 7] buf)" "t \<in> {0, 1, 2, 3}"
proof -
  have v: "ttl_values ! 1 = 1" "ttl_values ! 2 = 64" "ttl_values ! 3 = 255" by (simp_all add: ttl_values_def)
  consider "ip ! 7 = 1" "t = 1" "xs = []" | "ip ! 7 = 64" "t = 2" "xs = []" | "ip ! 7 = 255" "t = 3" "xs = []" | "t = 0" "xs = [ip ! 7]"
    using x(1) by (auto simp: compress_ttl_def Let_def split: if_splits)
  note c = this
  show "uncompress_ttl pb iphc0 hc buf = (hc + length xs, write_at 7 [ip ! 7] buf)"
    using c x(2) bits v by cases (simp_all add: uncompress_ttl_def)
  show "t \<in> {0, 1, 2, 3}" using c by cases simp_all
qed

section \<open>Source and destination\<close>

text \<open>The contexts of a node: used ones have a prefix of 64 bits and a number of their own.\<close>

definition contexts_ok :: "addr_context list \<Rightarrow> bool" where
  "contexts_ok ctxs \<longleftrightarrow> (\<forall>c\<in>set ctxs. ac_used c = 1 \<longrightarrow> unat (ac_number c) < 16 \<and> length (ac_prefix c) = 8)
    \<and> (\<forall>c\<in>set ctxs. \<forall>c'\<in>set ctxs. ac_used c = 1 \<and> ac_used c' = 1 \<and> ac_number c = ac_number c' \<longrightarrow> c = c')"

lemma find_SomeD: "find P xs = Some x \<Longrightarrow> x \<in> set xs \<and> P x"
  by (induction xs) (auto split: if_splits)

lemma find_exists: "x \<in> set xs \<Longrightarrow> P x \<Longrightarrow> \<exists>y. find P xs = Some y \<and> y \<in> set xs \<and> P y"
  by (induction xs) auto

lemma context_found:
  assumes "contexts_ok ctxs" "addr_context_lookup_by_prefix ctxs a = Some c"
  shows "addr_context_lookup_by_number ctxs (ac_number c) = Some c" "ac_prefix c = take 8 a" "unat (ac_number c) < 16"
proof -
  from find_SomeD assms(2) have c: "c \<in> set ctxs" "ac_used c = 1" "ac_prefix c = take 8 a"
    unfolding addr_context_lookup_by_prefix_def by fastforce+
  then show "ac_prefix c = take 8 a" "unat (ac_number c) < 16" using assms(1) by (auto simp: contexts_ok_def)
  have "ac_used c = 1 \<and> ac_number c = ac_number c" using c by simp
  from find_exists [OF c(1), of "\<lambda>d. ac_used d = 1 \<and> ac_number d = ac_number c", OF this] obtain d where
    "addr_context_lookup_by_number ctxs (ac_number c) = Some d" "d \<in> set ctxs" "ac_used d = 1" "ac_number d = ac_number c"
    unfolding addr_context_lookup_by_number_def by blast
  then show "addr_context_lookup_by_number ctxs (ac_number c) = Some c" using assms(1) c unfolding contexts_ok_def by metis
qed

lemma modes:
  "m \<in> {1, 2, 3 :: nat} \<Longrightarrow> drop_bit 4 (push_bit 4 (of_nat m :: u8) AND 0x30) AND 3 = of_nat m \<and> push_bit 4 (of_nat m :: u8) AND 0x40 = 0
    \<and> (0xC0 OR push_bit 4 (of_nat m :: u8)) AND 0x30 = push_bit 4 (of_nat m) \<and> (0xC0 OR push_bit 4 (of_nat m :: u8)) AND 0x40 = 0x40
    \<and> (0xC0 OR push_bit 4 (of_nat m :: u8)) AND 0x0F = 0 \<and> push_bit 4 (of_nat m :: u8) AND 0x0F = 0 \<and> push_bit 4 (of_nat m :: u8) AND 0x30 = push_bit 4 (of_nat m)
    \<and> push_bit 4 (of_nat m :: u8) AND 0x80 = 0
    \<and> (of_nat m :: u8) \<noteq> 0 \<and> unat (of_nat m :: u8) = m \<and> (of_nat m :: u8) AND 3 = of_nat m \<and> (4 OR of_nat m :: u8) AND 3 = of_nat m
    \<and> (4 OR of_nat m :: u8) AND 4 = 4 \<and> (4 OR of_nat m :: u8) AND 8 = 0 \<and> (of_nat m :: u8) AND 0xC = 0 \<and> (of_nat m :: u8) AND 4 = 0 \<and> (of_nat m :: u8) AND 8 = 0
    \<and> (4 OR of_nat m :: u8) AND 0xF0 = 0 \<and> (of_nat m :: u8) AND 0xF0 = 0"
  by auto

lemma zero_prefix:
  assumes "length a = 16" "uip_is_addr_linklocal a" "zero16 a 1" "zero16 a 2" "zero16 a 3"
  shows "take 8 a = [0xfe, 0x80, 0, 0, 0, 0, 0, 0]"
  using assms(2-5) by (subst list_of_16 [OF assms(1)]) (simp add: uip_is_addr_linklocal_def zero16_def)

lemma unspecified_zero: "length a = 16 \<Longrightarrow> uip_is_addr_unspecified a \<Longrightarrow> a = replicate 16 0"
  by (simp add: list_eq_iff_nth_eq uip_is_addr_unspecified_def zero16_def less_Suc_eq eval_nat_numeral nth_Cons)

lemma nibble_shift:
  fixes x :: u8
  assumes "unat x < 16"
  shows "drop_bit 4 (push_bit 4 x) = x"
proof (rule bit_word_eqI)
  fix n assume "n < LENGTH(8)"
  have "x < 2 ^ 4" using assms by (simp add: word_less_nat_alt)
  then have "bit x n \<Longrightarrow> n < 4" by (metis bit_take_bit_iff less_mask_eq not_less take_bit_eq_mask)
  then show "bit (drop_bit 4 (push_bit 4 x)) n = bit x n" using \<open>n < LENGTH(8)\<close> by (auto simp: bit_simps)
qed

text \<open>
  A link-local source without a context is sent without its bytes 2 to 7 when these bytes are 0 in the destination; the
  code does not look at the bytes of the source. The receiver puts 0 there.
\<close>

definition local_src :: "addr_context list \<Rightarrow> bytes \<Rightarrow> bool" where
  "local_src ctxs ip \<longleftrightarrow> addr_context_lookup_by_prefix ctxs (ip_src ip) = None \<and> uip_is_addr_linklocal (ip_src ip)
     \<and> zero16 (ip_dest ip) 1 \<and> zero16 (ip_dest ip) 2 \<and> zero16 (ip_dest ip) 3"

text \<open>How an address is sent.\<close>

lemma src_cases:
  assumes "length (ip_src ip) = 16" "contexts_ok ctxs" "compress_src ctxs l ip = (s, sci, xs)" "compress_addr_64 4 (ip_src ip) l = (c64, ys)"
  obtains (zero) "uip_is_addr_unspecified (ip_src ip)" "s = 0x40" "sci = 0" "xs = []"
    | (ctx) c where "addr_context_lookup_by_prefix ctxs (ip_src ip) = Some c" "s = 0xC0 OR c64" "sci = push_bit 4 (ac_number c)" "xs = ys"
    | (ll) "local_src ctxs ip" "uip_is_addr_linklocal (ip_src ip)" "s = c64" "sci = 0" "xs = ys"
    | (all) "addr_context_lookup_by_prefix ctxs (ip_src ip) = None" "\<not> local_src ctxs ip" "s = 0" "sci = 0" "xs = ip_src ip"
proof -
  have c0: "(0x80 :: u8) OR (0x40 OR y) = 0xC0 OR y" for y by (simp flip: or.assoc)
  show thesis using assms(3) that
    by (auto simp: compress_src_def Let_def SICSLOWPAN_IPHC_SAC_def SICSLOWPAN_IPHC_CID_def SICSLOWPAN_IPHC_SAM_BIT_def assms(4) c0 or.assoc
        local_src_def split: if_splits option.splits)
qed

lemma src_nibbles:
  assumes ip: "length (ip_src ip) = 16" "contexts_ok ctxs" and x: "compress_src ctxs l ip = (s, sci, xs)"
  shows "s AND 0x0F = 0" "addr_context_lookup_by_prefix ctxs (ip_src ip) = None \<Longrightarrow> s AND 0x80 = 0 \<and> sci = 0"
    "\<exists>k. sci = push_bit 4 k \<and> unat k < 16" "length xs \<le> 16"
proof -
  obtain c64 ys where c64: "compress_addr_64 4 (ip_src ip) l = (c64, ys)" by fastforce
  then have c64_is: "c64 = push_bit 4 (of_nat (addr_mode (ip_src ip) l))" "length ys \<le> 8"
    using addr_64_mode(1) [of 4 "ip_src ip" l] by (auto simp: compress_addr_64_def split: if_splits)
  note m = modes [OF addr_64_mode(2) [of "ip_src ip" l]]
  show "s AND 0x0F = 0" using m by (cases rule: src_cases [OF ip x c64]) (simp_all add: c64_is)
  show "addr_context_lookup_by_prefix ctxs (ip_src ip) = None \<Longrightarrow> s AND 0x80 = 0 \<and> sci = 0"
    using m by (cases rule: src_cases [OF ip x c64]) (simp_all add: c64_is)
  show "\<exists>k. sci = push_bit 4 k \<and> unat k < 16"
  proof (cases rule: src_cases [OF ip x c64])
    case (2 c)
    then show ?thesis using context_found(3) [OF ip(2)] by blast
  qed (auto intro: exI [of _ 0])
  show "length xs \<le> 16" using c64_is(2) ip(1) by (cases rule: src_cases [OF ip x c64]) simp_all
qed

text \<open>The address without these bytes.\<close>

definition no_subnet :: "bytes \<Rightarrow> bytes" where
  "no_subnet a = take 2 a @ replicate 6 0 @ drop 8 a"

lemma no_subnet:
  assumes "length a = 16"
  shows "length (no_subnet a) = 16" "compress_addr_64 n (no_subnet a) l = compress_addr_64 n a l" "addr_mode (no_subnet a) l = addr_mode a l"
    "uip_is_addr_linklocal a \<Longrightarrow> take 8 (no_subnet a) = [0xfe, 0x80, 0, 0, 0, 0, 0, 0]"
proof -
  have at: "no_subnet a ! i = (if i < 2 \<or> 8 \<le> i then a ! i else 0)" if "i < 16" for i
    using that assms by (auto simp: no_subnet_def nth_append)
  have "drop 8 (no_subnet a) = drop 8 a" using assms by (simp add: no_subnet_def)
  moreover from arg_cong [OF this, of "drop 6"] have "drop 14 (no_subnet a) = drop 14 a" by simp
  moreover have iid: "uip_is_addr_mac_addr_based (no_subnet a) l = uip_is_addr_mac_addr_based a l"
    "sicslowpan_is_iid_16_bit_compressable (no_subnet a) = sicslowpan_is_iid_16_bit_compressable a"
    by (simp_all add: uip_is_addr_mac_addr_based_def sicslowpan_is_iid_16_bit_compressable_def zero16_def at)
  ultimately show "compress_addr_64 n (no_subnet a) l = compress_addr_64 n a l" "addr_mode (no_subnet a) l = addr_mode a l"
    by (simp_all add: compress_addr_64_def addr_mode_def)
  show "length (no_subnet a) = 16" using assms by (simp add: no_subnet_def)
  show "take 8 (no_subnet a) = [0xfe, 0x80, 0, 0, 0, 0, 0, 0]" if "uip_is_addr_linklocal a"
  proof -
    have "take 2 a = [0xfe, 0x80]"
      using that by (subst list_of_16 [OF assms]) (simp add: uip_is_addr_linklocal_def)
    then show ?thesis by (simp add: no_subnet_def eval_nat_numeral)
  qed
qed

lemma src_read_back:
  assumes ip: "length (ip_src ip) = 16" "length l = 8" "contexts_ok ctxs"
    and x: "compress_src ctxs l ip = (s, sci, xs)" "at_mem pb hc xs"
    and bits: "iphc1 AND 0x40 = s AND 0x40" "iphc1 AND 0x30 = s AND 0x30"
    and cid: "addr_context_lookup_by_prefix ctxs (ip_src ip) \<noteq> None \<Longrightarrow> iphc1 AND 0x80 \<noteq> 0 \<and> drop_bit 4 (pb (hdr + 2)) = drop_bit 4 sci"
  shows "uncompress_src ctxs l pb hdr iphc1 hc = Some (if local_src ctxs ip then no_subnet (ip_src ip) else ip_src ip, hc + length xs)"
proof -
  let ?a = "ip_src ip" and ?m = "addr_mode (ip_src ip) l"
  note defs = SICSLOWPAN_IPHC_SAC_def SICSLOWPAN_IPHC_CID_def SICSLOWPAN_IPHC_SAM_BIT_def
  obtain c64 ys where c64: "compress_addr_64 4 ?a l = (c64, ys)" by fastforce
  then have c64_is: "c64 = push_bit 4 (of_nat ?m)" using addr_64_mode(1) [of 4 ?a l] by simp
  note m = modes [OF addr_64_mode(2) [of ?a l]]
  show ?thesis
  proof (cases rule: src_cases [OF ip(1,3) x(1) c64])
    case 1
    moreover from this have "\<not> local_src ctxs ip" by (simp add: local_src_def uip_is_addr_unspecified_def uip_is_addr_linklocal_def zero16_def)
    ultimately show ?thesis using bits unspecified_zero [OF ip(1)] uncompress_addr_modes(5) by (simp add: uncompress_src_def defs unc_ctxconf_def Let_def)
  next
    case (2 c)
    note found = context_found [OF ip(3) 2(1)]
    have n: "drop_bit 4 (push_bit 4 (ac_number c)) = ac_number c" using nibble_shift found(3) .
    have "\<not> local_src ctxs ip" using 2(1) by (simp add: local_src_def)
    then show ?thesis using 2 bits cid found m iid_read_back(1) [OF ip(1,2) c64] x(2) unfolding c64_is
      by (simp add: uncompress_src_def defs Let_def n)
  next
    case 3
    note z = no_subnet [OF ip(1)]
    have "uncompress_addr llprefix (unc_llconf ! ?m) l pb hc = (no_subnet ?a, hc + length xs)"
      using iid_read_back(2) [OF z(1) ip(2), of 4 c64 xs pb hc] z(2,3,4) 3 c64 x(2) by simp
    then show ?thesis using 3 bits m unfolding c64_is by (simp add: uncompress_src_def defs Let_def)
  next
    case 4
    have "uncompress_addr llprefix (unc_llconf ! 0) l pb hc = (?a, hc + 16)"
      using x(2) 4 ip(1) map_at_mem [of pb hc ?a 16] uncompress_addr_modes(1) by (simp add: unc_llconf_def)
    then show ?thesis using 4 bits ip(1) by (simp add: uncompress_src_def defs Let_def)
  qed
qed


lemma dest_cases:
  assumes x: "compress_dest ctxs l ip = (d, dci, xs)" and c64: "compress_addr_64 0 (ip_dest ip) l = (c64, ys)"
  obtains (m8) "ip_dest ip ! 0 = 0xff" "sicslowpan_is_mcast_addr_compressable8 (ip_dest ip)" "d = 0xB" "dci = 0" "xs = [ip_dest ip ! 15]"
    | (m32) "ip_dest ip ! 0 = 0xff" "sicslowpan_is_mcast_addr_compressable32 (ip_dest ip)" "d = 0xA" "dci = 0" "xs = ip_dest ip ! 1 # drop 13 (ip_dest ip)"
    | (m48) "ip_dest ip ! 0 = 0xff" "sicslowpan_is_mcast_addr_compressable48 (ip_dest ip)" "d = 9" "dci = 0" "xs = ip_dest ip ! 1 # drop 11 (ip_dest ip)"
    | (mall) "ip_dest ip ! 0 = 0xff" "d = 8" "dci = 0" "xs = ip_dest ip"
    | (ctx) c where "addr_context_lookup_by_prefix ctxs (ip_dest ip) = Some c" "d = 4 OR c64" "dci = ac_number c" "xs = ys"
    | (ll) "addr_context_lookup_by_prefix ctxs (ip_dest ip) = None" "uip_is_addr_linklocal (ip_dest ip)"
        "zero16 (ip_dest ip) 1" "zero16 (ip_dest ip) 2" "zero16 (ip_dest ip) 3" "d = c64" "dci = 0" "xs = ys"
    | (all) "addr_context_lookup_by_prefix ctxs (ip_dest ip) = None" "d = 0" "dci = 0" "xs = ip_dest ip"
proof -
  let ?a = "ip_dest ip"
  define L where "L \<longleftrightarrow> uip_is_addr_linklocal ?a \<and> zero16 ?a 1 \<and> zero16 ?a 2 \<and> zero16 ?a 3"
  have cd: "compress_dest ctxs l ip = (if ?a ! 0 = 0xff
      then if sicslowpan_is_mcast_addr_compressable8 ?a then (0xB, 0, [?a ! 15])
        else if sicslowpan_is_mcast_addr_compressable32 ?a then (0xA, 0, ?a ! 1 # drop 13 ?a)
        else if sicslowpan_is_mcast_addr_compressable48 ?a then (9, 0, ?a ! 1 # drop 11 ?a) else (8, 0, ?a)
      else case addr_context_lookup_by_prefix ctxs ?a of Some c \<Rightarrow> (4 OR c64, ac_number c, ys)
      | None \<Rightarrow> if L then (c64, 0, ys) else (0, 0, ?a))"
    by (simp add: compress_dest_def Let_def SICSLOWPAN_IPHC_M_def SICSLOWPAN_IPHC_DAC_def SICSLOWPAN_IPHC_CID_def SICSLOWPAN_IPHC_DAM_BIT_def c64 uip_is_addr_mcast_def L_def cong: if_cong option.case_cong)
  have dx: "d = fst (compress_dest ctxs l ip)" "dci = fst (snd (compress_dest ctxs l ip))" "xs = snd (snd (compress_dest ctxs l ip))"
    by (simp_all add: x(1))
  show thesis
  proof (cases "?a ! 0 = 0xff")
    case mc: True
    let ?c8 = "sicslowpan_is_mcast_addr_compressable8 ?a" and ?c32 = "sicslowpan_is_mcast_addr_compressable32 ?a"
      and ?c48 = "sicslowpan_is_mcast_addr_compressable48 ?a"
    consider ?c8 | "\<not> ?c8" ?c32 | "\<not> ?c8" "\<not> ?c32" ?c48 | "\<not> ?c8" "\<not> ?c32" "\<not> ?c48" by blast
    then show thesis
    proof cases
      case 1
      show thesis by (rule that(1)) (simp_all add: dx cd mc 1)
    next
      case 2
      show thesis by (rule that(2)) (simp_all add: dx cd mc 2)
    next
      case 3
      show thesis by (rule that(3)) (simp_all add: dx cd mc 3)
    next
      case 4
      show thesis by (rule that(4)) (simp_all add: dx cd mc 4)
    qed
  next
    case uc: False
    consider c where "addr_context_lookup_by_prefix ctxs ?a = Some c" | "addr_context_lookup_by_prefix ctxs ?a = None" L
      | "addr_context_lookup_by_prefix ctxs ?a = None" "\<not> L" by blast
    then show thesis
    proof cases
      case 1
      show thesis by (rule that(5)) (simp_all add: dx cd uc 1)
    next
      case 2
      show thesis by (rule that(6)) (use 2 in \<open>simp_all add: dx cd uc, simp_all add: L_def\<close>)
    next
      case 3
      show thesis by (rule that(7)) (simp_all add: dx cd uc 3)
    qed
  qed
qed

lemma dest_nibbles:
  assumes ip: "length (ip_dest ip) = 16" "contexts_ok ctxs" and x: "compress_dest ctxs l ip = (d, dci, xs)"
  shows "d AND 0xF0 = 0" "addr_context_lookup_by_prefix ctxs (ip_dest ip) = None \<Longrightarrow> dci = 0" "unat dci < 16" "length xs \<le> 16"
proof -
  obtain c64 ys where c64: "compress_addr_64 0 (ip_dest ip) l = (c64, ys)" by fastforce
  then have c64_is: "c64 = of_nat (addr_mode (ip_dest ip) l)" "length ys \<le> 8"
    using addr_64_mode(1) [of 0 "ip_dest ip" l] by (auto simp: compress_addr_64_def split: if_splits)
  note m = modes [OF addr_64_mode(2) [of "ip_dest ip" l]]
  show "d AND 0xF0 = 0" using m by (cases rule: dest_cases [OF x c64]) (simp_all add: c64_is)
  show "addr_context_lookup_by_prefix ctxs (ip_dest ip) = None \<Longrightarrow> dci = 0" by (cases rule: dest_cases [OF x c64]) simp_all
  show "unat dci < 16"
  proof (cases rule: dest_cases [OF x c64])
    case (5 c)
    then show ?thesis using context_found(3) [OF ip(2)] by blast
  qed auto
  show "length xs \<le> 16" using c64_is(2) ip(1) by (cases rule: dest_cases [OF x c64]) simp_all
qed

lemma dest_read_back:
  assumes ip: "length (ip_dest ip) = 16" "length l = 8" "contexts_ok ctxs"
    and x: "compress_dest ctxs l ip = (d, dci, xs)" "at_mem pb hc xs"
    and bits: "iphc1 AND 8 = d AND 8" "iphc1 AND 4 = d AND 4" "iphc1 AND 3 = d AND 3"
    and cid: "addr_context_lookup_by_prefix ctxs (ip_dest ip) \<noteq> None \<Longrightarrow> iphc1 AND 0x80 \<noteq> 0 \<and> pb (hdr + 2) AND 0x0f = dci"
  shows "uncompress_dest ctxs l pb hdr iphc1 hc = Some (Some (ip_dest ip), hc + length xs)"
proof -
  let ?a = "ip_dest ip" and ?m = "addr_mode (ip_dest ip) l"
  note a = list_of_16 [OF ip(1)]
  note defs = SICSLOWPAN_IPHC_M_def SICSLOWPAN_IPHC_DAC_def SICSLOWPAN_IPHC_CID_def SICSLOWPAN_IPHC_DAM_BIT_def
  obtain c64 ys where c64: "compress_addr_64 0 ?a l = (c64, ys)" by (cases "compress_addr_64 0 ?a l")
  then have c64_is: "c64 = of_nat ?m" using addr_64_mode(1) [of 0 ?a l] by simp
  note m = modes [OF addr_64_mode(2) [of ?a l]]
  have parts: "drop 13 ?a = [?a ! 13, ?a ! 14, ?a ! 15]" "drop 11 ?a = [?a ! 11, ?a ! 12, ?a ! 13, ?a ! 14, ?a ! 15]"
    using ip(1) by (simp_all add: list_eq_iff_nth_eq less_Suc_eq eval_nat_numeral nth_Cons)
  have full: "uncompress_addr p 0x0f l' pb hc = (?a, hc + 16)" if "xs = ?a" for p l'
    using x(2) that ip(1) map_at_mem [of pb hc ?a 16] uncompress_addr_modes(1) by simp
  show ?thesis
  proof (cases rule: dest_cases [OF x(1) c64])
    case 1
    then have "?a = [0xff, 2] @ replicate 13 0 @ [?a ! 15]"
      by (subst a) (simp add: sicslowpan_is_mcast_addr_compressable8_def zero16_def eval_nat_numeral)
    then show ?thesis using 1 bits x(2) uncompress_addr_modes(11) [of "[0xff, 2]"] by (simp add: uncompress_dest_def defs Let_def unc_mxconf_def)
  next
    case 2
    have "?a = [0xff, ?a ! 1] @ replicate 11 0 @ drop 13 ?a"
      using 2(1,2) unfolding parts by (subst a) (simp add: sicslowpan_is_mcast_addr_compressable32_def zero16_def eval_nat_numeral)
    then show ?thesis using 2 bits x(2) uncompress_addr_modes(10) [of "[0xff, ?a ! 1]"] map_at_mem [of pb "Suc hc" "drop 13 ?a" 3] ip(1)
      by (simp add: uncompress_dest_def defs Let_def unc_mxconf_def)
  next
    case 3
    have "?a = [0xff, ?a ! 1] @ replicate 9 0 @ drop 11 ?a"
      using 3(1,2) unfolding parts by (subst a) (simp add: sicslowpan_is_mcast_addr_compressable48_def zero16_def eval_nat_numeral)
    then show ?thesis using 3 bits x(2) uncompress_addr_modes(9) [of "[0xff, ?a ! 1]"] map_at_mem [of pb "Suc hc" "drop 11 ?a" 5] ip(1)
      by (simp add: uncompress_dest_def defs Let_def unc_mxconf_def)
  next
    case 4
    then show ?thesis using bits full ip(1) by (simp add: uncompress_dest_def defs Let_def unc_mxconf_def)
  next
    case (5 c)
    note found = context_found [OF ip(3) 5(1)]
    show ?thesis using 5 bits cid found m iid_read_back(1) [OF ip(1,2) c64] x(2) unfolding c64_is
      by (simp add: uncompress_dest_def defs Let_def)
  next
    case 6
    show ?thesis using 6 bits m iid_read_back(2) [OF ip(1,2) c64] x(2) zero_prefix [OF ip(1)] unfolding c64_is
      by (simp add: uncompress_dest_def defs Let_def)
  next
    case 7
    then show ?thesis using bits full ip(1) by (simp add: uncompress_dest_def defs Let_def unc_llconf_def)
  qed
qed

section \<open>Ports\<close>

lemma port_halves:
  fixes h l :: u8
  defines "w \<equiv> push_bit 8 (ucast h) OR ucast l :: u16"
  shows "w AND 0xff00 = 0xF000 \<Longrightarrow> h = 0xF0 \<and> w = 0xF000 + ucast l \<and> (ucast (w - 0xF000) :: u8) = l"
    "w AND 0xfff0 = 0xF0B0 \<Longrightarrow> h = 0xF0 \<and> (\<exists>k<16. l = 0xB0 + of_nat k)"
    "set16 w = [h, l]"
proof -
  have bits: "bit w n = (if n < 8 then bit l n else n < 16 \<and> bit h (n - 8))" for n
    by (auto simp: w_def bit_simps dest: bit_imp_le_length)
  have s: "ucast (drop_bit 8 w AND 0xff) = h" "ucast (w AND 0xff) = l"
  proof -
    have k: "(0xff :: u16) = mask 8" by (simp add: mask_eq_exp_minus_1)
    show "ucast (drop_bit 8 w AND 0xff) = h" "ucast (w AND 0xff) = l"
      unfolding k by (rule bit_word_eqI, auto simp: bits bit_simps)+
  qed
  then show "set16 w = [h, l]" by (simp add: set16_def)
  have hi: "h = ucast (drop_bit 8 (w AND 0xff00))"
  proof -
    have k: "(0xff00 :: u16) = push_bit 8 (mask 8)" by (simp add: mask_eq_exp_minus_1)
    show ?thesis unfolding k by (rule bit_word_eqI) (auto simp: bits bit_simps)
  qed
  have w: "w = push_bit 8 (ucast h) + ucast l"
  proof -
    have "push_bit 8 (ucast h :: u16) AND ucast l = 0" by (rule bit_word_eqI) (auto simp: bit_simps dest: bit_imp_le_length)
    then show ?thesis using word_plus_and_or [of "push_bit 8 (ucast h :: u16)" "ucast l"] by (simp add: w_def)
  qed
  show "h = 0xF0 \<and> w = 0xF000 + ucast l \<and> (ucast (w - 0xF000) :: u8) = l" if "w AND 0xff00 = 0xF000"
  proof -
    have "h = 0xF0" using hi unfolding that by simp
    moreover have "ucast (ucast l :: u16) = l" by (rule bit_word_eqI) (simp add: bit_simps)
    ultimately show ?thesis using w by simp
  qed
  show "h = 0xF0 \<and> (\<exists>k<16. l = 0xB0 + of_nat k)" if "w AND 0xfff0 = 0xF0B0"
  proof -
    have "w AND 0xff00 = (w AND 0xfff0) AND 0xff00" by (simp add: and.assoc)
    then have "h = 0xF0" using hi unfolding that by simp
    have "l AND 0xF0 = ucast (w AND 0xfff0)"
    proof -
      have k: "(0xfff0 :: u16) = push_bit 4 (mask 12)" "(0xF0 :: u8) = push_bit 4 (mask 4)" by (simp_all add: mask_eq_exp_minus_1)
      show ?thesis unfolding k by (rule bit_word_eqI) (auto simp: bits bit_simps)
    qed
    then have "l AND 0xF0 = 0xB0" unfolding that by simp
    moreover have "l = (l AND 0xF0) + (l AND 0x0F)"
    proof -
      have "(l AND 0xF0) AND (l AND 0x0F) = 0" "(l AND 0xF0) OR (l AND 0x0F) = l"
        by (rule u8_eqI; simp add: bit_and_iff bit_or_iff del: bit_0)+
      then show ?thesis using word_plus_and_or [of "l AND 0xF0" "l AND 0x0F"] by simp
    qed
    moreover have "unat (l AND 0x0F) < 16" using word_and_le1 [of l 15] by (simp add: word_le_nat_alt)
    ultimately have "l = 0xB0 + of_nat (unat (l AND 0x0F)) \<and> unat (l AND 0x0F) < 16" by simp
    then show ?thesis using \<open>h = 0xF0\<close> by blast
  qed
qed


lemma at_mem_nth_list: "at_mem pb hc (x # xs) \<Longrightarrow> pb hc = x" "at_mem pb hc (x # y # xs) \<Longrightarrow> pb (hc + 1) = y"
  "at_mem pb hc (x # y # z # xs) \<Longrightarrow> pb (hc + 2) = z" "at_mem pb hc (x # y # z # u # xs) \<Longrightarrow> pb (hc + 3) = u"
  "at_mem pb hc (x # y # z # u # v # xs) \<Longrightarrow> pb (hc + 4) = v"
  by (simp_all add: eval_nat_numeral)

lemma nibble_sum:
  assumes "k < 16" "j < 16"
  shows "ucast (push_bit 4 (0xF0B0 + of_nat k - 0xF0B0 :: u16)) + ucast (0xF0B0 + of_nat j - 0xF0B0 :: u16) = push_bit 4 (of_nat k) + (of_nat j :: u8)"
    "drop_bit 4 (push_bit 4 (of_nat k) + (of_nat j :: u8)) = of_nat k" "(push_bit 4 (of_nat k) + (of_nat j :: u8)) AND 0x0F = of_nat j"
proof -
  have "\<forall>k\<in>set [0..<16]. \<forall>j\<in>set [0..<16]. drop_bit 4 (push_bit 4 (of_nat k) + (of_nat j :: u8)) = of_nat k
      \<and> (push_bit 4 (of_nat k) + (of_nat j :: u8)) AND 0x0F = of_nat j" by code_simp
  then show "drop_bit 4 (push_bit 4 (of_nat k) + (of_nat j :: u8)) = of_nat k" "(push_bit 4 (of_nat k) + (of_nat j :: u8)) AND 0x0F = of_nat j"
    using assms by auto
  have "\<forall>k\<in>set [0..<16]. ucast (push_bit 4 (of_nat k :: u16)) = (push_bit 4 (of_nat k) :: u8) \<and> ucast (of_nat k :: u16) = (of_nat k :: u8)" by code_simp
  then show "ucast (push_bit 4 (0xF0B0 + of_nat k - 0xF0B0 :: u16)) + ucast (0xF0B0 + of_nat j - 0xF0B0 :: u16) = push_bit 4 (of_nat k) + (of_nat j :: u8)"
    using assms by auto
qed

lemma port_16:
  assumes "k < 16"
  shows "set16 (0xF0B0 + ucast (of_nat k :: u8)) = [0xF0, 0xB0 + of_nat k]" "push_bit 8 (ucast (0xF0 :: u8)) OR ucast (0xB0 + of_nat k :: u8) = (0xF0B0 + of_nat k :: u16)"
proof -
  have "\<forall>k\<in>set [0..<16]. set16 (0xF0B0 + ucast (of_nat k :: u8)) = [0xF0, 0xB0 + of_nat k]
    \<and> push_bit 8 (ucast (0xF0 :: u8)) OR ucast (0xB0 + of_nat k :: u8) = (0xF0B0 + of_nat k :: u16)" by code_simp
  then show "set16 (0xF0B0 + ucast (of_nat k :: u8)) = [0xF0, 0xB0 + of_nat k]" "push_bit 8 (ucast (0xF0 :: u8)) OR ucast (0xB0 + of_nat k :: u8) = (0xF0B0 + of_nat k :: u16)"
    using assms by auto
qed

lemma udp_read_back:
  assumes ip: "48 \<le> length ip" and x: "at_mem pb hc (compress_udp ip)" and nh: "iphc0 AND SICSLOWPAN_IPHC_NH_C \<noteq> 0"
  shows "uncompress_udp pb iphc0 hc buf = (hc + length (compress_udp ip), 48,
      write_at 46 (take 2 (drop 46 ip)) (write_at 40 (take 4 (drop 40 ip)) (write_at 6 [17] buf)))"
proof -
  have parts: "take 4 (drop 40 ip) = [ip ! 40, ip ! 41, ip ! 42, ip ! 43]" "take 2 (drop 40 ip) = [ip ! 40, ip ! 41]"
    "take 2 (drop 42 ip) = [ip ! 42, ip ! 43]" "take 2 (drop 46 ip) = [ip ! 46, ip ! 47]"
    using ip by (simp_all add: list_eq_iff_nth_eq less_Suc_eq eval_nat_numeral)
  let ?s = "push_bit 8 (ucast (ip ! 40)) OR ucast (ip ! 41) :: u16" and ?d = "push_bit 8 (ucast (ip ! 42)) OR ucast (ip ! 43) :: u16"
  have w: "get16 ((!) ip) 40 = ?s" "get16 ((!) ip) 42 = ?d" by (simp_all add: get16_def)
  note defs = SICSLOWPAN_NHC_UDP_CS_P_00_def SICSLOWPAN_NHC_UDP_CS_P_01_def SICSLOWPAN_NHC_UDP_CS_P_10_def SICSLOWPAN_NHC_UDP_CS_P_11_def
    SICSLOWPAN_UDP_4_BIT_PORT_MIN_def SICSLOWPAN_UDP_8_BIT_PORT_MIN_def
  note un = SICSLOWPAN_NHC_UDP_MASK_def SICSLOWPAN_NHC_UDP_ID_def SICSLOWPAN_NHC_UDP_CHECKSUMC_def UIP_IPH_LEN_def UIP_UDPH_LEN_def UIP_PROTO_UDP_def
  have main: ?thesis if c: "compress_udp ip = (nhc # ports) @ [ip ! 46, ip ! 47]" and n: "nhc AND 0xF8 = 0xF0" "nhc AND 4 = 0"
    and p: "uncompress_ports pb hc = (hc + length (nhc # ports), take 4 (drop 40 ip))" for nhc ports
  proof -
    have "pb hc = nhc" using x unfolding c by simp
    moreover have "pb (hc + length (nhc # ports)) = ip ! 46" "pb (hc + length (nhc # ports) + 1) = ip ! 47"
      using x unfolding c at_mem_simps(3) by simp_all
    ultimately show ?thesis using n p nh unfolding parts(4) by (simp add: uncompress_udp_def un Let_def c)
  qed
  consider (p11) "?s AND 0xfff0 = 0xF0B0" "?d AND 0xfff0 = 0xF0B0"
    | (p01) "\<not> (?s AND 0xfff0 = 0xF0B0 \<and> ?d AND 0xfff0 = 0xF0B0)" "?d AND 0xff00 = 0xF000"
    | (p10) "\<not> (?s AND 0xfff0 = 0xF0B0 \<and> ?d AND 0xfff0 = 0xF0B0)" "?d AND 0xff00 \<noteq> 0xF000" "?s AND 0xff00 = 0xF000"
    | (p00) "\<not> (?s AND 0xfff0 = 0xF0B0 \<and> ?d AND 0xfff0 = 0xF0B0)" "?d AND 0xff00 \<noteq> 0xF000" "?s AND 0xff00 \<noteq> 0xF000" by blast
  then show ?thesis
  proof cases
    case p11
    from port_halves(2) [OF p11(1)] port_halves(2) [OF p11(2)] obtain k j where kj: "k < 16" "j < 16" "ip ! 40 = 0xF0" "ip ! 41 = 0xB0 + of_nat k"
      "ip ! 42 = 0xF0" "ip ! 43 = 0xB0 + of_nat j" by blast
    have sd: "?s = 0xF0B0 + of_nat k" "?d = 0xF0B0 + of_nat j" using port_16(2) kj by simp_all
    let ?b = "push_bit 4 (of_nat k) + (of_nat j :: u8)"
    have c: "compress_udp ip = [0xF3, ?b] @ [ip ! 46, ip ! 47]"
      using p11 nibble_sum(1) [OF kj(1,2)] unfolding compress_udp_def Let_def w defs parts sd by simp
    have "pb hc = 0xF3" "pb (hc + 1) = ?b" using x unfolding c by simp_all
    then have "uncompress_ports pb hc = (hc + 2, take 4 (drop 40 ip))"
      using nibble_sum(2,3) [OF kj(1,2)] port_16(1) kj unfolding parts by (simp add: uncompress_ports_def Let_def defs)
    then show ?thesis using main [of "0xF3" "[?b]"] c by simp
  next
    case p01
    have d: "ucast (?d - 0xF000) = ip ! 43" "ip ! 42 = 0xF0" "?d = 0xF000 + ucast (ip ! 43)" using port_halves(1) [OF p01(2)] by blast+
    note s16 = port_halves(3) [of "ip ! 42" "ip ! 43"]
    have c: "compress_udp ip = [0xF1, ip ! 40, ip ! 41, ip ! 43] @ [ip ! 46, ip ! 47]"
      by (simp only: compress_udp_def Let_def w defs parts p01 if_False if_True d(1) append.simps refl)
    have "pb hc = 0xF1" "pb (hc + 1) = ip ! 40" "pb (hc + 2) = ip ! 41" "pb (hc + 3) = ip ! 43" by (fact at_mem_nth_list [OF x [unfolded c append.simps]])+
    then have "uncompress_ports pb hc = (hc + 4, take 4 (drop 40 ip))"
      using d(2) s16 [unfolded d(3)] unfolding parts by (simp add: uncompress_ports_def Let_def defs)
    then show ?thesis using main [of "0xF1" "[ip ! 40, ip ! 41, ip ! 43]"] c by simp
  next
    case p10
    have s: "ucast (?s - 0xF000) = ip ! 41" "ip ! 40 = 0xF0" "?s = 0xF000 + ucast (ip ! 41)" using port_halves(1) [OF p10(3)] by blast+
    note s16 = port_halves(3) [of "ip ! 40" "ip ! 41"]
    have c: "compress_udp ip = [0xF2, ip ! 41, ip ! 42, ip ! 43] @ [ip ! 46, ip ! 47]"
      by (simp only: compress_udp_def Let_def w defs parts p10 if_False if_True s(1) append.simps refl)
    have "pb hc = 0xF2" "pb (hc + 1) = ip ! 41" "pb (hc + 2) = ip ! 42" "pb (hc + 3) = ip ! 43" by (fact at_mem_nth_list [OF x [unfolded c append.simps]])+
    then have "uncompress_ports pb hc = (hc + 4, take 4 (drop 40 ip))"
      using s(2) s16 [unfolded s(3)] unfolding parts by (simp add: uncompress_ports_def Let_def defs)
    then show ?thesis using main [of "0xF2" "[ip ! 41, ip ! 42, ip ! 43]"] c by simp
  next
    case p00
    have c: "compress_udp ip = [0xF0, ip ! 40, ip ! 41, ip ! 42, ip ! 43] @ [ip ! 46, ip ! 47]"
      by (simp only: compress_udp_def Let_def w defs parts p00 if_False append.simps)
    have "pb hc = 0xF0" "pb (hc + 1) = ip ! 40" "pb (hc + 2) = ip ! 41" "pb (hc + 3) = ip ! 42" "pb (hc + 4) = ip ! 43"
      by (fact at_mem_nth_list [OF x [unfolded c append.simps]])+
    then have "uncompress_ports pb hc = (hc + 5, take 4 (drop 40 ip))"
      unfolding parts by (simp add: uncompress_ports_def Let_def defs)
    then show ?thesis using main [of "0xF0" "[ip ! 40, ip ! 41, ip ! 42, ip ! 43]"] c by simp
  qed
qed


section \<open>The header\<close>

text \<open>A buffer that has the bytes of the datagram at some indices, and its old contents elsewhere.\<close>

definition has_bytes :: "bytes \<Rightarrow> bytes \<Rightarrow> nat set \<Rightarrow> bytes \<Rightarrow> bool" where
  "has_bytes ip buf S b \<longleftrightarrow> length b = length buf \<and> (\<forall>i<length buf. b ! i = (if i \<in> S then ip ! i else buf ! i))"

lemma has_bytes_start: "has_bytes ip buf {} buf"
  by (simp add: has_bytes_def)

lemma has_bytes_write:
  assumes "has_bytes ip buf S b" "xs = take k (drop p ip)" "p + k \<le> length ip" "p + k \<le> length buf"
  shows "has_bytes ip buf (S \<union> {p..<p + k}) (write_at p xs b)"
  using assms by (auto simp: has_bytes_def nth_write_at)

lemma has_bytes_eq: "has_bytes ip buf S b \<Longrightarrow> S = S' \<Longrightarrow> has_bytes ip buf S' b"
  by simp

lemma has_bytes_all:
  assumes "has_bytes ip buf {..<n} b" "n \<le> length ip" "n \<le> length buf"
  shows "b = write_at 0 (take n ip) buf"
  using assms by (intro nth_equalityI) (auto simp: has_bytes_def nth_write_at)

lemma low_high:
  fixes x y :: u8
  assumes "x AND 0x0F = 0" "y AND 0xF0 = 0"
  shows "x AND y = 0" "y AND x = 0"
proof -
  show "x AND y = 0" using nibble_bits [of x] nibble_bits [of y] assms
    by (intro u8_eqI) (simp_all add: bit_and_iff del: bit_0)
  then show "y AND x = 0" by (simp add: and.commute)
qed

text \<open>A datagram of IPv6: version 6 and a length that is right, also in the header of UDP.\<close>

definition ip_ok :: "bytes \<Rightarrow> bool" where
  "ip_ok ip \<longleftrightarrow> drop_bit 4 (ip ! 0) = 6 \<and> 40 \<le> length ip \<and> length ip = 40 + unat (get16 ((!) ip) 4)
    \<and> (ip ! 6 = UIP_PROTO_UDP \<longrightarrow> 48 \<le> length ip \<and> ip ! 44 = ip ! 4 \<and> ip ! 45 = ip ! 5)"

text \<open>
  What the receiver gets of a compressed datagram: all of it, but for the bytes 2 to 7 of a source that was sent
  without them, which are bytes 10 to 15 of the datagram. Where they are 0 nothing is lost.
\<close>

definition iphc_sent :: "addr_context list \<Rightarrow> bytes \<Rightarrow> bytes" where
  "iphc_sent ctxs ip = (if local_src ctxs ip then write_at 10 (replicate 6 0) ip else ip)"

lemma iphc_sent:
  assumes "40 \<le> length ip"
  shows "length (iphc_sent ctxs ip) = length ip" "i < 10 \<or> 16 \<le> i \<Longrightarrow> i < length ip \<Longrightarrow> iphc_sent ctxs ip ! i = ip ! i"
    "16 \<le> k \<Longrightarrow> drop k (iphc_sent ctxs ip) = drop k ip" "k \<le> 10 \<Longrightarrow> take k (iphc_sent ctxs ip) = take k ip"
    "ip_dest (iphc_sent ctxs ip) = ip_dest ip"
    "ip_src (iphc_sent ctxs ip) = (if local_src ctxs ip then no_subnet (ip_src ip) else ip_src ip)"
proof -
  show len: "length (iphc_sent ctxs ip) = length ip" using assms by (simp add: iphc_sent_def)
  show at: "iphc_sent ctxs ip ! i = ip ! i" if "i < 10 \<or> 16 \<le> i" "i < length ip" for i
    using that assms by (auto simp: iphc_sent_def nth_write_at)
  show "drop k (iphc_sent ctxs ip) = drop k ip" if "16 \<le> k" for k
    using that at len by (intro nth_equalityI) simp_all
  then show "ip_dest (iphc_sent ctxs ip) = ip_dest ip" by (simp add: ip_dest_def)
  show "take k (iphc_sent ctxs ip) = take k ip" if "k \<le> 10" for k
    using that at len assms by (intro nth_equalityI) simp_all
  show "ip_src (iphc_sent ctxs ip) = (if local_src ctxs ip then no_subnet (ip_src ip) else ip_src ip)"
    using assms by (auto simp: iphc_sent_def ip_src_def no_subnet_def nth_write_at nth_append intro!: nth_equalityI)
qed

lemma iphc_sent_ok: "ip_ok ip \<Longrightarrow> ip_ok (iphc_sent ctxs ip)"
proof -
  assume ip: "ip_ok ip"
  then have l: "40 \<le> length ip" by (simp add: ip_ok_def)
  note at = iphc_sent(2) [OF l, where ctxs = ctxs]
  have "iphc_sent ctxs ip ! i = ip ! i" if "i \<in> {0, 4, 5, 6}" for i using at [of i] that l by (cases "ip = []") auto
  moreover have "iphc_sent ctxs ip ! i = ip ! i" if "i \<in> {44, 45}" "48 \<le> length ip" for i using at [of i] that by auto
  ultimately show ?thesis using ip unfolding ip_ok_def iphc_sent(1) [OF l] by (auto simp: get16_def)
qed

definition header_len :: "bytes \<Rightarrow> nat" where
  "header_len ip = (if ip ! 6 = UIP_PROTO_UDP then 48 else 40)"

lemma len_bytes:
  fixes w :: u16
  assumes "w = push_bit 8 (ucast h) OR ucast l" "n = uint w"
  shows "[word_of_int (n div 256), word_of_int n] = [h, l :: u8]"
proof -
  have "set16 w = [h, l]" unfolding assms(1) by (rule port_halves(3))
  moreover have "ucast (drop_bit 8 w AND 0xff) = (word_of_int (n div 256) :: u8)" "ucast (w AND 0xff) = (word_of_int n :: u8)"
  proof -
    have k: "(0xff :: u16) = mask 8" by (simp add: mask_eq_exp_minus_1)
    have "n div 256 = drop_bit 8 (uint w)" unfolding assms(2) drop_bit_eq_div by simp
    then have "word_of_int (n div 256) = (ucast (drop_bit 8 w) :: u8)"
      by (intro bit_word_eqI) (simp add: bit_simps)
    also have "\<dots> = ucast (drop_bit 8 w AND 0xff)" unfolding k by (rule bit_word_eqI) (auto simp: bit_simps)
    finally show "ucast (drop_bit 8 w AND 0xff) = (word_of_int (n div 256) :: u8)" by simp
    have "word_of_int n = (ucast w :: u8)" unfolding assms(2) by (rule ucast_eq [symmetric])
    also have "\<dots> = ucast (w AND 0xff)" unfolding k by (rule bit_word_eqI) (auto simp: bit_simps)
    finally show "ucast (w AND 0xff) = (word_of_int n :: u8)" by simp
  qed
  ultimately show ?thesis by (simp add: set16_def)
qed

lemma nibble_pair:
  fixes x y :: u8
  assumes "unat x < 16" "unat y < 16"
  shows "drop_bit 4 (push_bit 4 x OR y) = x" "(push_bit 4 x OR y) AND 0x0F = y"
proof -
  have "\<forall>i\<in>set [0..<16]. \<forall>j\<in>set [0..<16]. drop_bit 4 (push_bit 4 (of_nat i) OR of_nat j :: u8) = of_nat i
      \<and> (push_bit 4 (of_nat i) OR of_nat j :: u8) AND 0x0F = of_nat j" by code_simp
  moreover have "unat x \<in> set [0..<16]" "unat y \<in> set [0..<16]" using assms by simp_all
  ultimately have "drop_bit 4 (push_bit 4 (of_nat (unat x)) OR of_nat (unat y) :: u8) = of_nat (unat x)
      \<and> (push_bit 4 (of_nat (unat x)) OR of_nat (unat y) :: u8) AND 0x0F = of_nat (unat y)" by blast
  then show "drop_bit 4 (push_bit 4 x OR y) = x" "(push_bit 4 x OR y) AND 0x0F = y" by simp_all
qed

lemma iphc0_bits:
  assumes "compress_tcfl ip = (f, xs)" "nh \<in> {0, 4 :: u8}" "t \<in> {0, 1, 2, 3 :: u8}"
  shows "(0x60 OR f OR nh OR t) AND 0x10 = f AND 0x10" "(0x60 OR f OR nh OR t) AND 8 = f AND 8" "(0x60 OR f OR nh OR t) AND 4 = nh"
    "(0x60 OR f OR nh OR t) AND 3 = t" "(0x60 OR f OR nh OR t) AND 0xe0 = 0x60" "(0x60 OR f OR nh OR t) AND 0xf8 \<notin> {0xc0, 0xe0}"
proof -
  have f: "f \<in> {0x18, 0x10, 8, 0}"
    using assms(1) by (auto simp: compress_tcfl_def Let_def SICSLOWPAN_IPHC_FL_C_def SICSLOWPAN_IPHC_TC_C_def split: if_splits)
  have "\<forall>f\<in>set [0x18, 0x10, 8, 0]. \<forall>n\<in>set [0, 4]. \<forall>t\<in>set [0, 1, 2, 3]. let x = 0x60 OR f OR n OR t :: u8 in
      x AND 0x10 = f AND 0x10 \<and> x AND 8 = f AND 8 \<and> x AND 4 = n \<and> x AND 3 = t \<and> x AND 0xe0 = 0x60 \<and> x AND 0xf8 \<noteq> 0xc0 \<and> x AND 0xf8 \<noteq> 0xe0" by code_simp
  moreover have "f \<in> set [0x18, 0x10, 8, 0]" "nh \<in> set [0, 4]" "t \<in> set [0, 1, 2, 3]" using f assms(2,3) by simp_all
  ultimately have "let x = 0x60 OR f OR nh OR t :: u8 in
      x AND 0x10 = f AND 0x10 \<and> x AND 8 = f AND 8 \<and> x AND 4 = nh \<and> x AND 3 = t \<and> x AND 0xe0 = 0x60 \<and> x AND 0xf8 \<noteq> 0xc0 \<and> x AND 0xf8 \<noteq> 0xe0" by blast
  then show "(0x60 OR f OR nh OR t) AND 0x10 = f AND 0x10" "(0x60 OR f OR nh OR t) AND 8 = f AND 8" "(0x60 OR f OR nh OR t) AND 4 = nh"
    "(0x60 OR f OR nh OR t) AND 3 = t" "(0x60 OR f OR nh OR t) AND 0xe0 = 0x60" "(0x60 OR f OR nh OR t) AND 0xf8 \<notin> {0xc0, 0xe0}"
    unfolding Let_def by blast+
qed

text \<open>What the fields before the length make of the buffer, and with the length.\<close>

definition rebuilt :: "bytes \<Rightarrow> bytes \<Rightarrow> bytes" where
  "rebuilt ip buf =
    (let b = write_at 0 (take 4 ip) buf;
         b = (if ip ! 6 = UIP_PROTO_UDP then b else write_at 6 [ip ! 6] b);
         b = write_at 24 (ip_dest ip) (write_at 8 (ip_src ip) (write_at 7 [ip ! 7] b))
     in if ip ! 6 = UIP_PROTO_UDP then write_at 46 (take 2 (drop 46 ip)) (write_at 40 (take 4 (drop 40 ip)) (write_at 6 [17] b)) else b)"

lemma part_of_list: "i + 1 < length ip \<Longrightarrow> [ip ! i] = take 1 (drop i ip)" "i + 1 < length ip \<Longrightarrow> [ip ! i, ip ! (i + 1)] = take 2 (drop i ip)"
  by (simp_all add: take_Suc_conv_app_nth numeral_2_eq_2 Cons_nth_drop_Suc)

lemma rebuilt_bytes:
  assumes ip: "ip_ok ip" and buf: "48 \<le> length buf"
  shows "has_bytes ip buf ({0..<4} \<union> {6..<40} \<union> (if ip ! 6 = UIP_PROTO_UDP then {40..<44} \<union> {46..<48} else {})) (rebuilt ip buf)"
proof -
  define udp where "udp \<longleftrightarrow> ip ! 6 = UIP_PROTO_UDP"
  have lens: "40 \<le> length ip" using ip by (simp add: ip_ok_def)
  define b1 where "b1 = write_at 0 (take 4 ip) buf"
  define b2 where "b2 = (if udp then b1 else write_at 6 [ip ! 6] b1)"
  define b3 where "b3 = write_at 7 [ip ! 7] b2"
  define b5 where "b5 = write_at 24 (ip_dest ip) (write_at 8 (ip_src ip) b3)"
  define b6 where "b6 = (if udp then write_at 46 (take 2 (drop 46 ip)) (write_at 40 (take 4 (drop 40 ip)) (write_at 6 [17] b5)) else b5)"
  have b6: "rebuilt ip buf = b6" by (simp add: rebuilt_def b6_def b5_def b3_def b2_def b1_def udp_def Let_def)
  have h1: "has_bytes ip buf ({} \<union> {0..<4}) b1"
    unfolding b1_def using lens buf has_bytes_write [OF has_bytes_start [of ip buf], of _ 4 0] by simp
  have h2: "has_bytes ip buf ({0..<4} \<union> (if udp then {} else {6})) b2"
  proof (cases udp)
    case True
    with h1 show ?thesis by (simp add: b2_def)
  next
    case False
    have "has_bytes ip buf ({} \<union> {0..<4} \<union> {6..<6 + 1}) (write_at 6 [ip ! 6] b1)"
      by (rule has_bytes_write [OF h1]) (use part_of_list(1) [of 6 ip] lens buf in simp_all)
    moreover have "b2 = write_at 6 [ip ! 6] b1" using False by (simp add: b2_def)
    ultimately show ?thesis by (simp only:) (erule has_bytes_eq, use False in auto)
  qed
  have h3: "has_bytes ip buf ({0..<4} \<union> (if udp then {} else {6}) \<union> {7}) b3"
    unfolding b3_def by (rule has_bytes_eq [OF has_bytes_write [OF h2, of _ 1]]) (use part_of_list(1) [of 7 ip] lens buf in auto)
  have h4: "has_bytes ip buf (({0..<4} \<union> (if udp then {} else {6}) \<union> {7} \<union> {8..<24}) \<union> {24..<40}) b5"
    unfolding b5_def using has_bytes_write [OF has_bytes_write [OF h3, of "ip_src ip" 16 8], of "ip_dest ip" 16 24] lens buf
    by (simp add: ip_src_def ip_dest_def)
  then have h5: "has_bytes ip buf ({0..<4} \<union> (if udp then {} else {6}) \<union> {7..<40}) b5"
    by (rule has_bytes_eq) (auto split: if_splits)
  have h6: "has_bytes ip buf ({0..<4} \<union> {6..<40} \<union> (if udp then {40..<44} \<union> {46..<48} else {})) b6"
  proof (cases udp)
    case True
    then have u: "48 \<le> length ip" "[17] = take 1 (drop 6 ip)" using ip part_of_list(1) [of 6 ip] by (simp_all add: ip_ok_def udp_def UIP_PROTO_UDP_def)
    have "has_bytes ip buf ((({0..<4} \<union> {7..<40}) \<union> {6..<6 + 1}) \<union> {40..<40 + 4} \<union> {46..<46 + 2}) b6"
    proof -
      have "has_bytes ip buf ({0..<4} \<union> {7..<40}) b5" using h5 True by simp
      from has_bytes_write [OF this u(2)] have "has_bytes ip buf ({0..<4} \<union> {7..<40} \<union> {6..<6 + 1}) (write_at 6 [17] b5)" using u(1) buf by simp
      from has_bytes_write [OF has_bytes_write [OF this, of "take 4 (drop 40 ip)" 4 40], of "take 2 (drop 46 ip)" 2 46] u(1) buf True
      show ?thesis unfolding b6_def by simp
    qed
    then show ?thesis by (rule has_bytes_eq) (use True in auto)
  next
    case False
    then have "b6 = b5" by (simp add: b6_def)
    show ?thesis unfolding \<open>b6 = b5\<close> by (rule has_bytes_eq [OF h5]) (use False in auto)
  qed
  then show ?thesis unfolding b6 udp_def .
qed

lemma rebuilt_len:
  assumes ip: "ip_ok ip" and buf: "48 \<le> length buf"
    and len: "ip_len = 0 \<and> datalen = hdr + (length ip - header_len ip) \<or> ip_len \<noteq> 0 \<and> unat ip_len = length ip"
  shows "uncompress_len datalen ip_len hdr (header_len ip) (rebuilt ip buf) = write_at 0 (take (header_len ip) ip) buf"
proof -
  define udp where "udp \<longleftrightarrow> ip ! 6 = UIP_PROTO_UDP"
  define n where "n = header_len ip"
  have n: "n = (if udp then 48 else 40)" by (simp add: n_def header_len_def udp_def)
  have lens: "40 \<le> length ip" using ip by (simp add: ip_ok_def)
  note h6 = rebuilt_bytes [OF ip buf, folded udp_def]
  define total where "total = (if ip_len = 0 then int datalen - int hdr + int n - int UIP_IPH_LEN else uint ip_len - int UIP_IPH_LEN)"
  have "udp \<Longrightarrow> 48 \<le> length ip" using ip unfolding ip_ok_def udp_def by blast
  then have "n \<le> length ip" using lens n by simp
  then have "total = int (length ip) - 40"
  proof (cases "ip_len = 0")
    case True
    then show ?thesis using len \<open>n \<le> length ip\<close> unfolding n_def [symmetric] total_def UIP_IPH_LEN_def by (auto simp: of_nat_diff)
  next
    case False
    then have "int (unat ip_len) = int (length ip)" using len by simp
    then show ?thesis using False unfolding total_def UIP_IPH_LEN_def by simp
  qed
  moreover have "int (length ip) = 40 + int (unat (get16 ((!) ip) 4))" using ip unfolding ip_ok_def by (metis of_nat_add of_nat_numeral)
  ultimately have total: "total = uint (get16 ((!) ip) 4)" by simp
  have bytes: "[word_of_int (total div 256), word_of_int total] = [ip ! 4, ip ! 5]"
    by (rule len_bytes [OF _ total]) (simp add: get16_def)
  define b7 where "b7 = write_at 4 [ip ! 4, ip ! 5] (rebuilt ip buf)"
  have h7: "has_bytes ip buf ({0..<4} \<union> {6..<40} \<union> (if udp then {40..<44} \<union> {46..<48} else {}) \<union> {4..<4 + 2}) b7"
    unfolding b7_def using has_bytes_write [OF h6, of "[ip ! 4, ip ! 5]" 2 4] part_of_list(2) [of 4 ip] lens buf by simp
  have b7_at: "b7 ! 6 = ip ! 6" "take 2 (drop 4 b7) = [ip ! 4, ip ! 5]"
  proof -
    have "length b7 = length buf" "b7 ! 4 = ip ! 4" "b7 ! 5 = ip ! 5" "b7 ! 6 = ip ! 6" using h7 buf by (auto simp: has_bytes_def)
    then show "b7 ! 6 = ip ! 6" "take 2 (drop 4 b7) = [ip ! 4, ip ! 5]"
      using buf by (simp_all add: list_eq_iff_nth_eq less_Suc_eq eval_nat_numeral)
  qed
  have "uncompress_len datalen ip_len hdr n (rebuilt ip buf) = (if udp then write_at 44 [ip ! 4, ip ! 5] b7 else b7)"
    unfolding uncompress_len_def Let_def total_def [symmetric] bytes b7_def [symmetric] b7_at udp_def ..
  also have "\<dots> = write_at 0 (take n ip) buf"
  proof (rule has_bytes_all [of ip buf n])
    show "has_bytes ip buf {..<n} (if udp then write_at 44 [ip ! 4, ip ! 5] b7 else b7)"
    proof (cases udp)
      case True
      then have "48 \<le> length ip" "[ip ! 4, ip ! 5] = take 2 (drop 44 ip)" using ip part_of_list(2) [of 44 ip] by (simp_all add: ip_ok_def udp_def)
      from has_bytes_write [OF h7 this(2)] this(1) buf
      have "has_bytes ip buf ({0..<4} \<union> {6..<40} \<union> (if udp then {40..<44} \<union> {46..<48} else {}) \<union> {4..<4 + 2} \<union> {44..<44 + 2}) (write_at 44 [ip ! 4, ip ! 5] b7)" by simp
      moreover have "(if udp then write_at 44 [ip ! 4, ip ! 5] b7 else b7) = write_at 44 [ip ! 4, ip ! 5] b7" using True by simp
      ultimately show ?thesis by (simp only:) (erule has_bytes_eq, use True in \<open>auto simp: n\<close>)
    next
      case False
      then have "(if udp then write_at 44 [ip ! 4, ip ! 5] b7 else b7) = b7" by simp
      show ?thesis unfolding \<open>_ = b7\<close> by (rule has_bytes_eq [OF h7]) (use False in \<open>auto simp: n\<close>)
    qed
    show "n \<le> length ip" by fact
    show "n \<le> length buf" using buf n by auto
  qed
  finally show ?thesis unfolding n_def .
qed

theorem header_read_back:
  assumes ip: "ip_ok ip" and ctxs: "contexts_ok ctxs" and l: "length (pb_sender b) = 8" "length (pb_receiver b) = 8"
    and h: "compress_hdr_iphc ctxs (pb_sender b) (pb_receiver b) ip = (h, n)" and mem: "at_mem pb hdr h" and buf: "48 \<le> length buf"
    and len: "ip_len = 0 \<and> length (pb_data b) = hdr + length h + (length ip - n) \<or> ip_len \<noteq> 0 \<and> unat ip_len = length ip"
  shows "uncompress_hdr_iphc ctxs b pb hdr ip_len buf = (write_at 0 (take n (iphc_sent ctxs ip)) buf, hdr + length h, n)" "n = header_len ip"
    "pb hdr AND 0xe0 = SICSLOWPAN_DISPATCH_IPHC" "pb hdr AND 0xf8 \<notin> {0xc0, 0xe0}"
proof -
  let ?src = "addr_context_lookup_by_prefix ctxs (ip_src ip)" and ?dest = "addr_context_lookup_by_prefix ctxs (ip_dest ip)"
  define udp where "udp \<longleftrightarrow> ip ! 6 = UIP_PROTO_UDP"
  define cid where "cid \<longleftrightarrow> ?dest \<noteq> None \<or> ?src \<noteq> None"
  obtain f tcfl where tc: "compress_tcfl ip = (f, tcfl)" by (cases "compress_tcfl ip")
  obtain t ttl where tt: "compress_ttl ip = (t, ttl)" by (cases "compress_ttl ip")
  obtain s sci src where ss: "compress_src ctxs (pb_sender b) ip = (s, sci, src)" by (cases "compress_src ctxs (pb_sender b) ip") auto
  obtain d dci dest where dd: "compress_dest ctxs (pb_receiver b) ip = (d, dci, dest)" by (cases "compress_dest ctxs (pb_receiver b) ip") auto
  define iphc0 where "iphc0 = 0x60 OR f OR (if udp then 4 else 0) OR t"
  define iphc1 where "iphc1 = (if cid then 0x80 else 0) OR s OR d"
  define cb where "cb = (if cid then [sci OR dci] else [])"
  define nh where "nh = (if udp then [] else [ip ! 6])"
  define up where "up = (if udp then compress_udp ip else [])"
  have hn: "h = [iphc0, iphc1] @ cb @ tcfl @ nh @ ttl @ src @ dest @ up" "n = (if udp then 48 else 40)"
    using h unfolding compress_hdr_iphc_def Let_def udp_def [symmetric] cid_def [symmetric] tc tt ss dd prod.case SICSLOWPAN_DISPATCH_IPHC_def
      SICSLOWPAN_IPHC_NH_C_def SICSLOWPAN_IPHC_CID_def iphc0_def iphc1_def cb_def nh_def up_def
    by (auto simp: UIP_IPH_LEN_def UIP_UDPH_LEN_def)
  show n: "n = header_len ip" using hn(2) by (simp add: header_len_def udp_def)
  note m = mem [unfolded hn(1) at_mem_simps(3)]
  define c1 where "c1 = hdr + length [iphc0, iphc1] + length cb"
  define c2 where "c2 = c1 + length tcfl"
  define c3 where "c3 = c2 + length nh"
  define c4 where "c4 = c3 + length ttl"
  define c5 where "c5 = c4 + length src"
  define c6 where "c6 = c5 + length dest"
  note c = c1_def c2_def c3_def c4_def c5_def c6_def
  have at: "pb hdr = iphc0" "pb (hdr + 1) = iphc1" "at_mem pb (hdr + 2) cb" "at_mem pb c1 tcfl" "at_mem pb c2 nh" "at_mem pb c3 ttl"
    "at_mem pb c4 src" "at_mem pb c5 dest" "at_mem pb c6 up"
    using m by (simp_all add: c add.assoc)
  have lens: "40 \<le> length ip" "length (ip_src ip) = 16" "length (ip_dest ip) = 16" "drop_bit 4 (ip ! 0) = 6"
    using ip by (auto simp: ip_ok_def ip_src_def ip_dest_def)
  note t3 = ttl_read_back(2) [OF tt at(6)]
  have t3: "t \<in> {0, 1, 2, 3}" using tt by (auto simp: compress_ttl_def Let_def split: if_splits)
  note i0 = iphc0_bits [OF tc _ t3, of "if udp then 4 else 0", folded iphc0_def]
  have i0: "iphc0 AND 0x10 = f AND 0x10" "iphc0 AND 8 = f AND 8" "iphc0 AND 4 = (if udp then 4 else 0)" "iphc0 AND 3 = t"
    "iphc0 AND 0xe0 = 0x60" "iphc0 AND 0xf8 \<notin> {0xc0, 0xe0}"
    by (rule i0; simp)+
  then show "pb hdr AND 0xe0 = SICSLOWPAN_DISPATCH_IPHC" "pb hdr AND 0xf8 \<notin> {0xc0, 0xe0}"
    by (simp_all add: at SICSLOWPAN_DISPATCH_IPHC_def)
  note s_nib = src_nibbles [OF lens(2) ctxs ss] and d_nib = dest_nibbles [OF lens(3) ctxs dd]
  have nib: "d AND 0x80 = 0" "d AND 0x40 = 0" "d AND 0x30 = 0" "s AND 8 = 0" "s AND 4 = 0" "s AND 3 = 0"
    using low_high(2) [OF _ d_nib(1)] low_high(1) [OF s_nib(1)] by simp_all
  have i1: "iphc1 AND 0x40 = s AND 0x40" "iphc1 AND 0x30 = s AND 0x30" "iphc1 AND 8 = d AND 8" "iphc1 AND 4 = d AND 4" "iphc1 AND 3 = d AND 3"
    "iphc1 AND 0x80 \<noteq> 0 \<longleftrightarrow> cid"
    using nib s_nib(2) unfolding iphc1_def by (auto simp: bit.conj_disj_distrib2 cid_def)
  have ctx: "cid \<Longrightarrow> drop_bit 4 (pb (hdr + 2)) = drop_bit 4 sci \<and> pb (hdr + 2) AND 0x0f = dci"
  proof -
    assume cid
    then have b: "pb (hdr + 2) = sci OR dci" using at(3) by (simp add: cb_def)
    obtain k where k: "sci = push_bit 4 k" "unat k < 16" using s_nib(3) by blast
    show ?thesis using nibble_pair [OF k(2) d_nib(3)] nibble_shift [OF k(2)] unfolding b k(1) by simp
  qed
  have hc: "hdr + 2 + (if iphc1 AND SICSLOWPAN_IPHC_CID \<noteq> 0 then 1 else 0) = c1"
    using i1(6) by (simp add: SICSLOWPAN_IPHC_CID_def c1_def cb_def)
  define b1 where "b1 = write_at 0 (take 4 ip) buf"
  have r1: "uncompress_tcfl pb iphc0 c1 buf = (c2, b1)"
    unfolding b1_def c2_def using tcfl_read_back [OF lens(1,4) tc at(4)] i0(1,2) by (simp add: SICSLOWPAN_IPHC_FL_C_def SICSLOWPAN_IPHC_TC_C_def)
  define b2 where "b2 = (if udp then b1 else write_at 6 [ip ! 6] b1)"
  have r2: "uncompress_nh pb iphc0 c2 b1 = (c3, b2)"
    using i0(3) at(5) by (auto simp: uncompress_nh_def SICSLOWPAN_IPHC_NH_C_def nh_def b2_def c3_def)
  define b3 where "b3 = write_at 7 [ip ! 7] b2"
  have r3: "uncompress_ttl pb iphc0 c3 b2 = (c4, b3)"
    unfolding b3_def c4_def by (rule ttl_read_back(1) [OF tt at(6) i0(4)])
  define ip' where "ip' = iphc_sent ctxs ip"
  note same = iphc_sent [OF lens(1), where ctxs = ctxs, folded ip'_def]
  have r4: "uncompress_src ctxs (pb_sender b) pb hdr iphc1 c4 = Some (ip_src ip', c5)"
    unfolding c5_def same(6) using ctx i1 by (intro src_read_back [OF lens(2) l(1) ctxs ss at(7)]) (auto simp: cid_def)
  have r5: "uncompress_dest ctxs (pb_receiver b) pb hdr iphc1 c5 = Some (Some (ip_dest ip), c6)"
    unfolding c6_def using ctx i1 by (intro dest_read_back [OF lens(3) l(2) ctxs dd at(8)]) (auto simp: cid_def)
  define b5 where "b5 = write_at 24 (ip_dest ip) (write_at 8 (ip_src ip') b3)"
  define b6 where "b6 = (if udp then write_at 46 (take 2 (drop 46 ip)) (write_at 40 (take 4 (drop 40 ip)) (write_at 6 [17] b5)) else b5)"
  have ip': "ip' ! 6 = ip ! 6" "ip' ! 7 = ip ! 7" using same(2) [of 6] same(2) [of 7] lens(1) by simp_all
  have b6: "b6 = rebuilt ip' buf"
    by (simp add: rebuilt_def b6_def b5_def b3_def b2_def b1_def udp_def ip' same(3,4,5) Let_def)
  have n': "n = header_len ip'" unfolding n header_len_def ip' ..
  have h_len: "hdr + length h = c6 + length up" unfolding hn(1) by (simp add: c)
  have r6: "uncompress_udp pb iphc0 c6 b5 = (hdr + length h, n, b6)"
  proof (cases udp)
    case True
    then have "48 \<le> length ip" "at_mem pb c6 (compress_udp ip)" "iphc0 AND SICSLOWPAN_IPHC_NH_C \<noteq> 0"
      using ip at(9) i0(3) by (simp_all add: ip_ok_def udp_def up_def SICSLOWPAN_IPHC_NH_C_def)
    from udp_read_back [OF this] show ?thesis using True by (simp add: b6_def up_def h_len hn(2))
  next
    case False
    then show ?thesis using i0(3) by (simp add: uncompress_udp_def SICSLOWPAN_IPHC_NH_C_def b6_def up_def h_len hn(2) UIP_IPH_LEN_def)
  qed
  have run: "uncompress_hdr_iphc ctxs b pb hdr ip_len buf = (uncompress_len (length (pb_data b)) ip_len (hdr + length h) n b6, hdr + length h, n)"
    unfolding uncompress_hdr_iphc_def Let_def at(1,2) hc r1 r2 r3 r4 r5 r6 prod.case option.case b5_def [symmetric] by (simp add: r6)
  have "uncompress_len (length (pb_data b)) ip_len (hdr + length h) (header_len ip') (rebuilt ip' buf) = write_at 0 (take (header_len ip') ip') buf"
    using len unfolding n' by (intro rebuilt_len) (auto simp: same(1) buf iphc_sent_ok [OF ip, where ctxs = ctxs, folded ip'_def])
  then show "uncompress_hdr_iphc ctxs b pb hdr ip_len buf = (write_at 0 (take n (iphc_sent ctxs ip)) buf, hdr + length h, n)"
    unfolding run b6 n' ip'_def [symmetric] by simp
qed


end
