(* ===== verification/Fragment_Laws.thy ===== *)
theory Fragment_Laws
  imports Iphc_Laws
begin

text \<open>
  The laws of the buffers of the adaptation layer: the invariant \<open>lowpan_ok\<close>, freeing and claiming of contexts,
  storing and copying of fragments, and that no input of frames whose data fit leaves the bounds of a buffer
  (\<open>inputs_safe\<close>).
\<close>

section \<open>The invariant\<close>

definition frag_buf_ok :: "frag_info list \<Rightarrow> frag_buf \<Rightarrow> bool" where
  "frag_buf_ok cs f \<longleftrightarrow> length (fb_data f) = SICSLOWPAN_FRAGMENT_SIZE
    \<and> (0 < fb_len f \<longrightarrow> unat (fb_len f) \<le> SICSLOWPAN_FRAGMENT_SIZE \<and> unat (fb_index f) < length cs
      \<and> 0 < fi_len (cs ! unat (fb_index f)) \<and> 8 * unat (fb_offset f) + unat (fb_len f) \<le> UIP_BUFSIZE)"

definition frag_info_ok :: "frag_info \<Rightarrow> bool" where
  "frag_info_ok c \<longleftrightarrow> length (fi_first_frag c) = SICSLOWPAN_FIRST_FRAGMENT_SIZE \<and> unat (fi_first_frag_len c) \<le> SICSLOWPAN_FIRST_FRAGMENT_SIZE"

text \<open>The buffers have their sizes, and each used one holds a fragment inside the datagram of a used context.\<close>

definition lowpan_ok :: "lowpan \<Rightarrow> bool" where
  "lowpan_ok s \<longleftrightarrow> length (uip_buf s) = UIP_BUFSIZE \<and> length (frag_infos s) = SICSLOWPAN_REASS_CONTEXTS
    \<and> length (frag_bufs s) = SICSLOWPAN_FRAGMENT_BUFFERS \<and> (\<forall>c\<in>set (frag_infos s). frag_info_ok c)
    \<and> (\<forall>f\<in>set (frag_bufs s). frag_buf_ok (frag_infos s) f) \<and> contexts_ok (addr_contexts s)"

lemma offset_bytes: "unat (push_bit 3 (ucast x) :: u16) = 8 * unat (x :: u8)"
proof -
  have "unat x < 256" by (rule order_less_le_trans [OF unsigned_less]) simp
  then show ?thesis by (simp add: push_bit_eq_mult unat_word_ariths unsigned_ucast_eq take_bit_nat_eq_self)
qed

lemma two_contexts [simp]: "[0..<SICSLOWPAN_REASS_CONTEXTS] = [0, 1]"
  by (simp add: SICSLOWPAN_REASS_CONTEXTS_def eval_nat_numeral)

section \<open>Freeing contexts\<close>

definition free_bufs :: "lowpan \<Rightarrow> nat" where
  "free_bufs s = length (filter (\<lambda>f. fb_len f = 0) (frag_bufs s))"

text \<open>Contexts may have become free, and buffers; the rest is as before.\<close>

definition freed :: "lowpan \<Rightarrow> lowpan \<Rightarrow> bool" where
  "freed s s' \<longleftrightarrow> (lowpan_ok s \<longrightarrow> lowpan_ok s') \<and> length (frag_infos s') = length (frag_infos s)
    \<and> (\<forall>j<length (frag_infos s). frag_infos s' ! j = frag_infos s ! j \<or> fi_len (frag_infos s' ! j) = 0)
    \<and> free_bufs s \<le> free_bufs s' \<and> uip_buf s' = uip_buf s \<and> uip_len s' = uip_len s \<and> addr_contexts s' = addr_contexts s
    \<and> tcpip_inputs s' = tcpip_inputs s"

lemma freed_refl [simp]: "freed s s"
  by (simp add: freed_def)

lemma freed_trans: "freed s s' \<Longrightarrow> freed s' s'' \<Longrightarrow> freed s s''"
  unfolding freed_def by (elim conjE, intro conjI) (metis le_trans)+

lemma freed_timers [simp]: "freed s (s\<lparr>reass_timers := t\<rparr>)"
  by (simp add: freed_def lowpan_ok_def free_bufs_def)

lemma cleared_bufs: "length (filter (\<lambda>f. fb_len f = 0) fs) \<le> length (filter (\<lambda>f. fb_len f = 0) (map (\<lambda>f. if P f then f\<lparr>fb_len := 0\<rparr> else f) fs))"
  by (induction fs) auto

lemma clear_simps [simp]:
  "frag_infos (snd (clear_fragments i s)) = (frag_infos s)[i := (frag_infos s ! i)\<lparr>fi_len := 0\<rparr>]"
  "frag_bufs (snd (clear_fragments i s)) = map (\<lambda>f. if 0 < fb_len f \<and> unat (fb_index f) = i then f\<lparr>fb_len := 0\<rparr> else f) (frag_bufs s)"
  "uip_buf (snd (clear_fragments i s)) = uip_buf s" "uip_len (snd (clear_fragments i s)) = uip_len s"
  "addr_contexts (snd (clear_fragments i s)) = addr_contexts s" "tcpip_inputs (snd (clear_fragments i s)) = tcpip_inputs s"
  by (simp_all add: clear_fragments_def Let_def)

lemma clear_ok:
  assumes s: "lowpan_ok s" and i: "i < length (frag_infos s)"
  shows "lowpan_ok (snd (clear_fragments i s))"
proof -
  have "frag_info_ok ((frag_infos s ! i)\<lparr>fi_len := 0\<rparr>)" using s i by (auto simp: lowpan_ok_def frag_info_ok_def)
  moreover have "frag_buf_ok ((frag_infos s)[i := (frag_infos s ! i)\<lparr>fi_len := 0\<rparr>]) (if 0 < fb_len f \<and> unat (fb_index f) = i then f\<lparr>fb_len := 0\<rparr> else f)"
    if "frag_buf_ok (frag_infos s) f" for f
    using that by (cases "unat (fb_index f) = i"; cases "0 < fb_len f") (simp_all add: frag_buf_ok_def)
  moreover have "set ((frag_infos s)[i := x]) \<subseteq> insert x (set (frag_infos s))" for x by (rule set_update_subset_insert)
  ultimately show ?thesis using s unfolding lowpan_ok_def clear_simps by (simp only: length_list_update length_map set_map) blast
qed

lemma clear_freed:
  assumes "i < length (frag_infos s)"
  shows "freed s (snd (clear_fragments i s))" "fi_len (frag_infos (snd (clear_fragments i s)) ! i) = 0"
    "\<forall>f\<in>set (frag_bufs (snd (clear_fragments i s))). 0 < fb_len f \<longrightarrow> unat (fb_index f) \<noteq> i"
proof -
  show "freed s (snd (clear_fragments i s))"
    unfolding freed_def free_bufs_def clear_simps using assms clear_ok cleared_bufs by (simp add: nth_list_update)
  show "fi_len (frag_infos (snd (clear_fragments i s)) ! i) = 0" using assms by simp
  show "\<forall>f\<in>set (frag_bufs (snd (clear_fragments i s))). 0 < fb_len f \<longrightarrow> unat (fb_index f) \<noteq> i"
    unfolding clear_simps set_map by (rule ballI, erule imageE) (simp split: if_splits)
qed

lemma expired_freed: "reass_expired clk i s = (e, s') \<Longrightarrow> freed s s' \<and> frag_infos s' = frag_infos s"
  by (auto simp: reass_expired_def split: if_splits prod.splits)

lemma timeout_freed: "set is \<subseteq> {..<length (frag_infos s)} \<Longrightarrow> timeout_loop clk k is n s = (m, s') \<Longrightarrow> freed s s'"
proof (induction clk k "is" n s rule: timeout_loop.induct)
  case (2 clk k i "is" n s)
  obtain e s1 where e: "(if i \<noteq> k then reass_expired clk i s else (False, s)) = (e, s1)" by (meson surj_pair)
  then have f: "freed s s1" "frag_infos s1 = frag_infos s" using expired_freed by (auto split: if_splits)
  obtain n' s2 where c: "clear_fragments i s1 = (n', s2)" by (meson surj_pair)
  have f2: "freed s1 s2" using clear_freed(1) [of i s1] 2(3) f(2) c by simp
  then have l2: "length (frag_infos s2) = length (frag_infos s)" using f(2) by (simp add: freed_def)
  show ?case
  proof (cases e)
    case True
    then show ?thesis using 2(1) [OF e [symmetric] refl _ c [symmetric] refl] 2(3,4) e c f f2 l2 by (auto intro: freed_trans)
  next
    case False
    then show ?thesis using 2(2) [OF e [symmetric] refl] 2(3,4) e f by (auto intro: freed_trans)
  qed
qed simp

lemma timeout_fragments_freed: "length (frag_infos s) = SICSLOWPAN_REASS_CONTEXTS \<Longrightarrow> freed s (snd (timeout_fragments clk k s))"
  using timeout_freed [of "[0, 1]" s clk k 0] unfolding timeout_fragments_def two_contexts
  by (cases "timeout_loop clk k [0, 1] 0 s") (auto simp: SICSLOWPAN_REASS_CONTEXTS_def)
lemma claim_freed:
  assumes "set is \<subseteq> {..<length (frag_infos s)}" "claim_loop clk is found s = (r, s')"
    and "\<forall>i. found = Some i \<longrightarrow> i < length (frag_infos s) \<and> fi_len (frag_infos s ! i) = 0"
  shows "freed s s' \<and> (\<forall>i. r = Some i \<longrightarrow> i < length (frag_infos s) \<and> fi_len (frag_infos s' ! i) = 0)
    \<and> (r = None \<longrightarrow> found = None \<and> (\<forall>i\<in>set is. 0 < fi_len (frag_infos s ! i)))"
  using assms
proof (induction clk "is" found s rule: claim_loop.induct)
  case (2 clk i "is" found s)
  obtain e s1 where e: "reass_expired clk i s = (e, s1)" by (meson surj_pair)
  then have f: "freed s s1" "frag_infos s1 = frag_infos s" using expired_freed by auto
  define s2 where "s2 = (if e then snd (clear_fragments i s1) else s1)"
  have i: "i < length (frag_infos s1)" using 2(2) f by simp
  have "freed s1 s2" using clear_freed(1) [OF i] by (simp add: s2_def)
  with f have f2: "freed s s2" by (blast intro: freed_trans)
  define found' where "found' = (if found = None \<and> fi_len (frag_infos s2 ! i) = 0 then Some i else found)"
  have run: "claim_loop clk is found' s2 = (r, s')" using 2(3) by (simp add: e s2_def found'_def Let_def)
  have l2: "length (frag_infos s2) = length (frag_infos s)" using f2 by (simp add: freed_def)
  have z: "fi_len (frag_infos s2 ! j) = 0" if "fi_len (frag_infos s ! j) = 0" "j < length (frag_infos s)" for j
    using f2 that by (auto simp: freed_def)
  have "\<forall>j. found' = Some j \<longrightarrow> j < length (frag_infos s2) \<and> fi_len (frag_infos s2 ! j) = 0"
    using 2(2,4) z unfolding l2 by (auto simp: found'_def)
  from 2(1) [OF e [symmetric] refl s2_def _ run [unfolded found'_def] this [unfolded found'_def]] 2(2) l2
  have IH: "freed s2 s' \<and> (\<forall>i. r = Some i \<longrightarrow> i < length (frag_infos s2) \<and> fi_len (frag_infos s' ! i) = 0)
    \<and> (r = None \<longrightarrow> found' = None \<and> (\<forall>i\<in>set is. 0 < fi_len (frag_infos s2 ! i)))" by (simp add: found'_def)
  have "0 < fi_len (frag_infos s ! j)" if "0 < fi_len (frag_infos s2 ! j)" "j < length (frag_infos s)" for j
    using z [of j] that by (auto simp: word_gt_0)
  moreover have "r = None \<Longrightarrow> found = None \<and> 0 < fi_len (frag_infos s2 ! i)" using IH by (auto simp: found'_def word_gt_0 split: if_splits)
  ultimately show ?case using IH freed_trans [OF f2] l2 2(2) by auto
qed auto

section \<open>Steps\<close>

lemma lowpan_ok_more [simp]:
  "lowpan_ok (s\<lparr>reass_timers := t\<rparr>) = lowpan_ok s" "lowpan_ok (s\<lparr>uip_len := n\<rparr>) = lowpan_ok s"
  "lowpan_ok (s\<lparr>tcpip_inputs := xs\<rparr>) = lowpan_ok s"
  "lowpan_ok s \<Longrightarrow> length buf = UIP_BUFSIZE \<Longrightarrow> lowpan_ok (s\<lparr>uip_buf := buf\<rparr>)"
  by (simp_all add: lowpan_ok_def)

lemma lowpan_ok_by:
  assumes "lowpan_ok s" "uip_buf s' = uip_buf s" "addr_contexts s' = addr_contexts s" "length (frag_infos s') = length (frag_infos s)"
    "length (frag_bufs s') = length (frag_bufs s)" "\<And>c. c \<in> set (frag_infos s') \<Longrightarrow> frag_info_ok c"
    "\<And>f. f \<in> set (frag_bufs s') \<Longrightarrow> frag_buf_ok (frag_infos s') f"
  shows "lowpan_ok s'"
  using assms unfolding lowpan_ok_def by (simp only:) blast

lemma set_update_cases: "x \<in> set (xs[i := y]) \<Longrightarrow> x = y \<or> x \<in> set xs"
  using set_update_subset_insert [of xs i y] by blast

lemma lowpan_ok_buf:
  assumes "lowpan_ok s" "frag_buf_ok (frag_infos s) f"
  shows "lowpan_ok (s\<lparr>frag_bufs := (frag_bufs s)[i := f]\<rparr>)"
  using assms by (intro lowpan_ok_by [OF assms(1)]) (auto dest!: set_update_cases simp: lowpan_ok_def)

lemma frag_buf_ok_update:
  assumes "frag_buf_ok cs f" "0 < fi_len c \<or> \<not> (0 < fb_len f \<and> unat (fb_index f) = i)"
  shows "frag_buf_ok (cs[i := c]) f"
  using assms unfolding frag_buf_ok_def length_list_update by (cases "unat (fb_index f) = i") auto

lemma lowpan_ok_info:
  assumes s: "lowpan_ok s" and c: "frag_info_ok c" "0 < fi_len c \<or> (i < length (frag_infos s) \<and> fi_len (frag_infos s ! i) = 0)"
  shows "lowpan_ok (s\<lparr>frag_infos := (frag_infos s)[i := c]\<rparr>)"
proof (rule lowpan_ok_by [OF s])
  fix f assume "f \<in> set (frag_bufs (s\<lparr>frag_infos := (frag_infos s)[i := c]\<rparr>))"
  then have f: "frag_buf_ok (frag_infos s) f" using s by (simp add: lowpan_ok_def)
  moreover have "0 < fi_len c \<or> \<not> (0 < fb_len f \<and> unat (fb_index f) = i)" using f c(2) unfolding frag_buf_ok_def by fastforce
  ultimately show "frag_buf_ok (frag_infos (s\<lparr>frag_infos := (frag_infos s)[i := c]\<rparr>)) f" by (simp add: frag_buf_ok_update)
qed (use s c(1) in \<open>auto dest!: set_update_cases simp: lowpan_ok_def\<close>)

lemma info_of: "lowpan_ok s \<Longrightarrow> i < length (frag_infos s) \<Longrightarrow> frag_info_ok (frag_infos s ! i)"
  by (simp add: lowpan_ok_def)

lemma first_claimed:
  assumes "lowpan_ok s" "add_first_fragment clk b tag frag_size s = (c, s')"
  shows "(c = None \<longrightarrow> freed s s' \<and> (\<forall>i<2. 0 < fi_len (frag_infos s ! i)))
    \<and> (\<forall>i. c = Some i \<longrightarrow> (\<exists>s1. freed s s1 \<and> i < length (frag_infos s) \<and> fi_len (frag_infos s1 ! i) = 0 \<and> lowpan_ok s'
      \<and> s' = s1\<lparr>frag_infos := (frag_infos s1)[i := (frag_infos s1 ! i)\<lparr>fi_len := frag_size, fi_tag := tag, fi_sender := pb_sender b\<rparr>],
          reass_timers := reass_timers s'\<rparr>))"
proof -
  obtain r s1 where run: "claim_loop clk [0, 1] None s = (r, s1)" by (meson surj_pair)
  have two: "length (frag_infos s) = 2" using assms(1) by (simp add: lowpan_ok_def SICSLOWPAN_REASS_CONTEXTS_def)
  have claim: "freed s s1" "\<And>i. r = Some i \<Longrightarrow> i < length (frag_infos s) \<and> fi_len (frag_infos s1 ! i) = 0"
    "r = None \<Longrightarrow> \<forall>i\<in>{0, 1}. 0 < fi_len (frag_infos s ! i)"
    using claim_freed [OF _ run] two by auto
  show ?thesis
  proof (cases r)
    case None
    then have "c = None" "s' = s1" using assms(2) unfolding add_first_fragment_def two_contexts run None by simp_all
    then show ?thesis using claim(1,3) None by (auto simp: numeral_2_eq_2 less_Suc_eq)
  next
    case (Some i)
    let ?c = "(frag_infos s1 ! i)\<lparr>fi_len := frag_size, fi_tag := tag, fi_sender := pb_sender b\<rparr>"
    have s': "c = Some i" "\<exists>t. s' = s1\<lparr>frag_infos := (frag_infos s1)[i := ?c], reass_timers := t\<rparr>"
      using assms(2) unfolding add_first_fragment_def two_contexts run Some by auto
    have ok1: "lowpan_ok s1" and i: "i < length (frag_infos s1)" using claim(1,2) Some assms(1) by (simp_all add: freed_def)
    have "frag_info_ok ?c" using info_of [OF ok1 i] by (simp add: frag_info_ok_def)
    then have "lowpan_ok (s1\<lparr>frag_infos := (frag_infos s1)[i := ?c]\<rparr>)"
      using claim(2) [OF Some] i by (intro lowpan_ok_info [OF ok1]) auto
    then have "lowpan_ok s'" using s'(2) by auto
    then show ?thesis using s' claim(1) claim(2) [OF Some] by auto
  qed
qed

lemma fragment_stored:
  assumes s: "lowpan_ok s" and i: "i < length (frag_infos s)" "0 < fi_len (frag_infos s ! i)"
    and len: "hdr \<le> datalen" "datalen - hdr \<le> SICSLOWPAN_FRAGMENT_SIZE" "8 * unat offset + (datalen - hdr) \<le> UIP_BUFSIZE"
  obtains "free_bufs s = 0" "store_fragment pb datalen hdr i offset s = Some (-1, s)"
  | k f where "k < length (frag_bufs s)" "fb_len (frag_bufs s ! k) = 0" "unat (fb_index f) = i" "fb_offset f = offset"
      "unat (fb_len f) = datalen - hdr" "take (datalen - hdr) (fb_data f) = map pb [hdr..<datalen]"
      "store_fragment pb datalen hdr i offset s = Some (int (datalen - hdr), s\<lparr>frag_bufs := (frag_bufs s)[k := f]\<rparr>)"
      "lowpan_ok (s\<lparr>frag_bufs := (frag_bufs s)[k := f]\<rparr>)"
proof (cases "find (\<lambda>i. fb_len (frag_bufs s ! i) = 0) [0..<length (frag_bufs s)]")
  case None
  then have "\<forall>k<length (frag_bufs s). fb_len (frag_bufs s ! k) \<noteq> 0" by (auto simp: find_None_iff)
  then have "free_bufs s = 0" by (auto simp: free_bufs_def filter_empty_conv in_set_conv_nth)
  then show ?thesis using that(1) None by (simp add: store_fragment_def)
next
  case (Some k)
  then have k: "k < length (frag_bufs s)" "fb_len (frag_bufs s ! k) = 0" using find_SomeD [OF Some] by auto
  define n where "n = datalen - hdr"
  define f where "f = \<lparr>fb_index = of_nat i, fb_offset = offset, fb_len = of_nat (n),
    fb_data = write_at 0 (map pb [hdr..<datalen]) (fb_data (frag_bufs s ! k))\<rparr>"
  have n: "n \<le> SICSLOWPAN_FRAGMENT_SIZE" "length [hdr..<datalen] = n" using len by (simp_all add: n_def)
  have i2: "i < 2" using s i by (simp add: lowpan_ok_def SICSLOWPAN_REASS_CONTEXTS_def)
  have l: "length (fb_data (frag_bufs s ! k)) = SICSLOWPAN_FRAGMENT_SIZE" using s k by (simp add: lowpan_ok_def frag_buf_ok_def)
  have f: "unat (fb_index f) = i" "fb_offset f = offset" "unat (fb_len f) = n"
    "take (n) (fb_data f) = map pb [hdr..<datalen]" "length (fb_data f) = SICSLOWPAN_FRAGMENT_SIZE"
    using i2 n l by (simp_all add: f_def unsigned_of_nat take_bit_nat_eq_self SICSLOWPAN_FRAGMENT_SIZE_def write_at_def)
  have "frag_buf_ok (frag_infos s) f" unfolding frag_buf_ok_def f using i len by (simp add: n_def)
  then show ?thesis using that(2) [OF k f(1-4) [unfolded n_def]] lowpan_ok_buf [OF s] Some len by (simp add: store_fragment_def f_def n_def)
qed

section \<open>The header in a buffer\<close>

lemma contexts_prefix: "contexts_ok ctxs \<Longrightarrow> addr_context_lookup_by_number ctxs k = Some c \<Longrightarrow> length (ac_prefix c) = 8"
  unfolding addr_context_lookup_by_number_def using find_SomeD by (fastforce simp: contexts_ok_def)

lemma two_bits: "unat (x AND 3 :: u8) \<in> {0, 1, 2, 3}"
proof -
  have "unat (x AND 3) \<le> 3" using word_and_le1 [of x 3] by (simp add: word_le_nat_alt)
  then show ?thesis by auto
qed

lemma iid_length: "length a = 16 \<Longrightarrow> length l = 8 \<Longrightarrow> length (uip_ds6_set_addr_iid a l) = 16"
  by (simp add: uip_ds6_set_addr_iid_def)

text \<open>Addresses have 16 bytes in each mode of the three tables.\<close>

lemma conf_length:
  assumes "length l = 8" "k \<in> {0, 1, 2, 3 :: nat}"
  shows "length (fst (uncompress_addr llprefix (unc_llconf ! k) l pb hc)) = 16"
    and "length p = 8 \<Longrightarrow> length (fst (uncompress_addr p (unc_ctxconf ! k) l pb hc)) = 16"
    and "length p = 2 \<Longrightarrow> length (fst (uncompress_addr p (unc_mxconf ! k) l' pb hc)) = 16"
  using assms by (auto simp: unc_llconf_def unc_ctxconf_def unc_mxconf_def llprefix_def uncompress_addr_modes iid_length eval_nat_numeral)

lemma src_length:
  assumes "contexts_ok ctxs" "length sender = 8" "uncompress_src ctxs sender pb hdr iphc1 hc = Some (a, hc')"
  shows "length a = 16"
proof -
  define x where "x = drop_bit SICSLOWPAN_IPHC_SAM_BIT (iphc1 AND 0x30)"
  define k where "k = x AND 0x03"
  note conf = conf_length [OF assms(2) two_bits [of x], folded k_def]
  have "length (fst (uncompress_addr [] (unc_ctxconf ! 0) sender pb hc)) = 16" by (simp add: unc_ctxconf_def uncompress_addr_modes)
  then show ?thesis using assms(3) conf(1) [of pb hc] conf(2) [of _ pb hc] contexts_prefix [OF assms(1)]
    unfolding uncompress_src_def Let_def x_def [symmetric] k_def [symmetric] by (auto split: if_splits) (metis fst_conv)+
qed

lemma dest_length:
  assumes "contexts_ok ctxs" "length receiver = 8" "uncompress_dest ctxs receiver pb hdr iphc1 hc = Some (Some a, hc')"
  shows "length a = 16"
proof -
  define x where "x = drop_bit SICSLOWPAN_IPHC_DAM_BIT (iphc1 AND 0x03)"
  define k where "k = x AND 0x03"
  note conf = conf_length [OF assms(2) two_bits [of x], folded k_def]
  have m: "length (fst (uncompress_addr [0xff, y] (unc_mxconf ! unat k) [] pb h)) = 16" for y h using conf(3) by simp
  show ?thesis using assms(3) conf(1) [of pb hc] conf(2) [of _ pb hc] m contexts_prefix [OF assms(1)]
    unfolding uncompress_dest_def Let_def x_def [symmetric] k_def [symmetric] by (auto simp: split_beta split: if_splits)
qed

lemma field_lengths:
  assumes "48 \<le> length buf"
  shows "length (snd (uncompress_tcfl pb i0 hc buf)) = length buf" "length (snd (uncompress_nh pb i0 hc buf)) = length buf"
    "length (snd (uncompress_ttl pb i0 hc buf)) = length buf" "length (snd (snd (uncompress_udp pb i0 hc buf))) = length buf"
    "fst (snd (uncompress_udp pb i0 hc buf)) \<le> 48"  "length (uncompress_len d l h u buf) = length buf"
proof -
  show "length (snd (uncompress_tcfl pb i0 hc buf)) = length buf" "length (snd (uncompress_nh pb i0 hc buf)) = length buf"
    "length (snd (uncompress_ttl pb i0 hc buf)) = length buf"
    using assms by (simp_all add: uncompress_tcfl_def uncompress_nh_def uncompress_ttl_def Let_def)
  have "length (snd (uncompress_ports pb h)) = 4" for h by (simp add: uncompress_ports_def set16_def Let_def)
  then show "length (snd (snd (uncompress_udp pb i0 hc buf))) = length buf" "fst (snd (uncompress_udp pb i0 hc buf)) \<le> 48"
    using assms by (simp_all add: uncompress_udp_def Let_def split_beta UIP_IPH_LEN_def UIP_UDPH_LEN_def)
  show "length (uncompress_len d l h u buf) = length buf" using assms by (simp add: uncompress_len_def Let_def)
qed

lemma header_length:
  assumes ctxs: "contexts_ok ctxs" and l: "length (pb_sender b) = 8" "length (pb_receiver b) = 8" and buf: "48 \<le> length buf"
  shows "length (fst (uncompress_hdr_iphc ctxs b pb hdr ip_len buf)) = length buf" "snd (snd (uncompress_hdr_iphc ctxs b pb hdr ip_len buf)) \<le> 48"
proof -
  define h where "h = hdr + 2 + (if pb (hdr + 1) AND SICSLOWPAN_IPHC_CID \<noteq> 0 then 1 else 0)"
  obtain h1 b1 where r1: "uncompress_tcfl pb (pb hdr) h buf = (h1, b1)" by (meson surj_pair)
  obtain h2 b2 where r2: "uncompress_nh pb (pb hdr) h1 b1 = (h2, b2)" by (meson surj_pair)
  obtain h3 b3 where r3: "uncompress_ttl pb (pb hdr) h2 b2 = (h3, b3)" by (meson surj_pair)
  have b3: "length b3 = length buf" using field_lengths(1) [OF buf, of pb "pb hdr" h] field_lengths(2) [of b1 pb "pb hdr" h1] field_lengths(3) [of b2 pb "pb hdr" h2] buf
    by (simp add: r1 r2 r3)
  note run = uncompress_hdr_iphc_def Let_def h_def [symmetric] r1 r2 r3 prod.case
  have "length (fst (uncompress_hdr_iphc ctxs b pb hdr ip_len buf)) = length buf \<and> snd (snd (uncompress_hdr_iphc ctxs b pb hdr ip_len buf)) \<le> 48"
  proof (cases "uncompress_src ctxs (pb_sender b) pb hdr (pb (hdr + 1)) h3")
    case None
    then show ?thesis unfolding run by (simp add: b3)
  next
    case (Some p)
    then obtain a h4 where src: "uncompress_src ctxs (pb_sender b) pb hdr (pb (hdr + 1)) h3 = Some (a, h4)" by (cases p) auto
    then have b4: "length (write_at 8 a b3) = length buf" using src_length [OF ctxs l(1) src] buf b3 by simp
    show ?thesis
    proof (cases "uncompress_dest ctxs (pb_receiver b) pb hdr (pb (hdr + 1)) h4")
      case None
      then show ?thesis unfolding run src option.case by (simp add: b4)
    next
      case (Some q)
      then obtain d h5 where dest: "uncompress_dest ctxs (pb_receiver b) pb hdr (pb (hdr + 1)) h4 = Some (d, h5)" by (cases q) auto
      define b5 where "b5 = (case d of None \<Rightarrow> write_at 8 a b3 | Some d \<Rightarrow> write_at 24 d (write_at 8 a b3))"
      have b5: "length b5 = length buf" using dest dest_length [OF ctxs l(2)] b4 buf by (auto simp: b5_def split: option.split)
      obtain h6 u b6 where udp: "uncompress_udp pb (pb hdr) h5 b5 = (h6, u, b6)" by (meson prod_cases3)
      have "u \<le> 48" "length b6 = length buf" using field_lengths(4,5) [of b5 pb "pb hdr" h5] b5 buf by (simp_all add: udp)
      then show ?thesis unfolding run src dest option.case b5_def [symmetric] using field_lengths(6) [of b6] buf by (simp add: udp)
    qed
  qed
  then show "length (fst (uncompress_hdr_iphc ctxs b pb hdr ip_len buf)) = length buf" "snd (snd (uncompress_hdr_iphc ctxs b pb hdr ip_len buf)) \<le> 48"
    by simp_all
qed

text \<open>Where the header ends does not depend on the buffer.\<close>

lemma header_where: "snd (uncompress_hdr_iphc ctxs b pb hdr l buf) = snd (uncompress_hdr_iphc ctxs b pb hdr l' buf')"
proof -
  have same: "fst (uncompress_tcfl pb i0 h x) = fst (uncompress_tcfl pb i0 h y)" "fst (uncompress_nh pb i0 h x) = fst (uncompress_nh pb i0 h y)"
    "fst (uncompress_ttl pb i0 h x) = fst (uncompress_ttl pb i0 h y)" for i0 h x y
    by (simp_all add: uncompress_tcfl_def uncompress_nh_def uncompress_ttl_def Let_def)
  have udp: "fst (uncompress_udp pb i0 h x) = fst (uncompress_udp pb i0 h y)" "fst (snd (uncompress_udp pb i0 h x)) = fst (snd (uncompress_udp pb i0 h y))" for i0 h x y
    by (simp_all add: uncompress_udp_def Let_def split_beta)
  define h where "h = hdr + 2 + (if pb (hdr + 1) AND SICSLOWPAN_IPHC_CID \<noteq> 0 then 1 else 0)"
  obtain h1 b1 b1' where r1: "uncompress_tcfl pb (pb hdr) h buf = (h1, b1)" "uncompress_tcfl pb (pb hdr) h buf' = (h1, b1')"
    using same(1) [of "pb hdr" h buf buf'] by (metis prod.collapse)
  obtain h2 b2 b2' where r2: "uncompress_nh pb (pb hdr) h1 b1 = (h2, b2)" "uncompress_nh pb (pb hdr) h1 b1' = (h2, b2')"
    using same(2) [of "pb hdr" h1 b1 b1'] by (metis prod.collapse)
  obtain h3 b3 b3' where r3: "uncompress_ttl pb (pb hdr) h2 b2 = (h3, b3)" "uncompress_ttl pb (pb hdr) h2 b2' = (h3, b3')"
    using same(3) [of "pb hdr" h2 b2 b2'] by (metis prod.collapse)
  note run = uncompress_hdr_iphc_def Let_def h_def [symmetric] r1 r2 r3 prod.case
  show ?thesis
  proof (cases "uncompress_src ctxs (pb_sender b) pb hdr (pb (hdr + 1)) h3")
    case None
    then show ?thesis unfolding run by simp
  next
    case (Some p)
    then obtain a h4 where src: "uncompress_src ctxs (pb_sender b) pb hdr (pb (hdr + 1)) h3 = Some (a, h4)" by (cases p) auto
    show ?thesis unfolding run src option.case unfolding split_beta
      using udp by (auto split: option.split)
  qed
qed

section \<open>No access out of bounds\<close>

text \<open>
  What a frame must satisfy so that the buffers suffice: the data of a first fragment, its header restored, fit
  \<open>first_frag\<close>, those of a next one the buffer of a fragment, and the datagram \<open>uip_buf\<close>.
\<close>

definition fragment_fits :: "lowpan \<Rightarrow> packetbuf \<Rightarrow> mem \<Rightarrow> bool" where
  "fragment_fits s b pb \<longleftrightarrow> length (pb_sender b) = 8 \<and> length (pb_receiver b) = 8 \<and>
    (let dispatch = ucast (drop_bit 8 (get16 pb 0 AND 0xf800)) :: u8; frag_size = get16 pb 0 AND 0x07ff; datalen = length (pb_data b)
     in (dispatch = SICSLOWPAN_DISPATCH_FRAG1 \<longrightarrow>
          (case read_header b pb SICSLOWPAN_FRAG1_HDR_LEN frag_size (replicate SICSLOWPAN_FIRST_FRAGMENT_SIZE 0) s of None \<Rightarrow> True
           | Some (_, hdr, uncomp) \<Rightarrow> hdr \<le> datalen \<longrightarrow> uncomp + (datalen - hdr) \<le> SICSLOWPAN_FIRST_FRAGMENT_SIZE))
      \<and> (dispatch = SICSLOWPAN_DISPATCH_FRAGN \<longrightarrow> unat frag_size \<le> UIP_BUFSIZE \<and> SICSLOWPAN_FRAGN_HDR_LEN \<le> datalen
          \<and> datalen - SICSLOWPAN_FRAGN_HDR_LEN \<le> SICSLOWPAN_FRAGMENT_SIZE \<and> 8 * unat (pb 4) + (datalen - SICSLOWPAN_FRAGN_HDR_LEN) \<le> UIP_BUFSIZE))"

text \<open>What the stack above is given lies in the buffer.\<close>

definition inputs_ok :: "lowpan \<Rightarrow> bool" where
  "inputs_ok s \<longleftrightarrow> (\<forall>(n, buf)\<in>set (tcpip_inputs s). unat n \<le> length buf)"

definition safe :: "lowpan \<Rightarrow> lowpan \<Rightarrow> bool" where
  "safe s s' \<longleftrightarrow> lowpan_ok s' \<and> addr_contexts s' = addr_contexts s \<and> (inputs_ok s \<longrightarrow> inputs_ok s')"

lemma freed_safe: "lowpan_ok s \<Longrightarrow> freed s s' \<Longrightarrow> safe s s'"
  by (simp add: freed_def safe_def inputs_ok_def)

lemma safe_trans: "safe s s' \<Longrightarrow> safe s' s'' \<Longrightarrow> safe s s''"
  by (simp add: safe_def)

lemma safe_update:
  "lowpan_ok (s\<lparr>frag_infos := c\<rparr>) \<Longrightarrow> safe s (s\<lparr>frag_infos := c\<rparr>)" "lowpan_ok (s\<lparr>frag_bufs := f\<rparr>) \<Longrightarrow> safe s (s\<lparr>frag_bufs := f\<rparr>)"
  "lowpan_ok s \<Longrightarrow> length buf = UIP_BUFSIZE \<Longrightarrow> safe s (s\<lparr>uip_buf := buf\<rparr>)"
  by (simp_all add: safe_def inputs_ok_def)

lemma tcpip_input_safe: "lowpan_ok s \<Longrightarrow> unat n \<le> UIP_BUFSIZE \<Longrightarrow> safe s (tcpip_input n s)"
  by (simp add: safe_def tcpip_input_def inputs_ok_def lowpan_ok_def)

lemma timeout_keeps: "timeout_loop clk k is n s = (m, s') \<Longrightarrow> frag_infos s' ! k = frag_infos s ! k"
proof (induction clk k "is" n s rule: timeout_loop.induct)
  case (2 clk k i "is" n s)
  obtain e s1 where e: "(if i \<noteq> k then reass_expired clk i s else (False, s)) = (e, s1)" by (meson surj_pair)
  then have f: "frag_infos s1 = frag_infos s" "e \<Longrightarrow> i \<noteq> k" using expired_freed by (auto split: if_splits)
  obtain n' s2 where c: "clear_fragments i s1 = (n', s2)" by (meson surj_pair)
  then have "s2 = snd (clear_fragments i s1)" by simp
  then have "e \<Longrightarrow> frag_infos s2 ! k = frag_infos s1 ! k" using f(2) by simp
  then show ?case using 2(1) [OF e [symmetric] refl _ c [symmetric] refl] 2(2) [OF e [symmetric] refl] 2(3) e c f(1) by (cases e) auto
qed simp

lemma copy_bufs_some:
  "(\<And>f. f \<in> set fs \<Longrightarrow> 0 < fb_len f \<Longrightarrow> unat (fb_index f) = i \<Longrightarrow> unat (fb_len f) \<le> length (fb_data f)
      \<and> 8 * unat (fb_offset f) + unat (fb_len f) \<le> length buf) \<Longrightarrow> \<exists>buf'. copy_bufs i fs buf = Some buf' \<and> length buf' = length buf"
proof (induction i fs buf rule: copy_bufs.induct)
  case (2 i f fs buf)
  show ?case
  proof (cases "0 < fb_len f \<and> unat (fb_index f) = i")
    case True
    let ?b = "write_at (8 * unat (fb_offset f)) (take (unat (fb_len f)) (fb_data f)) buf"
    from 2(3) [of f] True have f: "unat (fb_len f) \<le> length (fb_data f)" "8 * unat (fb_offset f) + unat (fb_len f) \<le> length buf" by simp_all
    then have l: "length ?b = length buf" by (intro length_write_at) simp
    have "\<exists>buf'. copy_bufs i fs ?b = Some buf' \<and> length buf' = length ?b"
      using 2(1) [OF True refl refl] 2(3) f(2) by (simp add: offset_bytes l)
    then show ?thesis using True f(2) l by (simp add: offset_bytes)
  next
    case False
    then show ?thesis using 2(2) 2(3) by auto
  qed
qed simp

lemma copy_safe:
  assumes s: "lowpan_ok s" and i: "i < length (frag_infos s)"
  shows "\<exists>s'. copy_frags2uip i s = Some s' \<and> safe s s'"
proof -
  define n where "n = unat (fi_first_frag_len (frag_infos s ! i))"
  have c: "length (fi_first_frag (frag_infos s ! i)) = 148" "n \<le> 148" "length (uip_buf s) = 900"
    using info_of [OF s i] s by (simp_all add: frag_info_ok_def lowpan_ok_def n_def SICSLOWPAN_FIRST_FRAGMENT_SIZE_def SICSLOWPAN_FRAGMENT_SIZE_def UIP_BUFSIZE_def)
  define buf where "buf = write_at 0 (take n (fi_first_frag (frag_infos s ! i))) (uip_buf s)"
  have b: "length buf = UIP_BUFSIZE" using c by (simp add: buf_def UIP_BUFSIZE_def)
  have "\<exists>buf'. copy_bufs i (frag_bufs s) buf = Some buf' \<and> length buf' = length buf"
    by (rule copy_bufs_some) (use s in \<open>auto simp: lowpan_ok_def frag_buf_ok_def b\<close>)
  then obtain buf' where run: "copy_bufs i (frag_bufs s) buf = Some buf'" "length buf' = UIP_BUFSIZE" using b by auto
  let ?s = "s\<lparr>uip_buf := buf'\<rparr>"
  have "safe s ?s" using safe_update(3) [OF s run(2)] .
  moreover from this have "safe ?s (snd (clear_fragments i ?s))" using clear_freed(1) [of i ?s] i by (intro freed_safe) (simp_all add: safe_def)
  ultimately have "safe s (snd (clear_fragments i ?s))" by (rule safe_trans)
  moreover have "copy_frags2uip i s = Some (snd (clear_fragments i ?s))"
    unfolding copy_frags2uip_def Let_def n_def [symmetric] buf_def [symmetric] run using c by simp
  ultimately show ?thesis by blast
qed

lemma next_stored:
  assumes s: "lowpan_ok s" and len: "SICSLOWPAN_FRAGN_HDR_LEN \<le> length (pb_data b)"
    "length (pb_data b) - SICSLOWPAN_FRAGN_HDR_LEN \<le> SICSLOWPAN_FRAGMENT_SIZE" "8 * unat offset + (length (pb_data b) - SICSLOWPAN_FRAGN_HDR_LEN) \<le> UIP_BUFSIZE"
  shows "\<exists>c s'. add_next_fragment clk b pb SICSLOWPAN_FRAGN_HDR_LEN tag offset s = Some (c, s') \<and> safe s s' \<and> (\<forall>i. c = Some i \<longrightarrow> i < length (frag_infos s'))"
proof (cases "find (\<lambda>i. fi_tag (frag_infos s ! i) = tag \<and> fi_len (frag_infos s ! i) > 0 \<and> fi_sender (frag_infos s ! i) = pb_sender b) [0..<SICSLOWPAN_REASS_CONTEXTS]")
  case None
  then show ?thesis using s unfolding add_next_fragment_def None option.case by (simp add: safe_def)
next
  case (Some i)
  have two: "length (frag_infos s) = 2" using s by (simp add: lowpan_ok_def SICSLOWPAN_REASS_CONTEXTS_def)
  have i: "i < length (frag_infos s)" "0 < fi_len (frag_infos s ! i)"
    using find_SomeD [OF Some] by (auto simp: two SICSLOWPAN_REASS_CONTEXTS_def)
  have store: "\<exists>l s'. store_fragment pb (length (pb_data b)) SICSLOWPAN_FRAGN_HDR_LEN i offset t = Some (l, s') \<and> safe t s' \<and> frag_infos s' = frag_infos t"
    if t: "lowpan_ok t" "i < length (frag_infos t)" "0 < fi_len (frag_infos t ! i)" for t
    by (rule fragment_stored [OF t len, of pb]) (use t in \<open>auto simp: safe_def inputs_ok_def\<close>)
  obtain l s1 where s1: "store_fragment pb (length (pb_data b)) SICSLOWPAN_FRAGN_HDR_LEN i offset s = Some (l, s1)" "safe s s1" "frag_infos s1 = frag_infos s"
    using store [OF s i] by blast
  have ok1: "lowpan_ok s1" using s1(2) by (simp add: safe_def)
  obtain n s2 where t: "timeout_fragments clk i s1 = (n, s2)" by (meson surj_pair)
  have f2: "freed s1 s2" using timeout_fragments_freed [of s1 clk i] t ok1 by (simp add: lowpan_ok_def)
  have "frag_infos s2 ! i = frag_infos s1 ! i" using t unfolding timeout_fragments_def by (rule timeout_keeps)
  then have s2: "safe s1 s2" "lowpan_ok s2" "i < length (frag_infos s2)" "0 < fi_len (frag_infos s2 ! i)"
    using freed_safe [OF ok1 f2] f2 ok1 i s1(3) by (simp_all add: freed_def)
  obtain l3 s3 where s3: "store_fragment pb (length (pb_data b)) SICSLOWPAN_FRAGN_HDR_LEN i offset s2 = Some (l3, s3)" "safe s2 s3" "frag_infos s3 = frag_infos s2"
    using store [OF s2(2-4)] by blast
  obtain l4 s4 where s4: "(if l < 0 then let (n, s) = timeout_fragments clk i s1
            in if n > 0 then store_fragment pb (length (pb_data b)) SICSLOWPAN_FRAGN_HDR_LEN i offset s else Some (l, s)
          else Some (l, s1)) = Some (l4, s4)" "safe s s4" "i < length (frag_infos s4)" "0 < fi_len (frag_infos s4 ! i)"
  proof (cases "l < 0")
    case True
    note two = safe_trans [OF s1(2) s2(1)]
    note three = safe_trans [OF two s3(2)]
    show ?thesis
    proof (cases "n > 0")
      case n: True
      show ?thesis by (rule that [of l3 s3]) (simp_all only: True n t prod.case Let_def if_True s3(1,3) three s2(3,4))
    next
      case n: False
      show ?thesis by (rule that [of l s2]) (simp_all only: True n t prod.case Let_def if_True if_False two s2(3,4))
    qed
  next
    case False
    then show ?thesis using that [of l s1] s1(2,3) i by simp
  qed
  let ?s5 = "s4\<lparr>frag_infos := (frag_infos s4)[i := (frag_infos s4 ! i)\<lparr>fi_reassembled_len := fi_reassembled_len (frag_infos s4 ! i) + word_of_int l4\<rparr>]\<rparr>"
  have ok4: "lowpan_ok s4" using s4(2) by (simp add: safe_def)
  have "lowpan_ok ?s5" using info_of [OF ok4 s4(3)] s4(4) by (intro lowpan_ok_info [OF ok4]) (simp_all add: frag_info_ok_def)
  then have "safe s ?s5" using safe_trans [OF s4(2) safe_update(1)] by blast
  moreover have "add_next_fragment clk b pb SICSLOWPAN_FRAGN_HDR_LEN tag offset s = Some (if l4 > 0 then (Some i, ?s5) else (None, s4))"
    unfolding add_next_fragment_def Some option.case s1(1) bind.bind_lunit prod.case s4(1) by (rule if_distrib [symmetric])
  ultimately show ?thesis using s4(2,3) by (cases "l4 > 0") auto
qed

lemma next_safe:
  assumes s: "lowpan_ok s" and i: "i < length (frag_infos s)" and size: "unat frag_size \<le> UIP_BUFSIZE"
  shows "\<exists>s'. next_received i frag_size offset b s = Some s' \<and> safe s s'"
proof -
  let ?c = "(frag_infos s ! i)\<lparr>fi_reassembled_len := frag_size\<rparr>"
  let ?s = "s\<lparr>frag_infos := (frag_infos s)[i := ?c]\<rparr>"
  have "frag_info_ok ?c" using info_of [OF s i] by (simp add: frag_info_ok_def)
  then have "lowpan_ok ?s" using i by (intro lowpan_ok_info [OF s]) (auto simp: word_gt_0)
  then obtain s1 where s1: "copy_frags2uip i ?s = Some s1" "safe s s1"
    using copy_safe [of ?s i] i safe_trans [OF safe_update(1)] by auto
  have "safe s (tcpip_input frag_size s1)" using s1(2) tcpip_input_safe [OF _ size, of s1] by (simp add: safe_def)
  moreover have "safe s (tcpip_input frag_size s)" using tcpip_input_safe [OF s size] .
  moreover have "safe s s" using s by (simp add: safe_def)
  ultimately show ?thesis using s1(1) by (auto simp: next_received_def Let_def)
qed

lemma read_header_length:
  assumes "lowpan_ok s" "length (pb_sender b) = 8" "length (pb_receiver b) = 8" "48 \<le> length buf" "read_header b pb hdr n buf s = Some (buf', hdr', uncomp)"
  shows "length buf' = length buf" "uncomp \<le> 48"
proof -
  have "contexts_ok (addr_contexts s)" using assms(1) by (simp add: lowpan_ok_def)
  from header_length [OF this assms(2-4), of pb hdr n] show "length buf' = length buf" "uncomp \<le> 48"
    using assms(4,5) by (auto simp: read_header_def Let_def UIP_IPH_LEN_def split: if_splits)
qed

lemma read_header_where:
  "map_option snd (read_header b pb hdr n buf s) = map_option snd (read_header b pb hdr n' buf' s')" if "addr_contexts s = addr_contexts s'"
  using header_where that by (simp add: read_header_def Let_def)

lemma unat_of_nat_le: "n \<le> m \<Longrightarrow> unat (of_nat n :: u16) \<le> m"
  by (simp add: unsigned_of_nat) (rule le_trans [OF take_bit_nat_less_eq_self])

lemma whole_safe:
  assumes s: "lowpan_ok s" and b: "length buffer = UIP_BUFSIZE" and u: "uncomp \<le> 48"
  shows "\<exists>s'. whole_received b pb hdr uncomp buffer s = Some s' \<and> safe s s'"
proof (cases "too_long (length (pb_data b)) hdr 0 uncomp")
  case True
  then show ?thesis using safe_update(3) [OF s b] by (simp add: whole_received_def)
next
  case False
  then have le: "uncomp + (length (pb_data b) - hdr) \<le> UIP_BUFSIZE" unfolding too_long_def by simp linarith
  let ?b = "write_at uncomp (map pb [hdr..<length (pb_data b)]) buffer" and ?n = "length (pb_data b) - hdr + uncomp"
  have "length ?b = UIP_BUFSIZE" using le b by simp
  then have "safe s (s\<lparr>uip_buf := ?b\<rparr>)" by (rule safe_update(3) [OF s])
  moreover have "unat (of_nat ?n :: u16) \<le> UIP_BUFSIZE"
    using le by (intro unat_of_nat_le) simp
  ultimately have "safe s (tcpip_input (of_nat ?n) (s\<lparr>uip_buf := ?b\<rparr>))" using tcpip_input_safe [of "s\<lparr>uip_buf := ?b\<rparr>"] safe_trans [of s "s\<lparr>uip_buf := ?b\<rparr>"] by (simp add: safe_def)
  then show ?thesis using False le b by (simp add: whole_received_def Let_def)
qed

lemma first_safe:
  assumes s: "lowpan_ok s" and i: "i < length (frag_infos s)" and b: "length buffer = SICSLOWPAN_FIRST_FRAGMENT_SIZE"
    and u: "hdr \<le> length (pb_data b) \<Longrightarrow> uncomp + (length (pb_data b) - hdr) \<le> SICSLOWPAN_FIRST_FRAGMENT_SIZE"
  shows "\<exists>s'. first_received i frag_size b pb hdr uncomp buffer s = Some s' \<and> safe s s'"
proof -
  have ok: "safe s (s\<lparr>frag_infos := (frag_infos s)[i := c]\<rparr>)" if "frag_info_ok c" "fi_len c = fi_len (frag_infos s ! i)" for c
  proof (rule safe_update(1))
    show "lowpan_ok (s\<lparr>frag_infos := (frag_infos s)[i := c]\<rparr>)"
      using lowpan_ok_info [OF s that(1), of i] i that(2) by (auto simp: word_gt_0)
  qed
  define c where "c = (frag_infos s ! i)\<lparr>fi_first_frag := buffer\<rparr>"
  have c: "frag_info_ok c" "fi_len c = fi_len (frag_infos s ! i)" using info_of [OF s i] b by (simp_all add: c_def frag_info_ok_def)
  show ?thesis
  proof (cases "too_long (length (pb_data b)) hdr 0 uncomp")
    case True
    then show ?thesis using ok [OF c] by (simp add: first_received_def c_def)
  next
    case False
    then have h: "hdr \<le> length (pb_data b)" by (simp add: too_long_def)
    note le = u [OF h]
    define n where "n = uncomp + (length (pb_data b) - hdr)"
    define buf where "buf = write_at uncomp (map pb [hdr..<length (pb_data b)]) buffer"
    have buf: "length buf = SICSLOWPAN_FIRST_FRAGMENT_SIZE" using le b by (simp add: buf_def)
    have n: "unat (of_nat n :: u16) \<le> SICSLOWPAN_FIRST_FRAGMENT_SIZE"
      using le unfolding n_def [symmetric] by (rule unat_of_nat_le)
    define c' where "c' = (if frag_size > 0 then c\<lparr>fi_first_frag := buf, fi_reassembled_len := of_nat n, fi_first_frag_len := of_nat n\<rparr> else c\<lparr>fi_first_frag := buf\<rparr>)"
    have c': "frag_info_ok c'" "fi_len c' = fi_len (frag_infos s ! i)" using c buf n by (simp_all add: c'_def frag_info_ok_def)
    have "first_received i frag_size b pb hdr uncomp buffer s = Some (s\<lparr>frag_infos := (frag_infos s)[i := c']\<rparr>)"
      using False le b i unfolding first_received_def Let_def n_def [symmetric] buf_def [symmetric] c'_def c_def by (cases "frag_size > 0") simp_all
    then show ?thesis using ok [OF c'] by blast
  qed
qed

lemma first_safe_claim:
  assumes "lowpan_ok s" "add_first_fragment clk b tag n s = (c, s')"
  shows "safe s s'" "c = Some i \<Longrightarrow> i < length (frag_infos s')"
proof -
  note f = first_claimed [OF assms]
  have "safe s s' \<and> (\<forall>i. c = Some i \<longrightarrow> i < length (frag_infos s'))"
  proof (cases c)
    case None
    then show ?thesis using f freed_safe [OF assms(1)] by simp
  next
    case (Some i)
    with f obtain s1 where s1: "freed s s1" "i < length (frag_infos s)" "lowpan_ok s'"
      "s' = s1\<lparr>frag_infos := (frag_infos s1)[i := (frag_infos s1 ! i)\<lparr>fi_len := n, fi_tag := tag, fi_sender := pb_sender b\<rparr>], reass_timers := reass_timers s'\<rparr>"
      by blast
    have "addr_contexts s' = addr_contexts s1" "tcpip_inputs s' = tcpip_inputs s1" "length (frag_infos s') = length (frag_infos s1)"
      by (subst s1(4), simp)+
    then show ?thesis using s1(1-3) Some by (simp add: freed_def safe_def inputs_ok_def)
  qed
  then show "safe s s'" "c = Some i \<Longrightarrow> i < length (frag_infos s')" by simp_all
qed

lemma input_safe:
  assumes s: "lowpan_ok s" and fits: "fragment_fits s b pb"
  shows "\<exists>s'. sicslowpan_input clk b pb s = Some s' \<and> safe s s'"
proof -
  define dispatch :: u8 where "dispatch = ucast (drop_bit 8 (get16 pb 0 AND 0xf800))"
  define n where "n = get16 pb 0 AND 0x07ff"
  define tag where "tag = get16 pb 2"
  note names = dispatch_def [symmetric] n_def [symmetric] tag_def [symmetric]
  have l: "length (pb_sender b) = 8" "length (pb_receiver b) = 8" using fits by (simp_all add: fragment_fits_def)
  have nn: "SICSLOWPAN_DISPATCH_FRAG1 \<noteq> SICSLOWPAN_DISPATCH_FRAGN" by (simp add: SICSLOWPAN_DISPATCH_FRAG1_def SICSLOWPAN_DISPATCH_FRAGN_def)
  consider (first) "dispatch = SICSLOWPAN_DISPATCH_FRAG1" | (other) "dispatch = SICSLOWPAN_DISPATCH_FRAGN"
    | (whole) "dispatch \<noteq> SICSLOWPAN_DISPATCH_FRAG1" "dispatch \<noteq> SICSLOWPAN_DISPATCH_FRAGN" by blast
  then show ?thesis
  proof cases
    case first
    obtain c s1 where c: "add_first_fragment clk b tag n s = (c, s1)" by (meson surj_pair)
    note s1 = first_safe_claim [OF s c]
    have run: "sicslowpan_input clk b pb s = (case c of None \<Rightarrow> Some s1
          | Some i \<Rightarrow> (case read_header b pb SICSLOWPAN_FRAG1_HDR_LEN n (fi_first_frag (frag_infos s1 ! i)) s1 of
                None \<Rightarrow> Some s1 | Some (buffer, hdr, uncomp) \<Rightarrow> first_received i n b pb hdr uncomp buffer s1))"
      unfolding sicslowpan_input_def Let_def names first by (simp add: add_fragment_def c)
    have ok1: "lowpan_ok s1" "addr_contexts s1 = addr_contexts s" using s1(1) by (simp_all add: safe_def)
    show ?thesis
    proof (cases c)
      case None
      then show ?thesis using run s1(1) by simp
    next
      case (Some i)
      note i = s1(2) [OF Some]
      have len: "length (fi_first_frag (frag_infos s1 ! i)) = SICSLOWPAN_FIRST_FRAGMENT_SIZE" using info_of [OF ok1(1) i] by (simp add: frag_info_ok_def)
      have len48: "48 \<le> length (fi_first_frag (frag_infos s1 ! i))" unfolding len by (simp add: SICSLOWPAN_FIRST_FRAGMENT_SIZE_def SICSLOWPAN_FRAGMENT_SIZE_def)
      show ?thesis
      proof (cases "read_header b pb SICSLOWPAN_FRAG1_HDR_LEN n (fi_first_frag (frag_infos s1 ! i)) s1")
        case None
        then show ?thesis using run Some s1(1) by simp
      next
        case h: (Some x)
        obtain buffer hdr uncomp where x: "x = (buffer, hdr, uncomp)" by (cases x)
        note h = h [unfolded x]
        obtain buffer' where "read_header b pb SICSLOWPAN_FRAG1_HDR_LEN n (replicate SICSLOWPAN_FIRST_FRAGMENT_SIZE 0) s = Some (buffer', hdr, uncomp)"
          using read_header_where [OF ok1(2), of b pb SICSLOWPAN_FRAG1_HDR_LEN n "fi_first_frag (frag_infos s1 ! i)" n "replicate SICSLOWPAN_FIRST_FRAGMENT_SIZE 0"]
          unfolding h by (cases "read_header b pb SICSLOWPAN_FRAG1_HDR_LEN n (replicate SICSLOWPAN_FIRST_FRAGMENT_SIZE 0) s") auto
        then have "hdr \<le> length (pb_data b) \<Longrightarrow> uncomp + (length (pb_data b) - hdr) \<le> SICSLOWPAN_FIRST_FRAGMENT_SIZE"
          using fits first unfolding fragment_fits_def Let_def names by simp
        from first_safe [OF ok1(1) i _ this] read_header_length(1) [OF ok1(1) l len48 h] len
        obtain s2 where "first_received i n b pb hdr uncomp buffer s1 = Some s2" "safe s1 s2" by fastforce
        then show ?thesis using run Some h safe_trans [OF s1(1)] by simp
      qed
    qed
  next
    case other
    have fits': "unat n \<le> UIP_BUFSIZE" "SICSLOWPAN_FRAGN_HDR_LEN \<le> length (pb_data b)"
      "length (pb_data b) - SICSLOWPAN_FRAGN_HDR_LEN \<le> SICSLOWPAN_FRAGMENT_SIZE" "8 * unat (pb 4) + (length (pb_data b) - SICSLOWPAN_FRAGN_HDR_LEN) \<le> UIP_BUFSIZE"
      using fits other unfolding fragment_fits_def Let_def names by blast+
    obtain c s1 where c: "add_fragment clk b pb SICSLOWPAN_FRAGN_HDR_LEN tag n (pb 4) s = Some (c, s1)" "safe s s1" "\<And>i. c = Some i \<Longrightarrow> i < length (frag_infos s1)"
    proof (cases "pb 4 = 0")
      case True
      obtain c s1 where c: "add_first_fragment clk b tag n s = (c, s1)" by (meson surj_pair)
      show ?thesis by (rule that [of c s1]) (use True c first_safe_claim [OF s c] in \<open>simp_all add: add_fragment_def\<close>)
    next
      case False
      then show ?thesis using next_stored [OF s fits'(2-4), of clk pb tag] that by (auto simp: add_fragment_def)
    qed
    have run: "sicslowpan_input clk b pb s = (case c of None \<Rightarrow> Some s1 | Some i \<Rightarrow> next_received i n (pb 4) b s1)"
      unfolding sicslowpan_input_def Let_def names other using nn [symmetric] c(1) by simp
    show ?thesis
    proof (cases c)
      case (Some i)
      have "lowpan_ok s1" using c(2) by (simp add: safe_def)
      from next_safe [OF this c(3) [OF Some] fits'(1), of "pb 4" b] show ?thesis using run Some safe_trans [OF c(2)] by auto
    qed (use run c(2) in simp)
  next
    case whole
    have run: "sicslowpan_input clk b pb s = (case read_header b pb 0 0 (uip_buf s) s of None \<Rightarrow> Some s
          | Some (buffer, hdr, uncomp) \<Rightarrow> whole_received b pb hdr uncomp buffer s)"
      unfolding sicslowpan_input_def Let_def names using whole by simp
    have u: "length (uip_buf s) = UIP_BUFSIZE" "48 \<le> length (uip_buf s)" using s by (simp_all add: lowpan_ok_def UIP_BUFSIZE_def)
    show ?thesis
    proof (cases "read_header b pb 0 0 (uip_buf s) s")
      case None
      then show ?thesis using run s by (simp add: safe_def)
    next
      case (Some x)
      obtain buffer hdr uncomp where x: "x = (buffer, hdr, uncomp)" by (cases x)
      from read_header_length [OF s l u(2) Some [unfolded x]] have "length buffer = UIP_BUFSIZE" "uncomp \<le> 48" using u(1) by simp_all
      from whole_safe [OF s this, of b pb hdr] show ?thesis using run Some x by simp
    qed
  qed
qed

text \<open>Frames one after the other.\<close>

fun input_all :: "(clock \<times> packetbuf \<times> mem) list \<Rightarrow> lowpan \<Rightarrow> lowpan option" where
  "input_all [] s = Some s"
| "input_all ((clk, b, pb) # fs) s = do { s \<leftarrow> sicslowpan_input clk b pb s; input_all fs s }"

lemma fits_same: "addr_contexts s' = addr_contexts s \<Longrightarrow> fragment_fits s' b pb = fragment_fits s b pb"
  using arg_cong [OF header_where] by (simp add: fragment_fits_def read_header_def Let_def)

lemma inputs_safe:
  "lowpan_ok s \<Longrightarrow> \<forall>(clk, b, pb)\<in>set fs. fragment_fits s b pb \<Longrightarrow> \<exists>s'. input_all fs s = Some s' \<and> safe s s'"
proof (induction fs s rule: input_all.induct)
  case (1 s)
  then show ?case by (simp add: safe_def)
next
  case (2 clk b pb fs s)
  then obtain s1 where s1: "sicslowpan_input clk b pb s = Some s1" "safe s s1" using input_safe [OF 2(2)] by fastforce
  have same: "fragment_fits s1 b pb = fragment_fits s b pb" for b pb by (rule fits_same) (use s1(2) in \<open>simp add: safe_def\<close>)
  have "\<forall>(clk, b, pb)\<in>set fs. fragment_fits s1 b pb" using 2(3) by (simp add: same)
  moreover have "lowpan_ok s1" using s1(2) by (simp add: safe_def)
  ultimately obtain s2 where "input_all fs s1 = Some s2" "safe s1 s2" using 2(1) s1(1) by blast
  then show ?case using s1 safe_trans [OF s1(2)] by simp
qed

end
