(* ===== verification/Reassembly.thy ===== *)
theory Reassembly
  imports Fragment_Laws "HOL-Library.Multiset"
begin

text \<open>
  The laws of reassembly: what the receiver makes of a whole datagram (\<open>whole_delivered\<close>), of its first fragment
  (\<open>first_gathered\<close>), and of the next ones, in any order (\<open>pieces_gathered\<close>).
\<close>

section \<open>Headers in frames\<close>

text \<open>A packet with these bytes, from \<open>a\<close> to \<open>d\<close>.\<close>

definition carries :: "packetbuf \<Rightarrow> mem \<Rightarrow> linkaddr \<Rightarrow> linkaddr \<Rightarrow> bytes \<Rightarrow> bool" where
  "carries b pb a d xs \<longleftrightarrow> pb_sender b = a \<and> pb_receiver b = d \<and> pb_data b = xs \<and> at_mem pb 0 xs"

text \<open>The header of a datagram as it is sent, and the number of bytes of the datagram that it stands for.\<close>

definition datagram_hdr :: "addr_context list \<Rightarrow> linkaddr \<Rightarrow> linkaddr \<Rightarrow> bytes \<Rightarrow> bytes \<times> nat" where
  "datagram_hdr ctxs a d ip = (if of_nat (length ip) \<ge> COMPRESSION_THRESHOLD then compress_hdr_iphc ctxs a d ip else compress_hdr_ipv6 ip)"

text \<open>What the receiver gets of a datagram that is sent; only a compressed one can differ.\<close>

definition as_sent :: "addr_context list \<Rightarrow> bytes \<Rightarrow> bytes" where
  "as_sent ctxs ip = (if of_nat (length ip) \<ge> COMPRESSION_THRESHOLD then iphc_sent ctxs ip else ip)"

lemma as_sent:
  assumes "ip_ok ip"
  shows "ip_ok (as_sent ctxs ip)" "length (as_sent ctxs ip) = length ip" "16 \<le> k \<Longrightarrow> drop k (as_sent ctxs ip) = drop k ip"
proof -
  have l: "40 \<le> length ip" using assms by (simp add: ip_ok_def)
  show "ip_ok (as_sent ctxs ip)" using iphc_sent_ok [OF assms] assms by (simp add: as_sent_def)
  show "length (as_sent ctxs ip) = length ip" "16 \<le> k \<Longrightarrow> drop k (as_sent ctxs ip) = drop k ip"
    using iphc_sent [OF l] by (simp_all add: as_sent_def)
qed

lemma as_sent_bytes:
  assumes "ip_ok ip" "length ip < 65536"
  shows "drop 16 (as_sent ctxs ip) = drop 16 ip" "take 10 (as_sent ctxs ip) = take 10 ip"
    "take 6 (drop 10 (as_sent ctxs ip)) =
       (if unat COMPRESSION_THRESHOLD \<le> length ip \<and> local_src ctxs ip then replicate 6 0 else take 6 (drop 10 ip))"
proof -
  have l: "40 \<le> length ip" using assms(1) by (simp add: ip_ok_def)
  have t: "of_nat (length ip) \<ge> COMPRESSION_THRESHOLD \<longleftrightarrow> unat COMPRESSION_THRESHOLD \<le> length ip"
    using assms(2) by (simp add: word_le_nat_alt unsigned_of_nat take_bit_nat_eq_self)
  show "drop 16 (as_sent ctxs ip) = drop 16 ip" using as_sent(3) [OF assms(1), of 16 ctxs] by simp
  show "take 10 (as_sent ctxs ip) = take 10 ip" using iphc_sent(4) [OF l, of 10 ctxs] by (simp add: as_sent_def)
  show "take 6 (drop 10 (as_sent ctxs ip)) =
       (if unat COMPRESSION_THRESHOLD \<le> length ip \<and> local_src ctxs ip then replicate 6 0 else take 6 (drop 10 ip))"
    unfolding as_sent_def t iphc_sent_def using l by (auto simp: write_at_def)
qed

lemma as_sent_same:
  assumes "\<not> local_src ctxs ip \<or> zero16 (ip_src ip) 1 \<and> zero16 (ip_src ip) 2 \<and> zero16 (ip_src ip) 3" "ip_ok ip"
  shows "as_sent ctxs ip = ip"
proof (cases "local_src ctxs ip")
  case True
  have l: "40 \<le> length ip" using assms(2) by (simp add: ip_ok_def)
  have "ip ! i = 0" if "10 \<le> i" "i < 16" for i
  proof -
    have "ip ! 10 = 0" "ip ! 11 = 0" "ip ! 12 = 0" "ip ! 13 = 0" "ip ! 14 = 0" "ip ! 15 = 0"
      using assms(1) True l by (simp_all add: zero16_def ip_src_def)
    moreover have "i = 10 \<or> i = 11 \<or> i = 12 \<or> i = 13 \<or> i = 14 \<or> i = 15" using that by linarith
    ultimately show ?thesis by auto
  qed
  then have "iphc_sent ctxs ip = ip"
    using True l by (intro nth_equalityI) (auto simp: iphc_sent_def nth_write_at)
  then show ?thesis by (simp add: as_sent_def)
qed (simp add: as_sent_def iphc_sent_def)

lemma header_read:
  assumes ip: "ip_ok ip" and ctxs: "contexts_ok (addr_contexts s)" and l: "length (pb_sender b) = 8" "length (pb_receiver b) = 8"
    and h: "datagram_hdr (addr_contexts s) (pb_sender b) (pb_receiver b) ip = (h, n)" and mem: "at_mem pb hdr h" and buf: "48 \<le> length buf"
    and len: "ip_len = 0 \<and> length (pb_data b) = hdr + length h + (length ip - n) \<or> ip_len \<noteq> 0 \<and> unat ip_len = length ip"
  defines "ip' \<equiv> as_sent (addr_contexts s) ip"
  shows "read_header b pb hdr ip_len buf s = Some (write_at 0 (take n ip') buf, hdr + length h, n)"
    "pb hdr AND 0xf8 \<notin> {0xc0, 0xe0}" "40 \<le> n" "n \<le> 48" "n \<le> length ip"
proof -
  have "read_header b pb hdr ip_len buf s = Some (write_at 0 (take n ip') buf, hdr + length h, n) \<and> pb hdr AND 0xf8 \<notin> {0xc0, 0xe0}
      \<and> 40 \<le> n \<and> n \<le> 48 \<and> n \<le> length ip"
  proof (cases "of_nat (length ip) \<ge> COMPRESSION_THRESHOLD")
    case True
    then have "compress_hdr_iphc (addr_contexts s) (pb_sender b) (pb_receiver b) ip = (h, n)" using h by (simp add: datagram_hdr_def)
    from header_read_back [OF ip ctxs l this mem buf len] ip show ?thesis
      using True by (auto simp: read_header_def header_len_def ip_ok_def ip'_def as_sent_def)
  next
    case False
    then have hn: "h = 0x41 # take 40 ip" "n = 40"
      using h by (simp_all add: datagram_hdr_def compress_hdr_ipv6_def SICSLOWPAN_DISPATCH_IPV6_def UIP_IPH_LEN_def)
    have "40 \<le> length ip" using ip by (simp add: ip_ok_def)
    moreover from this have "map (\<lambda>i. pb (hdr + 1 + i)) [0..<40] = take 40 ip" using mem map_at_mem [of pb "hdr + 1" "take 40 ip"] by (simp add: hn)
    moreover have "pb hdr = 0x41" using mem by (simp add: hn)
    moreover have "ip' = ip" using False by (simp add: ip'_def as_sent_def)
    ultimately show ?thesis
      by (simp add: read_header_def SICSLOWPAN_DISPATCH_IPHC_def SICSLOWPAN_DISPATCH_IPV6_def SICSLOWPAN_IPV6_HDR_LEN_def UIP_IPH_LEN_def hn)
  qed
  then show "read_header b pb hdr ip_len buf s = Some (write_at 0 (take n ip') buf, hdr + length h, n)" "pb hdr AND 0xf8 \<notin> {0xc0, 0xe0}"
    "40 \<le> n" "n \<le> 48" "n \<le> length ip" by simp_all
qed

lemma header_nonempty: "datagram_hdr ctxs a d ip = (h, n) \<Longrightarrow> h \<noteq> []"
  by (auto simp: datagram_hdr_def compress_hdr_iphc_def compress_hdr_ipv6_def Let_def split_beta split: if_splits)

lemma dispatch_bits: "ucast (drop_bit 8 (get16 pb 0 AND 0xf800)) = pb 0 AND (0xf8 :: u8)"
proof -
  have k: "(0xf800 :: u16) = push_bit 8 (ucast (0xf8 :: u8))" by simp
  show ?thesis unfolding k get16_def by (rule bit_word_eqI) (auto simp: bit_simps dest: bit_imp_le_length)
qed

lemma write_rest: "n \<le> length ip \<Longrightarrow> length ip \<le> length buf \<Longrightarrow> write_at n (drop n ip) (write_at 0 (take n ip) buf) = ip @ drop (length ip) buf"
  by (simp add: write_at_def)

lemma whole_delivered:
  assumes s: "lowpan_ok s" and ip: "ip_ok ip" "length ip \<le> UIP_BUFSIZE" and l: "length a = 8" "length d = 8"
    and h: "datagram_hdr (addr_contexts s) a d ip = (h, n)" and b: "carries b pb a d (h @ drop n ip)"
  shows "sicslowpan_input clk b pb s =
    Some (tcpip_input (of_nat (length ip)) (s\<lparr>uip_buf := as_sent (addr_contexts s) ip @ drop (length ip) (uip_buf s)\<rparr>))"
proof -
  define ip' where "ip' = as_sent (addr_contexts s) ip"
  note same = as_sent [OF ip(1), where ctxs = "addr_contexts s", folded ip'_def]
  have b: "pb_sender b = a" "pb_receiver b = d" "pb_data b = h @ drop n ip" "at_mem pb 0 h" "at_mem pb (length h) (drop n ip)"
    using b by (simp_all add: carries_def)
  have buf: "length (uip_buf s) = UIP_BUFSIZE" "48 \<le> length (uip_buf s)" using s by (simp_all add: lowpan_ok_def UIP_BUFSIZE_def)
  have ctxs: "contexts_ok (addr_contexts s)" using s by (simp add: lowpan_ok_def)
  have data: "length (pb_data b) = 0 + length h + (length ip - n)" using b by simp
  note r = header_read [OF ip(1) ctxs l [folded b(1,2)] h [folded b(1,2)] b(4) buf(2), of 0, OF disjI1, OF conjI, OF refl data]
  have rest: "drop n ip' = drop n ip" using r(3) by (simp add: same(3))
  have run: "sicslowpan_input clk b pb s = whole_received b pb (length h) n (write_at 0 (take n ip') (uip_buf s)) s"
    using r(1,2) unfolding ip'_def unfolding sicslowpan_input_def Let_def dispatch_bits by (simp add: SICSLOWPAN_DISPATCH_FRAG1_def SICSLOWPAN_DISPATCH_FRAGN_def)
  define dl where "dl = length (pb_data b)"
  have payload: "map pb [length h..<dl] = drop n ip"
  proof -
    have "map (\<lambda>i. pb (length h + i)) [0..<length ip - n] = drop n ip" using b(5) by (intro map_at_mem) simp_all
    moreover have "[length h..<dl] = map (\<lambda>i. i + length h) [0..<length ip - n]"
      using map_add_upt [of "length h" "length ip - n"] by (simp add: dl_def data add.commute)
    ultimately show ?thesis by (simp add: comp_def add.commute)
  qed
  have sum: "dl - length h + n = length ip" "n + (dl - length h) = length ip" "length h \<le> dl" using data r(5) by (simp_all add: dl_def)
  have nt: "\<not> too_long dl (length h) 0 n" using sum ip(2) by (simp add: too_long_def)
  have lb: "length (write_at 0 (take n ip') (uip_buf s)) = UIP_BUFSIZE" using r(5) ip(2) buf(1) same(2) by simp
  have "whole_received b pb (length h) n (write_at 0 (take n ip') (uip_buf s)) s =
      Some (tcpip_input (of_nat (length ip)) (s\<lparr>uip_buf := write_at n (drop n ip) (write_at 0 (take n ip') (uip_buf s))\<rparr>))"
    unfolding whole_received_def Let_def dl_def [symmetric] payload sum lb using nt ip(2) by simp
  then show ?thesis using run write_rest [of n ip' "uip_buf s"] ip(2) buf(1) r(5) unfolding ip'_def [symmetric] rest same(2) by simp
qed

section \<open>Fragments in frames\<close>

definition frag1_data :: "bytes \<Rightarrow> u16 \<Rightarrow> bytes \<Rightarrow> bytes \<Rightarrow> bytes" where
  "frag1_data ip tag h xs = set16 (push_bit 8 (ucast SICSLOWPAN_DISPATCH_FRAG1) OR of_nat (length ip)) @ set16 tag @ h @ xs"

text \<open>A piece of a datagram is the number of its first byte and its length.\<close>

definition fragn_data :: "bytes \<Rightarrow> u16 \<Rightarrow> nat \<times> nat \<Rightarrow> bytes" where
  "fragn_data ip tag c = set16 (push_bit 8 (ucast SICSLOWPAN_DISPATCH_FRAGN) OR of_nat (length ip)) @ set16 tag
     @ [of_nat (fst c div 8)] @ take (snd c) (drop (fst c) ip)"

lemma length_set16 [simp]: "length (set16 v) = 2"
  by (simp add: set16_def)

lemma get16_at: "at_mem pb k (set16 v) \<Longrightarrow> get16 pb k = v"
proof -
  assume "at_mem pb k (set16 v)"
  then have "get16 pb k = push_bit 8 (ucast (ucast (drop_bit 8 v AND 0xff) :: u8)) OR ucast (ucast (v AND 0xff) :: u8)"
    by (simp add: set16_def get16_def)
  also have "(0xff :: u16) = mask 8" by (simp add: mask_eq_exp_minus_1)
  also have "push_bit 8 (ucast (ucast (drop_bit 8 v AND mask 8) :: u8)) OR ucast (ucast (v AND mask 8) :: u8) = v"
    by (rule bit_word_eqI) (auto simp: bit_simps)
  finally show ?thesis .
qed

lemma frag_word:
  assumes "n < 2048"
  shows "(0xc000 OR of_nat n) AND 0x07ff = (of_nat n :: u16)" "(0xe000 OR of_nat n) AND 0x07ff = (of_nat n :: u16)"
    "drop_bit 8 ((0xc000 OR of_nat n) AND 0xf800) = (0xc0 :: u16)" "drop_bit 8 ((0xe000 OR of_nat n) AND 0xf800) = (0xe0 :: u16)"
proof -
  have n: "(of_nat n :: u16) = take_bit 11 (of_nat n)" using assms by (simp add: take_bit_of_nat take_bit_nat_eq_self)
  have k: "(0x07ff :: u16) = mask 11" "(0xf800 :: u16) = push_bit 11 (mask 5)" "(0xc000 :: u16) = push_bit 14 (mask 2)"
    "(0xe000 :: u16) = push_bit 13 (mask 3)" "(0xc0 :: u16) = push_bit 6 (mask 2)" "(0xe0 :: u16) = push_bit 5 (mask 3)"
    by (simp_all add: mask_eq_exp_minus_1)
  show "(0xc000 OR of_nat n) AND 0x07ff = (of_nat n :: u16)" "(0xe000 OR of_nat n) AND 0x07ff = (of_nat n :: u16)"
    "drop_bit 8 ((0xc000 OR of_nat n) AND 0xf800) = (0xc0 :: u16)" "drop_bit 8 ((0xe000 OR of_nat n) AND 0xf800) = (0xe0 :: u16)"
    unfolding k by (subst n, rule bit_word_eqI, auto simp: bit_simps)+
qed

lemma frag1_fields:
  assumes "at_mem pb 0 (frag1_data ip tag h xs)" "length ip < 2048"
  shows "ucast (drop_bit 8 (get16 pb 0 AND 0xf800)) = SICSLOWPAN_DISPATCH_FRAG1" "get16 pb 0 AND 0x07ff = of_nat (length ip)"
    "get16 pb 2 = tag" "at_mem pb 4 h" "at_mem pb (4 + length h) xs"
proof -
  have k: "2 + 2 = (4 :: nat)" "push_bit 8 (ucast (0xc0 :: u8)) = (0xc000 :: u16)" by simp_all
  have m: "at_mem pb 0 (set16 (0xc000 OR of_nat (length ip)))" "at_mem pb 2 (set16 tag)" "at_mem pb 4 h" "at_mem pb (4 + length h) xs"
    using assms(1) unfolding frag1_data_def SICSLOWPAN_DISPATCH_FRAG1_def at_mem_simps(3) length_set16 add_0_left k by blast+
  show "ucast (drop_bit 8 (get16 pb 0 AND 0xf800)) = SICSLOWPAN_DISPATCH_FRAG1" "get16 pb 0 AND 0x07ff = of_nat (length ip)"
    unfolding get16_at [OF m(1)] frag_word [OF assms(2)] by (simp_all add: SICSLOWPAN_DISPATCH_FRAG1_def)
  show "get16 pb 2 = tag" "at_mem pb 4 h" "at_mem pb (4 + length h) xs" using get16_at [OF m(2)] m(3,4) by simp_all
qed

lemma fragn_fields:
  assumes "at_mem pb 0 (fragn_data ip tag c)" "length ip < 2048"
  shows "ucast (drop_bit 8 (get16 pb 0 AND 0xf800)) = SICSLOWPAN_DISPATCH_FRAGN" "get16 pb 0 AND 0x07ff = of_nat (length ip)"
    "get16 pb 2 = tag" "pb 4 = of_nat (fst c div 8)" "at_mem pb 5 (take (snd c) (drop (fst c) ip))"
proof -
  have k: "2 + 2 = (4 :: nat)" "4 + length [x] = (5 :: nat)" "push_bit 8 (ucast (0xe0 :: u8)) = (0xe000 :: u16)" for x :: u8 by simp_all
  have m: "at_mem pb 0 (set16 (0xe000 OR of_nat (length ip)))" "at_mem pb 2 (set16 tag)" "pb 4 = of_nat (fst c div 8)"
    "at_mem pb 5 (take (snd c) (drop (fst c) ip))"
    using assms(1) unfolding fragn_data_def SICSLOWPAN_DISPATCH_FRAGN_def at_mem_simps(2,3) length_set16 add_0_left k by blast+
  show "ucast (drop_bit 8 (get16 pb 0 AND 0xf800)) = SICSLOWPAN_DISPATCH_FRAGN" "get16 pb 0 AND 0x07ff = of_nat (length ip)"
    unfolding get16_at [OF m(1)] frag_word [OF assms(2)] by (simp_all add: SICSLOWPAN_DISPATCH_FRAGN_def)
  show "get16 pb 2 = tag" "pb 4 = of_nat (fst c div 8)" "at_mem pb 5 (take (snd c) (drop (fst c) ip))" using get16_at [OF m(2)] m(3,4) by simp_all
qed

text \<open>The pieces, one after the other, from one byte to another; each fits a buffer and starts at a multiple of 8.\<close>

fun pieces :: "nat \<Rightarrow> (nat \<times> nat) list \<Rightarrow> nat \<Rightarrow> bool" where
  "pieces p [] e \<longleftrightarrow> p = e"
| "pieces p ((q, l) # cs) e \<longleftrightarrow> q = p \<and> p mod 8 = 0 \<and> 0 < l \<and> l \<le> SICSLOWPAN_FRAGMENT_SIZE \<and> pieces (p + l) cs e"

definition covered :: "(nat \<times> nat) list \<Rightarrow> nat set" where
  "covered cs = (\<Union>(p, l)\<in>set cs. {p..<p + l})"

lemma pieces_behind: "pieces p cs e \<Longrightarrow> \<forall>c\<in>set cs. p \<le> fst c"
  by (induction p cs e rule: pieces.induct) fastforce+

lemma pieces_cover: "pieces p cs e \<Longrightarrow> p \<le> e \<and> covered cs = {p..<e} \<and> p + sum_list (map snd cs) = e"
proof (induction p cs e rule: pieces.induct)
  case (2 p q l cs e)
  then have "p + l \<le> e" "covered cs = {p + l..<e}" "p + l + sum_list (map snd cs) = e" "q = p" by auto
  moreover have "covered ((q, l) # cs) = {q..<q + l} \<union> covered cs" by (simp add: covered_def)
  ultimately show ?case by auto
qed (simp add: covered_def)

lemma pieces_member: "pieces p cs e \<Longrightarrow> (q, l) \<in> set cs \<Longrightarrow> p \<le> q \<and> q mod 8 = 0 \<and> 0 < l \<and> l \<le> SICSLOWPAN_FRAGMENT_SIZE \<and> q + l \<le> e"
proof (induction p cs e rule: pieces.induct)
  case (2 p q' l' cs e)
  then show ?case using pieces_cover [of "p + l'" cs e] by (cases "(q, l) = (q', l')") auto
qed simp

section \<open>Copying\<close>

definition in_context :: "nat \<Rightarrow> frag_buf \<Rightarrow> bool" where
  "in_context i f \<longleftrightarrow> 0 < fb_len f \<and> unat (fb_index f) = i"

definition piece :: "frag_buf \<Rightarrow> nat \<times> nat" where
  "piece f = (8 * unat (fb_offset f), unat (fb_len f))"

definition holds_piece :: "bytes \<Rightarrow> frag_buf \<Rightarrow> bool" where
  "holds_piece ip f \<longleftrightarrow> (let (p, l) = piece f in l \<le> length (fb_data f) \<and> take l (fb_data f) = take l (drop p ip) \<and> p + l \<le> length ip)"

lemma bufs_copied:
  assumes "length ip \<le> length buf0"
  shows "(\<And>f. f \<in> set fs \<Longrightarrow> in_context i f \<Longrightarrow> holds_piece ip f) \<Longrightarrow> has_bytes ip buf0 S buf \<Longrightarrow>
    \<exists>buf'. copy_bufs i fs buf = Some buf' \<and> has_bytes ip buf0 (S \<union> covered (map piece (filter (in_context i) fs))) buf'"
proof (induction i fs buf arbitrary: S rule: copy_bufs.induct)
  case (2 i f fs buf)
  have len: "length buf = length buf0" using 2(4) by (simp add: has_bytes_def)
  show ?case
  proof (cases "in_context i f")
    case True
    then have hit: "fb_len f > 0 \<and> unat (fb_index f) = i" by (simp add: in_context_def)
    define p l where "p = 8 * unat (fb_offset f)" and "l = unat (fb_len f)"
    have f: "l \<le> length (fb_data f)" "take l (fb_data f) = take l (drop p ip)" "p + l \<le> length ip"
      using 2(3) [of f] True by (simp_all add: holds_piece_def piece_def p_def l_def)
    have "has_bytes ip buf0 (S \<union> {p..<p + l}) (write_at p (take l (fb_data f)) buf)"
      using f assms by (intro has_bytes_write [OF 2(4)]) simp_all
    from 2(1) [OF hit refl refl, unfolded offset_bytes, folded p_def l_def, OF _ _ this] 2(3) f(3) assms len
    obtain buf' where "copy_bufs i fs (write_at p (take l (fb_data f)) buf) = Some buf'"
      "has_bytes ip buf0 (S \<union> {p..<p + l} \<union> covered (map piece (filter (in_context i) fs))) buf'" by auto
    moreover have "S \<union> {p..<p + l} \<union> covered (map piece (filter (in_context i) fs)) = S \<union> covered (map piece (filter (in_context i) (f # fs)))"
      using True by (auto simp: covered_def piece_def p_def l_def)
    ultimately show ?thesis using hit f(3) assms len by (auto simp: offset_bytes p_def l_def)
  next
    case False
    then show ?thesis using 2 by (auto simp: in_context_def)
  qed
qed (simp add: covered_def)

section \<open>Reassembly\<close>

definition matches :: "u16 \<Rightarrow> linkaddr \<Rightarrow> frag_info \<Rightarrow> bool" where
  "matches tag a c \<longleftrightarrow> fi_tag c = tag \<and> fi_len c > 0 \<and> fi_sender c = a"

text \<open>
  Context \<open>i\<close> has the first \<open>q\<close> bytes of the datagram and exactly the pieces that arrived, and no other context is taken
  for the datagram.
\<close>

definition gathering :: "nat \<Rightarrow> linkaddr \<Rightarrow> u16 \<Rightarrow> bytes \<Rightarrow> nat \<Rightarrow> (nat \<times> nat) list \<Rightarrow> lowpan \<Rightarrow> bool" where
  "gathering i a tag ip q got s \<longleftrightarrow> lowpan_ok s \<and> i < length (frag_infos s)
    \<and> (\<forall>j<length (frag_infos s). matches tag a (frag_infos s ! j) \<longleftrightarrow> j = i)
    \<and> unat (fi_first_frag_len (frag_infos s ! i)) = q \<and> take q (fi_first_frag (frag_infos s ! i)) = take q ip
    \<and> unat (fi_reassembled_len (frag_infos s ! i)) = q + sum_list (map snd got)
    \<and> mset (map piece (filter (in_context i) (frag_bufs s))) = mset got
    \<and> (\<forall>f\<in>set (frag_bufs s). in_context i f \<longrightarrow> holds_piece ip f)"

lemma filter_update:
  assumes "k < length xs"
  shows "\<not> P (xs ! k) \<Longrightarrow> P x \<Longrightarrow> mset (filter P (xs[k := x])) = add_mset x (mset (filter P xs))"
    and "Q (xs ! k) \<Longrightarrow> \<not> Q x \<Longrightarrow> Suc (length (filter Q (xs[k := x]))) = length (filter Q xs)"
proof -
  have xs: "xs = take k xs @ xs ! k # drop (Suc k) xs" using id_take_nth_drop [OF assms] .
  have up: "xs[k := x] = take k xs @ x # drop (Suc k) xs" using upd_conv_take_nth_drop [OF assms] .
  show "mset (filter P (xs[k := x])) = add_mset x (mset (filter P xs))" if "\<not> P (xs ! k)" "P x"
    unfolding up by (subst (3) xs) (simp add: that)
  show "Suc (length (filter Q (xs[k := x]))) = length (filter Q xs)" if "Q (xs ! k)" "\<not> Q x"
    unfolding up by (subst (3) xs) (simp add: that)
qed

definition others_same :: "lowpan \<Rightarrow> lowpan \<Rightarrow> bool" where
  "others_same s s' \<longleftrightarrow> uip_buf s' = uip_buf s \<and> uip_len s' = uip_len s \<and> addr_contexts s' = addr_contexts s \<and> tcpip_inputs s' = tcpip_inputs s"

lemma piece_gathered:
  assumes g: "gathering i a tag ip q got s" and c: "p mod 8 = 0" "0 < p" "0 < l" "l \<le> SICSLOWPAN_FRAGMENT_SIZE" "p + l \<le> length ip"
    and ip: "length ip \<le> UIP_BUFSIZE" "q + sum_list (map snd got) + l \<le> length ip"
    and b: "carries b pb a d (fragn_data ip tag (p, l))" and room: "0 < free_bufs s"
  obtains s1 where "sicslowpan_input clk b pb s = next_received i (of_nat (length ip)) (pb 4) b s1" "gathering i a tag ip q (got @ [(p, l)]) s1"
    "Suc (free_bufs s1) = free_bufs s" "others_same s s1" "8 * unat (pb 4) = p" "length (pb_data b) = 5 + l"
proof -
  note gd = g [unfolded gathering_def]
  have s: "lowpan_ok s" and i: "i < length (frag_infos s)" using gd by blast+
  have len: "length ip < 2048" "length ip \<le> 900" using ip by (simp_all add: UIP_BUFSIZE_def)
  have b: "pb_sender b = a" "at_mem pb 0 (fragn_data ip tag (p, l))" "pb_data b = fragn_data ip tag (p, l)" using b by (simp_all add: carries_def)
  note fields = fragn_fields [OF b(2) len(1)]
  have "p div 8 < 256" using c(5) len(2) by simp
  then have off: "unat (pb 4) = p div 8" unfolding fields(4) fst_conv by (simp add: unsigned_of_nat take_bit_nat_eq_self)
  then have offset: "8 * unat (pb 4) = p" "pb 4 \<noteq> 0" using c(1,2) by (auto simp: unat_eq_0 [symmetric])
  have data: "length (pb_data b) = 5 + l" "length (pb_data b) - SICSLOWPAN_FRAGN_HDR_LEN = l" using c(5) unfolding b(3)
    by (simp_all add: fragn_data_def SICSLOWPAN_FRAGN_HDR_LEN_def)
  have two: "length (frag_infos s) = 2" using s by (simp add: lowpan_ok_def SICSLOWPAN_REASS_CONTEXTS_def)
  have match: "matches tag a (frag_infos s ! j) \<longleftrightarrow> j = i" if "j < 2" for j using gd that two by simp
  have "find (\<lambda>i. fi_tag (frag_infos s ! i) = tag \<and> fi_len (frag_infos s ! i) > 0 \<and> fi_sender (frag_infos s ! i) = pb_sender b) [0..<SICSLOWPAN_REASS_CONTEXTS] = Some i"
    using match [unfolded matches_def] i two unfolding two_contexts b(1) by (auto simp: less_2_cases_iff)
  note found = this
  have used: "0 < fi_len (frag_infos s ! i)" using match [of i] i two by (simp add: matches_def)
  define r where "r = unat (fi_reassembled_len (frag_infos s ! i)) + l"
  have r: "r = q + sum_list (map snd (got @ [(p, l)]))" "r < 65536" using gd ip(2) len(2) by (auto simp: r_def)
  obtain k f where f: "k < length (frag_bufs s)" "fb_len (frag_bufs s ! k) = 0" "unat (fb_index f) = i" "fb_offset f = pb 4" "unat (fb_len f) = l"
      "take l (fb_data f) = map pb [5..<5 + l]"
      "store_fragment pb (length (pb_data b)) SICSLOWPAN_FRAGN_HDR_LEN i (pb 4) s = Some (int l, s\<lparr>frag_bufs := (frag_bufs s)[k := f]\<rparr>)"
      "lowpan_ok (s\<lparr>frag_bufs := (frag_bufs s)[k := f]\<rparr>)"
  proof (rule fragment_stored [OF s i used, of SICSLOWPAN_FRAGN_HDR_LEN "length (pb_data b)" "pb 4" pb])
    show "SICSLOWPAN_FRAGN_HDR_LEN \<le> length (pb_data b)" by (simp add: data SICSLOWPAN_FRAGN_HDR_LEN_def)
    show "length (pb_data b) - SICSLOWPAN_FRAGN_HDR_LEN \<le> SICSLOWPAN_FRAGMENT_SIZE" using c(4) by (simp add: data(2))
    show "8 * unat (pb 4) + (length (pb_data b) - SICSLOWPAN_FRAGN_HDR_LEN) \<le> UIP_BUFSIZE" using c(5) ip(1) unfolding data(2) offset(1) by simp
  next
    assume "free_bufs s = 0"
    then show thesis using room by simp
  next
    fix k f
    assume "k < length (frag_bufs s)" "fb_len (frag_bufs s ! k) = 0" "unat (fb_index f) = i" "fb_offset f = pb 4"
      "unat (fb_len f) = length (pb_data b) - SICSLOWPAN_FRAGN_HDR_LEN"
      "take (length (pb_data b) - SICSLOWPAN_FRAGN_HDR_LEN) (fb_data f) = map pb [SICSLOWPAN_FRAGN_HDR_LEN..<length (pb_data b)]"
      "store_fragment pb (length (pb_data b)) SICSLOWPAN_FRAGN_HDR_LEN i (pb 4) s =
        Some (int (length (pb_data b) - SICSLOWPAN_FRAGN_HDR_LEN), s\<lparr>frag_bufs := (frag_bufs s)[k := f]\<rparr>)"
      "lowpan_ok (s\<lparr>frag_bufs := (frag_bufs s)[k := f]\<rparr>)"
    moreover have "map pb [SICSLOWPAN_FRAGN_HDR_LEN..<length (pb_data b)] = map pb [5..<5 + l]" by (simp add: data(1) SICSLOWPAN_FRAGN_HDR_LEN_def)
    ultimately show thesis unfolding data(2) by (intro that [of k f]) simp_all
  qed
  let ?c = "(frag_infos s ! i)\<lparr>fi_reassembled_len := fi_reassembled_len (frag_infos s ! i) + word_of_int (int l)\<rparr>"
  define s1 where "s1 = s\<lparr>frag_bufs := (frag_bufs s)[k := f], frag_infos := (frag_infos s)[i := ?c]\<rparr>"
  have add: "add_fragment clk b pb SICSLOWPAN_FRAGN_HDR_LEN tag (of_nat (length ip)) (pb 4) s = Some (Some i, s1)"
    unfolding add_fragment_def add_next_fragment_def found option.case f(7) bind.bind_lunit prod.case s1_def using offset(2) c(3) by simp
  have "SICSLOWPAN_DISPATCH_FRAGN \<noteq> SICSLOWPAN_DISPATCH_FRAG1" by (simp add: SICSLOWPAN_DISPATCH_FRAG1_def SICSLOWPAN_DISPATCH_FRAGN_def)
  then have run: "sicslowpan_input clk b pb s = next_received i (of_nat (length ip)) (pb 4) b s1"
    unfolding sicslowpan_input_def Let_def fields(1-3) add by simp
  have "frag_info_ok ?c" using info_of [OF s i] by (simp add: frag_info_ok_def)
  then have ok1: "lowpan_ok s1" using lowpan_ok_info [OF f(8), of ?c i] used by (simp add: s1_def)
  have piece: "piece f = (p, l)" unfolding piece_def f(4,5) offset(1) ..
  have hit: "in_context i f" "\<not> in_context i (frag_bufs s ! k)" using f(2,3,5) c(3) by (auto simp: in_context_def word_gt_0)
  have "take l (fb_data f) = take l (drop p ip)"
  proof -
    have "map (\<lambda>j. pb (5 + j)) [0..<l] = take l (drop p ip)" using fields(5) c(5) by (intro map_at_mem) simp_all
    moreover have "[5..<5 + l] = map (\<lambda>j. j + 5) [0..<l]" using map_add_upt [of 5 l] by (simp add: add.commute)
    ultimately show ?thesis unfolding f(6) by (simp add: comp_def add.commute)
  qed
  moreover have "l \<le> length (fb_data f)" using arg_cong [OF f(6), of length] by simp
  ultimately have holds: "holds_piece ip f" using c(5) by (simp add: holds_piece_def piece)
  have "mset (map piece (filter (in_context i) (frag_bufs s1))) = mset (got @ [(p, l)])"
    using filter_update(1) [OF f(1), of "in_context i" f] hit gd by (simp add: s1_def piece)
  moreover have "\<forall>f\<in>set (frag_bufs s1). in_context i f \<longrightarrow> holds_piece ip f"
    using gd holds by (auto simp: s1_def dest!: set_update_cases)
  moreover have "\<forall>j<length (frag_infos s1). matches tag a (frag_infos s1 ! j) \<longleftrightarrow> j = i"
    using match i two by (auto simp: s1_def matches_def nth_list_update)
  moreover have "unat (fi_reassembled_len ?c) = r"
    using r(2) by (simp add: r_def unat_word_ariths unsigned_of_nat take_bit_eq_mod)
  ultimately have "gathering i a tag ip q (got @ [(p, l)]) s1"
    using gd ok1 i r(1) unfolding gathering_def by (simp add: s1_def)
  moreover have "Suc (free_bufs s1) = free_bufs s"
  proof -
    have "fb_len f \<noteq> 0" using f(5) c(3) by auto
    then show ?thesis using filter_update(2) [OF f(1), of "\<lambda>f. fb_len f = 0" f] f(2) by (simp add: free_bufs_def s1_def)
  qed
  moreover have "others_same s s1" by (simp add: others_same_def s1_def)
  ultimately show ?thesis using that run offset(1) data(1) by blast
qed

text \<open>The datagram is handed up once, and its context and buffers are free again.\<close>

definition delivered :: "bytes \<Rightarrow> lowpan \<Rightarrow> lowpan \<Rightarrow> bool" where
  "delivered ip s s' \<longleftrightarrow> lowpan_ok s' \<and> uip_buf s' = ip @ drop (length ip) (uip_buf s) \<and> uip_len s' = of_nat (length ip)
    \<and> tcpip_inputs s' = tcpip_inputs s @ [(of_nat (length ip), uip_buf s')] \<and> addr_contexts s' = addr_contexts s"

lemma next_too_long: "length (pb_data b) = 5 + l \<Longrightarrow> 8 * unat offset = p \<Longrightarrow> p + l \<le> UIP_BUFSIZE
    \<Longrightarrow> \<not> too_long (length (pb_data b)) SICSLOWPAN_FRAGN_HDR_LEN offset 0"
  by (simp add: too_long_def SICSLOWPAN_FRAGN_HDR_LEN_def offset_bytes)

lemma not_last:
  assumes "gathering i a tag ip q got s" "q + sum_list (map snd got) < length ip" "length ip \<le> UIP_BUFSIZE"
    "\<not> too_long (length (pb_data b)) SICSLOWPAN_FRAGN_HDR_LEN offset 0"
  shows "next_received i (of_nat (length ip)) offset b s = Some s"
proof -
  have "unat (of_nat (length ip) :: u16) = length ip" using assms(3) by (simp add: unsigned_of_nat take_bit_nat_eq_self UIP_BUFSIZE_def)
  then have "\<not> of_nat (length ip) \<le> fi_reassembled_len (frag_infos s ! i)"
    using assms(1,2) by (simp add: word_le_nat_alt gathering_def)
  then show ?thesis using assms(4) by (simp add: next_received_def)
qed

lemma last_delivers:
  assumes g: "gathering i a tag ip q got s" and all: "q + sum_list (map snd got) = length ip" "{..<q} \<union> covered got = {..<length ip}"
    and ip: "0 < length ip" "length ip \<le> UIP_BUFSIZE" "q \<le> length ip"
    and fits: "\<not> too_long (length (pb_data b)) SICSLOWPAN_FRAGN_HDR_LEN offset 0"
  shows "\<exists>s'. next_received i (of_nat (length ip)) offset b s = Some s' \<and> delivered ip s s' \<and> fi_len (frag_infos s' ! i) = 0
    \<and> length (frag_infos s') = length (frag_infos s) \<and> (\<forall>j<length (frag_infos s). j \<noteq> i \<longrightarrow> frag_infos s' ! j = frag_infos s ! j)
    \<and> free_bufs s' = free_bufs s + length got"
proof -
  note gd = g [unfolded gathering_def]
  have s: "lowpan_ok s" and i: "i < length (frag_infos s)" using gd by blast+
  have w: "unat (of_nat (length ip) :: u16) = length ip" using ip(2) by (simp add: unsigned_of_nat take_bit_nat_eq_self UIP_BUFSIZE_def)
  then have pos: "0 < (of_nat (length ip) :: u16)" using ip(1) by (metis unat_gt_0 word_gt_0)
  have last: "of_nat (length ip) \<le> fi_reassembled_len (frag_infos s ! i)"
    using gd all(1) w by (simp add: word_le_nat_alt)
  let ?c = "(frag_infos s ! i)\<lparr>fi_reassembled_len := of_nat (length ip)\<rparr>"
  define s1 where "s1 = s\<lparr>frag_infos := (frag_infos s)[i := ?c]\<rparr>"
  have "frag_info_ok ?c" using info_of [OF s i] by (simp add: frag_info_ok_def)
  then have ok1: "lowpan_ok s1" using lowpan_ok_info [OF s, of ?c i] i by (auto simp: s1_def word_gt_0)
  have s1: "fi_first_frag_len (frag_infos s1 ! i) = fi_first_frag_len (frag_infos s ! i)" "fi_first_frag (frag_infos s1 ! i) = fi_first_frag (frag_infos s ! i)"
    "frag_bufs s1 = frag_bufs s" "uip_buf s1 = uip_buf s" using i by (simp_all add: s1_def)
  have buf: "length ip \<le> length (uip_buf s)" using s ip(2) by (simp add: lowpan_ok_def)
  have first: "q \<le> length (fi_first_frag (frag_infos s ! i))" "take q (fi_first_frag (frag_infos s ! i)) = take q ip"
    using gd info_of [OF s i] by (auto simp: frag_info_ok_def)
  have "has_bytes ip (uip_buf s) ({} \<union> {0..<0 + q}) (write_at 0 (take q ip) (uip_buf s))"
    by (rule has_bytes_write [OF has_bytes_start]) (use ip(3) buf in simp_all)
  from bufs_copied [OF buf _ this, of "frag_bufs s" i] gd
  obtain buf' where buf': "copy_bufs i (frag_bufs s) (write_at 0 (take q ip) (uip_buf s)) = Some buf'"
    "has_bytes ip (uip_buf s) ({0..<q} \<union> covered (map piece (filter (in_context i) (frag_bufs s)))) buf'" by auto
  have "covered (map piece (filter (in_context i) (frag_bufs s))) = covered got"
    using arg_cong [where f = set_mset, of "mset (map piece (filter (in_context i) (frag_bufs s)))" "mset got"] gd unfolding covered_def set_mset_mset by simp
  then have "has_bytes ip (uip_buf s) {..<length ip} buf'" using buf'(2) all(2) by (simp add: atLeast0LessThan)
  then have is_ip: "buf' = ip @ drop (length ip) (uip_buf s)" using has_bytes_all [of ip "uip_buf s" "length ip" buf'] buf by (simp add: write_at_def)
  define s2 where "s2 = snd (clear_fragments i (s1\<lparr>uip_buf := buf'\<rparr>))"
  have "copy_frags2uip i s1 = Some s2"
    using gd buf'(1) first buf ip(3) unfolding copy_frags2uip_def Let_def s1 s2_def by simp
  then have run: "next_received i (of_nat (length ip)) offset b s = Some (tcpip_input (of_nat (length ip)) s2)"
    unfolding next_received_def Let_def using last fits pos by (simp add: s1_def)
  have "length buf' = UIP_BUFSIZE" using is_ip buf s by (simp add: lowpan_ok_def)
  then have ok2: "lowpan_ok s2" using ok1 i clear_ok [of "s1\<lparr>uip_buf := buf'\<rparr>" i] by (simp add: s2_def s1_def)
  have "length (filter (\<lambda>f. fb_len f = 0) (map (\<lambda>f. if 0 < fb_len f \<and> unat (fb_index f) = i then f\<lparr>fb_len := 0\<rparr> else f) fs)) =
      length (filter (\<lambda>f. fb_len f = 0) fs) + length (filter (in_context i) fs)" for fs
    by (induction fs) (auto simp: in_context_def word_gt_0)
  moreover have "length (filter (in_context i) (frag_bufs s)) = length got"
    using mset_eq_length [of "map piece (filter (in_context i) (frag_bufs s))" got] gd by simp
  ultimately have free: "free_bufs s2 = free_bufs s + length got" by (simp add: free_bufs_def s2_def s1_def)
  have "delivered ip s (tcpip_input (of_nat (length ip)) s2)"
    using ok2 is_ip by (simp add: delivered_def tcpip_input_def s2_def s1_def lowpan_ok_def)
  then show ?thesis using run free i
    by (intro exI [of _ "tcpip_input (of_nat (length ip)) s2"]) (simp add: tcpip_input_def s2_def s1_def free_bufs_def)
qed

text \<open>All pieces that are left, in any order.\<close>

definition piece_frame :: "linkaddr \<Rightarrow> linkaddr \<Rightarrow> bytes \<Rightarrow> u16 \<Rightarrow> clock \<times> packetbuf \<times> mem \<Rightarrow> nat \<times> nat \<Rightarrow> bool" where
  "piece_frame a d ip tag = (\<lambda>(clk, b, pb) c. carries b pb a d (fragn_data ip tag c))"

lemma pieces_gathered:
  assumes ip: "length ip \<le> UIP_BUFSIZE" "0 < q" and cs: "pieces q cs (length ip)"
  shows "list_all2 (piece_frame a d ip tag) fs rest \<Longrightarrow> rest \<noteq> [] \<Longrightarrow> gathering i a tag ip q got s \<Longrightarrow> mset (got @ rest) = mset cs \<Longrightarrow>
    length rest \<le> free_bufs s \<Longrightarrow> \<exists>s'. input_all fs s = Some s' \<and> delivered ip s s' \<and> i < length (frag_infos s') \<and> fi_len (frag_infos s' ! i) = 0
      \<and> (\<forall>j<length (frag_infos s'). j \<noteq> i \<longrightarrow> \<not> matches tag a (frag_infos s' ! j)) \<and> free_bufs s' = free_bufs s + length got"
proof (induction rest arbitrary: fs got s)
  case (Cons c rest)
  obtain p l where c: "c = (p, l)" by (cases c)
  from Cons(2) obtain clk b pb fs' where fs: "fs = (clk, b, pb) # fs'" "carries b pb a d (fragn_data ip tag (p, l))" "list_all2 (piece_frame a d ip tag) fs' rest"
    by (auto simp: list_all2_Cons2 piece_frame_def c)
  note cover = pieces_cover [OF cs]
  have "(p, l) \<in> set cs" using mset_eq_setD [OF Cons(5)] c by auto
  note pl = pieces_member [OF cs this]
  have total: "q + sum_list (map snd got) + l + sum_list (map snd rest) = length ip"
    using cover arg_cong [OF Cons(5), of "\<lambda>m. sum_mset (image_mset snd m)"] unfolding c
    by (simp add: sum_mset_sum_list [symmetric] ac_simps)
  obtain s1 where s1: "sicslowpan_input clk b pb s = next_received i (of_nat (length ip)) (pb 4) b s1" "gathering i a tag ip q (got @ [(p, l)]) s1"
    "Suc (free_bufs s1) = free_bufs s" "others_same s s1" "8 * unat (pb 4) = p" "length (pb_data b) = 5 + l"
    by (rule piece_gathered [OF Cons(4) _ _ _ _ _ ip(1) _ fs(2)]) (use pl ip(2) total Cons(6) in auto)
  have fit: "\<not> too_long (length (pb_data b)) SICSLOWPAN_FRAGN_HDR_LEN (pb 4) 0"
    using next_too_long [OF s1(6,5)] pl ip(1) by simp
  have lift: "delivered ip s1 s' \<Longrightarrow> delivered ip s s'" for s' using s1(4) by (simp add: delivered_def others_same_def)
  show ?case
  proof (cases "rest = []")
    case True
    then have all: "mset (got @ [(p, l)]) = mset cs" using Cons(5) c by simp
    have cv: "covered (got @ [(p, l)]) = covered cs" unfolding covered_def mset_eq_setD [OF all] ..
    have "{..<q} \<union> covered (got @ [(p, l)]) = {..<length ip}" using cover unfolding cv by auto
    moreover have "0 < length ip" "q \<le> length ip" "q + sum_list (map snd (got @ [(p, l)])) = length ip" using total True cover ip(2) by auto
    ultimately have "\<exists>s'. next_received i (of_nat (length ip)) (pb 4) b s1 = Some s' \<and> delivered ip s1 s' \<and> fi_len (frag_infos s' ! i) = 0
      \<and> length (frag_infos s') = length (frag_infos s1) \<and> (\<forall>j<length (frag_infos s1). j \<noteq> i \<longrightarrow> frag_infos s' ! j = frag_infos s1 ! j)
      \<and> free_bufs s' = free_bufs s1 + length (got @ [(p, l)])" by (intro last_delivers [OF s1(2) _ _ _ ip(1) _ fit])
    then
    obtain s2 where s2: "next_received i (of_nat (length ip)) (pb 4) b s1 = Some s2" "delivered ip s1 s2" "fi_len (frag_infos s2 ! i) = 0"
      "length (frag_infos s2) = length (frag_infos s1)" "\<forall>j<length (frag_infos s1). j \<noteq> i \<longrightarrow> frag_infos s2 ! j = frag_infos s1 ! j"
      "free_bufs s2 = free_bufs s1 + Suc (length got)" by (simp only: length_append) auto
    then show ?thesis using True fs(1,3) s1(1,3) lift s1(2) by (auto simp: gathering_def)
  next
    case False
    have "0 < sum_list (map snd rest)"
    proof -
      obtain p' l' where m: "(p', l') \<in> set rest" using False by (metis list.set_intros(1) neq_Nil_conv surj_pair)
      then have "(p', l') \<in> set cs" using mset_eq_setD [OF Cons(5)] by auto
      from pieces_member [OF cs this] have "0 < l'" by simp
      moreover have "l' \<le> sum_list (map snd rest)" using m by (intro member_le_sum_list) force+
      ultimately show ?thesis by simp
    qed
    then have step: "sicslowpan_input clk b pb s = Some s1"
      unfolding s1(1) using not_last [OF s1(2) _ ip(1) fit] total by simp
    from Cons(1) [OF fs(3) False s1(2)] Cons(5,6) s1(3) c obtain s' where s': "input_all fs' s1 = Some s'" "delivered ip s1 s'"
      "i < length (frag_infos s') \<and> fi_len (frag_infos s' ! i) = 0
        \<and> (\<forall>j<length (frag_infos s'). j \<noteq> i \<longrightarrow> \<not> matches tag a (frag_infos s' ! j)) \<and> free_bufs s' = free_bufs s1 + Suc (length got)" by auto
    then show ?thesis using fs(1) step lift s1(3) by auto
  qed
qed simp

text \<open>The first fragment.\<close>

lemma first_gathered:
  assumes s: "lowpan_ok s" and ip: "ip_ok ip" "length ip \<le> UIP_BUFSIZE" and l: "length a = 8" "length d = 8"
    and h: "datagram_hdr (addr_contexts s) a d ip = (h, n)" and plen: "n + plen < length ip" "n + plen \<le> SICSLOWPAN_FIRST_FRAGMENT_SIZE"
    and b: "carries b pb a d (frag1_data ip tag h (take plen (drop n ip)))"
    and free: "\<exists>c\<in>set (frag_infos s). fi_len c = 0" and new: "\<forall>c\<in>set (frag_infos s). \<not> matches tag a c"
  shows "\<exists>i s1. sicslowpan_input clk b pb s = Some s1 \<and> gathering i a tag (as_sent (addr_contexts s) ip) (n + plen) [] s1
    \<and> others_same s s1 \<and> free_bufs s \<le> free_bufs s1"
proof -
  define ip' where "ip' = as_sent (addr_contexts s) ip"
  note sent = as_sent [OF ip(1), where ctxs = "addr_contexts s", folded ip'_def]
  have b: "pb_sender b = a" "pb_receiver b = d" "pb_data b = frag1_data ip tag h (take plen (drop n ip))" "at_mem pb 0 (frag1_data ip tag h (take plen (drop n ip)))"
    using b by (simp_all add: carries_def)
  have len: "length ip < 2048" "length ip < 65536" using ip(2) by (simp_all add: UIP_BUFSIZE_def)
  note fields = frag1_fields [OF b(4) len(1)]
  define w :: u16 where "w = of_nat (length ip)"
  have w: "unat w = length ip" using len(2) by (simp add: w_def unsigned_of_nat take_bit_nat_eq_self)
  moreover have "0 < length ip" using ip(1) by (auto simp: ip_ok_def)
  ultimately have pos: "0 < w" "w \<noteq> 0" by (metis unat_gt_0 word_gt_0)+
  have two: "length (frag_infos s) = 2" using s by (simp add: lowpan_ok_def SICSLOWPAN_REASS_CONTEXTS_def)
  obtain c s1 where claim: "add_first_fragment clk b tag w s = (c, s1)" by (meson surj_pair)
  note cl = first_claimed [OF s claim]
  obtain j where "j < 2" "fi_len (frag_infos s ! j) = 0" using free two by (metis in_set_conv_nth)
  then have "c \<noteq> None" using cl by auto
  then obtain i s0 where i: "c = Some i" "freed s s0" "i < length (frag_infos s)" "fi_len (frag_infos s0 ! i) = 0" "lowpan_ok s1"
    "s1 = s0\<lparr>frag_infos := (frag_infos s0)[i := (frag_infos s0 ! i)\<lparr>fi_len := w, fi_tag := tag, fi_sender := pb_sender b\<rparr>], reass_timers := reass_timers s1\<rparr>"
    using cl by blast
  have l0: "length (frag_infos s0) = 2" using i(2) two by (simp add: freed_def)
  have s1: "frag_infos s1 = (frag_infos s0)[i := (frag_infos s0 ! i)\<lparr>fi_len := w, fi_tag := tag, fi_sender := a\<rparr>]" "frag_bufs s1 = frag_bufs s0"
    "others_same s s1" "free_bufs s \<le> free_bufs s1"
    using i(2) unfolding freed_def others_same_def free_bufs_def b(1) [symmetric] by (subst i(6), simp)+
  have unmatched: "\<not> matches tag a (frag_infos s0 ! j)" if "j < 2" for j
  proof -
    have "frag_infos s0 ! j = frag_infos s ! j \<or> fi_len (frag_infos s0 ! j) = 0" using i(2) that two by (simp add: freed_def)
    moreover have "\<not> matches tag a (frag_infos s ! j)" using new that two by simp
    ultimately show ?thesis by (auto simp: matches_def)
  qed
  have match: "matches tag a (frag_infos s1 ! j) \<longleftrightarrow> j = i" if "j < 2" for j
    using unmatched [OF that] that i(3) two l0 pos(1) unfolding s1(1) by (cases "j = i") (simp_all add: matches_def)
  have ok0: "lowpan_ok s0" using i(2) s by (simp add: freed_def)
  have none: "\<not> in_context i f" if "f \<in> set (frag_bufs s1)" for f
    using that ok0 i(4) unfolding s1(2) by (auto simp: lowpan_ok_def frag_buf_ok_def in_context_def)
  let ?first = "fi_first_frag (frag_infos s1 ! i)"
  have i1: "i < length (frag_infos s1)" using i(3) l0 two by (simp add: s1(1))
  have lf: "length ?first = SICSLOWPAN_FIRST_FRAGMENT_SIZE" using info_of [OF i(5) i1] by (simp add: frag_info_ok_def)
  then have lf48: "48 \<le> length ?first" by (simp add: SICSLOWPAN_FIRST_FRAGMENT_SIZE_def SICSLOWPAN_FRAGMENT_SIZE_def)
  have same: "addr_contexts s1 = addr_contexts s" using s1(3) by (simp add: others_same_def)
  have ctxs: "contexts_ok (addr_contexts s1)" using s by (simp add: same lowpan_ok_def)
  note r = header_read [OF ip(1) ctxs l [folded b(1,2)] h [folded b(1,2) same] fields(4) lf48, of w, OF disjI2, OF conjI, OF pos(2) w, unfolded same ip'_def [symmetric]]
  have rest: "drop n ip' = drop n ip" using r(3) by (simp add: sent(3))
  define hdr where "hdr = 4 + length h"
  define dl where "dl = length (pb_data b)"
  define first where "first = write_at 0 (take n ip') ?first"
  have run: "sicslowpan_input clk b pb s = first_received i w b pb hdr n first s1"
    unfolding sicslowpan_input_def Let_def fields(1-3) w_def [symmetric] using claim i(1) r(1)
    by (simp add: add_fragment_def SICSLOWPAN_FRAG1_HDR_LEN_def hdr_def first_def)
  have dl: "dl = hdr + plen" using plen(1) by (simp add: dl_def b(3) frag1_data_def hdr_def)
  have payload: "map pb [hdr..<dl] = take plen (drop n ip)"
  proof -
    have "map (\<lambda>i. pb (hdr + i)) [0..<plen] = take plen (drop n ip)" using fields(5) plen(1) unfolding hdr_def by (intro map_at_mem) simp_all
    moreover have "[hdr..<dl] = map (\<lambda>i. i + hdr) [0..<plen]" using map_add_upt [of hdr plen] by (simp add: dl add.commute)
    ultimately show ?thesis by (simp add: comp_def add.commute)
  qed
  define q where "q = n + plen"
  define first' where "first' = write_at n (take plen (drop n ip)) first"
  have lfirst: "length first = SICSLOWPAN_FIRST_FRAGMENT_SIZE" using lf r(4,5) lf48 sent(2) by (simp add: first_def)
  have nt: "\<not> too_long dl hdr 0 n" using plen ip(2) by (simp add: too_long_def dl)
  define c2 where "c2 = (frag_infos s1 ! i)\<lparr>fi_first_frag := first', fi_reassembled_len := of_nat q, fi_first_frag_len := of_nat q\<rparr>"
  define s2 where "s2 = s1\<lparr>frag_infos := (frag_infos s1)[i := c2]\<rparr>"
  have sum: "n + (dl - hdr) = q" by (simp add: dl q_def)
  have recv: "first_received i w b pb hdr n first s1 = Some s2"
    unfolding first_received_def Let_def dl_def [symmetric] payload sum first'_def [symmetric]
    using nt pos(1) plen(2) lfirst i1 by (simp add: s2_def c2_def q_def)
  have "q < 65536" using plen(2) by (simp add: q_def SICSLOWPAN_FIRST_FRAGMENT_SIZE_def SICSLOWPAN_FRAGMENT_SIZE_def)
  then have wq: "unat (of_nat q :: u16) = q" by (simp add: unsigned_of_nat take_bit_nat_eq_self)
  have lfirst': "length first' = SICSLOWPAN_FIRST_FRAGMENT_SIZE" using lfirst plen by (simp add: first'_def)
  have take: "take q first' = take q ip'"
  proof -
    have "has_bytes ip' ?first ({0..<0 + n} \<union> {n..<n + plen}) first'"
      unfolding first'_def first_def
      by (rule has_bytes_write [OF has_bytes_eq [OF has_bytes_write [OF has_bytes_start]]]) (use plen r(5) lf sent(2) rest in auto)
    then show ?thesis using plen lf lfirst' sent(2) by (intro nth_equalityI) (auto simp: has_bytes_def q_def)
  qed
  have "frag_info_ok c2" using plen(2) by (simp add: frag_info_ok_def c2_def lfirst' wq) (simp add: q_def)
  moreover have "0 < fi_len c2" using pos(1) i1 by (simp add: c2_def s1(1))
  ultimately have ok2: "lowpan_ok s2" unfolding s2_def by (intro lowpan_ok_info [OF i(5)]) auto
  have "matches tag a c2 = matches tag a (frag_infos s1 ! i)" by (simp add: matches_def c2_def)
  then have "\<forall>j<length (frag_infos s2). matches tag a (frag_infos s2 ! j) \<longleftrightarrow> j = i"
  proof (intro allI impI)
    fix j assume "j < length (frag_infos s2)"
    then have "j < 2" using l0 by (simp add: s2_def s1(1))
    from match [OF this] \<open>matches tag a c2 = _\<close> show "matches tag a (frag_infos s2 ! j) \<longleftrightarrow> j = i"
      using i1 by (cases "j = i") (simp_all add: s2_def)
  qed
  moreover have "filter (in_context i) (frag_bufs s2) = []" using none by (auto simp: s2_def filter_empty_conv)
  ultimately have "gathering i a tag ip' q [] s2"
    using ok2 i1 wq take none by (auto simp: gathering_def s2_def c2_def)
  moreover have "others_same s s2" "free_bufs s \<le> free_bufs s2" using s1(3,4) by (simp_all add: others_same_def s2_def free_bufs_def)
  ultimately show ?thesis using run recv unfolding q_def ip'_def by auto
qed

section \<open>Fragments behind the end of the buffer\<close>

text \<open>A next fragment of \<open>l\<close> bytes that fits the buffer of a fragment, wherever in the datagram it belongs.\<close>

definition next_frame :: "packetbuf \<Rightarrow> mem \<Rightarrow> linkaddr \<Rightarrow> u16 \<Rightarrow> u16 \<Rightarrow> u8 \<Rightarrow> nat \<Rightarrow> bool" where
  "next_frame b pb a tag n offset l \<longleftrightarrow> pb_sender b = a \<and> length (pb_data b) = SICSLOWPAN_FRAGN_HDR_LEN + l
    \<and> ucast (drop_bit 8 (get16 pb 0 AND 0xf800)) = SICSLOWPAN_DISPATCH_FRAGN \<and> get16 pb 0 AND 0x07ff = n
    \<and> get16 pb 2 = tag \<and> pb 4 = offset \<and> offset \<noteq> 0 \<and> 0 < l \<and> l \<le> SICSLOWPAN_FRAGMENT_SIZE"

text \<open>What is left of \<open>lowpan_ok\<close> when fragments of any position are stored.\<close>

definition sized :: "nat \<Rightarrow> linkaddr \<Rightarrow> u16 \<Rightarrow> lowpan \<Rightarrow> bool" where
  "sized i a tag s \<longleftrightarrow> length (uip_buf s) = UIP_BUFSIZE \<and> length (frag_infos s) = SICSLOWPAN_REASS_CONTEXTS \<and> i < length (frag_infos s)
    \<and> (\<forall>j<length (frag_infos s). matches tag a (frag_infos s ! j) \<longleftrightarrow> j = i)
    \<and> (\<forall>f\<in>set (frag_bufs s). length (fb_data f) = SICSLOWPAN_FRAGMENT_SIZE \<and> unat (fb_len f) \<le> SICSLOWPAN_FRAGMENT_SIZE)"

lemma sized_start:
  assumes "lowpan_ok s" "i < length (frag_infos s)" "\<forall>j<length (frag_infos s). matches tag a (frag_infos s ! j) \<longleftrightarrow> j = i"
  shows "sized i a tag s"
proof -
  have "unat (fb_len f) \<le> SICSLOWPAN_FRAGMENT_SIZE" if "f \<in> set (frag_bufs s)" for f
  proof (cases "fb_len f = 0")
    case False
    then have "0 < fb_len f" by (simp add: word_gt_0)
    then show ?thesis using assms(1) that by (simp add: lowpan_ok_def frag_buf_ok_def)
  qed simp
  then show ?thesis using assms by (simp add: sized_def lowpan_ok_def frag_buf_ok_def)
qed

lemma next_kept:
  assumes s: "sized i a tag s" "0 < free_bufs s" and b: "next_frame b pb a tag n offset l"
  obtains k f s1 where "add_fragment clk b pb SICSLOWPAN_FRAGN_HDR_LEN tag n offset s = Some (Some i, s1)"
    "sicslowpan_input clk b pb s = next_received i n offset b s1" "k < length (frag_bufs s)" "fb_len (frag_bufs s ! k) = 0"
    "frag_bufs s1 = (frag_bufs s)[k := f]" "in_context i f" "piece f = (8 * unat offset, l)" "take l (fb_data f) = map pb [5..<5 + l]"
    "fi_reassembled_len (frag_infos s1 ! i) = fi_reassembled_len (frag_infos s ! i) + of_nat l" "others_same s s1" "sized i a tag s1"
    "Suc (free_bufs s1) = free_bufs s"
proof -
  note sd = s(1) [unfolded sized_def]
  note bd = b [unfolded next_frame_def]
  have l: "0 < l" "l \<le> 110" using bd by (simp_all add: SICSLOWPAN_FRAGMENT_SIZE_def)
  have two: "length (frag_infos s) = 2" "i < 2" using sd by (simp_all add: SICSLOWPAN_REASS_CONTEXTS_def)
  have match: "matches tag a (frag_infos s ! j) \<longleftrightarrow> j = i" if "j < 2" for j using sd that two by simp
  have found: "find (\<lambda>i. fi_tag (frag_infos s ! i) = tag \<and> fi_len (frag_infos s ! i) > 0 \<and> fi_sender (frag_infos s ! i) = pb_sender b) [0..<SICSLOWPAN_REASS_CONTEXTS] = Some i"
    using match [unfolded matches_def] two bd unfolding two_contexts by (auto simp: less_2_cases_iff)
  have "\<exists>k<length (frag_bufs s). fb_len (frag_bufs s ! k) = 0"
    using s(2) by (auto simp: free_bufs_def filter_empty_conv in_set_conv_nth)
  then obtain k where free: "find (\<lambda>i. fb_len (frag_bufs s ! i) = 0) [0..<length (frag_bufs s)] = Some k"
    by (cases "find (\<lambda>i. fb_len (frag_bufs s ! i) = 0) [0..<length (frag_bufs s)]") (auto simp: find_None_iff)
  then have k: "k < length (frag_bufs s)" "fb_len (frag_bufs s ! k) = 0" using find_SomeD [OF free] by auto
  define f where "f = \<lparr>fb_index = of_nat i, fb_offset = offset, fb_len = of_nat l, fb_data = write_at 0 (map pb [5..<5 + l]) (fb_data (frag_bufs s ! k))\<rparr>"
  let ?c = "(frag_infos s ! i)\<lparr>fi_reassembled_len := fi_reassembled_len (frag_infos s ! i) + word_of_int (int l)\<rparr>"
  define s1 where "s1 = s\<lparr>frag_bufs := (frag_bufs s)[k := f], frag_infos := (frag_infos s)[i := ?c]\<rparr>"
  have data: "length (fb_data (frag_bufs s ! k)) = 110" using sd nth_mem [OF k(1)] by (simp add: SICSLOWPAN_FRAGMENT_SIZE_def)
  have "length (pb_data b) = 5 + l" using bd by (simp add: SICSLOWPAN_FRAGN_HDR_LEN_def)
  then have "store_fragment pb (length (pb_data b)) SICSLOWPAN_FRAGN_HDR_LEN i offset s = Some (int l, s\<lparr>frag_bufs := (frag_bufs s)[k := f]\<rparr>)"
    using free l(2) by (simp add: store_fragment_def f_def SICSLOWPAN_FRAGN_HDR_LEN_def SICSLOWPAN_FRAGMENT_SIZE_def)
  note stored = this
  have add: "add_fragment clk b pb SICSLOWPAN_FRAGN_HDR_LEN tag n offset s = Some (Some i, s1)"
    unfolding add_fragment_def add_next_fragment_def found option.case stored bind.bind_lunit prod.case s1_def using bd l(1) by simp
  have "SICSLOWPAN_DISPATCH_FRAGN \<noteq> SICSLOWPAN_DISPATCH_FRAG1" by (simp add: SICSLOWPAN_DISPATCH_FRAG1_def SICSLOWPAN_DISPATCH_FRAGN_def)
  then have run: "sicslowpan_input clk b pb s = next_received i n offset b s1"
    unfolding sicslowpan_input_def Let_def using bd add by simp
  have len: "unat (fb_len f) = l" using l(2) by (simp add: f_def unsigned_of_nat take_bit_nat_eq_self)
  then have pos: "fb_len f \<noteq> 0" using l(1) by auto
  have f: "in_context i f" "piece f = (8 * unat offset, l)" "take l (fb_data f) = map pb [5..<5 + l]" "length (fb_data f) = 110"
    using two(2) pos len l(2) data by (simp_all add: in_context_def piece_def word_gt_0) (simp_all add: f_def unsigned_of_nat take_bit_nat_eq_self write_at_def)
  have "Suc (free_bufs s1) = free_bufs s"
    using filter_update(2) [OF k(1), of "\<lambda>f. fb_len f = 0" f] k(2) pos by (simp add: free_bufs_def s1_def)
  moreover have "sized i a tag s1"
    using sd match two f(4) len l(2) unfolding sized_def SICSLOWPAN_FRAGMENT_SIZE_def
    by (auto simp: s1_def matches_def nth_list_update dest!: set_update_cases)
  moreover have "frag_bufs s1 = (frag_bufs s)[k := f]" "fi_reassembled_len (frag_infos s1 ! i) = fi_reassembled_len (frag_infos s ! i) + of_nat l" "others_same s s1"
    using two by (simp_all add: s1_def others_same_def)
  ultimately show thesis using that [OF add run k _ f(1-3)] by blast
qed

lemma copy_bufs_none:
  "f \<in> set fs \<Longrightarrow> in_context i f \<Longrightarrow> length buf < 8 * unat (fb_offset f) + unat (fb_len f)
    \<Longrightarrow> \<forall>g\<in>set fs. unat (fb_len g) \<le> length (fb_data g) \<Longrightarrow> copy_bufs i fs buf = None"
proof (induction i fs buf rule: copy_bufs.induct)
  case (2 i g fs buf)
  show ?case
  proof (cases "in_context i g \<and> 8 * unat (fb_offset g) + unat (fb_len g) \<le> length buf")
    case True
    then have hit: "fb_len g > 0 \<and> unat (fb_index g) = i" by (simp add: in_context_def)
    let ?b = "write_at (8 * unat (fb_offset g)) (take (unat (fb_len g)) (fb_data g)) buf"
    have "length ?b = length buf" using True 2(6) by (intro length_write_at) simp
    moreover have "f \<in> set fs" using 2(3,5) True by auto
    ultimately have "copy_bufs i fs ?b = None" using 2(1) [OF hit refl refl] 2(4-6) True by (simp add: offset_bytes)
    then show ?thesis using hit True by (simp add: offset_bytes)
  next
    case False
    then show ?thesis using 2 by (auto simp: in_context_def offset_bytes)
  qed
qed simp

end
