(* ===== verification/Lowpan_Output.thy ===== *)
theory Lowpan_Output
  imports Reassembly
begin

text \<open>
  The laws of sending in the adaptation layer: the header of a datagram depends on its first bytes alone, and a
  datagram that fits a frame is handed to the link layer in one packet (\<open>output_whole\<close>).
\<close>

section \<open>Sending a whole datagram\<close>

text \<open>Compression reads the header alone.\<close>

lemma zero16_append: "2 * i + 1 < length a \<Longrightarrow> zero16 (a @ r) i = zero16 a i"
  by (simp add: zero16_def nth_append)

lemma compress_append:
  assumes "40 \<le> length ip" "ip ! 6 = UIP_PROTO_UDP \<Longrightarrow> 48 \<le> length ip"
  shows "compress_hdr_iphc ctxs a d (ip @ r) = compress_hdr_iphc ctxs a d ip" "compress_hdr_ipv6 (ip @ r) = compress_hdr_ipv6 ip"
proof -
  have at: "(ip @ r) ! i = ip ! i" if "i < 40" for i using that assms(1) by (simp add: nth_append)
  have addr: "ip_src (ip @ r) = ip_src ip" "ip_dest (ip @ r) = ip_dest ip" using assms(1) by (simp_all add: ip_src_def ip_dest_def)
  have parts: "take 2 (drop 2 (ip @ r)) = take 2 (drop 2 ip)" "take 3 (drop 1 (ip @ r)) = take 3 (drop 1 ip)" "zero16 (ip @ r) 1 = zero16 ip 1"
    using assms(1) by (simp_all add: zero16_append)
  have tcfl: "compress_tcfl (ip @ r) = compress_tcfl ip" "compress_ttl (ip @ r) = compress_ttl ip"
    unfolding compress_tcfl_def compress_ttl_def parts by (simp_all add: at [of 0] at [of 1, simplified] at)
  have "compress_udp (ip @ r) = compress_udp ip" if "48 \<le> length ip"
  proof -
    have "get16 ((!) (ip @ r)) 40 = get16 ((!) ip) 40" "get16 ((!) (ip @ r)) 42 = get16 ((!) ip) 42"
      "take 2 (drop 40 (ip @ r)) = take 2 (drop 40 ip)" "take 2 (drop 42 (ip @ r)) = take 2 (drop 42 ip)"
      "take 4 (drop 40 (ip @ r)) = take 4 (drop 40 ip)" "take 2 (drop 46 (ip @ r)) = take 2 (drop 46 ip)"
      using that by (simp_all add: get16_def nth_append)
    then show ?thesis unfolding compress_udp_def by presburger
  qed
  then have udp: "ip ! 6 = UIP_PROTO_UDP \<Longrightarrow> compress_udp (ip @ r) = compress_udp ip" using assms(2) by simp
  have src: "compress_src ctxs a (ip @ r) = compress_src ctxs a ip" "compress_dest ctxs d (ip @ r) = compress_dest ctxs d ip"
    by (simp_all add: compress_src_def compress_dest_def addr)
  show "compress_hdr_iphc ctxs a d (ip @ r) = compress_hdr_iphc ctxs a d ip"
    unfolding compress_hdr_iphc_def addr tcfl src at [of 6, simplified] using udp by (simp cong: if_cong)
  show "compress_hdr_ipv6 (ip @ r) = compress_hdr_ipv6 ip" using assms(1) by (simp add: compress_hdr_ipv6_def UIP_IPH_LEN_def)
qed

lemma output_whole:
  assumes ip: "ip_ok ip" "length ip \<le> UIP_BUFSIZE" and s: "uip_buf s = ip @ r" "uip_len s = of_nat (length ip)"
    and dest: "dest = (case localdest of None \<Rightarrow> linkaddr_null | Some x \<Rightarrow> x)"
    and h: "datagram_hdr (addr_contexts s) a dest ip = (h, n)" "n \<le> length ip"
    and fl: "framer_length (m\<lparr>packetbuf := (packetbuf_with [])\<lparr>pb_receiver := dest\<rparr>\<rparr>) = (k, m')"
    and fits: "int (length h + (length ip - n)) \<le> MAC_MAX_PAYLOAD - (if k < 0 then SICSLOWPAN_FIXED_HDRLEN else k)"
  shows "sicslowpan_output R framer_length sent a localdest (s, m) =
    map_option (Pair True) (sicslowpan_send_packet R sent dest (s, set_packet (h @ drop n ip) m'))"
proof -
  have w: "uint (uip_len s) = int (length ip)" using ip(2) by (simp add: s(2) UIP_BUFSIZE_def unsigned_of_nat take_bit_nat_eq_self)
  have "40 \<le> length ip" "ip ! 6 = UIP_PROTO_UDP \<Longrightarrow> 48 \<le> length ip" using ip(1) by (simp_all add: ip_ok_def)
  from compress_append [OF this] h(1)
  have hdr: "(if uip_len s \<ge> COMPRESSION_THRESHOLD then compress_hdr_iphc (addr_contexts s) a dest (uip_buf s) else compress_hdr_ipv6 (uip_buf s)) = (h, n)"
    unfolding s datagram_hdr_def by presburger
  have "\<not> uint (uip_len s) - int n > MAC_MAX_PAYLOAD - (if k < 0 then SICSLOWPAN_FIXED_HDRLEN else k) - int (length h)"
    using fits h(2) unfolding w by (simp add: of_nat_diff)
  moreover have "uip_bytes s n (uint (uip_len s) - int n) = Some (drop n ip)"
    using h(2) unfolding uip_bytes_def w by (simp add: s nat_diff_distrib)
  ultimately show ?thesis
    unfolding sicslowpan_output_def prod.case Let_def dest [symmetric] hdr fl
    by (cases "sicslowpan_send_packet R sent dest (s, set_packet (h @ drop n ip) m')") simp_all
qed

lemma hdr_part: "ip_ok ip \<Longrightarrow> datagram_hdr ctxs a d ip = (h, n) \<Longrightarrow> n \<le> length ip"
  by (auto simp: datagram_hdr_def compress_hdr_iphc_def compress_hdr_ipv6_def ip_ok_def Let_def split_beta UIP_IPH_LEN_def UIP_UDPH_LEN_def split: if_splits)

lemma hdr_covers: "datagram_hdr ctxs a d ip = (h, n) \<Longrightarrow> 40 \<le> n"
  by (auto simp: datagram_hdr_def compress_hdr_iphc_def compress_hdr_ipv6_def Let_def split_beta UIP_IPH_LEN_def split: if_splits)

end
