(* ===== verification/Lowpan_Props.thy ===== *)
theory Lowpan_Props
  imports Lowpan_Output Mac_Radio
begin

text \<open>
  The properties of the adaptation layer (\<open>sicslowpan.c\<close>): whole datagrams and fragments from one node to the next, and
  which frames keep the buffers of the receiver.
\<close>

section \<open>Concrete data\<close>

definition lp_a :: linkaddr where "lp_a = [1, 0, 0, 0, 0, 0, 0, 1]"
definition lp_d :: linkaddr where "lp_d = [2, 0, 0, 0, 0, 0, 0, 2]"

text \<open>A datagram of UDP with 24 bytes of data, from and to addresses with the prefix \<open>fd00::/64\<close>.\<close>

definition lp_ip :: bytes where
  "lp_ip = [0x60, 0, 0, 0, 0, 32, 17, 64]
     @ [0xfd, 0, 0, 0, 0, 0, 0, 0, 3, 0, 0, 0, 0, 0, 0, 1] @ [0xfd, 0, 0, 0, 0, 0, 0, 0, 0, 0, 0, 0, 0, 0, 0, 2]
     @ [0x0B, 0x7E, 0x0B, 0x7F, 0, 32, 0x12, 0x34] @ map of_nat [1..<25]"

definition lp_ctxs :: "addr_context list" where
  "lp_ctxs = [\<lparr>ac_used = 1, ac_number = 0, ac_prefix = [0xfd, 0, 0, 0, 0, 0, 0, 0]\<rparr>]"

definition no_frag :: frag_info where
  "no_frag = \<lparr>fi_sender = lp_a, fi_tag = 0, fi_len = 0, fi_reassembled_len = 0, fi_first_frag_len = 0, fi_first_frag = replicate 148 0\<rparr>"

definition no_buf :: frag_buf where
  "no_buf = \<lparr>fb_index = 0, fb_offset = 0, fb_len = 0, fb_data = replicate 110 0\<rparr>"

definition lp_start :: lowpan where
  "lp_start = \<lparr>uip_buf = replicate 900 0, uip_len = 0, frag_infos = [no_frag, no_frag], frag_bufs = replicate 12 no_buf,
     reass_timers = \<lparr>tm_start = (\<lambda>_. 0), tm_interval = (\<lambda>_. 0), et_next = (\<lambda>_. 0), et_p = (\<lambda>_. 0), timerlist = 0, next_expiration = 0, et_started = True, clock_reads = 0\<rparr>,
     addr_contexts = lp_ctxs, my_tag = 0, last_tx_status = MAC_TX_OK, tcpip_inputs = []\<rparr>"

definition lp_packet :: "bytes \<Rightarrow> packetbuf" where
  "lp_packet xs = (packetbuf_with xs)\<lparr>pb_sender := lp_a, pb_receiver := lp_d\<rparr>"

lemma lp_start_ok: "lowpan_ok lp_start" "free_bufs lp_start = 12"
proof -
  have "contexts_ok lp_ctxs" by (simp add: contexts_ok_def lp_ctxs_def)
  then show "lowpan_ok lp_start"
    by (simp add: lowpan_ok_def lp_start_def UIP_BUFSIZE_def SICSLOWPAN_REASS_CONTEXTS_def SICSLOWPAN_FRAGMENT_BUFFERS_def frag_info_ok_def no_frag_def
        frag_buf_ok_def no_buf_def SICSLOWPAN_FIRST_FRAGMENT_SIZE_def SICSLOWPAN_FRAGMENT_SIZE_def)
  show "free_bufs lp_start = 12" by (simp add: free_bufs_def lp_start_def no_buf_def)
qed

lemma lp_ip_ok: "ip_ok lp_ip" "length lp_ip = 72" "length lp_a = 8" "length lp_d = 8"
  by code_simp+

lemma lp_carries: "carries (lp_packet xs) ((!) xs) lp_a lp_d xs"
  by (simp add: carries_def lp_packet_def packetbuf_with_def at_mem_def)

definition lp_hdr :: bytes where "lp_hdr = fst (datagram_hdr lp_ctxs lp_a lp_d lp_ip)"

lemma lp_hdr: "datagram_hdr (addr_contexts lp_start) lp_a lp_d lp_ip = (lp_hdr, 48)"
proof -
  have "snd (datagram_hdr lp_ctxs lp_a lp_d lp_ip) = 48" by code_simp
  then show ?thesis by (simp add: lp_start_def lp_hdr_def prod_eq_iff)
qed

lemma lp_hdr_length: "length lp_hdr = 10"
  by code_simp

section \<open>Whole datagrams\<close>

text \<open>C13. A datagram that fits a frame is given to the link layer as one packet, its header compressed, and every node that
  gets these bytes with the addresses of that packet and has the same address contexts hands it up with every byte
  restored, in all modes of compression for addresses, ports, traffic class, hop limit and lengths, with one exception,
  the bytes 2 to 7 of the source. They arrive as 0 exactly when the datagram is compressed, its source is link-local and in no
  context, and these bytes of the destination are 0 (\<open>local_src\<close>): the code tests the destination where it
  should test the source. In all other cases, and when these bytes are 0, exactly the datagram is handed up.
  The datagram has version 6 and fields of length that are true (\<open>ip_ok\<close>), as the receiver computes them anew.
\<close>

theorem datagram_crosses:
  assumes ip: "ip_ok ip" "length ip \<le> UIP_BUFSIZE" and s: "uip_buf s = ip @ r" "uip_len s = of_nat (length ip)" "contexts_ok (addr_contexts s)"
    and dest: "dest = (case localdest of None \<Rightarrow> linkaddr_null | Some x \<Rightarrow> x)" and l: "length a = 8" "length dest = 8"
    and h: "datagram_hdr (addr_contexts s) a dest ip = (h, n)"
    and fl: "framer_length (m\<lparr>packetbuf := (packetbuf_with [])\<lparr>pb_receiver := dest\<rparr>\<rparr>) = (k, m')"
    and fits: "int (length h + (length ip - n)) \<le> MAC_MAX_PAYLOAD - (if k < 0 then SICSLOWPAN_FIXED_HDRLEN else k)"
  shows "\<exists>xs. sicslowpan_output R framer_length sent a localdest (s, m) = map_option (Pair True) (sicslowpan_send_packet R sent dest (s, set_packet xs m'))
    \<and> (\<forall>clk b pb t. lowpan_ok t \<and> addr_contexts t = addr_contexts s \<and> carries b pb a dest xs \<longrightarrow>
        sicslowpan_input clk b pb t = Some (tcpip_input (of_nat (length ip))
          (t\<lparr>uip_buf := as_sent (addr_contexts s) ip @ drop (length ip) (uip_buf t)\<rparr>)))
    \<and> drop 16 (as_sent (addr_contexts s) ip) = drop 16 ip \<and> take 10 (as_sent (addr_contexts s) ip) = take 10 ip
    \<and> take 6 (drop 10 (as_sent (addr_contexts s) ip)) =
        (if length ip \<ge> unat COMPRESSION_THRESHOLD \<and> local_src (addr_contexts s) ip then replicate 6 0 else take 6 (drop 10 ip))"
proof -
  have "n \<le> length ip" using hdr_part [OF ip(1) h] .
  from output_whole [where framer_length = framer_length and m = m and k = k, OF ip s(1,2) dest h this fl fits, of R sent]
  show ?thesis using whole_delivered [OF _ ip l] h as_sent_bytes [OF ip(1)] ip(2)
    by (intro exI [of _ "h @ drop n ip"] conjI) (auto simp: UIP_BUFSIZE_def)
qed

lemma lp_as_sent: "addr_contexts s = lp_ctxs \<Longrightarrow> as_sent (addr_contexts s) lp_ip = lp_ip"
proof -
  have "\<not> local_src lp_ctxs lp_ip" by code_simp
  then show "addr_contexts s = lp_ctxs \<Longrightarrow> as_sent (addr_contexts s) lp_ip = lp_ip" using as_sent_same [OF _ lp_ip_ok(1)] by simp
qed

lemma datagram_crosses_witness:
  "\<exists>xs. sicslowpan_output (air_ops lp_a) (\<lambda>m. (21, m)) 1 lp_a (Some lp_d) (lp_start\<lparr>uip_buf := lp_ip @ replicate 828 0, uip_len := 72\<rparr>, csma_zero (air_start []))
      = map_option (Pair True) (sicslowpan_send_packet (air_ops lp_a) 1 lp_d (lp_start\<lparr>uip_buf := lp_ip @ replicate 828 0, uip_len := 72\<rparr>,
          set_packet xs ((csma_zero (air_start []))\<lparr>packetbuf := (packetbuf_with [])\<lparr>pb_receiver := lp_d\<rparr>\<rparr>)))
    \<and> (\<forall>clk b pb t. lowpan_ok t \<and> addr_contexts t = addr_contexts (lp_start\<lparr>uip_buf := lp_ip @ replicate 828 0, uip_len := 72\<rparr>) \<and> carries b pb lp_a lp_d xs \<longrightarrow>
        sicslowpan_input clk b pb t = Some (tcpip_input (of_nat (length lp_ip)) (t\<lparr>uip_buf := lp_ip @ drop (length lp_ip) (uip_buf t)\<rparr>)))"
proof -
  let ?s = "lp_start\<lparr>uip_buf := lp_ip @ replicate 828 0, uip_len := 72\<rparr>"
  let ?m' = "(csma_zero (air_start []))\<lparr>packetbuf := (packetbuf_with [])\<lparr>pb_receiver := lp_d\<rparr>\<rparr>"
  have ok: "length lp_ip \<le> UIP_BUFSIZE" "uip_buf ?s = lp_ip @ replicate 828 0" "uip_len ?s = of_nat (length lp_ip)"
    "contexts_ok (addr_contexts ?s)" "lp_d = (case Some lp_d of None \<Rightarrow> linkaddr_null | Some x \<Rightarrow> x)"
    "datagram_hdr (addr_contexts ?s) lp_a lp_d lp_ip = (lp_hdr, 48)"
    using lp_hdr lp_start_ok(1) by (simp_all add: lp_ip_ok(2) UIP_BUFSIZE_def lowpan_ok_def)
  have k: "int (length lp_hdr + (length lp_ip - 48)) \<le> MAC_MAX_PAYLOAD - (if (21 :: int) < 0 then SICSLOWPAN_FIXED_HDRLEN else 21)"
    by (simp add: lp_ip_ok(2) lp_hdr_length MAC_MAX_PAYLOAD_def)
  have ctxs: "addr_contexts ?s = lp_ctxs" by (simp add: lp_start_def)
  from datagram_crosses [OF lp_ip_ok(1) ok(1-5) lp_ip_ok(3,4) ok(6), where framer_length = "\<lambda>m. (21, m)" and R = "air_ops lp_a" and sent = 1
      and m = "csma_zero (air_start [])" and k = 21 and m' = ?m', OF refl k]
  show ?thesis unfolding lp_as_sent [OF ctxs] by blast
qed

section \<open>Fragments\<close>

text \<open>C8. A datagram in fragments arrives whole in any order of the next fragments: after the first fragment and all next
  ones, each at its own time, the stack above has been given the datagram exactly once, after the last fragment, and the
  context and all buffers are free again. The datagram is the one that was sent, but for the bytes 2 to 7 of a source that
  the compression of the header drops (C13); \<open>as_sent\<close> is the identity for all other datagrams. The receiver needs a free context, a buffer for each next fragment, and no
  other datagram of the sender with the same tag.
\<close>

theorem datagrams_reassembled:
  assumes s: "lowpan_ok s" and ip: "ip_ok ip" "length ip \<le> UIP_BUFSIZE" and l: "length a = 8" "length d = 8"
    and h: "datagram_hdr (addr_contexts s) a d ip = (h, n)" and plen: "n + plen < length ip" "n + plen \<le> SICSLOWPAN_FIRST_FRAGMENT_SIZE"
    and cs: "pieces (n + plen) cs (length ip)" "mset cs' = mset cs" "length cs \<le> free_bufs s"
    and free: "\<exists>c\<in>set (frag_infos s). fi_len c = 0" and new: "\<forall>c\<in>set (frag_infos s). \<not> matches tag a c"
    and b: "carries b pb a d (frag1_data ip tag h (take plen (drop n ip)))" and fs: "list_all2 (piece_frame a d ip tag) fs cs'"
  shows "\<exists>s'. input_all ((clk, b, pb) # fs) s = Some s' \<and> delivered (as_sent (addr_contexts s) ip) s s' \<and> free_bufs s \<le> free_bufs s'
    \<and> (\<exists>c\<in>set (frag_infos s'). fi_len c = 0) \<and> (\<forall>c\<in>set (frag_infos s'). \<not> matches tag a c)"
proof -
  define ip' where "ip' = as_sent (addr_contexts s) ip"
  note sent = as_sent [OF ip(1), where ctxs = "addr_contexts s", folded ip'_def]
  from first_gathered [OF s ip l h plen b free new, folded ip'_def] obtain i s1 where s1: "sicslowpan_input clk b pb s = Some s1"
    "gathering i a tag ip' (n + plen) [] s1" "others_same s s1" "free_bufs s \<le> free_bufs s1" by blast
  have "cs' \<noteq> []" using cs(1,2) plen(1) by (cases cs) auto
  have ip2: "length ip' \<le> UIP_BUFSIZE" and cs1: "pieces (n + plen) cs (length ip')" using ip(2) cs(1) sent(2) by simp_all
  have far: "16 \<le> fst c" if "c \<in> set cs'" for c
    using pieces_behind [OF cs(1)] that mset_eq_setD [OF cs(2)] hdr_covers [OF h] by fastforce
  have fs: "list_all2 (piece_frame a d ip' tag) fs cs'"
  proof (rule list.rel_mono_strong [OF fs])
    fix fr c assume "c \<in> set cs'" "piece_frame a d ip tag fr c"
    then show "piece_frame a d ip' tag fr c" using sent(3) [OF far] by (simp add: piece_frame_def fragn_data_def sent(2) split: prod.splits)
  qed
  have len: "length cs' \<le> free_bufs s1" using mset_eq_length [OF cs(2)] cs(3) s1(4) by simp
  have q: "0 < n + plen" using hdr_covers [OF h] by simp
  from pieces_gathered [OF ip2 q cs1 fs \<open>cs' \<noteq> []\<close> s1(2) _ len] cs(2)
  obtain s' where s': "input_all fs s1 = Some s'" "delivered ip' s1 s'" "i < length (frag_infos s')" "fi_len (frag_infos s' ! i) = 0"
    "\<forall>j<length (frag_infos s'). j \<noteq> i \<longrightarrow> \<not> matches tag a (frag_infos s' ! j)" "free_bufs s' = free_bufs s1" by auto
  have "\<not> matches tag a (frag_infos s' ! i)" using s'(4) by (simp add: matches_def)
  with s'(5) have "\<forall>c\<in>set (frag_infos s'). \<not> matches tag a c" by (auto simp: in_set_conv_nth)
  moreover have "\<exists>c\<in>set (frag_infos s'). fi_len c = 0" using s'(3,4) nth_mem by blast
  moreover have "delivered (as_sent (addr_contexts s) ip) s s'" unfolding ip'_def [symmetric] using s'(2) s1(3) by (simp add: delivered_def others_same_def)
  ultimately show ?thesis using s1(1,4) s'(1,6) by auto
qed

lemma lp_delivered: "delivered (as_sent (addr_contexts lp_start) lp_ip) = delivered lp_ip"
  using lp_as_sent [of lp_start] by (simp add: lp_start_def)

definition lp_frag :: "bytes \<Rightarrow> clock \<times> packetbuf \<times> mem" where
  "lp_frag xs = ((\<lambda>_. 0), lp_packet xs, (!) xs)"

lemma datagrams_reassembled_witness:
  "\<exists>s'. input_all (lp_frag (frag1_data lp_ip 7 lp_hdr (take 8 (drop 48 lp_ip))) # [lp_frag (fragn_data lp_ip 7 (64, 8)), lp_frag (fragn_data lp_ip 7 (56, 8))]) lp_start
      = Some s' \<and> delivered lp_ip lp_start s' \<and> free_bufs lp_start \<le> free_bufs s'
    \<and> (\<exists>c\<in>set (frag_infos s'). fi_len c = 0) \<and> (\<forall>c\<in>set (frag_infos s'). \<not> matches 7 lp_a c)"
  unfolding lp_frag_def lp_delivered [symmetric]
  by (rule datagrams_reassembled [OF lp_start_ok(1) lp_ip_ok(1) _ lp_ip_ok(3,4) lp_hdr, where plen = 8 and cs = "[(56, 8), (64, 8)]" and cs' = "[(64, 8), (56, 8)]"])
    (simp_all add: lp_ip_ok(2) lp_start_ok(2) UIP_BUFSIZE_def SICSLOWPAN_FIRST_FRAGMENT_SIZE_def SICSLOWPAN_FRAGMENT_SIZE_def lp_carries piece_frame_def,
     simp_all add: lp_start_def no_frag_def matches_def)

section \<open>Memory\<close>

text \<open>C14. Frames whose data fit the buffers are handled without an access out of bounds, in any number and order, complete or
  not, repeated, expired or of several senders: every run ends, the invariant of the buffers holds, and each datagram
  given to the stack above lies in uip_buf.
\<close>

theorem fitting_frames_safe:
  assumes "lowpan_ok s" "inputs_ok s" "\<forall>(clk, b, pb)\<in>set fs. fragment_fits s b pb"
  shows "\<exists>s'. input_all fs s = Some s' \<and> lowpan_ok s' \<and> inputs_ok s'"
  using inputs_safe [OF assms(1,3)] assms(2) by (auto simp: safe_def)

lemma lp_fits: "fragment_fits lp_start (lp_packet (fragn_data lp_ip 7 (64, 8))) ((!) (fragn_data lp_ip 7 (64, 8)))"
  by code_simp

lemma fitting_frames_safe_witness:
  "\<exists>s'. input_all [lp_frag (fragn_data lp_ip 7 (64, 8)), lp_frag (fragn_data lp_ip 7 (64, 8))] lp_start = Some s' \<and> lowpan_ok s' \<and> inputs_ok s'"
  by (rule fitting_frames_safe [OF lp_start_ok(1)]) (use lp_fits in \<open>simp_all add: inputs_ok_def lp_frag_def, simp_all add: lp_start_def\<close>)

text \<open>
  The check of the size of a datagram comes after its fragment was stored: a fragment that lies behind the end of
  \<open>uip_buf\<close> is refused, but stays in its buffer, and is copied with the others.
\<close>

text \<open>C20. A fragment behind the end of uip_buf makes a later copy write there. Let a datagram of a sender be collected in a
  context, with any contents so far, and let the sender send a next fragment with any data whose place ends behind
  uip_buf. The frame is refused as too long, but its data stay in a buffer of the context. Whenever then a
  fragment in bounds completes the number of bytes, this one included, the loop of copy_frags2uip copies the kept data to
  their place, whatever else the context holds: the access out of bounds is a certain one.
\<close>

theorem kept_fragment_overruns:
  assumes s: "lowpan_ok s" "i < length (frag_infos s)" "\<forall>j<length (frag_infos s). matches tag a (frag_infos s ! j) \<longleftrightarrow> j = i" "2 \<le> free_bufs s"
    and far: "next_frame b pb a tag n offset l" "UIP_BUFSIZE < 8 * unat offset + l"
    and last: "next_frame b' pb' a tag n' offset' l'" "8 * unat offset' + l' \<le> UIP_BUFSIZE"
      "0 < n'" "n' \<le> fi_reassembled_len (frag_infos s ! i) + of_nat (l + l')"
  shows "\<exists>s1 s2 f. sicslowpan_input clk b pb s = Some s1 \<and> others_same s s1
    \<and> add_fragment clk' b' pb' SICSLOWPAN_FRAGN_HDR_LEN tag n' offset' s1 = Some (Some i, s2)
    \<and> f \<in> set (frag_bufs s2) \<and> in_context i f \<and> piece f = (8 * unat offset, l) \<and> take l (fb_data f) = map pb [5..<5 + l]
    \<and> (\<forall>buf. length buf = UIP_BUFSIZE \<longrightarrow> copy_bufs i (frag_bufs s2) buf = None)
    \<and> copy_frags2uip i s2 = None \<and> sicslowpan_input clk' b' pb' s1 = None"
proof -
  have s0: "sized i a tag s" "0 < free_bufs s" using sized_start [OF s(1-3)] s(4) by simp_all
  obtain k f s1 where s1: "sicslowpan_input clk b pb s = next_received i n offset b s1" "frag_bufs s1 = (frag_bufs s)[k := f]"
    "k < length (frag_bufs s)" "in_context i f" "piece f = (8 * unat offset, l)" "take l (fb_data f) = map pb [5..<5 + l]"
    "fi_reassembled_len (frag_infos s1 ! i) = fi_reassembled_len (frag_infos s ! i) + of_nat l" "others_same s s1" "sized i a tag s1"
    "Suc (free_bufs s1) = free_bufs s"
    by (rule next_kept [OF s0 far(1), of clk]) blast
  have "length (pb_data b) = SICSLOWPAN_FRAGN_HDR_LEN + l" using far(1) by (simp add: next_frame_def)
  then have refused: "sicslowpan_input clk b pb s = Some s1"
    using far(2) unfolding s1(1) by (simp add: next_received_def too_long_def offset_bytes)
  obtain k' g s2 where s2: "add_fragment clk' b' pb' SICSLOWPAN_FRAGN_HDR_LEN tag n' offset' s1 = Some (Some i, s2)"
    "sicslowpan_input clk' b' pb' s1 = next_received i n' offset' b' s2" "k' < length (frag_bufs s1)" "fb_len (frag_bufs s1 ! k') = 0"
    "frag_bufs s2 = (frag_bufs s1)[k' := g]" "fi_reassembled_len (frag_infos s2 ! i) = fi_reassembled_len (frag_infos s1 ! i) + of_nat l'"
    "sized i a tag s2"
    by (rule next_kept [OF s1(9) _ last(1), of clk']) (use s(4) s1(10) in auto)
  have "frag_bufs s1 ! k = f" using s1(2,3) by simp
  then have "k' \<noteq> k" using s2(4) s1(4) by (auto simp: in_context_def)
  then have "frag_bufs s2 ! k = f" "k < length (frag_bufs s2)" using s1(2,3) s2(5) by simp_all
  then have f: "f \<in> set (frag_bufs s2)" using nth_mem by metis
  have none: "copy_bufs i (frag_bufs s2) buf = None" if "length buf = UIP_BUFSIZE" for buf
    using s1(5) far(2) s2(7) that by (intro copy_bufs_none [OF f s1(4)]) (simp_all add: piece_def sized_def)
  have copy: "copy_frags2uip i t = None" if "frag_bufs t = frag_bufs s2" "uip_buf t = uip_buf s2" for t
    using none s2(7) by (auto simp: copy_frags2uip_def that Let_def sized_def)
  have "n' \<le> fi_reassembled_len (frag_infos s2 ! i)" using last(4) by (simp add: s2(6) s1(7) add.assoc)
  moreover have "\<not> too_long (length (pb_data b')) SICSLOWPAN_FRAGN_HDR_LEN offset' 0"
    using last(1,2) by (simp add: next_frame_def too_long_def offset_bytes)
  ultimately have "sicslowpan_input clk' b' pb' s1 = None"
    using last(3) unfolding s2(2) by (simp add: next_received_def copy)
  then show ?thesis using refused s1(4-6,8) s2(1) f none copy by blast
qed

definition lp_half :: lowpan where
  "lp_half = lp_start\<lparr>frag_infos := (frag_infos lp_start)[0 := no_frag\<lparr>fi_tag := 9, fi_len := 150, fi_reassembled_len := 40, fi_first_frag_len := 40\<rparr>]\<rparr>"

definition lp_far :: bytes where "lp_far = [0xe0, 150, 0, 9, 200] @ replicate 110 1"
definition lp_last :: bytes where "lp_last = [0xe0, 150, 0, 9, 5] @ replicate 8 2"

lemma lp_half:
  "lowpan_ok lp_half" "\<forall>j<length (frag_infos lp_half). matches 9 lp_a (frag_infos lp_half ! j) \<longleftrightarrow> j = 0" "2 \<le> free_bufs lp_half"
proof -
  show "lowpan_ok lp_half"
    unfolding lp_half_def
    by (rule lowpan_ok_info [OF lp_start_ok(1)]) (simp_all add: frag_info_ok_def no_frag_def SICSLOWPAN_FIRST_FRAGMENT_SIZE_def SICSLOWPAN_FRAGMENT_SIZE_def)
  show "\<forall>j<length (frag_infos lp_half). matches 9 lp_a (frag_infos lp_half ! j) \<longleftrightarrow> j = 0"
    by (auto simp: lp_half_def lp_start_def no_frag_def matches_def less_Suc_eq)
  show "2 \<le> free_bufs lp_half" using lp_start_ok(2) by (simp add: free_bufs_def lp_half_def)
qed

lemma kept_fragment_overruns_witness:
  "\<exists>s1 s2 f. sicslowpan_input (\<lambda>_. 0) (lp_packet lp_far) ((!) lp_far) lp_half = Some s1 \<and> others_same lp_half s1
    \<and> add_fragment (\<lambda>_. 0) (lp_packet lp_last) ((!) lp_last) SICSLOWPAN_FRAGN_HDR_LEN 9 150 5 s1 = Some (Some 0, s2)
    \<and> f \<in> set (frag_bufs s2) \<and> in_context 0 f \<and> piece f = (8 * unat (200 :: u8), 110) \<and> take 110 (fb_data f) = map ((!) lp_far) [5..<5 + 110]
    \<and> (\<forall>buf. length buf = UIP_BUFSIZE \<longrightarrow> copy_bufs 0 (frag_bufs s2) buf = None)
    \<and> copy_frags2uip 0 s2 = None \<and> sicslowpan_input (\<lambda>_. 0) (lp_packet lp_last) ((!) lp_last) s1 = None"
proof (rule kept_fragment_overruns [OF lp_half(1) _ lp_half(2,3)])
  show "next_frame (lp_packet lp_far) ((!) lp_far) lp_a 9 150 200 110" "next_frame (lp_packet lp_last) ((!) lp_last) lp_a 9 150 5 8"
    unfolding next_frame_def by code_simp+
qed (simp_all add: UIP_BUFSIZE_def lp_half_def lp_start_def no_frag_def)

text \<open>
  The source is compressed as if it had no subnet when the destination has none: bytes 2 to 7 of a link-local source
  are lost.
\<close>

definition subnet_ip :: bytes where
  "subnet_ip = [0x60, 0, 0, 0, 0, 32, 17, 64]
     @ [0xfe, 0x80, 0, 5, 0, 0, 0, 0, 3, 0, 0, 0, 0, 0, 0, 1] @ [0xfe, 0x80, 0, 0, 0, 0, 0, 0, 0, 0, 0, 0, 0, 0, 0, 2] @ drop 40 lp_ip"

definition subnet_hdr :: bytes where "subnet_hdr = fst (compress_hdr_iphc lp_ctxs lp_a lp_d subnet_ip)"

lemma subnet_hdr: "subnet_hdr = [0x7e, 0x33, 0xf0, 0x0B, 0x7E, 0x0B, 0x7F, 0x12, 0x34]"
  by code_simp

lemma source_subnet_lost:
  "ip_src (fst (uncompress_hdr_iphc lp_ctxs (lp_packet subnet_hdr) ((!) subnet_hdr) 0 0 (replicate 48 0))) = [0xfe, 0x80, 0, 0, 0, 0, 0, 0, 3, 0, 0, 0, 0, 0, 0, 1]"
  "ip_src subnet_ip = [0xfe, 0x80, 0, 5, 0, 0, 0, 0, 3, 0, 0, 0, 0, 0, 0, 1]"
  unfolding subnet_hdr by code_simp+

end
