(* ===== verification/Spec2Isabelle.thy ===== *)
theory Spec2Isabelle
  imports Flash_Props Net_Props Periph_Props Kernel_Props Memory_Block Mac_Props Lowpan_Props
begin

text \<open>
  Verification library for the firmware of the Unwired Devices smart home: a mesh of nodes on
  CC26xx chips with an external SPI flash, a border router on the same chip, and the bootloader
  that installs firmware received over the air.

  \<^bold>\<open>The program.\<close> The border router (\<open>unwired/root-node.c\<close>) receives frames of a host over its
  UART and sends them into the mesh as UDP packets; packets of the nodes are answered and
  printed for the host. A node (\<open>unwired/dag_node.c\<close>) joins the mesh, reports its status,
  keeps its clock with the root's (\<open>unwired/rtc-common.c\<close>), hands commands to the main process
  of its device (\<open>unwired/smarthome\<close>, \<open>unwired/asuno-light\<close>) and downloads firmware into the
  external flash (\<open>unwired/ota-main.c\<close> over \<open>platform/unwired/common/ext-flash.c\<close> and
  \<open>board-spi.c\<close>). A byte in the internal flash, the firmware flag (\<open>unwired/ota-common.c\<close> over
  \<open>unwired/int-flash-common.c\<close>), tells the bootloader (\<open>unwired/bootloader\<close>) what to do at
  the next start: install a slot, start the image, or fall back to the golden image.

  \<^bold>\<open>How code is modelled.\<close> A C function is a HOL function of the same name that gets the state
  and gives the new one; \<open>None\<close> stands for undefined behaviour (an access outside of an
  array) and for a loop that does not end. The driver library of the chip maker is not part of
  the sources: it is the parameter \<open>ti :: 'd ti\<close>, a function of a call (\<open>ti_call\<close>) and the
  device state \<open>'d\<close>, and all drivers are translated over it. Integers have the width
  of the source (\<open>u8\<close>, \<open>u16\<close>, \<open>u32\<close>) with its wrap-around; arithmetic that C does in \<open>int\<close> is
  done in \<open>int\<close>. Loops that poll hardware are \<open>partial_function (option)\<close>, all others are
  structural. A process is a function from one waiting point to the next. What a component
  does to the outside (UDP packets, prints, posted events, resets) is a list of events.

  \<^bold>\<open>Theories of the flash part.\<close>
  \<^item> \<open>Prelude\<close>: bytes, memories, the calls of the driver library, loop combinators.
  \<^item> \<open>Board_Spi\<close>, \<open>Ext_Flash\<close>: \<open>board-spi.c\<close> and \<open>ext-flash.c\<close>, node and bootloader builds.
  \<^item> \<open>Int_Flash\<close>: \<open>int-flash-common.c\<close> and \<open>ota-common.c\<close>; locales \<open>byte_store\<close> and \<open>int_flash\<close>.
  \<^item> \<open>Ext_Flash_Spec\<close>: the interface of \<open>ext-flash.h\<close> as a record and its contract, the locales
    \<open>ext_flash\<close> and \<open>flash_board\<close>. The erase unit of the chip is a parameter of the contract.
  \<^item> \<open>Nor_Board\<close>: a reference board with a NOR flash chip (command shift register, page wrap,
    busy time, deep power-down), and the proof that both driver builds meet the contract on it
    (locale \<open>nor_driver\<close>).
  \<^item> \<open>Crc16\<close>: the three copies of \<open>crc16\<close>, its algebra, CRC-16/XMODEM as reference.
  \<^item> \<open>Ota_Main\<close>, \<open>Ota_Laws\<close>: \<open>ota-main.c\<close>, and its laws over \<open>flash_board\<close>.
  \<^item> \<open>Ota_Boot\<close>, \<open>Ota_Boot_Laws\<close>: \<open>bootloader.c\<close> and \<open>ota-bootloader.c\<close>; the update protocol as
    tables (\<open>boot_plan\<close>, \<open>settled_plan\<close>) and the locale \<open>boot_device\<close>.
  \<^item> \<open>Metadata_Tool\<close>: \<open>generate-metadata.c\<close>.
  \<^item> \<open>Boards\<close>: the interpretations of the locales on the reference board, for every erase unit.
  \<^item> \<open>Flash_Props\<close>: the properties of this part with their witnesses.

  \<^bold>\<open>Theories of the network part.\<close>
  \<^item> \<open>Protocol\<close>: the constants of \<open>ud_binary_protocol.h\<close>, receive buffers, hexadecimal text.
  \<^item> \<open>Rtc\<close>: \<open>rtc-common.c\<close> over the counter of the chip; times are compared in milliseconds
    modulo the range of the seconds (\<open>same_ms\<close>).
  \<^item> \<open>Root_Node\<close>, \<open>Root_Laws\<close>: \<open>root-node.c\<close>; the receiver of the UART against a specification
    over lists (\<open>rx\<close>, \<open>rx_step\<close>), the invariant \<open>root_ok\<close> and the reachable states
    \<open>root_reach\<close>, what becomes of a whole frame of the host, the printed line.
  \<^item> \<open>Radio_Power\<close>: \<open>radio_power.c\<close>.
  \<^item> \<open>Dag_Node\<close>, \<open>Dag_Process\<close>: \<open>dag_node.c\<close>, its packets and handlers, its processes.
  \<^item> \<open>Ota_Download\<close>: the firmware update as a session of packets and timers, over
    \<open>flash_board\<close>: erasing, storing, retries, the verdict, the first join of a new image.
  \<^item> \<open>Node_Laws\<close>: the invariant \<open>node_ok\<close> of all reachable states of a node (\<open>node_reach\<close>), what
    a packet can do to the flashes, unanswered status packets.
  \<^item> \<open>Time_Sync\<close>: the clock protocol between a node and the root.
  \<^item> \<open>Relay\<close>: \<open>relay.c\<close>, locale \<open>relay_board\<close> for its pins and flash.
  \<^item> \<open>Button_Sensor\<close>, \<open>Devices\<close>: \<open>button-sensor.c\<close>; \<open>button.c\<close>, \<open>motionsensor.c\<close>, \<open>dimmer.c\<close>,
    \<open>light.c\<close>.
  \<^item> \<open>Net_Boards\<close>: concrete nodes and a relay board, the interpretation of \<open>relay_board\<close>.
  \<^item> \<open>Net_Props\<close>: the properties of this part with their witnesses.

  \<^bold>\<open>Theories of the other images and drivers.\<close>
  \<^item> \<open>Ring_Buffer\<close>: \<open>core/lib/ringbuf.c\<close>, which the sniffer uses, as the instance of the locale
    \<open>byte_queue\<close> of bounded queues.
  \<^item> \<open>Sniffer\<close>, \<open>Sniffer_Laws\<close>: \<open>unwired/sensniff\<close> over any radio driver; its parser refines a
    specification over whole commands (\<open>sniff_spec\<close>), and its output decodes to messages, unless the radio
    refuses the promiscuous mode and the error line stands before them.
  \<^item> \<open>Board_I2c\<close>: \<open>board-i2c.c\<close> with the locale \<open>i2c_library\<close> of what it needs from the driver
    library: every function returns and addresses the selected slave only.
  \<^item> \<open>Sensors\<close>: \<open>sht21.c\<close> and \<open>lps331ap.c\<close> on it, without their conversions to floating point.
  \<^item> \<open>Periph_Props\<close>: the property of the sniffer.

  \<^bold>\<open>Theories of the operating system.\<close>
  \<^item> \<open>Linked_List\<close>, \<open>Memory_Block\<close>: \<open>core/lib/list.c\<close> over a heap of addresses, against lists
    (\<open>chain\<close>, \<open>lst_items\<close>); \<open>core/lib/memb.c\<close> as the instance of the locale \<open>block_pool\<close>.
  \<^item> \<open>Process_Kernel\<close>, \<open>Kernel_Laws\<close>: \<open>core/sys/process.c\<close>. A thread is a program (\<open>prog\<close>): it
    returns or calls the kernel and goes on with the result; \<open>kernel_run\<close> gives such calls their meaning.
    The invariant \<open>kernel_ok\<close> and the queue \<open>pending\<close> hold under every thread.
  \<^item> \<open>Event_Timer\<close>, \<open>Timer_Laws\<close>: the reading of the clock (\<open>clock.c\<close>), \<open>timer.c\<close>, \<open>etimer.c\<close>,
    with the clock as any sequence of readings; \<open>Callback_Timer\<close>: \<open>ctimer.c\<close>.
  \<^item> \<open>Sensors_Process\<close>: \<open>core/lib/sensors.c\<close>, through which buttons reach the processes.
  \<^item> \<open>Power_Save\<close>: when and for how long the chip sleeps (\<open>lpm.c\<close>, \<open>soc-rtc.c\<close>).
  \<^item> \<open>Relay_Kernel\<close>: \<open>relay.c\<close>, \<open>dag_node.c\<close> and the receive process of the radio as processes of
    this kernel.
  \<^item> \<open>Kernel_Props\<close>: the properties of this part with their witnesses.

  \<^bold>\<open>Theories of the MAC layer.\<close>
  \<^item> \<open>Csma\<close>: \<open>csma.c\<close> over \<open>queuebuf.c\<close> and the sending half of \<open>nullrdc.c\<close>, with the lists and pools
    of the operating system; the radio driver, the clock and the random numbers are the parameter
    \<open>rdc_ops\<close>. The callback \<open>packet_sent\<close> runs inside of the transmission, as in the code.
  \<^item> \<open>Csma_Laws\<close>: the invariant \<open>csma_ok\<close> (which list cells, packets and buffers are in use), every
    operation on the abstract queues \<open>view\<close>, in the locale \<open>rdc_driver\<close> of what the transmission of a frame needs.
  \<^item> \<open>Mac_Layer\<close>: sequences of packets to send and firing timers (\<open>mac_run\<close>) refine the queues
    \<open>mac_spec\<close>; conservation of packets; a measure that every firing decreases (\<open>patience\<close>).
  \<^item> \<open>Frame802154\<close>, \<open>Frame_Laws\<close>: \<open>frame802154.c\<close> and \<open>framer-802154.c\<close>; what is written is read back,
    and reading depends on the received bytes only.
  \<^item> \<open>Mac_Receive\<close>, \<open>Receive_Laws\<close>: \<open>mac-sequence.c\<close> and the receiving half of \<open>nullrdc.c\<close>; the table
    of numbers against the history of frames (\<open>heard\<close>), a received frame against \<open>rx_spec\<close>.
  \<^item> \<open>Mac_Radio\<close>: locale \<open>radio_clock\<close>, which implies \<open>rdc_driver\<close> for radios that use the framer
    of this library, and a reference radio (\<open>air_ops\<close>) as its interpretation.
  \<^item> \<open>Mac_Props\<close>: the properties of this part with their witnesses.

  \<^bold>\<open>Theories of the adaptation layer.\<close>
  \<^item> \<open>Sicslowpan\<close>: \<open>core/net/ipv6/sicslowpan.c\<close>, from the datagram in \<open>uip_buf\<close> to packets of the MAC
    layer (\<open>sicslowpan_output\<close> over the state of \<open>Csma\<close>) and back (\<open>sicslowpan_input\<close>), with the contexts and
    buffers of fragments; \<open>tcpip_input\<close> records what the stack above is given.
  \<^item> \<open>Iphc_Laws\<close>: every field of a compressed header is read back, and the whole header (\<open>header_read_back\<close>), but
    for the bytes 2 to 7 of a link-local source that compression drops (\<open>local_src\<close>, \<open>iphc_sent\<close>). \<open>ip_ok\<close> says
    that a datagram has version 6 and true fields of length.
  \<^item> \<open>Fragment_Laws\<close>: the invariant \<open>lowpan_ok\<close> of contexts and buffers; no access out of bounds for frames
    that \<open>fragment_fits\<close> describes.
  \<^item> \<open>Reassembly\<close>: whole datagrams, first fragments and next ones in any order; \<open>gathering\<close> says what a
    context has collected, \<open>pieces\<close> how a datagram is cut. A fragment behind the end of the buffer is kept
    (\<open>next_kept\<close>) and spoils every later copy (\<open>copy_bufs_none\<close>).
  \<^item> \<open>Lowpan_Output\<close>: a datagram that fits a frame is handed to the link layer in one packet.
  \<^item> \<open>Lowpan_Props\<close>: the properties of this part with their witnesses.

  \<^bold>\<open>How the parts compose.\<close> The properties across components are stated over the models of
  all of them: \<open>firmware_update_installs\<close> runs the announcement and all chunks through the
  packet handler and the update process of a node, over the OTA functions and any
  flash that meets the contract, and then the bootloader on the same device;
  \<open>host_switches_relay\<close> runs a frame of the host through the root, a node and the relay;
  \<open>time_sync_lags\<close> composes the request of a node, the answer of the root and the correction;
  \<open>commands_together_execute_last\<close> runs commands that arrive together through the scheduler, the
  receive process, the packet handler of the node and the main process of the relay;
  \<open>sent_frame_is_received\<close> runs a packet through the framer of the sender and \<open>packet_input\<close> of the
  receiver.

  \<^bold>\<open>Bounds and fuel.\<close> \<open>boot_run 2\<close> allows two runs of the bootloader; this is enough because every
  branch that resets leaves a flag whose branch starts the image. \<open>fw_timers\<close> is a
  number of steps of the update process: 25 erase the slot and request the first chunk, 2 take
  one chunk and request the next, and 13 with an expired deadline are the seven requests and the
  end. An image has at most 170 chunks of 600 bytes, which fit the 25 pages of a slot.
  The fuel of the kernel bounds how deep processes call each other, and the number of processes in
  a round; the theorems name the amount that is enough, such as the number of processes and
  2. \<open>poll_fuel\<close> bounds the restarts of the scan of the timers, one for each timer.
  A packet is reported after at most six firings of its timer for each transmission it may have and six
  more, because the sixth collision in a row counts as a transmission.

  \<^bold>\<open>Assumptions.\<close> The hypotheses on the flash are the contracts of the locales, which the
  reference board meets for every erase unit. The properties of updates and packets hold for units of any
  whole number of 4096-byte pages: the code counts pages of 4096 bytes, but its instruction 0xD8 erases
  64 KB on the M25P40, and then the units of a slot reach into its neighbours, which these properties say exactly
  (\<open>erase_slot_1_hits_golden_64k\<close> is an example). \<open>images_fit\<close> bounds the size fields of the stored images; without
  it the bootloader does not end (\<open>boot_hangs_on_size\<close>). Interrupts are taken between the steps of
  processes, where the code enables them. \<open>radio_clock\<close> says that the
  counter of the rtimer reaches every time that the driver waits for. The functions that upper layers
  give to \<open>send_packet\<close> are recorded, not run: they do not send again before \<open>packet_sent\<close> is done.

  \<^bold>\<open>Not modelled.\<close> The rest of Contiki (\<open>core\<close>, \<open>cpu\<close>, \<open>apps\<close>, \<open>dev\<close>, \<open>tools\<close>) is vendored:
  for the layers above the adaptation layer sending a packet is an event, the state of routing is an argument, the callbacks of \<open>rtimer.c\<close>
  are a parameter of the interrupt handler, and the steps that switch the hardware off and on around
  sleep are left out. In the theories of the network part the delivery of
  \<open>PROCESS_EVENT_EXIT\<close> to a thread is the removal of the process from the set of running ones.
  After \<open>System_Reset\<close> and \<open>Watchdog_Reboot\<close> nothing more happens on the device (\<open>node_up\<close>).
  Of the MAC layer, link-layer security and the swapping of packet buffers to a file are left out (both are
  configured off), as are other duty-cycling drivers, and the driver of the radio core, which is the parameter.
  Of the adaptation layer, link statistics, the sniffer callback (nothing sets it), the other compression
  schemes and TCP's packet types are left out; a header is read from memory behind the frame as the code reads it.
  Debug output (but for the dump of a UART message by the root, which reads its payload, and the error line of the
  sniffer on the UART of its messages), the LEDs of the root, the configuration of pins and interrupts, the
  shell, \<open>crypto-common.c\<close> (only the uncalled \<open>uart_console\<close> uses it), floating-point conversions of sensor values and the
  Lua software of the host are left out.
\<close>

end
